(* ===== verification/Prelude.thy ===== *)
theory Prelude
  imports Complex_Main "HOL-Library.Multiset" "HOL-Library.AList"
begin

text \<open>
  What the component theories share.  Types: a Go \<open>float64\<close> is a \<open>real\<close> (the exact value of
  the arithmetic, without rounding), an \<open>int64\<close> or \<open>int\<close> that holds a time, a duration or a
  count is an \<open>int\<close>, a \<open>string\<close> is the list of its bytes.  A Go map that the code only looks
  up is a partial function; a Go map that the code ranges over is an association list in the
  order of that range statement, so that a theorem about every list of distinct keys is a
  theorem about every iteration order.  Each reading of the clock is an argument.
  The lemma collections \<open>go_simps\<close> and \<open>state_splits\<close> carry the component proofs.
\<close>

type_synonym float64 = real
type_synonym int64 = int
type_synonym go_time = int
type_synonym duration = int

named_theorems go_simps \<open>unfolding rules of the small Go helpers\<close>
named_theorems bounds_intros \<open>introduction rules for bounds on prices and weights\<close>

section \<open>Go's conversions and helpers\<close>

text \<open>The conversion \<open>int(x)\<close> of a float64 truncates towards zero.\<close>

definition trunc_int :: "real \<Rightarrow> int" where
  "trunc_int x = (if x < 0 then \<lceil>x\<rceil> else \<lfloor>x\<rfloor>)"

lemma trunc_int_nonneg [simp]: "0 \<le> x \<Longrightarrow> trunc_int x = \<lfloor>x\<rfloor>"
  by (simp add: trunc_int_def)

lemma trunc_int_mono: "x \<le> y \<Longrightarrow> trunc_int x \<le> trunc_int y"
  unfolding trunc_int_def
  by (smt (verit) ceiling_le_zero ceiling_mono floor_mono zero_le_floor)

text \<open>Integer division of Go truncates towards zero.\<close>

definition go_div :: "int \<Rightarrow> int \<Rightarrow> int" where
  "go_div a b = sgn a * sgn b * (\<bar>a\<bar> div \<bar>b\<bar>)"

lemma go_div_nonneg [simp]: "0 \<le> a \<Longrightarrow> 0 < b \<Longrightarrow> go_div a b = a div b"
  by (auto simp: go_div_def sgn_if)

text \<open>A map read without the comma-ok form gives the zero value for a missing key.\<close>

definition map_get :: "'v \<Rightarrow> ('k \<rightharpoonup> 'v) \<Rightarrow> 'k \<Rightarrow> 'v" where
  "map_get z m k = (case m k of None \<Rightarrow> z | Some v \<Rightarrow> v)"

lemma map_get_simps [simp]:
  "m k = None \<Longrightarrow> map_get z m k = z"
  "m k = Some v \<Longrightarrow> map_get z m k = v"
  by (simp_all add: map_get_def)

lemma map_get_upd [simp]: "map_get z (m(k \<mapsto> v)) k' = (if k' = k then v else map_get z m k')"
  by (simp add: map_get_def)

text \<open>
  ASCII case folding, the part of \<open>strings.EqualFold\<close> the identifiers of the code need: addresses,
  assets, venues and regions.  Go also folds other scripts (and the Kelvin sign to k, the long s to
  s); strings that are equal only by such a rule are not equal here.
\<close>

definition ascii_lower :: "char \<Rightarrow> char" where
  "ascii_lower c = (if 65 \<le> (of_char c :: nat) \<and> (of_char c :: nat) \<le> 90
                    then char_of ((of_char c :: nat) + 32) else c)"

definition equal_fold :: "string \<Rightarrow> string \<Rightarrow> bool" where
  "equal_fold s t \<longleftrightarrow> map ascii_lower s = map ascii_lower t"

lemma equal_fold_refl [simp]: "equal_fold s s"
  by (simp add: equal_fold_def)

lemma equal_fold_sym: "equal_fold s t \<Longrightarrow> equal_fold t s"
  by (simp add: equal_fold_def)

lemma equal_fold_trans: "equal_fold s t \<Longrightarrow> equal_fold t u \<Longrightarrow> equal_fold s u"
  by (simp add: equal_fold_def)

text \<open>A formatted message is kept as its format and its arguments.\<close>

datatype fmt_arg = AStr string | AFlt real | AInt int | ATime go_time
datatype gotext = Sprintf string "fmt_arg list"

abbreviation Txt :: "string \<Rightarrow> gotext" where
  "Txt s \<equiv> Sprintf s []"

text \<open>Times are nanoseconds since the Unix epoch, in UTC.\<close>

definition hour_ns :: duration where
  "hour_ns = 3600 * 10 ^ 9"

text \<open>The zero \<open>time.Time\<close> is the start of year 1.\<close>

definition zero_time :: go_time where
  "zero_time = - 62135596800 * 10 ^ 9"

definition day_ns :: duration where
  "day_ns = 24 * hour_ns"

lemma hour_day_pos [simp]: "0 < hour_ns" "0 < day_ns"
  by (simp_all add: hour_ns_def day_ns_def)

text \<open>\<open>time.Parse("2006-01-02", s)\<close>: four, two and two digits and a day of the calendar.\<close>

definition digit :: "char \<Rightarrow> int option" where
  "digit c = (let n = (of_char c :: int) in if 48 \<le> n \<and> n \<le> 57 then Some (n - 48) else None)"

fun digits :: "int \<Rightarrow> string \<Rightarrow> int option" where
  "digits acc [] = Some acc"
| "digits acc (c # cs) = (case digit c of None \<Rightarrow> None | Some d \<Rightarrow> digits (10 * acc + d) cs)"

definition leap_year :: "int \<Rightarrow> bool" where
  "leap_year y \<longleftrightarrow> y mod 4 = 0 \<and> (y mod 100 \<noteq> 0 \<or> y mod 400 = 0)"

definition days_in_month :: "int \<Rightarrow> int \<Rightarrow> int" where
  "days_in_month y m =
     (if m = 2 then (if leap_year y then 29 else 28)
      else if m \<in> {4, 6, 9, 11} then 30 else 31)"

definition days_from_civil :: "int \<Rightarrow> int \<Rightarrow> int \<Rightarrow> int" where
  "days_from_civil y m d =
     365 * (y - 1) + (y - 1) div 4 - (y - 1) div 100 + (y - 1) div 400 - 719162
     + sum_list (map (days_in_month y) [1..m - 1]) + (d - 1)"

definition parse_date :: "string \<Rightarrow> go_time option" where
  "parse_date s =
     (case s of
        [a, b, c, d, s1, e, f, s2, g, h] \<Rightarrow>
          (if s1 = CHR ''-'' \<and> s2 = CHR ''-'' then
             (case (digits 0 [a, b, c, d], digits 0 [e, f], digits 0 [g, h]) of
                (Some y, Some m, Some day) \<Rightarrow>
                  (if 1 \<le> m \<and> m \<le> 12 \<and> 1 \<le> day \<and> day \<le> days_in_month y m
                   then Some (days_from_civil y m day * day_ns) else None)
              | _ \<Rightarrow> None)
           else None)
      | _ \<Rightarrow> None)"

text \<open>\<open>fmt.Sprintf("%d", n)\<close> in decimal.\<close>

fun show_nat :: "nat \<Rightarrow> string" where
  "show_nat n = (if n < 10 then [char_of (48 + n)] else show_nat (n div 10) @ [char_of (48 + n mod 10)])"

declare show_nat.simps [simp del]

definition show_int :: "int \<Rightarrow> string" where
  "show_int i = (if i < 0 then CHR ''-'' # show_nat (nat (- i)) else show_nat (nat i))"

section \<open>Lists, sums and maps\<close>

lemma dropWhile_sorted_filter:
  fixes f :: "'a \<Rightarrow> 'b::linorder"
  shows "sorted (map f xs) \<Longrightarrow> dropWhile (\<lambda>x. f x < c) xs = filter (\<lambda>x. c \<le> f x) xs"
proof (induction xs)
  case Nil
  show ?case by simp
next
  case (Cons x xs)
  show ?case
  proof (cases "f x < c")
    case True
    with Cons show ?thesis by simp
  next
    case False
    with Cons.prems have "\<forall>y\<in>set xs. c \<le> f y" by force
    with False show ?thesis by (simp add: filter_id_conv)
  qed
qed

lemma sum_list_mset_cong:
  fixes f :: "'a \<Rightarrow> 'b::comm_monoid_add"
  shows "mset xs = mset ys \<Longrightarrow> sum_list (map f xs) = sum_list (map f ys)"
  by (metis mset_map sum_mset_sum_list)

lemma sum_list_map_nonneg:
  fixes f :: "'a \<Rightarrow> real"
  shows "(\<And>x. x \<in> set xs \<Longrightarrow> 0 \<le> f x) \<Longrightarrow> 0 \<le> sum_list (map f xs)"
  by (induction xs) auto

lemma sum_list_map_pos:
  fixes f :: "'a \<Rightarrow> real"
  shows "(\<And>x. x \<in> set xs \<Longrightarrow> 0 < f x) \<Longrightarrow> xs \<noteq> [] \<Longrightarrow> 0 < sum_list (map f xs)"
proof (induction xs)
  case Nil
  then show ?case by simp
next
  case (Cons x xs)
  then show ?case by (cases xs) (auto intro: add_pos_pos)
qed

lemma sum_list_map_mono_real:
  fixes f g :: "'a \<Rightarrow> real"
  shows "(\<And>x. x \<in> set xs \<Longrightarrow> f x \<le> g x) \<Longrightarrow> sum_list (map f xs) \<le> sum_list (map g xs)"
  by (induction xs) (auto intro: add_mono)

lemma member_le_sum_list_real:
  fixes f :: "'a \<Rightarrow> real"
  shows "(\<And>x. x \<in> set xs \<Longrightarrow> 0 \<le> f x) \<Longrightarrow> y \<in> set xs \<Longrightarrow> f y \<le> sum_list (map f xs)"
proof (induction xs)
  case Nil
  then show ?case by simp
next
  case (Cons a xs)
  have "0 \<le> sum_list (map f xs)" using Cons.prems(1) by (intro sum_list_map_nonneg) simp
  with Cons show ?case by fastforce
qed

lemma sum_list_map_zero_iff:
  fixes f :: "'a \<Rightarrow> real"
  assumes "\<And>x. x \<in> set xs \<Longrightarrow> 0 \<le> f x"
  shows "sum_list (map f xs) = 0 \<longleftrightarrow> (\<forall>x\<in>set xs. f x = 0)"
  using assms
proof (induction xs)
  case Nil
  show ?case by simp
next
  case (Cons a xs)
  have "0 \<le> sum_list (map f xs)" "0 \<le> f a"
    using Cons.prems by (auto intro: sum_list_map_nonneg)
  then show ?case using Cons.IH Cons.prems by (auto simp: add_nonneg_eq_0_iff)
qed

lemma map_of_mset_distinct:
  assumes "mset xs = mset ys" "distinct (map fst xs)"
  shows "map_of xs = map_of ys"
proof -
  have "distinct (map fst ys)"
    using assms by (metis mset_eq_imp_distinct_iff mset_map)
  then show ?thesis using assms
    by (intro map_of_inject_set [THEN iffD2]) (auto dest: mset_eq_setD)
qed

text \<open>A slice cut down to its last \<open>n\<close> elements.\<close>

definition keep_last :: "nat \<Rightarrow> 'a list \<Rightarrow> 'a list" where
  "keep_last n xs = (if length xs > n then drop (length xs - n) xs else xs)"

lemma keep_last_length [simp]: "length (keep_last n xs) = min n (length xs)"
  by (simp add: keep_last_def)

lemma set_keep_last: "set (keep_last n xs) \<subseteq> set xs"
  by (simp add: keep_last_def set_drop_subset)

lemma sort_mset_cong: "mset xs = mset ys \<Longrightarrow> sort xs = sort ys"
  by (metis mset_sort properties_for_sort sorted_sort)

text \<open>A weighted sum with nonnegative weights lies between the bounds of its terms.\<close>

lemma weighted_sum_bounds:
  fixes w f :: "'a \<Rightarrow> real"
  assumes "\<And>x. x \<in> set xs \<Longrightarrow> 0 \<le> w x"
      and "\<And>x. x \<in> set xs \<Longrightarrow> 0 < w x \<Longrightarrow> lo \<le> f x \<and> f x \<le> hi"
  shows "lo * sum_list (map w xs) \<le> (\<Sum>x\<leftarrow>xs. w x * f x) \<and>
         (\<Sum>x\<leftarrow>xs. w x * f x) \<le> hi * sum_list (map w xs)"
  using assms
proof (induction xs)
  case Nil
  show ?case by simp
next
  case (Cons a xs)
  have IH: "lo * sum_list (map w xs) \<le> (\<Sum>x\<leftarrow>xs. w x * f x) \<and>
            (\<Sum>x\<leftarrow>xs. w x * f x) \<le> hi * sum_list (map w xs)"
    using Cons by simp
  have "lo * w a \<le> w a * f a \<and> w a * f a \<le> hi * w a"
  proof (cases "w a = 0")
    case True
    then show ?thesis by simp
  next
    case False
    with Cons.prems(1) [of a] have "0 < w a" by simp
    with Cons.prems(2) [of a] show ?thesis by (simp add: mult.commute mult_left_mono)
  qed
  with IH show ?case by (simp add: algebra_simps)
qed

lemma alist_update_set: "e \<in> set (AList.update k v xs) \<Longrightarrow> e = (k, v) \<or> e \<in> set xs"
  by (induction xs) (auto split: if_splits)

lemma alist_delete_set: "e \<in> set (AList.delete k xs) \<Longrightarrow> e \<in> set xs \<and> fst e \<noteq> k"
  by (auto simp: AList.delete_eq)

end
