(* ===== verification/Consensus_Types.thy ===== *)
theory Consensus_Types
  imports Prelude
begin

text \<open>
  The data of internal/consensus (types.go, config.go).  Every struct is a record with the
  fields of the code, prefixed because record fields share one name space.  \<open>VenueState\<close> is an
  open string type in Go: \<open>StateOther\<close> stands for any value that is not one of the three
  constants (the zero value included).  \<open>LoadPolicy\<close> takes the file system, the YAML decoder
  and the environment as parameters.
\<close>

type_synonym Venue = string
type_synonym Symbol = string

datatype VenueState = StateOK | StateWarn | StateBlacklisted | StateOther string

record Orderbook =
  ob_Bids :: "(real \<times> real) list"
  ob_Asks :: "(real \<times> real) list"

record FeedHealth =
  fh_WsConnected :: bool
  fh_LastMsgTsMs :: int64

record Quote =
  q_SchemaVersion :: int
  q_TenantID :: string
  q_Venue :: Venue
  q_Symbol :: Symbol
  q_TsMs :: int64
  q_BestBid :: float64
  q_BestAsk :: float64
  q_Mark :: float64
  q_Index :: float64
  q_BidDepth1Pct :: float64
  q_AskDepth1Pct :: float64
  q_Orderbook :: "Orderbook option"
  q_FeeBpsTaker :: float64
  q_FundingRate :: float64
  q_FeedHealth :: FeedHealth

record VenueStatus =
  vs_State :: VenueState
  vs_OutlierSinceMs :: int64
  vs_HardOutlierSinceMs :: int64
  vs_WarnSinceMs :: int64
  vs_BlacklistUntilMs :: int64
  vs_RecoverySinceMs :: int64
  vs_Reason :: string

record VenueMetrics =
  vm_Venue :: Venue
  vm_Status :: VenueState
  vm_Trust :: float64
  vm_Mid :: float64
  vm_BuyExec :: float64
  vm_SellExec :: float64
  vm_EffectiveBuy :: float64
  vm_EffectiveSell :: float64
  vm_DeviationBps :: float64
  vm_Flags :: "string list"

record Consensus =
  c_Mid :: float64
  c_BuyExec :: float64
  c_SellExec :: float64
  c_BandLow :: float64
  c_BandHigh :: float64
  c_Quality :: string

record ConsensusUpdate =
  cu_SchemaVersion :: int
  cu_TenantID :: string
  cu_Symbol :: Symbol
  cu_TsMs :: int64
  cu_SizeNotionalUSD :: float64
  cu_Consensus :: Consensus
  cu_Venues :: "VenueMetrics list"

record VenueAnomaly =
  an_SchemaVersion :: int
  an_TenantID :: string
  an_Symbol :: Symbol
  an_Venue :: Venue
  an_TsMs :: int64
  an_AnomalyType :: string
  an_Severity :: string
  an_DeviationBps :: float64
  an_ConsensusMid :: float64
  an_VenueMid :: float64
  an_WindowMs :: int64
  an_RecommendedAction :: string

record VenueStatusUpdate =
  su_SchemaVersion :: int
  su_TenantID :: string
  su_Venue :: Venue
  su_Symbol :: Symbol
  su_TsMs :: int64
  su_Status :: VenueState
  su_TtlMs :: int64
  su_Reason :: string

section \<open>config.go\<close>

record SymbolOverride =
  so_OutlierBpsWarn :: "float64 option"
  so_OutlierBpsBlacklist :: "float64 option"
  so_StaleMs :: "int64 option"
  so_SpreadWarnBps :: "float64 option"
  so_SizeNotionalUSD :: "float64 option"
  so_SlippageBufferBps :: "float64 option"
  so_DepthPenaltyBps :: "float64 option"

record RedisConfig =
  rc_Addr :: string
  rc_Password :: string
  rc_UseTLS :: bool
  rc_InputStream :: string
  rc_OutputConsensus :: string
  rc_OutputAnomalies :: string
  rc_OutputStatus :: string
  rc_ConsumerGroup :: string
  rc_ConsumerName :: string
  rc_BlockMs :: int64
  rc_BatchSize :: int64

record Policy =
  p_SizeNotionalUSD :: float64
  p_StaleMs :: int64
  p_StalePauseMs :: int64
  p_OutlierBpsWarn :: float64
  p_OutlierBpsBlacklist :: float64
  p_WarnPersistMs :: int64
  p_BlacklistPersistMs :: int64
  p_BlacklistTtlMs :: int64
  p_RecoveryMs :: int64
  p_SpreadWarnBps :: float64
  p_MinCoreQuorum :: int
  p_CoreVenues :: "string list"
  p_OptionalVenues :: "string list"
  p_Symbols :: "string list"
  p_BaseTrust :: "string \<rightharpoonup> float64"
  p_SlippageBufferBps :: float64
  p_DepthPenaltyBps :: float64
  p_SymbolOverrides :: "string \<rightharpoonup> SymbolOverride"
  p_Redis :: RedisConfig

text \<open>A nil pointer in the override keeps the value of the base policy.\<close>

definition override :: "'a option \<Rightarrow> 'a \<Rightarrow> 'a" where
  "override ov v = (case ov of None \<Rightarrow> v | Some x \<Rightarrow> x)"

definition ResolvedPolicy :: "Policy \<Rightarrow> string \<Rightarrow> Policy" where
  "ResolvedPolicy p symbol =
     (case p_SymbolOverrides p symbol of
        None \<Rightarrow> p
      | Some ovr \<Rightarrow>
          p\<lparr>p_OutlierBpsWarn := override (so_OutlierBpsWarn ovr) (p_OutlierBpsWarn p),
            p_OutlierBpsBlacklist :=
              override (so_OutlierBpsBlacklist ovr) (p_OutlierBpsBlacklist p),
            p_StaleMs := override (so_StaleMs ovr) (p_StaleMs p),
            p_SpreadWarnBps := override (so_SpreadWarnBps ovr) (p_SpreadWarnBps p),
            p_SizeNotionalUSD := override (so_SizeNotionalUSD ovr) (p_SizeNotionalUSD p),
            p_SlippageBufferBps := override (so_SlippageBufferBps ovr) (p_SlippageBufferBps p),
            p_DepthPenaltyBps := override (so_DepthPenaltyBps ovr) (p_DepthPenaltyBps p)\<rparr>)"

definition ApplyEnvOverrides :: "(string \<Rightarrow> string) \<Rightarrow> Policy \<Rightarrow> Policy" where
  "ApplyEnvOverrides getenv p =
     (let addr = getenv ''REDIS_ADDR'';
          pass = getenv ''REDIS_PASSWORD'';
          r0 = p_Redis p;
          r1 = (if addr \<noteq> '''' then r0\<lparr>rc_Addr := addr\<rparr> else r0);
          r2 = (if pass \<noteq> '''' then r1\<lparr>rc_Password := pass\<rparr> else r1);
          r3 = (if equal_fold (getenv ''REDIS_TLS'') ''true'' then r2\<lparr>rc_UseTLS := True\<rparr> else r2)
      in p\<lparr>p_Redis := r3\<rparr>)"

datatype policy_error =
  ReadError string | ParseError | MinCoreQuorumTooSmall | SizeNotPositive | NoCoreVenues

definition validate_policy :: "Policy \<Rightarrow> policy_error option" where
  "validate_policy p =
     (if p_MinCoreQuorum p < 1 then Some MinCoreQuorumTooSmall
      else if p_SizeNotionalUSD p \<le> 0 then Some SizeNotPositive
      else if p_CoreVenues p = [] then Some NoCoreVenues
      else None)"

definition LoadPolicy ::
  "(string \<Rightarrow> string option) \<Rightarrow> (string \<Rightarrow> Policy option) \<Rightarrow> (string \<Rightarrow> string) \<Rightarrow> string
   \<Rightarrow> policy_error + Policy" where
  "LoadPolicy readFile unmarshal getenv path =
     (case readFile path of
        None \<Rightarrow> Inl (ReadError path)
      | Some data \<Rightarrow>
          (case unmarshal data of
             None \<Rightarrow> Inl ParseError
           | Some p0 \<Rightarrow>
               (let p = ApplyEnvOverrides getenv p0 in
                case validate_policy p of Some e \<Rightarrow> Inl e | None \<Rightarrow> Inr p)))"

definition CoreVenueSet :: "Policy \<Rightarrow> Venue \<Rightarrow> bool" where
  "CoreVenueSet p v \<longleftrightarrow> v \<in> set (p_CoreVenues p)"

section \<open>Lemmas\<close>

text \<open>The fields an override never touches.\<close>

lemma ResolvedPolicy_frame [simp]:
  "p_StalePauseMs (ResolvedPolicy p s) = p_StalePauseMs p"
  "p_WarnPersistMs (ResolvedPolicy p s) = p_WarnPersistMs p"
  "p_BlacklistPersistMs (ResolvedPolicy p s) = p_BlacklistPersistMs p"
  "p_BlacklistTtlMs (ResolvedPolicy p s) = p_BlacklistTtlMs p"
  "p_RecoveryMs (ResolvedPolicy p s) = p_RecoveryMs p"
  "p_MinCoreQuorum (ResolvedPolicy p s) = p_MinCoreQuorum p"
  "p_CoreVenues (ResolvedPolicy p s) = p_CoreVenues p"
  "p_BaseTrust (ResolvedPolicy p s) = p_BaseTrust p"
  "p_SymbolOverrides (ResolvedPolicy p s) = p_SymbolOverrides p"
  by (simp_all add: ResolvedPolicy_def split: option.splits)

lemma ResolvedPolicy_idem: "ResolvedPolicy (ResolvedPolicy p s) s = ResolvedPolicy p s"
  by (simp add: ResolvedPolicy_def override_def split: option.splits)

lemma CoreVenueSet_Resolved [simp]: "CoreVenueSet (ResolvedPolicy p s) = CoreVenueSet p"
  by (simp add: CoreVenueSet_def fun_eq_iff)

lemma ApplyEnvOverrides_frame [simp]:
  "p_MinCoreQuorum (ApplyEnvOverrides g p) = p_MinCoreQuorum p"
  "p_SizeNotionalUSD (ApplyEnvOverrides g p) = p_SizeNotionalUSD p"
  "p_CoreVenues (ApplyEnvOverrides g p) = p_CoreVenues p"
  by (simp_all add: ApplyEnvOverrides_def Let_def)

lemma validate_policy_None:
  "validate_policy p = None \<longleftrightarrow>
     1 \<le> p_MinCoreQuorum p \<and> 0 < p_SizeNotionalUSD p \<and> p_CoreVenues p \<noteq> []"
  by (auto simp: validate_policy_def)

lemma LoadPolicy_valid:
  "LoadPolicy rf um g path = Inr p \<Longrightarrow> validate_policy p = None"
  by (auto simp: LoadPolicy_def Let_def split: option.splits)

section \<open>A concrete policy for the witnesses\<close>

definition sample_policy :: Policy where
  "sample_policy = \<lparr>p_SizeNotionalUSD = 1000, p_StaleMs = 2000, p_StalePauseMs = 0,
     p_OutlierBpsWarn = 30, p_OutlierBpsBlacklist = 60, p_WarnPersistMs = 500,
     p_BlacklistPersistMs = 1500, p_BlacklistTtlMs = 60000, p_RecoveryMs = 20000,
     p_SpreadWarnBps = 10, p_MinCoreQuorum = 2,
     p_CoreVenues = [''binance'', ''okx''], p_OptionalVenues = [], p_Symbols = [''BTC-PERP''],
     p_BaseTrust = Map.empty, p_SlippageBufferBps = 5, p_DepthPenaltyBps = 20,
     p_SymbolOverrides = Map.empty,
     p_Redis = \<lparr>rc_Addr = '''', rc_Password = '''', rc_UseTLS = False, rc_InputStream = '''',
       rc_OutputConsensus = '''', rc_OutputAnomalies = '''', rc_OutputStatus = '''',
       rc_ConsumerGroup = '''', rc_ConsumerName = '''', rc_BlockMs = 0, rc_BatchSize = 0\<rparr>\<rparr>"

lemma sample_policy_simps [simp]:
  "ResolvedPolicy sample_policy s = sample_policy"
  "p_OutlierBpsWarn sample_policy = 30" "p_OutlierBpsBlacklist sample_policy = 60"
  "p_StalePauseMs sample_policy = 0" "p_BlacklistPersistMs sample_policy = 1500"
  "p_BlacklistTtlMs sample_policy = 60000" "p_RecoveryMs sample_policy = 20000"
  "p_WarnPersistMs sample_policy = 500"
  by (simp_all add: ResolvedPolicy_def sample_policy_def)

end
