(* ===== verification/Consensus_Math.thy ===== *)
theory Consensus_Math
  imports Consensus_Types
begin

text \<open>
  internal/consensus/math.go, trust.go and price.go: the robust statistics, the trust weights
  and the executable prices.  \<open>epsilon\<close> is the constant 1e-10 of the code.
\<close>

definition epsilon :: real where
  "epsilon = 1 / 10 ^ 10"

lemma epsilon_pos [simp]: "0 < epsilon"
  by (simp add: epsilon_def)

section \<open>math.go\<close>

definition Median :: "real list \<Rightarrow> real" where
  "Median vals =
     (let n = length vals; sorted = sort vals in
      if n = 0 then 0
      else if n mod 2 = 0 then (sorted ! (n div 2 - 1) + sorted ! (n div 2)) / 2
      else sorted ! (n div 2))"

definition Percentile :: "real list \<Rightarrow> real \<Rightarrow> real" where
  "Percentile vals p =
     (let n = length vals; sorted = sort vals in
      if n = 0 then 0
      else if p \<le> 0 then sorted ! 0
      else if p \<ge> 100 then sorted ! (n - 1)
      else (let rank = (p / 100) * real (n - 1);
                lo = nat \<lfloor>rank\<rfloor>;
                hi = lo + 1 in
            if hi \<ge> n then sorted ! (n - 1)
            else (let frac = rank - real lo
                  in sorted ! lo * (1 - frac) + sorted ! hi * frac)))"

definition DeviationBps :: "real \<Rightarrow> real \<Rightarrow> real" where
  "DeviationBps px ref = (if \<bar>ref\<bar> < epsilon then 0 else \<bar>px - ref\<bar> / ref * 10000)"

definition MAD :: "real list \<Rightarrow> real" where
  "MAD vals = (let med = Median vals in Median (map (\<lambda>v. \<bar>v - med\<bar>) vals))"

definition RobustZScore :: "real \<Rightarrow> real \<Rightarrow> real \<Rightarrow> real" where
  "RobustZScore val med mad = 0.6745 * \<bar>val - med\<bar> / (mad + epsilon)"

definition SpreadBps :: "real \<Rightarrow> real \<Rightarrow> real" where
  "SpreadBps bid ask =
     (let mid = (bid + ask) / 2 in if mid < epsilon then 0 else (ask - bid) / mid * 10000)"

section \<open>trust.go\<close>

record TrustPenalties =
  tp_IsOutlier :: bool
  tp_IsHardOutlier :: bool
  tp_SpreadBps :: float64
  tp_StalenessMs :: int64
  tp_StaleTholdMs :: int64
  tp_State :: VenueState

definition outlier_factor :: "TrustPenalties \<Rightarrow> real" where
  "outlier_factor p = (if tp_IsHardOutlier p then 0.05 else if tp_IsOutlier p then 0.10 else 1)"

definition stale_factor :: "TrustPenalties \<Rightarrow> real" where
  "stale_factor p =
     (if tp_StaleTholdMs p > 0 \<and> tp_StalenessMs p > go_div (tp_StaleTholdMs p) 2
      then (let fraction = real_of_int (tp_StalenessMs p) / real_of_int (tp_StaleTholdMs p);
                fraction = (if fraction > 1 then 1 else fraction)
            in 1 - 0.6 * fraction)
      else 1)"

definition spread_factor :: "TrustPenalties \<Rightarrow> real" where
  "spread_factor p =
     (if tp_SpreadBps p > 25 then 0.70 else if tp_SpreadBps p > 10 then 0.80 else 1)"

definition ComputeTrust :: "real \<Rightarrow> TrustPenalties \<Rightarrow> real" where
  "ComputeTrust base p =
     (if tp_State p = StateBlacklisted then 0
      else base * outlier_factor p * (if tp_State p = StateWarn then 0.60 else 1)
             * stale_factor p * spread_factor p)"

text \<open>
  The weights come in the order of the range statement; the result holds a venue exactly when
  the map of the code does.  The sum is of float64 in the order of the range statement; here it is
  the sum of the reals, in the order of the list, so the rounding that makes the last bits of the
  code's weights depend on the order is not modelled, and bounds on weighted sums hold up to it.
\<close>

definition NormalizeTrust :: "(Venue \<times> real) list \<Rightarrow> (Venue \<times> real) list" where
  "NormalizeTrust weights =
     (let sum = (\<Sum>(v, w)\<leftarrow>weights. if w > 0 then w else 0) in
      if sum < epsilon then [] else map (\<lambda>(v, w). (v, w / sum)) weights)"

section \<open>price.go\<close>

definition ComputeMid :: "Quote \<Rightarrow> real" where
  "ComputeMid q = (q_BestBid q + q_BestAsk q) / 2"

text \<open>The loop over the levels: what is left of the notional, the cost and the size so far.\<close>

fun vwap_loop :: "(real \<times> real) list \<Rightarrow> real \<Rightarrow> real \<Rightarrow> real \<Rightarrow> real \<times> real \<times> real" where
  "vwap_loop [] remaining totalCost totalSize = (remaining, totalCost, totalSize)"
| "vwap_loop ((price, sz) # levels) remaining totalCost totalSize =
     (let levelNotional = price * sz in
      if levelNotional \<ge> remaining
      then (let partial = remaining / price
            in (0, totalCost + partial * price, totalSize + partial))
      else vwap_loop levels (remaining - levelNotional)
             (totalCost + levelNotional) (totalSize + sz))"

definition vwapBuy :: "(real \<times> real) list \<Rightarrow> real \<Rightarrow> real \<Rightarrow> real \<times> bool" where
  "vwapBuy asks notionalUSD depthPenaltyBps =
     (case vwap_loop asks notionalUSD 0 0 of (remaining, totalCost, totalSize) \<Rightarrow>
        if remaining > 0 \<or> totalSize < epsilon
        then (fst (last asks) * (1 + depthPenaltyBps / 10000), False)
        else (totalCost / totalSize, True))"

definition vwapSell :: "(real \<times> real) list \<Rightarrow> real \<Rightarrow> real \<Rightarrow> real \<times> bool" where
  "vwapSell bids notionalUSD depthPenaltyBps =
     (case vwap_loop bids notionalUSD 0 0 of (remaining, totalProceeds, totalSize) \<Rightarrow>
        if remaining > 0 \<or> totalSize < epsilon
        then (fst (last bids) * (1 - depthPenaltyBps / 10000), False)
        else (totalProceeds / totalSize, True))"

definition ComputeExecutableBuy :: "Quote \<Rightarrow> real \<Rightarrow> real \<Rightarrow> real \<Rightarrow> real \<times> bool" where
  "ComputeExecutableBuy q notionalUSD slippageBps depthPenaltyBps =
     (let fallback =
            (let buf = max (SpreadBps (q_BestBid q) (q_BestAsk q) * 0.5) slippageBps
             in (q_BestAsk q * (1 + buf / 10000), True)) in
      case q_Orderbook q of
        Some ob \<Rightarrow> (if ob_Asks ob \<noteq> [] then vwapBuy (ob_Asks ob) notionalUSD depthPenaltyBps
                    else fallback)
      | None \<Rightarrow> fallback)"

definition ComputeExecutableSell :: "Quote \<Rightarrow> real \<Rightarrow> real \<Rightarrow> real \<Rightarrow> real \<times> bool" where
  "ComputeExecutableSell q notionalUSD slippageBps depthPenaltyBps =
     (let fallback =
            (let buf = max (SpreadBps (q_BestBid q) (q_BestAsk q) * 0.5) slippageBps
             in (q_BestBid q * (1 - buf / 10000), True)) in
      case q_Orderbook q of
        Some ob \<Rightarrow> (if ob_Bids ob \<noteq> [] then vwapSell (ob_Bids ob) notionalUSD depthPenaltyBps
                    else fallback)
      | None \<Rightarrow> fallback)"

definition ApplyFeesBuy :: "real \<Rightarrow> real \<Rightarrow> real" where
  "ApplyFeesBuy price feeBps = price * (1 + feeBps / 10000)"

definition ApplyFeesSell :: "real \<Rightarrow> real \<Rightarrow> real" where
  "ApplyFeesSell price feeBps = price * (1 - feeBps / 10000)"

section \<open>Order statistics\<close>

lemma sorted_nth_ge:
  fixes s :: "real list"
  assumes "sorted s" "k < length s" "length (filter (\<lambda>v. v < lo) s) \<le> k"
  shows "lo \<le> s ! k"
proof (rule ccontr)
  assume "\<not> lo \<le> s ! k"
  then have low: "s ! i < lo" if "i \<le> k" for i
    using sorted_nth_mono [OF assms(1) that assms(2)] by simp
  have "filter (\<lambda>v. v < lo) (take (Suc k) s) = take (Suc k) s"
    using low by (auto simp: filter_id_conv in_set_conv_nth less_Suc_eq_le)
  moreover have "length (filter (\<lambda>v. v < lo) (take (Suc k) s)) \<le> length (filter (\<lambda>v. v < lo) s)"
    by (metis append_take_drop_id filter_append le_add1 length_append)
  ultimately show False using assms(2,3) by simp
qed

lemma sorted_nth_le:
  fixes s :: "real list"
  assumes "sorted s" "k < length s" "length (filter (\<lambda>v. hi < v) s) + k < length s"
  shows "s ! k \<le> hi"
proof (rule ccontr)
  assume "\<not> s ! k \<le> hi"
  then have high: "hi < s ! (k + i)" if "k + i < length s" for i
    using sorted_nth_mono [OF assms(1) le_add1 that] by simp
  have "filter (\<lambda>v. hi < v) (drop k s) = drop k s"
    using high by (auto simp: filter_id_conv in_set_conv_nth)
  moreover have "length (filter (\<lambda>v. hi < v) (drop k s)) \<le> length (filter (\<lambda>v. hi < v) s)"
    by (metis append_take_drop_id filter_append le_add2 length_append)
  ultimately show False using assms(2,3) by simp
qed

lemma length_filter_sort: "length (filter P (sort xs)) = length (filter P xs)"
  by (metis mset_filter mset_sort size_mset)

text \<open>The breakdown point of the median: a strict majority inside an interval keeps it there.\<close>

lemma Median_majority:
  assumes "length vals < 2 * length (filter (\<lambda>v. lo \<le> v \<and> v \<le> hi) vals)"
  shows "lo \<le> Median vals \<and> Median vals \<le> hi"
proof -
  let ?n = "length vals" and ?s = "sort vals"
  let ?b = "length (filter (\<lambda>v. v < lo) ?s)" and ?a = "length (filter (\<lambda>v. hi < v) ?s)"
  have part: "length (filter (\<lambda>v. lo \<le> v \<and> v \<le> hi) vals)
                + length (filter (\<lambda>v. \<not> (lo \<le> v \<and> v \<le> hi)) vals) = ?n"
    by (rule sum_length_filter_compl)
  have le: "?b \<le> length (filter (\<lambda>v. \<not> (lo \<le> v \<and> v \<le> hi)) vals)"
       "?a \<le> length (filter (\<lambda>v. \<not> (lo \<le> v \<and> v \<le> hi)) vals)"
    unfolding length_filter_sort by (induction vals) auto
  have b: "2 * ?b < ?n" and a: "2 * ?a < ?n" using part le assms by linarith+
  have n: "0 < ?n" using assms by (cases vals) auto
  have nth: "lo \<le> ?s ! k \<and> ?s ! k \<le> hi" if "?b \<le> k" "?a + k < ?n" for k
    using that sorted_nth_ge [of ?s k lo] sorted_nth_le [of ?s k hi] by auto
  show ?thesis
  proof (cases "?n mod 2 = 0")
    case True
    then have "?b \<le> ?n div 2 - 1" "?a + (?n div 2 - 1) < ?n" "?b \<le> ?n div 2" "?a + ?n div 2 < ?n"
      using a b n by presburger+
    from nth [OF this(1,2)] nth [OF this(3,4)] show ?thesis
      using True n by (auto simp: Median_def Let_def)
  next
    case False
    then have "?b \<le> ?n div 2" "?a + ?n div 2 < ?n" using a b n by presburger+
    from nth [OF this] show ?thesis using False n by (auto simp: Median_def Let_def)
  qed
qed

corollary Median_bounds:
  assumes "vals \<noteq> []" "\<And>v. v \<in> set vals \<Longrightarrow> lo \<le> v \<and> v \<le> hi"
  shows "lo \<le> Median vals \<and> Median vals \<le> hi"
proof (rule Median_majority)
  have "filter (\<lambda>v. lo \<le> v \<and> v \<le> hi) vals = vals" using assms(2) by (simp add: filter_id_conv)
  then show "length vals < 2 * length (filter (\<lambda>v. lo \<le> v \<and> v \<le> hi) vals)"
    using assms(1) by (cases vals) auto
qed

lemma Median_Nil [simp]: "Median [] = 0"
  by (simp add: Median_def)

lemma Median_mset_cong: "mset xs = mset ys \<Longrightarrow> Median xs = Median ys"
  using sort_mset_cong [of xs ys] mset_eq_length [of xs ys] by (simp add: Median_def Let_def)

lemma Percentile_mset_cong: "mset xs = mset ys \<Longrightarrow> Percentile xs p = Percentile ys p"
  using sort_mset_cong [of xs ys] mset_eq_length [of xs ys] by (simp add: Percentile_def Let_def)

lemma MAD_mset_cong: "mset xs = mset ys \<Longrightarrow> MAD xs = MAD ys"
  unfolding MAD_def Let_def by (metis Median_mset_cong mset_map)

lemma mix_bounds:
  fixes a b t :: real
  assumes "lo \<le> a" "a \<le> hi" "lo \<le> b" "b \<le> hi" "0 \<le> t" "t \<le> 1"
  shows "lo \<le> a * (1 - t) + b * t \<and> a * (1 - t) + b * t \<le> hi"
proof -
  have "lo * (1 - t) \<le> a * (1 - t)" "a * (1 - t) \<le> hi * (1 - t)" "lo * t \<le> b * t" "b * t \<le> hi * t"
    using assms by (auto intro: mult_right_mono)
  then show ?thesis by (simp add: algebra_simps)
qed

lemma Percentile_bounds:
  assumes "vals \<noteq> []" and v: "\<And>v. v \<in> set vals \<Longrightarrow> lo \<le> v \<and> v \<le> hi"
  shows "lo \<le> Percentile vals p \<and> Percentile vals p \<le> hi"
proof -
  let ?n = "length vals" and ?s = "sort vals"
  define rank where "rank = (p / 100) * real (?n - 1)"
  define k where "k = nat \<lfloor>rank\<rfloor>"
  have in_s: "lo \<le> ?s ! i \<and> ?s ! i \<le> hi" if "i < ?n" for i
    using v that by (metis length_sort nth_mem set_sort)
  have n: "0 < ?n" using assms(1) by simp
  have eq: "Percentile vals p =
    (if p \<le> 0 then ?s ! 0 else if p \<ge> 100 \<or> k + 1 \<ge> ?n then ?s ! (?n - 1)
     else ?s ! k * (1 - (rank - real k)) + ?s ! (k + 1) * (rank - real k))"
    unfolding Percentile_def Let_def rank_def [symmetric] k_def [symmetric] using n by auto
  show ?thesis
  proof (cases "p \<le> 0 \<or> p \<ge> 100 \<or> k + 1 \<ge> ?n")
    case True
    then show ?thesis using in_s [of 0] in_s [of "?n - 1"] n unfolding eq by auto
  next
    case False
    have r: "0 \<le> rank" using False by (simp add: rank_def)
    have f: "0 \<le> rank - real k" "rank - real k \<le> 1" using r unfolding k_def by linarith+
    have s: "lo \<le> ?s ! k" "?s ! k \<le> hi" "lo \<le> ?s ! (k+1)" "?s ! (k+1) \<le> hi"
      using in_s [of k] in_s [of "k + 1"] False by auto
    show ?thesis
      using mix_bounds [OF s f] False unfolding eq by simp
  qed
qed

lemma DeviationBps_nonneg: "0 \<le> ref \<Longrightarrow> 0 \<le> DeviationBps px ref"
  by (simp add: DeviationBps_def)

section \<open>Trust weights\<close>

lemma outlier_factor_range: "0 \<le> outlier_factor p \<and> outlier_factor p \<le> 1"
  by (simp add: outlier_factor_def)

lemma spread_factor_range: "0 \<le> spread_factor p \<and> spread_factor p \<le> 1"
  by (simp add: spread_factor_def)

lemma stale_factor_range: "0 \<le> stale_factor p \<and> stale_factor p \<le> 1"
proof (cases "tp_StaleTholdMs p > 0 \<and> tp_StalenessMs p > go_div (tp_StaleTholdMs p) 2")
  case True
  define x where "x = real_of_int (tp_StalenessMs p) / real_of_int (tp_StaleTholdMs p)"
  from True have "0 \<le> tp_StaleTholdMs p div 2" "tp_StaleTholdMs p div 2 < tp_StalenessMs p" by auto
  then have "0 \<le> tp_StalenessMs p" by linarith
  with True have "0 \<le> x" by (simp add: x_def)
  moreover have "stale_factor p = 1 - 0.6 * (if x > 1 then 1 else x)"
    unfolding stale_factor_def Let_def x_def [symmetric] using True by presburger
  ultimately show ?thesis by simp
next
  case False
  then show ?thesis by (auto simp: stale_factor_def)
qed

lemmas factor_ranges = outlier_factor_range spread_factor_range stale_factor_range

lemma ComputeTrust_split:
  obtains f where "0 \<le> f" "f \<le> 1"
    "\<And>base. tp_State p \<noteq> StateBlacklisted \<Longrightarrow> ComputeTrust base p = base * outlier_factor p * f"
proof
  let ?w = "if tp_State p = StateWarn then 0.60 else (1::real)"
  let ?f = "?w * stale_factor p * spread_factor p"
  have w: "0 \<le> ?w" "?w \<le> 1" by simp_all
  show "0 \<le> ?f" using w(1) factor_ranges [of p] by (metis mult_nonneg_nonneg)
  show "?f \<le> 1" using w factor_ranges [of p] by (metis mult_le_one mult_nonneg_nonneg)
  show "ComputeTrust base p = base * outlier_factor p * ?f" if "tp_State p \<noteq> StateBlacklisted" for base
    using that by (simp add: ComputeTrust_def)
qed

lemma ComputeTrust_bounds:
  assumes "0 \<le> base"
  shows "0 \<le> ComputeTrust base p \<and> ComputeTrust base p \<le> base * outlier_factor p"
proof (cases "tp_State p = StateBlacklisted")
  case True
  then show ?thesis using assms outlier_factor_range [of p] by (simp add: ComputeTrust_def)
next
  case False
  obtain f where f: "0 \<le> f" "f \<le> 1" "ComputeTrust base p = base * outlier_factor p * f"
    using ComputeTrust_split [of p] False by metis
  have "0 \<le> base * outlier_factor p" using assms outlier_factor_range [of p] by simp
  with f show ?thesis by (simp add: mult_left_le)
qed

lemma ComputeTrust_blacklisted [simp]: "tp_State p = StateBlacklisted \<Longrightarrow> ComputeTrust base p = 0"
  by (simp add: ComputeTrust_def)

lemma NormalizeTrust_mset_cong:
  assumes "mset ws = mset ws'"
  shows "mset (NormalizeTrust ws) = mset (NormalizeTrust ws')"
proof -
  have "(\<Sum>(v, w)\<leftarrow>ws. if w > 0 then w else 0) = (\<Sum>(v, w)\<leftarrow>ws'. if w > 0 then w else 0)"
    using assms by (rule sum_list_mset_cong)
  with assms show ?thesis by (simp add: NormalizeTrust_def Let_def mset_map)
qed

lemma NormalizeTrust_keys: "set (map fst (NormalizeTrust ws)) \<subseteq> set (map fst ws)"
  by (auto simp: NormalizeTrust_def Let_def intro: rev_image_eqI)

lemma NormalizeTrust_distinct: "distinct (map fst ws) \<Longrightarrow> distinct (map fst (NormalizeTrust ws))"
  by (simp add: NormalizeTrust_def Let_def comp_def case_prod_beta)

lemma NormalizeTrust_nonneg:
  assumes "\<And>v w. (v, w) \<in> set ws \<Longrightarrow> 0 \<le> w"
  shows "NormalizeTrust ws =
    (let S = (\<Sum>x\<leftarrow>ws. snd x) in if S < epsilon then [] else map (\<lambda>(v, w). (v, w / S)) ws)"
proof -
  have "(\<Sum>(v, w)\<leftarrow>ws. if w > 0 then w else 0) = (\<Sum>x\<leftarrow>ws. snd x)"
    using assms by (intro arg_cong [where f = sum_list] map_cong) force+
  then show ?thesis unfolding NormalizeTrust_def by simp
qed

text \<open>Normalised weights are a convex combination, unless every weight vanishes.\<close>

lemma NormalizeTrust_convex:
  assumes pos: "\<And>v w. (v, w) \<in> set ws \<Longrightarrow> 0 \<le> w"
  shows "(\<forall>(v, w)\<in>set (NormalizeTrust ws). 0 \<le> w \<and> w \<le> 1) \<and>
         (NormalizeTrust ws = [] \<or> (\<Sum>x\<leftarrow>NormalizeTrust ws. snd x) = 1)"
proof (cases "(\<Sum>x\<leftarrow>ws. snd x) < epsilon")
  case True
  then show ?thesis by (simp add: NormalizeTrust_nonneg [OF pos])
next
  case False
  define S where "S = (\<Sum>x\<leftarrow>ws. snd x)"
  have S: "0 < S" using False epsilon_pos unfolding S_def by linarith
  have eq: "NormalizeTrust ws = map (\<lambda>(v, w). (v, w / S)) ws"
    using False by (simp add: NormalizeTrust_nonneg [OF pos] S_def Let_def)
  have le: "w \<le> S" if "(v, w) \<in> set ws" for v w
    using member_le_sum_list_real [of ws snd "(v, w)"] pos that by (force simp: S_def)
  have "(\<Sum>x\<leftarrow>ws. snd x / c) = (\<Sum>x\<leftarrow>ws. snd x) / c" for c :: real
    by (induction ws) (auto simp: add_divide_distrib)
  then have "(\<Sum>x\<leftarrow>NormalizeTrust ws. snd x) = 1"
    using S by (simp add: eq comp_def split_beta S_def)
  moreover have "\<forall>(v, w)\<in>set (NormalizeTrust ws). 0 \<le> w \<and> w \<le> 1"
    using le pos S by (auto simp: eq divide_le_eq)
  ultimately show ?thesis by blast
qed

lemma NormalizeTrust_zero:
  assumes "distinct (map fst ws)" "map_of ws v = Some 0"
  shows "map_get 0 (map_of (NormalizeTrust ws)) v = 0"
proof -
  have "map_of (map (\<lambda>(v, w). (v, w / S)) ws) v = Some 0" for S :: real
    using assms(2) by (induction ws) auto
  then show ?thesis by (simp add: NormalizeTrust_def Let_def)
qed

section \<open>Walking the book\<close>

definition walk_size :: "(real \<times> real) list \<Rightarrow> real \<Rightarrow> real" where
  "walk_size levels n = snd (snd (vwap_loop levels n 0 0))"

definition walk_rem :: "(real \<times> real) list \<Rightarrow> real \<Rightarrow> real" where
  "walk_rem levels n = fst (vwap_loop levels n 0 0)"

lemma vwap_loop_shift:
  "vwap_loop ls n c s =
     (let r = vwap_loop ls n 0 0 in (fst r, c + fst (snd r), s + snd (snd r)))"
proof (induction ls arbitrary: n c s)
  case Nil
  show ?case by simp
next
  case (Cons l ls)
  obtain p z where l: "l = (p, z)" by (cases l)
  show ?case
    using Cons.IH [of "n - p * z" "c + p * z" "s + z"] Cons.IH [of "n - p * z" "p * z" z]
    by (simp add: l Let_def)
qed

lemma walk_size_simps [simp]:
  "walk_size [] n = 0"
  "walk_size ((p, z) # ls) n = (if n \<le> p * z then n / p else z + walk_size ls (n - p * z))"
  using vwap_loop_shift [of ls "n - p * z" "p * z" z] by (simp_all add: walk_size_def Let_def)

lemma walk_rem_simps [simp]:
  "walk_rem [] n = n"
  "walk_rem ((p, z) # ls) n = (if n \<le> p * z then 0 else walk_rem ls (n - p * z))"
  using vwap_loop_shift [of ls "n - p * z" "p * z" z] by (simp_all add: walk_rem_def Let_def)

text \<open>A book whose levels have positive prices and nonnegative sizes.\<close>

definition good_levels :: "(real \<times> real) list \<Rightarrow> bool" where
  "good_levels ls \<longleftrightarrow> (\<forall>(p, z)\<in>set ls. 0 < p \<and> 0 \<le> z)"

lemma good_levels_simps [simp]:
  "good_levels []"
  "good_levels ((p, z) # ls) \<longleftrightarrow> 0 < p \<and> 0 \<le> z \<and> good_levels ls"
  by (auto simp: good_levels_def)

lemma vwap_loop_walk:
  assumes "good_levels ls"
  shows "vwap_loop ls n 0 0 = (walk_rem ls n, n - walk_rem ls n, walk_size ls n)"
proof -
  have "fst (snd (vwap_loop ls n 0 0)) = n - walk_rem ls n"
    using assms
  proof (induction ls arbitrary: n)
    case Nil
    show ?case by simp
  next
    case (Cons l ls)
    obtain p z where l: "l = (p, z)" by (cases l)
    show ?case
      using Cons vwap_loop_shift [of ls "n - p * z" "p * z" z] by (simp add: l Let_def)
  qed
  then show ?thesis by (simp add: walk_rem_def walk_size_def prod_eq_iff)
qed

lemma walk_rem_nonneg: "0 < n \<Longrightarrow> 0 \<le> walk_rem ls n"
  by (induction ls arbitrary: n) (auto split: if_splits)

text \<open>Size and money of a walk are related by the prices of the levels walked.\<close>

lemma walk_value_bounds:
  assumes "good_levels ls" "0 < n" "\<And>p z. (p, z) \<in> set ls \<Longrightarrow> lo \<le> p \<and> p \<le> hi"
  shows "lo * walk_size ls n \<le> n - walk_rem ls n \<and> n - walk_rem ls n \<le> hi * walk_size ls n"
  using assms
proof (induction ls arbitrary: n)
  case Nil
  show ?case by simp
next
  case (Cons l ls)
  obtain p z where l: "l = (p, z)" by (cases l)
  have p: "0 < p" "0 \<le> z" "lo \<le> p" "p \<le> hi" using Cons.prems by (auto simp: l)
  show ?case
  proof (cases "n \<le> p * z")
    case True
    have "lo * n \<le> n * p" "n * p \<le> hi * n" using p Cons.prems(2) by (simp_all add: mult.commute)
    with True p show ?thesis by (simp add: l field_simps)
  next
    case False
    have "lo * z \<le> p * z" "p * z \<le> hi * z" using p by (simp_all add: mult_right_mono)
    moreover have "lo * walk_size ls (n - p * z) \<le> (n - p * z) - walk_rem ls (n - p * z) \<and>
        (n - p * z) - walk_rem ls (n - p * z) \<le> hi * walk_size ls (n - p * z)"
    proof (rule Cons.IH)
      show "good_levels ls" using Cons.prems(1) by (simp add: l)
      show "0 < n - p * z" using False by simp
      show "lo \<le> p' \<and> p' \<le> hi" if "(p', z') \<in> set ls" for p' z'
        using Cons.prems(3) that by auto
    qed
    ultimately show ?thesis using False by (simp add: l algebra_simps)
  qed
qed

lemma walk_size_nonneg: "good_levels ls \<Longrightarrow> 0 < n \<Longrightarrow> 0 \<le> walk_size ls n"
  by (induction ls arbitrary: n) (auto split: if_splits)

text \<open>Walking further into an ascending book never buys at a better price than its best level.\<close>

lemma walk_size_increment:
  assumes "good_levels ls" "0 < n" "n \<le> m" "walk_rem ls m = 0"
      and "0 < q" "\<And>p z. (p, z) \<in> set ls \<Longrightarrow> q \<le> p"
  shows "q * (walk_size ls m - walk_size ls n) \<le> m - n"
  using assms
proof (induction ls arbitrary: n m)
  case Nil
  then show ?case by simp
next
  case (Cons l ls)
  obtain p z where l: "l = (p, z)" by (cases l)
  have p: "0 < p" "0 \<le> z" "q \<le> p" and good: "good_levels ls"
    and q: "\<And>p z. (p, z) \<in> set ls \<Longrightarrow> q \<le> p" using Cons.prems by (auto simp: l)
  consider "m \<le> p * z" | "n \<le> p * z" "p * z < m" | "p * z < n" by linarith
  then show ?case
  proof cases
    case 1
    then have "walk_size (l # ls) m - walk_size (l # ls) n = (m - n) / p"
      using Cons.prems(3) by (simp add: l diff_divide_distrib)
    moreover have "q * ((m - n) / p) \<le> m - n"
      using p Cons.prems(3,5) by (simp add: divide_le_eq mult_right_mono mult.commute)
    ultimately show ?thesis by simp
  next
    case 2
    then have rem: "walk_rem ls (m - p * z) = 0" using Cons.prems(4) by (simp add: l)
    have "q * walk_size ls (m - p * z) \<le> m - p * z"
      using walk_value_bounds [of ls "m - p * z" q "Max (fst ` set ls)"] good q 2 rem
      by (force intro: Max_ge)
    moreover have "q * (z - n / p) \<le> p * z - n"
    proof -
      have "q * (z - n / p) \<le> p * (z - n / p)"
        using p 2 by (intro mult_right_mono) (auto simp: field_simps)
      then show ?thesis using p by (simp add: algebra_simps)
    qed
    ultimately show ?thesis using 2 by (simp add: l algebra_simps)
  next
    case 3
    then have "q * (walk_size ls (m - p * z) - walk_size ls (n - p * z)) \<le> (m - p * z) - (n - p * z)"
      using Cons.prems good q by (intro Cons.IH) (auto simp: l)
    then show ?thesis using 3 Cons.prems(3) by (simp add: l)
  qed
qed

text \<open>
  The price of a fill is the notional over the size; on an ascending book it never falls as
  the notional grows.
\<close>

lemma walk_price_mono:
  assumes "good_levels ls" "sorted (map fst ls)" "0 < n" "n \<le> m" "walk_rem ls m = 0"
  shows "n * walk_size ls m \<le> m * walk_size ls n"
  using assms
proof (induction ls arbitrary: n m)
  case Nil
  then show ?case by simp
next
  case (Cons l ls)
  obtain p z where l: "l = (p, z)" by (cases l)
  have p: "0 < p" "0 \<le> z" and good: "good_levels ls" and srt: "sorted (map fst ls)"
    and q: "\<And>p' z'. (p', z') \<in> set ls \<Longrightarrow> p \<le> p'"
    using Cons.prems by (auto simp: l)
  show ?case
  proof (cases "n \<le> p * z")
    case True
    have "p * walk_size (l # ls) m \<le> m"
      using walk_value_bounds [of "l # ls" m p "Max (fst ` set (l # ls))"] Cons.prems q
      by (force simp: l intro: Max_ge)
    then have "n * (p * walk_size (l # ls) m) \<le> n * m" using Cons.prems(3) by simp
    then show ?thesis using True p by (simp add: l field_simps)
  next
    case False
    let ?n = "n - p * z" and ?m = "m - p * z"
    have rem: "walk_rem ls ?m = 0" using Cons.prems(4,5) False by (simp add: l)
    have IH: "?n * walk_size ls ?m \<le> ?m * walk_size ls ?n"
      using Cons.prems(4) False good srt rem by (intro Cons.IH) auto
    have "p * (walk_size ls ?m - walk_size ls ?n) \<le> ?m - ?n"
      using Cons.prems(4) False good rem p q by (intro walk_size_increment) auto
    then have "z * (p * (walk_size ls ?m - walk_size ls ?n)) \<le> z * (m - n)"
      using p by (intro mult_left_mono) auto
    with IH show ?thesis using False Cons.prems(4) by (simp add: l algebra_simps)
  qed
qed

section \<open>Properties\<close>

text \<open>
  A buy that the book can fill costs exactly the notional: the returned price times the
  size taken is the notional, and the price lies between the cheapest and the dearest level
  that were offered.
\<close>

theorem vwapBuy_fill_price:
  assumes "good_levels asks" "0 < notionalUSD" "vwapBuy asks notionalUSD pen = (px, True)"
    and "\<forall>(p, z)\<in>set asks. lo \<le> p \<and> p \<le> hi"
  shows "px * walk_size asks notionalUSD = notionalUSD \<and> lo \<le> px \<and> px \<le> hi"
proof -
  have w: "vwap_loop asks notionalUSD 0 0 =
      (walk_rem asks notionalUSD, notionalUSD - walk_rem asks notionalUSD, walk_size asks notionalUSD)"
    by (rule vwap_loop_walk) (rule assms(1))
  have rem: "walk_rem asks notionalUSD = 0" and sz: "epsilon \<le> walk_size asks notionalUSD"
    and px: "px = notionalUSD / walk_size asks notionalUSD"
    using assms(3) walk_rem_nonneg [OF assms(2), of asks] by (auto simp: vwapBuy_def w split: if_splits)
  have pos: "0 < walk_size asks notionalUSD" using sz epsilon_pos by linarith
  have "lo * walk_size asks notionalUSD \<le> notionalUSD \<and> notionalUSD \<le> hi * walk_size asks notionalUSD"
    using walk_value_bounds [OF assms(1,2), of lo hi] assms(4) rem by auto
  with pos px show ?thesis by (simp add: le_divide_eq divide_le_eq)
qed

theorem vwapBuy_fill_price_witness:
  "\<exists>px. vwapBuy [(100, 5), (101, 10)] 1000 20 = (px, True) \<and>
     px * walk_size [(100, 5), (101, 10)] 1000 = 1000 \<and> 100 \<le> px \<and> px \<le> 101"
proof -
  have "vwapBuy [(100, 5), (101, 10)] 1000 20 = (20200 / 201, True)"
    by (simp add: vwapBuy_def Let_def epsilon_def)
  then show ?thesis
    using vwapBuy_fill_price [of "[(100, 5), (101, 10)]" 1000 20 "20200 / 201" 100 101]
    by (intro exI [of _ "20200 / 201"]) simp
qed

text \<open>
  Price impact is monotone: on an ascending ask side, if a notional can be filled then
  every smaller positive notional is filled at a price that is no worse.
\<close>

theorem vwapBuy_monotone_in_size:
  assumes "good_levels asks" "sorted (map fst asks)" "0 < n" "n \<le> m"
    and "vwapBuy asks n pen = (px_n, True)" "vwapBuy asks m pen = (px_m, True)"
  shows "px_n \<le> px_m"
proof -
  have fill: "walk_rem asks k = 0 \<and> 0 < walk_size asks k \<and> px = k / walk_size asks k"
    if "0 < k" "vwapBuy asks k pen = (px, True)" for k px
    using that walk_rem_nonneg [OF that(1), of asks] less_le_trans [OF epsilon_pos]
    by (auto simp: vwapBuy_def vwap_loop_walk [OF assms(1)] not_less split: if_splits)
  have "n * walk_size asks m \<le> m * walk_size asks n"
    using fill [OF _ assms(6)] assms(3,4) by (intro walk_price_mono assms(1-4)) simp
  with fill [OF assms(3) assms(5)] fill [OF _ assms(6)] assms(3,4) show ?thesis
    by (simp add: divide_le_eq le_divide_eq mult.commute)
qed

theorem vwapBuy_monotone_in_size_witness:
  "fst (vwapBuy [(100, 5), (101, 10)] 500 20) \<le> fst (vwapBuy [(100, 5), (101, 10)] 1000 20)"
  by (rule vwapBuy_monotone_in_size [where asks = "[(100, 5), (101, 10)]" and n = 500 and m = 1000 and pen = 20])
     (simp_all add: vwapBuy_def Let_def epsilon_def)

text \<open>
  Trust is a discount of the base trust that is never negative: a blacklisted venue gets 0,
  a hard outlier at most 5 percent and an outlier at most 10 percent of its base.
\<close>

theorem ComputeTrust_discount:
  assumes "0 \<le> base"
  shows "0 \<le> ComputeTrust base p \<and>
    ComputeTrust base p \<le> (if tp_State p = StateBlacklisted then 0
       else if tp_IsHardOutlier p then base / 20 else if tp_IsOutlier p then base / 10 else base)"
  using ComputeTrust_bounds [OF assms, of p] assms
  by (auto simp: outlier_factor_def)

theorem ComputeTrust_discount_witness:
  "ComputeTrust 0.9 \<lparr>tp_IsOutlier = True, tp_IsHardOutlier = True, tp_SpreadBps = 12,
     tp_StalenessMs = 0, tp_StaleTholdMs = 2000, tp_State = StateWarn\<rparr> \<le> 0.9 / 20"
  using ComputeTrust_discount [of "0.9" "\<lparr>tp_IsOutlier = True, tp_IsHardOutlier = True,
     tp_SpreadBps = 12, tp_StalenessMs = 0, tp_StaleTholdMs = 2000, tp_State = StateWarn\<rparr>"] by simp

text \<open>
  Normalising nonnegative trust gives a convex combination (weights in [0, 1] with sum 1),
  or no weight at all when the total trust is below the epsilon of the code.
\<close>

theorem NormalizeTrust_convex_or_empty:
  assumes "\<forall>(v, w)\<in>set weights. 0 \<le> w"
  shows "(\<forall>(v, w)\<in>set (NormalizeTrust weights). 0 \<le> w \<and> w \<le> 1) \<and>
    (if (\<Sum>(v, w)\<leftarrow>weights. w) < epsilon then NormalizeTrust weights = []
     else (\<Sum>(v, w)\<leftarrow>NormalizeTrust weights. w) = 1)"
proof -
  have pos: "\<And>v w. (v, w) \<in> set weights \<Longrightarrow> 0 \<le> w" using assms by auto
  have eq: "(\<Sum>(v, w)\<leftarrow>ws. w) = (\<Sum>x\<leftarrow>ws. snd x)" for ws :: "(Venue \<times> real) list"
    by (simp add: case_prod_unfold)
  have conv: "(\<forall>(v, w)\<in>set (NormalizeTrust weights). 0 \<le> w \<and> w \<le> 1) \<and>
         (NormalizeTrust weights = [] \<or> (\<Sum>x\<leftarrow>NormalizeTrust weights. snd x) = 1)"
    by (rule NormalizeTrust_convex) (rule pos)
  have norm: "NormalizeTrust weights = (let S = (\<Sum>x\<leftarrow>weights. snd x) in
      if S < epsilon then [] else map (\<lambda>(v, w). (v, w / S)) weights)"
    by (rule NormalizeTrust_nonneg) (rule pos)
  show ?thesis
  proof (cases "(\<Sum>x\<leftarrow>weights. snd x) < epsilon")
    case True
    with conv norm show ?thesis by (simp add: eq)
  next
    case False
    then have "weights \<noteq> []" by auto
    with False norm have "NormalizeTrust weights \<noteq> []" by (simp add: Let_def)
    with False conv show ?thesis by (simp add: eq)
  qed
qed

theorem NormalizeTrust_convex_or_empty_witness:
  "(\<Sum>(v, w)\<leftarrow>NormalizeTrust [(''a'', 0.9), (''b'', 0.3), (''c'', 0)]. w) = 1"
  using NormalizeTrust_convex_or_empty [of "[(''a'', 0.9), (''b'', 0.3), (''c'', 0)]"]
  by (simp add: epsilon_def)

end
