(* ===== verification/Interfaces.thy ===== *)
theory Interfaces
  imports Prelude
begin

text \<open>
  The interfaces the components meet at, one locale each: machines driven by a list of
  events, their invariants and the levels they only raise, cooldown gates, rolling windows of
  time-stamped records, and stores of records by key.  Every locale is interpreted on the
  definitions of the component that provides it.
\<close>

section \<open>Machines and their invariants\<close>

locale machine =
  fixes step :: "'s \<Rightarrow> 'e \<Rightarrow> 's"
begin

lemma foldl_induct:
  assumes "P s" "\<And>s e. P s \<Longrightarrow> e \<in> set es \<Longrightarrow> P (step s e)"
  shows "P (foldl step s es)"
  using assms by (induction es arbitrary: s) auto

end

locale invariant_machine = machine step
  for step :: "'s \<Rightarrow> 'e \<Rightarrow> 's" +
  fixes ok :: "'e \<Rightarrow> bool" and inv :: "'s \<Rightarrow> bool"
  assumes step_inv: "inv s \<Longrightarrow> ok e \<Longrightarrow> inv (step s e)"
begin

lemma run_inv: "inv s \<Longrightarrow> \<forall>e\<in>set es. ok e \<Longrightarrow> inv (foldl step s es)"
  by (rule foldl_induct) (auto intro: step_inv)

end

text \<open>A machine whose level, a preorder on its states, no admitted event lowers.\<close>

locale escalation = machine step
  for step :: "'s \<Rightarrow> 'e \<Rightarrow> 's" +
  fixes ok :: "'e \<Rightarrow> bool" and level :: "'s \<Rightarrow> 'l::preorder"
  assumes step_level: "ok e \<Longrightarrow> level s \<le> level (step s e)"
begin

lemma run_level: "\<forall>e\<in>set es. ok e \<Longrightarrow> level s \<le> level (foldl step s es)"
  by (rule foldl_induct [where P = "\<lambda>t. level s \<le> level t"])
     (auto intro: order_trans step_level)

lemma run_level_prefix:
  "\<forall>e\<in>set (es @ es'). ok e \<Longrightarrow> level (foldl step s es) \<le> level (foldl step s (es @ es'))"
  using run_level [of es' "foldl step s es"] by simp

end

text \<open>A machine that keeps a quantity: what leaves one part of the state enters another.\<close>

locale conservation = machine step
  for step :: "'s \<Rightarrow> 'e \<Rightarrow> 's" +
  fixes adm :: "'e \<Rightarrow> bool" and ok :: "'s \<Rightarrow> bool" and amount :: "'s \<Rightarrow> 'a"
  assumes step_ok: "adm e \<Longrightarrow> ok s \<Longrightarrow> ok (step s e)"
    and step_amount: "adm e \<Longrightarrow> ok s \<Longrightarrow> amount (step s e) = amount s"
begin

lemma run_conserves:
  "\<forall>e\<in>set es. adm e \<Longrightarrow> ok s \<Longrightarrow> ok (foldl step s es) \<and> amount (foldl step s es) = amount s"
  by (rule foldl_induct [where P = "\<lambda>t. ok t \<and> amount t = amount s"])
     (auto simp: step_ok step_amount)

end

section \<open>Cooldown gates\<close>

text \<open>
  A gate remembers when each key was last marked.  \<open>hot g k now ttl\<close> asks whether the key was
  marked less than \<open>ttl\<close> before \<open>now\<close>.
\<close>

locale cooldown_gate =
  fixes hot :: "'g \<Rightarrow> 'k \<Rightarrow> int \<Rightarrow> int \<Rightarrow> bool"
    and mark :: "'g \<Rightarrow> 'k \<Rightarrow> int \<Rightarrow> 'g"
  assumes hot_mark_same: "hot (mark g k t) k now ttl \<longleftrightarrow> now - t < ttl"
    and hot_mark_other: "k \<noteq> k' \<Longrightarrow> hot (mark g k t) k' now ttl \<longleftrightarrow> hot g k' now ttl"
begin

lemma hot_mark: "hot (mark g k t) k' now ttl \<longleftrightarrow> (if k = k' then now - t < ttl else hot g k' now ttl)"
  by (simp add: hot_mark_same hot_mark_other)

text \<open>Marking a list of keys at one time.\<close>

lemma hot_mark_list:
  "hot (foldl (\<lambda>g k. mark g k t) g ks) k now ttl \<longleftrightarrow>
     (if k \<in> set ks then now - t < ttl else hot g k now ttl)"
  by (induction ks arbitrary: g) (auto simp: hot_mark)

text \<open>A key stays hot through any later marks, its own or others.\<close>

lemma hot_stays:
  assumes "hot g k now ttl" "\<forall>(k', t')\<in>set ms. now - t' < ttl"
  shows "hot (foldl (\<lambda>g (k', t'). mark g k' t') g ms) k now ttl"
  using assms by (induction ms arbitrary: g) (auto simp: hot_mark)

text \<open>
  A loop each of whose rounds emits nothing or one value whose key is not hot, and then marks it:
  the keys of what it emits are distinct and were not hot before, and they are what is marked.
\<close>

lemma gated_foldl:
  assumes "\<And>st x. f st x = st \<or> (\<exists>y. \<not> hot (fst st) (key y) now ttl \<and> P y \<and> f st x = (mark (fst st) (key y) now, snd st @ [y]))"
    and "0 < ttl"
  shows "\<exists>new. foldl f (g, out) xs = (foldl (\<lambda>g k. mark g k now) g (map key new), out @ new) \<and> (\<forall>y\<in>set new. P y) \<and>
           distinct (map key new) \<and> (\<forall>y\<in>set new. \<not> hot g (key y) now ttl)"
proof (induction xs arbitrary: g out)
  case Nil
  show ?case by (rule exI [of _ "[]"]) simp
next
  case (Cons x xs)
  from assms(1) [of "(g, out)" x] show ?case
  proof (elim disjE exE conjE)
    assume "f (g, out) x = (g, out)"
    with Cons.IH [of g out] show ?thesis by simp
  next
    fix y assume y: "\<not> hot (fst (g, out)) (key y) now ttl" "P y" "f (g, out) x = (mark (fst (g, out)) (key y) now, snd (g, out) @ [y])"
    obtain new where n: "foldl f (mark g (key y) now, out @ [y]) xs =
        (foldl (\<lambda>g k. mark g k now) (mark g (key y) now) (map key new), (out @ [y]) @ new)"
      "\<forall>y\<in>set new. P y" "distinct (map key new)" "\<forall>z\<in>set new. \<not> hot (mark g (key y) now) (key z) now ttl"
      using Cons.IH [of "mark g (key y) now" "out @ [y]"] by blast
    have "key z \<noteq> key y \<and> \<not> hot g (key z) now ttl" if "z \<in> set new" for z
      using n(4) that assms(2) by (auto simp: hot_mark split: if_splits)
    note fresh = this
    have "key y \<notin> key ` set new" using fresh by (metis imageE)
    with n y fresh show ?thesis by (intro exI [of _ "y # new"]) simp
  qed
qed

end

section \<open>Rolling windows\<close>

text \<open>
  A log of time-stamped records whose old prefix is cut off before it is counted.  The laws
  are those of a loop that advances past every record older than the cutoff.
\<close>

locale rolling_window =
  fixes stamp :: "'r \<Rightarrow> int" and prune :: "int \<Rightarrow> 'r list \<Rightarrow> 'r list"
  assumes prune_nil: "prune c [] = []"
    and prune_old: "stamp r < c \<Longrightarrow> prune c (r # rs) = prune c rs"
    and prune_new: "\<not> stamp r < c \<Longrightarrow> prune c (r # rs) = r # rs"
begin

lemma prune_dropWhile: "prune c rs = dropWhile (\<lambda>r. stamp r < c) rs"
  by (induction rs) (auto simp: prune_nil prune_old prune_new)

lemma prune_filter: "sorted (map stamp rs) \<Longrightarrow> prune c rs = filter (\<lambda>r. c \<le> stamp r) rs"
  by (simp add: prune_dropWhile dropWhile_sorted_filter)

lemma prune_sorted: "sorted (map stamp rs) \<Longrightarrow> sorted (map stamp (prune c rs))"
  by (simp add: prune_filter sorted_filter)

lemma prune_set: "set (prune c rs) \<subseteq> set rs"
  using set_dropWhileD by (fastforce simp: prune_dropWhile)

lemma prune_length: "length (prune c rs) \<le> length rs"
  by (simp add: prune_dropWhile length_dropWhile_le)

lemma prune_prune: "c \<le> c' \<Longrightarrow> prune c' (prune c rs) = prune c' rs"
proof (induction rs)
  case Nil
  show ?case by (simp add: prune_nil)
next
  case (Cons r rs)
  then show ?case by (cases "stamp r < c") (simp_all add: prune_old prune_new)
qed

lemma prune_append_new:
  "sorted (map stamp rs) \<Longrightarrow> \<forall>r\<in>set rs. stamp r \<le> stamp r' \<Longrightarrow> sorted (map stamp (rs @ [r']))"
  by (simp add: sorted_append)

end

section \<open>Keyed stores\<close>

text \<open>What a client may rely on when it reads back what it wrote.\<close>

locale keyed_store =
  fixes get :: "'s \<Rightarrow> 'k \<Rightarrow> 'v" and put :: "'s \<Rightarrow> 'k \<Rightarrow> 'v \<Rightarrow> 's"
  assumes get_put_same: "get (put s k v) k = v"
    and get_put_other: "k \<noteq> k' \<Longrightarrow> get (put s k v) k' = get s k'"
begin

lemma get_put: "get (put s k v) k' = (if k' = k then v else get s k')"
  by (simp add: get_put_same get_put_other)

lemma get_put_list:
  "distinct (map fst kvs) \<Longrightarrow>
     get (foldl (\<lambda>s (k, v). put s k v) s kvs) k =
       (case map_of kvs k of None \<Rightarrow> get s k | Some v \<Rightarrow> v)"
proof (induction kvs arbitrary: s)
  case Nil
  show ?case by simp
next
  case (Cons kv kvs)
  then have "fst kv \<notin> dom (map_of kvs)" by (simp add: dom_map_of_conv_image_fst)
  with Cons show ?case
    by (cases kv) (auto simp: get_put domIff split: option.splits)
qed

end

section \<open>Ledgers\<close>

text \<open>
  A ledger of amounts held by key.  A charge adds to one key; a release takes off one key and
  never goes below zero.
\<close>

locale ledger =
  fixes held :: "'s \<Rightarrow> 'k \<Rightarrow> real"
    and charge :: "'s \<Rightarrow> 'k \<Rightarrow> real \<Rightarrow> 's" and release :: "'s \<Rightarrow> 'k \<Rightarrow> real \<Rightarrow> 's"
  assumes held_charge: "held (charge s k x) k' = held s k' + (if k = k' then x else 0)"
    and held_release: "held (release s k x) k' = (if k = k' then max 0 (held s k - x) else held s k')"
begin

lemma held_charges:
  "held (foldl (\<lambda>s (k, x). charge s k x) s kxs) k =
     held s k + sum_list (map snd (filter (\<lambda>kx. fst kx = k) kxs))"
  by (induction kxs arbitrary: s) (auto simp: held_charge)

lemma held_charges_once:
  assumes "distinct (map fst kxs)" "(k, x) \<in> set kxs"
  shows "held (foldl (\<lambda>s (k, x). charge s k x) s kxs) k = held s k + x"
proof -
  have "filter (\<lambda>kx. fst kx = k) kxs = [(k, x)]" using assms
  proof (induction kxs)
    case Nil
    then show ?case by simp
  next
    case (Cons a kxs)
    show ?case
    proof (cases "a = (k, x)")
      case True
      with Cons.prems(1) show ?thesis by (force simp: filter_empty_conv)
    next
      case False
      with Cons.prems have "(k, x) \<in> set kxs" "fst a \<noteq> k" by (auto simp: rev_image_eqI)
      with Cons show ?thesis by simp
    qed
  qed
  then show ?thesis by (simp add: held_charges)
qed

lemma held_charges_other: "k \<notin> fst ` set kxs \<Longrightarrow> held (foldl (\<lambda>s (k, x). charge s k x) s kxs) k = held s k"
proof -
  assume "k \<notin> fst ` set kxs"
  then have "filter (\<lambda>kx. fst kx = k) kxs = []" by (auto simp: filter_empty_conv)
  then show ?thesis by (simp add: held_charges)
qed

text \<open>Releases of nonnegative amounts, with charges of nothing in between, never raise what is held.\<close>

lemma held_release_le: "0 \<le> x \<Longrightarrow> 0 \<le> held s k' \<Longrightarrow> held (release s k x) k' \<le> held s k'"
  by (simp add: held_release)

lemma held_release_nonneg: "0 \<le> held s k' \<Longrightarrow> 0 \<le> held (release s k x) k'"
  by (simp add: held_release)

end

section \<open>Sorting\<close>

text \<open>What the library promises of a sort by a key; \<open>sort.Slice\<close> need not be stable,
  and a list built from a range over a map may come in any order: an arbitrary such function covers both.\<close>

definition sorts_by :: "('a \<Rightarrow> real) \<Rightarrow> ('a list \<Rightarrow> 'a list) \<Rightarrow> bool" where
  "sorts_by key f \<longleftrightarrow> (\<forall>xs. mset (f xs) = mset xs \<and> sorted (map key (f xs)))"

lemma sorts_by_hd:
  assumes "sorts_by key f" "xs \<noteq> []"
  shows "hd (f xs) \<in> set xs \<and> (\<forall>x\<in>set xs. key (hd (f xs)) \<le> key x)"
proof -
  have m: "mset (f xs) = mset xs" and s: "sorted (map key (f xs))" using assms(1) by (simp_all add: sorts_by_def)
  have e: "set (f xs) = set xs" using m by (metis set_mset_mset)
  with assms(2) obtain y ys where y: "f xs = y # ys" by (cases "f xs") auto
  then show ?thesis using s e by auto
qed

lemma sorts_by_set [simp]: "sorts_by key f \<Longrightarrow> set (f xs) = set xs"
  unfolding sorts_by_def by (metis set_mset_mset)

lemma sorts_by_length [simp]: "sorts_by key f \<Longrightarrow> length (f xs) = length xs"
  unfolding sorts_by_def by (metis size_mset)

lemma sorts_by_mset: "sorts_by key f \<Longrightarrow> mset (f xs) = mset xs"
  by (simp add: sorts_by_def)

lemma sorts_by_sorted: "sorts_by key f \<Longrightarrow> sorted (map key (f xs))"
  by (simp add: sorts_by_def)

lemma sorts_by_sum:
  fixes g :: "'a \<Rightarrow> 'b::comm_monoid_add"
  shows "sorts_by key f \<Longrightarrow> sum_list (map g (f xs)) = sum_list (map g xs)"
  by (rule sum_list_mset_cong [OF sorts_by_mset])

lemma sorts_by_sort_key: "sorts_by key (sort_key key)"
  by (simp add: sorts_by_def)

text \<open>A range over a map whose entries are kept in a list visits them in any order.\<close>

definition any_order :: "('a list \<Rightarrow> 'a list) \<Rightarrow> bool" where
  "any_order f \<longleftrightarrow> (\<forall>xs. mset (f xs) = mset xs)"

lemma any_order_mset: "any_order f \<Longrightarrow> mset (f xs) = mset xs"
  by (simp add: any_order_def)

lemma any_order_set [simp]: "any_order f \<Longrightarrow> set (f xs) = set xs"
  unfolding any_order_def by (metis set_mset_mset)

lemma any_order_id: "any_order (\<lambda>xs. xs)"
  by (simp add: any_order_def)

end
