(* ===== verification/Consensus_Breaker.thy ===== *)
theory Consensus_Breaker
  imports Consensus_Types Interfaces
begin

text \<open>
  internal/consensus/circuitbreaker.go: the state machine that moves a venue between OK, WARN
  and BLACKLISTED on its deviation from the median.  An event of the machine is one call of
  \<open>UpdateVenueStatus\<close>, the time and the deviation.
\<close>

definition blacklist ::
  "int64 \<Rightarrow> VenueStatus \<Rightarrow> real \<Rightarrow> Policy \<Rightarrow> string \<Rightarrow> VenueStatus \<times> VenueAnomaly" where
  "blacklist nowMs s deviationBps policy reason =
     (s\<lparr>vs_State := StateBlacklisted,
        vs_BlacklistUntilMs := nowMs + p_BlacklistTtlMs policy,
        vs_WarnSinceMs := 0,
        vs_RecoverySinceMs := 0,
        vs_OutlierSinceMs := 0,
        vs_HardOutlierSinceMs := 0,
        vs_Reason := reason\<rparr>,
      \<lparr>an_SchemaVersion = 0, an_TenantID = '''', an_Symbol = '''', an_Venue = '''', an_TsMs = 0,
       an_AnomalyType = ''PRICE_OUTLIER'', an_Severity = ''HIGH'',
       an_DeviationBps = deviationBps, an_ConsensusMid = 0, an_VenueMid = 0,
       an_WindowMs = p_BlacklistPersistMs policy,
       an_RecommendedAction = ''BLACKLIST_60S''\<rparr>)"

definition warn_anomaly :: "real \<Rightarrow> Policy \<Rightarrow> VenueAnomaly" where
  "warn_anomaly deviationBps policy =
     \<lparr>an_SchemaVersion = 0, an_TenantID = '''', an_Symbol = '''', an_Venue = '''', an_TsMs = 0,
      an_AnomalyType = ''PRICE_OUTLIER'', an_Severity = ''MEDIUM'',
      an_DeviationBps = deviationBps, an_ConsensusMid = 0, an_VenueMid = 0,
      an_WindowMs = p_WarnPersistMs policy,
      an_RecommendedAction = ''REDUCE_TRUST''\<rparr>"

definition UpdateVenueStatus ::
  "int64 \<Rightarrow> VenueStatus \<Rightarrow> real \<Rightarrow> Policy \<Rightarrow> VenueStatus \<times> VenueAnomaly option \<times> bool" where
  "UpdateVenueStatus nowMs current deviationBps policy =
     (let isOutlier = deviationBps > p_OutlierBpsWarn policy;
          isHardOutlier = deviationBps > p_OutlierBpsBlacklist policy in
      case vs_State current of
        StateBlacklisted \<Rightarrow>
          (if nowMs \<ge> vs_BlacklistUntilMs current
           then (current\<lparr>vs_State := StateWarn,
                         vs_WarnSinceMs := nowMs,
                         vs_RecoverySinceMs := nowMs,
                         vs_OutlierSinceMs := 0,
                         vs_HardOutlierSinceMs := 0,
                         vs_Reason := ''Blacklist TTL expired; in recovery''\<rparr>, None, True)
           else (current, None, False))
      | StateOK \<Rightarrow>
          (if isHardOutlier
           then (let next = (if vs_HardOutlierSinceMs current = 0
                             then current\<lparr>vs_HardOutlierSinceMs := nowMs\<rparr> else current) in
                 if nowMs - vs_HardOutlierSinceMs next \<ge> p_BlacklistPersistMs policy
                 then (case blacklist nowMs next deviationBps policy
                              ''PRICE_OUTLIER > blacklist threshold'' of
                         (next, anomaly) \<Rightarrow> (next, Some anomaly, True))
                 else (next, None, False))
           else if isOutlier
           then (let next = current\<lparr>vs_HardOutlierSinceMs := 0\<rparr>;
                     next = (if vs_OutlierSinceMs next = 0
                             then next\<lparr>vs_OutlierSinceMs := nowMs\<rparr> else next) in
                 if nowMs - vs_OutlierSinceMs next \<ge> p_WarnPersistMs policy
                 then (next\<lparr>vs_State := StateWarn,
                            vs_WarnSinceMs := nowMs,
                            vs_RecoverySinceMs := 0,
                            vs_Reason := ''PRICE_OUTLIER > warn threshold''\<rparr>,
                       Some (warn_anomaly deviationBps policy), True)
                 else (next, None, False))
           else (current\<lparr>vs_OutlierSinceMs := 0, vs_HardOutlierSinceMs := 0\<rparr>, None, False))
      | StateWarn \<Rightarrow>
          (if isHardOutlier
           then (let next = (if vs_HardOutlierSinceMs current = 0
                             then current\<lparr>vs_HardOutlierSinceMs := nowMs\<rparr> else current) in
                 if nowMs - vs_HardOutlierSinceMs next \<ge> p_BlacklistPersistMs policy
                 then (case blacklist nowMs next deviationBps policy
                              ''PRICE_OUTLIER > blacklist threshold from WARN'' of
                         (next, anomaly) \<Rightarrow> (next, Some anomaly, True))
                 else (next, None, False))
           else if \<not> isOutlier
           then (let next = (if vs_RecoverySinceMs current = 0
                             then current\<lparr>vs_RecoverySinceMs := nowMs\<rparr> else current) in
                 if nowMs - vs_RecoverySinceMs next \<ge> p_RecoveryMs policy
                 then (next\<lparr>vs_State := StateOK,
                            vs_WarnSinceMs := 0,
                            vs_RecoverySinceMs := 0,
                            vs_OutlierSinceMs := 0,
                            vs_HardOutlierSinceMs := 0,
                            vs_Reason := ''Recovered to OK''\<rparr>, None, True)
                 else (next, None, False))
           else (current\<lparr>vs_RecoverySinceMs := 0, vs_HardOutlierSinceMs := 0\<rparr>, None, False))
      | StateOther _ \<Rightarrow> (current, None, False))"

text \<open>One venue's life: the state after a list of samples.\<close>

definition breaker_step :: "Policy \<Rightarrow> VenueStatus \<Rightarrow> int64 \<times> real \<Rightarrow> VenueStatus" where
  "breaker_step p s e = fst (UpdateVenueStatus (fst e) s (snd e) p)"

definition fresh_status :: VenueStatus where
  "fresh_status = \<lparr>vs_State = StateOK, vs_OutlierSinceMs = 0, vs_HardOutlierSinceMs = 0,
     vs_WarnSinceMs = 0, vs_BlacklistUntilMs = 0, vs_RecoverySinceMs = 0, vs_Reason = ''''\<rparr>"

section \<open>Transitions\<close>

lemmas breaker_defs = UpdateVenueStatus_def blacklist_def Let_def

definition transition_edges :: "(VenueState \<times> VenueState) list" where
  "transition_edges =
     [(StateOK, StateWarn), (StateOK, StateBlacklisted), (StateWarn, StateOK),
      (StateWarn, StateBlacklisted), (StateBlacklisted, StateWarn)]"

lemma UpdateVenueStatus_edges:
  assumes "UpdateVenueStatus now s dev p = (s', a, tr)"
  shows "(tr \<longleftrightarrow> vs_State s' \<noteq> vs_State s) \<and>
         (tr \<longrightarrow> (vs_State s, vs_State s') \<in> set transition_edges)"
  using assms
  by (cases "vs_State s") (auto simp: breaker_defs transition_edges_def split: if_splits)

text \<open>What an anomaly says agrees with the state it led to.\<close>

lemma UpdateVenueStatus_anomaly:
  assumes "UpdateVenueStatus now s dev p = (s', a, tr)"
  shows "(\<exists>an. a = Some an \<and> an_Severity an = ''HIGH'') \<longleftrightarrow> tr \<and> vs_State s' = StateBlacklisted"
    and "(\<exists>an. a = Some an \<and> an_Severity an = ''MEDIUM'') \<longleftrightarrow>
           tr \<and> vs_State s = StateOK \<and> vs_State s' = StateWarn"
  using assms
  by (cases "vs_State s"; auto simp: breaker_defs warn_anomaly_def split: if_splits)+

section \<open>Well-formed statuses\<close>

definition wf_status :: "VenueStatus \<Rightarrow> bool" where
  "wf_status s \<longleftrightarrow>
     (vs_State s = StateOK \<longrightarrow> vs_WarnSinceMs s = 0 \<and> vs_RecoverySinceMs s = 0) \<and>
     (vs_State s = StateBlacklisted \<longrightarrow>
        vs_WarnSinceMs s = 0 \<and> vs_RecoverySinceMs s = 0 \<and>
        vs_OutlierSinceMs s = 0 \<and> vs_HardOutlierSinceMs s = 0)"

lemma wf_fresh [simp]: "wf_status fresh_status"
  by (simp add: wf_status_def fresh_status_def)

lemma breaker_step_wf: "wf_status s \<Longrightarrow> wf_status (breaker_step p s e)"
  by (cases "vs_State s") (auto simp: breaker_step_def breaker_defs wf_status_def)

interpretation breaker_wf: invariant_machine "breaker_step p" "\<lambda>_. True" wf_status
  by unfold_locales (rule breaker_step_wf)

text \<open>Until its expiry a blacklist is kept, and never extended.\<close>

lemma breaker_step_blacklisted:
  "vs_State s = StateBlacklisted \<Longrightarrow> fst e < vs_BlacklistUntilMs s \<Longrightarrow> breaker_step p s e = s"
  by (simp add: breaker_step_def breaker_defs)

lemma run_blacklisted:
  assumes "vs_State s = StateBlacklisted" "\<forall>e\<in>set es. fst e < vs_BlacklistUntilMs s"
  shows "foldl (breaker_step p) s es = s"
  using assms by (induction es) (simp_all add: breaker_step_blacklisted)

section \<open>What must have happened before a blacklisting\<close>

text \<open>
  The samples since the hard-outlier timer was started.  In OK every one of them is a hard
  outlier; in WARN the clean ones (not above the warn threshold) do not stop the timer.
\<close>

definition is_hard :: "Policy \<Rightarrow> int64 \<times> real \<Rightarrow> bool" where
  "is_hard p e \<longleftrightarrow> p_OutlierBpsBlacklist p < snd e"

definition is_soft :: "Policy \<Rightarrow> int64 \<times> real \<Rightarrow> bool" where
  "is_soft p e \<longleftrightarrow> p_OutlierBpsWarn p < snd e \<and> \<not> is_hard p e"

definition timer_inv :: "Policy \<Rightarrow> (int64 \<times> real) list \<Rightarrow> VenueStatus \<Rightarrow> bool" where
  "timer_inv p h s \<longleftrightarrow>
     (vs_HardOutlierSinceMs s \<noteq> 0 \<longrightarrow>
        (\<exists>pre d post. h = pre @ (vs_HardOutlierSinceMs s, d) # post \<and>
           is_hard p (vs_HardOutlierSinceMs s, d) \<and> (\<forall>e\<in>set post. \<not> is_soft p e) \<and>
           (vs_State s = StateOK \<longrightarrow> (\<forall>e\<in>set post. is_hard p e))))"

lemma timer_inv_reset: "vs_HardOutlierSinceMs s = 0 \<Longrightarrow> timer_inv p h s"
  by (simp add: timer_inv_def)

lemma timer_inv_start:
  "is_hard p e \<Longrightarrow> vs_HardOutlierSinceMs s = fst e \<Longrightarrow> timer_inv p (h @ [e]) s"
  unfolding timer_inv_def by (metis empty_iff list.set(1) prod.collapse)

lemma timer_inv_keep:
  assumes "timer_inv p h s" "vs_HardOutlierSinceMs s' = vs_HardOutlierSinceMs s"
    "vs_State s' = vs_State s" "\<not> is_soft p e" "vs_State s = StateOK \<Longrightarrow> is_hard p e"
  shows "timer_inv p (h @ [e]) s'"
proof (cases "vs_HardOutlierSinceMs s = 0")
  case True
  with assms show ?thesis by (simp add: timer_inv_def)
next
  case False
  with assms(1) obtain pre d post where
    "h = pre @ (vs_HardOutlierSinceMs s, d) # post" "is_hard p (vs_HardOutlierSinceMs s, d)"
    "\<forall>e\<in>set post. \<not> is_soft p e" "vs_State s = StateOK \<longrightarrow> (\<forall>e\<in>set post. is_hard p e)"
    unfolding timer_inv_def by blast
  with assms(2-5) show ?thesis
    unfolding timer_inv_def
    by (intro impI exI [of _ pre] exI [of _ d] exI [of _ "post @ [e]"]) auto
qed

definition known_state :: "VenueStatus \<Rightarrow> bool" where
  "known_state s \<longleftrightarrow> vs_State s \<in> {StateOK, StateWarn, StateBlacklisted}"

lemma breaker_step_known: "known_state s \<Longrightarrow> known_state (breaker_step p s e)"
  by (cases "vs_State s") (auto simp: breaker_step_def breaker_defs known_state_def)

lemma breaker_step_timer:
  assumes inv: "timer_inv p h s" and wf: "wf_status s" "known_state s"
  shows "timer_inv p (h @ [e]) (breaker_step p s e)"
proof (cases "vs_HardOutlierSinceMs (breaker_step p s e) = 0")
  case True
  then show ?thesis by (rule timer_inv_reset)
next
  case hard: False
  show ?thesis
  proof (cases "is_hard p e \<and> vs_HardOutlierSinceMs s = 0")
    case True
    with hard wf(2) have "vs_HardOutlierSinceMs (breaker_step p s e) = fst e"
      using wf(1) by (cases "vs_State s")
        (auto simp: breaker_step_def breaker_defs known_state_def wf_status_def is_hard_def
          split: if_splits)
    with True show ?thesis by (intro timer_inv_start) auto
  next
    case False
    with hard wf show ?thesis
      by (intro timer_inv_keep [OF inv]; cases "vs_State s")
        (auto simp: breaker_step_def breaker_defs known_state_def wf_status_def is_hard_def
          is_soft_def split: if_splits)
  qed
qed

lemma run_timer:
  "timer_inv p es (foldl (breaker_step p) fresh_status es) \<and>
   wf_status (foldl (breaker_step p) fresh_status es) \<and>
   known_state (foldl (breaker_step p) fresh_status es)"
proof (induction es rule: rev_induct)
  case Nil
  show ?case by (simp add: timer_inv_def fresh_status_def wf_status_def known_state_def)
next
  case (snoc e es)
  then show ?case by (simp add: breaker_step_timer breaker_step_wf breaker_step_known)
qed

text \<open>The only way in: a hard outlier whose timer has run for the persistence time.\<close>

lemma blacklisting_cause:
  assumes "UpdateVenueStatus now s dev p = (s', a, True)" "vs_State s' = StateBlacklisted"
  shows "is_hard p (now, dev) \<and> vs_State s \<in> {StateOK, StateWarn} \<and>
    p_BlacklistPersistMs p \<le>
      now - (if vs_HardOutlierSinceMs s = 0 then now else vs_HardOutlierSinceMs s) \<and>
    vs_BlacklistUntilMs s' = now + p_BlacklistTtlMs p"
  using assms by (cases "vs_State s") (auto simp: breaker_defs is_hard_def split: if_splits)

lemma blacklisting_history:
  assumes "UpdateVenueStatus now (foldl (breaker_step p) fresh_status es) dev p = (s', a, True)"
    and "vs_State s' = StateBlacklisted"
  shows "is_hard p (now, dev) \<and>
    (\<exists>pre t d post. es @ [(now, dev)] = pre @ (t, d) # post \<and> is_hard p (t, d) \<and>
       p_BlacklistPersistMs p \<le> now - t \<and> (\<forall>e\<in>set post. \<not> is_soft p e) \<and>
       (vs_State (foldl (breaker_step p) fresh_status es) = StateOK \<longrightarrow>
          (\<forall>e\<in>set post. is_hard p e)))"
proof -
  let ?s = "foldl (breaker_step p) fresh_status es"
  note cause = blacklisting_cause [OF assms]
  have soft: "\<not> is_soft p (now, dev)" using cause by (simp add: is_soft_def)
  show ?thesis
  proof (cases "vs_HardOutlierSinceMs ?s = 0")
    case True
    with cause show ?thesis
      by (intro conjI exI [of _ es] exI [of _ now] exI [of _ dev] exI [of _ "[]"]) auto
  next
    case False
    with run_timer [of p es] obtain pre d post where
      "es = pre @ (vs_HardOutlierSinceMs ?s, d) # post"
      "is_hard p (vs_HardOutlierSinceMs ?s, d)" "\<forall>e\<in>set post. \<not> is_soft p e"
      "vs_State ?s = StateOK \<longrightarrow> (\<forall>e\<in>set post. is_hard p e)"
      unfolding timer_inv_def by blast
    with False cause soft show ?thesis
      by (intro conjI exI [of _ pre] exI [of _ "vs_HardOutlierSinceMs ?s"] exI [of _ d]
            exI [of _ "post @ [(now, dev)]"]) auto
  qed
qed

text \<open>In WARN a clean sample leaves the hard-outlier timer running.\<close>

lemma warn_clean_keeps_timer:
  assumes "vs_State s = StateWarn" "snd e \<le> p_OutlierBpsWarn p"
    "p_OutlierBpsWarn p \<le> p_OutlierBpsBlacklist p"
    "vs_State (breaker_step p s e) = StateWarn"
  shows "vs_HardOutlierSinceMs (breaker_step p s e) = vs_HardOutlierSinceMs s"
  using assms by (auto simp: breaker_step_def breaker_defs split: if_splits)

lemma warn_hard_starts_timer:
  assumes "vs_State s = StateWarn" "vs_HardOutlierSinceMs s = 0" "is_hard p e"
    "0 < p_BlacklistPersistMs p"
  shows "breaker_step p s e = s\<lparr>vs_HardOutlierSinceMs := fst e\<rparr>"
  using assms by (auto simp: breaker_step_def breaker_defs is_hard_def)

section \<open>Properties\<close>

text \<open>
  C16.  No venue is blacklisted on a glitch while it is in OK: when a venue that started fresh is
  blacklisted, its history ends in a hard outlier at time t that is at least the persistence
  time old, followed by no soft outlier; and if it was still in OK, by nothing but hard
  outliers.
\<close>

theorem blacklisting_is_sustained:
  assumes "UpdateVenueStatus now (foldl (breaker_step p) fresh_status es) dev p = (s', a, True)"
    and "vs_State s' = StateBlacklisted"
  shows "\<exists>pre t d post. es @ [(now, dev)] = pre @ (t, d) # post \<and> is_hard p (t, d) \<and>
       p_BlacklistPersistMs p \<le> now - t \<and> (\<forall>e\<in>set post. \<not> is_soft p e) \<and>
       (vs_State (foldl (breaker_step p) fresh_status es) = StateOK \<longrightarrow>
          (\<forall>e\<in>set post. is_hard p e))"
  using blacklisting_history [OF assms] by blast

theorem blacklisting_is_sustained_witness:
  "\<exists>pre t d post. [(1000, 80)] @ [(2600, 90)] = pre @ (t, d) # post \<and> is_hard sample_policy (t, d) \<and>
     1500 \<le> 2600 - t \<and> post \<noteq> []"
proof -
  have run: "foldl (breaker_step sample_policy) fresh_status [(1000, 80)] =
      fresh_status\<lparr>vs_HardOutlierSinceMs := 1000\<rparr>"
    by (simp add: breaker_step_def breaker_defs fresh_status_def)
  obtain s' a where s': "UpdateVenueStatus 2600 (foldl (breaker_step sample_policy) fresh_status [(1000, 80)]) 90 sample_policy =
      (s', a, True)" "vs_State s' = StateBlacklisted"
    unfolding run by (simp add: breaker_defs fresh_status_def)
  from blacklisting_is_sustained [OF s'] obtain pre t d post where
    "[(1000, 80)] @ [(2600, 90)] = pre @ (t, d) # post" "is_hard sample_policy (t, d)" "1500 \<le> 2600 - t"
    by auto
  moreover from this have "post \<noteq> []" by (cases pre) auto
  ultimately show ?thesis by blast
qed

text \<open>
  A blacklist lasts exactly its time to live: after a call that blacklists at \<open>now\<close>, every
  sequence of samples before now + TTL leaves the status unchanged (it is neither lifted nor
  extended), and the first sample from then on moves the venue to WARN, in recovery.
\<close>

theorem blacklist_lasts_its_ttl:
  assumes "UpdateVenueStatus now s dev p = (s', a, True)" "vs_State s' = StateBlacklisted"
    and "\<forall>e\<in>set es. fst e < now + p_BlacklistTtlMs p" "now + p_BlacklistTtlMs p \<le> fst late"
  shows "foldl (breaker_step p) s' es = s' \<and>
    vs_State (foldl (breaker_step p) s' (es @ [late])) = StateWarn \<and>
    vs_RecoverySinceMs (foldl (breaker_step p) s' (es @ [late])) = fst late"
proof -
  have until: "vs_BlacklistUntilMs s' = now + p_BlacklistTtlMs p"
    using blacklisting_cause [OF assms(1,2)] by blast
  have "foldl (breaker_step p) s' es = s'"
    using assms(2,3) until by (intro run_blacklisted) auto
  with assms(2,4) until show ?thesis by (simp add: breaker_step_def breaker_defs)
qed

theorem blacklist_lasts_its_ttl_witness:
  "\<exists>s'. vs_State s' = StateBlacklisted \<and> foldl (breaker_step sample_policy) s' [(3000, 0), (62599, 0)] = s' \<and>
     vs_State (foldl (breaker_step sample_policy) s' ([(3000, 0), (62599, 0)] @ [(62600, 0)])) = StateWarn"
proof -
  let ?s = "fresh_status\<lparr>vs_HardOutlierSinceMs := 1000\<rparr>"
  obtain s' a where s': "UpdateVenueStatus 2600 ?s 90 sample_policy = (s', a, True)" "vs_State s' = StateBlacklisted"
    by (simp add: breaker_defs fresh_status_def)
  from blacklist_lasts_its_ttl [OF s', of "[(3000, 0), (62599, 0)]" "(62600, 0)"] s'(2)
  show ?thesis by auto
qed

text \<open>
  In WARN the persistence condition is weaker than in OK: a clean sample does not stop the
  hard-outlier timer, so two isolated spikes that are the persistence time apart, with a clean
  sample between them, blacklist the venue.
\<close>

theorem warn_two_spikes_blacklist:
  assumes "vs_State s = StateWarn" "vs_HardOutlierSinceMs s = 0" "t0 \<noteq> 0"
    and "is_hard p (t0, d0)" "is_hard p (t2, d2)" "0 < p_BlacklistPersistMs p"
    and "d1 \<le> p_OutlierBpsWarn p" "p_OutlierBpsWarn p \<le> p_OutlierBpsBlacklist p"
    and "vs_State (breaker_step p (breaker_step p s (t0, d0)) (t1, d1)) = StateWarn"
    and "p_BlacklistPersistMs p \<le> t2 - t0"
  shows "vs_State (foldl (breaker_step p) s [(t0, d0), (t1, d1), (t2, d2)]) = StateBlacklisted"
proof -
  let ?s1 = "breaker_step p s (t0, d0)" let ?s2 = "breaker_step p ?s1 (t1, d1)"
  have s1: "?s1 = s\<lparr>vs_HardOutlierSinceMs := t0\<rparr>"
    using warn_hard_starts_timer [OF assms(1,2,4,6)] by simp
  then have "vs_HardOutlierSinceMs ?s2 = t0"
    using warn_clean_keeps_timer [of ?s1 "(t1, d1)" p] assms(1,7,8,9) by simp
  then show ?thesis
    using assms(3,5,9,10) by (simp add: breaker_step_def [of p ?s2] breaker_defs is_hard_def)
qed

theorem warn_two_spikes_blacklist_witness:
  "vs_State (foldl (breaker_step sample_policy) (fresh_status\<lparr>vs_State := StateWarn\<rparr>)
     [(1000, 80), (1500, 0), (2600, 80)]) = StateBlacklisted"
  by (rule warn_two_spikes_blacklist)
     (simp_all add: is_hard_def breaker_step_def breaker_defs fresh_status_def)

text \<open>
  The state machine has five edges (OK-WARN and back, OK-BLACKLISTED, WARN-BLACKLISTED,
  BLACKLISTED-WARN: no way from BLACKLISTED straight to OK), the transition flag is raised
  exactly on a change of state, a HIGH anomaly is raised exactly on blacklisting and a MEDIUM
  one exactly on OK to WARN.
\<close>

theorem breaker_edges_and_anomalies:
  assumes "UpdateVenueStatus now s dev p = (s', a, tr)"
  shows "(tr \<longleftrightarrow> vs_State s' \<noteq> vs_State s) \<and>
    (tr \<longrightarrow> (vs_State s, vs_State s') \<in> set transition_edges) \<and>
    ((\<exists>an. a = Some an \<and> an_Severity an = ''HIGH'') \<longleftrightarrow> tr \<and> vs_State s' = StateBlacklisted) \<and>
    ((\<exists>an. a = Some an \<and> an_Severity an = ''MEDIUM'') \<longleftrightarrow>
       tr \<and> vs_State s = StateOK \<and> vs_State s' = StateWarn)"
  using UpdateVenueStatus_edges [OF assms] UpdateVenueStatus_anomaly [OF assms] by blast

theorem breaker_edges_and_anomalies_witness:
  "\<exists>s' a. UpdateVenueStatus 2600 (fresh_status\<lparr>vs_HardOutlierSinceMs := 1000\<rparr>) 80 sample_policy =
     (s', a, True) \<and> (\<exists>an. a = Some an \<and> an_Severity an = ''HIGH'')"
proof -
  obtain s' a where s': "UpdateVenueStatus 2600 (fresh_status\<lparr>vs_HardOutlierSinceMs := 1000\<rparr>) 80
      sample_policy = (s', a, True)" "vs_State s' = StateBlacklisted"
    by (simp add: breaker_defs fresh_status_def)
  with breaker_edges_and_anomalies [OF s'(1)] show ?thesis by blast
qed

section \<open>A quiet venue\<close>

text \<open>The status after the first \<open>n\<close> samples of an endless stream.\<close>

definition status_after :: "Policy \<Rightarrow> (nat \<Rightarrow> int64 \<times> real) \<Rightarrow> VenueStatus \<Rightarrow> nat \<Rightarrow> VenueStatus" where
  "status_after p e s n = foldl (breaker_step p) s (map e [0..<n])"

lemma status_after_simps [simp]:
  "status_after p e s 0 = s" "status_after p e s (Suc n) = breaker_step p (status_after p e s n) (e n)"
  by (simp_all add: status_after_def)

definition quiet :: "Policy \<Rightarrow> int64 \<times> real \<Rightarrow> bool" where
  "quiet p x \<longleftrightarrow> snd x \<le> p_OutlierBpsWarn p \<and> snd x \<le> p_OutlierBpsBlacklist p"

lemma leads_to:
  assumes "P k" "\<And>m. k \<le> m \<Longrightarrow> P m \<Longrightarrow> P (Suc m) \<or> Q (Suc m)" "k \<le> n" "P n \<Longrightarrow> Q (Suc n)"
  shows "\<exists>n\<ge>k. Q (n :: nat)"
proof (rule ccontr)
  assume no: "\<not> (\<exists>n\<ge>k. Q n)"
  have "P n" using assms(3) by (induction rule: dec_induct) (use assms(1,2) no in \<open>auto simp: le_Suc_eq\<close>)
  then show False using assms(3,4) no by auto
qed

lemma quiet_step:
  assumes "quiet p x"
  shows "vs_State s = StateOK \<Longrightarrow> vs_State (breaker_step p s x) = StateOK"
    and "vs_State s = StateWarn \<Longrightarrow> vs_RecoverySinceMs s \<noteq> 0 \<Longrightarrow>
      (if p_RecoveryMs p \<le> fst x - vs_RecoverySinceMs s then vs_State (breaker_step p s x) = StateOK
       else breaker_step p s x = s)"
    and "vs_State s = StateWarn \<Longrightarrow> vs_RecoverySinceMs s = 0 \<Longrightarrow>
      vs_State (breaker_step p s x) = StateOK \<or>
      (vs_State (breaker_step p s x) = StateWarn \<and> vs_RecoverySinceMs (breaker_step p s x) = fst x)"
    and "vs_State s = StateBlacklisted \<Longrightarrow>
      (if vs_BlacklistUntilMs s \<le> fst x then vs_State (breaker_step p s x) = StateWarn else breaker_step p s x = s)"
  using assms by (auto simp: breaker_step_def breaker_defs quiet_def)

lemma quiet_stays_ok:
  assumes "\<forall>n. quiet p (e n)" "vs_State (status_after p e s k) = StateOK"
  shows "\<forall>n\<ge>k. vs_State (status_after p e s n) = StateOK"
proof (intro allI impI)
  fix n assume "k \<le> n"
  then show "vs_State (status_after p e s n) = StateOK"
    by (induction rule: dec_induct) (use assms quiet_step(1) in auto)
qed

lemma quiet_recovery_ends:
  assumes quiet: "\<forall>n. quiet p (e n)" and clock: "\<forall>T k. \<exists>n\<ge>k. T \<le> fst (e n)"
    and k: "vs_State (status_after p e s k) = StateWarn" "vs_RecoverySinceMs (status_after p e s k) = r" "r \<noteq> 0"
  shows "\<exists>n\<ge>k. vs_State (status_after p e s n) = StateOK"
proof -
  let ?s = "status_after p e s"
  note step = quiet_step [OF spec [OF quiet]]
  let ?P = "\<lambda>n. vs_State (?s n) = StateWarn \<and> vs_RecoverySinceMs (?s n) = r"
  obtain n where n: "k \<le> n" "r + p_RecoveryMs p \<le> fst (e n)" using clock by blast
  have next_ok: "if p_RecoveryMs p \<le> fst (e m) - r then vs_State (?s (Suc m)) = StateOK else ?s (Suc m) = ?s m" if "?P m" for m
    using step(2) [of "?s m" m] that k(3) by (simp split: if_splits)
  show ?thesis
  proof (rule leads_to [where P = ?P and n = n])
    fix m assume "?P m"
    then show "?P (Suc m) \<or> vs_State (?s (Suc m)) = StateOK" using next_ok [of m] by (cases "p_RecoveryMs p \<le> fst (e m) - r") (simp_all del: status_after_simps)
  next
    assume "?P n"
    then show "vs_State (?s (Suc n)) = StateOK" using next_ok [of n] n(2) by (simp del: status_after_simps)
  qed (use k n in simp_all)
qed

lemma quiet_warning_ends:
  assumes quiet: "\<forall>n. quiet p (e n)" and clock: "\<forall>T k. \<exists>n\<ge>k. T \<le> fst (e n)"
    and k: "vs_State (status_after p e s k) = StateWarn"
  shows "\<exists>n\<ge>k. vs_State (status_after p e s n) = StateOK"
proof -
  let ?s = "status_after p e s"
  note step = quiet_step [OF spec [OF quiet]]
  let ?P = "\<lambda>n. vs_State (?s n) = StateWarn \<and> vs_RecoverySinceMs (?s n) = 0"
  let ?Q = "\<lambda>n. vs_State (?s n) = StateOK \<or> (vs_State (?s n) = StateWarn \<and> vs_RecoverySinceMs (?s n) \<noteq> 0)"
  obtain n where n: "k \<le> n" "1 \<le> fst (e n)" using clock by blast
  have next_q: "vs_State (?s (Suc m)) = StateOK \<or> (vs_State (?s (Suc m)) = StateWarn \<and> vs_RecoverySinceMs (?s (Suc m)) = fst (e m))"
    if "?P m" for m
    using step(3) [of "?s m" m] that by simp
  have "\<exists>n\<ge>k. ?Q n"
  proof (cases "vs_RecoverySinceMs (?s k) = 0")
    case True
    show ?thesis
    proof (rule leads_to [where P = ?P and n = n])
      fix m assume "?P m"
      then show "?P (Suc m) \<or> ?Q (Suc m)" using next_q [of m] by blast
    next
      assume "?P n"
      then show "?Q (Suc n)" using next_q [of n] n(2) by (auto simp del: status_after_simps)
    qed (use True k n in simp_all)
  next
    case False
    then show ?thesis using k by (intro exI [of _ k]) simp
  qed
  then obtain j where j: "k \<le> j" "?Q j" by blast
  then show ?thesis
  proof (cases "vs_State (?s j) = StateOK")
    case False
    with j have "vs_State (?s j) = StateWarn" "vs_RecoverySinceMs (?s j) \<noteq> 0" by simp_all
    from quiet_recovery_ends [OF quiet clock this(1) refl this(2)] j(1) show ?thesis using order_trans by blast
  qed blast
qed

text \<open>
  C15.  A venue that is quiet from some point on comes back: with a clock that goes on, every stream of
  samples below both thresholds brings a venue from any status to OK, where it stays.
\<close>

theorem a_quiet_venue_returns_to_ok:
  assumes "known_state s" "\<forall>n. quiet p (e n)" "\<forall>T k. \<exists>n\<ge>k. T \<le> fst (e n)"
  shows "\<exists>k. \<forall>n\<ge>k. vs_State (status_after p e s n) = StateOK"
proof -
  let ?s = "status_after p e s"
  note step = quiet_step [OF spec [OF assms(2)]]
  note warned = quiet_warning_ends [OF assms(2,3), where s = s]
  have "\<exists>n. vs_State (?s n) = StateOK"
  proof (cases "vs_State s")
    case StateBlacklisted
    obtain n where n: "vs_BlacklistUntilMs s \<le> fst (e n)" using assms(3) by blast
    have next_b: "if vs_BlacklistUntilMs s \<le> fst (e m) then vs_State (?s (Suc m)) = StateWarn else ?s (Suc m) = s" if "?s m = s" for m
      using step(4) [of s m] StateBlacklisted that by (simp split: if_splits)
    have "\<exists>n\<ge>0. vs_State (?s n) = StateWarn"
    proof (rule leads_to [where P = "\<lambda>n. ?s n = s" and n = n])
      fix m assume "?s m = s"
      then show "?s (Suc m) = s \<or> vs_State (?s (Suc m)) = StateWarn" using next_b [of m] by (cases "vs_BlacklistUntilMs s \<le> fst (e m)") (simp_all del: status_after_simps)
    next
      assume "?s n = s"
      then show "vs_State (?s (Suc n)) = StateWarn" using next_b [of n] n by (simp del: status_after_simps)
    qed simp_all
    then show ?thesis using warned by blast
  next
    case StateWarn
    then show ?thesis using warned [of 0] by auto
  next
    case StateOK
    then show ?thesis by (intro exI [of _ 0]) simp
  qed (use assms(1) in \<open>simp add: known_state_def\<close>)
  then show ?thesis using quiet_stays_ok [OF assms(2)] by blast
qed

lemma a_quiet_venue_returns_to_ok_witness:
  "\<exists>k. \<forall>n\<ge>k. vs_State (status_after sample_policy (\<lambda>n. (int n, 0)) (fresh_status\<lparr>vs_State := StateBlacklisted, vs_BlacklistUntilMs := 60000\<rparr>) n) = StateOK"
proof (rule a_quiet_venue_returns_to_ok)
  show "\<forall>T k. \<exists>n\<ge>k. T \<le> fst (int n, 0 :: real)"
  proof (intro allI)
    fix T :: int and k
    show "\<exists>n\<ge>k. T \<le> fst (int n, 0 :: real)" by (intro exI [of _ "max k (nat T)"]) auto
  qed
qed (simp_all add: known_state_def quiet_def)

end
