(* ===== verification/Consensus_Engine.thy ===== *)
theory Consensus_Engine
  imports Consensus_Math Consensus_Breaker
begin

text \<open>
  internal/consensus/engine.go and internal/store/store.go.  \<open>quotes\<close> is the map of live
  quotes as the list of its entries in iteration order (the sums of the code, over trusts and over
  weighted prices, run in that order; here they are sums of reals, without their rounding), \<open>nowMs\<close> the reading of the clock,
  \<open>getStatus\<close> the status lookup.  \<open>Compute\<close> is the whole function, both returns included.
\<close>

section \<open>The quote and status store\<close>

record Key =
  k_TenantID :: string
  k_Symbol :: Symbol
  k_Venue :: Venue

record Store =
  st_quotes :: "(Key \<times> Quote) list"
  st_status :: "Key \<rightharpoonup> VenueStatus"
  st_staleMs :: int64

definition NewStore :: "int64 \<Rightarrow> Store" where
  "NewStore staleMs = \<lparr>st_quotes = [], st_status = Map.empty, st_staleMs = staleMs\<rparr>"

definition UpsertQuote :: "Store \<Rightarrow> Quote \<Rightarrow> Store" where
  "UpsertQuote s q =
     s\<lparr>st_quotes := AList.update
         \<lparr>k_TenantID = q_TenantID q, k_Symbol = q_Symbol q, k_Venue = q_Venue q\<rparr> q (st_quotes s)\<rparr>"

definition live_entry :: "Store \<Rightarrow> string \<Rightarrow> Symbol \<Rightarrow> int64 \<Rightarrow> Key \<times> Quote \<Rightarrow> bool" where
  "live_entry s tenantID symbol nowMs e \<longleftrightarrow>
     k_TenantID (fst e) = tenantID \<and> k_Symbol (fst e) = symbol \<and>
     \<not> (nowMs - fh_LastMsgTsMs (q_FeedHealth (snd e)) > st_staleMs s)"

definition LiveQuotes :: "Store \<Rightarrow> string \<Rightarrow> Symbol \<Rightarrow> int64 \<Rightarrow> (Venue \<times> Quote) list" where
  "LiveQuotes s tenantID symbol nowMs =
     map (\<lambda>(k, q). (k_Venue k, q)) (filter (live_entry s tenantID symbol nowMs) (st_quotes s))"

definition GetStatus :: "Store \<Rightarrow> string \<Rightarrow> Symbol \<Rightarrow> Venue \<Rightarrow> VenueStatus" where
  "GetStatus s tenantID symbol venue =
     (case st_status s \<lparr>k_TenantID = tenantID, k_Symbol = symbol, k_Venue = venue\<rparr> of
        None \<Rightarrow> fresh_status | Some st \<Rightarrow> st)"

definition SetStatus :: "Store \<Rightarrow> string \<Rightarrow> Symbol \<Rightarrow> Venue \<Rightarrow> VenueStatus \<Rightarrow> Store" where
  "SetStatus s tenantID symbol venue vs =
     s\<lparr>st_status := (st_status s)
         (\<lparr>k_TenantID = tenantID, k_Symbol = symbol, k_Venue = venue\<rparr> \<mapsto> vs)\<rparr>"

section \<open>Compute\<close>

record venueRaw =
  vr_venue :: Venue
  vr_quote :: Quote
  vr_mid :: float64
  vr_buyExec :: float64
  vr_sellExec :: float64
  vr_effectiveBuy :: float64
  vr_effectiveSell :: float64
  vr_spreadBps :: float64
  vr_sufficientDepth :: bool

record ComputeResult =
  cr_Update :: ConsensusUpdate
  cr_Anomalies :: "VenueAnomaly list"
  cr_StatusUpdates :: "VenueStatusUpdate list"
  cr_NewStatuses :: "(Venue \<times> VenueStatus) list"

definition allStale :: "Policy \<Rightarrow> int64 \<Rightarrow> (Venue \<times> Quote) list \<Rightarrow> bool" where
  "allStale p nowMs quotes \<longleftrightarrow>
     list_all (\<lambda>(v, q). \<not> (nowMs - q_TsMs q < p_StalePauseMs p)) quotes"

definition venue_raw :: "Policy \<Rightarrow> Venue \<times> Quote \<Rightarrow> venueRaw" where
  "venue_raw p vq =
     (case vq of (v, q) \<Rightarrow>
       (case ComputeExecutableBuy q (p_SizeNotionalUSD p) (p_SlippageBufferBps p)
               (p_DepthPenaltyBps p) of
          (buy, buyOK) \<Rightarrow>
       (case ComputeExecutableSell q (p_SizeNotionalUSD p) (p_SlippageBufferBps p)
               (p_DepthPenaltyBps p) of
          (sell, sellOK) \<Rightarrow>
            \<lparr>vr_venue = v, vr_quote = q, vr_mid = ComputeMid q,
             vr_buyExec = buy, vr_sellExec = sell,
             vr_effectiveBuy = ApplyFeesBuy buy (q_FeeBpsTaker q),
             vr_effectiveSell = ApplyFeesSell sell (q_FeeBpsTaker q),
             vr_spreadBps = SpreadBps (q_BestBid q) (q_BestAsk q),
             vr_sufficientDepth = (buyOK \<and> sellOK)\<rparr>)))"

text \<open>What one pass of the loop over the eligible venues produces.\<close>

record venueRow =
  row_status :: VenueStatus
  row_update :: "VenueStatusUpdate option"
  row_anomaly :: "VenueAnomaly option"
  row_trust :: float64
  row_metrics :: VenueMetrics

definition base_trust :: "Policy \<Rightarrow> Venue \<Rightarrow> real" where
  "base_trust p v =
     (let b = map_get 0 (p_BaseTrust p) v in if b = 0 then 0.05 else b)"

definition venue_row ::
  "Policy \<Rightarrow> string \<Rightarrow> Symbol \<Rightarrow> int64 \<Rightarrow> (Venue \<Rightarrow> VenueStatus) \<Rightarrow> real \<Rightarrow> real \<Rightarrow> venueRaw \<Rightarrow> venueRow" where
  "venue_row p tenantID symbol nowMs getStatus medianMid mad r =
     (let devBps = DeviationBps (vr_mid r) medianMid;
          zScore = RobustZScore (vr_mid r) medianMid mad;
          isOutlier = (zScore > 6 \<or> devBps > p_OutlierBpsWarn p);
          isHardOutlier = (devBps > p_OutlierBpsBlacklist p) in
      case UpdateVenueStatus nowMs (getStatus (vr_venue r)) devBps p of
        (nextStatus, anomaly, transitioned) \<Rightarrow>
      \<lparr>row_status = nextStatus,
       row_update =
         (if transitioned
          then Some \<lparr>su_SchemaVersion = 0, su_TenantID = tenantID, su_Venue = vr_venue r,
                 su_Symbol = symbol, su_TsMs = nowMs, su_Status = vs_State nextStatus,
                 su_TtlMs = (if vs_State nextStatus = StateBlacklisted
                             then p_BlacklistTtlMs p else 0),
                 su_Reason = vs_Reason nextStatus\<rparr>
          else None),
       row_anomaly =
         map_option (\<lambda>a. \<lparr>an_SchemaVersion = 0, an_TenantID = tenantID, an_Symbol = symbol,
              an_Venue = vr_venue r, an_TsMs = nowMs, an_AnomalyType = an_AnomalyType a,
              an_Severity = an_Severity a, an_DeviationBps = devBps,
              an_ConsensusMid = medianMid, an_VenueMid = vr_mid r,
              an_WindowMs = an_WindowMs a,
              an_RecommendedAction = an_RecommendedAction a\<rparr>) anomaly,
       row_trust =
         ComputeTrust (base_trust p (vr_venue r))
           \<lparr>tp_IsOutlier = isOutlier, tp_IsHardOutlier = isHardOutlier,
            tp_SpreadBps = vr_spreadBps r,
            tp_StalenessMs = nowMs - fh_LastMsgTsMs (q_FeedHealth (vr_quote r)),
            tp_StaleTholdMs = p_StaleMs p, tp_State = vs_State nextStatus\<rparr>,
       row_metrics =
         \<lparr>vm_Venue = vr_venue r, vm_Status = vs_State nextStatus, vm_Trust = 0,
          vm_Mid = vr_mid r, vm_BuyExec = vr_buyExec r, vm_SellExec = vr_sellExec r,
          vm_EffectiveBuy = vr_effectiveBuy r, vm_EffectiveSell = vr_effectiveSell r,
          vm_DeviationBps = devBps,
          vm_Flags = (if isOutlier then [''OUTLIER''] else [])
                   @ (if isHardOutlier then [''HARD_OUTLIER''] else [])
                   @ (if \<not> vr_sufficientDepth r then [''INSUFFICIENT_DEPTH''] else [])\<rparr>\<rparr>)"

definition qualityScore :: "int \<Rightarrow> VenueMetrics list \<Rightarrow> int \<Rightarrow> string" where
  "qualityScore coreEligible metrics minQuorum =
     (let warnCount = length (filter (\<lambda>m. vm_Status m = StateWarn) metrics) in
      if coreEligible \<ge> 4 \<and> warnCount = 0 then ''HIGH''
      else if coreEligible \<ge> minQuorum then ''MED''
      else ''LOW'')"

definition core_eligible :: "Policy \<Rightarrow> VenueMetrics list \<Rightarrow> int" where
  "core_eligible p ms =
     int (length (filter (\<lambda>vm. CoreVenueSet p (vm_Venue vm) \<and> vm_Status vm \<noteq> StateBlacklisted) ms))"

definition widen_bps :: "int \<Rightarrow> real" where
  "widen_bps coreEligible =
     (if coreEligible < 2 then 50 else if coreEligible = 2 then 25
      else if coreEligible = 3 then 10 else 0)"

definition consensus_prices ::
  "Policy \<Rightarrow> real \<Rightarrow> (Venue \<Rightarrow> real) \<Rightarrow> venueRaw list \<Rightarrow> VenueMetrics list \<Rightarrow> Consensus" where
  "consensus_prices p medianMid tw eligible metrics =
     (let coreEligible = core_eligible p metrics;
          consMid = (\<Sum>r\<leftarrow>eligible. tw (vr_venue r) * vr_mid r);
          consBuy = (\<Sum>r\<leftarrow>eligible. tw (vr_venue r) * vr_effectiveBuy r);
          consSell = (\<Sum>r\<leftarrow>eligible. tw (vr_venue r) * vr_effectiveSell r);
          trusted = filter (\<lambda>r. tw (vr_venue r) > 0) eligible;
          bandHigh = Percentile (map vr_effectiveBuy trusted) 75;
          bandLow = Percentile (map vr_effectiveSell trusted) 25;
          midRef = (if consMid < epsilon then medianMid else consMid);
          widenBps = widen_bps coreEligible;
          widen = midRef * widenBps / 10000 in
      \<lparr>c_Mid = consMid, c_BuyExec = consBuy, c_SellExec = consSell,
       c_BandLow = (if widenBps > 0 then bandLow - widen else bandLow),
       c_BandHigh = (if widenBps > 0 then bandHigh + widen else bandHigh),
       c_Quality = qualityScore coreEligible metrics (p_MinCoreQuorum p)\<rparr>)"

definition empty_consensus :: "string \<Rightarrow> Consensus" where
  "empty_consensus quality =
     \<lparr>c_Mid = 0, c_BuyExec = 0, c_SellExec = 0, c_BandLow = 0, c_BandHigh = 0, c_Quality = quality\<rparr>"

definition norm_trust :: "venueRaw list \<Rightarrow> venueRow list \<Rightarrow> Venue \<Rightarrow> real" where
  "norm_trust eligible rows =
     map_get 0 (map_of (NormalizeTrust (zip (map vr_venue eligible) (map row_trust rows))))"

definition Compute ::
  "Policy \<Rightarrow> int64 \<Rightarrow> string \<Rightarrow> Symbol \<Rightarrow> (Venue \<times> Quote) list \<Rightarrow> (Venue \<Rightarrow> VenueStatus)
   \<Rightarrow> ComputeResult" where
  "Compute policy nowMs tenantID symbol quotes getStatus =
     (let p = ResolvedPolicy policy symbol in
      if p_StalePauseMs p > 0 \<and> allStale p nowMs quotes
      then \<lparr>cr_Update = \<lparr>cu_SchemaVersion = 0, cu_TenantID = tenantID, cu_Symbol = symbol,
              cu_TsMs = nowMs, cu_SizeNotionalUSD = p_SizeNotionalUSD p,
              cu_Consensus = empty_consensus ''LOW'', cu_Venues = []\<rparr>,
            cr_Anomalies = [], cr_StatusUpdates = [], cr_NewStatuses = []\<rparr>
      else
        (let eligible = map (venue_raw p) quotes;
             mids = map vr_mid eligible;
             medianMid = Median mids;
             mad = MAD mids;
             rows = map (venue_row p tenantID symbol nowMs getStatus medianMid mad) eligible;
             tw = norm_trust eligible rows;
             metrics = map (\<lambda>r. (row_metrics r)\<lparr>vm_Trust := tw (vm_Venue (row_metrics r))\<rparr>) rows in
         \<lparr>cr_Update = \<lparr>cu_SchemaVersion = 0, cu_TenantID = tenantID, cu_Symbol = symbol,
              cu_TsMs = nowMs, cu_SizeNotionalUSD = p_SizeNotionalUSD p,
              cu_Consensus = consensus_prices p medianMid tw eligible metrics,
              cu_Venues = metrics\<rparr>,
          cr_Anomalies = List.map_filter row_anomaly rows,
          cr_StatusUpdates = List.map_filter row_update rows,
          cr_NewStatuses = zip (map vr_venue eligible) (map row_status rows)\<rparr>))"

text \<open>
  The body of the service loop of cmd/consensus-engine/main.go for one tenant and symbol: read
  the live quotes, compute, store the new statuses.
\<close>

definition recompute ::
  "Policy \<Rightarrow> int64 \<Rightarrow> int64 \<Rightarrow> string \<Rightarrow> Symbol \<Rightarrow> Store \<Rightarrow> Store \<times> ComputeResult option" where
  "recompute policy nowLive nowMs tenantID symbol store =
     (let liveQuotes = LiveQuotes store tenantID symbol nowLive in
      if liveQuotes = [] then (store, None)
      else (let result = Compute policy nowMs tenantID symbol liveQuotes
                           (GetStatus store tenantID symbol) in
            (foldl (\<lambda>s (v, ns). SetStatus s tenantID symbol v ns) store (cr_NewStatuses result),
             Some result)))"

section \<open>The store\<close>

interpretation status_store:
  keyed_store "\<lambda>s v. GetStatus s t sy v" "\<lambda>s v vs. SetStatus s t sy v vs"
  by unfold_locales (auto simp: GetStatus_def SetStatus_def)

definition wf_store :: "Store \<Rightarrow> bool" where
  "wf_store s \<longleftrightarrow> distinct (map fst (st_quotes s)) \<and>
     (\<forall>(k, q)\<in>set (st_quotes s).
        k = \<lparr>k_TenantID = q_TenantID q, k_Symbol = q_Symbol q, k_Venue = q_Venue q\<rparr>)"

lemma wf_NewStore [simp]: "wf_store (NewStore ms)"
  by (simp add: wf_store_def NewStore_def)

lemma UpsertQuote_wf: "wf_store s \<Longrightarrow> wf_store (UpsertQuote s q)"
  by (auto simp: wf_store_def UpsertQuote_def distinct_update dest!: alist_update_set)

lemma SetStatus_quotes [simp]: "st_quotes (SetStatus s t sy v vs) = st_quotes s"
  by (simp add: SetStatus_def)

lemma foldl_SetStatus_quotes [simp]:
  "st_quotes (foldl (\<lambda>s (v, ns). SetStatus s t sy v ns) s xs) = st_quotes s"
  by (induction xs arbitrary: s) (simp_all add: case_prod_beta)

lemma LiveQuotes_distinct:
  assumes "wf_store s"
  shows "distinct (map fst (LiveQuotes s t sy now))"
proof -
  have d: "distinct (map fst (filter (live_entry s t sy now) (st_quotes s)))"
    using assms by (auto simp: wf_store_def intro: distinct_map_filter)
  have "inj_on (\<lambda>e. k_Venue (fst e)) (set (filter (live_entry s t sy now) (st_quotes s)))"
  proof (rule inj_onI)
    fix e e'
    assume e: "e \<in> set (filter (live_entry s t sy now) (st_quotes s))"
      "e' \<in> set (filter (live_entry s t sy now) (st_quotes s))"
      "k_Venue (fst e) = k_Venue (fst e')"
    then have "fst e = fst e'" by (simp add: live_entry_def)
    with e(1,2) d show "e = e'" by (metis (no_types) eq_key_imp_eq_value prod.collapse)
  qed
  with d show ?thesis
    by (simp add: LiveQuotes_def distinct_map comp_def case_prod_beta)
qed

lemma UpsertQuote_live:
  assumes "wf_store s" "now - fh_LastMsgTsMs (q_FeedHealth q) \<le> st_staleMs s"
  shows "map_of (LiveQuotes (UpsertQuote s q) (q_TenantID q) (q_Symbol q) now) (q_Venue q) = Some q"
proof -
  let ?k = "\<lparr>k_TenantID = q_TenantID q, k_Symbol = q_Symbol q, k_Venue = q_Venue q\<rparr>"
  have "map_of (st_quotes (UpsertQuote s q)) ?k = Some q"
    by (simp add: UpsertQuote_def update_conv)
  then have "(?k, q) \<in> set (st_quotes (UpsertQuote s q))" by (rule map_of_SomeD)
  then have "(q_Venue q, q) \<in> set (LiveQuotes (UpsertQuote s q) (q_TenantID q) (q_Symbol q) now)"
    using assms(2) by (force simp: LiveQuotes_def live_entry_def UpsertQuote_def)
  then show ?thesis
    using LiveQuotes_distinct [OF UpsertQuote_wf [OF assms(1)]] by (intro map_of_is_SomeI) auto
qed

lemma LiveQuotes_tenant:
  assumes "wf_store s" "(v, q) \<in> set (LiveQuotes s t sy now)"
  shows "q_TenantID q = t \<and> q_Symbol q = sy \<and> q_Venue q = v \<and>
         now - fh_LastMsgTsMs (q_FeedHealth q) \<le> st_staleMs s"
  using assms by (force simp: LiveQuotes_def live_entry_def wf_store_def)

section \<open>Compute: the pieces by name\<close>

definition eligible_of :: "Policy \<Rightarrow> (Venue \<times> Quote) list \<Rightarrow> venueRaw list" where
  "eligible_of p quotes = map (venue_raw p) quotes"

definition median_mid :: "Policy \<Rightarrow> (Venue \<times> Quote) list \<Rightarrow> real" where
  "median_mid p quotes = Median (map vr_mid (eligible_of p quotes))"

definition row_of ::
  "Policy \<Rightarrow> string \<Rightarrow> Symbol \<Rightarrow> int64 \<Rightarrow> (Venue \<Rightarrow> VenueStatus) \<Rightarrow> (Venue \<times> Quote) list
   \<Rightarrow> venueRaw \<Rightarrow> venueRow" where
  "row_of p t sy now gs quotes =
     venue_row p t sy now gs (median_mid p quotes) (MAD (map vr_mid (eligible_of p quotes)))"

text \<open>The raw trust of each venue, in iteration order.\<close>

definition raw_trust ::
  "Policy \<Rightarrow> string \<Rightarrow> Symbol \<Rightarrow> int64 \<Rightarrow> (Venue \<Rightarrow> VenueStatus) \<Rightarrow> (Venue \<times> Quote) list
   \<Rightarrow> (Venue \<times> real) list" where
  "raw_trust p t sy now gs quotes =
     map (\<lambda>r. (vr_venue r, row_trust (row_of p t sy now gs quotes r))) (eligible_of p quotes)"

definition weight ::
  "Policy \<Rightarrow> string \<Rightarrow> Symbol \<Rightarrow> int64 \<Rightarrow> (Venue \<Rightarrow> VenueStatus) \<Rightarrow> (Venue \<times> Quote) list
   \<Rightarrow> Venue \<Rightarrow> real" where
  "weight p t sy now gs quotes = map_get 0 (map_of (NormalizeTrust (raw_trust p t sy now gs quotes)))"

lemma zip_map_map_same: "zip (map f xs) (map g xs) = map (\<lambda>x. (f x, g x)) xs"
  by (induction xs) auto

lemma vr_simps [simp]:
  "vr_venue (venue_raw p vq) = fst vq"
  "vr_quote (venue_raw p vq) = snd vq"
  "vr_mid (venue_raw p vq) = ComputeMid (snd vq)"
  by (simp_all add: venue_raw_def case_prod_beta)

lemma row_simps [simp]:
  "vm_Venue (row_metrics (venue_row p t sy now gs med mad r)) = vr_venue r"
  "vm_Mid (row_metrics (venue_row p t sy now gs med mad r)) = vr_mid r"
  "vm_DeviationBps (row_metrics (venue_row p t sy now gs med mad r)) = DeviationBps (vr_mid r) med"
  by (simp_all add: venue_row_def Let_def case_prod_beta)

lemma row_status:
  "row_status (venue_row p t sy now gs med mad r) =
     breaker_step p (gs (vr_venue r)) (now, DeviationBps (vr_mid r) med)"
  "vm_Status (row_metrics (venue_row p t sy now gs med mad r)) =
     vs_State (row_status (venue_row p t sy now gs med mad r))"
  by (simp_all add: venue_row_def Let_def case_prod_beta breaker_step_def)

lemma row_of_venue [simp]:
  "vm_Venue (row_metrics (row_of p t sy now gs quotes r)) = vr_venue r"
  by (simp add: row_of_def)

lemma map_filter_map: "List.map_filter f (map g xs) = List.map_filter (\<lambda>x. f (g x)) xs"
  by (induction xs) (simp_all add: List.map_filter_simps split: option.split)

definition not_paused :: "Policy \<Rightarrow> int64 \<Rightarrow> (Venue \<times> Quote) list \<Rightarrow> bool" where
  "not_paused p now quotes \<longleftrightarrow> \<not> (p_StalePauseMs p > 0 \<and> allStale p now quotes)"

definition metrics_of ::
  "Policy \<Rightarrow> string \<Rightarrow> Symbol \<Rightarrow> int64 \<Rightarrow> (Venue \<Rightarrow> VenueStatus) \<Rightarrow> (Venue \<times> Quote) list
   \<Rightarrow> VenueMetrics list" where
  "metrics_of p t sy now gs quotes =
     map (\<lambda>r. (row_metrics (row_of p t sy now gs quotes r))
            \<lparr>vm_Trust := weight p t sy now gs quotes (vr_venue r)\<rparr>) (eligible_of p quotes)"

lemma Compute_unfold:
  assumes "p = ResolvedPolicy policy sy" "not_paused p now quotes"
  shows "Compute policy now t sy quotes gs =
    \<lparr>cr_Update = \<lparr>cu_SchemaVersion = 0, cu_TenantID = t, cu_Symbol = sy, cu_TsMs = now,
       cu_SizeNotionalUSD = p_SizeNotionalUSD p,
       cu_Consensus = consensus_prices p (median_mid p quotes) (weight p t sy now gs quotes)
          (eligible_of p quotes) (metrics_of p t sy now gs quotes),
       cu_Venues = metrics_of p t sy now gs quotes\<rparr>,
     cr_Anomalies = List.map_filter (\<lambda>r. row_anomaly (row_of p t sy now gs quotes r)) (eligible_of p quotes),
     cr_StatusUpdates = List.map_filter (\<lambda>r. row_update (row_of p t sy now gs quotes r)) (eligible_of p quotes),
     cr_NewStatuses = map (\<lambda>r. (vr_venue r, row_status (row_of p t sy now gs quotes r))) (eligible_of p quotes)\<rparr>"
proof -
  have np: "\<not> (p_StalePauseMs p > 0 \<and> allStale p now quotes)"
    using assms(2) unfolding not_paused_def .
  show ?thesis
    by (simp only: Compute_def Let_def assms(1) [symmetric] np if_False eligible_of_def [symmetric]
        median_mid_def [symmetric] row_of_def [symmetric] norm_trust_def zip_map_map_same
        map_filter_map map_map comp_def raw_trust_def [symmetric] weight_def [symmetric]
        metrics_of_def row_of_venue)
qed

lemma Compute_paused:
  assumes "\<not> not_paused (ResolvedPolicy policy sy) now quotes"
  shows "cu_Consensus (cr_Update (Compute policy now t sy quotes gs)) = empty_consensus ''LOW''"
    and "cr_NewStatuses (Compute policy now t sy quotes gs) = []"
    and "cr_Anomalies (Compute policy now t sy quotes gs) = []"
  using assms by (simp_all add: Compute_def not_paused_def Let_def)

section \<open>Weights\<close>

definition nonneg_trust :: "Policy \<Rightarrow> bool" where
  "nonneg_trust p \<longleftrightarrow> (\<forall>v b. p_BaseTrust p v = Some b \<longrightarrow> 0 \<le> b)"

lemma nonneg_trust_Resolved [simp]: "nonneg_trust (ResolvedPolicy p s) = nonneg_trust p"
  by (simp add: nonneg_trust_def)

lemma base_trust_nonneg: "nonneg_trust p \<Longrightarrow> 0 \<le> base_trust p v"
  by (auto simp: base_trust_def Let_def nonneg_trust_def map_get_def split: option.splits)

lemma row_trust_nonneg: "nonneg_trust p \<Longrightarrow> 0 \<le> row_trust (row_of p t sy now gs quotes r)"
  using ComputeTrust_bounds base_trust_nonneg
  by (simp add: row_of_def venue_row_def Let_def case_prod_beta)

lemma raw_trust_nonneg:
  "nonneg_trust p \<Longrightarrow> (v, w) \<in> set (raw_trust p t sy now gs quotes) \<Longrightarrow> 0 \<le> w"
  by (auto simp: raw_trust_def row_trust_nonneg)

lemma raw_trust_keys [simp]:
  "map fst (raw_trust p t sy now gs quotes) = map fst quotes"
  by (simp add: raw_trust_def eligible_of_def comp_def)

lemma map_of_row:
  "distinct (map fst quotes) \<Longrightarrow> (v, q) \<in> set quotes \<Longrightarrow>
     map_of (raw_trust p t sy now gs quotes) v =
       Some (row_trust (row_of p t sy now gs quotes (venue_raw p (v, q))))"
  by (intro map_of_is_SomeI) (force simp: raw_trust_def eligible_of_def comp_def)+

lemma weight_blacklisted:
  assumes "distinct (map fst quotes)" "(v, q) \<in> set quotes"
    "vs_State (row_status (row_of p t sy now gs quotes (venue_raw p (v, q)))) = StateBlacklisted"
  shows "weight p t sy now gs quotes v = 0"
proof -
  have "row_trust (row_of p t sy now gs quotes (venue_raw p (v, q))) = 0"
    using assms(3) by (simp add: row_of_def venue_row_def Let_def case_prod_beta)
  then have "map_of (raw_trust p t sy now gs quotes) v = Some 0"
    using map_of_row [OF assms(1,2)] by simp
  then show ?thesis
    unfolding weight_def using assms(1) by (intro NormalizeTrust_zero) simp_all
qed

lemma weight_convex:
  assumes "nonneg_trust p" "distinct (map fst quotes)"
  shows "0 \<le> weight p t sy now gs quotes v \<and> weight p t sy now gs quotes v \<le> 1"
    and "(\<Sum>r\<leftarrow>eligible_of p quotes. weight p t sy now gs quotes (vr_venue r)) \<in> {0, 1}"
proof -
  let ?ws = "raw_trust p t sy now gs quotes" let ?n = "NormalizeTrust ?ws"
  have conv: "(\<forall>(v, w)\<in>set ?n. 0 \<le> w \<and> w \<le> 1) \<and> (?n = [] \<or> (\<Sum>x\<leftarrow>?n. snd x) = 1)"
    by (rule NormalizeTrust_convex) (rule raw_trust_nonneg [OF assms(1)])
  show "0 \<le> weight p t sy now gs quotes v \<and> weight p t sy now gs quotes v \<le> 1"
    using conv by (cases "map_of ?n v") (auto simp: weight_def dest: map_of_SomeD)
  show "(\<Sum>r\<leftarrow>eligible_of p quotes. weight p t sy now gs quotes (vr_venue r)) \<in> {0, 1}"
  proof (cases "?n = []")
    case True
    have "sum_list (map (\<lambda>r. 0) (eligible_of p quotes)) = (0::real)" by simp
    with True show ?thesis by (simp add: weight_def)
  next
    case False
    then obtain S where n: "?n = map (\<lambda>(v, w). (v, w / S)) ?ws"
      by (auto simp: NormalizeTrust_def Let_def split: if_splits)
    have d: "distinct (map fst ?n)" using assms(2) by (intro NormalizeTrust_distinct) simp
    have "map_get 0 (map_of ?n) (fst x) = snd x" if "x \<in> set ?n" for x
      using that d by (metis map_get_simps(2) map_of_is_SomeI prod.collapse)
    then have "(\<Sum>x\<leftarrow>?n. map_get 0 (map_of ?n) (fst x)) = (\<Sum>x\<leftarrow>?n. snd x)"
      by (intro arg_cong [where f = sum_list] map_cong) auto
    moreover have "(\<Sum>x\<leftarrow>?n. map_get 0 (map_of ?n) (fst x)) =
        (\<Sum>r\<leftarrow>eligible_of p quotes. weight p t sy now gs quotes (vr_venue r))"
      unfolding weight_def n by (simp add: raw_trust_def comp_def case_prod_beta)
    ultimately show ?thesis using conv False by simp
  qed
qed

section \<open>The consensus mid\<close>

text \<open>The mid is a convex combination of the mids of the venues that carry weight.\<close>

lemma consensus_mid_bounds:
  assumes "nonneg_trust p" "distinct (map fst quotes)"
    and b: "\<And>v q. (v, q) \<in> set quotes \<Longrightarrow> 0 < weight p t sy now gs quotes v \<Longrightarrow>
              lo \<le> ComputeMid q \<and> ComputeMid q \<le> hi"
  defines "mid \<equiv> (\<Sum>r\<leftarrow>eligible_of p quotes. weight p t sy now gs quotes (vr_venue r) * vr_mid r)"
  shows "mid = 0 \<and> (\<forall>(v, q)\<in>set quotes. weight p t sy now gs quotes v = 0) \<or> lo \<le> mid \<and> mid \<le> hi"
proof -
  let ?w = "\<lambda>r. weight p t sy now gs quotes (vr_venue r)" and ?E = "eligible_of p quotes"
  note wc = weight_convex [OF assms(1,2), of t sy now gs]
  have bnd: "lo * sum_list (map ?w ?E) \<le> mid \<and> mid \<le> hi * sum_list (map ?w ?E)"
    unfolding mid_def
    by (rule weighted_sum_bounds) (use wc b in \<open>auto simp: eligible_of_def\<close>)
  consider "sum_list (map ?w ?E) = 0" | "sum_list (map ?w ?E) = 1" using wc(2) by auto
  then show ?thesis
  proof cases
    case 1
    then have "\<forall>r\<in>set ?E. ?w r = 0"
      using wc(1) by (subst (asm) sum_list_map_zero_iff) auto
    with 1 bnd show ?thesis by (auto simp: eligible_of_def)
  next
    case 2
    with bnd show ?thesis by simp
  qed
qed

lemma Compute_mid:
  assumes "p = ResolvedPolicy policy sy" "not_paused p now quotes"
  shows "c_Mid (cu_Consensus (cr_Update (Compute policy now t sy quotes gs))) =
    (\<Sum>r\<leftarrow>eligible_of p quotes. weight p t sy now gs quotes (vr_venue r) * vr_mid r)"
  by (simp add: Compute_unfold [OF assms] consensus_prices_def Let_def)

section \<open>Iteration order\<close>

lemma eligible_mset: "mset qs = mset qs' \<Longrightarrow> mset (eligible_of p qs) = mset (eligible_of p qs')"
  by (simp add: eligible_of_def mset_map)

lemma mids_mset:
  "mset qs = mset qs' \<Longrightarrow>
     mset (map vr_mid (eligible_of p qs)) = mset (map vr_mid (eligible_of p qs'))"
  by (simp add: eligible_of_def)

lemma median_mid_mset: "mset qs = mset qs' \<Longrightarrow> median_mid p qs = median_mid p qs'"
  unfolding median_mid_def by (rule Median_mset_cong) (rule mids_mset)

lemma row_of_mset: "mset qs = mset qs' \<Longrightarrow> row_of p t sy now gs qs = row_of p t sy now gs qs'"
  using median_mid_mset [of qs qs' p] MAD_mset_cong [OF mids_mset, of qs qs' p]
  by (simp add: row_of_def)

lemma raw_trust_mset:
  "mset qs = mset qs' \<Longrightarrow> mset (raw_trust p t sy now gs qs) = mset (raw_trust p t sy now gs qs')"
  using row_of_mset [of qs qs' p t sy now gs] eligible_mset [of qs qs' p]
  by (simp add: raw_trust_def mset_map)

lemma filter_length_mset: "mset xs = mset ys \<Longrightarrow> length (filter P xs) = length (filter P ys)"
  by (metis mset_filter size_mset)

lemma map_filter_mset: "mset xs = mset ys \<Longrightarrow> mset (List.map_filter f xs) = mset (List.map_filter f ys)"
  unfolding List.map_filter_def by (simp add: mset_map mset_filter)

text \<open>
  A row without its normalised trust.  The quality counts venues by name and status, so it is the
  same for two lists of rows that agree, in any order, up to the trust.
\<close>

definition untrusted :: "VenueMetrics \<Rightarrow> VenueMetrics" where
  "untrusted vm = vm\<lparr>vm_Trust := 0\<rparr>"

lemma untrusted_simps [simp]: "vm_Status (untrusted vm) = vm_Status vm" "vm_Venue (untrusted vm) = vm_Venue vm"
  by (simp_all add: untrusted_def)

lemma filter_untrusted:
  assumes "mset (map untrusted ms) = mset (map untrusted ms')" "\<And>vm. P (untrusted vm) = P vm"
  shows "length (filter P ms) = length (filter P ms')"
proof -
  have "length (filter P xs) = length (filter P (map untrusted xs))" for xs
    by (induction xs) (simp_all add: assms(2))
  then show ?thesis using filter_length_mset [OF assms(1)] by simp
qed

lemma quality_untrusted:
  assumes "mset (map untrusted ms) = mset (map untrusted ms')"
  shows "qualityScore (core_eligible p ms) ms k = qualityScore (core_eligible p ms') ms' k"
  by (simp add: qualityScore_def core_eligible_def filter_untrusted [OF assms])

lemma metrics_untrusted:
  assumes "mset qs = mset qs'"
  shows "mset (map untrusted (metrics_of p t sy now gs qs)) = mset (map untrusted (metrics_of p t sy now gs qs'))"
proof -
  have "map untrusted (metrics_of p t sy now gs xs) =
      map (\<lambda>r. untrusted (row_metrics (row_of p t sy now gs xs r))) (eligible_of p xs)" for xs
    by (simp add: metrics_of_def untrusted_def)
  then show ?thesis using row_of_mset [OF assms, of p t sy now gs] eligible_mset [OF assms, of p] by (simp add: mset_map)
qed

lemma new_statuses_mset:
  assumes "mset qs = mset qs'" "distinct (map fst qs)"
  shows "map_of (map (\<lambda>r. (vr_venue r, row_status (row_of p t sy now gs qs r))) (eligible_of p qs)) =
    map_of (map (\<lambda>r. (vr_venue r, row_status (row_of p t sy now gs qs' r))) (eligible_of p qs'))"
  using assms eligible_mset [OF assms(1), of p] row_of_mset [OF assms(1), of p t sy now gs]
  by (intro map_of_mset_distinct) (auto simp: mset_map eligible_of_def comp_def)

lemma not_paused_mset: "mset qs = mset qs' \<Longrightarrow> not_paused p now qs = not_paused p now qs'"
  by (drule mset_eq_setD) (simp add: not_paused_def allStale_def list_all_iff)

section \<open>An honest majority\<close>

lemma median_mid_majority:
  assumes "length quotes < 2 * length (filter (\<lambda>(v, q). lo \<le> ComputeMid q \<and> ComputeMid q \<le> hi) quotes)"
  shows "lo \<le> median_mid p quotes \<and> median_mid p quotes \<le> hi"
proof -
  have "length (filter (\<lambda>m. lo \<le> m \<and> m \<le> hi) (map vr_mid (eligible_of p quotes))) =
      length (filter (\<lambda>(v, q). lo \<le> ComputeMid q \<and> ComputeMid q \<le> hi) quotes)"
    by (simp add: eligible_of_def filter_map comp_def case_prod_unfold)
  with assms show ?thesis
    unfolding median_mid_def by (intro Median_majority) (simp add: eligible_of_def)
qed

lemma DeviationBps_far:
  assumes "epsilon \<le> med" "med \<le> hi" "0 \<le> b" "m > hi * (1 + b / 10000)"
  shows "DeviationBps m med > b"
proof -
  have med: "0 < med" using assms(1) epsilon_pos by linarith
  have "med * (1 + b / 10000) \<le> hi * (1 + b / 10000)"
    using assms(2,3) by (intro mult_right_mono) auto
  then have "med * (b / 10000) < m - med" using assms(4) by (simp add: algebra_simps)
  moreover have "m - med \<le> \<bar>m - med\<bar>" by simp
  ultimately have "b / 10000 < \<bar>m - med\<bar> / med" using med by (simp add: field_simps)
  then show ?thesis using assms(1) med by (simp add: DeviationBps_def)
qed

lemma DeviationBps_near:
  assumes "epsilon \<le> lo" "lo \<le> med" "med \<le> hi" "lo \<le> m" "m \<le> hi" "hi \<le> lo * (1 + b / 10000)"
  shows "DeviationBps m med \<le> b"
proof -
  have med: "0 < med" using assms(1,2) epsilon_pos by linarith
  have "0 \<le> lo * (b / 10000)" using assms(2,3,6) by (simp add: algebra_simps)
  then have "0 \<le> b / 10000"
    using assms(1) epsilon_pos by (metis less_le_trans mult_less_0_iff not_le zero_le_mult_iff)
  then have "lo * (b / 10000) \<le> med * (b / 10000)" using assms(2) by (intro mult_right_mono)
  moreover have "\<bar>m - med\<bar> \<le> hi - lo" using assms(2-5) by (simp add: abs_le_iff)
  moreover have "hi - lo \<le> lo * (b / 10000)" using assms(6) by (simp add: algebra_simps)
  ultimately have "\<bar>m - med\<bar> \<le> med * (b / 10000)" by linarith
  then have "\<bar>m - med\<bar> / med \<le> b / 10000" using med by (simp add: field_simps)
  then show ?thesis using assms(1,2) med by (simp add: DeviationBps_def)
qed

lemma NewStatuses_of:
  assumes "p = ResolvedPolicy policy sy" "not_paused p now quotes" "distinct (map fst quotes)"
    "(v, q) \<in> set quotes"
  shows "map_of (cr_NewStatuses (Compute policy now t sy quotes gs)) v =
    Some (row_status (row_of p t sy now gs quotes (venue_raw p (v, q))))"
proof -
  let ?f = "\<lambda>x. (fst x, row_status (row_of p t sy now gs quotes (venue_raw p x)))"
  have "?f (v, q) \<in> ?f ` set quotes" using assms(4) by (rule imageI)
  then have "map_of (map ?f quotes) v = Some (snd (?f (v, q)))"
    using assms(3) by (intro map_of_is_SomeI) (simp_all add: comp_def)
  then show ?thesis by (simp add: Compute_unfold [OF assms(1,2)] eligible_of_def comp_def)
qed

lemma metrics_mem:
  assumes "p = ResolvedPolicy policy sy" "not_paused p now quotes"
    "vm \<in> set (cu_Venues (cr_Update (Compute policy now t sy quotes gs)))"
  obtains v q where "(v, q) \<in> set quotes" "vm_Venue vm = v" "vm_Mid vm = ComputeMid q"
    "vm_DeviationBps vm = DeviationBps (ComputeMid q) (median_mid p quotes)"
    "vm_Trust vm = weight p t sy now gs quotes v"
    "vm_Status vm = vs_State (row_status (row_of p t sy now gs quotes (venue_raw p (v, q))))"
    "''HARD_OUTLIER'' \<in> set (vm_Flags vm) \<longleftrightarrow> vm_DeviationBps vm > p_OutlierBpsBlacklist p"
  using assms(3) that
  by (auto simp: Compute_unfold [OF assms(1,2)] metrics_of_def eligible_of_def row_of_def row_status)
     (auto simp: venue_row_def Let_def case_prod_beta split: if_splits)

section \<open>Concrete data for the witnesses\<close>

text \<open>An unflagged venue is within the warning threshold of the median.\<close>

lemma metrics_unflagged:
  assumes "p = ResolvedPolicy policy sy" "not_paused p now quotes"
    "vm \<in> set (cu_Venues (cr_Update (Compute policy now t sy quotes gs)))" "''OUTLIER'' \<notin> set (vm_Flags vm)"
  shows "vm_DeviationBps vm \<le> p_OutlierBpsWarn p"
  using assms(3,4)
  by (auto simp: Compute_unfold [OF assms(1,2)] metrics_of_def row_of_def venue_row_def Let_def
      case_prod_unfold split: if_splits)

definition sample_quote :: "Venue \<Rightarrow> real \<Rightarrow> Quote" where
  "sample_quote v px = \<lparr>q_SchemaVersion = 1, q_TenantID = ''t'', q_Venue = v,
     q_Symbol = ''BTC-PERP'', q_TsMs = 1000, q_BestBid = px, q_BestAsk = px, q_Mark = px,
     q_Index = px, q_BidDepth1Pct = 0, q_AskDepth1Pct = 0, q_Orderbook = None,
     q_FeeBpsTaker = 5, q_FundingRate = 0,
     q_FeedHealth = \<lparr>fh_WsConnected = True, fh_LastMsgTsMs = 1000\<rparr>\<rparr>"

definition sample_quotes :: "(Venue \<times> Quote) list" where
  "sample_quotes = [(''binance'', sample_quote ''binance'' 100), (''okx'', sample_quote ''okx'' 100.1),
     (''gate'', sample_quote ''gate'' 500)]"

definition sample_status :: "Venue \<Rightarrow> VenueStatus" where
  "sample_status v = (if v = ''gate''
     then fresh_status\<lparr>vs_State := StateBlacklisted, vs_BlacklistUntilMs := 61000\<rparr> else fresh_status)"

lemma sample_facts [simp]:
  "nonneg_trust sample_policy" "not_paused sample_policy now qs"
  "distinct (map fst sample_quotes)"
  "ComputeMid (sample_quote v px) = px"
  by (simp_all add: nonneg_trust_def sample_policy_def not_paused_def sample_quotes_def
      ComputeMid_def sample_quote_def)

section \<open>Properties\<close>

text \<open>
  C8.  For a policy whose base trust values are not negative, quotes of different venues and not all
  of them stale: if the quotes of every venue whose status after the call is not BLACKLISTED have
  their mid in [lo, hi], then the consensus mid is in [lo, hi]; or no venue carries weight and the
  mid is 0, the value that main.go treats as "consensus unavailable".  (It is a statement about the
  range only: the quote of a blacklisted venue still enters the median and the MAD, and so can
  change the weights that the other venues have within that range.)
\<close>

theorem consensus_mid_within_trusted_venues:
  assumes "nonneg_trust policy" "distinct (map fst quotes)"
    and "not_paused (ResolvedPolicy policy sy) now quotes"
    and "\<forall>(v, q)\<in>set quotes.
           (\<exists>ns. map_of (cr_NewStatuses (Compute policy now t sy quotes gs)) v = Some ns \<and>
                 vs_State ns \<noteq> StateBlacklisted) \<longrightarrow> lo \<le> ComputeMid q \<and> ComputeMid q \<le> hi"
  shows "c_Mid (cu_Consensus (cr_Update (Compute policy now t sy quotes gs))) = 0 \<and>
      (\<forall>vm\<in>set (cu_Venues (cr_Update (Compute policy now t sy quotes gs))). vm_Trust vm = 0) \<or>
    lo \<le> c_Mid (cu_Consensus (cr_Update (Compute policy now t sy quotes gs))) \<and>
    c_Mid (cu_Consensus (cr_Update (Compute policy now t sy quotes gs))) \<le> hi"
proof -
  let ?p = "ResolvedPolicy policy sy"
  have b: "lo \<le> ComputeMid q \<and> ComputeMid q \<le> hi"
    if "(v, q) \<in> set quotes" "0 < weight ?p t sy now gs quotes v" for v q
    using assms(4) that weight_blacklisted [OF assms(2) that(1), of ?p t sy now gs]
      NewStatuses_of [OF refl assms(3,2) that(1), of t gs] by fastforce
  have z: "vm_Trust vm = 0" if "\<forall>(v, q)\<in>set quotes. weight ?p t sy now gs quotes v = 0"
    "vm \<in> set (cu_Venues (cr_Update (Compute policy now t sy quotes gs)))" for vm
    using metrics_mem [OF refl assms(3) that(2)] that(1) by fastforce
  show ?thesis
    using consensus_mid_bounds [OF _ assms(2), of ?p t sy now gs lo hi] assms(1) b z
    unfolding Compute_mid [OF refl assms(3)] by auto
qed

theorem consensus_mid_within_trusted_venues_witness:
  "c_Mid (cu_Consensus (cr_Update (Compute sample_policy 1000 ''t'' ''BTC-PERP'' sample_quotes
      sample_status))) = 0 \<and>
   (\<forall>vm\<in>set (cu_Venues (cr_Update (Compute sample_policy 1000 ''t'' ''BTC-PERP'' sample_quotes
      sample_status))). vm_Trust vm = 0) \<or>
   100 \<le> c_Mid (cu_Consensus (cr_Update (Compute sample_policy 1000 ''t'' ''BTC-PERP'' sample_quotes
      sample_status))) \<and>
   c_Mid (cu_Consensus (cr_Update (Compute sample_policy 1000 ''t'' ''BTC-PERP'' sample_quotes
      sample_status))) \<le> 100.1"
proof (rule consensus_mid_within_trusted_venues)
  let ?gate = "venue_raw sample_policy (''gate'', sample_quote ''gate'' 500)"
  have "row_status (row_of sample_policy ''t'' ''BTC-PERP'' 1000 sample_status sample_quotes ?gate) =
      sample_status ''gate''"
    unfolding row_of_def row_status
    by (subst breaker_step_blacklisted) (simp_all add: sample_status_def fresh_status_def)
  then have "map_of (cr_NewStatuses (Compute sample_policy 1000 ''t'' ''BTC-PERP'' sample_quotes
      sample_status)) ''gate'' = Some (sample_status ''gate'')"
    by (subst NewStatuses_of [where p = sample_policy and q = "sample_quote ''gate'' 500"])
       (simp_all, simp add: sample_quotes_def)
  then show "\<forall>(v, q)\<in>set sample_quotes.
     (\<exists>ns. map_of (cr_NewStatuses (Compute sample_policy 1000 ''t'' ''BTC-PERP'' sample_quotes
        sample_status)) v = Some ns \<and> vs_State ns \<noteq> StateBlacklisted) \<longrightarrow>
     100 \<le> ComputeMid q \<and> ComputeMid q \<le> 100.1"
    by (auto simp: sample_quotes_def sample_status_def)
qed simp_all

text \<open>
  C29.  What Compute decides about the venues does not depend on the order in which Go ranges over
  the map of quotes.  Two orders of the same entries, of different venues, give every venue the same
  new status; the same status updates, anomalies, and venue rows but for the trust, up to order; the
  same trust before it is normalised; and the same quality.  These rest on the sorted statistics
  (median and MAD), on counts and on the venue's own quote, so the claim is not one about sums:
  the normalised trust and the consensus prices are sums of float64 in that order, and are left out.
\<close>

theorem venue_decisions_ignore_the_iteration_order:
  assumes "mset quotes = mset quotes'" "distinct (map fst quotes)"
  shows "map_of (cr_NewStatuses (Compute policy now t sy quotes gs)) =
         map_of (cr_NewStatuses (Compute policy now t sy quotes' gs)) \<and>
         mset (cr_StatusUpdates (Compute policy now t sy quotes gs)) =
         mset (cr_StatusUpdates (Compute policy now t sy quotes' gs)) \<and>
         mset (cr_Anomalies (Compute policy now t sy quotes gs)) =
         mset (cr_Anomalies (Compute policy now t sy quotes' gs)) \<and>
         mset (map untrusted (cu_Venues (cr_Update (Compute policy now t sy quotes gs)))) =
         mset (map untrusted (cu_Venues (cr_Update (Compute policy now t sy quotes' gs)))) \<and>
         mset (raw_trust (ResolvedPolicy policy sy) t sy now gs quotes) =
         mset (raw_trust (ResolvedPolicy policy sy) t sy now gs quotes') \<and>
         c_Quality (cu_Consensus (cr_Update (Compute policy now t sy quotes gs))) =
         c_Quality (cu_Consensus (cr_Update (Compute policy now t sy quotes' gs)))"
proof (cases "not_paused (ResolvedPolicy policy sy) now quotes")
  case False
  then have "\<not> not_paused (ResolvedPolicy policy sy) now quotes'" using not_paused_mset [OF assms(1)] by simp
  with False have "Compute policy now t sy quotes gs = Compute policy now t sy quotes' gs"
    by (simp only: Compute_def Let_def not_paused_def not_not if_True simp_thms)
  then show ?thesis using raw_trust_mset [OF assms(1)] by simp
next
  case True
  with not_paused_mset [OF assms(1)] have True': "not_paused (ResolvedPolicy policy sy) now quotes'" by simp
  show ?thesis
    unfolding Compute_unfold [OF refl True] Compute_unfold [OF refl True'] ComputeResult.simps ConsensusUpdate.simps
      consensus_prices_def Let_def Consensus.simps row_of_mset [OF assms(1)]
    by (intro conjI map_filter_mset eligible_mset quality_untrusted metrics_untrusted raw_trust_mset assms(1))
       (rule new_statuses_mset [OF assms, unfolded row_of_mset [OF assms(1)]])
qed

theorem venue_decisions_ignore_the_iteration_order_witness:
  "mset (cr_Anomalies (Compute sample_policy 1000 ''t'' ''BTC-PERP'' sample_quotes sample_status)) =
   mset (cr_Anomalies (Compute sample_policy 1000 ''t'' ''BTC-PERP'' (rev sample_quotes) sample_status)) \<and>
   length sample_quotes = 3 \<and> rev sample_quotes \<noteq> sample_quotes"
  using venue_decisions_ignore_the_iteration_order [of sample_quotes "rev sample_quotes"]
  by (simp add: sample_quotes_def)

text \<open>
  C27.  Tolerance of a faulty minority: when more than half of the quotes have their mid in
  [lo, hi], a venue quoting more than the blacklist threshold above hi carries the flag
  HARD_OUTLIER, and when the honest band is no wider than the blacklist threshold no venue
  inside it does.
\<close>

theorem honest_majority_flags_only_the_outliers:
  assumes "not_paused (ResolvedPolicy policy sy) now quotes" "epsilon \<le> lo"
    and "length quotes < 2 * length (filter (\<lambda>(v, q). lo \<le> ComputeMid q \<and> ComputeMid q \<le> hi) quotes)"
    and "0 \<le> p_OutlierBpsBlacklist (ResolvedPolicy policy sy)"
    and "vm \<in> set (cu_Venues (cr_Update (Compute policy now t sy quotes gs)))"
  shows "(hi * (1 + p_OutlierBpsBlacklist (ResolvedPolicy policy sy) / 10000) < vm_Mid vm \<longrightarrow>
            ''HARD_OUTLIER'' \<in> set (vm_Flags vm)) \<and>
         (hi \<le> lo * (1 + p_OutlierBpsBlacklist (ResolvedPolicy policy sy) / 10000) \<and>
            lo \<le> vm_Mid vm \<and> vm_Mid vm \<le> hi \<longrightarrow> ''HARD_OUTLIER'' \<notin> set (vm_Flags vm))"
proof -
  let ?p = "ResolvedPolicy policy sy"
  obtain v q where vm: "vm_Mid vm = ComputeMid q"
    "vm_DeviationBps vm = DeviationBps (ComputeMid q) (median_mid ?p quotes)"
    "''HARD_OUTLIER'' \<in> set (vm_Flags vm) \<longleftrightarrow> vm_DeviationBps vm > p_OutlierBpsBlacklist ?p"
    using metrics_mem [OF refl assms(1,5)] by metis
  note med = median_mid_majority [OF assms(3), of ?p]
  have eps: "epsilon \<le> median_mid ?p quotes" using med assms(2) by linarith
  show ?thesis
    using DeviationBps_far [OF eps, of hi "p_OutlierBpsBlacklist ?p" "vm_Mid vm"] assms(4) med vm
      DeviationBps_near [OF assms(2), of "median_mid ?p quotes" hi "vm_Mid vm" "p_OutlierBpsBlacklist ?p"]
    by (auto simp: not_less)
qed

theorem honest_majority_flags_only_the_outliers_witness:
  "\<exists>vm\<in>set (cu_Venues (cr_Update (Compute sample_policy 1000 ''t'' ''BTC-PERP'' sample_quotes sample_status))).
     vm_Mid vm = 500 \<and> ''HARD_OUTLIER'' \<in> set (vm_Flags vm)"
proof -
  let ?venues = "cu_Venues (cr_Update (Compute sample_policy 1000 ''t'' ''BTC-PERP'' sample_quotes sample_status))"
  have "map vm_Mid ?venues = [100, 100.1, 500]"
    by (simp add: Compute_unfold [where p = sample_policy] metrics_of_def eligible_of_def row_of_def
        sample_quotes_def)
  then have "500 \<in> vm_Mid ` set ?venues" by (metis list.set_intros set_map)
  then obtain vm where vm: "vm \<in> set ?venues" "vm_Mid vm = 500" by auto
  have maj: "length sample_quotes <
      2 * length (filter (\<lambda>(v, q). 100 \<le> ComputeMid q \<and> ComputeMid q \<le> 100.1) sample_quotes)"
    by (simp add: sample_quotes_def)
  have "''HARD_OUTLIER'' \<in> set (vm_Flags vm)"
    using honest_majority_flags_only_the_outliers [OF _ _ maj _ vm(1)] vm(2)
    by (simp add: epsilon_def)
  with vm show ?thesis by blast
qed

end
