(* ===== verification/Transfer_Policy.thy ===== *)
theory Transfer_Policy
  imports Interfaces
begin

text \<open>
  internal/transfer (types.go, config.go, policy.go, client.go): the policy engine every
  withdrawal passes, the approval store, and the HTTP client that treasury uses.  The state is
  \<open>PolicyEngine\<close>; \<open>Check\<close>, \<open>Approve\<close>, \<open>DenyPending\<close> and \<open>ListPending\<close> are its
  operations, each run under the engine's lock and so atomic.  The bytes of the policy file at
  the moment of a check and the SHA-256 function are parameters.
\<close>

datatype Status = StatusApproved | StatusDenied | StatusPending | StatusOther string

record Request =
  rq_ID :: string
  rq_TenantID :: string
  rq_FromVenue :: string
  rq_ToVenue :: string
  rq_ToAddress :: string
  rq_Asset :: string
  rq_AmountUSD :: float64
  rq_Network :: string
  rq_Region :: string
  rq_RequestedAt :: go_time
  rq_RequestedBy :: string

record Decision =
  de_RequestID :: string
  de_Status :: Status
  de_DenialCode :: string
  de_Reason :: gotext
  de_CheckedAt :: go_time
  de_RequiresApproval :: bool
  de_ApprovalsNeeded :: int
  de_ApprovalsHave :: int

record AllowlistEntry =
  al_Label :: string
  al_Address :: string
  al_Asset :: string
  al_MaxPerTxUSD :: float64
  al_AddedAt :: string

record Approval =
  ap_RequestID :: string
  ap_ApprovedBy :: string
  ap_ApprovedAt :: go_time
  ap_Comment :: string

record PendingTransfer =
  pt_Request :: Request
  pt_Decision :: Decision
  pt_Approvals :: "Approval list"
  pt_CreatedAt :: go_time
  pt_ExpiresAt :: go_time

record VenueRegion =
  re_Venue :: string
  re_Region :: string
  re_Blocked :: "string list"

record TransferConfig =
  tc_ManualApprovalRequired :: bool
  tc_Allowlist :: "AllowlistEntry list"
  tc_MaxPerTransferUSD :: float64
  tc_MaxDailyUSD :: float64
  tc_MaxTransfersPerDay :: int
  tc_NewAddressCooloffH :: int
  tc_DualApprovalThresholdUSD :: float64
  tc_ApprovalExpiryH :: int
  tc_VenueRegions :: "VenueRegion list"
  tc_configHash :: string
  tc_rawYAML :: string

definition LoadTransferConfig ::
  "(string \<Rightarrow> string) \<Rightarrow> (string \<Rightarrow> TransferConfig option) \<Rightarrow> string option \<Rightarrow> gotext + TransferConfig" where
  "LoadTransferConfig sha256hex unmarshal file =
     (case file of
        None \<Rightarrow> Inl (Txt ''reading transfer policy'')
      | Some data \<Rightarrow>
          (case unmarshal data of
             None \<Rightarrow> Inl (Txt ''parsing transfer policy'')
           | Some cfg \<Rightarrow> Inr (cfg\<lparr>tc_configHash := sha256hex data, tc_rawYAML := data\<rparr>)))"

definition TamperCheck :: "(string \<Rightarrow> string) \<Rightarrow> TransferConfig \<Rightarrow> string option \<Rightarrow> gotext option" where
  "TamperCheck sha256hex c file =
     (case file of
        None \<Rightarrow> Some (Txt ''re-reading transfer policy for tamper check'')
      | Some data \<Rightarrow>
          (let current = sha256hex data in
           if current \<noteq> tc_configHash c
           then Some (Sprintf ''transfer policy TAMPERED: on-disk hash %s != loaded hash %s''
                        [AStr current, AStr (tc_configHash c)])
           else None))"

record transferRecord =
  tr_toAddress :: string
  tr_amountUSD :: float64
  tr_ts :: go_time

record PolicyEngine =
  pe_cfg :: TransferConfig
  pe_history :: "transferRecord list"
  pe_pending :: "(string \<times> PendingTransfer) list"

definition NewPolicyEngine :: "TransferConfig \<Rightarrow> PolicyEngine" where
  "NewPolicyEngine cfg = \<lparr>pe_cfg = cfg, pe_history = [], pe_pending = []\<rparr>"

section \<open>Helpers\<close>

text \<open>The last venue region whose name matches wins, as the loop overwrites the pointer.\<close>

definition region_of :: "VenueRegion list \<Rightarrow> string \<Rightarrow> VenueRegion option" where
  "region_of vrs venue =
     foldl (\<lambda>acc vr. if equal_fold (re_Venue vr) venue then Some vr else acc) None vrs"

definition blocks :: "VenueRegion \<Rightarrow> string \<Rightarrow> bool" where
  "blocks vr region \<longleftrightarrow> list_ex (\<lambda>b. equal_fold b region) (re_Blocked vr)"

definition checkRegionConstraints :: "TransferConfig \<Rightarrow> Request \<Rightarrow> gotext option" where
  "checkRegionConstraints cfg req =
     (if tc_VenueRegions cfg = [] then None
      else
        (let fromRegion = region_of (tc_VenueRegions cfg) (rq_FromVenue req);
             toRegion = region_of (tc_VenueRegions cfg) (rq_ToVenue req) in
         if (case fromRegion of None \<Rightarrow> False
             | Some vr \<Rightarrow> rq_Region req \<noteq> '''' \<and> blocks vr (rq_Region req))
         then Some (Sprintf ''venue %s blocks transfers from region %s''
                      [AStr (rq_FromVenue req), AStr (rq_Region req)])
         else if (case toRegion of None \<Rightarrow> False
             | Some vr \<Rightarrow> rq_Region req \<noteq> '''' \<and> blocks vr (rq_Region req))
         then Some (Sprintf ''venue %s blocks transfers to region %s''
                      [AStr (rq_ToVenue req), AStr (rq_Region req)])
         else (case (fromRegion, toRegion) of
                 (Some fr, Some t) \<Rightarrow>
                   (if blocks t (re_Region fr)
                    then Some (Sprintf ''transfers from %s (region %s) to %s blocked''
                           [AStr (rq_FromVenue req), AStr (re_Region fr), AStr (rq_ToVenue req)])
                    else None)
               | _ \<Rightarrow> None)))"

definition allowlistEntry :: "TransferConfig \<Rightarrow> string \<Rightarrow> string \<Rightarrow> AllowlistEntry option" where
  "allowlistEntry cfg addr asset =
     find (\<lambda>e. equal_fold (al_Address e) addr \<and>
               (al_Asset e = ''*'' \<or> equal_fold (al_Asset e) asset)) (tc_Allowlist cfg)"

definition pruneHistory :: "go_time \<Rightarrow> transferRecord list \<Rightarrow> transferRecord list" where
  "pruneHistory now history = dropWhile (\<lambda>r. tr_ts r < now - 24 * hour_ns) history"

definition dailyTotal :: "transferRecord list \<Rightarrow> real" where
  "dailyTotal history = sum_list (map tr_amountUSD history)"

definition deny :: "Decision \<Rightarrow> string \<Rightarrow> gotext \<Rightarrow> Decision" where
  "deny base code reason =
     base\<lparr>de_Status := StatusDenied, de_DenialCode := code, de_Reason := reason\<rparr>"

section \<open>Check\<close>

text \<open>The zero value of a decision, with the request's id and the time of the check.\<close>

definition base_decision :: "string \<Rightarrow> go_time \<Rightarrow> Decision" where
  "base_decision rid now =
     \<lparr>de_RequestID = rid, de_Status = StatusOther '''', de_DenialCode = '''', de_Reason = Txt '''',
      de_CheckedAt = now, de_RequiresApproval = False, de_ApprovalsNeeded = 0,
      de_ApprovalsHave = 0\<rparr>"

definition max_per_tx :: "TransferConfig \<Rightarrow> AllowlistEntry \<Rightarrow> real" where
  "max_per_tx cfg entry =
     (if al_MaxPerTxUSD entry > 0 \<and> al_MaxPerTxUSD entry < tc_MaxPerTransferUSD cfg
      then al_MaxPerTxUSD entry else tc_MaxPerTransferUSD cfg)"

definition cooloff_expiry :: "TransferConfig \<Rightarrow> AllowlistEntry \<Rightarrow> go_time option" where
  "cooloff_expiry cfg entry =
     (if tc_NewAddressCooloffH cfg > 0 \<and> al_AddedAt entry \<noteq> ''''
      then map_option (\<lambda>addedAt. addedAt + tc_NewAddressCooloffH cfg * hour_ns)
             (parse_date (al_AddedAt entry))
      else None)"

definition approval_expiry :: "TransferConfig \<Rightarrow> int" where
  "approval_expiry cfg = (if tc_ApprovalExpiryH cfg = 0 then 24 else tc_ApprovalExpiryH cfg)"

definition hold_pending ::
  "PolicyEngine \<Rightarrow> Request \<Rightarrow> go_time \<Rightarrow> int \<Rightarrow> gotext \<Rightarrow> PolicyEngine \<times> Decision" where
  "hold_pending e req now needed reason =
     (let base = (base_decision (rq_ID req) now)
                   \<lparr>de_Status := StatusPending, de_RequiresApproval := True,
                    de_ApprovalsNeeded := needed, de_ApprovalsHave := 0, de_Reason := reason\<rparr>;
          pt = \<lparr>pt_Request = req, pt_Decision = base, pt_Approvals = [], pt_CreatedAt = now,
                pt_ExpiresAt = now + approval_expiry (pe_cfg e) * hour_ns\<rparr>
      in (e\<lparr>pe_pending := AList.update (rq_ID req) pt (pe_pending e)\<rparr>, base))"

definition Check ::
  "(string \<Rightarrow> string) \<Rightarrow> string option \<Rightarrow> go_time \<Rightarrow> PolicyEngine \<Rightarrow> Request \<Rightarrow> PolicyEngine \<times> Decision" where
  "Check sha256hex file now e req =
     (let cfg = pe_cfg e; base = base_decision (rq_ID req) now in
      case TamperCheck sha256hex cfg file of
        Some err \<Rightarrow> (e, deny base ''CONFIG_TAMPERED'' err)
      | None \<Rightarrow>
      (case checkRegionConstraints cfg req of
        Some reason \<Rightarrow> (e, deny base ''REGION_BLOCKED'' reason)
      | None \<Rightarrow>
      (case allowlistEntry cfg (rq_ToAddress req) (rq_Asset req) of
        None \<Rightarrow> (e, deny base ''ADDRESS_NOT_ALLOWLISTED''
                   (Sprintf ''destination %s is not on the pre-approved allowlist''
                      [AStr (rq_ToAddress req)]))
      | Some entry \<Rightarrow>
         (let maxPerTx = max_per_tx cfg entry in
          if maxPerTx > 0 \<and> rq_AmountUSD req > maxPerTx
          then (e, deny base ''EXCEEDS_PER_TX_CAP''
                     (Sprintf ''amount $%.2f exceeds per-transfer cap $%.2f''
                        [AFlt (rq_AmountUSD req), AFlt maxPerTx]))
          else if (case cooloff_expiry cfg entry of None \<Rightarrow> False | Some ex \<Rightarrow> now < ex)
          then (e, deny base ''NEW_ADDRESS_COOLOFF''
                     (Sprintf ''address %s is in new-address cooloff until %s''
                        [AStr (rq_ToAddress req), ATime (the (cooloff_expiry cfg entry))]))
          else
         (let history = pruneHistory now (pe_history e); e = e\<lparr>pe_history := history\<rparr> in
          if tc_MaxTransfersPerDay cfg > 0 \<and> int (length history) \<ge> tc_MaxTransfersPerDay cfg
          then (e, deny base ''DAILY_TRANSFER_COUNT_EXCEEDED''
                     (Sprintf ''daily transfer count %d exceeds limit %d''
                        [AInt (int (length history)), AInt (tc_MaxTransfersPerDay cfg)]))
          else if tc_MaxDailyUSD cfg > 0 \<and>
                  dailyTotal history + rq_AmountUSD req > tc_MaxDailyUSD cfg
          then (e, deny base ''DAILY_NOTIONAL_EXCEEDED''
                     (Sprintf ''daily total $%.2f + $%.2f would exceed limit $%.2f''
                        [AFlt (dailyTotal history), AFlt (rq_AmountUSD req), AFlt (tc_MaxDailyUSD cfg)]))
          else if tc_DualApprovalThresholdUSD cfg > 0 \<and>
                  rq_AmountUSD req \<ge> tc_DualApprovalThresholdUSD cfg
          then hold_pending e req now 2
                 (Sprintf ''dual approval required: $%.2f >= threshold $%.2f''
                    [AFlt (rq_AmountUSD req), AFlt (tc_DualApprovalThresholdUSD cfg)])
          else if tc_ManualApprovalRequired cfg
          then hold_pending e req now 1
                 (Txt ''manual approval required by policy; all controls passed'')
          else
            (e\<lparr>pe_history := history @ [\<lparr>tr_toAddress = rq_ToAddress req,
                 tr_amountUSD = rq_AmountUSD req, tr_ts = now\<rparr>]\<rparr>,
             base\<lparr>de_Status := StatusApproved, de_Reason := Txt ''all policy checks passed''\<rparr>))))))"

section \<open>Approve, DenyPending, ListPending\<close>

definition Approve ::
  "go_time \<Rightarrow> PolicyEngine \<Rightarrow> string \<Rightarrow> string \<Rightarrow> string \<Rightarrow> PolicyEngine \<times> Decision \<times> bool" where
  "Approve now e requestID approvedBy comment =
     (let base = base_decision requestID now in
      case map_of (pe_pending e) requestID of
        None \<Rightarrow> (e, deny base ''NOT_FOUND'' (Txt ''no pending transfer with this ID''), False)
      | Some pt \<Rightarrow>
          (if now > pt_ExpiresAt pt
           then (e\<lparr>pe_pending := AList.delete requestID (pe_pending e)\<rparr>,
                 deny base ''EXPIRED'' (Sprintf ''approval expired at %s'' [ATime (pt_ExpiresAt pt)]),
                 False)
           else if list_ex (\<lambda>a. ap_ApprovedBy a = approvedBy) (pt_Approvals pt)
           then (e, base\<lparr>de_Status := StatusPending, de_DenialCode := ''DUPLICATE_APPROVER'',
                   de_Reason := Sprintf ''operator %q has already approved this transfer''
                      [AStr approvedBy]\<rparr>, False)
           else if rq_RequestedBy (pt_Request pt) = approvedBy
           then (e, base\<lparr>de_Status := StatusPending, de_DenialCode := ''SELF_APPROVAL'',
                   de_Reason := Txt ''the requestor cannot approve their own transfer''\<rparr>, False)
           else
             (let approvals = pt_Approvals pt @ [\<lparr>ap_RequestID = requestID,
                    ap_ApprovedBy = approvedBy, ap_ApprovedAt = now, ap_Comment = comment\<rparr>];
                  pt = pt\<lparr>pt_Approvals := approvals,
                          pt_Decision := (pt_Decision pt)\<lparr>de_ApprovalsHave := int (length approvals)\<rparr>\<rparr> in
              if int (length approvals) \<ge> de_ApprovalsNeeded (pt_Decision pt)
              then (e\<lparr>pe_history := pe_history e @ [\<lparr>tr_toAddress = rq_ToAddress (pt_Request pt),
                        tr_amountUSD = rq_AmountUSD (pt_Request pt), tr_ts = now\<rparr>],
                      pe_pending := AList.delete requestID (pe_pending e)\<rparr>,
                    base\<lparr>de_Status := StatusApproved,
                         de_Reason := Sprintf ''approved by %d operators'' [AInt (int (length approvals))],
                         de_ApprovalsNeeded := de_ApprovalsNeeded (pt_Decision pt),
                         de_ApprovalsHave := int (length approvals)\<rparr>, True)
              else (e\<lparr>pe_pending := AList.update requestID pt (pe_pending e)\<rparr>, pt_Decision pt, False))))"

definition DenyPending ::
  "go_time \<Rightarrow> PolicyEngine \<Rightarrow> string \<Rightarrow> string \<Rightarrow> string \<Rightarrow> PolicyEngine \<times> Decision" where
  "DenyPending now e requestID deniedBy reason =
     (case map_of (pe_pending e) requestID of
        None \<Rightarrow> (e, deny (base_decision requestID now) ''NOT_FOUND''
                    (Txt ''no pending transfer with this ID''))
      | Some pt \<Rightarrow>
          (e\<lparr>pe_pending := AList.delete requestID (pe_pending e)\<rparr>,
           deny (base_decision requestID now) ''OPERATOR_DENIED''
             (Sprintf ''denied by %s: %s'' [AStr deniedBy, AStr reason])))"

definition ListPending :: "go_time \<Rightarrow> PolicyEngine \<Rightarrow> PolicyEngine \<times> PendingTransfer list" where
  "ListPending now e =
     (let kept = filter (\<lambda>(i, pt). \<not> now > pt_ExpiresAt pt) (pe_pending e)
      in (e\<lparr>pe_pending := kept\<rparr>, map snd kept))"

section \<open>The client\<close>

text \<open>
  What the client sees of one POST /check: no answer, a body that is not JSON, or the decoded
  \<open>CheckResult\<close>.  A JSON object without the fields decodes to their zero values.
\<close>

record CheckResult =
  ck_RequestID :: string
  ck_Status :: Status
  ck_DenialCode :: string
  ck_Reason :: gotext
  ck_RequiresApproval :: bool

datatype transport = Unreachable | Undecodable | Body CheckResult

definition ClientCheck :: "(Request \<Rightarrow> transport) \<Rightarrow> Request \<Rightarrow> gotext + CheckResult" where
  "ClientCheck post req =
     (case post req of
        Unreachable \<Rightarrow> Inl (Txt ''transfer-policy unreachable (fail-closed)'')
      | Undecodable \<Rightarrow> Inl (Txt ''decode response'')
      | Body result \<Rightarrow> Inr result)"

definition MustApprove :: "(Request \<Rightarrow> transport) \<Rightarrow> Request \<Rightarrow> gotext option" where
  "MustApprove post req =
     (case ClientCheck post req of
        Inl err \<Rightarrow> Some (Txt ''policy check failed (fail-closed)'')
      | Inr result \<Rightarrow>
          (if ck_Status result = StatusDenied
           then Some (Sprintf ''transfer denied: %s'' [AStr (ck_DenialCode result)])
           else if ck_Status result = StatusPending
           then Some (Sprintf ''transfer requires manual approval (request_id=%s)''
                        [AStr (ck_RequestID result)])
           else None))"

text \<open>
  The handler of POST /check in cmd/transfer-policy/main.go.  A body it cannot decode is
  answered with an object whose only key is \<open>error\<close>, which the client decodes to
  \<open>zero_result\<close>.
\<close>

definition zero_result :: CheckResult where
  "zero_result = \<lparr>ck_RequestID = '''', ck_Status = StatusOther '''', ck_DenialCode = '''',
     ck_Reason = Txt '''', ck_RequiresApproval = False\<rparr>"

definition result_of :: "Decision \<Rightarrow> CheckResult" where
  "result_of d = \<lparr>ck_RequestID = de_RequestID d, ck_Status = de_Status d,
     ck_DenialCode = de_DenialCode d, ck_Reason = de_Reason d,
     ck_RequiresApproval = de_RequiresApproval d\<rparr>"

definition handle_check ::
  "(string \<Rightarrow> string) \<Rightarrow> string option \<Rightarrow> go_time \<Rightarrow> PolicyEngine \<Rightarrow> Request option
   \<Rightarrow> PolicyEngine \<times> CheckResult" where
  "handle_check sha256hex file now e body =
     (case body of
        None \<Rightarrow> (e, zero_result)
      | Some req \<Rightarrow>
          (let req = (if rq_RequestedAt req = zero_time then req\<lparr>rq_RequestedAt := now\<rparr> else req) in
           case Check sha256hex file now e req of (e', d) \<Rightarrow> (e', result_of d)))"

section \<open>Lemmas on Check\<close>

interpretation transfer_window: rolling_window tr_ts "\<lambda>c. dropWhile (\<lambda>r. tr_ts r < c)"
  by unfold_locales simp_all

lemma pruneHistory_filter:
  "sorted (map tr_ts h) \<Longrightarrow> pruneHistory now h = filter (\<lambda>r. now - 24 * hour_ns \<le> tr_ts r) h"
  unfolding pruneHistory_def by (rule transfer_window.prune_filter)

lemma base_decision_simps [simp]:
  "de_Status (base_decision i now) = StatusOther ''''" "de_RequestID (base_decision i now) = i"
  by (simp_all add: base_decision_def)

lemma deny_simps [simp]:
  "de_Status (deny b c r) = StatusDenied" "de_DenialCode (deny b c r) = c"
  by (simp_all add: deny_def)

text \<open>Every control of the list, in its order, and the one that lets a request through.\<close>

definition passes_controls ::
  "(string \<Rightarrow> string) \<Rightarrow> string option \<Rightarrow> go_time \<Rightarrow> PolicyEngine \<Rightarrow> Request \<Rightarrow> bool" where
  "passes_controls sha256hex file now e req \<longleftrightarrow>
     TamperCheck sha256hex (pe_cfg e) file = None \<and>
     checkRegionConstraints (pe_cfg e) req = None \<and>
     (\<exists>entry. allowlistEntry (pe_cfg e) (rq_ToAddress req) (rq_Asset req) = Some entry \<and>
        (max_per_tx (pe_cfg e) entry > 0 \<longrightarrow> rq_AmountUSD req \<le> max_per_tx (pe_cfg e) entry) \<and>
        (\<forall>ex. cooloff_expiry (pe_cfg e) entry = Some ex \<longrightarrow> ex \<le> now)) \<and>
     (tc_MaxTransfersPerDay (pe_cfg e) > 0 \<longrightarrow>
        int (length (pruneHistory now (pe_history e))) < tc_MaxTransfersPerDay (pe_cfg e)) \<and>
     (tc_MaxDailyUSD (pe_cfg e) > 0 \<longrightarrow>
        dailyTotal (pruneHistory now (pe_history e)) + rq_AmountUSD req \<le> tc_MaxDailyUSD (pe_cfg e))"

definition needs_dual :: "TransferConfig \<Rightarrow> Request \<Rightarrow> bool" where
  "needs_dual cfg req \<longleftrightarrow>
     tc_DualApprovalThresholdUSD cfg > 0 \<and> rq_AmountUSD req \<ge> tc_DualApprovalThresholdUSD cfg"

lemma hold_pending_fst_snd:
  "hold_pending e req now k r = (e', d) \<Longrightarrow>
     de_Status d = StatusPending \<and> de_ApprovalsNeeded d = k \<and> pe_cfg e' = pe_cfg e \<and>
     pe_history e' = pe_history e"
  by (auto simp: hold_pending_def Let_def)

lemma Check_denied_or_passes:
  assumes "Check sha file now e req = (e', d)"
  shows "(de_Status d = StatusDenied \<and> pe_pending e' = pe_pending e \<and> pe_cfg e' = pe_cfg e \<and>
            pe_history e' \<in> {pe_history e, pruneHistory now (pe_history e)} \<and>
            \<not> passes_controls sha file now e req) \<or>
         (passes_controls sha file now e req \<and>
          (e', d) =
            (let e1 = e\<lparr>pe_history := pruneHistory now (pe_history e)\<rparr> in
             if needs_dual (pe_cfg e) req then hold_pending e1 req now 2
                 (Sprintf ''dual approval required: $%.2f >= threshold $%.2f''
                    [AFlt (rq_AmountUSD req), AFlt (tc_DualApprovalThresholdUSD (pe_cfg e))])
             else if tc_ManualApprovalRequired (pe_cfg e) then hold_pending e1 req now 1
                 (Txt ''manual approval required by policy; all controls passed'')
             else (e1\<lparr>pe_history := pruneHistory now (pe_history e) @
                       [\<lparr>tr_toAddress = rq_ToAddress req, tr_amountUSD = rq_AmountUSD req, tr_ts = now\<rparr>]\<rparr>,
                   (base_decision (rq_ID req) now)
                     \<lparr>de_Status := StatusApproved, de_Reason := Txt ''all policy checks passed''\<rparr>)))"
proof (cases "TamperCheck sha (pe_cfg e) file")
  case (Some err)
  with assms show ?thesis by (auto simp: Check_def Let_def passes_controls_def)
next
  case tamper: None
  show ?thesis
  proof (cases "checkRegionConstraints (pe_cfg e) req")
    case (Some reason)
    with assms tamper show ?thesis by (auto simp: Check_def Let_def passes_controls_def)
  next
    case region: None
    show ?thesis
    proof (cases "allowlistEntry (pe_cfg e) (rq_ToAddress req) (rq_Asset req)")
      case None
      with assms tamper region show ?thesis by (auto simp: Check_def Let_def passes_controls_def)
    next
      case (Some entry)
      have *: "passes_controls sha file now e req \<longleftrightarrow>
         \<not> (max_per_tx (pe_cfg e) entry > 0 \<and> rq_AmountUSD req > max_per_tx (pe_cfg e) entry) \<and>
         \<not> (case cooloff_expiry (pe_cfg e) entry of None \<Rightarrow> False | Some ex \<Rightarrow> now < ex) \<and>
         \<not> (tc_MaxTransfersPerDay (pe_cfg e) > 0 \<and>
            int (length (pruneHistory now (pe_history e))) \<ge> tc_MaxTransfersPerDay (pe_cfg e)) \<and>
         \<not> (tc_MaxDailyUSD (pe_cfg e) > 0 \<and>
            dailyTotal (pruneHistory now (pe_history e)) + rq_AmountUSD req > tc_MaxDailyUSD (pe_cfg e))"
        using tamper region Some by (auto simp: passes_controls_def not_less split: option.splits)
      show ?thesis
        using assms unfolding * Check_def Let_def needs_dual_def
        by (simp add: tamper region Some split: if_split_asm) (auto simp: Let_def)
    qed
  qed
qed

section \<open>The approval store\<close>

datatype tp_event =
    EvCheck "string option" go_time Request
  | EvApprove go_time string string string
  | EvDeny go_time string string string
  | EvList go_time

fun tp_step :: "(string \<Rightarrow> string) \<Rightarrow> PolicyEngine \<Rightarrow> tp_event \<Rightarrow> PolicyEngine" where
  "tp_step sha e (EvCheck file now req) = fst (Check sha file now e req)"
| "tp_step sha e (EvApprove now i who c) = fst (Approve now e i who c)"
| "tp_step sha e (EvDeny now i who r) = fst (DenyPending now e i who r)"
| "tp_step sha e (EvList now) = fst (ListPending now e)"

definition wf_pending :: "TransferConfig \<Rightarrow> PendingTransfer \<Rightarrow> bool" where
  "wf_pending cfg pt \<longleftrightarrow>
     distinct (map ap_ApprovedBy (pt_Approvals pt)) \<and>
     rq_RequestedBy (pt_Request pt) \<notin> set (map ap_ApprovedBy (pt_Approvals pt)) \<and>
     de_ApprovalsNeeded (pt_Decision pt) = (if needs_dual cfg (pt_Request pt) then 2 else 1) \<and>
     int (length (pt_Approvals pt)) < de_ApprovalsNeeded (pt_Decision pt)"

definition wf_policy :: "PolicyEngine \<Rightarrow> bool" where
  "wf_policy e \<longleftrightarrow> distinct (map fst (pe_pending e)) \<and>
     (\<forall>(i, pt)\<in>set (pe_pending e). rq_ID (pt_Request pt) = i \<and> wf_pending (pe_cfg e) pt)"

lemma wf_policy_update:
  "wf_policy e \<Longrightarrow> rq_ID (pt_Request pt) = i \<Longrightarrow> wf_pending (pe_cfg e) pt \<Longrightarrow>
     wf_policy (e\<lparr>pe_pending := AList.update i pt (pe_pending e)\<rparr>)"
  unfolding wf_policy_def by (auto simp: distinct_update dest!: alist_update_set)

lemma wf_policy_delete:
  "wf_policy e \<Longrightarrow> wf_policy (e\<lparr>pe_pending := AList.delete i (pe_pending e)\<rparr>)"
  unfolding wf_policy_def by (auto simp: distinct_delete dest!: alist_delete_set)

lemma wf_policy_history [simp]: "wf_policy (e\<lparr>pe_history := h\<rparr>) = wf_policy e"
  by (simp add: wf_policy_def)

lemma wf_policy_lookup:
  "wf_policy e \<Longrightarrow> map_of (pe_pending e) i = Some pt \<Longrightarrow>
     rq_ID (pt_Request pt) = i \<and> wf_pending (pe_cfg e) pt"
  unfolding wf_policy_def using map_of_SomeD by fastforce

lemma hold_pending_wf:
  assumes "wf_policy e" "k = (if needs_dual (pe_cfg e) req then 2 else 1)"
  shows "wf_policy (fst (hold_pending e req now k r))"
  using assms(2) unfolding hold_pending_def Let_def fst_conv
  by (intro wf_policy_update assms(1)) (auto simp: wf_pending_def)

lemma Check_wf:
  assumes "wf_policy e"
  shows "wf_policy (fst (Check sha file now e req)) \<and> pe_cfg (fst (Check sha file now e req)) = pe_cfg e"
proof -
  obtain e' d where eq: "Check sha file now e req = (e', d)" by fastforce
  from Check_denied_or_passes [OF this] show ?thesis
  proof
    assume "de_Status d = StatusDenied \<and> pe_pending e' = pe_pending e \<and> pe_cfg e' = pe_cfg e \<and>
        pe_history e' \<in> {pe_history e, pruneHistory now (pe_history e)} \<and> \<not> passes_controls sha file now e req"
    with assms eq show ?thesis by (simp add: wf_policy_def)
  next
    let ?e1 = "e\<lparr>pe_history := pruneHistory now (pe_history e)\<rparr>"
    assume "passes_controls sha file now e req \<and> (e', d) = (let e1 = ?e1 in
         if needs_dual (pe_cfg e) req then hold_pending e1 req now 2
             (Sprintf ''dual approval required: $%.2f >= threshold $%.2f''
                [AFlt (rq_AmountUSD req), AFlt (tc_DualApprovalThresholdUSD (pe_cfg e))])
         else if tc_ManualApprovalRequired (pe_cfg e) then hold_pending e1 req now 1
             (Txt ''manual approval required by policy; all controls passed'')
         else (e1\<lparr>pe_history := pruneHistory now (pe_history e) @
                   [\<lparr>tr_toAddress = rq_ToAddress req, tr_amountUSD = rq_AmountUSD req, tr_ts = now\<rparr>]\<rparr>,
               (base_decision (rq_ID req) now)
                 \<lparr>de_Status := StatusApproved, de_Reason := Txt ''all policy checks passed''\<rparr>))"
    with eq hold_pending_wf [of ?e1 _ req now] hold_pending_fst_snd [of ?e1 req now _ _ e' d] assms
    show ?thesis by (auto simp: Let_def split: if_splits) (metis fst_conv)+
  qed
qed

text \<open>What the third return of \<open>Approve\<close> stands for.\<close>

lemma Approve_True:
  assumes "Approve now e i who c = (e', d, True)"
  obtains pt where "map_of (pe_pending e) i = Some pt" "now \<le> pt_ExpiresAt pt"
    "\<forall>a\<in>set (pt_Approvals pt). ap_ApprovedBy a \<noteq> who" "rq_RequestedBy (pt_Request pt) \<noteq> who"
    "de_ApprovalsNeeded (pt_Decision pt) \<le> int (length (pt_Approvals pt)) + 1"
    "de_Status d = StatusApproved" "pe_cfg e' = pe_cfg e"
    "pe_history e' = pe_history e @ [\<lparr>tr_toAddress = rq_ToAddress (pt_Request pt),
       tr_amountUSD = rq_AmountUSD (pt_Request pt), tr_ts = now\<rparr>]"
    "pe_pending e' = AList.delete i (pe_pending e)"
  using assms that
  by (auto simp: Approve_def Let_def list_ex_iff split: option.splits if_splits)

lemma Approve_False:
  assumes "Approve now e i who c = (e', d, False)" "wf_policy e"
  shows "wf_policy e' \<and> pe_cfg e' = pe_cfg e \<and> pe_history e' = pe_history e"
proof (cases "map_of (pe_pending e) i")
  case None
  with assms show ?thesis by (auto simp: Approve_def Let_def)
next
  case (Some pt)
  note wf = wf_policy_lookup [OF assms(2) Some]
  have wp: "wf_pending (pe_cfg e) pt" using wf by simp
  have upd: "wf_policy (e\<lparr>pe_pending := AList.update i (pt\<lparr>pt_Approvals := as, pt_Decision := dd\<rparr>) (pe_pending e)\<rparr>)"
    if "wf_pending (pe_cfg e) (pt\<lparr>pt_Approvals := as, pt_Decision := dd\<rparr>)" for as dd
    by (rule wf_policy_update [OF assms(2)]) (use wf that in simp_all)
  show ?thesis
    using assms wp
    by (auto simp: Approve_def Let_def Some list_ex_iff wf_pending_def Suc_le_eq image_iff intro!: wf_policy_delete upd
        split: if_splits)
qed

lemma tp_step_wf: "wf_policy e \<Longrightarrow> wf_policy (tp_step sha e ev) \<and> pe_cfg (tp_step sha e ev) = pe_cfg e"
proof (cases ev)
  case (EvCheck f now req)
  then show "wf_policy e \<Longrightarrow> ?thesis" using Check_wf by simp
next
  case (EvApprove now i who c)
  assume wf: "wf_policy e"
  obtain e' d b where eq: "Approve now e i who c = (e', d, b)" by (metis prod_cases3)
  show ?thesis
  proof (cases b)
    case True
    with eq have "Approve now e i who c = (e', d, True)" by simp
    then obtain h where "pe_cfg e' = pe_cfg e" "pe_pending e' = AList.delete i (pe_pending e)"
      by (rule Approve_True) simp
    with wf_policy_delete [OF wf, of i] eq show ?thesis by (simp add: EvApprove wf_policy_def)
  next
    case False
    with eq Approve_False [OF _ wf, of now i who c e' d] show ?thesis by (simp add: EvApprove)
  qed
next
  case (EvDeny now i who r)
  assume "wf_policy e"
  then show ?thesis
    by (auto simp: EvDeny DenyPending_def intro: wf_policy_delete split: option.splits)
next
  case (EvList now)
  assume "wf_policy e"
  then show ?thesis
    by (auto simp: EvList ListPending_def Let_def wf_policy_def intro: distinct_map_filter)
qed

interpretation policy_machine:
  invariant_machine "tp_step sha" "\<lambda>_. True" "\<lambda>e. wf_policy e \<and> pe_cfg e = cfg"
  by unfold_locales (use tp_step_wf in auto)

lemma tp_run_wf:
  "wf_policy (foldl (tp_step sha) (NewPolicyEngine cfg) es) \<and>
   pe_cfg (foldl (tp_step sha) (NewPolicyEngine cfg) es) = cfg"
  by (rule policy_machine.run_inv) (simp_all add: wf_policy_def NewPolicyEngine_def)

section \<open>The rolling daily cap\<close>

text \<open>Running checks while logging what each of them approved on the spot.\<close>

definition cap_step ::
  "(string \<Rightarrow> string) \<Rightarrow> PolicyEngine \<times> transferRecord list \<Rightarrow> string option \<times> go_time \<times> Request
   \<Rightarrow> PolicyEngine \<times> transferRecord list" where
  "cap_step sha s c =
     (case s of (e, approved) \<Rightarrow> case c of (file, now, req) \<Rightarrow>
      case Check sha file now e req of (e', d) \<Rightarrow>
        (e', if de_Status d = StatusApproved
             then approved @ [\<lparr>tr_toAddress = rq_ToAddress req, tr_amountUSD = rq_AmountUSD req, tr_ts = now\<rparr>]
             else approved))"

definition window_total :: "go_time \<Rightarrow> transferRecord list \<Rightarrow> real" where
  "window_total t lg = dailyTotal (filter (\<lambda>r. t - 24 * hour_ns \<le> tr_ts r \<and> tr_ts r \<le> t) lg)"

definition cap_inv :: "TransferConfig \<Rightarrow> go_time \<Rightarrow> PolicyEngine \<times> transferRecord list \<Rightarrow> bool" where
  "cap_inv cfg T s \<longleftrightarrow>
     (case s of (e, lg) \<Rightarrow>
        pe_cfg e = cfg \<and> sorted (map tr_ts lg) \<and>
        (\<forall>r\<in>set lg. tr_ts r \<le> T \<and> 0 \<le> tr_amountUSD r) \<and>
        (\<forall>now\<ge>T. pruneHistory now (pe_history e) = filter (\<lambda>r. now - 24 * hour_ns \<le> tr_ts r) lg) \<and>
        (\<forall>t. window_total t lg \<le> tc_MaxDailyUSD cfg))"

lemma pruneHistory_prune: "t \<le> now \<Longrightarrow> pruneHistory now (pruneHistory t h) = pruneHistory now h"
  unfolding pruneHistory_def by (rule transfer_window.prune_prune) simp

lemma dailyTotal_filter_mono:
  assumes "\<And>r. r \<in> set lg \<Longrightarrow> 0 \<le> tr_amountUSD r" "\<And>r. r \<in> set lg \<Longrightarrow> P r \<Longrightarrow> Q r"
  shows "dailyTotal (filter P lg) \<le> dailyTotal (filter Q lg)"
  using assms unfolding dailyTotal_def by (induction lg) (auto simp: add_increasing)

lemma cap_inv_later: "cap_inv cfg T s \<Longrightarrow> T \<le> T' \<Longrightarrow> cap_inv cfg T' s"
  unfolding cap_inv_def by (auto split: prod.splits)

lemma cap_inv_same_log:
  assumes "cap_inv cfg T (e, lg)" "T \<le> now" "pe_cfg e' = pe_cfg e"
    "pe_history e' \<in> {pe_history e, pruneHistory now (pe_history e)}"
  shows "cap_inv cfg now (e', lg)"
proof -
  have "pruneHistory t (pe_history e') = pruneHistory t (pe_history e)" if "now \<le> t" for t
    using assms(4) pruneHistory_prune [OF that] by auto
  then show ?thesis using cap_inv_later [OF assms(1,2)] assms(3) by (simp add: cap_inv_def)
qed

lemma cap_inv_append:
  assumes inv: "cap_inv cfg T (e, lg)" and T: "T \<le> now" and r: "tr_ts r = now" "0 \<le> tr_amountUSD r"
    and cap: "dailyTotal (pruneHistory now (pe_history e)) + tr_amountUSD r \<le> tc_MaxDailyUSD cfg"
    and e': "pe_cfg e' = pe_cfg e" "pe_history e' = pruneHistory now (pe_history e) @ [r]"
  shows "cap_inv cfg now (e', lg @ [r])"
proof -
  let ?new = "\<lambda>t r. t - 24 * hour_ns \<le> tr_ts r"
  have lg: "pe_cfg e = cfg" "sorted (map tr_ts lg)" "\<forall>r\<in>set lg. tr_ts r \<le> now \<and> 0 \<le> tr_amountUSD r"
    and hist: "pruneHistory now (pe_history e) = filter (?new now) lg"
    and win: "\<And>t. window_total t lg \<le> tc_MaxDailyUSD cfg"
    using inv T by (auto simp: cap_inv_def intro: order_trans)
  have srt: "sorted (map tr_ts (lg @ [r]))" "sorted (map tr_ts (filter (?new now) lg @ [r]))"
    using lg r by (auto simp: sorted_append sorted_filter)
  have "pruneHistory t (pe_history e') = filter (?new t) (lg @ [r])" if "now \<le> t" for t
  proof -
    have "filter (?new t) (filter (?new now) lg) = filter (?new t) lg"
      using that by (auto simp: filter_filter intro!: filter_cong)
    then show ?thesis unfolding e'(2) hist by (subst pruneHistory_filter [OF srt(2)]) simp
  qed
  moreover have "window_total t (lg @ [r]) \<le> tc_MaxDailyUSD cfg" for t
  proof (cases "?new t r \<and> now \<le> t")
    case False
    then have "window_total t (lg @ [r]) = window_total t lg" using r by (auto simp: window_total_def)
    then show ?thesis using win [of t] by simp
  next
    case True
    have "dailyTotal (filter (\<lambda>r. ?new t r \<and> tr_ts r \<le> t) lg) \<le> dailyTotal (filter (?new now) lg)"
      using lg True by (intro dailyTotal_filter_mono) auto
    with True cap show ?thesis by (simp add: window_total_def dailyTotal_def hist r)
  qed
  ultimately show ?thesis using lg srt r e' by (auto simp: cap_inv_def)
qed

lemma Check_approved:
  assumes "Check sha file now e req = (e', d)" "de_Status d = StatusApproved"
  shows "passes_controls sha file now e req \<and> \<not> needs_dual (pe_cfg e) req \<and>
    \<not> tc_ManualApprovalRequired (pe_cfg e) \<and> pe_cfg e' = pe_cfg e \<and>
    pe_history e' = pruneHistory now (pe_history e) @
      [\<lparr>tr_toAddress = rq_ToAddress req, tr_amountUSD = rq_AmountUSD req, tr_ts = now\<rparr>]"
  using Check_denied_or_passes [OF assms(1)] assms(2)
  by (auto simp: Let_def hold_pending_def split: if_splits)

lemma Check_not_approved:
  assumes "Check sha file now e req = (e', d)" "de_Status d \<noteq> StatusApproved"
  shows "pe_cfg e' = pe_cfg e \<and> pe_history e' \<in> {pe_history e, pruneHistory now (pe_history e)}"
  using Check_denied_or_passes [OF assms(1)] assms(2)
  by (auto simp: Let_def hold_pending_def split: if_splits)

lemma cap_step_inv:
  assumes inv: "cap_inv cfg T s" and T: "T \<le> fst (snd c)" and c: "0 \<le> rq_AmountUSD (snd (snd c))"
    and max: "0 < tc_MaxDailyUSD cfg"
  shows "cap_inv cfg (fst (snd c)) (cap_step sha s c)"
proof -
  obtain e lg where s: "s = (e, lg)" by (cases s)
  obtain f now req where c': "c = (f, now, req)" by (cases c)
  obtain e' d where eq: "Check sha f now e req = (e', d)" by fastforce
  have cfg: "pe_cfg e = cfg" and inv': "cap_inv cfg T (e, lg)"
    using inv by (simp_all add: s cap_inv_def)
  have T': "T \<le> now" and amt: "0 \<le> rq_AmountUSD req" using T c by (simp_all add: c')
  let ?r = "\<lparr>tr_toAddress = rq_ToAddress req, tr_amountUSD = rq_AmountUSD req, tr_ts = now\<rparr>"
  show ?thesis
  proof (cases "de_Status d = StatusApproved")
    case True
    note ap = Check_approved [OF eq True]
    then have cap: "dailyTotal (pruneHistory now (pe_history e)) + tr_amountUSD ?r \<le> tc_MaxDailyUSD cfg"
      using max by (simp add: passes_controls_def cfg)
    have "cap_inv cfg now (e', lg @ [?r])"
      by (rule cap_inv_append [OF inv' T' _ _ cap]) (use ap amt in simp_all)
    with eq True show ?thesis by (simp add: cap_step_def s c')
  next
    case False
    have "cap_inv cfg now (e', lg)"
      by (rule cap_inv_same_log [OF inv' T']) (use Check_not_approved [OF eq False] in simp_all)
    with eq False show ?thesis by (simp add: cap_step_def s c')
  qed
qed

lemma cap_run_inv:
  assumes "sorted (map (\<lambda>c. fst (snd c)) cs)" "\<forall>c\<in>set cs. 0 \<le> rq_AmountUSD (snd (snd c))"
    and "0 < tc_MaxDailyUSD cfg"
  shows "\<exists>T. cap_inv cfg T (foldl (cap_step sha) (NewPolicyEngine cfg, []) cs) \<and>
    (cs \<noteq> [] \<longrightarrow> T = fst (snd (last cs)))"
  using assms(1,2)
proof (induction cs rule: rev_induct)
  case Nil
  show ?case using assms(3)
    by (auto simp: cap_inv_def NewPolicyEngine_def pruneHistory_def window_total_def dailyTotal_def)
next
  case (snoc c cs)
  then obtain T where T: "cap_inv cfg T (foldl (cap_step sha) (NewPolicyEngine cfg, []) cs)"
    "cs \<noteq> [] \<longrightarrow> T = fst (snd (last cs))" by (auto simp: sorted_append)
  let ?now = "fst (snd c)" and ?s = "foldl (cap_step sha) (NewPolicyEngine cfg, []) cs"
  have "cap_inv cfg ?now ?s" if "cs = []"
    using that assms(3)
    by (simp add: cap_inv_def NewPolicyEngine_def pruneHistory_def window_total_def dailyTotal_def)
  moreover have "cap_inv cfg ?now ?s" if "cs \<noteq> []"
    using T snoc.prems(1) that by (intro cap_inv_later [OF T(1)]) (auto simp: sorted_append)
  ultimately have "cap_inv cfg ?now ?s" by (cases "cs = []") auto
  then have "cap_inv cfg ?now (cap_step sha ?s c)"
    using snoc.prems(2) assms(3) by (intro cap_step_inv) auto
  then show ?case by auto
qed

section \<open>Concrete data for the witnesses\<close>

definition sample_tc :: "real \<Rightarrow> bool \<Rightarrow> TransferConfig" where
  "sample_tc maxDaily manual = \<lparr>tc_ManualApprovalRequired = manual,
     tc_Allowlist = [\<lparr>al_Label = ''cold'', al_Address = ''0xa'', al_Asset = ''*'',
        al_MaxPerTxUSD = 0, al_AddedAt = ''''\<rparr>],
     tc_MaxPerTransferUSD = 0, tc_MaxDailyUSD = maxDaily, tc_MaxTransfersPerDay = 0,
     tc_NewAddressCooloffH = 0, tc_DualApprovalThresholdUSD = 0, tc_ApprovalExpiryH = 0,
     tc_VenueRegions = [], tc_configHash = ''h'', tc_rawYAML = ''h''\<rparr>"

definition sample_req :: "string \<Rightarrow> real \<Rightarrow> Request" where
  "sample_req i amount = \<lparr>rq_ID = i, rq_TenantID = ''t'', rq_FromVenue = ''okx'',
     rq_ToVenue = ''bybit'', rq_ToAddress = ''0xa'', rq_Asset = ''USDC'', rq_AmountUSD = amount,
     rq_Network = '''', rq_Region = '''', rq_RequestedAt = 0, rq_RequestedBy = ''treasury''\<rparr>"

lemma sample_tc_simps [simp]:
  "tc_ManualApprovalRequired (sample_tc m b) = b" "tc_MaxDailyUSD (sample_tc m b) = m"
  "tc_configHash (sample_tc m b) = ''h''" "tc_VenueRegions (sample_tc m b) = []"
  "tc_MaxTransfersPerDay (sample_tc m b) = 0" "tc_ApprovalExpiryH (sample_tc m b) = 0"
  "needs_dual (sample_tc m b) req = False" "max_per_tx (sample_tc m b) entry \<le> 0"
  "cooloff_expiry (sample_tc m b) entry = None"
  "allowlistEntry (sample_tc m b) ''0xa'' asset =
     Some \<lparr>al_Label = ''cold'', al_Address = ''0xa'', al_Asset = ''*'', al_MaxPerTxUSD = 0, al_AddedAt = ''''\<rparr>"
  by (simp_all add: sample_tc_def needs_dual_def max_per_tx_def cooloff_expiry_def allowlistEntry_def)

lemma sample_req_simps [simp]:
  "rq_ID (sample_req i a) = i" "rq_AmountUSD (sample_req i a) = a"
  "rq_ToAddress (sample_req i a) = ''0xa''" "rq_RequestedBy (sample_req i a) = ''treasury''"
  by (simp_all add: sample_req_def)

lemma sample_passes:
  assumes "pe_cfg e = sample_tc m b" "pe_history e = []" "a \<le> m"
  shows "passes_controls (\<lambda>x. x) (Some ''h'') now e (sample_req i a)"
  using assms sample_tc_simps(8) [of m b]
  by (auto simp: passes_controls_def TamperCheck_def checkRegionConstraints_def pruneHistory_def
      dailyTotal_def not_less [symmetric])

text \<open>The pending entry the manual gate creates for a sample request.\<close>

definition sample_pending :: "string \<Rightarrow> real \<Rightarrow> PendingTransfer" where
  "sample_pending i a =
     \<lparr>pt_Request = sample_req i a,
      pt_Decision = (base_decision i 0)\<lparr>de_Status := StatusPending, de_RequiresApproval := True,
         de_ApprovalsNeeded := 1, de_ApprovalsHave := 0,
         de_Reason := Txt ''manual approval required by policy; all controls passed''\<rparr>,
      pt_Approvals = [], pt_CreatedAt = 0, pt_ExpiresAt = 24 * hour_ns\<rparr>"

lemma sample_check_held:
  assumes "pe_cfg e = sample_tc m True" "pe_history e = []" "a \<le> m"
  shows "fst (Check (\<lambda>x. x) (Some ''h'') 0 e (sample_req i a)) =
    e\<lparr>pe_pending := AList.update i (sample_pending i a) (pe_pending e)\<rparr>"
proof -
  obtain e' d where eq: "Check (\<lambda>x. x) (Some ''h'') 0 e (sample_req i a) = (e', d)" by fastforce
  from Check_denied_or_passes [OF eq] sample_passes [OF assms, of 0 i] assms(1,2) show ?thesis
    by (auto simp: eq hold_pending_def Let_def sample_pending_def approval_expiry_def pruneHistory_def)
qed

lemma sample_check_approved:
  assumes "pe_cfg e = sample_tc m False" "pe_history e = []" "a \<le> m"
  shows "Check (\<lambda>x. x) (Some ''h'') now e (sample_req i a) =
    (e\<lparr>pe_history := [\<lparr>tr_toAddress = ''0xa'', tr_amountUSD = a, tr_ts = now\<rparr>]\<rparr>,
     (base_decision i now)\<lparr>de_Status := StatusApproved, de_Reason := Txt ''all policy checks passed''\<rparr>)"
proof -
  obtain e' d where eq: "Check (\<lambda>x. x) (Some ''h'') now e (sample_req i a) = (e', d)" by fastforce
  from Check_denied_or_passes [OF eq] sample_passes [OF assms, of now i] assms(1,2) show ?thesis
    by (auto simp: eq Let_def pruneHistory_def)
qed

section \<open>Properties\<close>

text \<open>
  C6.  Nothing is approved on the spot unless every control passed: an APPROVED answer of
  \<open>Check\<close> means that the policy file is untampered, the regions do not block the transfer, the
  address is allowlisted and out of its cooloff, the amount is within the per-transfer cap, the
  rolling count and notional have room, the amount is below the dual-approval threshold and
  manual approval is off.
\<close>

theorem check_approves_only_after_all_controls:
  assumes "Check sha256hex file now e req = (e', d)" "de_Status d = StatusApproved"
  shows "(\<exists>data. file = Some data \<and> sha256hex data = tc_configHash (pe_cfg e)) \<and>
    checkRegionConstraints (pe_cfg e) req = None \<and>
    (\<exists>entry\<in>set (tc_Allowlist (pe_cfg e)). equal_fold (al_Address entry) (rq_ToAddress req) \<and>
       (al_Asset entry = ''*'' \<or> equal_fold (al_Asset entry) (rq_Asset req)) \<and>
       \<not> (max_per_tx (pe_cfg e) entry > 0 \<and> rq_AmountUSD req > max_per_tx (pe_cfg e) entry) \<and>
       (\<nexists>ex. cooloff_expiry (pe_cfg e) entry = Some ex \<and> now < ex)) \<and>
    \<not> (tc_MaxTransfersPerDay (pe_cfg e) > 0 \<and>
         int (length (pe_history e')) > tc_MaxTransfersPerDay (pe_cfg e)) \<and>
    \<not> (tc_MaxDailyUSD (pe_cfg e) > 0 \<and> dailyTotal (pe_history e') > tc_MaxDailyUSD (pe_cfg e)) \<and>
    \<not> needs_dual (pe_cfg e) req \<and> \<not> tc_ManualApprovalRequired (pe_cfg e)"
proof -
  note ap = Check_approved [OF assms]
  then obtain entry where entry: "allowlistEntry (pe_cfg e) (rq_ToAddress req) (rq_Asset req) = Some entry"
    "max_per_tx (pe_cfg e) entry > 0 \<longrightarrow> rq_AmountUSD req \<le> max_per_tx (pe_cfg e) entry"
    "\<forall>ex. cooloff_expiry (pe_cfg e) entry = Some ex \<longrightarrow> ex \<le> now"
    by (auto simp: passes_controls_def)
  have mem: "entry \<in> set (tc_Allowlist (pe_cfg e))" "equal_fold (al_Address entry) (rq_ToAddress req)"
    "al_Asset entry = ''*'' \<or> equal_fold (al_Asset entry) (rq_Asset req)"
    using entry(1) by (auto simp: allowlistEntry_def find_Some_iff)
  have "\<exists>data. file = Some data \<and> sha256hex data = tc_configHash (pe_cfg e)"
    using ap by (auto simp: passes_controls_def TamperCheck_def Let_def split: option.splits if_splits)
  with ap entry mem show ?thesis
    by (auto simp: passes_controls_def dailyTotal_def intro!: bexI [of _ entry])
qed

theorem check_approves_only_after_all_controls_witness:
  "\<exists>e' d. Check (\<lambda>x. x) (Some ''h'') 5 (NewPolicyEngine (sample_tc 100 False)) (sample_req ''r'' 60) = (e', d) \<and>
     de_Status d = StatusApproved \<and> dailyTotal (pe_history e') \<le> 100"
proof -
  let ?e = "NewPolicyEngine (sample_tc 100 False)"
  obtain e' d where eq: "Check (\<lambda>x. x) (Some ''h'') 5 ?e (sample_req ''r'' 60) = (e', d)"
    "de_Status d = StatusApproved"
    using sample_check_approved [of ?e 100 60 5 "''r''"] by (auto simp: NewPolicyEngine_def)
  from check_approves_only_after_all_controls [OF eq] eq show ?thesis
    by (auto simp: NewPolicyEngine_def)
qed

text \<open>
  C20.  The rolling daily cap holds for the transfers approved on the spot: over any sequence of
  checks with nonnegative amounts at nondecreasing times, the amounts approved in every closed
  window of 24 hours add up to at most the configured daily maximum.
\<close>

theorem daily_cap_holds_for_checked_transfers:
  assumes "sorted (map (\<lambda>(file, now, req). now) cs)" "\<forall>(file, now, req)\<in>set cs. 0 \<le> rq_AmountUSD req"
    and "0 < tc_MaxDailyUSD cfg"
  shows "window_total t (snd (foldl (cap_step sha) (NewPolicyEngine cfg, []) cs)) \<le> tc_MaxDailyUSD cfg"
proof -
  have "\<exists>T. cap_inv cfg T (foldl (cap_step sha) (NewPolicyEngine cfg, []) cs) \<and>
    (cs \<noteq> [] \<longrightarrow> T = fst (snd (last cs)))"
    using assms by (intro cap_run_inv) (auto simp: case_prod_unfold)
  then obtain T where "cap_inv cfg T (foldl (cap_step sha) (NewPolicyEngine cfg, []) cs)" by blast
  then show ?thesis unfolding cap_inv_def by (simp add: case_prod_unfold)
qed

theorem daily_cap_holds_for_checked_transfers_witness:
  "window_total 5 (snd (foldl (cap_step (\<lambda>x. x)) (NewPolicyEngine (sample_tc 100 False), [])
     [(Some ''h'', 1, sample_req ''a'' 60), (Some ''h'', 2, sample_req ''b'' 60)])) \<le> 100"
  using daily_cap_holds_for_checked_transfers
    [of "[(Some ''h'', 1, sample_req ''a'' 60), (Some ''h'', 2, sample_req ''b'' 60)]"
      "sample_tc 100 False" 5 "\<lambda>x. x"] by simp

text \<open>
  C7.  Four eyes: whatever happened before, when \<open>Approve\<close> releases a pending transfer, its
  approvers are pairwise distinct operators, none of them is the requester, the approval has
  not expired, and a transfer of at least the dual-approval threshold has two of them.
\<close>

theorem released_transfers_had_enough_approvers:
  assumes "Approve now (foldl (tp_step sha) (NewPolicyEngine cfg) es) i who c = (e', d, True)"
  shows "\<exists>pt. map_of (pe_pending (foldl (tp_step sha) (NewPolicyEngine cfg) es)) i = Some pt \<and>
    now \<le> pt_ExpiresAt pt \<and>
    distinct (map ap_ApprovedBy (pt_Approvals pt) @ [who]) \<and>
    rq_RequestedBy (pt_Request pt) \<notin> set (map ap_ApprovedBy (pt_Approvals pt) @ [who]) \<and>
    length (map ap_ApprovedBy (pt_Approvals pt) @ [who]) =
      (if needs_dual cfg (pt_Request pt) then 2 else 1)"
proof -
  let ?e = "foldl (tp_step sha) (NewPolicyEngine cfg) es"
  have run: "wf_policy ?e" "pe_cfg ?e = cfg" using tp_run_wf by auto
  obtain pt where pt: "map_of (pe_pending ?e) i = Some pt" "now \<le> pt_ExpiresAt pt"
    "\<forall>a\<in>set (pt_Approvals pt). ap_ApprovedBy a \<noteq> who" "rq_RequestedBy (pt_Request pt) \<noteq> who"
    "de_ApprovalsNeeded (pt_Decision pt) \<le> int (length (pt_Approvals pt)) + 1"
    using assms by (rule Approve_True) blast
  have "wf_pending cfg pt" using wf_policy_lookup [OF run(1) pt(1)] run(2) by simp
  with pt show ?thesis
    by (intro exI [of _ pt]) (auto simp: wf_pending_def split: if_splits)
qed

theorem released_transfers_had_enough_approvers_witness:
  "\<exists>pt. map_of (pe_pending (foldl (tp_step (\<lambda>x. x)) (NewPolicyEngine (sample_tc 100 True))
       [EvCheck (Some ''h'') 0 (sample_req ''r'' 60)])) ''r'' = Some pt \<and>
     rq_RequestedBy (pt_Request pt) \<noteq> ''alice''"
proof -
  let ?e = "foldl (tp_step (\<lambda>x. x)) (NewPolicyEngine (sample_tc 100 True))
       [EvCheck (Some ''h'') 0 (sample_req ''r'' 60)]"
  have "pe_pending ?e = [(''r'', sample_pending ''r'' 60)]"
    using sample_check_held [of "NewPolicyEngine (sample_tc 100 True)" 100 60 "''r''"]
    by (simp add: NewPolicyEngine_def)
  then obtain e' d where "Approve 7 ?e ''r'' ''alice'' '''' = (e', d, True)"
    by (simp add: Approve_def Let_def sample_pending_def hour_ns_def)
  from released_transfers_had_enough_approvers [OF this] show ?thesis by auto
qed

text \<open>
  C33.  The daily cap does not bind the transfers that are released by approval: \<open>Approve\<close>
  consults neither the rolling total nor the count, so for every positive cap there is a run
  of the engine, two held requests and an approval of each, after which the amounts released
  within one window of 24 hours exceed the cap.
\<close>

theorem approvals_can_exceed_the_daily_cap:
  assumes "0 < cap"
  shows "\<exists>cfg sha es t. tc_MaxDailyUSD cfg = cap \<and>
    cap < window_total t (pe_history (foldl (tp_step sha) (NewPolicyEngine cfg) es))"
proof -
  let ?cfg = "sample_tc cap True" and ?sha = "\<lambda>x::string. x"
  let ?checks = "[EvCheck (Some ''h'') 0 (sample_req ''a'' cap), EvCheck (Some ''h'') 0 (sample_req ''b'' cap)]"
  let ?appr = "[EvApprove 1 ''a'' ''alice'' '''', EvApprove 2 ''b'' ''alice'' '''']"
  have checks: "foldl (tp_step ?sha) (NewPolicyEngine ?cfg) ?checks =
      (NewPolicyEngine ?cfg)\<lparr>pe_pending := [(''a'', sample_pending ''a'' cap), (''b'', sample_pending ''b'' cap)]\<rparr>"
    using sample_check_held [of "NewPolicyEngine ?cfg" cap cap "''a''"]
      sample_check_held [of "(NewPolicyEngine ?cfg)\<lparr>pe_pending := [(''a'', sample_pending ''a'' cap)]\<rparr>" cap cap "''b''"]
    by (simp add: NewPolicyEngine_def)
  have "pe_history (foldl (tp_step ?sha) (NewPolicyEngine ?cfg) (?checks @ ?appr)) =
      [\<lparr>tr_toAddress = ''0xa'', tr_amountUSD = cap, tr_ts = 1\<rparr>, \<lparr>tr_toAddress = ''0xa'', tr_amountUSD = cap, tr_ts = 2\<rparr>]"
    unfolding foldl_append checks
    by (simp add: Approve_def Let_def sample_pending_def NewPolicyEngine_def hour_ns_def base_decision_def)
  then have "cap < window_total 2 (pe_history (foldl (tp_step ?sha) (NewPolicyEngine ?cfg) (?checks @ ?appr)))"
    using assms by (simp add: window_total_def dailyTotal_def hour_ns_def)
  then show ?thesis using sample_tc_simps(2) by blast
qed

theorem approvals_can_exceed_the_daily_cap_witness:
  "\<exists>cfg sha es t. tc_MaxDailyUSD cfg = 100000 \<and>
    100000 < window_total t (pe_history (foldl (tp_step sha) (NewPolicyEngine cfg) es))"
  by (rule approvals_can_exceed_the_daily_cap) simp

text \<open>
  A nil error of the client means an APPROVED decision of the engine, for every request the
  service could decode: denials and held transfers are errors.
\<close>

theorem must_approve_iff_engine_approves:
  "MustApprove (\<lambda>r. Body (snd (handle_check sha256hex file now e (Some r)))) req = None \<longleftrightarrow>
   de_Status (snd (Check sha256hex file now e
      (if rq_RequestedAt req = zero_time then req\<lparr>rq_RequestedAt := now\<rparr> else req))) = StatusApproved"
proof -
  let ?req = "if rq_RequestedAt req = zero_time then req\<lparr>rq_RequestedAt := now\<rparr> else req"
  obtain e' d where eq: "Check sha256hex file now e ?req = (e', d)" by fastforce
  have "de_Status d \<in> {StatusApproved, StatusDenied, StatusPending}"
    using Check_denied_or_passes [OF eq] by (auto simp: Let_def hold_pending_def split: if_splits)
  then show ?thesis
    by (auto simp: MustApprove_def ClientCheck_def handle_check_def Let_def eq result_of_def)
qed

text \<open>
  The client is not fail-closed on an answer without a status: when the service answers a
  request it could not decode (HTTP 400 with an error object), \<open>MustApprove\<close> returns no error,
  as if the transfer had been approved.
\<close>

theorem must_approve_passes_on_bad_request_answer:
  "MustApprove (\<lambda>r. Body (snd (handle_check sha256hex file now e None))) req = None"
  by (simp add: MustApprove_def ClientCheck_def handle_check_def zero_result_def)

end
