(* ===== verification/Risk_Daemon.thy ===== *)
theory Risk_Daemon
  imports Interfaces Consensus_Types "HOL-Library.Sublist"
begin

text \<open>
  internal/risk (types.go, config.go, daemon.go) and the loop of cmd/risk-daemon/main.go: the
  daemon that watches fills, blacklists and exchange incidents and moves the system between
  operating modes.  The state is \<open>Daemon\<close>; every method runs under its mutex and is one
  operation here.  The clock is read once per operation where the code reads it once;
  \<open>clk src\<close> is the reading that stamps the alert of source \<open>src\<close>.  The two maps are ranged over,
  so they are association lists.
\<close>

section \<open>Types and configuration\<close>

datatype Mode = ModeRunning | ModePaused | ModeSafe | ModeFlatten | ModeHalted | ModeOther string

record State =
  st_SchemaVersion :: int
  st_TenantID :: string
  st_Mode :: Mode
  st_TsMs :: int64
  st_NetDeltaUSD :: float64
  st_DrawdownPct :: float64
  st_PeakEquityUSD :: float64
  st_CurrentEquityUSD :: float64
  st_HedgeDriftUSDSec :: float64
  st_ErrorRate5mPct :: float64
  st_BlacklistedVenues :: "string list"
  st_Reason :: string
  st_ADLRiskPct :: float64
  st_LiqClusterRisk :: int
  st_VenueDelevEventCount :: int

record Alert =
  at_SchemaVersion :: int
  at_TenantID :: string
  at_TsMs :: int64
  at_Source :: string
  at_Severity :: string
  at_Message :: string
  at_Metric :: string
  at_Value :: float64
  at_Threshold :: float64
  at_Playbook :: string

datatype PlaybookName =
  PlaybookVenueMaintenance | PlaybookVolatilitySpike | PlaybookAPIDegradation
| PlaybookADLEvent | PlaybookLiquidationCascade | PlaybookOther string

fun playbook_string :: "PlaybookName \<Rightarrow> string" where
  "playbook_string PlaybookVenueMaintenance = ''VENUE_MAINTENANCE''"
| "playbook_string PlaybookVolatilitySpike = ''VOLATILITY_SPIKE''"
| "playbook_string PlaybookAPIDegradation = ''API_DEGRADATION''"
| "playbook_string PlaybookADLEvent = ''ADL_EVENT''"
| "playbook_string PlaybookLiquidationCascade = ''LIQUIDATION_CASCADE''"
| "playbook_string (PlaybookOther s) = s"

record IncidentPlaybook =
  pb_Name :: PlaybookName
  pb_TsMs :: int64
  pb_TenantID :: string
  pb_Trigger :: gotext
  pb_Actions :: "string list"
  pb_TargetMode :: Mode
  pb_AffectedVenues :: "string list"
  pb_AutoResolveMs :: int64

record RiskPolicy =
  rp_MaxNetDeltaUSD :: float64
  rp_MaxMarginUtilisationPct :: float64
  rp_SafeModeMarginUtilPct :: float64
  rp_MinLiqDistancePct :: float64
  rp_MaxHedgeDriftUSDSec :: float64
  rp_MaxDrawdownPct :: float64
  rp_SafeModeDrawdownPct :: float64
  rp_MaxErrorRate5mPct :: float64
  rp_MaxReconciliationDivUSD :: float64
  rp_MinCoreVenuesForSafeMode :: int
  rp_PositionTruthPollIntervalS :: int
  rp_TenantID :: string
  rp_RedisAddr :: string
  rp_RedisPassword :: string
  rp_RedisUseTLS :: bool
  rp_ADLRiskPausePct :: float64
  rp_LiqClusterPauseCount :: int
  rp_VenueDelevSafeModeCount :: int
  rp_VenueDelevWindowMs :: int64

text \<open>\<open>LoadPolicy\<close>: file, decoder and environment are parameters.\<close>

definition LoadRiskPolicy ::
  "(string \<Rightarrow> RiskPolicy option) \<Rightarrow> (string \<Rightarrow> string) \<Rightarrow> string option \<Rightarrow> gotext + RiskPolicy" where
  "LoadRiskPolicy unmarshal getenv file =
     (case file of
        None \<Rightarrow> Inl (Txt ''reading'')
      | Some data \<Rightarrow>
          (case unmarshal data of
             None \<Rightarrow> Inl (Txt ''parsing'')
           | Some p \<Rightarrow>
               (let p = (if getenv ''REDIS_ADDR'' \<noteq> '''' then p\<lparr>rp_RedisAddr := getenv ''REDIS_ADDR''\<rparr> else p);
                    p = (if getenv ''REDIS_PASSWORD'' \<noteq> '''' then p\<lparr>rp_RedisPassword := getenv ''REDIS_PASSWORD''\<rparr> else p);
                    p = (if getenv ''REDIS_TLS'' = ''true'' then p\<lparr>rp_RedisUseTLS := True\<rparr> else p);
                    p = (if rp_TenantID p = '''' then p\<lparr>rp_TenantID := ''default''\<rparr> else p);
                    p = (if rp_PositionTruthPollIntervalS p = 0 then p\<lparr>rp_PositionTruthPollIntervalS := 30\<rparr> else p);
                    p = (if rp_ADLRiskPausePct p = 0 then p\<lparr>rp_ADLRiskPausePct := 40\<rparr> else p);
                    p = (if rp_LiqClusterPauseCount p = 0 then p\<lparr>rp_LiqClusterPauseCount := 3\<rparr> else p);
                    p = (if rp_VenueDelevSafeModeCount p = 0 then p\<lparr>rp_VenueDelevSafeModeCount := 2\<rparr> else p);
                    p = (if rp_VenueDelevWindowMs p = 0 then p\<lparr>rp_VenueDelevWindowMs := 5 * 60 * 1000\<rparr> else p)
                in Inr p)))"

section \<open>The daemon\<close>

record Daemon =
  dm_policy :: RiskPolicy
  dm_state :: State
  dm_errorEvents :: "int64 list"
  dm_totalEvents :: "int64 list"
  dm_blacklisted :: "(string \<times> int64) list"
  dm_peakEquity :: float64
  dm_currentEquity :: float64
  dm_adlRiskByVenue :: "(string \<times> float64) list"
  dm_liqClusterCount :: int
  dm_delevEvents :: "int64 list"
  dm_activePlaybooks :: "IncidentPlaybook list"

definition NewDaemon :: "RiskPolicy \<Rightarrow> Daemon" where
  "NewDaemon policy =
     \<lparr>dm_policy = policy,
      dm_state =
        \<lparr>st_SchemaVersion = 0, st_TenantID = rp_TenantID policy, st_Mode = ModeRunning, st_TsMs = 0,
         st_NetDeltaUSD = 0, st_DrawdownPct = 0, st_PeakEquityUSD = 0, st_CurrentEquityUSD = 0,
         st_HedgeDriftUSDSec = 0, st_ErrorRate5mPct = 0, st_BlacklistedVenues = [], st_Reason = '''',
         st_ADLRiskPct = 0, st_LiqClusterRisk = 0, st_VenueDelevEventCount = 0\<rparr>,
      dm_errorEvents = [], dm_totalEvents = [], dm_blacklisted = [],
      dm_peakEquity = 100000, dm_currentEquity = 100000, dm_adlRiskByVenue = [],
      dm_liqClusterCount = 0, dm_delevEvents = [], dm_activePlaybooks = []\<rparr>"

definition CurrentMode :: "Daemon \<Rightarrow> Mode" where
  "CurrentMode d = st_Mode (dm_state d)"

fun modeRank :: "Mode \<Rightarrow> int" where
  "modeRank ModeRunning = 0"
| "modeRank ModePaused = 1"
| "modeRank ModeSafe = 2"
| "modeRank ModeFlatten = 3"
| "modeRank ModeHalted = 4"
| "modeRank (ModeOther _) = 0"

text \<open>The rank orders the modes by how much they forbid; an unknown mode ranks with RUNNING.\<close>

instantiation Mode :: preorder
begin

definition less_eq_Mode :: "Mode \<Rightarrow> Mode \<Rightarrow> bool" where
  "less_eq_Mode m m' \<longleftrightarrow> modeRank m \<le> modeRank m'"

definition less_Mode :: "Mode \<Rightarrow> Mode \<Rightarrow> bool" where
  "less_Mode m m' \<longleftrightarrow> modeRank m < modeRank m'"

instance
  by standard (auto simp: less_eq_Mode_def less_Mode_def)

end

fun pruneOlderThan :: "int64 list \<Rightarrow> int64 \<Rightarrow> int64 list" where
  "pruneOlderThan [] cutoffMs = []"
| "pruneOlderThan (t # ts) cutoffMs = (if t < cutoffMs then pruneOlderThan ts cutoffMs else t # ts)"

definition maxADLRisk :: "Daemon \<Rightarrow> float64" where
  "maxADLRisk d = foldl (\<lambda>m r. if m < r then r else m) 0 (map snd (dm_adlRiskByVenue d))"

definition countDelevEvents :: "Daemon \<Rightarrow> int" where
  "countDelevEvents d = int (length (dm_delevEvents d))"

definition blacklistCount :: "int64 \<Rightarrow> Daemon \<Rightarrow> int" where
  "blacklistCount now d = int (length (filter (\<lambda>e. now < snd e) (dm_blacklisted d)))"

definition errorRate :: "Daemon \<Rightarrow> float64" where
  "errorRate d = (if 0 < length (dm_totalEvents d)
     then real (length (dm_errorEvents d)) / real (length (dm_totalEvents d)) * 100 else 0)"

definition drawdown :: "Daemon \<Rightarrow> float64" where
  "drawdown d = (if dm_peakEquity d > 0
     then (dm_peakEquity d - dm_currentEquity d) / dm_peakEquity d * 100 else 0)"

definition alert :: "Daemon \<Rightarrow> (string \<Rightarrow> int64) \<Rightarrow> string \<Rightarrow> string \<Rightarrow> string \<Rightarrow> string \<Rightarrow> float64 \<Rightarrow> float64 \<Rightarrow> Alert" where
  "alert d clk severity source msg metric value threshold =
     \<lparr>at_SchemaVersion = 0, at_TenantID = rp_TenantID (dm_policy d), at_TsMs = clk source,
      at_Source = source, at_Severity = severity, at_Message = msg, at_Metric = metric,
      at_Value = value, at_Threshold = threshold, at_Playbook = ''''\<rparr>"

text \<open>\<open>CurrentState\<close> reads the clock twice, for the stamp and for the blacklist.\<close>

definition CurrentState :: "int64 \<Rightarrow> int64 \<Rightarrow> Daemon \<Rightarrow> State" where
  "CurrentState ts now d =
     (let s = (dm_state d)\<lparr>st_TsMs := ts, st_PeakEquityUSD := dm_peakEquity d,
                           st_CurrentEquityUSD := dm_currentEquity d\<rparr>;
          s = (if dm_peakEquity d > 0
               then s\<lparr>st_DrawdownPct := (dm_peakEquity d - dm_currentEquity d) / dm_peakEquity d * 100\<rparr> else s)
      in s\<lparr>st_BlacklistedVenues := map fst (filter (\<lambda>(v, e). now < e) (dm_blacklisted d)),
           st_ADLRiskPct := maxADLRisk d, st_LiqClusterRisk := dm_liqClusterCount d,
           st_VenueDelevEventCount := countDelevEvents d\<rparr>)"

section \<open>Playbooks\<close>

definition activatePlaybook :: "IncidentPlaybook \<Rightarrow> Daemon \<Rightarrow> Daemon" where
  "activatePlaybook pb d =
     (if list_ex (\<lambda>existing. pb_Name existing = pb_Name pb) (dm_activePlaybooks d) then d
      else d\<lparr>dm_activePlaybooks := dm_activePlaybooks d @ [pb]\<rparr>)"

definition ResolvePlaybook :: "PlaybookName \<Rightarrow> Daemon \<Rightarrow> Daemon" where
  "ResolvePlaybook name d =
     d\<lparr>dm_activePlaybooks := filter (\<lambda>pb. pb_Name pb \<noteq> name) (dm_activePlaybooks d)\<rparr>"

definition ActivePlaybooks :: "int64 \<Rightarrow> Daemon \<Rightarrow> Daemon \<times> IncidentPlaybook list" where
  "ActivePlaybooks now d =
     (let active = filter (\<lambda>pb. \<not> (pb_AutoResolveMs pb > 0 \<and> now > pb_TsMs pb + pb_AutoResolveMs pb))
                     (dm_activePlaybooks d)
      in (d\<lparr>dm_activePlaybooks := active\<rparr>, active))"

text \<open>The stretches of \<open>evaluate\<close> that activate a playbook and label the alerts of its source.\<close>

definition annotate :: "string \<Rightarrow> PlaybookName \<Rightarrow> Alert list \<Rightarrow> Alert list" where
  "annotate source name alerts =
     map (\<lambda>a. if at_Source a = source then a\<lparr>at_Playbook := playbook_string name\<rparr> else a) alerts"

definition play :: "bool \<Rightarrow> IncidentPlaybook \<Rightarrow> string \<Rightarrow> Daemon \<times> Alert list \<Rightarrow> Daemon \<times> Alert list" where
  "play c pb source r =
     (if c then (activatePlaybook pb (fst r), annotate source (pb_Name pb) (snd r)) else r)"

definition em_dash :: string where
  "em_dash = [CHR 0xE2, CHR 0x80, CHR 0x94]"

definition adl_playbook :: "int64 \<Rightarrow> Daemon \<Rightarrow> IncidentPlaybook" where
  "adl_playbook now d =
     \<lparr>pb_Name = PlaybookADLEvent, pb_TsMs = now, pb_TenantID = rp_TenantID (dm_policy d),
      pb_Trigger = Sprintf ''ADL risk %.0f%% >= %.0f%% threshold''
        [AFlt (maxADLRisk d), AFlt (rp_ADLRiskPausePct (dm_policy d))],
      pb_Actions = [''PAUSE new order placement'', ''Mark affected venues as degraded'',
                    ''Alert operator for manual review''],
      pb_TargetMode = ModePaused, pb_AffectedVenues = [], pb_AutoResolveMs = 300000\<rparr>"

definition cascade_playbook :: "int64 \<Rightarrow> Daemon \<Rightarrow> IncidentPlaybook" where
  "cascade_playbook now d =
     \<lparr>pb_Name = PlaybookLiquidationCascade, pb_TsMs = now, pb_TenantID = rp_TenantID (dm_policy d),
      pb_Trigger = Sprintf ''%d liquidation clusters >= %d threshold''
        [AInt (dm_liqClusterCount d), AInt (rp_LiqClusterPauseCount (dm_policy d))],
      pb_Actions = [''PAUSE new order placement'', ''Widen slippage tolerance on open hedges'',
                    ''Reduce position sizing to quarter-Kelly''],
      pb_TargetMode = ModePaused, pb_AffectedVenues = [], pb_AutoResolveMs = 600000\<rparr>"

definition maintenance_playbook :: "int64 \<Rightarrow> Daemon \<Rightarrow> IncidentPlaybook" where
  "maintenance_playbook now d =
     \<lparr>pb_Name = PlaybookVenueMaintenance, pb_TsMs = now, pb_TenantID = rp_TenantID (dm_policy d),
      pb_Trigger = Sprintf ''%d deleveraging events in window'' [AInt (countDelevEvents d)],
      pb_Actions = [''Enter SAFE mode '' @ em_dash @ '' reduce-only'',
                    ''Cancel all pending orders on affected venues'',
                    ''Require manual resolution before resuming''],
      pb_TargetMode = ModeSafe, pb_AffectedVenues = [], pb_AutoResolveMs = 0\<rparr>"

definition api_playbook :: "int64 \<Rightarrow> Daemon \<Rightarrow> IncidentPlaybook" where
  "api_playbook now d =
     \<lparr>pb_Name = PlaybookAPIDegradation, pb_TsMs = now, pb_TenantID = rp_TenantID (dm_policy d),
      pb_Trigger = Sprintf ''error rate %.1f%% >= %.1f%% threshold''
        [AFlt (errorRate d), AFlt (rp_MaxErrorRate5mPct (dm_policy d))],
      pb_Actions = [''PAUSE new order placement'', ''Log degraded venue API endpoints'',
                    ''Retry with exponential backoff''],
      pb_TargetMode = ModePaused, pb_AffectedVenues = [], pb_AutoResolveMs = 300000\<rparr>"

definition volatility_playbook :: "int64 \<Rightarrow> Daemon \<Rightarrow> IncidentPlaybook" where
  "volatility_playbook now d =
     \<lparr>pb_Name = PlaybookVolatilitySpike, pb_TsMs = now, pb_TenantID = rp_TenantID (dm_policy d),
      pb_Trigger = Sprintf ''drawdown %.1f%% approaching max %.1f%%''
        [AFlt (st_DrawdownPct (dm_state d)), AFlt (rp_MaxDrawdownPct (dm_policy d))],
      pb_Actions = [''Enter SAFE mode '' @ em_dash @ '' reduce-only hedging'', ''Widen slippage tolerance'',
                    ''Reduce position sizing'', ''Alert operator for manual review''],
      pb_TargetMode = ModeSafe, pb_AffectedVenues = [], pb_AutoResolveMs = 600000\<rparr>"

definition playbooks :: "int64 \<Rightarrow> Daemon \<Rightarrow> Alert list \<Rightarrow> Daemon \<times> Alert list" where
  "playbooks now d alerts =
     (let p = dm_policy d;
          r = (d, alerts);
          r = play (maxADLRisk d \<ge> rp_ADLRiskPausePct p) (adl_playbook now d) ''adl_risk_elevated'' r;
          r = play (dm_liqClusterCount d \<ge> rp_LiqClusterPauseCount p \<and> rp_LiqClusterPauseCount p > 0)
                (cascade_playbook now d) ''liquidation_cluster_dense'' r;
          r = play (countDelevEvents d \<ge> rp_VenueDelevSafeModeCount p)
                (maintenance_playbook now d) ''venue_deleveraging_event'' r;
          r = play (errorRate d \<ge> rp_MaxErrorRate5mPct p) (api_playbook now d) ''error_rate_pause'' r
      in (if st_DrawdownPct (dm_state d) > rp_MaxDrawdownPct p * 0.75 \<and>
             st_DrawdownPct (dm_state d) < rp_MaxDrawdownPct p
          then (activatePlaybook (volatility_playbook now d) (fst r), snd r) else r))"

section \<open>Evaluation\<close>

definition safe_trigger :: "bool \<Rightarrow> Alert \<Rightarrow> Alert list \<times> Mode \<Rightarrow> Alert list \<times> Mode" where
  "safe_trigger c a r =
     (if c then (fst r @ [a], if modeRank (snd r) < modeRank ModeSafe then ModeSafe else snd r) else r)"

definition pause_trigger :: "bool \<Rightarrow> Alert \<Rightarrow> Alert list \<times> Mode \<Rightarrow> Alert list \<times> Mode" where
  "pause_trigger c a r =
     (if c \<and> modeRank (snd r) < modeRank ModePaused then (fst r @ [a], ModePaused) else r)"

definition mode_rules :: "int64 \<Rightarrow> (string \<Rightarrow> int64) \<Rightarrow> Daemon \<Rightarrow> Alert list \<times> Mode" where
  "mode_rules now clk d =
     (let p = dm_policy d;
          r = ([], st_Mode (dm_state d));
          r = safe_trigger (blacklistCount now d \<ge> rp_MinCoreVenuesForSafeMode p)
                (alert d clk ''CRITICAL'' ''multiple_core_venues_blacklisted''
                  ''Too many core venues blacklisted'' ''blacklisted_count''
                  (of_int (blacklistCount now d)) (of_int (rp_MinCoreVenuesForSafeMode p))) r;
          r = safe_trigger (drawdown d \<ge> rp_SafeModeDrawdownPct p)
                (alert d clk ''CRITICAL'' ''drawdown_safe_mode''
                  ''Drawdown exceeded safe-mode threshold'' ''drawdown_pct''
                  (drawdown d) (rp_SafeModeDrawdownPct p)) r;
          r = safe_trigger (countDelevEvents d \<ge> rp_VenueDelevSafeModeCount p)
                (alert d clk ''CRITICAL'' ''venue_deleveraging_event''
                  ''Multiple venue-wide deleveraging events detected'' ''delev_event_count''
                  (of_int (countDelevEvents d)) (of_int (rp_VenueDelevSafeModeCount p))) r;
          r = pause_trigger (drawdown d \<ge> rp_MaxDrawdownPct p)
                (alert d clk ''WARN'' ''drawdown_pause'' ''Drawdown exceeded pause threshold''
                  ''drawdown_pct'' (drawdown d) (rp_MaxDrawdownPct p)) r;
          r = pause_trigger (errorRate d \<ge> rp_MaxErrorRate5mPct p)
                (alert d clk ''WARN'' ''error_rate_pause'' ''Execution error rate exceeded threshold''
                  ''error_rate_5m_pct'' (errorRate d) (rp_MaxErrorRate5mPct p)) r;
          r = pause_trigger (maxADLRisk d \<ge> rp_ADLRiskPausePct p)
                (alert d clk ''WARN'' ''adl_risk_elevated''
                  (''ADL risk elevated '' @ em_dash @ '' venue insurance fund thin or OI spike'')
                  ''adl_risk_pct'' (maxADLRisk d) (rp_ADLRiskPausePct p)) r;
          r = pause_trigger (rp_LiqClusterPauseCount p > 0 \<and> dm_liqClusterCount d \<ge> rp_LiqClusterPauseCount p)
                (alert d clk ''WARN'' ''liquidation_cluster_dense''
                  (''Dense liquidation clusters near current price '' @ em_dash @ '' cascade risk'')
                  ''liq_cluster_count'' (of_int (dm_liqClusterCount d))
                  (of_int (rp_LiqClusterPauseCount p))) r
      in r)"

text \<open>Pruning of the windows and the snapshot of the metrics.\<close>

definition refresh :: "int64 \<Rightarrow> Daemon \<Rightarrow> Daemon" where
  "refresh now d =
     (let d = d\<lparr>dm_errorEvents := pruneOlderThan (dm_errorEvents d) (now - 5 * 60 * 1000),
                dm_totalEvents := pruneOlderThan (dm_totalEvents d) (now - 5 * 60 * 1000),
                dm_delevEvents := pruneOlderThan (dm_delevEvents d) (now - rp_VenueDelevWindowMs (dm_policy d))\<rparr>
      in d\<lparr>dm_state := (dm_state d)\<lparr>st_ErrorRate5mPct := errorRate d, st_DrawdownPct := drawdown d,
             st_ADLRiskPct := maxADLRisk d, st_LiqClusterRisk := dm_liqClusterCount d,
             st_VenueDelevEventCount := countDelevEvents d\<rparr>\<rparr>)"

definition evaluate :: "int64 \<Rightarrow> (string \<Rightarrow> int64) \<Rightarrow> Daemon \<Rightarrow> Daemon \<times> Alert list" where
  "evaluate now clk d =
     (let d = refresh now d
      in if CurrentMode d = ModeHalted \<or> CurrentMode d = ModeFlatten then (d, [])
         else (let r = mode_rules now clk d
               in playbooks now (d\<lparr>dm_state := (dm_state d)\<lparr>st_Mode := snd r\<rparr>\<rparr>) (fst r)))"

section \<open>Operations\<close>

text \<open>Operations that note an event read the clock before \<open>evaluate\<close> reads it again.\<close>

definition RecordFill :: "int64 \<Rightarrow> int64 \<Rightarrow> (string \<Rightarrow> int64) \<Rightarrow> float64 \<Rightarrow> bool \<Rightarrow> Daemon \<Rightarrow> Daemon \<times> Alert list" where
  "RecordFill now now' clk pnlUSD isError d =
     (let d = d\<lparr>dm_totalEvents := dm_totalEvents d @ [now]\<rparr>;
          d = (if isError then d\<lparr>dm_errorEvents := dm_errorEvents d @ [now]\<rparr> else d);
          d = d\<lparr>dm_currentEquity := dm_currentEquity d + pnlUSD\<rparr>;
          d = (if dm_currentEquity d > dm_peakEquity d then d\<lparr>dm_peakEquity := dm_currentEquity d\<rparr> else d)
      in evaluate now' clk d)"

definition RecordBlacklist :: "int64 \<Rightarrow> int64 \<Rightarrow> (string \<Rightarrow> int64) \<Rightarrow> string \<Rightarrow> int64 \<Rightarrow> Daemon \<Rightarrow> Daemon \<times> Alert list" where
  "RecordBlacklist now now' clk venue ttlMs d =
     evaluate now' clk (d\<lparr>dm_blacklisted := AList.update venue (now + ttlMs) (dm_blacklisted d)\<rparr>)"

definition RecordADLRisk :: "int64 \<Rightarrow> (string \<Rightarrow> int64) \<Rightarrow> string \<Rightarrow> float64 \<Rightarrow> Daemon \<Rightarrow> Daemon \<times> Alert list" where
  "RecordADLRisk now clk venue riskPct d =
     evaluate now clk (d\<lparr>dm_adlRiskByVenue := AList.update venue riskPct (dm_adlRiskByVenue d)\<rparr>)"

definition RecordLiqCluster :: "int64 \<Rightarrow> (string \<Rightarrow> int64) \<Rightarrow> int \<Rightarrow> Daemon \<Rightarrow> Daemon \<times> Alert list" where
  "RecordLiqCluster now clk n d = evaluate now clk (d\<lparr>dm_liqClusterCount := n\<rparr>)"

definition RecordVenueDelevEvent :: "int64 \<Rightarrow> int64 \<Rightarrow> (string \<Rightarrow> int64) \<Rightarrow> Daemon \<Rightarrow> Daemon \<times> Alert list" where
  "RecordVenueDelevEvent now now' clk d =
     evaluate now' clk (d\<lparr>dm_delevEvents := dm_delevEvents d @ [now]\<rparr>)"

definition SetMode :: "Mode \<Rightarrow> string \<Rightarrow> Daemon \<Rightarrow> Daemon" where
  "SetMode m reason d = d\<lparr>dm_state := (dm_state d)\<lparr>st_Mode := m, st_Reason := reason\<rparr>\<rparr>"

definition Tick :: "int64 \<Rightarrow> (string \<Rightarrow> int64) \<Rightarrow> Daemon \<Rightarrow> Daemon \<times> Alert list" where
  "Tick now clk d = evaluate now clk d"

section \<open>Events and the modes they reach\<close>

datatype risk_event =
  EvFill int64 int64 float64 bool
| EvBlacklist int64 int64 string int64
| EvADLRisk int64 string float64
| EvLiqCluster int64 int
| EvDelev int64 int64
| EvTick int64
| EvSetMode Mode string
| EvActivePlaybooks int64
| EvResolvePlaybook PlaybookName

fun risk_step :: "(string \<Rightarrow> int64) \<Rightarrow> Daemon \<Rightarrow> risk_event \<Rightarrow> Daemon" where
  "risk_step clk d (EvFill now now' pnl err) = fst (RecordFill now now' clk pnl err d)"
| "risk_step clk d (EvBlacklist now now' venue ttl) = fst (RecordBlacklist now now' clk venue ttl d)"
| "risk_step clk d (EvADLRisk now venue pct) = fst (RecordADLRisk now clk venue pct d)"
| "risk_step clk d (EvLiqCluster now n) = fst (RecordLiqCluster now clk n d)"
| "risk_step clk d (EvDelev now now') = fst (RecordVenueDelevEvent now now' clk d)"
| "risk_step clk d (EvTick now) = fst (Tick now clk d)"
| "risk_step clk d (EvSetMode m reason) = SetMode m reason d"
| "risk_step clk d (EvActivePlaybooks now) = fst (ActivePlaybooks now d)"
| "risk_step clk d (EvResolvePlaybook name) = ResolvePlaybook name d"

fun automatic :: "risk_event \<Rightarrow> bool" where
  "automatic (EvSetMode m reason) \<longleftrightarrow> False"
| "automatic _ \<longleftrightarrow> True"

lemmas risk_ops = RecordFill_def RecordBlacklist_def RecordADLRisk_def RecordLiqCluster_def
  RecordVenueDelevEvent_def Tick_def

text \<open>What the helpers read and what the playbooks leave alone.\<close>

lemma refresh_simps [simp]:
  "CurrentMode (refresh now d) = CurrentMode d"
  "dm_policy (refresh now d) = dm_policy d"
  "dm_blacklisted (refresh now d) = dm_blacklisted d"
  "dm_peakEquity (refresh now d) = dm_peakEquity d"
  "dm_currentEquity (refresh now d) = dm_currentEquity d"
  "dm_adlRiskByVenue (refresh now d) = dm_adlRiskByVenue d"
  "dm_liqClusterCount (refresh now d) = dm_liqClusterCount d"
  "dm_activePlaybooks (refresh now d) = dm_activePlaybooks d"
  "dm_totalEvents (refresh now d) = pruneOlderThan (dm_totalEvents d) (now - 300000)"
  "dm_errorEvents (refresh now d) = pruneOlderThan (dm_errorEvents d) (now - 300000)"
  by (simp_all add: refresh_def CurrentMode_def Let_def)

lemma refresh_state [simp]:
  "st_ErrorRate5mPct (dm_state (refresh now d)) = errorRate (refresh now d)"
  "st_DrawdownPct (dm_state (refresh now d)) = drawdown d"
  "drawdown (refresh now d) = drawdown d"
  "maxADLRisk (refresh now d) = maxADLRisk d"
  "blacklistCount t (refresh now d) = blacklistCount t d"
  by (simp_all add: refresh_def Let_def errorRate_def drawdown_def maxADLRisk_def blacklistCount_def)

lemma activate_frame [simp]:
  "dm_policy (activatePlaybook pb d) = dm_policy d"
  "dm_state (activatePlaybook pb d) = dm_state d"
  "dm_totalEvents (activatePlaybook pb d) = dm_totalEvents d"
  "dm_errorEvents (activatePlaybook pb d) = dm_errorEvents d"
  "dm_blacklisted (activatePlaybook pb d) = dm_blacklisted d"
  "dm_peakEquity (activatePlaybook pb d) = dm_peakEquity d"
  "dm_currentEquity (activatePlaybook pb d) = dm_currentEquity d"
  "dm_adlRiskByVenue (activatePlaybook pb d) = dm_adlRiskByVenue d"
  "dm_liqClusterCount (activatePlaybook pb d) = dm_liqClusterCount d"
  "dm_delevEvents (activatePlaybook pb d) = dm_delevEvents d"
  by (simp_all add: activatePlaybook_def)

lemma play_frame:
  "dm_policy (fst (play c pb s r)) = dm_policy (fst r)"
  "dm_state (fst (play c pb s r)) = dm_state (fst r)"
  "dm_totalEvents (fst (play c pb s r)) = dm_totalEvents (fst r)"
  "dm_errorEvents (fst (play c pb s r)) = dm_errorEvents (fst r)"
  "dm_blacklisted (fst (play c pb s r)) = dm_blacklisted (fst r)"
  "dm_peakEquity (fst (play c pb s r)) = dm_peakEquity (fst r)"
  "dm_currentEquity (fst (play c pb s r)) = dm_currentEquity (fst r)"
  "dm_adlRiskByVenue (fst (play c pb s r)) = dm_adlRiskByVenue (fst r)"
  "dm_liqClusterCount (fst (play c pb s r)) = dm_liqClusterCount (fst r)"
  "dm_delevEvents (fst (play c pb s r)) = dm_delevEvents (fst r)"
  by (simp_all add: play_def)

lemma playbooks_frame [simp]:
  "dm_policy (fst (playbooks now d as)) = dm_policy d"
  "dm_state (fst (playbooks now d as)) = dm_state d"
  "dm_totalEvents (fst (playbooks now d as)) = dm_totalEvents d"
  "dm_errorEvents (fst (playbooks now d as)) = dm_errorEvents d"
  "dm_blacklisted (fst (playbooks now d as)) = dm_blacklisted d"
  "dm_peakEquity (fst (playbooks now d as)) = dm_peakEquity d"
  "dm_currentEquity (fst (playbooks now d as)) = dm_currentEquity d"
  "dm_adlRiskByVenue (fst (playbooks now d as)) = dm_adlRiskByVenue d"
  "dm_liqClusterCount (fst (playbooks now d as)) = dm_liqClusterCount d"
  "dm_delevEvents (fst (playbooks now d as)) = dm_delevEvents d"
  by (simp_all add: playbooks_def Let_def play_frame)

lemma play_alerts: "map at_Severity (snd (play c pb s r)) = map at_Severity (snd r)"
  by (simp add: play_def annotate_def comp_def if_distrib cong: if_cong)

lemma playbooks_alerts [simp]:
  "map at_Severity (snd (playbooks now d as)) = map at_Severity as"
  by (simp add: playbooks_def Let_def play_alerts)

text \<open>The frame of a whole evaluation: it writes the windows, the snapshot and the playbooks.\<close>

lemma evaluate_frame [simp]:
  "dm_policy (fst (evaluate now clk d)) = dm_policy d"
  "dm_totalEvents (fst (evaluate now clk d)) = pruneOlderThan (dm_totalEvents d) (now - 300000)"
  "dm_errorEvents (fst (evaluate now clk d)) = pruneOlderThan (dm_errorEvents d) (now - 300000)"
  "dm_peakEquity (fst (evaluate now clk d)) = dm_peakEquity d"
  "dm_currentEquity (fst (evaluate now clk d)) = dm_currentEquity d"
  "dm_blacklisted (fst (evaluate now clk d)) = dm_blacklisted d"
  "dm_adlRiskByVenue (fst (evaluate now clk d)) = dm_adlRiskByVenue d"
  "dm_liqClusterCount (fst (evaluate now clk d)) = dm_liqClusterCount d"
  by (simp_all add: evaluate_def Let_def)

lemma evaluate_state:
  "st_ErrorRate5mPct (dm_state (fst (evaluate now clk d))) = errorRate (refresh now d)"
  "st_DrawdownPct (dm_state (fst (evaluate now clk d))) = drawdown d"
  by (simp_all add: evaluate_def Let_def)

text \<open>
  The abstract rule: the rank the metrics of the moment require.  \<open>mode_rules\<close> implements it,
  and every rise is announced by an alert of the matching severity.
\<close>

definition safe_due :: "int64 \<Rightarrow> Daemon \<Rightarrow> bool" where
  "safe_due now d \<longleftrightarrow> rp_MinCoreVenuesForSafeMode (dm_policy d) \<le> blacklistCount now d \<or>
     rp_SafeModeDrawdownPct (dm_policy d) \<le> drawdown d \<or>
     rp_VenueDelevSafeModeCount (dm_policy d) \<le> countDelevEvents d"

definition pause_due :: "Daemon \<Rightarrow> bool" where
  "pause_due d \<longleftrightarrow> rp_MaxDrawdownPct (dm_policy d) \<le> drawdown d \<or>
     rp_MaxErrorRate5mPct (dm_policy d) \<le> errorRate d \<or>
     rp_ADLRiskPausePct (dm_policy d) \<le> maxADLRisk d \<or>
     (0 < rp_LiqClusterPauseCount (dm_policy d) \<and> rp_LiqClusterPauseCount (dm_policy d) \<le> dm_liqClusterCount d)"

definition required_mode :: "int64 \<Rightarrow> Daemon \<Rightarrow> Mode" where
  "required_mode now d = (if safe_due now d then ModeSafe else if pause_due d then ModePaused else ModeRunning)"

definition raise_mode :: "Mode \<Rightarrow> Mode \<Rightarrow> Mode" where
  "raise_mode target m = (if modeRank m < modeRank target then target else m)"

lemma safe_trigger_mode: "snd (safe_trigger c a r) = (if c then raise_mode ModeSafe (snd r) else snd r)"
  by (simp add: safe_trigger_def raise_mode_def)

lemma pause_trigger_mode: "snd (pause_trigger c a r) = (if c then raise_mode ModePaused (snd r) else snd r)"
  by (simp add: pause_trigger_def raise_mode_def)

lemma raise_mode_absorb [simp]:
  "raise_mode t (raise_mode t m) = raise_mode t m"
  "raise_mode ModePaused (raise_mode ModeSafe m) = raise_mode ModeSafe m"
  "raise_mode ModeRunning m = m"
  by (cases m; simp add: raise_mode_def)+

lemma mode_rules_mode: "snd (mode_rules now clk d) = raise_mode (required_mode now d) (CurrentMode d)"
  unfolding mode_rules_def Let_def safe_trigger_mode pause_trigger_mode snd_conv required_mode_def
    safe_due_def pause_due_def CurrentMode_def
  by (simp split: if_split)

lemma trigger_alerts:
  "set (fst r) \<subseteq> set (fst (safe_trigger c a r))"
  "set (fst r) \<subseteq> set (fst (pause_trigger c a r))"
  by (auto simp: safe_trigger_def pause_trigger_def)

text \<open>Every change of mode by the rules is announced.\<close>

definition announced :: "Mode \<Rightarrow> Alert list \<times> Mode \<Rightarrow> bool" where
  "announced m r \<longleftrightarrow> snd r = m \<or>
     snd r = ModeSafe \<and> ''CRITICAL'' \<in> set (map at_Severity (fst r)) \<or>
     snd r = ModePaused \<and> ''WARN'' \<in> set (map at_Severity (fst r))"

lemma announced_triggers:
  "announced m r \<Longrightarrow> at_Severity a = ''CRITICAL'' \<Longrightarrow> announced m (safe_trigger c a r)"
  "announced m r \<Longrightarrow> at_Severity a = ''WARN'' \<Longrightarrow> announced m (pause_trigger c a r)"
  by (auto simp: announced_def safe_trigger_def pause_trigger_def)

lemma mode_rules_announced: "announced (CurrentMode d) (mode_rules now clk d)"
  unfolding mode_rules_def Let_def
  by (intro announced_triggers) (simp_all add: alert_def announced_def CurrentMode_def)

definition frozen :: "Mode \<Rightarrow> bool" where
  "frozen m \<longleftrightarrow> m = ModeHalted \<or> m = ModeFlatten"

lemma evaluate_mode:
  "CurrentMode (fst (evaluate now clk d)) =
     (if frozen (CurrentMode d) then CurrentMode d
      else raise_mode (required_mode now (refresh now d)) (CurrentMode d))"
  using mode_rules_mode [of now clk "refresh now d"]
  by (simp add: evaluate_def frozen_def Let_def) (simp add: CurrentMode_def)

lemma evaluate_announced:
  "announced (CurrentMode d)
     (snd (evaluate now clk d), CurrentMode (fst (evaluate now clk d)))"
proof (cases "frozen (CurrentMode d)")
  case True
  then show ?thesis by (simp add: announced_def evaluate_mode)
next
  case False
  have "announced (CurrentMode d) (mode_rules now clk (refresh now d))"
    using mode_rules_announced [of "refresh now d"] by simp
  with False show ?thesis
    unfolding announced_def fst_conv snd_conv evaluate_mode
    by (simp add: evaluate_def frozen_def Let_def mode_rules_mode)
qed

lemma modeRank_raise: "modeRank (raise_mode t m) = max (modeRank m) (modeRank t)"
  by (simp add: raise_mode_def)

lemma evaluate_rank: "CurrentMode d \<le> CurrentMode (fst (evaluate now clk d))"
  by (simp add: evaluate_mode modeRank_raise less_eq_Mode_def)

lemma evaluate_rank_from:
  "CurrentMode d' = CurrentMode d \<Longrightarrow> CurrentMode d \<le> CurrentMode (fst (evaluate now clk d'))"
  using evaluate_rank [of d'] by simp

text \<open>No event but \<open>SetMode\<close> lowers the rank of the mode.\<close>

lemma risk_step_rank:
  "automatic e \<Longrightarrow> CurrentMode d \<le> CurrentMode (risk_step clk d e)"
  by (cases e; simp only: risk_step.simps risk_ops Let_def automatic.simps;
      (rule evaluate_rank_from)?)
     (simp_all add: CurrentMode_def ActivePlaybooks_def ResolvePlaybook_def Let_def)

interpretation risk_modes: escalation "risk_step clk" automatic CurrentMode
  for clk
  by unfold_locales (rule risk_step_rank)

section \<open>The rolling error rate\<close>

interpretation risk_window: rolling_window "\<lambda>t. t" "\<lambda>c ts. pruneOlderThan ts c"
  by unfold_locales simp_all

lemma pruneOlderThan_append:
  "c \<le> c' \<Longrightarrow> pruneOlderThan (pruneOlderThan xs c @ ys) c' = pruneOlderThan (xs @ ys) c'"
  by (induction xs) auto

fun fill_times :: "bool \<Rightarrow> risk_event \<Rightarrow> int64 list" where
  "fill_times only_errors (EvFill now now' pnl err) = (if only_errors \<and> \<not> err then [] else [now])"
| "fill_times only_errors _ = []"

fun clocks :: "risk_event \<Rightarrow> int64 list" where
  "clocks (EvFill now now' pnl err) = [now, now']"
| "clocks (EvBlacklist now now' venue ttl) = [now, now']"
| "clocks (EvADLRisk now venue pct) = [now]"
| "clocks (EvLiqCluster now n) = [now]"
| "clocks (EvDelev now now') = [now, now']"
| "clocks (EvTick now) = [now]"
| "clocks _ = []"

text \<open>The windows are the whole logs, cut at the last evaluation.\<close>

definition windows_inv :: "int64 list \<Rightarrow> int64 list \<Rightarrow> int64 \<Rightarrow> Daemon \<Rightarrow> bool" where
  "windows_inv fills errors t d \<longleftrightarrow>
     dm_totalEvents d = pruneOlderThan fills (t - 300000) \<and>
     dm_errorEvents d = pruneOlderThan errors (t - 300000)"

lemma windows_step:
  assumes "windows_inv fills errors t d" "sorted (t # clocks e)"
  shows "windows_inv (fills @ fill_times False e) (errors @ fill_times True e)
           (last (t # clocks e)) (risk_step clk d e)"
  using assms
  by (cases e; simp add: windows_inv_def risk_ops Let_def ActivePlaybooks_def ResolvePlaybook_def
        SetMode_def pruneOlderThan_append risk_window.prune_prune)

lemma windows_run:
  assumes "windows_inv fills errors t d" "sorted (t # concat (map clocks es))"
  shows "windows_inv (fills @ concat (map (fill_times False) es)) (errors @ concat (map (fill_times True) es))
           (last (t # concat (map clocks es))) (foldl (risk_step clk) d es)"
  using assms
proof (induction es arbitrary: fills errors t d)
  case Nil
  then show ?case by simp
next
  case (Cons e es)
  have "sorted ((t # clocks e) @ concat (map clocks es))" using Cons.prems(2) by simp
  then have s: "sorted (t # clocks e)" "sorted (last (t # clocks e) # concat (map clocks es))"
    by (auto simp: sorted_append)
  have "last (t # concat (map clocks (e # es))) = last (last (t # clocks e) # concat (map clocks es))"
    by auto
  with Cons.IH [OF windows_step [OF Cons.prems(1) s(1), of clk] s(2)] show ?case by simp
qed

section \<open>Equity and playbooks over a run\<close>

fun pnls :: "risk_event \<Rightarrow> float64 list" where
  "pnls (EvFill now now' pnl err) = [pnl]"
| "pnls _ = []"

text \<open>The equities of the past: the seed plus each prefix of the profits and losses.\<close>

definition equities :: "float64 list \<Rightarrow> float64 set" where
  "equities ps = (\<lambda>k. 100000 + sum_list (take k ps)) ` {..length ps}"

lemma equities_snoc: "equities (ps @ [p]) = insert (100000 + sum_list ps + p) (equities ps)"
proof -
  have "{..length (ps @ [p])} = insert (Suc (length ps)) {..length ps}" by auto
  moreover have "(\<lambda>k. 100000 + sum_list (take k (ps @ [p]))) ` {..length ps} = equities ps"
    unfolding equities_def by (intro image_cong) auto
  ultimately show ?thesis by (simp add: equities_def add.assoc)
qed

lemma equities_fin [simp]: "finite (equities ps)" "equities ps \<noteq> {}"
  by (auto simp: equities_def)

lemma risk_step_equity:
  "dm_currentEquity (risk_step clk d e) = dm_currentEquity d + sum_list (pnls e)"
  "dm_peakEquity (risk_step clk d e) =
     (if pnls e = [] then dm_peakEquity d
      else max (dm_peakEquity d) (dm_currentEquity d + sum_list (pnls e)))"
  by (cases e; simp add: risk_ops Let_def SetMode_def ActivePlaybooks_def ResolvePlaybook_def)+

lemma equity_run:
  "dm_currentEquity (foldl (risk_step clk) (NewDaemon p) es) = 100000 + sum_list (concat (map pnls es)) \<and>
   dm_peakEquity (foldl (risk_step clk) (NewDaemon p) es) = Max (equities (concat (map pnls es)))"
proof (induction es rule: rev_induct)
  case Nil
  show ?case by (simp add: NewDaemon_def equities_def)
next
  case (snoc e es)
  have "pnls e = [] \<or> (\<exists>x. pnls e = [x])" by (cases e) auto
  then show ?case
  proof
    assume "pnls e = []"
    with snoc show ?thesis by (simp add: risk_step_equity)
  next
    assume "\<exists>x. pnls e = [x]"
    then obtain x where "pnls e = [x]" by blast
    with snoc show ?thesis by (simp add: risk_step_equity equities_snoc max.commute add.assoc)
  qed
qed

lemma peak_at_least_seed: "100000 \<le> Max (equities ps)"
proof -
  have "100000 \<in> equities ps"
    unfolding equities_def by (rule image_eqI [of _ _ 0]) simp_all
  then show ?thesis by simp
qed

lemma current_below_peak: "100000 + sum_list ps \<le> Max (equities ps)"
proof -
  have "100000 + sum_list ps \<in> equities ps"
    unfolding equities_def by (rule image_eqI [of _ _ "length ps"]) simp_all
  then show ?thesis by simp
qed

text \<open>Playbooks are only appended, under a name that is not there yet.\<close>

fun retires :: "risk_event \<Rightarrow> bool" where
  "retires (EvActivePlaybooks now) \<longleftrightarrow> True"
| "retires (EvResolvePlaybook name) \<longleftrightarrow> True"
| "retires _ \<longleftrightarrow> False"

definition extends :: "Daemon \<Rightarrow> Daemon \<Rightarrow> bool" where
  "extends d d' \<longleftrightarrow>
     (\<exists>pbs. dm_activePlaybooks d' = dm_activePlaybooks d @ pbs \<and>
        distinct (map pb_Name pbs) \<and> pb_Name ` set (dm_activePlaybooks d) \<inter> pb_Name ` set pbs = {})"

lemma extends_refl: "dm_activePlaybooks d' = dm_activePlaybooks d \<Longrightarrow> extends d d'"
  by (simp add: extends_def)

lemma extends_trans [trans]: "extends d d' \<Longrightarrow> extends d' d'' \<Longrightarrow> extends d d''"
  unfolding extends_def by (elim exE conjE, rule_tac x = "pbs @ pbsa" in exI) auto

lemma extends_activate: "extends d (activatePlaybook pb d)"
  by (auto simp: extends_def activatePlaybook_def list_ex_iff)

lemma extends_play: "extends d (fst r) \<Longrightarrow> extends d (fst (play c pb s r))"
  by (auto simp: play_def intro: extends_trans extends_activate)

lemma extends_playbooks: "extends d (fst (playbooks now d as))"
proof -
  have "extends d (fst (d, as))" by (simp add: extends_refl)
  then show ?thesis
    unfolding playbooks_def Let_def
    by (simp add: extends_play extends_trans [OF extends_play extends_activate])
qed

lemma extends_cong: "dm_activePlaybooks d1 = dm_activePlaybooks d2 \<Longrightarrow> extends d1 d \<longleftrightarrow> extends d2 d"
  by (simp add: extends_def)

lemma extends_evaluate:
  assumes "dm_activePlaybooks d' = dm_activePlaybooks d"
  shows "extends d (fst (evaluate now clk d'))"
proof (cases "frozen (CurrentMode d')")
  case True
  with assms show ?thesis by (simp add: evaluate_def frozen_def extends_def)
next
  case False
  let ?d = "(refresh now d')\<lparr>dm_state := (dm_state (refresh now d'))\<lparr>st_Mode := snd (mode_rules now clk (refresh now d'))\<rparr>\<rparr>"
  have "extends d (fst (playbooks now ?d (fst (mode_rules now clk (refresh now d')))))"
    using extends_playbooks by (subst extends_cong [of d ?d]) (simp_all add: assms)
  with False show ?thesis by (simp add: evaluate_def frozen_def Let_def)
qed

lemma extends_step: "\<not> retires e \<Longrightarrow> extends d (risk_step clk d e)"
  by (cases e; simp only: risk_step.simps risk_ops Let_def retires.simps;
      (rule extends_evaluate | rule extends_refl)?)
     (simp_all add: SetMode_def)

section \<open>The service loop\<close>

text \<open>
  The cases of the select in cmd/risk-daemon/main.go.  The commanded mode, the kill switch, the
  number of open positions and the streams are read from Redis, so they are inputs.
\<close>

record Service =
  sv_daemon :: Daemon
  sv_flattenActive :: bool

definition main_tick :: "Mode option \<Rightarrow> bool \<Rightarrow> int64 \<Rightarrow> (string \<Rightarrow> int64) \<Rightarrow> Service \<Rightarrow> Service \<times> Alert list" where
  "main_tick cmd kill now clk s =
     (let s = (case cmd of
                 None \<Rightarrow> s
               | Some m \<Rightarrow> \<lparr>sv_daemon = SetMode m ''operator_command'' (sv_daemon s),
                            sv_flattenActive = (m = ModeFlatten \<or> sv_flattenActive s)\<rparr>);
          s = (if kill \<and> CurrentMode (sv_daemon s) = ModeRunning
               then s\<lparr>sv_daemon := SetMode ModePaused ''kill_switch'' (sv_daemon s)\<rparr> else s);
          (d, alerts) = Tick now clk (sv_daemon s);
          s = s\<lparr>sv_daemon := d\<rparr>
      in (if CurrentMode d = ModeFlatten \<and> \<not> sv_flattenActive s
          then s\<lparr>sv_flattenActive := True\<rparr> else s, alerts))"

definition flatten_alert :: "Daemon \<Rightarrow> int64 \<Rightarrow> string \<Rightarrow> Alert" where
  "flatten_alert d now msg =
     \<lparr>at_SchemaVersion = 0, at_TenantID = rp_TenantID (dm_policy d), at_TsMs = now,
      at_Source = ''flatten_sequence'', at_Severity = ''CRITICAL'', at_Message = msg, at_Metric = '''',
      at_Value = 0, at_Threshold = 0, at_Playbook = ''''\<rparr>"

definition main_flatten :: "int \<Rightarrow> int \<Rightarrow> int64 \<Rightarrow> int64 \<Rightarrow> Service \<Rightarrow> Service \<times> Alert list" where
  "main_flatten n opened now now' s =
     (if \<not> sv_flattenActive s then (s, [])
      else (let alerts = (if n > 0 then [flatten_alert (sv_daemon s) now
                    (''FLATTEN in progress '' @ em_dash @ '' close intents emitted for open positions'')] else [])
            in if opened = 0
               then (\<lparr>sv_daemon = SetMode ModeHalted ''flatten_complete'' (sv_daemon s),
                      sv_flattenActive = False\<rparr>,
                     alerts @ [flatten_alert (sv_daemon s) now'
                       (''FLATTEN complete '' @ em_dash @ '' system HALTED. Manual restart required.'')])
               else (s, alerts)))"

definition main_exec_event :: "string \<Rightarrow> int64 \<Rightarrow> int64 \<Rightarrow> (string \<Rightarrow> int64) \<Rightarrow> Service \<Rightarrow> Service \<times> Alert list" where
  "main_exec_event eventType now now' clk s =
     (let isError = (eventType = ''ORDER_REJECTED'' \<or> eventType = ''HEDGE_FAILED'');
          (d, alerts) = RecordFill now now' clk 0 isError (sv_daemon s)
      in (s\<lparr>sv_daemon := d\<rparr>, alerts))"

definition main_status_update :: "VenueState \<Rightarrow> string \<Rightarrow> int64 \<Rightarrow> int64 \<Rightarrow> int64 \<Rightarrow> (string \<Rightarrow> int64) \<Rightarrow> Service \<Rightarrow> Service \<times> Alert list" where
  "main_status_update status venue ttlMs now now' clk s =
     (if status = StateBlacklisted
      then (let (d, alerts) = RecordBlacklist now now' clk venue ttlMs (sv_daemon s)
            in (s\<lparr>sv_daemon := d\<rparr>, alerts))
      else (s, []))"

definition main_init :: "RiskPolicy \<Rightarrow> Service" where
  "main_init p = \<lparr>sv_daemon = NewDaemon p, sv_flattenActive = False\<rparr>"

text \<open>The select serves its cases in any order, with any inputs.\<close>

inductive svc_step :: "Service \<Rightarrow> Service \<Rightarrow> bool" where
  tick: "svc_step s (fst (main_tick cmd kill now clk s))"
| flatten: "svc_step s (fst (main_flatten n opened now now' s))"
| exec: "svc_step s (fst (main_exec_event evt now now' clk s))"
| status: "svc_step s (fst (main_status_update st venue ttl now now' clk s))"

inductive_cases svc_stepE: "svc_step s s'"

inductive svc_reachable :: "RiskPolicy \<Rightarrow> Service \<Rightarrow> bool" for p where
  start: "svc_reachable p (main_init p)"
| step: "svc_reachable p s \<Longrightarrow> svc_step s s' \<Longrightarrow> svc_reachable p s'"

lemmas svc_ops = main_tick_def main_flatten_def main_exec_event_def main_status_update_def

text \<open>No profit, ADL reading, cluster count or deleveraging event ever reaches the daemon.\<close>

definition blind :: "Daemon \<Rightarrow> bool" where
  "blind d \<longleftrightarrow> dm_currentEquity d = 100000 \<and> dm_peakEquity d = 100000 \<and>
     dm_adlRiskByVenue d = [] \<and> dm_liqClusterCount d = 0 \<and> dm_delevEvents d = []"

lemma evaluate_delev [simp]:
  "dm_delevEvents (fst (evaluate now clk d)) = pruneOlderThan (dm_delevEvents d) (now - rp_VenueDelevWindowMs (dm_policy d))"
  by (simp add: evaluate_def Let_def) (simp add: refresh_def Let_def)

lemma blind_evaluate: "blind d \<Longrightarrow> blind (fst (evaluate now clk d))"
  by (simp add: blind_def)

lemma blind_SetMode [simp]: "blind (SetMode m r d) = blind d"
  by (simp add: blind_def SetMode_def)

lemma blind_step:
  assumes "blind (sv_daemon s)" "svc_step s s'"
  shows "blind (sv_daemon s')"
  using assms(2)
proof cases
  case (tick cmd kill now clk)
  with assms(1) show ?thesis
    by (auto simp: main_tick_def Tick_def Let_def case_prod_unfold intro!: blind_evaluate split: option.splits)
next
  case (flatten n opened now now')
  with assms(1) show ?thesis by (simp add: main_flatten_def Let_def)
next
  case (exec evt now now' clk)
  have "blind d \<Longrightarrow> blind (d\<lparr>dm_totalEvents := x\<rparr>)" "blind d \<Longrightarrow> blind (d\<lparr>dm_errorEvents := x\<rparr>)" for d x
    by (simp_all add: blind_def)
  with exec assms(1) show ?thesis
    by (auto simp: main_exec_event_def RecordFill_def Let_def case_prod_unfold intro!: blind_evaluate)
       (auto simp: blind_def)
next
  case (status st venue ttl now now' clk)
  have "blind d \<Longrightarrow> blind (d\<lparr>dm_blacklisted := x\<rparr>)" for d x by (simp add: blind_def)
  with status assms(1) show ?thesis
    by (auto simp: main_status_update_def RecordBlacklist_def Let_def case_prod_unfold intro!: blind_evaluate)
qed

text \<open>FLATTEN always has its close sequence running, and only that sequence reaches HALTED by itself.\<close>

lemma evaluate_not_into_flatten:
  "CurrentMode (fst (evaluate now clk d)) = ModeFlatten \<Longrightarrow> CurrentMode d = ModeFlatten"
  by (auto simp: evaluate_mode frozen_def raise_mode_def required_mode_def split: if_splits)

lemma record_mode [simp]:
  "CurrentMode (d\<lparr>dm_totalEvents := x\<rparr>) = CurrentMode d"
  "CurrentMode (d\<lparr>dm_errorEvents := x\<rparr>) = CurrentMode d"
  "CurrentMode (d\<lparr>dm_currentEquity := u\<rparr>) = CurrentMode d"
  "CurrentMode (d\<lparr>dm_peakEquity := u\<rparr>) = CurrentMode d"
  "CurrentMode (d\<lparr>dm_blacklisted := b\<rparr>) = CurrentMode d"
  "CurrentMode (SetMode m r d) = m"
  by (simp_all add: CurrentMode_def SetMode_def)

definition flatten_inv :: "Service \<Rightarrow> bool" where
  "flatten_inv s \<longleftrightarrow> (CurrentMode (sv_daemon s) = ModeFlatten \<longrightarrow> sv_flattenActive s)"

lemma flatten_step:
  assumes "flatten_inv s" "svc_step s s'"
  shows "flatten_inv s'"
  using assms(2)
proof cases
  case (tick cmd kill now clk)
  then show ?thesis by (simp add: main_tick_def flatten_inv_def Let_def case_prod_unfold)
next
  case (flatten n opened now now')
  with assms(1) show ?thesis by (auto simp: main_flatten_def flatten_inv_def Let_def)
next
  case (exec evt now now' clk)
  with assms(1) show ?thesis
    by (auto simp: main_exec_event_def RecordFill_def Let_def case_prod_unfold flatten_inv_def
          dest!: evaluate_not_into_flatten split: if_splits)
next
  case (status st venue ttl now now' clk)
  with assms(1) show ?thesis
    by (auto simp: main_status_update_def RecordBlacklist_def Let_def case_prod_unfold flatten_inv_def
          dest!: evaluate_not_into_flatten split: if_splits)
qed

lemma svc_start: "blind (sv_daemon (main_init p))" "flatten_inv (main_init p)"
  by (simp_all add: main_init_def NewDaemon_def blind_def flatten_inv_def CurrentMode_def)

lemma svc_blind: "svc_reachable p s \<Longrightarrow> blind (sv_daemon s)"
  by (induction rule: svc_reachable.induct) (auto intro: svc_start blind_step)

lemma svc_flatten: "svc_reachable p s \<Longrightarrow> flatten_inv s"
  by (induction rule: svc_reachable.induct) (auto intro: svc_start flatten_step)

section \<open>Properties\<close>

lemma equity_and_peak:
  "dm_currentEquity (foldl (risk_step clk) (NewDaemon p) es) = 100000 + sum_list (concat (map pnls es))"
  "dm_peakEquity (foldl (risk_step clk) (NewDaemon p) es) = Max (equities (concat (map pnls es)))"
  "0 \<le> drawdown (foldl (risk_step clk) (NewDaemon p) es)"
  using equity_run [of clk p es] current_below_peak [of "concat (map pnls es)"]
    peak_at_least_seed [of "concat (map pnls es)"]
  by (auto simp: drawdown_def)

text \<open>Without a call that retires playbooks, each name is activated once and stays.\<close>

lemma playbooks_activate_once:
  assumes "\<forall>e\<in>set es. \<not> retires e"
  shows "extends d (foldl (risk_step clk) d es)"
  using assms
proof (induction es arbitrary: d)
  case Nil
  show ?case by (simp add: extends_refl)
next
  case (Cons e es)
  have "extends d (risk_step clk d e)" using Cons.prems by (simp add: extends_step)
  also have "extends (risk_step clk d e) (foldl (risk_step clk) (risk_step clk d e) es)"
    using Cons by simp
  finally show ?case by simp
qed

text \<open>
  C9.  The daemon never relaxes by itself: whatever fills, blacklists, incident readings and
  ticks it sees, in any order and at any clock readings, the rank of its mode
  (RUNNING, PAUSED, SAFE, FLATTEN, HALTED) never goes down.  Only an operator's \<open>SetMode\<close> can.
\<close>

theorem risk_mode_never_relaxes:
  assumes "\<forall>e\<in>set es. automatic e"
  shows "CurrentMode d \<le> CurrentMode (foldl (risk_step clk) d es)"
  using assms by (rule risk_modes.run_level)

definition sample_risk_policy :: RiskPolicy where
  "sample_risk_policy =
     \<lparr>rp_MaxNetDeltaUSD = 5000, rp_MaxMarginUtilisationPct = 70, rp_SafeModeMarginUtilPct = 85,
      rp_MinLiqDistancePct = 20, rp_MaxHedgeDriftUSDSec = 500, rp_MaxDrawdownPct = 3,
      rp_SafeModeDrawdownPct = 5, rp_MaxErrorRate5mPct = 10, rp_MaxReconciliationDivUSD = 50,
      rp_MinCoreVenuesForSafeMode = 2, rp_PositionTruthPollIntervalS = 30, rp_TenantID = ''default'',
      rp_RedisAddr = ''localhost:6379'', rp_RedisPassword = '''', rp_RedisUseTLS = False,
      rp_ADLRiskPausePct = 40, rp_LiqClusterPauseCount = 3, rp_VenueDelevSafeModeCount = 2,
      rp_VenueDelevWindowMs = 300000\<rparr>"

theorem risk_mode_never_relaxes_witness:
  "ModeSafe \<le> CurrentMode (foldl (risk_step (\<lambda>s. 0)) (SetMode ModeSafe ''op'' (NewDaemon sample_risk_policy))
     [EvFill 1 1 5000 False, EvTick 7000, EvResolvePlaybook PlaybookADLEvent])"
  using risk_mode_never_relaxes
    [of "[EvFill 1 1 5000 False, EvTick 7000, EvResolvePlaybook PlaybookADLEvent]"
      "SetMode ModeSafe ''op'' (NewDaemon sample_risk_policy)" "\<lambda>s. 0"]
  by simp

text \<open>
  C17.  One evaluation of the daemon implements this rule: FLATTEN and HALTED are kept, any other
  mode becomes the higher of itself and the mode the thresholds require (SAFE on blacklist count,
  drawdown of the safe-mode threshold or deleveraging, else PAUSED on drawdown of the maximum,
  error rate, ADL risk or clusters), and a change is announced, to SAFE by a CRITICAL and to PAUSED
  by a WARN alert.  It is the rule of evaluate in daemon.go; docs/failure-modes.md tells another one
  for two drawdowns, and the two lemmas after it show what the code does there.
\<close>

theorem evaluate_implements_mode_rule:
  "CurrentMode (fst (evaluate now clk d)) =
     (if frozen (CurrentMode d) then CurrentMode d
      else raise_mode (required_mode now (refresh now d)) (CurrentMode d)) \<and>
   announced (CurrentMode d) (snd (evaluate now clk d), CurrentMode (fst (evaluate now clk d)))"
  by (rule conjI [OF evaluate_mode evaluate_announced])

text \<open>
  The document has FLATTEN start at a drawdown of safe_mode_drawdown_pct.  The code enters SAFE there,
  and no evaluation starts FLATTEN at all.
\<close>

lemma safe_mode_drawdown_enters_SAFE:
  assumes "CurrentMode d \<in> {ModeRunning, ModePaused, ModeSafe}" "rp_SafeModeDrawdownPct (dm_policy d) \<le> drawdown d"
  shows "CurrentMode (fst (evaluate now clk d)) = ModeSafe"
proof -
  have "required_mode now (refresh now d) = ModeSafe"
    using assms(2) by (simp add: required_mode_def safe_due_def)
  then show ?thesis using assms(1) by (auto simp: evaluate_mode frozen_def raise_mode_def)
qed

lemma evaluate_never_starts_FLATTEN: "CurrentMode (fst (evaluate now clk d)) \<in> {CurrentMode d, ModePaused, ModeSafe}"
proof -
  have "raise_mode ModeRunning m = m" for m by (cases m) (simp_all add: raise_mode_def)
  moreover have "raise_mode t m \<in> {m, t}" for t m by (simp add: raise_mode_def)
  ultimately show ?thesis unfolding evaluate_mode required_mode_def by (auto split: if_splits)
qed

text \<open>
  The document, and the playbook in its list of actions, have SAFE start at 75 percent of the maximal
  drawdown.  Here a drawdown of 2.5 with a maximum of 3 activates that playbook, and the mode stays RUNNING.
\<close>

lemma approaching_drawdown_stays_RUNNING:
  "let d = fst (evaluate 1 (\<lambda>s. 0) ((NewDaemon sample_risk_policy)\<lparr>dm_currentEquity := 97500\<rparr>)) in
   CurrentMode d = ModeRunning \<and> map pb_Name (dm_activePlaybooks d) = [PlaybookVolatilitySpike] \<and>
   map pb_TargetMode (dm_activePlaybooks d) = [ModeSafe]"
proof -
  define d where "d = (NewDaemon sample_risk_policy)\<lparr>dm_currentEquity := 97500\<rparr>"
  let ?r = "refresh 1 d"
  have calm: "errorRate ?r = 0" "maxADLRisk d = 0" "countDelevEvents ?r = 0" "blacklistCount 1 d = 0"
    "dm_liqClusterCount d = 0" "drawdown d = 2.5" "dm_policy d = sample_risk_policy" "dm_activePlaybooks d = []"
    "CurrentMode d = ModeRunning"
    by (simp_all add: d_def refresh_def Let_def NewDaemon_def errorRate_def maxADLRisk_def countDelevEvents_def blacklistCount_def
        drawdown_def CurrentMode_def)
  have frame: "errorRate (?r\<lparr>dm_state := st\<rparr>) = errorRate ?r" "maxADLRisk (?r\<lparr>dm_state := st\<rparr>) = maxADLRisk ?r"
    "countDelevEvents (?r\<lparr>dm_state := st\<rparr>) = countDelevEvents ?r" for st
    by (simp_all add: errorRate_def maxADLRisk_def countDelevEvents_def)
  have "\<not> safe_due 1 ?r" "\<not> pause_due ?r" by (simp_all add: safe_due_def pause_due_def calm) (simp_all add: sample_risk_policy_def)
  then have m: "CurrentMode (fst (evaluate 1 (\<lambda>s. 0) d)) = ModeRunning"
    unfolding evaluate_mode by (simp add: required_mode_def calm raise_mode_def frozen_def)
  have "dm_activePlaybooks (fst (evaluate 1 (\<lambda>s. 0) d)) = [volatility_playbook 1 (?r\<lparr>dm_state := (dm_state ?r)\<lparr>st_Mode := snd (mode_rules 1 (\<lambda>s. 0) ?r)\<rparr>\<rparr>)]"
    unfolding evaluate_def Let_def playbooks_def play_def
    by (simp add: frame calm activatePlaybook_def) (simp add: sample_risk_policy_def)
  then show ?thesis unfolding Let_def d_def [symmetric] by (simp add: m volatility_playbook_def)
qed

text \<open>
  With a clock that does not run backwards, the error rate that a tick publishes is the
  share of failed fills among exactly the fills of the last five minutes, over the whole history.
\<close>

theorem error_rate_is_of_the_last_five_minutes:
  assumes "sorted (concat (map clocks es) @ [now])"
  shows "st_ErrorRate5mPct (dm_state (foldl (risk_step clk) (NewDaemon p) (es @ [EvTick now]))) =
    (let fills = filter (\<lambda>t. now - 300000 \<le> t) (concat (map (fill_times False) es));
         errors = filter (\<lambda>t. now - 300000 \<le> t) (concat (map (fill_times True) es))
     in if fills = [] then 0 else real (length errors) / real (length fills) * 100)"
proof -
  let ?d = "foldl (risk_step clk) (NewDaemon p) es"
  let ?F = "\<lambda>b. concat (map (fill_times b) es)"
  obtain t0 where t0: "sorted (t0 # concat (map clocks es) @ [now])"
    using assms by (cases "concat (map clocks es) @ [now]") (auto intro: that [of now] that)
  have "windows_inv [] [] t0 (NewDaemon p)" by (simp add: windows_inv_def NewDaemon_def)
  from windows_run [OF this, of es clk] t0
  have w: "windows_inv (?F False) (?F True) (last (t0 # concat (map clocks es))) ?d"
    by (simp add: sorted_append)
  have "\<forall>x\<in>set (t0 # concat (map clocks es)). x \<le> now" using t0 by (auto simp: sorted_append)
  then have le: "last (t0 # concat (map clocks es)) \<le> now"
    using last_in_set [of "t0 # concat (map clocks es)"] by blast
  from w le obtain l where l: "windows_inv (?F False) (?F True) l ?d" "l \<le> now" by blast
  have sub: "subseq (fill_times b e) (clocks e)" for b e by (cases e) auto
  have "subseq (?F b) (concat (map clocks es))" for b
    by (induction es) (auto intro: list_emb_append_mono sub)
  then have srt: "sorted (?F b)" for b
    using assms unfolding subseq_conv_nths by (metis sorted_append sorted_nths)
  from l have "dm_totalEvents (refresh now ?d) = pruneOlderThan (?F False) (now - 300000)"
    "dm_errorEvents (refresh now ?d) = pruneOlderThan (?F True) (now - 300000)"
    by (simp_all add: windows_inv_def risk_window.prune_prune)
  then have "dm_totalEvents (refresh now ?d) = filter (\<lambda>t. now - 300000 \<le> t) (?F False)"
    "dm_errorEvents (refresh now ?d) = filter (\<lambda>t. now - 300000 \<le> t) (?F True)"
    using srt by (simp_all add: risk_window.prune_filter)
  then show ?thesis by (simp add: Tick_def evaluate_state errorRate_def)
qed

theorem error_rate_is_of_the_last_five_minutes_witness:
  "st_ErrorRate5mPct (dm_state (foldl (risk_step (\<lambda>s. 0)) (NewDaemon sample_risk_policy)
     ([EvFill 0 0 0 True, EvFill 200000 200000 0 False, EvFill 310000 310000 0 True] @ [EvTick 320000]))) = 50"
  by (subst error_rate_is_of_the_last_five_minutes) simp_all

text \<open>
  The service never shows the daemon a loss: in every reachable state of the loop the
  drawdown and the ADL risk are 0 and no cluster or deleveraging event is counted, because the
  loop reports every fill with a profit of 0 and calls none of the incident recorders.  With
  positive thresholds only the error rate and the blacklist count can change the mode.
\<close>

theorem service_never_sees_a_drawdown:
  assumes "svc_reachable p s"
  shows "drawdown (sv_daemon s) = 0 \<and> maxADLRisk (sv_daemon s) = 0 \<and>
    dm_liqClusterCount (sv_daemon s) = 0 \<and> countDelevEvents (sv_daemon s) = 0"
  using svc_blind [OF assms] by (simp add: blind_def drawdown_def maxADLRisk_def countDelevEvents_def)

theorem service_never_sees_a_drawdown_witness:
  "drawdown (sv_daemon (fst (main_exec_event ''FILL'' 1 1 (\<lambda>s. 0) (main_init sample_risk_policy)))) = 0"
  using service_never_sees_a_drawdown [OF svc_reachable.step [OF svc_reachable.start svc_step.exec]]
  by blast

text \<open>
  In every reachable state FLATTEN has its close sequence running, and an operator who
  commands RUNNING does not stop it: the next round of the sequence still halts the system
  exactly when no position is open.
\<close>

theorem flatten_runs_until_halted:
  assumes "svc_reachable p s" "CurrentMode (sv_daemon s) = ModeFlatten"
  shows "sv_flattenActive s \<and>
    (CurrentMode (sv_daemon (fst (main_flatten n opened t t'
       (fst (main_tick (Some ModeRunning) kill now clk s))))) = ModeHalted \<longleftrightarrow> opened = 0)"
proof
  show act: "sv_flattenActive s" using svc_flatten assms by (auto simp: flatten_inv_def)
  have "CurrentMode (fst (evaluate now clk (SetMode m r d))) \<noteq> ModeHalted"
    if "m \<in> {ModeRunning, ModePaused}" for m r d
    using that by (auto simp: evaluate_mode frozen_def raise_mode_def required_mode_def)
  then show "CurrentMode (sv_daemon (fst (main_flatten n opened t t'
       (fst (main_tick (Some ModeRunning) kill now clk s))))) = ModeHalted \<longleftrightarrow> opened = 0"
    using act by (simp add: main_flatten_def main_tick_def Tick_def Let_def case_prod_unfold)
qed

theorem flatten_runs_until_halted_witness:
  "CurrentMode (sv_daemon (fst (main_flatten 0 0 8 9 (fst (main_tick (Some ModeRunning) False 7 (\<lambda>s. 0)
     (fst (main_tick (Some ModeFlatten) False 5 (\<lambda>s. 0) (main_init sample_risk_policy)))))))) = ModeHalted"
proof -
  let ?s = "fst (main_tick (Some ModeFlatten) False 5 (\<lambda>s. 0) (main_init sample_risk_policy))"
  have "CurrentMode (sv_daemon ?s) = ModeFlatten"
    by (simp add: main_tick_def Tick_def Let_def case_prod_unfold evaluate_mode frozen_def)
  with flatten_runs_until_halted [OF svc_reachable.step [OF svc_reachable.start svc_step.tick]]
  show ?thesis by blast
qed

end
