(* ===== verification/Tax_Matching.thy ===== *)
theory Tax_Matching
  imports Interfaces
begin

text \<open>
  internal/taxuk (types.go, matching.go, report.go without its CSV writers): HMRC share matching
  of spot disposals and the report built on it.  \<open>sort.Slice\<close> is not stable, so the sorted list
  is any chronological permutation of the input.  The calendar day of a time in the location of
  the trades is the parameter \<open>day\<close>, a day number: midnights of one location are equal, ordered
  and 30 days apart exactly when these numbers are.
\<close>

section \<open>Types\<close>

record TradeRecord =
  td_ID :: string
  td_IntentID :: string
  td_Timestamp :: go_time
  td_Symbol :: string
  td_Action :: string
  td_Venue :: string
  td_Market :: string
  td_Strategy :: string
  td_Quantity :: float64
  td_PriceUSD :: float64
  td_NotionalUSD :: float64
  td_FeesUSD :: float64
  td_PriceGBP :: float64
  td_NotionalGBP :: float64
  td_FeesGBP :: float64

record Disposal =
  dp_Date :: go_time
  dp_Symbol :: string
  dp_Quantity :: float64
  dp_ProceedsGBP :: float64
  dp_CostGBP :: float64
  dp_GainGBP :: float64
  dp_MatchType :: string
  dp_MatchedWith :: "string list"

record Section104Pool =
  s1_Symbol :: string
  s1_TotalQuantity :: float64
  s1_TotalCostGBP :: float64

definition CostPerUnit :: "Section104Pool \<Rightarrow> float64" where
  "CostPerUnit p = (if s1_TotalQuantity p \<le> 0 then 0 else s1_TotalCostGBP p / s1_TotalQuantity p)"

record matchResult =
  mr_quantity :: float64
  mr_costGBP :: float64
  mr_matchType :: string
  mr_matchID :: string

section \<open>Matching\<close>

definition acqCostPerUnit :: "TradeRecord \<Rightarrow> float64" where
  "acqCostPerUnit t = (if td_Quantity t \<le> 0 then 0 else (td_NotionalGBP t + td_FeesGBP t) / td_Quantity t)"

definition minf :: "float64 \<Rightarrow> float64 \<Rightarrow> float64" where
  "minf a b = (if a < b then a else b)"

text \<open>
  The variables the three phases share: the remaining quantity by sorted index, the matches of
  each disposal (its sorted index and its list), and the pool.
\<close>

record work =
  wk_remaining :: "float64 list"
  wk_disposals :: "(nat \<times> matchResult list) list"
  wk_pool :: Section104Pool

definition add_match :: "nat \<Rightarrow> matchResult \<Rightarrow> (nat \<times> matchResult list) list \<Rightarrow> (nat \<times> matchResult list) list" where
  "add_match d m ds = map (\<lambda>(i, ms). if i = d then (i, ms @ [m]) else (i, ms)) ds"

definition init_work :: "TradeRecord list \<Rightarrow> Section104Pool \<Rightarrow> work" where
  "init_work ts pool =
     \<lparr>wk_remaining = map td_Quantity ts,
      wk_disposals = map (\<lambda>i. (i, [])) (filter (\<lambda>i. td_Action (ts ! i) = ''SELL'') [0..<length ts]),
      wk_pool = pool\<rparr>"

definition same_day :: "(go_time \<Rightarrow> int) \<Rightarrow> TradeRecord \<Rightarrow> TradeRecord \<Rightarrow> bool" where
  "same_day day sell buy \<longleftrightarrow> day (td_Timestamp buy) = day (td_Timestamp sell)"

definition within_30_days :: "(go_time \<Rightarrow> int) \<Rightarrow> TradeRecord \<Rightarrow> TradeRecord \<Rightarrow> bool" where
  "within_30_days day sell buy \<longleftrightarrow>
     day (td_Timestamp buy) > day (td_Timestamp sell) \<and>
     \<not> day (td_Timestamp buy) > day (td_Timestamp sell) + 30"

text \<open>
  The body of the inner loop of phases 1 and 2.  The break on an exhausted disposal is the guard
  here: once it holds it holds for the rest of the loop.
\<close>

definition try_match ::
  "TradeRecord list \<Rightarrow> (TradeRecord \<Rightarrow> TradeRecord \<Rightarrow> bool) \<Rightarrow> string \<Rightarrow> nat \<Rightarrow> work \<Rightarrow> nat \<Rightarrow> work" where
  "try_match ts eligible matchType d w j =
     (if wk_remaining w ! d \<le> 0 then w
      else if td_Action (ts ! j) \<noteq> ''BUY'' \<or> wk_remaining w ! j \<le> 0 then w
      else if \<not> eligible (ts ! d) (ts ! j) then w
      else (let matched = minf (wk_remaining w ! d) (wk_remaining w ! j);
                costPerUnit = acqCostPerUnit (ts ! j);
                m = \<lparr>mr_quantity = matched, mr_costGBP = matched * costPerUnit,
                     mr_matchType = matchType, mr_matchID = td_ID (ts ! j)\<rparr>;
                r1 = (wk_remaining w)[d := wk_remaining w ! d - matched];
                r2 = r1[j := r1 ! j - matched]
            in w\<lparr>wk_remaining := r2, wk_disposals := add_match d m (wk_disposals w)\<rparr>))"

definition match_phase ::
  "TradeRecord list \<Rightarrow> (TradeRecord \<Rightarrow> TradeRecord \<Rightarrow> bool) \<Rightarrow> string \<Rightarrow> work \<Rightarrow> work" where
  "match_phase ts eligible matchType w =
     foldl (\<lambda>w d. foldl (try_match ts eligible matchType d) w [0..<length ts]) w (map fst (wk_disposals w))"

definition pool_step :: "TradeRecord list \<Rightarrow> work \<Rightarrow> nat \<Rightarrow> work" where
  "pool_step ts w i =
     (if wk_remaining w ! i \<le> 0 then w
      else if td_Action (ts ! i) = ''BUY'' then
        (let costPerUnit = acqCostPerUnit (ts ! i); r = wk_remaining w ! i; p = wk_pool w
         in w\<lparr>wk_pool := p\<lparr>s1_TotalQuantity := s1_TotalQuantity p + r,
                          s1_TotalCostGBP := s1_TotalCostGBP p + r * costPerUnit\<rparr>,
              wk_remaining := (wk_remaining w)[i := 0]\<rparr>)
      else if td_Action (ts ! i) = ''SELL'' then
        (if i \<notin> set (map fst (wk_disposals w)) \<or> s1_TotalQuantity (wk_pool w) \<le> 0 then w
         else (let p = wk_pool w;
                   matched = minf (wk_remaining w ! i) (s1_TotalQuantity p);
                   cpu = CostPerUnit p;
                   m = \<lparr>mr_quantity = matched, mr_costGBP = matched * cpu,
                        mr_matchType = ''section-104'', mr_matchID = ''''\<rparr>
               in w\<lparr>wk_disposals := add_match i m (wk_disposals w),
                    wk_pool := p\<lparr>s1_TotalQuantity := s1_TotalQuantity p - matched,
                                s1_TotalCostGBP := s1_TotalCostGBP p - matched * cpu\<rparr>,
                    wk_remaining := (wk_remaining w)[i := wk_remaining w ! i - matched]\<rparr>))
      else w)"

definition disposal_of :: "TradeRecord list \<Rightarrow> nat \<times> matchResult list \<Rightarrow> Disposal" where
  "disposal_of ts dw =
     (let d = ts ! fst dw; ms = snd dw;
          totalCost = sum_list (map mr_costGBP ms);
          totalQty = sum_list (map mr_quantity ms);
          primaryMatch = foldl (\<lambda>acc mr. if acc = ''unmatched'' then mr_matchType mr else acc) ''unmatched'' ms;
          proceeds = (if td_Quantity d > 0 \<and> totalQty > 0
                      then (totalQty / td_Quantity d) * (td_NotionalGBP d - td_FeesGBP d) else 0)
      in \<lparr>dp_Date = td_Timestamp d, dp_Symbol = td_Symbol d, dp_Quantity = totalQty,
          dp_ProceedsGBP = proceeds, dp_CostGBP = totalCost, dp_GainGBP = proceeds - totalCost,
          dp_MatchType = primaryMatch,
          dp_MatchedWith = filter (\<lambda>i. i \<noteq> '''') (map mr_matchID ms)\<rparr>)"

text \<open>The three phases on the sorted trades.\<close>

definition run_phases :: "(go_time \<Rightarrow> int) \<Rightarrow> TradeRecord list \<Rightarrow> work \<Rightarrow> work" where
  "run_phases day ts w =
     (let w = match_phase ts (same_day day) ''same-day'' w;
          w = match_phase ts (within_30_days day) ''30-day'' w
      in foldl (pool_step ts) w [0..<length ts])"

text \<open>\<open>chrono\<close> stands for \<open>sort.Slice\<close> by time; a nil pool is an empty one.\<close>

definition MatchSpotTrades ::
  "(TradeRecord list \<Rightarrow> TradeRecord list) \<Rightarrow> (go_time \<Rightarrow> int) \<Rightarrow> TradeRecord list \<Rightarrow> Section104Pool option
     \<Rightarrow> Disposal list \<times> Section104Pool" where
  "MatchSpotTrades chrono day trades pool =
     (let pool = (case pool of None \<Rightarrow> \<lparr>s1_Symbol = '''', s1_TotalQuantity = 0, s1_TotalCostGBP = 0\<rparr> | Some p \<Rightarrow> p)
      in if trades = [] then ([], pool)
         else (let ts = chrono trades;
                   w = run_phases day ts (init_work ts pool)
               in (map (disposal_of ts) (wk_disposals w), wk_pool w)))"

definition is_chrono :: "(TradeRecord list \<Rightarrow> TradeRecord list) \<Rightarrow> bool" where
  "is_chrono chrono \<longleftrightarrow> (\<forall>ts. mset (chrono ts) = mset ts \<and> sorted (map td_Timestamp (chrono ts)))"

section \<open>The report\<close>

definition ConvertToGBP :: "TradeRecord list \<Rightarrow> float64 \<Rightarrow> TradeRecord list" where
  "ConvertToGBP trades gbpPerUSD =
     map (\<lambda>t. t\<lparr>td_PriceGBP := td_PriceUSD t * gbpPerUSD, td_NotionalGBP := td_NotionalUSD t * gbpPerUSD,
               td_FeesGBP := td_FeesUSD t * gbpPerUSD\<rparr>) trades"

record TaxReport =
  tr_TenantID :: string
  tr_PeriodStart :: go_time
  tr_PeriodEnd :: go_time
  tr_GBPUSDRate :: float64
  tr_Trades :: "TradeRecord list"
  tr_SpotDisposals :: "Disposal list"
  tr_TotalSpotGainsGBP :: float64
  tr_TotalSpotLossesGBP :: float64
  tr_NetSpotGainGBP :: float64
  tr_DerivativePnLGBP :: float64
  tr_DerivativeFeesGBP :: float64
  tr_NetDerivativeIncomeGBP :: float64
  tr_Pools :: "string \<rightharpoonup> Section104Pool"
  tr_TotalTaxableGBP :: float64

definition spot_of :: "TradeRecord list \<Rightarrow> string \<Rightarrow> TradeRecord list" where
  "spot_of trades symbol = filter (\<lambda>t. td_Market t = ''SPOT'' \<and> td_Symbol t = symbol) trades"

text \<open>One round of the loop over \<open>spotBySymbol\<close>.\<close>

definition match_symbol ::
  "(TradeRecord list \<Rightarrow> TradeRecord list) \<Rightarrow> (go_time \<Rightarrow> int) \<Rightarrow> TradeRecord list
     \<Rightarrow> Disposal list \<times> (string \<rightharpoonup> Section104Pool) \<Rightarrow> string \<Rightarrow> Disposal list \<times> (string \<rightharpoonup> Section104Pool)" where
  "match_symbol chrono day trades r symbol =
     (let pool = (case snd r symbol of Some p \<Rightarrow> p
                  | None \<Rightarrow> \<lparr>s1_Symbol = symbol, s1_TotalQuantity = 0, s1_TotalCostGBP = 0\<rparr>);
          (ds, pool') = MatchSpotTrades chrono day (spot_of trades symbol) (Some pool)
      in (fst r @ ds, (snd r)(symbol \<mapsto> pool')))"

text \<open>
  \<open>symbols\<close> lists the keys of \<open>spotBySymbol\<close> in the order of the range statement and
  \<open>by_date\<close> stands for the sort of the disposals.
\<close>

definition GenerateReport ::
  "(TradeRecord list \<Rightarrow> TradeRecord list) \<Rightarrow> (Disposal list \<Rightarrow> Disposal list) \<Rightarrow> (go_time \<Rightarrow> int) \<Rightarrow> string list
     \<Rightarrow> string \<Rightarrow> go_time \<Rightarrow> go_time \<Rightarrow> float64 \<Rightarrow> TradeRecord list \<Rightarrow> (string \<rightharpoonup> Section104Pool) option \<Rightarrow> TaxReport" where
  "GenerateReport chrono by_date day symbols tenantID start finish gbpRate trades pools =
     (let pools = (case pools of None \<Rightarrow> Map.empty | Some m \<Rightarrow> m);
          derivs = filter (\<lambda>t. td_Market t \<noteq> ''SPOT'') trades;
          derivBuys = filter (\<lambda>t. td_Action t = ''BUY'') derivs;
          derivSells = filter (\<lambda>t. td_Action t \<noteq> ''BUY'') derivs;
          (ds, pools') = foldl (match_symbol chrono day trades) ([], pools) symbols;
          disposals = by_date ds;
          gains = foldl (\<lambda>s d. if dp_GainGBP d \<ge> 0 then s + dp_GainGBP d else s) 0 disposals;
          losses = foldl (\<lambda>s d. if dp_GainGBP d \<ge> 0 then s else s + - dp_GainGBP d) 0 disposals;
          pnl = foldl (\<lambda>s t. s - td_NotionalGBP t)
                  (foldl (\<lambda>s t. s + td_NotionalGBP t) 0 derivSells) derivBuys;
          fees = foldl (\<lambda>s t. s + td_FeesGBP t) 0 (derivSells @ derivBuys)
      in \<lparr>tr_TenantID = tenantID, tr_PeriodStart = start, tr_PeriodEnd = finish, tr_GBPUSDRate = gbpRate,
          tr_Trades = trades, tr_SpotDisposals = disposals, tr_TotalSpotGainsGBP = gains,
          tr_TotalSpotLossesGBP = losses, tr_NetSpotGainGBP = gains - losses,
          tr_DerivativePnLGBP = pnl, tr_DerivativeFeesGBP = fees, tr_NetDerivativeIncomeGBP = pnl - fees,
          tr_Pools = pools', tr_TotalTaxableGBP = (gains - losses) + (pnl - fees)\<rparr>)"

section \<open>The phases as one run of steps\<close>

text \<open>Every phase is a sequence of moves of quantity; a run of the matcher is one list of events.\<close>

datatype tax_event = SameDay nat nat | ThirtyDays nat nat | ToPool nat

fun tax_step :: "(go_time \<Rightarrow> int) \<Rightarrow> TradeRecord list \<Rightarrow> work \<Rightarrow> tax_event \<Rightarrow> work" where
  "tax_step day ts w (SameDay d j) = try_match ts (same_day day) ''same-day'' d w j"
| "tax_step day ts w (ThirtyDays d j) = try_match ts (within_30_days day) ''30-day'' d w j"
| "tax_step day ts w (ToPool i) = pool_step ts w i"

definition sells :: "TradeRecord list \<Rightarrow> nat list" where
  "sells ts = filter (\<lambda>i. td_Action (ts ! i) = ''SELL'') [0..<length ts]"

definition buys :: "TradeRecord list \<Rightarrow> nat list" where
  "buys ts = filter (\<lambda>i. td_Action (ts ! i) = ''BUY'') [0..<length ts]"

fun adm :: "TradeRecord list \<Rightarrow> tax_event \<Rightarrow> bool" where
  "adm ts (SameDay d j) \<longleftrightarrow> d \<in> set (sells ts) \<and> j < length ts"
| "adm ts (ThirtyDays d j) \<longleftrightarrow> d \<in> set (sells ts) \<and> j < length ts"
| "adm ts (ToPool i) \<longleftrightarrow> i < length ts"

lemma sells_buys [simp]:
  "distinct (sells ts)" "distinct (buys ts)"
  "i \<in> set (sells ts) \<longleftrightarrow> i < length ts \<and> td_Action (ts ! i) = ''SELL''"
  "i \<in> set (buys ts) \<longleftrightarrow> i < length ts \<and> td_Action (ts ! i) = ''BUY''"
  by (auto simp: sells_def buys_def)

text \<open>What every step keeps: lengths, indices, and that no quantity goes below zero.\<close>

definition wf_work :: "TradeRecord list \<Rightarrow> work \<Rightarrow> bool" where
  "wf_work ts w \<longleftrightarrow> length (wk_remaining w) = length ts \<and> (\<forall>i<length ts. 0 \<le> wk_remaining w ! i) \<and>
     0 \<le> s1_TotalQuantity (wk_pool w) \<and> map fst (wk_disposals w) = sells ts"

lemma wf_workD:
  "wf_work ts w \<Longrightarrow> length (wk_remaining w) = length ts"
  "wf_work ts w \<Longrightarrow> i < length ts \<Longrightarrow> 0 \<le> wk_remaining w ! i"
  "wf_work ts w \<Longrightarrow> 0 \<le> s1_TotalQuantity (wk_pool w)"
  "wf_work ts w \<Longrightarrow> map fst (wk_disposals w) = sells ts"
  by (auto simp: wf_work_def)

text \<open>The three moves a step can make.\<close>

definition to_disposal :: "nat \<Rightarrow> nat \<Rightarrow> matchResult \<Rightarrow> work \<Rightarrow> work" where
  "to_disposal d j m w = w\<lparr>wk_remaining := (wk_remaining w)[d := wk_remaining w ! d - mr_quantity m,
       j := wk_remaining w ! j - mr_quantity m], wk_disposals := add_match d m (wk_disposals w)\<rparr>"

definition into_pool :: "TradeRecord list \<Rightarrow> nat \<Rightarrow> work \<Rightarrow> work" where
  "into_pool ts i w = w\<lparr>wk_pool := (wk_pool w)\<lparr>
       s1_TotalQuantity := s1_TotalQuantity (wk_pool w) + wk_remaining w ! i,
       s1_TotalCostGBP := s1_TotalCostGBP (wk_pool w) + wk_remaining w ! i * acqCostPerUnit (ts ! i)\<rparr>,
       wk_remaining := (wk_remaining w)[i := 0]\<rparr>"

definition from_pool :: "nat \<Rightarrow> matchResult \<Rightarrow> work \<Rightarrow> work" where
  "from_pool i m w = w\<lparr>wk_disposals := add_match i m (wk_disposals w),
       wk_pool := (wk_pool w)\<lparr>s1_TotalQuantity := s1_TotalQuantity (wk_pool w) - mr_quantity m,
                            s1_TotalCostGBP := s1_TotalCostGBP (wk_pool w) - mr_costGBP m\<rparr>,
       wk_remaining := (wk_remaining w)[i := wk_remaining w ! i - mr_quantity m]\<rparr>"

lemma try_match_cases [consumes 1, case_names idle move]:
  assumes "td_Action (ts ! d) = ''SELL''"
    and "try_match ts el mt d w j = w \<Longrightarrow> P"
    and "\<And>m. try_match ts el mt d w j = to_disposal d j m w \<Longrightarrow> 0 < mr_quantity m \<Longrightarrow>
           mr_quantity m = min (wk_remaining w ! d) (wk_remaining w ! j) \<Longrightarrow> d \<noteq> j \<Longrightarrow>
           td_Action (ts ! j) = ''BUY'' \<Longrightarrow> el (ts ! d) (ts ! j) \<Longrightarrow> mr_matchType m = mt \<Longrightarrow>
           mr_matchID m = td_ID (ts ! j) \<Longrightarrow> mr_costGBP m = mr_quantity m * acqCostPerUnit (ts ! j) \<Longrightarrow> P"
  shows P
proof (cases "try_match ts el mt d w j = w")
  case True
  then show ?thesis by (rule assms(2))
next
  case False
  let ?m = "\<lparr>mr_quantity = minf (wk_remaining w ! d) (wk_remaining w ! j),
             mr_costGBP = minf (wk_remaining w ! d) (wk_remaining w ! j) * acqCostPerUnit (ts ! j),
             mr_matchType = mt, mr_matchID = td_ID (ts ! j)\<rparr>"
  have g: "0 < wk_remaining w ! d" "0 < wk_remaining w ! j" "td_Action (ts ! j) = ''BUY''" "el (ts ! d) (ts ! j)"
    using False by (auto simp: try_match_def not_le split: if_splits)
  with assms(1) have "d \<noteq> j" by auto
  with g show ?thesis
    by (intro assms(3) [of ?m]) (auto simp: try_match_def to_disposal_def Let_def minf_def)
qed

lemma pool_step_cases [case_names idle acquire draw]:
  assumes "pool_step ts w i = w \<Longrightarrow> wk_remaining w ! i \<le> 0 \<or> td_Action (ts ! i) \<noteq> ''BUY'' \<Longrightarrow> P"
    and "pool_step ts w i = into_pool ts i w \<Longrightarrow> td_Action (ts ! i) = ''BUY'' \<Longrightarrow> 0 < wk_remaining w ! i \<Longrightarrow> P"
    and "\<And>m. pool_step ts w i = from_pool i m w \<Longrightarrow> td_Action (ts ! i) = ''SELL'' \<Longrightarrow> 0 < mr_quantity m \<Longrightarrow>
           mr_quantity m = min (wk_remaining w ! i) (s1_TotalQuantity (wk_pool w)) \<Longrightarrow>
           mr_matchType m = ''section-104'' \<Longrightarrow> mr_matchID m = '''' \<Longrightarrow> P"
  shows P
proof -
  let ?p = "wk_pool w"
  let ?m = "\<lparr>mr_quantity = minf (wk_remaining w ! i) (s1_TotalQuantity ?p),
             mr_costGBP = minf (wk_remaining w ! i) (s1_TotalQuantity ?p) * CostPerUnit ?p,
             mr_matchType = ''section-104'', mr_matchID = ''''\<rparr>"
  consider (i) "wk_remaining w ! i \<le> 0 \<or> td_Action (ts ! i) \<notin> {''BUY'', ''SELL''} \<or>
      (td_Action (ts ! i) = ''SELL'' \<and> (i \<notin> set (map fst (wk_disposals w)) \<or> s1_TotalQuantity ?p \<le> 0))"
    | (b) "0 < wk_remaining w ! i" "td_Action (ts ! i) = ''BUY''"
    | (s) "0 < wk_remaining w ! i" "td_Action (ts ! i) = ''SELL''" "i \<in> set (map fst (wk_disposals w))"
      "0 < s1_TotalQuantity ?p"
    using not_le by blast
  then show ?thesis
  proof cases
    case i
    then show ?thesis by (intro assms(1)) (auto simp: pool_step_def)
  next
    case b
    then show ?thesis by (intro assms(2)) (simp_all add: pool_step_def into_pool_def Let_def)
  next
    case s
    then show ?thesis
      by (intro assms(3) [of ?m]) (auto simp: pool_step_def from_pool_def Let_def minf_def)
  qed
qed

section \<open>Conservation\<close>

definition held :: "real list \<Rightarrow> (nat \<Rightarrow> real) \<Rightarrow> nat list \<Rightarrow> real" where
  "held r c is = (\<Sum>k\<leftarrow>is. r ! k * c k)"

lemma held_update:
  assumes "distinct is" "i < length r"
  shows "held (r[i := x]) c is = held r c is + (if i \<in> set is then (x - r ! i) * c i else 0)"
  using assms by (induction "is") (auto simp: held_def nth_list_update algebra_simps)

lemma add_match_fst [simp]: "map fst (add_match d m ds) = map fst ds"
  by (simp add: add_match_def case_prod_unfold if_distrib cong: if_cong)

definition taken :: "(matchResult \<Rightarrow> real) \<Rightarrow> (nat \<times> matchResult list) list \<Rightarrow> real" where
  "taken f ds = (\<Sum>dw\<leftarrow>ds. sum_list (map f (snd dw)))"

lemma add_match_idle: "d \<notin> fst ` set ds \<Longrightarrow> add_match d m ds = ds"
  by (induction ds) (auto simp: add_match_def)

lemma add_match_Cons:
  "add_match d m ((i, ms) # ds) = (i, if i = d then ms @ [m] else ms) # add_match d m ds"
  by (simp add: add_match_def)

lemma taken_add_match:
  "distinct (map fst ds) \<Longrightarrow>
     taken f (add_match d m ds) = taken f ds + (if d \<in> set (map fst ds) then f m else 0)"
proof (induction ds)
  case Nil
  show ?case by (simp add: add_match_def)
next
  case (Cons dw ds)
  then show ?case
    by (cases dw) (auto simp: taken_def add_match_Cons add_match_idle)
qed

text \<open>
  The amounts: per disposal, what is left plus what is matched; and, weighing acquisitions by
  1 or by their cost, what acquisitions still hold plus the pool plus what was matched.
\<close>

definition sold :: "work \<Rightarrow> real list" where
  "sold w = map (\<lambda>dw. wk_remaining w ! fst dw + sum_list (map mr_quantity (snd dw))) (wk_disposals w)"

definition acquired :: "TradeRecord list \<Rightarrow> work \<Rightarrow> real" where
  "acquired ts w = held (wk_remaining w) (\<lambda>k. 1) (buys ts) + s1_TotalQuantity (wk_pool w) +
     taken mr_quantity (wk_disposals w)"

definition cost :: "TradeRecord list \<Rightarrow> work \<Rightarrow> real" where
  "cost ts w = held (wk_remaining w) (\<lambda>k. acqCostPerUnit (ts ! k)) (buys ts) + s1_TotalCostGBP (wk_pool w) +
     taken mr_costGBP (wk_disposals w)"

definition amounts :: "TradeRecord list \<Rightarrow> work \<Rightarrow> real list \<times> real \<times> real" where
  "amounts ts w = (sold w, acquired ts w, cost ts w)"

lemma sold_move:
  assumes "distinct (map fst ds)" "d \<in> set (map fst ds)" "j \<notin> set (map fst ds)"
    "\<forall>i\<in>set (map fst ds). i < length r" "r' = r[d := r ! d - q] \<or> r' = r[d := r ! d - q, j := y]" "mr_quantity m = q"
  shows "map (\<lambda>dw. r' ! fst dw + sum_list (map mr_quantity (snd dw))) (add_match d m ds) =
         map (\<lambda>dw. r ! fst dw + sum_list (map mr_quantity (snd dw))) ds"
proof -
  have r': "r' ! i = (if i = d then r ! d - q else r ! i)" if "i \<in> set (map fst ds)" for i
  proof -
    have "i < length r" "d < length r" "i \<noteq> j" "d \<noteq> j" using assms that by auto
    then show ?thesis using assms(5) by auto
  qed
  have "r' ! fst (f dw) + sum_list (map mr_quantity (snd (f dw))) =
      r ! fst dw + sum_list (map mr_quantity (snd dw))"
    if "dw \<in> set ds" "f = (\<lambda>(i, ms). if i = d then (i, ms @ [m]) else (i, ms))" for dw f
  proof -
    obtain i ms where dw: "dw = (i, ms)" by (cases dw)
    with that have "i \<in> set (map fst ds)" by force
    with r' [of i] dw that(2) assms(6) show ?thesis by (cases "i = d") simp_all
  qed
  then show ?thesis by (simp add: add_match_def)
qed

lemma to_disposal_ok:
  assumes "wf_work ts w" "d \<in> set (sells ts)" "j \<in> set (buys ts)" "d \<noteq> j"
    "mr_quantity m = min (wk_remaining w ! d) (wk_remaining w ! j)"
    "mr_costGBP m = mr_quantity m * acqCostPerUnit (ts ! j)"
  shows "wf_work ts (to_disposal d j m w) \<and> amounts ts (to_disposal d j m w) = amounts ts w"
proof -
  note w = wf_workD [OF assms(1)]
  have dj: "d \<notin> set (buys ts)" "j \<notin> set (sells ts)" "d < length ts" "j < length ts"
    using assms by auto
  have fin: "distinct (map fst (wk_disposals w))" using w(4) by simp
  have "wf_work ts (to_disposal d j m w)"
    using assms w dj by (auto simp: wf_work_def to_disposal_def nth_list_update)
  moreover have "sold (to_disposal d j m w) = sold w"
    using sold_move [OF fin, of d j "wk_remaining w" _ "mr_quantity m" "wk_remaining w ! j - mr_quantity m" m]
      assms(2,3) dj w by (simp add: sold_def to_disposal_def del: set_map)
  moreover have "acquired ts (to_disposal d j m w) = acquired ts w" "cost ts (to_disposal d j m w) = cost ts w"
    using assms dj w fin
    by (simp_all add: acquired_def cost_def to_disposal_def held_update taken_add_match
          nth_list_update algebra_simps)
  ultimately show ?thesis by (simp add: amounts_def)
qed

lemma into_pool_ok:
  assumes "wf_work ts w" "i \<in> set (buys ts)" "0 < wk_remaining w ! i"
  shows "wf_work ts (into_pool ts i w) \<and> amounts ts (into_pool ts i w) = amounts ts w"
proof -
  note w = wf_workD [OF assms(1)]
  have "fst ` set (wk_disposals w) = set (sells ts)" by (metis w(4) list.set_map)
  then have "i \<notin> fst ` set (wk_disposals w)" "\<forall>k\<in>fst ` set (wk_disposals w). k \<noteq> i" using assms(2) by auto
  then have "sold (into_pool ts i w) = sold w"
    by (auto simp: sold_def into_pool_def nth_list_update)
  moreover have "wf_work ts (into_pool ts i w)"
    using assms w by (auto simp: wf_work_def into_pool_def nth_list_update)
  moreover have "acquired ts (into_pool ts i w) = acquired ts w" "cost ts (into_pool ts i w) = cost ts w"
    using assms w by (simp_all add: acquired_def cost_def into_pool_def held_update algebra_simps)
  ultimately show ?thesis by (simp add: amounts_def)
qed

lemma from_pool_ok:
  assumes "wf_work ts w" "i \<in> set (sells ts)"
    "mr_quantity m = min (wk_remaining w ! i) (s1_TotalQuantity (wk_pool w))"
  shows "wf_work ts (from_pool i m w) \<and> amounts ts (from_pool i m w) = amounts ts w"
proof -
  note w = wf_workD [OF assms(1)]
  have i: "i \<notin> set (buys ts)" "i < length ts" using assms(2) by auto
  have fin: "distinct (map fst (wk_disposals w))" using w(4) by simp
  have "wf_work ts (from_pool i m w)"
    using assms w i by (auto simp: wf_work_def from_pool_def nth_list_update)
  moreover have "sold (from_pool i m w) = sold w"
    using sold_move [OF fin, of i "length ts" "wk_remaining w" _ "mr_quantity m" 0 m]
      assms(2) i w by (simp add: sold_def from_pool_def del: set_map)
  moreover have "acquired ts (from_pool i m w) = acquired ts w" "cost ts (from_pool i m w) = cost ts w"
    using assms i w fin
    by (simp_all add: acquired_def cost_def from_pool_def held_update taken_add_match)
  ultimately show ?thesis by (simp add: amounts_def)
qed

lemma try_match_ok:
  assumes "wf_work ts w" "d \<in> set (sells ts)" "j < length ts"
  shows "wf_work ts (try_match ts el mt d w j) \<and> amounts ts (try_match ts el mt d w j) = amounts ts w"
proof -
  have "td_Action (ts ! d) = ''SELL''" using assms(2) by simp
  then show ?thesis
  proof (cases rule: try_match_cases [where el = el and mt = mt and w = w and j = j])
    case idle
    with assms(1) show ?thesis by simp
  next
    case (move m)
    then show ?thesis using to_disposal_ok [OF assms(1,2), of j m] assms(3) by simp
  qed
qed

lemma pool_step_ok:
  assumes "wf_work ts w" "i < length ts"
  shows "wf_work ts (pool_step ts w i) \<and> amounts ts (pool_step ts w i) = amounts ts w"
proof (cases rule: pool_step_cases [where ts = ts and w = w and i = i])
  case idle
  with assms show ?thesis by simp
next
  case acquire
  then show ?thesis using into_pool_ok [OF assms(1), of i] assms(2) by simp
next
  case (draw m)
  then show ?thesis using from_pool_ok [OF assms(1), of i m] assms(2) by simp
qed

interpretation tax_flow: conservation "tax_step day ts" "adm ts" "wf_work ts" "amounts ts"
  for day ts
proof
  fix e w
  assume "adm ts e" "wf_work ts w"
  then have "wf_work ts (tax_step day ts w e) \<and> amounts ts (tax_step day ts w e) = amounts ts w"
    by (cases e) (simp_all add: try_match_ok pool_step_ok)
  then show "wf_work ts (tax_step day ts w e)" "amounts ts (tax_step day ts w e) = amounts ts w" by auto
qed

section \<open>The run of the matcher\<close>

definition match_events :: "(nat \<Rightarrow> nat \<Rightarrow> tax_event) \<Rightarrow> TradeRecord list \<Rightarrow> tax_event list" where
  "match_events ev ts = concat (map (\<lambda>d. map (ev d) [0..<length ts]) (sells ts))"

lemma match_events_iff: "e \<in> set (match_events ev ts) \<longleftrightarrow> (\<exists>d\<in>set (sells ts). \<exists>j<length ts. e = ev d j)"
  by (fastforce simp: match_events_def image_iff simp del: sells_buys)

lemma foldl_concat_map:
  "foldl f w (concat (map (\<lambda>d. map (g d) is) ds)) = foldl (\<lambda>w d. foldl (\<lambda>w j. f w (g d j)) w is) w ds"
  by (induction ds arbitrary: w) (simp_all add: foldl_map)

lemma match_phase_run:
  assumes "map fst (wk_disposals w) = sells ts"
  shows "match_phase ts (same_day day) ''same-day'' w = foldl (tax_step day ts) w (match_events SameDay ts)"
    "match_phase ts (within_30_days day) ''30-day'' w = foldl (tax_step day ts) w (match_events ThirtyDays ts)"
  by (simp_all add: match_phase_def match_events_def assms foldl_concat_map)

lemma phase_adm:
  "\<forall>e\<in>set (match_events SameDay ts). adm ts e" "\<forall>e\<in>set (match_events ThirtyDays ts). adm ts e"
  "\<forall>e\<in>set (map ToPool [0..<length ts]). adm ts e"
  by (auto simp: match_events_iff simp del: sells_buys)

definition schedule :: "TradeRecord list \<Rightarrow> tax_event list" where
  "schedule ts = match_events SameDay ts @ match_events ThirtyDays ts @ map ToPool [0..<length ts]"

lemma run_phases_run:
  assumes "wf_work ts w"
  shows "run_phases day ts w = foldl (tax_step day ts) w (schedule ts)"
proof -
  let ?w1 = "foldl (tax_step day ts) w (match_events SameDay ts)"
  have "wf_work ts ?w1" using tax_flow.run_conserves [OF phase_adm(1) assms] by blast
  then show ?thesis
    by (simp add: run_phases_def schedule_def match_phase_run wf_workD(4) assms foldl_map)
qed

lemma init_work_wf:
  "\<forall>t\<in>set ts. 0 \<le> td_Quantity t \<Longrightarrow> 0 \<le> s1_TotalQuantity pool \<Longrightarrow> wf_work ts (init_work ts pool)"
  by (auto simp: wf_work_def init_work_def sells_def comp_def)

lemma run_phases_ok:
  assumes "wf_work ts w"
  shows "wf_work ts (run_phases day ts w)" "amounts ts (run_phases day ts w) = amounts ts w"
proof -
  have "\<forall>e\<in>set (schedule ts). adm ts e" using phase_adm by (auto simp: schedule_def)
  from tax_flow.run_conserves [OF this assms]
  show "wf_work ts (run_phases day ts w)" "amounts ts (run_phases day ts w) = amounts ts w"
    by (auto simp: run_phases_run assms)
qed

text \<open>The last phase leaves no acquisition outside the pool.\<close>

lemma pool_step_frame:
  "wf_work ts w \<Longrightarrow> i < length ts \<Longrightarrow> k \<noteq> i \<Longrightarrow> wk_remaining (pool_step ts w i) ! k = wk_remaining w ! k"
  by (cases rule: pool_step_cases [where ts = ts and w = w and i = i])
     (auto simp: into_pool_def from_pool_def)

lemma pool_step_clears:
  "wf_work ts w \<Longrightarrow> i \<in> set (buys ts) \<Longrightarrow> wk_remaining (pool_step ts w i) ! i = 0"
  using wf_workD(1,2) [of ts w]
  by (cases rule: pool_step_cases [where ts = ts and w = w and i = i])
     (auto simp: into_pool_def intro: antisym)

lemma pool_phase_clears:
  assumes "wf_work ts w" "n \<le> length ts"
  shows "wf_work ts (foldl (pool_step ts) w [0..<n]) \<and>
    (\<forall>k<n. k \<in> set (buys ts) \<longrightarrow> wk_remaining (foldl (pool_step ts) w [0..<n]) ! k = 0)"
  using assms(2)
proof (induction n)
  case 0
  show ?case using assms(1) by simp
next
  case (Suc n)
  let ?w = "foldl (pool_step ts) w [0..<n]"
  have IH: "wf_work ts ?w" "\<forall>k<n. k \<in> set (buys ts) \<longrightarrow> wk_remaining ?w ! k = 0" "n < length ts"
    using Suc by auto
  have "wk_remaining (pool_step ts ?w n) ! k = 0" if "k < Suc n" "k \<in> set (buys ts)" for k
    using IH that by (cases "k = n") (simp_all add: pool_step_clears pool_step_frame del: sells_buys)
  then show ?case using pool_step_ok [OF IH(1,3)] by (simp del: sells_buys)
qed

lemma run_phases_clears:
  assumes "wf_work ts w" "k \<in> set (buys ts)"
  shows "wk_remaining (run_phases day ts w) ! k = 0"
proof -
  let ?w2 = "foldl (tax_step day ts) w (match_events SameDay ts @ match_events ThirtyDays ts)"
  have "\<forall>e\<in>set (match_events SameDay ts @ match_events ThirtyDays ts). adm ts e" using phase_adm by auto
  then have "wf_work ts ?w2" using tax_flow.run_conserves assms(1) by blast
  from pool_phase_clears [OF this, of "length ts"] assms show ?thesis
    by (simp add: run_phases_run schedule_def foldl_map)
qed

section \<open>Which acquisition a disposal may use\<close>

text \<open>A match names its rule, and an acquisition that satisfies it.\<close>

definition legal_match :: "(go_time \<Rightarrow> int) \<Rightarrow> TradeRecord list \<Rightarrow> nat \<Rightarrow> matchResult \<Rightarrow> bool" where
  "legal_match day ts d m \<longleftrightarrow> 0 < mr_quantity m \<and>
     (mr_matchType m = ''section-104'' \<and> mr_matchID m = '''' \<or>
      (\<exists>j\<in>set (buys ts). mr_matchID m = td_ID (ts ! j) \<and>
         mr_costGBP m = mr_quantity m * acqCostPerUnit (ts ! j) \<and>
         (mr_matchType m = ''same-day'' \<and> day (td_Timestamp (ts ! j)) = day (td_Timestamp (ts ! d)) \<or>
          mr_matchType m = ''30-day'' \<and> day (td_Timestamp (ts ! j)) \<in>
            {day (td_Timestamp (ts ! d)) + 1 .. day (td_Timestamp (ts ! d)) + 30})))"

definition legal_work :: "(go_time \<Rightarrow> int) \<Rightarrow> TradeRecord list \<Rightarrow> work \<Rightarrow> bool" where
  "legal_work day ts w \<longleftrightarrow> (\<forall>(d, ms)\<in>set (wk_disposals w). \<forall>m\<in>set ms. legal_match day ts d m)"

lemma legal_add_match:
  assumes "\<forall>(d, ms)\<in>set ds. \<forall>m\<in>set ms. legal_match day ts d m" "legal_match day ts d m"
  shows "\<forall>(d, ms)\<in>set (add_match d m ds). \<forall>m\<in>set ms. legal_match day ts d m"
  using assms by (fastforce simp: add_match_def split: if_splits)

lemma legal_try_match:
  assumes "legal_work day ts w" "d \<in> set (sells ts)" "j < length ts"
  shows "legal_work day ts (try_match ts (same_day day) ''same-day'' d w j)"
    "legal_work day ts (try_match ts (within_30_days day) ''30-day'' d w j)"
proof -
  have s: "td_Action (ts ! d) = ''SELL''" using assms(2) by simp
  show "legal_work day ts (try_match ts (same_day day) ''same-day'' d w j)"
    using s
  proof (cases rule: try_match_cases [where el = "same_day day" and mt = "''same-day''" and w = w and j = j])
    case idle
    with assms(1) show ?thesis by simp
  next
    case (move m)
    then have "legal_match day ts d m" using assms(3) by (auto simp: legal_match_def same_day_def)
    with move assms(1) show ?thesis by (simp add: legal_work_def to_disposal_def legal_add_match)
  qed
  show "legal_work day ts (try_match ts (within_30_days day) ''30-day'' d w j)"
    using s
  proof (cases rule: try_match_cases [where el = "within_30_days day" and mt = "''30-day''" and w = w and j = j])
    case idle
    with assms(1) show ?thesis by simp
  next
    case (move m)
    then have "legal_match day ts d m" using assms(3) by (auto simp: legal_match_def within_30_days_def)
    with move assms(1) show ?thesis by (simp add: legal_work_def to_disposal_def legal_add_match)
  qed
qed

lemma legal_pool_step: "legal_work day ts w \<Longrightarrow> legal_work day ts (pool_step ts w i)"
proof (cases rule: pool_step_cases [where ts = ts and w = w and i = i])
  case (draw m)
  assume "legal_work day ts w"
  moreover have "legal_match day ts i m" using draw by (simp add: legal_match_def)
  ultimately show ?thesis using draw by (simp add: legal_work_def from_pool_def legal_add_match)
qed (simp_all add: legal_work_def into_pool_def)

interpretation tax_rules: invariant_machine "tax_step day ts" "adm ts" "legal_work day ts"
  for day ts
proof
  fix w e
  assume "legal_work day ts w" "adm ts e"
  then show "legal_work day ts (tax_step day ts w e)"
    by (cases e) (simp_all add: legal_try_match legal_pool_step del: sells_buys)
qed

lemma run_phases_legal:
  assumes "wf_work ts w" "legal_work day ts w"
  shows "legal_work day ts (run_phases day ts w)"
  unfolding run_phases_run [OF assms(1)]
  by (rule tax_rules.run_inv [OF assms(2)]) (use phase_adm in \<open>auto simp: schedule_def\<close>)

section \<open>Phases exhaust what their rule allows\<close>

lemma foldl_establish:
  assumes "e \<in> set es" "I w" "\<And>w e. I w \<Longrightarrow> e \<in> set es \<Longrightarrow> I (f w e)"
    and "\<And>w. I w \<Longrightarrow> Z (f w e)" "\<And>w e. I w \<Longrightarrow> e \<in> set es \<Longrightarrow> Z w \<Longrightarrow> Z (f w e)"
  shows "Z (foldl f w es)"
proof -
  have keep: "I w \<Longrightarrow> Z w \<Longrightarrow> set xs \<subseteq> set es \<Longrightarrow> Z (foldl f w xs)" for w xs
    using assms(3,5) by (induction xs arbitrary: w) auto
  have "I w \<Longrightarrow> e \<in> set xs \<Longrightarrow> set xs \<subseteq> set es \<Longrightarrow> Z (foldl f w xs)" for w xs
  proof (induction xs arbitrary: w)
    case (Cons x xs)
    then show ?case
      using keep [of "f w x" xs] assms(3,4) by (cases "e = x") auto
  qed simp
  with assms(1,2) show ?thesis by blast
qed

lemma try_match_decreases:
  assumes "wf_work ts w" "d \<in> set (sells ts)" "j < length ts" "k < length ts"
  shows "wk_remaining (try_match ts el mt d w j) ! k \<le> wk_remaining w ! k"
proof -
  have s: "td_Action (ts ! d) = ''SELL''" "d < length ts" using assms(2) by auto
  show ?thesis
    using s(1)
  proof (cases rule: try_match_cases [where el = el and mt = mt and w = w and j = j])
    case (move m)
    with assms s wf_workD(1) [OF assms(1)] show ?thesis
      by (auto simp: to_disposal_def nth_list_update)
  qed simp
qed

definition exhausted :: "nat \<Rightarrow> nat \<Rightarrow> work \<Rightarrow> bool" where
  "exhausted d j w \<longleftrightarrow> wk_remaining w ! d = 0 \<or> wk_remaining w ! j = 0"

lemma exhausted_mono:
  assumes "wf_work ts w" "d' \<in> set (sells ts)" "j' < length ts" "exhausted d j w" "d < length ts" "j < length ts"
  shows "exhausted d j (try_match ts el mt d' w j')"
  using try_match_decreases [OF assms(1,2,3), of _ el mt] assms(4-)
    wf_workD(2) [OF conjunct1 [OF try_match_ok [OF assms(1,2,3), of el mt]]]
  unfolding exhausted_def by (metis antisym)

lemma exhausted_establish:
  assumes "wf_work ts w" "d \<in> set (sells ts)" "j \<in> set (buys ts)" "el (ts ! d) (ts ! j)"
  shows "exhausted d j (try_match ts el mt d w j)"
proof -
  have s: "td_Action (ts ! d) = ''SELL''" "d < length ts" "j < length ts" "td_Action (ts ! j) = ''BUY''"
    using assms by auto
  note w = wf_workD [OF assms(1)]
  show ?thesis
    using s(1)
  proof (cases rule: try_match_cases [where el = el and mt = mt and w = w and j = j])
    case idle
    have "wk_remaining w ! d \<le> 0 \<or> wk_remaining w ! j \<le> 0"
    proof (rule ccontr)
      assume pos: "\<not> ?thesis"
      have "length (wk_remaining w) = length ts" by (rule w)
      then have "wk_remaining (try_match ts el mt d w j) ! d \<noteq> wk_remaining w ! d"
        using pos s assms(4) by (auto simp: try_match_def Let_def minf_def nth_list_update)
      with idle show False by simp
    qed
    with w(2) s show ?thesis unfolding idle exhausted_def by (meson antisym)
  next
    case (move m)
    then show ?thesis
      using s w(1) by (auto simp: exhausted_def to_disposal_def nth_list_update)
  qed
qed

lemma phase_exhausts:
  assumes "wf_work ts w" "d \<in> set (sells ts)" "j \<in> set (buys ts)"
  shows "same_day day (ts ! d) (ts ! j) \<Longrightarrow>
           exhausted d j (foldl (tax_step day ts) w (match_events SameDay ts))"
    and "within_30_days day (ts ! d) (ts ! j) \<Longrightarrow>
           exhausted d j (foldl (tax_step day ts) w (match_events ThirtyDays ts))"
    and "exhausted d j w \<Longrightarrow> exhausted d j (foldl (tax_step day ts) w (match_events ThirtyDays ts))"
proof -
  have bounds: "d < length ts" "j < length ts" using assms by auto
  have inv: "wf_work ts (tax_step day ts w e)" if "wf_work ts w" "adm ts e" for w e
    using that tax_flow.step_ok by blast
  have keep1: "exhausted d j (tax_step day ts w e)"
    if "wf_work ts w" "e \<in> set (match_events SameDay ts)" "exhausted d j w" for w e
    using that(2) unfolding match_events_iff
    by (elim bexE exE conjE) (simp only: tax_step.simps exhausted_mono that bounds)
  have keep2: "exhausted d j (tax_step day ts w e)"
    if "wf_work ts w" "e \<in> set (match_events ThirtyDays ts)" "exhausted d j w" for w e
    using that(2) unfolding match_events_iff
    by (elim bexE exE conjE) (simp only: tax_step.simps exhausted_mono that bounds)
  show "exhausted d j (foldl (tax_step day ts) w (match_events SameDay ts))" if "same_day day (ts ! d) (ts ! j)"
  proof (rule foldl_establish [where e = "SameDay d j" and I = "wf_work ts"])
    show "SameDay d j \<in> set (match_events SameDay ts)"
      unfolding match_events_iff using assms(2) bounds(2) by blast
    show "exhausted d j (tax_step day ts w (SameDay d j))" if "wf_work ts w" for w
      using exhausted_establish [OF that assms(2,3)] \<open>same_day day (ts ! d) (ts ! j)\<close> by simp
  qed (use assms(1) inv keep1 phase_adm(1) [of ts] in blast)+
  show "exhausted d j (foldl (tax_step day ts) w (match_events ThirtyDays ts))" if "within_30_days day (ts ! d) (ts ! j)"
  proof (rule foldl_establish [where e = "ThirtyDays d j" and I = "wf_work ts"])
    show "ThirtyDays d j \<in> set (match_events ThirtyDays ts)"
      unfolding match_events_iff using assms(2) bounds(2) by blast
    show "exhausted d j (tax_step day ts w (ThirtyDays d j))" if "wf_work ts w" for w
      using exhausted_establish [OF that assms(2,3)] \<open>within_30_days day (ts ! d) (ts ! j)\<close> by simp
  qed (use assms(1) inv keep2 phase_adm(2) [of ts] in blast)+
  show "exhausted d j (foldl (tax_step day ts) w (match_events ThirtyDays ts))" if "exhausted d j w"
  proof -
    have "set xs \<subseteq> set (match_events ThirtyDays ts) \<Longrightarrow> wf_work ts w \<Longrightarrow> exhausted d j w \<Longrightarrow>
        exhausted d j (foldl (tax_step day ts) w xs)" for xs w
    proof (induction xs arbitrary: w)
      case (Cons x xs)
      then have x: "x \<in> set (match_events ThirtyDays ts)" "adm ts x" using phase_adm(2) [of ts] by auto
      show ?case
        using Cons keep2 [OF Cons.prems(2) x(1) Cons.prems(3)] inv [OF Cons.prems(2) x(2)] by simp
    qed simp
    with assms(1) that show ?thesis by blast
  qed
qed

section \<open>Results\<close>

lemma held_map:
  "held (map q ts) (\<lambda>k. g (ts ! k)) (buys ts) = (\<Sum>t\<leftarrow>filter (\<lambda>t. td_Action t = ''BUY'') ts. q t * g t)"
proof -
  have "filter (\<lambda>t. td_Action t = ''BUY'') ts = map (nth ts) (buys ts)"
    using filter_map [of "\<lambda>t. td_Action t = ''BUY''" "nth ts" "[0..<length ts]"]
    by (simp add: map_nth buys_def comp_def)
  moreover have "held (map q ts) (\<lambda>k. g (ts ! k)) (buys ts) = (\<Sum>k\<leftarrow>buys ts. q (ts ! k) * g (ts ! k))"
    unfolding held_def by (intro arg_cong [where f = sum_list] map_cong) auto
  ultimately show ?thesis by (simp add: comp_def)
qed

lemma held_zero: "\<forall>k\<in>set is. r ! k = 0 \<Longrightarrow> held r c is = 0"
  by (induction "is") (simp_all add: held_def)

lemma taken_init: "taken f (wk_disposals (init_work ts pool)) = 0"
  by (simp add: taken_def init_work_def comp_def case_prod_unfold)

definition buy_sum :: "(TradeRecord \<Rightarrow> real) \<Rightarrow> TradeRecord list \<Rightarrow> real" where
  "buy_sum f ts = (\<Sum>t\<leftarrow>filter (\<lambda>t. td_Action t = ''BUY'') ts. f t)"

lemma buy_sum_mset: "mset ts = mset us \<Longrightarrow> buy_sum f ts = buy_sum f us"
  unfolding buy_sum_def by (rule sum_list_mset_cong) (simp add: mset_filter)

text \<open>The expenditure on an acquisition: its price and its fees.\<close>

definition expenditure :: "TradeRecord \<Rightarrow> real" where
  "expenditure t = td_Quantity t * acqCostPerUnit t"

lemma expenditure_pos: "0 < td_Quantity t \<Longrightarrow> expenditure t = td_NotionalGBP t + td_FeesGBP t"
  by (simp add: expenditure_def acqCostPerUnit_def)

lemma phases_totals:
  fixes day :: "go_time \<Rightarrow> int"
  assumes "\<forall>t\<in>set ts. 0 \<le> td_Quantity t" "0 \<le> s1_TotalQuantity pool"
  defines "w \<equiv> run_phases day ts (init_work ts pool)"
  shows "taken mr_quantity (wk_disposals w) + s1_TotalQuantity (wk_pool w) =
           buy_sum td_Quantity ts + s1_TotalQuantity pool"
    and "taken mr_costGBP (wk_disposals w) + s1_TotalCostGBP (wk_pool w) =
           buy_sum expenditure ts + s1_TotalCostGBP pool"
proof -
  note init = init_work_wf [OF assms(1,2)]
  have z: "\<forall>k\<in>set (buys ts). wk_remaining w ! k = 0"
    unfolding w_def using run_phases_clears [OF init] by blast
  have "amounts ts w = amounts ts (init_work ts pool)" unfolding w_def by (rule run_phases_ok [OF init])
  then have "acquired ts w = acquired ts (init_work ts pool)" "cost ts w = cost ts (init_work ts pool)"
    by (simp_all add: amounts_def)
  then show "taken mr_quantity (wk_disposals w) + s1_TotalQuantity (wk_pool w) =
           buy_sum td_Quantity ts + s1_TotalQuantity pool"
    and "taken mr_costGBP (wk_disposals w) + s1_TotalCostGBP (wk_pool w) =
           buy_sum expenditure ts + s1_TotalCostGBP pool"
    using held_zero [OF z] held_map [of td_Quantity ts "\<lambda>t. 1"] held_map [of td_Quantity ts acqCostPerUnit]
    by (simp_all add: acquired_def cost_def taken_init buy_sum_def expenditure_def) (simp_all add: init_work_def)
qed

lemma taken_disposals:
  "sum_list (map dp_Quantity (map (disposal_of ts) ds)) = taken mr_quantity ds"
  "sum_list (map dp_CostGBP (map (disposal_of ts) ds)) = taken mr_costGBP ds"
  by (simp_all add: taken_def disposal_of_def Let_def comp_def)

text \<open>What one row of the result says of its trade.\<close>

definition row_ok :: "TradeRecord \<Rightarrow> Disposal \<Rightarrow> bool" where
  "row_ok t d \<longleftrightarrow> dp_Date d = td_Timestamp t \<and> dp_Symbol d = td_Symbol t \<and>
     0 \<le> dp_Quantity d \<and> dp_Quantity d \<le> td_Quantity t \<and> dp_GainGBP d = dp_ProceedsGBP d - dp_CostGBP d \<and>
     dp_MatchType d \<in> {''unmatched'', ''same-day'', ''30-day'', ''section-104''} \<and>
     (dp_MatchType d = ''unmatched'' \<longleftrightarrow> dp_Quantity d = 0)"

lemma primary_match:
  assumes "\<forall>m\<in>set ms. mr_matchType m \<noteq> ''unmatched''"
  shows "foldl (\<lambda>acc mr. if acc = ''unmatched'' then mr_matchType mr else acc) ''unmatched'' ms =
    (case ms of [] \<Rightarrow> ''unmatched'' | m # _ \<Rightarrow> mr_matchType m)"
proof -
  have "acc \<noteq> ''unmatched'' \<Longrightarrow>
      foldl (\<lambda>acc mr. if acc = ''unmatched'' then mr_matchType mr else acc) acc ms = acc" for acc ms
    by (induction ms) auto
  with assms show ?thesis by (cases ms) auto
qed

lemma row_ok_disposal:
  assumes "wf_work ts w" "legal_work day ts w" "sold w = map (\<lambda>i. td_Quantity (ts ! i)) (sells ts)"
    "k < length (sells ts)"
  shows "row_ok (ts ! (sells ts ! k)) (disposal_of ts (wk_disposals w ! k))"
proof -
  have fsts: "map fst (wk_disposals w) = sells ts" by (rule wf_workD(4) [OF assms(1)])
  have len: "length (wk_disposals w) = length (sells ts)" by (metis fsts length_map)
  obtain ms where dw: "wk_disposals w ! k = (sells ts ! k, ms)"
    using fsts len assms(4) by (metis eq_fst_iff nth_map)
  have legal: "\<forall>m\<in>set ms. legal_match day ts (sells ts ! k) m"
    using assms(2,4) len nth_mem [of k "wk_disposals w"] dw by (auto simp: legal_work_def)
  then have pos: "\<forall>m\<in>set ms. 0 < mr_quantity m" by (simp add: legal_match_def)
  have lab: "\<forall>m\<in>set ms. mr_matchType m \<in> {''same-day'', ''30-day'', ''section-104''}"
    using legal by (auto simp: legal_match_def)
  have "sells ts ! k \<in> set (sells ts)" using assms(4) by (rule nth_mem)
  then have "0 \<le> wk_remaining w ! (sells ts ! k)" using wf_workD(2) [OF assms(1)] by simp
  moreover have "sold w ! k = wk_remaining w ! (sells ts ! k) + sum_list (map mr_quantity ms)"
    using dw len assms(4) by (simp add: sold_def)
  then have "wk_remaining w ! (sells ts ! k) + sum_list (map mr_quantity ms) = td_Quantity (ts ! (sells ts ! k))"
    using assms(3,4) by simp
  moreover have nn: "0 \<le> sum_list (map mr_quantity ms)"
    using pos by (intro sum_list_map_nonneg) auto
  moreover have "sum_list (map mr_quantity ms) = 0 \<longleftrightarrow> ms = []"
    using pos sum_list_map_zero_iff [of ms mr_quantity] by (cases ms) force+
  moreover have "\<forall>m\<in>set ms. mr_matchType m \<noteq> ''unmatched''" using lab by auto
  note pm = primary_match [OF this]
  ultimately show ?thesis
    using lab unfolding row_ok_def disposal_of_def Let_def dw snd_conv fst_conv
    by (simp add: pm split: list.splits) auto
qed

section \<open>Properties\<close>

text \<open>
  C10.  Matching neither creates nor loses shares or cost, for any chronological order, any
  calendar and any opening pool: the quantities of the disposals and of the closing pool add up
  to the quantities bought and the opening pool, the costs to the expenditure on the purchases
  (price and fees) and the cost of the opening pool.
\<close>

theorem matching_conserves_quantity_and_cost:
  assumes "is_chrono chrono" "\<forall>t\<in>set trades. 0 \<le> td_Quantity t" "0 \<le> s1_TotalQuantity pool"
    and "MatchSpotTrades chrono day trades (Some pool) = (ds, pool')"
  shows "sum_list (map dp_Quantity ds) + s1_TotalQuantity pool' =
           buy_sum td_Quantity trades + s1_TotalQuantity pool \<and>
         sum_list (map dp_CostGBP ds) + s1_TotalCostGBP pool' =
           buy_sum expenditure trades + s1_TotalCostGBP pool"
proof -
  have m: "mset (chrono trades) = mset trades" using assms(1) by (simp add: is_chrono_def)
  have nn: "\<forall>t\<in>set (chrono trades). 0 \<le> td_Quantity t" using assms(2) mset_eq_setD [OF m] by simp
  note tot = phases_totals [OF nn assms(3), of day]
  note bs = buy_sum_mset [OF m, of td_Quantity] buy_sum_mset [OF m, of expenditure]
  show ?thesis
    using assms(4) tot bs taken_disposals
    by (auto simp: MatchSpotTrades_def Let_def buy_sum_def split: if_splits)
qed

definition sample_trade :: "string \<Rightarrow> int \<Rightarrow> string \<Rightarrow> real \<Rightarrow> real \<Rightarrow> TradeRecord" where
  "sample_trade i t action qty notional =
     \<lparr>td_ID = i, td_IntentID = '''', td_Timestamp = t * day_ns, td_Symbol = ''BTC'', td_Action = action,
      td_Venue = ''binance'', td_Market = ''SPOT'', td_Strategy = ''arb'', td_Quantity = qty,
      td_PriceUSD = 1, td_NotionalUSD = notional, td_FeesUSD = 0, td_PriceGBP = 1,
      td_NotionalGBP = notional, td_FeesGBP = 0\<rparr>"

definition sample_pool :: Section104Pool where
  "sample_pool = \<lparr>s1_Symbol = ''BTC'', s1_TotalQuantity = 1, s1_TotalCostGBP = 10\<rparr>"

lemma is_chrono_sort_key [simp]: "is_chrono (sort_key td_Timestamp)"
  by (simp add: is_chrono_def)

lemma sample_trade_simps [simp]:
  "td_Quantity (sample_trade i t a q n) = q" "td_Action (sample_trade i t a q n) = a"
  "td_NotionalGBP (sample_trade i t a q n) = n" "td_FeesGBP (sample_trade i t a q n) = 0"
  "td_Timestamp (sample_trade i t a q n) = t * day_ns"
  by (simp_all add: sample_trade_def)

theorem matching_conserves_quantity_and_cost_witness:
  "\<exists>ds pool'. MatchSpotTrades (sort_key td_Timestamp) (\<lambda>t. t div day_ns)
       [sample_trade ''s'' 1 ''SELL'' 3 60, sample_trade ''b'' 5 ''BUY'' 2 30] (Some sample_pool) = (ds, pool') \<and>
     sum_list (map dp_Quantity ds) + s1_TotalQuantity pool' = 3 \<and>
     sum_list (map dp_CostGBP ds) + s1_TotalCostGBP pool' = 40"
proof -
  let ?ts = "[sample_trade ''s'' 1 ''SELL'' 3 60, sample_trade ''b'' 5 ''BUY'' 2 30]"
  obtain ds pool' where m: "MatchSpotTrades (sort_key td_Timestamp) (\<lambda>t. t div day_ns) ?ts (Some sample_pool) = (ds, pool')"
    by fastforce
  have "\<forall>t\<in>set ?ts. 0 \<le> td_Quantity t" "0 \<le> s1_TotalQuantity sample_pool" by (simp_all add: sample_pool_def)
  from matching_conserves_quantity_and_cost [OF is_chrono_sort_key this m] m show ?thesis
    by (simp add: buy_sum_def expenditure_def acqCostPerUnit_def sample_pool_def)
qed

text \<open>
  Each sale of the sorted trades yields one row in order, whose matched quantity never
  exceeds the quantity sold, whose gain is proceeds less cost, and which is labelled unmatched
  exactly when nothing was matched; the closing pool never goes negative.
\<close>

theorem every_sale_has_one_bounded_row:
  assumes "is_chrono chrono" "\<forall>t\<in>set trades. 0 \<le> td_Quantity t" "0 \<le> s1_TotalQuantity pool"
    and "MatchSpotTrades chrono day trades (Some pool) = (ds, pool')"
  shows "list_all2 row_ok (filter (\<lambda>t. td_Action t = ''SELL'') (chrono trades)) ds \<and> 0 \<le> s1_TotalQuantity pool'"
proof (cases "trades = []")
  case True
  moreover have "chrono [] = []" using assms(1) by (metis is_chrono_def mset_zero_iff_right)
  ultimately show ?thesis using assms(3,4) by (auto simp: MatchSpotTrades_def)
next
  case False
  let ?ts = "chrono trades"
  let ?w = "run_phases day ?ts (init_work ?ts pool)"
  have m: "mset ?ts = mset trades" using assms(1) by (simp add: is_chrono_def)
  have nn: "\<forall>t\<in>set ?ts. 0 \<le> td_Quantity t" using assms(2) mset_eq_setD [OF m] by simp
  note init = init_work_wf [OF nn assms(3)]
  have r: "ds = map (disposal_of ?ts) (wk_disposals ?w)" "pool' = wk_pool ?w"
    using assms(4) False by (auto simp: MatchSpotTrades_def Let_def)
  have w: "wf_work ?ts ?w" by (rule run_phases_ok [OF init])
  have l: "legal_work day ?ts ?w"
    by (rule run_phases_legal [OF init]) (auto simp: legal_work_def init_work_def)
  have "sold ?w = sold (init_work ?ts pool)" using run_phases_ok(2) [OF init, of day] by (simp add: amounts_def)
  also have "\<dots> = map (\<lambda>i. td_Quantity (?ts ! i)) (sells ?ts)"
    by (auto simp: sold_def init_work_def comp_def sells_def)
  finally have s: "sold ?w = map (\<lambda>i. td_Quantity (?ts ! i)) (sells ?ts)" .
  have sl: "filter (\<lambda>t. td_Action t = ''SELL'') ?ts = map (nth ?ts) (sells ?ts)"
    using filter_map [of "\<lambda>t. td_Action t = ''SELL''" "nth ?ts" "[0..<length ?ts]"]
    by (simp add: map_nth sells_def comp_def)
  have len: "length (wk_disposals ?w) = length (sells ?ts)" by (metis wf_workD(4) [OF w] length_map)
  have "list_all2 row_ok (map (nth ?ts) (sells ?ts)) ds"
    unfolding r(1) list_all2_conv_all_nth using row_ok_disposal [OF w l s] len by simp
  then show ?thesis using wf_workD(3) [OF w] unfolding sl r(2) by blast
qed

theorem every_sale_has_one_bounded_row_witness:
  "\<exists>d pool'. MatchSpotTrades (sort_key td_Timestamp) (\<lambda>t. t div day_ns)
     [sample_trade ''s'' 1 ''SELL'' 3 60] (Some sample_pool) = ([d], pool') \<and>
     row_ok (sample_trade ''s'' 1 ''SELL'' 3 60) d \<and> 0 \<le> s1_TotalQuantity pool'"
proof -
  obtain ds pool' where m: "MatchSpotTrades (sort_key td_Timestamp) (\<lambda>t. t div day_ns)
      [sample_trade ''s'' 1 ''SELL'' 3 60] (Some sample_pool) = (ds, pool')" by fastforce
  have "\<forall>t\<in>set [sample_trade ''s'' 1 ''SELL'' 3 60]. 0 \<le> td_Quantity t" "0 \<le> s1_TotalQuantity sample_pool"
    by (simp_all add: sample_pool_def)
  from every_sale_has_one_bounded_row [OF is_chrono_sort_key this m] m show ?thesis
    by (auto simp: list_all2_Cons1)
qed

text \<open>
  C28.  The order of the rules: after the same-day phase no sale and purchase of one day both have
  quantity left, and after the 30-day phase no sale has quantity left beside a purchase of its day
  or of the next 30 days.  The pool is drawn only for what neither rule can match.
\<close>

theorem same_day_then_30_day_then_pool:
  fixes day :: "go_time \<Rightarrow> int"
  assumes "\<forall>t\<in>set ts. 0 \<le> td_Quantity t" "0 \<le> s1_TotalQuantity pool"
    and "d < length ts" "td_Action (ts ! d) = ''SELL''" "j < length ts" "td_Action (ts ! j) = ''BUY''"
  defines "w1 \<equiv> match_phase ts (same_day day) ''same-day'' (init_work ts pool)"
  defines "w2 \<equiv> match_phase ts (within_30_days day) ''30-day'' w1"
  shows "(day (td_Timestamp (ts ! j)) = day (td_Timestamp (ts ! d)) \<longrightarrow> exhausted d j w1) \<and>
    (day (td_Timestamp (ts ! j)) - day (td_Timestamp (ts ! d)) \<in> {0..30} \<longrightarrow> exhausted d j w2) \<and>
    run_phases day ts (init_work ts pool) = foldl (pool_step ts) w2 [0..<length ts]"
proof -
  note init = init_work_wf [OF assms(1,2)]
  have w1: "w1 = foldl (tax_step day ts) (init_work ts pool) (match_events SameDay ts)"
    unfolding w1_def by (rule match_phase_run(1) [OF wf_workD(4) [OF init]])
  have wf1: "wf_work ts w1" unfolding w1 using tax_flow.run_conserves [OF phase_adm(1) init] by blast
  have w2: "w2 = foldl (tax_step day ts) w1 (match_events ThirtyDays ts)"
    unfolding w2_def by (rule match_phase_run(2) [OF wf_workD(4) [OF wf1]])
  have dj: "d \<in> set (sells ts)" "j \<in> set (buys ts)" using assms(3-6) by auto
  have same: "day (td_Timestamp (ts ! j)) = day (td_Timestamp (ts ! d)) \<Longrightarrow> exhausted d j w1"
    unfolding w1 by (rule phase_exhausts(1) [OF init dj]) (simp add: same_day_def)
  have "exhausted d j w2" if "day (td_Timestamp (ts ! j)) - day (td_Timestamp (ts ! d)) \<in> {0..30}"
  proof (cases "day (td_Timestamp (ts ! j)) = day (td_Timestamp (ts ! d))")
    case True
    then show ?thesis unfolding w2 by (rule phase_exhausts(3) [OF wf1 dj same])
  next
    case False
    with that show ?thesis
      unfolding w2 by (intro phase_exhausts(2) [OF wf1 dj]) (auto simp: within_30_days_def)
  qed
  with same show ?thesis by (simp add: run_phases_def w1_def w2_def Let_def)
qed

theorem same_day_then_30_day_then_pool_witness:
  "exhausted 0 1 (match_phase [sample_trade ''s'' 1 ''SELL'' 3 60, sample_trade ''b'' 5 ''BUY'' 2 30]
     (within_30_days (\<lambda>t. t div day_ns)) ''30-day''
     (match_phase [sample_trade ''s'' 1 ''SELL'' 3 60, sample_trade ''b'' 5 ''BUY'' 2 30]
        (same_day (\<lambda>t. t div day_ns)) ''same-day''
        (init_work [sample_trade ''s'' 1 ''SELL'' 3 60, sample_trade ''b'' 5 ''BUY'' 2 30] sample_pool)))"
  using same_day_then_30_day_then_pool
    [of "[sample_trade ''s'' 1 ''SELL'' 3 60, sample_trade ''b'' 5 ''BUY'' 2 30]" sample_pool 0 1 "\<lambda>t. t div day_ns"]
  by (simp add: sample_pool_def)

section \<open>The report\<close>

definition symbol_pool :: "(string \<rightharpoonup> Section104Pool) \<Rightarrow> string \<Rightarrow> Section104Pool" where
  "symbol_pool pools symbol = (case pools symbol of Some p \<Rightarrow> p
     | None \<Rightarrow> \<lparr>s1_Symbol = symbol, s1_TotalQuantity = 0, s1_TotalCostGBP = 0\<rparr>)"

definition symbol_result ::
  "(TradeRecord list \<Rightarrow> TradeRecord list) \<Rightarrow> (go_time \<Rightarrow> int) \<Rightarrow> TradeRecord list
     \<Rightarrow> (string \<rightharpoonup> Section104Pool) \<Rightarrow> string \<Rightarrow> Disposal list \<times> Section104Pool" where
  "symbol_result chrono day trades pools s =
     MatchSpotTrades chrono day (spot_of trades s) (Some (symbol_pool pools s))"

text \<open>Symbols do not interact: the loop over a set of distinct symbols handles each on its own.\<close>

lemma match_symbols:
  assumes "distinct symbols"
  shows "foldl (match_symbol chrono day trades) (ds, pools) symbols =
    (ds @ concat (map (\<lambda>s. fst (symbol_result chrono day trades pools s)) symbols),
     \<lambda>s. if s \<in> set symbols then Some (snd (symbol_result chrono day trades pools s)) else pools s)"
  using assms
proof (induction symbols arbitrary: ds pools)
  case Nil
  show ?case by simp
next
  case (Cons s symbols)
  let ?r = "symbol_result chrono day trades pools s"
  have one: "match_symbol chrono day trades (ds, pools) s = (ds @ fst ?r, pools(s \<mapsto> snd ?r))"
    by (simp add: match_symbol_def symbol_result_def symbol_pool_def Let_def case_prod_unfold)
  have other: "symbol_result chrono day trades (pools(s \<mapsto> p)) s' = symbol_result chrono day trades pools s'"
    if "s' \<in> set symbols" for s' p
    using that Cons.prems by (auto simp: symbol_result_def symbol_pool_def)
  have "concat (map (\<lambda>s'. fst (symbol_result chrono day trades (pools(s \<mapsto> snd ?r)) s')) symbols) =
      concat (map (\<lambda>s'. fst (symbol_result chrono day trades pools s')) symbols)"
    using other by (intro arg_cong [where f = concat] map_cong) auto
  moreover have "(\<lambda>s'. if s' \<in> set symbols
        then Some (snd (symbol_result chrono day trades (pools(s \<mapsto> snd ?r)) s')) else (pools(s \<mapsto> snd ?r)) s') =
      (\<lambda>s'. if s' \<in> set (s # symbols) then Some (snd (symbol_result chrono day trades pools s')) else pools s')"
    using other Cons.prems by (auto simp: fun_eq_iff)
  ultimately show ?case using Cons by (simp add: one del: fun_upd_apply)
qed

lemma gains_losses:
  "foldl (\<lambda>s d. if 0 \<le> dp_GainGBP d then s + dp_GainGBP d else s) g ds -
   foldl (\<lambda>s d. if 0 \<le> dp_GainGBP d then s else s + - dp_GainGBP d) l ds =
   g - l + (\<Sum>d\<leftarrow>ds. dp_GainGBP d)"
  by (induction ds arbitrary: g l) simp_all

lemma foldl_sums:
  "foldl (\<lambda>s t. s + f t) (x::real) ts = x + (\<Sum>t\<leftarrow>ts. f t)"
  "foldl (\<lambda>s t. s - f t) (x::real) ts = x - (\<Sum>t\<leftarrow>ts. f t)"
  by (induction ts arbitrary: x) simp_all

text \<open>The income of one derivative trade: sales add, purchases subtract, fees always subtract.\<close>

definition deriv_income :: "TradeRecord \<Rightarrow> real" where
  "deriv_income t = (if td_Action t = ''BUY'' then - td_NotionalGBP t else td_NotionalGBP t) - td_FeesGBP t"

lemma deriv_sum:
  "(\<Sum>t\<leftarrow>filter (\<lambda>t. td_Action t \<noteq> ''BUY'') ts. td_NotionalGBP t) -
   (\<Sum>t\<leftarrow>filter (\<lambda>t. td_Action t = ''BUY'') ts. td_NotionalGBP t) -
   ((\<Sum>t\<leftarrow>filter (\<lambda>t. td_Action t \<noteq> ''BUY'') ts. td_FeesGBP t) +
    (\<Sum>t\<leftarrow>filter (\<lambda>t. td_Action t = ''BUY'') ts. td_FeesGBP t)) = (\<Sum>t\<leftarrow>ts. deriv_income t)"
  by (induction ts) (simp_all add: deriv_income_def)

text \<open>
  The taxable total is the sum of the gains of all spot disposals and of the income of all
  other trades, and it, the pools and the rows of the report are those of each symbol matched on
  its own: the order in which the map of symbols is ranged over does not matter.
\<close>

theorem report_total_is_order_independent:
  assumes "distinct symbols" "\<forall>ds. mset (by_date ds) = mset ds"
  shows "let r = GenerateReport chrono by_date day symbols tenant t0 t1 rate trades (Some pools);
             rows = \<Sum>s\<in>#mset symbols. mset (fst (symbol_result chrono day trades pools s))
    in mset (tr_SpotDisposals r) = rows \<and>
       tr_Pools r = (\<lambda>s. if s \<in> set symbols then Some (snd (symbol_result chrono day trades pools s)) else pools s) \<and>
       tr_TotalTaxableGBP r = (\<Sum>d\<in>#rows. dp_GainGBP d) +
         (\<Sum>t\<leftarrow>filter (\<lambda>t. td_Market t \<noteq> ''SPOT'') trades. deriv_income t)"
proof -
  let ?ds = "concat (map (\<lambda>s. fst (symbol_result chrono day trades pools s)) symbols)"
  let ?dv = "filter (\<lambda>t. td_Market t \<noteq> ''SPOT'') trades"
  let ?r = "GenerateReport chrono by_date day symbols tenant t0 t1 rate trades (Some pools)"
  have ms: "mset ?ds = (\<Sum>s\<in>#mset symbols. mset (fst (symbol_result chrono day trades pools s)))"
    by (induction symbols) simp_all
  have bd: "mset (by_date ?ds) = mset ?ds" using assms(2) by blast
  have gains: "(\<Sum>d\<leftarrow>by_date ?ds. dp_GainGBP d) = (\<Sum>d\<in>#mset ?ds. dp_GainGBP d)"
    unfolding sum_list_mset_cong [OF bd] mset_map [symmetric] sum_mset_sum_list by (rule refl)
  have "mset (tr_SpotDisposals ?r) = mset ?ds"
    unfolding GenerateReport_def Let_def match_symbols [OF assms(1)] prod.case option.case
      TaxReport.select_convs append_Nil by (rule bd)
  moreover have "tr_Pools ?r = (\<lambda>s. if s \<in> set symbols
      then Some (snd (symbol_result chrono day trades pools s)) else pools s)"
    unfolding GenerateReport_def Let_def match_symbols [OF assms(1)] prod.case option.case
      TaxReport.select_convs by (rule refl)
  moreover have "tr_TotalTaxableGBP ?r = (\<Sum>d\<leftarrow>by_date ?ds. dp_GainGBP d) + (\<Sum>t\<leftarrow>?dv. deriv_income t)"
    unfolding GenerateReport_def Let_def match_symbols [OF assms(1)] prod.case option.case
      TaxReport.select_convs append_Nil gains_losses foldl_sums map_append sum_list_append
    using deriv_sum [of ?dv] by linarith
  ultimately show ?thesis unfolding Let_def ms [symmetric] gains by (intro conjI)
qed

theorem report_total_is_order_independent_witness:
  "tr_TotalTaxableGBP (GenerateReport (sort_key td_Timestamp) (sort_key dp_Date) (\<lambda>t. t div day_ns) [] ''t'' 0 1 1
     [(sample_trade ''s'' 1 ''SELL'' 3 60)\<lparr>td_Market := ''PERP''\<rparr>] (Some Map.empty)) = 60"
  using report_total_is_order_independent
    [of "[]" "sort_key dp_Date" "sort_key td_Timestamp" "\<lambda>t. t div day_ns" "''t''" 0 1 1
      "[(sample_trade ''s'' 1 ''SELL'' 3 60)\<lparr>td_Market := ''PERP''\<rparr>]" Map.empty]
  by (simp add: Let_def deriv_income_def sample_trade_def)

end
