(* ===== verification/Arb_Engine.thy ===== *)
theory Arb_Engine
  imports Interfaces Consensus_Types "HOL-Library.Word"
begin

text \<open>
  internal/arb (types.go, cooldown.go, config.go, engine.go): the engine that turns a consensus
  update into at most two trade intents.  \<open>Engine\<close> is its state, \<open>Process\<close> its one operation;
  the venue metrics and the update are those of the consensus component.  The random bytes of
  \<open>newUUID\<close> are the parameter \<open>rnd\<close> (the k-th draw of a call), and \<open>by_profit\<close> stands for the
  unstable \<open>sort.Slice\<close> of the candidates.
\<close>

unbundle bit_operations_syntax

section \<open>Types\<close>

record TradeLeg =
  tl_Venue :: string
  tl_Action :: string
  tl_Type :: string
  tl_Market :: string
  tl_NotionalUSD :: float64
  tl_MaxSlippageBps :: float64
  tl_PriceLimit :: float64

record ExpectedMetrics =
  em_EdgeBpsGross :: float64
  em_EdgeBpsNet :: float64
  em_ProfitUSDNet :: float64
  em_FeesUSDEst :: float64
  em_SlippageUSDEst :: float64
  em_FundingRate8hBps :: float64
  em_AnnualYieldPctNet :: float64

record IntentConstraints =
  ic_MinQuality :: string
  ic_RequireVenueOK :: bool
  ic_MaxAgeMs :: int64
  ic_HedgePreference :: string
  ic_CooldownKey :: string
  ic_ForcePaperMode :: bool

record IntentDebug =
  id_ConsensusBandLow :: float64
  id_ConsensusBandHigh :: float64
  id_BuyOn :: string
  id_SellOn :: string
  id_BuyExec :: float64
  id_SellExec :: float64

record TradeIntent =
  ti_SchemaVersion :: int
  ti_TenantID :: string
  ti_IntentID :: string
  ti_Strategy :: string
  ti_Symbol :: string
  ti_TsMs :: int64
  ti_ExpiresMs :: int64
  ti_Legs :: "TradeLeg list"
  ti_Expected :: ExpectedMetrics
  ti_Constraints :: IntentConstraints
  ti_Debug :: IntentDebug

datatype RejectionReason =
  RejectLowQuality | RejectInsufficientEdge | RejectCooldown | RejectVenueFiltered | RejectNoPairs

section \<open>Cooldown\<close>

record Cooldown =
  cd_lastMs :: "string \<rightharpoonup> int64"
  cd_ttlMs :: int64

definition NewCooldown :: "int64 \<Rightarrow> Cooldown" where
  "NewCooldown ttlMs = \<lparr>cd_lastMs = Map.empty, cd_ttlMs = ttlMs\<rparr>"

definition IsOnCooldown :: "Cooldown \<Rightarrow> string \<Rightarrow> int64 \<Rightarrow> bool" where
  "IsOnCooldown c key nowMs =
     (case cd_lastMs c key of None \<Rightarrow> False | Some lastMs \<Rightarrow> nowMs - lastMs < cd_ttlMs c)"

definition IsOnCooldownWithTTL :: "Cooldown \<Rightarrow> string \<Rightarrow> int64 \<Rightarrow> int64 \<Rightarrow> bool" where
  "IsOnCooldownWithTTL c key nowMs ttlMs =
     (case cd_lastMs c key of None \<Rightarrow> False | Some lastMs \<Rightarrow> nowMs - lastMs < ttlMs)"

definition Mark :: "Cooldown \<Rightarrow> string \<Rightarrow> int64 \<Rightarrow> Cooldown" where
  "Mark c key nowMs = c\<lparr>cd_lastMs := (cd_lastMs c)(key \<mapsto> nowMs)\<rparr>"

interpretation arb_cooldown: cooldown_gate IsOnCooldownWithTTL Mark
  by unfold_locales (simp_all add: IsOnCooldownWithTTL_def Mark_def)

lemma IsOnCooldown_default: "IsOnCooldown c k now = IsOnCooldownWithTTL c k now (cd_ttlMs c)"
  by (simp add: IsOnCooldown_def IsOnCooldownWithTTL_def)

section \<open>Policy\<close>

text \<open>A nil map of an override is \<open>None\<close>.\<close>

record ArbSymbolOverride =
  ao_MinEdgeBpsNet :: "(string \<rightharpoonup> float64) option"
  ao_LatencyBufferBps :: "(string \<rightharpoonup> float64) option"
  ao_SizeLadderUSD :: "float64 list"
  ao_MaxSlippageBps :: "float64 option"
  ao_CooldownMs :: "int64 option"

record ArbPolicy =
  ar_Symbols :: "string list"
  ar_MinConsensusQuality :: string
  ar_MinEdgeBpsNet :: "string \<rightharpoonup> float64"
  ar_IntentTTLMs :: "string \<rightharpoonup> int64"
  ar_LatencyBufferBps :: "string \<rightharpoonup> float64"
  ar_SizeLadderUSD :: "float64 list"
  ar_MaxSlippageBps :: float64
  ar_CooldownMs :: int64
  ar_AllowWarnVenues :: bool
  ar_IgnoreFlaggedVenues :: bool
  ar_EnabledPairs :: "string \<rightharpoonup> string list list"
  ar_SymbolOverrides :: "string \<rightharpoonup> ArbSymbolOverride"
  ar_RedisAddr :: string
  ar_RedisPassword :: string
  ar_RedisUseTLS :: bool

definition arb_applyEnvOverrides :: "(string \<Rightarrow> string) \<Rightarrow> ArbPolicy \<Rightarrow> ArbPolicy" where
  "arb_applyEnvOverrides getenv p =
     (let p = (if getenv ''REDIS_ADDR'' \<noteq> '''' then p\<lparr>ar_RedisAddr := getenv ''REDIS_ADDR''\<rparr> else p);
          p = (if getenv ''REDIS_PASSWORD'' \<noteq> '''' then p\<lparr>ar_RedisPassword := getenv ''REDIS_PASSWORD''\<rparr> else p)
      in (if equal_fold (getenv ''REDIS_TLS'') ''true'' then p\<lparr>ar_RedisUseTLS := True\<rparr> else p))"

definition arb_validate :: "ArbPolicy \<Rightarrow> gotext option" where
  "arb_validate p =
     (if ar_Symbols p = [] then Some (Txt ''symbols must not be empty'')
      else if ar_SizeLadderUSD p = [] then Some (Txt ''size_ladder_usd must not be empty'')
      else if ar_MaxSlippageBps p \<le> 0 then Some (Txt ''max_slippage_bps must be > 0'')
      else if ar_CooldownMs p < 0 then Some (Txt ''cooldown_ms must be >= 0'')
      else None)"

definition LoadArbPolicy ::
  "(string \<Rightarrow> ArbPolicy option) \<Rightarrow> (string \<Rightarrow> string) \<Rightarrow> string option \<Rightarrow> gotext + ArbPolicy" where
  "LoadArbPolicy unmarshal getenv content =
     (case content of
        None \<Rightarrow> Inl (Txt ''reading policy file'')
      | Some data \<Rightarrow>
          (case unmarshal data of
             None \<Rightarrow> Inl (Txt ''parsing policy YAML'')
           | Some p0 \<Rightarrow>
               (let p = arb_applyEnvOverrides getenv p0
                in case arb_validate p of Some e \<Rightarrow> Inl e | None \<Rightarrow> Inr p)))"

text \<open>A value of an override map, when the symbol has an override with such a map and key.\<close>

definition override_at :: "ArbPolicy \<Rightarrow> (ArbSymbolOverride \<Rightarrow> (string \<rightharpoonup> float64) option) \<Rightarrow> string \<Rightarrow> string \<Rightarrow> float64 option" where
  "override_at p field symbol quality =
     (case ar_SymbolOverrides p symbol of
        None \<Rightarrow> None
      | Some ovr \<Rightarrow> (case field ovr of None \<Rightarrow> None | Some m \<Rightarrow> m quality))"

definition minEdge :: "ArbPolicy \<Rightarrow> string \<Rightarrow> string \<Rightarrow> float64" where
  "minEdge p quality symbol =
     (case override_at p ao_MinEdgeBpsNet symbol quality of
        Some v \<Rightarrow> v
      | None \<Rightarrow> (case ar_MinEdgeBpsNet p quality of Some v \<Rightarrow> v | None \<Rightarrow> 9999))"

definition intentTTL :: "ArbPolicy \<Rightarrow> string \<Rightarrow> int64" where
  "intentTTL p quality = (case ar_IntentTTLMs p quality of Some v \<Rightarrow> v | None \<Rightarrow> 0)"

definition latencyBuffer :: "ArbPolicy \<Rightarrow> string \<Rightarrow> string \<Rightarrow> float64" where
  "latencyBuffer p quality symbol =
     (case override_at p ao_LatencyBufferBps symbol quality of
        Some v \<Rightarrow> v
      | None \<Rightarrow> (case ar_LatencyBufferBps p quality of Some v \<Rightarrow> v | None \<Rightarrow> 10))"

definition sizeLadder :: "ArbPolicy \<Rightarrow> string \<Rightarrow> float64 list" where
  "sizeLadder p symbol =
     (case ar_SymbolOverrides p symbol of
        Some ovr \<Rightarrow> (if ao_SizeLadderUSD ovr \<noteq> [] then ao_SizeLadderUSD ovr else ar_SizeLadderUSD p)
      | None \<Rightarrow> ar_SizeLadderUSD p)"

definition maxSlippage :: "ArbPolicy \<Rightarrow> string \<Rightarrow> float64" where
  "maxSlippage p symbol =
     (case ar_SymbolOverrides p symbol of
        Some ovr \<Rightarrow> override (ao_MaxSlippageBps ovr) (ar_MaxSlippageBps p)
      | None \<Rightarrow> ar_MaxSlippageBps p)"

definition cooldown :: "ArbPolicy \<Rightarrow> string \<Rightarrow> int64" where
  "cooldown p symbol =
     (case ar_SymbolOverrides p symbol of
        Some ovr \<Rightarrow> override (ao_CooldownMs ovr) (ar_CooldownMs p)
      | None \<Rightarrow> ar_CooldownMs p)"

definition qualityRank :: "string \<Rightarrow> int" where
  "qualityRank q = (if q = ''HIGH'' then 2 else if q = ''MED'' then 1 else 0)"

section \<open>Engine\<close>

text \<open>The observability counters are maps with 0 for a missing key.\<close>

record Engine =
  en_policy :: ArbPolicy
  en_cooldown :: Cooldown
  en_Rejected :: "RejectionReason \<Rightarrow> int64"
  en_Emitted :: "string \<Rightarrow> int64"

definition NewEngine :: "ArbPolicy \<Rightarrow> Engine" where
  "NewEngine p = \<lparr>en_policy = p, en_cooldown = NewCooldown (ar_CooldownMs p),
                  en_Rejected = (\<lambda>_. 0), en_Emitted = (\<lambda>_. 0)\<rparr>"

definition reject :: "RejectionReason \<Rightarrow> Engine \<Rightarrow> Engine" where
  "reject r e = e\<lparr>en_Rejected := (en_Rejected e)(r := en_Rejected e r + 1)\<rparr>"

definition epsilon :: float64 where
  "epsilon = 1 / 10 ^ 9"

definition hasFlag :: "string list \<Rightarrow> string \<Rightarrow> bool" where
  "hasFlag flags target = list_ex (\<lambda>f. f = target) flags"

definition eligible_venue :: "ArbPolicy \<Rightarrow> VenueMetrics \<Rightarrow> bool" where
  "eligible_venue p vm \<longleftrightarrow>
     \<not> vm_Status vm = StateBlacklisted \<and>
     \<not> (\<not> ar_AllowWarnVenues p \<and> vm_Status vm = StateWarn) \<and>
     \<not> (ar_IgnoreFlaggedVenues p \<and> hasFlag (vm_Flags vm) ''OUTLIER'')"

definition filterVenues :: "ArbPolicy \<Rightarrow> ConsensusUpdate \<Rightarrow> VenueMetrics list" where
  "filterVenues p update = filter (eligible_venue p) (cu_Venues update)"

definition estimateFeesUSD :: "float64 \<Rightarrow> VenueMetrics \<Rightarrow> VenueMetrics \<Rightarrow> float64" where
  "estimateFeesUSD notional buy sell =
     (let fee = (if vm_EffectiveBuy buy > epsilon
                 then 0 + (vm_EffectiveBuy buy - vm_BuyExec buy) / vm_EffectiveBuy buy * notional else 0)
      in (if vm_SellExec sell > epsilon
          then fee + (vm_SellExec sell - vm_EffectiveSell sell) / vm_SellExec sell * notional else fee))"

text \<open>Lower-case hexadecimal of a byte, and a version 4 UUID from 16 random bytes.\<close>

definition hex_digit :: "nat \<Rightarrow> char" where
  "hex_digit n = char_of (if n < 10 then 48 + n else 87 + n)"

definition hex_byte :: "8 word \<Rightarrow> string" where
  "hex_byte b = [hex_digit (unat b div 16), hex_digit (unat b mod 16)]"

definition newUUID :: "8 word list \<Rightarrow> string" where
  "newUUID rnd =
     (let b = rnd[6 := ((rnd ! 6) AND 0x0f) OR 0x40];
          b = b[8 := ((b ! 8) AND 0x3f) OR 0x80];
          hex = (\<lambda>i j. concat (map hex_byte (take (j - i) (drop i b))))
      in hex 0 4 @ ''-'' @ hex 4 6 @ ''-'' @ hex 6 8 @ ''-'' @ hex 8 10 @ ''-'' @ hex 10 16)"

text \<open>The two directions of a configured pair; an entry of another length is skipped.\<close>

fun both_ways :: "string list \<Rightarrow> (string \<times> string) list" where
  "both_ways [a, b] = [(a, b), (b, a)]"
| "both_ways _ = []"

definition cooldown_key :: "string \<Rightarrow> string \<Rightarrow> string \<Rightarrow> string" where
  "cooldown_key symbol buyName sellName = symbol @ ''|'' @ buyName @ ''|'' @ sellName"

definition grossEdge :: "float64 \<Rightarrow> float64 \<Rightarrow> VenueMetrics \<Rightarrow> VenueMetrics \<Rightarrow> float64" where
  "grossEdge latencyBps consMid buyVM sellVM =
     (let buyCost = vm_EffectiveBuy buyVM * (1 + latencyBps / 10000);
          sellValue = vm_EffectiveSell sellVM * (1 - latencyBps / 10000)
      in (sellValue - buyCost) / consMid * 10000)"

definition make_intent ::
  "ArbPolicy \<Rightarrow> ConsensusUpdate \<Rightarrow> string \<Rightarrow> float64 \<Rightarrow> string \<Rightarrow> string \<Rightarrow> VenueMetrics \<Rightarrow> VenueMetrics \<Rightarrow> TradeIntent" where
  "make_intent p update uuid size_usd buyName sellName buyVM sellVM =
     (let symbol = cu_Symbol update; quality = c_Quality (cu_Consensus update);
          ttlMs = intentTTL p quality; latencyBps = latencyBuffer p quality symbol;
          maxSlip = maxSlippage p symbol; consMid = c_Mid (cu_Consensus update);
          edge = grossEdge latencyBps consMid buyVM sellVM
      in \<lparr>ti_SchemaVersion = 0, ti_TenantID = cu_TenantID update, ti_IntentID = uuid,
          ti_Strategy = ''CROSS_VENUE_ARB'', ti_Symbol = symbol, ti_TsMs = cu_TsMs update,
          ti_ExpiresMs = cu_TsMs update + ttlMs,
          ti_Legs =
            [\<lparr>tl_Venue = buyName, tl_Action = ''BUY'', tl_Type = ''MARKET_OR_IOC'', tl_Market = '''',
              tl_NotionalUSD = size_usd, tl_MaxSlippageBps = maxSlip,
              tl_PriceLimit = vm_EffectiveBuy buyVM * (1 + maxSlip / 10000)\<rparr>,
             \<lparr>tl_Venue = sellName, tl_Action = ''SELL'', tl_Type = ''MARKET_OR_IOC'', tl_Market = '''',
              tl_NotionalUSD = size_usd, tl_MaxSlippageBps = maxSlip,
              tl_PriceLimit = vm_EffectiveSell sellVM * (1 - maxSlip / 10000)\<rparr>],
          ti_Expected =
            \<lparr>em_EdgeBpsGross = edge, em_EdgeBpsNet = edge, em_ProfitUSDNet = size_usd * edge / 10000,
             em_FeesUSDEst = estimateFeesUSD size_usd buyVM sellVM,
             em_SlippageUSDEst = size_usd * latencyBps * 2 / 10000,
             em_FundingRate8hBps = 0, em_AnnualYieldPctNet = 0\<rparr>,
          ti_Constraints =
            \<lparr>ic_MinQuality = ar_MinConsensusQuality p, ic_RequireVenueOK = (\<not> ar_AllowWarnVenues p),
             ic_MaxAgeMs = ttlMs, ic_HedgePreference = ''SIMULTANEOUS_OR_HEDGE_FIRST'',
             ic_CooldownKey = cooldown_key symbol buyName sellName, ic_ForcePaperMode = False\<rparr>,
          ti_Debug =
            \<lparr>id_ConsensusBandLow = c_BandLow (cu_Consensus update),
             id_ConsensusBandHigh = c_BandHigh (cu_Consensus update),
             id_BuyOn = buyName, id_SellOn = sellName,
             id_BuyExec = vm_EffectiveBuy buyVM, id_SellExec = vm_EffectiveSell sellVM\<rparr>\<rparr>)"

text \<open>The innermost body of the loops: a size and an ordered pair, with the candidates so far.\<close>

definition consider_pair ::
  "ConsensusUpdate \<Rightarrow> (string \<rightharpoonup> VenueMetrics) \<Rightarrow> (nat \<Rightarrow> 8 word list) \<Rightarrow>
   Engine \<times> TradeIntent list \<Rightarrow> float64 \<times> string \<times> string \<Rightarrow> Engine \<times> TradeIntent list" where
  "consider_pair update venueMap rnd r item =
     (case (r, item) of ((e, candidates), (size_usd, buyName, sellName)) \<Rightarrow>
       (case (venueMap buyName, venueMap sellName) of
          (Some buyVM, Some sellVM) \<Rightarrow>
            (let p = en_policy e; symbol = cu_Symbol update; quality = c_Quality (cu_Consensus update)
             in if IsOnCooldownWithTTL (en_cooldown e) (cooldown_key symbol buyName sellName)
                     (cu_TsMs update) (cooldown p symbol)
                then (reject RejectCooldown e, candidates)
                else if grossEdge (latencyBuffer p quality symbol) (c_Mid (cu_Consensus update)) buyVM sellVM
                        < minEdge p quality symbol
                then (reject RejectInsufficientEdge e, candidates)
                else (e, candidates @ [make_intent p update (newUUID (rnd (length candidates)))
                                         size_usd buyName sellName buyVM sellVM]))
        | _ \<Rightarrow> (e, candidates)))"

definition first_disjoint :: "TradeIntent \<Rightarrow> TradeIntent list \<Rightarrow> TradeIntent list" where
  "first_disjoint b cs =
     (let used = [tl_Venue (ti_Legs b ! 0), tl_Venue (ti_Legs b ! 1)]
      in case find (\<lambda>c. tl_Venue (ti_Legs c ! 0) \<notin> set used \<and> tl_Venue (ti_Legs c ! 1) \<notin> set used) cs of
           None \<Rightarrow> [b] | Some c \<Rightarrow> [b, c])"

definition pickBest :: "(TradeIntent list \<Rightarrow> TradeIntent list) \<Rightarrow> TradeIntent list \<Rightarrow> TradeIntent list" where
  "pickBest by_profit candidates =
     (case by_profit candidates of [] \<Rightarrow> [] | b # cs \<Rightarrow> first_disjoint b cs)"

definition emit :: "ConsensusUpdate \<Rightarrow> Engine \<Rightarrow> TradeIntent \<Rightarrow> Engine" where
  "emit update e intent =
     e\<lparr>en_cooldown := Mark (en_cooldown e) (ic_CooldownKey (ti_Constraints intent)) (cu_TsMs update),
       en_Emitted := (en_Emitted e)(cu_Symbol update := en_Emitted e (cu_Symbol update) + 1)\<rparr>"

definition work_items :: "ArbPolicy \<Rightarrow> string \<Rightarrow> string list list \<Rightarrow> (float64 \<times> string \<times> string) list" where
  "work_items p symbol pairs =
     concat (map (\<lambda>s. concat (map (\<lambda>pair. map (\<lambda>bs. (s, bs)) (both_ways pair)) pairs)) (sizeLadder p symbol))"

definition Process ::
  "(TradeIntent list \<Rightarrow> TradeIntent list) \<Rightarrow> (nat \<Rightarrow> 8 word list) \<Rightarrow> Engine \<Rightarrow> ConsensusUpdate
     \<Rightarrow> Engine \<times> TradeIntent list" where
  "Process by_profit rnd e update =
     (let p = en_policy e; quality = c_Quality (cu_Consensus update); symbol = cu_Symbol update in
      if qualityRank quality < qualityRank (ar_MinConsensusQuality p) then (reject RejectLowQuality e, [])
      else if intentTTL p quality = 0 then (reject RejectLowQuality e, [])
      else
        (let elig = filterVenues p update in
         if length elig < 2 then (reject RejectVenueFiltered e, [])
         else
           (let venueMap = map_of (rev (map (\<lambda>vm. (vm_Venue vm, vm)) elig));
                pairs = map_get [] (ar_EnabledPairs p) symbol in
            if pairs = [] then (reject RejectNoPairs e, [])
            else if c_Mid (cu_Consensus update) < epsilon then (e, [])
            else
              (let (e, candidates) = foldl (consider_pair update venueMap rnd) (e, []) (work_items p symbol pairs);
                   best = pickBest by_profit candidates
               in (foldl (emit update) e best, best)))))"

section \<open>The candidates\<close>

lemma consider_pair_simps [simp]:
  "en_policy (fst (consider_pair u vm rnd r it)) = en_policy (fst r)"
  "en_cooldown (fst (consider_pair u vm rnd r it)) = en_cooldown (fst r)"
  by (simp_all add: consider_pair_def reject_def Let_def split: prod.split option.split)

lemma consider_run_simps [simp]:
  "en_policy (fst (foldl (consider_pair u vm rnd) r its)) = en_policy (fst r)"
  "en_cooldown (fst (foldl (consider_pair u vm rnd) r its)) = en_cooldown (fst r)"
  by (induction its arbitrary: r) simp_all

lemma both_ways_set: "bs \<in> set (both_ways pair) \<longleftrightarrow> (\<exists>a b. pair = [a, b] \<and> (bs = (a, b) \<or> bs = (b, a)))"
  by (induction pair rule: both_ways.induct) auto

lemma work_items_iff:
  "(s, a, b) \<in> set (work_items p symbol pairs) \<longleftrightarrow>
     s \<in> set (sizeLadder p symbol) \<and> ([a, b] \<in> set pairs \<or> [b, a] \<in> set pairs)"
proof -
  have "(s, a, b) \<in> set (work_items p symbol pairs) \<longleftrightarrow>
      s \<in> set (sizeLadder p symbol) \<and> (\<exists>pair\<in>set pairs. (a, b) \<in> set (both_ways pair))"
    by (auto simp: work_items_def image_iff)
  then show ?thesis by (auto simp: both_ways_set)
qed

text \<open>What the gates of the loop guarantee of one candidate.\<close>

definition candidate_ok ::
  "Engine \<Rightarrow> ConsensusUpdate \<Rightarrow> (string \<rightharpoonup> VenueMetrics) \<Rightarrow> string list list \<Rightarrow> TradeIntent \<Rightarrow> bool" where
  "candidate_ok e u vmap pairs i \<longleftrightarrow>
     (\<exists>s a b uuid buyVM sellVM.
        i = make_intent (en_policy e) u uuid s a b buyVM sellVM \<and>
        vmap a = Some buyVM \<and> vmap b = Some sellVM \<and>
        s \<in> set (sizeLadder (en_policy e) (cu_Symbol u)) \<and> ([a, b] \<in> set pairs \<or> [b, a] \<in> set pairs) \<and>
        \<not> IsOnCooldownWithTTL (en_cooldown e) (cooldown_key (cu_Symbol u) a b) (cu_TsMs u)
            (cooldown (en_policy e) (cu_Symbol u)) \<and>
        minEdge (en_policy e) (c_Quality (cu_Consensus u)) (cu_Symbol u) \<le>
          grossEdge (latencyBuffer (en_policy e) (c_Quality (cu_Consensus u)) (cu_Symbol u))
            (c_Mid (cu_Consensus u)) buyVM sellVM)"

lemma candidate_ok_cong:
  "en_policy e = en_policy e' \<Longrightarrow> en_cooldown e = en_cooldown e' \<Longrightarrow>
     candidate_ok e u vmap pairs i = candidate_ok e' u vmap pairs i"
  by (simp add: candidate_ok_def)

lemma candidate_okI:
  "vmap a = Some bv \<Longrightarrow> vmap b = Some sv \<Longrightarrow> s \<in> set (sizeLadder (en_policy e) (cu_Symbol u)) \<Longrightarrow>
   [a, b] \<in> set pairs \<or> [b, a] \<in> set pairs \<Longrightarrow>
   \<not> IsOnCooldownWithTTL (en_cooldown e) (cooldown_key (cu_Symbol u) a b) (cu_TsMs u)
       (cooldown (en_policy e) (cu_Symbol u)) \<Longrightarrow>
   minEdge (en_policy e) (c_Quality (cu_Consensus u)) (cu_Symbol u) \<le>
     grossEdge (latencyBuffer (en_policy e) (c_Quality (cu_Consensus u)) (cu_Symbol u))
       (c_Mid (cu_Consensus u)) bv sv \<Longrightarrow>
   candidate_ok e u vmap pairs (make_intent (en_policy e) u uuid s a b bv sv)"
  unfolding candidate_ok_def by blast

lemma consider_pair_ok:
  assumes "it \<in> set (work_items (en_policy (fst r)) (cu_Symbol u) pairs)"
    and "i \<in> set (snd (consider_pair u vmap rnd r it))"
  shows "i \<in> set (snd r) \<or> candidate_ok (fst r) u vmap pairs i"
proof -
  obtain e cs s a b where it: "r = (e, cs)" "it = (s, a, b)" by (metis prod_cases3 surj_pair)
  have w: "s \<in> set (sizeLadder (en_policy e) (cu_Symbol u))" "[a, b] \<in> set pairs \<or> [b, a] \<in> set pairs"
    using assms(1) unfolding it work_items_iff by simp_all
  from assms(2) w show ?thesis
    unfolding it
    by (auto simp: consider_pair_def Let_def not_less split: option.splits if_splits intro: candidate_okI)
qed

lemma consider_run_ok:
  assumes "set its \<subseteq> set (work_items (en_policy e) (cu_Symbol u) pairs)"
    and "i \<in> set (snd (foldl (consider_pair u vmap rnd) (e, []) its))"
  shows "candidate_ok e u vmap pairs i"
proof -
  have "\<forall>i\<in>set (snd (foldl (consider_pair u vmap rnd) (e, []) its)). candidate_ok e u vmap pairs i"
    using assms(1)
  proof (induction its rule: rev_induct)
    case Nil
    show ?case by simp
  next
    case (snoc it its)
    let ?r = "foldl (consider_pair u vmap rnd) (e, []) its"
    have frame: "en_policy (fst ?r) = en_policy e" "en_cooldown (fst ?r) = en_cooldown e" by simp_all
    have "it \<in> set (work_items (en_policy (fst ?r)) (cu_Symbol u) pairs)" using snoc.prems by simp
    from consider_pair_ok [OF this] snoc candidate_ok_cong [OF frame] show ?case by auto
  qed
  with assms(2) show ?thesis by blast
qed

text \<open>The stable contract of an unstable sort: a permutation in descending order of profit.\<close>

definition profit :: "TradeIntent \<Rightarrow> real" where
  "profit i = em_ProfitUSDNet (ti_Expected i)"

definition is_by_profit :: "(TradeIntent list \<Rightarrow> TradeIntent list) \<Rightarrow> bool" where
  "is_by_profit f \<longleftrightarrow> (\<forall>cs. mset (f cs) = mset cs \<and> sorted_wrt (\<lambda>a b. profit b \<le> profit a) (f cs))"

definition venues_of :: "TradeIntent \<Rightarrow> string set" where
  "venues_of i = {tl_Venue (ti_Legs i ! 0), tl_Venue (ti_Legs i ! 1)}"

lemma pickBest_cases:
  assumes "is_by_profit f"
  obtains "cs = []" "pickBest f cs = []"
  | b where "b \<in> set cs" "\<forall>c\<in>set cs. profit c \<le> profit b" "pickBest f cs = [b]"
      "\<forall>c\<in>set cs. c \<noteq> b \<longrightarrow> venues_of c \<inter> venues_of b \<noteq> {}"
  | b c where "b \<in> set cs" "c \<in> set cs" "\<forall>c\<in>set cs. profit c \<le> profit b" "pickBest f cs = [b, c]"
      "venues_of c \<inter> venues_of b = {}"
      "\<forall>d\<in>set cs. venues_of d \<inter> venues_of b = {} \<longrightarrow> profit d \<le> profit c"
proof -
  have perm: "mset (f cs) = mset cs" and desc: "sorted_wrt (\<lambda>a b. profit b \<le> profit a) (f cs)"
    using assms by (auto simp: is_by_profit_def)
  have sets: "set (f cs) = set cs" using perm by (rule mset_eq_setD)
  show ?thesis
  proof (cases "f cs")
    case Nil
    with perm have "cs = []" by simp
    then show ?thesis using Nil that(1) by (simp add: pickBest_def)
  next
    case (Cons b rest)
    let ?P = "\<lambda>c. tl_Venue (ti_Legs c ! 0) \<notin> venues_of b \<and> tl_Venue (ti_Legs c ! 1) \<notin> venues_of b"
    have P: "?P c \<longleftrightarrow> venues_of c \<inter> venues_of b = {}" for c by (auto simp: venues_of_def)
    have best: "b \<in> set cs" "\<forall>c\<in>set cs. profit c \<le> profit b"
      using Cons sets desc by (auto simp flip: sets)
    have pick: "pickBest f cs = (case find ?P rest of None \<Rightarrow> [b] | Some c \<Rightarrow> [b, c])"
      by (simp add: pickBest_def Cons first_disjoint_def Let_def venues_of_def)
    show ?thesis
    proof (cases "find ?P rest")
      case None
      then have "\<forall>c\<in>set cs. c \<noteq> b \<longrightarrow> venues_of c \<inter> venues_of b \<noteq> {}"
        using sets Cons P by (auto simp: find_None_iff)
      with best None pick that(2) show ?thesis by simp
    next
      case (Some c)
      then obtain k where k: "k < length rest" "?P (rest ! k)" "c = rest ! k" "\<forall>j<k. \<not> ?P (rest ! j)"
        by (auto simp: find_Some_iff)
      have dr: "sorted_wrt (\<lambda>a b. profit b \<le> profit a) rest" using desc Cons by simp
      have bb: "venues_of b \<inter> venues_of b \<noteq> {}" by (simp add: venues_of_def)
      have "profit d \<le> profit c" if "d \<in> set cs" "venues_of d \<inter> venues_of b = {}" for d
      proof -
        have "d \<in> set rest" using that sets Cons bb by auto
        then obtain j where j: "j < length rest" "d = rest ! j" by (auto simp: in_set_conv_nth)
        with that k(4) P have "k \<le> j" by (meson not_le)
        then show ?thesis using dr k j by (cases "k = j") (auto simp: sorted_wrt_iff_nth_less)
      qed
      moreover have "c \<in> set cs" using k sets Cons by auto
      ultimately show ?thesis using that(3) best Some pick k(2,3) P by simp
    qed
  qed
qed

lemma pickBest_subset: "is_by_profit f \<Longrightarrow> set (pickBest f cs) \<subseteq> set cs"
  by (rule pickBest_cases [of f cs]) auto

section \<open>Process\<close>

lemma emit_run:
  "en_policy (foldl (emit u) e is) = en_policy e"
  "en_cooldown (foldl (emit u) e is) =
     foldl (\<lambda>c (k, t). Mark c k t) (en_cooldown e) (map (\<lambda>i. (ic_CooldownKey (ti_Constraints i), cu_TsMs u)) is)"
  by (induction "is" arbitrary: e) (simp_all add: emit_def)

text \<open>Either a gate stops the update, or the chosen candidates are emitted and marked.\<close>

definition gates_open :: "ArbPolicy \<Rightarrow> ConsensusUpdate \<Rightarrow> bool" where
  "gates_open p u \<longleftrightarrow>
     qualityRank (ar_MinConsensusQuality p) \<le> qualityRank (c_Quality (cu_Consensus u)) \<and>
     intentTTL p (c_Quality (cu_Consensus u)) \<noteq> 0 \<and> 2 \<le> length (filterVenues p u) \<and>
     map_get [] (ar_EnabledPairs p) (cu_Symbol u) \<noteq> [] \<and> epsilon \<le> c_Mid (cu_Consensus u)"

definition venue_map :: "ArbPolicy \<Rightarrow> ConsensusUpdate \<Rightarrow> string \<rightharpoonup> VenueMetrics" where
  "venue_map p u = map_of (rev (map (\<lambda>vm. (vm_Venue vm, vm)) (filterVenues p u)))"

definition candidates_of :: "(nat \<Rightarrow> 8 word list) \<Rightarrow> Engine \<Rightarrow> ConsensusUpdate \<Rightarrow> Engine \<times> TradeIntent list" where
  "candidates_of rnd e u = foldl (consider_pair u (venue_map (en_policy e) u) rnd) (e, [])
     (work_items (en_policy e) (cu_Symbol u) (map_get [] (ar_EnabledPairs (en_policy e)) (cu_Symbol u)))"

lemma Process_closed:
  assumes "\<not> gates_open (en_policy e) u"
  shows "snd (Process f rnd e u) = []" "en_policy (fst (Process f rnd e u)) = en_policy e"
    "en_cooldown (fst (Process f rnd e u)) = en_cooldown e"
  using assms by (auto simp: Process_def gates_open_def Let_def reject_def)

lemma Process_open:
  assumes "gates_open (en_policy e) u"
  shows "Process f rnd e u =
    (let best = pickBest f (snd (candidates_of rnd e u))
     in (foldl (emit u) (fst (candidates_of rnd e u)) best, best))"
  using assms by (simp add: Process_def gates_open_def candidates_of_def venue_map_def Let_def case_prod_unfold)

lemma Process_frame:
  "en_policy (fst (Process f rnd e u)) = en_policy e"
  "en_cooldown (fst (Process f rnd e u)) = foldl (\<lambda>c (k, t). Mark c k t) (en_cooldown e)
     (map (\<lambda>i. (ic_CooldownKey (ti_Constraints i), cu_TsMs u)) (snd (Process f rnd e u)))"
  by (cases "gates_open (en_policy e) u";
      simp add: Process_closed Process_open Let_def emit_run candidates_of_def)+

lemma Process_emits:
  assumes "is_by_profit f" "i \<in> set (snd (Process f rnd e u))"
  shows "gates_open (en_policy e) u"
    "candidate_ok e u (venue_map (en_policy e) u) (map_get [] (ar_EnabledPairs (en_policy e)) (cu_Symbol u)) i"
proof -
  show g: "gates_open (en_policy e) u" using assms(2) Process_closed(1) by (cases "gates_open (en_policy e) u") auto
  have "i \<in> set (snd (candidates_of rnd e u))"
    using assms g pickBest_subset by (fastforce simp: Process_open Let_def)
  then show "candidate_ok e u (venue_map (en_policy e) u) (map_get [] (ar_EnabledPairs (en_policy e)) (cu_Symbol u)) i"
    unfolding candidates_of_def by (rule consider_run_ok [OF subset_refl])
qed

lemma venue_map_Some:
  "venue_map p u v = Some vm \<Longrightarrow> vm \<in> set (cu_Venues u) \<and> vm_Venue vm = v \<and> eligible_venue p vm"
  by (auto simp: venue_map_def filterVenues_def dest!: map_of_SomeD)

text \<open>Every venue an intent trades on is an eligible venue of the update.\<close>

lemma intent_venue_eligible:
  assumes "is_by_profit f" "i \<in> set (snd (Process f rnd e u))" "v \<in> venues_of i"
  obtains vm where "vm \<in> set (cu_Venues u)" "vm_Venue vm = v" "eligible_venue (en_policy e) vm"
proof -
  obtain s a b uuid bv sv where i: "i = make_intent (en_policy e) u uuid s a b bv sv"
    "venue_map (en_policy e) u a = Some bv" "venue_map (en_policy e) u b = Some sv"
    using Process_emits(2) [OF assms(1,2)] unfolding candidate_ok_def by blast
  have "v = a \<or> v = b" using assms(3) by (auto simp: i(1) venues_of_def make_intent_def Let_def)
  with venue_map_Some [OF i(2)] venue_map_Some [OF i(3)] that show thesis by blast
qed

text \<open>A run of the engine on a list of updates.\<close>

definition process_step ::
  "(TradeIntent list \<Rightarrow> TradeIntent list) \<Rightarrow> (nat \<Rightarrow> 8 word list) \<Rightarrow> Engine \<Rightarrow> ConsensusUpdate \<Rightarrow> Engine" where
  "process_step f rnd e u = fst (Process f rnd e u)"

lemma process_run_policy: "en_policy (foldl (process_step f rnd) e us) = en_policy e"
  by (induction us arbitrary: e) (simp_all add: process_step_def Process_frame)

lemma hot_after_process:
  assumes "IsOnCooldownWithTTL (en_cooldown e) k now ttl" "now - cu_TsMs u < ttl"
  shows "IsOnCooldownWithTTL (en_cooldown (process_step f rnd e u)) k now ttl"
  unfolding process_step_def Process_frame(2)
  by (rule arb_cooldown.hot_stays [OF assms(1)]) (use assms(2) in auto)

lemma hot_after_run:
  assumes "IsOnCooldownWithTTL (en_cooldown e) k now ttl" "\<forall>u\<in>set us. now - cu_TsMs u < ttl"
  shows "IsOnCooldownWithTTL (en_cooldown (foldl (process_step f rnd) e us)) k now ttl"
  using assms by (induction us arbitrary: e) (auto intro: hot_after_process)

lemma hot_after_emission:
  assumes "i \<in> set (snd (Process f rnd e u))" "now - cu_TsMs u < ttl"
  shows "IsOnCooldownWithTTL (en_cooldown (process_step f rnd e u)) (ic_CooldownKey (ti_Constraints i)) now ttl"
proof -
  have "foldl (\<lambda>c (k, t). Mark c k t) c (map (\<lambda>i. (g i, t)) is) = foldl (\<lambda>c k. Mark c k t) c (map g is)"
    for c t and g :: "TradeIntent \<Rightarrow> string" and "is"
    by (induction "is" arbitrary: c) simp_all
  then show ?thesis
    using assms unfolding process_step_def Process_frame(2) by (simp add: arb_cooldown.hot_mark_list)
qed

lemma make_intent_key [simp]:
  "ic_CooldownKey (ti_Constraints (make_intent p u uuid s a b bv sv)) = cooldown_key (cu_Symbol u) a b"
  by (simp add: make_intent_def Let_def)

section \<open>Properties\<close>

text \<open>
  C14.  Every emitted intent passed every gate: the consensus quality is at least the configured
  minimum and has a lifetime, its legs buy on one and sell on the other venue of an enabled pair
  with one notional of the size ladder, both venues are venues of the update that are not
  blacklisted (not in WARN or flagged as outliers where the policy excludes these), and its net
  edge, after the latency buffer on both legs, is at least the minimum edge.
\<close>

theorem emitted_intent_passed_every_gate:
  assumes "is_by_profit by_profit" "i \<in> set (snd (Process by_profit rnd e u))"
  shows "\<exists>s bv sv.
    {bv, sv} \<subseteq> {vm \<in> set (cu_Venues u). eligible_venue (en_policy e) vm} \<and>
    map tl_Venue (ti_Legs i) = [vm_Venue bv, vm_Venue sv] \<and> map tl_Action (ti_Legs i) = [''BUY'', ''SELL''] \<and>
    map tl_NotionalUSD (ti_Legs i) = [s, s] \<and> s \<in> set (sizeLadder (en_policy e) (cu_Symbol u)) \<and>
    {[vm_Venue bv, vm_Venue sv], [vm_Venue sv, vm_Venue bv]} \<inter>
      set (map_get [] (ar_EnabledPairs (en_policy e)) (cu_Symbol u)) \<noteq> {} \<and>
    em_EdgeBpsNet (ti_Expected i) =
      grossEdge (latencyBuffer (en_policy e) (c_Quality (cu_Consensus u)) (cu_Symbol u)) (c_Mid (cu_Consensus u)) bv sv \<and>
    minEdge (en_policy e) (c_Quality (cu_Consensus u)) (cu_Symbol u) \<le> em_EdgeBpsNet (ti_Expected i) \<and>
    profit i = s * em_EdgeBpsNet (ti_Expected i) / 10000 \<and>
    qualityRank (ar_MinConsensusQuality (en_policy e)) \<le> qualityRank (c_Quality (cu_Consensus u)) \<and>
    ti_ExpiresMs i = cu_TsMs u + intentTTL (en_policy e) (c_Quality (cu_Consensus u)) \<and>
    ti_ExpiresMs i \<noteq> ti_TsMs i"
proof -
  note pe = Process_emits [OF assms]
  obtain s a b uuid bv sv where i:
    "i = make_intent (en_policy e) u uuid s a b bv sv"
    "venue_map (en_policy e) u a = Some bv" "venue_map (en_policy e) u b = Some sv"
    "s \<in> set (sizeLadder (en_policy e) (cu_Symbol u))"
    "[a, b] \<in> set (map_get [] (ar_EnabledPairs (en_policy e)) (cu_Symbol u)) \<or>
     [b, a] \<in> set (map_get [] (ar_EnabledPairs (en_policy e)) (cu_Symbol u))"
    "minEdge (en_policy e) (c_Quality (cu_Consensus u)) (cu_Symbol u) \<le>
       grossEdge (latencyBuffer (en_policy e) (c_Quality (cu_Consensus u)) (cu_Symbol u)) (c_Mid (cu_Consensus u)) bv sv"
    using pe(2) unfolding candidate_ok_def by blast
  have v: "bv \<in> set (cu_Venues u)" "vm_Venue bv = a" "eligible_venue (en_policy e) bv"
    "sv \<in> set (cu_Venues u)" "vm_Venue sv = b" "eligible_venue (en_policy e) sv"
    using venue_map_Some [OF i(2)] venue_map_Some [OF i(3)] by simp_all
  show ?thesis
    using v i(4-6) pe(1) unfolding gates_open_def
    by (intro exI [of _ s] exI [of _ bv] exI [of _ sv])
       (auto simp: i(1) make_intent_def Let_def profit_def)
qed

text \<open>
  At most two intents are emitted: the first has the highest expected profit of all
  candidates, the second shares no venue with it and has the highest profit among the
  candidates that share none, and there is a second one whenever there is such a candidate.
\<close>

theorem emitted_intents_are_the_best_disjoint_two:
  assumes "is_by_profit by_profit" "gates_open (en_policy e) u"
  shows "case snd (Process by_profit rnd e u) of
      [] \<Rightarrow> snd (candidates_of rnd e u) = []
    | b # rest \<Rightarrow> b \<in> set (snd (candidates_of rnd e u)) \<and>
        (\<forall>c\<in>set (snd (candidates_of rnd e u)). profit c \<le> profit b) \<and>
        (case rest of
           [] \<Rightarrow> \<forall>c\<in>set (snd (candidates_of rnd e u)). c = b \<or> venues_of c \<inter> venues_of b \<noteq> {}
         | c # rest' \<Rightarrow> rest' = [] \<and> venues_of c \<inter> venues_of b = {} \<and>
             (\<forall>d\<in>set (snd (candidates_of rnd e u)). venues_of d \<inter> venues_of b = {} \<longrightarrow> profit d \<le> profit c))"
proof -
  have p: "snd (Process by_profit rnd e u) = pickBest by_profit (snd (candidates_of rnd e u))"
    by (simp add: Process_open [OF assms(2)] Let_def)
  show ?thesis
    unfolding p by (rule pickBest_cases [OF assms(1), of "snd (candidates_of rnd e u)"]) auto
qed

text \<open>
  No spam: two intents for the same direction of the same pair and symbol, emitted for two
  different updates of a run with non-decreasing time stamps, are at least the cooldown of the
  symbol apart.
\<close>

theorem repeated_intents_respect_the_cooldown:
  assumes "is_by_profit by_profit"
    and "i1 \<in> set (snd (Process by_profit rnd e u1))"
    and "i2 \<in> set (snd (Process by_profit rnd (foldl (process_step by_profit rnd) e (u1 # us)) u2))"
    and "ic_CooldownKey (ti_Constraints i1) = ic_CooldownKey (ti_Constraints i2)"
    and "\<forall>u\<in>set us. cu_TsMs u1 \<le> cu_TsMs u"
  shows "cooldown (en_policy e) (cu_Symbol u2) \<le> cu_TsMs u2 - cu_TsMs u1"
proof (rule ccontr)
  assume "\<not> ?thesis"
  then have hot: "cu_TsMs u2 - cu_TsMs u1 < cooldown (en_policy e) (cu_Symbol u2)" by simp
  let ?e = "foldl (process_step by_profit rnd) e (u1 # us)"
  have pol: "en_policy ?e = en_policy e" by (rule process_run_policy)
  have "IsOnCooldownWithTTL (en_cooldown ?e) (ic_CooldownKey (ti_Constraints i1)) (cu_TsMs u2)
      (cooldown (en_policy e) (cu_Symbol u2))"
    using hot_after_run [OF hot_after_emission [OF assms(2) hot]] assms(5) hot by fastforce
  moreover have "\<not> IsOnCooldownWithTTL (en_cooldown ?e) (ic_CooldownKey (ti_Constraints i2)) (cu_TsMs u2)
      (cooldown (en_policy e) (cu_Symbol u2))"
    using Process_emits(2) [OF assms(1,3)] unfolding candidate_ok_def pol by auto
  ultimately show False using assms(4) by simp
qed

section \<open>A concrete engine for the witnesses\<close>

definition sample_arb :: ArbPolicy where
  "sample_arb =
     \<lparr>ar_Symbols = [''BTC-PERP''], ar_MinConsensusQuality = ''MED'',
      ar_MinEdgeBpsNet = [''HIGH'' \<mapsto> 6], ar_IntentTTLMs = [''HIGH'' \<mapsto> 400],
      ar_LatencyBufferBps = [''HIGH'' \<mapsto> 0], ar_SizeLadderUSD = [1000], ar_MaxSlippageBps = 8,
      ar_CooldownMs = 300, ar_AllowWarnVenues = False, ar_IgnoreFlaggedVenues = True,
      ar_EnabledPairs = [''BTC-PERP'' \<mapsto> [[''okx'', ''bybit'']]], ar_SymbolOverrides = Map.empty,
      ar_RedisAddr = '''', ar_RedisPassword = '''', ar_RedisUseTLS = False\<rparr>"

definition sample_vm :: "string \<Rightarrow> real \<Rightarrow> real \<Rightarrow> VenueMetrics" where
  "sample_vm v buy sell =
     \<lparr>vm_Venue = v, vm_Status = StateOK, vm_Trust = 1, vm_Mid = 100, vm_BuyExec = buy, vm_SellExec = sell,
      vm_EffectiveBuy = buy, vm_EffectiveSell = sell, vm_DeviationBps = 0, vm_Flags = []\<rparr>"

definition sample_update :: "int \<Rightarrow> ConsensusUpdate" where
  "sample_update t =
     \<lparr>cu_SchemaVersion = 0, cu_TenantID = ''t'', cu_Symbol = ''BTC-PERP'', cu_TsMs = t,
      cu_SizeNotionalUSD = 1000,
      cu_Consensus = \<lparr>c_Mid = 100, c_BuyExec = 100, c_SellExec = 100, c_BandLow = 99, c_BandHigh = 111,
                      c_Quality = ''HIGH''\<rparr>,
      cu_Venues = [sample_vm ''okx'' 100 99, sample_vm ''bybit'' 111 110]\<rparr>"

definition sample_sort :: "TradeIntent list \<Rightarrow> TradeIntent list" where
  "sample_sort = sort_key (\<lambda>i. - profit i)"

lemma sample_sort_ok [simp]: "is_by_profit sample_sort"
proof -
  have "sorted_wrt (\<lambda>a b. profit b \<le> profit a) (sort_key (\<lambda>i. - profit i) cs)" for cs
    using sorted_sort_key [of "\<lambda>i. - profit i" cs] by (simp add: sorted_wrt_map)
  then show ?thesis by (simp add: is_by_profit_def sample_sort_def)
qed

definition no_rnd :: "nat \<Rightarrow> 8 word list" where
  "no_rnd k = replicate 16 0"

definition sample_intent :: "int \<Rightarrow> TradeIntent" where
  "sample_intent t = make_intent sample_arb (sample_update t) (newUUID (no_rnd 0)) 1000 ''okx'' ''bybit''
     (sample_vm ''okx'' 100 99) (sample_vm ''bybit'' 111 110)"

lemma sample_filter: "filterVenues sample_arb (sample_update t) = cu_Venues (sample_update t)"
  by (simp add: filterVenues_def sample_update_def eligible_venue_def sample_arb_def sample_vm_def hasFlag_def)

lemma sample_gates: "gates_open sample_arb (sample_update t)"
  unfolding gates_open_def sample_filter
  by (simp add: sample_arb_def sample_update_def qualityRank_def intentTTL_def map_get_def epsilon_def)

lemma sample_policy_values:
  "latencyBuffer sample_arb ''HIGH'' s = 0" "minEdge sample_arb ''HIGH'' s = 6" "cooldown sample_arb s = 300"
  "sizeLadder sample_arb s = [1000]"
  by (simp_all add: latencyBuffer_def minEdge_def cooldown_def sizeLadder_def override_at_def sample_arb_def)

lemma sample_items:
  "work_items sample_arb ''BTC-PERP'' (map_get [] (ar_EnabledPairs sample_arb) ''BTC-PERP'') =
     [(1000, ''okx'', ''bybit''), (1000, ''bybit'', ''okx'')]"
  unfolding work_items_def sample_policy_values by (simp add: sample_arb_def map_get_def)

lemma sample_vmap:
  "venue_map sample_arb (sample_update t) =
     map_of [(''bybit'', sample_vm ''bybit'' 111 110), (''okx'', sample_vm ''okx'' 100 99)]"
  unfolding venue_map_def sample_filter by (simp add: sample_update_def sample_vm_def)

lemma sample_update_simps [simp]:
  "cu_Symbol (sample_update t) = ''BTC-PERP''" "cu_TsMs (sample_update t) = t"
  "c_Quality (cu_Consensus (sample_update t)) = ''HIGH''" "c_Mid (cu_Consensus (sample_update t)) = 100"
  by (simp_all add: sample_update_def)

lemma sample_edges:
  "grossEdge 0 100 (sample_vm ''okx'' 100 99) (sample_vm ''bybit'' 111 110) = 1000"
  "grossEdge 0 100 (sample_vm ''bybit'' 111 110) (sample_vm ''okx'' 100 99) = - 1200"
  by (simp_all add: grossEdge_def sample_vm_def)

lemma sample_candidates:
  assumes "en_policy e = sample_arb"
    "\<not> IsOnCooldownWithTTL (en_cooldown e) (cooldown_key ''BTC-PERP'' ''okx'' ''bybit'') t 300"
  shows "snd (candidates_of no_rnd e (sample_update t)) = [sample_intent t]"
  unfolding candidates_of_def assms(1) sample_update_simps sample_items sample_vmap
  using assms(2) by (simp add: consider_pair_def assms(1) sample_policy_values sample_edges sample_intent_def reject_def Let_def)

lemma sample_emits:
  assumes "en_policy e = sample_arb"
    "\<not> IsOnCooldownWithTTL (en_cooldown e) (cooldown_key ''BTC-PERP'' ''okx'' ''bybit'') t 300"
  shows "snd (Process sample_sort no_rnd e (sample_update t)) = [sample_intent t]"
proof -
  have "gates_open (en_policy e) (sample_update t)" using sample_gates assms(1) by simp
  then show ?thesis
    by (simp add: Process_open Let_def sample_candidates [OF assms] pickBest_def sample_sort_def first_disjoint_def)
qed

abbreviation sample_engine :: Engine where
  "sample_engine \<equiv> NewEngine sample_arb"

lemma sample_engine_cold:
  "en_policy sample_engine = sample_arb" "\<not> IsOnCooldownWithTTL (en_cooldown sample_engine) k t d"
  by (simp_all add: NewEngine_def NewCooldown_def IsOnCooldownWithTTL_def)

theorem emitted_intent_passed_every_gate_witness:
  "\<exists>i. snd (Process sample_sort no_rnd sample_engine (sample_update 5)) = [i] \<and> 6 \<le> em_EdgeBpsNet (ti_Expected i) \<and>
     map tl_Action (ti_Legs i) = [''BUY'', ''SELL'']"
proof -
  have s: "snd (Process sample_sort no_rnd sample_engine (sample_update 5)) = [sample_intent 5]"
    by (rule sample_emits [OF sample_engine_cold])
  have "sample_intent 5 \<in> set (snd (Process sample_sort no_rnd sample_engine (sample_update 5)))"
    unfolding s by simp
  from emitted_intent_passed_every_gate [OF sample_sort_ok this]
  have "6 \<le> em_EdgeBpsNet (ti_Expected (sample_intent 5)) \<and>
      map tl_Action (ti_Legs (sample_intent 5)) = [''BUY'', ''SELL'']"
    unfolding sample_engine_cold sample_update_simps sample_policy_values
    by (elim exE conjE) (intro conjI; assumption)
  with s show ?thesis by simp
qed

theorem emitted_intents_are_the_best_disjoint_two_witness:
  "\<exists>b. snd (Process sample_sort no_rnd sample_engine (sample_update 5)) = [b] \<and> profit b = profit (sample_intent 5)"
proof -
  have g: "gates_open (en_policy sample_engine) (sample_update 5)" using sample_gates sample_engine_cold by simp
  show ?thesis
    using emitted_intents_are_the_best_disjoint_two [OF sample_sort_ok g, of no_rnd]
    unfolding sample_emits [OF sample_engine_cold] sample_candidates [OF sample_engine_cold] by simp
qed

theorem repeated_intents_respect_the_cooldown_witness:
  "cooldown sample_arb ''BTC-PERP'' \<le> 400 - 0 \<and>
   sample_intent 400 \<in> set (snd (Process sample_sort no_rnd
     (foldl (process_step sample_sort no_rnd) sample_engine [sample_update 0]) (sample_update 400)))"
proof -
  let ?e = "foldl (process_step sample_sort no_rnd) sample_engine [sample_update 0]"
  have one: "snd (Process sample_sort no_rnd sample_engine (sample_update 0)) = [sample_intent 0]"
    by (rule sample_emits [OF sample_engine_cold])
  have "en_cooldown ?e = Mark (en_cooldown sample_engine) (cooldown_key ''BTC-PERP'' ''okx'' ''bybit'') 0"
    by (simp add: process_step_def Process_frame(2) one sample_intent_def)
  then have cold: "\<not> IsOnCooldownWithTTL (en_cooldown ?e) (cooldown_key ''BTC-PERP'' ''okx'' ''bybit'') 400 300"
    by (simp add: arb_cooldown.hot_mark_same)
  have "en_policy ?e = sample_arb" by (simp only: process_run_policy sample_engine_cold)
  from sample_emits [OF this cold]
  have two: "sample_intent 400 \<in> set (snd (Process sample_sort no_rnd ?e (sample_update 400)))" by simp
  have "sample_intent 0 \<in> set (snd (Process sample_sort no_rnd sample_engine (sample_update 0)))" using one by simp
  from repeated_intents_respect_the_cooldown [OF sample_sort_ok this two] two show ?thesis
    by (simp add: sample_intent_def sample_engine_cold)
qed

end
