(* ===== verification/Orderbook.thy ===== *)
theory Orderbook
  imports Interfaces
begin

text \<open>
  internal/orderbook (book.go, flow.go): the aggregator of level-2 books, its merged book, the
  slippage estimate, and the order-flow detector.  Maps that are ranged over are association
  lists in iteration order; \<open>by_bid\<close> and \<open>by_ask\<close> stand for the unstable sorts of the merged
  sides.
\<close>

section \<open>Books\<close>

record Level =
  lv_Price :: float64
  lv_Qty :: float64

record VenueBook =
  vb_Venue :: string
  vb_Symbol :: string
  vb_Bids :: "Level list"
  vb_Asks :: "Level list"
  vb_TsMs :: int64
  vb_LatencyUs :: int64

record DepthInfo =
  di_Venue :: string
  di_BidDepthUSD :: float64
  di_AskDepthUSD :: float64
  di_BestBid :: float64
  di_BestAsk :: float64
  di_Spread :: float64
  di_Imbalance :: float64
  di_Levels :: int
  di_LatencyUs :: int64

record SyntheticBook =
  sb_Symbol :: string
  sb_Bids :: "Level list"
  sb_Asks :: "Level list"
  sb_VenueDepth :: "string \<rightharpoonup> DepthInfo"
  sb_TsMs :: int64

record SlippagePoint =
  sp_SizeUSD :: float64
  sp_SlippageBps :: float64
  sp_FillPct :: float64

record SlippageCurve =
  sc_Venue :: string
  sc_Symbol :: string
  sc_Buy :: "SlippagePoint list"
  sc_Sell :: "SlippagePoint list"

text \<open>The books of a symbol by venue, in iteration order; a missing symbol has none.\<close>

record Aggregator =
  ag_books :: "string \<Rightarrow> (string \<times> VenueBook) list"

definition NewAggregator :: Aggregator where
  "NewAggregator = \<lparr>ag_books = (\<lambda>_. [])\<rparr>"

definition Update :: "VenueBook \<Rightarrow> Aggregator \<Rightarrow> Aggregator" where
  "Update book a = a\<lparr>ag_books := (ag_books a)(vb_Symbol book :=
      AList.update (vb_Venue book) book (ag_books a (vb_Symbol book)))\<rparr>"

definition book_of :: "Aggregator \<Rightarrow> string \<times> string \<Rightarrow> VenueBook option" where
  "book_of a sv = map_of (ag_books a (fst sv)) (snd sv)"

text \<open>One venue's part of \<open>SyntheticFor\<close>.\<close>

definition side_usd :: "Level list \<Rightarrow> float64" where
  "side_usd ls = foldl (\<lambda>s l. s + lv_Price l * lv_Qty l) 0 ls"

definition depth_info :: "string \<Rightarrow> VenueBook \<Rightarrow> DepthInfo" where
  "depth_info venue vb =
     (let bidUSD = side_usd (vb_Bids vb); askUSD = side_usd (vb_Asks vb);
          bestBid = (case vb_Bids vb of [] \<Rightarrow> 0 | l # _ \<Rightarrow> lv_Price l);
          bestAsk = (case vb_Asks vb of [] \<Rightarrow> 0 | l # _ \<Rightarrow> lv_Price l);
          spreadBps = (if bestBid > 0 \<and> bestAsk > 0
                       then (bestAsk - bestBid) / ((bestBid + bestAsk) / 2) * 10000 else 0);
          totalUSD = bidUSD + askUSD;
          imbalance = (if totalUSD > 0 then (bidUSD - askUSD) / totalUSD else 0)
      in \<lparr>di_Venue = venue, di_BidDepthUSD = bidUSD, di_AskDepthUSD = askUSD, di_BestBid = bestBid,
          di_BestAsk = bestAsk, di_Spread = spreadBps, di_Imbalance = imbalance,
          di_Levels = int (length (vb_Bids vb) + length (vb_Asks vb)), di_LatencyUs = vb_LatencyUs vb\<rparr>)"

definition merge_venue :: "int64 \<Rightarrow> SyntheticBook \<Rightarrow> string \<times> VenueBook \<Rightarrow> SyntheticBook" where
  "merge_venue now sb e =
     (case e of (venue, vb) \<Rightarrow>
       if now - vb_TsMs vb > 5000 then sb
       else sb\<lparr>sb_Bids := sb_Bids sb @ map (\<lambda>l. \<lparr>lv_Price = lv_Price l, lv_Qty = lv_Qty l\<rparr>) (vb_Bids vb),
               sb_Asks := sb_Asks sb @ map (\<lambda>l. \<lparr>lv_Price = lv_Price l, lv_Qty = lv_Qty l\<rparr>) (vb_Asks vb),
               sb_VenueDepth := (sb_VenueDepth sb)(venue \<mapsto> depth_info venue vb)\<rparr>)"

definition SyntheticFor ::
  "(Level list \<Rightarrow> Level list) \<Rightarrow> (Level list \<Rightarrow> Level list) \<Rightarrow> int64 \<Rightarrow> Aggregator \<Rightarrow> string \<Rightarrow> SyntheticBook option" where
  "SyntheticFor by_bid by_ask now a symbol =
     (let venueBooks = ag_books a symbol in
      if venueBooks = [] then None
      else (let sb = foldl (merge_venue now)
                  \<lparr>sb_Symbol = symbol, sb_Bids = [], sb_Asks = [], sb_VenueDepth = Map.empty, sb_TsMs = now\<rparr>
                  venueBooks
            in Some (sb\<lparr>sb_Bids := by_bid (sb_Bids sb), sb_Asks := by_ask (sb_Asks sb)\<rparr>)))"

section \<open>Slippage\<close>

text \<open>The loop over the levels, with its accumulators and its break.\<close>

fun take_levels :: "float64 \<Rightarrow> Level list \<Rightarrow> float64 \<Rightarrow> float64 \<Rightarrow> float64 \<times> float64" where
  "take_levels sizeUSD [] filled weightedPrice = (filled, weightedPrice)"
| "take_levels sizeUSD (l # ls) filled weightedPrice =
     (let levelUSD = lv_Price l * lv_Qty l;
          tk = min levelUSD (sizeUSD - filled);
          weightedPrice = weightedPrice + lv_Price l * tk;
          filled = filled + tk
      in if filled \<ge> sizeUSD then (filled, weightedPrice) else take_levels sizeUSD ls filled weightedPrice)"

definition slippage_on :: "Level list \<Rightarrow> float64 \<Rightarrow> float64 \<times> float64" where
  "slippage_on levels sizeUSD =
     (case levels of
        [] \<Rightarrow> (100, 0)
      | l # _ \<Rightarrow>
          (let refPrice = lv_Price l;
               (filled, weightedPrice) = take_levels sizeUSD levels 0 0
           in if filled = 0 then (100, 0)
              else (let avgPrice = weightedPrice / filled;
                        slippageBps = \<bar>avgPrice - refPrice\<bar> / refPrice * 10000;
                        fillPct = filled / sizeUSD * 100
                    in (slippageBps, if fillPct > 100 then 100 else fillPct))))"

definition EstimateSlippage :: "Aggregator \<Rightarrow> string \<Rightarrow> string \<Rightarrow> float64 \<Rightarrow> bool \<Rightarrow> float64 \<times> float64" where
  "EstimateSlippage a symbol venue sizeUSD isBuy =
     (case book_of a (symbol, venue) of
        None \<Rightarrow> (100, 0)
      | Some vb \<Rightarrow> slippage_on (if isBuy then vb_Asks vb else vb_Bids vb) sizeUSD)"

definition curve_sizes :: "float64 list" where
  "curve_sizes = [1000, 5000, 10000, 25000, 50000, 100000, 250000, 500000]"

definition SlippageCurveFor :: "Aggregator \<Rightarrow> string \<Rightarrow> string \<Rightarrow> SlippageCurve" where
  "SlippageCurveFor a symbol venue =
     (let point = (\<lambda>isBuy sz. let (slip, fill) = EstimateSlippage a symbol venue sz isBuy
                              in \<lparr>sp_SizeUSD = sz, sp_SlippageBps = slip, sp_FillPct = fill\<rparr>)
      in \<lparr>sc_Venue = venue, sc_Symbol = symbol, sc_Buy = map (point True) curve_sizes,
          sc_Sell = map (point False) curve_sizes\<rparr>)"

text \<open>\<open>math.MaxFloat64\<close> is the starting best; the venue is empty when none qualifies.\<close>

definition max_float64 :: float64 where
  "max_float64 = (2 - 1 / 2 ^ 52) * 2 ^ 1023"

definition BestExecutionVenue :: "Aggregator \<Rightarrow> string \<Rightarrow> float64 \<Rightarrow> bool \<Rightarrow> string \<times> float64" where
  "BestExecutionVenue a symbol sizeUSD isBuy =
     foldl (\<lambda>(bestVenue, bestSlip) v.
         let (slip, fill) = EstimateSlippage a symbol v sizeUSD isBuy
         in if fill \<ge> 90 \<and> slip < bestSlip then (v, slip) else (bestVenue, bestSlip))
       ('''', max_float64) (map fst (ag_books a symbol))"

section \<open>Order flow\<close>

record FlowSample =
  fs_TsMs :: int64
  fs_Venue :: string
  fs_Symbol :: string
  fs_AggressiveBuyQty :: float64
  fs_AggressiveSellQty :: float64
  fs_BidDepthDelta :: float64
  fs_AskDepthDelta :: float64

record LiquidityPressure =
  lp_Symbol :: string
  lp_Score :: float64
  lp_AggressiveBuyPct :: float64
  lp_DepletionRate :: float64
  lp_ReplenishRate :: float64
  lp_Confidence :: float64
  lp_TsMs :: int64

record FlowDetector =
  fd_samples :: "string \<Rightarrow> FlowSample list"
  fd_windowMs :: int64
  fd_maxSamples :: nat

definition NewFlowDetector :: "int64 \<Rightarrow> FlowDetector" where
  "NewFlowDetector windowMs = \<lparr>fd_samples = (\<lambda>_. []), fd_windowMs = windowMs, fd_maxSamples = 5000\<rparr>"

fun trim_old :: "int64 \<Rightarrow> FlowSample list \<Rightarrow> FlowSample list" where
  "trim_old cutoff [] = []"
| "trim_old cutoff (s # ss) = (if fs_TsMs s < cutoff then trim_old cutoff ss else s # ss)"

definition Record :: "int64 \<Rightarrow> FlowSample \<Rightarrow> FlowDetector \<Rightarrow> FlowDetector" where
  "Record now s fd =
     (let ss = fd_samples fd (fs_Symbol s) @ [s];
          ss = trim_old (now - fd_windowMs fd) ss;
          ss = keep_last (fd_maxSamples fd) ss
      in fd\<lparr>fd_samples := (fd_samples fd)(fs_Symbol s := ss)\<rparr>)"

definition no_pressure :: "string \<Rightarrow> int64 \<Rightarrow> LiquidityPressure" where
  "no_pressure symbol now =
     \<lparr>lp_Symbol = symbol, lp_Score = 0, lp_AggressiveBuyPct = 0, lp_DepletionRate = 0,
      lp_ReplenishRate = 0, lp_Confidence = 0, lp_TsMs = now\<rparr>"

definition Pressure :: "int64 \<Rightarrow> FlowDetector \<Rightarrow> string \<Rightarrow> LiquidityPressure" where
  "Pressure now fd symbol =
     (let cutoff = now - fd_windowMs fd;
          ss = filter (\<lambda>s. \<not> fs_TsMs s < cutoff) (fd_samples fd symbol);
          totalBuyQty = sum_list (map fs_AggressiveBuyQty ss);
          totalSellQty = sum_list (map fs_AggressiveSellQty ss);
          depl = (\<lambda>f. sum_list (map (\<lambda>s. if f s < 0 then \<bar>f s\<bar> else 0) ss));
          repl = (\<lambda>f. sum_list (map (\<lambda>s. if f s < 0 then 0 else f s) ss));
          totalVol = totalBuyQty + totalSellQty
      in if fd_samples fd symbol = [] then no_pressure symbol now
         else if totalVol = 0 \<or> length ss = 0 then no_pressure symbol now
         else
           (let flowImbalance = (totalBuyQty - totalSellQty) / totalVol;
                bidDepletions = depl fs_BidDepthDelta; askDepletions = depl fs_AskDepthDelta;
                depTotal = bidDepletions + askDepletions;
                depImbalance = (if depTotal > 0 then (askDepletions - bidDepletions) / depTotal else 0);
                score = 0.6 * flowImbalance + 0.4 * depImbalance;
                windowSec = of_int (fd_windowMs fd) / 1000
            in \<lparr>lp_Symbol = symbol, lp_Score = max (-1) (min 1 score),
                lp_AggressiveBuyPct = totalBuyQty / totalVol * 100,
                lp_DepletionRate = depTotal / windowSec,
                lp_ReplenishRate = (repl fs_BidDepthDelta + repl fs_AskDepthDelta) / windowSec,
                lp_Confidence = min 1 (real (length ss) / 20) * min 1 (totalVol / 10), lp_TsMs = now\<rparr>))"

section \<open>The store of books\<close>

lemma book_of_Update:
  "book_of (Update b a) (s, v) = (if s = vb_Symbol b \<and> v = vb_Venue b then Some b else book_of a (s, v))"
  by (simp add: book_of_def Update_def update_conv')

section \<open>The merged book\<close>

definition fresh :: "int64 \<Rightarrow> string \<times> VenueBook \<Rightarrow> bool" where
  "fresh now e \<longleftrightarrow> now - vb_TsMs (snd e) \<le> 5000"

lemma level_eta [simp]: "\<lparr>lv_Price = lv_Price l, lv_Qty = lv_Qty (l :: Level)\<rparr> = l"
  by simp

lemma merge_run:
  "sb_Bids (foldl (merge_venue now) sb es) = sb_Bids sb @ concat (map (\<lambda>e. vb_Bids (snd e)) (filter (fresh now) es))"
  "sb_Asks (foldl (merge_venue now) sb es) = sb_Asks sb @ concat (map (\<lambda>e. vb_Asks (snd e)) (filter (fresh now) es))"
  "dom (sb_VenueDepth (foldl (merge_venue now) sb es)) = dom (sb_VenueDepth sb) \<union> fst ` set (filter (fresh now) es)"
  by (induction es arbitrary: sb) (auto simp: merge_venue_def fresh_def split: if_splits)

definition is_bid_sort :: "(Level list \<Rightarrow> Level list) \<Rightarrow> bool" where
  "is_bid_sort f \<longleftrightarrow> (\<forall>ls. mset (f ls) = mset ls \<and> sorted_wrt (\<lambda>a b. lv_Price b \<le> lv_Price a) (f ls))"

definition is_ask_sort :: "(Level list \<Rightarrow> Level list) \<Rightarrow> bool" where
  "is_ask_sort f \<longleftrightarrow> (\<forall>ls. mset (f ls) = mset ls \<and> sorted_wrt (\<lambda>a b. lv_Price a \<le> lv_Price b) (f ls))"

section \<open>What the slippage loop takes\<close>

text \<open>The loop as the list of what it takes from each level.\<close>

fun takes :: "float64 \<Rightarrow> Level list \<Rightarrow> float64 \<Rightarrow> (float64 \<times> float64) list" where
  "takes sz [] filled = []"
| "takes sz (l # ls) filled =
     (let tk = min (lv_Price l * lv_Qty l) (sz - filled)
      in (lv_Price l, tk) # (if filled + tk \<ge> sz then [] else takes sz ls (filled + tk)))"

lemma take_levels_takes:
  "take_levels sz ls filled w =
     (filled + sum_list (map snd (takes sz ls filled)), w + (\<Sum>(p, t)\<leftarrow>takes sz ls filled. p * t))"
  by (induction ls arbitrary: filled w) (simp_all add: Let_def)

definition good_levels :: "Level list \<Rightarrow> bool" where
  "good_levels ls \<longleftrightarrow> (\<forall>l\<in>set ls. 0 < lv_Price l \<and> 0 < lv_Qty l)"

lemma takes_props:
  assumes "good_levels ls" "filled < sz"
  shows "(\<forall>(p, t)\<in>set (takes sz ls filled). 0 < t \<and> p \<in> lv_Price ` set ls) \<and>
    filled + sum_list (map snd (takes sz ls filled)) = min sz (filled + sum_list (map (\<lambda>l. lv_Price l * lv_Qty l) ls))"
  using assms
proof (induction ls arbitrary: filled)
  case Nil
  then show ?case by simp
next
  case (Cons l ls)
  have pos: "0 < lv_Price l * lv_Qty l" and good: "good_levels ls"
    using Cons.prems(1) by (auto simp: good_levels_def)
  let ?tk = "min (lv_Price l * lv_Qty l) (sz - filled)"
  show ?case
  proof (cases "filled + ?tk \<ge> sz")
    case True
    have "0 \<le> sum_list (map (\<lambda>l. lv_Price l * lv_Qty l) ls)"
      using good by (intro sum_list_map_nonneg) (auto simp: good_levels_def)
    with True pos Cons.prems(2) show ?thesis by (auto simp: Let_def)
  next
    case False
    then have tk: "?tk = lv_Price l * lv_Qty l" by auto
    have "filled + ?tk < sz" using False by simp
    from Cons.IH [OF good this] False pos show ?thesis
      unfolding tk by (auto simp: Let_def algebra_simps)
  qed
qed

text \<open>
  The price actually paid or received per unit when the notional \<open>t\<close> is traded at price \<open>p\<close>:
  the notional divided by the quantity \<open>t / p\<close>.
\<close>

definition true_avg :: "(float64 \<times> float64) list \<Rightarrow> float64" where
  "true_avg ws = sum_list (map snd ws) / (\<Sum>(p, t)\<leftarrow>ws. t / p)"

definition notional_avg :: "(float64 \<times> float64) list \<Rightarrow> float64" where
  "notional_avg ws = (\<Sum>(p, t)\<leftarrow>ws. p * t) / sum_list (map snd ws)"

lemma true_avg_le_notional_avg:
  assumes "\<forall>(p, t)\<in>set ws. 0 < p \<and> 0 < t" "ws \<noteq> []"
  shows "true_avg ws \<le> notional_avg ws" "0 < true_avg ws"
proof -
  let ?T = "sum_list (map snd ws)" and ?Q = "\<Sum>(p, t)\<leftarrow>ws. t / p" and ?W = "\<Sum>(p, t)\<leftarrow>ws. p * t"
  have T: "0 < ?T" using assms by (intro sum_list_map_pos) auto
  have Q: "0 < ?Q" using assms by (intro sum_list_map_pos) auto
  have W: "0 < ?W" using assms by (intro sum_list_map_pos) auto
  define c where "c = ?W / ?T"
  have c: "0 < c" using T W by (simp add: c_def)
  have "2 * t - p * t / c \<le> c * (t / p)" if "(p, t) \<in> set ws" for p t
  proof -
    have pt: "0 < p" "0 < t" using that assms(1) by auto
    have "0 \<le> t * (c - p)\<^sup>2" using pt by simp
    then have "2 * t * (c * p) \<le> t * (c * c) + t * (p * p)" by (simp add: power2_eq_square algebra_simps)
    then show ?thesis using pt c by (simp add: field_simps)
  qed
  then have "sum_list (map (\<lambda>(p, t). 2 * t - p * t / c) ws) \<le> sum_list (map (\<lambda>(p, t). c * (t / p)) ws)"
    by (intro sum_list_map_mono_real) auto
  moreover have "sum_list (map (\<lambda>(p, t). 2 * t - p * t / c) ws) = 2 * ?T - ?W / c"
    by (induction ws) (auto simp: add_divide_distrib)
  moreover have "sum_list (map (\<lambda>(p, t). c * (t / p)) ws) = c * ?Q"
    by (induction ws) (auto simp: algebra_simps)
  moreover have "?W / c = ?T" using T W by (simp add: c_def)
  ultimately have "?T \<le> c * ?Q" by simp
  then show "true_avg ws \<le> notional_avg ws"
    using Q by (simp add: true_avg_def notional_avg_def c_def pos_divide_le_eq)
  show "0 < true_avg ws" using T Q by (simp add: true_avg_def)
qed

lemma slippage_on_eq:
  assumes "good_levels (l # ls)" "0 < sz"
  shows "slippage_on (l # ls) sz =
    (\<bar>notional_avg (takes sz (l # ls) 0) - lv_Price l\<bar> / lv_Price l * 10000,
     min sz (sum_list (map (\<lambda>l. lv_Price l * lv_Qty l) (l # ls))) / sz * 100)"
proof -
  let ?T = "sum_list (map (\<lambda>l. lv_Price l * lv_Qty l) (l # ls))"
  have sum: "sum_list (map snd (takes sz (l # ls) 0)) = min sz ?T"
    using takes_props [OF assms] by simp
  have "0 \<le> sum_list (map (\<lambda>l. lv_Price l * lv_Qty l) ls)"
    using assms(1) by (intro sum_list_map_nonneg) (auto simp: good_levels_def)
  then have "0 < ?T" using assms(1) by (simp add: good_levels_def add_pos_nonneg)
  then have pos: "0 < min sz ?T" using assms(2) by simp
  define F where "F = min sz ?T"
  have "F / sz * 100 \<le> 100" "0 < F" using assms(2) pos by (simp_all add: pos_divide_le_eq F_def)
  then show ?thesis
    unfolding slippage_on_def list.case take_levels_takes Let_def prod.case add_0 notional_avg_def sum
      F_def [symmetric]
    by simp
qed

section \<open>Order-flow windows\<close>

interpretation flow_window: rolling_window fs_TsMs trim_old
  by unfold_locales simp_all

text \<open>With samples in order of time, recording keeps exactly the last ones of the window.\<close>

lemma Record_samples:
  assumes "sorted (map fs_TsMs (fd_samples fd (fs_Symbol s) @ [s]))"
  shows "fd_samples (Record now s fd) (fs_Symbol s) =
    keep_last (fd_maxSamples fd)
      (filter (\<lambda>x. now - fd_windowMs fd \<le> fs_TsMs x) (fd_samples fd (fs_Symbol s) @ [s]))"
  using assms by (simp add: Record_def Let_def flow_window.prune_filter del: filter_append)

lemma Record_bounded: "length (fd_samples (Record now s fd) (fs_Symbol s)) \<le> fd_maxSamples fd"
  by (simp add: Record_def Let_def)

lemma Record_other: "sy \<noteq> fs_Symbol s \<Longrightarrow> fd_samples (Record now s fd) sy = fd_samples fd sy"
  by (simp add: Record_def Let_def)

text \<open>A normalised difference of nonnegative parts lies between -1 and 1.\<close>

lemma imbalance_bounds:
  fixes a b :: real
  assumes "0 \<le> a" "0 \<le> b" "0 < a + b"
  shows "- 1 \<le> (a - b) / (a + b)" "(a - b) / (a + b) \<le> 1"
  using assms by (simp_all add: pos_le_divide_eq pos_divide_le_eq)

section \<open>Properties\<close>

text \<open>
  The merged book has a side sorted from the best price on each side, its levels are
  exactly the levels of the books at most five seconds old (whatever the iteration order of the
  map), its depth table covers exactly those venues, and every depth imbalance of a book with
  nonnegative levels lies between -1 and 1.
\<close>

theorem merged_book_is_sorted_union_of_fresh_books:
  assumes "is_bid_sort by_bid" "is_ask_sort by_ask" "SyntheticFor by_bid by_ask now a symbol = Some sb"
  shows "mset (sb_Bids sb) = (\<Sum>e\<in>#mset (filter (fresh now) (ag_books a symbol)). mset (vb_Bids (snd e))) \<and>
    mset (sb_Asks sb) = (\<Sum>e\<in>#mset (filter (fresh now) (ag_books a symbol)). mset (vb_Asks (snd e))) \<and>
    sorted_wrt (\<lambda>x y. lv_Price y \<le> lv_Price x) (sb_Bids sb) \<and>
    sorted_wrt (\<lambda>x y. lv_Price x \<le> lv_Price y) (sb_Asks sb) \<and>
    dom (sb_VenueDepth sb) = fst ` set (filter (fresh now) (ag_books a symbol))"
proof -
  let ?m = "foldl (merge_venue now)
      \<lparr>sb_Symbol = symbol, sb_Bids = [], sb_Asks = [], sb_VenueDepth = Map.empty, sb_TsMs = now\<rparr> (ag_books a symbol)"
  have sb: "sb = ?m\<lparr>sb_Bids := by_bid (sb_Bids ?m), sb_Asks := by_ask (sb_Asks ?m)\<rparr>"
    using assms(3) by (auto simp: SyntheticFor_def Let_def split: if_splits)
  have ms: "mset (concat (map f xs)) = (\<Sum>x\<in>#mset xs. mset (f x))" for f :: "string \<times> VenueBook \<Rightarrow> Level list" and xs
    by (induction xs) simp_all
  have "mset (sb_Bids sb) = mset (sb_Bids ?m)" "sorted_wrt (\<lambda>x y. lv_Price y \<le> lv_Price x) (sb_Bids sb)"
    using assms(1) by (simp_all add: sb is_bid_sort_def)
  moreover have "mset (sb_Asks sb) = mset (sb_Asks ?m)" "sorted_wrt (\<lambda>x y. lv_Price x \<le> lv_Price y) (sb_Asks sb)"
    using assms(2) by (simp_all add: sb is_ask_sort_def)
  moreover have "dom (sb_VenueDepth sb) = fst ` set (filter (fresh now) (ag_books a symbol))"
    unfolding sb by (simp add: merge_run del: set_filter)
  ultimately show ?thesis by (simp only: merge_run SyntheticBook.select_convs append_Nil ms simp_thms)
qed

definition sample_level :: "real \<Rightarrow> real \<Rightarrow> Level" where
  "sample_level p q = \<lparr>lv_Price = p, lv_Qty = q\<rparr>"

definition sample_book :: VenueBook where
  "sample_book = \<lparr>vb_Venue = ''okx'', vb_Symbol = ''BTC'', vb_Bids = [sample_level 100 1, sample_level 50 1],
     vb_Asks = [sample_level 101 1], vb_TsMs = 10, vb_LatencyUs = 5\<rparr>"

definition bid_sort :: "Level list \<Rightarrow> Level list" where
  "bid_sort = sort_key (\<lambda>l. - lv_Price l)"

lemma sample_sorts [simp]: "is_bid_sort bid_sort" "is_ask_sort (sort_key lv_Price)"
proof -
  have "sorted_wrt (\<lambda>a b. lv_Price b \<le> lv_Price a) (sort_key (\<lambda>l. - lv_Price l) ls)" for ls
    using sorted_sort_key [of "\<lambda>l. - lv_Price l" ls] by (simp add: sorted_wrt_map)
  then show "is_bid_sort bid_sort" unfolding is_bid_sort_def bid_sort_def by auto
  have "sorted_wrt (\<lambda>a b. lv_Price a \<le> lv_Price b) (sort_key lv_Price ls)" for ls
    using sorted_sort_key [of lv_Price ls] by (simp add: sorted_wrt_map)
  then show "is_ask_sort (sort_key lv_Price)" unfolding is_ask_sort_def by auto
qed

theorem merged_book_is_sorted_union_of_fresh_books_witness:
  "\<exists>sb. SyntheticFor bid_sort (sort_key lv_Price) 20 (Update sample_book NewAggregator) ''BTC'' = Some sb \<and>
     mset (sb_Bids sb) = {#sample_level 100 1, sample_level 50 1#}"
proof -
  let ?a = "Update sample_book NewAggregator"
  have books: "ag_books ?a ''BTC'' = [(''okx'', sample_book)]"
    by (simp add: Update_def NewAggregator_def sample_book_def)
  then obtain sb where sb: "SyntheticFor bid_sort (sort_key lv_Price) 20 ?a ''BTC'' = Some sb"
    by (simp add: SyntheticFor_def Let_def)
  with merged_book_is_sorted_union_of_fresh_books [OF sample_sorts sb] show ?thesis
    unfolding books by (simp add: fresh_def sample_book_def)
qed

lemma slip_bound:
  fixes N A p :: real
  assumes "A \<le> N" "N \<le> p" "0 < p"
  shows "\<bar>N - p\<bar> / p * 10000 \<le> (p - A) / p * 10000" "0 \<le> \<bar>N - p\<bar> / p * 10000"
  using assms by (simp_all add: divide_right_mono)

text \<open>
  On a book with positive levels, sorted from the best bid, a sale never comes out better
  than the estimate says, and may come out worse: the estimate averages prices weighted by
  notional, which is at least the price really received per unit, so the slippage of a sale
  is understated.  The fill percentage is exact.
\<close>

theorem sell_slippage_is_understated:
  assumes "book_of a (symbol, venue) = Some vb" "vb_Bids vb = l # ls" "good_levels (l # ls)"
    and "sorted_wrt (\<lambda>x y. lv_Price y \<le> lv_Price x) (l # ls)" "0 < sz"
  shows "fst (EstimateSlippage a symbol venue sz False) \<le>
      (lv_Price l - true_avg (takes sz (l # ls) 0)) / lv_Price l * 10000 \<and>
    0 \<le> fst (EstimateSlippage a symbol venue sz False) \<and>
    snd (EstimateSlippage a symbol venue sz False) = min sz (side_usd (vb_Bids vb)) / sz * 100"
proof -
  let ?ws = "takes sz (l # ls) 0"
  have est: "EstimateSlippage a symbol venue sz False = slippage_on (l # ls) sz"
    by (simp add: EstimateSlippage_def assms(1,2))
  have ws: "\<forall>(p, t)\<in>set ?ws. 0 < t \<and> p \<in> lv_Price ` set (l # ls)"
    using takes_props [OF assms(3,5)] by blast
  then have pos: "\<forall>(p, t)\<in>set ?ws. 0 < p \<and> 0 < t" using assms(3) by (auto simp: good_levels_def)
  have ne: "?ws \<noteq> []" by (simp add: Let_def)
  have best: "p \<le> lv_Price l" if "p \<in> lv_Price ` set (l # ls)" for p using that assms(4) by auto
  have T: "0 < sum_list (map snd ?ws)" using pos ne by (intro sum_list_map_pos) auto
  have "sum_list (map (\<lambda>(p, t). p * t) ?ws) \<le> sum_list (map (\<lambda>(p, t). lv_Price l * t) ?ws)"
    using ws best by (intro sum_list_map_mono_real) (auto simp: mult_right_mono split: prod.splits)
  also have "\<dots> = lv_Price l * sum_list (map snd ?ws)"
    unfolding sum_list_const_mult [symmetric] by (simp add: case_prod_unfold)
  finally have N: "notional_avg ?ws \<le> lv_Price l" using T by (simp add: notional_avg_def pos_divide_le_eq)
  have A: "true_avg ?ws \<le> notional_avg ?ws" by (rule true_avg_le_notional_avg [OF pos ne])
  have P: "0 < lv_Price l" using assms(3) by (simp add: good_levels_def)
  have S: "side_usd (l # ls) = sum_list (map (\<lambda>l. lv_Price l * lv_Qty l) (l # ls))"
  proof -
    have "foldl (\<lambda>s l. s + lv_Price l * lv_Qty l) x ks = x + sum_list (map (\<lambda>l. lv_Price l * lv_Qty l) ks)"
      for x ks by (induction ks arbitrary: x) simp_all
    then show ?thesis by (simp add: side_usd_def)
  qed
  show ?thesis
    unfolding est slippage_on_eq [OF assms(3,5)] assms(2) fst_conv snd_conv S
    by (intro conjI refl slip_bound [OF A N P])
qed

theorem sell_slippage_is_understated_witness:
  "fst (EstimateSlippage (Update sample_book NewAggregator) ''BTC'' ''okx'' 150 False) \<le> 2500 \<and>
   true_avg (takes 150 (vb_Bids sample_book) 0) = 75"
proof -
  have b: "book_of (Update sample_book NewAggregator) (''BTC'', ''okx'') = Some sample_book"
    by (simp add: book_of_Update) (simp add: sample_book_def)
  have t: "true_avg (takes 150 [sample_level 100 1, sample_level 50 1] 0) = 75"
    by (simp add: true_avg_def sample_level_def Let_def)
  have "vb_Bids sample_book = [sample_level 100 1, sample_level 50 1]"
    "good_levels [sample_level 100 1, sample_level 50 1]"
    "sorted_wrt (\<lambda>x y. lv_Price y \<le> lv_Price x) [sample_level 100 1, sample_level 50 1]"
    by (simp_all add: sample_book_def good_levels_def sample_level_def)
  from sell_slippage_is_understated [OF b this, of 150] t show ?thesis
    by (simp add: sample_book_def) (simp add: sample_level_def)
qed

text \<open>
  With nonnegative volumes and a positive window the pressure score lies between -1 and 1,
  the confidence between 0 and 1 and the
  aggressive-buy share between 0 and 100.
\<close>

theorem pressure_is_bounded:
  assumes "\<forall>s\<in>set (fd_samples fd symbol). 0 \<le> fs_AggressiveBuyQty s \<and> 0 \<le> fs_AggressiveSellQty s"
    and "0 < fd_windowMs fd"
  shows "lp_Score (Pressure now fd symbol) \<in> {-1..1} \<and> lp_Confidence (Pressure now fd symbol) \<in> {0..1} \<and>
    lp_AggressiveBuyPct (Pressure now fd symbol) \<in> {0..100} \<and>
    0 \<le> lp_DepletionRate (Pressure now fd symbol) \<and> 0 \<le> lp_ReplenishRate (Pressure now fd symbol)"
proof -
  let ?ss = "filter (\<lambda>s. \<not> fs_TsMs s < now - fd_windowMs fd) (fd_samples fd symbol)"
  define B where "B = sum_list (map fs_AggressiveBuyQty ?ss)"
  define S where "S = sum_list (map fs_AggressiveSellQty ?ss)"
  define dl where "dl f = sum_list (map (\<lambda>s. if f s < 0 then \<bar>f s\<bar> else 0) ?ss)" for f :: "FlowSample \<Rightarrow> real"
  define rp where "rp f = sum_list (map (\<lambda>s. if f s < 0 then 0 else f s) ?ss)" for f :: "FlowSample \<Rightarrow> real"
  have nn: "0 \<le> B" "0 \<le> S" "0 \<le> dl f" "0 \<le> rp f" for f
    unfolding B_def S_def dl_def rp_def using assms(1) by (auto intro!: sum_list_map_nonneg)
  show ?thesis
  proof (cases "fd_samples fd symbol = [] \<or> B + S = 0 \<or> length ?ss = 0")
    case True
    then have "Pressure now fd symbol = no_pressure symbol now"
      unfolding Pressure_def Let_def B_def S_def by auto
    then show ?thesis by (simp add: no_pressure_def)
  next
    case False
    have "Pressure now fd symbol =
       \<lparr>lp_Symbol = symbol,
        lp_Score = max (-1) (min 1 (0.6 * ((B - S) / (B + S)) + 0.4 *
          (if dl fs_BidDepthDelta + dl fs_AskDepthDelta > 0
           then (dl fs_AskDepthDelta - dl fs_BidDepthDelta) / (dl fs_BidDepthDelta + dl fs_AskDepthDelta) else 0))),
        lp_AggressiveBuyPct = B / (B + S) * 100,
        lp_DepletionRate = (dl fs_BidDepthDelta + dl fs_AskDepthDelta) / (of_int (fd_windowMs fd) / 1000),
        lp_ReplenishRate = (rp fs_BidDepthDelta + rp fs_AskDepthDelta) / (of_int (fd_windowMs fd) / 1000),
        lp_Confidence = min 1 (real (length ?ss) / 20) * min 1 ((B + S) / 10), lp_TsMs = now\<rparr>"
      using False unfolding Pressure_def Let_def B_def S_def dl_def rp_def by (simp only: if_False de_Morgan_disj simp_thms)
    moreover have "B / (B + S) * 100 \<in> {0..100}" using nn(1,2) by (simp add: divide_le_eq)
    moreover have "min 1 (real (length ?ss) / 20) * min 1 ((B + S) / 10) \<in> {0..1}"
      using nn(1,2) by (auto intro!: mult_le_one)
    moreover have "max (-1) (min 1 x) \<in> {-1..1}" for x :: real by auto
    ultimately show ?thesis using nn assms(2) by simp
  qed
qed

definition sample_flow :: FlowDetector where
  "sample_flow = Record 2000
     \<lparr>fs_TsMs = 2000, fs_Venue = ''okx'', fs_Symbol = ''BTC-PERP'', fs_AggressiveBuyQty = 3,
      fs_AggressiveSellQty = 1, fs_BidDepthDelta = 0, fs_AskDepthDelta = - 2\<rparr> (NewFlowDetector 5000)"

theorem pressure_is_bounded_witness:
  "lp_Score (Pressure 2500 sample_flow ''BTC-PERP'') = 7 / 10 \<and>
   lp_AggressiveBuyPct (Pressure 2500 sample_flow ''BTC-PERP'') = 75 \<and>
   lp_Confidence (Pressure 2500 sample_flow ''BTC-PERP'') \<in> {0..1} \<and>
   0 \<le> lp_DepletionRate (Pressure 2500 sample_flow ''BTC-PERP'')"
proof -
  have s: "fd_samples sample_flow ''BTC-PERP'' =
      [\<lparr>fs_TsMs = 2000, fs_Venue = ''okx'', fs_Symbol = ''BTC-PERP'', fs_AggressiveBuyQty = 3,
        fs_AggressiveSellQty = 1, fs_BidDepthDelta = 0, fs_AskDepthDelta = - 2\<rparr>]"
    "fd_windowMs sample_flow = 5000"
    by (simp_all add: sample_flow_def Record_def NewFlowDetector_def keep_last_def Let_def)
  have b: "lp_Confidence (Pressure 2500 sample_flow ''BTC-PERP'') \<in> {0..1}"
    "0 \<le> lp_DepletionRate (Pressure 2500 sample_flow ''BTC-PERP'')"
    using pressure_is_bounded [of sample_flow "''BTC-PERP''" 2500] by (simp_all add: s)
  show ?thesis by (intro conjI b) (simp_all add: Pressure_def s)
qed

end
