(* ===== verification/Execution_Graduation.thy ===== *)
theory Execution_Graduation
  imports Interfaces
begin

text \<open>
  internal/execution: config.go (defaults), graduation.go (the ramp to live trading) and shadow.go
  (the confidence report).  \<open>time.Since\<close> saturates at the ends of the int64 range, as in Go;
  \<open>Hours\<close> is the duration in hours as a float64.
\<close>

section \<open>Configuration\<close>

record VenueProfile =
  vp_LatencyMinMs :: int64
  vp_LatencyMaxMs :: int64
  vp_SlippageBps :: float64
  vp_DepthSlopeBps :: float64
  vp_FeeBpsTaker :: float64
  vp_FeeBpsMaker :: float64
  vp_PartialFillPct :: float64

record ExecConfig =
  xc_TradingMode :: string
  xc_SimSlippageBps :: float64
  xc_SimLatencyMs :: int64
  xc_AdverseSelBps :: float64
  xc_MaxOrdersPerMinute :: int
  xc_TenantID :: string
  xc_RedisAddr :: string
  xc_RedisPassword :: string
  xc_RedisUseTLS :: bool
  xc_VenueProfiles :: "(string \<rightharpoonup> VenueProfile) option"
  xc_MaxRetriesPerLeg :: int
  xc_HedgeDriftMaxMs :: int64
  xc_MinPartialFillPct :: float64
  xc_ReconDelayMs :: int64
  xc_LiveMaxOrderNotionalUSD :: float64
  xc_LiveMaxDailyNotionalUSD :: float64
  xc_LiveMaxOpenOrders :: int

definition profile :: "int64 \<Rightarrow> int64 \<Rightarrow> real \<Rightarrow> real \<Rightarrow> real \<Rightarrow> real \<Rightarrow> real \<Rightarrow> VenueProfile" where
  "profile lo hi slip slope taker maker partial =
     \<lparr>vp_LatencyMinMs = lo, vp_LatencyMaxMs = hi, vp_SlippageBps = slip, vp_DepthSlopeBps = slope,
      vp_FeeBpsTaker = taker, vp_FeeBpsMaker = maker, vp_PartialFillPct = partial\<rparr>"

definition defaultVenueProfiles :: "string \<rightharpoonup> VenueProfile" where
  "defaultVenueProfiles =
     [''binance'' \<mapsto> profile 8 25 2.0 0.5 4.5 2.0 0.05,
      ''okx'' \<mapsto> profile 15 40 3.0 0.8 5.0 2.0 0.08,
      ''bybit'' \<mapsto> profile 12 35 3.0 0.7 5.5 2.0 0.07,
      ''deribit'' \<mapsto> profile 25 60 4.0 1.2 3.0 0.0 0.10,
      ''coinbase'' \<mapsto> profile 20 50 5.0 1.5 6.0 4.0 0.12,
      ''htx'' \<mapsto> profile 18 45 3.5 1.0 5.0 2.0 0.09,
      ''gate'' \<mapsto> profile 20 50 3.5 1.0 5.0 2.0 0.09]"

definition LoadConfig ::
  "(string \<Rightarrow> ExecConfig option) \<Rightarrow> (string \<Rightarrow> string) \<Rightarrow> string option \<Rightarrow> gotext + ExecConfig" where
  "LoadConfig unmarshal getenv content =
     (case content of
        None \<Rightarrow> Inl (Txt ''reading'')
      | Some data \<Rightarrow>
          (case unmarshal data of
             None \<Rightarrow> Inl (Txt ''parsing'')
           | Some c \<Rightarrow>
               (let c = (if getenv ''REDIS_ADDR'' \<noteq> '''' then c\<lparr>xc_RedisAddr := getenv ''REDIS_ADDR''\<rparr> else c);
                    c = (if getenv ''REDIS_PASSWORD'' \<noteq> '''' then c\<lparr>xc_RedisPassword := getenv ''REDIS_PASSWORD''\<rparr> else c);
                    c = (if getenv ''REDIS_TLS'' = ''true'' then c\<lparr>xc_RedisUseTLS := True\<rparr> else c);
                    c = (if getenv ''TRADING_MODE'' \<noteq> '''' then c\<lparr>xc_TradingMode := getenv ''TRADING_MODE''\<rparr> else c);
                    c = (if xc_TradingMode c = '''' then c\<lparr>xc_TradingMode := ''PAPER''\<rparr> else c);
                    c = (if xc_SimSlippageBps c = 0 then c\<lparr>xc_SimSlippageBps := 4\<rparr> else c);
                    c = (if xc_SimLatencyMs c = 0 then c\<lparr>xc_SimLatencyMs := 50\<rparr> else c);
                    c = (if xc_AdverseSelBps c = 0 then c\<lparr>xc_AdverseSelBps := 10\<rparr> else c);
                    c = (if xc_MaxOrdersPerMinute c = 0 then c\<lparr>xc_MaxOrdersPerMinute := 120\<rparr> else c);
                    c = (if xc_TenantID c = '''' then c\<lparr>xc_TenantID := ''default''\<rparr> else c);
                    c = (if xc_MaxRetriesPerLeg c = 0 then c\<lparr>xc_MaxRetriesPerLeg := 3\<rparr> else c);
                    c = (if xc_HedgeDriftMaxMs c = 0 then c\<lparr>xc_HedgeDriftMaxMs := 5000\<rparr> else c);
                    c = (if xc_MinPartialFillPct c = 0 then c\<lparr>xc_MinPartialFillPct := 0.10\<rparr> else c);
                    c = (if xc_ReconDelayMs c = 0 then c\<lparr>xc_ReconDelayMs := 2000\<rparr> else c);
                    c = (if xc_LiveMaxOrderNotionalUSD c = 0 then c\<lparr>xc_LiveMaxOrderNotionalUSD := 10000\<rparr> else c);
                    c = (if xc_LiveMaxDailyNotionalUSD c = 0 then c\<lparr>xc_LiveMaxDailyNotionalUSD := 100000\<rparr> else c);
                    c = (if xc_LiveMaxOpenOrders c = 0 then c\<lparr>xc_LiveMaxOpenOrders := 4\<rparr> else c);
                    c = (if xc_VenueProfiles c = None then c\<lparr>xc_VenueProfiles := Some defaultVenueProfiles\<rparr> else c)
                in Inr c)))"

section \<open>Graduation\<close>

record GraduationConfig =
  gc_RampWeeks :: int
  gc_Week1MaxOrderUSD :: float64
  gc_Week1MaxDailyUSD :: float64
  gc_WeeklyMultiplier :: float64
  gc_MinPaperDays :: int
  gc_MinShadowDays :: int
  gc_MinSharpeForLive :: float64
  gc_MaxDrawdownForLive :: float64

record GraduationHarness =
  gh_cfg :: GraduationConfig
  gh_startTs :: go_time

definition DefaultGraduationConfig :: GraduationConfig where
  "DefaultGraduationConfig =
     \<lparr>gc_RampWeeks = 4, gc_Week1MaxOrderUSD = 5000, gc_Week1MaxDailyUSD = 25000, gc_WeeklyMultiplier = 2,
      gc_MinPaperDays = 7, gc_MinShadowDays = 14, gc_MinSharpeForLive = 0.5, gc_MaxDrawdownForLive = 5\<rparr>"

definition NewGraduationHarness :: "go_time \<Rightarrow> GraduationConfig \<Rightarrow> GraduationHarness" where
  "NewGraduationHarness now cfg = \<lparr>gh_cfg = cfg, gh_startTs = now\<rparr>"

definition Since :: "go_time \<Rightarrow> go_time \<Rightarrow> duration" where
  "Since now t = max (- (2 ^ 63)) (min (2 ^ 63 - 1) (now - t))"

definition Hours :: "duration \<Rightarrow> float64" where
  "Hours d = real_of_int d / (3600 * 10 ^ 9)"

text \<open>The loop \<open>for i := 1; i < week; i++\<close> multiplies once per week after the first.\<close>

fun mult_loop :: "nat \<Rightarrow> float64 \<Rightarrow> float64 \<Rightarrow> float64" where
  "mult_loop 0 m acc = acc"
| "mult_loop (Suc n) m acc = mult_loop n m (acc * m)"

definition CurrentLimits :: "go_time \<Rightarrow> GraduationHarness \<Rightarrow> float64 \<times> float64 \<times> int" where
  "CurrentLimits now g =
     (let elapsed = Since now (gh_startTs g);
          week = trunc_int (Hours elapsed / 168) + 1;
          week = (if week > gc_RampWeeks (gh_cfg g) then gc_RampWeeks (gh_cfg g) else week);
          multiplier = mult_loop (nat (week - 1)) (gc_WeeklyMultiplier (gh_cfg g)) 1
      in (gc_Week1MaxOrderUSD (gh_cfg g) * multiplier, gc_Week1MaxDailyUSD (gh_cfg g) * multiplier, week))"

definition days_since :: "go_time \<Rightarrow> go_time \<Rightarrow> int" where
  "days_since now t = trunc_int (Hours (Since now t) / 24)"

text \<open>Each branch reads the clock once; \<open>None\<close> is a nil error.\<close>

definition CheckGraduationEligible ::
  "go_time \<Rightarrow> GraduationHarness \<Rightarrow> string \<Rightarrow> string \<Rightarrow> go_time \<Rightarrow> go_time \<Rightarrow> float64 \<Rightarrow> float64 \<Rightarrow> gotext option" where
  "CheckGraduationEligible now g frm to paperStartedAt shadowStartedAt sharpe drawdownPct =
     (let cfg = gh_cfg g; paperDays = days_since now paperStartedAt; shadowDays = days_since now shadowStartedAt
      in if to = ''SHADOW'' \<and> frm = ''PAPER'' \<and> paperDays < gc_MinPaperDays cfg
         then Some (Sprintf ''minimum %d paper days required, only %d elapsed''
                      [AInt (gc_MinPaperDays cfg), AInt paperDays])
         else if to = ''LIVE'' \<and> shadowDays < gc_MinShadowDays cfg
         then Some (Sprintf ''minimum %d shadow days required, only %d elapsed''
                      [AInt (gc_MinShadowDays cfg), AInt shadowDays])
         else if to = ''LIVE'' \<and> sharpe < gc_MinSharpeForLive cfg
         then Some (Sprintf ''Sharpe %.2f below minimum %.2f for LIVE''
                      [AFlt sharpe, AFlt (gc_MinSharpeForLive cfg)])
         else if to = ''LIVE'' \<and> drawdownPct > gc_MaxDrawdownForLive cfg
         then Some (Sprintf ''drawdown %.1f%% exceeds maximum %.1f%% for LIVE''
                      [AFlt drawdownPct, AFlt (gc_MaxDrawdownForLive cfg)])
         else None)"

record RampWeek =
  rw_Week :: int
  rw_MaxOrderUSD :: float64
  rw_MaxDailyUSD :: float64

fun ramp_rows :: "GraduationConfig \<Rightarrow> nat \<Rightarrow> nat \<Rightarrow> float64 \<Rightarrow> RampWeek list" where
  "ramp_rows cfg 0 i multiplier = []"
| "ramp_rows cfg (Suc n) i multiplier =
     \<lparr>rw_Week = int i + 1, rw_MaxOrderUSD = gc_Week1MaxOrderUSD cfg * multiplier,
      rw_MaxDailyUSD = gc_Week1MaxDailyUSD cfg * multiplier\<rparr>
     # ramp_rows cfg n (i + 1) (multiplier * gc_WeeklyMultiplier cfg)"

text \<open>\<open>make\<close> panics on a negative length; \<open>None\<close> is that panic.\<close>

definition RampScheduleSummary :: "GraduationHarness \<Rightarrow> RampWeek list option" where
  "RampScheduleSummary g =
     (if gc_RampWeeks (gh_cfg g) < 0 then None
      else Some (ramp_rows (gh_cfg g) (nat (gc_RampWeeks (gh_cfg g))) 0 1))"

section \<open>Shadow confidence\<close>

record ExecutionEvent =
  ee_SchemaVersion :: int
  ee_EventType :: string
  ee_IntentID :: string
  ee_LegIndex :: int
  ee_Venue :: string
  ee_Symbol :: string
  ee_Action :: string
  ee_Strategy :: string
  ee_Market :: string
  ee_RequestedNotionalUSD :: float64
  ee_FilledNotionalUSD :: float64
  ee_FilledPrice :: float64
  ee_SlippageBpsActual :: float64
  ee_SlippageBpsAllowed :: float64
  ee_FeesUSDActual :: float64
  ee_FeeType :: string
  ee_TsMs :: int64
  ee_LatencySignalToFillMs :: int64
  ee_TenantID :: string
  ee_Mode :: string

record FillLeg =
  fl_Venue :: string
  fl_Action :: string
  fl_FilledNotionalUSD :: float64
  fl_FilledPrice :: float64

record SimulatedFill =
  sf_SchemaVersion :: int
  sf_IntentID :: string
  sf_Strategy :: string
  sf_Symbol :: string
  sf_Legs :: "FillLeg list"
  sf_TsSignalMs :: int64
  sf_TsFillSimulatedMs :: int64
  sf_LatencyMs :: int64
  sf_EdgeAtSignalBps :: float64
  sf_EdgeAtFillBps :: float64
  sf_EdgeCapturedBps :: float64
  sf_AdverseSelectionOccurred :: bool
  sf_FillPriceBuy :: float64
  sf_FillPriceSell :: float64
  sf_FeesAssumedUSD :: float64
  sf_SlippageAssumedBps :: float64
  sf_NetPnLUSD :: float64
  sf_IntentExpired :: bool
  sf_Mode :: string
  sf_TenantID :: string

record shadowRecord =
  sr_intentID :: string
  sr_predictedEdge :: float64
  sr_realizedEdge :: float64
  sr_latencyMs :: int64
  sr_slippageBps :: float64
  sr_missedEdgeBps :: float64

type_synonym ShadowMetrics = "shadowRecord list"

definition RecordShadow :: "SimulatedFill option \<Rightarrow> ShadowMetrics \<Rightarrow> ShadowMetrics" where
  "RecordShadow fill records =
     (case fill of
        None \<Rightarrow> records
      | Some f \<Rightarrow>
          keep_last 1000 (records @
            [\<lparr>sr_intentID = sf_IntentID f, sr_predictedEdge = sf_EdgeAtSignalBps f,
              sr_realizedEdge = sf_EdgeCapturedBps f, sr_latencyMs = sf_LatencyMs f,
              sr_slippageBps = sf_SlippageAssumedBps f,
              sr_missedEdgeBps = sf_EdgeAtSignalBps f - sf_EdgeCapturedBps f\<rparr>]))"

record ShadowConfidenceReport =
  sr_FillCount :: int
  sr_AvgPredictedEdgeBps :: float64
  sr_AvgRealizedEdgeBps :: float64
  sr_AvgMissedEdgeBps :: float64
  sr_AvgSlippageBps :: float64
  sr_AvgLatencyMs :: int64
  sr_EdgeCaptureRatio :: float64
  sr_RealizedEdgeStddevBps :: float64
  sr_SlippageSensitivityBps :: float64

definition ConfidenceReport :: "ShadowMetrics \<Rightarrow> ShadowConfidenceReport" where
  "ConfidenceReport records =
     (if length records = 0
      then \<lparr>sr_FillCount = 0, sr_AvgPredictedEdgeBps = 0, sr_AvgRealizedEdgeBps = 0, sr_AvgMissedEdgeBps = 0,
            sr_AvgSlippageBps = 0, sr_AvgLatencyMs = 0, sr_EdgeCaptureRatio = 0,
            sr_RealizedEdgeStddevBps = 0, sr_SlippageSensitivityBps = 0\<rparr>
      else
        (let total = (\<lambda>f. sum_list (map f records)); n = real (length records);
             avgPredicted = total sr_predictedEdge / n; avgRealized = total sr_realizedEdge / n;
             variance = sum_list (map (\<lambda>r. (sr_realizedEdge r - avgRealized) * (sr_realizedEdge r - avgRealized)) records)
         in \<lparr>sr_FillCount = int (length records), sr_AvgPredictedEdgeBps = avgPredicted,
             sr_AvgRealizedEdgeBps = avgRealized, sr_AvgMissedEdgeBps = total sr_missedEdgeBps / n,
             sr_AvgSlippageBps = total sr_slippageBps / n,
             sr_AvgLatencyMs = go_div (sum_list (map sr_latencyMs records)) (int (length records)),
             sr_EdgeCaptureRatio = avgRealized / max avgPredicted 0.01,
             sr_RealizedEdgeStddevBps = sqrt (variance / n),
             sr_SlippageSensitivityBps = total sr_slippageBps / n - avgRealized\<rparr>))"

section \<open>The ramp\<close>

lemma mult_loop_power: "mult_loop n m acc = acc * m ^ n"
  by (induction n arbitrary: acc) (simp_all add: algebra_simps)

lemma ramp_rows_nth:
  "k < n \<Longrightarrow> ramp_rows cfg n i acc ! k =
     \<lparr>rw_Week = int (i + k) + 1, rw_MaxOrderUSD = gc_Week1MaxOrderUSD cfg * (acc * gc_WeeklyMultiplier cfg ^ k),
      rw_MaxDailyUSD = gc_Week1MaxDailyUSD cfg * (acc * gc_WeeklyMultiplier cfg ^ k)\<rparr>"
  by (induction n arbitrary: i acc k) (auto simp: nth_Cons algebra_simps split: nat.split)

lemma ramp_rows_length [simp]: "length (ramp_rows cfg n i acc) = n"
  by (induction n arbitrary: i acc) simp_all

lemma Since_mono: "t \<le> t' \<Longrightarrow> Since t s \<le> Since t' s"
  by (simp add: Since_def)

lemma Since_nonneg: "s \<le> t \<Longrightarrow> 0 \<le> Since t s"
  by (simp add: Since_def)

lemma Hours_mono: "d \<le> d' \<Longrightarrow> Hours d \<le> Hours d'"
  by (simp add: Hours_def)

definition ramp_week :: "go_time \<Rightarrow> GraduationHarness \<Rightarrow> int" where
  "ramp_week now g = min (gc_RampWeeks (gh_cfg g)) (trunc_int (Hours (Since now (gh_startTs g)) / 168) + 1)"

lemma CurrentLimits_eq:
  "CurrentLimits now g =
     (gc_Week1MaxOrderUSD (gh_cfg g) * gc_WeeklyMultiplier (gh_cfg g) ^ nat (ramp_week now g - 1),
      gc_Week1MaxDailyUSD (gh_cfg g) * gc_WeeklyMultiplier (gh_cfg g) ^ nat (ramp_week now g - 1),
      ramp_week now g)"
proof -
  have "(if trunc_int (Hours (Since now (gh_startTs g)) / 168) + 1 > gc_RampWeeks (gh_cfg g)
      then gc_RampWeeks (gh_cfg g) else trunc_int (Hours (Since now (gh_startTs g)) / 168) + 1) = ramp_week now g"
    by (simp add: ramp_week_def min_def)
  then show ?thesis by (simp only: CurrentLimits_def Let_def mult_loop_power mult_1)
qed

lemma ramp_week_mono: "now \<le> now' \<Longrightarrow> ramp_week now g \<le> ramp_week now' g"
  unfolding ramp_week_def
  by (intro min.mono add_right_mono trunc_int_mono divide_right_mono Hours_mono Since_mono) simp_all

lemma ramp_week_bounds:
  assumes "1 \<le> gc_RampWeeks (gh_cfg g)" "gh_startTs g \<le> now"
  shows "1 \<le> ramp_week now g" "ramp_week now g \<le> gc_RampWeeks (gh_cfg g)"
  using assms Since_nonneg [OF assms(2)]
  by (simp_all add: ramp_week_def Hours_def)

section \<open>Properties\<close>

text \<open>
  From the start on, the limits in force are exactly the row of the published ramp schedule
  for the current week, which lies in the ramp; with nonnegative caps and a multiplier of at
  least 1 they never shrink as time passes.
\<close>

theorem limits_follow_the_published_ramp:
  assumes "1 \<le> gc_RampWeeks (gh_cfg g)" "gh_startTs g \<le> now" "now \<le> now'"
    and "0 \<le> gc_Week1MaxOrderUSD (gh_cfg g)" "0 \<le> gc_Week1MaxDailyUSD (gh_cfg g)" "1 \<le> gc_WeeklyMultiplier (gh_cfg g)"
    and "RampScheduleSummary g = Some rows"
    and "CurrentLimits now g = (order, daily, week)" "CurrentLimits now' g = (order', daily', week')"
  shows "1 \<le> week \<and> week \<le> gc_RampWeeks (gh_cfg g) \<and>
    rows ! nat (week - 1) = \<lparr>rw_Week = week, rw_MaxOrderUSD = order, rw_MaxDailyUSD = daily\<rparr> \<and>
    order \<le> order' \<and> daily \<le> daily' \<and> week \<le> week'"
proof -
  note b = ramp_week_bounds [OF assms(1,2)]
  have rows: "rows = ramp_rows (gh_cfg g) (nat (gc_RampWeeks (gh_cfg g))) 0 1"
    using assms(1,7) by (simp add: RampScheduleSummary_def)
  have lim: "order = gc_Week1MaxOrderUSD (gh_cfg g) * gc_WeeklyMultiplier (gh_cfg g) ^ nat (ramp_week now g - 1)"
    "daily = gc_Week1MaxDailyUSD (gh_cfg g) * gc_WeeklyMultiplier (gh_cfg g) ^ nat (ramp_week now g - 1)"
    "week = ramp_week now g"
    "order' = gc_Week1MaxOrderUSD (gh_cfg g) * gc_WeeklyMultiplier (gh_cfg g) ^ nat (ramp_week now' g - 1)"
    "daily' = gc_Week1MaxDailyUSD (gh_cfg g) * gc_WeeklyMultiplier (gh_cfg g) ^ nat (ramp_week now' g - 1)"
    "week' = ramp_week now' g"
    using assms(8,9) unfolding CurrentLimits_eq by auto
  have m: "week \<le> week'" using ramp_week_mono [OF assms(3)] lim by simp
  then have "gc_WeeklyMultiplier (gh_cfg g) ^ nat (ramp_week now g - 1) \<le>
      gc_WeeklyMultiplier (gh_cfg g) ^ nat (ramp_week now' g - 1)"
    using assms(6) lim by (intro power_increasing) auto
  then have "order \<le> order' \<and> daily \<le> daily'" using assms(4,5) lim by (simp add: mult_left_mono)
  moreover have "rows ! nat (week - 1) = \<lparr>rw_Week = week, rw_MaxOrderUSD = order, rw_MaxDailyUSD = daily\<rparr>"
    using b lim by (simp add: rows ramp_rows_nth)
  ultimately show ?thesis using b lim m by simp
qed

lemma default_limits:
  "CurrentLimits 0 (NewGraduationHarness 0 DefaultGraduationConfig) = (5000, 25000, 1)"
  "CurrentLimits (200 * hour_ns) (NewGraduationHarness 0 DefaultGraduationConfig) = (10000, 50000, 2)"
  by (simp_all add: CurrentLimits_def NewGraduationHarness_def DefaultGraduationConfig_def Since_def
      Hours_def hour_ns_def trunc_int_def Let_def mult_loop_power)

theorem limits_follow_the_published_ramp_witness:
  "\<exists>rows. RampScheduleSummary (NewGraduationHarness 0 DefaultGraduationConfig) = Some rows \<and>
     rows ! 0 = \<lparr>rw_Week = 1, rw_MaxOrderUSD = 5000, rw_MaxDailyUSD = 25000\<rparr> \<and> (5000::real) \<le> 10000"
proof -
  obtain rows where r: "RampScheduleSummary (NewGraduationHarness 0 DefaultGraduationConfig) = Some rows"
    by (simp add: RampScheduleSummary_def NewGraduationHarness_def DefaultGraduationConfig_def)
  have "gh_cfg (NewGraduationHarness 0 DefaultGraduationConfig) = DefaultGraduationConfig"
    "gh_startTs (NewGraduationHarness 0 DefaultGraduationConfig) = 0"
    by (simp_all add: NewGraduationHarness_def)
  with limits_follow_the_published_ramp [OF _ _ _ _ _ _ r default_limits] r show ?thesis
    by (simp add: DefaultGraduationConfig_def hour_ns_def)
qed

text \<open>What the check really requires of each transition.\<close>

lemma eligible_iff:
  "CheckGraduationEligible now g frm to ps ss sharpe dd = None \<longleftrightarrow>
     \<not> (to = ''SHADOW'' \<and> frm = ''PAPER'' \<and> days_since now ps < gc_MinPaperDays (gh_cfg g)) \<and>
     \<not> (to = ''LIVE'' \<and> (days_since now ss < gc_MinShadowDays (gh_cfg g) \<or>
          sharpe < gc_MinSharpeForLive (gh_cfg g) \<or> gc_MaxDrawdownForLive (gh_cfg g) < dd))"
  by (auto simp: CheckGraduationEligible_def Let_def)

lemma days_since_zero: "0 \<le> now \<Longrightarrow> days_since now zero_time = 106751"
proof -
  assume "0 \<le> now"
  then have "Since now zero_time = 2 ^ 63 - 1" by (simp add: Since_def zero_time_def)
  then show ?thesis by (simp add: days_since_def Hours_def floor_eq_iff)
qed

text \<open>
  The order of the stages is not enforced: a system that is still in PAPER and never
  entered SHADOW (its start time is the zero time, whose age saturates) may go LIVE at once,
  whatever the configured number of shadow days up to 106751 and of paper days.
\<close>

theorem paper_can_go_live_without_shadow:
  assumes "0 \<le> now" "gc_MinShadowDays (gh_cfg g) \<le> 106751"
    and "gc_MinSharpeForLive (gh_cfg g) \<le> sharpe" "drawdownPct \<le> gc_MaxDrawdownForLive (gh_cfg g)"
  shows "CheckGraduationEligible now g ''PAPER'' ''LIVE'' now zero_time sharpe drawdownPct = None"
  using assms by (simp add: eligible_iff days_since_zero)

theorem paper_can_go_live_without_shadow_witness:
  "CheckGraduationEligible 5 (NewGraduationHarness 0 DefaultGraduationConfig) ''PAPER'' ''LIVE'' 5 zero_time 1 0 = None"
  by (rule paper_can_go_live_without_shadow)
     (simp_all add: NewGraduationHarness_def DefaultGraduationConfig_def)

text \<open>The averages of the report: what was predicted is what was realised plus what was missed.\<close>

definition wf_shadow :: "ShadowMetrics \<Rightarrow> bool" where
  "wf_shadow rs \<longleftrightarrow> length rs \<le> 1000 \<and> (\<forall>r\<in>set rs. sr_missedEdgeBps r = sr_predictedEdge r - sr_realizedEdge r)"

lemma RecordShadow_wf: "wf_shadow rs \<Longrightarrow> wf_shadow (RecordShadow f rs)"
  using set_keep_last by (auto simp: wf_shadow_def RecordShadow_def split: option.split dest!: subsetD [OF set_keep_last])

lemma report_missed:
  assumes "wf_shadow rs"
  shows "sr_AvgMissedEdgeBps (ConfidenceReport rs) =
    sr_AvgPredictedEdgeBps (ConfidenceReport rs) - sr_AvgRealizedEdgeBps (ConfidenceReport rs)"
proof -
  have "sum_list (map sr_missedEdgeBps rs) = sum_list (map sr_predictedEdge rs) - sum_list (map sr_realizedEdge rs)"
    using assms unfolding wf_shadow_def by (induction rs) auto
  then show ?thesis by (simp add: ConfidenceReport_def Let_def diff_divide_distrib)
qed

interpretation shadow: invariant_machine "\<lambda>rs f. RecordShadow f rs" "\<lambda>_. True" wf_shadow
  by unfold_locales (rule RecordShadow_wf)

end
