(* ===== verification/Auth_Roles.thy ===== *)
theory Auth_Roles
  imports Prelude "HOL-Library.Word" "HOL-Library.Sublist"
begin

text \<open>
  internal/auth/rbac.go: roles, API keys and what the HTTP layer reads from a request.  A request
  is what the functions ask of it: the header lookup, the \<open>token\<close> query value and the remote
  address.  The random bytes of a key and SHA-256 are parameters; the URL-safe base64 encoding
  without padding is written out.
\<close>

datatype Role = RoleAdmin | RoleTrader | RoleViewer | RoleAuditor | RoleOther string

text \<open>A role that is not a key of the map has order 0.\<close>

fun roleOrder :: "Role \<Rightarrow> int" where
  "roleOrder RoleAdmin = 4"
| "roleOrder RoleTrader = 3"
| "roleOrder RoleViewer = 2"
| "roleOrder RoleAuditor = 1"
| "roleOrder (RoleOther _) = 0"

instantiation Role :: preorder
begin

definition less_eq_Role :: "Role \<Rightarrow> Role \<Rightarrow> bool" where
  "less_eq_Role r r' \<longleftrightarrow> roleOrder r \<le> roleOrder r'"

definition less_Role :: "Role \<Rightarrow> Role \<Rightarrow> bool" where
  "less_Role r r' \<longleftrightarrow> roleOrder r < roleOrder r'"

instance
  by standard (auto simp: less_eq_Role_def less_Role_def)

end

definition AtLeast :: "Role \<Rightarrow> Role \<Rightarrow> bool" where
  "AtLeast r required \<longleftrightarrow> roleOrder r \<ge> roleOrder required"

lemma AtLeast_le [simp]: "AtLeast r required \<longleftrightarrow> required \<le> r"
  by (simp add: AtLeast_def less_eq_Role_def)

record APIKey =
  ak_ID :: string
  ak_TenantID :: string
  ak_Name :: string
  ak_KeyPrefix :: string
  ak_Role :: Role

text \<open>The request context, as far as this package stores into it.\<close>

type_synonym api_context = "int \<rightharpoonup> APIKey option"

definition WithAPIKey :: "api_context \<Rightarrow> APIKey option \<Rightarrow> api_context" where
  "WithAPIKey ctx key = ctx(0 \<mapsto> key)"

definition FromContext :: "api_context \<Rightarrow> APIKey option" where
  "FromContext ctx = (case ctx 0 of None \<Rightarrow> None | Some k \<Rightarrow> k)"

definition RequireRole :: "APIKey option \<Rightarrow> Role \<Rightarrow> gotext option" where
  "RequireRole key required =
     (case key of
        None \<Rightarrow> Some (Txt ''not authenticated'')
      | Some k \<Rightarrow> (if \<not> AtLeast (ak_Role k) required then Some (Txt ''role required'') else None))"

section \<open>Keys\<close>

definition b64_alphabet :: string where
  "b64_alphabet = ''ABCDEFGHIJKLMNOPQRSTUVWXYZabcdefghijklmnopqrstuvwxyz0123456789-_''"

definition b64_char :: "nat \<Rightarrow> char" where
  "b64_char n = b64_alphabet ! n"

fun RawURLEncoding :: "8 word list \<Rightarrow> string" where
  "RawURLEncoding (a # b # c # rest) =
     b64_char (unat a div 4) # b64_char (unat a mod 4 * 16 + unat b div 16) #
     b64_char (unat b mod 16 * 4 + unat c div 64) # b64_char (unat c mod 64) # RawURLEncoding rest"
| "RawURLEncoding [a, b] =
     [b64_char (unat a div 4), b64_char (unat a mod 4 * 16 + unat b div 16), b64_char (unat b mod 16 * 4)]"
| "RawURLEncoding [a] = [b64_char (unat a div 4), b64_char (unat a mod 4 * 16)]"
| "RawURLEncoding [] = []"

definition HashKey :: "(string \<Rightarrow> string) \<Rightarrow> string \<Rightarrow> string" where
  "HashKey sha256hex key = sha256hex key"

text \<open>\<open>rnd\<close> is the result of \<open>rand.Read\<close>: the 32 bytes, or its error.\<close>

definition GenerateKey :: "(string \<Rightarrow> string) \<Rightarrow> 8 word list option \<Rightarrow> (string \<times> string \<times> string) option" where
  "GenerateKey sha256hex rnd =
     (case rnd of
        None \<Rightarrow> None
      | Some b \<Rightarrow>
          (let fullKey = ''ce_'' @ RawURLEncoding b;
               prfx = (if length fullKey > 11 then take 11 fullKey else fullKey)
           in Some (fullKey, prfx, sha256hex fullKey)))"

section \<open>What a request says\<close>

record HttpRequest =
  hr_Header :: "string \<Rightarrow> string"
  hr_TokenParam :: string
  hr_RemoteAddr :: string

definition ExtractBearer :: "HttpRequest \<Rightarrow> string" where
  "ExtractBearer r =
     (let h = hr_Header r ''Authorization''
      in if prefix ''Bearer '' h then drop (length ''Bearer '') h else hr_TokenParam r)"

text \<open>\<open>strings.TrimSpace\<close> on the ASCII white space of a header value.\<close>

definition is_space :: "char \<Rightarrow> bool" where
  "is_space c \<longleftrightarrow> (of_char c :: nat) \<in> {9, 10, 11, 12, 13, 32}"

definition TrimSpace :: "string \<Rightarrow> string" where
  "TrimSpace s = rev (dropWhile is_space (rev (dropWhile is_space s)))"

definition ClientIP :: "HttpRequest \<Rightarrow> string" where
  "ClientIP r =
     (let xff = hr_Header r ''X-Forwarded-For''; xri = hr_Header r ''X-Real-IP''; addr = hr_RemoteAddr r
      in if xff \<noteq> '''' then TrimSpace (takeWhile (\<lambda>c. c \<noteq> CHR '','') xff)
         else if xri \<noteq> '''' then xri
         else if CHR '':'' \<in> set addr
         then rev (tl (dropWhile (\<lambda>c. c \<noteq> CHR '':'') (rev addr))) else addr)"

section \<open>Encoding is injective\<close>

lemma b64_alphabet_props: "distinct b64_alphabet" "length b64_alphabet = 64"
  by (simp_all add: b64_alphabet_def)

lemma b64_char_inj: "m < 64 \<Longrightarrow> n < 64 \<Longrightarrow> b64_char m = b64_char n \<longleftrightarrow> m = n"
  using nth_eq_iff_index_eq [OF b64_alphabet_props(1)] by (simp add: b64_char_def b64_alphabet_props)

lemma byte_lt: "unat (b :: 8 word) < 256"
  using unsigned_less [of b, where ?'a = nat] by simp

lemma sextets:
  fixes a b c :: "8 word"
  shows "unat a div 4 < 64" "unat a mod 4 * 16 + unat b div 16 < 64" "unat b mod 16 * 4 + unat c div 64 < 64"
    "unat c mod 64 < 64" "unat a mod 4 * 16 < 64" "unat b mod 16 * 4 < 64"
  using byte_lt [of a] byte_lt [of b] byte_lt [of c] by auto

lemma split_eq:
  fixes h h' l l' k :: nat
  assumes "h * k + l = h' * k + l'" "l < k" "l' < k"
  shows "h = h' \<and> l = l'"
  using assms by (metis add.commute div_mult_self3 mod_mult_self3 div_less mod_less add_cancel_right_right not_less0)

lemma byte_parts:
  fixes a b c a' b' c' :: "8 word"
  shows "unat a mod 4 * 16 + unat b div 16 = unat a' mod 4 * 16 + unat b' div 16 \<Longrightarrow>
           unat a mod 4 = unat a' mod 4 \<and> unat b div 16 = unat b' div 16"
    and "unat b mod 16 * 4 + unat c div 64 = unat b' mod 16 * 4 + unat c' div 64 \<Longrightarrow>
           unat b mod 16 = unat b' mod 16 \<and> unat c div 64 = unat c' div 64"
proof -
  have small: "unat b div 16 < 16" "unat b' div 16 < 16" "unat c div 64 < 4" "unat c' div 64 < 4"
    using byte_lt [of b] byte_lt [of b'] byte_lt [of c] byte_lt [of c'] by auto
  show "unat a mod 4 = unat a' mod 4 \<and> unat b div 16 = unat b' div 16"
    if "unat a mod 4 * 16 + unat b div 16 = unat a' mod 4 * 16 + unat b' div 16"
    by (rule split_eq [OF that small(1,2)])
  show "unat b mod 16 = unat b' mod 16 \<and> unat c div 64 = unat c' div 64"
    if "unat b mod 16 * 4 + unat c div 64 = unat b' mod 16 * 4 + unat c' div 64"
    by (rule split_eq [OF that small(3,4)])
qed

lemma byte_eqI:
  fixes a a' :: "8 word"
  shows "unat a div k = unat a' div k \<Longrightarrow> unat a mod k = unat a' mod k \<Longrightarrow> a = a'"
  by (metis div_mult_mod_eq word_eq_iff_unsigned)

lemma RawURLEncoding_inj:
  "RawURLEncoding xs = RawURLEncoding ys \<Longrightarrow> length xs = length ys \<Longrightarrow> xs = ys"
proof (induction xs arbitrary: ys rule: RawURLEncoding.induct)
  case (1 a b c rest)
  then obtain a' b' c' rest' where ys: "ys = a' # b' # c' # rest'"
    by (auto simp: Suc_length_conv length_Suc_conv)
  from 1 ys show ?case
    by (auto simp: b64_char_inj sextets dest!: byte_parts intro: byte_eqI)
next
  case (2 a b)
  then obtain a' b' where ys: "ys = [a', b']" by (auto simp: Suc_length_conv length_Suc_conv)
  from 2 ys show ?case
    by (auto simp: b64_char_inj sextets dest!: byte_parts intro: byte_eqI)
next
  case (3 a)
  then obtain a' where ys: "ys = [a']" by (auto simp: Suc_length_conv length_Suc_conv)
  from 3 ys show ?case by (auto simp: b64_char_inj sextets intro: byte_eqI)
qed simp

lemma RawURLEncoding_length: "length (RawURLEncoding bs) = (4 * length bs + 2) div 3"
  by (induction bs rule: RawURLEncoding.induct) auto

text \<open>
  C35.  Two keys generated from different random bytes are different: the encoding loses nothing.
  Each has 46 characters, of which the stored prefix shows the fixed part and 8 of the body, and
  the stored hash is the hash of the whole key.
\<close>

theorem generated_keys_are_distinct:
  assumes "length b1 = 32" "length b2 = 32" "b1 \<noteq> b2"
  shows "\<exists>k1 k2. GenerateKey sha (Some b1) = Some (k1, take 11 k1, HashKey sha k1) \<and>
    GenerateKey sha (Some b2) = Some (k2, take 11 k2, HashKey sha k2) \<and> k1 \<noteq> k2 \<and> length k1 = 46 \<and> length k2 = 46"
  using assms RawURLEncoding_inj [of b1 b2]
  by (auto simp: GenerateKey_def Let_def RawURLEncoding_length HashKey_def)

theorem generated_keys_are_distinct_witness:
  "\<exists>k1 k2. GenerateKey (\<lambda>x. x) (Some (replicate 32 0)) = Some (k1, take 11 k1, HashKey (\<lambda>x. x) k1) \<and>
    GenerateKey (\<lambda>x. x) (Some (replicate 32 1)) = Some (k2, take 11 k2, HashKey (\<lambda>x. x) k2) \<and> k1 \<noteq> k2 \<and>
    length k1 = 46 \<and> length k2 = 46"
  by (rule generated_keys_are_distinct) simp_all

text \<open>Who passes \<open>RequireRole\<close>: the holders of a key whose role is at least the required one.\<close>

lemma RequireRole_ok: "RequireRole key required = None \<longleftrightarrow> (\<exists>k. key = Some k \<and> required \<le> ak_Role k)"
  by (auto simp: RequireRole_def split: option.split)

lemma RequireRole_mono: "RequireRole key r = None \<Longrightarrow> r' \<le> r \<Longrightarrow> RequireRole key r' = None"
  by (auto simp: RequireRole_ok intro: order_trans)

lemma RequireRole_unknown: "RequireRole (Some k) (RoleOther s) = None"
  by (cases "ak_Role k") (simp_all add: RequireRole_ok less_eq_Role_def)

lemma FromContext_WithAPIKey: "FromContext (WithAPIKey ctx k) = k"
  by (simp add: FromContext_def WithAPIKey_def)

end
