(* ===== verification/Allocator.thy ===== *)
theory Allocator
  imports Arb_Engine Execution_Graduation
begin

text \<open>
  internal/allocator: config.go, dynamic.go, oigating.go and engine.go, and the loop of
  cmd/capital-allocator/main.go.  The allocator holds each intent against quality gates, caps per
  strategy and venue and the capital of the account, scales it, and keeps what is deployed.
  JSON decoding is a parameter; the clock readings are arguments.  The pointers to the open
  interest tracker and the dynamic allocator that main.go shares with the engine are fields of it.
\<close>

section \<open>Policy\<close>

record AllocRedisPolicy =
  arp_Addr :: string
  arp_Password :: string
  arp_UseTLS :: bool
  arp_InputStream :: string
  arp_OutputStream :: string
  arp_FillsStream :: string
  arp_ConsumerGroup :: string
  arp_ConsumerName :: string
  arp_BlockMs :: int64
  arp_BatchSize :: int64

record AllocPolicy =
  alp_PerStrategyMaxUSD :: "(string \<times> float64) list"
  alp_PerVenueMaxUSD :: "string \<rightharpoonup> float64"
  alp_MarginUtilisationGatePct :: float64
  alp_MinQualityForArb :: string
  alp_MinQualityForFunding :: string
  alp_MinQualityForLiquidity :: string
  alp_MaxSingleIntentPct :: float64
  alp_KellyFraction :: float64
  alp_InitialCapitalUSD :: float64
  alp_BaselineOI :: float64
  alp_OIStream :: string
  alp_Redis :: AllocRedisPolicy

text \<open>\<open>LoadPolicy\<close>: the file's bytes (or the read error), the YAML decoder and the environment are given.\<close>

definition AllocLoadPolicy ::
  "(string \<Rightarrow> AllocPolicy option) \<Rightarrow> (string \<Rightarrow> string) \<Rightarrow> string option \<Rightarrow> gotext + AllocPolicy" where
  "AllocLoadPolicy unmarshal getenv file =
     (case file of
        None \<Rightarrow> Inl (Txt ''reading'')
      | Some bytes \<Rightarrow>
          (case unmarshal bytes of
             None \<Rightarrow> Inl (Txt ''parsing'')
           | Some p \<Rightarrow>
               (let r = alp_Redis p;
                    r = (if getenv ''REDIS_ADDR'' \<noteq> '''' then r\<lparr>arp_Addr := getenv ''REDIS_ADDR''\<rparr> else r);
                    r = (if getenv ''REDIS_PASSWORD'' \<noteq> '''' then r\<lparr>arp_Password := getenv ''REDIS_PASSWORD''\<rparr> else r);
                    r = (if getenv ''REDIS_TLS'' = ''true'' then r\<lparr>arp_UseTLS := True\<rparr> else r)
                in Inr (p\<lparr>alp_Redis := r\<rparr>))))"

section \<open>Open interest\<close>

record OISnapshot =
  oi_Venue :: string
  oi_Symbol :: string
  oi_OiContracts :: float64
  oi_TsMs :: int64

text \<open>The map from "venue:symbol" to the newest snapshot.\<close>

type_synonym OITracker = "(string \<times> OISnapshot) list"

definition NewOITracker :: OITracker where
  "NewOITracker = []"

definition oi_key :: "string \<Rightarrow> string \<Rightarrow> string" where
  "oi_key venue symbol = venue @ '':'' @ symbol"

definition OIUpdate :: "(string \<Rightarrow> OISnapshot option) \<Rightarrow> string \<Rightarrow> OITracker \<Rightarrow> OITracker" where
  "OIUpdate unmarshal raw t =
     (case unmarshal raw of
        None \<Rightarrow> t
      | Some snap \<Rightarrow>
          (if oi_OiContracts snap \<le> 0 then t
           else AList.update (oi_key (oi_Venue snap) (oi_Symbol snap)) snap t))"

definition LiquidityMultiplier :: "int64 \<Rightarrow> OITracker \<Rightarrow> string \<Rightarrow> string \<Rightarrow> float64 \<Rightarrow> float64" where
  "LiquidityMultiplier now t venue symbol baselineOI =
     (if baselineOI \<le> 0 then 1
      else
        (case map_of t (oi_key venue symbol) of
           None \<Rightarrow> 1
         | Some snap \<Rightarrow>
             (if now - oi_TsMs snap > 300000 then 1
              else
                (let ratio = oi_OiContracts snap / baselineOI in
                 if ratio < 0.5 then 0.25
                 else if ratio < 1 then 0.5 + (ratio - 0.5) * 1
                 else if ratio < 2 then 1 + (ratio - 1) * 0.5
                 else 1.5))))"

definition CurrentOI :: "OITracker \<Rightarrow> string \<Rightarrow> string \<Rightarrow> float64" where
  "CurrentOI t venue symbol =
     (case map_of t (oi_key venue symbol) of None \<Rightarrow> 0 | Some snap \<Rightarrow> oi_OiContracts snap)"

definition AllSnapshots :: "OITracker \<Rightarrow> OISnapshot list" where
  "AllSnapshots t = map snd t"

section \<open>Dynamic caps\<close>

record StrategyPerformance =
  sp_Strategy :: string
  sp_RecentPnL :: float64
  sp_FillCount :: int
  sp_WinCount :: int
  sp_TotalPnL :: float64
  sp_LastFillMs :: int64

definition new_performance :: "string \<Rightarrow> StrategyPerformance" where
  "new_performance strategy =
     \<lparr>sp_Strategy = strategy, sp_RecentPnL = 0, sp_FillCount = 0, sp_WinCount = 0, sp_TotalPnL = 0,
      sp_LastFillMs = 0\<rparr>"

record DynamicAllocator =
  da_performance :: "(string \<times> StrategyPerformance) list"
  da_baseCaps :: "(string \<times> float64) list"

definition NewDynamicAllocator :: "(string \<times> float64) list \<Rightarrow> DynamicAllocator" where
  "NewDynamicAllocator baseCaps =
     \<lparr>da_performance = map (\<lambda>(s, _). (s, new_performance s)) baseCaps, da_baseCaps = baseCaps\<rparr>"

definition DynRecordFill :: "int64 \<Rightarrow> string \<Rightarrow> float64 \<Rightarrow> DynamicAllocator \<Rightarrow> DynamicAllocator" where
  "DynRecordFill now strategy pnlUSD da =
     (let p = (case map_of (da_performance da) strategy of
                 None \<Rightarrow> new_performance strategy | Some p \<Rightarrow> p);
          p = p\<lparr>sp_FillCount := sp_FillCount p + 1,
                sp_TotalPnL := sp_TotalPnL p + pnlUSD,
                sp_RecentPnL := sp_RecentPnL p + pnlUSD,
                sp_WinCount := (if pnlUSD > 0 then sp_WinCount p + 1 else sp_WinCount p),
                sp_LastFillMs := now\<rparr>
      in da\<lparr>da_performance := AList.update strategy p (da_performance da)\<rparr>)"

text \<open>The switch of \<open>AdjustedCap\<close>, and the ceiling for a negative recent profit.\<close>

definition cap_multiplier :: "StrategyPerformance \<Rightarrow> float64" where
  "cap_multiplier p =
     (let winRate = of_int (sp_WinCount p) / of_int (sp_FillCount p);
          multiplier =
            (if sp_RecentPnL p > 0 \<and> winRate > 0.6
             then (let m = 1 + (winRate - 0.6) * 1.25 in if m > 1.5 then 1.5 else m)
             else if winRate \<ge> 0.4 then 1
             else if winRate \<ge> 0.2 then 0.5 + (winRate - 0.2) * 1.25
             else 0.25)
      in if sp_RecentPnL p < 0 \<and> multiplier > 1 then 0.75 else multiplier)"

definition AdjustedCap :: "DynamicAllocator \<Rightarrow> string \<Rightarrow> float64" where
  "AdjustedCap da strategy =
     (case map_of (da_baseCaps da) strategy of
        None \<Rightarrow> 0
      | Some baseCap \<Rightarrow>
          (case map_of (da_performance da) strategy of
             None \<Rightarrow> baseCap
           | Some p \<Rightarrow> if sp_FillCount p < 5 then baseCap else baseCap * cap_multiplier p))"

definition DecayRecentPnL :: "float64 \<Rightarrow> DynamicAllocator \<Rightarrow> DynamicAllocator" where
  "DecayRecentPnL factor da =
     da\<lparr>da_performance :=
        map (\<lambda>(s, p). (s, p\<lparr>sp_RecentPnL := sp_RecentPnL p * factor\<rparr>)) (da_performance da)\<rparr>"

definition DynSnapshot :: "DynamicAllocator \<Rightarrow> StrategyPerformance list" where
  "DynSnapshot da = map snd (da_performance da)"

section \<open>The engine\<close>

record Outcome =
  oc_Intent :: TradeIntent
  oc_Approved :: bool
  oc_Reason :: gotext

record AllocEngine =
  ale_policy :: AllocPolicy
  ale_strategyDeployed :: "(string \<times> float64) list"
  ale_venueDeployed :: "string \<rightharpoonup> float64"
  ale_Approved :: int
  ale_Rejected :: "gotext \<Rightarrow> int"
  ale_OITracker :: "OITracker option"
  ale_DynAlloc :: "DynamicAllocator option"
  ale_initialCapital :: float64
  ale_cumulativePnL :: float64
  ale_totalFees :: float64
  ale_fillCount :: int
  ale_peakEquity :: float64

definition NewAllocEngine :: "AllocPolicy \<Rightarrow> AllocEngine" where
  "NewAllocEngine p =
     \<lparr>ale_policy = p, ale_strategyDeployed = [], ale_venueDeployed = Map.empty, ale_Approved = 0,
      ale_Rejected = (\<lambda>_. 0), ale_OITracker = None, ale_DynAlloc = None,
      ale_initialCapital = alp_InitialCapitalUSD p, ale_cumulativePnL = 0, ale_totalFees = 0,
      ale_fillCount = 0,
      ale_peakEquity = (if alp_InitialCapitalUSD p > 0 then alp_InitialCapitalUSD p else 0)\<rparr>"

definition reject_intent :: "TradeIntent \<Rightarrow> gotext \<Rightarrow> AllocEngine \<Rightarrow> AllocEngine \<times> Outcome" where
  "reject_intent intent reason e =
     (e\<lparr>ale_Rejected := (ale_Rejected e)(reason := ale_Rejected e reason + 1)\<rparr>,
      \<lparr>oc_Intent = intent, oc_Approved = False, oc_Reason = reason\<rparr>)"

definition minQualityForStrategy :: "AllocPolicy \<Rightarrow> string \<Rightarrow> string" where
  "minQualityForStrategy p strategy =
     (if strategy \<in> {''CROSS_VENUE_ARB'', ''BASIS_CONVERGENCE'', ''DEX_CEX_ARB'', ''L2_BRIDGE_ARB''}
      then alp_MinQualityForArb p
      else if strategy \<in> {''FUNDING_CARRY'', ''FUNDING_DIFFERENTIAL'', ''FUNDING_CARRY_REVERSE'',
                ''FUNDING_CARRY_EXIT'', ''FUNDING_DIFFERENTIAL_EXIT'', ''FUNDING_CARRY_REVERSE_EXIT''}
      then alp_MinQualityForFunding p
      else if strategy \<in> {''SPREAD_CAPTURE'', ''LIQUIDATION_CONTRA'', ''CASCADE_CONTRA'', ''CORRELATION_BREAK''}
      then alp_MinQualityForLiquidity p
      else if strategy = ''MANUAL'' then ''''
      else ''HIGH'')"

definition totalNotional :: "TradeIntent \<Rightarrow> float64" where
  "totalNotional intent = sum_list (map tl_NotionalUSD (ti_Legs intent))"

definition alloc_qualityRank :: "string \<Rightarrow> int" where
  "alloc_qualityRank q =
     (if q = ''HIGH'' then 2 else if q = ''MED'' then 1 else if q = ''LOW'' then 0 else - 1)"

definition totalDeployed :: "AllocEngine \<Rightarrow> float64" where
  "totalDeployed e = sum_list (map snd (ale_strategyDeployed e))"

text \<open>What one strategy and one venue hold; the two updates of the map entries.\<close>

definition strat_held :: "AllocEngine \<Rightarrow> string \<Rightarrow> float64" where
  "strat_held e strategy = map_get 0 (map_of (ale_strategyDeployed e)) strategy"

definition venue_held :: "AllocEngine \<Rightarrow> string \<Rightarrow> float64" where
  "venue_held e venue = map_get 0 (ale_venueDeployed e) venue"

definition strat_charge :: "AllocEngine \<Rightarrow> string \<Rightarrow> float64 \<Rightarrow> AllocEngine" where
  "strat_charge e strategy x =
     e\<lparr>ale_strategyDeployed := AList.update strategy (strat_held e strategy + x) (ale_strategyDeployed e)\<rparr>"

definition venue_charge :: "AllocEngine \<Rightarrow> string \<Rightarrow> float64 \<Rightarrow> AllocEngine" where
  "venue_charge e venue x = e\<lparr>ale_venueDeployed := (ale_venueDeployed e)(venue \<mapsto> venue_held e venue + x)\<rparr>"

text \<open>The two halves of \<open>ReleaseNotional\<close>: subtract, then set a negative entry to 0.\<close>

definition strat_release :: "AllocEngine \<Rightarrow> string \<Rightarrow> float64 \<Rightarrow> AllocEngine" where
  "strat_release e strategy notional =
     (let e = strat_charge e strategy (- notional)
      in if strat_held e strategy < 0
         then e\<lparr>ale_strategyDeployed := AList.update strategy 0 (ale_strategyDeployed e)\<rparr> else e)"

definition venue_release :: "AllocEngine \<Rightarrow> string \<Rightarrow> float64 \<Rightarrow> AllocEngine" where
  "venue_release e venue notional =
     (let e = venue_charge e venue (- notional)
      in if venue_held e venue < 0
         then e\<lparr>ale_venueDeployed := (ale_venueDeployed e)(venue \<mapsto> 0)\<rparr> else e)"

definition ReleaseNotional :: "string \<Rightarrow> string \<Rightarrow> float64 \<Rightarrow> AllocEngine \<Rightarrow> AllocEngine" where
  "ReleaseNotional strategy venue notional e =
     venue_release (strat_release e strategy notional) venue notional"

text \<open>The cap of a strategy, lowered by the dynamic allocator but never raised by it.\<close>

definition base_cap :: "AllocPolicy \<Rightarrow> string \<Rightarrow> float64" where
  "base_cap p strategy = map_get 0 (map_of (alp_PerStrategyMaxUSD p)) strategy"

definition strat_cap :: "AllocEngine \<Rightarrow> string \<Rightarrow> float64" where
  "strat_cap e strategy =
     (let stratCap = base_cap (ale_policy e) strategy in
      case ale_DynAlloc e of
        None \<Rightarrow> stratCap
      | Some da \<Rightarrow>
          (let dynCap = AdjustedCap da strategy in
           if dynCap > 0 \<and> dynCap < stratCap then dynCap else stratCap))"

definition oi_multiplier :: "int64 \<Rightarrow> AllocEngine \<Rightarrow> TradeIntent \<Rightarrow> float64" where
  "oi_multiplier now e intent =
     (case ale_OITracker e of
        None \<Rightarrow> 1
      | Some t \<Rightarrow>
          (case ti_Legs intent of
             [] \<Rightarrow> 1
           | leg # _ \<Rightarrow> LiquidityMultiplier now t (tl_Venue leg) (ti_Symbol intent)
                          (alp_BaselineOI (ale_policy e))))"

text \<open>Gate 5: the reason of the first leg that its venue cannot take.\<close>

fun venue_gate :: "AllocEngine \<Rightarrow> TradeLeg list \<Rightarrow> gotext option" where
  "venue_gate e [] = None"
| "venue_gate e (leg # legs) =
     (let venueCap = map_get 0 (alp_PerVenueMaxUSD (ale_policy e)) (tl_Venue leg) in
      if venueCap = 0 then Some (Sprintf ''venue_not_configured:%s'' [AStr (tl_Venue leg)])
      else if venue_held e (tl_Venue leg) + tl_NotionalUSD leg > venueCap
      then Some (Sprintf ''venue_cap_exceeded:%s'' [AStr (tl_Venue leg)])
      else venue_gate e legs)"

definition avail_capital :: "AllocEngine \<Rightarrow> float64" where
  "avail_capital e = ale_initialCapital e + ale_cumulativePnL e - totalDeployed e"

text \<open>The scale factor before the open interest multiplier: strategy, venues, capital.\<close>

definition venue_scale :: "AllocEngine \<Rightarrow> float64 \<Rightarrow> TradeLeg \<Rightarrow> float64" where
  "venue_scale e scaleFactor leg =
     (let avail = map_get 0 (alp_PerVenueMaxUSD (ale_policy e)) (tl_Venue leg) - venue_held e (tl_Venue leg) in
      if tl_NotionalUSD leg * scaleFactor > avail
      then (let sf = avail / tl_NotionalUSD leg in if sf < scaleFactor then sf else scaleFactor)
      else scaleFactor)"

definition cap_scale :: "AllocEngine \<Rightarrow> float64 \<Rightarrow> TradeIntent \<Rightarrow> float64" where
  "cap_scale e available intent =
     (let intentNotional = totalNotional intent;
          scaleFactor = (if intentNotional > available then available / intentNotional else 1);
          scaleFactor = foldl (venue_scale e) scaleFactor (ti_Legs intent)
      in if ale_initialCapital e > 0
         then (let availCap = avail_capital e in
               if intentNotional * scaleFactor > availCap
               then (let sf = availCap / intentNotional in if sf < scaleFactor then sf else scaleFactor)
               else scaleFactor)
         else scaleFactor)"

definition scale_intent :: "float64 \<Rightarrow> TradeIntent \<Rightarrow> TradeIntent" where
  "scale_intent scaleFactor intent =
     intent\<lparr>ti_Legs := map (\<lambda>l. l\<lparr>tl_NotionalUSD := tl_NotionalUSD l * scaleFactor\<rparr>) (ti_Legs intent),
            ti_Expected := (ti_Expected intent)
              \<lparr>em_ProfitUSDNet := em_ProfitUSDNet (ti_Expected intent) * scaleFactor,
               em_FeesUSDEst := em_FeesUSDEst (ti_Expected intent) * scaleFactor\<rparr>\<rparr>"

text \<open>The approval: scaled legs, the ledgers charged.  The scaled legs are shared with the caller's intent.\<close>

definition approve_scaled :: "float64 \<Rightarrow> TradeIntent \<Rightarrow> AllocEngine \<Rightarrow> AllocEngine \<times> Outcome" where
  "approve_scaled scaleFactor intent e =
     (let adjusted = scale_intent scaleFactor intent;
          e = strat_charge e (ti_Strategy intent) (totalNotional adjusted);
          e = foldl (\<lambda>e leg. venue_charge e (tl_Venue leg) (tl_NotionalUSD leg)) e (ti_Legs adjusted);
          e = e\<lparr>ale_Approved := ale_Approved e + 1\<rparr>
      in (e, \<lparr>oc_Intent = adjusted, oc_Approved = True, oc_Reason = Txt ''''\<rparr>))"

definition Evaluate ::
  "int64 \<Rightarrow> AllocEngine \<Rightarrow> TradeIntent \<Rightarrow> string \<Rightarrow> string \<Rightarrow> AllocEngine \<times> Outcome" where
  "Evaluate now e intent systemMode consensusQuality =
     (let p = ale_policy e; strategy = ti_Strategy intent; intentNotional = totalNotional intent in
      if systemMode \<noteq> ''RUNNING'' \<and> systemMode \<noteq> ''''
      then reject_intent intent (Sprintf ''system_mode:%s'' [AStr systemMode]) e
      else if alloc_qualityRank consensusQuality < alloc_qualityRank (minQualityForStrategy p strategy)
      then reject_intent intent (Txt ''consensus_quality_below_minimum'') e
      else if base_cap p strategy = 0
      then reject_intent intent (Txt ''strategy_not_configured'') e
      else
        (let stratCap = strat_cap e strategy; oiMultiplier = oi_multiplier now e intent in
         if alp_MaxSingleIntentPct p > 0 \<and> intentNotional > stratCap * alp_MaxSingleIntentPct p / 100
         then reject_intent intent (Txt ''single_intent_concentration_exceeded'') e
         else
           (let available = stratCap - strat_held e strategy in
            if available \<le> 0 then reject_intent intent (Txt ''strategy_cap_exceeded'') e
            else
              (case venue_gate e (ti_Legs intent) of
                 Some reason \<Rightarrow> reject_intent intent reason e
               | None \<Rightarrow>
                   (if ale_initialCapital e > 0 \<and> avail_capital e \<le> 0
                    then reject_intent intent (Txt ''capital_exhausted'') e
                    else
                      (let scaleFactor = cap_scale e available intent * oiMultiplier in
                       if scaleFactor < 0.1
                       then reject_intent intent (Txt ''insufficient_available_notional'') e
                       else
                         (let scaleFactor =
                                (if alp_KellyFraction p > 0 \<and> alp_KellyFraction p < 1
                                 then scaleFactor * alp_KellyFraction p else scaleFactor) in
                          if scaleFactor < 0.05
                          then reject_intent intent (Txt ''kelly_scaled_notional_too_small'') e
                          else approve_scaled scaleFactor intent e)))))))"

definition RecordPnL :: "float64 \<Rightarrow> float64 \<Rightarrow> AllocEngine \<Rightarrow> AllocEngine" where
  "RecordPnL pnl fees e =
     (let e = e\<lparr>ale_cumulativePnL := ale_cumulativePnL e + pnl, ale_totalFees := ale_totalFees e + fees,
                ale_fillCount := ale_fillCount e + 1\<rparr>;
          equity = ale_initialCapital e + ale_cumulativePnL e
      in if equity > ale_peakEquity e then e\<lparr>ale_peakEquity := equity\<rparr> else e)"

record EquitySnapshot =
  eq_InitialCapitalUSD :: float64
  eq_CumulativePnLUSD :: float64
  eq_CurrentEquityUSD :: float64
  eq_DeployedUSD :: float64
  eq_AvailableUSD :: float64
  eq_TotalFeesUSD :: float64
  eq_FillCount :: int
  eq_ReturnPct :: float64
  eq_DrawdownPct :: float64
  eq_PeakEquityUSD :: float64

definition Equity :: "AllocEngine \<Rightarrow> EquitySnapshot" where
  "Equity e =
     (let equity = ale_initialCapital e + ale_cumulativePnL e;
          deployed = totalDeployed e;
          available = equity - deployed;
          drawdownPct = (if ale_peakEquity e > 0
                         then (let d = (ale_peakEquity e - equity) / ale_peakEquity e * 100
                               in if d < 0 then 0 else d) else 0)
      in \<lparr>eq_InitialCapitalUSD = ale_initialCapital e, eq_CumulativePnLUSD = ale_cumulativePnL e,
          eq_CurrentEquityUSD = equity, eq_DeployedUSD = deployed,
          eq_AvailableUSD = (if available < 0 then 0 else available),
          eq_TotalFeesUSD = ale_totalFees e, eq_FillCount = ale_fillCount e,
          eq_ReturnPct = (if ale_initialCapital e > 0
                          then ale_cumulativePnL e / ale_initialCapital e * 100 else 0),
          eq_DrawdownPct = drawdownPct, eq_PeakEquityUSD = ale_peakEquity e\<rparr>)"

section \<open>The service\<close>

text \<open>
  One iteration of the loop of main.go takes at most one tick, then, unless the kill switch is
  on, the fills and the intents read from the bus.  An update of open interest comes from the
  second goroutine, at any time.  Each fill and intent comes with the clock reading of its
  handling, each intent with the quality read for it.
\<close>

definition main_setup :: "AllocPolicy \<Rightarrow> AllocEngine" where
  "main_setup p =
     (NewAllocEngine p)\<lparr>ale_OITracker := Some NewOITracker,
        ale_DynAlloc := Some (NewDynamicAllocator (alp_PerStrategyMaxUSD p))\<rparr>"

definition main_fill :: "AllocEngine \<Rightarrow> SimulatedFill \<times> int64 \<Rightarrow> AllocEngine" where
  "main_fill e x =
     (case x of (f, now) \<Rightarrow>
       if sf_IntentExpired f then e
       else
         (let e = foldl (\<lambda>e leg. ReleaseNotional (sf_Strategy f) (fl_Venue leg) (fl_FilledNotionalUSD leg) e)
                    e (sf_Legs f);
              e = e\<lparr>ale_DynAlloc := map_option (DynRecordFill now (sf_Strategy f) (sf_NetPnLUSD f)) (ale_DynAlloc e)\<rparr>
          in RecordPnL (sf_NetPnLUSD f) (sf_FeesAssumedUSD f) e))"

definition main_intent ::
  "string \<Rightarrow> AllocEngine \<times> TradeIntent list \<Rightarrow> TradeIntent \<times> string \<times> int64 \<Rightarrow> AllocEngine \<times> TradeIntent list" where
  "main_intent mode r x =
     (case (r, x) of ((e, published), (intent, quality, now)) \<Rightarrow>
       (let (e, outcome) = Evaluate now e intent mode quality in
        if \<not> oc_Approved outcome then (e, published) else (e, published @ [oc_Intent outcome])))"

datatype alloc_event =
    OIRaw string
  | DecayTick
  | Round bool "(SimulatedFill \<times> int64) list" string "(TradeIntent \<times> string \<times> int64) list"

fun main_alloc :: "(string \<Rightarrow> OISnapshot option) \<Rightarrow> AllocEngine \<Rightarrow> alloc_event \<Rightarrow> AllocEngine \<times> TradeIntent list" where
  "main_alloc unmarshal e (OIRaw raw) =
     (e\<lparr>ale_OITracker := map_option (OIUpdate unmarshal raw) (ale_OITracker e)\<rparr>, [])"
| "main_alloc unmarshal e DecayTick =
     (e\<lparr>ale_DynAlloc := map_option (DecayRecentPnL 0.9) (ale_DynAlloc e)\<rparr>, [])"
| "main_alloc unmarshal e (Round kill fills mode intents) =
     (if kill then (e, [])
      else foldl (main_intent mode) (foldl main_fill e fills, []) intents)"

section \<open>Ledgers of the engine\<close>

lemma charge_simps [simp]:
  "ale_policy (strat_charge e s x) = ale_policy e" "ale_policy (venue_charge e v x) = ale_policy e"
  "strat_held (venue_charge e v x) s = strat_held e s" "venue_held (strat_charge e s x) v = venue_held e v"
  "totalDeployed (venue_charge e v x) = totalDeployed e"
  "ale_initialCapital (strat_charge e s x) = ale_initialCapital e"
  "ale_initialCapital (venue_charge e v x) = ale_initialCapital e"
  "ale_cumulativePnL (strat_charge e s x) = ale_cumulativePnL e"
  "ale_cumulativePnL (venue_charge e v x) = ale_cumulativePnL e"
  by (simp_all add: strat_charge_def venue_charge_def strat_held_def venue_held_def totalDeployed_def)

lemma strat_held_charge: "strat_held (strat_charge e s x) s' = strat_held e s' + (if s = s' then x else 0)"
  by (simp add: strat_held_def strat_charge_def update_conv')

lemma venue_held_charge: "venue_held (venue_charge e v x) v' = venue_held e v' + (if v = v' then x else 0)"
  by (simp add: venue_held_def venue_charge_def)

lemma release_simps [simp]:
  "ale_policy (strat_release e s x) = ale_policy e" "ale_policy (venue_release e v x) = ale_policy e"
  "strat_held (venue_release e v x) s = strat_held e s" "venue_held (strat_release e s x) v = venue_held e v"
  by (simp_all add: strat_release_def venue_release_def Let_def)
     (simp_all add: strat_held_def venue_held_def venue_charge_def strat_charge_def)

interpretation strat_ledger: ledger strat_held strat_charge strat_release
proof
  fix e :: AllocEngine and s s' x
  show "strat_held (strat_charge e s x) s' = strat_held e s' + (if s = s' then x else 0)"
    by (rule strat_held_charge)
  have "strat_held (e\<lparr>ale_strategyDeployed := AList.update s 0 (ale_strategyDeployed e)\<rparr>) s' =
      (if s' = s then 0 else strat_held e s')" for e
    by (simp add: strat_held_def update_conv')
  then show "strat_held (strat_release e s x) s' = (if s = s' then max 0 (strat_held e s - x) else strat_held e s')"
    by (auto simp: strat_release_def strat_held_charge Let_def)
qed

interpretation venue_ledger: ledger venue_held venue_charge venue_release
proof
  fix e :: AllocEngine and s s' x
  show "venue_held (venue_charge e s x) s' = venue_held e s' + (if s = s' then x else 0)"
    by (rule venue_held_charge)
  have "venue_held (e\<lparr>ale_venueDeployed := (ale_venueDeployed e)(s \<mapsto> 0)\<rparr>) s' =
      (if s' = s then 0 else venue_held e s')" for e
    by (simp add: venue_held_def)
  then show "venue_held (venue_release e s x) s' = (if s = s' then max 0 (venue_held e s - x) else venue_held e s')"
    by (auto simp: venue_release_def venue_held_charge Let_def)
qed

lemma alist_sum_update:
  fixes xs :: "('k \<times> real) list"
  shows "sum_list (map snd (AList.update k v xs)) = sum_list (map snd xs) - map_get 0 (map_of xs) k + v"
  by (induction xs) (auto simp: map_get_def)

lemma totalDeployed_charge: "totalDeployed (strat_charge e s x) = totalDeployed e + x"
  by (simp add: totalDeployed_def strat_charge_def alist_sum_update strat_held_def)

lemma venue_charges_simps [simp]:
  "ale_policy (foldl (\<lambda>e leg. venue_charge e (tl_Venue leg) (tl_NotionalUSD leg)) e legs) = ale_policy e"
  "ale_initialCapital (foldl (\<lambda>e leg. venue_charge e (tl_Venue leg) (tl_NotionalUSD leg)) e legs) = ale_initialCapital e"
  "ale_cumulativePnL (foldl (\<lambda>e leg. venue_charge e (tl_Venue leg) (tl_NotionalUSD leg)) e legs) = ale_cumulativePnL e"
  "strat_held (foldl (\<lambda>e leg. venue_charge e (tl_Venue leg) (tl_NotionalUSD leg)) e legs) s = strat_held e s"
  "totalDeployed (foldl (\<lambda>e leg. venue_charge e (tl_Venue leg) (tl_NotionalUSD leg)) e legs) = totalDeployed e"
  by (induction legs arbitrary: e) simp_all

lemma venue_charges_fold:
  "foldl (\<lambda>e leg. venue_charge e (tl_Venue leg) (tl_NotionalUSD leg)) e legs =
     foldl (\<lambda>e (v, x). venue_charge e v x) e (map (\<lambda>l. (tl_Venue l, tl_NotionalUSD l)) legs)"
  by (induction legs arbitrary: e) simp_all

section \<open>Scaling\<close>

lemma LiquidityMultiplier_bounds: "0.25 \<le> LiquidityMultiplier now t v s b \<and> LiquidityMultiplier now t v s b \<le> 1.5"
  unfolding LiquidityMultiplier_def by (auto simp: Let_def field_simps split: option.split)

lemma LiquidityMultiplier_off [simp]: "b \<le> 0 \<Longrightarrow> LiquidityMultiplier now t v s b = 1"
  by (simp add: LiquidityMultiplier_def)

lemma oi_multiplier_bounds: "0.25 \<le> oi_multiplier now e i \<and> oi_multiplier now e i \<le> 1.5"
  using LiquidityMultiplier_bounds by (auto simp: oi_multiplier_def split: option.split list.split)

lemma oi_multiplier_off: "alp_BaselineOI (ale_policy e) \<le> 0 \<Longrightarrow> oi_multiplier now e i = 1"
  by (auto simp: oi_multiplier_def split: option.split list.split)

lemma strat_cap_le: "strat_cap e s \<le> base_cap (ale_policy e) s"
  by (auto simp: strat_cap_def Let_def split: option.split)

lemma venue_scale_le: "venue_scale e k l \<le> k"
  by (simp add: venue_scale_def Let_def)

lemma venue_scales_le: "foldl (venue_scale e) k ls \<le> k"
  by (induction ls arbitrary: k) (auto intro: order_trans venue_scale_le)

lemma cap_scale_le:
  "cap_scale e a i \<le> foldl (venue_scale e) (if totalNotional i > a then a / totalNotional i else 1) (ti_Legs i)"
  by (simp add: cap_scale_def Let_def)

lemma cap_scale_le_first: "cap_scale e a i \<le> (if totalNotional i > a then a / totalNotional i else 1)"
  by (rule order_trans [OF cap_scale_le venue_scales_le])

lemma cap_scale_fits:
  assumes "0 < a" "0 \<le> totalNotional i" "k \<le> cap_scale e a i"
  shows "totalNotional i * k \<le> a" "k \<le> 1"
proof -
  have k: "k \<le> (if totalNotional i > a then a / totalNotional i else 1)"
    using assms(3) cap_scale_le_first by (rule order_trans)
  then have "totalNotional i * k \<le> totalNotional i * (if totalNotional i > a then a / totalNotional i else 1)"
    using assms(2) by (rule mult_left_mono)
  then show "totalNotional i * k \<le> a" using assms(1) by (auto split: if_splits)
  show "k \<le> 1"
  proof (cases "totalNotional i > a")
    case True
    then have "a / totalNotional i \<le> 1" using assms(1) by (simp add: divide_le_eq)
    with True k show ?thesis by simp
  qed (use k in simp)
qed

lemma cap_scale_capital:
  assumes "ale_initialCapital e > 0" "0 < avail_capital e" "0 \<le> totalNotional i" "k \<le> cap_scale e a i"
  shows "totalNotional i * k \<le> avail_capital e"
proof -
  define f where "f = foldl (venue_scale e) (if totalNotional i > a then a / totalNotional i else 1) (ti_Legs i)"
  have "cap_scale e a i = (if totalNotional i * f > avail_capital e
      then (if avail_capital e / totalNotional i < f then avail_capital e / totalNotional i else f) else f)"
    using assms(1) by (simp add: cap_scale_def f_def Let_def)
  moreover have "totalNotional i * k \<le> totalNotional i * cap_scale e a i"
    using assms(3,4) by (simp add: mult_left_mono)
  moreover have "avail_capital e / totalNotional i < f" if "totalNotional i * f > avail_capital e"
  proof -
    have "totalNotional i \<noteq> 0" using that assms(2) by auto
    then have "0 < totalNotional i" using assms(3) by simp
    with that show ?thesis by (simp add: divide_less_eq mult.commute)
  qed
  ultimately show ?thesis using assms(2) by (cases "totalNotional i = 0") (auto split: if_splits)
qed

lemma scale_intent_simps [simp]:
  "ti_Strategy (scale_intent k i) = ti_Strategy i" "ti_Symbol (scale_intent k i) = ti_Symbol i"
  "ti_IntentID (scale_intent k i) = ti_IntentID i"
  "ti_Legs (scale_intent k i) = map (\<lambda>l. l\<lparr>tl_NotionalUSD := tl_NotionalUSD l * k\<rparr>) (ti_Legs i)"
  by (simp_all add: scale_intent_def)

lemma totalNotional_scale [simp]: "totalNotional (scale_intent k i) = totalNotional i * k"
  by (simp add: totalNotional_def comp_def sum_list_mult_const)

lemma totalNotional_nonneg: "\<forall>l\<in>set (ti_Legs i). 0 \<le> tl_NotionalUSD l \<Longrightarrow> 0 \<le> totalNotional i"
  by (auto simp: totalNotional_def intro: sum_list_map_nonneg)

lemma venue_gate_None:
  "venue_gate e legs = None \<longleftrightarrow>
     (\<forall>l\<in>set legs. map_get 0 (alp_PerVenueMaxUSD (ale_policy e)) (tl_Venue l) \<noteq> 0 \<and>
        venue_held e (tl_Venue l) + tl_NotionalUSD l \<le> map_get 0 (alp_PerVenueMaxUSD (ale_policy e)) (tl_Venue l))"
  by (induction legs) (auto simp: Let_def)

section \<open>Approvals\<close>

definition kelly_factor :: "AllocPolicy \<Rightarrow> float64" where
  "kelly_factor p = (if alp_KellyFraction p > 0 \<and> alp_KellyFraction p < 1 then alp_KellyFraction p else 1)"

lemma kelly_factor_bounds: "0 < kelly_factor p \<and> kelly_factor p \<le> 1"
  by (simp add: kelly_factor_def)

text \<open>Everything an approval went through, and its result.\<close>

definition approval_of :: "int64 \<Rightarrow> AllocEngine \<Rightarrow> TradeIntent \<Rightarrow> string \<Rightarrow> string \<Rightarrow> real \<Rightarrow> bool" where
  "approval_of now e i mode q k \<longleftrightarrow>
     (mode = ''RUNNING'' \<or> mode = '''') \<and>
     alloc_qualityRank (minQualityForStrategy (ale_policy e) (ti_Strategy i)) \<le> alloc_qualityRank q \<and>
     0 < strat_cap e (ti_Strategy i) - strat_held e (ti_Strategy i) \<and>
     venue_gate e (ti_Legs i) = None \<and>
     (ale_initialCapital e > 0 \<longrightarrow> 0 < avail_capital e) \<and>
     k = cap_scale e (strat_cap e (ti_Strategy i) - strat_held e (ti_Strategy i)) i
           * oi_multiplier now e i * kelly_factor (ale_policy e) \<and>
     0.05 \<le> k"

lemma Evaluate_cases:
  "(\<exists>k. approval_of now e i mode q k \<and> Evaluate now e i mode q = approve_scaled k i e) \<or>
   (\<exists>reason. Evaluate now e i mode q = reject_intent i reason e)"
proof -
  let ?p = "ale_policy e"
  let ?a = "strat_cap e (ti_Strategy i) - strat_held e (ti_Strategy i)"
  define k where "k = cap_scale e ?a i * oi_multiplier now e i * kelly_factor ?p"
  have k: "(if alp_KellyFraction ?p > 0 \<and> alp_KellyFraction ?p < 1
      then cap_scale e ?a i * oi_multiplier now e i * alp_KellyFraction ?p
      else cap_scale e ?a i * oi_multiplier now e i) = k"
    by (simp add: k_def kelly_factor_def)
  define Q where "Q x \<longleftrightarrow> (\<exists>k. approval_of now e i mode q k \<and> x = approve_scaled k i e) \<or>
    (\<exists>reason. x = reject_intent i reason e)" for x
  have r: "Q (reject_intent i reason e)" for reason by (auto simp: Q_def)
  have a: "Q (approve_scaled k' i e)" if "approval_of now e i mode q k'" for k' using that by (auto simp: Q_def)
  have "Q (Evaluate now e i mode q)"
    unfolding Evaluate_def Let_def k
    by (auto simp: r k_def approval_of_def intro!: a split: option.split)
  then show ?thesis by (simp add: Q_def)
qed

lemma Evaluate_approves:
  assumes "approval_of now e i mode q k" "base_cap (ale_policy e) (ti_Strategy i) \<noteq> 0"
    and "\<not> (alp_MaxSingleIntentPct (ale_policy e) > 0 \<and>
           totalNotional i > strat_cap e (ti_Strategy i) * alp_MaxSingleIntentPct (ale_policy e) / 100)"
    and "0.1 \<le> cap_scale e (strat_cap e (ti_Strategy i) - strat_held e (ti_Strategy i)) i * oi_multiplier now e i"
  shows "Evaluate now e i mode q = approve_scaled k i e"
proof -
  let ?c = "cap_scale e (strat_cap e (ti_Strategy i) - strat_held e (ti_Strategy i)) i * oi_multiplier now e i"
  have k: "(if alp_KellyFraction (ale_policy e) > 0 \<and> alp_KellyFraction (ale_policy e) < 1
      then ?c * alp_KellyFraction (ale_policy e) else ?c) = k"
    using assms(1) by (simp add: approval_of_def kelly_factor_def)
  have g: "\<not> (mode \<noteq> ''RUNNING'' \<and> mode \<noteq> '''')"
    "\<not> alloc_qualityRank q < alloc_qualityRank (minQualityForStrategy (ale_policy e) (ti_Strategy i))"
    "\<not> strat_cap e (ti_Strategy i) - strat_held e (ti_Strategy i) \<le> 0"
    "venue_gate e (ti_Legs i) = None" "\<not> (ale_initialCapital e > 0 \<and> avail_capital e \<le> 0)" "\<not> k < 0.05" "\<not> ?c < 0.1"
    using assms(1,4) by (auto simp: approval_of_def)
  show ?thesis
    unfolding Evaluate_def Let_def k using g assms(2,3) by (simp only: if_False option.case)
qed

lemma reject_intent_simps [simp]:
  "oc_Approved (snd (reject_intent i r e)) = False"
  "ale_policy (fst (reject_intent i r e)) = ale_policy e"
  "strat_held (fst (reject_intent i r e)) = strat_held e"
  "venue_held (fst (reject_intent i r e)) = venue_held e"
  "totalDeployed (fst (reject_intent i r e)) = totalDeployed e"
  by (simp_all add: reject_intent_def strat_held_def venue_held_def totalDeployed_def fun_eq_iff)

lemma approve_scaled_simps [simp]:
  "snd (approve_scaled k i e) = \<lparr>oc_Intent = scale_intent k i, oc_Approved = True, oc_Reason = Txt ''''\<rparr>"
  "ale_policy (fst (approve_scaled k i e)) = ale_policy e"
  "ale_initialCapital (fst (approve_scaled k i e)) = ale_initialCapital e"
  "ale_cumulativePnL (fst (approve_scaled k i e)) = ale_cumulativePnL e"
  "totalDeployed (fst (approve_scaled k i e)) = totalDeployed e + totalNotional i * k"
  "strat_held (fst (approve_scaled k i e)) s =
     strat_held e s + (if s = ti_Strategy i then totalNotional i * k else 0)"
proof -
  have [simp]: "strat_held (e\<lparr>ale_Approved := n\<rparr>) = strat_held e"
    "totalDeployed (e\<lparr>ale_Approved := n\<rparr>) = totalDeployed e" for e :: AllocEngine and n
    by (simp_all add: strat_held_def totalDeployed_def fun_eq_iff)
  show "snd (approve_scaled k i e) = \<lparr>oc_Intent = scale_intent k i, oc_Approved = True, oc_Reason = Txt ''''\<rparr>"
  "ale_policy (fst (approve_scaled k i e)) = ale_policy e"
  "ale_initialCapital (fst (approve_scaled k i e)) = ale_initialCapital e"
  "ale_cumulativePnL (fst (approve_scaled k i e)) = ale_cumulativePnL e"
  "totalDeployed (fst (approve_scaled k i e)) = totalDeployed e + totalNotional i * k"
  "strat_held (fst (approve_scaled k i e)) s =
     strat_held e s + (if s = ti_Strategy i then totalNotional i * k else 0)"
    by (simp_all add: approve_scaled_def Let_def totalDeployed_charge strat_held_charge
        del: scale_intent_simps(4))
qed

lemma approve_scaled_venue:
  "venue_held (fst (approve_scaled k i e)) v =
     venue_held e v + sum_list (map (\<lambda>l. tl_NotionalUSD l * k) (filter (\<lambda>l. tl_Venue l = v) (ti_Legs i)))"
proof -
  have [simp]: "venue_held (e\<lparr>ale_Approved := n\<rparr>) = venue_held e" for e :: AllocEngine and n
    by (simp add: venue_held_def fun_eq_iff)
  have "fst (approve_scaled k i e) =
      (foldl (\<lambda>e (v, x). venue_charge e v x) (strat_charge e (ti_Strategy i) (totalNotional (scale_intent k i)))
         (map (\<lambda>l. (tl_Venue l, tl_NotionalUSD l)) (ti_Legs (scale_intent k i))))\<lparr>ale_Approved :=
       ale_Approved (foldl (\<lambda>e (v, x). venue_charge e v x)
         (strat_charge e (ti_Strategy i) (totalNotional (scale_intent k i)))
         (map (\<lambda>l. (tl_Venue l, tl_NotionalUSD l)) (ti_Legs (scale_intent k i)))) + 1\<rparr>"
    unfolding approve_scaled_def Let_def venue_charges_fold by (simp only: fst_conv)
  then have "venue_held (fst (approve_scaled k i e)) v = venue_held e v +
      sum_list (map snd (filter (\<lambda>kx. fst kx = v)
        (map (\<lambda>l. (tl_Venue l, tl_NotionalUSD l)) (ti_Legs (scale_intent k i)))))"
    by (simp only: venue_ledger.held_charges charge_simps \<open>\<And>n e. venue_held (e\<lparr>ale_Approved := n\<rparr>) = venue_held e\<close>)
  then show ?thesis by (simp add: filter_map comp_def)
qed

text \<open>
  The gate of the venues looks at one leg at a time, so an intent with n legs on a venue takes it to
  at most n times its cap.
\<close>

lemma approve_scaled_venue_cap:
  assumes "length (filter (\<lambda>l. tl_Venue l = v) (ti_Legs i)) \<le> n" "1 \<le> n" "\<forall>l\<in>set (ti_Legs i). 0 \<le> tl_NotionalUSD l"
    and "venue_gate e (ti_Legs i) = None" "0 \<le> k" "k \<le> 1"
    and "venue_held e v \<in> {0..max 0 (real n * map_get 0 (alp_PerVenueMaxUSD (ale_policy e)) v)}"
  shows "venue_held (fst (approve_scaled k i e)) v \<in> {0..max 0 (real n * map_get 0 (alp_PerVenueMaxUSD (ale_policy e)) v)}"
proof (cases "filter (\<lambda>l. tl_Venue l = v) (ti_Legs i)")
  case Nil
  with assms(7) show ?thesis by (simp add: approve_scaled_venue)
next
  case (Cons l0 ls0)
  let ?ls = "filter (\<lambda>l. tl_Venue l = v) (ti_Legs i)" and ?c = "map_get 0 (alp_PerVenueMaxUSD (ale_policy e)) v"
  have leg: "0 \<le> tl_NotionalUSD l \<and> tl_NotionalUSD l \<le> ?c - venue_held e v" if "l \<in> set ?ls" for l
    using that assms(3,4) by (auto simp: venue_gate_None)
  have "l0 \<in> set ?ls" by (simp add: Cons)
  then have room: "0 \<le> ?c - venue_held e v" using leg by fastforce
  have "(\<Sum>l\<leftarrow>?ls. tl_NotionalUSD l * k) \<le> (\<Sum>l\<leftarrow>?ls. ?c - venue_held e v)"
    using leg assms(5,6) by (intro sum_list_mono) (meson mult_left_le order_trans)
  also have "\<dots> = real (length ?ls) * (?c - venue_held e v)" by (simp add: sum_list_triv)
  also have "\<dots> \<le> real n * (?c - venue_held e v)" using assms(1) room by (intro mult_right_mono) auto
  finally have "venue_held e v + (\<Sum>l\<leftarrow>?ls. tl_NotionalUSD l * k) \<le> real n * ?c - (real n - 1) * venue_held e v"
    by (simp add: algebra_simps)
  moreover have "0 \<le> (real n - 1) * venue_held e v" using assms(2,7) by simp
  moreover have "0 \<le> (\<Sum>l\<leftarrow>?ls. tl_NotionalUSD l * k)" using leg assms(5) by (intro sum_list_map_nonneg) auto
  ultimately show ?thesis using assms(7) by (auto simp: approve_scaled_venue)
qed

text \<open>The multipliers after the caps cannot enlarge an intent.\<close>

definition no_upsizing :: "AllocPolicy \<Rightarrow> bool" where
  "no_upsizing p \<longleftrightarrow> alp_BaselineOI p \<le> 0 \<or> (0 < alp_KellyFraction p \<and> alp_KellyFraction p \<le> 2 / 3)"

lemma no_upsizing_factor:
  assumes "no_upsizing (ale_policy e)"
  shows "oi_multiplier now e i * kelly_factor (ale_policy e) \<le> 1"
proof (cases "alp_BaselineOI (ale_policy e) \<le> 0")
  case True
  then show ?thesis using kelly_factor_bounds by (simp add: oi_multiplier_off)
next
  case False
  with assms have "kelly_factor (ale_policy e) \<le> 2 / 3" by (auto simp: no_upsizing_def kelly_factor_def)
  then have "oi_multiplier now e i * kelly_factor (ale_policy e) \<le> 1.5 * (2 / 3)"
    using oi_multiplier_bounds [of now e i] kelly_factor_bounds [of "ale_policy e"] by (intro mult_mono) auto
  then show ?thesis by simp
qed

lemma approval_le_cap_scale:
  assumes "approval_of now e i mode q k" "no_upsizing (ale_policy e)"
  shows "0 \<le> k" "k \<le> cap_scale e (strat_cap e (ti_Strategy i) - strat_held e (ti_Strategy i)) i"
proof -
  let ?c = "cap_scale e (strat_cap e (ti_Strategy i) - strat_held e (ti_Strategy i)) i"
  let ?m = "oi_multiplier now e i * kelly_factor (ale_policy e)"
  have k: "k = ?c * ?m" "0.05 \<le> k" using assms(1) by (simp_all add: approval_of_def mult.assoc)
  have m: "0 < ?m" "?m \<le> 1"
    using oi_multiplier_bounds [of now e i] kelly_factor_bounds [of "ale_policy e"] no_upsizing_factor [OF assms(2)]
    by (simp_all add: mult_pos_pos)
  have "0 < ?c * ?m" using k by simp
  then have "0 < ?c" using m(1) by (simp add: zero_less_mult_iff)
  with m(2) show "0 \<le> k" "k \<le> ?c" using k by (simp_all add: mult_left_le)
qed

section \<open>Caps over runs\<close>

text \<open>Intents with at most \<open>n\<close> legs on one venue: 1 for the arbitrage of two venues, 2 for carry and basis.\<close>

definition intent_wf :: "nat \<Rightarrow> TradeIntent \<Rightarrow> bool" where
  "intent_wf n i \<longleftrightarrow> (\<forall>v. length (filter (\<lambda>l. tl_Venue l = v) (ti_Legs i)) \<le> n) \<and>
     (\<forall>l\<in>set (ti_Legs i). 0 \<le> tl_NotionalUSD l)"

fun alloc_event_wf :: "nat \<Rightarrow> alloc_event \<Rightarrow> bool" where
  "alloc_event_wf n (Round kill fills mode intents) \<longleftrightarrow>
     (\<forall>(f, _)\<in>set fills. \<forall>l\<in>set (sf_Legs f). 0 \<le> fl_FilledNotionalUSD l) \<and> (\<forall>(i, _)\<in>set intents. intent_wf n i)"
| "alloc_event_wf n _ \<longleftrightarrow> True"

definition within_caps :: "nat \<Rightarrow> AllocEngine \<Rightarrow> bool" where
  "within_caps n e \<longleftrightarrow>
     (\<forall>s. strat_held e s \<in> {0..max 0 (base_cap (ale_policy e) s)}) \<and>
     (\<forall>v. venue_held e v \<in> {0..max 0 (real n * map_get 0 (alp_PerVenueMaxUSD (ale_policy e)) v)})"

lemma within_caps_new: "within_caps n (main_setup p)"
  by (simp add: within_caps_def main_setup_def NewAllocEngine_def strat_held_def venue_held_def)

lemma within_caps_cong:
  assumes "ale_policy e' = ale_policy e" "\<And>s. strat_held e' s = strat_held e s" "\<And>v. venue_held e' v = venue_held e v"
  shows "within_caps n e' \<longleftrightarrow> within_caps n e"
  using assms by (simp add: within_caps_def)

lemma within_caps_release:
  assumes "within_caps n e" "0 \<le> x"
  shows "within_caps n (ReleaseNotional s v x e)"
  using assms unfolding within_caps_def ReleaseNotional_def
  by (auto simp: strat_ledger.held_release venue_ledger.held_release) (smt (verit))+

lemma ReleaseNotional_policy [simp]: "ale_policy (ReleaseNotional s v x e) = ale_policy e"
  by (simp add: ReleaseNotional_def)

lemma Evaluate_policy [simp]: "ale_policy (fst (Evaluate now e i mode q)) = ale_policy e"
  using Evaluate_cases [of now e i mode q] by auto

lemma within_caps_Evaluate:
  assumes "within_caps n e" "intent_wf n i" "no_upsizing (ale_policy e)" "1 \<le> n"
  shows "within_caps n (fst (Evaluate now e i mode q))"
  using Evaluate_cases [of now e i mode q]
proof (elim disjE exE conjE)
  fix reason
  assume "Evaluate now e i mode q = reject_intent i reason e"
  then show ?thesis using assms(1) by (simp add: within_caps_def)
next
  fix k
  assume k: "approval_of now e i mode q k" and ev: "Evaluate now e i mode q = approve_scaled k i e"
  let ?a = "strat_cap e (ti_Strategy i) - strat_held e (ti_Strategy i)"
  have wf: "\<forall>v. length (filter (\<lambda>l. tl_Venue l = v) (ti_Legs i)) \<le> n" "\<forall>l\<in>set (ti_Legs i). 0 \<le> tl_NotionalUSD l"
    using assms(2) by (simp_all add: intent_wf_def)
  have a: "0 < ?a" "venue_gate e (ti_Legs i) = None" using k by (simp_all add: approval_of_def)
  have fits: "totalNotional i * k \<le> ?a" "k \<le> 1"
    using cap_scale_fits [OF a(1) totalNotional_nonneg [OF wf(2)]] approval_le_cap_scale [OF k assms(3)] by blast+
  have "0 \<le> totalNotional i * k"
    using totalNotional_nonneg [OF wf(2)] approval_le_cap_scale(1) [OF k assms(3)] by simp
  moreover have "strat_cap e (ti_Strategy i) \<le> base_cap (ale_policy e) (ti_Strategy i)" by (rule strat_cap_le)
  ultimately show ?thesis
    using assms(1) fits(1) approve_scaled_venue_cap [OF wf(1) [rule_format] assms(4) wf(2) a(2) approval_le_cap_scale(1) [OF k assms(3)] fits(2)]
    unfolding ev within_caps_def by fastforce
qed

lemma main_fill_within_caps:
  assumes "within_caps n e" "\<forall>l\<in>set (sf_Legs f). 0 \<le> fl_FilledNotionalUSD l"
  shows "within_caps n (main_fill e (f, now)) \<and> ale_policy (main_fill e (f, now)) = ale_policy e"
proof -
  let ?r = "\<lambda>e leg. ReleaseNotional (sf_Strategy f) (fl_Venue leg) (fl_FilledNotionalUSD leg) e"
  have run: "within_caps n (foldl ?r e ls) \<and> ale_policy (foldl ?r e ls) = ale_policy e"
    if "\<forall>l\<in>set ls. 0 \<le> fl_FilledNotionalUSD l" for ls
    using that assms(1)
    by (induction ls arbitrary: e) (auto simp: within_caps_release)
  have p: "ale_policy (RecordPnL x y (e\<lparr>ale_DynAlloc := d\<rparr>)) = ale_policy e" for x y d e
    by (simp add: RecordPnL_def Let_def)
  have "within_caps n (RecordPnL x y (e\<lparr>ale_DynAlloc := d\<rparr>)) \<longleftrightarrow> within_caps n e" for x y d e
    by (rule within_caps_cong [OF p]) (simp_all add: RecordPnL_def Let_def strat_held_def venue_held_def)
  with p show ?thesis using run [OF assms(2)] assms(1) by (simp add: main_fill_def Let_def)
qed

lemma main_intent_state: "fst (main_intent mode (e, out) (i, q, now)) = fst (Evaluate now e i mode q)"
  by (simp add: main_intent_def case_prod_unfold Let_def)

lemma main_intent_published:
  "snd (main_intent mode (e, out) (i, q, now)) =
     (if oc_Approved (snd (Evaluate now e i mode q)) then out @ [oc_Intent (snd (Evaluate now e i mode q))] else out)"
  by (simp add: main_intent_def case_prod_unfold Let_def)

lemma main_fills_within_caps:
  assumes "within_caps n e" "\<forall>(f, _)\<in>set fills. \<forall>l\<in>set (sf_Legs f). 0 \<le> fl_FilledNotionalUSD l"
  shows "within_caps n (foldl main_fill e fills) \<and> ale_policy (foldl main_fill e fills) = ale_policy e"
  using assms
proof (induction fills arbitrary: e)
  case Nil
  then show ?case by simp
next
  case (Cons x fills)
  then have "within_caps n (main_fill e x) \<and> ale_policy (main_fill e x) = ale_policy e"
    using main_fill_within_caps [of n e "fst x" "snd x"] by (auto simp: case_prod_unfold)
  with Cons show ?case by simp
qed

lemma main_intents_within_caps:
  assumes "within_caps n e" "\<forall>(i, _)\<in>set intents. intent_wf n i" "no_upsizing (ale_policy e)" "1 \<le> n"
  shows "within_caps n (fst (foldl (main_intent mode) (e, out) intents)) \<and>
    ale_policy (fst (foldl (main_intent mode) (e, out) intents)) = ale_policy e"
  using assms
proof (induction intents arbitrary: e out)
  case Nil
  then show ?case by simp
next
  case (Cons x intents)
  obtain i q now where x: "x = (i, q, now)" by (cases x)
  obtain e' out' where e': "main_intent mode (e, out) x = (e', out')" by (cases "main_intent mode (e, out) x")
  then have "e' = fst (Evaluate now e i mode q)" using main_intent_state x by (metis fst_conv)
  then have "within_caps n e'" "ale_policy e' = ale_policy e"
    using within_caps_Evaluate [OF Cons.prems(1) _ Cons.prems(3,4)] Cons.prems(2) by (simp_all add: x)
  with Cons e' show ?case by simp
qed

lemma main_alloc_within_caps:
  assumes "within_caps n e \<and> 1 \<le> n \<and> no_upsizing p \<and> ale_policy e = p" "alloc_event_wf n ev"
  shows "within_caps n (fst (main_alloc um e ev)) \<and> 1 \<le> n \<and> no_upsizing p \<and> ale_policy (fst (main_alloc um e ev)) = p"
proof (cases ev)
  case (OIRaw raw)
  then show ?thesis using assms by (auto simp: within_caps_def strat_held_def venue_held_def)
next
  case DecayTick
  then show ?thesis using assms by (auto simp: within_caps_def strat_held_def venue_held_def)
next
  case (Round kill fills mode intents)
  then show ?thesis
    using assms main_fills_within_caps [of n e fills] main_intents_within_caps [of n "foldl main_fill e fills" intents]
    by simp
qed

interpretation alloc: invariant_machine "\<lambda>e ev. fst (main_alloc um e ev)" "alloc_event_wf n"
  "\<lambda>e. within_caps n e \<and> 1 \<le> n \<and> no_upsizing p \<and> ale_policy e = p" for um p n
  by unfold_locales (rule main_alloc_within_caps)

lemma main_setup_policy [simp]: "ale_policy (main_setup p) = p"
  by (simp add: main_setup_def NewAllocEngine_def)

section \<open>What is published\<close>

definition alloc_run ::
  "(string \<Rightarrow> OISnapshot option) \<Rightarrow> AllocEngine \<Rightarrow> alloc_event list \<Rightarrow> AllocEngine \<times> TradeIntent list" where
  "alloc_run um e evs =
     foldl (\<lambda>(e, out) ev. let (e', published) = main_alloc um e ev in (e', out @ published)) (e, []) evs"

lemma alloc_run_snoc:
  "alloc_run um e (evs @ [ev]) =
     (fst (main_alloc um (fst (alloc_run um e evs)) ev),
      snd (alloc_run um e evs) @ snd (main_alloc um (fst (alloc_run um e evs)) ev))"
  by (simp add: alloc_run_def case_prod_unfold Let_def)

lemma not_running_publishes_nothing:
  assumes "mode \<noteq> ''RUNNING''" "mode \<noteq> ''''"
  shows "snd (main_alloc um e (Round kill fills mode intents)) = []"
proof -
  have "Evaluate now e i mode q = reject_intent i (Sprintf ''system_mode:%s'' [AStr mode]) e" for now e i q
    using assms by (simp add: Evaluate_def Let_def)
  then have "snd (main_intent mode (e, out) x) = out" for e out x
    by (cases x) (simp add: main_intent_published)
  then have "snd (foldl (main_intent mode) (e, out) intents) = out" for e out
    by (induction intents arbitrary: e out) (simp_all, metis prod.collapse)
  then show ?thesis by simp
qed

text \<open>A strategy whose cap is used up gets nothing approved.\<close>

lemma exhausted_rejects:
  assumes "base_cap (ale_policy e) s \<le> strat_held e s" "ti_Strategy i = s"
  shows "\<not> oc_Approved (snd (Evaluate now e i mode q)) \<and> strat_held (fst (Evaluate now e i mode q)) = strat_held e"
  using Evaluate_cases [of now e i mode q]
proof (elim disjE exE conjE)
  fix k
  assume "approval_of now e i mode q k"
  then have "strat_held e s < strat_cap e s" using assms(2) by (simp add: approval_of_def)
  with strat_cap_le [of e s] assms(1) show ?thesis by simp
qed simp

lemma Evaluate_other_strategy:
  "ti_Strategy i \<noteq> s \<Longrightarrow> strat_held (fst (Evaluate now e i mode q)) s = strat_held e s"
  using Evaluate_cases [of now e i mode q] by auto

lemma approved_strategy:
  "oc_Approved (snd (Evaluate now e i mode q)) \<Longrightarrow> ti_Strategy (oc_Intent (snd (Evaluate now e i mode q))) = ti_Strategy i"
  using Evaluate_cases [of now e i mode q] by auto

lemma exhausted_intents:
  assumes "base_cap (ale_policy e) s \<le> strat_held e s" "\<forall>i\<in>set out. ti_Strategy i \<noteq> s"
  shows "ale_policy (fst (foldl (main_intent mode) (e, out) intents)) = ale_policy e \<and>
    strat_held (fst (foldl (main_intent mode) (e, out) intents)) s = strat_held e s \<and>
    (\<forall>i\<in>set (snd (foldl (main_intent mode) (e, out) intents)). ti_Strategy i \<noteq> s)"
  using assms
proof (induction intents arbitrary: e out)
  case Nil
  then show ?case by simp
next
  case (Cons x intents)
  obtain i q now where x: "x = (i, q, now)" by (cases x)
  obtain e' out' where e': "main_intent mode (e, out) x = (e', out')" by (cases "main_intent mode (e, out) x")
  have s: "e' = fst (Evaluate now e i mode q)" using main_intent_state x e' by (metis fst_conv)
  have o: "out' = (if oc_Approved (snd (Evaluate now e i mode q))
      then out @ [oc_Intent (snd (Evaluate now e i mode q))] else out)"
    using main_intent_published x e' by (metis snd_conv)
  have held: "strat_held e' s = strat_held e s"
    using exhausted_rejects [OF Cons.prems(1), of i now mode q] Evaluate_other_strategy [of i s now e mode q]
    by (cases "ti_Strategy i = s") (simp_all add: s)
  moreover have "\<forall>i\<in>set out'. ti_Strategy i \<noteq> s"
    using exhausted_rejects [OF Cons.prems(1), of i now mode q] approved_strategy [of now e i mode q] Cons.prems(2)
    by (auto simp: o)
  moreover have "ale_policy e' = ale_policy e" by (simp add: s)
  ultimately show ?case using Cons.IH [of e' out'] Cons.prems(1) e' by simp
qed

lemma expired_fills: "\<forall>(f, _)\<in>set fills. sf_IntentExpired f \<Longrightarrow> foldl main_fill e fills = e"
  by (induction fills) (auto simp: main_fill_def)

fun only_expired_fills :: "alloc_event \<Rightarrow> bool" where
  "only_expired_fills (Round kill fills mode intents) \<longleftrightarrow> (\<forall>(f, _)\<in>set fills. sf_IntentExpired f)"
| "only_expired_fills _ \<longleftrightarrow> True"

lemma exhausted_event:
  assumes "base_cap (ale_policy e) s \<le> strat_held e s" "only_expired_fills ev"
  shows "ale_policy (fst (main_alloc um e ev)) = ale_policy e \<and>
    strat_held (fst (main_alloc um e ev)) s = strat_held e s \<and>
    (\<forall>i\<in>set (snd (main_alloc um e ev)). ti_Strategy i \<noteq> s)"
proof (cases ev)
  case (Round kill fills mode intents)
  then show ?thesis
    using exhausted_intents [OF assms(1), of "[]" mode intents] assms(2) by (simp add: expired_fills)
qed (simp_all add: strat_held_def)

lemma exhausted_run:
  assumes "base_cap (ale_policy e) s \<le> strat_held e s" "\<forall>ev\<in>set evs. only_expired_fills ev"
  shows "ale_policy (fst (alloc_run um e evs)) = ale_policy e \<and>
    strat_held (fst (alloc_run um e evs)) s = strat_held e s \<and>
    (\<forall>i\<in>set (snd (alloc_run um e evs)). ti_Strategy i \<noteq> s)"
  using assms(2)
proof (induction evs rule: rev_induct)
  case Nil
  then show ?case by (simp add: alloc_run_def)
next
  case (snoc ev evs)
  then have IH: "ale_policy (fst (alloc_run um e evs)) = ale_policy e"
    "strat_held (fst (alloc_run um e evs)) s = strat_held e s"
    "\<forall>i\<in>set (snd (alloc_run um e evs)). ti_Strategy i \<noteq> s" by simp_all
  then show ?case
    using exhausted_event [of "fst (alloc_run um e evs)" s ev um] assms(1) snoc.prems
    by (auto simp: alloc_run_snoc)
qed

section \<open>Properties\<close>

text \<open>
  C11.  Caps: where open-interest sizing is off, or a Kelly fraction of at most two thirds is
  set, then over every run of the service whose intents have legs of nonnegative notional and at most
  n of them on one venue, and whose fills are nonnegative, the notional deployed in each strategy stays
  between 0 and its configured cap, and that on each venue between 0 and n times its cap (0 for one
  that is not configured).  For the intents between two venues n is 1; the carry and basis
  intents put both legs on one venue, so n is 2, and carry_intents_exceed_the_venue_cap shows that
  twice the cap is reached.
\<close>

theorem deployed_notional_stays_within_caps:
  assumes "no_upsizing p" "1 \<le> n" "\<forall>ev\<in>set evs. alloc_event_wf n ev"
  shows "strat_held (foldl (\<lambda>e ev. fst (main_alloc um e ev)) (main_setup p) evs) s \<in> {0..max 0 (base_cap p s)} \<and>
    venue_held (foldl (\<lambda>e ev. fst (main_alloc um e ev)) (main_setup p) evs) v
      \<in> {0..max 0 (real n * map_get 0 (alp_PerVenueMaxUSD p) v)}"
  using alloc.run_inv [of n "main_setup p" p evs um] within_caps_new [of n p] assms
  by (auto simp: within_caps_def)

text \<open>
  C24.  An approval went through every gate: the system is RUNNING, the consensus has the
  strategy's minimum quality, the venues are configured and can take their legs; the approved
  intent is the given one with every leg scaled by one factor; the ledger of its strategy grows by
  the notional approved and that of each venue by the notional of the approved legs there.  Where nothing after the caps can enlarge the intent, the factor is between
  0.05 and 1 and the capital in use stays within the equity.
\<close>

theorem approved_intent_passed_every_gate_and_fits:
  assumes "Evaluate now e i mode q = (e', oc)" "oc_Approved oc" "\<forall>l\<in>set (ti_Legs i). 0 \<le> tl_NotionalUSD l"
  shows "(mode = ''RUNNING'' \<or> mode = '''') \<and>
    alloc_qualityRank (minQualityForStrategy (ale_policy e) (ti_Strategy i)) \<le> alloc_qualityRank q \<and>
    venue_gate e (ti_Legs i) = None \<and>
    (\<exists>k\<ge>0.05. oc_Intent oc = scale_intent k i \<and>
       (\<forall>s. strat_held e' s = strat_held e s + (if s = ti_Strategy i then totalNotional (oc_Intent oc) else 0)) \<and>
       (\<forall>v. venue_held e' v = venue_held e v +
          (\<Sum>l\<leftarrow>filter (\<lambda>l. tl_Venue l = v) (ti_Legs (oc_Intent oc)). tl_NotionalUSD l)) \<and>
       totalDeployed e' = totalDeployed e + totalNotional (oc_Intent oc) \<and>
       (no_upsizing (ale_policy e) \<longrightarrow> k \<le> 1 \<and>
         strat_held e' (ti_Strategy i) \<le> base_cap (ale_policy e) (ti_Strategy i) \<and>
         (ale_initialCapital e > 0 \<longrightarrow> totalDeployed e' \<le> ale_initialCapital e' + ale_cumulativePnL e')))"
proof -
  obtain k where k: "approval_of now e i mode q k" "(e', oc) = approve_scaled k i e"
    using Evaluate_cases [of now e i mode q] assms(1,2) by (auto simp: reject_intent_def)
  let ?a = "strat_cap e (ti_Strategy i) - strat_held e (ti_Strategy i)"
  have r: "e' = fst (approve_scaled k i e)" "oc = snd (approve_scaled k i e)" using k(2) by (metis fst_conv snd_conv)+
  have n: "0 \<le> totalNotional i" using assms(3) by (rule totalNotional_nonneg)
  have a: "0 < ?a" "ale_initialCapital e > 0 \<Longrightarrow> 0 < avail_capital e" "0.05 \<le> k"
    using k(1) by (simp_all add: approval_of_def)
  have up: "k \<le> 1 \<and> strat_held e' (ti_Strategy i) \<le> base_cap (ale_policy e) (ti_Strategy i) \<and>
      (ale_initialCapital e > 0 \<longrightarrow> totalDeployed e' \<le> ale_initialCapital e' + ale_cumulativePnL e')"
    if u: "no_upsizing (ale_policy e)"
  proof (intro conjI impI)
    note le = approval_le_cap_scale(2) [OF k(1) u]
    show "k \<le> 1" by (rule cap_scale_fits(2) [OF a(1) n le])
    show "strat_held e' (ti_Strategy i) \<le> base_cap (ale_policy e) (ti_Strategy i)"
      using cap_scale_fits(1) [OF a(1) n le] strat_cap_le [of e "ti_Strategy i"] by (simp add: r)
    assume c: "ale_initialCapital e > 0"
    show "totalDeployed e' \<le> ale_initialCapital e' + ale_cumulativePnL e'"
      using cap_scale_capital [OF c a(2) [OF c] n le] by (simp add: r avail_capital_def)
  qed
  show ?thesis
    using k(1) a(3) up by (intro conjI exI [of _ k]) (auto simp: approval_of_def r approve_scaled_venue filter_map comp_def)
qed

definition oi_policy :: "float64 \<Rightarrow> AllocPolicy" where
  "oi_policy c =
     \<lparr>alp_PerStrategyMaxUSD = [(''CROSS_VENUE_ARB'', c)], alp_PerVenueMaxUSD = [''okx'' \<mapsto> c],
      alp_MarginUtilisationGatePct = 75, alp_MinQualityForArb = ''MED'', alp_MinQualityForFunding = ''MED'',
      alp_MinQualityForLiquidity = ''HIGH'', alp_MaxSingleIntentPct = 0, alp_KellyFraction = 0,
      alp_InitialCapitalUSD = c, alp_BaselineOI = 50000, alp_OIStream = ''market:open_interest'',
      alp_Redis = \<lparr>arp_Addr = '''', arp_Password = '''', arp_UseTLS = False, arp_InputStream = '''',
        arp_OutputStream = '''', arp_FillsStream = '''', arp_ConsumerGroup = '''', arp_ConsumerName = '''',
        arp_BlockMs = 0, arp_BatchSize = 0\<rparr>\<rparr>"

definition one_leg_intent :: "float64 \<Rightarrow> TradeIntent" where
  "one_leg_intent c =
     \<lparr>ti_SchemaVersion = 1, ti_TenantID = ''t'', ti_IntentID = ''i'', ti_Strategy = ''CROSS_VENUE_ARB'',
      ti_Symbol = ''BTC-PERP'', ti_TsMs = 0, ti_ExpiresMs = 0,
      ti_Legs = [\<lparr>tl_Venue = ''okx'', tl_Action = ''BUY'', tl_Type = ''MARKET'', tl_Market = ''PERP'',
        tl_NotionalUSD = c, tl_MaxSlippageBps = 0, tl_PriceLimit = 0\<rparr>],
      ti_Expected = \<lparr>em_EdgeBpsGross = 0, em_EdgeBpsNet = 0, em_ProfitUSDNet = 0, em_FeesUSDEst = 0,
        em_SlippageUSDEst = 0, em_FundingRate8hBps = 0, em_AnnualYieldPctNet = 0\<rparr>,
      ti_Constraints = \<lparr>ic_MinQuality = '''', ic_RequireVenueOK = False, ic_MaxAgeMs = 0,
        ic_HedgePreference = '''', ic_CooldownKey = '''', ic_ForcePaperMode = False\<rparr>,
      ti_Debug = \<lparr>id_ConsensusBandLow = 0, id_ConsensusBandHigh = 0, id_BuyOn = '''', id_SellOn = '''',
        id_BuyExec = 0, id_SellExec = 0\<rparr>\<rparr>"

definition deep_market :: "string \<Rightarrow> OISnapshot option" where
  "deep_market raw = Some \<lparr>oi_Venue = ''okx'', oi_Symbol = ''BTC-PERP'', oi_OiContracts = 100000, oi_TsMs = 1000\<rparr>"

lemma one_leg_evaluate:
  assumes "0 < c" "ale_policy e = oi_policy c\<lparr>alp_BaselineOI := b, alp_KellyFraction := f\<rparr>"
    and "ale_initialCapital e = c" "ale_cumulativePnL e = 0"
    and "strat_cap e ''CROSS_VENUE_ARB'' = c" "ale_strategyDeployed e = []" "ale_venueDeployed e = Map.empty"
    and "oi_multiplier now e (one_leg_intent c) = m" "1 / 10 \<le> m"
    and "1 / 20 \<le> m * kelly_factor (ale_policy e)"
  shows "Evaluate now e (one_leg_intent c) ''RUNNING'' ''HIGH'' =
    approve_scaled (m * kelly_factor (ale_policy e)) (one_leg_intent c) e"
proof -
  obtain l where i: "totalNotional (one_leg_intent c) = c" "ti_Strategy (one_leg_intent c) = ''CROSS_VENUE_ARB''"
    "ti_Legs (one_leg_intent c) = [l]" "tl_Venue l = ''okx''" "tl_NotionalUSD l = c"
    by (simp add: one_leg_intent_def totalNotional_def)
  have h: "strat_held e s = 0" "venue_held e v = 0" "totalDeployed e = 0" for s v
    using assms(6,7) by (simp_all add: strat_held_def venue_held_def totalDeployed_def)
  have p: "alp_PerVenueMaxUSD (ale_policy e) = [''okx'' \<mapsto> c]" "base_cap (ale_policy e) ''CROSS_VENUE_ARB'' = c"
    "alp_MaxSingleIntentPct (ale_policy e) = 0"
    "alp_MinQualityForArb (ale_policy e) = ''MED''"
    using assms(2) by (simp_all add: oi_policy_def base_cap_def)
  have "venue_gate e (ti_Legs (one_leg_intent c)) = None"
    unfolding venue_gate_None using assms(1) by (simp add: i p h)
  moreover have "cap_scale e c (one_leg_intent c) = 1"
    by (simp add: cap_scale_def i p h assms(3,4) avail_capital_def venue_scale_def)
  moreover have "avail_capital e = c" using assms(3,4) h(3) by (simp add: avail_capital_def)
  ultimately have a: "approval_of now e (one_leg_intent c) ''RUNNING'' ''HIGH'' (m * kelly_factor (ale_policy e))"
    using assms(1,3,5,8,9,10) unfolding approval_of_def i(2)
    by (simp add: p h minQualityForStrategy_def alloc_qualityRank_def)
  show ?thesis
    using assms(1,5,8,9) \<open>cap_scale e c (one_leg_intent c) = 1\<close>
    by (intro Evaluate_approves a) (simp_all add: i p h)
qed

lemma dyn_fresh_cap: "AdjustedCap (NewDynamicAllocator cs) s = map_get 0 (map_of cs) s"
  by (induction cs) (auto simp: AdjustedCap_def NewDynamicAllocator_def new_performance_def map_get_def
      split: option.splits if_splits)

definition oi_setup :: "float64 \<Rightarrow> float64 \<Rightarrow> float64 \<Rightarrow> OITracker \<Rightarrow> AllocEngine" where
  "oi_setup c b f t =
     (main_setup (oi_policy c\<lparr>alp_BaselineOI := b, alp_KellyFraction := f\<rparr>))\<lparr>ale_OITracker := Some t\<rparr>"

lemma oi_setup_evaluate:
  assumes "0 < c" "oi_multiplier now (oi_setup c b f t) (one_leg_intent c) = m" "1 / 10 \<le> m"
    and "1 / 20 \<le> m * kelly_factor (oi_policy c\<lparr>alp_BaselineOI := b, alp_KellyFraction := f\<rparr>)"
  shows "Evaluate now (oi_setup c b f t) (one_leg_intent c) ''RUNNING'' ''HIGH'' =
    approve_scaled (m * kelly_factor (oi_policy c\<lparr>alp_BaselineOI := b, alp_KellyFraction := f\<rparr>)) (one_leg_intent c)
      (oi_setup c b f t)"
proof -
  have "strat_cap (oi_setup c b f t) ''CROSS_VENUE_ARB'' = c"
    using assms(1)
    by (simp add: oi_setup_def strat_cap_def main_setup_def NewAllocEngine_def dyn_fresh_cap base_cap_def
        oi_policy_def Let_def)
  moreover have p: "ale_policy (oi_setup c b f t) = oi_policy c\<lparr>alp_BaselineOI := b, alp_KellyFraction := f\<rparr>"
    by (simp add: oi_setup_def)
  ultimately show ?thesis
    using one_leg_evaluate [OF assms(1) p _ _ _ _ _ assms(2,3)] assms(4)
    by (simp add: oi_setup_def main_setup_def NewAllocEngine_def oi_policy_def)
qed

lemma oi_setup_simps:
  "strat_held (oi_setup c b f t) s = 0" "venue_held (oi_setup c b f t) v = 0" "totalDeployed (oi_setup c b f t) = 0"
  "totalNotional (one_leg_intent c) = c" "ti_Strategy (one_leg_intent c) = ''CROSS_VENUE_ARB''"
  "ale_initialCapital (oi_setup c b f t) = c" "ale_cumulativePnL (oi_setup c b f t) = 0"
  "ale_policy (oi_setup c b f t) = oi_policy c\<lparr>alp_BaselineOI := b, alp_KellyFraction := f\<rparr>"
  by (simp_all add: oi_setup_def strat_held_def venue_held_def totalDeployed_def main_setup_def NewAllocEngine_def
      one_leg_intent_def totalNotional_def oi_policy_def)

lemma oi_setup_deep:
  "fst (main_alloc deep_market (main_setup (oi_policy c\<lparr>alp_BaselineOI := 50000, alp_KellyFraction := f\<rparr>)) (OIRaw raw)) =
     oi_setup c 50000 f (OIUpdate deep_market raw NewOITracker)"
  "oi_multiplier 2000 (oi_setup c 50000 f (OIUpdate deep_market raw NewOITracker)) (one_leg_intent c) = 1.5"
  by (simp_all add: oi_setup_def main_setup_def oi_multiplier_def OIUpdate_def deep_market_def NewOITracker_def one_leg_intent_def
      LiquidityMultiplier_def oi_key_def oi_policy_def NewAllocEngine_def)

lemma main_alloc_one_intent:
  "fst (main_alloc um e (Round False [] mode [(i, q, now)])) = fst (Evaluate now e i mode q)"
  by (simp add: main_intent_state)

text \<open>
  The open-interest multiplier is applied after the caps: where the Kelly fraction is off, a
  market with twice the baseline open interest lets one intent of exactly the cap through at one
  and a half times its size, past the cap of its strategy, the cap of its venue and the equity of
  the account, whatever the cap is.
\<close>

theorem oi_multiplier_overrides_every_cap:
  assumes "0 < c" "e = foldl (\<lambda>e ev. fst (main_alloc deep_market e ev)) (main_setup (oi_policy c))
    [OIRaw raw, Round False [] ''RUNNING'' [(one_leg_intent c, ''HIGH'', 2000)]]"
  shows "base_cap (oi_policy c) ''CROSS_VENUE_ARB'' = c \<and> strat_held e ''CROSS_VENUE_ARB'' = 1.5 * c \<and>
    map_get 0 (alp_PerVenueMaxUSD (oi_policy c)) ''okx'' = c \<and> venue_held e ''okx'' = 1.5 * c \<and>
    ale_initialCapital e + ale_cumulativePnL e = c \<and> totalDeployed e = 1.5 * c"
proof -
  let ?e = "oi_setup c 50000 0 (OIUpdate deep_market raw NewOITracker)"
  have p: "oi_policy c = oi_policy c\<lparr>alp_BaselineOI := 50000, alp_KellyFraction := 0\<rparr>" by (simp add: oi_policy_def)
  have k: "kelly_factor (oi_policy c\<lparr>alp_BaselineOI := 50000, alp_KellyFraction := 0\<rparr>) = 1" by (simp add: kelly_factor_def)
  have "e = fst (Evaluate 2000 ?e (one_leg_intent c) ''RUNNING'' ''HIGH'')"
    using assms(2) oi_setup_deep(1) [where c = c and f = 0 and raw = raw, folded p] p by (simp only: foldl.simps main_alloc_one_intent)
  also have "Evaluate 2000 ?e (one_leg_intent c) ''RUNNING'' ''HIGH'' = approve_scaled 1.5 (one_leg_intent c) ?e"
    using oi_setup_evaluate [OF assms(1) oi_setup_deep(2)] k by simp
  finally show ?thesis
    by (simp add: approve_scaled_venue oi_setup_simps) (simp add: oi_policy_def base_cap_def one_leg_intent_def)
qed

theorem oi_multiplier_overrides_every_cap_witness:
  "base_cap (oi_policy 100000) ''CROSS_VENUE_ARB'' = 100000 \<and>
   strat_held (foldl (\<lambda>e ev. fst (main_alloc deep_market e ev)) (main_setup (oi_policy 100000))
     [OIRaw [], Round False [] ''RUNNING'' [(one_leg_intent 100000, ''HIGH'', 2000)]]) ''CROSS_VENUE_ARB'' = 150000"
  using oi_multiplier_overrides_every_cap [of 100000, OF _ refl, of "[]"] by simp

text \<open>
  An approved intent that expires unfilled keeps its notional: the service skips expired
  fills, so once a strategy holds its whole cap, no run in which only expired fills arrive
  publishes another intent of that strategy.
\<close>

theorem expired_intents_keep_their_notional:
  assumes "base_cap (ale_policy e) s \<le> strat_held e s" "\<forall>ev\<in>set evs. only_expired_fills ev"
  shows "strat_held (fst (alloc_run um e evs)) s = strat_held e s \<and>
    s \<notin> ti_Strategy ` set (snd (alloc_run um e evs))"
  using exhausted_run [OF assms, of um] by auto

definition expired_fill :: SimulatedFill where
  "expired_fill =
     \<lparr>sf_SchemaVersion = 1, sf_IntentID = ''i'', sf_Strategy = ''CROSS_VENUE_ARB'', sf_Symbol = ''BTC-PERP'',
      sf_Legs = [], sf_TsSignalMs = 0, sf_TsFillSimulatedMs = 0, sf_LatencyMs = 0, sf_EdgeAtSignalBps = 0,
      sf_EdgeAtFillBps = 0, sf_EdgeCapturedBps = 0, sf_AdverseSelectionOccurred = False, sf_FillPriceBuy = 0,
      sf_FillPriceSell = 0, sf_FeesAssumedUSD = 0, sf_SlippageAssumedBps = 0, sf_NetPnLUSD = 0,
      sf_IntentExpired = True, sf_Mode = ''PAPER'', sf_TenantID = ''t''\<rparr>"

abbreviation plain_policy :: "float64 \<Rightarrow> AllocPolicy" where
  "plain_policy f \<equiv> oi_policy 100\<lparr>alp_BaselineOI := 0, alp_KellyFraction := f\<rparr>"

lemma plain_evaluate:
  "Evaluate now (oi_setup 100 0 0 t) (one_leg_intent 100) ''RUNNING'' ''HIGH'' =
     approve_scaled 1 (one_leg_intent 100) (oi_setup 100 0 0 t)"
  using oi_setup_evaluate [where c = 100 and b = 0 and f = 0 and now = now and t = t and m = 1] by (simp add: kelly_factor_def oi_multiplier_off oi_setup_simps)

lemma plain_setup: "main_setup (plain_policy f) = oi_setup 100 0 f NewOITracker"
  by (simp add: oi_setup_def main_setup_def)

theorem approved_intent_passed_every_gate_and_fits_witness:
  "\<exists>e' oc. Evaluate 5 (main_setup (plain_policy 0)) (one_leg_intent 100) ''RUNNING'' ''HIGH'' = (e', oc) \<and>
     oc_Approved oc \<and> strat_held e' ''CROSS_VENUE_ARB'' = 100 \<and> (\<exists>k\<ge>0.05. oc_Intent oc = scale_intent k (one_leg_intent 100))"
proof -
  obtain e' oc where r: "Evaluate 5 (main_setup (plain_policy 0)) (one_leg_intent 100) ''RUNNING'' ''HIGH'' = (e', oc)"
    by (cases "Evaluate 5 (main_setup (plain_policy 0)) (one_leg_intent 100) ''RUNNING'' ''HIGH''")
  have a: "approve_scaled 1 (one_leg_intent 100) (oi_setup 100 0 0 NewOITracker) = (e', oc)"
    using r unfolding plain_setup plain_evaluate .
  have oc: "oc_Approved oc" and held: "strat_held e' ''CROSS_VENUE_ARB'' = 100"
    using approve_scaled_simps(1) [of 1 "one_leg_intent 100" "oi_setup 100 0 0 NewOITracker"]
      approve_scaled_simps(6) [of 1 "one_leg_intent 100" "oi_setup 100 0 0 NewOITracker" "''CROSS_VENUE_ARB''"]
    unfolding a fst_conv snd_conv oi_setup_simps by simp_all
  have "\<forall>l\<in>set (ti_Legs (one_leg_intent 100)). 0 \<le> tl_NotionalUSD l" by (simp add: one_leg_intent_def)
  from approved_intent_passed_every_gate_and_fits [OF r oc this]
  have "\<exists>k\<ge>0.05. oc_Intent oc = scale_intent k (one_leg_intent 100)" by blast
  with r oc held show ?thesis by blast
qed

theorem expired_intents_keep_their_notional_witness:
  "strat_held (fst (alloc_run deep_market
      (fst (main_alloc deep_market (main_setup (plain_policy 0)) (Round False [] ''RUNNING'' [(one_leg_intent 100, ''HIGH'', 5)])))
      [Round False [(expired_fill, 6)] ''RUNNING'' [(one_leg_intent 1, ''HIGH'', 7)]])) ''CROSS_VENUE_ARB'' = 100 \<and>
   ''CROSS_VENUE_ARB'' \<notin> ti_Strategy ` set (snd (alloc_run deep_market
      (fst (main_alloc deep_market (main_setup (plain_policy 0)) (Round False [] ''RUNNING'' [(one_leg_intent 100, ''HIGH'', 5)])))
      [Round False [(expired_fill, 6)] ''RUNNING'' [(one_leg_intent 1, ''HIGH'', 7)]]))"
proof -
  let ?e = "fst (main_alloc deep_market (main_setup (plain_policy 0)) (Round False [] ''RUNNING'' [(one_leg_intent 100, ''HIGH'', 5)]))"
  have e: "?e = fst (approve_scaled 1 (one_leg_intent 100) (oi_setup 100 0 0 NewOITracker))"
    unfolding main_alloc_one_intent plain_setup plain_evaluate ..
  have "strat_held ?e ''CROSS_VENUE_ARB'' = 100" unfolding e approve_scaled_simps by (simp add: oi_setup_simps)
  moreover have "base_cap (ale_policy ?e) ''CROSS_VENUE_ARB'' = 100"
    unfolding e approve_scaled_simps oi_setup_simps by (simp add: base_cap_def oi_policy_def)
  ultimately show ?thesis
    using expired_intents_keep_their_notional [of ?e "''CROSS_VENUE_ARB''"
        "[Round False [(expired_fill, 6)] ''RUNNING'' [(one_leg_intent 1, ''HIGH'', 7)]]" deep_market]
    by (simp add: expired_fill_def)
qed

theorem deployed_notional_stays_within_caps_witness:
  "strat_held (foldl (\<lambda>e ev. fst (main_alloc deep_market e ev))
      (main_setup (oi_policy 100000\<lparr>alp_BaselineOI := 50000, alp_KellyFraction := 1 / 4\<rparr>))
      [OIRaw [], Round False [] ''RUNNING'' [(one_leg_intent 100000, ''HIGH'', 2000)]]) ''CROSS_VENUE_ARB''
     \<in> {0..max 0 (base_cap (oi_policy 100000\<lparr>alp_BaselineOI := 50000, alp_KellyFraction := 1 / 4\<rparr>) ''CROSS_VENUE_ARB'')} \<and>
   strat_held (foldl (\<lambda>e ev. fst (main_alloc deep_market e ev))
      (main_setup (oi_policy 100000\<lparr>alp_BaselineOI := 50000, alp_KellyFraction := 1 / 4\<rparr>))
      [OIRaw [], Round False [] ''RUNNING'' [(one_leg_intent 100000, ''HIGH'', 2000)]]) ''CROSS_VENUE_ARB'' = 37500"
proof
  let ?p = "oi_policy 100000\<lparr>alp_BaselineOI := 50000, alp_KellyFraction := 1 / 4\<rparr>"
  let ?evs = "[OIRaw [], Round False [] ''RUNNING'' [(one_leg_intent 100000, ''HIGH'', 2000)]]"
  show "strat_held (foldl (\<lambda>e ev. fst (main_alloc deep_market e ev)) (main_setup ?p) ?evs) ''CROSS_VENUE_ARB''
     \<in> {0..max 0 (base_cap ?p ''CROSS_VENUE_ARB'')}"
    using deployed_notional_stays_within_caps [of ?p 1 ?evs deep_market]
    by (simp add: no_upsizing_def intent_wf_def one_leg_intent_def)
  have k: "kelly_factor ?p = 1 / 4" by (simp add: kelly_factor_def)
  have "Evaluate 2000 (oi_setup 100000 50000 (1 / 4) (OIUpdate deep_market [] NewOITracker)) (one_leg_intent 100000)
      ''RUNNING'' ''HIGH'' =
    approve_scaled (3 / 8) (one_leg_intent 100000) (oi_setup 100000 50000 (1 / 4) (OIUpdate deep_market [] NewOITracker))"
    using oi_setup_evaluate [OF _ oi_setup_deep(2) [where c = 100000 and f = "1 / 4" and raw = "[]"]] k by simp
  then show "strat_held (foldl (\<lambda>e ev. fst (main_alloc deep_market e ev)) (main_setup ?p) ?evs) ''CROSS_VENUE_ARB'' = 37500"
    unfolding foldl.simps main_alloc_one_intent oi_setup_deep(1)
    by (simp only: approve_scaled_simps) (simp add: oi_setup_simps)
qed

end
