(* ===== verification/Ring_Buffers.thy ===== *)
theory Ring_Buffers
  imports Prelude
begin

text \<open>
  The two kinds of ring buffer of the code, as interfaces: one wraps its write index and remembers
  that it did, the other counts its writes and takes the count modulo the capacity.  Both refine
  the list of what was written, cut down to the capacity.
\<close>

section \<open>A write index that wraps\<close>

text \<open>Oldest first.\<close>

definition ring_contents :: "'a list \<Rightarrow> nat \<Rightarrow> bool \<Rightarrow> 'a list" where
  "ring_contents xs i full = (if full then drop i xs @ take i xs else take i xs)"

definition ring_wf :: "'a list \<Rightarrow> nat \<Rightarrow> nat \<Rightarrow> bool" where
  "ring_wf xs i c \<longleftrightarrow> length xs = c \<and> i < c"

lemma ring_wf_empty: "0 < c \<Longrightarrow> ring_wf (replicate c x) 0 c"
  by (simp add: ring_wf_def)

lemma ring_contents_empty [simp]: "ring_contents xs 0 False = []"
  by (simp add: ring_contents_def)

lemma length_ring_contents: "ring_wf xs i c \<Longrightarrow> length (ring_contents xs i full) = (if full then c else i)"
  by (auto simp: ring_contents_def ring_wf_def)

lemma keep_last_append: "keep_last n (keep_last n xs @ [x]) = keep_last n (xs @ [x])"
  by (cases "n < length xs"; cases "n = length xs") (simp_all add: keep_last_def Suc_diff_le)

lemma ring_contents_push:
  assumes "ring_wf xs i c"
  shows "ring_contents (xs[i := x]) (if c \<le> i + 1 then 0 else i + 1) (full \<or> c \<le> i + 1) =
     keep_last c (ring_contents xs i full @ [x])"
proof -
  have w: "length xs = c" "i < length xs" using assms by (simp_all add: ring_wf_def)
  have take: "take (Suc i) (xs[i := x]) = take i xs @ [x]"
    using w(2) by (simp add: take_Suc_conv_app_nth)
  have drop: "drop i xs = xs ! i # drop (Suc i) xs" using w(2) by (simp add: Cons_nth_drop_Suc)
  show ?thesis
  proof (cases "Suc i < c")
    case True
    then show ?thesis using w take drop by (simp add: ring_contents_def keep_last_def)
  next
    case False
    then have i: "Suc i = length xs" using w by simp
    then have "drop (Suc i) xs = []" by simp
    moreover have "xs[i := x] = take i xs @ [x]" using take i w(2) by simp
    ultimately show ?thesis using w i drop by (simp add: ring_contents_def keep_last_def)
  qed
qed

locale ring_buffer =
  fixes obs :: "'w \<Rightarrow> 'a list" and idx :: "'w \<Rightarrow> nat" and full :: "'w \<Rightarrow> bool" and cap :: "'w \<Rightarrow> nat"
    and push :: "'a \<Rightarrow> 'w \<Rightarrow> 'w"
  assumes obs_push: "obs (push x w) = (obs w)[idx w := x]"
    and idx_push: "idx (push x w) = (if cap w \<le> idx w + 1 then 0 else idx w + 1)"
    and full_push: "full (push x w) \<longleftrightarrow> full w \<or> cap w \<le> idx w + 1"
    and cap_push: "cap (push x w) = cap w"
begin

lemma push_wf: "ring_wf (obs w) (idx w) (cap w) \<Longrightarrow> ring_wf (obs (push x w)) (idx (push x w)) (cap (push x w))"
  by (auto simp: ring_wf_def obs_push idx_push cap_push)

lemma push_contents:
  "ring_wf (obs w) (idx w) (cap w) \<Longrightarrow>
     ring_contents (obs (push x w)) (idx (push x w)) (full (push x w)) =
       keep_last (cap w) (ring_contents (obs w) (idx w) (full w) @ [x])"
  unfolding obs_push idx_push full_push by (rule ring_contents_push)

lemma run_contents:
  assumes "ring_wf (obs w) (idx w) (cap w)" "ring_contents (obs w) (idx w) (full w) = keep_last (cap w) ys"
  shows "ring_wf (obs (foldl (\<lambda>w x. push x w) w xs)) (idx (foldl (\<lambda>w x. push x w) w xs)) (cap w) \<and>
    cap (foldl (\<lambda>w x. push x w) w xs) = cap w \<and>
    ring_contents (obs (foldl (\<lambda>w x. push x w) w xs)) (idx (foldl (\<lambda>w x. push x w) w xs)) (full (foldl (\<lambda>w x. push x w) w xs))
      = keep_last (cap w) (ys @ xs)"
  using assms
proof (induction xs arbitrary: w ys)
  case Nil
  then show ?case by simp
next
  case (Cons x xs)
  have "ring_contents (obs (push x w)) (idx (push x w)) (full (push x w)) = keep_last (cap w) (ys @ [x])"
    using Cons.prems by (simp add: push_contents keep_last_append)
  with Cons.IH [of "push x w" "ys @ [x]"] push_wf [OF Cons.prems(1)] show ?case by (simp add: cap_push)
qed

end

section \<open>A count of writes\<close>

text \<open>The buffer holds the last entries of the history: the i-th newest is found i before the newest.\<close>

definition holds :: "'a list \<Rightarrow> nat \<Rightarrow> nat \<Rightarrow> 'a list \<Rightarrow> bool" where
  "holds buf n c h \<longleftrightarrow> length buf = c \<and> n = length h \<and>
     (\<forall>i<min c n. buf ! ((n - 1 - i) mod c) = rev h ! i)"

lemma holds_empty: "length buf = c \<Longrightarrow> holds buf 0 c []"
  by (simp add: holds_def)

lemma holdsD: "holds buf n c h \<Longrightarrow> i < c \<Longrightarrow> i < n \<Longrightarrow> buf ! ((n - 1 - i) mod c) = rev h ! i"
  unfolding holds_def by (metis min_less_iff_conj)

lemma mod_apart:
  fixes n i c :: nat
  assumes "0 < i" "i < c" "i \<le> n"
  shows "(n - i) mod c \<noteq> n mod c"
proof
  assume "(n - i) mod c = n mod c"
  then have "c dvd n - (n - i)" using assms(3) by (metis diff_le_self mod_eq_dvd_iff_nat)
  then have "c dvd i" using assms(3) by simp
  then show False using assms(1,2) by (meson nat_dvd_not_less)
qed

lemma holds_push:
  assumes "holds buf n c h" "0 < c"
  shows "holds (buf[n mod c := x]) (n + 1) c (h @ [x])"
proof -
  have l: "length buf = c" "n = length h" and b: "\<And>i. i < c \<Longrightarrow> i < n \<Longrightarrow> buf ! ((n - 1 - i) mod c) = rev h ! i"
    using assms(1) by (auto simp: holds_def)
  have "buf[n mod c := x] ! ((n - i) mod c) = rev (h @ [x]) ! i" if "i < c" "i < n + 1" for i
  proof (cases i)
    case 0
    then show ?thesis using l assms(2) by simp
  next
    case (Suc j)
    then have "(n - i) mod c \<noteq> n mod c" using that by (intro mod_apart) auto
    then show ?thesis using Suc that b [of j] by (simp add: nth_list_update_neq)
  qed
  then show ?thesis using l by (simp add: holds_def)
qed

locale counted_ring =
  fixes buf :: "'w \<Rightarrow> 'a list" and writes :: "'w \<Rightarrow> nat" and cap :: "'w \<Rightarrow> nat" and push :: "'a \<Rightarrow> 'w \<Rightarrow> 'w"
  assumes buf_push: "buf (push x w) = (buf w)[writes w mod cap w := x]"
    and writes_push: "writes (push x w) = writes w + 1"
    and cap_push: "cap (push x w) = cap w"
begin

lemma push_holds:
  "holds (buf w) (writes w) (cap w) h \<Longrightarrow> 0 < cap w \<Longrightarrow>
     holds (buf (push x w)) (writes (push x w)) (cap (push x w)) (h @ [x])"
  unfolding buf_push writes_push cap_push by (rule holds_push)

lemma run_holds:
  "holds (buf w) (writes w) (cap w) h \<Longrightarrow> 0 < cap w \<Longrightarrow>
     holds (buf (foldl (\<lambda>w x. push x w) w xs)) (writes (foldl (\<lambda>w x. push x w) w xs)) (cap w) (h @ xs)"
proof (induction xs arbitrary: w h)
  case Nil
  then show ?case by simp
next
  case (Cons x xs)
  then show ?case using Cons.IH [of "push x w" "h @ [x]"] push_holds [of w h x] by (simp add: cap_push)
qed

end

end
