(* ===== verification/Funding_Signals.thy ===== *)
theory Funding_Signals
  imports Interfaces Ring_Buffers
begin

text \<open>
  internal/funding: config.go (policy and per-symbol overrides), scheduler.go (the eight-hour
  funding periods), regime.go (exponentially weighted funding rates and their label) and
  voltracker.go (realized volatility over a ring buffer of prices).  Times of the scheduler are
  nanoseconds since the epoch in UTC, whose days start at multiples of a day.
\<close>

section \<open>Policy\<close>

type_synonym FundingStage = string

definition StageObserve :: FundingStage where "StageObserve = ''OBSERVE''"
definition StagePaper :: FundingStage where "StagePaper = ''PAPER''"
definition StageConservative :: FundingStage where "StageConservative = ''CONSERVATIVE''"
definition StageFull :: FundingStage where "StageFull = ''FULL''"

lemmas stage_defs = StageObserve_def StagePaper_def StageConservative_def StageFull_def

record FundingSymbolOverride =
  fso_MaxNotionalUSD :: "float64 option"
  fso_MaxSlippageBps :: "float64 option"
  fso_Stage :: FundingStage
  fso_SizeScaleFactor :: "float64 option"
  fso_MinAnnualYieldPct :: "(string \<rightharpoonup> float64) option"

record VolatilityGate =
  vg_VolThresholdPct :: float64
  vg_SizeReductionFactor :: float64

record FundRedisPolicy =
  frp_Addr :: string
  frp_Password :: string
  frp_UseTLS :: bool
  frp_InputStream :: string
  frp_EventsStream :: string
  frp_OutputIntents :: string
  frp_ConsumerGroup :: string
  frp_ConsumerName :: string
  frp_BlockMs :: int64
  frp_BatchSize :: int64

record FundPolicy =
  fp_Symbols :: "string list"
  fp_MinAnnualYieldPct :: "string \<rightharpoonup> float64"
  fp_MaxNotionalUSD :: float64
  fp_MinDifferentialBps8h :: float64
  fp_HedgeDriftUnwindUSD :: float64
  fp_VolatilityGate :: VolatilityGate
  fp_Venues :: "string list"
  fp_EvalIntervalS :: int
  fp_IntentTTLMs :: int64
  fp_MaxSlippageBps :: float64
  fp_CooldownS :: int64
  fp_SymbolOverrides :: "string \<rightharpoonup> FundingSymbolOverride"
  fp_Redis :: FundRedisPolicy

definition fund_stage :: "FundPolicy \<Rightarrow> string \<Rightarrow> FundingStage" where
  "fund_stage p symbol =
     (case fp_SymbolOverrides p symbol of
        Some ovr \<Rightarrow> if fso_Stage ovr \<noteq> '''' then fso_Stage ovr else StageFull
      | None \<Rightarrow> StageFull)"

definition sizeScale :: "FundPolicy \<Rightarrow> string \<Rightarrow> float64" where
  "sizeScale p symbol =
     (case fp_SymbolOverrides p symbol of
        Some ovr \<Rightarrow> (case fso_SizeScaleFactor ovr of Some f \<Rightarrow> f | None \<Rightarrow> 0.5)
      | None \<Rightarrow> 0.5)"

definition minYieldForSymbol :: "FundPolicy \<Rightarrow> string \<Rightarrow> string \<Rightarrow> float64 option" where
  "minYieldForSymbol p symbol quality =
     (let fallback = fp_MinAnnualYieldPct p quality in
      case fp_SymbolOverrides p symbol of
        None \<Rightarrow> fallback
      | Some ovr \<Rightarrow>
          (case fso_MinAnnualYieldPct ovr of
             None \<Rightarrow> fallback
           | Some m \<Rightarrow> (case m quality of Some v \<Rightarrow> Some v | None \<Rightarrow> fallback)))"

definition maxNotional :: "FundPolicy \<Rightarrow> string \<Rightarrow> float64" where
  "maxNotional p symbol =
     (case fp_SymbolOverrides p symbol of
        Some ovr \<Rightarrow> (case fso_MaxNotionalUSD ovr of Some x \<Rightarrow> x | None \<Rightarrow> fp_MaxNotionalUSD p)
      | None \<Rightarrow> fp_MaxNotionalUSD p)"

definition fund_maxSlippage :: "FundPolicy \<Rightarrow> string \<Rightarrow> float64" where
  "fund_maxSlippage p symbol =
     (case fp_SymbolOverrides p symbol of
        Some ovr \<Rightarrow> (case fso_MaxSlippageBps ovr of Some x \<Rightarrow> x | None \<Rightarrow> fp_MaxSlippageBps p)
      | None \<Rightarrow> fp_MaxSlippageBps p)"

text \<open>The environment overrides and defaults that \<open>LoadPolicy\<close> applies to the decoded file.\<close>

definition FundLoadPolicy ::
  "(string \<Rightarrow> FundPolicy option) \<Rightarrow> (string \<Rightarrow> string) \<Rightarrow> string option \<Rightarrow> gotext + FundPolicy" where
  "FundLoadPolicy unmarshal getenv file =
     (case file of
        None \<Rightarrow> Inl (Txt ''reading'')
      | Some bytes \<Rightarrow>
          (case unmarshal bytes of
             None \<Rightarrow> Inl (Txt ''parsing policy'')
           | Some p \<Rightarrow>
               (let r = fp_Redis p;
                    r = (if getenv ''REDIS_ADDR'' \<noteq> '''' then r\<lparr>frp_Addr := getenv ''REDIS_ADDR''\<rparr> else r);
                    r = (if getenv ''REDIS_PASSWORD'' \<noteq> '''' then r\<lparr>frp_Password := getenv ''REDIS_PASSWORD''\<rparr> else r);
                    r = (if getenv ''REDIS_TLS'' = ''true'' then r\<lparr>frp_UseTLS := True\<rparr> else r);
                    p = p\<lparr>fp_Redis := r\<rparr>;
                    p = (if fp_EvalIntervalS p = 0 then p\<lparr>fp_EvalIntervalS := 30\<rparr> else p);
                    p = (if fp_IntentTTLMs p = 0 then p\<lparr>fp_IntentTTLMs := 10000\<rparr> else p);
                    p = (if fp_MaxSlippageBps p = 0 then p\<lparr>fp_MaxSlippageBps := 8\<rparr> else p);
                    p = (if fp_CooldownS p = 0 then p\<lparr>fp_CooldownS := 300\<rparr> else p)
                in Inr p)))"

section \<open>Funding periods\<close>

type_synonym FundingScheduler = "int list"

definition NewFundingScheduler :: FundingScheduler where
  "NewFundingScheduler = [0, 8, 16]"

text \<open>Midnight UTC of the day of a time.\<close>

definition midnight :: "go_time \<Rightarrow> go_time" where
  "midnight now = now - now mod day_ns"

fun first_after :: "go_time \<Rightarrow> go_time \<Rightarrow> int list \<Rightarrow> go_time option" where
  "first_after today now [] = None"
| "first_after today now (h # hs) =
     (if today + h * hour_ns > now then Some (today + h * hour_ns) else first_after today now hs)"

definition NextReset :: "FundingScheduler \<Rightarrow> go_time \<Rightarrow> go_time" where
  "NextReset s now =
     (let today = midnight now in
      case first_after today now s of
        Some t \<Rightarrow> t
      | None \<Rightarrow> today + (24 * hour_ns + hd s * hour_ns))"

text \<open>The loop of \<open>PrevReset\<close> runs down the hours.\<close>

fun first_not_after :: "go_time \<Rightarrow> go_time \<Rightarrow> int list \<Rightarrow> go_time option" where
  "first_not_after today now [] = None"
| "first_not_after today now (h # hs) =
     (if \<not> today + h * hour_ns > now then Some (today + h * hour_ns) else first_not_after today now hs)"

definition PrevReset :: "FundingScheduler \<Rightarrow> go_time \<Rightarrow> go_time" where
  "PrevReset s now =
     (let today = midnight now in
      case first_not_after today now (rev s) of
        Some t \<Rightarrow> t
      | None \<Rightarrow> today - 24 * hour_ns + List.last s * hour_ns)"

definition TimeToNextReset :: "FundingScheduler \<Rightarrow> go_time \<Rightarrow> duration" where
  "TimeToNextReset s now = NextReset s now - now"

definition TimeSinceLastReset :: "FundingScheduler \<Rightarrow> go_time \<Rightarrow> duration" where
  "TimeSinceLastReset s now = now - PrevReset s now"

definition IsNearReset :: "FundingScheduler \<Rightarrow> go_time \<Rightarrow> duration \<Rightarrow> bool" where
  "IsNearReset s now window \<longleftrightarrow> TimeToNextReset s now < window"

definition minute_ns :: duration where
  "minute_ns = 60 * 10 ^ 9"

definition OptimalEntry :: "FundingScheduler \<Rightarrow> go_time \<Rightarrow> bool" where
  "OptimalEntry s now \<longleftrightarrow> TimeSinceLastReset s now < 90 * minute_ns"

definition PeriodFraction :: "FundingScheduler \<Rightarrow> go_time \<Rightarrow> float64" where
  "PeriodFraction s now =
     (let since = of_int (TimeSinceLastReset s now) / 10 ^ 9;
          frac = since / (8 * 3600)
      in if frac > 1 then 1 else frac)"

definition RemainingPeriodFraction :: "FundingScheduler \<Rightarrow> go_time \<Rightarrow> float64" where
  "RemainingPeriodFraction s now = 1 - PeriodFraction s now"

section \<open>Funding regimes\<close>

record regimeState =
  rs_ewa :: float64
  rs_ewaSq :: float64
  rs_samples :: int
  rs_lastTsMs :: int64
  rs_lastRate :: float64
  rs_momentum :: float64

record Regime =
  rg_Venue :: string
  rg_Symbol :: string
  rg_EWA :: float64
  rg_StdDev :: float64
  rg_Momentum :: float64
  rg_Label :: string
  rg_TsMs :: int64

record RegimeForecaster =
  rf_alpha :: float64
  rf_states :: "(string \<times> regimeState) list"

definition NewRegimeForecaster :: "float64 \<Rightarrow> RegimeForecaster" where
  "NewRegimeForecaster alpha =
     \<lparr>rf_alpha = (if alpha \<le> 0 \<or> alpha > 1 then 0.15 else alpha), rf_states = []\<rparr>"

definition classify :: "float64 \<Rightarrow> float64 \<Rightarrow> string" where
  "classify ewa stdDev =
     (if stdDev > 0 \<and> \<bar>ewa\<bar> > 0 \<and> stdDev / \<bar>ewa\<bar> > 3 then ''VOLATILE''
      else if ewa > 0.00005 then ''POSITIVE''
      else if ewa < - 0.00005 then ''NEGATIVE''
      else ''NEUTRAL'')"

definition regime_stdDev :: "regimeState \<Rightarrow> float64" where
  "regime_stdDev s =
     (let variance = rs_ewaSq s - rs_ewa s * rs_ewa s in if variance > 0 then sqrt variance else 0)"

definition pair_key :: "string \<Rightarrow> string \<Rightarrow> string" where
  "pair_key venue symbol = venue @ '':'' @ symbol"

definition regime_next :: "float64 \<Rightarrow> regimeState option \<Rightarrow> float64 \<Rightarrow> int64 \<Rightarrow> regimeState" where
  "regime_next alpha old rate tsMs =
     (let s = (case old of
                 None \<Rightarrow> \<lparr>rs_ewa = rate, rs_ewaSq = rate * rate, rs_samples = 0, rs_lastTsMs = tsMs,
                          rs_lastRate = rate, rs_momentum = 0\<rparr>
               | Some s \<Rightarrow>
                   (let prevEWA = rs_ewa s; ewa = alpha * rate + (1 - alpha) * rs_ewa s
                    in s\<lparr>rs_ewa := ewa,
                         rs_ewaSq := alpha * (rate * rate) + (1 - alpha) * rs_ewaSq s,
                         rs_momentum := ewa - prevEWA, rs_lastRate := rate, rs_lastTsMs := tsMs\<rparr>))
      in s\<lparr>rs_samples := rs_samples s + 1\<rparr>)"

definition RegimeUpdate ::
  "int64 \<Rightarrow> string \<Rightarrow> string \<Rightarrow> float64 \<Rightarrow> int64 \<Rightarrow> RegimeForecaster \<Rightarrow> RegimeForecaster \<times> Regime" where
  "RegimeUpdate now venue symbol rate tsMs f =
     (let key = pair_key venue symbol;
          s = regime_next (rf_alpha f) (map_of (rf_states f) key) rate tsMs;
          stdDev = regime_stdDev s
      in (f\<lparr>rf_states := AList.update key s (rf_states f)\<rparr>,
          \<lparr>rg_Venue = venue, rg_Symbol = symbol, rg_EWA = rs_ewa s, rg_StdDev = stdDev,
           rg_Momentum = rs_momentum s, rg_Label = classify (rs_ewa s) stdDev, rg_TsMs = now\<rparr>))"

definition RegimeGet :: "RegimeForecaster \<Rightarrow> string \<Rightarrow> string \<Rightarrow> Regime option" where
  "RegimeGet f venue symbol =
     (case map_of (rf_states f) (pair_key venue symbol) of
        None \<Rightarrow> None
      | Some s \<Rightarrow>
          Some \<lparr>rg_Venue = venue, rg_Symbol = symbol, rg_EWA = rs_ewa s, rg_StdDev = regime_stdDev s,
                rg_Momentum = rs_momentum s, rg_Label = classify (rs_ewa s) (regime_stdDev s),
                rg_TsMs = rs_lastTsMs s\<rparr>)"

text \<open>\<open>All\<close> leaves venue and symbol empty.\<close>

definition RegimeAll :: "RegimeForecaster \<Rightarrow> Regime list" where
  "RegimeAll f =
     map (\<lambda>(k, s). \<lparr>rg_Venue = '''', rg_Symbol = '''', rg_EWA = rs_ewa s, rg_StdDev = regime_stdDev s,
                     rg_Momentum = rs_momentum s, rg_Label = classify (rs_ewa s) (regime_stdDev s),
                     rg_TsMs = rs_lastTsMs s\<rparr>) (rf_states f)"

section \<open>Realized volatility\<close>

record priceObs =
  po_price :: float64
  po_tsMs :: int64

text \<open>A ring buffer: the array, the next slot, and whether it has wrapped.\<close>

record volWindow =
  vw_obs :: "priceObs list"
  vw_idx :: nat
  vw_full :: bool
  vw_cap :: nat

record VolTracker =
  vt_windows :: "string \<rightharpoonup> volWindow"
  vt_capacity :: nat

definition NewVolTracker :: "int \<Rightarrow> VolTracker" where
  "NewVolTracker capacity =
     \<lparr>vt_windows = Map.empty, vt_capacity = (if capacity < 10 then 500 else nat capacity)\<rparr>"

definition empty_window :: "nat \<Rightarrow> volWindow" where
  "empty_window cap =
     \<lparr>vw_obs = replicate cap \<lparr>po_price = 0, po_tsMs = 0\<rparr>, vw_idx = 0, vw_full = False, vw_cap = cap\<rparr>"

definition window_push :: "priceObs \<Rightarrow> volWindow \<Rightarrow> volWindow" where
  "window_push x w =
     (let w = w\<lparr>vw_obs := (vw_obs w)[vw_idx w := x], vw_idx := vw_idx w + 1\<rparr>
      in if vw_idx w \<ge> vw_cap w then w\<lparr>vw_idx := 0, vw_full := True\<rparr> else w)"

definition VolRecord :: "string \<Rightarrow> string \<Rightarrow> float64 \<Rightarrow> int64 \<Rightarrow> VolTracker \<Rightarrow> VolTracker" where
  "VolRecord venue symbol price tsMs vt =
     (if price \<le> 0 then vt
      else
        (let key = pair_key venue symbol;
             w = (case vt_windows vt key of None \<Rightarrow> empty_window (vt_capacity vt) | Some w \<Rightarrow> w)
         in vt\<lparr>vt_windows := (vt_windows vt)(key \<mapsto> window_push \<lparr>po_price = price, po_tsMs = tsMs\<rparr> w)\<rparr>))"

definition window_count :: "volWindow \<Rightarrow> nat" where
  "window_count w = (if vw_full w then vw_cap w else vw_idx w)"

definition window_sorted :: "volWindow \<Rightarrow> priceObs list" where
  "window_sorted w =
     (if vw_full w then drop (vw_idx w) (vw_obs w) @ take (vw_idx w) (vw_obs w)
      else take (vw_idx w) (vw_obs w))"

text \<open>The log-returns of neighbours with positive prices.\<close>

fun log_returns :: "priceObs list \<Rightarrow> float64 list" where
  "log_returns (a # b # rest) =
     (if po_price b \<le> 0 \<or> po_price a \<le> 0 then log_returns (b # rest)
      else ln (po_price b / po_price a) # log_returns (b # rest))"
| "log_returns _ = []"

definition RealizedVol :: "VolTracker \<Rightarrow> string \<Rightarrow> string \<Rightarrow> float64" where
  "RealizedVol vt venue symbol =
     (case vt_windows vt (pair_key venue symbol) of
        None \<Rightarrow> 0
      | Some w \<Rightarrow>
          (if window_count w < 10 then 0
           else
             (let obs = window_sorted w; rs = log_returns obs; returns = length rs in
              if returns < 5 then 0
              else
                (let mean = sum_list rs / of_nat returns;
                     variance = sum_list (map (\<lambda>r. r * r) rs) / of_nat returns - mean * mean
                 in if variance \<le> 0 then 0
                    else
                      (let totalTimeMs = of_int (po_tsMs (List.last obs) - po_tsMs (hd obs)) in
                       if totalTimeMs \<le> 0 then 0
                       else
                         (let avgIntervalS = totalTimeMs / of_nat returns / 1000 in
                          if avgIntervalS \<le> 0 then 0
                          else sqrt variance * sqrt (365.25 * 24 * 3600 / avgIntervalS) * 100))))))"

section \<open>Periods\<close>

lemma midnight_bounds: "midnight now \<le> now \<and> now < midnight now + 24 * hour_ns"
  using pos_mod_sign [of day_ns now] pos_mod_bound [of day_ns now] by (simp add: midnight_def day_ns_def)

lemma midnight_mod [simp]: "midnight now mod (8 * hour_ns) = 0"
proof -
  have "midnight now = (now div day_ns * 3) * (8 * hour_ns)"
    unfolding midnight_def minus_mod_eq_div_mult by (simp add: day_ns_def)
  then show ?thesis by simp
qed

lemma resets:
  "NextReset NewFundingScheduler now =
     midnight now + (if now < midnight now + 8 * hour_ns then 8 * hour_ns
                     else if now < midnight now + 16 * hour_ns then 16 * hour_ns else 24 * hour_ns)"
  "PrevReset NewFundingScheduler now =
     midnight now + (if now < midnight now + 8 * hour_ns then 0
                     else if now < midnight now + 16 * hour_ns then 8 * hour_ns else 16 * hour_ns)"
  using midnight_bounds [of now] hour_day_pos(1)
  by (simp_all add: NextReset_def PrevReset_def NewFundingScheduler_def Let_def)

text \<open>
  Funding periods: every time lies in exactly one period of eight hours, between the reset
  before it (or at it) and the next one, resets are at multiples of eight hours of UTC, and the
  elapsed fraction of the period is in the half-open interval from 0 to 1.
\<close>

theorem funding_periods_partition_time:
  "PrevReset NewFundingScheduler now \<le> now \<and> now < NextReset NewFundingScheduler now \<and>
   NextReset NewFundingScheduler now = PrevReset NewFundingScheduler now + 8 * hour_ns \<and>
   PrevReset NewFundingScheduler now mod (8 * hour_ns) = 0 \<and>
   0 \<le> PeriodFraction NewFundingScheduler now \<and> PeriodFraction NewFundingScheduler now < 1"
proof -
  let ?p = "PrevReset NewFundingScheduler now" and ?n = "NextReset NewFundingScheduler now"
  have b: "?p \<le> now" "now < ?n" "?n = ?p + 8 * hour_ns"
    unfolding resets using midnight_bounds [of now] by auto
  have m: "?p mod (8 * hour_ns) = 0"
    unfolding resets(2) using mod_add_eq [of "midnight now" "8 * hour_ns" "16 * hour_ns", symmetric] by auto
  have "of_int (now - ?p) < (of_int (8 * hour_ns) :: real)" unfolding of_int_less_iff using b by simp
  then have "of_int (TimeSinceLastReset NewFundingScheduler now) / 10 ^ 9 / (8 * 3600) < (1 :: real)"
    "0 \<le> of_int (TimeSinceLastReset NewFundingScheduler now) / 10 ^ 9 / (8 * 3600 :: real)"
    using b(1) by (simp_all add: TimeSinceLastReset_def hour_ns_def)
  then have f: "0 \<le> PeriodFraction NewFundingScheduler now" "PeriodFraction NewFundingScheduler now < 1"
    unfolding PeriodFraction_def Let_def by (simp_all split: if_split)
  with b m show ?thesis by blast
qed

lemma near_reset_is_not_optimal:
  assumes "IsNearReset NewFundingScheduler now (30 * minute_ns)"
  shows "\<not> OptimalEntry NewFundingScheduler now"
proof -
  have "NextReset NewFundingScheduler now = PrevReset NewFundingScheduler now + 8 * hour_ns"
    unfolding resets by auto
  with assms show ?thesis
    by (simp add: IsNearReset_def OptimalEntry_def TimeToNextReset_def TimeSinceLastReset_def
        minute_ns_def hour_ns_def)
qed

section \<open>Regimes\<close>

text \<open>
  The average is a convex combination of the rates seen, so it keeps every linear bound, and
  so do the average of the squares and the gap between the two.
\<close>

definition regime_inv :: "real \<Rightarrow> real \<Rightarrow> regimeState \<Rightarrow> bool" where
  "regime_inv lo hi s \<longleftrightarrow> lo \<le> rs_ewa s \<and> rs_ewa s \<le> hi \<and> rs_ewa s * rs_ewa s \<le> rs_ewaSq s \<and>
     rs_ewaSq s \<le> (lo + hi) * rs_ewa s - lo * hi"

lemma convex_sq:
  fixes x y :: real
  assumes "0 \<le> a" "a \<le> 1"
  shows "(a * x + (1 - a) * y) * (a * x + (1 - a) * y) \<le> a * (x * x) + (1 - a) * (y * y)"
proof -
  have "a * (x * x) + (1 - a) * (y * y) - (a * x + (1 - a) * y) * (a * x + (1 - a) * y) = a * (1 - a) * ((x - y) * (x - y))"
    by (simp add: algebra_simps)
  moreover have "0 \<le> a * (1 - a) * ((x - y) * (x - y))" using assms zero_le_square [of "x - y"] by (intro mult_nonneg_nonneg [OF mult_nonneg_nonneg]) simp_all
  ultimately show ?thesis by linarith
qed

lemma regime_next_inv:
  assumes "0 \<le> a" "a \<le> 1" "\<forall>s. old = Some s \<longrightarrow> regime_inv lo hi s" "lo \<le> rate" "rate \<le> hi"
  shows "regime_inv lo hi (regime_next a old rate ts)"
proof -
  have sq: "rate * rate \<le> (lo + hi) * rate - lo * hi"
    using mult_nonneg_nonneg [of "rate - lo" "hi - rate"] assms(4,5) by (simp add: algebra_simps)
  show ?thesis
  proof (cases old)
    case None
    then show ?thesis using assms(4,5) sq by (simp add: regime_next_def regime_inv_def)
  next
    case (Some s)
    then have s: "lo \<le> rs_ewa s" "rs_ewa s \<le> hi" "rs_ewa s * rs_ewa s \<le> rs_ewaSq s"
      "rs_ewaSq s \<le> (lo + hi) * rs_ewa s - lo * hi" using assms(3) by (simp_all add: regime_inv_def)
    let ?e = "a * rate + (1 - a) * rs_ewa s"
    have "a * lo + (1 - a) * lo \<le> ?e" "?e \<le> a * hi + (1 - a) * hi"
      using assms(1,2,4,5) s(1,2) by (intro add_mono mult_left_mono; simp)+
    moreover have "?e * ?e \<le> a * (rate * rate) + (1 - a) * rs_ewaSq s"
      using convex_sq [OF assms(1,2), of rate "rs_ewa s"] mult_left_mono [OF s(3), of "1 - a"] assms(2) by linarith
    moreover have "a * (rate * rate) + (1 - a) * rs_ewaSq s \<le>
        a * ((lo + hi) * rate - lo * hi) + (1 - a) * ((lo + hi) * rs_ewa s - lo * hi)"
      using assms(1,2) sq s(4) by (intro add_mono mult_left_mono) simp_all
    ultimately show ?thesis
      by (simp add: Some regime_next_def regime_inv_def Let_def algebra_simps)
  qed
qed

lemma regime_inv_stdDev:
  assumes "regime_inv lo hi s"
  shows "regime_stdDev s * regime_stdDev s \<le> (hi - rs_ewa s) * (rs_ewa s - lo)" "0 \<le> regime_stdDev s"
proof -
  have v: "0 \<le> rs_ewaSq s - rs_ewa s * rs_ewa s" using assms by (simp add: regime_inv_def)
  then have "regime_stdDev s = sqrt (rs_ewaSq s - rs_ewa s * rs_ewa s)"
    by (cases "rs_ewaSq s - rs_ewa s * rs_ewa s = 0") (simp_all add: regime_stdDev_def Let_def)
  then have "regime_stdDev s * regime_stdDev s = rs_ewaSq s - rs_ewa s * rs_ewa s"
    using real_sqrt_mult_self [of "rs_ewaSq s - rs_ewa s * rs_ewa s"] v by simp
  then show "regime_stdDev s * regime_stdDev s \<le> (hi - rs_ewa s) * (rs_ewa s - lo)"
    using assms by (simp add: regime_inv_def algebra_simps)
  show "0 \<le> regime_stdDev s" by (simp add: regime_stdDev_def Let_def)
qed

text \<open>A run of updates of the forecaster.\<close>

definition regime_step :: "RegimeForecaster \<Rightarrow> (string \<times> string) \<times> float64 \<times> int64 \<Rightarrow> RegimeForecaster" where
  "regime_step f x = (case x of ((venue, symbol), rate, tsMs) \<Rightarrow> fst (RegimeUpdate 0 venue symbol rate tsMs f))"

definition regimes_within :: "string \<Rightarrow> real \<Rightarrow> real \<Rightarrow> RegimeForecaster \<Rightarrow> bool" where
  "regimes_within key lo hi f \<longleftrightarrow>
     0 \<le> rf_alpha f \<and> rf_alpha f \<le> 1 \<and> (\<forall>s. map_of (rf_states f) key = Some s \<longrightarrow> regime_inv lo hi s)"

lemma regime_step_within:
  assumes "regimes_within key lo hi f" "case x of ((v, sy), rate, _) \<Rightarrow> pair_key v sy = key \<longrightarrow> lo \<le> rate \<and> rate \<le> hi"
  shows "regimes_within key lo hi (regime_step f x)"
proof -
  obtain v sy rate ts where x: "x = ((v, sy), rate, ts)" by (cases x) auto
  then show ?thesis
    using assms regime_next_inv [of "rf_alpha f" "map_of (rf_states f) key" lo hi rate ts]
    by (auto simp: regimes_within_def regime_step_def RegimeUpdate_def Let_def update_conv')
qed

interpretation regimes: invariant_machine regime_step
  "\<lambda>x. case x of ((v, sy), rate, _) \<Rightarrow> pair_key v sy = key \<longrightarrow> lo \<le> rate \<and> rate \<le> hi" "regimes_within key lo hi" for key lo hi
  by unfold_locales (rule regime_step_within)

lemma regimes_within_new: "regimes_within key lo hi (NewRegimeForecaster a)"
  by (simp add: regimes_within_def NewRegimeForecaster_def)

lemma RegimeGet_within:
  assumes "regimes_within (pair_key venue symbol) lo hi f" "RegimeGet f venue symbol = Some r"
  shows "\<exists>s. regime_inv lo hi s \<and> rg_EWA r = rs_ewa s \<and> rg_StdDev r = regime_stdDev s \<and>
    rg_Label r = classify (rs_ewa s) (regime_stdDev s)"
  using assms by (auto simp: regimes_within_def RegimeGet_def split: option.splits)

lemma band_bound:
  fixes e :: real
  assumes "(hi - lo) * (hi - lo) \<le> 36 * (lo * hi)"
  shows "(hi - e) * (e - lo) \<le> (3 * e) * (3 * e)"
proof -
  have "40 * ((3 * e) * (3 * e) - (hi - e) * (e - lo)) =
      (20 * e - (hi + lo)) * (20 * e - (hi + lo)) + (36 * (lo * hi) - (hi - lo) * (hi - lo))"
    by (simp add: algebra_simps)
  moreover have "0 \<le> (20 * e - (hi + lo)) * (20 * e - (hi + lo))" "0 \<le> 36 * (lo * hi) - (hi - lo) * (hi - lo)"
    using assms by simp_all
  moreover have "x \<le> y" if "40 * (y - x) = p + q" "0 \<le> p" "0 \<le> q" for x y p q :: real
  proof -
    have "0 \<le> 40 * (y - x)" unfolding that(1) using that(2,3) by (rule add_nonneg_nonneg)
    then show ?thesis by (simp add: zero_le_mult_iff)
  qed
  ultimately show ?thesis by blast
qed

text \<open>
  A steady funding rate is never labelled VOLATILE: when all rates seen for a pair lie in a
  positive band whose width squared is at most 36 times the product of its ends, the averaged
  rate stays in the band, the deviation is at most the geometric mean of its distances from the
  ends, and the label is never VOLATILE (and POSITIVE above half a basis point).
\<close>

theorem steady_funding_is_never_volatile:
  assumes "0 < lo" "(hi - lo) * (hi - lo) \<le> 36 * (lo * hi)"
    and "\<forall>((v, sy), rate, _)\<in>set xs. pair_key v sy = pair_key venue symbol \<longrightarrow> lo \<le> rate \<and> rate \<le> hi"
    and "RegimeGet (foldl regime_step (NewRegimeForecaster a) xs) venue symbol = Some r"
  shows "rg_EWA r \<in> {lo..hi} \<and> rg_StdDev r * rg_StdDev r \<le> (hi - rg_EWA r) * (rg_EWA r - lo) \<and>
    rg_Label r \<noteq> ''VOLATILE'' \<and> (0.00005 < lo \<longrightarrow> rg_Label r = ''POSITIVE'')"
proof -
  have "regimes_within (pair_key venue symbol) lo hi (foldl regime_step (NewRegimeForecaster a) xs)"
    by (rule regimes.run_inv [OF regimes_within_new]) (use assms(3) in \<open>simp add: case_prod_unfold\<close>)
  then obtain s where inv: "regime_inv lo hi s"
    and r: "rg_EWA r = rs_ewa s" "rg_StdDev r = regime_stdDev s" "rg_Label r = classify (rs_ewa s) (regime_stdDev s)"
    using RegimeGet_within [OF _ assms(4)] by blast
  let ?e = "rs_ewa s" and ?d = "regime_stdDev s"
  have e: "lo \<le> ?e" "?e \<le> hi" using inv by (simp_all add: regime_inv_def)
  have "?d * ?d \<le> (3 * ?e) * (3 * ?e)"
    using regime_inv_stdDev(1) [OF inv] band_bound [OF assms(2)] by (rule order_trans)
  then have "?d ^ 2 \<le> (3 * ?e) ^ 2" unfolding power2_eq_square .
  then have "?d \<le> 3 * ?e" by (rule power2_le_imp_le) (use assms(1) e(1) in simp)
  then have nv: "\<not> ?d / \<bar>?e\<bar> > 3" using assms(1) e(1) by (simp add: divide_le_eq not_less)
  then have "classify ?e ?d \<noteq> ''VOLATILE''" by (simp add: classify_def)
  moreover have "0.00005 < lo \<Longrightarrow> classify ?e ?d = ''POSITIVE''" using nv e(1) by (simp add: classify_def)
  ultimately show ?thesis using e regime_inv_stdDev(1) [OF inv] by (simp add: r)
qed

definition steady_rates :: "((string \<times> string) \<times> float64 \<times> int64) list" where
  "steady_rates = [((''okx'', ''BTC''), 1 / 10000, 1), ((''okx'', ''BTC''), 2 / 10000, 2), ((''gate'', ''BTC''), -1, 3)]"

theorem steady_funding_is_never_volatile_witness:
  "\<exists>r. RegimeGet (foldl regime_step (NewRegimeForecaster 0.15) steady_rates) ''okx'' ''BTC'' = Some r \<and>
     rg_EWA r = 23 / 200000 \<and> rg_Label r = ''POSITIVE'' \<and> rg_EWA r \<in> {1 / 10000..2 / 10000}"
proof -
  obtain r where r: "RegimeGet (foldl regime_step (NewRegimeForecaster 0.15) steady_rates) ''okx'' ''BTC'' = Some r"
    "rg_EWA r = 23 / 200000"
    by (simp add: steady_rates_def regime_step_def RegimeUpdate_def RegimeGet_def pair_key_def NewRegimeForecaster_def
        regime_next_def Let_def update_conv')
  from steady_funding_is_never_volatile [of "1 / 10000" "2 / 10000" steady_rates "''okx''" "''BTC''" "0.15", OF _ _ _ r(1)]
  have "rg_Label r = ''POSITIVE'' \<and> rg_EWA r \<in> {1 / 10000..2 / 10000}"
    by (simp add: steady_rates_def pair_key_def)
  with r show ?thesis by blast
qed

section \<open>The ring buffer\<close>

definition window_wf :: "volWindow \<Rightarrow> bool" where
  "window_wf w \<longleftrightarrow> 0 < vw_cap w \<and> length (vw_obs w) = vw_cap w \<and> vw_idx w < vw_cap w"

lemma window_wf_empty: "0 < cap \<Longrightarrow> window_wf (empty_window cap)"
  by (simp add: window_wf_def empty_window_def)

interpretation vol_ring: ring_buffer vw_obs vw_idx vw_full vw_cap window_push
  by unfold_locales (auto simp: window_push_def Let_def)

lemma window_wf_ring: "window_wf w \<longleftrightarrow> ring_wf (vw_obs w) (vw_idx w) (vw_cap w)"
  by (auto simp: window_wf_def ring_wf_def)

lemma window_sorted_ring: "window_sorted w = ring_contents (vw_obs w) (vw_idx w) (vw_full w)"
  by (simp add: window_sorted_def ring_contents_def)

lemma window_push_wf: "window_wf w \<Longrightarrow> window_wf (window_push x w) \<and> vw_cap (window_push x w) = vw_cap w"
  unfolding window_wf_ring using vol_ring.push_wf by (simp add: vol_ring.cap_push)

lemma window_count_sorted: "window_wf w \<Longrightarrow> window_count w = length (window_sorted w)"
  by (simp add: window_count_def window_sorted_ring window_wf_ring length_ring_contents)

text \<open>
  The abstraction of a ring buffer is the list of its observations in order; a push is an
  append cut down to the capacity.
\<close>

lemma window_push_sorted:
  "window_wf w \<Longrightarrow> window_sorted (window_push x w) = keep_last (vw_cap w) (window_sorted w @ [x])"
  unfolding window_wf_ring window_sorted_ring by (rule vol_ring.push_contents)

lemma window_run:
  "window_wf w \<Longrightarrow> window_sorted w = keep_last (vw_cap w) ys \<Longrightarrow>
     window_sorted (foldl (\<lambda>w x. window_push x w) w xs) = keep_last (vw_cap w) (ys @ xs)"
  unfolding window_wf_ring window_sorted_ring using vol_ring.run_contents by blast

text \<open>The observations of one pair in a run of the tracker.\<close>

definition vol_step :: "VolTracker \<Rightarrow> (string \<times> string) \<times> priceObs \<Rightarrow> VolTracker" where
  "vol_step vt x = (case x of ((v, sy), ob) \<Rightarrow> VolRecord v sy (po_price ob) (po_tsMs ob) vt)"

definition obs_of :: "string \<Rightarrow> ((string \<times> string) \<times> priceObs) list \<Rightarrow> priceObs list" where
  "obs_of key xs = map snd (filter (\<lambda>((v, sy), ob). pair_key v sy = key \<and> 0 < po_price ob) xs)"

lemma priceObs_eta [simp]: "\<lparr>po_price = po_price ob, po_tsMs = po_tsMs ob\<rparr> = (ob :: priceObs)"
  by simp

lemma vol_step_window:
  "vt_windows (vol_step vt ((v, sy), ob)) key =
     (if pair_key v sy = key \<and> 0 < po_price ob
      then Some (window_push ob (case vt_windows vt key of None \<Rightarrow> empty_window (vt_capacity vt) | Some w \<Rightarrow> w))
      else vt_windows vt key)"
  "vt_capacity (vol_step vt ((v, sy), ob)) = vt_capacity vt"
  by (auto simp: vol_step_def VolRecord_def Let_def)

lemma vol_run_capacity [simp]: "vt_capacity (foldl vol_step vt xs) = vt_capacity vt"
proof (induction xs arbitrary: vt)
  case (Cons x xs)
  then show ?case by (cases x) (auto simp: vol_step_window)
qed simp

lemma vol_run_window:
  "0 < vt_capacity vt \<Longrightarrow> vt_windows vt key = None \<Longrightarrow>
     vt_windows (foldl vol_step vt xs) key =
       (if obs_of key xs = [] then None
        else Some (foldl (\<lambda>w x. window_push x w) (empty_window (vt_capacity vt)) (obs_of key xs)))"
proof (induction xs rule: rev_induct)
  case Nil
  then show ?case by (simp add: obs_of_def)
next
  case (snoc x xs)
  obtain v sy ob where x: "x = ((v, sy), ob)" by (cases x) auto
  have "obs_of key (xs @ [x]) = obs_of key xs @ (if pair_key v sy = key \<and> 0 < po_price ob then [ob] else [])"
    by (simp add: obs_of_def x)
  with snoc show ?case by (simp add: x vol_step_window)
qed

text \<open>
  C36.  The ring buffer of the volatility tracker refines a list: for every run of observations,
  the window of a pair holds, in order, exactly the last observations with a positive price, at
  most as many as the capacity.
\<close>

theorem vol_window_is_the_last_observations:
  "map_option window_sorted (vt_windows (foldl vol_step (NewVolTracker c) xs) key) =
     (if obs_of key xs = [] then None else Some (keep_last (if c < 10 then 500 else nat c) (obs_of key xs)))"
proof -
  let ?n = "vt_capacity (NewVolTracker c)"
  have n: "?n = (if c < 10 then 500 else nat c)" "0 < ?n" by (simp_all add: NewVolTracker_def)
  have "window_sorted (empty_window ?n) = keep_last ?n []" "vw_cap (empty_window ?n) = ?n"
    by (simp_all add: window_sorted_def empty_window_def keep_last_def)
  with window_run [OF window_wf_empty [OF n(2)], of "[]" "obs_of key xs"]
  have "window_sorted (foldl (\<lambda>w x. window_push x w) (empty_window ?n) (obs_of key xs)) = keep_last ?n (obs_of key xs)"
    by simp
  moreover have "vt_windows (NewVolTracker c) key = None" by (simp add: NewVolTracker_def)
  ultimately show ?thesis using vol_run_window [OF n(2), of key xs] n(1) by simp
qed

text \<open>The volatility is a square root times a square root: never negative.\<close>

lemma RealizedVol_nonneg: "0 \<le> RealizedVol vt v s"
  by (auto simp: RealizedVol_def Let_def split: option.split)

end
