(* ===== verification/Funding_Engine.thy ===== *)
theory Funding_Engine
  imports Funding_Signals Arb_Engine Execution_Graduation
begin

text \<open>
  internal/funding: engine.go (entries), exit.go (exits) and positions.go (open positions from
  execution events), the event record of internal/execution/types.go, and the loop of
  cmd/funding-engine/main.go.  \<open>ord k\<close> is the order in which the k-th range statement of one
  evaluation visits a map, \<open>rnd k\<close> the k-th draw of random bytes.  The trackers that
  \<open>NewEngine\<close> always creates are plain fields.
\<close>

section \<open>State\<close>

record venueData =
  vd_fundingRate :: float64
  vd_markPrice :: float64
  vd_feeBpsTaker :: float64
  vd_updatedMs :: int64

record FundEngine =
  fe_policy :: FundPolicy
  fe_state :: "string \<rightharpoonup> (string \<times> venueData) list"
  fe_cooldown :: "string \<rightharpoonup> int64"
  fe_Emitted :: "string \<Rightarrow> int"
  fe_Rejected :: "string \<Rightarrow> int"
  fe_forecaster :: RegimeForecaster
  fe_scheduler :: FundingScheduler
  fe_volTracker :: VolTracker
  fe_runtimeStages :: "(string \<rightharpoonup> FundingStage) option"
  fe_exitSignal :: bool

definition NewFundEngine :: "FundPolicy \<Rightarrow> FundEngine" where
  "NewFundEngine p =
     \<lparr>fe_policy = p, fe_state = (\<lambda>sy. if sy \<in> set (fp_Symbols p) then Some [] else None),
      fe_cooldown = Map.empty, fe_Emitted = (\<lambda>_. 0), fe_Rejected = (\<lambda>_. 0),
      fe_forecaster = NewRegimeForecaster 0.15, fe_scheduler = NewFundingScheduler,
      fe_volTracker = NewVolTracker 500, fe_runtimeStages = None, fe_exitSignal = False\<rparr>"

definition signFlipped :: "float64 \<Rightarrow> float64 \<Rightarrow> bool" where
  "signFlipped a b \<longleftrightarrow> (a > 0 \<and> b < 0) \<or> (a < 0 \<and> b > 0)"

text \<open>The zero \<open>venueData\<close> of a venue seen for the first time.\<close>

definition no_venue_data :: venueData where
  "no_venue_data = \<lparr>vd_fundingRate = 0, vd_markPrice = 0, vd_feeBpsTaker = 0, vd_updatedMs = 0\<rparr>"

definition UpdateQuote :: "int64 \<Rightarrow> Quote \<Rightarrow> FundEngine \<Rightarrow> FundEngine" where
  "UpdateQuote now q e =
     (let sy = q_Symbol q; ven = q_Venue q in
      case fe_state e sy of
        None \<Rightarrow> e
      | Some venueMap \<Rightarrow>
          (let d = (case map_of venueMap ven of None \<Rightarrow> no_venue_data | Some d \<Rightarrow> d);
               (d, e) =
                 (if q_FundingRate q \<noteq> 0
                  then (d\<lparr>vd_fundingRate := q_FundingRate q\<rparr>,
                        e\<lparr>fe_forecaster := fst (RegimeUpdate now ven sy (q_FundingRate q) (q_TsMs q) (fe_forecaster e)),
                          fe_exitSignal := (if vd_fundingRate d \<noteq> 0 \<and> signFlipped (vd_fundingRate d) (q_FundingRate q)
                                            then True else fe_exitSignal e)\<rparr>)
                  else (d, e));
               (d, e) =
                 (if q_Mark q > 0
                  then (d\<lparr>vd_markPrice := q_Mark q\<rparr>,
                        e\<lparr>fe_volTracker := VolRecord ven sy (q_Mark q) (q_TsMs q) (fe_volTracker e)\<rparr>)
                  else (d, e));
               d = (if q_FeeBpsTaker q > 0 then d\<lparr>vd_feeBpsTaker := q_FeeBpsTaker q\<rparr> else d);
               d = d\<lparr>vd_updatedMs := q_TsMs q\<rparr>
           in e\<lparr>fe_state := (fe_state e)(sy \<mapsto> AList.update ven d venueMap)\<rparr>))"

definition SetRuntimeStages :: "(string \<rightharpoonup> string) option \<Rightarrow> FundEngine \<Rightarrow> FundEngine" where
  "SetRuntimeStages stages e = e\<lparr>fe_runtimeStages := stages\<rparr>"

definition effectiveStage :: "FundEngine \<Rightarrow> string \<Rightarrow> FundingStage" where
  "effectiveStage e symbol =
     (case fe_runtimeStages e of
        None \<Rightarrow> fund_stage (fe_policy e) symbol
      | Some m \<Rightarrow> (case m symbol of Some s \<Rightarrow> s | None \<Rightarrow> fund_stage (fe_policy e) symbol))"

section \<open>Gates\<close>

definition minYield :: "FundEngine \<Rightarrow> string \<Rightarrow> float64 \<Rightarrow> float64" where
  "minYield e symbol annualNetPct =
     (let med = (case minYieldForSymbol (fe_policy e) symbol ''MED'' of Some t \<Rightarrow> t | None \<Rightarrow> 8) in
      case minYieldForSymbol (fe_policy e) symbol ''HIGH'' of
        Some t \<Rightarrow> if annualNetPct \<ge> t then t else med
      | None \<Rightarrow> med)"

definition applyStageNotional :: "FundEngine \<Rightarrow> string \<Rightarrow> float64 \<Rightarrow> float64" where
  "applyStageNotional e sy notional =
     (if effectiveStage e sy = StageConservative then notional * sizeScale (fe_policy e) sy else notional)"

definition applyStageConstraints :: "FundEngine \<Rightarrow> string \<Rightarrow> TradeIntent \<Rightarrow> TradeIntent" where
  "applyStageConstraints e sy intent =
     (if effectiveStage e sy = StagePaper
      then intent\<lparr>ti_Constraints := (ti_Constraints intent)\<lparr>ic_ForcePaperMode := True\<rparr>\<rparr> else intent)"

definition applyVolGate :: "FundEngine \<Rightarrow> string \<Rightarrow> string \<Rightarrow> float64 \<Rightarrow> float64" where
  "applyVolGate e venue symbol notional =
     (let g = fp_VolatilityGate (fe_policy e) in
      if vg_VolThresholdPct g \<le> 0 then notional
      else if RealizedVol (fe_volTracker e) venue symbol \<le> vg_VolThresholdPct g then notional
      else (let factor = (if vg_SizeReductionFactor g \<le> 0 \<or> vg_SizeReductionFactor g \<ge> 1
                          then 0.5 else vg_SizeReductionFactor g)
            in notional * factor))"

definition fund_onCooldown :: "FundEngine \<Rightarrow> string \<Rightarrow> int64 \<Rightarrow> bool" where
  "fund_onCooldown e key nowMs =
     (case fe_cooldown e key of None \<Rightarrow> False | Some t \<Rightarrow> nowMs - t < fp_CooldownS (fe_policy e) * 1000)"

definition volatile :: "FundEngine \<Rightarrow> string \<Rightarrow> string \<Rightarrow> bool" where
  "volatile e venue symbol =
     (case RegimeGet (fe_forecaster e) venue symbol of None \<Rightarrow> False | Some r \<Rightarrow> rg_Label r = ''VOLATILE'')"

section \<open>Intents\<close>

definition fund_newUUID :: "8 word list \<Rightarrow> string" where
  "fund_newUUID b =
     (let hex = (\<lambda>i j. concat (map hex_byte (take (j - i) (drop i b))))
      in hex 0 4 @ ''-'' @ hex 4 6 @ ''-'' @ hex 6 8 @ ''-'' @ hex 8 10 @ ''-'' @ hex 10 16)"

definition fund_leg :: "string \<Rightarrow> string \<Rightarrow> string \<Rightarrow> float64 \<Rightarrow> float64 \<Rightarrow> float64 \<Rightarrow> TradeLeg" where
  "fund_leg venue action market notional slippageBps limit =
     \<lparr>tl_Venue = venue, tl_Action = action, tl_Type = ''MARKET_OR_IOC'', tl_Market = market,
      tl_NotionalUSD = notional, tl_MaxSlippageBps = slippageBps, tl_PriceLimit = limit\<rparr>"

definition no_expected :: ExpectedMetrics where
  "no_expected =
     \<lparr>em_EdgeBpsGross = 0, em_EdgeBpsNet = 0, em_ProfitUSDNet = 0, em_FeesUSDEst = 0, em_SlippageUSDEst = 0,
      em_FundingRate8hBps = 0, em_AnnualYieldPctNet = 0\<rparr>"

text \<open>The fields that all funding intents share.\<close>

definition fund_intent ::
  "FundEngine \<Rightarrow> string \<Rightarrow> string \<Rightarrow> string \<Rightarrow> string \<Rightarrow> int64 \<Rightarrow> TradeLeg list \<Rightarrow> ExpectedMetrics \<Rightarrow> string \<Rightarrow> bool \<Rightarrow> string \<Rightarrow> TradeIntent" where
  "fund_intent e tenantID uuid strategy sy nowMs legs expected minQuality requireOK key =
     \<lparr>ti_SchemaVersion = 0, ti_TenantID = tenantID, ti_IntentID = uuid, ti_Strategy = strategy,
      ti_Symbol = sy, ti_TsMs = nowMs, ti_ExpiresMs = nowMs + fp_IntentTTLMs (fe_policy e), ti_Legs = legs,
      ti_Expected = expected,
      ti_Constraints = \<lparr>ic_MinQuality = minQuality, ic_RequireVenueOK = requireOK,
        ic_MaxAgeMs = fp_IntentTTLMs (fe_policy e), ic_HedgePreference = ''SIMULTANEOUS_OR_HEDGE_FIRST'',
        ic_CooldownKey = key, ic_ForcePaperMode = False\<rparr>,
      ti_Debug = \<lparr>id_ConsensusBandLow = 0, id_ConsensusBandHigh = 0, id_BuyOn = '''', id_SellOn = '''',
        id_BuyExec = 0, id_SellExec = 0\<rparr>\<rparr>"

definition fund_expected :: "float64 \<Rightarrow> float64 \<Rightarrow> float64 \<Rightarrow> float64 \<Rightarrow> ExpectedMetrics" where
  "fund_expected rateBps annualNetPct feeUSD notional =
     no_expected\<lparr>em_FundingRate8hBps := rateBps, em_AnnualYieldPctNet := annualNetPct,
       em_FeesUSDEst := feeUSD, em_ProfitUSDNet := notional * annualNetPct / 100 / 365 * 8 / 24\<rparr>"

definition carry_key :: "string \<Rightarrow> string \<Rightarrow> string" where
  "carry_key sy venue = ''carry:'' @ sy @ '':'' @ venue"

definition reverse_key :: "string \<Rightarrow> string \<Rightarrow> string" where
  "reverse_key sy venue = ''reverse_carry:'' @ sy @ '':'' @ venue"

definition diff_key :: "string \<Rightarrow> string \<Rightarrow> string \<Rightarrow> string" where
  "diff_key sy longVenue shortVenue = ''diff:'' @ sy @ '':'' @ longVenue @ '':'' @ shortVenue"

definition buildCarryIntent ::
  "FundEngine \<Rightarrow> string \<Rightarrow> string \<Rightarrow> string \<Rightarrow> string \<Rightarrow> venueData \<Rightarrow> float64 \<Rightarrow> float64 \<Rightarrow> float64 \<Rightarrow> int64 \<Rightarrow> TradeIntent" where
  "buildCarryIntent e uuid tenantID sy venue d notional annualNetPct slippageBps nowMs =
     fund_intent e tenantID uuid ''FUNDING_CARRY'' sy nowMs
       [fund_leg venue ''BUY'' ''SPOT'' notional slippageBps (vd_markPrice d * 1.005),
        fund_leg venue ''SELL'' ''PERP'' notional slippageBps (vd_markPrice d * 0.995)]
       (fund_expected (vd_fundingRate d * 10000) annualNetPct (notional * vd_feeBpsTaker d * 2 / 10000) notional)
       ''MED'' True (carry_key sy venue)"

definition buildReverseCarryIntent ::
  "FundEngine \<Rightarrow> string \<Rightarrow> string \<Rightarrow> string \<Rightarrow> string \<Rightarrow> venueData \<Rightarrow> float64 \<Rightarrow> float64 \<Rightarrow> float64 \<Rightarrow> int64 \<Rightarrow> TradeIntent" where
  "buildReverseCarryIntent e uuid tenantID sy venue d notional annualNetPct slippageBps nowMs =
     fund_intent e tenantID uuid ''FUNDING_CARRY_REVERSE'' sy nowMs
       [fund_leg venue ''SELL'' ''SPOT'' notional slippageBps (vd_markPrice d * 0.995),
        fund_leg venue ''BUY'' ''PERP'' notional slippageBps (vd_markPrice d * 1.005)]
       (fund_expected (vd_fundingRate d * 10000) annualNetPct (notional * vd_feeBpsTaker d * 2 / 10000) notional)
       ''MED'' True (reverse_key sy venue)"

definition buildDiffIntent ::
  "FundEngine \<Rightarrow> string \<Rightarrow> string \<Rightarrow> string \<Rightarrow> string \<Rightarrow> string \<Rightarrow> venueData \<Rightarrow> venueData \<Rightarrow> float64 \<Rightarrow> float64
     \<Rightarrow> float64 \<Rightarrow> float64 \<Rightarrow> float64 \<Rightarrow> int64 \<Rightarrow> TradeIntent" where
  "buildDiffIntent e uuid tenantID sy longVenue shortVenue dLong dShort notional annualNetPct diffBps midPrice
       slippageBps nowMs =
     fund_intent e tenantID uuid ''FUNDING_DIFFERENTIAL'' sy nowMs
       [fund_leg longVenue ''BUY'' ''PERP'' notional slippageBps (midPrice * 1.005),
        fund_leg shortVenue ''SELL'' ''PERP'' notional slippageBps (midPrice * 0.995)]
       (fund_expected diffBps annualNetPct
          (notional * (vd_feeBpsTaker dLong + vd_feeBpsTaker dShort) * 2 / 10000) notional)
       ''MED'' True (diff_key sy longVenue shortVenue)"

section \<open>Entries\<close>

definition fund_reject :: "string \<Rightarrow> FundEngine \<Rightarrow> FundEngine" where
  "fund_reject reason e = e\<lparr>fe_Rejected := (fe_Rejected e)(reason := fe_Rejected e reason + 1)\<rparr>"

definition fund_emitted :: "string \<Rightarrow> FundEngine \<Rightarrow> FundEngine" where
  "fund_emitted key e = e\<lparr>fe_Emitted := (fe_Emitted e)(key := fe_Emitted e key + 1)\<rparr>"

definition fund_mark :: "string \<Rightarrow> int64 \<Rightarrow> FundEngine \<Rightarrow> FundEngine" where
  "fund_mark key nowMs e = e\<lparr>fe_cooldown := (fe_cooldown e)(key \<mapsto> nowMs)\<rparr>"

text \<open>The annual net yield in percent after four legs of fees and slippage, from the 8 hour rate.\<close>

definition net_yield :: "float64 \<Rightarrow> float64 \<Rightarrow> float64 \<Rightarrow> float64" where
  "net_yield rate feeBps slipBps = rate * 3 * 365 * 100 - feeBps * 4 / 10000 * 100 - slipBps * 4 / 10000 * 100"

definition carry_notional :: "FundEngine \<Rightarrow> string \<Rightarrow> string \<Rightarrow> float64" where
  "carry_notional e ven sy = applyStageNotional e sy (applyVolGate e ven sy (maxNotional (fe_policy e) sy))"

definition carry_step ::
  "(nat \<Rightarrow> 8 word list) \<Rightarrow> string \<Rightarrow> int64 \<Rightarrow> bool \<Rightarrow> string \<Rightarrow> FundEngine \<times> TradeIntent list \<Rightarrow> string \<times> venueData
     \<Rightarrow> FundEngine \<times> TradeIntent list" where
  "carry_step rnd tenantID nowMs nearReset sy r x =
     (case (r, x) of ((e, intents), (ven, d)) \<Rightarrow>
       if vd_markPrice d = 0 \<or> vd_fundingRate d = 0 then (e, intents)
       else if volatile e ven sy then (fund_reject ''carry_volatile_regime'' e, intents)
       else if nearReset then (fund_reject ''carry_near_reset'' e, intents)
       else
         (let annualNetPct = net_yield (vd_fundingRate d) (vd_feeBpsTaker d) (fund_maxSlippage (fe_policy e) sy) in
          if annualNetPct < minYield e sy annualNetPct then (fund_reject ''carry_below_threshold'' e, intents)
          else if fund_onCooldown e (carry_key sy ven) nowMs then (fund_reject ''carry_cooldown'' e, intents)
          else if effectiveStage e sy = StageObserve then (fund_emitted ''carry_observe'' e, intents)
          else
            (let intent = applyStageConstraints e sy
                   (buildCarryIntent e (fund_newUUID (rnd (length intents))) tenantID sy ven d
                      (carry_notional e ven sy) annualNetPct (fund_maxSlippage (fe_policy e) sy) nowMs)
             in (fund_emitted ''FUNDING_CARRY'' (fund_mark (carry_key sy ven) nowMs e), intents @ [intent]))))"

definition reverse_step ::
  "(nat \<Rightarrow> 8 word list) \<Rightarrow> string \<Rightarrow> int64 \<Rightarrow> bool \<Rightarrow> string \<Rightarrow> FundEngine \<times> TradeIntent list \<Rightarrow> string \<times> venueData
     \<Rightarrow> FundEngine \<times> TradeIntent list" where
  "reverse_step rnd tenantID nowMs nearReset sy r x =
     (case (r, x) of ((e, intents), (ven, d)) \<Rightarrow>
       if vd_markPrice d = 0 \<or> vd_fundingRate d = 0 then (e, intents)
       else if vd_fundingRate d \<ge> 0 then (e, intents)
       else if volatile e ven sy then (fund_reject ''reverse_carry_volatile_regime'' e, intents)
       else if nearReset then (fund_reject ''reverse_carry_near_reset'' e, intents)
       else
         (let annualNetPct = net_yield (- vd_fundingRate d) (vd_feeBpsTaker d) (fund_maxSlippage (fe_policy e) sy) in
          if annualNetPct < minYield e sy annualNetPct
          then (fund_reject ''reverse_carry_below_threshold'' e, intents)
          else if fund_onCooldown e (reverse_key sy ven) nowMs then (fund_reject ''reverse_carry_cooldown'' e, intents)
          else if effectiveStage e sy = StageObserve then (fund_emitted ''reverse_carry_observe'' e, intents)
          else
            (let intent = applyStageConstraints e sy
                   (buildReverseCarryIntent e (fund_newUUID (rnd (length intents))) tenantID sy ven d
                      (carry_notional e ven sy) annualNetPct (fund_maxSlippage (fe_policy e) sy) nowMs)
             in (fund_emitted ''FUNDING_CARRY_REVERSE'' (fund_mark (reverse_key sy ven) nowMs e),
                 intents @ [intent]))))"

text \<open>The pairs of venues, each with the later ones.\<close>

fun venue_pairs :: "string list \<Rightarrow> (string \<times> string) list" where
  "venue_pairs [] = []"
| "venue_pairs (v # vs) = map (\<lambda>w. (v, w)) vs @ venue_pairs vs"

definition diff_notional :: "FundEngine \<Rightarrow> string \<Rightarrow> string \<Rightarrow> string \<Rightarrow> float64" where
  "diff_notional e vA vB sy =
     applyStageNotional e sy (applyVolGate e vB sy (applyVolGate e vA sy (maxNotional (fe_policy e) sy)))"

definition diff_step ::
  "(nat \<Rightarrow> 8 word list) \<Rightarrow> string \<Rightarrow> int64 \<Rightarrow> bool \<Rightarrow> string \<Rightarrow> (string \<times> venueData) list \<Rightarrow> FundEngine \<times> TradeIntent list
     \<Rightarrow> string \<times> string \<Rightarrow> FundEngine \<times> TradeIntent list" where
  "diff_step rnd tenantID nowMs nearReset sy venueMap r x =
     (case (r, x) of ((e, intents), (v1, v2)) \<Rightarrow>
       (case (map_of venueMap v1, map_of venueMap v2) of
          (Some d1, Some d2) \<Rightarrow>
            (if vd_markPrice d1 = 0 \<or> vd_markPrice d2 = 0 then (e, intents)
             else if volatile e v1 sy \<or> volatile e v2 sy then (fund_reject ''diff_volatile_regime'' e, intents)
             else
               (let (vA, dA, vB, dB) = (if vd_fundingRate d1 > vd_fundingRate d2 then (v2, d2, v1, d1)
                                        else (v1, d1, v2, d2));
                    diffBps = (vd_fundingRate dB - vd_fundingRate dA) * 10000 in
                if diffBps < fp_MinDifferentialBps8h (fe_policy e) then (e, intents)
                else
                  (let annualNetPct = net_yield (vd_fundingRate dB - vd_fundingRate dA)
                         (vd_feeBpsTaker dA + vd_feeBpsTaker dB) (fund_maxSlippage (fe_policy e) sy) in
                   if annualNetPct < minYield e sy annualNetPct
                   then (fund_reject ''diff_below_threshold'' e, intents)
                   else if nearReset then (fund_reject ''diff_near_reset'' e, intents)
                   else if fund_onCooldown e (diff_key sy vA vB) nowMs then (fund_reject ''diff_cooldown'' e, intents)
                   else if effectiveStage e sy = StageObserve then (fund_emitted ''diff_observe'' e, intents)
                   else
                     (let intent = applyStageConstraints e sy
                            (buildDiffIntent e (fund_newUUID (rnd (length intents))) tenantID sy vA vB dA dB
                               (diff_notional e vA vB sy) annualNetPct diffBps
                               ((vd_markPrice dA + vd_markPrice dB) / 2)
                               (fund_maxSlippage (fe_policy e) sy) nowMs)
                      in (fund_emitted ''FUNDING_DIFFERENTIAL'' (fund_mark (diff_key sy vA vB) nowMs e),
                          intents @ [intent])))))
        | _ \<Rightarrow> (e, intents)))"

definition fund_symbol ::
  "(nat \<Rightarrow> (string \<times> venueData) list \<Rightarrow> (string \<times> venueData) list) \<Rightarrow> (nat \<Rightarrow> 8 word list) \<Rightarrow> string \<Rightarrow> int64 \<Rightarrow> bool
     \<Rightarrow> FundEngine \<times> TradeIntent list \<Rightarrow> string \<Rightarrow> FundEngine \<times> TradeIntent list" where
  "fund_symbol ord rnd tenantID nowMs nearReset r sy =
     (let venueMap = map_get [] (fe_state (fst r)) sy;
          r = foldl (carry_step rnd tenantID nowMs nearReset sy) r (ord 0 venueMap);
          r = foldl (reverse_step rnd tenantID nowMs nearReset sy) r (ord 1 venueMap)
      in foldl (diff_step rnd tenantID nowMs nearReset sy venueMap) r (venue_pairs (fp_Venues (fe_policy (fst r)))))"

definition ms_of :: "go_time \<Rightarrow> int64" where
  "ms_of t = t div 10 ^ 6"

definition FundEvaluate ::
  "(nat \<Rightarrow> (string \<times> venueData) list \<Rightarrow> (string \<times> venueData) list) \<Rightarrow> (nat \<Rightarrow> 8 word list) \<Rightarrow> go_time \<Rightarrow> string
     \<Rightarrow> FundEngine \<Rightarrow> FundEngine \<times> TradeIntent list" where
  "FundEvaluate ord rnd now tenantID e =
     foldl (fund_symbol ord rnd tenantID (ms_of now) (IsNearReset (fe_scheduler e) now (30 * minute_ns)))
       (e, []) (fp_Symbols (fe_policy e))"

section \<open>Exits\<close>

record OpenPosition =
  op_Strategy :: string
  op_Symbol :: string
  op_Venue :: string
  op_LongVenue :: string
  op_ShortVenue :: string
  op_NotionalUSD :: float64
  op_EntryRateBps :: float64
  op_EntryTsMs :: int64

text \<open>The volatility check of the exits.\<close>

definition vol_spike :: "FundEngine \<Rightarrow> string \<Rightarrow> string \<Rightarrow> bool" where
  "vol_spike e venue symbol \<longleftrightarrow>
     vg_VolThresholdPct (fp_VolatilityGate (fe_policy e)) > 0 \<and>
     RealizedVol (fe_volTracker e) venue symbol > vg_VolThresholdPct (fp_VolatilityGate (fe_policy e))"

text \<open>The reason of an exit; the empty string is none.\<close>

definition carry_exit_reason :: "FundEngine \<Rightarrow> OpenPosition \<Rightarrow> go_time \<Rightarrow> venueData \<Rightarrow> string" where
  "carry_exit_reason e pos now d =
     (if op_EntryRateBps pos > 0 \<and> vd_fundingRate d < 0 then ''FUNDING_INVERTED''
      else if volatile e (op_Venue pos) (op_Symbol pos) then ''REGIME_VOLATILE''
      else if vol_spike e (op_Venue pos) (op_Symbol pos) then ''VOLATILITY_SPIKE''
      else if vd_fundingRate d < 0 \<and> IsNearReset (fe_scheduler e) now (30 * minute_ns) then ''NEAR_RESET_NEGATIVE''
      else '''')"

definition reverse_exit_reason :: "FundEngine \<Rightarrow> OpenPosition \<Rightarrow> venueData \<Rightarrow> string" where
  "reverse_exit_reason e pos d =
     (if op_EntryRateBps pos < 0 \<and> vd_fundingRate d > 0 then ''FUNDING_INVERTED''
      else if volatile e (op_Venue pos) (op_Symbol pos) then ''REGIME_VOLATILE''
      else if vol_spike e (op_Venue pos) (op_Symbol pos) then ''VOLATILITY_SPIKE''
      else '''')"

definition diff_exit_reason :: "FundEngine \<Rightarrow> OpenPosition \<Rightarrow> venueData \<Rightarrow> venueData \<Rightarrow> string" where
  "diff_exit_reason e pos dLong dShort =
     (if (vd_fundingRate dShort - vd_fundingRate dLong) * 10000 < 0 then ''FUNDING_INVERTED''
      else if volatile e (op_LongVenue pos) (op_Symbol pos) \<or> volatile e (op_ShortVenue pos) (op_Symbol pos)
      then ''REGIME_VOLATILE''
      else '''')"

definition evaluateCarryExit ::
  "8 word list \<Rightarrow> string \<Rightarrow> OpenPosition \<Rightarrow> go_time \<Rightarrow> int64 \<Rightarrow> FundEngine \<Rightarrow> FundEngine \<times> TradeIntent option" where
  "evaluateCarryExit rnd tenantID pos now nowMs e =
     (case fe_state e (op_Symbol pos) of
        None \<Rightarrow> (e, None)
      | Some venueMap \<Rightarrow>
          (case map_of venueMap (op_Venue pos) of
             None \<Rightarrow> (e, None)
           | Some d \<Rightarrow>
               (if carry_exit_reason e pos now d = '''' then (e, None)
                else
                  (let slip = fp_MaxSlippageBps (fe_policy e) in
                   (fund_emitted ''FUNDING_CARRY_EXIT'' e,
                    Some (fund_intent e tenantID (fund_newUUID rnd) ''FUNDING_CARRY_EXIT'' (op_Symbol pos) nowMs
                      [fund_leg (op_Venue pos) ''SELL'' ''SPOT'' (op_NotionalUSD pos) slip (vd_markPrice d * 0.995),
                       fund_leg (op_Venue pos) ''BUY'' ''PERP'' (op_NotionalUSD pos) slip (vd_markPrice d * 1.005)]
                      no_expected ''LOW'' False
                      (''exit:carry:'' @ op_Symbol pos @ '':'' @ op_Venue pos)))))))"

definition evaluateReverseCarryExit ::
  "8 word list \<Rightarrow> string \<Rightarrow> OpenPosition \<Rightarrow> go_time \<Rightarrow> int64 \<Rightarrow> FundEngine \<Rightarrow> FundEngine \<times> TradeIntent option" where
  "evaluateReverseCarryExit rnd tenantID pos now nowMs e =
     (case fe_state e (op_Symbol pos) of
        None \<Rightarrow> (e, None)
      | Some venueMap \<Rightarrow>
          (case map_of venueMap (op_Venue pos) of
             None \<Rightarrow> (e, None)
           | Some d \<Rightarrow>
               (if reverse_exit_reason e pos d = '''' then (e, None)
                else
                  (let slip = fp_MaxSlippageBps (fe_policy e) in
                   (fund_emitted ''FUNDING_CARRY_REVERSE_EXIT'' e,
                    Some (fund_intent e tenantID (fund_newUUID rnd) ''FUNDING_CARRY_REVERSE_EXIT'' (op_Symbol pos) nowMs
                      [fund_leg (op_Venue pos) ''BUY'' ''SPOT'' (op_NotionalUSD pos) slip (vd_markPrice d * 1.005),
                       fund_leg (op_Venue pos) ''SELL'' ''PERP'' (op_NotionalUSD pos) slip (vd_markPrice d * 0.995)]
                      no_expected ''LOW'' False
                      (''exit:reverse_carry:'' @ op_Symbol pos @ '':'' @ op_Venue pos)))))))"

definition evaluateDiffExit ::
  "8 word list \<Rightarrow> string \<Rightarrow> OpenPosition \<Rightarrow> go_time \<Rightarrow> int64 \<Rightarrow> FundEngine \<Rightarrow> FundEngine \<times> TradeIntent option" where
  "evaluateDiffExit rnd tenantID pos now nowMs e =
     (case fe_state e (op_Symbol pos) of
        None \<Rightarrow> (e, None)
      | Some venueMap \<Rightarrow>
          (case (map_of venueMap (op_LongVenue pos), map_of venueMap (op_ShortVenue pos)) of
             (Some dLong, Some dShort) \<Rightarrow>
               (if diff_exit_reason e pos dLong dShort = '''' then (e, None)
                else
                  (let slip = fp_MaxSlippageBps (fe_policy e);
                       midPrice = (vd_markPrice dLong + vd_markPrice dShort) / 2 in
                   (fund_emitted ''FUNDING_DIFFERENTIAL_EXIT'' e,
                    Some (fund_intent e tenantID (fund_newUUID rnd) ''FUNDING_DIFFERENTIAL_EXIT'' (op_Symbol pos) nowMs
                      [fund_leg (op_LongVenue pos) ''SELL'' ''PERP'' (op_NotionalUSD pos) slip (midPrice * 0.995),
                       fund_leg (op_ShortVenue pos) ''BUY'' ''PERP'' (op_NotionalUSD pos) slip (midPrice * 1.005)]
                      no_expected ''LOW'' False
                      (''exit:diff:'' @ op_Symbol pos @ '':'' @ op_LongVenue pos @ '':'' @ op_ShortVenue pos)))))
           | _ \<Rightarrow> (e, None)))"

definition exit_step ::
  "(nat \<Rightarrow> 8 word list) \<Rightarrow> string \<Rightarrow> go_time \<Rightarrow> FundEngine \<times> TradeIntent list \<Rightarrow> OpenPosition \<Rightarrow> FundEngine \<times> TradeIntent list" where
  "exit_step rnd tenantID now r pos =
     (case r of (e, intents) \<Rightarrow>
       (let u = rnd (length intents);
            (e, intent) =
              (if op_Strategy pos = ''FUNDING_CARRY'' then evaluateCarryExit u tenantID pos now (ms_of now) e
               else if op_Strategy pos = ''FUNDING_DIFFERENTIAL'' then evaluateDiffExit u tenantID pos now (ms_of now) e
               else if op_Strategy pos = ''FUNDING_CARRY_REVERSE''
               then evaluateReverseCarryExit u tenantID pos now (ms_of now) e
               else (e, None))
        in case intent of None \<Rightarrow> (e, intents) | Some i \<Rightarrow> (e, intents @ [i])))"

definition EvaluateExits ::
  "(nat \<Rightarrow> 8 word list) \<Rightarrow> go_time \<Rightarrow> string \<Rightarrow> OpenPosition list \<Rightarrow> FundEngine \<Rightarrow> FundEngine \<times> TradeIntent list" where
  "EvaluateExits rnd now tenantID positions e = foldl (exit_step rnd tenantID now) (e, []) positions"

section \<open>Open positions\<close>

text \<open>The tracked positions by key, in the order in which a range statement would meet them.\<close>

type_synonym PositionTracker = "(string \<times> OpenPosition) list"

definition NewPositionTracker :: PositionTracker where
  "NewPositionTracker = []"

definition new_position :: "string \<Rightarrow> string \<Rightarrow> string \<Rightarrow> OpenPosition" where
  "new_position strategy symbol venue =
     \<lparr>op_Strategy = strategy, op_Symbol = symbol, op_Venue = venue, op_LongVenue = '''', op_ShortVenue = '''',
      op_NotionalUSD = 0, op_EntryRateBps = 0, op_EntryTsMs = 0\<rparr>"

text \<open>\<open>processCarryEntry\<close> and \<open>processReverseCarryEntry\<close> differ in strategy and key.\<close>

definition process_entry :: "string \<Rightarrow> string \<Rightarrow> ExecutionEvent \<Rightarrow> PositionTracker \<Rightarrow> PositionTracker" where
  "process_entry strategy key ev pt =
     (let pos = (case map_of pt key of
                   None \<Rightarrow> new_position strategy (ee_Symbol ev) (ee_Venue ev) | Some pos \<Rightarrow> pos);
          pos = pos\<lparr>op_NotionalUSD := op_NotionalUSD pos + ee_FilledNotionalUSD ev\<rparr>;
          pos = (if op_EntryRateBps pos = 0 then pos\<lparr>op_EntryTsMs := ee_TsMs ev\<rparr> else pos)
      in AList.update key pos pt)"

definition processCarryEntry :: "ExecutionEvent \<Rightarrow> PositionTracker \<Rightarrow> PositionTracker" where
  "processCarryEntry ev pt = process_entry ''FUNDING_CARRY'' (carry_key (ee_Symbol ev) (ee_Venue ev)) ev pt"

definition processReverseCarryEntry :: "ExecutionEvent \<Rightarrow> PositionTracker \<Rightarrow> PositionTracker" where
  "processReverseCarryEntry ev pt =
     process_entry ''FUNDING_CARRY_REVERSE'' (reverse_key (ee_Symbol ev) (ee_Venue ev)) ev pt"

definition processCarryExit :: "ExecutionEvent \<Rightarrow> PositionTracker \<Rightarrow> PositionTracker" where
  "processCarryExit ev pt =
     (let key = (if ee_Strategy ev = ''FUNDING_CARRY_REVERSE_EXIT'' then reverse_key (ee_Symbol ev) (ee_Venue ev)
                 else carry_key (ee_Symbol ev) (ee_Venue ev)) in
      case map_of pt key of
        None \<Rightarrow> pt
      | Some pos \<Rightarrow>
          (let pos = pos\<lparr>op_NotionalUSD := op_NotionalUSD pos - ee_FilledNotionalUSD ev\<rparr>
           in if op_NotionalUSD pos \<le> 0 then AList.delete key pt else AList.update key pos pt))"

definition processDiffEntry :: "ExecutionEvent \<Rightarrow> PositionTracker \<Rightarrow> PositionTracker" where
  "processDiffEntry ev pt =
     (let intentKey = ''diff-intent:'' @ ee_IntentID ev;
          pos = (case map_of pt intentKey of
                   None \<Rightarrow> (new_position ''FUNDING_DIFFERENTIAL'' (ee_Symbol ev) '''')
                             \<lparr>op_NotionalUSD := ee_FilledNotionalUSD ev, op_EntryTsMs := ee_TsMs ev\<rparr>
                 | Some pos \<Rightarrow> pos);
          pos = (if ee_Action ev = ''BUY'' then pos\<lparr>op_LongVenue := ee_Venue ev\<rparr>
                 else pos\<lparr>op_ShortVenue := ee_Venue ev\<rparr>);
          pos = pos\<lparr>op_NotionalUSD := ee_FilledNotionalUSD ev\<rparr>
      in if op_LongVenue pos \<noteq> '''' \<and> op_ShortVenue pos \<noteq> ''''
         then AList.delete intentKey
                (AList.update (diff_key (ee_Symbol ev) (op_LongVenue pos) (op_ShortVenue pos)) pos pt)
         else AList.update intentKey pos pt)"

definition diff_exit_matches :: "ExecutionEvent \<Rightarrow> OpenPosition \<Rightarrow> bool" where
  "diff_exit_matches ev pos \<longleftrightarrow>
     op_Strategy pos = ''FUNDING_DIFFERENTIAL'' \<and> op_Symbol pos = ee_Symbol ev \<and>
     (op_LongVenue pos = ee_Venue ev \<or> op_ShortVenue pos = ee_Venue ev)"

definition processDiffExit :: "ExecutionEvent \<Rightarrow> PositionTracker \<Rightarrow> PositionTracker" where
  "processDiffExit ev pt =
     (case List.find (\<lambda>(key, pos). diff_exit_matches ev pos) pt of
        None \<Rightarrow> pt
      | Some (key, pos) \<Rightarrow>
          (let pos = pos\<lparr>op_NotionalUSD := op_NotionalUSD pos - ee_FilledNotionalUSD ev\<rparr>
           in if op_NotionalUSD pos \<le> 0 then AList.delete key pt else AList.update key pos pt))"

definition ProcessEvent :: "ExecutionEvent \<Rightarrow> PositionTracker \<Rightarrow> PositionTracker" where
  "ProcessEvent ev pt =
     (let s = ee_Strategy ev in
      if ee_EventType ev \<noteq> ''ORDER_FILLED'' then pt
      else if s = ''FUNDING_CARRY'' then processCarryEntry ev pt
      else if s = ''FUNDING_CARRY_EXIT'' then processCarryExit ev pt
      else if s = ''FUNDING_CARRY_REVERSE'' then processReverseCarryEntry ev pt
      else if s = ''FUNDING_CARRY_REVERSE_EXIT'' then processCarryExit ev pt
      else if s = ''FUNDING_DIFFERENTIAL'' then processDiffEntry ev pt
      else if s = ''FUNDING_DIFFERENTIAL_EXIT'' then processDiffExit ev pt
      else pt)"

definition OpenPositions :: "PositionTracker \<Rightarrow> OpenPosition list" where
  "OpenPositions pt =
     filter (\<lambda>pos. \<not> (op_Strategy pos = ''FUNDING_DIFFERENTIAL'' \<and> (op_LongVenue pos = '''' \<or> op_ShortVenue pos = '''')) \<and>
                   op_NotionalUSD pos > 0) (map snd pt)"

definition UpdateEntryRate :: "string \<Rightarrow> string \<Rightarrow> string \<Rightarrow> float64 \<Rightarrow> PositionTracker \<Rightarrow> PositionTracker" where
  "UpdateEntryRate strategy symbol venue rateBps pt =
     (if strategy = ''FUNDING_CARRY'' \<or> strategy = ''FUNDING_CARRY_REVERSE''
      then (let key = (if strategy = ''FUNDING_CARRY'' then carry_key symbol venue else reverse_key symbol venue) in
            case map_of pt key of
              None \<Rightarrow> pt
            | Some pos \<Rightarrow> AList.update key (pos\<lparr>op_EntryRateBps := rateBps\<rparr>) pt)
      else pt)"

section \<open>The service\<close>

text \<open>
  The loop of main.go: execution events (read by a second goroutine), the exit signal, the
  evaluation ticker and the reading of quotes.  The kill switch, the mode and the stage overrides
  are what the bus answers.
\<close>

datatype fund_event =
    FillEvents "ExecutionEvent list"
  | ExitSignal bool go_time
  | EvalTick bool string "(string \<rightharpoonup> string) option" go_time
  | ReadQuotes bool "(int64 \<times> Quote) list"

definition evaluateExitsNow ::
  "(nat \<Rightarrow> 8 word list) \<Rightarrow> string \<Rightarrow> go_time \<Rightarrow> FundEngine \<Rightarrow> PositionTracker \<Rightarrow> FundEngine \<times> TradeIntent list" where
  "evaluateExitsNow rnd tenantID now e pt =
     (if OpenPositions pt = [] then (e, []) else EvaluateExits rnd now tenantID (OpenPositions pt) e)"

fun fund_main ::
  "(nat \<Rightarrow> (string \<times> venueData) list \<Rightarrow> (string \<times> venueData) list) \<Rightarrow> (nat \<Rightarrow> 8 word list) \<Rightarrow> string
     \<Rightarrow> FundEngine \<times> PositionTracker \<Rightarrow> fund_event \<Rightarrow> (FundEngine \<times> PositionTracker) \<times> TradeIntent list" where
  "fund_main ord rnd tenantID (e, pt) (FillEvents evs) = ((e, foldl (\<lambda>pt ev. ProcessEvent ev pt) pt evs), [])"
| "fund_main ord rnd tenantID (e, pt) (ExitSignal kill now) =
     (let e = e\<lparr>fe_exitSignal := False\<rparr> in
      if kill then ((e, pt), [])
      else (let (e, intents) = evaluateExitsNow rnd tenantID now e pt in ((e, pt), intents)))"
| "fund_main ord rnd tenantID (e, pt) (EvalTick kill mode stages now) =
     (if kill then ((e, pt), [])
      else if mode \<noteq> ''RUNNING'' then ((e, pt), [])
      else
        (let e = (case stages of None \<Rightarrow> e | Some m \<Rightarrow> SetRuntimeStages (Some m) e);
             (e, entries) = FundEvaluate ord rnd now tenantID e;
             (e, exits) = evaluateExitsNow (\<lambda>k. rnd (length entries + k)) tenantID now e pt
         in ((e, pt), entries @ exits)))"
| "fund_main ord rnd tenantID (e, pt) (ReadQuotes kill quotes) =
     (if kill then ((e, pt), []) else ((foldl (\<lambda>e (now, q). UpdateQuote now q e) e quotes, pt), []))"

section \<open>What an evaluation leaves alone\<close>

definition fund_frame :: "FundEngine \<Rightarrow> FundEngine \<Rightarrow> bool" where
  "fund_frame e e' \<longleftrightarrow> fe_policy e' = fe_policy e \<and> fe_state e' = fe_state e \<and> fe_forecaster e' = fe_forecaster e \<and>
     fe_volTracker e' = fe_volTracker e \<and> fe_scheduler e' = fe_scheduler e \<and> fe_runtimeStages e' = fe_runtimeStages e"

lemma fund_frame_refl [simp]: "fund_frame e e"
  by (simp add: fund_frame_def)

lemma fund_frame_cong:
  assumes "fund_frame e e'"
  shows "fe_policy e' = fe_policy e" "fe_state e' = fe_state e" "volatile e' = volatile e"
    "effectiveStage e' = effectiveStage e" "minYield e' = minYield e" "carry_notional e' = carry_notional e"
    "diff_notional e' = diff_notional e" "applyStageConstraints e' = applyStageConstraints e"
    "vol_spike e' = vol_spike e" "fe_scheduler e' = fe_scheduler e"
proof -
  show p: "fe_policy e' = fe_policy e" "fe_state e' = fe_state e" "fe_scheduler e' = fe_scheduler e"
    using assms by (simp_all add: fund_frame_def)
  show "volatile e' = volatile e" using assms by (simp add: fund_frame_def volatile_def fun_eq_iff)
  show st: "effectiveStage e' = effectiveStage e"
    using assms by (simp add: fund_frame_def effectiveStage_def fun_eq_iff split: option.split)
  show "minYield e' = minYield e" using p by (simp add: minYield_def fun_eq_iff)
  have v: "applyVolGate e' = applyVolGate e" "applyStageNotional e' = applyStageNotional e"
    using assms st by (simp_all add: applyVolGate_def applyStageNotional_def fund_frame_def fun_eq_iff Let_def)
  show "carry_notional e' = carry_notional e" "diff_notional e' = diff_notional e"
    using p v by (simp_all add: carry_notional_def diff_notional_def fun_eq_iff)
  show "applyStageConstraints e' = applyStageConstraints e"
    using st by (simp add: applyStageConstraints_def fun_eq_iff)
  show "vol_spike e' = vol_spike e" using assms by (simp add: vol_spike_def fund_frame_def fun_eq_iff)
qed

lemma fund_updates_simps [simp]:
  "fund_frame e (fund_reject r e') \<longleftrightarrow> fund_frame e e'" "fund_frame e (fund_emitted s e') \<longleftrightarrow> fund_frame e e'"
  "fund_frame e (fund_mark k t e') \<longleftrightarrow> fund_frame e e'"
  "fe_cooldown (fund_reject r e') = fe_cooldown e'" "fe_cooldown (fund_emitted s e') = fe_cooldown e'"
  "fe_cooldown (fund_mark k t e') = (fe_cooldown e')(k \<mapsto> t)"
  by (simp_all add: fund_frame_def fund_reject_def fund_emitted_def fund_mark_def)

interpretation fund_cooldown: cooldown_gate
  "\<lambda>g k now ttl. case g k of None \<Rightarrow> False | Some t \<Rightarrow> now - t < ttl" "\<lambda>g k t. g(k \<mapsto> t)"
  by unfold_locales simp_all

lemma fund_onCooldown_gate:
  "fund_onCooldown e k now \<longleftrightarrow>
     (case fe_cooldown e k of None \<Rightarrow> False | Some t \<Rightarrow> now - t < fp_CooldownS (fe_policy e) * 1000)"
  by (simp add: fund_onCooldown_def)

section \<open>What an emitted intent satisfies\<close>

definition hedged :: "TradeIntent \<Rightarrow> float64 \<Rightarrow> bool" where
  "hedged i n \<longleftrightarrow> map tl_NotionalUSD (ti_Legs i) = [n, n] \<and>
     map tl_Action (ti_Legs i) \<in> {[''BUY'', ''SELL''], [''SELL'', ''BUY'']}"

definition entry_key :: "TradeIntent \<Rightarrow> string" where
  "entry_key i = ic_CooldownKey (ti_Constraints i)"

definition entry_ok :: "FundEngine \<Rightarrow> int64 \<Rightarrow> bool \<Rightarrow> TradeIntent \<Rightarrow> bool" where
  "entry_ok e nowMs nearReset i \<longleftrightarrow>
     (let sy = ti_Symbol i; y = em_AnnualYieldPctNet (ti_Expected i) in
      \<not> nearReset \<and> effectiveStage e sy \<noteq> StageObserve \<and> minYield e sy y \<le> y \<and>
      (ic_ForcePaperMode (ti_Constraints i) \<longleftrightarrow> effectiveStage e sy = StagePaper) \<and>
      ti_ExpiresMs i = nowMs + fp_IntentTTLMs (fe_policy e) \<and>
      (\<forall>l\<in>set (ti_Legs i). \<not> volatile e (tl_Venue l) sy) \<and>
      (\<exists>v w. hedged i (carry_notional e v sy) \<or> hedged i (diff_notional e v w sy)))"

lemma build_simps [simp]:
  "ti_Symbol (applyStageConstraints e s i) = ti_Symbol i" "ti_Expected (applyStageConstraints e s i) = ti_Expected i"
  "ti_ExpiresMs (applyStageConstraints e s i) = ti_ExpiresMs i" "ti_Legs (applyStageConstraints e s i) = ti_Legs i"
  "entry_key (applyStageConstraints e s i) = entry_key i"
  "ic_ForcePaperMode (ti_Constraints (applyStageConstraints e s i)) \<longleftrightarrow>
     effectiveStage e s = StagePaper \<or> ic_ForcePaperMode (ti_Constraints i)"
  by (simp_all add: applyStageConstraints_def entry_key_def)

lemmas fund_intent_defs = fund_intent_def fund_expected_def no_expected_def fund_leg_def

lemma carry_entry_ok:
  assumes "fund_frame e e'" "\<not> volatile e ven sy" "effectiveStage e sy \<noteq> StageObserve" "\<not> y < minYield e sy y"
  shows "entry_ok e nowMs False (applyStageConstraints e sy
      (buildCarryIntent e' u t sy ven d (carry_notional e ven sy) y sl nowMs))"
    "entry_ok e nowMs False (applyStageConstraints e sy
      (buildReverseCarryIntent e' u t sy ven d (carry_notional e ven sy) y sl nowMs))"
  using assms(2-4) fund_frame_cong(1) [OF assms(1)]
  by (auto simp: entry_ok_def buildCarryIntent_def buildReverseCarryIntent_def fund_intent_defs hedged_def Let_def)

lemma diff_entry_ok:
  assumes "fund_frame e e'" "\<not> volatile e vA sy" "\<not> volatile e vB sy" "effectiveStage e sy \<noteq> StageObserve"
    and "\<not> y < minYield e sy y"
  shows "entry_ok e nowMs False (applyStageConstraints e sy
      (buildDiffIntent e' u t sy vA vB dA dB (diff_notional e vA vB sy) y db m sl nowMs))"
  using assms(2-5) fund_frame_cong(1) [OF assms(1)]
  by (auto simp: entry_ok_def buildDiffIntent_def fund_intent_defs hedged_def Let_def)

text \<open>The keys marked in one evaluation are those of the intents emitted so far.\<close>

definition eval_inv :: "FundEngine \<Rightarrow> int64 \<Rightarrow> bool \<Rightarrow> FundEngine \<times> TradeIntent list \<Rightarrow> bool" where
  "eval_inv e nowMs nearReset r \<longleftrightarrow>
     fund_frame e (fst r) \<and>
     (\<forall>i\<in>set (snd r). entry_ok e nowMs nearReset i \<and>
        (0 < fp_CooldownS (fe_policy e) \<longrightarrow> \<not> fund_onCooldown e (entry_key i) nowMs)) \<and>
     fe_cooldown (fst r) = (\<lambda>k. if k \<in> entry_key ` set (snd r) then Some nowMs else fe_cooldown e k) \<and>
     (0 < fp_CooldownS (fe_policy e) \<longrightarrow> distinct (map entry_key (snd r)))"

lemma eval_inv_skip:
  assumes "eval_inv e nowMs nr (e', is)"
  shows "eval_inv e nowMs nr (fund_reject r e', is)" "eval_inv e nowMs nr (fund_emitted s e', is)"
  using assms by (simp_all add: eval_inv_def)

lemma eval_inv_emit:
  assumes "eval_inv e nowMs nr (e', is)" "entry_ok e nowMs nr i" "\<not> fund_onCooldown e' (entry_key i) nowMs"
  shows "eval_inv e nowMs nr (fund_emitted s (fund_mark (entry_key i) nowMs e'), is @ [i])"
proof -
  have cd: "fe_cooldown e' = (\<lambda>k. if k \<in> entry_key ` set is then Some nowMs else fe_cooldown e k)"
    and p: "fe_policy e' = fe_policy e"
    using assms(1) fund_frame_cong(1) by (simp_all add: eval_inv_def)
  have "0 < fp_CooldownS (fe_policy e) \<Longrightarrow> entry_key i \<notin> entry_key ` set is"
    using assms(3) by (auto simp: fund_onCooldown_def cd p)
  moreover from this have "0 < fp_CooldownS (fe_policy e) \<Longrightarrow> \<not> fund_onCooldown e (entry_key i) nowMs"
    using assms(3) unfolding fund_onCooldown_def cd p by simp
  ultimately show ?thesis using assms(1,2) by (auto simp: eval_inv_def fun_eq_iff)
qed

lemma entry_keys [simp]:
  "entry_key (buildCarryIntent e u t sy ven d n y sl nowMs) = carry_key sy ven"
  "entry_key (buildReverseCarryIntent e u t sy ven d n y sl nowMs) = reverse_key sy ven"
  "entry_key (buildDiffIntent e u t sy vA vB dA dB n y db m sl nowMs) = diff_key sy vA vB"
  by (simp_all add: entry_key_def buildCarryIntent_def buildReverseCarryIntent_def buildDiffIntent_def fund_intent_def)

lemma carry_step_inv:
  assumes "eval_inv e nowMs nr r"
  shows "eval_inv e nowMs nr (carry_step rnd t nowMs nr sy r x)"
proof -
  obtain e' "is" ven d where r: "r = (e', is)" "x = (ven, d)" by (cases r, cases x)
  then have f: "fund_frame e e'" using assms by (simp add: eval_inv_def)
  note c = fund_frame_cong [OF f]
  have inv: "eval_inv e nowMs nr (e', is)" using assms r(1) by simp
  define y where "y = net_yield (vd_fundingRate d) (vd_feeBpsTaker d) (fund_maxSlippage (fe_policy e) sy)"
  define i where "i = applyStageConstraints e sy
    (buildCarryIntent e' (fund_newUUID (rnd (length is))) t sy ven d (carry_notional e ven sy) y (fund_maxSlippage (fe_policy e) sy) nowMs)"
  have key: "entry_key i = carry_key sy ven" by (simp add: i_def)
  have "eval_inv e nowMs nr (fund_emitted ''FUNDING_CARRY'' (fund_mark (carry_key sy ven) nowMs e'), is @ [i])"
    if "\<not> volatile e ven sy" "\<not> nr" "\<not> y < minYield e sy y" "\<not> fund_onCooldown e' (carry_key sy ven) nowMs"
      "effectiveStage e sy \<noteq> StageObserve"
    using eval_inv_emit [OF inv, of i] carry_entry_ok(1) [OF f that(1,5,3)] that(2,4) unfolding key by (simp add: i_def)
  then show ?thesis
    unfolding r carry_step_def prod.case Let_def c y_def [symmetric] i_def [symmetric]
    using inv eval_inv_skip [OF inv] by (cases nr) (simp_all split: if_split)
qed

lemma reverse_step_inv:
  assumes "eval_inv e nowMs nr r"
  shows "eval_inv e nowMs nr (reverse_step rnd t nowMs nr sy r x)"
proof -
  obtain e' "is" ven d where r: "r = (e', is)" "x = (ven, d)" by (cases r, cases x)
  then have f: "fund_frame e e'" using assms by (simp add: eval_inv_def)
  note c = fund_frame_cong [OF f]
  have inv: "eval_inv e nowMs nr (e', is)" using assms r(1) by simp
  define y where "y = net_yield (- vd_fundingRate d) (vd_feeBpsTaker d) (fund_maxSlippage (fe_policy e) sy)"
  define i where "i = applyStageConstraints e sy
    (buildReverseCarryIntent e' (fund_newUUID (rnd (length is))) t sy ven d (carry_notional e ven sy) y (fund_maxSlippage (fe_policy e) sy) nowMs)"
  have key: "entry_key i = reverse_key sy ven" by (simp add: i_def)
  have "eval_inv e nowMs nr (fund_emitted ''FUNDING_CARRY_REVERSE'' (fund_mark (reverse_key sy ven) nowMs e'), is @ [i])"
    if "\<not> volatile e ven sy" "\<not> nr" "\<not> y < minYield e sy y" "\<not> fund_onCooldown e' (reverse_key sy ven) nowMs"
      "effectiveStage e sy \<noteq> StageObserve"
    using eval_inv_emit [OF inv, of i] carry_entry_ok(2) [OF f that(1,5,3)] that(2,4) unfolding key by (simp add: i_def)
  then show ?thesis
    unfolding r reverse_step_def prod.case Let_def c y_def [symmetric] i_def [symmetric]
    using inv eval_inv_skip [OF inv] by (cases nr) (simp_all split: if_split)
qed

lemma diff_step_inv:
  assumes "eval_inv e nowMs nr r"
  shows "eval_inv e nowMs nr (diff_step rnd t nowMs nr sy venueMap r x)"
proof -
  obtain e' "is" v1 v2 where r: "r = (e', is)" "x = (v1, v2)" by (cases r, cases x)
  then have f: "fund_frame e e'" using assms by (simp add: eval_inv_def)
  note c = fund_frame_cong [OF f]
  have inv: "eval_inv e nowMs nr (e', is)" using assms r(1) by simp
  show ?thesis
  proof (cases "map_of venueMap v1 = None \<or> map_of venueMap v2 = None")
    case True
    then show ?thesis using inv unfolding r diff_step_def prod.case by (auto split: option.split)
  next
    case False
    then obtain d1 d2 where d: "map_of venueMap v1 = Some d1" "map_of venueMap v2 = Some d2" by auto
    obtain vA dA vB dB where sw: "(if vd_fundingRate d1 > vd_fundingRate d2 then (v2, d2, v1, d1) else (v1, d1, v2, d2)) =
        (vA, dA, vB, dB)" and vs: "{vA, vB} = {v1, v2}"
      by (cases "vd_fundingRate d1 > vd_fundingRate d2") auto
    define y where "y = net_yield (vd_fundingRate dB - vd_fundingRate dA) (vd_feeBpsTaker dA + vd_feeBpsTaker dB)
      (fund_maxSlippage (fe_policy e) sy)"
    define i where "i = applyStageConstraints e sy (buildDiffIntent e' (fund_newUUID (rnd (length is))) t sy vA vB dA dB
      (diff_notional e vA vB sy) y ((vd_fundingRate dB - vd_fundingRate dA) * 10000)
      ((vd_markPrice dA + vd_markPrice dB) / 2) (fund_maxSlippage (fe_policy e) sy) nowMs)"
    have key: "entry_key i = diff_key sy vA vB" by (simp add: i_def)
    have "eval_inv e nowMs nr (fund_emitted ''FUNDING_DIFFERENTIAL'' (fund_mark (diff_key sy vA vB) nowMs e'), is @ [i])"
      if "\<not> (volatile e v1 sy \<or> volatile e v2 sy)" "\<not> nr" "\<not> y < minYield e sy y"
        "\<not> fund_onCooldown e' (diff_key sy vA vB) nowMs" "effectiveStage e sy \<noteq> StageObserve"
    proof -
      have "\<not> volatile e vA sy" "\<not> volatile e vB sy" using vs that(1) by (auto simp: doubleton_eq_iff)
      with eval_inv_emit [OF inv, of i] diff_entry_ok [OF f _ _ that(5,3)] that(2,4) show ?thesis
        unfolding key by (simp add: i_def)
    qed
    then show ?thesis
      unfolding r diff_step_def prod.case Let_def c d option.case sw y_def [symmetric] i_def [symmetric]
      using inv eval_inv_skip [OF inv] by (cases nr) (simp_all split: if_split)
  qed
qed

lemma fund_symbol_inv:
  assumes "eval_inv e nowMs nr r"
  shows "eval_inv e nowMs nr (fund_symbol ord rnd t nowMs nr r sy)"
proof -
  have fold: "eval_inv e nowMs nr (foldl f r xs)"
    if "\<And>r x. eval_inv e nowMs nr r \<Longrightarrow> eval_inv e nowMs nr (f r x)" "eval_inv e nowMs nr r"
    for f :: "FundEngine \<times> TradeIntent list \<Rightarrow> 'x \<Rightarrow> FundEngine \<times> TradeIntent list" and r and xs :: "'x list"
    by (rule machine.foldl_induct [where P = "eval_inv e nowMs nr"]) (use that in blast)+
  show ?thesis
    unfolding fund_symbol_def Let_def using assms
    by (intro fold diff_step_inv reverse_step_inv carry_step_inv)
qed

lemma FundEvaluate_inv:
  "eval_inv e (ms_of now) (IsNearReset (fe_scheduler e) now (30 * minute_ns)) (FundEvaluate ord rnd now t e)"
  unfolding FundEvaluate_def
  by (rule machine.foldl_induct [where P = "eval_inv e (ms_of now) (IsNearReset (fe_scheduler e) now (30 * minute_ns))"])
     (simp add: eval_inv_def, rule fund_symbol_inv)

section \<open>Sizes\<close>

lemma applyVolGate_le: "0 \<le> n \<Longrightarrow> applyVolGate e v s n \<in> {0..n}"
  by (auto simp: applyVolGate_def Let_def mult_left_le)

lemma applyStageNotional_le:
  "0 \<le> n \<Longrightarrow> sizeScale (fe_policy e) s \<in> {0..1} \<Longrightarrow> applyStageNotional e s n \<in> {0..n}"
  by (auto simp: applyStageNotional_def mult_left_le)

lemma entry_sizes:
  assumes "0 \<le> maxNotional (fe_policy e) s" "sizeScale (fe_policy e) s \<in> {0..1}"
  shows "carry_notional e v s \<in> {0..maxNotional (fe_policy e) s}" "diff_notional e v w s \<in> {0..maxNotional (fe_policy e) s}"
proof -
  let ?m = "maxNotional (fe_policy e) s"
  have a: "applyVolGate e v s ?m \<in> {0..?m}" using assms(1) by (rule applyVolGate_le)
  then have b: "applyVolGate e w s (applyVolGate e v s ?m) \<in> {0..applyVolGate e v s ?m}" by (intro applyVolGate_le) simp
  show "carry_notional e v s \<in> {0..?m}"
    unfolding carry_notional_def using a applyStageNotional_le [of "applyVolGate e v s ?m" e s] assms(2) by auto
  show "diff_notional e v w s \<in> {0..?m}"
    unfolding diff_notional_def
    using a b applyStageNotional_le [of "applyVolGate e w s (applyVolGate e v s ?m)" e s] assms(2) by auto
qed

text \<open>The threshold is the smaller of the two configured ones: the test passes from either of them.\<close>

lemma minYield_pass:
  "minYield e s y \<le> y \<longleftrightarrow>
     (case minYieldForSymbol (fe_policy e) s ''HIGH'' of Some t \<Rightarrow> t \<le> y | None \<Rightarrow> False) \<or>
     (case minYieldForSymbol (fe_policy e) s ''MED'' of Some t \<Rightarrow> t | None \<Rightarrow> 8) \<le> y"
  by (auto simp: minYield_def Let_def split: option.split)

section \<open>Exits\<close>

lemma exit_step_intents:
  "snd (exit_step rnd t now (e, is) pos) = is \<or>
     (\<exists>i. snd (exit_step rnd t now (e, is) pos) = is @ [i] \<and> hedged i (op_NotionalUSD pos) \<and>
        ti_Symbol i = op_Symbol pos \<and> ti_Strategy i = op_Strategy pos @ ''_EXIT'' \<and>
        \<not> ic_ForcePaperMode (ti_Constraints i))"
  by (simp add: exit_step_def Let_def evaluateCarryExit_def evaluateReverseCarryExit_def evaluateDiffExit_def
      fund_intent_defs hedged_def split: option.split)

section \<open>Runs of the service\<close>

definition fund_step ::
  "string \<Rightarrow> FundEngine \<times> PositionTracker
     \<Rightarrow> (nat \<Rightarrow> (string \<times> venueData) list \<Rightarrow> (string \<times> venueData) list) \<times> (nat \<Rightarrow> 8 word list) \<times> fund_event
     \<Rightarrow> FundEngine \<times> PositionTracker" where
  "fund_step t s x = (case x of (ord, rnd, ev) \<Rightarrow> fst (fund_main ord rnd t s ev))"

definition rates_unset :: "PositionTracker \<Rightarrow> bool" where
  "rates_unset pt \<longleftrightarrow> (\<forall>x\<in>set pt. op_EntryRateBps (snd x) = 0)"

lemma rates_unset_lookup: "rates_unset pt \<Longrightarrow> map_of pt key = Some pos \<Longrightarrow> op_EntryRateBps pos = 0"
  by (fastforce simp: rates_unset_def dest: map_of_SomeD)

lemma rates_unset_update: "rates_unset pt \<Longrightarrow> op_EntryRateBps pos = 0 \<Longrightarrow> rates_unset (AList.update key pos pt)"
  by (auto simp: rates_unset_def dest!: alist_update_set)

lemma rates_unset_delete: "rates_unset pt \<Longrightarrow> rates_unset (AList.delete key pt)"
  by (auto simp: rates_unset_def dest!: alist_delete_set)

lemma rates_unset_find:
  "rates_unset pt \<Longrightarrow> List.find P pt = Some (key, pos) \<Longrightarrow> op_EntryRateBps pos = 0"
  by (auto simp: rates_unset_def find_Some_iff) (metis nth_mem snd_conv)

lemmas rates_unset_intros = rates_unset_update rates_unset_delete

lemma process_entry_rates: "rates_unset pt \<Longrightarrow> rates_unset (process_entry s key ev pt)"
  by (auto simp: process_entry_def Let_def new_position_def intro!: rates_unset_intros
      split: option.split dest: rates_unset_lookup)

lemma process_exit_rates: "rates_unset pt \<Longrightarrow> rates_unset (processCarryExit ev pt)"
  unfolding processCarryExit_def Let_def
  by (auto intro!: rates_unset_intros split: option.split dest: rates_unset_lookup)

lemma process_diff_entry_rates: "rates_unset pt \<Longrightarrow> rates_unset (processDiffEntry ev pt)"
  unfolding processDiffEntry_def Let_def
  by (auto intro!: rates_unset_intros simp: new_position_def split: option.split dest: rates_unset_lookup)

lemma process_diff_exit_rates: "rates_unset pt \<Longrightarrow> rates_unset (processDiffExit ev pt)"
  unfolding processDiffExit_def Let_def
  by (auto intro!: rates_unset_intros split: option.split dest: rates_unset_find)

lemma ProcessEvent_rates: "rates_unset pt \<Longrightarrow> rates_unset (ProcessEvent ev pt)"
  by (simp add: ProcessEvent_def Let_def processCarryEntry_def processReverseCarryEntry_def
      process_entry_rates process_exit_rates process_diff_entry_rates process_diff_exit_rates)

lemma ProcessEvents_rates: "rates_unset pt \<Longrightarrow> rates_unset (foldl (\<lambda>pt ev. ProcessEvent ev pt) pt evs)"
  by (rule machine.foldl_induct [where P = rates_unset]) (assumption, rule ProcessEvent_rates)

interpretation fund_machine: invariant_machine "fund_step t" "\<lambda>_. True" "\<lambda>s. rates_unset (snd s)" for t
proof
  fix s :: "FundEngine \<times> PositionTracker"
    and x :: "(nat \<Rightarrow> (string \<times> venueData) list \<Rightarrow> (string \<times> venueData) list) \<times> (nat \<Rightarrow> 8 word list) \<times> fund_event"
  assume inv: "rates_unset (snd s)"
  obtain e pt where s: "s = (e, pt)" by (cases s)
  obtain ord rnd ev where x: "x = (ord, rnd, ev)" by (cases x)
  show "rates_unset (snd (fund_step t s x))"
    using inv by (cases ev) (auto simp: s x fund_step_def ProcessEvents_rates case_prod_unfold Let_def)
qed

section \<open>Properties\<close>

text \<open>
  C22.  Funding entries: every intent of one evaluation buys and sells the same notional in two
  legs, of no venue whose funding regime is VOLATILE, at most the symbol's maximum (for a scale
  between 0 and 1), with a net annual yield of at least the threshold, outside the last half hour
  of a funding period, of a symbol that is not in OBSERVE, marked for paper trading exactly in
  the PAPER stage, and not while its cooldown key is cooling down.
\<close>

theorem funding_entries_are_hedged_and_gated:
  assumes "i \<in> set (snd (FundEvaluate ord rnd now t e))"
  shows "\<not> IsNearReset (fe_scheduler e) now (30 * minute_ns) \<and>
    effectiveStage e (ti_Symbol i) \<noteq> StageObserve \<and>
    (ic_ForcePaperMode (ti_Constraints i) \<longleftrightarrow> effectiveStage e (ti_Symbol i) = StagePaper) \<and>
    minYield e (ti_Symbol i) (em_AnnualYieldPctNet (ti_Expected i)) \<le> em_AnnualYieldPctNet (ti_Expected i) \<and>
    (\<forall>l\<in>set (ti_Legs i). \<not> volatile e (tl_Venue l) (ti_Symbol i)) \<and>
    ti_ExpiresMs i = ms_of now + fp_IntentTTLMs (fe_policy e) \<and>
    (0 < fp_CooldownS (fe_policy e) \<longrightarrow> \<not> fund_onCooldown e (entry_key i) (ms_of now)) \<and>
    (\<exists>n. hedged i n \<and>
       (0 \<le> maxNotional (fe_policy e) (ti_Symbol i) \<and> sizeScale (fe_policy e) (ti_Symbol i) \<in> {0..1} \<longrightarrow>
          n \<in> {0..maxNotional (fe_policy e) (ti_Symbol i)}))"
proof -
  have ok: "entry_ok e (ms_of now) (IsNearReset (fe_scheduler e) now (30 * minute_ns)) i"
    "0 < fp_CooldownS (fe_policy e) \<longrightarrow> \<not> fund_onCooldown e (entry_key i) (ms_of now)"
    using FundEvaluate_inv [of e now ord rnd t] assms by (auto simp: eval_inv_def)
  obtain v w where "hedged i (carry_notional e v (ti_Symbol i)) \<or> hedged i (diff_notional e v w (ti_Symbol i))"
    using ok(1) by (auto simp: entry_ok_def Let_def)
  then have "\<exists>n. hedged i n \<and>
      (0 \<le> maxNotional (fe_policy e) (ti_Symbol i) \<and> sizeScale (fe_policy e) (ti_Symbol i) \<in> {0..1} \<longrightarrow>
         n \<in> {0..maxNotional (fe_policy e) (ti_Symbol i)})"
    using entry_sizes [of e "ti_Symbol i"] by blast
  with ok show ?thesis by (simp add: entry_ok_def Let_def)
qed

definition leg_fill :: "string \<Rightarrow> string \<Rightarrow> string \<Rightarrow> string \<Rightarrow> string \<Rightarrow> float64 \<Rightarrow> ExecutionEvent" where
  "leg_fill strategy sy v action market n =
     \<lparr>ee_SchemaVersion = 1, ee_EventType = ''ORDER_FILLED'', ee_IntentID = ''i'', ee_LegIndex = 0, ee_Venue = v,
      ee_Symbol = sy, ee_Action = action, ee_Strategy = strategy, ee_Market = market, ee_RequestedNotionalUSD = n,
      ee_FilledNotionalUSD = n, ee_FilledPrice = 0, ee_SlippageBpsActual = 0, ee_SlippageBpsAllowed = 0,
      ee_FeesUSDActual = 0, ee_FeeType = ''taker'', ee_TsMs = 0, ee_LatencySignalToFillMs = 0, ee_TenantID = ''t'',
      ee_Mode = ''PAPER''\<rparr>"

definition carry_fills :: "string \<Rightarrow> string \<Rightarrow> float64 \<Rightarrow> PositionTracker" where
  "carry_fills sy v n =
     foldl (\<lambda>pt ev. ProcessEvent ev pt) NewPositionTracker
       [leg_fill ''FUNDING_CARRY'' sy v ''BUY'' ''SPOT'' n, leg_fill ''FUNDING_CARRY'' sy v ''SELL'' ''PERP'' n]"

lemma carry_fills_pos:
  "carry_fills sy v n = [(carry_key sy v, (new_position ''FUNDING_CARRY'' sy v)\<lparr>op_NotionalUSD := 2 * n\<rparr>)]"
  by (simp add: carry_fills_def NewPositionTracker_def ProcessEvent_def leg_fill_def processCarryEntry_def
      process_entry_def new_position_def Let_def)

text \<open>
  A carry position is tracked at twice its size: the fills of both legs of one entry are
  added up, so when its regime turns VOLATILE the exit sells and buys twice the notional of the
  entry, and the first filled leg of that exit removes the position from the tracker.
\<close>

theorem carry_exit_unwinds_twice_the_position:
  assumes "0 < n" "fe_state e sy = Some vm" "map_of vm v = Some d" "volatile e v sy"
  shows "\<exists>i. snd (evaluateExitsNow rnd t now e (carry_fills sy v n)) = [i] \<and> hedged i (2 * n) \<and>
      ti_Strategy i = ''FUNDING_CARRY_EXIT'' \<and>
      ProcessEvent (leg_fill ''FUNDING_CARRY_EXIT'' sy v ''SELL'' ''SPOT'' (2 * n)) (carry_fills sy v n) = []"
proof -
  let ?pos = "(new_position ''FUNDING_CARRY'' sy v)\<lparr>op_NotionalUSD := 2 * n\<rparr>"
  have o: "OpenPositions (carry_fills sy v n) = [?pos]"
    using assms(1) by (simp add: OpenPositions_def carry_fills_pos new_position_def)
  have r: "carry_exit_reason e ?pos now d \<noteq> ''''"
    using assms(4) by (simp add: carry_exit_reason_def new_position_def)
  have "ProcessEvent (leg_fill ''FUNDING_CARRY_EXIT'' sy v ''SELL'' ''SPOT'' (2 * n)) (carry_fills sy v n) = []"
    by (simp add: carry_fills_pos ProcessEvent_def leg_fill_def processCarryExit_def new_position_def Let_def)
  then show ?thesis
    using assms(2,3) r
    by (simp add: evaluateExitsNow_def o EvaluateExits_def exit_step_def evaluateCarryExit_def Let_def)
       (simp add: new_position_def fund_intent_defs hedged_def Let_def)
qed

text \<open>
  The exit on an inverted funding rate never happens: nothing sets the rate at entry, so in
  every reachable state of the service it is 0 for every open position, no position is closed
  because its rate changed sign, and a reverse carry is kept, however high the rate it pays, as
  long as its regime and its volatility are calm.
\<close>

theorem inverted_rates_never_close_a_carry:
  assumes "pos \<in> set (OpenPositions (snd (foldl (fund_step t) (NewFundEngine p, NewPositionTracker) xs)))"
    and "e = fst (foldl (fund_step t) (NewFundEngine p, NewPositionTracker) xs)"
  shows "op_EntryRateBps pos = 0 \<and> carry_exit_reason e pos now d \<noteq> ''FUNDING_INVERTED'' \<and>
    reverse_exit_reason e pos d \<noteq> ''FUNDING_INVERTED'' \<and>
    (\<not> volatile e (op_Venue pos) (op_Symbol pos) \<and> \<not> vol_spike e (op_Venue pos) (op_Symbol pos) \<longrightarrow>
       reverse_exit_reason e pos d = '''')"
proof -
  have "rates_unset (snd (foldl (fund_step t) (NewFundEngine p, NewPositionTracker) xs))"
    by (rule fund_machine.run_inv) (simp_all add: rates_unset_def NewPositionTracker_def)
  then have "op_EntryRateBps pos = 0"
    using assms(1) by (auto simp: OpenPositions_def rates_unset_def)
  then show ?thesis by (simp add: carry_exit_reason_def reverse_exit_reason_def)
qed

section \<open>Witnesses\<close>

definition sample_fund_policy :: FundPolicy where
  "sample_fund_policy =
     \<lparr>fp_Symbols = [''BTC''], fp_MinAnnualYieldPct = [''MED'' \<mapsto> 5], fp_MaxNotionalUSD = 1000,
      fp_MinDifferentialBps8h = 1, fp_HedgeDriftUnwindUSD = 0,
      fp_VolatilityGate = \<lparr>vg_VolThresholdPct = 0, vg_SizeReductionFactor = 0\<rparr>, fp_Venues = [],
      fp_EvalIntervalS = 30, fp_IntentTTLMs = 10000, fp_MaxSlippageBps = 8, fp_CooldownS = 300,
      fp_SymbolOverrides = Map.empty,
      fp_Redis = \<lparr>frp_Addr = '''', frp_Password = '''', frp_UseTLS = False, frp_InputStream = '''',
        frp_EventsStream = '''', frp_OutputIntents = '''', frp_ConsumerGroup = '''', frp_ConsumerName = '''',
        frp_BlockMs = 0, frp_BatchSize = 0\<rparr>\<rparr>"

definition sample_fund_engine :: FundEngine where
  "sample_fund_engine =
     (NewFundEngine sample_fund_policy)\<lparr>fe_state := [''BTC'' \<mapsto>
        [(''okx'', \<lparr>vd_fundingRate = 1 / 1000, vd_markPrice = 100, vd_feeBpsTaker = 5, vd_updatedMs = 0\<rparr>)]]\<rparr>"

definition in_order :: "nat \<Rightarrow> 'a list \<Rightarrow> 'a list" where
  "in_order k xs = xs"

lemma sample_fund_reset: "\<not> IsNearReset (fe_scheduler sample_fund_engine) hour_ns (30 * minute_ns)"
  unfolding sample_fund_engine_def
  by (simp add: NewFundEngine_def IsNearReset_def TimeToNextReset_def resets midnight_def day_ns_def hour_ns_def minute_ns_def)

lemma sample_fund_emits:
  "\<exists>i. snd (FundEvaluate in_order no_rnd hour_ns ''t'' sample_fund_engine) = [i] \<and> ti_Strategy i = ''FUNDING_CARRY''"
proof -
  let ?d = "\<lparr>vd_fundingRate = 1 / 1000, vd_markPrice = 100, vd_feeBpsTaker = 5, vd_updatedMs = 0\<rparr>"
  have v: "\<not> volatile sample_fund_engine ''okx'' ''BTC''"
    by (simp add: volatile_def sample_fund_engine_def NewFundEngine_def NewRegimeForecaster_def RegimeGet_def)
  have p: "fe_policy sample_fund_engine = sample_fund_policy" "fe_cooldown sample_fund_engine = Map.empty"
    "map_get [] (fe_state sample_fund_engine) ''BTC'' = [(''okx'', ?d)]"
    by (simp_all add: sample_fund_engine_def NewFundEngine_def)
  have s: "effectiveStage sample_fund_engine ''BTC'' \<noteq> StageObserve"
    by (simp add: effectiveStage_def sample_fund_engine_def NewFundEngine_def fund_stage_def sample_fund_policy_def stage_defs)
  have y: "net_yield (1 / 1000) 5 (fund_maxSlippage sample_fund_policy ''BTC'') = 5449 / 50"
    "minYield sample_fund_engine ''BTC'' (5449 / 50) = 5"
    by (simp_all add: net_yield_def fund_maxSlippage_def sample_fund_policy_def minYield_def minYieldForSymbol_def p Let_def)
  have st: "ti_Strategy (applyStageConstraints e s (buildCarryIntent e u t s' v d n y sl m)) = ''FUNDING_CARRY''"
    for e s u t s' v d n y sl m
    by (simp add: applyStageConstraints_def buildCarryIntent_def fund_intent_def)
  have "\<exists>i. carry_step no_rnd ''t'' (ms_of hour_ns) False ''BTC'' (sample_fund_engine, []) (''okx'', ?d) =
      (fund_emitted ''FUNDING_CARRY'' (fund_mark (carry_key ''BTC'' ''okx'') (ms_of hour_ns) sample_fund_engine), [i]) \<and>
      ti_Strategy i = ''FUNDING_CARRY''"
    unfolding carry_step_def prod.case venueData.simps p Let_def y using v s by (simp add: fund_onCooldown_def st p)
  then obtain e' i where c: "carry_step no_rnd ''t'' (ms_of hour_ns) False ''BTC'' (sample_fund_engine, []) (''okx'', ?d) = (e', [i])"
    "ti_Strategy i = ''FUNDING_CARRY''" by blast
  have "reverse_step no_rnd ''t'' (ms_of hour_ns) False ''BTC'' (e', [i]) (''okx'', ?d) = (e', [i])"
    by (simp add: reverse_step_def)
  moreover have "fund_frame sample_fund_engine e'"
    using carry_step_inv [of sample_fund_engine "ms_of hour_ns" False "(sample_fund_engine, [])" no_rnd "''t''" "''BTC''" "(''okx'', ?d)"]
    unfolding c(1) eval_inv_def by simp
  then have "fe_policy e' = sample_fund_policy" using fund_frame_cong(1) p(1) by metis
  ultimately have "FundEvaluate in_order no_rnd hour_ns ''t'' sample_fund_engine = (e', [i])"
    unfolding FundEvaluate_def p(1) using sample_fund_reset c(1) p(3)
    by (simp add: sample_fund_policy_def fund_symbol_def in_order_def)
  with c(2) show ?thesis by simp
qed

theorem funding_entries_are_hedged_and_gated_witness:
  "\<exists>i n. snd (FundEvaluate in_order no_rnd hour_ns ''t'' sample_fund_engine) = [i] \<and> hedged i n \<and> n \<in> {0..1000} \<and>
     ti_Strategy i = ''FUNDING_CARRY''"
proof -
  obtain i where i: "snd (FundEvaluate in_order no_rnd hour_ns ''t'' sample_fund_engine) = [i]" "ti_Strategy i = ''FUNDING_CARRY''"
    using sample_fund_emits by blast
  then have "i \<in> set (snd (FundEvaluate in_order no_rnd hour_ns ''t'' sample_fund_engine))" by simp
  from funding_entries_are_hedged_and_gated [OF this]
  obtain n where "hedged i n"
    "0 \<le> maxNotional (fe_policy sample_fund_engine) (ti_Symbol i) \<and>
     sizeScale (fe_policy sample_fund_engine) (ti_Symbol i) \<in> {0..1} \<longrightarrow>
       n \<in> {0..maxNotional (fe_policy sample_fund_engine) (ti_Symbol i)}" by blast
  moreover have "maxNotional (fe_policy sample_fund_engine) s = 1000" "sizeScale (fe_policy sample_fund_engine) s = 0.5" for s
    by (simp_all add: sample_fund_engine_def NewFundEngine_def sample_fund_policy_def maxNotional_def sizeScale_def)
  ultimately show ?thesis using i by auto
qed

text \<open>Two rates of opposite signs make the regime volatile.\<close>

definition volatile_fund_engine :: FundEngine where
  "volatile_fund_engine = sample_fund_engine\<lparr>fe_forecaster :=
     \<lparr>rf_alpha = 0.15, rf_states = [(''okx:BTC'', \<lparr>rs_ewa = 1 / 10000, rs_ewaSq = 1 / 1000000, rs_samples = 9,
        rs_lastTsMs = 0, rs_lastRate = - 1 / 1000, rs_momentum = 0\<rparr>)]\<rparr>\<rparr>"

lemma sample_volatile: "volatile volatile_fund_engine ''okx'' ''BTC''"
proof -
  have "(3 / 10000) ^ 2 < (99 / 100000000 :: real)" by (simp add: power2_eq_square)
  then have "3 / 10000 < sqrt (99 / 100000000)" by (rule real_less_rsqrt)
  then show ?thesis
    by (simp add: volatile_def volatile_fund_engine_def RegimeGet_def pair_key_def classify_def regime_stdDev_def Let_def
        pos_less_divide_eq)
qed

theorem carry_exit_unwinds_twice_the_position_witness:
  "\<exists>i. snd (evaluateExitsNow no_rnd ''t'' 0 volatile_fund_engine (carry_fills ''BTC'' ''okx'' 500)) = [i] \<and> hedged i 1000"
proof -
  have "fe_state volatile_fund_engine ''BTC'' =
      Some [(''okx'', \<lparr>vd_fundingRate = 1 / 1000, vd_markPrice = 100, vd_feeBpsTaker = 5, vd_updatedMs = 0\<rparr>)]"
    by (simp add: volatile_fund_engine_def sample_fund_engine_def)
  moreover have "map_of [(''okx'', \<lparr>vd_fundingRate = 1 / 1000, vd_markPrice = 100, vd_feeBpsTaker = 5, vd_updatedMs = 0\<rparr>)]
      ''okx'' = Some \<lparr>vd_fundingRate = 1 / 1000, vd_markPrice = 100, vd_feeBpsTaker = 5, vd_updatedMs = 0 :: int\<rparr>" by simp
  ultimately show ?thesis
    using carry_exit_unwinds_twice_the_position [OF _ _ _ sample_volatile, where n = 500 and rnd = no_rnd and t = "''t''" and now = 0]
    by fastforce
qed

theorem inverted_rates_never_close_a_carry_witness:
  "\<exists>pos. OpenPositions (snd (foldl (fund_step ''t'') (NewFundEngine sample_fund_policy, NewPositionTracker)
        [(in_order, no_rnd, FillEvents [leg_fill ''FUNDING_CARRY_REVERSE'' ''BTC'' ''okx'' ''SELL'' ''SPOT'' 500])])) = [pos] \<and>
     op_EntryRateBps pos = 0"
proof -
  let ?run = "foldl (fund_step ''t'') (NewFundEngine sample_fund_policy, NewPositionTracker)
        [(in_order, no_rnd, FillEvents [leg_fill ''FUNDING_CARRY_REVERSE'' ''BTC'' ''okx'' ''SELL'' ''SPOT'' 500])]"
  have o: "\<exists>pos. OpenPositions (snd ?run) = [pos]"
    by (simp add: fund_step_def NewPositionTracker_def ProcessEvent_def leg_fill_def processReverseCarryEntry_def
        process_entry_def new_position_def OpenPositions_def Let_def)
  then obtain pos where pos: "OpenPositions (snd ?run) = [pos]" by blast
  then have "pos \<in> set (OpenPositions (snd ?run))" by simp
  from inverted_rates_never_close_a_carry [OF this refl] pos show ?thesis by blast
qed

end
