(* ===== verification/Effects.thy ===== *)
theory Effects
  imports Prelude "HOL-Library.State_Monad"
begin

text \<open>
  Code that talks to the outside.  The world is a state the model knows nothing of: an exchange
  client, Redis or the clock is a function that answers from a world and leaves another.  What
  the code sends is kept, in order, in a trace.  Operations are state monads over a record with
  these two parts and the component's own fields; \<open>pres\<close> is preservation of an invariant, with
  one rule per construct, and \<open>wp\<close> computes what holds after a run.
\<close>

record ('w, 'o) io =
  world :: 'w
  trace :: "'o list"

type_synonym ('w, 'o, 'm, 'a) action = "(('w, 'o, 'm) io_scheme, 'a) state"

definition query :: "('w \<Rightarrow> 'a \<times> 'w) \<Rightarrow> ('w, 'o, 'm, 'a) action" where
  "query q = State (\<lambda>s. case q (world s) of (a, w) \<Rightarrow> (a, s\<lparr>world := w\<rparr>))"

definition tell :: "'o \<Rightarrow> ('w, 'o, 'm, unit) action" where
  "tell x = State (\<lambda>s. ((), s\<lparr>trace := trace s @ [x]\<rparr>))"

definition asks :: "('s \<Rightarrow> 'a) \<Rightarrow> ('s, 'a) state" where
  "asks f = State (\<lambda>s. (f s, s))"

definition modify :: "('s \<Rightarrow> 's) \<Rightarrow> ('s, unit) state" where
  "modify f = State (\<lambda>s. ((), f s))"

definition skip :: "('s, unit) state" where
  "skip = State_Monad.return ()"

primrec for_each :: "'x list \<Rightarrow> ('x \<Rightarrow> ('s, unit) state) \<Rightarrow> ('s, unit) state" where
  "for_each [] f = skip"
| "for_each (x # xs) f = do { f x; for_each xs f }"

text \<open>A loop that appends what each turn yields to a list.\<close>

primrec collect :: "'x list \<Rightarrow> ('x \<Rightarrow> ('s, 'y list) state) \<Rightarrow> ('s, 'y list) state" where
  "collect [] f = State_Monad.return []"
| "collect (x # xs) f = do { ys \<leftarrow> f x; zs \<leftarrow> collect xs f; State_Monad.return (ys @ zs) }"

definition exec :: "('s, 'a) state \<Rightarrow> 's \<Rightarrow> 's" where
  "exec m s = snd (run_state m s)"

text \<open>
  What the programs use of the Go library: the clock, sleeping and random numbers.  The laws are
  the documented ones.
\<close>

record 'w Runtime =
  rt_Now :: "'w \<Rightarrow> go_time \<times> 'w"
  rt_Sleep :: "duration \<Rightarrow> 'w \<Rightarrow> unit \<times> 'w"
  rt_Int63n :: "int \<Rightarrow> 'w \<Rightarrow> int \<times> 'w"
  rt_Float64 :: "'w \<Rightarrow> float64 \<times> 'w"

definition lawful :: "'w Runtime \<Rightarrow> bool" where
  "lawful rt \<longleftrightarrow>
     (\<forall>n w. 0 < n \<longrightarrow> fst (rt_Int63n rt n w) \<in> {0..<n}) \<and> (\<forall>w. fst (rt_Float64 rt w) \<in> {0..<1})"

definition UnixMilli :: "go_time \<Rightarrow> int64" where
  "UnixMilli t = t div 10 ^ 6"

section \<open>What holds after a run\<close>

definition wp :: "('s, 'a) state \<Rightarrow> ('a \<Rightarrow> 's \<Rightarrow> bool) \<Rightarrow> 's \<Rightarrow> bool" where
  "wp m Q s = (case run_state m s of (a, s') \<Rightarrow> Q a s')"

lemma wp_return [simp]: "wp (State_Monad.return a) Q = Q a"
  by (simp add: wp_def fun_eq_iff)

lemma wp_skip [simp]: "wp skip Q = Q ()"
  by (simp add: skip_def)

lemma wp_bind [simp]: "wp (m \<bind> f) Q = wp m (\<lambda>a. wp (f a) Q)"
  by (simp add: wp_def fun_eq_iff split: prod.split)

lemma wp_query [simp]: "wp (query q) Q = (\<lambda>s. case q (world s) of (a, w) \<Rightarrow> Q a (s\<lparr>world := w\<rparr>))"
  by (simp add: wp_def query_def fun_eq_iff split: prod.split)

lemma wp_tell [simp]: "wp (tell x) Q = (\<lambda>s. Q () (s\<lparr>trace := trace s @ [x]\<rparr>))"
  by (simp add: wp_def tell_def fun_eq_iff)

lemma wp_asks [simp]: "wp (asks f) Q = (\<lambda>s. Q (f s) s)"
  by (simp add: wp_def asks_def fun_eq_iff)

lemma wp_modify [simp]: "wp (modify f) Q = (\<lambda>s. Q () (f s))"
  by (simp add: wp_def modify_def fun_eq_iff)

lemma wp_if [simp]: "wp (if b then m else n) Q = (if b then wp m Q else wp n Q)"
  by simp

lemma wp_option [simp]:
  "wp (case x of None \<Rightarrow> m | Some y \<Rightarrow> f y) Q = (case x of None \<Rightarrow> wp m Q | Some y \<Rightarrow> wp (f y) Q)"
  by (simp split: option.split)

lemma wp_sum [simp]:
  "wp (case x of Inl y \<Rightarrow> f y | Inr z \<Rightarrow> g z) Q = (case x of Inl y \<Rightarrow> wp (f y) Q | Inr z \<Rightarrow> wp (g z) Q)"
  by (simp split: sum.split)

lemma wp_prod [simp]: "wp (case p of (a, b) \<Rightarrow> f a b) Q = (case p of (a, b) \<Rightarrow> wp (f a b) Q)"
  by (simp split: prod.split)

lemma wp_weaken: "wp m Q s \<Longrightarrow> (\<And>a s'. Q a s' \<Longrightarrow> R a s') \<Longrightarrow> wp m R s"
  by (auto simp: wp_def split: prod.splits)

lemma wp_top: "(\<And>a s'. Q a s') \<Longrightarrow> wp m Q s"
  by (simp add: wp_def split: prod.split)

lemma wp_conj: "wp m Q s \<Longrightarrow> wp m R s \<Longrightarrow> wp m (\<lambda>a s'. Q a s' \<and> R a s') s"
  by (auto simp: wp_def split: prod.splits)

lemma wp_run: "wp m Q s \<Longrightarrow> run_state m s = (a, s') \<Longrightarrow> Q a s'"
  by (simp add: wp_def)

lemma wp_exec: "wp m (\<lambda>_. I) s \<longleftrightarrow> I (exec m s)"
  by (simp add: wp_def exec_def split: prod.split)

lemma wp_for_each:
  assumes "\<And>x s. x \<in> set xs \<Longrightarrow> I s \<Longrightarrow> wp (f x) (\<lambda>_. I) s" "I s"
  shows "wp (for_each xs f) (\<lambda>_. I) s"
  using assms
proof (induction xs arbitrary: s)
  case Nil
  then show ?case by simp
next
  case (Cons x xs)
  have "wp (f x) (\<lambda>_. I) s" using Cons.prems by simp
  then have "wp (f x) (\<lambda>_. wp (for_each xs f) (\<lambda>_. I)) s"
    by (rule wp_weaken) (use Cons in auto)
  then show ?case by simp
qed

text \<open>A loop invariant over what has been collected so far.\<close>

lemma wp_collect:
  assumes "\<And>x ys s. x \<in> set xs \<Longrightarrow> I ys s \<Longrightarrow> wp (f x) (\<lambda>zs. I (ys @ zs)) s" "I ys s"
  shows "wp (collect xs f) (\<lambda>zs. I (ys @ zs)) s"
  using assms
proof (induction xs arbitrary: s ys)
  case Nil
  then show ?case by simp
next
  case (Cons x xs)
  have "wp (f x) (\<lambda>zs. I (ys @ zs)) s" using Cons.prems by simp
  then have "wp (f x) (\<lambda>us. wp (collect xs f) (\<lambda>zs. I (ys @ us @ zs))) s"
  proof (rule wp_weaken)
    fix us s'
    assume "I (ys @ us) s'"
    then have "wp (collect xs f) (\<lambda>zs. I ((ys @ us) @ zs)) s'"
      by (rule Cons.IH [rotated]) (use Cons.prems in auto)
    then show "wp (collect xs f) (\<lambda>zs. I (ys @ us @ zs)) s'" by simp
  qed
  then show ?case by simp
qed

section \<open>Preservation\<close>

definition pres :: "('s \<Rightarrow> bool) \<Rightarrow> ('s, 'a) state \<Rightarrow> bool" where
  "pres I m \<longleftrightarrow> (\<forall>s. I s \<longrightarrow> wp m (\<lambda>_. I) s)"

named_theorems pres_intros \<open>an invariant is kept: one rule per construct\<close>

lemma presI: "(\<And>s. I s \<Longrightarrow> wp m (\<lambda>_. I) s) \<Longrightarrow> pres I m"
  by (simp add: pres_def)

lemma presD: "pres I m \<Longrightarrow> I s \<Longrightarrow> wp m (\<lambda>_. I) s"
  by (simp add: pres_def)

lemma pres_exec: "pres I m \<Longrightarrow> I s \<Longrightarrow> I (exec m s)"
  by (simp add: pres_def wp_exec)

lemma pres_return [pres_intros]: "pres I (State_Monad.return a)"
  by (simp add: pres_def)

lemma pres_skip [pres_intros]: "pres I skip"
  by (simp add: pres_def)

lemma pres_asks [pres_intros]: "pres I (asks f)"
  by (simp add: pres_def)

lemma pres_bind [pres_intros]: "pres I m \<Longrightarrow> (\<And>a. pres I (f a)) \<Longrightarrow> pres I (m \<bind> f)"
  by (auto simp: pres_def intro: wp_weaken)

lemma pres_if [pres_intros]: "(b \<Longrightarrow> pres I m) \<Longrightarrow> (\<not> b \<Longrightarrow> pres I n) \<Longrightarrow> pres I (if b then m else n)"
  by simp

lemma pres_option [pres_intros]:
  "(x = None \<Longrightarrow> pres I m) \<Longrightarrow> (\<And>y. x = Some y \<Longrightarrow> pres I (f y)) \<Longrightarrow>
     pres I (case x of None \<Rightarrow> m | Some y \<Rightarrow> f y)"
  by (simp split: option.split)

lemma pres_sum [pres_intros]:
  "(\<And>y. x = Inl y \<Longrightarrow> pres I (f y)) \<Longrightarrow> (\<And>z. x = Inr z \<Longrightarrow> pres I (g z)) \<Longrightarrow>
     pres I (case x of Inl y \<Rightarrow> f y | Inr z \<Rightarrow> g z)"
  by (simp split: sum.split)

lemma pres_prod [pres_intros]: "(\<And>a b. p = (a, b) \<Longrightarrow> pres I (f a b)) \<Longrightarrow> pres I (case p of (a, b) \<Rightarrow> f a b)"
  by (simp split: prod.split)

lemma pres_for_each [pres_intros]: "(\<And>x. x \<in> set xs \<Longrightarrow> pres I (f x)) \<Longrightarrow> pres I (for_each xs f)"
  by (auto simp: pres_def intro: wp_for_each)

lemma pres_collect [pres_intros]: "(\<And>x. x \<in> set xs \<Longrightarrow> pres I (f x)) \<Longrightarrow> pres I (collect xs f)"
  by (induction xs) (auto intro!: pres_intros)

lemma pres_modify: "(\<And>s. I s \<Longrightarrow> I (f s)) \<Longrightarrow> pres I (modify f)"
  by (simp add: pres_def)

lemma pres_conj: "pres I m \<Longrightarrow> pres J m \<Longrightarrow> pres (\<lambda>s. I s \<and> J s) m"
  by (auto simp: pres_def intro: wp_conj)

text \<open>
  An invariant of the trace and the component's own state: no answer from outside can break it.
\<close>

locale outside =
  fixes I :: "('w, 'o, 'm) io_scheme \<Rightarrow> bool"
  assumes world_free: "I (s\<lparr>world := w\<rparr>) = I s"
begin

lemma pres_query: "pres I (query q)"
  by (simp add: pres_def world_free split: prod.split)

lemma pres_tell: "(\<And>s. I s \<Longrightarrow> I (s\<lparr>trace := trace s @ [x]\<rparr>)) \<Longrightarrow> pres I (tell x)"
  by (simp add: pres_def)

end

section \<open>What an action returns\<close>

text \<open>From a state with the invariant, the action keeps it and its result satisfies \<open>P\<close>.\<close>

definition yields :: "('s \<Rightarrow> bool) \<Rightarrow> ('s, 'a) state \<Rightarrow> ('a \<Rightarrow> bool) \<Rightarrow> bool" where
  "yields I m P \<longleftrightarrow> (\<forall>s. I s \<longrightarrow> wp m (\<lambda>a s'. I s' \<and> P a) s)"

named_theorems yields_intros \<open>what an action returns: one rule per construct\<close>

lemma yieldsI: "(\<And>s. I s \<Longrightarrow> wp m (\<lambda>a s'. I s' \<and> P a) s) \<Longrightarrow> yields I m P"
  by (simp add: yields_def)

lemma yieldsD: "yields I m P \<Longrightarrow> I s \<Longrightarrow> wp m (\<lambda>a s'. I s' \<and> P a) s"
  by (simp add: yields_def)

lemma yields_weaken: "yields I m P \<Longrightarrow> (\<And>a. P a \<Longrightarrow> Q a) \<Longrightarrow> yields I m Q"
  unfolding yields_def by (blast intro: wp_weaken)

lemma yields_return [yields_intros]: "P a \<Longrightarrow> yields I (State_Monad.return a) P"
  by (simp add: yields_def)

lemma yields_pres: "pres I m \<Longrightarrow> yields I m (\<lambda>_. True)"
  by (simp add: yields_def pres_def)

lemma yields_bind: "yields I m R \<Longrightarrow> (\<And>a. R a \<Longrightarrow> yields I (f a) P) \<Longrightarrow> yields I (m \<bind> f) P"
  by (auto simp: yields_def intro!: wp_weaken [of m _ _ "\<lambda>a. wp (f a) _"])

lemma yields_any: "pres I m \<Longrightarrow> (\<And>a. yields I (f a) P) \<Longrightarrow> yields I (m \<bind> f) P"
  by (rule yields_bind [OF yields_pres])

lemma yields_asks [yields_intros]: "(\<And>s. I s \<Longrightarrow> yields I (g (f s)) P) \<Longrightarrow> yields I (asks f \<bind> g) P"
  by (simp add: yields_def)

lemma yields_if [yields_intros]: "(b \<Longrightarrow> yields I m P) \<Longrightarrow> (\<not> b \<Longrightarrow> yields I n P) \<Longrightarrow> yields I (if b then m else n) P"
  by simp

lemma yields_option [yields_intros]:
  "(x = None \<Longrightarrow> yields I m P) \<Longrightarrow> (\<And>y. x = Some y \<Longrightarrow> yields I (f y) P) \<Longrightarrow>
     yields I (case x of None \<Rightarrow> m | Some y \<Rightarrow> f y) P"
  by (simp split: option.split)

lemma yields_sum [yields_intros]:
  "(\<And>y. x = Inl y \<Longrightarrow> yields I (f y) P) \<Longrightarrow> (\<And>z. x = Inr z \<Longrightarrow> yields I (g z) P) \<Longrightarrow>
     yields I (case x of Inl y \<Rightarrow> f y | Inr z \<Rightarrow> g z) P"
  by (simp split: sum.split)

section \<open>What an action sends\<close>

text \<open>Whatever the state and the answers, the action appends some messages to the trace, and they satisfy \<open>P\<close>.\<close>

definition grows :: "('w, 'o, 'm, 'a) action \<Rightarrow> ('a \<Rightarrow> 'o list \<Rightarrow> bool) \<Rightarrow> bool" where
  "grows m P \<longleftrightarrow> (\<forall>s. wp m (\<lambda>a s'. \<exists>new. trace s' = trace s @ new \<and> P a new) s)"

named_theorems grows_intros \<open>what an action appends: one rule per construct\<close>

lemma growsI: "(\<And>s. wp m (\<lambda>a s'. \<exists>new. trace s' = trace s @ new \<and> P a new) s) \<Longrightarrow> grows m P"
  by (simp add: grows_def)

lemma growsD: "grows m P \<Longrightarrow> wp m (\<lambda>a s'. \<exists>new. trace s' = trace s @ new \<and> P a new) s"
  by (simp add: grows_def)

lemma grows_weaken: "grows m P \<Longrightarrow> (\<And>a new. P a new \<Longrightarrow> Q a new) \<Longrightarrow> grows m Q"
  unfolding grows_def by (blast intro: wp_weaken)

lemma grows_bind:
  fixes m :: "('w, 'o, 'm, 'a) action" and f :: "'a \<Rightarrow> ('w, 'o, 'm, 'b) action"
  assumes m: "grows m R" and f: "\<And>a new. R a new \<Longrightarrow> grows (f a) (\<lambda>b new'. P b (new @ new'))"
  shows "grows (m \<bind> f) P"
proof (rule growsI)
  fix s :: "('w, 'o, 'm) io_scheme"
  have "wp m (\<lambda>a. wp (f a) (\<lambda>b s''. \<exists>new. trace s'' = trace s @ new \<and> P b new)) s"
  proof (rule wp_weaken [OF growsD [OF m]])
    fix a and s' :: "('w, 'o, 'm) io_scheme"
    assume "\<exists>new. trace s' = trace s @ new \<and> R a new"
    then obtain new where n: "trace s' = trace s @ new" "R a new" by blast
    show "wp (f a) (\<lambda>b s''. \<exists>new. trace s'' = trace s @ new \<and> P b new) s'"
      by (rule wp_weaken [OF growsD [OF f [OF n(2)]]]) (use n(1) in auto)
  qed
  then show "wp (m \<bind> f) (\<lambda>b s''. \<exists>new. trace s'' = trace s @ new \<and> P b new) s" by simp
qed

text \<open>Actions that send nothing.\<close>

definition silent :: "('w, 'o, 'm, 'a) action \<Rightarrow> bool" where
  "silent m \<longleftrightarrow> grows m (\<lambda>_ new. new = [])"

lemma silent_grows: "silent m \<Longrightarrow> (\<And>a. P a []) \<Longrightarrow> grows m P"
  unfolding silent_def by (erule grows_weaken) simp

lemma silent_return [grows_intros]: "silent (State_Monad.return a)"
  by (simp add: silent_def grows_def)

lemma silent_skip [grows_intros]: "silent skip"
  by (simp add: silent_def grows_def)

lemma silent_query [grows_intros]: "silent (query q)"
  by (simp add: silent_def grows_def split: prod.split)

lemma silent_asks [grows_intros]: "silent (asks f)"
  by (simp add: silent_def grows_def)

lemma silent_modify: "(\<And>s. trace (f s) = trace s) \<Longrightarrow> silent (modify f)"
  by (simp add: silent_def grows_def)

lemma silent_bind [grows_intros]: "silent m \<Longrightarrow> (\<And>a. silent (f a)) \<Longrightarrow> silent (m \<bind> f)"
  unfolding silent_def by (erule grows_bind) simp

lemma silent_if [grows_intros]: "silent m \<Longrightarrow> silent n \<Longrightarrow> silent (if b then m else n)"
  by simp

lemma silent_option [grows_intros]:
  "silent m \<Longrightarrow> (\<And>y. silent (f y)) \<Longrightarrow> silent (case x of None \<Rightarrow> m | Some y \<Rightarrow> f y)"
  by (simp split: option.split)

lemma silent_sum [grows_intros]:
  "(\<And>y. silent (f y)) \<Longrightarrow> (\<And>z. silent (g z)) \<Longrightarrow> silent (case x of Inl y \<Rightarrow> f y | Inr z \<Rightarrow> g z)"
  by (simp split: sum.split)

lemma silent_prod [grows_intros]: "(\<And>a b. silent (f a b)) \<Longrightarrow> silent (case p of (a, b) \<Rightarrow> f a b)"
  by (simp split: prod.split)

lemma silent_for_each [grows_intros]: "(\<And>x. silent (f x)) \<Longrightarrow> silent (for_each xs f)"
  by (induction xs) (auto intro!: grows_intros)

lemma silent_collect [grows_intros]: "(\<And>x. silent (f x)) \<Longrightarrow> silent (collect xs f)"
  by (induction xs) (auto intro!: grows_intros)

text \<open>The general rules.\<close>

lemma grows_silent_bind [grows_intros]: "silent m \<Longrightarrow> (\<And>a. grows (f a) P) \<Longrightarrow> grows (m \<bind> f) P"
  unfolding silent_def by (erule grows_bind) simp

lemma grows_return [grows_intros]: "P a [] \<Longrightarrow> grows (State_Monad.return a) P"
  by (simp add: grows_def)

lemma grows_skip [grows_intros]: "P () [] \<Longrightarrow> grows skip P"
  by (simp add: grows_def)

lemma grows_tell [grows_intros]: "P () [x] \<Longrightarrow> grows (tell x) P"
  by (simp add: grows_def)

lemma grows_if [grows_intros]: "(b \<Longrightarrow> grows m P) \<Longrightarrow> (\<not> b \<Longrightarrow> grows n P) \<Longrightarrow> grows (if b then m else n) P"
  by simp

lemma grows_option [grows_intros]:
  "(x = None \<Longrightarrow> grows m P) \<Longrightarrow> (\<And>y. x = Some y \<Longrightarrow> grows (f y) P) \<Longrightarrow>
     grows (case x of None \<Rightarrow> m | Some y \<Rightarrow> f y) P"
  by (simp split: option.split)

lemma grows_sum [grows_intros]:
  "(\<And>y. x = Inl y \<Longrightarrow> grows (f y) P) \<Longrightarrow> (\<And>z. x = Inr z \<Longrightarrow> grows (g z) P) \<Longrightarrow>
     grows (case x of Inl y \<Rightarrow> f y | Inr z \<Rightarrow> g z) P"
  by (simp split: sum.split)

lemma grows_prod [grows_intros]: "(\<And>a b. p = (a, b) \<Longrightarrow> grows (f a b) P) \<Longrightarrow> grows (case p of (a, b) \<Rightarrow> f a b) P"
  by (simp split: prod.split)

text \<open>Every message of a loop satisfies what every message of a turn does.\<close>

lemma grows_for_each:
  assumes "\<And>x. x \<in> set xs \<Longrightarrow> grows (f x) (\<lambda>_ new. \<forall>m\<in>set new. P m)"
  shows "grows (for_each xs f) (\<lambda>_ new. \<forall>m\<in>set new. P m)"
  using assms
proof (induction xs)
  case Nil
  show ?case by (simp add: grows_skip)
next
  case (Cons x xs)
  then have x: "grows (f x) (\<lambda>_ new. \<forall>m\<in>set new. P m)"
    and xs: "grows (for_each xs f) (\<lambda>_ new. \<forall>m\<in>set new. P m)" by auto
  show ?case unfolding for_each.simps by (rule grows_bind [OF x], rule grows_weaken [OF xs]) auto
qed

text \<open>A loop over a list, with a relation that adds up over the turns.\<close>

lemma grows_collect:
  assumes turn: "\<And>x. x \<in> set xs \<Longrightarrow> grows (f x) (R [x])"
    and nil: "R [] [] []"
    and app: "\<And>us us' ys ys' n n'. R us ys n \<Longrightarrow> R us' ys' n' \<Longrightarrow> R (us @ us') (ys @ ys') (n @ n')"
  shows "grows (collect xs f) (R xs)"
  using turn
proof (induction xs)
  case Nil
  show ?case using nil by (simp add: grows_return)
next
  case (Cons x xs)
  have x: "grows (f x) (R [x])" and xs: "grows (collect xs f) (R xs)" using Cons by auto
  show ?case unfolding collect.simps
    by (intro grows_bind [OF x] grows_bind [OF xs] grows_return)
       (use app in \<open>fastforce dest: app [of "[x]"]\<close>)
qed

section \<open>Actions that only ask\<close>

text \<open>An action that changes nothing but the world.\<close>

definition only_asks :: "('w, 'o, 'm, 'a) action \<Rightarrow> bool" where
  "only_asks m \<longleftrightarrow> (\<forall>s. wp m (\<lambda>_ s'. \<exists>w. s' = s\<lparr>world := w\<rparr>) s)"

named_theorems only_asks_intros \<open>an action changes nothing but the world: one rule per construct\<close>

lemma only_asksD: "only_asks m \<Longrightarrow> wp m (\<lambda>_ s'. \<exists>w. s' = s\<lparr>world := w\<rparr>) s"
  by (simp add: only_asks_def)

lemma world_same: "\<exists>w. s = s\<lparr>world := w\<rparr>"
  by (rule exI [of _ "world s"]) simp

lemma only_asks_return [only_asks_intros]: "only_asks (State_Monad.return a)"
  by (simp add: only_asks_def world_same)

lemma only_asks_asks [only_asks_intros]: "only_asks (asks f)"
  by (simp add: only_asks_def world_same)

lemma only_asks_query [only_asks_intros]: "only_asks (query q)"
  by (auto simp: only_asks_def split: prod.split)

lemma only_asks_bind [only_asks_intros]:
  assumes "only_asks m" "\<And>a. only_asks (f a)"
  shows "only_asks (m \<bind> f)"
proof -
  have "wp m (\<lambda>a. wp (f a) (\<lambda>_ s'. \<exists>w. s' = s\<lparr>world := w\<rparr>)) s" for s
    by (rule wp_weaken [OF only_asksD [OF assms(1)]], clarify, rule wp_weaken [OF only_asksD [OF assms(2)]]) auto
  then show ?thesis by (simp add: only_asks_def)
qed

lemma only_asks_if [only_asks_intros]: "only_asks m \<Longrightarrow> only_asks n \<Longrightarrow> only_asks (if b then m else n)"
  by simp

lemma only_asks_option [only_asks_intros]:
  "only_asks m \<Longrightarrow> (\<And>y. only_asks (f y)) \<Longrightarrow> only_asks (case x of None \<Rightarrow> m | Some y \<Rightarrow> f y)"
  by (simp split: option.split)

lemma only_asks_sum [only_asks_intros]:
  "(\<And>y. only_asks (f y)) \<Longrightarrow> (\<And>z. only_asks (g z)) \<Longrightarrow> only_asks (case x of Inl y \<Rightarrow> f y | Inr z \<Rightarrow> g z)"
  by (simp split: sum.split)

lemma only_asks_wp: "only_asks m \<Longrightarrow> (\<And>a w. Q a (s\<lparr>world := w\<rparr>)) \<Longrightarrow> wp m Q s"
  by (rule wp_weaken [OF only_asksD]) auto

end
