(* ===== verification/Exchange_Types.thy ===== *)
theory Exchange_Types
  imports Interfaces Effects
begin

text \<open>
  internal/exchange: the data of types.go, the interface of exchange.go and the registry of
  registry.go.  A client of an exchange is code outside the repository's core that talks to a
  server, so an \<open>Exchange\<close> is a record of functions: each call answers from the world and leaves
  another world.  An optional interface that a client may or may not implement is an optional
  field; the type of the credentials is a parameter.
\<close>

section \<open>Data\<close>

datatype Side = SideBuy | SideSell | SideOther string

definition side_of :: "string \<Rightarrow> Side" where
  "side_of a = (if a = ''BUY'' then SideBuy else if a = ''SELL'' then SideSell else SideOther a)"

datatype OrderType = OrderTypeMarket | OrderTypeLimit | OrderTypeIOC

datatype OrderStatus = OrderStatusNew | OrderStatusPartiallyFilled | OrderStatusFilled
  | OrderStatusCancelled | OrderStatusRejected | OrderStatusExpired | OrderStatusOther string

datatype TransferStatus = TransferPending | TransferCompleted | TransferFailed | TransferOther string

record OrderRequest =
  or_Symbol :: string
  or_Side :: Side
  or_Type :: OrderType
  or_Quantity :: float64
  or_Price :: float64
  or_NotionalUSD :: float64
  or_MaxSlippageBps :: float64
  or_ClientOrderID :: string
  or_ReduceOnly :: bool
  or_IdempotencyKey :: string

record AmendOrderRequest =
  am_Symbol :: string
  am_OrderID :: string
  am_NewPrice :: float64
  am_NewQty :: float64

record ADLEvent =
  ad_Venue :: string
  ad_Symbol :: string
  ad_Side :: string
  ad_ReducedQty :: float64
  ad_Price :: float64
  ad_TsMs :: int64

record OrderResponse =
  os_OrderID :: string
  os_ClientOrderID :: string
  os_Symbol :: string
  os_Side :: Side
  os_Type :: OrderType
  os_Status :: OrderStatus
  os_Price :: float64
  os_AvgFillPrice :: float64
  os_Quantity :: float64
  os_FilledQty :: float64
  os_FeesUSD :: float64
  os_FeesAsset :: string
  os_CreatedAt :: go_time
  os_UpdatedAt :: go_time

record Balance =
  ba_Asset :: string
  ba_Free :: float64
  ba_Locked :: float64
  ba_Total :: float64
  ba_USDValue :: float64

record Position =
  po_Symbol :: string
  po_Side :: string
  po_Quantity :: float64
  po_EntryPrice :: float64
  po_MarkPrice :: float64
  po_UnrealizedPnL :: float64
  po_Leverage :: float64
  po_NotionalUSD :: float64
  po_LiqPrice :: float64

record WithdrawRequest =
  wr_Asset :: string
  wr_Amount :: float64
  wr_Address :: string
  wr_Network :: string
  wr_Tag :: string

record WithdrawResponse =
  ws_WithdrawID :: string
  ws_Asset :: string
  ws_Amount :: float64
  ws_Fee :: float64
  ws_Status :: TransferStatus
  ws_TxID :: string
  ws_Network :: string

record DepositRecord =
  dr_DepositID :: string
  dr_Asset :: string
  dr_Amount :: float64
  dr_Status :: TransferStatus
  dr_TxID :: string
  dr_Network :: string
  dr_CreatedAt :: go_time

record DepositAddress =
  da_Asset :: string
  da_Address :: string
  da_Network :: string
  da_Tag :: string

record ConvertRequest =
  cr_FromAsset :: string
  cr_ToAsset :: string
  cr_Amount :: float64

record ConvertResponse =
  cv_ConvertID :: string
  cv_FromAsset :: string
  cv_ToAsset :: string
  cv_FromAmount :: float64
  cv_ToAmount :: float64
  cv_Price :: float64
  cv_FeesUSD :: float64
  cv_Status :: string

record NetworkFee =
  nf_Network :: string
  nf_Fee :: float64
  nf_MinAmount :: float64
  nf_MaxAmount :: float64
  nf_EstTimeSec :: int

record VenueInfo =
  vi_Name :: string
  vi_SupportedAssets :: "string list"
  vi_SupportedNetworks :: "string list"
  vi_FeeTakerBps :: float64
  vi_FeeMakerBps :: float64

record VenueConstraints =
  vc_Symbol :: string
  vc_TickSize :: float64
  vc_LotSize :: float64
  vc_MinQty :: float64
  vc_MaxQty :: float64
  vc_MinNotional :: float64
  vc_PostOnly :: bool
  vc_ReduceOnly :: bool

record TickerPrice =
  tp_Symbol :: string
  tp_Price :: float64
  tp_TsMs :: int64

text \<open>\<open>math.Round\<close> rounds half away from zero, \<open>math.Floor\<close> down.\<close>

definition math_Round :: "real \<Rightarrow> real" where
  "math_Round x = (if x < 0 then - of_int \<lfloor>- x + 1 / 2\<rfloor> else of_int \<lfloor>x + 1 / 2\<rfloor>)"

definition RoundPrice :: "VenueConstraints \<Rightarrow> float64 \<Rightarrow> float64" where
  "RoundPrice vc price =
     (if vc_TickSize vc \<le> 0 then price else math_Round (price / vc_TickSize vc) * vc_TickSize vc)"

definition RoundQty :: "VenueConstraints \<Rightarrow> float64 \<Rightarrow> float64" where
  "RoundQty vc qty =
     (if vc_LotSize vc \<le> 0 then qty else of_int \<lfloor>qty / vc_LotSize vc\<rfloor> * vc_LotSize vc)"

section \<open>The interface\<close>

type_synonym ('w, 'a) answer = "'w \<Rightarrow> (gotext + 'a) \<times> 'w"

record 'w Exchange =
  Name :: string
  PlaceOrder :: "OrderRequest \<Rightarrow> ('w, OrderResponse) answer"
  CancelOrder :: "string \<Rightarrow> string \<Rightarrow> ('w, unit) answer"
  GetOrder :: "string \<Rightarrow> string \<Rightarrow> ('w, OrderResponse) answer"
  GetBalances :: "('w, Balance list) answer"
  GetPositions :: "('w, Position list) answer"
  Withdraw :: "WithdrawRequest \<Rightarrow> ('w, WithdrawResponse) answer"
  GetWithdrawStatus :: "string \<Rightarrow> ('w, WithdrawResponse) answer"
  GetDepositAddress :: "string \<Rightarrow> string \<Rightarrow> ('w, DepositAddress) answer"
  GetDeposits :: "string \<Rightarrow> int \<Rightarrow> ('w, DepositRecord list) answer"
  GetNetworkFees :: "string \<Rightarrow> ('w, NetworkFee list) answer"
  GetTickerPrice :: "string \<Rightarrow> ('w, TickerPrice) answer"
  GetConstraints :: "string \<Rightarrow> ('w, VenueConstraints option) answer"
  Converter_Convert :: "(ConvertRequest \<Rightarrow> ('w, ConvertResponse) answer) option"
  Converter_GetConvertStatus :: "(string \<Rightarrow> ('w, ConvertResponse) answer) option"
  Amender_AmendOrder :: "(AmendOrderRequest \<Rightarrow> ('w, OrderResponse) answer) option"
  ADLDetector_DetectADLEvents :: "(int64 \<Rightarrow> ('w, ADLEvent list) answer) option"
  DepositWatcher_GetFiatDeposits :: "(string \<Rightarrow> int \<Rightarrow> ('w, DepositRecord list) answer) option"

section \<open>The registry\<close>

record ('w, 'c) Registry =
  rg_exchanges :: "(string \<times> 'w Exchange) list"
  rg_creds :: "string \<Rightarrow> ('w, 'c) answer"
  rg_factories :: "string \<rightharpoonup> ('c \<Rightarrow> gotext + 'w Exchange)"

definition NewRegistry :: "(string \<Rightarrow> ('w, 'c) answer) \<Rightarrow> ('w, 'c) Registry" where
  "NewRegistry creds = \<lparr>rg_exchanges = [], rg_creds = creds, rg_factories = Map.empty\<rparr>"

definition RegisterFactory ::
  "string \<Rightarrow> ('c \<Rightarrow> gotext + 'w Exchange) \<Rightarrow> ('w, 'c) Registry \<Rightarrow> ('w, 'c) Registry" where
  "RegisterFactory venue f r = r\<lparr>rg_factories := (rg_factories r)(venue \<mapsto> f)\<rparr>"

definition Register :: "string \<Rightarrow> 'w Exchange \<Rightarrow> ('w, 'c) Registry \<Rightarrow> ('w, 'c) Registry" where
  "Register venue ex r = r\<lparr>rg_exchanges := AList.update venue ex (rg_exchanges r)\<rparr>"

text \<open>The error of \<open>Get\<close> keeps its own message; the wrapped cause is dropped.\<close>

definition Registry_Get ::
  "('w, 'c) Registry \<Rightarrow> string \<Rightarrow> 'w \<Rightarrow> ((gotext + 'w Exchange) \<times> ('w, 'c) Registry) \<times> 'w" where
  "Registry_Get r venue w =
     (case map_of (rg_exchanges r) venue of
        Some ex \<Rightarrow> ((Inr ex, r), w)
      | None \<Rightarrow>
          (case rg_factories r venue of
             None \<Rightarrow> ((Inl (Sprintf ''no factory registered for venue %q'' [AStr venue]), r), w)
           | Some factory \<Rightarrow>
               (case rg_creds r venue w of
                  (Inl err, w) \<Rightarrow> ((Inl (Sprintf ''getting credentials for %s: %w'' [AStr venue]), r), w)
                | (Inr creds, w) \<Rightarrow>
                    (case factory creds of
                       Inl err \<Rightarrow> ((Inl (Sprintf ''creating exchange client for %s: %w'' [AStr venue]), r), w)
                     | Inr ex \<Rightarrow> ((Inr ex, Register venue ex r), w)))))"

definition Registry_All :: "('w, 'c) Registry \<Rightarrow> (string \<times> 'w Exchange) list" where
  "Registry_All r = rg_exchanges r"

section \<open>Lemmas\<close>

lemma side_of_simps [simp]: "side_of ''BUY'' = SideBuy" "side_of ''SELL'' = SideSell"
  by (simp_all add: side_of_def)

text \<open>A client that was handed out is kept, and handed out again without a look at the world.\<close>

lemma Register_lookup:
  "map_of (rg_exchanges (Register venue ex r)) v =
     (if v = venue then Some ex else map_of (rg_exchanges r) v)"
  by (simp add: Register_def update_conv)

interpretation registry_store:
  keyed_store "\<lambda>r v. the (map_of (rg_exchanges r) v)" "\<lambda>r v ex. Register v ex r"
  by unfold_locales (simp_all add: Register_lookup)

lemma Registry_Get_known [simp]:
  "map_of (rg_exchanges r) v = Some ex \<Longrightarrow> Registry_Get r v w = ((Inr ex, r), w)"
  by (simp add: Registry_Get_def)

lemma Registry_Get_kept:
  assumes "Registry_Get r v w = ((Inr ex, r'), w')"
  shows "map_of (rg_exchanges r') v = Some ex \<and>
    (\<forall>u ex'. map_of (rg_exchanges r) u = Some ex' \<longrightarrow> map_of (rg_exchanges r') u = Some ex')"
  using assms
  by (auto simp: Registry_Get_def Register_lookup split: option.splits sum.splits prod.splits if_splits)

lemma Registry_Get_failed:
  assumes "Registry_Get r v w = ((Inl err, r'), w')"
  shows "r' = r"
  using assms by (auto simp: Registry_Get_def split: option.splits sum.splits prod.splits)

text \<open>Rounding of quantities goes down by less than a lot, rounding of prices moves at most half a tick.\<close>

lemma RoundQty_bounds:
  "RoundQty vc q \<le> q" "0 < vc_LotSize vc \<Longrightarrow> q < RoundQty vc q + vc_LotSize vc"
proof -
  show "RoundQty vc q \<le> q"
  proof (cases "vc_LotSize vc \<le> 0")
    case False
    then have "of_int \<lfloor>q / vc_LotSize vc\<rfloor> * vc_LotSize vc \<le> (q / vc_LotSize vc) * vc_LotSize vc"
      by (intro mult_right_mono) auto
    with False show ?thesis by (simp add: RoundQty_def)
  qed (simp add: RoundQty_def)
next
  assume l: "0 < vc_LotSize vc"
  have "q / vc_LotSize vc < of_int \<lfloor>q / vc_LotSize vc\<rfloor> + 1" by linarith
  then have "(q / vc_LotSize vc) * vc_LotSize vc < (of_int \<lfloor>q / vc_LotSize vc\<rfloor> + 1) * vc_LotSize vc"
    using l by (rule mult_strict_right_mono)
  with l show "q < RoundQty vc q + vc_LotSize vc" by (simp add: RoundQty_def algebra_simps)
qed

lemma RoundQty_nonneg: "0 \<le> q \<Longrightarrow> 0 \<le> RoundQty vc q"
  by (auto simp: RoundQty_def intro!: mult_nonneg_nonneg)

lemma math_Round_near: "\<bar>math_Round x - x\<bar> \<le> 1 / 2"
proof (cases "x < 0")
  case True
  then show ?thesis by (simp only: math_Round_def if_True) linarith
next
  case False
  then show ?thesis by (simp only: math_Round_def if_False) linarith
qed

lemma RoundPrice_near: "\<bar>RoundPrice vc p - p\<bar> \<le> max 0 (vc_TickSize vc) / 2"
proof (cases "vc_TickSize vc \<le> 0")
  case False
  then have "RoundPrice vc p - p = (math_Round (p / vc_TickSize vc) - p / vc_TickSize vc) * vc_TickSize vc"
    by (simp add: RoundPrice_def left_diff_distrib)
  then have "\<bar>RoundPrice vc p - p\<bar> = \<bar>math_Round (p / vc_TickSize vc) - p / vc_TickSize vc\<bar> * vc_TickSize vc"
    using False by (simp add: abs_mult)
  also have "\<dots> \<le> 1 / 2 * vc_TickSize vc" using False by (intro mult_right_mono math_Round_near) simp
  finally show ?thesis using False by simp
qed (simp add: RoundPrice_def)

end
