(* ===== verification/Treasury.thy ===== *)
theory Treasury
  imports Exchange_Types Transfer_Policy
begin

text \<open>
  internal/treasury: the deposit watcher with its conversion and distribution, the profit sweep
  and the reconciliation report, over the exchange clients of the registry and the transfer
  policy client.  One tick of one of the three loops is one event; a loop's own calls run in
  its order, and what other processes do between two calls is part of the world.  Publications,
  withdrawals and policy questions are the trace.  Redis answers (kill switch, mode, expected
  balances), the clock and \<open>fmt.Sscanf\<close> are parameters of the engine's bus.
\<close>

section \<open>Data\<close>

record DepositEvent =
  de_SchemaVersion :: int
  de_TenantID :: string
  de_DepositID :: string
  de_Source :: string
  de_Asset :: string
  de_Amount :: float64
  de_TxID :: string
  de_DStatus :: string
  de_TsMs :: int64

record ConversionEvent =
  ce_SchemaVersion :: int
  ce_TenantID :: string
  ce_ConvertID :: string
  ce_FromAsset :: string
  ce_ToAsset :: string
  ce_FromAmount :: float64
  ce_ToAmount :: float64
  ce_FeesUSD :: float64
  ce_TsMs :: int64

record DistributionLeg =
  dl_Venue :: string
  dl_Asset :: string
  dl_Amount :: float64
  dl_Network :: string
  dl_WithdrawID :: string
  dl_Status :: string

record DistributionEvent =
  di_SchemaVersion :: int
  di_TenantID :: string
  di_DepositID :: string
  di_TotalAmount :: float64
  di_Legs :: "DistributionLeg list"
  di_TsMs :: int64

record SweepEvent =
  sw_SchemaVersion :: int
  sw_TenantID :: string
  sw_FromVenue :: string
  sw_ToVenue :: string
  sw_Asset :: string
  sw_Amount :: float64
  sw_WithdrawID :: string
  sw_Status :: string
  sw_TsMs :: int64

record VenueReconcile =
  vr_Venue :: string
  vr_BalanceUSD :: float64
  vr_PositionUSD :: float64
  vr_ExpectedUSD :: float64
  vr_DriftUSD :: float64
  vr_DriftPct :: float64

record ReconciliationReport =
  rr_SchemaVersion :: int
  rr_TenantID :: string
  rr_TsMs :: int64
  rr_TotalUSD :: float64
  rr_Venues :: "VenueReconcile list"
  rr_Healthy :: bool
  rr_Alerts :: "gotext list"

record AllocationWeight =
  aw_Venue :: string
  aw_Weight :: float64
  aw_Network :: string

record TreasuryConfig =
  ty_TenantID :: string
  ty_TreasuryVenue :: string
  ty_PollIntervalSec :: int
  ty_AutoConvert :: bool
  ty_ConvertTo :: string
  ty_MinDistributeUSD :: float64
  ty_Allocation :: "AllocationWeight list"
  ty_SweepEnabled :: bool
  ty_SweepIntervalMin :: int
  ty_SweepThresholdUSD :: float64
  ty_ReconcileIntervalMin :: int
  ty_DriftAlertPct :: float64
  ty_TransferPolicyURL :: string
  ty_RedisAddr :: string
  ty_RedisPassword :: string
  ty_RedisUseTLS :: bool

definition TreasuryLoadConfig ::
  "(string \<Rightarrow> TreasuryConfig option) \<Rightarrow> (string \<Rightarrow> string) \<Rightarrow> string option \<Rightarrow> gotext + TreasuryConfig" where
  "TreasuryLoadConfig unmarshal getenv content =
     (case content of
        None \<Rightarrow> Inl (Txt ''reading treasury config'')
      | Some data \<Rightarrow>
          (case unmarshal data of
             None \<Rightarrow> Inl (Txt ''parsing treasury config'')
           | Some c \<Rightarrow>
               (let c = (if getenv ''REDIS_ADDR'' \<noteq> '''' then c\<lparr>ty_RedisAddr := getenv ''REDIS_ADDR''\<rparr> else c);
                    c = (if getenv ''REDIS_PASSWORD'' \<noteq> '''' then c\<lparr>ty_RedisPassword := getenv ''REDIS_PASSWORD''\<rparr> else c);
                    c = (if getenv ''REDIS_TLS'' = ''true'' then c\<lparr>ty_RedisUseTLS := True\<rparr> else c);
                    c = (if getenv ''TENANT_ID'' \<noteq> '''' then c\<lparr>ty_TenantID := getenv ''TENANT_ID''\<rparr> else c);
                    c = (if getenv ''TRANSFER_POLICY_URL'' \<noteq> '''' then c\<lparr>ty_TransferPolicyURL := getenv ''TRANSFER_POLICY_URL''\<rparr> else c);
                    c = (if ty_TenantID c = '''' then c\<lparr>ty_TenantID := ''default''\<rparr> else c);
                    c = (if ty_PollIntervalSec c = 0 then c\<lparr>ty_PollIntervalSec := 30\<rparr> else c);
                    c = (if ty_ConvertTo c = '''' then c\<lparr>ty_ConvertTo := ''USDC''\<rparr> else c);
                    c = (if ty_SweepIntervalMin c = 0 then c\<lparr>ty_SweepIntervalMin := 60\<rparr> else c);
                    c = (if ty_ReconcileIntervalMin c = 0 then c\<lparr>ty_ReconcileIntervalMin := 15\<rparr> else c);
                    c = (if ty_DriftAlertPct c = 0 then c\<lparr>ty_DriftAlertPct := 2\<rparr> else c)
                in Inr c)))"

section \<open>Deposits already seen\<close>

type_synonym LastSeen = "string \<rightharpoonup> go_time"

definition Seen :: "string \<Rightarrow> LastSeen \<Rightarrow> bool" where
  "Seen i ls \<longleftrightarrow> ls i \<noteq> None"

definition MarkSeen :: "go_time \<Rightarrow> string \<Rightarrow> LastSeen \<Rightarrow> LastSeen" where
  "MarkSeen now i ls = ls(i \<mapsto> now)"

definition Prune :: "go_time \<Rightarrow> duration \<Rightarrow> LastSeen \<Rightarrow> LastSeen" where
  "Prune now maxAge ls =
     (\<lambda>i. case ls i of None \<Rightarrow> None | Some ts \<Rightarrow> if ts < now - maxAge then None else Some ts)"

section \<open>The engine\<close>

text \<open>What the engine publishes on its streams.\<close>

datatype treasury_event =
    Deposits DepositEvent
  | Conversions ConversionEvent
  | Distributions DistributionEvent
  | Sweeps SweepEvent
  | Reconciliation ReconciliationReport

text \<open>The trace: publications, policy questions with their answer, and withdrawals by venue.\<close>

datatype treasury_out =
    Published treasury_event
  | Asked Request transport
  | Withdrew string WithdrawRequest "gotext + WithdrawResponse"

record 'w Bus =
  bus_Now :: "'w \<Rightarrow> go_time \<times> 'w"
  bus_KillSwitchActive :: "'w \<Rightarrow> bool \<times> 'w"
  bus_SystemMode :: "'w \<Rightarrow> string \<times> 'w"
  bus_GetString :: "string \<Rightarrow> 'w \<Rightarrow> string \<times> 'w"
  bus_Publish :: "treasury_event \<Rightarrow> 'w \<Rightarrow> unit \<times> 'w"
  bus_Sscanf_f :: "string \<Rightarrow> float64 option"

record ('w, 'c) TreasuryEngine = "('w, treasury_out) io" +
  te_cfg :: TreasuryConfig
  te_registry :: "('w, 'c) Registry"
  te_bus :: "'w Bus"
  te_seen :: LastSeen
  te_policy :: "(Request \<Rightarrow> 'w \<Rightarrow> transport \<times> 'w) option"

type_synonym ('w, 'c, 'a) treasury = "(('w, 'c) TreasuryEngine, 'a) state"

text \<open>The policy client is built only when a URL is configured.\<close>

definition NewTreasuryEngine ::
  "TreasuryConfig \<Rightarrow> ('w, 'c) Registry \<Rightarrow> 'w Bus \<Rightarrow> (string \<Rightarrow> Request \<Rightarrow> 'w \<Rightarrow> transport \<times> 'w) \<Rightarrow> 'w
   \<Rightarrow> ('w, 'c) TreasuryEngine" where
  "NewTreasuryEngine cfg registry bus post w =
     \<lparr>world = w, trace = [], te_cfg = cfg, te_registry = registry, te_bus = bus, te_seen = Map.empty,
      te_policy = (if ty_TransferPolicyURL cfg \<noteq> '''' then Some (post (ty_TransferPolicyURL cfg)) else None)\<rparr>"

definition now_time :: "('w, 'c, go_time) treasury" where
  "now_time = do { b \<leftarrow> asks te_bus; query (bus_Now b) }"

definition now_ms :: "('w, 'c, int64) treasury" where
  "now_ms = do { t \<leftarrow> now_time; State_Monad.return (UnixMilli t) }"

definition publish :: "treasury_event \<Rightarrow> ('w, 'c, unit) treasury" where
  "publish ev = do { tell (Published ev); b \<leftarrow> asks te_bus; query (bus_Publish b ev) }"

definition client :: "string \<Rightarrow> ('w, 'c, gotext + 'w Exchange) treasury" where
  "client venue = do {
     reg \<leftarrow> asks te_registry;
     p \<leftarrow> query (Registry_Get reg venue);
     modify (\<lambda>s. s\<lparr>te_registry := snd p\<rparr>);
     State_Monad.return (fst p)
   }"

text \<open>Guards of every round that moves funds.\<close>

definition may_move :: "('w, 'c, bool) treasury" where
  "may_move = do {
     b \<leftarrow> asks te_bus;
     killed \<leftarrow> query (bus_KillSwitchActive b);
     if killed then State_Monad.return False
     else do { mode \<leftarrow> query (bus_SystemMode b); State_Monad.return (mode = ''RUNNING'') }
   }"

text \<open>
  \<open>None\<close> lets the transfer pass: there is no policy, or it did not object.  The request is built
  only for a policy.
\<close>

definition policy_check :: "('w, 'c, Request) treasury \<Rightarrow> ('w, 'c, gotext option) treasury" where
  "policy_check mk_req = do {
     p \<leftarrow> asks te_policy;
     case p of
       None \<Rightarrow> State_Monad.return None
     | Some post \<Rightarrow> do {
         req \<leftarrow> mk_req;
         a \<leftarrow> query (post req);
         tell (Asked req a);
         State_Monad.return (MustApprove (\<lambda>_. a) req)
       }
   }"

definition withdraw :: "string \<Rightarrow> 'w Exchange \<Rightarrow> WithdrawRequest \<Rightarrow> ('w, 'c, gotext + WithdrawResponse) treasury" where
  "withdraw venue ex req = do {
     r \<leftarrow> query (Withdraw ex req);
     tell (Withdrew venue req r);
     State_Monad.return r
   }"

section \<open>Distribution\<close>

definition failed_leg :: "AllocationWeight \<Rightarrow> string \<Rightarrow> float64 \<Rightarrow> string \<Rightarrow> DistributionLeg" where
  "failed_leg alloc asset amount network =
     \<lparr>dl_Venue = aw_Venue alloc, dl_Asset = asset, dl_Amount = amount, dl_Network = network,
      dl_WithdrawID = '''', dl_Status = ''FAILED''\<rparr>"

definition dist_request :: "TreasuryConfig \<Rightarrow> string \<Rightarrow> string \<Rightarrow> float64 \<Rightarrow> string \<Rightarrow> string \<Rightarrow> Request" where
  "dist_request cfg depositID venue amount address asset =
     \<lparr>rq_ID = ''dist-'' @ depositID @ ''-'' @ venue, rq_TenantID = ty_TenantID cfg,
      rq_FromVenue = ty_TreasuryVenue cfg, rq_ToVenue = venue, rq_ToAddress = address, rq_Asset = asset,
      rq_AmountUSD = amount, rq_Network = '''', rq_Region = '''', rq_RequestedAt = zero_time,
      rq_RequestedBy = ''treasury-engine''\<rparr>"

definition send_leg ::
  "string \<Rightarrow> string \<Rightarrow> AllocationWeight \<Rightarrow> float64 \<Rightarrow> 'w Exchange \<Rightarrow> DepositAddress
   \<Rightarrow> ('w, 'c, DistributionLeg list) treasury" where
  "send_leg depositID asset alloc amount ex depAddr = do {
     cfg \<leftarrow> asks te_cfg;
     denied \<leftarrow> policy_check (State_Monad.return (dist_request cfg depositID (aw_Venue alloc) amount (da_Address depAddr) asset));
     case denied of
       Some err \<Rightarrow> State_Monad.return [(failed_leg alloc asset amount (aw_Network alloc))\<lparr>dl_Status := ''POLICY_DENIED''\<rparr>]
     | None \<Rightarrow> do {
         r \<leftarrow> withdraw (ty_TreasuryVenue cfg) ex \<lparr>wr_Asset = asset, wr_Amount = amount,
                wr_Address = da_Address depAddr, wr_Network = aw_Network alloc, wr_Tag = da_Tag depAddr\<rparr>;
         case r of
           Inl err \<Rightarrow> State_Monad.return [failed_leg alloc asset amount (aw_Network alloc)]
         | Inr resp \<Rightarrow> State_Monad.return [(failed_leg alloc asset amount (aw_Network alloc))
                         \<lparr>dl_WithdrawID := ws_WithdrawID resp, dl_Status := ''SENT''\<rparr>]
       }
   }"

definition distribute_leg ::
  "string \<Rightarrow> string \<Rightarrow> float64 \<Rightarrow> AllocationWeight \<Rightarrow> ('w, 'c, DistributionLeg list) treasury" where
  "distribute_leg depositID asset totalAmount alloc =
     (let amount = totalAmount * aw_Weight alloc in
      if amount < 1 then State_Monad.return []
      else do {
        cfg \<leftarrow> asks te_cfg;
        ex \<leftarrow> client (ty_TreasuryVenue cfg);
        case ex of
          Inl err \<Rightarrow> State_Monad.return [failed_leg alloc asset amount '''']
        | Inr ex \<Rightarrow> do {
            targetEx \<leftarrow> client (aw_Venue alloc);
            case targetEx of
              Inl err \<Rightarrow> State_Monad.return [failed_leg alloc asset amount '''']
            | Inr targetEx \<Rightarrow> do {
                depAddr \<leftarrow> query (GetDepositAddress targetEx asset (aw_Network alloc));
                case depAddr of
                  Inl err \<Rightarrow> State_Monad.return [failed_leg alloc asset amount (aw_Network alloc)]
                | Inr depAddr \<Rightarrow> send_leg depositID asset alloc amount ex depAddr
              }
          }
      })"

definition distribute :: "string \<Rightarrow> string \<Rightarrow> float64 \<Rightarrow> ('w, 'c, unit) treasury" where
  "distribute depositID asset totalAmount = do {
     now \<leftarrow> now_ms;
     cfg \<leftarrow> asks te_cfg;
     legs \<leftarrow> collect (ty_Allocation cfg) (distribute_leg depositID asset totalAmount);
     publish (Distributions \<lparr>di_SchemaVersion = 1, di_TenantID = ty_TenantID cfg, di_DepositID = depositID,
        di_TotalAmount = totalAmount, di_Legs = legs, di_TsMs = now\<rparr>)
   }"

section \<open>Deposits\<close>

definition convert :: "string \<Rightarrow> string \<Rightarrow> float64 \<Rightarrow> ('w, 'c, gotext + ConvertResponse) treasury" where
  "convert frm to amount = do {
     cfg \<leftarrow> asks te_cfg;
     ex \<leftarrow> client (ty_TreasuryVenue cfg);
     case ex of
       Inl err \<Rightarrow> State_Monad.return (Inl err)
     | Inr ex \<Rightarrow>
         (case Converter_Convert ex of
            None \<Rightarrow> State_Monad.return (Inl (Sprintf ''venue %s does not support conversion'' [AStr (ty_TreasuryVenue cfg)]))
          | Some conv \<Rightarrow> query (conv \<lparr>cr_FromAsset = frm, cr_ToAsset = to, cr_Amount = amount\<rparr>))
   }"

text \<open>The asset and amount to distribute after the optional conversion; \<open>None\<close> when it failed.\<close>

definition convert_deposit :: "DepositRecord \<Rightarrow> ('w, 'c, (string \<times> float64) option) treasury" where
  "convert_deposit deposit = do {
     cfg \<leftarrow> asks te_cfg;
     if ty_AutoConvert cfg \<and> dr_Asset deposit \<noteq> ty_ConvertTo cfg then do {
       r \<leftarrow> convert (dr_Asset deposit) (ty_ConvertTo cfg) (dr_Amount deposit);
       case r of
         Inl err \<Rightarrow> State_Monad.return None
       | Inr converted \<Rightarrow> do {
           ts \<leftarrow> now_ms;
           publish (Conversions \<lparr>ce_SchemaVersion = 1, ce_TenantID = ty_TenantID cfg,
             ce_ConvertID = cv_ConvertID converted, ce_FromAsset = cv_FromAsset converted,
             ce_ToAsset = cv_ToAsset converted, ce_FromAmount = cv_FromAmount converted,
             ce_ToAmount = cv_ToAmount converted, ce_FeesUSD = cv_FeesUSD converted, ce_TsMs = ts\<rparr>);
           State_Monad.return (Some (cv_ToAsset converted, cv_ToAmount converted))
         }
     }
     else State_Monad.return (Some (dr_Asset deposit, dr_Amount deposit))
   }"

definition processDeposit :: "DepositRecord \<Rightarrow> ('w, 'c, unit) treasury" where
  "processDeposit deposit = do {
     now \<leftarrow> now_ms;
     cfg \<leftarrow> asks te_cfg;
     publish (Deposits \<lparr>de_SchemaVersion = 1, de_TenantID = ty_TenantID cfg, de_DepositID = dr_DepositID deposit,
        de_Source = ty_TreasuryVenue cfg, de_Asset = dr_Asset deposit, de_Amount = dr_Amount deposit,
        de_TxID = dr_TxID deposit, de_DStatus = ''DETECTED'', de_TsMs = now\<rparr>);
     target \<leftarrow> convert_deposit deposit;
     case target of
       None \<Rightarrow> skip
     | Some t \<Rightarrow>
         (if snd t < ty_MinDistributeUSD cfg then skip
          else distribute (dr_DepositID deposit) (fst t) (snd t))
   }"

definition new_deposit :: "DepositRecord \<Rightarrow> ('w, 'c, unit) treasury" where
  "new_deposit d = do {
     seen \<leftarrow> asks te_seen;
     if dr_Status d \<noteq> TransferCompleted \<or> Seen (dr_DepositID d) seen then skip
     else do {
       t \<leftarrow> now_time;
       modify (\<lambda>s. s\<lparr>te_seen := MarkSeen t (dr_DepositID d) (te_seen s)\<rparr>);
       processDeposit d
     }
   }"

definition poll_list :: "('w, DepositRecord list) answer \<Rightarrow> ('w, 'c, unit) treasury" where
  "poll_list get_deposits = do {
     r \<leftarrow> query get_deposits;
     case r of Inl err \<Rightarrow> skip | Inr deposits \<Rightarrow> for_each deposits new_deposit
   }"

text \<open>Errors are only logged by the loop that calls \<open>pollDeposits\<close>.\<close>

definition pollDeposits :: "('w, 'c, unit) treasury" where
  "pollDeposits = do {
     ok \<leftarrow> may_move;
     if \<not> ok then skip
     else do {
       cfg \<leftarrow> asks te_cfg;
       ex \<leftarrow> client (ty_TreasuryVenue cfg);
       case ex of
         Inl err \<Rightarrow> skip
       | Inr ex \<Rightarrow> do {
           (case DepositWatcher_GetFiatDeposits ex of
              None \<Rightarrow> skip
            | Some watcher \<Rightarrow> for_each [''GBP'', ''USD'', ''EUR''] (\<lambda>ccy. poll_list (watcher ccy 10)));
           for_each [''USDC'', ''USDT''] (\<lambda>asset. poll_list (GetDeposits ex asset 10))
         }
     }
   }"

definition deposit_tick :: "('w, 'c, unit) treasury" where
  "deposit_tick = do {
     t \<leftarrow> now_time;
     modify (\<lambda>s. s\<lparr>te_seen := Prune t (24 * hour_ns) (te_seen s)\<rparr>);
     pollDeposits
   }"

section \<open>Sweep\<close>

definition sweep_request :: "TreasuryConfig \<Rightarrow> string \<Rightarrow> int64 \<Rightarrow> string \<Rightarrow> float64 \<Rightarrow> Request" where
  "sweep_request cfg venue ts address sweepable =
     \<lparr>rq_ID = ''sweep-'' @ venue @ ''-'' @ show_int ts, rq_TenantID = ty_TenantID cfg,
      rq_FromVenue = venue, rq_ToVenue = ty_TreasuryVenue cfg, rq_ToAddress = address,
      rq_Asset = ty_ConvertTo cfg, rq_AmountUSD = sweepable, rq_Network = '''', rq_Region = '''',
      rq_RequestedAt = zero_time, rq_RequestedBy = ''treasury-engine''\<rparr>"

definition sweep_balance ::
  "DepositAddress \<Rightarrow> AllocationWeight \<Rightarrow> 'w Exchange \<Rightarrow> Balance \<Rightarrow> ('w, 'c, unit) treasury" where
  "sweep_balance depAddr alloc ex bal = do {
     cfg \<leftarrow> asks te_cfg;
     let sweepable = ba_Free bal - ty_SweepThresholdUSD cfg;
     if ba_Asset bal \<noteq> ty_ConvertTo cfg \<or> sweepable \<le> 0 then skip
     else do {
       denied \<leftarrow> policy_check (do {
         ts \<leftarrow> now_ms;
         State_Monad.return (sweep_request cfg (aw_Venue alloc) ts (da_Address depAddr) sweepable)
       });
       case denied of
         Some err \<Rightarrow> skip
       | None \<Rightarrow> do {
           r \<leftarrow> withdraw (aw_Venue alloc) ex \<lparr>wr_Asset = ty_ConvertTo cfg, wr_Amount = sweepable,
                  wr_Address = da_Address depAddr, wr_Network = aw_Network alloc, wr_Tag = da_Tag depAddr\<rparr>;
           case r of
             Inl err \<Rightarrow> skip
           | Inr resp \<Rightarrow> do {
               ts \<leftarrow> now_ms;
               publish (Sweeps \<lparr>sw_SchemaVersion = 1, sw_TenantID = ty_TenantID cfg, sw_FromVenue = aw_Venue alloc,
                 sw_ToVenue = ty_TreasuryVenue cfg, sw_Asset = ty_ConvertTo cfg, sw_Amount = sweepable,
                 sw_WithdrawID = ws_WithdrawID resp, sw_Status = ''SENT'', sw_TsMs = ts\<rparr>)
             }
         }
     }
   }"

definition sweep_venue :: "DepositAddress \<Rightarrow> AllocationWeight \<Rightarrow> ('w, 'c, unit) treasury" where
  "sweep_venue depAddr alloc = do {
     ex \<leftarrow> client (aw_Venue alloc);
     case ex of
       Inl err \<Rightarrow> skip
     | Inr ex \<Rightarrow> do {
         r \<leftarrow> query (GetBalances ex);
         case r of Inl err \<Rightarrow> skip | Inr balances \<Rightarrow> for_each balances (sweep_balance depAddr alloc ex)
       }
   }"

definition executeSweep :: "('w, 'c, unit) treasury" where
  "executeSweep = do {
     ok \<leftarrow> may_move;
     if \<not> ok then skip
     else do {
       cfg \<leftarrow> asks te_cfg;
       treasuryEx \<leftarrow> client (ty_TreasuryVenue cfg);
       case treasuryEx of
         Inl err \<Rightarrow> skip
       | Inr treasuryEx \<Rightarrow> do {
           r \<leftarrow> query (GetDepositAddress treasuryEx (ty_ConvertTo cfg) ''arbitrum'');
           case r of
             Inl err \<Rightarrow> skip
           | Inr depAddr \<Rightarrow> for_each (ty_Allocation cfg) (sweep_venue depAddr)
         }
     }
   }"

definition sweep_tick :: "('w, 'c, unit) treasury" where
  "sweep_tick = do { cfg \<leftarrow> asks te_cfg; if ty_SweepEnabled cfg then executeSweep else skip }"

section \<open>Reconciliation\<close>

definition balance_usd :: "Balance \<Rightarrow> float64" where
  "balance_usd b = ba_USDValue b +
     (if ba_USDValue b = 0 \<and> ba_Asset b \<in> {''USDC'', ''USDT'', ''USD''} then ba_Total b else 0)"

text \<open>A venue that cannot be read raises an alert; one whose expected value does not parse is left out.\<close>

datatype recon_row = Unread gotext | LeftOut | Row VenueReconcile "gotext option"

definition drift_row :: "TreasuryConfig \<Rightarrow> string \<Rightarrow> float64 \<Rightarrow> float64 \<Rightarrow> float64 \<Rightarrow> recon_row" where
  "drift_row cfg venue balUSD posUSD expected =
     (let drift = balUSD - expected;
          pct = (if 0 < expected then drift / expected * 100 else 0)
      in Row \<lparr>vr_Venue = venue, vr_BalanceUSD = balUSD, vr_PositionUSD = posUSD, vr_ExpectedUSD = expected,
              vr_DriftUSD = drift, vr_DriftPct = pct\<rparr>
           (if ty_DriftAlertPct cfg < \<bar>pct\<bar>
            then Some (Sprintf ''%s drift %.1f%% ($%.2f)'' [AStr venue, AFlt pct, AFlt drift]) else None))"

definition recon_venue :: "string \<Rightarrow> ('w, 'c, recon_row) treasury" where
  "recon_venue venue = do {
     cfg \<leftarrow> asks te_cfg;
     b \<leftarrow> asks te_bus;
     ex \<leftarrow> client venue;
     case ex of
       Inl err \<Rightarrow> State_Monad.return (Unread (Sprintf ''cannot connect to %s'' [AStr venue]))
     | Inr ex \<Rightarrow> do {
         r \<leftarrow> query (GetBalances ex);
         case r of
           Inl err \<Rightarrow> State_Monad.return (Unread (Sprintf ''cannot get balances from %s'' [AStr venue]))
         | Inr balances \<Rightarrow> do {
             p \<leftarrow> query (GetPositions ex);
             let balUSD = (\<Sum>b\<leftarrow>balances. balance_usd b);
             let posUSD = (case p of Inl err \<Rightarrow> 0 | Inr ps \<Rightarrow> (\<Sum>p\<leftarrow>ps. \<bar>po_NotionalUSD p\<bar>));
             expectedStr \<leftarrow> query (bus_GetString b (''treasury:expected:'' @ ty_TenantID cfg @ '':'' @ venue));
             State_Monad.return
               (if expectedStr \<noteq> '''' then
                  (case bus_Sscanf_f b expectedStr of
                     None \<Rightarrow> LeftOut
                   | Some expected \<Rightarrow> drift_row cfg venue balUSD posUSD expected)
                else Row \<lparr>vr_Venue = venue, vr_BalanceUSD = balUSD, vr_PositionUSD = posUSD, vr_ExpectedUSD = 0,
                          vr_DriftUSD = 0, vr_DriftPct = 0\<rparr> None)
           }
       }
   }"

definition add_row :: "ReconciliationReport \<Rightarrow> recon_row \<Rightarrow> ReconciliationReport" where
  "add_row rep row =
     (case row of
        Unread alert \<Rightarrow> rep\<lparr>rr_Alerts := rr_Alerts rep @ [alert], rr_Healthy := False\<rparr>
      | LeftOut \<Rightarrow> rep
      | Row vr alert \<Rightarrow>
          (let rep = (case alert of None \<Rightarrow> rep
                      | Some a \<Rightarrow> rep\<lparr>rr_Alerts := rr_Alerts rep @ [a], rr_Healthy := False\<rparr>)
           in rep\<lparr>rr_TotalUSD := rr_TotalUSD rep + vr_BalanceUSD vr, rr_Venues := rr_Venues rep @ [vr]\<rparr>))"

definition reconcile :: "('w, 'c, ReconciliationReport) treasury" where
  "reconcile = do {
     now \<leftarrow> now_ms;
     cfg \<leftarrow> asks te_cfg;
     rows \<leftarrow> collect (ty_TreasuryVenue cfg # map aw_Venue (ty_Allocation cfg))
       (\<lambda>venue. do { row \<leftarrow> recon_venue venue; State_Monad.return [row] });
     State_Monad.return (foldl add_row \<lparr>rr_SchemaVersion = 1, rr_TenantID = ty_TenantID cfg, rr_TsMs = now,
        rr_TotalUSD = 0, rr_Venues = [], rr_Healthy = True, rr_Alerts = []\<rparr> rows)
   }"

definition reconcile_tick :: "('w, 'c, unit) treasury" where
  "reconcile_tick = do { report \<leftarrow> reconcile; publish (Reconciliation report) }"

section \<open>The three loops\<close>

datatype tick = DepositTick | SweepTick | ReconcileTick

definition treasury_tick :: "tick \<Rightarrow> ('w, 'c, unit) treasury" where
  "treasury_tick t = (case t of DepositTick \<Rightarrow> deposit_tick | SweepTick \<Rightarrow> sweep_tick | ReconcileTick \<Rightarrow> reconcile_tick)"

definition treasury_step :: "('w, 'c) TreasuryEngine \<Rightarrow> tick \<Rightarrow> ('w, 'c) TreasuryEngine" where
  "treasury_step s t = exec (treasury_tick t) s"

section \<open>Invariants of the engine\<close>

lemmas treasury_ops = now_time_def now_ms_def publish_def client_def may_move_def withdraw_def
  convert_def convert_deposit_def processDeposit_def new_deposit_def poll_list_def pollDeposits_def
  deposit_tick_def distribute_def distribute_leg_def send_leg_def sweep_balance_def sweep_venue_def
  executeSweep_def sweep_tick_def recon_venue_def reconcile_def reconcile_tick_def

text \<open>
  What an invariant must allow for every operation to keep it: no answer of the world, no client
  of the registry and no publication can break it.  Deposits and withdrawals are then treated
  where they happen.
\<close>

locale treasury_invariant = outside I
  for I :: "('w, 'c) TreasuryEngine \<Rightarrow> bool" +
  assumes registry_free: "I (s\<lparr>te_registry := r\<rparr>) = I s"
begin

lemma pres_registry: "pres I (modify (\<lambda>s. s\<lparr>te_registry := f s\<rparr>))"
  by (rule pres_modify) (simp add: registry_free)

lemma pres_client: "pres I (client v)"
  unfolding client_def by (intro pres_intros pres_query pres_registry)

lemma pres_now: "pres I now_time" "pres I now_ms"
  unfolding now_ms_def now_time_def by (intro pres_intros pres_query)+

lemma pres_may_move: "pres I may_move"
  unfolding may_move_def by (intro pres_intros pres_query)

lemma pres_publish: "pres I (tell (Published ev)) \<Longrightarrow> pres I (publish ev)"
  unfolding publish_def by (intro pres_intros pres_query)

lemmas pres_calls = pres_query pres_client pres_now pres_may_move pres_publish

end

text \<open>
  An invariant that also holds over the handling of one deposit, over the sweep of one balance
  and over the publication of a report holds over every tick, where it survives the pruning that
  starts a deposit tick.
\<close>

locale treasury_rounds = treasury_invariant I
  for I :: "('w, 'c) TreasuryEngine \<Rightarrow> bool" +
  assumes report_inv: "pres I (tell (Published (Reconciliation rep)))"
    and deposit_inv: "pres I (new_deposit d)"
    and sweep_inv: "pres I (sweep_balance addr alloc ex bal)"
begin

lemma poll_inv: "pres I pollDeposits"
  unfolding pollDeposits_def poll_list_def by (intro pres_intros pres_calls deposit_inv)

lemma sweeps_inv: "pres I sweep_tick"
  unfolding sweep_tick_def executeSweep_def sweep_venue_def
  by (intro pres_intros pres_calls sweep_inv)

lemma reconcile_inv: "pres I reconcile_tick"
  unfolding reconcile_tick_def reconcile_def recon_venue_def Let_def
  by (intro pres_intros pres_calls report_inv)

lemma tick_inv:
  assumes "I s" "t = DepositTick \<Longrightarrow>
    I (s\<lparr>te_seen := Prune (fst (bus_Now (te_bus s) (world s))) (24 * hour_ns) (te_seen s)\<rparr>)"
  shows "I (treasury_step s t)"
proof (cases t)
  case DepositTick
  let ?s = "s\<lparr>te_seen := Prune (fst (bus_Now (te_bus s) (world s))) (24 * hour_ns) (te_seen s)\<rparr>"
  let ?t = "s\<lparr>world := snd (bus_Now (te_bus s) (world s)),
    te_seen := Prune (fst (bus_Now (te_bus s) (world s))) (24 * hour_ns) (te_seen s)\<rparr>"
  have "?t = ?s\<lparr>world := snd (bus_Now (te_bus s) (world s))\<rparr>" by (cases s) simp
  then have "I ?t" using assms(2) DepositTick by (simp only: world_free)
  then have "wp pollDeposits (\<lambda>_. I) ?t" by (rule presD [OF poll_inv])
  then show ?thesis
    by (simp add: DepositTick treasury_step_def treasury_tick_def wp_exec [symmetric] deposit_tick_def now_time_def
        case_prod_beta)
next
  case SweepTick
  then show ?thesis using assms(1) by (simp add: treasury_step_def treasury_tick_def pres_exec sweeps_inv)
next
  case ReconcileTick
  then show ?thesis using assms(1) by (simp add: treasury_step_def treasury_tick_def pres_exec reconcile_inv)
qed

end

locale treasury_machine = treasury_rounds I
  for I :: "('w, 'c) TreasuryEngine \<Rightarrow> bool" +
  assumes seen_free: "I (s\<lparr>te_seen := m\<rparr>) = I s"
begin

sublocale rounds: invariant_machine treasury_step "\<lambda>_. True" I
  by unfold_locales (simp add: tick_inv seen_free)

end

text \<open>
  Policed: directly before each withdrawal the policy service was asked about it, and the answer
  was no objection.
\<close>

definition asked_for :: "string \<Rightarrow> WithdrawRequest \<Rightarrow> Request \<Rightarrow> bool" where
  "asked_for v r q \<longleftrightarrow> rq_FromVenue q = v \<and> rq_ToAddress q = wr_Address r \<and> rq_Asset q = wr_Asset r \<and>
     rq_AmountUSD q = wr_Amount r \<and> rq_RequestedBy q = ''treasury-engine''"

definition policed :: "(Request \<Rightarrow> 'w \<Rightarrow> transport \<times> 'w) \<Rightarrow> treasury_out list \<Rightarrow> bool" where
  "policed post out \<longleftrightarrow>
     (\<forall>xs v r a ys. out = xs @ Withdrew v r a # ys \<longrightarrow>
        (\<exists>zs q w. xs = zs @ [Asked q (fst (post q w))] \<and> MustApprove (\<lambda>_. fst (post q w)) q = None \<and> asked_for v r q))"

lemma policed_Nil [simp]: "policed post []"
  by (simp add: policed_def)

lemma append_split_last: "xs @ [x] = us @ y # vs \<longleftrightarrow> (vs = [] \<and> us = xs \<and> y = x) \<or> (\<exists>vs'. vs = vs' @ [x] \<and> xs = us @ y # vs')"
  by (cases vs rule: rev_cases) auto

lemma policed_other:
  assumes "policed post out" "\<And>v r a. x \<noteq> Withdrew v r a"
  shows "policed post (out @ [x])"
  using assms unfolding policed_def append_split_last by blast

lemma policed_withdrawal:
  assumes "policed post out" "MustApprove (\<lambda>_. fst (post q w)) q = None" "asked_for v r q"
  shows "policed post (out @ [Asked q (fst (post q w)), Withdrew v r a])"
proof -
  have "policed post (out @ [Asked q (fst (post q w))])" using assms(1) by (rule policed_other) simp
  then have "policed post ((out @ [Asked q (fst (post q w))]) @ [Withdrew v r a])"
    using assms(2,3) unfolding policed_def append_split_last [of "out @ _"] by blast
  then show ?thesis by simp
qed

definition policed_engine :: "(Request \<Rightarrow> 'w \<Rightarrow> transport \<times> 'w) \<Rightarrow> ('w, 'c) TreasuryEngine \<Rightarrow> bool" where
  "policed_engine post s \<longleftrightarrow> te_policy s = Some post \<and> policed post (trace s)"

interpretation policing_calls: treasury_invariant "policed_engine post"
  by unfold_locales (simp_all add: policed_engine_def)

lemma policing_tell: "(\<And>v r a. x \<noteq> Withdrew v r a) \<Longrightarrow> pres (policed_engine post) (tell x)"
  by (simp add: pres_def policed_engine_def policed_other)

text \<open>Asking first, withdrawing only without an objection.\<close>

lemma policing_checked_withdrawal:
  fixes mk :: "('w, 'c, Request) treasury"
  assumes mk: "\<And>s. policed_engine post s \<Longrightarrow> wp mk (\<lambda>q s'. policed_engine post s' \<and> asked_for v r q) s"
    and f: "\<And>err. pres (policed_engine post) (f err)" and k: "\<And>a. pres (policed_engine post) (k a)"
  shows "pres (policed_engine post)
    (policy_check mk \<bind> (\<lambda>d. case d of None \<Rightarrow> withdraw v ex r \<bind> k | Some err \<Rightarrow> f err))"
proof (rule presI)
  fix s :: "('w, 'c) TreasuryEngine"
  assume s: "policed_engine post s"
  have asked: "policed_engine post (s'\<lparr>world := w, trace := trace s' @ [Asked q b]\<rparr>)"
    if "policed_engine post s'" for s' :: "('w, 'c) TreasuryEngine" and q b w
    using that by (simp add: policed_engine_def policed_other)
  have sent: "policed_engine post (s'\<lparr>world := w', trace := trace s' @ [Asked q (fst (post q w)), Withdrew v r a]\<rparr>)"
    if "policed_engine post s'" "MustApprove (\<lambda>_. fst (post q w)) q = None" "asked_for v r q" for s' :: "('w, 'c) TreasuryEngine" and q a w w'
    using that by (simp add: policed_engine_def policed_withdrawal)
  show "wp (policy_check mk \<bind> (\<lambda>d. case d of None \<Rightarrow> withdraw v ex r \<bind> k | Some err \<Rightarrow> f err)) (\<lambda>_. policed_engine post) s"
    using s presD [OF f asked] presD [OF k sent]
    by (simp add: policy_check_def withdraw_def policed_engine_def [of post s] case_prod_beta)
       (auto intro!: wp_weaken [OF mk [OF s]] split: option.split)
qed

lemma policing_distribute: "pres (policed_engine post) (distribute i asset amt)"
  unfolding distribute_def distribute_leg_def send_leg_def Let_def
  by (intro pres_intros policing_checked_withdrawal policing_calls.pres_calls policing_tell)
     (simp_all add: asked_for_def dist_request_def)

lemma policing_sweep: "pres (policed_engine post) (sweep_balance addr alloc ex bal)"
  unfolding sweep_balance_def Let_def
  by (intro pres_intros policing_checked_withdrawal policing_calls.pres_calls policing_tell)
     (auto simp: asked_for_def sweep_request_def intro: wp_weaken [OF presD [OF policing_calls.pres_now(2)]])

lemma policing_deposit: "pres (policed_engine post) (new_deposit d)"
  unfolding new_deposit_def processDeposit_def convert_deposit_def convert_def
  by (intro pres_intros policing_calls.pres_calls policing_tell policing_distribute)
     (simp_all add: pres_def policed_engine_def)

interpretation policing: treasury_machine "policed_engine post"
  by unfold_locales
     (simp_all add: policing_tell policing_deposit policing_sweep, simp add: policed_engine_def)

lemma policed_run:
  assumes "ty_TransferPolicyURL cfg \<noteq> ''''"
  shows "policed_engine (post (ty_TransferPolicyURL cfg)) (foldl treasury_step (NewTreasuryEngine cfg reg bus post w) ts)"
  by (rule policing.rounds.run_inv) (simp_all add: policed_engine_def NewTreasuryEngine_def assms)

section \<open>Once a day\<close>

text \<open>The deposits detected and the deposits distributed, in the order of the trace.\<close>

fun deposit_ids :: "treasury_out list \<Rightarrow> string list" where
  "deposit_ids (Published (Deposits ev) # out) = de_DepositID ev # deposit_ids out"
| "deposit_ids (_ # out) = deposit_ids out"
| "deposit_ids [] = []"

fun distributed_ids :: "treasury_out list \<Rightarrow> string list" where
  "distributed_ids (Published (Distributions ev) # out) = di_DepositID ev # distributed_ids out"
| "distributed_ids (_ # out) = distributed_ids out"
| "distributed_ids [] = []"

lemma deposit_ids_append: "deposit_ids (xs @ ys) = deposit_ids xs @ deposit_ids ys"
  by (induction xs rule: deposit_ids.induct) simp_all

lemma distributed_ids_append: "distributed_ids (xs @ ys) = distributed_ids xs @ distributed_ids ys"
  by (induction xs rule: distributed_ids.induct) simp_all

definition handled :: "string \<Rightarrow> treasury_out list \<Rightarrow> nat \<times> nat" where
  "handled i out = (count_list (deposit_ids out) i, count_list (distributed_ids out) i)"

definition concerns :: "string \<Rightarrow> treasury_out \<Rightarrow> bool" where
  "concerns i x \<longleftrightarrow> handled i [x] \<noteq> (0, 0)"

lemma handled_append: "handled i (xs @ ys) = (fst (handled i xs) + fst (handled i ys), snd (handled i xs) + snd (handled i ys))"
  by (simp add: handled_def deposit_ids_append distributed_ids_append)

lemma handled_other: "\<not> concerns i x \<Longrightarrow> handled i (xs @ [x]) = handled i xs"
  by (simp add: handled_append concerns_def)

lemma concerns_simps [simp]:
  "\<not> concerns i (Published (Conversions c))" "\<not> concerns i (Published (Sweeps w))"
  "\<not> concerns i (Published (Reconciliation rep))" "\<not> concerns i (Asked q b)" "\<not> concerns i (Withdrew v r a)"
  "concerns i (Published (Deposits ev)) \<longleftrightarrow> de_DepositID ev = i"
  "concerns i (Published (Distributions di)) \<longleftrightarrow> di_DepositID di = i"
  by (simp_all add: concerns_def handled_def)

definition remembered :: "string \<Rightarrow> go_time \<Rightarrow> nat \<times> nat \<Rightarrow> ('w, 'c) TreasuryEngine \<Rightarrow> bool" where
  "remembered i t n s \<longleftrightarrow> te_seen s i = Some t \<and> handled i (trace s) = n"

interpretation remember_calls: treasury_invariant "remembered i t n"
  by unfold_locales (simp_all add: remembered_def)

lemma remembered_tell: "\<not> concerns i x \<Longrightarrow> pres (remembered i t n) (tell x)"
  by (simp add: pres_def remembered_def handled_other)

lemma remembered_policy: "pres (remembered i t n) mk \<Longrightarrow> pres (remembered i t n) (policy_check mk)"
  unfolding policy_check_def by (intro pres_intros remember_calls.pres_calls remembered_tell) simp_all

lemma remembered_withdraw: "pres (remembered i t n) (withdraw v ex r)"
  unfolding withdraw_def by (intro pres_intros remember_calls.pres_calls remembered_tell) simp_all

lemma remembered_distribute: "j \<noteq> i \<Longrightarrow> pres (remembered i t n) (distribute j asset amt)"
  unfolding distribute_def distribute_leg_def send_leg_def Let_def
  by (intro pres_intros remember_calls.pres_calls remembered_tell remembered_policy remembered_withdraw) simp_all

lemma remembered_process: "dr_DepositID d \<noteq> i \<Longrightarrow> pres (remembered i t n) (processDeposit d)"
  unfolding processDeposit_def convert_deposit_def convert_def
  by (intro pres_intros remember_calls.pres_calls remembered_tell remembered_distribute) simp_all

lemma remembered_new: "pres (remembered i t n) (new_deposit d)"
proof (rule presI)
  fix s :: "('a, 'b) TreasuryEngine"
  assume s: "remembered i t n s"
  show "wp (new_deposit d) (\<lambda>_. remembered i t n) s"
  proof (cases "dr_DepositID d = i")
    case True
    with s show ?thesis by (simp add: new_deposit_def remembered_def Seen_def)
  next
    case False
    have "pres (remembered i t n) (do { t \<leftarrow> now_time;
        modify (\<lambda>s. s\<lparr>te_seen := MarkSeen t (dr_DepositID d) (te_seen s)\<rparr>); processDeposit d })"
      by (intro pres_intros remember_calls.pres_calls remembered_process pres_modify False)
         (use False in \<open>simp add: remembered_def MarkSeen_def\<close>)
    then show ?thesis using s presD by (fastforce simp: new_deposit_def)
  qed
qed

lemma remembered_sweep: "pres (remembered i t n) (sweep_balance addr alloc ex bal)"
  unfolding sweep_balance_def Let_def
  by (intro pres_intros remember_calls.pres_calls remembered_tell remembered_policy remembered_withdraw) simp_all

interpretation remember: treasury_rounds "remembered i t n"
  by unfold_locales (simp_all add: remembered_tell remembered_new remembered_sweep)

definition clock :: "('w, 'c) TreasuryEngine \<Rightarrow> go_time" where
  "clock s = fst (bus_Now (te_bus s) (world s))"

lemma remembered_step:
  assumes "remembered i t n s" "tk = DepositTick \<longrightarrow> clock s \<le> t + 24 * hour_ns"
  shows "remembered i t n (treasury_step s tk)"
  using assms by (intro remember.tick_inv) (auto simp: remembered_def clock_def Prune_def)

text \<open>
  C19.  Over any sequence of ticks, a deposit that was marked at some time is neither detected nor
  distributed again as long as no deposit tick starts more than 24 hours after the mark.
\<close>

theorem a_deposit_is_handled_once_a_day:
  assumes "te_seen s i = Some t"
    and "\<forall>xs ys. ts = xs @ DepositTick # ys \<longrightarrow> clock (foldl treasury_step s xs) \<le> t + 24 * hour_ns"
  shows "handled i (trace (foldl treasury_step s ts)) = handled i (trace s)"
proof -
  have "remembered i t (handled i (trace s)) (foldl treasury_step s ts)"
    using assms(2)
  proof (induction ts rule: rev_induct)
    case Nil
    show ?case using assms(1) by (simp add: remembered_def)
  next
    case (snoc tk ts)
    then show ?case by (auto intro!: remembered_step)
  qed
  then show ?thesis by (simp add: remembered_def)
qed

section \<open>What a distribution sends\<close>

text \<open>
  The amount asked for in withdrawals; the withdrawals that the venue accepted, one by one (asset,
  amount, network and the venue's id for it); the amount of the legs; and the legs marked SENT, in
  the same terms.
\<close>

fun withdrawn :: "treasury_out list \<Rightarrow> float64" where
  "withdrawn [] = 0"
| "withdrawn (Withdrew v r a # out) = wr_Amount r + withdrawn out"
| "withdrawn (_ # out) = withdrawn out"

fun accepted :: "treasury_out list \<Rightarrow> (string \<times> float64 \<times> string \<times> string) list" where
  "accepted [] = []"
| "accepted (Withdrew v r a # out) =
     (case a of Inl err \<Rightarrow> [] | Inr resp \<Rightarrow> [(wr_Asset r, wr_Amount r, wr_Network r, ws_WithdrawID resp)]) @ accepted out"
| "accepted (_ # out) = accepted out"

definition leg_total :: "DistributionLeg list \<Rightarrow> float64" where
  "leg_total legs = (\<Sum>l\<leftarrow>legs. dl_Amount l)"

definition sent :: "DistributionLeg list \<Rightarrow> (string \<times> float64 \<times> string \<times> string) list" where
  "sent legs = map (\<lambda>l. (dl_Asset l, dl_Amount l, dl_Network l, dl_WithdrawID l))
     (filter (\<lambda>l. dl_Status l = ''SENT'') legs)"

lemma withdrawn_append: "withdrawn (xs @ ys) = withdrawn xs + withdrawn ys"
  by (induction xs rule: withdrawn.induct) simp_all

lemma accepted_append: "accepted (xs @ ys) = accepted xs @ accepted ys"
  by (induction xs rule: accepted.induct) simp_all

lemma leg_total_simps [simp]:
  "leg_total [] = 0" "leg_total [l] = dl_Amount l" "leg_total (ls @ ls') = leg_total ls + leg_total ls'"
  "sent [] = []"
  "sent [l] = (if dl_Status l = ''SENT'' then [(dl_Asset l, dl_Amount l, dl_Network l, dl_WithdrawID l)] else [])"
  "sent (ls @ ls') = sent ls @ sent ls'"
  by (simp_all add: leg_total_def sent_def)

lemma failed_leg_simps [simp]:
  "dl_Amount (failed_leg alloc asset amount net) = amount" "dl_Status (failed_leg alloc asset amount net) = ''FAILED''"
  "dl_Asset (failed_leg alloc asset amount net) = asset" "dl_Network (failed_leg alloc asset amount net) = net"
  by (simp_all add: failed_leg_def)

lemma silent_client [grows_intros]: "silent (client v)"
  unfolding client_def by (intro grows_intros silent_modify) simp

lemma silent_now [grows_intros]: "silent now_time" "silent now_ms"
  unfolding now_time_def now_ms_def by (intro grows_intros)+

lemma grows_policy_check: "silent mk \<Longrightarrow> grows (policy_check mk) (\<lambda>_ new. withdrawn new = 0 \<and> accepted new = [])"
  unfolding policy_check_def by (intro grows_intros grows_bind [OF grows_tell [where P = "\<lambda>_ new. \<exists>q a. new = [Asked q a]"]]) auto

text \<open>One leg per allocation that is not dust, of the weight's share, with at most one withdrawal of that amount.\<close>

definition leg_spec :: "float64 \<Rightarrow> AllocationWeight list \<Rightarrow> DistributionLeg list \<Rightarrow> treasury_out list \<Rightarrow> bool" where
  "leg_spec amt allocs legs new \<longleftrightarrow>
     withdrawn new \<le> leg_total legs \<and> accepted new = sent legs \<and>
     leg_total legs \<le> amt * (\<Sum>a\<leftarrow>allocs. aw_Weight a) \<and> (\<forall>l\<in>set legs. 1 \<le> dl_Amount l)"

lemma grows_send_leg:
  assumes "0 \<le> amount"
  shows "grows (send_leg i asset alloc amount ex addr) (\<lambda>legs new. (\<exists>l. legs = [l] \<and> dl_Amount l = amount) \<and>
     withdrawn new \<le> leg_total legs \<and> accepted new = sent legs)"
proof -
  have w: "grows (withdraw v ex r) (\<lambda>a new. new = [Withdrew v r a])" for v :: string and ex :: "'w Exchange" and r
    unfolding withdraw_def by (intro grows_intros grows_bind [OF grows_tell [where P = "\<lambda>_ new. new = [_]"]]) auto
  show ?thesis unfolding send_leg_def
    by (intro grows_intros grows_bind [OF grows_policy_check] grows_bind [OF w]) (use assms in \<open>auto simp: withdrawn_append accepted_append\<close>)
qed
lemma grows_distribute_leg:
  assumes "0 \<le> amt" "0 \<le> aw_Weight alloc"
  shows "grows (distribute_leg i asset amt alloc) (leg_spec amt [alloc])"
proof -
  have a: "0 \<le> amt * aw_Weight alloc" using assms by simp
  have r: "leg_spec amt [alloc] [failed_leg alloc asset (amt * aw_Weight alloc) net] []"
    if "1 \<le> amt * aw_Weight alloc" for net
    using that by (simp add: leg_spec_def)
  show ?thesis
  proof (cases "amt * aw_Weight alloc < 1")
    case True
    with a show ?thesis by (simp add: distribute_leg_def leg_spec_def grows_return)
  next
    case False
    have "grows (send_leg i asset alloc (amt * aw_Weight alloc) ex addr) (leg_spec amt [alloc])" for ex :: "'w Exchange" and addr
      by (rule grows_weaken [OF grows_send_leg]) (use False a in \<open>auto simp: leg_spec_def\<close>)
    with False r show ?thesis
      unfolding distribute_leg_def Let_def by (auto intro!: grows_intros split: if_split)
  qed
qed

lemma grows_distribution:
  assumes "0 \<le> amt" "\<forall>a\<in>set allocs. 0 \<le> aw_Weight a"
  shows "grows (collect allocs (distribute_leg i asset amt)) (leg_spec amt allocs)"
proof (rule grows_collect)
  show "grows (distribute_leg i asset amt a) (leg_spec amt [a])" if "a \<in> set allocs" for a
    using assms that by (intro grows_distribute_leg) auto
qed (auto simp: leg_spec_def withdrawn_append accepted_append distrib_left intro: add_mono)

text \<open>
  C18.  One distribution of an amount that is not negative, under weights that are not negative (the
  configuration is loaded without a check of either): whatever the exchanges and the policy answer,
  it ends with one event whose legs are worth at least 1 each.  The legs marked SENT are one by one
  the withdrawals that the venue accepted (asset, amount, network, withdrawal id, in order), all
  that was asked for is at most the sum of the legs, and the legs together are at most the amount
  times the sum of the weights: at most the deposit, where the weights add up to at most 1.
\<close>

theorem distribution_never_exceeds_the_deposit:
  assumes "0 \<le> amt" "\<forall>a\<in>set (ty_Allocation (te_cfg s)). 0 \<le> aw_Weight a"
  shows "\<exists>new ev. trace (exec (distribute i asset amt) s) = trace s @ new @ [Published (Distributions ev)] \<and>
    di_DepositID ev = i \<and> di_TotalAmount ev = amt \<and> (\<forall>l\<in>set (di_Legs ev). 1 \<le> dl_Amount l) \<and>
    accepted new = sent (di_Legs ev) \<and> withdrawn new \<le> leg_total (di_Legs ev) \<and>
    leg_total (di_Legs ev) \<le> amt * (\<Sum>a\<leftarrow>ty_Allocation (te_cfg s). aw_Weight a) \<and>
    ((\<Sum>a\<leftarrow>ty_Allocation (te_cfg s). aw_Weight a) \<le> 1 \<longrightarrow> leg_total (di_Legs ev) \<le> amt)"
proof -
  let ?allocs = "ty_Allocation (te_cfg s)"
  let ?Q = "\<lambda>_ s'. \<exists>new ev. trace s' = trace s @ new @ [Published (Distributions ev)] \<and>
    di_DepositID ev = i \<and> di_TotalAmount ev = amt \<and> leg_spec amt ?allocs (di_Legs ev) new"
  define w where "w = snd (bus_Now (te_bus s) (world s))"
  have "wp (distribute i asset amt) ?Q s"
    using growsD [OF grows_distribution [OF assms], of i asset "s\<lparr>world := w\<rparr>"]
    by (simp add: distribute_def now_ms_def now_time_def publish_def case_prod_beta w_def)
  then obtain new ev where n: "trace (exec (distribute i asset amt) s) = trace s @ new @ [Published (Distributions ev)]"
    "di_DepositID ev = i" "di_TotalAmount ev = amt" "leg_spec amt ?allocs (di_Legs ev) new"
    unfolding wp_exec by blast
  have "amt * (\<Sum>a\<leftarrow>?allocs. aw_Weight a) \<le> amt" if "(\<Sum>a\<leftarrow>?allocs. aw_Weight a) \<le> 1"
    using assms(1) that by (simp add: mult_left_le)
  then have "leg_total (di_Legs ev) \<le> amt" if "(\<Sum>a\<leftarrow>?allocs. aw_Weight a) \<le> 1"
    using n(4) that by (fastforce simp: leg_spec_def)
  with n show ?thesis unfolding leg_spec_def by (intro exI [of _ new] exI [of _ ev]) simp
qed

section \<open>A deposit that stays listed\<close>

definition distributed_at_least :: "string \<Rightarrow> nat \<Rightarrow> ('w, 'c) TreasuryEngine \<Rightarrow> bool" where
  "distributed_at_least i n s \<longleftrightarrow> n \<le> snd (handled i (trace s))"

interpretation counting_calls: treasury_invariant "distributed_at_least i n"
  by unfold_locales (simp_all add: distributed_at_least_def)

lemma counting_tell: "pres (distributed_at_least i n) (tell x)"
  by (simp add: pres_def distributed_at_least_def handled_append)

lemma counting_modify: "(\<And>s. trace (f s) = trace s) \<Longrightarrow> pres (distributed_at_least i n) (modify f)"
  by (simp add: pres_def distributed_at_least_def)

lemmas counting = pres_intros counting_calls.pres_calls counting_tell counting_modify

lemma counting_legs: "pres (distributed_at_least i n) (collect as (distribute_leg j asset amt))"
  unfolding distribute_leg_def send_leg_def policy_check_def withdraw_def Let_def by (intro counting)

lemma counting_deposit: "pres (distributed_at_least i n) (new_deposit d)"
  unfolding new_deposit_def processDeposit_def convert_deposit_def convert_def distribute_def
  by (intro counting counting_legs) simp

lemma distribute_counts:
  assumes "n = snd (handled i (trace s))"
  shows "wp (distribute i asset amt) (\<lambda>_. distributed_at_least i (Suc n)) s"
proof -
  let ?s = "s\<lparr>world := snd (bus_Now (te_bus s) (world s))\<rparr>"
  have "distributed_at_least i n ?s" using assms by (simp add: distributed_at_least_def)
  then have "wp (collect (ty_Allocation (te_cfg s)) (distribute_leg i asset amt)) (\<lambda>_. distributed_at_least i n) ?s"
    by (rule presD [OF counting_legs])
  then have "wp (collect (ty_Allocation (te_cfg s)) (distribute_leg i asset amt)) (\<lambda>legs s'.
      wp (publish (Distributions \<lparr>di_SchemaVersion = 1, di_TenantID = ty_TenantID (te_cfg s), di_DepositID = i,
        di_TotalAmount = amt, di_Legs = legs, di_TsMs = UnixMilli (fst (bus_Now (te_bus s) (world s)))\<rparr>))
       (\<lambda>_. distributed_at_least i (Suc n)) s') ?s"
    by (rule wp_weaken)
       (simp add: distributed_at_least_def publish_def handled_append handled_def [of i "[_]"] case_prod_beta)
  then show ?thesis by (simp add: distribute_def now_ms_def now_time_def case_prod_beta)
qed

text \<open>A venue that goes on listing one completed deposit under USDC, and a system that may move funds.\<close>

definition keeps_listing :: "'w Exchange \<Rightarrow> DepositRecord \<Rightarrow> bool" where
  "keeps_listing ex d \<longleftrightarrow> DepositWatcher_GetFiatDeposits ex = None \<and>
     (\<forall>w. fst (GetDeposits ex ''USDC'' 10 w) = Inr [d]) \<and> dr_Status d = TransferCompleted"

definition always_running :: "'w Bus \<Rightarrow> bool" where
  "always_running b \<longleftrightarrow> (\<forall>w. \<not> fst (bus_KillSwitchActive b w) \<and> fst (bus_SystemMode b w) = ''RUNNING'')"

lemma new_deposit_distributes:
  assumes "dr_Status d = TransferCompleted" "te_seen s (dr_DepositID d) = None"
    "\<not> ty_AutoConvert (te_cfg s) \<or> dr_Asset d = ty_ConvertTo (te_cfg s)"
    "ty_MinDistributeUSD (te_cfg s) \<le> dr_Amount d"
  shows "wp (new_deposit d) (\<lambda>_. distributed_at_least (dr_DepositID d) (Suc (snd (handled (dr_DepositID d) (trace s))))) s"
  using assms
  by (auto simp: new_deposit_def Seen_def now_time_def processDeposit_def now_ms_def publish_def convert_deposit_def
      case_prod_beta handled_append handled_def [of _ "[_]"] intro!: distribute_counts)

text \<open>
  A deposit is forgotten after a day: when the venue still lists it among its last deposits at a
  tick more than 24 hours after the mark, the same deposit is distributed once more.
\<close>

theorem a_listed_deposit_is_distributed_again:
  assumes "te_seen s (dr_DepositID d) = Some t" "t + 24 * hour_ns < clock s"
    and "map_of (rg_exchanges (te_registry s)) (ty_TreasuryVenue (te_cfg s)) = Some ex" "keeps_listing ex d"
    and "always_running (te_bus s)" "\<not> ty_AutoConvert (te_cfg s) \<or> dr_Asset d = ty_ConvertTo (te_cfg s)"
      "ty_MinDistributeUSD (te_cfg s) \<le> dr_Amount d"
  shows "snd (handled (dr_DepositID d) (trace s)) < snd (handled (dr_DepositID d) (trace (treasury_step s DepositTick)))"
proof -
  let ?i = "dr_DepositID d"
  let ?n = "snd (handled ?i (trace s))"
  have usdc: "wp (poll_list (GetDeposits ex ''USDC'' 10)) (\<lambda>_. distributed_at_least ?i (Suc ?n)) s'"
    if "te_seen s' ?i = None" "te_cfg s' = te_cfg s" "trace s' = trace s" for s' :: "('a, 'b) TreasuryEngine"
  proof -
    have "wp (new_deposit d) (\<lambda>_. distributed_at_least ?i (Suc ?n)) (s'\<lparr>world := w\<rparr>)" for w
      using new_deposit_distributes [of d "s'\<lparr>world := w\<rparr>"] assms(4,6,7) that by (simp add: keeps_listing_def)
    moreover have "fst (GetDeposits ex ''USDC'' 10 (world s')) = Inr [d]" using assms(4) by (simp add: keeps_listing_def)
    ultimately show ?thesis by (simp add: poll_list_def case_prod_beta)
  qed
  have usdt: "pres (distributed_at_least ?i (Suc ?n)) (poll_list (GetDeposits ex ''USDT'' 10))"
    unfolding poll_list_def by (intro counting counting_deposit)
  have both: "wp (for_each [''USDC'', ''USDT''] (\<lambda>asset. poll_list (GetDeposits ex asset 10))) (\<lambda>_. distributed_at_least ?i (Suc ?n)) s'"
    if "te_seen s' ?i = None" "te_cfg s' = te_cfg s" "trace s' = trace s" for s' :: "('a, 'b) TreasuryEngine"
    using wp_weaken [OF usdc [OF that] presD [OF usdt]] by simp
  have "wp deposit_tick (\<lambda>_. distributed_at_least ?i (Suc ?n)) s"
    using assms both
    by (simp add: deposit_tick_def now_time_def pollDeposits_def may_move_def client_def case_prod_beta
        always_running_def keeps_listing_def Prune_def clock_def)
  then show ?thesis
    by (simp add: wp_exec distributed_at_least_def treasury_step_def treasury_tick_def)
qed

text \<open>
  A conversion that fails leaves the deposit marked: nothing is distributed, and it is not tried
  again before the mark is pruned.
\<close>

lemma failed_conversion_keeps_the_mark:
  assumes "te_seen s (dr_DepositID d) = None" "dr_Status d = TransferCompleted" "ty_AutoConvert (te_cfg s)"
    "dr_Asset d \<noteq> ty_ConvertTo (te_cfg s)"
    "map_of (rg_exchanges (te_registry s)) (ty_TreasuryVenue (te_cfg s)) = Some ex" "Converter_Convert ex = None"
  shows "wp (new_deposit d) (\<lambda>_ s'. te_seen s' (dr_DepositID d) = Some (clock s) \<and>
    snd (handled (dr_DepositID d) (trace s')) = snd (handled (dr_DepositID d) (trace s))) s"
  using assms
  by (simp add: new_deposit_def Seen_def now_time_def processDeposit_def now_ms_def publish_def convert_deposit_def
      convert_def client_def case_prod_beta MarkSeen_def clock_def handled_append handled_def [of _ "[_]"])

section \<open>The kill switch, the sweep and the report\<close>

lemma stopped_system_sends_nothing:
  assumes "(\<forall>w. fst (bus_KillSwitchActive (te_bus s) w)) \<or> (\<forall>w. fst (bus_SystemMode (te_bus s) w) \<noteq> ''RUNNING'')"
    "t \<noteq> ReconcileTick"
  shows "trace (treasury_step s t) = trace s"
proof -
  have "wp (treasury_tick t) (\<lambda>_ s'. trace s' = trace s) s"
    using assms
    by (cases t) (auto simp: treasury_tick_def deposit_tick_def sweep_tick_def executeSweep_def pollDeposits_def
        may_move_def now_time_def case_prod_beta)
  then show ?thesis by (simp add: wp_exec treasury_step_def)
qed

text \<open>
  A sweep withdraws on the network of the allocation to the address it got for arbitrum.
\<close>

definition swept_to :: "DepositAddress \<Rightarrow> AllocationWeight \<Rightarrow> treasury_out \<Rightarrow> bool" where
  "swept_to addr alloc x \<longleftrightarrow>
     (case x of Withdrew v r a \<Rightarrow> v = aw_Venue alloc \<and> wr_Address r = da_Address addr \<and> wr_Network r = aw_Network alloc
      | _ \<Rightarrow> True)"

lemma grows_withdraw: "grows (withdraw v ex r) (\<lambda>a new. new = [Withdrew v r a])"
  unfolding withdraw_def by (intro grows_intros grows_bind [OF grows_tell [where P = "\<lambda>_ new. new = [_]"]]) auto

lemma grows_policy: "silent mk \<Longrightarrow> grows (policy_check mk) (\<lambda>_ new. \<forall>x\<in>set new. swept_to addr alloc x)"
  unfolding policy_check_def
  by (intro grows_intros grows_bind [OF grows_tell [where P = "\<lambda>_ new. \<exists>q a. new = [Asked q a]"]]) (auto simp: swept_to_def)

lemma sweep_pairs_the_arbitrum_address_with_the_venue_network:
  "grows (sweep_venue addr alloc) (\<lambda>_ new. \<forall>x\<in>set new. swept_to addr alloc x)"
proof -
  have p: "grows (publish (Sweeps ev)) (\<lambda>_ new. \<forall>x\<in>set new. swept_to addr alloc x)" for ev
    unfolding publish_def
    by (rule grows_bind [OF grows_tell [where P = "\<lambda>_ new. new = [Published (Sweeps ev)]"]])
       (auto intro!: silent_grows silent_bind silent_query silent_asks simp: swept_to_def)
  have "grows (sweep_balance addr alloc ex bal) (\<lambda>_ new. \<forall>x\<in>set new. swept_to addr alloc x)" for ex :: "'w Exchange" and bal
    unfolding sweep_balance_def Let_def
    by (intro grows_intros grows_bind [OF grows_policy [where addr = addr and alloc = alloc]] grows_bind [OF grows_withdraw]
        grows_weaken [OF p]) (auto simp: swept_to_def)
  then show ?thesis unfolding sweep_venue_def by (intro grows_intros grows_for_each) simp_all
qed

text \<open>The report: healthy exactly without alerts, and its total is that of its rows.\<close>

definition report_ok :: "ReconciliationReport \<Rightarrow> bool" where
  "report_ok rep \<longleftrightarrow> (rr_Healthy rep \<longleftrightarrow> rr_Alerts rep = []) \<and> rr_TotalUSD rep = (\<Sum>v\<leftarrow>rr_Venues rep. vr_BalanceUSD v)"

lemma add_row_ok: "report_ok rep \<Longrightarrow> report_ok (add_row rep row)"
  by (auto simp: report_ok_def add_row_def Let_def split: recon_row.split option.split)

lemma report_is_healthy_without_alerts: "wp reconcile (\<lambda>rep _. report_ok rep) s"
proof -
  have f: "report_ok (foldl add_row rep rows)" if "report_ok rep" for rep rows
    using that by (induction rows arbitrary: rep) (simp_all add: add_row_ok)
  show ?thesis
    unfolding reconcile_def now_ms_def now_time_def
    by (simp add: case_prod_beta del: collect.simps) (intro wp_top f, simp add: report_ok_def)
qed
section \<open>The policy behind the withdrawals\<close>

text \<open>The service at the other end answers with the checks of engines that run one configuration.\<close>

definition served_by :: "(string \<Rightarrow> string) \<Rightarrow> TransferConfig \<Rightarrow> (Request \<Rightarrow> 'w \<Rightarrow> transport \<times> 'w) \<Rightarrow> bool" where
  "served_by sha cfg post \<longleftrightarrow>
     (\<forall>q w. \<exists>content now e. pe_cfg e = cfg \<and> fst (post q w) = Body (snd (handle_check sha content now e (Some q))))"

text \<open>
  C5.  Treasury and transfer policy: where a policy URL is configured and the service behind it runs
  one configuration, every withdrawal of every run of the three loops, distributions and sweeps
  alike, goes to an address on the allowlist for the asset, and its amount is within the limit
  of one transfer to that address.
\<close>

theorem treasury_withdraws_only_to_allowlisted_addresses:
  assumes "ty_TransferPolicyURL cfg \<noteq> ''''" "served_by sha tc (post (ty_TransferPolicyURL cfg))"
    and "Withdrew v r a \<in> set (trace (foldl treasury_step (NewTreasuryEngine cfg reg bus post w) ts))"
  shows "\<exists>entry. allowlistEntry tc (wr_Address r) (wr_Asset r) = Some entry \<and>
    (0 < max_per_tx tc entry \<longrightarrow> wr_Amount r \<le> max_per_tx tc entry)"
proof -
  let ?post = "post (ty_TransferPolicyURL cfg)"
  let ?out = "trace (foldl treasury_step (NewTreasuryEngine cfg reg bus post w) ts)"
  have "policed ?post ?out" using policed_run [OF assms(1), of post reg bus w ts] by (simp add: policed_engine_def)
  moreover obtain xs ys where "?out = xs @ Withdrew v r a # ys" using assms(3) by (meson split_list)
  ultimately obtain q u where q: "MustApprove (\<lambda>_. fst (?post q u)) q = None" "asked_for v r q"
    unfolding policed_def by blast
  obtain content now e where e: "pe_cfg e = tc" "fst (?post q u) = Body (snd (handle_check sha content now e (Some q)))"
    using assms(2) unfolding served_by_def by blast
  let ?q = "if rq_RequestedAt q = zero_time then q\<lparr>rq_RequestedAt := now\<rparr> else q"
  have "MustApprove (\<lambda>r. Body (snd (handle_check sha content now e (Some r)))) q = None"
    using q(1) by (simp add: e(2) MustApprove_def ClientCheck_def)
  then have st: "de_Status (snd (Check sha content now e ?q)) = StatusApproved"
    by (simp add: must_approve_iff_engine_approves)
  obtain e' d where eq: "Check sha content now e ?q = (e', d)" by fastforce
  have "passes_controls sha content now e ?q"
    using Check_approved [OF eq] st by (simp add: eq)
  moreover have "rq_ToAddress ?q = wr_Address r" "rq_Asset ?q = wr_Asset r" "rq_AmountUSD ?q = wr_Amount r"
    using q(2) by (simp_all add: asked_for_def)
  ultimately show ?thesis unfolding passes_controls_def e(1) by auto
qed

section \<open>Concrete data for the witnesses\<close>

definition fixed :: "'a \<Rightarrow> 'w \<Rightarrow> 'a \<times> 'w" where
  "fixed a w = (a, w)"

definition quiet_exchange :: "DepositRecord list \<Rightarrow> 'w Exchange" where
  "quiet_exchange ds =
     \<lparr>Name = ''coinbase'', PlaceOrder = \<lambda>_. fixed (Inl (Txt ''off'')), CancelOrder = \<lambda>_ _. fixed (Inr ()),
      GetOrder = \<lambda>_ _. fixed (Inl (Txt ''off'')), GetBalances = fixed (Inr []), GetPositions = fixed (Inr []),
      Withdraw = \<lambda>r. fixed (Inr \<lparr>ws_WithdrawID = ''w1'', ws_Asset = wr_Asset r, ws_Amount = wr_Amount r, ws_Fee = 0,
         ws_Status = TransferPending, ws_TxID = '''', ws_Network = wr_Network r\<rparr>),
      GetWithdrawStatus = \<lambda>_. fixed (Inl (Txt ''off'')),
      GetDepositAddress = \<lambda>a n. fixed (Inr \<lparr>da_Asset = a, da_Address = ''0xa'', da_Network = n, da_Tag = ''''\<rparr>),
      GetDeposits = \<lambda>a n. fixed (Inr (if a = ''USDC'' then ds else [])), GetNetworkFees = \<lambda>_. fixed (Inr []),
      GetTickerPrice = \<lambda>_. fixed (Inl (Txt ''off'')), GetConstraints = \<lambda>_. fixed (Inr None),
      Converter_Convert = None, Converter_GetConvertStatus = None, Amender_AmendOrder = None,
      ADLDetector_DetectADLEvents = None, DepositWatcher_GetFiatDeposits = None\<rparr>"

definition a_deposit :: DepositRecord where
  "a_deposit = \<lparr>dr_DepositID = ''d1'', dr_Asset = ''USDC'', dr_Amount = 500, dr_Status = TransferCompleted,
     dr_TxID = ''t'', dr_Network = ''arbitrum'', dr_CreatedAt = 0\<rparr>"

definition a_treasury :: TreasuryConfig where
  "a_treasury = \<lparr>ty_TenantID = ''t'', ty_TreasuryVenue = ''coinbase'', ty_PollIntervalSec = 30, ty_AutoConvert = True,
     ty_ConvertTo = ''USDC'', ty_MinDistributeUSD = 100, ty_Allocation = [\<lparr>aw_Venue = ''coinbase'', aw_Weight = 1, aw_Network = ''optimism''\<rparr>],
     ty_SweepEnabled = False, ty_SweepIntervalMin = 60, ty_SweepThresholdUSD = 0, ty_ReconcileIntervalMin = 15,
     ty_DriftAlertPct = 2, ty_TransferPolicyURL = ''http://policy'', ty_RedisAddr = '''', ty_RedisPassword = '''',
     ty_RedisUseTLS = False\<rparr>"

definition one_venue :: "'w Exchange \<Rightarrow> ('w, 'c) Registry" where
  "one_venue ex = Register ''coinbase'' ex (NewRegistry (\<lambda>_. fixed (Inl (Txt ''no credentials''))))"

text \<open>A bus whose world is the time of day; it does not pass by itself.\<close>

definition still_bus :: "go_time Bus" where
  "still_bus = \<lparr>bus_Now = \<lambda>w. (w, w), bus_KillSwitchActive = fixed False, bus_SystemMode = fixed ''RUNNING'',
     bus_GetString = \<lambda>_. fixed '''', bus_Publish = \<lambda>_. fixed (), bus_Sscanf_f = \<lambda>_. None\<rparr>"

definition policy_post :: "string \<Rightarrow> Request \<Rightarrow> 'w \<Rightarrow> transport \<times> 'w" where
  "policy_post url q = fixed (Body (snd (handle_check (\<lambda>x. x) (Some ''h'') 0 (NewPolicyEngine (sample_tc 1000 False)) (Some q))))"

definition treasury_at :: "go_time \<Rightarrow> (go_time, unit) TreasuryEngine" where
  "treasury_at w = NewTreasuryEngine a_treasury (one_venue (quiet_exchange [a_deposit])) still_bus policy_post w"

lemma treasury_at_simps [simp]:
  "te_seen (treasury_at w) = Map.empty" "clock (treasury_at w) = w" "te_cfg (treasury_at w) = a_treasury"
  "map_of (rg_exchanges (te_registry (treasury_at w))) ''coinbase'' = Some (quiet_exchange [a_deposit])"
  "always_running still_bus" "keeps_listing (quiet_exchange [a_deposit]) a_deposit"
  "trace (treasury_at w) = []" "world (treasury_at w) = w" "te_bus (treasury_at w) = still_bus"
  by (simp_all add: treasury_at_def NewTreasuryEngine_def clock_def still_bus_def one_venue_def Register_lookup
      always_running_def fixed_def keeps_listing_def quiet_exchange_def a_deposit_def)

lemma a_deposit_simps [simp]:
  "dr_DepositID a_deposit = ''d1''" "dr_Asset a_deposit = ''USDC''" "dr_Amount a_deposit = 500"
  "ty_ConvertTo a_treasury = ''USDC''" "ty_MinDistributeUSD a_treasury = 100" "ty_TreasuryVenue a_treasury = ''coinbase''"
  "clock (s\<lparr>te_seen := m\<rparr>) = clock s" "handled i [] = (0, 0)"
  by (simp_all add: a_deposit_def a_treasury_def clock_def handled_def)

theorem distribution_never_exceeds_the_deposit_witness:
  "\<exists>new ev. trace (exec (distribute ''d1'' ''USDC'' 500) (treasury_at 0)) = new @ [Published (Distributions ev)] \<and>
    accepted new = sent (di_Legs ev) \<and> withdrawn new \<le> 500"
  using distribution_never_exceeds_the_deposit [of 500 "treasury_at 0" "''d1''" "''USDC''"]
  by (fastforce simp: a_treasury_def)

text \<open>
  Nothing checks the weights: two allocations of 0.6 each make one distribution of 500 ask the venue
  for 600, and both withdrawals are accepted and reported as SENT.
\<close>

definition two_shares :: "(go_time, unit) TreasuryEngine" where
  "two_shares = (treasury_at 0)\<lparr>te_cfg := a_treasury\<lparr>ty_Allocation :=
     [\<lparr>aw_Venue = ''coinbase'', aw_Weight = 3/5, aw_Network = ''optimism''\<rparr>,
      \<lparr>aw_Venue = ''coinbase'', aw_Weight = 3/5, aw_Network = ''base''\<rparr>]\<rparr>, te_policy := None\<rparr>"

lemma weights_above_one_ask_for_more_than_the_deposit:
  "wp (distribute i ''USDC'' 500) (\<lambda>_ s. withdrawn (trace s) = 600 \<and>
     accepted (trace s) = [(''USDC'', 300, ''optimism'', ''w1''), (''USDC'', 300, ''base'', ''w1'')]) two_shares"
  by (simp add: two_shares_def now_time_def now_ms_def client_def case_prod_beta quiet_exchange_def fixed_def
      publish_def distribute_def a_treasury_def distribute_leg_def send_leg_def policy_check_def withdraw_def
      still_bus_def treasury_at_def NewTreasuryEngine_def one_venue_def Register_lookup)

theorem a_listed_deposit_is_distributed_again_witness:
  "0 < snd (handled ''d1'' (trace (treasury_step ((treasury_at (25 * hour_ns))\<lparr>te_seen := [''d1'' \<mapsto> 0]\<rparr>) DepositTick)))"
  using a_listed_deposit_is_distributed_again [where s = "(treasury_at (25 * hour_ns))\<lparr>te_seen := [''d1'' \<mapsto> 0]\<rparr>"
      and d = a_deposit and t = 0 and ex = "quiet_exchange [a_deposit]"]
  by simp

theorem a_deposit_is_handled_once_a_day_witness:
  "handled ''d1'' (trace (foldl treasury_step ((treasury_at (23 * hour_ns))\<lparr>te_seen := [''d1'' \<mapsto> 0]\<rparr>) [DepositTick])) = (0, 0)"
  using a_deposit_is_handled_once_a_day [of "(treasury_at (23 * hour_ns))\<lparr>te_seen := [''d1'' \<mapsto> 0]\<rparr>" "''d1''" 0 "[DepositTick]"]
  by (simp add: Cons_eq_append_conv)

lemma sample_policy_approves:
  assumes "rq_ToAddress q = ''0xa''" "rq_AmountUSD q \<le> 1000"
  shows "MustApprove (\<lambda>_. fst (policy_post url q w)) q = None"
proof -
  let ?e = "NewPolicyEngine (sample_tc 1000 False)"
  let ?q = "if rq_RequestedAt q = zero_time then q\<lparr>rq_RequestedAt := 0\<rparr> else q"
  have q: "rq_ToAddress ?q = ''0xa''" "rq_AmountUSD ?q \<le> 1000" using assms by simp_all
  have p: "passes_controls (\<lambda>x. x) (Some ''h'') 0 ?e ?q"
    using q sample_tc_simps(8) [of 1000 False]
    by (auto simp: NewPolicyEngine_def passes_controls_def TamperCheck_def checkRegionConstraints_def pruneHistory_def
        dailyTotal_def not_less [symmetric])
  obtain e' d where eq: "Check (\<lambda>x. x) (Some ''h'') 0 ?e ?q = (e', d)" by fastforce
  from Check_denied_or_passes [OF eq] p have "de_Status d = StatusApproved"
    by (auto simp: Let_def NewPolicyEngine_def)
  then have "MustApprove (\<lambda>r. Body (snd (handle_check (\<lambda>x. x) (Some ''h'') 0 ?e (Some r)))) q = None"
    using eq by (simp add: must_approve_iff_engine_approves)
  then show ?thesis by (simp add: policy_post_def fixed_def MustApprove_def ClientCheck_def)
qed

definition a_withdrawal :: treasury_out where
  "a_withdrawal = Withdrew ''coinbase''
     \<lparr>wr_Asset = ''USDC'', wr_Amount = 500, wr_Address = ''0xa'', wr_Network = ''optimism'', wr_Tag = ''''\<rparr>
     (Inr \<lparr>ws_WithdrawID = ''w1'', ws_Asset = ''USDC'', ws_Amount = 500, ws_Fee = 0, ws_Status = TransferPending,
           ws_TxID = '''', ws_Network = ''optimism''\<rparr>)"

lemma sample_distribution:
  "wp (treasury_tick DepositTick) (\<lambda>_ s. a_withdrawal \<in> set (trace s)) (treasury_at 0)"
  by (simp add: treasury_tick_def a_withdrawal_def deposit_tick_def now_time_def now_ms_def pollDeposits_def may_move_def
      client_def case_prod_beta poll_list_def quiet_exchange_def fixed_def new_deposit_def Seen_def a_deposit_def
      processDeposit_def convert_deposit_def publish_def distribute_def a_treasury_def distribute_leg_def
      send_leg_def policy_check_def dist_request_def withdraw_def still_bus_def treasury_at_def NewTreasuryEngine_def
      one_venue_def Register_lookup Prune_def MarkSeen_def
      sample_policy_approves)
theorem treasury_withdraws_only_to_allowlisted_addresses_witness:
  "a_withdrawal \<in> set (trace (foldl treasury_step (treasury_at 0) [DepositTick])) \<and>
   (\<exists>entry. allowlistEntry (sample_tc 1000 False) ''0xa'' ''USDC'' = Some entry)"
proof -
  have w: "a_withdrawal \<in> set (trace (foldl treasury_step (treasury_at 0) [DepositTick]))"
    using sample_distribution by (simp add: wp_exec treasury_step_def)
  have s: "served_by (\<lambda>x. x) (sample_tc 1000 False) (policy_post (ty_TransferPolicyURL a_treasury) :: Request \<Rightarrow> go_time \<Rightarrow> _)"
    unfolding served_by_def policy_post_def
    by (intro allI exI [of _ "Some ''h''"] exI [of _ 0] exI [of _ "NewPolicyEngine (sample_tc 1000 False)"])
       (simp add: NewPolicyEngine_def fixed_def)
  have u: "ty_TransferPolicyURL a_treasury \<noteq> ''''" by (simp add: a_treasury_def)
  show ?thesis
    using treasury_withdraws_only_to_allowlisted_addresses [OF u s w [unfolded treasury_at_def a_withdrawal_def]] w
    by auto
qed

end
