(* ===== verification/Paper_Executor.thy ===== *)
theory Paper_Executor
  imports Arb_Engine Execution_Graduation Effects
begin

text \<open>
  internal/execution/paper.go: the price cache and the executor that simulates fills.  Latency,
  the share of maker fills and partial fills are random, so a run is an action over a world that
  holds the clock and the random numbers; what is written to Redis is the trace.
\<close>

section \<open>Price cache\<close>

record PriceCache =
  pc_mids :: "string \<rightharpoonup> float64"
  pc_bands :: "string \<rightharpoonup> float64 \<times> float64"

definition NewPriceCache :: PriceCache where
  "NewPriceCache = \<lparr>pc_mids = Map.empty, pc_bands = Map.empty\<rparr>"

definition PriceCache_Update :: "ConsensusUpdate \<Rightarrow> PriceCache \<Rightarrow> PriceCache" where
  "PriceCache_Update u pc = pc\<lparr>pc_mids := (pc_mids pc)(cu_Symbol u \<mapsto> c_Mid (cu_Consensus u)),
     pc_bands := (pc_bands pc)(cu_Symbol u \<mapsto> (c_BandLow (cu_Consensus u), c_BandHigh (cu_Consensus u)))\<rparr>"

definition PriceCache_Mid :: "PriceCache \<Rightarrow> string \<Rightarrow> float64 option" where
  "PriceCache_Mid pc sy = pc_mids pc sy"

section \<open>The executor\<close>

record posEntry =
  pe_qty :: float64
  pe_entryPrice :: float64
  pe_notional :: float64

text \<open>A position written to Redis: tenant, key and snapshot.\<close>

datatype paper_out = WritePosition string string posEntry

record 'w PaperExecutor = "('w, paper_out) io" +
  px_cfg :: ExecConfig
  px_runtime :: "'w Runtime"
  px_priceCache :: PriceCache
  px_posWriter :: bool
  px_positions :: "string \<rightharpoonup> posEntry"
  px_orderTs :: "int64 list"

type_synonym ('w, 'a) paper = "('w PaperExecutor, 'a) state"

definition NewPaperExecutor :: "ExecConfig \<Rightarrow> PriceCache \<Rightarrow> 'w Runtime \<Rightarrow> 'w \<Rightarrow> 'w PaperExecutor" where
  "NewPaperExecutor cfg cache rt w =
     \<lparr>world = w, trace = [], px_cfg = cfg, px_runtime = rt, px_priceCache = cache, px_posWriter = False,
      px_positions = Map.empty, px_orderTs = []\<rparr>"

definition SetPositionWriter :: "'w PaperExecutor \<Rightarrow> 'w PaperExecutor" where
  "SetPositionWriter e = e\<lparr>px_posWriter := True\<rparr>"

text \<open>The rate limit: stamps older than a minute are cut off, then one slot is taken if there is one.\<close>

definition prune_orders :: "int64 \<Rightarrow> int64 list \<Rightarrow> int64 list" where
  "prune_orders nowMs ts = dropWhile (\<lambda>t. t < nowMs - 60000) ts"

definition tryAcquireOrderSlot :: "int64 \<Rightarrow> 'w PaperExecutor \<Rightarrow> bool \<times> 'w PaperExecutor" where
  "tryAcquireOrderSlot nowMs e =
     (let ts = prune_orders nowMs (px_orderTs e) in
      if xc_MaxOrdersPerMinute (px_cfg e) \<le> int (length ts) then (False, e\<lparr>px_orderTs := ts\<rparr>)
      else (True, e\<lparr>px_orderTs := ts @ [nowMs]\<rparr>))"

section \<open>Filling one leg\<close>

definition draw :: "('w, float64) paper" where
  "draw = do { rt \<leftarrow> asks px_runtime; query (rt_Float64 rt) }"

record fill_terms =
  ft_latencyMs :: int64
  ft_slipBps :: float64
  ft_feeBps :: float64
  ft_feeType :: string

definition venue_profile :: "ExecConfig \<Rightarrow> string \<Rightarrow> VenueProfile option" where
  "venue_profile cfg venue = (case xc_VenueProfiles cfg of None \<Rightarrow> None | Some m \<Rightarrow> m venue)"

definition leg_slippage :: "ExecConfig \<Rightarrow> TradeLeg \<Rightarrow> float64" where
  "leg_slippage cfg leg =
     (case venue_profile cfg (tl_Venue leg) of
        None \<Rightarrow> xc_SimSlippageBps cfg
      | Some p \<Rightarrow> vp_SlippageBps p + vp_DepthSlopeBps p * (tl_NotionalUSD leg / 10000))"

definition draw_terms :: "TradeLeg \<Rightarrow> ('w, fill_terms) paper" where
  "draw_terms leg = do {
     cfg \<leftarrow> asks px_cfg;
     rt \<leftarrow> asks px_runtime;
     let slipBps = leg_slippage cfg leg;
     case venue_profile cfg (tl_Venue leg) of
       None \<Rightarrow> State_Monad.return \<lparr>ft_latencyMs = xc_SimLatencyMs cfg, ft_slipBps = slipBps, ft_feeBps = 4, ft_feeType = ''taker''\<rparr>
     | Some p \<Rightarrow> do {
         let span = vp_LatencyMaxMs p - vp_LatencyMinMs p;
         extra \<leftarrow> (if 0 < span then query (rt_Int63n rt span) else State_Monad.return 0);
         maker \<leftarrow> (if tl_Type leg \<noteq> ''IOC'' \<and> slipBps * 2 \<le> tl_MaxSlippageBps leg
                    then do { x \<leftarrow> draw; State_Monad.return (x < 0.3) } else State_Monad.return False);
         State_Monad.return \<lparr>ft_latencyMs = vp_LatencyMinMs p + extra, ft_slipBps = slipBps,
           ft_feeBps = (if maker then vp_FeeBpsMaker p else vp_FeeBpsTaker p),
           ft_feeType = (if maker then ''maker'' else ''taker'')\<rparr>
       }
   }"

definition slipped_price :: "float64 \<Rightarrow> float64 \<Rightarrow> TradeLeg \<Rightarrow> float64" where
  "slipped_price mid slipBps leg =
     (if tl_Action leg = ''BUY'' then mid * (1 + slipBps / 10000) else mid * (1 - slipBps / 10000))"

definition limit_price :: "TradeLeg \<Rightarrow> float64 \<Rightarrow> float64" where
  "limit_price leg p =
     (if 0 < tl_PriceLimit leg \<and>
         (tl_Action leg = ''BUY'' \<and> tl_PriceLimit leg < p \<or> tl_Action leg = ''SELL'' \<and> p < tl_PriceLimit leg)
      then tl_PriceLimit leg else p)"

text \<open>The notional filled, and the type of the event.\<close>

definition draw_fill :: "TradeLeg \<Rightarrow> ('w, float64 \<times> string) paper" where
  "draw_fill leg = do {
     cfg \<leftarrow> asks px_cfg;
     partial \<leftarrow> (case venue_profile cfg (tl_Venue leg) of
        None \<Rightarrow> State_Monad.return False
      | Some p \<Rightarrow> (if 0 < vp_PartialFillPct p then do { x \<leftarrow> draw; State_Monad.return (x < vp_PartialFillPct p) }
                  else State_Monad.return False));
     if partial then do { x \<leftarrow> draw; State_Monad.return (tl_NotionalUSD leg * (0.3 + x * 0.6), ''LEG_PARTIAL'') }
     else State_Monad.return (tl_NotionalUSD leg, ''ORDER_FILLED'')
   }"

definition position_after :: "posEntry option \<Rightarrow> float64 \<Rightarrow> float64 \<Rightarrow> float64 \<Rightarrow> posEntry" where
  "position_after pos qty price notional =
     (let p = (case pos of None \<Rightarrow> \<lparr>pe_qty = 0, pe_entryPrice = 0, pe_notional = 0\<rparr> | Some p \<Rightarrow> p);
          p = p\<lparr>pe_qty := pe_qty p + qty, pe_notional := pe_notional p + notional\<rparr>
      in if pe_qty p \<noteq> 0 then p\<lparr>pe_entryPrice := price\<rparr> else p)"

definition updatePosition :: "string \<Rightarrow> float64 \<Rightarrow> float64 \<Rightarrow> float64 \<Rightarrow> ('w, unit) paper" where
  "updatePosition key qty price notional = do {
     m \<leftarrow> asks px_positions;
     let p = position_after (m key) qty price notional;
     modify (\<lambda>e. e\<lparr>px_positions := (px_positions e)(key \<mapsto> p)\<rparr>);
     writer \<leftarrow> asks px_posWriter;
     cfg \<leftarrow> asks px_cfg;
     if writer then tell (WritePosition (xc_TenantID cfg) key p) else skip
   }"

definition leg_market :: "TradeLeg \<Rightarrow> string" where
  "leg_market leg = (if tl_Market leg = '''' then ''PERP'' else tl_Market leg)"

definition pos_key :: "TradeLeg \<Rightarrow> string \<Rightarrow> string" where
  "pos_key leg sy = tl_Venue leg @ '':'' @ sy @ '':'' @ leg_market leg"

definition signed_qty :: "TradeLeg \<Rightarrow> float64 \<Rightarrow> float64 \<Rightarrow> float64" where
  "signed_qty leg notional price = (if tl_Action leg = ''SELL'' then - (notional / price) else notional / price)"

record paperAcc =
  pa_events :: "ExecutionEvent list"
  pa_buyPrice :: float64
  pa_sellPrice :: float64
  pa_totalFees :: float64
  pa_adverse :: bool
  pa_maxLatencyMs :: int64

definition zero_event :: ExecutionEvent where
  "zero_event = \<lparr>ee_SchemaVersion = 0, ee_EventType = '''', ee_IntentID = '''', ee_LegIndex = 0, ee_Venue = '''',
     ee_Symbol = '''', ee_Action = '''', ee_Strategy = '''', ee_Market = '''', ee_RequestedNotionalUSD = 0,
     ee_FilledNotionalUSD = 0, ee_FilledPrice = 0, ee_SlippageBpsActual = 0, ee_SlippageBpsAllowed = 0,
     ee_FeesUSDActual = 0, ee_FeeType = '''', ee_TsMs = 0, ee_LatencySignalToFillMs = 0, ee_TenantID = '''', ee_Mode = ''''\<rparr>"

definition fill_event ::
  "ExecConfig \<Rightarrow> TradeIntent \<Rightarrow> int64 \<Rightarrow> float64 \<Rightarrow> int \<Rightarrow> TradeLeg \<Rightarrow> fill_terms \<Rightarrow> float64 \<times> string \<Rightarrow> ExecutionEvent" where
  "fill_event cfg intent now mid i leg t filled =
     (let price = limit_price leg (slipped_price mid (ft_slipBps t) leg) in
      zero_event\<lparr>ee_EventType := snd filled, ee_IntentID := ti_IntentID intent, ee_LegIndex := i, ee_Venue := tl_Venue leg,
        ee_Symbol := ti_Symbol intent, ee_Action := tl_Action leg, ee_Strategy := ti_Strategy intent,
        ee_Market := leg_market leg, ee_RequestedNotionalUSD := tl_NotionalUSD leg, ee_FilledNotionalUSD := fst filled,
        ee_FilledPrice := price, ee_SlippageBpsActual := \<bar>price - mid\<bar> / mid * 10000,
        ee_SlippageBpsAllowed := tl_MaxSlippageBps leg, ee_FeesUSDActual := fst filled * ft_feeBps t / 10000,
        ee_FeeType := ft_feeType t, ee_TsMs := now + ft_latencyMs t, ee_LatencySignalToFillMs := ft_latencyMs t,
        ee_TenantID := xc_TenantID cfg, ee_Mode := xc_TradingMode cfg\<rparr>)"

text \<open>The prices kept for the profit are those before the price limit.\<close>

definition paper_leg :: "TradeIntent \<Rightarrow> int64 \<Rightarrow> float64 \<Rightarrow> int \<Rightarrow> TradeLeg \<Rightarrow> paperAcc \<Rightarrow> ('w, paperAcc) paper" where
  "paper_leg intent now mid i leg acc = do {
     cfg \<leftarrow> asks px_cfg;
     t \<leftarrow> draw_terms leg;
     filled \<leftarrow> draw_fill leg;
     let ev = fill_event cfg intent now mid i leg t filled;
     let slipped = slipped_price mid (ft_slipBps t) leg;
     updatePosition (pos_key leg (ti_Symbol intent)) (signed_qty leg (fst filled) (ee_FilledPrice ev))
       (ee_FilledPrice ev) (fst filled);
     State_Monad.return (acc\<lparr>pa_events := pa_events acc @ [ev],
       pa_buyPrice := (if tl_Action leg = ''BUY'' then slipped else pa_buyPrice acc),
       pa_sellPrice := (if tl_Action leg = ''BUY'' then pa_sellPrice acc else slipped),
       pa_totalFees := pa_totalFees acc + ee_FeesUSDActual ev,
       pa_adverse := (pa_adverse acc \<or> xc_AdverseSelBps cfg < ee_SlippageBpsActual ev),
       pa_maxLatencyMs := max (pa_maxLatencyMs acc) (ft_latencyMs t)\<rparr>)
   }"

primrec paper_legs :: "TradeIntent \<Rightarrow> int64 \<Rightarrow> float64 \<Rightarrow> int \<Rightarrow> TradeLeg list \<Rightarrow> paperAcc \<Rightarrow> ('w, paperAcc) paper" where
  "paper_legs intent now mid i [] acc = State_Monad.return acc"
| "paper_legs intent now mid i (leg # legs) acc =
     do { acc \<leftarrow> paper_leg intent now mid i leg acc; paper_legs intent now mid (i + 1) legs acc }"

section \<open>Execute\<close>

definition rejected :: "ExecConfig \<Rightarrow> TradeIntent \<Rightarrow> int64 \<Rightarrow> ExecutionEvent" where
  "rejected cfg intent now =
     zero_event\<lparr>ee_EventType := ''ORDER_REJECTED'', ee_IntentID := ti_IntentID intent, ee_Strategy := ti_Strategy intent,
       ee_Symbol := ti_Symbol intent, ee_TsMs := now, ee_TenantID := xc_TenantID cfg, ee_Mode := xc_TradingMode cfg\<rparr>"

definition expired_fill_of :: "ExecConfig \<Rightarrow> TradeIntent \<Rightarrow> SimulatedFill" where
  "expired_fill_of cfg intent =
     \<lparr>sf_SchemaVersion = 0, sf_IntentID = ti_IntentID intent, sf_Strategy = ti_Strategy intent, sf_Symbol = ti_Symbol intent,
      sf_Legs = [], sf_TsSignalMs = ti_TsMs intent, sf_TsFillSimulatedMs = 0, sf_LatencyMs = 0, sf_EdgeAtSignalBps = 0,
      sf_EdgeAtFillBps = 0, sf_EdgeCapturedBps = 0, sf_AdverseSelectionOccurred = False, sf_FillPriceBuy = 0,
      sf_FillPriceSell = 0, sf_FeesAssumedUSD = 0, sf_SlippageAssumedBps = 0, sf_NetPnLUSD = 0, sf_IntentExpired = True,
      sf_Mode = xc_TradingMode cfg, sf_TenantID = xc_TenantID cfg\<rparr>"

definition leg_of_event :: "ExecutionEvent \<Rightarrow> FillLeg" where
  "leg_of_event ev = \<lparr>fl_Venue = ee_Venue ev, fl_Action = ee_Action ev, fl_FilledNotionalUSD = ee_FilledNotionalUSD ev,
     fl_FilledPrice = ee_FilledPrice ev\<rparr>"

definition paper_summary :: "ExecConfig \<Rightarrow> TradeIntent \<Rightarrow> int64 \<Rightarrow> float64 \<Rightarrow> paperAcc \<Rightarrow> SimulatedFill" where
  "paper_summary cfg intent now mid acc =
     (let netPnL = (if 0 < pa_buyPrice acc \<and> 0 < pa_sellPrice acc
                    then (pa_sellPrice acc - pa_buyPrice acc) / mid * ee_FilledNotionalUSD (hd (pa_events acc)) - pa_totalFees acc
                    else 0);
          edgeAtSignal = em_EdgeBpsNet (ti_Expected intent);
          edgeAtFill = (if pa_adverse acc then edgeAtSignal * 0.8 else edgeAtSignal)
      in (expired_fill_of cfg intent)\<lparr>sf_Legs := map leg_of_event (pa_events acc),
           sf_TsFillSimulatedMs := now + pa_maxLatencyMs acc, sf_LatencyMs := pa_maxLatencyMs acc,
           sf_EdgeAtSignalBps := edgeAtSignal, sf_EdgeAtFillBps := edgeAtFill, sf_EdgeCapturedBps := edgeAtFill,
           sf_AdverseSelectionOccurred := pa_adverse acc, sf_FillPriceBuy := pa_buyPrice acc,
           sf_FillPriceSell := pa_sellPrice acc, sf_FeesAssumedUSD := pa_totalFees acc,
           sf_SlippageAssumedBps := xc_SimSlippageBps cfg, sf_NetPnLUSD := netPnL, sf_IntentExpired := False\<rparr>)"

definition acquire :: "int64 \<Rightarrow> ('w, bool) paper" where
  "acquire nowMs = do {
     cfg \<leftarrow> asks px_cfg;
     if 0 < xc_MaxOrdersPerMinute cfg then State (tryAcquireOrderSlot nowMs) else State_Monad.return True
   }"

definition paper_run :: "TradeIntent \<Rightarrow> int64 \<Rightarrow> float64 \<Rightarrow> ('w, ExecutionEvent list \<times> SimulatedFill option) paper" where
  "paper_run intent now mid = do {
     cfg \<leftarrow> asks px_cfg;
     acc \<leftarrow> paper_legs intent now mid 0 (ti_Legs intent) \<lparr>pa_events = [], pa_buyPrice = 0, pa_sellPrice = 0,
        pa_totalFees = 0, pa_adverse = False, pa_maxLatencyMs = 0\<rparr>;
     State_Monad.return (pa_events acc, Some (paper_summary cfg intent now mid acc))
   }"

definition PaperExecute :: "TradeIntent \<Rightarrow> ('w, ExecutionEvent list \<times> SimulatedFill option) paper" where
  "PaperExecute intent = do {
     cfg \<leftarrow> asks px_cfg;
     rt \<leftarrow> asks px_runtime;
     t \<leftarrow> query (rt_Now rt);
     let now = UnixMilli t;
     ok \<leftarrow> acquire now;
     if \<not> ok then State_Monad.return ([rejected cfg intent now], None)
     else if ti_ExpiresMs intent < now then State_Monad.return ([], Some (expired_fill_of cfg intent))
     else do {
       cache \<leftarrow> asks px_priceCache;
       case PriceCache_Mid cache (ti_Symbol intent) of
         None \<Rightarrow> State_Monad.return ([], None)
       | Some mid \<Rightarrow> (if mid = 0 then State_Monad.return ([], None) else paper_run intent now mid)
     }
   }"

definition PositionJSON :: "'w PaperExecutor \<Rightarrow> string \<rightharpoonup> posEntry" where
  "PositionJSON e = px_positions e"

section \<open>The rate limit\<close>

interpretation order_window: rolling_window id "\<lambda>c. dropWhile (\<lambda>t. t < (c::int))"
  by unfold_locales simp_all

text \<open>Taking slots while logging the times at which one was given.\<close>

definition slot_step :: "'w PaperExecutor \<times> int64 list \<Rightarrow> int64 \<Rightarrow> 'w PaperExecutor \<times> int64 list" where
  "slot_step s now = (case s of (e, given) \<Rightarrow>
     (case tryAcquireOrderSlot now e of (ok, e') \<Rightarrow> (e', if ok then given @ [now] else given)))"

definition minute_count :: "int64 \<Rightarrow> int64 list \<Rightarrow> nat" where
  "minute_count t given = length (filter (\<lambda>x. t - 60000 \<le> x \<and> x \<le> t) given)"

definition slots_inv :: "ExecConfig \<Rightarrow> int64 \<Rightarrow> 'w PaperExecutor \<times> int64 list \<Rightarrow> bool" where
  "slots_inv cfg T s \<longleftrightarrow> (case s of (e, given) \<Rightarrow>
     px_cfg e = cfg \<and> sorted given \<and> (\<forall>x\<in>set given. x \<le> T) \<and>
     (\<forall>now\<ge>T. prune_orders now (px_orderTs e) = filter (\<lambda>x. now - 60000 \<le> x) given) \<and>
     (\<forall>t. int (minute_count t given) \<le> max 0 (xc_MaxOrdersPerMinute cfg)))"

lemma prune_orders_twice: "t \<le> now \<Longrightarrow> prune_orders now (prune_orders t ts) = prune_orders now ts"
  unfolding prune_orders_def by (rule order_window.prune_prune) simp

lemma minute_count_snoc:
  "minute_count t (given @ [now]) = minute_count t given + (if t - 60000 \<le> now \<and> now \<le> t then 1 else 0)"
  by (simp add: minute_count_def)

lemma slots_step:
  assumes "slots_inv cfg T s" "T \<le> now"
  shows "slots_inv cfg now (slot_step s now)"
proof -
  obtain e given where s: "s = (e, given)" by (cases s)
  let ?ts = "prune_orders now (px_orderTs e)"
  have i: "px_cfg e = cfg" "sorted given" "\<forall>x\<in>set given. x \<le> now" "\<forall>t. int (minute_count t given) \<le> max 0 (xc_MaxOrdersPerMinute cfg)"
    and p: "\<And>t. T \<le> t \<Longrightarrow> prune_orders t (px_orderTs e) = filter (\<lambda>x. t - 60000 \<le> x) given"
    using assms by (auto simp: slots_inv_def s)
  have keep: "prune_orders t ?ts = filter (\<lambda>x. t - 60000 \<le> x) given" if "now \<le> t" for t
    using prune_orders_twice [OF that, of "px_orderTs e"] p [of t] that assms(2) by simp
  show ?thesis
  proof (cases "xc_MaxOrdersPerMinute cfg \<le> int (length ?ts)")
    case True
    then show ?thesis using i keep by (simp add: slot_step_def s tryAcquireOrderSlot_def Let_def slots_inv_def)
  next
    case False
    have srt: "sorted (given @ [now])" using i by (auto simp: sorted_append)
    have new: "prune_orders t (?ts @ [now]) = filter (\<lambda>x. t - 60000 \<le> x) (given @ [now])" if "now \<le> t" for t
    proof -
      have f: "?ts = filter (\<lambda>x. now - 60000 \<le> x) given" using p assms(2) by simp
      have "sorted (map id (?ts @ [now]))" using srt sorted_filter [of id given] unfolding f by (simp add: sorted_append)
      then have "prune_orders t (?ts @ [now]) = filter (\<lambda>x. t - 60000 \<le> x) (?ts @ [now])"
        unfolding prune_orders_def by (subst order_window.prune_filter) simp_all
      also have "\<dots> = filter (\<lambda>x. t - 60000 \<le> x) (given @ [now])"
        using that unfolding f by (auto simp: filter_filter intro!: filter_cong)
      finally show ?thesis .
    qed
    have count: "int (minute_count t (given @ [now])) \<le> max 0 (xc_MaxOrdersPerMinute cfg)" for t
    proof (cases "t - 60000 \<le> now \<and> now \<le> t")
      case True
      have "filter (\<lambda>x. t - 60000 \<le> x \<and> x \<le> t) given = filter (\<lambda>x. t - 60000 \<le> x) (filter (\<lambda>x. now - 60000 \<le> x) given)"
        using i(3) True by (auto simp: filter_filter intro!: filter_cong)
      then have "minute_count t given = length (filter (\<lambda>x. t - 60000 \<le> x) ?ts)"
        using p assms(2) by (simp add: minute_count_def)
      also have "\<dots> \<le> length ?ts" by (rule length_filter_le)
      finally have "minute_count t given \<le> length ?ts" .
      with False show ?thesis by (simp add: minute_count_snoc)
    next
      case False
      then show ?thesis using i(4) by (auto simp: minute_count_snoc)
    qed
    show ?thesis using i srt new count False by (simp add: slot_step_def s tryAcquireOrderSlot_def Let_def slots_inv_def)
  qed
qed

text \<open>
  For requests at times that never go back, the slots given within any 60 seconds are at most the
  configured number of orders per minute.
\<close>

theorem orders_per_minute_are_limited:
  assumes "sorted nows"
  shows "int (minute_count t (snd (foldl slot_step (NewPaperExecutor cfg cache rt w, []) nows)))
    \<le> max 0 (xc_MaxOrdersPerMinute cfg)"
proof -
  have "\<exists>T. slots_inv cfg T (foldl slot_step (NewPaperExecutor cfg cache rt w, []) nows) \<and> (nows \<noteq> [] \<longrightarrow> T = last nows)"
    using assms
  proof (induction nows rule: rev_induct)
    case Nil
    show ?case by (auto simp: slots_inv_def NewPaperExecutor_def prune_orders_def minute_count_def)
  next
    case (snoc now nows)
    then obtain T where T: "slots_inv cfg T (foldl slot_step (NewPaperExecutor cfg cache rt w, []) nows)"
      "nows \<noteq> [] \<longrightarrow> T = last nows" by (auto simp: sorted_append)
    have "slots_inv cfg now (foldl slot_step (NewPaperExecutor cfg cache rt w, []) nows)" if "nows = []"
      using that by (simp add: slots_inv_def NewPaperExecutor_def prune_orders_def minute_count_def)
    then have "slots_inv cfg now (slot_step (foldl slot_step (NewPaperExecutor cfg cache rt w, []) nows) now)"
      using slots_step [OF T(1), of now] slots_step [of cfg now _ now] T(2) snoc.prems
      by (cases "nows = []") (auto simp: sorted_append)
    then show ?case by auto
  qed
  then show ?thesis
    by (cases "foldl slot_step (NewPaperExecutor cfg cache rt w, []) nows") (auto simp: slots_inv_def)
qed

section \<open>Positions are the net of the fills reported\<close>

definition reported_key :: "ExecutionEvent \<Rightarrow> string" where
  "reported_key ev = ee_Venue ev @ '':'' @ ee_Symbol ev @ '':'' @ ee_Market ev"

definition reported_qty :: "ExecutionEvent \<Rightarrow> float64" where
  "reported_qty ev =
     (if ee_EventType ev \<in> {''ORDER_FILLED'', ''LEG_PARTIAL''}
      then (if ee_Action ev = ''SELL'' then - (ee_FilledNotionalUSD ev / ee_FilledPrice ev)
            else ee_FilledNotionalUSD ev / ee_FilledPrice ev) else 0)"

definition net_qty :: "string \<Rightarrow> ExecutionEvent list \<Rightarrow> float64" where
  "net_qty key evs = (\<Sum>ev\<leftarrow>filter (\<lambda>ev. reported_key ev = key) evs. reported_qty ev)"

definition held_qty :: "'w PaperExecutor \<Rightarrow> string \<Rightarrow> float64" where
  "held_qty e key = (case PositionJSON e key of None \<Rightarrow> 0 | Some p \<Rightarrow> pe_qty p)"

lemma net_qty_simps [simp]:
  "net_qty key [] = 0" "net_qty key (evs @ evs') = net_qty key evs + net_qty key evs'"
  "net_qty key [ev] = (if reported_key ev = key then reported_qty ev else 0)"
  by (simp_all add: net_qty_def)

lemma only_asks_draws: "only_asks (draw_terms leg)" "only_asks (draw_fill leg)"
  unfolding draw_terms_def draw_fill_def draw_def Let_def by (intro only_asks_intros)+

lemma draw_fill_type: "wp (draw_fill leg) (\<lambda>f _. snd f \<in> {''ORDER_FILLED'', ''LEG_PARTIAL''}) e"
  unfolding draw_fill_def draw_def by (auto split: option.split prod.split)

lemma fill_event_simps [simp]:
  "reported_key (fill_event cfg intent now mid i leg t f) = pos_key leg (ti_Symbol intent)"
  "ee_EventType (fill_event cfg intent now mid i leg t f) = snd f"
  "ee_Action (fill_event cfg intent now mid i leg t f) = tl_Action leg"
  "ee_FilledNotionalUSD (fill_event cfg intent now mid i leg t f) = fst f"
  "ee_FilledPrice (fill_event cfg intent now mid i leg t f) = limit_price leg (slipped_price mid (ft_slipBps t) leg)"
  by (simp_all add: fill_event_def reported_key_def pos_key_def Let_def)

text \<open>What a leg does to the positions, in terms of its event.\<close>

lemma paper_leg_net:
  "wp (paper_leg intent now mid i leg acc)
     (\<lambda>acc' e'. \<exists>ev. pa_events acc' = pa_events acc @ [ev] \<and> (\<forall>key. held_qty e' key = held_qty e key + net_qty key [ev])) e"
proof -
  have upd: "held_qty (e\<lparr>world := w, px_positions := (px_positions e)(k \<mapsto> position_after (px_positions e k) q p n)\<rparr>) key =
      held_qty e key + (if k = key then q else 0)"
    "held_qty (e\<lparr>world := w, px_positions := (px_positions e)(k \<mapsto> position_after (px_positions e k) q p n), trace := tr\<rparr>) key =
      held_qty e key + (if k = key then q else 0)" for k q p n key w tr
    by (auto simp: held_qty_def PositionJSON_def position_after_def Let_def split: option.split)
  have "wp (draw_fill leg) (\<lambda>f s'. (\<exists>w'. s' = s\<lparr>world := w'\<rparr>) \<and> snd f \<in> {''ORDER_FILLED'', ''LEG_PARTIAL''}) s"
    for s :: "'a PaperExecutor"
    by (intro wp_conj only_asksD only_asks_draws draw_fill_type)
  note draws = this
  show ?thesis
    unfolding paper_leg_def
    apply (simp add: Let_def)
    apply (rule only_asks_wp [OF only_asks_draws(1)])
    apply (rule wp_weaken [OF draws])
    by (clarsimp simp: updatePosition_def Let_def upd reported_qty_def signed_qty_def)
qed
lemma paper_legs_net:
  fixes e :: "'w PaperExecutor"
  shows "wp (paper_legs intent now mid i legs acc)
     (\<lambda>acc' e'. \<exists>evs. pa_events acc' = pa_events acc @ evs \<and> (\<forall>key. held_qty e' key = held_qty e key + net_qty key evs)) e"
proof (induction legs arbitrary: i acc e)
  case Nil
  show ?case by (simp add: exI [of _ "[]"])
next
  case (Cons leg legs)
  have "wp (paper_leg intent now mid i leg acc) (\<lambda>acc'. wp (paper_legs intent now mid (i + 1) legs acc')
      (\<lambda>acc'' e''. \<exists>evs. pa_events acc'' = pa_events acc @ evs \<and> (\<forall>key. held_qty e'' key = held_qty e key + net_qty key evs))) e"
  proof (rule wp_weaken [OF paper_leg_net], clarify)
    fix acc' :: paperAcc and e' :: "'w PaperExecutor" and ev
    assume "pa_events acc' = pa_events acc @ [ev]" "\<forall>key. held_qty e' key = held_qty e key + net_qty key [ev]"
    then show "wp (paper_legs intent now mid (i + 1) legs acc')
      (\<lambda>acc'' e''. \<exists>evs. pa_events acc'' = pa_events acc @ evs \<and> (\<forall>key. held_qty e'' key = held_qty e key + net_qty key evs)) e'"
      by (intro wp_weaken [OF Cons.IH [of "i + 1" acc' e']]) (force intro: exI [of _ "ev # _"] simp: net_qty_def)
  qed
  then show ?case by simp
qed

lemma PaperExecute_net:
  "wp (PaperExecute intent) (\<lambda>r e'. \<forall>key. held_qty e' key = held_qty e key + net_qty key (fst r)) e"
proof -
  have run: "wp (paper_run intent now mid) (\<lambda>r e'. \<forall>key. held_qty e' key = held_qty e0 key + net_qty key (fst r)) e0"
    for now mid and e0 :: "'a PaperExecutor"
    unfolding paper_run_def by simp (rule wp_weaken [OF paper_legs_net], auto)
  have slot: "held_qty (snd (tryAcquireOrderSlot now e0)) key = held_qty e0 key" for now key and e0 :: "'a PaperExecutor"
    by (simp add: tryAcquireOrderSlot_def Let_def held_qty_def PositionJSON_def)
  have rej: "net_qty key [rejected cfg intent now] = 0" for key cfg now
    by (simp add: reported_qty_def rejected_def zero_event_def)
  have w: "held_qty (e0\<lparr>world := w\<rparr>) key = held_qty e0 key" for w key and e0 :: "'a PaperExecutor"
    by (simp add: held_qty_def PositionJSON_def)
  have st: "wp (State (tryAcquireOrderSlot now)) Q e0 = Q (fst (tryAcquireOrderSlot now e0)) (snd (tryAcquireOrderSlot now e0))"
    for Q now and e0 :: "'a PaperExecutor"
    by (simp add: wp_def case_prod_beta)
  show ?thesis
    unfolding PaperExecute_def acquire_def Let_def
    using rej slot w
    by (auto simp: case_prod_beta st split: option.split intro!: wp_weaken [OF run])
qed

text \<open>What the router feeds the executor: consensus updates for its price cache, and approved intents.\<close>

datatype paper_input = PriceUpdate ConsensusUpdate | ApprovedIntent TradeIntent

definition paper_input_step :: "paper_input \<Rightarrow> ('w, ExecutionEvent list) paper" where
  "paper_input_step x =
     (case x of
        PriceUpdate u \<Rightarrow> do { modify (\<lambda>e. e\<lparr>px_priceCache := PriceCache_Update u (px_priceCache e)\<rparr>); State_Monad.return [] }
      | ApprovedIntent intent \<Rightarrow> do { r \<leftarrow> PaperExecute intent; State_Monad.return (fst r) })"

text \<open>
  C26.  Positions are the net of what was reported: after any sequence of price updates and intents the
  quantity held under each key is the sum of the signed quantities of the fill events with that
  key, whatever the random numbers were.
\<close>

theorem positions_are_the_net_of_the_fills:
  "held_qty (snd (run_state (collect xs paper_input_step) (NewPaperExecutor cfg cache rt w))) key =
   net_qty key (fst (run_state (collect xs paper_input_step) (NewPaperExecutor cfg cache rt w)))"
proof -
  have "wp (collect xs paper_input_step) (\<lambda>evs e. \<forall>key. held_qty e key = net_qty key ([] @ evs)) (NewPaperExecutor cfg cache rt w)"
  proof (rule wp_collect)
    fix x ys and e0 :: "'a PaperExecutor"
    assume inv: "\<forall>key. held_qty e0 key = net_qty key ys"
    show "wp (paper_input_step x) (\<lambda>zs e. \<forall>key. held_qty e key = net_qty key (ys @ zs)) e0"
    proof (cases x)
      case (PriceUpdate u)
      then show ?thesis using inv by (simp add: paper_input_step_def held_qty_def PositionJSON_def)
    next
      case (ApprovedIntent intent)
      then show ?thesis using inv
        by (simp add: paper_input_step_def) (rule wp_weaken [OF PaperExecute_net], simp)
    qed
  qed (simp add: held_qty_def PositionJSON_def NewPaperExecutor_def)
  from wp_run [OF this surjective_pairing] show ?thesis by simp
qed

section \<open>Concrete data for the witnesses\<close>

definition sleepy_runtime :: "go_time Runtime" where
  "sleepy_runtime = \<lparr>rt_Now = \<lambda>w. (w, w), rt_Sleep = \<lambda>d w. ((), w + d), rt_Int63n = \<lambda>n w. (0, w), rt_Float64 = \<lambda>w. (0.5, w)\<rparr>"

definition paper_config :: "int \<Rightarrow> ExecConfig" where
  "paper_config n = \<lparr>xc_TradingMode = ''PAPER'', xc_SimSlippageBps = 4, xc_SimLatencyMs = 50, xc_AdverseSelBps = 10,
     xc_MaxOrdersPerMinute = n, xc_TenantID = ''default'', xc_RedisAddr = '''', xc_RedisPassword = '''',
     xc_RedisUseTLS = False, xc_VenueProfiles = None, xc_MaxRetriesPerLeg = 3, xc_HedgeDriftMaxMs = 5000,
     xc_MinPartialFillPct = 0.1, xc_ReconDelayMs = 2000, xc_LiveMaxOrderNotionalUSD = 10000,
     xc_LiveMaxDailyNotionalUSD = 100000, xc_LiveMaxOpenOrders = 4\<rparr>"

theorem orders_per_minute_are_limited_witness:
  "int (minute_count 60000 (snd (foldl slot_step (NewPaperExecutor (paper_config 2) NewPriceCache sleepy_runtime 0, []) [0, 1, 2]))) \<le> 2"
  using orders_per_minute_are_limited [of "[0, 1, 2]" 60000 "paper_config 2" NewPriceCache sleepy_runtime 0]
  by (simp add: paper_config_def)

end
