(* ===== verification/Live_Executor.thy ===== *)
theory Live_Executor
  imports Paper_Executor Exchange_Types Treasury
begin

text \<open>
  internal/execution/live.go: the executor that places orders.  Its legs run one after the other,
  each with retries at wider prices; a leg that fails after another was filled triggers the
  unwinding of the filled one.  The trace is the orders placed with their answers and the orders
  cancelled; the result of the reconciliation of fills is what it logs.
\<close>

section \<open>State\<close>

record legResult =
  lr_filled :: bool
  lr_filledQty :: float64
  lr_filledUSD :: float64
  lr_fillPrice :: float64
  lr_feesUSD :: float64
  lr_orderID :: string
  lr_venue :: string
  lr_nativeSym :: string
  lr_partialFill :: bool
  lr_fillTsMs :: int64

definition no_result :: legResult where
  "no_result = \<lparr>lr_filled = False, lr_filledQty = 0, lr_filledUSD = 0, lr_fillPrice = 0, lr_feesUSD = 0,
     lr_orderID = '''', lr_venue = '''', lr_nativeSym = '''', lr_partialFill = False, lr_fillTsMs = 0\<rparr>"

record dailyFillEntry =
  df_tsMs :: int64
  df_notionalUSD :: float64

datatype live_out =
    Placed string OrderRequest "gotext + OrderResponse"
  | CancelAsked string string string

record ('w, 'c) LiveExecutor = "('w, live_out) io" +
  lx_cfg :: ExecConfig
  lx_runtime :: "'w Runtime"
  lx_priceCache :: PriceCache
  lx_registry :: "('w, 'c) Registry"
  lx_dailyFills :: "dailyFillEntry list"

type_synonym ('w, 'c, 'a) live = "(('w, 'c) LiveExecutor, 'a) state"

definition NewLiveExecutor ::
  "ExecConfig \<Rightarrow> PriceCache \<Rightarrow> ('w, 'c) Registry \<Rightarrow> 'w Runtime \<Rightarrow> 'w \<Rightarrow> ('w, 'c) LiveExecutor" where
  "NewLiveExecutor cfg cache registry rt w =
     \<lparr>world = w, trace = [], lx_cfg = cfg, lx_runtime = rt, lx_priceCache = cache, lx_registry = registry,
      lx_dailyFills = []\<rparr>"

text \<open>Entries of the last 24 hours are kept while they are summed.\<close>

definition recent_fills :: "int64 \<Rightarrow> dailyFillEntry list \<Rightarrow> dailyFillEntry list" where
  "recent_fills nowMs fs = filter (\<lambda>f. nowMs - 86400000 \<le> df_tsMs f) fs"

definition rollingDailyNotional :: "int64 \<Rightarrow> ('w, 'c, float64) live" where
  "rollingDailyNotional nowMs = do {
     modify (\<lambda>e. e\<lparr>lx_dailyFills := recent_fills nowMs (lx_dailyFills e)\<rparr>);
     asks (\<lambda>e. \<Sum>f\<leftarrow>lx_dailyFills e. df_notionalUSD f)
   }"

definition recordDailyFill :: "int64 \<Rightarrow> float64 \<Rightarrow> ('w, 'c, unit) live" where
  "recordDailyFill ts notional =
     modify (\<lambda>e. e\<lparr>lx_dailyFills := lx_dailyFills e @ [\<lparr>df_tsMs = ts, df_notionalUSD = notional\<rparr>]\<rparr>)"

section \<open>Calls\<close>

definition live_now :: "('w, 'c, int64) live" where
  "live_now = do { rt \<leftarrow> asks lx_runtime; t \<leftarrow> query (rt_Now rt); State_Monad.return (UnixMilli t) }"

definition live_sleep_ms :: "int \<Rightarrow> ('w, 'c, unit) live" where
  "live_sleep_ms ms = do { rt \<leftarrow> asks lx_runtime; query (rt_Sleep rt (ms * 10 ^ 6)) }"

definition live_client :: "string \<Rightarrow> ('w, 'c, gotext + 'w Exchange) live" where
  "live_client venue = do {
     reg \<leftarrow> asks lx_registry;
     p \<leftarrow> query (Registry_Get reg venue);
     modify (\<lambda>e. e\<lparr>lx_registry := snd p\<rparr>);
     State_Monad.return (fst p)
   }"

definition place :: "string \<Rightarrow> 'w Exchange \<Rightarrow> OrderRequest \<Rightarrow> ('w, 'c, gotext + OrderResponse) live" where
  "place venue ex req = do {
     r \<leftarrow> query (PlaceOrder ex req);
     tell (Placed venue req r);
     State_Monad.return r
   }"

definition mapSymbol :: "string \<Rightarrow> string \<Rightarrow> string" where
  "mapSymbol venue sy =
     (let base = (if 5 < length sy \<and> drop (length sy - 5) sy = ''-PERP'' then take (length sy - 5) sy else sy)
      in if venue = ''binance'' then base @ ''USDT''
         else if venue = ''okx'' then base @ ''-USDT-SWAP''
         else if venue = ''bybit'' then base @ ''USDT''
         else if venue = ''deribit'' then base @ ''-PERPETUAL''
         else sy)"

definition terminal_status :: "OrderStatus \<Rightarrow> bool" where
  "terminal_status st \<longleftrightarrow> st \<in> {OrderStatusFilled, OrderStatusCancelled, OrderStatusRejected, OrderStatusExpired,
     OrderStatusPartiallyFilled}"

primrec poll_times :: "nat \<Rightarrow> 'w Exchange \<Rightarrow> string \<Rightarrow> string \<Rightarrow> ('w, 'c, OrderResponse option) live" where
  "poll_times 0 ex sy orderID = State_Monad.return None"
| "poll_times (Suc n) ex sy orderID = do {
     live_sleep_ms 500;
     r \<leftarrow> query (GetOrder ex sy orderID);
     case r of
       Inl err \<Rightarrow> poll_times n ex sy orderID
     | Inr resp \<Rightarrow> (if terminal_status (os_Status resp) then State_Monad.return (Some resp) else poll_times n ex sy orderID)
   }"

definition pollOrderStatus :: "'w Exchange \<Rightarrow> string \<Rightarrow> string \<Rightarrow> ('w, 'c, OrderResponse option) live" where
  "pollOrderStatus = poll_times 10"

section \<open>Events\<close>

definition leg_event :: "ExecConfig \<Rightarrow> string \<Rightarrow> TradeIntent \<Rightarrow> int \<Rightarrow> string \<Rightarrow> string \<Rightarrow> int64 \<Rightarrow> ExecutionEvent" where
  "leg_event cfg etype intent i venue action ts =
     zero_event\<lparr>ee_EventType := etype, ee_IntentID := ti_IntentID intent, ee_LegIndex := i, ee_Venue := venue,
       ee_Symbol := ti_Symbol intent, ee_Action := action, ee_Strategy := ti_Strategy intent, ee_TsMs := ts,
       ee_TenantID := xc_TenantID cfg, ee_Mode := xc_TradingMode cfg\<rparr>"

definition leg_event_now :: "string \<Rightarrow> TradeIntent \<Rightarrow> int \<Rightarrow> string \<Rightarrow> string \<Rightarrow> ('w, 'c, ExecutionEvent list) live" where
  "leg_event_now etype intent i venue action = do {
     cfg \<leftarrow> asks lx_cfg;
     ts \<leftarrow> live_now;
     State_Monad.return [leg_event cfg etype intent i venue action ts]
   }"

section \<open>Emergency unwind\<close>

definition reverse_action :: "string \<Rightarrow> string" where
  "reverse_action a = (if a = ''SELL'' then ''BUY'' else ''SELL'')"

definition unwind_request :: "TradeIntent \<Rightarrow> int \<Rightarrow> legResult \<Rightarrow> OrderRequest" where
  "unwind_request intent i result =
     \<lparr>or_Symbol = lr_nativeSym result, or_Side = side_of (reverse_action (tl_Action (ti_Legs intent ! nat i))),
      or_Type = OrderTypeMarket, or_Quantity = lr_filledQty result, or_Price = 0, or_NotionalUSD = lr_filledUSD result,
      or_MaxSlippageBps = 0, or_ClientOrderID = ti_IntentID intent @ ''-unwind-leg'' @ show_int i, or_ReduceOnly = True,
      or_IdempotencyKey = ''''\<rparr>"

definition unwound_event :: "ExecConfig \<Rightarrow> TradeIntent \<Rightarrow> int \<Rightarrow> legResult \<Rightarrow> float64 \<Rightarrow> OrderResponse \<Rightarrow> int64 \<Rightarrow> ExecutionEvent" where
  "unwound_event cfg intent i result mid final ts =
     (let unwindPrice = (if os_AvgFillPrice final = 0 then mid else os_AvgFillPrice final);
          etype = (if os_Status final \<noteq> OrderStatusFilled then ''HEDGE_FAILED'' else ''ORDER_FILLED'')
      in (leg_event cfg etype intent i (lr_venue result) (reverse_action (tl_Action (ti_Legs intent ! nat i))) ts)
           \<lparr>ee_Market := ''PERP'', ee_RequestedNotionalUSD := lr_filledUSD result,
            ee_FilledNotionalUSD := os_FilledQty final * unwindPrice, ee_FilledPrice := unwindPrice,
            ee_FeesUSDActual := os_FeesUSD final\<rparr>)"

text \<open>The action is that of the leg with this index in the intent.\<close>

definition emergencyUnwind :: "TradeIntent \<Rightarrow> int \<Rightarrow> legResult \<Rightarrow> float64 \<Rightarrow> ('w, 'c, ExecutionEvent list) live" where
  "emergencyUnwind intent i result mid = do {
     cfg \<leftarrow> asks lx_cfg;
     ex \<leftarrow> live_client (lr_venue result);
     case ex of
       Inl err \<Rightarrow> leg_event_now ''HEDGE_FAILED'' intent i (lr_venue result) ''''
     | Inr ex \<Rightarrow> do {
         r \<leftarrow> place (lr_venue result) ex (unwind_request intent i result);
         case r of
           Inl err \<Rightarrow> leg_event_now ''HEDGE_FAILED'' intent i (lr_venue result) (reverse_action (tl_Action (ti_Legs intent ! nat i)))
         | Inr resp \<Rightarrow> do {
             f \<leftarrow> pollOrderStatus ex (lr_nativeSym result) (os_OrderID resp);
             ts \<leftarrow> live_now;
             State_Monad.return [unwound_event cfg intent i result mid (case f of None \<Rightarrow> resp | Some final \<Rightarrow> final) ts]
           }
       }
   }"

section \<open>One leg\<close>

text \<open>What the attempts of a leg share.\<close>

record legCtx =
  lc_intent :: TradeIntent
  lc_i :: int
  lc_leg :: TradeLeg
  lc_nativeSym :: string
  lc_constraints :: VenueConstraints
  lc_mid :: float64
  lc_qty :: float64
  lc_targetNotional :: float64

definition slipped :: "float64 \<Rightarrow> float64 \<Rightarrow> TradeLeg \<Rightarrow> float64" where
  "slipped share mid leg =
     (if tl_Action leg = ''BUY'' then mid * (1 + share * tl_MaxSlippageBps leg / 10000)
      else mid * (1 - share * tl_MaxSlippageBps leg / 10000))"

definition attempt_order :: "ExecConfig \<Rightarrow> legCtx \<Rightarrow> int \<Rightarrow> OrderRequest" where
  "attempt_order cfg c attempt =
     (let final = \<not> attempt < xc_MaxRetriesPerLeg cfg;
          share = real_of_int (attempt + 1) / real_of_int (xc_MaxRetriesPerLeg cfg + 1);
          key = ti_IntentID (lc_intent c) @ ''-leg'' @ show_int (lc_i c) @ ''-r'' @ show_int attempt
      in \<lparr>or_Symbol = lc_nativeSym c, or_Side = side_of (tl_Action (lc_leg c)),
          or_Type = (if final then OrderTypeIOC else OrderTypeLimit), or_Quantity = lc_qty c,
          or_Price = RoundPrice (lc_constraints c) (slipped (if final then 1 else share) (lc_mid c) (lc_leg c)),
          or_NotionalUSD = lc_targetNotional c, or_MaxSlippageBps = tl_MaxSlippageBps (lc_leg c),
          or_ClientOrderID = key, or_ReduceOnly = False, or_IdempotencyKey = key\<rparr>)"

text \<open>
  The retry loop over the attempts that are left.  The result is the error and the final order of
  the code when the loop ends; the leg failed when there is an error or no order.  A fill of a
  quantity of 0 is an infinite share of it, which is not below the minimum.
\<close>

fun attempts ::
  "'w Exchange \<Rightarrow> legCtx \<Rightarrow> int list \<Rightarrow> gotext option \<Rightarrow> ('w, 'c, gotext option \<times> OrderResponse option) live" where
  "attempts ex c [] err = State_Monad.return (err, None)"
| "attempts ex c (a # as) err = do {
     cfg \<leftarrow> asks lx_cfg;
     expired \<leftarrow> (if 0 < a then do {
         live_sleep_ms (a * 500);
         ts \<leftarrow> live_now;
         State_Monad.return (ti_ExpiresMs (lc_intent c) < ts)
       } else State_Monad.return False);
     if expired then State_Monad.return (Some (Txt ''intent expired during retry''), None)
     else do {
       r \<leftarrow> place (tl_Venue (lc_leg c)) ex (attempt_order cfg c a);
       case r of
         Inl err' \<Rightarrow> attempts ex c as (Some err')
       | Inr resp \<Rightarrow> do {
           f \<leftarrow> pollOrderStatus ex (lc_nativeSym c) (os_OrderID resp);
           let final = (case f of None \<Rightarrow> resp | Some final \<Rightarrow> final);
           if os_Status final = OrderStatusFilled \<or> (os_Status final = OrderStatusPartiallyFilled \<and> 0 < os_FilledQty final)
           then State_Monad.return (None, Some final)
           else do {
             (if or_Type (attempt_order cfg c a) = OrderTypeLimit then do {
               tell (CancelAsked (tl_Venue (lc_leg c)) (lc_nativeSym c) (os_OrderID final));
               query (CancelOrder ex (lc_nativeSym c) (os_OrderID final));
               skip
             } else skip);
             if 0 < os_FilledQty final then
               (if lc_qty c \<noteq> 0 \<and> os_FilledQty final / lc_qty c < xc_MinPartialFillPct cfg
                then attempts ex c as (Some (Txt ''partial fill below threshold''))
                else State_Monad.return (None, Some final))
             else attempts ex c as (Some (Txt ''order status''))
           }
         }
     }
   }"

record legAcc =
  la_events :: "ExecutionEvent list"
  la_results :: "legResult list"
  la_buyPrice :: float64
  la_sellPrice :: float64
  la_totalFees :: float64

definition leg_result :: "legCtx \<Rightarrow> OrderResponse \<Rightarrow> int64 \<Rightarrow> legResult" where
  "leg_result c final ts =
     (let price = (if os_AvgFillPrice final = 0 then lc_mid c else os_AvgFillPrice final);
          notional = (if os_FilledQty final * price = 0 then lc_targetNotional c else os_FilledQty final * price)
      in \<lparr>lr_filled = True, lr_filledQty = os_FilledQty final, lr_filledUSD = notional, lr_fillPrice = price,
          lr_feesUSD = os_FeesUSD final, lr_orderID = os_OrderID final, lr_venue = tl_Venue (lc_leg c),
          lr_nativeSym = lc_nativeSym c,
          lr_partialFill = (os_Status final = OrderStatusPartiallyFilled \<or>
             (0 < os_FilledQty final \<and> os_FilledQty final < lc_qty c * 0.99)),
          lr_fillTsMs = ts\<rparr>)"

definition live_fill_event :: "ExecConfig \<Rightarrow> legCtx \<Rightarrow> legResult \<Rightarrow> int64 \<Rightarrow> int64 \<Rightarrow> ExecutionEvent" where
  "live_fill_event cfg c r now fillTs =
     (leg_event cfg (if lr_partialFill r then ''LEG_PARTIAL'' else ''ORDER_FILLED'') (lc_intent c) (lc_i c)
        (tl_Venue (lc_leg c)) (tl_Action (lc_leg c)) fillTs)
       \<lparr>ee_Market := leg_market (lc_leg c), ee_RequestedNotionalUSD := lc_targetNotional c,
        ee_FilledNotionalUSD := lr_filledUSD r, ee_FilledPrice := lr_fillPrice r,
        ee_SlippageBpsActual := \<bar>lr_fillPrice r - lc_mid c\<bar> / lc_mid c * 10000,
        ee_SlippageBpsAllowed := tl_MaxSlippageBps (lc_leg c), ee_FeesUSDActual := lr_feesUSD r,
        ee_LatencySignalToFillMs := fillTs - now\<rparr>"

definition record_fill :: "legCtx \<Rightarrow> int64 \<Rightarrow> OrderResponse \<Rightarrow> legAcc \<Rightarrow> ('w, 'c, legAcc) live" where
  "record_fill c now final acc = do {
     cfg \<leftarrow> asks lx_cfg;
     ts \<leftarrow> live_now;
     let r = leg_result c final ts;
     recordDailyFill ts (lr_filledUSD r);
     fillTs \<leftarrow> live_now;
     State_Monad.return (acc\<lparr>la_events := la_events acc @ [live_fill_event cfg c r now fillTs],
       la_results := la_results acc @ [r],
       la_buyPrice := (if tl_Action (lc_leg c) = ''BUY'' then lr_fillPrice r else la_buyPrice acc),
       la_sellPrice := (if tl_Action (lc_leg c) = ''BUY'' then la_sellPrice acc else lr_fillPrice r),
       la_totalFees := la_totalFees acc + lr_feesUSD r\<rparr>)
   }"

text \<open>The result of the leg before, and giving up on a leg: an event, then the unwinding of the leg before.\<close>

definition previous :: "legAcc \<Rightarrow> legResult" where
  "previous acc = (if la_results acc = [] then no_result else List.last (la_results acc))"

definition abort_leg :: "string \<Rightarrow> TradeIntent \<Rightarrow> float64 \<Rightarrow> int \<Rightarrow> TradeLeg \<Rightarrow> legAcc \<Rightarrow> ('w, 'c, legAcc \<times> bool) live" where
  "abort_leg etype intent mid i leg acc = do {
     ev \<leftarrow> leg_event_now etype intent i (tl_Venue leg) (tl_Action leg);
     unwind \<leftarrow> (if 0 < i \<and> lr_filled (previous acc) then emergencyUnwind intent (i - 1) (previous acc) mid
                else State_Monad.return []);
     State_Monad.return (acc\<lparr>la_events := la_events acc @ ev @ unwind\<rparr>, False)
   }"

definition min_qty :: "VenueConstraints \<Rightarrow> float64 \<Rightarrow> float64" where
  "min_qty vc qty = (if 0 < vc_MinQty vc \<and> qty < vc_MinQty vc then vc_MinQty vc else qty)"

definition no_constraints :: "string \<Rightarrow> VenueConstraints" where
  "no_constraints sy = \<lparr>vc_Symbol = sy, vc_TickSize = 0, vc_LotSize = 0, vc_MinQty = 0, vc_MaxQty = 0, vc_MinNotional = 0,
     vc_PostOnly = False, vc_ReduceOnly = False\<rparr>"

text \<open>The boolean says whether the loop over the legs goes on.\<close>

definition trade_leg :: "TradeIntent \<Rightarrow> int64 \<Rightarrow> float64 \<Rightarrow> int \<Rightarrow> TradeLeg \<Rightarrow> 'w Exchange \<Rightarrow> legAcc \<Rightarrow> ('w, 'c, legAcc \<times> bool) live" where
  "trade_leg intent now mid i leg ex acc = do {
     cfg \<leftarrow> asks lx_cfg;
     let nativeSymbol = mapSymbol (tl_Venue leg) (ti_Symbol intent);
     r \<leftarrow> query (GetConstraints ex nativeSymbol);
     let vc = (case r of Inr (Some vc) \<Rightarrow> vc | _ \<Rightarrow> no_constraints nativeSymbol);
     let target = (if 0 < i \<and> lr_partialFill (previous acc) then lr_filledUSD (previous acc) else tl_NotionalUSD leg);
     if 0 < vc_MinNotional vc \<and> target < vc_MinNotional vc then State_Monad.return (acc, False)
     else do {
       let c = \<lparr>lc_intent = intent, lc_i = i, lc_leg = leg, lc_nativeSym = nativeSymbol, lc_constraints = vc, lc_mid = mid,
                lc_qty = min_qty vc (RoundQty vc (target / mid)), lc_targetNotional = target\<rparr>;
       o' \<leftarrow> attempts ex c [0..xc_MaxRetriesPerLeg cfg] None;
       case o' of
         (None, Some final) \<Rightarrow> do { acc \<leftarrow> record_fill c now final acc; State_Monad.return (acc, True) }
       | _ \<Rightarrow> abort_leg ''ORDER_REJECTED'' intent mid i leg acc
     }
   }"

definition hedge_drifted :: "int \<Rightarrow> legAcc \<Rightarrow> ('w, 'c, bool) live" where
  "hedge_drifted i acc = do {
     cfg \<leftarrow> asks lx_cfg;
     if 0 < i \<and> lr_filled (previous acc) then do {
       ts \<leftarrow> live_now;
       State_Monad.return (xc_HedgeDriftMaxMs cfg < ts - lr_fillTsMs (previous acc))
     } else State_Monad.return False
   }"

definition live_leg :: "TradeIntent \<Rightarrow> int64 \<Rightarrow> float64 \<Rightarrow> int \<Rightarrow> TradeLeg \<Rightarrow> legAcc \<Rightarrow> ('w, 'c, legAcc \<times> bool) live" where
  "live_leg intent now mid i leg acc = do {
     ts \<leftarrow> live_now;
     if ti_ExpiresMs intent < ts then abort_leg ''ORDER_REJECTED'' intent mid i leg acc
     else do {
       drifted \<leftarrow> hedge_drifted i acc;
       if drifted then abort_leg ''HEDGE_DRIFT'' intent mid i leg acc
       else do {
         ex \<leftarrow> live_client (tl_Venue leg);
         case ex of
           Inl err \<Rightarrow> abort_leg ''ORDER_REJECTED'' intent mid i leg acc
         | Inr ex \<Rightarrow> trade_leg intent now mid i leg ex acc
       }
     }
   }"

primrec live_legs :: "TradeIntent \<Rightarrow> int64 \<Rightarrow> float64 \<Rightarrow> int \<Rightarrow> TradeLeg list \<Rightarrow> legAcc \<Rightarrow> ('w, 'c, legAcc) live" where
  "live_legs intent now mid i [] acc = State_Monad.return acc"
| "live_legs intent now mid i (leg # legs) acc = do {
     p \<leftarrow> live_leg intent now mid i leg acc;
     if snd p then live_legs intent now mid (i + 1) legs (fst p) else State_Monad.return (fst p)
   }"

section \<open>Execute\<close>

text \<open>The largest order a venue takes stands for its depth; \<open>None\<close> is the largest float.\<close>

definition depth_proxy :: "string \<Rightarrow> TradeLeg \<Rightarrow> ('w, 'c, float64 option) live" where
  "depth_proxy sy leg = do {
     ex \<leftarrow> live_client (tl_Venue leg);
     case ex of
       Inl err \<Rightarrow> State_Monad.return None
     | Inr ex \<Rightarrow> do {
         r \<leftarrow> query (GetConstraints ex (mapSymbol (tl_Venue leg) sy));
         State_Monad.return (case r of Inr (Some vc) \<Rightarrow> (if 0 < vc_MaxQty vc then Some (vc_MaxQty vc) else None) | _ \<Rightarrow> None)
       }
   }"

definition thinner :: "float64 option \<Rightarrow> float64 option \<Rightarrow> bool" where
  "thinner b a = (case b of None \<Rightarrow> False | Some y \<Rightarrow> (case a of None \<Rightarrow> True | Some x \<Rightarrow> y < x))"

definition orderLegsByDepth :: "string \<Rightarrow> TradeLeg list \<Rightarrow> ('w, 'c, TradeLeg list) live" where
  "orderLegsByDepth sy legs =
     (case legs of
        [a, b] \<Rightarrow> do {
          depthA \<leftarrow> depth_proxy sy a;
          depthB \<leftarrow> depth_proxy sy b;
          State_Monad.return (if thinner depthB depthA then [b, a] else legs)
        }
      | _ \<Rightarrow> State_Monad.return legs)"

definition live_summary :: "ExecConfig \<Rightarrow> TradeIntent \<Rightarrow> float64 \<Rightarrow> legAcc \<Rightarrow> int64 \<Rightarrow> int64 \<Rightarrow> SimulatedFill" where
  "live_summary cfg intent mid acc ts latency =
     (let first = (if la_results acc = [] then no_result else hd (la_results acc));
          notional = (if lr_filledUSD first = 0 then tl_NotionalUSD (hd (ti_Legs intent)) else lr_filledUSD first);
          netPnL = (if 0 < la_buyPrice acc \<and> 0 < la_sellPrice acc
                    then (la_sellPrice acc - la_buyPrice acc) / mid * notional - la_totalFees acc else 0);
          edge = em_EdgeBpsNet (ti_Expected intent);
          fills = filter (\<lambda>ev. ee_EventType ev = ''ORDER_FILLED'' \<or> ee_EventType ev = ''LEG_PARTIAL'') (la_events acc)
      in (expired_fill_of cfg intent)\<lparr>sf_Legs := map leg_of_event fills, sf_TsFillSimulatedMs := ts, sf_LatencyMs := latency,
           sf_EdgeAtSignalBps := edge, sf_EdgeAtFillBps := edge, sf_EdgeCapturedBps := edge,
           sf_FillPriceBuy := la_buyPrice acc, sf_FillPriceSell := la_sellPrice acc, sf_FeesAssumedUSD := la_totalFees acc,
           sf_NetPnLUSD := netPnL, sf_IntentExpired := False\<rparr>)"

definition totalIntentNotional :: "TradeIntent \<Rightarrow> float64" where
  "totalIntentNotional intent = (\<Sum>leg\<leftarrow>ti_Legs intent. tl_NotionalUSD leg)"

definition exceeds_order_cap :: "ExecConfig \<Rightarrow> TradeIntent \<Rightarrow> bool" where
  "exceeds_order_cap cfg intent \<longleftrightarrow> 0 < xc_LiveMaxOrderNotionalUSD cfg \<and>
     (\<exists>leg\<in>set (ti_Legs intent). xc_LiveMaxOrderNotionalUSD cfg < tl_NotionalUSD leg)"

definition exceeds_daily_cap :: "TradeIntent \<Rightarrow> int64 \<Rightarrow> ('w, 'c, bool) live" where
  "exceeds_daily_cap intent now = do {
     cfg \<leftarrow> asks lx_cfg;
     if 0 < xc_LiveMaxDailyNotionalUSD cfg then do {
       rolling \<leftarrow> rollingDailyNotional now;
       State_Monad.return (xc_LiveMaxDailyNotionalUSD cfg < rolling + totalIntentNotional intent)
     } else State_Monad.return False
   }"

definition live_run :: "TradeIntent \<Rightarrow> int64 \<Rightarrow> float64 \<Rightarrow> ('w, 'c, ExecutionEvent list \<times> SimulatedFill option) live" where
  "live_run intent now mid = do {
     cfg \<leftarrow> asks lx_cfg;
     legs \<leftarrow> orderLegsByDepth (ti_Symbol intent) (ti_Legs intent);
     acc \<leftarrow> live_legs intent now mid 0 legs
       \<lparr>la_events = [], la_results = [], la_buyPrice = 0, la_sellPrice = 0, la_totalFees = 0\<rparr>;
     ts \<leftarrow> live_now;
     ts' \<leftarrow> live_now;
     State_Monad.return (la_events acc, Some (live_summary cfg intent mid acc ts (ts' - now)))
   }"

definition LiveExecute :: "TradeIntent \<Rightarrow> ('w, 'c, ExecutionEvent list \<times> SimulatedFill option) live" where
  "LiveExecute intent = do {
     now \<leftarrow> live_now;
     cfg \<leftarrow> asks lx_cfg;
     if ti_ExpiresMs intent < now then State_Monad.return ([], Some (expired_fill_of cfg intent))
     else if exceeds_order_cap cfg intent then State_Monad.return ([rejected cfg intent now], None)
     else do {
       over \<leftarrow> exceeds_daily_cap intent now;
       if over then State_Monad.return ([rejected cfg intent now], None)
       else do {
         cache \<leftarrow> asks lx_priceCache;
         case PriceCache_Mid cache (ti_Symbol intent) of
           None \<Rightarrow> State_Monad.return ([], None)
         | Some mid \<Rightarrow>
             (if mid = 0 \<or> ti_Legs intent = [] then State_Monad.return ([], None) else live_run intent now mid)
       }
     }
   }"

section \<open>Reconciliation of fills\<close>

text \<open>
  The goroutine that an execution with a fill starts: after a delay it compares its results with
  the orders of the venues and logs what differs.  It changes nothing, and is an action of its own.
\<close>

datatype divergence =
    QUANTITY_DIVERGENCE string int string float64 float64
  | PRICE_DIVERGENCE string int string float64 float64
  | FEE_DIVERGENCE string int string float64 float64 float64 float64

definition expected_fees :: "ExecConfig \<Rightarrow> legResult \<Rightarrow> float64 \<times> float64" where
  "expected_fees cfg r =
     (case venue_profile cfg (lr_venue r) of
        Some p \<Rightarrow> (lr_filledUSD r * vp_FeeBpsMaker p / 10000, lr_filledUSD r * vp_FeeBpsTaker p / 10000)
      | None \<Rightarrow> (0, 0))"

definition divergences :: "ExecConfig \<Rightarrow> TradeIntent \<Rightarrow> int \<Rightarrow> legResult \<Rightarrow> OrderResponse \<Rightarrow> divergence list" where
  "divergences cfg intent i r ord =
     (if 0 < os_FilledQty ord \<and> 0.01 < \<bar>lr_filledQty r - os_FilledQty ord\<bar> / os_FilledQty ord
      then [QUANTITY_DIVERGENCE (ti_IntentID intent) i (lr_venue r) (lr_filledQty r) (os_FilledQty ord)] else []) @
     (if 0 < os_AvgFillPrice ord \<and> 0.001 < \<bar>lr_fillPrice r - os_AvgFillPrice ord\<bar> / os_AvgFillPrice ord
      then [PRICE_DIVERGENCE (ti_IntentID intent) i (lr_venue r) (lr_fillPrice r) (os_AvgFillPrice ord)] else []) @
     (if 0 < os_FeesUSD ord \<and> 1 < \<bar>lr_feesUSD r - os_FeesUSD ord\<bar>
      then (case expected_fees cfg r of (maker, taker) \<Rightarrow>
        [FEE_DIVERGENCE (ti_IntentID intent) i (lr_venue r) (lr_feesUSD r) (os_FeesUSD ord) maker taker]) else [])"

definition reconcileFills :: "TradeIntent \<Rightarrow> legResult list \<Rightarrow> ('w, 'c, divergence list) live" where
  "reconcileFills intent results = do {
     cfg \<leftarrow> asks lx_cfg;
     live_sleep_ms (xc_ReconDelayMs cfg);
     collect (enumerate 0 results) (\<lambda>(i, r).
       if \<not> lr_filled r \<or> lr_orderID r = '''' then State_Monad.return []
       else do {
         ex \<leftarrow> live_client (lr_venue r);
         case ex of
           Inl err \<Rightarrow> State_Monad.return []
         | Inr ex \<Rightarrow> do {
             x \<leftarrow> query (GetOrder ex (lr_nativeSym r) (lr_orderID r));
             State_Monad.return (case x of Inl err \<Rightarrow> [] | Inr ord \<Rightarrow> divergences cfg intent (int i) r ord)
           }
       })
   }"

section \<open>Positions and deleveraging\<close>

definition truth_event :: "ExecConfig \<Rightarrow> string \<Rightarrow> int64 \<Rightarrow> Position \<Rightarrow> ExecutionEvent" where
  "truth_event cfg venue now pos =
     zero_event\<lparr>ee_EventType := ''POSITION_TRUTH'', ee_Venue := venue, ee_Symbol := po_Symbol pos, ee_Action := po_Side pos,
       ee_FilledNotionalUSD := po_NotionalUSD pos, ee_FilledPrice := po_MarkPrice pos, ee_TsMs := now,
       ee_TenantID := xc_TenantID cfg, ee_Mode := xc_TradingMode cfg\<rparr>"

text \<open>Balances are fetched and only logged.\<close>

definition reconcile_venue :: "int64 \<Rightarrow> string \<Rightarrow> ('w, 'c, ExecutionEvent list) live" where
  "reconcile_venue now venue = do {
     cfg \<leftarrow> asks lx_cfg;
     ex \<leftarrow> live_client venue;
     case ex of
       Inl err \<Rightarrow> State_Monad.return []
     | Inr ex \<Rightarrow> do {
         r \<leftarrow> query (GetPositions ex);
         case r of
           Inl err \<Rightarrow> State_Monad.return [zero_event\<lparr>ee_EventType := ''RECON_FAILED'', ee_Venue := venue, ee_TsMs := now,
                        ee_TenantID := xc_TenantID cfg, ee_Mode := xc_TradingMode cfg\<rparr>]
         | Inr positions \<Rightarrow> do {
             query (GetBalances ex);
             State_Monad.return (map (truth_event cfg venue now) (filter (\<lambda>p. po_Quantity p \<noteq> 0) positions))
           }
       }
   }"

definition ReconcilePositions :: "string list \<Rightarrow> ('w, 'c, ExecutionEvent list) live" where
  "ReconcilePositions venues = do { now \<leftarrow> live_now; collect venues (reconcile_venue now) }"

definition DetectADLEvents :: "int64 \<Rightarrow> ('w, 'c, ADLEvent list) live" where
  "DetectADLEvents sinceMs = do {
     reg \<leftarrow> asks lx_registry;
     collect (Registry_All reg) (\<lambda>(venue, ex).
       case ADLDetector_DetectADLEvents ex of
         None \<Rightarrow> State_Monad.return []
       | Some detect \<Rightarrow> do {
           r \<leftarrow> query (detect sinceMs);
           State_Monad.return (case r of Inl err \<Rightarrow> [] | Inr evs \<Rightarrow> evs)
         })
   }"

section \<open>What an execution sends\<close>

lemma silent_live [grows_intros]:
  "silent live_now" "silent (live_sleep_ms ms)" "silent (live_client v)"
  unfolding live_now_def live_sleep_ms_def live_client_def
  by (intro grows_intros silent_modify; simp)+

lemma silent_poll_times [grows_intros]: "silent (poll_times n ex sy orderID)"
  by (induction n) (auto intro!: grows_intros)

lemma silent_poll [grows_intros]: "silent (pollOrderStatus ex sy orderID)"
  unfolding pollOrderStatus_def by (rule grows_intros)

lemma silent_leg_event [grows_intros]: "silent (leg_event_now etype intent i venue action)"
  unfolding leg_event_now_def by (intro grows_intros)

lemma silent_record [grows_intros]: "silent (record_fill c now final acc)"
  unfolding record_fill_def recordDailyFill_def Let_def by (intro grows_intros silent_modify) simp

lemma silent_drift [grows_intros]: "silent (hedge_drifted i acc)"
  unfolding hedge_drifted_def by (intro grows_intros)

lemma silent_depth [grows_intros]: "silent (depth_proxy sy leg)"
  unfolding depth_proxy_def by (intro grows_intros)

lemma grows_place: "grows (place v ex r) (\<lambda>a new. new = [Placed v r a])"
  unfolding place_def by (intro grows_intros grows_bind [OF grows_tell [where P = "\<lambda>_ new. new = [_]"]]) auto

text \<open>
  The clients an executor can reach for a venue, and the constraints a venue of the registry can
  have answered with; a client that knows none has the empty constraints of the code.
\<close>

definition client_of :: "('w, 'c) Registry \<Rightarrow> string \<Rightarrow> 'w Exchange \<Rightarrow> bool" where
  "client_of reg v ex \<longleftrightarrow> (\<exists>w r' w'. Registry_Get reg v w = ((Inr ex, r'), w'))"

definition constraints_answer :: "string \<Rightarrow> gotext + VenueConstraints option \<Rightarrow> VenueConstraints" where
  "constraints_answer sy r = (case r of Inr (Some vc) \<Rightarrow> vc | _ \<Rightarrow> no_constraints sy)"

definition venue_constraints :: "('w, 'c) Registry \<Rightarrow> string \<Rightarrow> string \<Rightarrow> VenueConstraints \<Rightarrow> bool" where
  "venue_constraints reg v sy vc \<longleftrightarrow> (\<exists>ex w. client_of reg v ex \<and> vc = constraints_answer sy (fst (GetConstraints ex sy w)))"

text \<open>
  An opening order of a leg: on its venue, on its side, of the leg's symbol there, with a
  price between the mid and the slippage limit rounded to the tick of the venue, and a quantity
  rounded down to its lot (or its minimum); a closing order is a market order that may only reduce.
\<close>

definition opens_leg ::
  "(string \<Rightarrow> string \<Rightarrow> VenueConstraints \<Rightarrow> bool) \<Rightarrow> string \<Rightarrow> TradeLeg \<Rightarrow> float64 \<Rightarrow> string \<Rightarrow> OrderRequest \<Rightarrow> bool" where
  "opens_leg K sy leg mid v req \<longleftrightarrow> v = tl_Venue leg \<and> or_Side req = side_of (tl_Action leg) \<and> \<not> or_ReduceOnly req \<and>
     or_Symbol req = mapSymbol v sy \<and>
     (\<exists>vc share. K v (or_Symbol req) vc \<and> 0 < share \<and> share \<le> 1 \<and>
        or_Price req = RoundPrice vc (mid * (1 + (if tl_Action leg = ''BUY'' then share else - share) * tl_MaxSlippageBps leg / 10000)) \<and>
        or_Quantity req = min_qty vc (RoundQty vc (or_NotionalUSD req / mid)))"

definition closes_leg :: "OrderRequest \<Rightarrow> bool" where
  "closes_leg req \<longleftrightarrow> or_ReduceOnly req \<and> or_Type req = OrderTypeMarket"

text \<open>The bound behind the price: no further from the mid than the slippage limit and half a tick.\<close>

lemma opens_leg_price:
  assumes "opens_leg K sy leg mid v req" "0 \<le> mid" "0 \<le> tl_MaxSlippageBps leg" "\<And>vc. K v (or_Symbol req) vc \<Longrightarrow> vc_TickSize vc \<le> t" "0 \<le> t"
  shows "\<bar>or_Price req - mid\<bar> \<le> mid * tl_MaxSlippageBps leg / 10000 + t / 2"
proof -
  obtain vc share where o: "K v (or_Symbol req) vc" "0 < share" "share \<le> 1" "or_Price req = RoundPrice vc (slipped share mid leg)"
    using assms(1) by (auto simp: opens_leg_def slipped_def)
  have "\<bar>or_Price req - slipped share mid leg\<bar> \<le> t / 2"
    using RoundPrice_near [of vc "slipped share mid leg"] assms(4) [OF o(1)] assms(5) unfolding o(4) by linarith
  moreover have "\<bar>slipped share mid leg - mid\<bar> = share * (mid * tl_MaxSlippageBps leg / 10000)"
    using o(2) assms(2,3) by (auto simp: slipped_def algebra_simps)
  moreover have "share * (mid * tl_MaxSlippageBps leg / 10000) \<le> mid * tl_MaxSlippageBps leg / 10000"
    using o(2,3) assms(2,3) by (intro mult_left_le_one_le) auto
  ultimately show ?thesis by linarith
qed

definition live_out_ok ::
  "(string \<Rightarrow> string \<Rightarrow> VenueConstraints \<Rightarrow> bool) \<Rightarrow> string \<Rightarrow> TradeLeg set \<Rightarrow> float64 \<Rightarrow> live_out \<Rightarrow> bool" where
  "live_out_ok K sy legs mid x =
     (case x of Placed v req a \<Rightarrow> closes_leg req \<or> (\<exists>leg\<in>legs. opens_leg K sy leg mid v req) | CancelAsked _ _ _ \<Rightarrow> True)"

lemma live_out_ok_cancel [simp]: "live_out_ok K sy legs mid (CancelAsked v sy' i)"
  by (simp add: live_out_ok_def)

text \<open>What the attempts of a leg are given.\<close>

definition ctx_ok :: "(string \<Rightarrow> string \<Rightarrow> VenueConstraints \<Rightarrow> bool) \<Rightarrow> string \<Rightarrow> legCtx \<Rightarrow> bool" where
  "ctx_ok K sy c \<longleftrightarrow> lc_nativeSym c = mapSymbol (tl_Venue (lc_leg c)) sy \<and>
     K (tl_Venue (lc_leg c)) (lc_nativeSym c) (lc_constraints c) \<and>
     lc_qty c = min_qty (lc_constraints c) (RoundQty (lc_constraints c) (lc_targetNotional c / lc_mid c))"

lemma attempt_opens:
  assumes "0 \<le> a" "ctx_ok K sy c"
  shows "opens_leg K sy (lc_leg c) (lc_mid c) (tl_Venue (lc_leg c)) (attempt_order cfg c a)"
proof -
  let ?share = "if \<not> a < xc_MaxRetriesPerLeg cfg then 1 else real_of_int (a + 1) / real_of_int (xc_MaxRetriesPerLeg cfg + 1)"
  have "0 < ?share" "?share \<le> 1" using assms(1) by (simp_all add: divide_simps)
  then show ?thesis
    unfolding opens_leg_def attempt_order_def Let_def slipped_def
    using assms(2) by (auto simp: ctx_ok_def intro!: exI [of _ "lc_constraints c"])
qed

lemma grows_attempts:
  assumes "\<forall>a\<in>set as. 0 \<le> a" "ctx_ok K sy c"
  shows "grows (attempts ex c as err) (\<lambda>_ new. \<forall>x\<in>set new. live_out_ok K sy {lc_leg c} (lc_mid c) x)"
  using assms(1)
proof (induction as arbitrary: err)
  case Nil
  show ?case by (simp add: grows_return)
next
  case (Cons a as)
  have cancel: "grows (if b then do { tell (CancelAsked v sy' i); query q; skip } else skip) (\<lambda>_ new. \<forall>x\<in>set new. live_out_ok K sy {lc_leg c} (lc_mid c) x)"
    for b v sy' i and q :: "'a \<Rightarrow> 'd \<times> 'a"
    by (intro grows_intros grows_bind [OF grows_tell [where P = "\<lambda>_ new. new = [CancelAsked v sy' i]"]])
       (auto intro!: silent_grows grows_intros)
  have p: "live_out_ok K sy {lc_leg c} (lc_mid c) (Placed (tl_Venue (lc_leg c)) (attempt_order cfg c a) r)" for cfg r
    using attempt_opens [OF _ assms(2), of a cfg] Cons.prems by (simp add: live_out_ok_def)
  show ?case
    unfolding attempts.simps Let_def
    by (intro grows_intros grows_bind [OF grows_place] grows_bind [OF cancel])
       (use Cons p in \<open>auto intro!: grows_weaken [OF Cons.IH]\<close>)
qed

lemma grows_unwind:
  "grows (emergencyUnwind intent i result mid)
     (\<lambda>evs new. (new = [] \<and> (\<exists>ev. evs = [ev] \<and> ee_EventType ev = ''HEDGE_FAILED'')) \<or>
        (\<exists>a. new = [Placed (lr_venue result) (unwind_request intent i result) a]))"
  unfolding emergencyUnwind_def leg_event_now_def
  by (intro grows_intros grows_bind [OF grows_place]) (auto simp: leg_event_def intro!: silent_grows grows_intros)

lemma closes_unwind: "live_out_ok K sy legs mid (Placed v (unwind_request intent i result) a)"
  by (simp add: live_out_ok_def closes_leg_def unwind_request_def)

text \<open>
  The leg before was filled and is being unwound: an order, or the report that it failed among
  the new events.
\<close>

definition unwound :: "TradeIntent \<Rightarrow> int \<Rightarrow> legAcc \<Rightarrow> ExecutionEvent list \<Rightarrow> live_out list \<Rightarrow> bool" where
  "unwound intent i acc evs new \<longleftrightarrow> (0 < i \<and> lr_filled (previous acc) \<longrightarrow>
     (\<exists>a. Placed (lr_venue (previous acc)) (unwind_request intent (i - 1) (previous acc)) a \<in> set new) \<or>
     (\<exists>ev\<in>set evs. ee_EventType ev = ''HEDGE_FAILED''))"

lemma grows_abort:
  "grows (abort_leg etype intent mid i leg acc)
     (\<lambda>r new. \<not> snd r \<and> (\<forall>x\<in>set new. live_out_ok K sy legs mid x) \<and>
        (\<exists>evs. la_events (fst r) = la_events acc @ evs \<and> unwound intent i acc evs new))"
proof -
  have u: "grows (if 0 < i \<and> lr_filled (previous acc) then emergencyUnwind intent (i - 1) (previous acc) mid else State_Monad.return [])
      (\<lambda>evs new. (\<forall>x\<in>set new. live_out_ok K sy legs mid x) \<and> unwound intent i acc evs new)"
    by (intro grows_if grows_weaken [OF grows_unwind] grows_return) (auto simp: unwound_def closes_unwind)
  show ?thesis
    unfolding abort_leg_def
    by (intro grows_silent_bind grows_intros grows_bind [OF u]) (auto simp: unwound_def)
qed

text \<open>
  A leg that ends the execution unwinds the one before, unless its notional was below the minimum
  that its venue answered with.
\<close>

definition target_notional :: "int \<Rightarrow> TradeLeg \<Rightarrow> legAcc \<Rightarrow> float64" where
  "target_notional i leg acc = (if 0 < i \<and> lr_partialFill (previous acc) then lr_filledUSD (previous acc) else tl_NotionalUSD leg)"

definition below_minimum ::
  "(string \<Rightarrow> string \<Rightarrow> VenueConstraints \<Rightarrow> bool) \<Rightarrow> string \<Rightarrow> int \<Rightarrow> TradeLeg \<Rightarrow> legAcc \<Rightarrow> bool" where
  "below_minimum K sy i leg acc \<longleftrightarrow> (\<exists>vc. K (tl_Venue leg) (mapSymbol (tl_Venue leg) sy) vc \<and>
     0 < vc_MinNotional vc \<and> target_notional i leg acc < vc_MinNotional vc)"

definition leg_spec ::
  "(string \<Rightarrow> string \<Rightarrow> VenueConstraints \<Rightarrow> bool) \<Rightarrow> TradeIntent \<Rightarrow> float64 \<Rightarrow> int \<Rightarrow> TradeLeg \<Rightarrow> legAcc \<Rightarrow>
   legAcc \<times> bool \<Rightarrow> live_out list \<Rightarrow> bool" where
  "leg_spec K intent mid i leg acc r new \<longleftrightarrow> (\<forall>x\<in>set new. live_out_ok K (ti_Symbol intent) {leg} mid x) \<and>
     (snd r \<or> (below_minimum K (ti_Symbol intent) i leg acc \<and> new = [] \<and> fst r = acc) \<or>
      (\<exists>evs. la_events (fst r) = la_events acc @ evs \<and> unwound intent i acc evs new))"

lemma grows_abort_spec: "grows (abort_leg etype intent mid i leg acc) (leg_spec K intent mid i leg acc)"
  by (rule grows_weaken [OF grows_abort [where K = K and sy = "ti_Symbol intent" and legs = "{leg}"]]) (auto simp: leg_spec_def)

lemma grows_query_bind:
  assumes "\<And>w. grows (f (fst (q w))) P"
  shows "grows (query q \<bind> f) P"
proof (rule growsI)
  fix s :: "('a, 'b, 'c) io_scheme"
  obtain x w where q: "q (world s) = (x, w)" by fastforce
  have "wp (f x) (\<lambda>a s'. \<exists>new. trace s' = trace (s\<lparr>world := w\<rparr>) @ new \<and> P a new) (s\<lparr>world := w\<rparr>)"
    using growsD [OF assms [of "world s"], of "s\<lparr>world := w\<rparr>"] q by simp
  then show "wp (query q \<bind> f) (\<lambda>a s'. \<exists>new. trace s' = trace s @ new \<and> P a new) s" using q by simp
qed

lemma grows_trade_leg:
  assumes "\<And>w. K (tl_Venue leg) (mapSymbol (tl_Venue leg) (ti_Symbol intent))
     (constraints_answer (mapSymbol (tl_Venue leg) (ti_Symbol intent))
        (fst (GetConstraints ex (mapSymbol (tl_Venue leg) (ti_Symbol intent)) w)))"
  shows "grows (trade_leg intent now mid i leg ex acc) (leg_spec K intent mid i leg acc)"
proof -
  let ?sy = "ti_Symbol intent"
  have ab: "grows (abort_leg etype intent mid i leg acc) (\<lambda>b new'. leg_spec K intent mid i leg acc b (new @ new'))"
    if "\<forall>x\<in>set new. live_out_ok K ?sy {leg} mid x" for etype new
    using that by (intro grows_weaken [OF grows_abort [where K = K and sy = ?sy and legs = "{leg}"]])
      (fastforce simp: leg_spec_def unwound_def)
  have core: "grows (attempts ex c [0..n] None \<bind> (\<lambda>out. case out of
        (None, Some final) \<Rightarrow> do { acc \<leftarrow> record_fill c now final acc; State_Monad.return (acc, True) }
      | _ \<Rightarrow> abort_leg ''ORDER_REJECTED'' intent mid i leg acc)) (leg_spec K intent mid i leg acc)"
    if "ctx_ok K ?sy c" "lc_leg c = leg" "lc_mid c = mid" for c n
  proof (rule grows_bind)
    show "grows (attempts ex c [0..n] None) (\<lambda>_ new. \<forall>x\<in>set new. live_out_ok K ?sy {leg} mid x)"
      using grows_attempts [of "[0..n]" K ?sy c] that by simp
  next
    fix out new
    assume new: "\<forall>x\<in>set new. live_out_ok K ?sy {leg} mid x"
    have "grows (do { acc \<leftarrow> record_fill c now final acc; State_Monad.return (acc, True) })
      (\<lambda>b new'. leg_spec K intent mid i leg acc b (new @ new'))" for final
      using new by (intro grows_silent_bind silent_record grows_return) (simp add: leg_spec_def)
    then show "grows (case out of
        (None, Some final) \<Rightarrow> do { acc \<leftarrow> record_fill c now final acc; State_Monad.return (acc, True) }
      | _ \<Rightarrow> abort_leg ''ORDER_REJECTED'' intent mid i leg acc) (\<lambda>b new'. leg_spec K intent mid i leg acc b (new @ new'))"
      using ab new by (auto split: prod.split option.split)
  qed
  show ?thesis
    unfolding trade_leg_def Let_def constraints_answer_def [symmetric] target_notional_def [symmetric]
  proof (rule grows_silent_bind [OF silent_asks], rule grows_query_bind, rule grows_if)
    fix w
    let ?vc = "constraints_answer (mapSymbol (tl_Venue leg) ?sy) (fst (GetConstraints ex (mapSymbol (tl_Venue leg) ?sy) w))"
    assume "0 < vc_MinNotional ?vc \<and> target_notional i leg acc < vc_MinNotional ?vc"
    then have "below_minimum K ?sy i leg acc" using assms [of w] by (auto simp: below_minimum_def)
    then show "grows (State_Monad.return (acc, False)) (leg_spec K intent mid i leg acc)"
      by (intro grows_return) (simp add: leg_spec_def)
  qed (rule core, simp_all add: ctx_ok_def assms)
qed

section \<open>What an execution keeps\<close>

text \<open>
  An invariant of the executor that no answer, no order and no new client can break is kept by
  every action of an execution.
\<close>

locale desk_invariant =
  fixes I :: "('w, 'c) LiveExecutor \<Rightarrow> bool"
  assumes answered: "I (e\<lparr>world := w\<rparr>) = I e" and sent: "I (e\<lparr>trace := out\<rparr>) = I e" and filled: "I (e\<lparr>lx_dailyFills := fs\<rparr>) = I e"
    and created: "I e \<Longrightarrow> Registry_Get (lx_registry e) v w = ((r, reg), w') \<Longrightarrow> I (e\<lparr>lx_registry := reg\<rparr>)"
begin

lemma pres_query: "pres I (query q)"
  by (simp add: pres_def answered split: prod.split)

lemma pres_tell: "pres I (tell x)"
  by (simp add: pres_def sent)

lemma pres_live_now: "pres I live_now"
  unfolding live_now_def by (intro pres_intros pres_query)

lemma pres_sleep: "pres I (live_sleep_ms ms)"
  unfolding live_sleep_ms_def by (intro pres_intros pres_query)

lemma pres_client: "pres I (live_client v)"
proof (rule presI)
  fix e :: "('w, 'c) LiveExecutor"
  assume e: "I e"
  obtain r reg w where g: "Registry_Get (lx_registry e) v (world e) = ((r, reg), w)" by (metis surj_pair)
  have "I (e\<lparr>world := w, lx_registry := reg\<rparr>)"
    using created [OF e g] answered [where e = "e\<lparr>lx_registry := reg\<rparr>" and w = w] by (cases e) simp
  then show "wp (live_client v) (\<lambda>_. I) e" using g by (simp add: live_client_def)
qed

lemma pres_recordDailyFill: "pres I (recordDailyFill t n)"
  unfolding recordDailyFill_def by (intro pres_modify) (simp add: filled)

lemmas pres_calls = pres_query pres_tell pres_live_now pres_sleep pres_client pres_recordDailyFill

lemma pres_poll_times: "pres I (poll_times n ex sy orderID)"
  by (induction n) (auto intro!: pres_intros pres_calls)

lemma pres_attempts: "pres I (attempts ex c as err)"
  by (induction ex c as err rule: attempts.induct)
     (auto simp: place_def pollOrderStatus_def Let_def intro!: pres_intros pres_calls pres_poll_times)

lemma pres_abort: "pres I (abort_leg etype intent mid i leg acc)"
  unfolding abort_leg_def leg_event_now_def emergencyUnwind_def place_def pollOrderStatus_def
  by (intro pres_intros pres_calls pres_poll_times)

lemma pres_leg: "pres I (live_leg intent now mid i leg acc)"
  unfolding live_leg_def trade_leg_def hedge_drifted_def record_fill_def Let_def
  by (intro pres_intros pres_calls pres_attempts pres_abort)

lemma pres_legs: "pres I (live_legs intent now mid i legs acc)"
  by (induction legs arbitrary: i acc) (auto intro!: pres_intros pres_leg)

lemma pres_order: "pres I (orderLegsByDepth sy legs)"
  unfolding orderLegsByDepth_def depth_proxy_def by (auto split: list.split intro!: pres_intros pres_calls)

lemma pres_LiveExecute: "pres I (LiveExecute intent)"
  unfolding LiveExecute_def exceeds_daily_cap_def rollingDailyNotional_def live_run_def
  by (intro pres_intros pres_calls pres_order pres_legs pres_modify) (simp_all add: filled)

end

interpretation live_cfg: desk_invariant "\<lambda>e :: ('w, 'c) LiveExecutor. lx_cfg e = cfg" for cfg :: ExecConfig
  by unfold_locales simp_all

lemmas pres_cfg [pres_intros] = live_cfg.pres_calls

lemmas pres_cfg_runs [pres_intros] = live_cfg.pres_poll_times live_cfg.pres_attempts live_cfg.pres_leg

text \<open>The clients that can be reached are among those of the start.\<close>

definition known_clients :: "('w, 'c) Registry \<Rightarrow> ('w, 'c) LiveExecutor \<Rightarrow> bool" where
  "known_clients reg e \<longleftrightarrow> (\<forall>v ex. client_of (lx_registry e) v ex \<longrightarrow> client_of reg v ex)"

lemma client_of_created:
  assumes "Registry_Get reg v w = ((r, reg'), w')" "client_of reg' v' ex"
  shows "client_of reg v' ex"
proof (cases "reg' = reg")
  case False
  then have "\<exists>ex0. r = Inr ex0 \<and> reg' = Register v ex0 reg"
    using assms(1) by (auto simp: Registry_Get_def split: option.splits sum.splits prod.splits) metis
  then obtain ex0 where ex0: "r = Inr ex0" "reg' = Register v ex0 reg" by blast
  show ?thesis
  proof (cases "v' = v")
    case True
    then have "ex = ex0" using assms(2) ex0(2) by (auto simp: client_of_def Register_lookup)
    then show ?thesis using assms(1) ex0(1) True unfolding client_of_def by blast
  next
    case other: False
    obtain w1 r1 w2 where g: "Registry_Get reg' v' w1 = ((Inr ex, r1), w2)" using assms(2) by (auto simp: client_of_def)
    have "\<exists>r2. Registry_Get reg v' w1 = ((Inr ex, r2), w2)"
      using g other unfolding ex0(2)
      by (auto simp: Registry_Get_def Register_def update_conv split: option.splits sum.splits prod.splits)
    then show ?thesis unfolding client_of_def by blast
  qed
qed (use assms(2) in simp)

interpretation live_clients: desk_invariant "\<lambda>e :: ('w, 'c) LiveExecutor. known_clients reg e" for reg :: "('w, 'c) Registry"
  by unfold_locales (auto simp: known_clients_def dest: client_of_created)

lemma live_leg_sends:
  fixes e :: "('w, 'c) LiveExecutor"
  assumes "known_clients reg e"
  shows "wp (live_leg intent now mid i leg acc)
    (\<lambda>r e'. known_clients reg e' \<and> (\<exists>new. trace e' = trace e @ new \<and> leg_spec (venue_constraints reg) intent mid i leg acc r new)) e"
proof (rule wp_conj [OF presD [OF live_clients.pres_leg assms]])
  let ?Q = "\<lambda>r e'. \<exists>new. trace e' = trace e @ new \<and> leg_spec (venue_constraints reg) intent mid i leg acc r new"
  have tr: "wp (trade_leg intent now mid i leg ex acc) ?Q e0"
    if "trace e0 = trace e" "client_of reg (tl_Venue leg) ex" for ex and e0 :: "('w, 'c) LiveExecutor"
    using growsD [OF grows_trade_leg [of "venue_constraints reg" leg intent ex now mid i acc], of e0] that
    by (auto simp: venue_constraints_def)
  have ab: "wp (abort_leg etype intent mid i leg acc) ?Q e0" if "trace e0 = trace e" for etype and e0 :: "('w, 'c) LiveExecutor"
    using growsD [OF grows_abort_spec [of etype intent mid i leg acc "venue_constraints reg"], of e0] that by simp
  have cl: "client_of reg (tl_Venue leg) ex" if "fst (fst (Registry_Get (lx_registry e) (tl_Venue leg) w)) = Inr ex" for ex w
    using assms that unfolding known_clients_def client_of_def by (metis prod.collapse)
  show "wp (live_leg intent now mid i leg acc) ?Q e"
    unfolding live_leg_def live_now_def live_client_def hedge_drifted_def
    using ab tr cl by (auto simp: case_prod_beta split: sum.split)
qed

lemma live_out_ok_mono: "live_out_ok K sy legs mid x \<Longrightarrow> legs \<subseteq> legs' \<Longrightarrow> live_out_ok K sy legs' mid x"
  unfolding live_out_ok_def by (auto split: live_out.splits)

lemma live_legs_send:
  fixes e :: "('w, 'c) LiveExecutor"
  shows "known_clients reg e \<Longrightarrow> wp (live_legs intent now mid i legs acc)
    (\<lambda>_ e'. \<exists>new. trace e' = trace e @ new \<and>
       (\<forall>x\<in>set new. live_out_ok (venue_constraints reg) (ti_Symbol intent) (set legs) mid x)) e"
proof (induction legs arbitrary: i acc e)
  case Nil
  then show ?case by simp
next
  case (Cons leg legs)
  show ?case unfolding live_legs.simps wp_bind
  proof (rule wp_weaken [OF live_leg_sends [OF Cons.prems]], elim conjE exE)
    fix p new and e' :: "('w, 'c) LiveExecutor"
    assume k: "known_clients reg e'" and n: "trace e' = trace e @ new" "leg_spec (venue_constraints reg) intent mid i leg acc p new"
    have new: "\<forall>x\<in>set new. live_out_ok (venue_constraints reg) (ti_Symbol intent) (set (leg # legs)) mid x"
      using n(2) by (auto simp: leg_spec_def intro: live_out_ok_mono)
    have more: "live_out_ok K sy (insert leg (set legs)) mid x" if "live_out_ok K sy (set legs) mid x" for K sy x
      by (rule live_out_ok_mono [OF that]) auto
    show "wp (if snd p then live_legs intent now mid (i + 1) legs (fst p) else State_Monad.return (fst p))
       (\<lambda>_ e'. \<exists>new. trace e' = trace e @ new \<and>
          (\<forall>x\<in>set new. live_out_ok (venue_constraints reg) (ti_Symbol intent) (set (leg # legs)) mid x)) e'"
    proof (cases "snd p")
      case True
      then show ?thesis
        using new n(1) more by simp (rule wp_weaken [OF Cons.IH [OF k]], fastforce)
    qed (use new n(1) in auto)
  qed
qed

lemma grows_order_legs: "grows (orderLegsByDepth sy legs) (\<lambda>ls new. new = [] \<and> set ls = set legs)"
  unfolding orderLegsByDepth_def
  by (auto split: list.split if_splits intro!: grows_silent_bind grows_intros)

lemma live_run_sends:
  fixes e :: "('w, 'c) LiveExecutor"
  assumes "known_clients reg e"
  shows "wp (live_run intent now mid) (\<lambda>_ e'. \<exists>new. trace e' = trace e @ new \<and>
     (\<forall>x\<in>set new. live_out_ok (venue_constraints reg) (ti_Symbol intent) (set (ti_Legs intent)) mid x)) e"
proof -
  have o: "wp (orderLegsByDepth (ti_Symbol intent) (ti_Legs intent))
     (\<lambda>ls e'. (\<exists>new. trace e' = trace e @ new \<and> new = [] \<and> set ls = set (ti_Legs intent)) \<and> known_clients reg e') e"
    by (intro wp_conj growsD [OF grows_order_legs] presD [OF live_clients.pres_order] assms)
  show ?thesis
    unfolding live_run_def wp_bind wp_asks wp_return
    by (rule wp_weaken [OF o], elim conjE exE, rule wp_weaken [OF live_legs_send])
       (auto simp: live_now_def case_prod_beta)
qed

text \<open>The time, and the notional of the last 24 hours, that an execution starts with.\<close>

definition start_ms :: "('w, 'c) LiveExecutor \<Rightarrow> int64" where
  "start_ms e = UnixMilli (fst (rt_Now (lx_runtime e) (world e)))"

definition rolling_notional :: "('w, 'c) LiveExecutor \<Rightarrow> float64" where
  "rolling_notional e = (\<Sum>f\<leftarrow>recent_fills (start_ms e) (lx_dailyFills e). df_notionalUSD f)"

text \<open>The checks an execution makes before it places anything.\<close>

definition caps_passed :: "('w, 'c) LiveExecutor \<Rightarrow> TradeIntent \<Rightarrow> bool" where
  "caps_passed e intent \<longleftrightarrow> start_ms e \<le> ti_ExpiresMs intent \<and> \<not> exceeds_order_cap (lx_cfg e) intent \<and>
     (0 < xc_LiveMaxDailyNotionalUSD (lx_cfg e) \<longrightarrow>
        rolling_notional e + totalIntentNotional intent \<le> xc_LiveMaxDailyNotionalUSD (lx_cfg e))"

lemma LiveExecute_sends:
  assumes "known_clients reg e"
  shows "wp (LiveExecute intent) (\<lambda>_ e'. \<exists>new. trace e' = trace e @ new \<and>
     (\<forall>x\<in>set new. caps_passed e intent \<and> (\<exists>mid. PriceCache_Mid (lx_priceCache e) (ti_Symbol intent) = Some mid \<and> mid \<noteq> 0 \<and>
        live_out_ok (venue_constraints reg) (ti_Symbol intent) (set (ti_Legs intent)) mid x))) e"
proof -
  let ?ok = "\<lambda>mid x. caps_passed e intent \<and> PriceCache_Mid (lx_priceCache e) (ti_Symbol intent) = Some mid \<and> mid \<noteq> 0 \<and>
     live_out_ok (venue_constraints reg) (ti_Symbol intent) (set (ti_Legs intent)) mid x"
  have run: "wp (live_run intent now mid) (\<lambda>_ e'. \<exists>new. trace e' = trace e @ new \<and> (\<forall>x\<in>set new. \<exists>mid. ?ok mid x)) e0"
    if "trace e0 = trace e" "lx_registry e0 = lx_registry e" "caps_passed e intent"
      "PriceCache_Mid (lx_priceCache e) (ti_Symbol intent) = Some mid" "mid \<noteq> 0"
    for e0 :: "('a, 'b) LiveExecutor" and now mid
  proof -
    have "known_clients reg e0" using assms that(2) by (simp add: known_clients_def)
    then show ?thesis using that by (intro wp_weaken [OF live_run_sends]) auto
  qed
  show ?thesis
    unfolding LiveExecute_def live_now_def exceeds_daily_cap_def rollingDailyNotional_def
    using run
    by (auto simp: case_prod_beta caps_passed_def start_ms_def rolling_notional_def split: option.split)
qed

text \<open>
  C2.  An execution places an order only when the intent has not expired, every leg is within the cap
  of one order, the notional filled in the last 24 hours together with the intent is within the
  daily cap and there is a consensus price; an opening order is then one of a leg of the intent,
  on its venue and side and in its symbol there, at a price between that consensus price and the
  leg's slippage limit, rounded to the tick of constraints that this venue's client can have
  answered with, and every other order is a market order that may only reduce a position.
\<close>

theorem live_orders_passed_the_caps_and_stay_within_slippage:
  assumes "trace (exec (LiveExecute intent) e) = trace e @ new" "Placed v req a \<in> set new"
  shows "caps_passed e intent \<and> (\<exists>mid. PriceCache_Mid (lx_priceCache e) (ti_Symbol intent) = Some mid \<and> mid \<noteq> 0 \<and>
    (closes_leg req \<or>
     (\<exists>leg\<in>set (ti_Legs intent). opens_leg (venue_constraints (lx_registry e)) (ti_Symbol intent) leg mid v req)))"
proof -
  have "known_clients (lx_registry e) e" by (simp add: known_clients_def)
  from LiveExecute_sends [OF this, of intent] assms show ?thesis by (fastforce simp: wp_exec live_out_ok_def)
qed


section \<open>How long an execution goes on\<close>

definition orders_in :: "live_out list \<Rightarrow> nat" where
  "orders_in out = length (filter (\<lambda>x. case x of Placed _ _ _ \<Rightarrow> True | CancelAsked _ _ _ \<Rightarrow> False) out)"

lemma orders_in_simps [simp]:
  "orders_in [] = 0" "orders_in (Placed v r a # out) = Suc (orders_in out)" "orders_in (CancelAsked v sy i # out) = orders_in out"
  "orders_in (out @ out') = orders_in out + orders_in out'"
  by (simp_all add: orders_in_def)

lemma grows_attempts_count: "grows (attempts ex c as err) (\<lambda>_ new. orders_in new \<le> length as)"
proof (induction as arbitrary: err)
  case Nil
  show ?case by (simp add: grows_return)
next
  case (Cons a as)
  have cancel: "grows (if b then do { tell (CancelAsked v sy i); query q; skip } else skip) (\<lambda>_ new. orders_in new = 0)"
    for b v sy i and q :: "'a \<Rightarrow> 'd \<times> 'a"
    by (intro grows_intros grows_bind [OF grows_tell [where P = "\<lambda>_ new. new = [CancelAsked v sy i]"]])
       (auto intro!: silent_grows grows_intros)
  show ?case
    unfolding attempts.simps Let_def
    by (intro grows_intros grows_bind [OF grows_place] grows_bind [OF cancel])
       (use Cons in \<open>auto intro!: grows_weaken [OF Cons]\<close>)
qed

lemma grows_abort_count: "grows (abort_leg etype intent mid i leg acc) (\<lambda>r new. \<not> snd r \<and> orders_in new \<le> 1)"
proof -
  have u: "grows (if 0 < i \<and> lr_filled (previous acc) then emergencyUnwind intent (i - 1) (previous acc) mid else State_Monad.return [])
      (\<lambda>evs new. orders_in new \<le> 1)"
    by (intro grows_if grows_weaken [OF grows_unwind] grows_return) auto
  show ?thesis
    unfolding abort_leg_def by (intro grows_silent_bind grows_intros grows_bind [OF u]) auto
qed

text \<open>The attempts of a leg, and one more order when the leg ends the execution.\<close>

definition leg_orders :: "ExecConfig \<Rightarrow> 'a \<times> bool \<Rightarrow> live_out list \<Rightarrow> bool" where
  "leg_orders cfg r new \<longleftrightarrow> orders_in new \<le> nat (xc_MaxRetriesPerLeg cfg + 1) + (if snd r then 0 else 1)"

lemma grows_abort_orders: "grows (abort_leg etype intent mid i leg acc) (leg_orders cfg)"
  by (rule grows_weaken [OF grows_abort_count]) (simp add: leg_orders_def)

lemma trade_leg_orders:
  fixes e :: "('a, 'b) LiveExecutor"
  shows "wp (trade_leg intent now mid i leg ex acc) (\<lambda>r e'. \<exists>new. trace e' = trace e @ new \<and> leg_orders (lx_cfg e) r new) e"
proof -
  have rest: "grows (attempts ex c [0..xc_MaxRetriesPerLeg cfg] None \<bind> (\<lambda>out. case out of
        (None, Some final) \<Rightarrow> do { acc \<leftarrow> record_fill c now final acc; State_Monad.return (acc, True) }
      | _ \<Rightarrow> abort_leg ''ORDER_REJECTED'' intent mid i leg acc)) (leg_orders cfg)" for c cfg
  proof (rule grows_bind [OF grows_attempts_count])
    fix out new
    assume n: "orders_in new \<le> length [0..xc_MaxRetriesPerLeg cfg]"
    have f: "grows (do { acc \<leftarrow> record_fill c now final acc; State_Monad.return (acc, True) })
      (\<lambda>b new'. leg_orders cfg b (new @ new'))" for final
      using n by (intro grows_silent_bind silent_record grows_return) (simp add: leg_orders_def)
    have "grows (abort_leg etype intent mid i leg acc) (\<lambda>b new'. leg_orders cfg b (new @ new'))" for etype
      using n by (intro grows_weaken [OF grows_abort_count]) (simp add: leg_orders_def)
    then show "grows (case out of
        (None, Some final) \<Rightarrow> do { acc \<leftarrow> record_fill c now final acc; State_Monad.return (acc, True) }
      | _ \<Rightarrow> abort_leg ''ORDER_REJECTED'' intent mid i leg acc) (\<lambda>b new'. leg_orders cfg b (new @ new'))"
      using f by (auto split: prod.split option.split)
  qed
  show ?thesis
    unfolding trade_leg_def Let_def wp_bind [of "asks lx_cfg"] wp_asks
    by (rule growsD, rule grows_silent_bind [OF silent_query], rule grows_if)
       (simp_all add: grows_return leg_orders_def [of _ "(acc, False)" "[]"] rest)
qed

lemma live_leg_orders:
  fixes e :: "('a, 'b) LiveExecutor"
  shows "wp (live_leg intent now mid i leg acc) (\<lambda>r e'. \<exists>new. trace e' = trace e @ new \<and> leg_orders (lx_cfg e) r new) e"
proof -
  have tr: "wp (trade_leg intent now mid i leg ex acc) (\<lambda>r e'. \<exists>new. trace e' = trace e @ new \<and> leg_orders (lx_cfg e) r new) e0"
    if "trace e0 = trace e" "lx_cfg e0 = lx_cfg e" for ex and e0 :: "('a, 'b) LiveExecutor"
    using trade_leg_orders [of intent now mid i leg ex acc e0] that by simp
  have ab: "wp (abort_leg etype intent mid i leg acc) (\<lambda>r e'. \<exists>new. trace e' = trace e @ new \<and> leg_orders (lx_cfg e) r new) e0"
    if "trace e0 = trace e" for etype and e0 :: "('a, 'b) LiveExecutor"
    using growsD [OF grows_abort_orders [of etype intent mid i leg acc "lx_cfg e"], of e0] that by simp
  show ?thesis
    unfolding live_leg_def live_now_def live_client_def hedge_drifted_def
    using ab tr by (auto simp: case_prod_beta split: sum.split)
qed

lemma live_legs_orders:
  fixes e :: "('a, 'b) LiveExecutor"
  shows "lx_cfg e = cfg \<Longrightarrow> wp (live_legs intent now mid i legs acc)
     (\<lambda>_ e'. \<exists>new. trace e' = trace e @ new \<and> orders_in new \<le> length legs * nat (xc_MaxRetriesPerLeg cfg + 1) + 1) e"
proof (induction legs arbitrary: i acc e)
  case Nil
  then show ?case by simp
next
  case (Cons leg legs)
  let ?n = "nat (xc_MaxRetriesPerLeg cfg + 1)"
  have "wp (live_leg intent now mid i leg acc) (\<lambda>r e'. (\<exists>new. trace e' = trace e @ new \<and> leg_orders cfg r new) \<and> lx_cfg e' = cfg) e"
    using Cons.prems by (intro wp_conj presD [OF live_cfg.pres_leg]) (auto intro: live_leg_orders [of _ _ _ _ _ _ e, simplified])
  then show ?case unfolding live_legs.simps wp_bind
  proof (rule wp_weaken)
    fix p :: "legAcc \<times> bool" and e' :: "('a, 'b) LiveExecutor"
    assume "(\<exists>new. trace e' = trace e @ new \<and> leg_orders cfg p new) \<and> lx_cfg e' = cfg"
    then obtain new where n: "trace e' = trace e @ new" "leg_orders cfg p new" "lx_cfg e' = cfg" by blast
    show "wp (if snd p then live_legs intent now mid (i + 1) legs (fst p) else State_Monad.return (fst p))
       (\<lambda>_ e'. \<exists>new. trace e' = trace e @ new \<and> orders_in new \<le> length (leg # legs) * ?n + 1) e'"
    proof (cases "snd p")
      case True
      then show ?thesis
        using n by simp (rule wp_weaken [OF Cons.IH [OF n(3)]], auto simp: leg_orders_def)
    qed (use n in \<open>auto simp: leg_orders_def\<close>)
  qed
qed

lemma live_run_orders:
  fixes e :: "('a, 'b) LiveExecutor"
  shows "lx_cfg e = cfg \<Longrightarrow> wp (live_run intent now mid)
     (\<lambda>_ e'. \<exists>new. trace e' = trace e @ new \<and> orders_in new \<le> length (ti_Legs intent) * nat (xc_MaxRetriesPerLeg cfg + 1) + 1) e"
proof -
  assume c: "lx_cfg e = cfg"
  let ?Q = "\<lambda>e'. \<exists>new. trace e' = trace e @ new \<and> orders_in new \<le> length (ti_Legs intent) * nat (xc_MaxRetriesPerLeg cfg + 1) + 1"
  have o1: "grows (orderLegsByDepth sy legs) (\<lambda>ls new. new = [] \<and> length ls = length legs)" for sy and legs :: "TradeLeg list"
    unfolding orderLegsByDepth_def by (auto split: list.split if_splits intro!: grows_silent_bind grows_intros)
  have o2: "pres (\<lambda>e :: ('a, 'b) LiveExecutor. lx_cfg e = cfg) (orderLegsByDepth sy legs)" for sy and legs :: "TradeLeg list"
    unfolding orderLegsByDepth_def depth_proxy_def by (auto split: list.split intro!: pres_intros)
  have legs: "wp (live_legs intent now mid 0 ls acc) (\<lambda>_ e'. ?Q e') e'"
    if "trace e' = trace e" "length ls = length (ti_Legs intent)" "lx_cfg e' = cfg" for ls acc and e' :: "('a, 'b) LiveExecutor"
    using live_legs_orders [OF that(3), of intent now mid 0 ls acc] that by simp
  have o: "wp (orderLegsByDepth (ti_Symbol intent) (ti_Legs intent))
     (\<lambda>ls e'. (\<exists>new. trace e' = trace e @ new \<and> new = [] \<and> length ls = length (ti_Legs intent)) \<and> lx_cfg e' = cfg) e"
    by (intro wp_conj growsD [OF o1] presD [OF o2] c)
  show ?thesis
    unfolding live_run_def wp_bind wp_asks wp_return
    by (rule wp_weaken [OF o], elim conjE exE, rule wp_weaken [OF legs])
       (auto simp: live_now_def case_prod_beta)
qed

text \<open>
  C23.  An execution ends: whatever the venues answer, it places at most one order per leg and attempt,
  and one more to unwind.
\<close>

theorem an_execution_places_boundedly_many_orders:
  fixes e :: "('a, 'b) LiveExecutor"
  shows "length (trace e) \<le> length (trace (exec (LiveExecute intent) e)) \<and>
   orders_in (drop (length (trace e)) (trace (exec (LiveExecute intent) e)))
     \<le> length (ti_Legs intent) * nat (xc_MaxRetriesPerLeg (lx_cfg e) + 1) + 1"
proof -
  have "wp (LiveExecute intent) (\<lambda>_ e'. \<exists>new. trace e' = trace e @ new \<and>
      orders_in new \<le> length (ti_Legs intent) * nat (xc_MaxRetriesPerLeg (lx_cfg e) + 1) + 1) e"
  proof -
    have run: "wp (live_run intent now mid) (\<lambda>_ e'. \<exists>new. trace e' = trace e @ new \<and>
        orders_in new \<le> length (ti_Legs intent) * nat (xc_MaxRetriesPerLeg (lx_cfg e) + 1) + 1) e'"
      if "trace e' = trace e" "lx_cfg e' = lx_cfg e" for now mid and e' :: "('a, 'b) LiveExecutor"
      using live_run_orders [OF that(2), of intent now mid] that(1) by simp
    show ?thesis
      unfolding LiveExecute_def live_now_def exceeds_daily_cap_def rollingDailyNotional_def
      using run by (auto simp: case_prod_beta split: option.split)
  qed
  then show ?thesis by (auto simp: wp_exec)
qed

section \<open>Concrete desks\<close>

text \<open>
  A desk answers every order from the order alone, has one set of constraints and does not report
  on orders later, so polling ends with the first answer.
\<close>

definition desk :: "(OrderRequest \<Rightarrow> gotext + OrderResponse) \<Rightarrow> VenueConstraints option \<Rightarrow> 'w Exchange" where
  "desk fill vc = (quiet_exchange [])\<lparr>PlaceOrder := \<lambda>r. fixed (fill r), GetConstraints := \<lambda>_. fixed (Inr vc)\<rparr>"

definition order_answer :: "OrderStatus \<Rightarrow> float64 \<Rightarrow> OrderRequest \<Rightarrow> OrderResponse" where
  "order_answer st share req =
     \<lparr>os_OrderID = ''1'', os_ClientOrderID = or_ClientOrderID req, os_Symbol = or_Symbol req, os_Side = or_Side req,
      os_Type = or_Type req, os_Status = st, os_Price = or_Price req, os_AvgFillPrice = 0, os_Quantity = or_Quantity req,
      os_FilledQty = share * or_Quantity req, os_FeesUSD = 0, os_FeesAsset = '''', os_CreatedAt = 0, os_UpdatedAt = 0\<rparr>"

definition filling :: "OrderRequest \<Rightarrow> gotext + OrderResponse" where
  "filling req = Inr (order_answer OrderStatusFilled 1 req)"

definition refusing :: "OrderRequest \<Rightarrow> gotext + OrderResponse" where
  "refusing req = Inl (Txt ''rejected'')"

definition pair_leg :: "string \<Rightarrow> string \<Rightarrow> float64 \<Rightarrow> TradeLeg" where
  "pair_leg v a n = \<lparr>tl_Venue = v, tl_Action = a, tl_Type = '''', tl_Market = ''PERP'', tl_NotionalUSD = n,
     tl_MaxSlippageBps = 10, tl_PriceLimit = 0\<rparr>"

definition pair_intent :: "float64 \<Rightarrow> TradeIntent" where
  "pair_intent n =
     \<lparr>ti_SchemaVersion = 1, ti_TenantID = ''t'', ti_IntentID = ''i'', ti_Strategy = ''CROSS_VENUE_ARB'',
      ti_Symbol = ''BTC-PERP'', ti_TsMs = 0, ti_ExpiresMs = 60000,
      ti_Legs = [pair_leg ''binance'' ''BUY'' n, pair_leg ''okx'' ''SELL'' n],
      ti_Expected = \<lparr>em_EdgeBpsGross = 0, em_EdgeBpsNet = 0, em_ProfitUSDNet = 0, em_FeesUSDEst = 0,
        em_SlippageUSDEst = 0, em_FundingRate8hBps = 0, em_AnnualYieldPctNet = 0\<rparr>,
      ti_Constraints = \<lparr>ic_MinQuality = '''', ic_RequireVenueOK = False, ic_MaxAgeMs = 0,
        ic_HedgePreference = '''', ic_CooldownKey = '''', ic_ForcePaperMode = False\<rparr>,
      ti_Debug = \<lparr>id_ConsensusBandLow = 0, id_ConsensusBandHigh = 0, id_BuyOn = '''', id_SellOn = '''',
        id_BuyExec = 0, id_SellExec = 0\<rparr>\<rparr>"

text \<open>The executor with a desk on binance and one on okx, at time 0.\<close>

definition two_desks :: "float64 \<Rightarrow> go_time Exchange \<Rightarrow> go_time Exchange \<Rightarrow> (go_time, unit) LiveExecutor" where
  "two_desks mid ex1 ex2 =
     NewLiveExecutor (paper_config 0) \<lparr>pc_mids = [''BTC-PERP'' \<mapsto> mid], pc_bands = Map.empty\<rparr>
       (Register ''okx'' ex2 (Register ''binance'' ex1 (NewRegistry (\<lambda>_. fixed (Inl (Txt ''no credentials'')))))) sleepy_runtime 0"

lemma desk_simps [simp]:
  "PlaceOrder (desk fill vc) r w = (fill r, w)" "GetConstraints (desk fill vc) sy w = (Inr vc, w)"
  "GetOrder (desk fill vc) sy i w = (Inl (Txt ''off''), w)" "CancelOrder (desk fill vc) sy i w = (Inr (), w)"
  by (simp_all add: desk_def quiet_exchange_def fixed_def)

lemma wp_live_now [simp]:
  "wp live_now Q = (\<lambda>e. Q (UnixMilli (fst (rt_Now (lx_runtime e) (world e)))) (e\<lparr>world := snd (rt_Now (lx_runtime e) (world e))\<rparr>))"
  by (simp add: live_now_def case_prod_beta)

lemma wp_live_sleep [simp]:
  "wp (live_sleep_ms ms) Q = (\<lambda>e. Q () (e\<lparr>world := snd (rt_Sleep (lx_runtime e) (ms * 10 ^ 6) (world e))\<rparr>))"
  by (simp add: live_sleep_ms_def case_prod_beta)

lemma sleepy_simps [simp]:
  "rt_Now sleepy_runtime w = (w, w)" "rt_Sleep sleepy_runtime d w = ((), w + d)"
  by (simp_all add: sleepy_runtime_def)

lemma wp_poll_desk:
  "lx_runtime e = sleepy_runtime \<Longrightarrow>
     wp (poll_times n (desk fill vc) sy i) Q e = Q None (e\<lparr>world := world e + int n * (500 * 10 ^ 6)\<rparr>)"
  by (induction n arbitrary: e) (simp_all add: algebra_simps)

lemma wp_client_known:
  "map_of (rg_exchanges (lx_registry e)) v = Some ex \<Longrightarrow> wp (live_client v) Q e = Q (Inr ex) e"
  by (simp add: live_client_def)

lemma two_desks_simps [simp]:
  "map_of (rg_exchanges (lx_registry (two_desks mid ex1 ex2))) ''okx'' = Some ex2"
  "map_of (rg_exchanges (lx_registry (two_desks mid ex1 ex2))) ''binance'' = Some ex1"
  "lx_runtime (two_desks mid ex1 ex2) = sleepy_runtime" "lx_cfg (two_desks mid ex1 ex2) = paper_config 0"
  "world (two_desks mid ex1 ex2) = 0" "trace (two_desks mid ex1 ex2) = []" "lx_dailyFills (two_desks mid ex1 ex2) = []"
  "pc_mids (lx_priceCache (two_desks mid ex1 ex2)) = [''BTC-PERP'' \<mapsto> mid]"
  by (simp_all add: two_desks_def NewLiveExecutor_def Register_lookup)

lemma paper_config_simps [simp]:
  "xc_LiveMaxOrderNotionalUSD (paper_config n) = 10000" "xc_LiveMaxDailyNotionalUSD (paper_config n) = 100000"
  "xc_MaxRetriesPerLeg (paper_config n) = 3" "xc_HedgeDriftMaxMs (paper_config n) = 5000"
  "xc_MinPartialFillPct (paper_config n) = 0.1"
  by (simp_all add: paper_config_def)

lemma pair_intent_simps [simp]:
  "ti_Legs (pair_intent n) = [pair_leg ''binance'' ''BUY'' n, pair_leg ''okx'' ''SELL'' n]"
  "ti_ExpiresMs (pair_intent n) = 60000" "ti_Symbol (pair_intent n) = ''BTC-PERP''"
  "tl_Venue (pair_leg v a n) = v" "tl_Action (pair_leg v a n) = a" "tl_NotionalUSD (pair_leg v a n) = n"
  by (simp_all add: pair_intent_def pair_leg_def)

lemma upto_0_3: "[0..3 :: int] = [0, 1, 2, 3]"
  by (simp add: upto.simps)

lemma wp_place [simp]:
  "wp (place v ex r) Q = (\<lambda>e. case PlaceOrder ex r (world e) of (a, w) \<Rightarrow> Q a (e\<lparr>world := w, trace := trace e @ [Placed v r a]\<rparr>))"
  by (simp add: place_def fun_eq_iff case_prod_beta)

definition of_size :: "float64 \<Rightarrow> VenueConstraints" where
  "of_size q = (no_constraints ''x'')\<lparr>vc_MaxQty := q\<rparr>"

lemma of_size_simps [simp]:
  "vc_MaxQty (of_size q) = q" "vc_MinNotional (of_size q) = 0" "RoundQty (of_size q) x = x" "min_qty (of_size q) x = x"
  "RoundPrice (of_size q) x = x" "vc_MinNotional (no_constraints sy) = 0" "RoundQty (no_constraints sy) x = x"
  "min_qty (no_constraints sy) x = x" "RoundPrice (no_constraints sy) x = x"
  by (simp_all add: of_size_def no_constraints_def RoundQty_def RoundPrice_def min_qty_def)

lemma answers [simp]:
  "refusing r = Inl (Txt ''rejected'')" "filling r = Inr (order_answer OrderStatusFilled 1 r)"
  "os_Status (order_answer st x r) = st" "os_FilledQty (order_answer st x r) = x * or_Quantity r"
  "os_AvgFillPrice (order_answer st x r) = 0" "os_FeesUSD (order_answer st x r) = 0" "os_OrderID (order_answer st x r) = ''1''"
  by (simp_all add: refusing_def filling_def order_answer_def)

lemma attempt_simps [simp]:
  "or_Quantity (attempt_order cfg c a) = lc_qty c" "or_Side (attempt_order cfg c a) = side_of (tl_Action (lc_leg c))"
  "\<not> or_ReduceOnly (attempt_order cfg c a)"
  "or_Type (attempt_order cfg c a) = (if a < xc_MaxRetriesPerLeg cfg then OrderTypeLimit else OrderTypeIOC)"
  by (simp_all add: attempt_order_def Let_def)

lemmas run_live = LiveExecute_def UnixMilli_def exceeds_order_cap_def exceeds_daily_cap_def rollingDailyNotional_def
  recent_fills_def totalIntentNotional_def PriceCache_Mid_def live_run_def orderLegsByDepth_def depth_proxy_def
  wp_client_known thinner_def

lemmas run_leg = live_leg_def hedge_drifted_def trade_leg_def Let_def previous_def no_result_def upto_0_3
  pollOrderStatus_def wp_poll_desk record_fill_def recordDailyFill_def leg_result_def abort_leg_def leg_event_now_def
  emergencyUnwind_def UnixMilli_def wp_client_known

text \<open>What the venues filled, as far as they answered.\<close>

definition filled_on_venues :: "live_out list \<Rightarrow> float64" where
  "filled_on_venues out = (\<Sum>x\<leftarrow>out. case x of Placed v r (Inr resp) \<Rightarrow> os_FilledQty resp | _ \<Rightarrow> 0)"

lemma not_partial: "0 < n \<Longrightarrow> 0 < mid \<Longrightarrow> \<not> n / mid < n * 99 / (mid * (100::real))"
  by (simp add: divide_simps)

text \<open>
  Unwinding after a reordering: the leg with the thinner book is executed first, but its index
  names the other leg of the intent when the fill is unwound.  The venue that sold is then asked
  to sell the same quantity once more, and no order to buy it back is placed.
\<close>

theorem unwinding_a_reordered_leg_repeats_the_fill:
  assumes "0 < n" "n \<le> 10000" "0 < mid"
  shows "\<exists>req a others req' a'.
    trace (exec (LiveExecute (pair_intent n)) (two_desks mid (desk refusing None) (desk filling (Some (of_size 1))))) =
      Placed ''okx'' req a # others @ [Placed ''okx'' req' a'] \<and>
    or_Side req = SideSell \<and> or_Quantity req = n / mid \<and> \<not> or_ReduceOnly req \<and>
    or_Side req' = SideSell \<and> or_Quantity req' = n / mid \<and> or_ReduceOnly req' \<and>
    (\<forall>x\<in>set others. \<exists>r err. x = Placed ''binance'' r (Inl err) \<and> or_Side r = SideBuy)"
proof -
  have "wp (LiveExecute (pair_intent n)) (\<lambda>_ e. \<exists>req a others req' a'.
      trace e = Placed ''okx'' req a # others @ [Placed ''okx'' req' a'] \<and>
      or_Side req = SideSell \<and> or_Quantity req = n / mid \<and> \<not> or_ReduceOnly req \<and>
      or_Side req' = SideSell \<and> or_Quantity req' = n / mid \<and> or_ReduceOnly req' \<and>
      (\<forall>x\<in>set others. \<exists>r err. x = Placed ''binance'' r (Inl err) \<and> or_Side r = SideBuy))
    (two_desks mid (desk refusing None) (desk filling (Some (of_size 1))))"
    using assms not_partial [OF assms(1,3)]
    by (simp add: run_live, simp add: run_leg) (simp add: unwind_request_def reverse_action_def)
  then show ?thesis by (simp add: wp_exec)
qed
lemma a_small_second_leg_leaves_the_first_unhedged_run:
  assumes "0 < n" "n \<le> 10000" "0 < mid" "n < m"
  shows "\<exists>req ev fill.
    trace (exec (LiveExecute (pair_intent n)) (two_desks mid (desk filling None) (desk filling (Some ((of_size 0)\<lparr>vc_MinNotional := m\<rparr>))))) =
      [Placed ''binance'' req (filling req)] \<and> or_Side req = SideBuy \<and> or_Quantity req = n / mid \<and> \<not> or_ReduceOnly req \<and>
    fst (run_state (LiveExecute (pair_intent n)) (two_desks mid (desk filling None) (desk filling (Some ((of_size 0)\<lparr>vc_MinNotional := m\<rparr>))))) =
      ([ev], Some fill) \<and> ee_EventType ev = ''ORDER_FILLED''"
proof -
  let ?e = "two_desks mid (desk filling None) (desk filling (Some ((of_size 0)\<lparr>vc_MinNotional := m\<rparr>)))"
  have "wp (LiveExecute (pair_intent n)) (\<lambda>out e. \<exists>req ev fill. trace e = [Placed ''binance'' req (filling req)] \<and>
      or_Side req = SideBuy \<and> or_Quantity req = n / mid \<and> \<not> or_ReduceOnly req \<and> out = ([ev], Some fill) \<and> ee_EventType ev = ''ORDER_FILLED'') ?e"
    using assms not_partial [OF assms(1,3)]
    by (simp add: run_live, simp add: run_leg) (simp add: live_fill_event_def leg_event_def)
  then show ?thesis by (auto simp: wp_def exec_def split: prod.splits)
qed

text \<open>
  A second leg below its venue's minimum notional: the first leg stays filled, nothing is placed
  to hedge or to unwind it, and the only event is that of the fill.
\<close>

theorem a_small_second_leg_leaves_the_first_unhedged:
  assumes "0 < n" "n \<le> 10000" "0 < mid" "n < m"
  shows "\<exists>req ev fill.
    trace (exec (LiveExecute (pair_intent n)) (two_desks mid (desk filling None) (desk filling (Some ((of_size 0)\<lparr>vc_MinNotional := m\<rparr>))))) =
      [Placed ''binance'' req (filling req)] \<and> or_Side req = SideBuy \<and> or_Quantity req = n / mid \<and>
    fst (run_state (LiveExecute (pair_intent n)) (two_desks mid (desk filling None) (desk filling (Some ((of_size 0)\<lparr>vc_MinNotional := m\<rparr>))))) =
      ([ev], Some fill) \<and> ee_EventType ev = ''ORDER_FILLED''"
  using a_small_second_leg_leaves_the_first_unhedged_run [OF assms] by blast

text \<open>
  Parts filled by failed attempts are forgotten: a venue that fills a share below the minimum of
  every order and cancels the rest has filled four times that share in the end, while the
  execution reports a rejected order, records no fill and places nothing to close it.
\<close>

theorem parts_of_failed_attempts_are_forgotten:
  assumes "0 < n" "n \<le> 10000" "0 < mid" "0 < x" "x < 0.1"
  shows "let e = two_desks mid (desk (\<lambda>r. Inr (order_answer OrderStatusCancelled x r)) None) (desk refusing None);
             e' = exec (LiveExecute (pair_intent n)) e in
    filled_on_venues (trace e') = 4 * x * (n / mid) \<and> lx_dailyFills e' = [] \<and>
    (\<exists>ev fill. fst (run_state (LiveExecute (pair_intent n)) e) = ([ev], Some fill) \<and>
       ee_EventType ev = ''ORDER_REJECTED'' \<and> sf_Legs fill = [])"
proof -
  let ?e = "two_desks mid (desk (\<lambda>r. Inr (order_answer OrderStatusCancelled x r)) None) (desk refusing None)"
  have q: "0 < n / mid" "x * (n / mid) / (n / mid) = x" using assms by simp_all
  have "wp (LiveExecute (pair_intent n)) (\<lambda>out e. filled_on_venues (trace e) = 4 * x * (n / mid) \<and> lx_dailyFills e = [] \<and>
      (\<exists>ev fill. out = ([ev], Some fill) \<and> ee_EventType ev = ''ORDER_REJECTED'' \<and> sf_Legs fill = [])) ?e"
    using assms q
    by (simp add: run_live, simp add: run_leg)
      (simp add: leg_event_def live_summary_def expired_fill_of_def filled_on_venues_def Let_def)
  then show ?thesis by (auto simp: wp_def exec_def Let_def split: prod.splits)
qed

lemma desk_clients:
  "venue_constraints (lx_registry (two_desks mid (desk fill (Some vc1)) (desk fill2 (Some vc2)))) ''binance'' sy vc \<longleftrightarrow> vc = vc1"
  "venue_constraints (lx_registry (two_desks mid (desk fill None) ex2)) ''binance'' sy vc \<longleftrightarrow> vc = no_constraints sy"
  "venue_constraints (lx_registry (two_desks mid ex1 (desk fill2 (Some vc2)))) ''okx'' sy vc \<longleftrightarrow> vc = vc2"
  by (simp_all add: venue_constraints_def client_of_def constraints_answer_def)

lemma live_orders_passed_the_caps_and_stay_within_slippage_witness:
  "\<exists>req. trace (exec (LiveExecute (pair_intent 100)) (two_desks 1 (desk filling None) (desk filling (Some ((of_size 0)\<lparr>vc_MinNotional := 200\<rparr>))))) =
      [Placed ''binance'' req (filling req)] \<and>
     caps_passed (two_desks 1 (desk filling None) (desk filling (Some ((of_size 0)\<lparr>vc_MinNotional := 200\<rparr>)))) (pair_intent 100) \<and>
     \<bar>or_Price req - 1\<bar> \<le> 10 / 10000"
proof -
  let ?e = "two_desks 1 (desk filling None) (desk filling (Some ((of_size 0)\<lparr>vc_MinNotional := 200\<rparr>)))"
  obtain req where t: "trace (exec (LiveExecute (pair_intent 100)) ?e) = [Placed ''binance'' req (filling req)]" and r: "\<not> or_ReduceOnly req"
    using a_small_second_leg_leaves_the_first_unhedged_run [of 100 1 200] by auto
  have c: "PriceCache_Mid (lx_priceCache ?e) (ti_Symbol (pair_intent 100)) = Some 1" by (simp add: PriceCache_Mid_def)
  have "caps_passed ?e (pair_intent 100)"
    and "\<exists>leg\<in>set (ti_Legs (pair_intent 100)). opens_leg (venue_constraints (lx_registry ?e)) (ti_Symbol (pair_intent 100)) leg 1 ''binance'' req"
    using live_orders_passed_the_caps_and_stay_within_slippage [of "pair_intent 100" ?e "[Placed ''binance'' req (filling req)]" "''binance''" req "filling req"] t c r
    by (auto simp: closes_leg_def)
  then obtain leg where o: "leg \<in> set (ti_Legs (pair_intent 100))"
    "opens_leg (venue_constraints (lx_registry ?e)) (ti_Symbol (pair_intent 100)) leg 1 ''binance'' req" by blast
  have "tl_MaxSlippageBps leg = 10" using o(1) by (auto simp: pair_leg_def)
  moreover have "\<bar>or_Price req - 1\<bar> \<le> 1 * tl_MaxSlippageBps leg / 10000 + 0 / 2"
    by (rule opens_leg_price [OF o(2)]) (use calculation in \<open>simp_all add: desk_clients no_constraints_def\<close>)
  ultimately show ?thesis using t \<open>caps_passed ?e (pair_intent 100)\<close> by auto
qed



lemma unwinding_a_reordered_leg_repeats_the_fill_witness: "\<exists>req a others req' a'.
    trace (exec (LiveExecute (pair_intent 100)) (two_desks 1 (desk refusing None) (desk filling (Some (of_size 1))))) =
      Placed ''okx'' req a # others @ [Placed ''okx'' req' a'] \<and>
    or_Side req = SideSell \<and> or_Quantity req = 100 / 1 \<and> \<not> or_ReduceOnly req \<and>
    or_Side req' = SideSell \<and> or_Quantity req' = 100 / 1 \<and> or_ReduceOnly req' \<and>
    (\<forall>x\<in>set others. \<exists>r err. x = Placed ''binance'' r (Inl err) \<and> or_Side r = SideBuy)"
  by (rule unwinding_a_reordered_leg_repeats_the_fill) simp_all

lemma a_small_second_leg_leaves_the_first_unhedged_witness: "\<exists>req ev fill.
    trace (exec (LiveExecute (pair_intent 100)) (two_desks 1 (desk filling None) (desk filling (Some ((of_size 0)\<lparr>vc_MinNotional := 200\<rparr>))))) =
      [Placed ''binance'' req (filling req)] \<and> or_Side req = SideBuy \<and> or_Quantity req = 100 / 1 \<and>
    fst (run_state (LiveExecute (pair_intent 100)) (two_desks 1 (desk filling None) (desk filling (Some ((of_size 0)\<lparr>vc_MinNotional := 200\<rparr>))))) =
      ([ev], Some fill) \<and> ee_EventType ev = ''ORDER_FILLED''"
  by (rule a_small_second_leg_leaves_the_first_unhedged) simp_all

lemma parts_of_failed_attempts_are_forgotten_witness:
  "let e = two_desks 1 (desk (\<lambda>r. Inr (order_answer OrderStatusCancelled 0.05 r)) None) (desk refusing None);
             e' = exec (LiveExecute (pair_intent 100)) e in
    filled_on_venues (trace e') = 4 * 0.05 * (100 / 1) \<and> lx_dailyFills e' = [] \<and>
    (\<exists>ev fill. fst (run_state (LiveExecute (pair_intent 100)) e) = ([ev], Some fill) \<and>
       ee_EventType ev = ''ORDER_REJECTED'' \<and> sf_Legs fill = [])"
  by (rule parts_of_failed_attempts_are_forgotten) simp_all
end
