(* ===== verification/Arb_Strategies.thy ===== *)
theory Arb_Strategies
  imports Arb_Engine Ring_Buffers
begin

text \<open>
  The other strategies of internal/arb: basis.go, cascade.go, crossasset.go, mirror.go and
  dexcex.go.  Each keeps what it has seen of the market and, when it is evaluated, offers intents
  that a cooldown may hold back.  The 1inch and Paraswap quotes of internal/dex/router.go are
  answers of HTTP services and parameters here, as are the random bytes of the identifiers.
\<close>

section \<open>Offering an intent\<close>

text \<open>A nil cooldown is \<open>None\<close>; the state of a loop is the cooldown and the intents so far.\<close>

type_synonym offers = "Cooldown option \<times> TradeIntent list"

definition cooling :: "Cooldown option \<Rightarrow> string \<Rightarrow> int64 \<Rightarrow> bool" where
  "cooling cd key now = (case cd of None \<Rightarrow> False | Some c \<Rightarrow> IsOnCooldown c key now)"

abbreviation key_of :: "TradeIntent \<Rightarrow> string" where
  "key_of i \<equiv> ic_CooldownKey (ti_Constraints i)"

definition offer :: "int64 \<Rightarrow> TradeIntent \<Rightarrow> offers \<Rightarrow> offers" where
  "offer now intent st =
     (case st of (cd, out) \<Rightarrow>
        (if cooling cd (key_of intent) now then (cd, out)
         else (map_option (\<lambda>c. Mark c (key_of intent) now) cd, out @ [intent])))"

text \<open>The literals the code leaves out of an intent have their zero values.\<close>

definition no_metrics :: ExpectedMetrics where
  "no_metrics = \<lparr>em_EdgeBpsGross = 0, em_EdgeBpsNet = 0, em_ProfitUSDNet = 0, em_FeesUSDEst = 0,
     em_SlippageUSDEst = 0, em_FundingRate8hBps = 0, em_AnnualYieldPctNet = 0\<rparr>"

definition no_debug :: IntentDebug where
  "no_debug = \<lparr>id_ConsensusBandLow = 0, id_ConsensusBandHigh = 0, id_BuyOn = '''', id_SellOn = '''',
     id_BuyExec = 0, id_SellExec = 0\<rparr>"

definition plain_intent :: "string \<Rightarrow> string \<Rightarrow> string \<Rightarrow> string \<Rightarrow> int64 \<Rightarrow> int64 \<Rightarrow> TradeLeg list \<Rightarrow> string \<Rightarrow> TradeIntent" where
  "plain_intent tenantID uuid strategy symbol now ttl legs key =
     \<lparr>ti_SchemaVersion = 0, ti_TenantID = tenantID, ti_IntentID = uuid, ti_Strategy = strategy, ti_Symbol = symbol,
      ti_TsMs = now, ti_ExpiresMs = now + ttl, ti_Legs = legs, ti_Expected = no_metrics,
      ti_Constraints = \<lparr>ic_MinQuality = ''MED'', ic_RequireVenueOK = False, ic_MaxAgeMs = ttl, ic_HedgePreference = '''',
        ic_CooldownKey = key, ic_ForcePaperMode = False\<rparr>,
      ti_Debug = no_debug\<rparr>"

definition edge_metrics :: "float64 \<Rightarrow> float64 \<Rightarrow> float64 \<Rightarrow> ExpectedMetrics" where
  "edge_metrics gross net notional = no_metrics\<lparr>em_EdgeBpsGross := gross, em_EdgeBpsNet := net,
     em_ProfitUSDNet := notional * net / 10000\<rparr>"

section \<open>Basis\<close>

record basisObs =
  bo_basisBps :: float64
  bo_markPx :: float64
  bo_indexPx :: float64
  bo_tsMs :: int64

record basisWindow =
  bw_obs :: "basisObs list"
  bw_idx :: nat
  bw_full :: bool
  bw_cap :: nat

record BasisTracker =
  bt_basisHistory :: "(string \<times> (string \<times> basisWindow) list) list"
  bt_windowSize :: nat

definition NewBasisTracker :: "int \<Rightarrow> BasisTracker" where
  "NewBasisTracker windowSize =
     \<lparr>bt_basisHistory = [], bt_windowSize = (if windowSize < 10 then 200 else nat windowSize)\<rparr>"

definition empty_basis :: "nat \<Rightarrow> basisWindow" where
  "empty_basis n = \<lparr>bw_obs = replicate n \<lparr>bo_basisBps = 0, bo_markPx = 0, bo_indexPx = 0, bo_tsMs = 0\<rparr>,
     bw_idx = 0, bw_full = False, bw_cap = n\<rparr>"

definition basis_push :: "basisObs \<Rightarrow> basisWindow \<Rightarrow> basisWindow" where
  "basis_push x w =
     (let w = w\<lparr>bw_obs := (bw_obs w)[bw_idx w := x], bw_idx := bw_idx w + 1\<rparr>
      in if bw_idx w \<ge> bw_cap w then w\<lparr>bw_idx := 0, bw_full := True\<rparr> else w)"

definition basis_obs :: "Quote \<Rightarrow> basisObs" where
  "basis_obs q = \<lparr>bo_basisBps = (q_Mark q - q_Index q) / q_Index q * 10000, bo_markPx = q_Mark q,
     bo_indexPx = q_Index q, bo_tsMs = q_TsMs q\<rparr>"

definition basis_venues :: "string \<Rightarrow> BasisTracker \<Rightarrow> (string \<times> basisWindow) list" where
  "basis_venues symbol bt = (case map_of (bt_basisHistory bt) symbol of None \<Rightarrow> [] | Some m \<Rightarrow> m)"

definition BasisRecordQuote :: "Quote \<Rightarrow> BasisTracker \<Rightarrow> BasisTracker" where
  "BasisRecordQuote q bt =
     (if q_Mark q \<le> 0 \<or> q_Index q \<le> 0 then bt
      else
        (let venMap = basis_venues (q_Symbol q) bt;
             w = (case map_of venMap (q_Venue q) of None \<Rightarrow> empty_basis (bt_windowSize bt) | Some w \<Rightarrow> w)
         in bt\<lparr>bt_basisHistory := AList.update (q_Symbol q)
                (AList.update (q_Venue q) (basis_push (basis_obs q) w) venMap) (bt_basisHistory bt)\<rparr>))"

definition basis_count :: "basisWindow \<Rightarrow> nat" where
  "basis_count w = (if bw_full w then bw_cap w else bw_idx w)"

definition basis_sorted :: "basisWindow \<Rightarrow> basisObs list" where
  "basis_sorted w =
     (if bw_full w then drop (bw_idx w) (bw_obs w) @ take (bw_idx w) (bw_obs w) else take (bw_idx w) (bw_obs w))"

record BasisSnapshot =
  bs_Venue :: string
  bs_Symbol :: string
  bs_CurrentBps :: float64
  bs_MeanBps :: float64
  bs_StdDevBps :: float64
  bs_ZScore :: float64
  bs_MarkPx :: float64
  bs_IndexPx :: float64
  bs_TsMs :: int64

text \<open>The statistics of a list of observations, oldest first.\<close>

definition basis_mean :: "basisObs list \<Rightarrow> float64" where
  "basis_mean obs = (\<Sum>x\<leftarrow>obs. bo_basisBps x) / of_nat (length obs)"

definition basis_stdDev :: "basisObs list \<Rightarrow> float64" where
  "basis_stdDev obs =
     (let variance = (\<Sum>x\<leftarrow>obs. bo_basisBps x * bo_basisBps x) / of_nat (length obs) - basis_mean obs * basis_mean obs
      in if 0 < variance then sqrt variance else 0)"

definition basis_zScore :: "basisObs list \<Rightarrow> float64" where
  "basis_zScore obs =
     (if 0 < basis_stdDev obs then (bo_basisBps (List.last obs) - basis_mean obs) / basis_stdDev obs else 0)"

definition snapshot_of :: "string \<Rightarrow> string \<Rightarrow> basisObs list \<Rightarrow> BasisSnapshot option" where
  "snapshot_of symbol venue obs =
     (if length obs < 20 then None
      else (let latest = List.last obs in
        Some \<lparr>bs_Venue = venue, bs_Symbol = symbol, bs_CurrentBps = bo_basisBps latest, bs_MeanBps = basis_mean obs,
          bs_StdDevBps = basis_stdDev obs, bs_ZScore = basis_zScore obs, bs_MarkPx = bo_markPx latest,
          bs_IndexPx = bo_indexPx latest, bs_TsMs = bo_tsMs latest\<rparr>))"

definition BasisSnap :: "string \<Rightarrow> string \<Rightarrow> BasisTracker \<Rightarrow> BasisSnapshot option" where
  "BasisSnap symbol venue bt =
     (case map_of (bt_basisHistory bt) symbol of
        None \<Rightarrow> None
      | Some venMap \<Rightarrow>
          (case map_of venMap venue of
             None \<Rightarrow> None
           | Some w \<Rightarrow> (if basis_count w < 20 then None else snapshot_of symbol venue (basis_sorted w))))"

record BasisConfig =
  bc_MinBasisBps :: float64
  bc_MinZScore :: float64
  bc_MaxNotionalUSD :: float64
  bc_MaxSlippageBps :: float64
  bc_IntentTTLMs :: int64
  bc_CooldownMs :: int64

definition basis_intent :: "BasisConfig \<Rightarrow> string \<Rightarrow> string \<Rightarrow> int64 \<Rightarrow> BasisSnapshot \<Rightarrow> TradeIntent" where
  "basis_intent cfg tenantID uuid now snap =
     (let ven = bs_Venue snap; sy = bs_Symbol snap;
          leg = \<lparr>tl_Venue = ven, tl_Action = ''BUY'', tl_Type = ''MARKET_OR_IOC'', tl_Market = ''SPOT'',
                 tl_NotionalUSD = bc_MaxNotionalUSD cfg, tl_MaxSlippageBps = bc_MaxSlippageBps cfg,
                 tl_PriceLimit = bs_IndexPx snap * 1.003\<rparr>;
          i = plain_intent tenantID uuid ''BASIS_TRADE'' sy now (bc_IntentTTLMs cfg)
                [leg, leg\<lparr>tl_Action := ''SELL'', tl_Market := ''PERP'', tl_PriceLimit := bs_MarkPx snap * 0.997\<rparr>]
                (''basis:'' @ sy @ '':'' @ ven)
      in i\<lparr>ti_Expected := edge_metrics (bs_CurrentBps snap) (bs_CurrentBps snap - 8) (bc_MaxNotionalUSD cfg),
           ti_Constraints := (ti_Constraints i)\<lparr>ic_RequireVenueOK := True, ic_HedgePreference := ''SIMULTANEOUS_OR_HEDGE_FIRST''\<rparr>,
           ti_Debug := no_debug\<lparr>id_BuyOn := ven @ '':SPOT'', id_SellOn := ven @ '':PERP'', id_BuyExec := bs_IndexPx snap,
             id_SellExec := bs_MarkPx snap\<rparr>\<rparr>)"

definition consider_basis ::
  "BasisConfig \<Rightarrow> string \<Rightarrow> int64 \<Rightarrow> (nat \<Rightarrow> 8 word list) \<Rightarrow> BasisTracker \<Rightarrow> offers \<Rightarrow> string \<times> string \<Rightarrow> offers" where
  "consider_basis cfg tenantID now rnd bt st p =
     (case BasisSnap (fst p) (snd p) bt of
        None \<Rightarrow> st
      | Some snap \<Rightarrow>
          (if bs_CurrentBps snap < bc_MinBasisBps cfg then st
           else if bs_ZScore snap < bc_MinZScore cfg then st
           else offer now (basis_intent cfg tenantID (newUUID (rnd (length (snd st)))) now snap) st))"

definition EvaluateBasisTrades ::
  "BasisConfig \<Rightarrow> string \<Rightarrow> int64 \<Rightarrow> (nat \<Rightarrow> 8 word list) \<Rightarrow> BasisTracker \<Rightarrow> Cooldown option \<Rightarrow> offers" where
  "EvaluateBasisTrades cfg tenantID now rnd bt gate =
     foldl (consider_basis cfg tenantID now rnd bt) (gate, [])
       (concat (map (\<lambda>(sy, vs). map (\<lambda>(ven, _). (sy, ven)) vs) (bt_basisHistory bt)))"

section \<open>Cascades\<close>

record cascadeObs =
  co_mid :: float64
  co_tsMs :: int64

record cascadeState =
  cs_priceBuf :: "cascadeObs list"
  cs_bufIdx :: nat
  cs_bufCap :: nat
  cs_lastEmitMs :: int64

record CascadeDetector =
  ca_states :: "(string \<times> cascadeState) list"
  ca_oiPrev :: "string \<rightharpoonup> float64"

record CascadeConfig =
  cc_Enabled :: bool
  cc_OIDropPct :: float64
  cc_PriceMoveBps :: float64
  cc_WindowMs :: int64
  cc_NotionalUSD :: float64
  cc_MaxSlippageBps :: float64
  cc_IntentTTLMs :: int64
  cc_CooldownMs :: int64

definition NewCascadeDetector :: CascadeDetector where
  "NewCascadeDetector = \<lparr>ca_states = [], ca_oiPrev = Map.empty\<rparr>"

definition no_obs :: cascadeObs where
  "no_obs = \<lparr>co_mid = 0, co_tsMs = 0\<rparr>"

definition empty_cascade :: cascadeState where
  "empty_cascade = \<lparr>cs_priceBuf = replicate 60 no_obs, cs_bufIdx = 0, cs_bufCap = 60, cs_lastEmitMs = 0\<rparr>"

definition cascade_push :: "cascadeObs \<Rightarrow> cascadeState \<Rightarrow> cascadeState" where
  "cascade_push x cs = cs\<lparr>cs_priceBuf := (cs_priceBuf cs)[cs_bufIdx cs mod cs_bufCap cs := x], cs_bufIdx := cs_bufIdx cs + 1\<rparr>"

definition CascadeRecordQuote :: "Quote \<Rightarrow> CascadeDetector \<Rightarrow> CascadeDetector" where
  "CascadeRecordQuote q cd =
     (if q_BestBid q \<le> 0 \<or> q_BestAsk q \<le> 0 then cd
      else
        (let mid = (q_BestBid q + q_BestAsk q) / 2; key = q_Venue q @ '':'' @ q_Symbol q;
             cs = (case map_of (ca_states cd) key of None \<Rightarrow> empty_cascade | Some cs \<Rightarrow> cs)
         in cd\<lparr>ca_states := AList.update key (cascade_push \<lparr>co_mid = mid, co_tsMs = q_TsMs q\<rparr> cs) (ca_states cd)\<rparr>))"

definition UpdateOI :: "string \<Rightarrow> string \<Rightarrow> float64 \<Rightarrow> CascadeDetector \<Rightarrow> CascadeDetector \<times> float64" where
  "UpdateOI venue symbol currentOI cd =
     (let key = venue @ '':'' @ symbol
      in (cd\<lparr>ca_oiPrev := (ca_oiPrev cd)(key \<mapsto> currentOI)\<rparr>,
          (case ca_oiPrev cd key of
             None \<Rightarrow> 0
           | Some prev \<Rightarrow> (if prev \<le> 0 then 0 else (currentOI - prev) / prev * 100))))"

text \<open>The first colon splits a key; without one both parts are empty.\<close>

definition splitKey :: "string \<Rightarrow> string \<times> string" where
  "splitKey key = (if CHR '':'' \<in> set key
     then (takeWhile (\<lambda>c. c \<noteq> CHR '':'') key, tl (dropWhile (\<lambda>c. c \<noteq> CHR '':'') key)) else ('''', ''''))"

text \<open>
  The walk back from the newest observation stops at one without a time or outside the window.
\<close>

primrec scan_window :: "cascadeState \<Rightarrow> int64 \<Rightarrow> nat list \<Rightarrow> cascadeObs option \<times> cascadeObs \<Rightarrow> cascadeObs option \<times> cascadeObs" where
  "scan_window cs cutoff [] st = st"
| "scan_window cs cutoff (i # js) st =
     (let x = cs_priceBuf cs ! ((cs_bufIdx cs - 1 - i) mod cs_bufCap cs) in
      if co_tsMs x = 0 \<or> co_tsMs x < cutoff then st
      else scan_window cs cutoff js
        ((case fst st of None \<Rightarrow> Some x | Some oldest \<Rightarrow> Some (if co_tsMs x < co_tsMs oldest then x else oldest)),
         (if co_tsMs (snd st) < co_tsMs x then x else snd st)))"

definition priceMove :: "cascadeState \<Rightarrow> int64 \<Rightarrow> int64 \<Rightarrow> float64 \<times> string" where
  "priceMove cs nowMs windowMs =
     (let (oldest, newest) = scan_window cs (nowMs - windowMs) [0..<min (cs_bufCap cs) (cs_bufIdx cs)] (None, no_obs)
      in case oldest of
           None \<Rightarrow> (0, '''')
         | Some oldest \<Rightarrow>
             (if co_mid oldest \<le> 0 \<or> co_mid newest \<le> 0 then (0, '''')
              else (let moveBps = (co_mid newest - co_mid oldest) / co_mid oldest * 10000
                    in (\<bar>moveBps\<bar>, if 0 < moveBps then ''UP'' else ''DOWN''))))"

definition latestMid :: "cascadeState \<Rightarrow> float64" where
  "latestMid cs = (if cs_bufIdx cs = 0 then 0 else co_mid (cs_priceBuf cs ! ((cs_bufIdx cs - 1) mod cs_bufCap cs)))"

definition cascade_intent ::
  "CascadeConfig \<Rightarrow> string \<Rightarrow> string \<Rightarrow> int64 \<Rightarrow> string \<Rightarrow> string \<Rightarrow> float64 \<Rightarrow> string \<Rightarrow> float64 \<Rightarrow> TradeIntent" where
  "cascade_intent cfg tenantID uuid now venue symbol move direction mid =
     (let action = (if direction = ''UP'' then ''SELL'' else ''BUY'');
          i = plain_intent tenantID uuid ''CASCADE_CONTRA'' symbol now (cc_IntentTTLMs cfg)
                [\<lparr>tl_Venue = venue, tl_Action = action, tl_Type = ''MARKET_OR_IOC'', tl_Market = ''PERP'',
                  tl_NotionalUSD = cc_NotionalUSD cfg, tl_MaxSlippageBps = cc_MaxSlippageBps cfg,
                  tl_PriceLimit = (if action = ''BUY'' then mid * 1.005 else mid * 0.995)\<rparr>]
                (''cascade:'' @ symbol @ '':'' @ venue)
      in i\<lparr>ti_Expected := edge_metrics (move * 0.3) (move * 0.3 - 5) (cc_NotionalUSD cfg),
           ti_Debug := no_debug\<lparr>id_BuyOn := venue, id_SellOn := venue, id_BuyExec := mid, id_SellExec := mid\<rparr>\<rparr>)"

text \<open>One key of the range; the time of an emission is stored in its state.\<close>

definition consider_cascade ::
  "CascadeConfig \<Rightarrow> string \<Rightarrow> int64 \<Rightarrow> (nat \<Rightarrow> 8 word list) \<Rightarrow> (string \<rightharpoonup> float64) \<Rightarrow>
   (string \<times> cascadeState) list \<times> offers \<Rightarrow> string \<times> cascadeState \<Rightarrow> (string \<times> cascadeState) list \<times> offers" where
  "consider_cascade cfg tenantID now rnd oiPrev st kcs =
     (case (st, kcs) of ((done, os), (key, cs)) \<Rightarrow>
        (let (venue, symbol) = splitKey key; (move, direction) = priceMove cs now (cc_WindowMs cfg);
             intent = cascade_intent cfg tenantID (newUUID (rnd (length (snd os)))) now venue symbol move direction (latestMid cs)
         in if now - cs_lastEmitMs cs < cc_CooldownMs cfg \<or> venue = '''' \<or> symbol = '''' \<or>
               oiPrev (venue @ '':'' @ symbol) = None \<or> move < cc_PriceMoveBps cfg \<or> latestMid cs \<le> 0 \<or>
               cooling (fst os) (key_of intent) now
            then (done @ [(key, cs)], os)
            else (done @ [(key, cs\<lparr>cs_lastEmitMs := now\<rparr>)], offer now intent os)))"

definition CascadeEvaluate ::
  "CascadeConfig \<Rightarrow> string \<Rightarrow> int64 \<Rightarrow> (nat \<Rightarrow> 8 word list) \<Rightarrow> CascadeDetector \<Rightarrow> Cooldown option \<Rightarrow> CascadeDetector \<times> offers" where
  "CascadeEvaluate cfg tenantID now rnd cd gate =
     (if \<not> cc_Enabled cfg then (cd, (gate, []))
      else (let (states, os) = foldl (consider_cascade cfg tenantID now rnd (ca_oiPrev cd)) ([], (gate, [])) (ca_states cd)
            in (cd\<lparr>ca_states := states\<rparr>, os)))"

section \<open>Related assets\<close>

record CrossAssetPair =
  xp_Name :: string
  xp_LongAsset :: string
  xp_ShortAsset :: string
  xp_LongVenue :: string
  xp_ShortVenue :: string
  xp_LongMarket :: string
  xp_ShortMarket :: string
  xp_FairSpreadBps :: float64

record CrossAssetConfig =
  xa_Enabled :: bool
  xa_Pairs :: "CrossAssetPair list"
  xa_MinEdgeBps :: float64
  xa_NotionalUSD :: float64
  xa_MaxSlippageBps :: float64
  xa_IntentTTLMs :: int64
  xa_CooldownMs :: int64

record assetPrice =
  as_mid :: float64
  as_bid :: float64
  as_ask :: float64
  as_tsMs :: int64

type_synonym CrossAssetDetector = "string \<rightharpoonup> assetPrice"

definition NewCrossAssetDetector :: CrossAssetDetector where
  "NewCrossAssetDetector = Map.empty"

definition UpdatePrice :: "string \<Rightarrow> string \<Rightarrow> float64 \<Rightarrow> float64 \<Rightarrow> float64 \<Rightarrow> int64 \<Rightarrow> CrossAssetDetector \<Rightarrow> CrossAssetDetector" where
  "UpdatePrice asset venue mid bid ask tsMs m =
     m(asset @ '':'' @ venue \<mapsto> \<lparr>as_mid = mid, as_bid = bid, as_ask = ask, as_tsMs = tsMs\<rparr>)"

text \<open>The rich asset is sold at its bid and the cheap one bought at its ask.\<close>

definition divergence_of :: "CrossAssetPair \<Rightarrow> assetPrice \<Rightarrow> assetPrice \<Rightarrow> float64" where
  "divergence_of pair long short = (as_mid long - as_mid short) / as_mid short * 10000 - xp_FairSpreadBps pair"

definition cross_asset_intent ::
  "CrossAssetConfig \<Rightarrow> string \<Rightarrow> string \<Rightarrow> int64 \<Rightarrow> CrossAssetPair \<Rightarrow> assetPrice \<Rightarrow> assetPrice \<Rightarrow> TradeIntent" where
  "cross_asset_intent cfg tenantID uuid now pair long short =
     (let d = divergence_of pair long short;
          rich = 0 < d;
          buyVenue = (if rich then xp_ShortVenue pair else xp_LongVenue pair);
          buyMarket = (if rich then xp_ShortMarket pair else xp_LongMarket pair);
          buyPrice = (if rich then as_ask short else as_ask long);
          sellVenue = (if rich then xp_LongVenue pair else xp_ShortVenue pair);
          sellMarket = (if rich then xp_LongMarket pair else xp_ShortMarket pair);
          sellPrice = (if rich then as_bid long else as_bid short);
          slip = xa_MaxSlippageBps cfg;
          i = plain_intent tenantID uuid ''CROSS_ASSET_ARB'' (xp_Name pair) now (xa_IntentTTLMs cfg)
                [\<lparr>tl_Venue = buyVenue, tl_Action = ''BUY'', tl_Type = '''', tl_Market = buyMarket,
                  tl_NotionalUSD = xa_NotionalUSD cfg, tl_MaxSlippageBps = slip, tl_PriceLimit = buyPrice * (1 + slip / 10000)\<rparr>,
                 \<lparr>tl_Venue = sellVenue, tl_Action = ''SELL'', tl_Type = '''', tl_Market = sellMarket,
                  tl_NotionalUSD = xa_NotionalUSD cfg, tl_MaxSlippageBps = slip, tl_PriceLimit = sellPrice * (1 - slip / 10000)\<rparr>]
                (''crossasset:'' @ xp_Name pair)
      in i\<lparr>ti_Expected := edge_metrics \<bar>d\<bar> (\<bar>d\<bar> - 8) (xa_NotionalUSD cfg),
           ti_Debug := no_debug\<lparr>id_BuyOn := buyVenue, id_SellOn := sellVenue, id_BuyExec := buyPrice, id_SellExec := sellPrice\<rparr>\<rparr>)"

definition consider_cross_asset ::
  "CrossAssetConfig \<Rightarrow> string \<Rightarrow> int64 \<Rightarrow> (nat \<Rightarrow> 8 word list) \<Rightarrow> CrossAssetDetector \<Rightarrow> offers \<Rightarrow> CrossAssetPair \<Rightarrow> offers" where
  "consider_cross_asset cfg tenantID now rnd m st pair =
     (case (m (xp_LongAsset pair @ '':'' @ xp_LongVenue pair), m (xp_ShortAsset pair @ '':'' @ xp_ShortVenue pair)) of
        (Some long, Some short) \<Rightarrow>
          (if now - as_tsMs long > 5000 \<or> now - as_tsMs short > 5000 then st
           else if as_mid short = 0 then st
           else if \<bar>divergence_of pair long short\<bar> < xa_MinEdgeBps cfg then st
           else offer now (cross_asset_intent cfg tenantID (newUUID (rnd (length (snd st)))) now pair long short) st)
      | _ \<Rightarrow> st)"

definition CrossAssetEvaluate ::
  "CrossAssetConfig \<Rightarrow> string \<Rightarrow> int64 \<Rightarrow> (nat \<Rightarrow> 8 word list) \<Rightarrow> CrossAssetDetector \<Rightarrow> Cooldown option \<Rightarrow> offers" where
  "CrossAssetEvaluate cfg tenantID now rnd m gate =
     (if \<not> xa_Enabled cfg then (gate, []) else foldl (consider_cross_asset cfg tenantID now rnd m) (gate, []) (xa_Pairs cfg))"

section \<open>Mirroring large flow\<close>

record MirrorConfig =
  mc_Enabled :: bool
  mc_MinFlowSizeUSD :: float64
  mc_MaxDelayMs :: int64
  mc_NotionalUSD :: float64
  mc_MaxSlippageBps :: float64
  mc_IntentTTLMs :: int64
  mc_CooldownMs :: int64
  mc_MinEdgeBps :: float64
  mc_MaxMirrorPct :: float64

record WhaleFlow =
  wf_Venue :: string
  wf_Symbol :: string
  wf_Direction :: string
  wf_SizeUSD :: float64
  wf_PriceImpact :: float64
  wf_TsMs :: int64

record flowPattern =
  fl_avgIntervalMs :: int64
  fl_avgSizeUSD :: float64
  fl_direction :: string
  fl_count :: int
  fl_lastSeenMs :: int64

record LiquidityMirror =
  lm_flows :: "(string \<times> WhaleFlow list) list"
  lm_patterns :: "string \<rightharpoonup> flowPattern"
  lm_windowMs :: int64
  lm_maxFlows :: nat

definition NewLiquidityMirror :: "int64 \<Rightarrow> LiquidityMirror" where
  "NewLiquidityMirror windowMs = \<lparr>lm_flows = [], lm_patterns = Map.empty, lm_windowMs = windowMs, lm_maxFlows = 1000\<rparr>"

definition pattern_after :: "WhaleFlow \<Rightarrow> flowPattern option \<Rightarrow> flowPattern" where
  "pattern_after flow pat =
     (case pat of
        None \<Rightarrow> \<lparr>fl_avgIntervalMs = 0, fl_avgSizeUSD = wf_SizeUSD flow, fl_direction = wf_Direction flow, fl_count = 1,
                 fl_lastSeenMs = wf_TsMs flow\<rparr>
      | Some p \<Rightarrow>
          (if wf_Direction flow \<noteq> fl_direction p
           then p\<lparr>fl_direction := wf_Direction flow, fl_count := 1, fl_avgSizeUSD := wf_SizeUSD flow, fl_lastSeenMs := wf_TsMs flow\<rparr>
           else
             (let interval = wf_TsMs flow - fl_lastSeenMs p
              in p\<lparr>fl_avgIntervalMs := (if fl_count p > 0 \<and> fl_avgIntervalMs p > 0
                      then go_div (fl_avgIntervalMs p * fl_count p + interval) (fl_count p + 1) else interval),
                   fl_avgSizeUSD := (fl_avgSizeUSD p * of_int (fl_count p) + wf_SizeUSD flow) / of_int (fl_count p + 1),
                   fl_count := fl_count p + 1, fl_lastSeenMs := wf_TsMs flow\<rparr>)))"

definition updatePatterns :: "WhaleFlow \<Rightarrow> LiquidityMirror \<Rightarrow> LiquidityMirror" where
  "updatePatterns flow lm =
     (let key = wf_Symbol flow @ '':'' @ wf_Venue flow
      in lm\<lparr>lm_patterns := (lm_patterns lm)(key \<mapsto> pattern_after flow (lm_patterns lm key))\<rparr>)"

definition trim_flows :: "int64 \<Rightarrow> LiquidityMirror \<Rightarrow> WhaleFlow list \<Rightarrow> WhaleFlow list" where
  "trim_flows now lm flows = keep_last (lm_maxFlows lm) (dropWhile (\<lambda>f. wf_TsMs f < now - lm_windowMs lm) flows)"

definition RecordFlow :: "int64 \<Rightarrow> WhaleFlow \<Rightarrow> LiquidityMirror \<Rightarrow> LiquidityMirror" where
  "RecordFlow now flow lm =
     (let flows = (case map_of (lm_flows lm) (wf_Symbol flow) of None \<Rightarrow> [] | Some fs \<Rightarrow> fs)
      in updatePatterns flow
           (lm\<lparr>lm_flows := AList.update (wf_Symbol flow) (trim_flows now lm (flows @ [flow])) (lm_flows lm)\<rparr>))"

definition mirror_edge :: "LiquidityMirror \<Rightarrow> string \<Rightarrow> WhaleFlow \<Rightarrow> float64" where
  "mirror_edge lm symbol flow =
     (case lm_patterns lm (symbol @ '':'' @ wf_Venue flow) of
        None \<Rightarrow> wf_PriceImpact flow * 0.3
      | Some p \<Rightarrow> (if fl_count p \<ge> 3 then wf_PriceImpact flow * 0.5 else wf_PriceImpact flow * 0.3))"

definition mirror_size :: "MirrorConfig \<Rightarrow> WhaleFlow \<Rightarrow> float64" where
  "mirror_size cfg flow = min (mc_NotionalUSD cfg) (wf_SizeUSD flow * mc_MaxMirrorPct cfg / 100)"

definition mirror_intent :: "MirrorConfig \<Rightarrow> string \<Rightarrow> string \<Rightarrow> int64 \<Rightarrow> string \<Rightarrow> WhaleFlow \<Rightarrow> float64 \<Rightarrow> TradeIntent" where
  "mirror_intent cfg tenantID uuid now symbol flow edgeBps =
     (let venue = wf_Venue flow; mirrorSize = mirror_size cfg flow;
          i = plain_intent tenantID uuid ''LIQUIDITY_MIRROR'' symbol now (mc_IntentTTLMs cfg)
                [\<lparr>tl_Venue = venue, tl_Action = wf_Direction flow, tl_Type = '''', tl_Market = ''PERP'',
                  tl_NotionalUSD = mirrorSize, tl_MaxSlippageBps = mc_MaxSlippageBps cfg, tl_PriceLimit = 0\<rparr>]
                (''mirror:'' @ symbol @ '':'' @ venue @ '':'' @ wf_Direction flow)
      in i\<lparr>ti_Expected := edge_metrics edgeBps (edgeBps - 4) mirrorSize,
           ti_Debug := no_debug\<lparr>id_BuyOn := venue, id_SellOn := venue\<rparr>\<rparr>)"

definition consider_flow ::
  "MirrorConfig \<Rightarrow> string \<Rightarrow> int64 \<Rightarrow> (nat \<Rightarrow> 8 word list) \<Rightarrow> LiquidityMirror \<Rightarrow> offers \<Rightarrow> string \<times> WhaleFlow \<Rightarrow> offers" where
  "consider_flow cfg tenantID now rnd lm st sf =
     (case sf of (symbol, flow) \<Rightarrow>
        (let edgeBps = mirror_edge lm symbol flow;
             intent = mirror_intent cfg tenantID (newUUID (rnd (length (snd st)))) now symbol flow edgeBps
         in if now - wf_TsMs flow > mc_MaxDelayMs cfg then st
            else if wf_SizeUSD flow < mc_MinFlowSizeUSD cfg then st
            else if cooling (fst st) (key_of intent) now then st
            else if edgeBps < mc_MinEdgeBps cfg then st
            else if mirror_size cfg flow < 100 then st
            else offer now intent st))"

definition MirrorEvaluate ::
  "MirrorConfig \<Rightarrow> string \<Rightarrow> int64 \<Rightarrow> (nat \<Rightarrow> 8 word list) \<Rightarrow> LiquidityMirror \<Rightarrow> Cooldown option \<Rightarrow> offers" where
  "MirrorEvaluate cfg tenantID now rnd lm gate =
     (if \<not> mc_Enabled cfg then (gate, [])
      else foldl (consider_flow cfg tenantID now rnd lm) (gate, [])
             (concat (map (\<lambda>(sy, fs). map (\<lambda>f. (sy, f)) fs) (lm_flows lm))))"

definition DetectedPatterns :: "LiquidityMirror \<Rightarrow> string \<rightharpoonup> flowPattern" where
  "DetectedPatterns lm = lm_patterns lm"

section \<open>Decentralised exchanges\<close>

record DexConfig =
  dx_Enabled :: bool
  dx_PreferredProvider :: string
  dx_MaxSlippagePct :: float64
  dx_MEVProtect :: bool

record QuoteRequest =
  qr_ChainID :: int
  qr_FromToken :: string
  qr_ToToken :: string
  qr_AmountWei :: string
  qr_Slippage :: float64
  qr_MEVProtect :: bool

record QuoteResponse =
  qs_Provider :: string
  qs_ToAmount :: string

type_synonym provider = "QuoteRequest \<Rightarrow> gotext + QuoteResponse"

record DexRouter =
  dr_cfg :: DexConfig
  dr_oneInchQuote :: provider
  dr_paraswapQuote :: provider

definition BestQuote :: "DexRouter \<Rightarrow> QuoteRequest \<Rightarrow> gotext + QuoteResponse" where
  "BestQuote r req =
     (if \<not> dx_Enabled (dr_cfg r) then Inl (Txt ''dex routing disabled'')
      else
        (let req = (if qr_Slippage req = 0 then req\<lparr>qr_Slippage := dx_MaxSlippagePct (dr_cfg r)\<rparr> else req);
             req = (if dx_MEVProtect (dr_cfg r) then req\<lparr>qr_MEVProtect := True\<rparr> else req);
             (primary, secondary) = (if dx_PreferredProvider (dr_cfg r) = ''paraswap''
                then (dr_paraswapQuote r, dr_oneInchQuote r) else (dr_oneInchQuote r, dr_paraswapQuote r))
         in case primary req of Inr q \<Rightarrow> Inr q | Inl _ \<Rightarrow> secondary req))"

record DEXCEXConfig =
  dc_Enabled :: bool
  dc_MinEdgeBps :: float64
  dc_MaxNotionalUSD :: float64
  dc_MaxSlippageBps :: float64
  dc_IntentTTLMs :: int64
  dc_CooldownMs :: int64
  dc_TokenAddresses :: "(string \<times> string) list"
  dc_StableAddress :: string
  dc_ChainID :: int

record cexPrice =
  cx_bid :: float64
  cx_ask :: float64
  cx_mid :: float64
  cx_tsMs :: int64

record DEXCEXTracker =
  dt_router :: "DexRouter option"
  dt_prices :: "(string \<times> cexPrice) list"

definition NewDEXCEXTracker :: "DexRouter option \<Rightarrow> DEXCEXTracker" where
  "NewDEXCEXTracker router = \<lparr>dt_router = router, dt_prices = []\<rparr>"

definition DEXCEXRecordQuote :: "Quote \<Rightarrow> DEXCEXTracker \<Rightarrow> DEXCEXTracker" where
  "DEXCEXRecordQuote q dt =
     (if q_BestBid q \<le> 0 \<or> q_BestAsk q \<le> 0 then dt
      else dt\<lparr>dt_prices := AList.update (q_Venue q @ '':'' @ q_Symbol q)
             \<lparr>cx_bid = q_BestBid q, cx_ask = q_BestAsk q, cx_mid = (q_BestBid q + q_BestAsk q) / 2, cx_tsMs = q_TsMs q\<rparr>
             (dt_prices dt)\<rparr>)"

definition no_price :: cexPrice where
  "no_price = \<lparr>cx_bid = 0, cx_ask = 0, cx_mid = 0, cx_tsMs = 0\<rparr>"

text \<open>The best bid and ask among the fresh prices of a symbol, each with its venue.\<close>

definition better_price ::
  "string \<Rightarrow> int64 \<Rightarrow> (cexPrice \<times> string) \<times> (cexPrice \<times> string) \<Rightarrow> string \<times> cexPrice \<Rightarrow>
   (cexPrice \<times> string) \<times> (cexPrice \<times> string)" where
  "better_price symbol now best kp =
     (case (best, kp) of ((b, a), (key, p)) \<Rightarrow>
        (let (v, s) = splitKey key
         in if s \<noteq> symbol \<or> now - cx_tsMs p > 10000 then (b, a)
            else ((if cx_bid p > cx_bid (fst b) then (p, v) else b),
                  (if cx_ask (fst a) = 0 \<or> cx_ask p < cx_ask (fst a) then (p, v) else a))))"

definition best_prices :: "string \<Rightarrow> int64 \<Rightarrow> (string \<times> cexPrice) list \<Rightarrow> (cexPrice \<times> string) \<times> (cexPrice \<times> string)" where
  "best_prices symbol now prices = foldl (better_price symbol now) ((no_price, ''''), (no_price, '''')) prices"

text \<open>The verb \<open>%.0f\<close> rounds to the nearest integer, a half to the even one.\<close>

definition round_half_even :: "real \<Rightarrow> int" where
  "round_half_even x =
     (let n = \<lfloor>x\<rfloor>; d = x - of_int n
      in if d < 1 / 2 then n else if d > 1 / 2 then n + 1 else if even n then n else n + 1)"

definition notionalToWei :: "float64 \<Rightarrow> float64 \<Rightarrow> int option" where
  "notionalToWei notionalUSD price =
     (if price \<le> 0 then None else Some (round_half_even (notionalUSD / price * 10 ^ 18)))"

text \<open>\<open>big.Int.SetString\<close> is a parameter: on text that is no number its result is undefined.\<close>

definition weiToUSD :: "(string \<Rightarrow> int) \<Rightarrow> string \<Rightarrow> nat \<Rightarrow> float64" where
  "weiToUSD setString weiStr decimals =
     (let w = setString weiStr in if w \<le> 0 then 0 else of_int w / 10 ^ decimals)"

definition swap_leg :: "DEXCEXConfig \<Rightarrow> string \<Rightarrow> string \<Rightarrow> TradeLeg" where
  "swap_leg cfg provider action =
     \<lparr>tl_Venue = ''dex:'' @ provider, tl_Action = action, tl_Type = ''DEX_SWAP'', tl_Market = ''SPOT'',
      tl_NotionalUSD = dc_MaxNotionalUSD cfg, tl_MaxSlippageBps = dc_MaxSlippageBps cfg, tl_PriceLimit = 0\<rparr>"

definition cex_leg :: "DEXCEXConfig \<Rightarrow> string \<Rightarrow> string \<Rightarrow> float64 \<Rightarrow> TradeLeg" where
  "cex_leg cfg venue action limit =
     \<lparr>tl_Venue = venue, tl_Action = action, tl_Type = ''MARKET_OR_IOC'', tl_Market = ''SPOT'',
      tl_NotionalUSD = dc_MaxNotionalUSD cfg, tl_MaxSlippageBps = dc_MaxSlippageBps cfg, tl_PriceLimit = limit\<rparr>"

definition dexcex_intent :: "DEXCEXConfig \<Rightarrow> string \<Rightarrow> string \<Rightarrow> int64 \<Rightarrow> string \<Rightarrow> TradeLeg list \<Rightarrow> float64 \<Rightarrow> string \<Rightarrow> TradeIntent" where
  "dexcex_intent cfg tenantID uuid now symbol legs edge key =
     (plain_intent tenantID uuid ''DEX_CEX_ARB'' symbol now (dc_IntentTTLMs cfg) legs key)
       \<lparr>ti_Expected := edge_metrics edge (edge - 10) (dc_MaxNotionalUSD cfg)\<rparr>"

definition offer_dex ::
  "DEXCEXConfig \<Rightarrow> string \<Rightarrow> int64 \<Rightarrow> (nat \<Rightarrow> 8 word list) \<Rightarrow> string \<Rightarrow> TradeLeg list \<Rightarrow> float64 \<Rightarrow> string \<Rightarrow> offers \<Rightarrow> offers" where
  "offer_dex cfg tenantID now rnd symbol legs edge key st =
     (if edge < dc_MinEdgeBps cfg then st
      else offer now (dexcex_intent cfg tenantID (newUUID (rnd (length (snd st)))) now symbol legs edge key) st)"

definition dex_request :: "DEXCEXConfig \<Rightarrow> string \<Rightarrow> int \<Rightarrow> QuoteRequest" where
  "dex_request cfg tokenAddr amountWei =
     \<lparr>qr_ChainID = dc_ChainID cfg, qr_FromToken = tokenAddr, qr_ToToken = dc_StableAddress cfg,
      qr_AmountWei = show_int amountWei, qr_Slippage = 0, qr_MEVProtect = False\<rparr>"

definition consider_token ::
  "(string \<Rightarrow> int) \<Rightarrow> DEXCEXConfig \<Rightarrow> string \<Rightarrow> int64 \<Rightarrow> (nat \<Rightarrow> 8 word list) \<Rightarrow> DexRouter \<Rightarrow> (string \<times> cexPrice) list \<Rightarrow>
   offers \<Rightarrow> string \<times> string \<Rightarrow> offers" where
  "consider_token setString cfg tenantID now rnd router snapshot st sa =
     (case sa of (symbol, tokenAddr) \<Rightarrow>
        (let ((bestBid, bidVenue), (bestAsk, askVenue)) = best_prices symbol now snapshot in
         if cx_bid bestBid \<le> 0 \<or> cx_ask bestAsk \<le> 0 then st
         else (case notionalToWei (dc_MaxNotionalUSD cfg) (cx_mid bestBid) of
             None \<Rightarrow> st
           | Some amountWei \<Rightarrow>
               (case BestQuote router (dex_request cfg tokenAddr amountWei) of
                  Inl err \<Rightarrow> st
                | Inr q \<Rightarrow>
                    (let out = weiToUSD setString (qs_ToAmount q) 6 in
                     if out \<le> 0 then st
                     else
                       (let implied = out / (dc_MaxNotionalUSD cfg / cx_mid bestBid);
                            buyEdge = (implied - cx_ask bestAsk) / cx_ask bestAsk * 10000;
                            st = offer_dex cfg tenantID now rnd symbol
                                   [cex_leg cfg askVenue ''BUY'' (cx_ask bestAsk * 1.003), swap_leg cfg (qs_Provider q) ''SELL'']
                                   buyEdge (''dexcex:buy:'' @ symbol @ '':'' @ askVenue) st;
                            sellEdge = (cx_bid bestBid - implied) / implied * 10000
                        in offer_dex cfg tenantID now rnd symbol
                             [swap_leg cfg (qs_Provider q) ''BUY'', cex_leg cfg bidVenue ''SELL'' (cx_bid bestBid * 0.997)]
                             sellEdge (''dexcex:sell:'' @ symbol @ '':'' @ bidVenue) st))))))"

definition EvaluateDEXCEX ::
  "(string \<Rightarrow> int) \<Rightarrow> DEXCEXConfig \<Rightarrow> string \<Rightarrow> int64 \<Rightarrow> (nat \<Rightarrow> 8 word list) \<Rightarrow> DEXCEXTracker \<Rightarrow> Cooldown option \<Rightarrow> offers" where
  "EvaluateDEXCEX setString cfg tenantID now rnd dt gate =
     (case dt_router dt of
        None \<Rightarrow> (gate, [])
      | Some router \<Rightarrow>
          (if \<not> dc_Enabled cfg \<or> \<not> dx_Enabled (dr_cfg router) then (gate, [])
           else foldl (consider_token setString cfg tenantID now rnd router (dt_prices dt)) (gate, []) (dc_TokenAddresses cfg)))"

section \<open>What a loop of offers emits\<close>

text \<open>
  Whatever a loop decides, what it adds satisfies \<open>P\<close>, the cooldown is marked for exactly the keys
  of what was added, and with a cooldown of positive length no key is added twice or while it is hot.
\<close>

definition offered :: "int64 \<Rightarrow> (TradeIntent \<Rightarrow> bool) \<Rightarrow> offers \<Rightarrow> offers \<Rightarrow> bool" where
  "offered now P st st' \<longleftrightarrow> (\<exists>new. snd st' = snd st @ new \<and> (\<forall>i\<in>set new. P i) \<and>
     fst st' = map_option (\<lambda>c. foldl (\<lambda>c i. Mark c (key_of i) now) c new) (fst st) \<and>
     (\<forall>c. fst st = Some c \<longrightarrow> 0 < cd_ttlMs c \<longrightarrow>
        distinct (map key_of new) \<and> (\<forall>i\<in>set new. \<not> IsOnCooldown c (key_of i) now)))"

named_theorems offered_intros \<open>what a loop adds: one rule per construct\<close>

lemma Mark_ttl [simp]: "cd_ttlMs (foldl (\<lambda>c i. Mark c (key_of i) now) c new) = cd_ttlMs c"
  by (induction new arbitrary: c) (simp_all add: Mark_def)

lemma hot_after:
  "0 < cd_ttlMs c \<Longrightarrow> IsOnCooldown (foldl (\<lambda>c i. Mark c (key_of i) now) c new) k now \<longleftrightarrow>
     k \<in> set (map key_of new) \<or> IsOnCooldown c k now"
proof (induction new arbitrary: c)
  case Nil
  then show ?case by simp
next
  case (Cons i new)
  have "IsOnCooldown (Mark c (key_of i) now) k now \<longleftrightarrow> k = key_of i \<or> IsOnCooldown c k now"
    using Cons.prems by (auto simp: IsOnCooldown_def Mark_def split: option.split)
  with Cons show ?case by (auto simp: Mark_def)
qed

lemma offered_refl [offered_intros]: "offered now P st st"
  by (cases "fst st") (auto simp: offered_def)

lemma offered_offer [offered_intros]: "P intent \<Longrightarrow> offered now P st (offer now intent st)"
  by (cases st; cases "fst st") (auto simp: offered_def offer_def cooling_def)

lemma image_apart: "\<forall>i\<in>B. f i \<notin> f ` A \<Longrightarrow> f ` A \<inter> f ` B = {}"
  unfolding disjoint_iff by (metis imageE)

lemma offered_trans:
  assumes "offered now P st st'" "offered now P st' st''"
  shows "offered now P st st''"
proof -
  obtain new where n: "snd st' = snd st @ new" "\<forall>i\<in>set new. P i"
    "fst st' = map_option (\<lambda>c. foldl (\<lambda>c i. Mark c (key_of i) now) c new) (fst st)"
    "\<And>c. fst st = Some c \<Longrightarrow> 0 < cd_ttlMs c \<Longrightarrow> distinct (map key_of new) \<and> (\<forall>i\<in>set new. \<not> IsOnCooldown c (key_of i) now)"
    using assms(1) unfolding offered_def by blast
  obtain new' where n': "snd st'' = snd st' @ new'" "\<forall>i\<in>set new'. P i"
    "fst st'' = map_option (\<lambda>c. foldl (\<lambda>c i. Mark c (key_of i) now) c new') (fst st')"
    "\<And>c. fst st' = Some c \<Longrightarrow> 0 < cd_ttlMs c \<Longrightarrow> distinct (map key_of new') \<and> (\<forall>i\<in>set new'. \<not> IsOnCooldown c (key_of i) now)"
    using assms(2) unfolding offered_def by blast
  have "distinct (map key_of (new @ new')) \<and> (\<forall>i\<in>set (new @ new'). \<not> IsOnCooldown c (key_of i) now)"
    if c: "fst st = Some c" "0 < cd_ttlMs c" for c
  proof -
    have "distinct (map key_of new')" "\<forall>i\<in>set new'. key_of i \<notin> key_of ` set new \<and> \<not> IsOnCooldown c (key_of i) now"
      using n'(4) [of "foldl (\<lambda>c i. Mark c (key_of i) now) c new"] c n(3) by (simp_all add: hot_after)
    note d = this
    have "set (map key_of new) \<inter> set (map key_of new') = {}" 
      unfolding set_map using d(2) by (intro image_apart) simp
    moreover have "\<forall>i\<in>set (new @ new'). \<not> IsOnCooldown c (key_of i) now" using n(4) [OF c] d(2) by auto
    ultimately show ?thesis using n(4) [OF c] d(1) by (simp only: map_append distinct_append)
  qed
  then show ?thesis
    unfolding offered_def using n n'
    by (intro exI [of _ "new @ new'"]) (auto simp: option.map_comp comp_def)
qed

lemma offered_foldl [offered_intros]:
  "(\<And>st x. x \<in> set xs \<Longrightarrow> offered now P st (f st x)) \<Longrightarrow> offered now P st (foldl f st xs)"
proof (induction xs arbitrary: st)
  case Nil
  show ?case by (simp add: offered_refl)
next
  case (Cons x xs)
  have "offered now P (f st x) (foldl f (f st x) xs)" using Cons.prems by (intro Cons.IH) simp
  then show ?case using offered_trans [OF Cons.prems [of x st]] by simp
qed

lemma offered_if [offered_intros]:
  "(b \<Longrightarrow> offered now P st x) \<Longrightarrow> (\<not> b \<Longrightarrow> offered now P st y) \<Longrightarrow> offered now P st (if b then x else y)"
  by simp

lemma offered_option [offered_intros]:
  "(z = None \<Longrightarrow> offered now P st x) \<Longrightarrow> (\<And>a. z = Some a \<Longrightarrow> offered now P st (f a)) \<Longrightarrow>
     offered now P st (case z of None \<Rightarrow> x | Some a \<Rightarrow> f a)"
  by (simp split: option.split)

lemma offered_all: "offered now P (c, []) (c', out) \<Longrightarrow> i \<in> set out \<Longrightarrow> P i"
  by (auto simp: offered_def)

lemma offered_distinct: "offered now P (Some c, []) (c', out) \<Longrightarrow> 0 < cd_ttlMs c \<Longrightarrow> distinct (map key_of out)"
  by (auto simp: offered_def)

lemma key_of_plain [simp]:
  "key_of (plain_intent tenantID uuid strategy symbol now ttl legs key) = key"
  "ti_Legs (plain_intent tenantID uuid strategy symbol now ttl legs key) = legs"
  "ti_TsMs (plain_intent tenantID uuid strategy symbol now ttl legs key) = now"
  "ti_ExpiresMs (plain_intent tenantID uuid strategy symbol now ttl legs key) = now + ttl"
  "ti_Symbol (plain_intent tenantID uuid strategy symbol now ttl legs key) = symbol"
  "ti_Strategy (plain_intent tenantID uuid strategy symbol now ttl legs key) = strategy"
  by (simp_all add: plain_intent_def)

section \<open>The basis\<close>

interpretation basis_ring: ring_buffer bw_obs bw_idx bw_full bw_cap basis_push
  by unfold_locales (auto simp: basis_push_def Let_def)

lemma basis_sorted_ring: "basis_sorted w = ring_contents (bw_obs w) (bw_idx w) (bw_full w)"
  by (simp add: basis_sorted_def ring_contents_def)

definition basis_wf :: "nat \<Rightarrow> basisWindow \<Rightarrow> bool" where
  "basis_wf n w \<longleftrightarrow> bw_cap w = n \<and> ring_wf (bw_obs w) (bw_idx w) n"

text \<open>The observations of one pair in a run.\<close>

definition basis_history :: "string \<Rightarrow> string \<Rightarrow> Quote list \<Rightarrow> basisObs list" where
  "basis_history sy v qs =
     map basis_obs (filter (\<lambda>q. 0 < q_Mark q \<and> 0 < q_Index q \<and> q_Symbol q = sy \<and> q_Venue q = v) qs)"

definition basis_inv :: "BasisTracker \<Rightarrow> Quote list \<Rightarrow> bool" where
  "basis_inv bt qs \<longleftrightarrow> 0 < bt_windowSize bt \<and> (\<forall>sy v.
     case map_of (basis_venues sy bt) v of
       None \<Rightarrow> basis_history sy v qs = []
     | Some w \<Rightarrow> basis_wf (bt_windowSize bt) w \<and>
         basis_sorted w = keep_last (bt_windowSize bt) (basis_history sy v qs))"

lemma basis_inv_step:
  assumes "basis_inv bt qs"
  shows "basis_inv (BasisRecordQuote q bt) (qs @ [q])"
proof (cases "q_Mark q \<le> 0 \<or> q_Index q \<le> 0")
  case True
  then have "basis_history sy v (qs @ [q]) = basis_history sy v qs" for sy v by (auto simp: basis_history_def)
  moreover have "BasisRecordQuote q bt = bt" using True by (simp add: BasisRecordQuote_def)
  ultimately show ?thesis using assms by (simp add: basis_inv_def cong: option.case_cong)
next
  case False
  let ?n = "bt_windowSize bt"
  have inv: "case map_of (basis_venues sy bt) v of None \<Rightarrow> basis_history sy v qs = []
     | Some w \<Rightarrow> basis_wf ?n w \<and> basis_sorted w = keep_last ?n (basis_history sy v qs)" for sy v
    using assms unfolding basis_inv_def by blast
  let ?w = "case map_of (basis_venues (q_Symbol q) bt) (q_Venue q) of None \<Rightarrow> empty_basis ?n | Some w \<Rightarrow> w"
  have w: "basis_wf ?n ?w \<and> basis_sorted ?w = keep_last ?n (basis_history (q_Symbol q) (q_Venue q) qs)"
  proof (cases "map_of (basis_venues (q_Symbol q) bt) (q_Venue q)")
    case None
    then have "basis_history (q_Symbol q) (q_Venue q) qs = []" "0 < ?n"
      using assms inv [of "q_Symbol q" "q_Venue q"] by (simp_all add: basis_inv_def)
    with None show ?thesis
      by (simp add: basis_wf_def empty_basis_def ring_wf_empty basis_sorted_ring keep_last_def)
  next
    case (Some w)
    then show ?thesis using inv [of "q_Symbol q" "q_Venue q"] by simp
  qed
  have h: "basis_history sy v (qs @ [q]) =
      (if q_Symbol q = sy \<and> q_Venue q = v then basis_history sy v qs @ [basis_obs q] else basis_history sy v qs)" for sy v
    using False by (auto simp: basis_history_def)
  have p: "basis_wf ?n (basis_push (basis_obs q) ?w)"
    "basis_sorted (basis_push (basis_obs q) ?w) = keep_last ?n (basis_history (q_Symbol q) (q_Venue q) qs @ [basis_obs q])"
    using w basis_ring.push_wf [of ?w "basis_obs q"] basis_ring.push_contents [of ?w "basis_obs q"]
    by (auto simp: basis_wf_def basis_sorted_ring basis_ring.cap_push keep_last_append)
  have v: "map_of (basis_venues sy (BasisRecordQuote q bt)) v =
      (if q_Symbol q = sy \<and> q_Venue q = v then Some (basis_push (basis_obs q) ?w) else map_of (basis_venues sy bt) v)" for sy v
    using False by (simp add: BasisRecordQuote_def basis_venues_def Let_def update_conv')
  have n: "bt_windowSize (BasisRecordQuote q bt) = ?n" by (simp add: BasisRecordQuote_def Let_def)
  show ?thesis
    using assms p unfolding basis_inv_def n v h by (auto split: option.splits)
qed

lemma basis_inv_run: "basis_inv (foldl (\<lambda>bt q. BasisRecordQuote q bt) (NewBasisTracker n) qs) qs"
proof (induction qs rule: rev_induct)
  case Nil
  show ?case by (simp add: basis_inv_def NewBasisTracker_def basis_venues_def basis_history_def)
next
  case (snoc q qs)
  then show ?case using basis_inv_step by simp
qed

lemma basis_run_size: "bt_windowSize (foldl (\<lambda>bt q. BasisRecordQuote q bt) bt qs) = bt_windowSize bt"
  by (induction qs arbitrary: bt) (simp_all add: BasisRecordQuote_def Let_def)

text \<open>
  After any sequence of quotes the snapshot of a pair is that of the last observations with a
  positive mark and index, at most the window, and there is none below 20 of them.
\<close>

lemma basis_snapshot_is_of_the_last_observations:
  "BasisSnap sy v (foldl (\<lambda>bt q. BasisRecordQuote q bt) (NewBasisTracker n) qs) =
     snapshot_of sy v (keep_last (if n < 10 then 200 else nat n) (basis_history sy v qs))"
proof -
  let ?bt = "foldl (\<lambda>bt q. BasisRecordQuote q bt) (NewBasisTracker n) qs"
  have s: "bt_windowSize ?bt = (if n < 10 then 200 else nat n)" by (simp add: basis_run_size NewBasisTracker_def)
  have inv: "case map_of (basis_venues sy ?bt) v of None \<Rightarrow> basis_history sy v qs = []
     | Some w \<Rightarrow> basis_wf (bt_windowSize ?bt) w \<and> basis_sorted w = keep_last (bt_windowSize ?bt) (basis_history sy v qs)"
    using basis_inv_run [of n qs] unfolding basis_inv_def by blast
  have c: "basis_count w = length (basis_sorted w)" if "basis_wf k w" for k w
    using that by (auto simp: basis_count_def basis_sorted_def basis_wf_def ring_wf_def)
  have "BasisSnap sy v ?bt = (case map_of (basis_venues sy ?bt) v of None \<Rightarrow> None
     | Some w \<Rightarrow> (if basis_count w < 20 then None else snapshot_of sy v (basis_sorted w)))"
    by (simp add: BasisSnap_def basis_venues_def split: option.split)
  also have "\<dots> = snapshot_of sy v (keep_last (bt_windowSize ?bt) (basis_history sy v qs))"
    using inv c by (auto simp: snapshot_of_def keep_last_def split: option.splits)
  finally show ?thesis unfolding s .
qed

lemma basis_intent_simps [simp]:
  "key_of (basis_intent cfg tenantID uuid now snap) = ''basis:'' @ bs_Symbol snap @ '':'' @ bs_Venue snap"
  "ti_Symbol (basis_intent cfg tenantID uuid now snap) = bs_Symbol snap"
  "ti_ExpiresMs (basis_intent cfg tenantID uuid now snap) = now + bc_IntentTTLMs cfg"
  by (simp_all add: basis_intent_def Let_def plain_intent_def)

definition basis_ok :: "BasisConfig \<Rightarrow> string \<Rightarrow> int64 \<Rightarrow> BasisTracker \<Rightarrow> TradeIntent \<Rightarrow> bool" where
  "basis_ok cfg tenantID now bt i \<longleftrightarrow> (\<exists>sy v snap uuid. BasisSnap sy v bt = Some snap \<and>
     bc_MinBasisBps cfg \<le> bs_CurrentBps snap \<and> bc_MinZScore cfg \<le> bs_ZScore snap \<and>
     i = basis_intent cfg tenantID uuid now snap)"

lemma offered_basis:
  "offered now (basis_ok cfg tenantID now bt) (gate, []) (EvaluateBasisTrades cfg tenantID now rnd bt gate)"
  unfolding EvaluateBasisTrades_def consider_basis_def
  by (intro offered_intros) (auto simp: basis_ok_def not_less)

lemma snapshot_of_SomeD:
  "snapshot_of sy v obs = Some snap \<Longrightarrow> 20 \<le> length obs \<and> bs_Symbol snap = sy \<and> bs_Venue snap = v \<and>
     bs_CurrentBps snap = bo_basisBps (List.last obs) \<and> bs_ZScore snap = basis_zScore obs"
  by (auto simp: snapshot_of_def Let_def split: if_splits)

text \<open>
  C38.  Every basis intent buys spot and sells the perpetual of one venue for the same notional, and
  the last observation of that venue is above the minimum basis and far enough above the mean of
  the window of at least 20 observations.
\<close>

theorem basis_intents_are_hedged_and_elevated:
  assumes "i \<in> set (snd (EvaluateBasisTrades cfg tenantID now rnd
      (foldl (\<lambda>bt q. BasisRecordQuote q bt) (NewBasisTracker n) qs) gate))"
  shows "\<exists>v obs. obs = keep_last (if n < 10 then 200 else nat n) (basis_history (ti_Symbol i) v qs) \<and> 20 \<le> length obs \<and>
    bc_MinBasisBps cfg \<le> bo_basisBps (List.last obs) \<and> bc_MinZScore cfg \<le> basis_zScore obs \<and>
    ti_ExpiresMs i = now + bc_IntentTTLMs cfg \<and>
    map (\<lambda>l. (tl_Venue l, tl_Action l, tl_Market l, tl_NotionalUSD l)) (ti_Legs i) =
      [(v, ''BUY'', ''SPOT'', bc_MaxNotionalUSD cfg), (v, ''SELL'', ''PERP'', bc_MaxNotionalUSD cfg)]"
proof -
  let ?bt = "foldl (\<lambda>bt q. BasisRecordQuote q bt) (NewBasisTracker n) qs"
  have "basis_ok cfg tenantID now ?bt i"
    using offered_basis [of now cfg tenantID ?bt gate rnd] assms by (cases "EvaluateBasisTrades cfg tenantID now rnd ?bt gate") (auto dest: offered_all)
  then obtain sy v snap uuid where s: "BasisSnap sy v ?bt = Some snap" "bc_MinBasisBps cfg \<le> bs_CurrentBps snap"
    "bc_MinZScore cfg \<le> bs_ZScore snap" "i = basis_intent cfg tenantID uuid now snap"
    unfolding basis_ok_def by blast
  have "snapshot_of sy v (keep_last (if n < 10 then 200 else nat n) (basis_history sy v qs)) = Some snap"
    using s(1) unfolding basis_snapshot_is_of_the_last_observations .
  from snapshot_of_SomeD [OF this] s show ?thesis
    by (intro exI [of _ v] exI [of _ "keep_last (if n < 10 then 200 else nat n) (basis_history sy v qs)"])
       (auto simp: basis_intent_def Let_def plain_intent_def)
qed

section \<open>Cascades\<close>

interpretation cascade_ring: counted_ring cs_priceBuf cs_bufIdx cs_bufCap cascade_push
  by unfold_locales (simp_all add: cascade_push_def)

definition newest_first :: "cascadeState \<Rightarrow> cascadeObs list" where
  "newest_first cs = map (\<lambda>i. cs_priceBuf cs ! ((cs_bufIdx cs - 1 - i) mod cs_bufCap cs)) [0..<min (cs_bufCap cs) (cs_bufIdx cs)]"

lemma newest_first_holds:
  assumes "holds (cs_priceBuf cs) (cs_bufIdx cs) (cs_bufCap cs) h"
  shows "newest_first cs = take (cs_bufCap cs) (rev h)"
  using assms by (intro nth_equalityI) (auto simp: newest_first_def holds_def)

text \<open>The scan is a fold over the observations of the window.\<close>

definition widen :: "cascadeObs option \<times> cascadeObs \<Rightarrow> cascadeObs \<Rightarrow> cascadeObs option \<times> cascadeObs" where
  "widen st x =
     ((case fst st of None \<Rightarrow> Some x | Some oldest \<Rightarrow> Some (if co_tsMs x < co_tsMs oldest then x else oldest)),
      (if co_tsMs (snd st) < co_tsMs x then x else snd st))"

lemma scan_window_fold:
  "scan_window cs cutoff js st =
     foldl widen st (takeWhile (\<lambda>x. co_tsMs x \<noteq> 0 \<and> cutoff \<le> co_tsMs x)
       (map (\<lambda>i. cs_priceBuf cs ! ((cs_bufIdx cs - 1 - i) mod cs_bufCap cs)) js))"
  by (induction js arbitrary: st) (auto simp: Let_def widen_def)

lemma scan_newest_first:
  "scan_window cs cutoff [0..<min (cs_bufCap cs) (cs_bufIdx cs)] st =
     foldl widen st (takeWhile (\<lambda>x. co_tsMs x \<noteq> 0 \<and> cutoff \<le> co_tsMs x) (newest_first cs))"
  unfolding scan_window_fold newest_first_def ..

lemma widen_older: "co_tsMs x \<le> co_tsMs n \<Longrightarrow> co_tsMs x < co_tsMs o' \<Longrightarrow> widen (Some o', n) x = (Some x, n)"
  by (simp add: widen_def)

lemma widen_decreasing:
  assumes "sorted_wrt (\<lambda>x y. co_tsMs y < co_tsMs x) (x # xs)" "co_tsMs x \<le> co_tsMs n"
    "co_tsMs x < co_tsMs o'"
  shows "foldl widen (Some o', n) (x # xs) = (Some (List.last (x # xs)), n)"
  using assms
proof (induction xs arbitrary: x o')
  case Nil
  then show ?case by (simp add: widen_older)
next
  case (Cons y ys)
  then have "foldl widen (Some x, n) (y # ys) = (Some (List.last (y # ys)), n)" by (intro Cons.IH) auto
  then show ?case using Cons.prems by (simp add: widen_older)
qed

text \<open>
  With observations in the order of their times, the move is that from the oldest observation of
  the window among the last 60 to the newest one, and its direction is the sign.
\<close>

lemma priceMove_over_the_window:
  assumes "holds (cs_priceBuf cs) (cs_bufIdx cs) (cs_bufCap cs) h"
    and "sorted_wrt (\<lambda>x y. co_tsMs x < co_tsMs y) h" "\<forall>x\<in>set h. 0 < co_tsMs x \<and> 0 < co_mid x"
    and "w = takeWhile (\<lambda>x. now - window \<le> co_tsMs x) (take (cs_bufCap cs) (rev h))"
  shows "priceMove cs now window =
    (if w = [] then (0, '''')
     else (let m = (co_mid (hd w) - co_mid (List.last w)) / co_mid (List.last w) * 10000
           in (\<bar>m\<bar>, if 0 < m then ''UP'' else ''DOWN'')))"
proof -
  have sub: "set w \<subseteq> set h" unfolding assms(4) by (auto dest!: set_takeWhileD in_set_takeD)
  have tw: "takeWhile (\<lambda>x. co_tsMs x \<noteq> 0 \<and> now - window \<le> co_tsMs x) (newest_first cs) = w"
    unfolding newest_first_holds [OF assms(1)] assms(4)
    by (rule takeWhile_cong) (use assms(3) in \<open>fastforce dest!: in_set_takeD\<close>)+
  have "sorted_wrt (\<lambda>x y. co_tsMs y < co_tsMs x) (rev h)" using assms(2) by (simp add: sorted_wrt_rev)
  then have dec: "sorted_wrt (\<lambda>x y. co_tsMs y < co_tsMs x) w"
    unfolding assms(4) by (intro sorted_wrt_takeWhile sorted_wrt_take)
  have scan: "scan_window cs (now - window) [0..<min (cs_bufCap cs) (cs_bufIdx cs)] (None, no_obs) = foldl widen (None, no_obs) w"
    unfolding scan_newest_first tw ..
  show ?thesis
  proof (cases w)
    case Nil
    then show ?thesis unfolding priceMove_def scan by simp
  next
    case (Cons x xs)
    have x: "0 < co_tsMs x" using sub assms(3) Cons by auto
    have "foldl widen (Some x, x) xs = (Some (List.last (x # xs)), x)"
    proof (cases xs)
      case Nil
      then show ?thesis by simp
    next
      case (Cons y ys)
      then show ?thesis using dec \<open>w = x # xs\<close> by (simp del: foldl.simps add: widen_decreasing)
    qed
    then have f: "foldl widen (None, no_obs) w = (Some (List.last w), hd w)"
      using Cons x by (simp add: widen_def no_obs_def)
    have "List.last w \<in> set h" "hd w \<in> set h" using sub Cons last_in_set [of w] by auto
    then have "0 < co_mid (List.last w)" "0 < co_mid (hd w)" using assms(3) by auto
    then show ?thesis unfolding priceMove_def scan f using Cons by (simp add: Let_def)
  qed
qed

lemma timeless_priceMove:
  "\<forall>x\<in>set (newest_first cs). co_tsMs x = 0 \<Longrightarrow> priceMove cs now window = (0, '''')"
  unfolding priceMove_def scan_newest_first by (cases "newest_first cs") simp_all

text \<open>The gates of a cascade intent, and that it trades against the move.\<close>

definition cascade_ok :: "CascadeConfig \<Rightarrow> string \<Rightarrow> int64 \<Rightarrow> CascadeDetector \<Rightarrow> TradeIntent \<Rightarrow> bool" where
  "cascade_ok cfg tenantID now cd i \<longleftrightarrow> (\<exists>key cs venue symbol move direction uuid. (key, cs) \<in> set (ca_states cd) \<and>
     splitKey key = (venue, symbol) \<and> priceMove cs now (cc_WindowMs cfg) = (move, direction) \<and>
     cc_PriceMoveBps cfg \<le> move \<and> ca_oiPrev cd (venue @ '':'' @ symbol) \<noteq> None \<and> 0 < latestMid cs \<and>
     cc_CooldownMs cfg \<le> now - cs_lastEmitMs cs \<and>
     i = cascade_intent cfg tenantID uuid now venue symbol move direction (latestMid cs))"

lemma consider_cascade_offers:
  "(key, cs) \<in> set (ca_states cd) \<Longrightarrow>
     offered now (cascade_ok cfg tenantID now cd) (snd st) (snd (consider_cascade cfg tenantID now rnd (ca_oiPrev cd) st (key, cs)))"
  unfolding consider_cascade_def
  by (cases st; cases "splitKey key"; cases "priceMove cs now (cc_WindowMs cfg)")
     (auto simp: Let_def cascade_ok_def not_le not_less intro!: offered_intros, metis)

lemma consider_cascades_offer:
  "set kcs \<subseteq> set (ca_states cd) \<Longrightarrow>
     offered now (cascade_ok cfg tenantID now cd) (snd st) (snd (foldl (consider_cascade cfg tenantID now rnd (ca_oiPrev cd)) st kcs))"
proof (induction kcs arbitrary: st)
  case Nil
  show ?case by (simp add: offered_refl)
next
  case (Cons kc kcs)
  obtain key cs where kc: "kc = (key, cs)" by (cases kc)
  have "offered now (cascade_ok cfg tenantID now cd) (snd st) (snd (consider_cascade cfg tenantID now rnd (ca_oiPrev cd) st kc))"
    using Cons.prems unfolding kc by (intro consider_cascade_offers) simp
  from offered_trans [OF this Cons.IH] Cons.prems show ?case by simp
qed

lemma offered_cascade:
  "offered now (cascade_ok cfg tenantID now cd) (gate, []) (snd (CascadeEvaluate cfg tenantID now rnd cd gate))"
  unfolding CascadeEvaluate_def
  using consider_cascades_offer [of "ca_states cd" cd now cfg tenantID "([], (gate, []))" rnd]
  by (auto simp: case_prod_beta offered_refl)

lemma cascade_fades_the_move:
  "cascade_ok cfg tenantID now cd i \<Longrightarrow> \<exists>cs move direction. priceMove cs now (cc_WindowMs cfg) = (move, direction) \<and>
     cc_PriceMoveBps cfg \<le> move \<and> map tl_Action (ti_Legs i) = [if direction = ''UP'' then ''SELL'' else ''BUY'']"
  unfolding cascade_ok_def by (elim exE conjE, intro exI conjI) (assumption, assumption, simp add: cascade_intent_def Let_def)

section \<open>Related assets, flow and decentralised exchanges\<close>

definition cross_asset_ok :: "CrossAssetConfig \<Rightarrow> string \<Rightarrow> int64 \<Rightarrow> CrossAssetDetector \<Rightarrow> TradeIntent \<Rightarrow> bool" where
  "cross_asset_ok cfg tenantID now m i \<longleftrightarrow> (\<exists>pair long short uuid. pair \<in> set (xa_Pairs cfg) \<and>
     m (xp_LongAsset pair @ '':'' @ xp_LongVenue pair) = Some long \<and> m (xp_ShortAsset pair @ '':'' @ xp_ShortVenue pair) = Some short \<and>
     now - as_tsMs long \<le> 5000 \<and> now - as_tsMs short \<le> 5000 \<and> xa_MinEdgeBps cfg \<le> \<bar>divergence_of pair long short\<bar> \<and>
     i = cross_asset_intent cfg tenantID uuid now pair long short)"

lemma offered_cross_asset:
  "offered now (cross_asset_ok cfg tenantID now m) (gate, []) (CrossAssetEvaluate cfg tenantID now rnd m gate)"
  unfolding CrossAssetEvaluate_def consider_cross_asset_def prod.case
  by (intro offered_intros) (auto simp: cross_asset_ok_def not_less intro!: exI)

text \<open>A convergence trade sells the asset that is rich by the fair spread and buys the other for the same notional.\<close>

lemma cross_asset_converges:
  assumes "i \<in> set (snd (CrossAssetEvaluate cfg tenantID now rnd m gate))"
  shows "\<exists>pair long short. pair \<in> set (xa_Pairs cfg) \<and> xa_MinEdgeBps cfg \<le> \<bar>divergence_of pair long short\<bar> \<and>
    map (\<lambda>l. (tl_Venue l, tl_Action l, tl_NotionalUSD l)) (ti_Legs i) =
      (if 0 < divergence_of pair long short
       then [(xp_ShortVenue pair, ''BUY'', xa_NotionalUSD cfg), (xp_LongVenue pair, ''SELL'', xa_NotionalUSD cfg)]
       else [(xp_LongVenue pair, ''BUY'', xa_NotionalUSD cfg), (xp_ShortVenue pair, ''SELL'', xa_NotionalUSD cfg)])"
proof -
  have "cross_asset_ok cfg tenantID now m i"
    using offered_cross_asset [of now cfg tenantID m gate rnd] assms
    by (cases "CrossAssetEvaluate cfg tenantID now rnd m gate") (auto dest: offered_all)
  then show ?thesis
    unfolding cross_asset_ok_def
    by (elim exE conjE, intro exI conjI) (assumption, assumption, simp add: cross_asset_intent_def Let_def)
qed

definition mirror_ok :: "MirrorConfig \<Rightarrow> string \<Rightarrow> int64 \<Rightarrow> LiquidityMirror \<Rightarrow> TradeIntent \<Rightarrow> bool" where
  "mirror_ok cfg tenantID now lm i \<longleftrightarrow> (\<exists>symbol flow uuid. now - wf_TsMs flow \<le> mc_MaxDelayMs cfg \<and>
     mc_MinFlowSizeUSD cfg \<le> wf_SizeUSD flow \<and> mc_MinEdgeBps cfg \<le> mirror_edge lm symbol flow \<and>
     100 \<le> mirror_size cfg flow \<and> i = mirror_intent cfg tenantID uuid now symbol flow (mirror_edge lm symbol flow))"

lemma offered_mirror:
  "offered now (mirror_ok cfg tenantID now lm) (gate, []) (MirrorEvaluate cfg tenantID now rnd lm gate)"
  unfolding MirrorEvaluate_def consider_flow_def case_prod_beta Let_def
  by (intro offered_intros) (auto simp: mirror_ok_def not_less intro!: exI)

lemma mirror_notional_is_capped:
  "mirror_ok cfg tenantID now lm i \<Longrightarrow> \<forall>l\<in>set (ti_Legs i). 100 \<le> tl_NotionalUSD l \<and> tl_NotionalUSD l \<le> mc_NotionalUSD cfg"
  by (auto simp: mirror_ok_def mirror_intent_def mirror_size_def Let_def)

definition dexcex_ok :: "DEXCEXConfig \<Rightarrow> TradeIntent \<Rightarrow> bool" where
  "dexcex_ok cfg i \<longleftrightarrow> dc_MinEdgeBps cfg \<le> em_EdgeBpsGross (ti_Expected i) \<and> length (ti_Legs i) = 2 \<and>
     (\<forall>l\<in>set (ti_Legs i). tl_NotionalUSD l = dc_MaxNotionalUSD cfg)"

lemma offered_dex:
  "length legs = 2 \<Longrightarrow> \<forall>l\<in>set legs. tl_NotionalUSD l = dc_MaxNotionalUSD cfg \<Longrightarrow>
     offered now (dexcex_ok cfg) st (offer_dex cfg tenantID now rnd symbol legs edge key st)"
  unfolding offer_dex_def
  by (intro offered_intros) (simp_all add: dexcex_ok_def dexcex_intent_def edge_metrics_def plain_intent_def)

lemma offered_token: "offered now (dexcex_ok cfg) st (consider_token setString cfg tenantID now rnd router snapshot st sa)"
proof -
  have two: "offered now (dexcex_ok cfg) st
      (offer_dex cfg tenantID now rnd sy [cex_leg cfg v1 a1 l1, swap_leg cfg p1 b1] e1 k1 st)" for st sy v1 a1 l1 p1 b1 e1 k1
    by (rule offered_dex) (simp_all add: cex_leg_def swap_leg_def)
  have two': "offered now (dexcex_ok cfg) st
      (offer_dex cfg tenantID now rnd sy [swap_leg cfg p1 b1, cex_leg cfg v1 a1 l1] e1 k1 st)" for st sy v1 a1 l1 p1 b1 e1 k1
    by (rule offered_dex) (simp_all add: cex_leg_def swap_leg_def)
  show ?thesis
    unfolding consider_token_def Let_def
    by (auto split: prod.split option.split sum.split intro: offered_refl offered_trans [OF two two'])
qed

lemma offered_dexcex:
  "offered now (dexcex_ok cfg) (gate, []) (EvaluateDEXCEX setString cfg tenantID now rnd dt gate)"
  unfolding EvaluateDEXCEX_def by (intro offered_intros offered_token)

text \<open>Prices older than ten seconds are not used, so without times there is no best price.\<close>

lemma stale_best_prices:
  "\<forall>(k, p)\<in>set prices. 10000 < now - cx_tsMs p \<Longrightarrow> best_prices symbol now prices = ((no_price, ''''), (no_price, ''''))"
  unfolding best_prices_def by (induction prices rule: rev_induct) (auto simp: better_price_def Let_def case_prod_beta)

lemma stale_dexcex:
  assumes "\<forall>(k, p)\<in>set (dt_prices dt). 10000 < now - cx_tsMs p"
  shows "EvaluateDEXCEX setString cfg tenantID now rnd dt gate = (gate, [])"
proof -
  have "foldl (consider_token setString cfg tenantID now rnd router (dt_prices dt)) st xs = st" for router st xs
    by (induction xs arbitrary: st) (auto simp: consider_token_def stale_best_prices [OF assms] no_price_def split: prod.split)
  then show ?thesis by (simp add: EvaluateDEXCEX_def split: option.split)
qed

section \<open>A concrete basis\<close>

definition basis_quote :: "float64 \<Rightarrow> Quote" where
  "basis_quote mark =
     \<lparr>q_SchemaVersion = 1, q_TenantID = ''t'', q_Venue = ''okx'', q_Symbol = ''BTC-PERP'', q_TsMs = 1, q_BestBid = 100,
      q_BestAsk = 100, q_Mark = mark, q_Index = 100, q_BidDepth1Pct = 0, q_AskDepth1Pct = 0, q_Orderbook = None,
      q_FeeBpsTaker = 0, q_FundingRate = 0, q_FeedHealth = \<lparr>fh_WsConnected = True, fh_LastMsgTsMs = 0\<rparr>\<rparr>"

definition rising_basis :: "Quote list" where
  "rising_basis = replicate 19 (basis_quote 100) @ [basis_quote 101]"

definition basis_config :: BasisConfig where
  "basis_config = \<lparr>bc_MinBasisBps = 50, bc_MinZScore = 1, bc_MaxNotionalUSD = 1000, bc_MaxSlippageBps = 5,
     bc_IntentTTLMs = 400, bc_CooldownMs = 1000\<rparr>"

lemma one_pair_step:
  "bt_basisHistory bt = [(''BTC-PERP'', [(''okx'', w)])] \<Longrightarrow> 0 < x \<Longrightarrow>
     \<exists>w. bt_basisHistory (BasisRecordQuote (basis_quote x) bt) = [(''BTC-PERP'', [(''okx'', w)])]"
  by (simp add: BasisRecordQuote_def basis_venues_def Let_def basis_quote_def)

lemma one_pair_history:
  "xs \<noteq> [] \<Longrightarrow> \<forall>x\<in>set xs. 0 < x \<Longrightarrow>
     \<exists>w. bt_basisHistory (foldl (\<lambda>bt q. BasisRecordQuote q bt) (NewBasisTracker n) (map basis_quote xs)) = [(''BTC-PERP'', [(''okx'', w)])]"
proof (induction xs rule: rev_nonempty_induct)
  case (single x)
  then show ?case by (simp add: BasisRecordQuote_def basis_venues_def Let_def basis_quote_def NewBasisTracker_def)
next
  case (snoc x xs)
  then obtain w where "bt_basisHistory (foldl (\<lambda>bt q. BasisRecordQuote q bt) (NewBasisTracker n) (map basis_quote xs)) = [(''BTC-PERP'', [(''okx'', w)])]"
    by auto
  with snoc.prems show ?case using one_pair_step by simp
qed

lemma rising_history:
  "basis_history ''BTC-PERP'' ''okx'' rising_basis = replicate 19 (basis_obs (basis_quote 100)) @ [basis_obs (basis_quote 101)]"
  by (simp add: basis_history_def rising_basis_def basis_quote_def)

lemma rising_zScore: "1 \<le> basis_zScore (basis_history ''BTC-PERP'' ''okx'' rising_basis)"
proof -
  let ?obs = "basis_history ''BTC-PERP'' ''okx'' rising_basis"
  have m: "basis_mean ?obs = 5"
    unfolding rising_history by (simp add: basis_mean_def basis_obs_def basis_quote_def sum_list_replicate)
  have "sqrt 475 \<le> (95 :: real)" by (rule real_le_lsqrt) simp_all
  moreover have "basis_stdDev ?obs = sqrt 475"
    unfolding basis_stdDev_def m unfolding rising_history by (simp add: basis_obs_def basis_quote_def sum_list_replicate Let_def)
  moreover have "bo_basisBps (List.last ?obs) = 100"
    unfolding rising_history by (simp add: basis_obs_def basis_quote_def)
  ultimately show ?thesis unfolding basis_zScore_def m by (simp add: le_divide_eq)
qed

lemma rising_emits:
  assumes "\<not> cooling gate ''basis:BTC-PERP:okx'' now"
  obtains i where
    "EvaluateBasisTrades basis_config ''t'' now rnd (foldl (\<lambda>bt q. BasisRecordQuote q bt) (NewBasisTracker 100) rising_basis) gate =
      (map_option (\<lambda>c. Mark c (key_of i) now) gate, [i])" "key_of i = ''basis:BTC-PERP:okx''"
proof -
  let ?bt = "foldl (\<lambda>bt q. BasisRecordQuote q bt) (NewBasisTracker 100) rising_basis"
  let ?obs = "basis_history ''BTC-PERP'' ''okx'' rising_basis"
  have "rising_basis = map basis_quote (replicate 19 100 @ [101])" by (simp add: rising_basis_def map_replicate_const)
  then obtain w where h: "bt_basisHistory ?bt = [(''BTC-PERP'', [(''okx'', w)])]"
    using one_pair_history [of "replicate 19 100 @ [101]" 100] by auto
  have o20: "length ?obs = 20" "bo_basisBps (List.last ?obs) = 100"
    unfolding rising_history by (simp_all add: basis_obs_def basis_quote_def)
  have b: "BasisSnap ''BTC-PERP'' ''okx'' ?bt = snapshot_of ''BTC-PERP'' ''okx'' ?obs"
    unfolding basis_snapshot_is_of_the_last_observations using o20 by (simp add: keep_last_def)
  obtain snap where sn: "snapshot_of ''BTC-PERP'' ''okx'' ?obs = Some snap" using o20 by (simp add: snapshot_of_def Let_def)
  have s: "BasisSnap ''BTC-PERP'' ''okx'' ?bt = Some snap" "50 \<le> bs_CurrentBps snap" "1 \<le> bs_ZScore snap"
    using snapshot_of_SomeD [OF sn] b sn rising_zScore o20 by simp_all
  have k: "key_of (basis_intent basis_config ''t'' uuid now snap) = ''basis:BTC-PERP:okx''" for uuid
    using snapshot_of_SomeD [OF sn] by (simp add: basis_intent_def Let_def plain_intent_def)
  have c: "bc_MinBasisBps basis_config = 50" "bc_MinZScore basis_config = 1" by (simp_all add: basis_config_def)
  show thesis
    by (rule that [OF _ k [of "newUUID (rnd 0)"]])
       (use assms s snapshot_of_SomeD [OF sn] in \<open>simp add: EvaluateBasisTrades_def h consider_basis_def c offer_def k\<close>)
qed

theorem basis_intents_are_hedged_and_elevated_witness:
  "\<exists>i. i \<in> set (snd (EvaluateBasisTrades basis_config ''t'' 5 (\<lambda>_. replicate 16 0)
      (foldl (\<lambda>bt q. BasisRecordQuote q bt) (NewBasisTracker 100) rising_basis) None)) \<and>
    map (\<lambda>l. (tl_Action l, tl_Market l, tl_NotionalUSD l)) (ti_Legs i) = [(''BUY'', ''SPOT'', 1000), (''SELL'', ''PERP'', 1000)]"
proof -
  let ?bt = "foldl (\<lambda>bt q. BasisRecordQuote q bt) (NewBasisTracker 100) rising_basis"
  have "\<not> cooling None ''basis:BTC-PERP:okx'' 5" by (simp add: cooling_def)
  then obtain i where "EvaluateBasisTrades basis_config ''t'' 5 (\<lambda>_. replicate 16 0) ?bt None = (None, [i])"
    by (rule rising_emits [of None 5 "\<lambda>_. replicate 16 0"]) simp
  then have i: "i \<in> set (snd (EvaluateBasisTrades basis_config ''t'' 5 (\<lambda>_. replicate 16 0) ?bt None))" by simp
  obtain v where v: "map (\<lambda>l. (tl_Venue l, tl_Action l, tl_Market l, tl_NotionalUSD l)) (ti_Legs i) =
      [(v, ''BUY'', ''SPOT'', bc_MaxNotionalUSD basis_config), (v, ''SELL'', ''PERP'', bc_MaxNotionalUSD basis_config)]"
    using basis_intents_are_hedged_and_elevated [OF i] by (elim exE conjE) (rule that)
  have "map (\<lambda>l. (tl_Action l, tl_Market l, tl_NotionalUSD l)) (ti_Legs i) = [(''BUY'', ''SPOT'', 1000), (''SELL'', ''PERP'', 1000)]"
    using arg_cong [OF v, of "map snd"] by (simp add: comp_def basis_config_def)
  with i show ?thesis by (intro exI conjI)
qed

end
