(* ===== verification/Sample_Sums.thy ===== *)
theory Sample_Sums
  imports Prelude
begin

text \<open>
  Sums over lists that several components share: the variance by the sum of squares, the sums of a
  linear regression, and the inequality that bounds a correlation.
\<close>

definition sum_of :: "('a \<Rightarrow> real) \<Rightarrow> 'a list \<Rightarrow> real" where
  "sum_of f xs = sum_list (map f xs)"

lemma sum_of_simps [simp]: "sum_of f [] = 0" "sum_of f (x # xs) = f x + sum_of f xs"
  by (simp_all add: sum_of_def)

lemma sum_of_add: "sum_of (\<lambda>x. f x + g x) xs = sum_of f xs + sum_of g xs"
  by (induction xs) simp_all

lemma sum_of_diff: "sum_of (\<lambda>x. f x - g x) xs = sum_of f xs - sum_of g xs"
  by (induction xs) simp_all

lemma sum_of_cmult: "sum_of (\<lambda>x. c * f x) xs = c * sum_of f xs"
  by (induction xs) (simp_all add: algebra_simps)

lemma sum_of_const: "sum_of (\<lambda>_. c) xs = real (length xs) * c"
  by (induction xs) (simp_all add: algebra_simps)

lemma sum_of_nonneg: "(\<And>x. x \<in> set xs \<Longrightarrow> 0 \<le> f x) \<Longrightarrow> 0 \<le> sum_of f xs"
  by (simp add: sum_of_def sum_list_map_nonneg)

lemma sum_of_cong: "(\<And>x. x \<in> set xs \<Longrightarrow> f x = g x) \<Longrightarrow> sum_of f xs = sum_of g xs"
  by (induction xs) simp_all

definition list_mean :: "('a \<Rightarrow> real) \<Rightarrow> 'a list \<Rightarrow> real" where
  "list_mean f xs = sum_of f xs / real (length xs)"

lemma list_mean_length: "xs \<noteq> [] \<Longrightarrow> real (length xs) * list_mean f xs = sum_of f xs"
  by (simp add: list_mean_def)

lemma list_mean_bounds:
  assumes "xs \<noteq> []" "\<And>x. x \<in> set xs \<Longrightarrow> lo \<le> f x \<and> f x \<le> hi"
  shows "lo \<le> list_mean f xs \<and> list_mean f xs \<le> hi"
proof -
  have "0 \<le> sum_of (\<lambda>x. f x - lo) xs" "0 \<le> sum_of (\<lambda>x. hi - f x) xs"
    using assms(2) by (auto intro!: sum_of_nonneg)
  then have "real (length xs) * lo \<le> sum_of f xs" "sum_of f xs \<le> real (length xs) * hi"
    by (simp_all add: sum_of_diff sum_of_const)
  then show ?thesis using assms(1) by (simp add: list_mean_def pos_le_divide_eq pos_divide_le_eq mult.commute)
qed

text \<open>Covariances: the sums of products against the sums of centred products.\<close>

lemma covariance_centred:
  assumes "xs \<noteq> []"
  shows "real (length xs) * sum_of (\<lambda>x. f x * g x) xs - sum_of f xs * sum_of g xs =
    real (length xs) * sum_of (\<lambda>x. (f x - list_mean f xs) * (g x - list_mean g xs)) xs"
proof -
  let ?mf = "list_mean f xs" and ?mg = "list_mean g xs" and ?n = "real (length xs)"
  have "(f x - ?mf) * (g x - ?mg) = f x * g x - ?mg * f x - ?mf * g x + ?mf * ?mg" for x
    by (simp add: algebra_simps)
  then have "sum_of (\<lambda>x. (f x - ?mf) * (g x - ?mg)) xs =
      sum_of (\<lambda>x. f x * g x) xs - ?mg * sum_of f xs - ?mf * sum_of g xs + ?n * (?mf * ?mg)"
    by (simp only: sum_of_add sum_of_diff sum_of_cmult sum_of_const) (simp only: algebra_simps)
  also have "\<dots> = sum_of (\<lambda>x. f x * g x) xs - ?n * ?mf * ?mg"
    using list_mean_length [OF assms, of f] list_mean_length [OF assms, of g] by (simp add: algebra_simps)
  finally have e: "sum_of (\<lambda>x. (f x - ?mf) * (g x - ?mg)) xs = sum_of (\<lambda>x. f x * g x) xs - ?n * ?mf * ?mg" .
  have "?n * sum_of (\<lambda>x. (f x - ?mf) * (g x - ?mg)) xs = ?n * sum_of (\<lambda>x. f x * g x) xs - (?n * ?mf) * (?n * ?mg)"
    unfolding e by (simp only: right_diff_distrib mult_ac)
  then show ?thesis by (simp only: list_mean_length [OF assms])
qed

lemma variance_centred:
  assumes "xs \<noteq> []"
  shows "sum_of (\<lambda>x. f x * f x) xs / real (length xs) - list_mean f xs * list_mean f xs =
    sum_of (\<lambda>x. (f x - list_mean f xs)\<^sup>2) xs / real (length xs)"
proof -
  let ?n = "real (length xs)"
  have n: "0 < ?n" using assms by simp
  have "sum_of (\<lambda>x. f x * f x) xs / ?n - list_mean f xs * list_mean f xs =
      (?n * sum_of (\<lambda>x. f x * f x) xs - sum_of f xs * sum_of f xs) / (?n * ?n)"
    using n by (simp add: list_mean_def field_simps)
  also have "\<dots> = sum_of (\<lambda>x. (f x - list_mean f xs)\<^sup>2) xs / ?n"
    unfolding covariance_centred [OF assms] using n by (simp add: power2_eq_square)
  finally show ?thesis .
qed

lemma cauchy_schwarz_step:
  fixes a b s p q :: real
  assumes "s\<^sup>2 \<le> p * q" "0 \<le> p" "0 \<le> q"
  shows "(a * b + s)\<^sup>2 \<le> (a\<^sup>2 + p) * (b\<^sup>2 + q)"
proof -
  have "(2 * (a * b) * s)\<^sup>2 = 4 * (a * b)\<^sup>2 * s\<^sup>2" by (simp add: power_mult_distrib)
  also have "\<dots> \<le> 4 * (a * b)\<^sup>2 * (p * q)" using assms(1) by (intro mult_left_mono) simp_all
  also have "\<dots> = (a\<^sup>2 * q + b\<^sup>2 * p)\<^sup>2 - (a\<^sup>2 * q - b\<^sup>2 * p)\<^sup>2" by (simp add: power2_eq_square algebra_simps)
  also have "\<dots> \<le> (a\<^sup>2 * q + b\<^sup>2 * p)\<^sup>2" by simp
  finally have "2 * (a * b) * s \<le> a\<^sup>2 * q + b\<^sup>2 * p" by (rule power2_le_imp_le) (use assms(2,3) in simp)
  moreover have "(a * b + s)\<^sup>2 = a\<^sup>2 * b\<^sup>2 + 2 * (a * b) * s + s\<^sup>2" by (simp add: power2_eq_square algebra_simps)
  moreover have "(a\<^sup>2 + p) * (b\<^sup>2 + q) = a\<^sup>2 * b\<^sup>2 + (a\<^sup>2 * q + b\<^sup>2 * p) + p * q" by (simp add: algebra_simps)
  ultimately show ?thesis using assms(1) by linarith
qed

lemma cauchy_schwarz_list: "(sum_of (\<lambda>x. f x * g x) xs)\<^sup>2 \<le> sum_of (\<lambda>x. (f x)\<^sup>2) xs * sum_of (\<lambda>x. (g x)\<^sup>2) xs"
proof (induction xs)
  case (Cons x xs)
  then show ?case by (simp only: sum_of_simps) (intro cauchy_schwarz_step sum_of_nonneg zero_le_power2)
qed simp

lemma correlation_bound:
  "\<bar>real (length xs) * sum_of (\<lambda>x. f x * g x) xs - sum_of f xs * sum_of g xs\<bar> \<le>
     sqrt ((real (length xs) * sum_of (\<lambda>x. f x * f x) xs - sum_of f xs * sum_of f xs) *
           (real (length xs) * sum_of (\<lambda>x. g x * g x) xs - sum_of g xs * sum_of g xs))"
proof (cases "xs = []")
  case True
  then show ?thesis by simp
next
  case False
  let ?n = "real (length xs)" and ?f = "\<lambda>x. f x - list_mean f xs" and ?g = "\<lambda>x. g x - list_mean g xs"
  have "(sum_of (\<lambda>x. ?f x * ?g x) xs)\<^sup>2 \<le> sum_of (\<lambda>x. ?f x * ?f x) xs * sum_of (\<lambda>x. ?g x * ?g x) xs"
    using cauchy_schwarz_list [of ?f ?g xs] by (simp add: power2_eq_square)
  then have "?n\<^sup>2 * (sum_of (\<lambda>x. ?f x * ?g x) xs)\<^sup>2 \<le> ?n\<^sup>2 * (sum_of (\<lambda>x. ?f x * ?f x) xs * sum_of (\<lambda>x. ?g x * ?g x) xs)"
    by (intro mult_left_mono) simp_all
  then have "(?n * sum_of (\<lambda>x. ?f x * ?g x) xs)\<^sup>2 \<le>
      (?n * sum_of (\<lambda>x. ?f x * ?f x) xs) * (?n * sum_of (\<lambda>x. ?g x * ?g x) xs)"
    by (simp add: power2_eq_square algebra_simps)
  then show ?thesis unfolding covariance_centred [OF False] by (intro real_le_rsqrt) simp
qed

lemma variance_sum_nonneg: "0 \<le> real (length xs) * sum_of (\<lambda>x. f x * f x) xs - sum_of f xs * sum_of f xs"
proof (cases "xs = []")
  case False
  show ?thesis unfolding covariance_centred [OF False] by (simp add: sum_of_nonneg)
qed simp

text \<open>Points on a straight line.\<close>

lemma regression_of_a_line:
  assumes "\<And>x. x \<in> set xs \<Longrightarrow> g x = a + b * f x"
  shows "real (length xs) * sum_of (\<lambda>x. f x * g x) xs - sum_of f xs * sum_of g xs =
    b * (real (length xs) * sum_of (\<lambda>x. f x * f x) xs - sum_of f xs * sum_of f xs)"
proof -
  have "sum_of g xs = sum_of (\<lambda>x. a + b * f x) xs" using assms by (rule sum_of_cong)
  then have "sum_of g xs = real (length xs) * a + b * sum_of f xs" by (simp only: sum_of_add sum_of_cmult sum_of_const)
  moreover have "sum_of (\<lambda>x. f x * g x) xs = sum_of (\<lambda>x. a * f x + b * (f x * f x)) xs"
    by (rule sum_of_cong) (simp add: assms algebra_simps)
  then have "sum_of (\<lambda>x. f x * g x) xs = a * sum_of f xs + b * sum_of (\<lambda>x. f x * f x) xs" by (simp only: sum_of_add sum_of_cmult)
  ultimately show ?thesis by (simp add: algebra_simps)
qed

end
