(* ===== verification/Arb_Correlation.thy ===== *)
theory Arb_Correlation
  imports Arb_Strategies Sample_Sums
begin

text \<open>
  internal/arb/correlation.go: pair trades on a break of the correlation of two symbols, from two
  counted ring buffers of mid prices per venue.  The buffers are read with the index arithmetic of
  the code; \<open>holds\<close> relates them to the history of prices.
\<close>

section \<open>Prices\<close>

record corrObs =
  xo_mid :: float64
  xo_tsMs :: int64

record corrPrices =
  cp_primaryObs :: "corrObs list"
  cp_secondaryObs :: "corrObs list"
  cp_pidx :: nat
  cp_sidx :: nat
  cp_pfull :: bool
  cp_sfull :: bool
  cp_cap :: nat

record CorrelationTracker =
  ct_primary :: string
  ct_secondary :: string
  ct_prices :: "(string \<times> corrPrices) list"
  ct_windowSize :: nat

record CorrelationConfig =
  cr_Enabled :: bool
  cr_PrimarySymbol :: string
  cr_SecondarySymbol :: string
  cr_WindowSize :: int
  cr_MinCorrelation :: float64
  cr_BreakThreshold :: float64
  cr_SpreadZScoreMin :: float64
  cr_NotionalUSD :: float64
  cr_MaxSlippageBps :: float64
  cr_IntentTTLMs :: int64
  cr_CooldownMs :: int64

record CorrelationSnapshot =
  cn_Venue :: string
  cn_Correlation :: float64
  cn_SpreadZScore :: float64
  cn_PrimaryMid :: float64
  cn_SecondaryMid :: float64

definition NewCorrelationTracker :: "string \<Rightarrow> string \<Rightarrow> int \<Rightarrow> CorrelationTracker" where
  "NewCorrelationTracker primary secondary windowSize =
     \<lparr>ct_primary = primary, ct_secondary = secondary, ct_prices = [],
      ct_windowSize = (if windowSize < 20 then 100 else nat windowSize)\<rparr>"

definition empty_prices :: "nat \<Rightarrow> corrPrices" where
  "empty_prices n = (let z = replicate n \<lparr>xo_mid = 0, xo_tsMs = 0\<rparr> in
     \<lparr>cp_primaryObs = z, cp_secondaryObs = z, cp_pidx = 0, cp_sidx = 0, cp_pfull = False, cp_sfull = False, cp_cap = n\<rparr>)"

definition push_primary :: "corrObs \<Rightarrow> corrPrices \<Rightarrow> corrPrices" where
  "push_primary x cp =
     (let cp = cp\<lparr>cp_primaryObs := (cp_primaryObs cp)[cp_pidx cp mod cp_cap cp := x], cp_pidx := cp_pidx cp + 1\<rparr>
      in if cp_pidx cp \<ge> cp_cap cp then cp\<lparr>cp_pfull := True\<rparr> else cp)"

definition push_secondary :: "corrObs \<Rightarrow> corrPrices \<Rightarrow> corrPrices" where
  "push_secondary x cp =
     (let cp = cp\<lparr>cp_secondaryObs := (cp_secondaryObs cp)[cp_sidx cp mod cp_cap cp := x], cp_sidx := cp_sidx cp + 1\<rparr>
      in if cp_sidx cp \<ge> cp_cap cp then cp\<lparr>cp_sfull := True\<rparr> else cp)"

definition CorrRecordQuote :: "Quote \<Rightarrow> CorrelationTracker \<Rightarrow> CorrelationTracker" where
  "CorrRecordQuote q ct =
     (let sy = q_Symbol q in
      if sy \<noteq> ct_primary ct \<and> sy \<noteq> ct_secondary ct then ct
      else if q_BestBid q \<le> 0 \<or> q_BestAsk q \<le> 0 then ct
      else
        (let x = \<lparr>xo_mid = (q_BestBid q + q_BestAsk q) / 2, xo_tsMs = q_TsMs q\<rparr>; venue = q_Venue q;
             cp = (case map_of (ct_prices ct) venue of None \<Rightarrow> empty_prices (ct_windowSize ct) | Some cp \<Rightarrow> cp)
         in ct\<lparr>ct_prices := AList.update venue
                (if sy = ct_primary ct then push_primary x cp else push_secondary x cp) (ct_prices ct)\<rparr>))"

section \<open>Statistics\<close>

text \<open>The observation i before the one at the given offset from the write index.\<close>

definition ago :: "corrObs list \<Rightarrow> nat \<Rightarrow> nat \<Rightarrow> nat \<Rightarrow> float64" where
  "ago obs idx cap j = xo_mid (obs ! ((idx + cap + cap - j) mod cap))"

definition logReturns :: "corrObs list \<Rightarrow> nat \<Rightarrow> bool \<Rightarrow> nat \<Rightarrow> nat \<Rightarrow> float64 list" where
  "logReturns obs idx full cap n =
     (let len = (if full then cap else idx) in
      if len < 2 then []
      else concat (map (\<lambda>i.
        let curr = ago obs idx cap (1 + i); prev = ago obs idx cap (2 + i)
        in if curr > 0 \<and> prev > 0 then [ln (curr / prev)] else []) [1..<min n len]))"

text \<open>
  Over the reals: the differences under the root are not negative.  Rounded they can be, for constant
  returns, and the code's result is then NaN (as shown for the same formula in \<open>Parameter_Tuning\<close>).
\<close>

definition pearsonCorrelation :: "float64 list \<Rightarrow> float64 list \<Rightarrow> float64" where
  "pearsonCorrelation x y =
     (let n = length x in
      if n \<noteq> length y \<or> n < 2 then 0
      else
        (let sumX = sum_list x; sumY = sum_list y; sumXY = sum_list (map (\<lambda>(a, b). a * b) (zip x y));
             sumX2 = sum_list (map (\<lambda>a. a * a) x); sumY2 = sum_list (map (\<lambda>b. b * b) y); nf = of_nat n;
             num = nf * sumXY - sumX * sumY;
             den = sqrt ((nf * sumX2 - sumX * sumX) * (nf * sumY2 - sumY * sumY))
         in if den = 0 then 0 else num / den))"

definition primary_count :: "corrPrices \<Rightarrow> nat" where
  "primary_count cp = (if cp_pfull cp then cp_cap cp else cp_pidx cp)"

definition secondary_count :: "corrPrices \<Rightarrow> nat" where
  "secondary_count cp = (if cp_sfull cp then cp_cap cp else cp_sidx cp)"

definition latestP :: "corrPrices \<Rightarrow> float64" where
  "latestP cp = xo_mid (cp_primaryObs cp ! ((cp_pidx cp + cp_cap cp - 1) mod cp_cap cp))"

definition latestS :: "corrPrices \<Rightarrow> float64" where
  "latestS cp = xo_mid (cp_secondaryObs cp ! ((cp_sidx cp + cp_cap cp - 1) mod cp_cap cp))"

text \<open>The sums run over the pairs of positive prices but are divided by the whole count.\<close>

definition price_ratios :: "corrPrices \<Rightarrow> nat \<Rightarrow> float64 list" where
  "price_ratios cp len = concat (map (\<lambda>i.
     let p = ago (cp_primaryObs cp) (cp_pidx cp) (cp_cap cp) (1 + i); s = ago (cp_secondaryObs cp) (cp_sidx cp) (cp_cap cp) (1 + i)
     in if p > 0 \<and> s > 0 then [p / s] else []) [0..<len])"

definition computeSpreadZScore :: "corrPrices \<Rightarrow> float64" where
  "computeSpreadZScore cp =
     (let n = primary_count cp; sn = secondary_count cp in
      if n < 20 \<or> sn < 20 then 0
      else
        (let len = min n sn; ratios = price_ratios cp len;
             mean = sum_list ratios / of_nat len;
             variance = sum_list (map (\<lambda>r. r * r) ratios) / of_nat len - mean * mean
         in if variance \<le> 0 then 0
            else if latestS cp \<le> 0 then 0
            else (latestP cp / latestS cp - mean) / sqrt variance))"

definition CorrSnapshot :: "string \<Rightarrow> CorrelationTracker \<Rightarrow> CorrelationSnapshot option" where
  "CorrSnapshot venue ct =
     (case map_of (ct_prices ct) venue of
        None \<Rightarrow> None
      | Some cp \<Rightarrow>
          (let n = min (primary_count cp) (secondary_count cp) in
           if n < 20 then None
           else
             (let pReturns = logReturns (cp_primaryObs cp) (cp_pidx cp) (cp_pfull cp) (cp_cap cp) n;
                  sReturns = logReturns (cp_secondaryObs cp) (cp_sidx cp) (cp_sfull cp) (cp_cap cp) n
              in if length pReturns < 10 \<or> length sReturns < 10 then None
                 else
                   (let minLen = min (length pReturns) (length sReturns);
                        corr = pearsonCorrelation (take minLen pReturns) (take minLen sReturns);
                        spreadZ = (if latestP cp > 0 \<and> latestS cp > 0 then computeSpreadZScore cp else 0)
                    in Some \<lparr>cn_Venue = venue, cn_Correlation = corr, cn_SpreadZScore = spreadZ,
                             cn_PrimaryMid = latestP cp, cn_SecondaryMid = latestS cp\<rparr>))))"

section \<open>Pair trades\<close>

definition pair_leg_of :: "CorrelationConfig \<Rightarrow> string \<Rightarrow> string \<Rightarrow> TradeLeg" where
  "pair_leg_of cfg venue action =
     \<lparr>tl_Venue = venue, tl_Action = action, tl_Type = ''MARKET_OR_IOC'', tl_Market = ''PERP'',
      tl_NotionalUSD = cr_NotionalUSD cfg, tl_MaxSlippageBps = cr_MaxSlippageBps cfg, tl_PriceLimit = 0\<rparr>"

definition correlation_intent :: "CorrelationConfig \<Rightarrow> string \<Rightarrow> string \<Rightarrow> int64 \<Rightarrow> CorrelationSnapshot \<Rightarrow> TradeIntent" where
  "correlation_intent cfg tenantID uuid now snap =
     (let venue = cn_Venue snap; z = cn_SpreadZScore snap;
          (primaryAction, secondaryAction) = (if z > 0 then (''SELL'', ''BUY'') else (''BUY'', ''SELL''));
          i = plain_intent tenantID uuid ''CORRELATION_BREAK'' (cr_PrimarySymbol cfg @ ''/'' @ cr_SecondarySymbol cfg) now
                (cr_IntentTTLMs cfg) [pair_leg_of cfg venue primaryAction, pair_leg_of cfg venue secondaryAction] (''corr:'' @ venue)
      in i\<lparr>ti_Expected := no_metrics\<lparr>em_EdgeBpsGross := \<bar>z\<bar> * 5, em_EdgeBpsNet := \<bar>z\<bar> * 5 - 8\<rparr>,
           ti_Constraints := (ti_Constraints i)\<lparr>ic_HedgePreference := ''SIMULTANEOUS_OR_HEDGE_FIRST''\<rparr>\<rparr>)"

definition consider_venue ::
  "CorrelationConfig \<Rightarrow> string \<Rightarrow> int64 \<Rightarrow> (nat \<Rightarrow> 8 word list) \<Rightarrow> CorrelationTracker \<Rightarrow> offers \<Rightarrow> string \<Rightarrow> offers" where
  "consider_venue cfg tenantID now rnd ct st venue =
     (case CorrSnapshot venue ct of
        None \<Rightarrow> st
      | Some snap \<Rightarrow>
          (if cn_Correlation snap > cr_BreakThreshold cfg then st
           else if \<bar>cn_SpreadZScore snap\<bar> < cr_SpreadZScoreMin cfg then st
           else offer now (correlation_intent cfg tenantID (newUUID (rnd (length (snd st)))) now snap) st))"

definition EvaluateCorrelationTrades ::
  "CorrelationConfig \<Rightarrow> string \<Rightarrow> int64 \<Rightarrow> (nat \<Rightarrow> 8 word list) \<Rightarrow> CorrelationTracker \<Rightarrow> Cooldown option \<Rightarrow> offers" where
  "EvaluateCorrelationTrades cfg tenantID now rnd ct gate =
     (if \<not> cr_Enabled cfg then (gate, [])
      else foldl (consider_venue cfg tenantID now rnd ct) (gate, []) (map fst (ct_prices ct)))"

section \<open>The correlation\<close>

text \<open>The inequality of Cauchy and Schwarz for two lists read in step.\<close>

lemma cauchy_schwarz_zip:
  fixes x y :: "real list"
  assumes "length x = length y"
  shows "(\<Sum>(a, b)\<leftarrow>zip x y. a * b)\<^sup>2 \<le> (\<Sum>a\<leftarrow>x. a * a) * (\<Sum>b\<leftarrow>y. b * b)"
proof -
  have "(\<Sum>a\<leftarrow>x. a * a) = sum_of (\<lambda>p. (fst p)\<^sup>2) (zip x y)" "(\<Sum>b\<leftarrow>y. b * b) = sum_of (\<lambda>p. (snd p)\<^sup>2) (zip x y)"
    using assms by (induction x y rule: list_induct2) (simp_all add: power2_eq_square)
  moreover have "(\<Sum>(a, b)\<leftarrow>zip x y. a * b) = sum_of (\<lambda>p. fst p * snd p) (zip x y)"
    by (simp add: sum_of_def case_prod_unfold)
  ultimately show ?thesis using cauchy_schwarz_list [of fst snd "zip x y"] by simp
qed

lemma sum_shifted:
  fixes x :: "real list"
  assumes "length x = length y"
  shows "(\<Sum>(a, b)\<leftarrow>zip (map (\<lambda>a. a - p) x) (map (\<lambda>b. b - q) y). a * b) =
     (\<Sum>(a, b)\<leftarrow>zip x y. a * b) - q * sum_list x - p * sum_list y + of_nat (length x) * p * q"
  using assms by (induction x y rule: list_induct2) (simp_all add: algebra_simps)

lemma sum_zip_self: "(\<Sum>(a, b)\<leftarrow>zip x x. a * b) = (\<Sum>a\<leftarrow>x. a * (a :: real))"
  by (induction x) simp_all

text \<open>The correlation lies between -1 and 1.\<close>

theorem pearson_is_a_correlation: "\<bar>pearsonCorrelation x y\<bar> \<le> 1"
proof (cases "length x = length y \<and> 2 \<le> length x")
  case True
  then have l: "length x = length y" "0 < length x" by auto
  define n :: real where "n = of_nat (length x)"
  define X Y XY XX YY where "X = sum_list x" and "Y = sum_list y" and "XY = (\<Sum>(a, b)\<leftarrow>zip x y. a * b)"
    and "XX = (\<Sum>a\<leftarrow>x. a * a)" and "YY = (\<Sum>b\<leftarrow>y. b * b)"
  have n: "0 < n" using l by (simp add: n_def)
  define p q where "p = X / n" and "q = Y / n"
  have pq: "X = n * p" "Y = n * q" using n by (simp_all add: p_def q_def)
  let ?u = "map (\<lambda>a. a - p) x" and ?v = "map (\<lambda>b. b - q) y"
  have uv: "(\<Sum>(a, b)\<leftarrow>zip ?u ?v. a * b) = XY - n * p * q"
    unfolding sum_shifted [OF l(1)] X_def [symmetric] Y_def [symmetric] XY_def [symmetric] n_def [symmetric] pq
    by (simp add: algebra_simps)
  have uu: "(\<Sum>a\<leftarrow>?u. a * a) = XX - n * p * p"
    unfolding sum_zip_self [symmetric] sum_shifted [OF refl]
    unfolding sum_zip_self X_def [symmetric] XX_def [symmetric] n_def [symmetric] pq by (simp add: algebra_simps)
  have vv: "(\<Sum>b\<leftarrow>?v. b * b) = YY - n * q * q"
    unfolding sum_zip_self [symmetric] sum_shifted [OF refl]
    unfolding sum_zip_self l(1) [symmetric] Y_def [symmetric] YY_def [symmetric] n_def [symmetric] pq by (simp add: algebra_simps)
  have "(XY - n * p * q)\<^sup>2 \<le> (XX - n * p * p) * (YY - n * q * q)"
    unfolding uv [symmetric] uu [symmetric] vv [symmetric] using l by (intro cauchy_schwarz_zip) simp
  then have "n\<^sup>2 * (XY - n * p * q)\<^sup>2 \<le> n\<^sup>2 * ((XX - n * p * p) * (YY - n * q * q))"
    by (intro mult_left_mono) simp_all
  moreover have "n\<^sup>2 * (XY - n * p * q)\<^sup>2 = (n * XY - X * Y)\<^sup>2"
    unfolding pq by (simp add: power_mult_distrib [symmetric] right_diff_distrib mult.assoc mult.left_commute)
  moreover have "n\<^sup>2 * ((XX - n * p * p) * (YY - n * q * q)) = (n * XX - X * X) * (n * YY - Y * Y)"
    unfolding pq by (simp add: power2_eq_square algebra_simps)
  ultimately have "\<bar>n * XY - X * Y\<bar> \<le> sqrt ((n * XX - X * X) * (n * YY - Y * Y))"
    by (simp add: real_le_rsqrt)
  with True show ?thesis
    unfolding pearsonCorrelation_def Let_def n_def X_def Y_def XY_def XX_def YY_def by (auto simp: divide_le_eq_1)
qed (auto simp: pearsonCorrelation_def Let_def)

section \<open>The returns\<close>

interpretation primary_ring: counted_ring cp_primaryObs cp_pidx cp_cap push_primary
  by unfold_locales (simp_all add: push_primary_def Let_def)

interpretation secondary_ring: counted_ring cp_secondaryObs cp_sidx cp_cap push_secondary
  by unfold_locales (simp_all add: push_secondary_def Let_def)

text \<open>The j-th newest price, for an index within the buffer; one step further is the newest again.\<close>

lemma ago_newest:
  assumes "holds obs n c h" "j < c" "j < n"
  shows "ago obs n c (1 + j) = xo_mid (rev h ! j)"
proof -
  have "n + c + c - (1 + j) = (n - 1 - j) + 2 * c" using assms(3) by simp
  then have i: "(n + c + c - (1 + j)) mod c = (n - 1 - j) mod c" by (metis mod_mult_self1)
  have "obs ! ((n - 1 - j) mod c) = rev h ! j" by (rule holdsD [OF assms])
  then show ?thesis unfolding ago_def i by simp
qed

lemma ago_wraps:
  assumes "holds obs n c h" "0 < c" "c \<le> n"
  shows "ago obs n c (1 + c) = xo_mid (rev h ! 0)"
proof -
  have "n + c + c - (1 + c) = (n - 1) + c" using assms by simp
  then have i: "(n + c + c - (1 + c)) mod c = (n - 1 - 0) mod c" by (metis mod_add_self2 diff_zero)
  have "obs ! ((n - 1 - 0) mod c) = rev h ! 0" by (rule holdsD [OF assms(1)]) (use assms in simp_all)
  then show ?thesis unfolding ago_def i by simp
qed

lemma concat_singletons: "(\<And>x. x \<in> set xs \<Longrightarrow> f x = [g x]) \<Longrightarrow> concat (map f xs) = map g xs"
  by (induction xs) auto

text \<open>
  The returns of a full window of positive prices, newest first.  The newest return, of the newest
  price over the one before, is not among them; the last one is of the oldest price of the window
  over the newest, because the index has gone around.
\<close>

definition wrapped_returns :: "nat \<Rightarrow> corrObs list \<Rightarrow> float64 list" where
  "wrapped_returns c h =
     (let p = map xo_mid (rev h)
      in map (\<lambda>i. ln (p ! i / p ! (i + 1))) [1..<c - 1] @ [ln (p ! (c - 1) / p ! 0)])"

lemma logReturns_full:
  assumes "holds obs n c h" "2 \<le> c" "c \<le> n" "\<forall>x\<in>set h. 0 < xo_mid x"
  shows "logReturns obs n True c c = wrapped_returns c h"
proof -
  let ?p = "\<lambda>i. xo_mid (rev h ! i)"
  have len: "length h = n" using assms(1) by (simp add: holds_def)
  have pos: "0 < ?p i" if "i < n" for i
    using that assms(4) len by (metis length_rev nth_mem set_rev)
  have l: "ago obs n c (1 + i) = ?p i" "ago obs n c (2 + i) = ?p (i + 1)" if "1 \<le> i" "i < c - 1" for i
    using ago_newest [OF assms(1), of i] ago_newest [OF assms(1), of "i + 1"] that assms by simp_all
  have e: "ago obs n c (1 + (c - 1)) = ?p (c - 1)" "ago obs n c (2 + (c - 1)) = ?p 0"
    using ago_newest [OF assms(1), of "c - 1"] ago_wraps [OF assms(1)] assms by simp_all
  have "[1..<c] = [1..<c - 1] @ [c - 1]" using assms(2) by (metis Suc_1 Suc_diff_1 Suc_le_lessD less_Suc_eq_le upt_Suc zero_less_Suc One_nat_def less_trans numeral_2_eq_2 le_simps(2) diff_Suc_1 Suc_le_mono not_less_eq_eq)
  moreover have "concat (map (\<lambda>i. let curr = ago obs n c (1 + i); prev = ago obs n c (2 + i)
        in if curr > 0 \<and> prev > 0 then [ln (curr / prev)] else []) [1..<c - 1]) = map (\<lambda>i. ln (?p i / ?p (i + 1))) [1..<c - 1]"
  proof (rule concat_singletons)
    fix i
    assume "i \<in> set [1..<c - 1]"
    then have i: "1 \<le> i" "i < c - 1" by auto
    then have "0 < ?p i" "0 < ?p (i + 1)" using pos [of i] pos [of "i + 1"] assms(3) by simp_all
    then show "(let curr = ago obs n c (1 + i); prev = ago obs n c (2 + i)
        in if curr > 0 \<and> prev > 0 then [ln (curr / prev)] else []) = [ln (?p i / ?p (i + 1))]"
      unfolding l [OF i] by (simp add: Let_def)
  qed
  moreover have "0 < ?p (c - 1)" "0 < ?p 0" using pos assms by simp_all
  moreover have "map (\<lambda>i. ln (?p i / ?p (i + 1))) [1..<c - 1] = map (\<lambda>i. ln (map xo_mid (rev h) ! i / map xo_mid (rev h) ! (i + 1))) [1..<c - 1]"
    using len assms(3) by (intro map_cong) auto
  ultimately show ?thesis
    using assms e len by (simp add: logReturns_def wrapped_returns_def Let_def)
qed

lemma telescope: "(\<And>i. i \<le> n \<Longrightarrow> 0 < p i) \<Longrightarrow> (\<Sum>i\<leftarrow>[k..<n]. ln (p i / p (i + 1) :: real)) = (if k \<le> n then ln (p k) - ln (p n) else 0)"
proof (induction n)
  case 0
  then show ?case by simp
next
  case (Suc n)
  have "0 < p n" "0 < p (Suc n)" using Suc.prems by simp_all
  then have "ln (p n / p (Suc n)) = ln (p n) - ln (p (Suc n))" by (simp add: ln_div)
  then show ?case using Suc by (auto simp: le_Suc_eq)
qed

lemma wrapped_returns_sum:
  assumes "2 \<le> c" "c \<le> length h" "\<forall>x\<in>set h. 0 < xo_mid x"
  shows "sum_list (wrapped_returns c h) = - ln (xo_mid (rev h ! 0) / xo_mid (rev h ! 1))"
proof -
  let ?p = "\<lambda>i. map xo_mid (rev h) ! i"
  have pos: "0 < ?p i" if "i < c" for i
    using that assms(2,3) by (metis length_rev nth_map nth_mem order_less_le_trans set_rev)
  have l: "0 < length h" "1 < length h" using assms(1,2) by linarith+
  have "(\<Sum>i\<leftarrow>[1..<c - 1]. ln (?p i / ?p (i + 1))) = ln (?p 1) - ln (?p (c - 1))"
    using telescope [of "c - 1" ?p 1] pos assms(1) by (auto simp del: One_nat_def)
  then show ?thesis
    using pos [of 0] pos [of 1] pos [of "c - 1"] assms l by (simp add: wrapped_returns_def Let_def ln_div)
qed

text \<open>The usable quotes of a symbol on a venue, and what the tracker keeps of them.\<close>

definition corr_obs :: "Quote \<Rightarrow> corrObs" where
  "corr_obs q = \<lparr>xo_mid = (q_BestBid q + q_BestAsk q) / 2, xo_tsMs = q_TsMs q\<rparr>"

definition corr_history :: "string \<Rightarrow> string \<Rightarrow> Quote list \<Rightarrow> corrObs list" where
  "corr_history sy v qs =
     map corr_obs (filter (\<lambda>q. 0 < q_BestBid q \<and> 0 < q_BestAsk q \<and> q_Symbol q = sy \<and> q_Venue q = v) qs)"

lemma corr_history_pos: "\<forall>x\<in>set (corr_history sy v qs). 0 < xo_mid x"
  by (auto simp: corr_history_def corr_obs_def)

definition prices_ok :: "nat \<Rightarrow> corrObs list \<Rightarrow> corrObs list \<Rightarrow> corrPrices \<Rightarrow> bool" where
  "prices_ok c hp hs cp \<longleftrightarrow> cp_cap cp = c \<and> holds (cp_primaryObs cp) (cp_pidx cp) c hp \<and> holds (cp_secondaryObs cp) (cp_sidx cp) c hs \<and>
     (cp_pfull cp \<longleftrightarrow> c \<le> cp_pidx cp) \<and> (cp_sfull cp \<longleftrightarrow> c \<le> cp_sidx cp)"

lemma prices_ok_empty: "0 < c \<Longrightarrow> prices_ok c [] [] (empty_prices c)"
  by (simp add: prices_ok_def empty_prices_def Let_def holds_empty)

lemma prices_ok_primary: "prices_ok c hp hs cp \<Longrightarrow> 0 < c \<Longrightarrow> prices_ok c (hp @ [x]) hs (push_primary x cp)"
  by (auto simp: prices_ok_def push_primary_def Let_def dest: holds_push)

lemma prices_ok_secondary: "prices_ok c hp hs cp \<Longrightarrow> 0 < c \<Longrightarrow> prices_ok c hp (hs @ [x]) (push_secondary x cp)"
  by (auto simp: prices_ok_def push_secondary_def Let_def dest: holds_push)

definition corr_inv :: "string \<Rightarrow> string \<Rightarrow> nat \<Rightarrow> CorrelationTracker \<Rightarrow> Quote list \<Rightarrow> bool" where
  "corr_inv p s c ct qs \<longleftrightarrow> ct_primary ct = p \<and> ct_secondary ct = s \<and> ct_windowSize ct = c \<and>
     (\<forall>v. case map_of (ct_prices ct) v of
        None \<Rightarrow> corr_history p v qs = [] \<and> corr_history s v qs = []
      | Some cp \<Rightarrow> prices_ok c (corr_history p v qs) (corr_history s v qs) cp)"

lemma corr_inv_step:
  assumes "corr_inv p s c ct qs" "0 < c" "p \<noteq> s"
  shows "corr_inv p s c (CorrRecordQuote q ct) (qs @ [q])"
proof -
  have ct: "ct_primary ct = p" "ct_secondary ct = s" "ct_windowSize ct = c"
    and inv: "case map_of (ct_prices ct) v of None \<Rightarrow> corr_history p v qs = [] \<and> corr_history s v qs = []
      | Some cp \<Rightarrow> prices_ok c (corr_history p v qs) (corr_history s v qs) cp" for v
    using assms(1) unfolding corr_inv_def by blast+
  show ?thesis
  proof (cases "(q_Symbol q = p \<or> q_Symbol q = s) \<and> 0 < q_BestBid q \<and> 0 < q_BestAsk q")
    case False
    then have "corr_history p v (qs @ [q]) = corr_history p v qs" "corr_history s v (qs @ [q]) = corr_history s v qs" for v
      by (auto simp: corr_history_def)
    moreover have "CorrRecordQuote q ct = ct" using False ct by (auto simp: CorrRecordQuote_def Let_def)
    ultimately show ?thesis using assms(1) by (simp add: corr_inv_def cong: option.case_cong)
  next
    case True
    let ?cp = "case map_of (ct_prices ct) (q_Venue q) of None \<Rightarrow> empty_prices c | Some cp \<Rightarrow> cp"
    let ?new = "if q_Symbol q = p then push_primary (corr_obs q) ?cp else push_secondary (corr_obs q) ?cp"
    have cp: "prices_ok c (corr_history p (q_Venue q) qs) (corr_history s (q_Venue q) qs) ?cp"
      using inv [of "q_Venue q"] prices_ok_empty [OF assms(2)] by (cases "map_of (ct_prices ct) (q_Venue q)") simp_all
    have h: "corr_history sy v (qs @ [q]) =
        (if q_Symbol q = sy \<and> q_Venue q = v then corr_history sy v qs @ [corr_obs q] else corr_history sy v qs)" for sy v
      using True by (simp add: corr_history_def)
    have new: "prices_ok c (corr_history p (q_Venue q) (qs @ [q])) (corr_history s (q_Venue q) (qs @ [q])) ?new"
      using True assms(3) prices_ok_primary [OF cp assms(2)] prices_ok_secondary [OF cp assms(2)] by (auto simp: h)
    have r: "ct_prices (CorrRecordQuote q ct) = AList.update (q_Venue q) ?new (ct_prices ct)"
      "ct_primary (CorrRecordQuote q ct) = p" "ct_secondary (CorrRecordQuote q ct) = s" "ct_windowSize (CorrRecordQuote q ct) = c"
      using True ct by (auto simp: CorrRecordQuote_def corr_obs_def Let_def)
    show ?thesis
      unfolding corr_inv_def r
    proof (intro conjI refl allI)
      fix v
      show "case map_of (AList.update (q_Venue q) ?new (ct_prices ct)) v of
          None \<Rightarrow> corr_history p v (qs @ [q]) = [] \<and> corr_history s v (qs @ [q]) = []
        | Some cp \<Rightarrow> prices_ok c (corr_history p v (qs @ [q])) (corr_history s v (qs @ [q])) cp"
        using new inv [of v] by (cases "v = q_Venue q") (simp_all add: update_conv' h cong: option.case_cong)
    qed
  qed
qed

definition corr_run :: "string \<Rightarrow> string \<Rightarrow> int \<Rightarrow> Quote list \<Rightarrow> CorrelationTracker" where
  "corr_run p s c qs = foldl (\<lambda>ct q. CorrRecordQuote q ct) (NewCorrelationTracker p s c) qs"

lemma corr_inv_run: "20 \<le> c \<Longrightarrow> p \<noteq> s \<Longrightarrow> corr_inv p s (nat c) (corr_run p s c qs) qs"
proof (induction qs rule: rev_induct)
  case Nil
  then show ?case by (simp add: corr_inv_def corr_run_def NewCorrelationTracker_def corr_history_def)
next
  case (snoc q qs)
  then show ?case using corr_inv_step [of p s "nat c" "corr_run p s c qs" qs q] by (simp add: corr_run_def)
qed

lemma length_wrapped: "2 \<le> c \<Longrightarrow> length (wrapped_returns c h) = c - 1"
  by (simp add: wrapped_returns_def Let_def)

text \<open>
  A full window goes around: once a venue has quoted both symbols as often as the window is long,
  the correlation is that of two lists of returns that leave out the newest return and end with
  one from the newest back to the oldest price, so each list adds up to minus the newest return.
\<close>

theorem full_correlation_windows_go_around:
  assumes "20 \<le> c" "p \<noteq> s" "nat c \<le> length (corr_history p v qs)" "nat c \<le> length (corr_history s v qs)"
  shows "\<exists>snap. CorrSnapshot v (corr_run p s c qs) = Some snap \<and>
    cn_Correlation snap = pearsonCorrelation (wrapped_returns (nat c) (corr_history p v qs)) (wrapped_returns (nat c) (corr_history s v qs)) \<and>
    sum_list (wrapped_returns (nat c) (corr_history p v qs)) =
      - ln (xo_mid (rev (corr_history p v qs) ! 0) / xo_mid (rev (corr_history p v qs) ! 1)) \<and>
    sum_list (wrapped_returns (nat c) (corr_history s v qs)) =
      - ln (xo_mid (rev (corr_history s v qs) ! 0) / xo_mid (rev (corr_history s v qs) ! 1))"
proof -
  let ?hp = "corr_history p v qs" and ?hs = "corr_history s v qs"
  have c: "20 \<le> nat c" "2 \<le> nat c" using assms(1) by simp_all
  have "?hp \<noteq> []" using assms(3) c by auto
  then obtain cp where cp: "map_of (ct_prices (corr_run p s c qs)) v = Some cp" "prices_ok (nat c) ?hp ?hs cp"
    using corr_inv_run [OF assms(1,2), of qs] unfolding corr_inv_def by (auto split: option.splits)
  have l: "cp_pidx cp = length ?hp" "cp_sidx cp = length ?hs" "cp_cap cp = nat c" "cp_pfull cp" "cp_sfull cp"
    using cp(2) assms(3,4) by (auto simp: prices_ok_def holds_def)
  have r: "logReturns (cp_primaryObs cp) (cp_pidx cp) True (nat c) (nat c) = wrapped_returns (nat c) ?hp"
    "logReturns (cp_secondaryObs cp) (cp_sidx cp) True (nat c) (nat c) = wrapped_returns (nat c) ?hs"
    using cp(2) l assms c by (auto simp: prices_ok_def intro!: logReturns_full corr_history_pos)
  note r = r [unfolded l(1,2)]
  show ?thesis
    using c assms wrapped_returns_sum [OF c(2) assms(3) corr_history_pos] wrapped_returns_sum [OF c(2) assms(4) corr_history_pos]
    by (simp add: CorrSnapshot_def cp(1) primary_count_def secondary_count_def l r Let_def length_wrapped)
qed

section \<open>Pair trades\<close>

definition correlation_ok :: "CorrelationConfig \<Rightarrow> string \<Rightarrow> int64 \<Rightarrow> CorrelationTracker \<Rightarrow> TradeIntent \<Rightarrow> bool" where
  "correlation_ok cfg tenantID now ct i \<longleftrightarrow> (\<exists>v snap uuid. CorrSnapshot v ct = Some snap \<and>
     cn_Correlation snap \<le> cr_BreakThreshold cfg \<and> cr_SpreadZScoreMin cfg \<le> \<bar>cn_SpreadZScore snap\<bar> \<and>
     i = correlation_intent cfg tenantID uuid now snap)"

lemma offered_correlation:
  "offered now (correlation_ok cfg tenantID now ct) (gate, []) (EvaluateCorrelationTrades cfg tenantID now rnd ct gate)"
  unfolding EvaluateCorrelationTrades_def consider_venue_def
  by (intro offered_intros) (auto simp: correlation_ok_def not_less)

lemma correlation_intent_simps [simp]:
  "ti_Symbol (correlation_intent cfg tenantID uuid now snap) = cr_PrimarySymbol cfg @ ''/'' @ cr_SecondarySymbol cfg"
  "key_of (correlation_intent cfg tenantID uuid now snap) = ''corr:'' @ cn_Venue snap"
  "ti_Strategy (correlation_intent cfg tenantID uuid now snap) = ''CORRELATION_BREAK''"
  by (auto simp: correlation_intent_def Let_def plain_intent_def split: prod.split)

section \<open>A concrete pair\<close>

definition corr_quote :: "string \<Rightarrow> float64 \<Rightarrow> Quote" where
  "corr_quote sy x = (basis_quote 100)\<lparr>q_Symbol := sy, q_BestBid := x, q_BestAsk := x\<rparr>"

definition corr_sample :: "Quote list" where
  "corr_sample = replicate 20 (corr_quote ''B'' 5) @ replicate 19 (corr_quote ''A'' 100) @ [corr_quote ''A'' 110]"

lemma corr_sample_histories:
  "corr_history ''A'' ''okx'' corr_sample = replicate 19 \<lparr>xo_mid = 100, xo_tsMs = 1\<rparr> @ [\<lparr>xo_mid = 110, xo_tsMs = 1\<rparr>]"
  "corr_history ''B'' ''okx'' corr_sample = replicate 20 \<lparr>xo_mid = 5, xo_tsMs = 1\<rparr>"
  by (simp_all add: corr_history_def corr_sample_def corr_quote_def basis_quote_def corr_obs_def)

theorem full_correlation_windows_go_around_witness:
  "\<exists>snap. CorrSnapshot ''okx'' (corr_run ''A'' ''B'' 20 corr_sample) = Some snap \<and>
     sum_list (wrapped_returns 20 (corr_history ''A'' ''okx'' corr_sample)) = - ln (110 / 100)"
proof -
  have "\<exists>snap. CorrSnapshot ''okx'' (corr_run ''A'' ''B'' 20 corr_sample) = Some snap \<and>
    cn_Correlation snap = pearsonCorrelation (wrapped_returns (nat 20) (corr_history ''A'' ''okx'' corr_sample))
      (wrapped_returns (nat 20) (corr_history ''B'' ''okx'' corr_sample)) \<and>
    sum_list (wrapped_returns (nat 20) (corr_history ''A'' ''okx'' corr_sample)) =
      - ln (xo_mid (rev (corr_history ''A'' ''okx'' corr_sample) ! 0) / xo_mid (rev (corr_history ''A'' ''okx'' corr_sample) ! 1)) \<and>
    sum_list (wrapped_returns (nat 20) (corr_history ''B'' ''okx'' corr_sample)) =
      - ln (xo_mid (rev (corr_history ''B'' ''okx'' corr_sample) ! 0) / xo_mid (rev (corr_history ''B'' ''okx'' corr_sample) ! 1))"
    by (rule full_correlation_windows_go_around) (simp_all add: corr_sample_histories)
  then obtain snap where s: "CorrSnapshot ''okx'' (corr_run ''A'' ''B'' 20 corr_sample) = Some snap"
    "sum_list (wrapped_returns (nat 20) (corr_history ''A'' ''okx'' corr_sample)) =
      - ln (xo_mid (rev (corr_history ''A'' ''okx'' corr_sample) ! 0) / xo_mid (rev (corr_history ''A'' ''okx'' corr_sample) ! 1))"
    by (elim exE conjE) (rule that)
  have "xo_mid (rev (corr_history ''A'' ''okx'' corr_sample) ! 0) = 110" "xo_mid (rev (corr_history ''A'' ''okx'' corr_sample) ! 1) = 100"
    unfolding corr_sample_histories by simp_all
  with s show ?thesis by simp
qed
end
