(* ===== verification/Arb_Service.thy ===== *)
theory Arb_Service
  imports Arb_Correlation
begin

text \<open>
  cmd/arb-opportunity-engine/main.go: the service around the engine and the strategies.  One input
  is what one case of its loop, or one of its reading goroutines, handles; its output is the
  intents handed to the bus.  Readings of the clock, the kill switch, the mode and the random bytes
  are part of the input.  A Go map is ranged over in the order of its list; no statement here
  depends on that order.
\<close>

section \<open>State\<close>

record ArbServicePolicy =
  sp_engine :: ArbPolicy
  sp_BasisEnabled :: bool
  sp_BasisTrade :: BasisConfig
  sp_BasisWindowSize :: int
  sp_MarketQuotesStream :: string
  sp_Cascade :: CascadeConfig
  sp_Correlation :: CorrelationConfig
  sp_DEXCEX :: DEXCEXConfig
  sp_tenantID :: string

record ArbService =
  sv_engine :: Engine
  sv_basis :: "(BasisTracker \<times> Cooldown) option"
  sv_cascade :: "(CascadeDetector \<times> Cooldown) option"
  sv_corr :: "(CorrelationTracker \<times> Cooldown) option"
  sv_dexcex :: "DEXCEXTracker option"

definition start_service :: "ArbServicePolicy \<Rightarrow> DexRouter \<Rightarrow> ArbService" where
  "start_service p router =
     (let bs = sp_BasisWindowSize p; cr = sp_Correlation p; cs = sp_Cascade p
      in \<lparr>sv_engine = NewEngine (sp_engine p),
          sv_basis = (if sp_BasisEnabled p \<and> sp_MarketQuotesStream p \<noteq> ''''
            then Some (NewBasisTracker (if bs < 10 then 200 else bs), NewCooldown (bc_CooldownMs (sp_BasisTrade p))) else None),
          sv_cascade = (if cc_Enabled cs then Some (NewCascadeDetector, NewCooldown (cc_CooldownMs cs)) else None),
          sv_corr = (if cr_Enabled cr \<and> cr_PrimarySymbol cr \<noteq> '''' \<and> cr_SecondarySymbol cr \<noteq> ''''
            then Some (NewCorrelationTracker (cr_PrimarySymbol cr) (cr_SecondarySymbol cr)
                         (if cr_WindowSize cr < 20 then 100 else cr_WindowSize cr), NewCooldown (cr_CooldownMs cr)) else None),
          sv_dexcex = (if dc_Enabled (sp_DEXCEX p) \<and> dx_Enabled (dr_cfg router) then Some (NewDEXCEXTracker (Some router)) else None)\<rparr>)"

section \<open>Inputs\<close>

text \<open>A clock reading for each strategy of a strategy tick, and random bytes for each evaluation.\<close>

datatype arb_input =
    MarketQuotes "Quote list"
  | OIUpdates "(string \<times> string \<times> float64) option list"
  | BasisTick bool int64 "nat \<Rightarrow> 8 word list"
  | StrategyTick bool int64 int64 int64 "nat \<Rightarrow> nat \<Rightarrow> 8 word list"
  | Turn bool string "(ConsensusUpdate \<times> (nat \<Rightarrow> 8 word list)) list"

text \<open>The bus stamps the schema version.\<close>

definition PublishTradeIntent :: "TradeIntent \<Rightarrow> TradeIntent" where
  "PublishTradeIntent i = i\<lparr>ti_SchemaVersion := 1\<rparr>"

definition VenueMetricsToQuote :: "VenueMetrics \<Rightarrow> string \<Rightarrow> Quote" where
  "VenueMetricsToQuote vm symbol =
     \<lparr>q_SchemaVersion = 0, q_TenantID = '''', q_Venue = vm_Venue vm, q_Symbol = symbol, q_TsMs = 0,
      q_BestBid = vm_EffectiveSell vm, q_BestAsk = vm_EffectiveBuy vm, q_Mark = 0, q_Index = 0, q_BidDepth1Pct = 0,
      q_AskDepth1Pct = 0, q_Orderbook = None, q_FeeBpsTaker = 0, q_FundingRate = 0,
      q_FeedHealth = \<lparr>fh_WsConnected = False, fh_LastMsgTsMs = 0\<rparr>\<rparr>"

definition feed_venue :: "string \<Rightarrow> ArbService \<Rightarrow> VenueMetrics \<Rightarrow> ArbService" where
  "feed_venue symbol s vm =
     (let q = VenueMetricsToQuote vm symbol
      in s\<lparr>sv_cascade := map_option (map_prod (CascadeRecordQuote q) (\<lambda>c. c)) (sv_cascade s),
           sv_corr := map_option (map_prod (CorrRecordQuote q) (\<lambda>c. c)) (sv_corr s),
           sv_dexcex := map_option (DEXCEXRecordQuote q) (sv_dexcex s)\<rparr>)"

definition handle_update ::
  "(TradeIntent list \<Rightarrow> TradeIntent list) \<Rightarrow> ArbService \<times> TradeIntent list \<Rightarrow> ConsensusUpdate \<times> (nat \<Rightarrow> 8 word list) \<Rightarrow>
   ArbService \<times> TradeIntent list" where
  "handle_update by_profit so ur =
     (case (so, ur) of ((s, out), (u, rnd)) \<Rightarrow>
        (let (e, intents) = Process by_profit rnd (sv_engine s) u
         in (foldl (feed_venue (cu_Symbol u)) (s\<lparr>sv_engine := e\<rparr>) (cu_Venues u), out @ map PublishTradeIntent intents)))"

definition oi_update :: "CascadeDetector \<Rightarrow> (string \<times> string \<times> float64) option \<Rightarrow> CascadeDetector" where
  "oi_update cd snap =
     (case snap of
        None \<Rightarrow> cd
      | Some (venue, symbol, oi) \<Rightarrow> (if oi \<le> 0 then cd else fst (UpdateOI venue symbol oi cd)))"

definition basis_tick :: "ArbServicePolicy \<Rightarrow> int64 \<Rightarrow> (nat \<Rightarrow> 8 word list) \<Rightarrow> ArbService \<Rightarrow> ArbService \<times> TradeIntent list" where
  "basis_tick p now rnd s =
     (case sv_basis s of
        None \<Rightarrow> (s, [])
      | Some (bt, cd) \<Rightarrow>
          (let (gate, intents) = EvaluateBasisTrades (sp_BasisTrade p) (sp_tenantID p) now rnd bt (Some cd)
           in (s\<lparr>sv_basis := map_option (Pair bt) gate\<rparr>, map PublishTradeIntent intents)))"

definition cascade_tick :: "ArbServicePolicy \<Rightarrow> int64 \<Rightarrow> (nat \<Rightarrow> 8 word list) \<Rightarrow> ArbService \<Rightarrow> ArbService \<times> TradeIntent list" where
  "cascade_tick p now rnd s =
     (case sv_cascade s of
        None \<Rightarrow> (s, [])
      | Some (cdet, cd) \<Rightarrow>
          (let (cdet, gate, intents) = CascadeEvaluate (sp_Cascade p) (sp_tenantID p) now rnd cdet (Some cd)
           in (s\<lparr>sv_cascade := map_option (Pair cdet) gate\<rparr>, map PublishTradeIntent intents)))"

definition corr_tick :: "ArbServicePolicy \<Rightarrow> int64 \<Rightarrow> (nat \<Rightarrow> 8 word list) \<Rightarrow> ArbService \<Rightarrow> ArbService \<times> TradeIntent list" where
  "corr_tick p now rnd s =
     (case sv_corr s of
        None \<Rightarrow> (s, [])
      | Some (ct, cd) \<Rightarrow>
          (let (gate, intents) = EvaluateCorrelationTrades (sp_Correlation p) (sp_tenantID p) now rnd ct (Some cd)
           in (s\<lparr>sv_corr := map_option (Pair ct) gate\<rparr>, map PublishTradeIntent intents)))"

text \<open>The evaluation against decentralised exchanges is given no cooldown.\<close>

definition dexcex_tick ::
  "(string \<Rightarrow> int) \<Rightarrow> ArbServicePolicy \<Rightarrow> int64 \<Rightarrow> (nat \<Rightarrow> 8 word list) \<Rightarrow> ArbService \<Rightarrow> ArbService \<times> TradeIntent list" where
  "dexcex_tick setString p now rnd s =
     (case sv_dexcex s of
        None \<Rightarrow> (s, [])
      | Some dt \<Rightarrow> (s, map PublishTradeIntent (snd (EvaluateDEXCEX setString (sp_DEXCEX p) (sp_tenantID p) now rnd dt None))))"

definition strategy_tick ::
  "(string \<Rightarrow> int) \<Rightarrow> ArbServicePolicy \<Rightarrow> int64 \<Rightarrow> int64 \<Rightarrow> int64 \<Rightarrow> (nat \<Rightarrow> nat \<Rightarrow> 8 word list) \<Rightarrow> ArbService \<Rightarrow>
   ArbService \<times> TradeIntent list" where
  "strategy_tick setString p now1 now2 now3 rnd s =
     (let (s, out1) = cascade_tick p now1 (rnd 0) s; (s, out2) = corr_tick p now2 (rnd 1) s;
          (s, out3) = dexcex_tick setString p now3 (rnd 2) s
      in (s, out1 @ out2 @ out3))"

definition arb_service_step ::
  "(TradeIntent list \<Rightarrow> TradeIntent list) \<Rightarrow> (string \<Rightarrow> int) \<Rightarrow> ArbServicePolicy \<Rightarrow> ArbService \<Rightarrow> arb_input \<Rightarrow>
   ArbService \<times> TradeIntent list" where
  "arb_service_step by_profit setString p s x =
     (case x of
        MarketQuotes qs \<Rightarrow> (s\<lparr>sv_basis := map_option (map_prod (\<lambda>bt. foldl (\<lambda>bt q. BasisRecordQuote q bt) bt qs) (\<lambda>c. c)) (sv_basis s)\<rparr>, [])
      | OIUpdates snaps \<Rightarrow> (s\<lparr>sv_cascade := map_option (map_prod (\<lambda>cd. foldl oi_update cd snaps) (\<lambda>c. c)) (sv_cascade s)\<rparr>, [])
      | BasisTick kill now rnd \<Rightarrow> (if kill then (s, []) else basis_tick p now rnd s)
      | StrategyTick kill now1 now2 now3 rnd \<Rightarrow> (if kill then (s, []) else strategy_tick setString p now1 now2 now3 rnd s)
      | Turn kill mode updates \<Rightarrow>
          (if kill \<or> mode \<noteq> ''RUNNING'' then (s, []) else foldl (handle_update by_profit) (s, []) updates))"

definition arb_service_run ::
  "(TradeIntent list \<Rightarrow> TradeIntent list) \<Rightarrow> (string \<Rightarrow> int) \<Rightarrow> ArbServicePolicy \<Rightarrow> ArbService \<times> TradeIntent list \<Rightarrow>
   arb_input list \<Rightarrow> ArbService \<times> TradeIntent list" where
  "arb_service_run by_profit setString p =
     foldl (\<lambda>(s, out) x. case arb_service_step by_profit setString p s x of (s', new) \<Rightarrow> (s', out @ new))"

section \<open>Quotes without a time\<close>

text \<open>
  The quotes made of venue metrics have time 0, so no price that reaches the cascade detector or
  the comparison with decentralised exchanges ever has a time.
\<close>

definition buffer_timeless :: "cascadeState \<Rightarrow> bool" where
  "buffer_timeless cs \<longleftrightarrow> 0 < cs_bufCap cs \<and> length (cs_priceBuf cs) = cs_bufCap cs \<and> (\<forall>x\<in>set (cs_priceBuf cs). co_tsMs x = 0)"

definition cascade_timeless :: "CascadeDetector \<Rightarrow> bool" where
  "cascade_timeless cdet \<longleftrightarrow> (\<forall>kcs\<in>set (ca_states cdet). buffer_timeless (snd kcs))"

definition prices_timeless :: "DEXCEXTracker \<Rightarrow> bool" where
  "prices_timeless dt \<longleftrightarrow> (\<forall>kp\<in>set (dt_prices dt). cx_tsMs (snd kp) = 0)"

definition timeless :: "ArbService \<Rightarrow> bool" where
  "timeless s \<longleftrightarrow> pred_option (\<lambda>x. cascade_timeless (fst x)) (sv_cascade s) \<and> pred_option prices_timeless (sv_dexcex s)"

lemma timeless_start: "timeless (start_service p router)"
  by (simp add: timeless_def start_service_def NewCascadeDetector_def NewDEXCEXTracker_def Let_def
      cascade_timeless_def prices_timeless_def)

lemma buffer_timeless_empty: "buffer_timeless empty_cascade"
  by (simp add: buffer_timeless_def empty_cascade_def no_obs_def)

lemma buffer_timeless_push: "buffer_timeless cs \<Longrightarrow> co_tsMs x = 0 \<Longrightarrow> buffer_timeless (cascade_push x cs)"
  by (auto simp: buffer_timeless_def cascade_push_def dest!: subsetD [OF set_update_subset_insert])

lemma buffer_timeless_emit [simp]: "buffer_timeless (cs\<lparr>cs_lastEmitMs := t\<rparr>) = buffer_timeless cs"
  by (simp add: buffer_timeless_def)

lemma cascade_timeless_record:
  assumes "cascade_timeless cdet" "q_TsMs q = 0"
  shows "cascade_timeless (CascadeRecordQuote q cdet)"
proof -
  let ?key = "q_Venue q @ '':'' @ q_Symbol q"
  let ?cs = "case map_of (ca_states cdet) ?key of None \<Rightarrow> empty_cascade | Some cs \<Rightarrow> cs"
  have "buffer_timeless ?cs"
    using assms(1) map_of_SomeD [of "ca_states cdet" ?key] buffer_timeless_empty
    by (force simp: cascade_timeless_def split: option.split)
  then show ?thesis
    using assms unfolding CascadeRecordQuote_def cascade_timeless_def Let_def
    by (auto dest!: alist_update_set simp: buffer_timeless_push)
qed

lemma prices_timeless_record: "prices_timeless dt \<Longrightarrow> q_TsMs q = 0 \<Longrightarrow> prices_timeless (DEXCEXRecordQuote q dt)"
  unfolding prices_timeless_def DEXCEXRecordQuote_def by (auto dest!: alist_update_set)

lemma timeless_feed: "timeless s \<Longrightarrow> timeless (feed_venue symbol s vm)"
  by (auto simp: timeless_def feed_venue_def Let_def VenueMetricsToQuote_def option.pred_map comp_def
      elim!: option.pred_mono_strong intro!: cascade_timeless_record prices_timeless_record)

lemma timeless_feeds: "timeless s \<Longrightarrow> timeless (foldl (feed_venue symbol) s vms)"
  by (induction vms arbitrary: s) (auto intro: timeless_feed)

lemma timeless_updates: "timeless (fst so) \<Longrightarrow> timeless (fst (foldl (handle_update by_profit) so us))"
proof (induction us arbitrary: so)
  case Nil
  then show ?case by simp
next
  case (Cons u us)
  have "timeless (fst so\<lparr>sv_engine := e\<rparr>)" for e using Cons.prems by (simp add: timeless_def)
  then have "timeless (fst (handle_update by_profit so u))"
    by (auto simp: handle_update_def case_prod_beta Let_def intro!: timeless_feeds)
  then show ?case by (simp add: Cons.IH)
qed

lemma consider_cascade_states:
  "set (fst (foldl (consider_cascade cfg tenantID now rnd oi) st kcs)) \<subseteq>
     set (fst st) \<union> (\<Union>(k, cs)\<in>set kcs. {(k, cs), (k, cs\<lparr>cs_lastEmitMs := now\<rparr>)})"
proof (induction kcs arbitrary: st)
  case Nil
  show ?case by simp
next
  case (Cons kc kcs)
  have "set (fst (consider_cascade cfg tenantID now rnd oi st kc)) \<subseteq>
      set (fst st) \<union> (case kc of (k, cs) \<Rightarrow> {(k, cs), (k, cs\<lparr>cs_lastEmitMs := now\<rparr>)})"
    by (cases st; cases kc) (auto simp: consider_cascade_def Let_def case_prod_beta)
  then show ?case using Cons.IH [of "consider_cascade cfg tenantID now rnd oi st kc"] by fastforce
qed

lemma cascade_timeless_evaluate:
  assumes "cascade_timeless cdet"
  shows "cascade_timeless (fst (CascadeEvaluate cfg tenantID now rnd cdet gate))"
proof -
  have "\<forall>kcs\<in>set (fst (foldl (consider_cascade cfg tenantID now rnd (ca_oiPrev cdet)) ([], (gate, [])) (ca_states cdet))).
      buffer_timeless (snd kcs)"
    using assms consider_cascade_states [of cfg tenantID now rnd "ca_oiPrev cdet" "([], (gate, []))" "ca_states cdet"]
    unfolding cascade_timeless_def by fastforce
  then show ?thesis using assms by (simp add: CascadeEvaluate_def cascade_timeless_def case_prod_beta)
qed

lemma timeless_cascade_silent:
  assumes "cascade_timeless cdet" "0 < cc_PriceMoveBps cfg"
  shows "snd (snd (CascadeEvaluate cfg tenantID now rnd cdet gate)) = []"
proof -
  have "\<not> cascade_ok cfg tenantID now cdet i" for i
  proof
    assume "cascade_ok cfg tenantID now cdet i"
    then obtain key cs move direction where c: "(key, cs) \<in> set (ca_states cdet)"
      "priceMove cs now (cc_WindowMs cfg) = (move, direction)" "cc_PriceMoveBps cfg \<le> move"
      unfolding cascade_ok_def by blast
    have "buffer_timeless cs" using assms(1) c(1) by (auto simp: cascade_timeless_def)
    then have "\<forall>x\<in>set (newest_first cs). co_tsMs x = 0" by (auto simp: newest_first_def buffer_timeless_def)
    from timeless_priceMove [OF this] c assms(2) show False by simp
  qed
  then show ?thesis
    using offered_cascade [of now cfg tenantID cdet gate rnd] unfolding offered_def by (auto simp: neq_Nil_conv)
qed

text \<open>The clock readings of an input are later than the ten seconds that make a price stale.\<close>

definition clock_ok :: "arb_input \<Rightarrow> bool" where
  "clock_ok x \<longleftrightarrow> (case x of StrategyTick kill now1 now2 now3 rnd \<Rightarrow> 10000 < now3 | _ \<Rightarrow> True)"

definition live_strategies :: "string set" where
  "live_strategies = {''CROSS_VENUE_ARB'', ''BASIS_TRADE'', ''CORRELATION_BREAK''}"

definition live_intents :: "TradeIntent list \<Rightarrow> bool" where
  "live_intents out \<longleftrightarrow> (\<forall>i\<in>set out. ti_Strategy i \<in> live_strategies)"

lemma live_intents_simps [simp]:
  "live_intents []" "live_intents (xs @ ys) \<longleftrightarrow> live_intents xs \<and> live_intents ys"
  "live_intents (map PublishTradeIntent xs) = live_intents xs"
  by (auto simp: live_intents_def PublishTradeIntent_def)

lemma Process_strategy:
  "is_by_profit by_profit \<Longrightarrow> live_intents (snd (Process by_profit rnd e u))"
  unfolding live_intents_def
  by (auto dest!: Process_emits(2) simp: candidate_ok_def make_intent_def Let_def live_strategies_def)

lemma offered_live: "offered now P (gate, []) st \<Longrightarrow> (\<And>i. P i \<Longrightarrow> ti_Strategy i \<in> live_strategies) \<Longrightarrow> live_intents (snd st)"
  by (cases st) (auto simp: live_intents_def dest: offered_all)

lemma basis_strategy: "live_intents (snd (EvaluateBasisTrades cfg tenantID now rnd bt gate))"
  by (rule offered_live [OF offered_basis])
     (auto simp: basis_ok_def basis_intent_def Let_def plain_intent_def live_strategies_def)

lemma correlation_strategy: "live_intents (snd (EvaluateCorrelationTrades cfg tenantID now rnd ct gate))"
  by (rule offered_live [OF offered_correlation])
     (auto simp: correlation_ok_def live_strategies_def)

lemma live_updates:
  "is_by_profit by_profit \<Longrightarrow> live_intents (snd so) \<Longrightarrow> live_intents (snd (foldl (handle_update by_profit) so us))"
proof (induction us arbitrary: so)
  case Nil
  then show ?case by simp
next
  case (Cons u us)
  have "live_intents (snd (handle_update by_profit so u))"
    using Cons.prems Process_strategy by (simp add: handle_update_def case_prod_beta Let_def)
  then show ?case using Cons by simp
qed

lemma timeless_cascade_tick:
  assumes "timeless s" "0 < cc_PriceMoveBps (sp_Cascade p)"
  shows "timeless (fst (cascade_tick p now rnd s)) \<and> snd (cascade_tick p now rnd s) = []"
proof (cases "sv_cascade s")
  case None
  then show ?thesis using assms by (simp add: cascade_tick_def)
next
  case (Some x)
  obtain cdet cd where x: "x = (cdet, cd)" by (cases x)
  obtain cdet' gate intents where e: "CascadeEvaluate (sp_Cascade p) (sp_tenantID p) now rnd cdet (Some cd) = (cdet', gate, intents)"
    by (cases "CascadeEvaluate (sp_Cascade p) (sp_tenantID p) now rnd cdet (Some cd)") auto
  have "cascade_timeless cdet" using assms(1) Some x by (simp add: timeless_def)
  then have "cascade_timeless cdet'" "intents = []"
    using cascade_timeless_evaluate [of cdet "sp_Cascade p" "sp_tenantID p" now rnd "Some cd"]
      timeless_cascade_silent [of cdet "sp_Cascade p" "sp_tenantID p" now rnd "Some cd"] assms(2) e by simp_all
  then show ?thesis
    using assms(1) Some x e by (auto simp: cascade_tick_def timeless_def option.pred_map comp_def pred_option_def)
qed

lemma timeless_corr_tick: "timeless s \<Longrightarrow> timeless (fst (corr_tick p now rnd s))"
  by (auto simp: corr_tick_def timeless_def case_prod_beta split: option.split)

lemma live_corr_tick: "live_intents (snd (corr_tick p now rnd s))"
  using correlation_strategy by (auto simp: corr_tick_def case_prod_beta split: option.split)

lemma timeless_dexcex_tick:
  "timeless s \<Longrightarrow> 10000 < now \<Longrightarrow> dexcex_tick setString p now rnd s = (s, [])"
  by (auto simp: dexcex_tick_def timeless_def prices_timeless_def case_prod_beta stale_dexcex split: option.split)

lemma step_strategies:
  assumes "is_by_profit by_profit" "0 < cc_PriceMoveBps (sp_Cascade p)" "timeless s" "clock_ok x"
  shows "timeless (fst (arb_service_step by_profit setString p s x)) \<and>
    live_intents (snd (arb_service_step by_profit setString p s x))"
proof (cases x)
  case (OIUpdates snaps)
  have "cascade_timeless (foldl oi_update cdet snaps) = cascade_timeless cdet" for cdet
    by (induction snaps arbitrary: cdet)
       (auto simp: oi_update_def UpdateOI_def cascade_timeless_def Let_def split: option.split)
  with OIUpdates show ?thesis using assms(3) by (simp add: arb_service_step_def timeless_def option.pred_map comp_def)
next
  case (BasisTick kill now rnd)
  then show ?thesis
    using assms(3) basis_strategy by (auto simp: arb_service_step_def basis_tick_def timeless_def case_prod_beta split: option.split)
next
  case (StrategyTick kill now1 now2 now3 rnd)
  obtain s1 where s1: "cascade_tick p now1 (rnd 0) s = (s1, [])" "timeless s1"
    using timeless_cascade_tick [OF assms(3,2), of now1 "rnd 0"] by (cases "cascade_tick p now1 (rnd 0) s") auto
  obtain s2 out2 where s2: "corr_tick p now2 (rnd 1) s1 = (s2, out2)" by (cases "corr_tick p now2 (rnd 1) s1")
  have "timeless s2" "live_intents out2"
    using timeless_corr_tick [OF s1(2), of p now2 "rnd 1"] live_corr_tick [of p now2 "rnd 1" s1] s2 by simp_all
  moreover have "10000 < now3" using assms(4) StrategyTick by (simp add: clock_ok_def)
  ultimately show ?thesis
    using StrategyTick s1 s2 assms(3) by (simp add: arb_service_step_def strategy_tick_def timeless_dexcex_tick)
next
  case (Turn kill mode updates)
  then show ?thesis
    using assms(1,3) timeless_updates [of "(s, [])"] live_updates [OF assms(1), of "(s, [])"] by (simp add: arb_service_step_def)
qed (use assms in \<open>simp_all add: arb_service_step_def timeless_def\<close>)

lemma run_strategies:
  assumes "is_by_profit by_profit" "0 < cc_PriceMoveBps (sp_Cascade p)" "\<forall>x\<in>set xs. clock_ok x"
  shows "timeless s \<Longrightarrow> live_intents out \<Longrightarrow> live_intents (snd (arb_service_run by_profit setString p (s, out) xs))"
  using assms(3)
proof (induction xs arbitrary: s out)
  case Nil
  then show ?case by (simp add: arb_service_run_def)
next
  case (Cons x xs)
  obtain s' new where x: "arb_service_step by_profit setString p s x = (s', new)" by fastforce
  have "timeless s' \<and> live_intents new"
    using step_strategies [OF assms(1,2) Cons.prems(1), of x setString] Cons.prems(3) x by simp
  then show ?case using Cons.IH [of s' "out @ new"] Cons.prems x by (simp add: arb_service_run_def)
qed

text \<open>
  C40.  In the running service the detector of cascades and the comparison with decentralised exchanges
  never emit an intent: whatever the inputs, every published intent is one of the cross-venue
  engine, the basis or the correlation.
\<close>

theorem cascade_and_dex_strategies_never_trade:
  assumes "is_by_profit by_profit" "0 < cc_PriceMoveBps (sp_Cascade p)" "\<forall>x\<in>set xs. clock_ok x"
    and "i \<in> set (snd (arb_service_run by_profit setString p (start_service p router, []) xs))"
  shows "ti_Strategy i \<in> {''CROSS_VENUE_ARB'', ''BASIS_TRADE'', ''CORRELATION_BREAK''}"
  using run_strategies [OF assms(1-3) timeless_start [of p router], of "[]" setString] assms(4)
  by (auto simp: live_intents_def live_strategies_def)

section \<open>When the service publishes\<close>

lemma Process_cross:
  "is_by_profit by_profit \<Longrightarrow> i \<in> set (snd (Process by_profit rnd e u)) \<Longrightarrow> ti_Strategy i = ''CROSS_VENUE_ARB''"
  by (auto dest!: Process_emits(2) simp: candidate_ok_def make_intent_def Let_def)

lemma updates_cross:
  assumes "is_by_profit by_profit" "\<forall>i\<in>set (snd so). ti_Strategy i = ''CROSS_VENUE_ARB''"
  shows "\<forall>i\<in>set (snd (foldl (handle_update by_profit) so us)). ti_Strategy i = ''CROSS_VENUE_ARB''"
  using assms(2)
proof (induction us arbitrary: so)
  case Nil
  then show ?case by simp
next
  case (Cons u us)
  have "\<forall>i\<in>set (snd (handle_update by_profit so u)). ti_Strategy i = ''CROSS_VENUE_ARB''"
    using Cons.prems Process_cross [OF assms(1)]
    by (auto simp: handle_update_def case_prod_beta Let_def PublishTradeIntent_def)
  then show ?case using Cons.IH by simp
qed

text \<open>
  Nothing is published on an input read with the kill switch on, and an intent of the cross-venue
  engine only on a turn in mode RUNNING.
\<close>

theorem the_kill_switch_stops_the_service:
  assumes "is_by_profit by_profit" "i \<in> set (snd (arb_service_step by_profit setString p s x))"
  shows "(\<exists>now rnd. x = BasisTick False now rnd) \<or> (\<exists>now1 now2 now3 rnd. x = StrategyTick False now1 now2 now3 rnd) \<or>
    (\<exists>updates. x = Turn False ''RUNNING'' updates \<and> ti_Strategy i = ''CROSS_VENUE_ARB'')"
  using assms(2) updates_cross [OF assms(1), of "(s, [])"]
  by (cases x) (auto simp: arb_service_step_def split: if_splits)

text \<open>Evaluations mark the cooldown of what they emit; the mark lasts through later ones.\<close>

lemma marks_keep_hot:
  "IsOnCooldown c k now \<Longrightarrow> now - t < cd_ttlMs c \<Longrightarrow> IsOnCooldown (foldl (\<lambda>c i. Mark c (key_of i) t) c out) k now"
proof (induction out arbitrary: c)
  case Nil
  then show ?case by simp
next
  case (Cons i out)
  have "IsOnCooldown (Mark c (key_of i) t) k now"
    using Cons.prems by (auto simp: IsOnCooldown_def Mark_def split: option.splits)
  then show ?case using Cons by (simp add: Mark_def)
qed

lemma marks_make_hot:
  "i \<in> set out \<Longrightarrow> now - t < cd_ttlMs c \<Longrightarrow> IsOnCooldown (foldl (\<lambda>c i. Mark c (key_of i) t) c out) (key_of i) now"
proof (induction out arbitrary: c)
  case Nil
  then show ?case by simp
next
  case (Cons j out)
  have "IsOnCooldown (Mark c (key_of j) t) (key_of j) now" using Cons.prems by (simp add: IsOnCooldown_def Mark_def)
  then have "IsOnCooldown (foldl (\<lambda>c i. Mark c (key_of i) t) (Mark c (key_of j) t) out) (key_of j) now"
    using Cons.prems(2) by (intro marks_keep_hot) (simp_all add: Mark_def)
  moreover have "IsOnCooldown (foldl (\<lambda>c i. Mark c (key_of i) t) (Mark c (key_of j) t) out) (key_of i) now" if "i \<in> set out"
    using Cons.IH [OF that, of "Mark c (key_of j) t"] Cons.prems(2) by (simp add: Mark_def)
  ultimately show ?case using Cons.prems(1) by auto
qed

section \<open>The cooldown of the basis strategy\<close>

definition basis_gate :: "ArbService \<Rightarrow> Cooldown option" where
  "basis_gate s = map_option snd (sv_basis s)"

lemma handle_updates_basis: "sv_basis (fst (foldl (handle_update by_profit) so us)) = sv_basis (fst so)"
proof (induction us arbitrary: so)
  case Nil
  then show ?case by simp
next
  case (Cons u us)
  have "sv_basis (foldl (feed_venue sy) s vms) = sv_basis s" for sy s vms
    by (induction vms arbitrary: s) (simp_all add: feed_venue_def Let_def)
  then have "sv_basis (fst (handle_update by_profit so u)) = sv_basis (fst so)"
    by (simp add: handle_update_def case_prod_beta Let_def)
  then show ?case using Cons by simp
qed

lemma strategy_tick_basis: "sv_basis (fst (strategy_tick setString p now1 now2 now3 rnd s)) = sv_basis s"
  by (auto simp: strategy_tick_def cascade_tick_def corr_tick_def dexcex_tick_def case_prod_beta split: option.split)

text \<open>Only a basis tick changes the cooldown of the basis strategy, by marking what it offers.\<close>

lemma basis_tick_offers:
  assumes "basis_gate s = Some c"
  obtains s' P out where "arb_service_step by_profit setString p s (BasisTick False t rnd) = (s', map PublishTradeIntent out)"
    "basis_gate s' = Some (foldl (\<lambda>c i. Mark c (key_of i) t) c out)" "offered t P (Some c, []) (basis_gate s', out)"
proof -
  obtain bt where bt: "sv_basis s = Some (bt, c)" using assms by (auto simp: basis_gate_def)
  obtain gate out where e: "EvaluateBasisTrades (sp_BasisTrade p) (sp_tenantID p) t rnd bt (Some c) = (gate, out)" by fastforce
  have o: "offered t (basis_ok (sp_BasisTrade p) (sp_tenantID p) t bt) (Some c, []) (gate, out)"
    using offered_basis [of t "sp_BasisTrade p" "sp_tenantID p" bt "Some c" rnd] e by simp
  then have g: "gate = Some (foldl (\<lambda>c i. Mark c (key_of i) t) c out)" by (auto simp: offered_def)
  show thesis
    by (rule that [of "s\<lparr>sv_basis := map_option (Pair bt) gate\<rparr>" out "basis_ok (sp_BasisTrade p) (sp_tenantID p) t bt"])
       (use o g in \<open>simp_all add: arb_service_step_def basis_tick_def bt e basis_gate_def\<close>)
qed

lemma other_steps_gate:
  "\<nexists>t rnd. x = BasisTick False t rnd \<Longrightarrow> basis_gate (fst (arb_service_step by_profit setString p s x)) = basis_gate s"
  by (cases x) (auto simp: arb_service_step_def basis_gate_def handle_updates_basis strategy_tick_basis option.map_comp comp_def)

lemma step_keeps_hot:
  assumes "basis_gate s = Some c" "IsOnCooldown c k now" "\<forall>t rnd. x = BasisTick False t rnd \<longrightarrow> now - t < cd_ttlMs c"
  obtains c' where "basis_gate (fst (arb_service_step by_profit setString p s x)) = Some c'"
    "cd_ttlMs c' = cd_ttlMs c" "IsOnCooldown c' k now"
proof (cases "\<exists>t rnd. x = BasisTick False t rnd")
  case True
  then obtain t rnd where x: "x = BasisTick False t rnd" by blast
  show thesis
    by (rule basis_tick_offers [OF assms(1), of by_profit setString p t rnd])
       (use assms x that in \<open>simp add: marks_keep_hot\<close>)
next
  case False
  then show thesis using that assms(1,2) by (simp add: other_steps_gate)
qed

lemma step_basis_ttl:
  assumes "pred_option (\<lambda>c. cd_ttlMs c = ttl) (basis_gate s)"
  shows "pred_option (\<lambda>c. cd_ttlMs c = ttl) (basis_gate (fst (arb_service_step by_profit setString p s x)))"
proof (cases "basis_gate s")
  case None
  then have "basis_gate (fst (arb_service_step by_profit setString p s x)) = None"
    by (cases x) (auto simp: arb_service_step_def basis_gate_def handle_updates_basis strategy_tick_basis basis_tick_def)
  then show ?thesis by simp
next
  case (Some c)
  show ?thesis
  proof (cases "\<exists>t rnd. x = BasisTick False t rnd")
    case True
    then obtain t rnd where x: "x = BasisTick False t rnd" by blast
    show ?thesis
      by (rule basis_tick_offers [OF Some, of by_profit setString p t rnd]) (use assms Some x in simp)
  qed (use assms in \<open>simp add: other_steps_gate\<close>)
qed

lemma run_keeps_hot:
  assumes "\<forall>t rnd. BasisTick False t rnd \<in> set xs \<longrightarrow> now - t < ttl"
    and "basis_gate s = Some c" "cd_ttlMs c = ttl" "IsOnCooldown c k now"
  shows "\<exists>c'. basis_gate (fst (arb_service_run by_profit setString p (s, out) xs)) = Some c' \<and> cd_ttlMs c' = ttl \<and> IsOnCooldown c' k now"
  using assms
proof (induction xs arbitrary: s out c)
  case Nil
  then show ?case by (simp add: arb_service_run_def)
next
  case (Cons x xs)
  obtain s' new where x: "arb_service_step by_profit setString p s x = (s', new)" by fastforce
  have "\<forall>t rnd. x = BasisTick False t rnd \<longrightarrow> now - t < cd_ttlMs c" using Cons.prems(1,3) by auto
  from step_keeps_hot [OF Cons.prems(2,4) this, where by_profit = by_profit and setString = setString and p = p]
  obtain c' where "basis_gate s' = Some c'" "cd_ttlMs c' = ttl" "IsOnCooldown c' k now"
    using x Cons.prems(3) by auto
  moreover have "\<forall>t rnd. BasisTick False t rnd \<in> set xs \<longrightarrow> now - t < ttl" using Cons.prems(1) by auto
  ultimately show ?case using Cons.IH [of s' c' "out @ new"] x by (simp add: arb_service_run_def)
qed

lemma run_basis_ttl:
  "pred_option (\<lambda>c. cd_ttlMs c = ttl) (basis_gate s) \<Longrightarrow>
    pred_option (\<lambda>c. cd_ttlMs c = ttl) (basis_gate (fst (arb_service_run by_profit setString p (s, out) xs)))"
proof (induction xs arbitrary: s out)
  case Nil
  then show ?case by (simp add: arb_service_run_def)
next
  case (Cons x xs)
  obtain s' new where x: "arb_service_step by_profit setString p s x = (s', new)" by fastforce
  have "pred_option (\<lambda>c. cd_ttlMs c = ttl) (basis_gate s')"
    using step_basis_ttl [OF Cons.prems, of by_profit setString p x] x by simp
  then show ?case using Cons.IH [of s' "out @ new"] x by (simp add: arb_service_run_def)
qed

text \<open>
  Two basis intents of one venue and symbol are at least the configured cooldown apart, as long as
  no evaluation between them reads an earlier clock than the first.
\<close>

theorem basis_trades_respect_the_cooldown:
  assumes "s = fst (arb_service_run by_profit setString p (start_service p router, []) xs)"
    and "arb_service_step by_profit setString p s (BasisTick False t1 rnd1) = (s1, out1)" "i \<in> set out1"
    and "\<And>t rnd. BasisTick False t rnd \<in> set ys \<Longrightarrow> t1 \<le> t" "t1 \<le> t2"
    and "s2 = fst (arb_service_run by_profit setString p (s1, []) ys)"
    and "j \<in> set (snd (arb_service_step by_profit setString p s2 (BasisTick False t2 rnd2)))"
    and "ic_CooldownKey (ti_Constraints j) = ic_CooldownKey (ti_Constraints i)"
  shows "bc_CooldownMs (sp_BasisTrade p) \<le> t2 - t1"
proof (rule ccontr)
  let ?ttl = "bc_CooldownMs (sp_BasisTrade p)"
  assume early: "\<not> ?ttl \<le> t2 - t1"
  have "pred_option (\<lambda>c. cd_ttlMs c = ?ttl) (basis_gate s)"
    unfolding assms(1) by (rule run_basis_ttl) (simp add: start_service_def Let_def basis_gate_def NewCooldown_def)
  moreover have "basis_gate s \<noteq> None"
    using assms(2,3) by (auto simp: arb_service_step_def basis_tick_def basis_gate_def split: option.splits)
  ultimately obtain c where c: "basis_gate s = Some c" "cd_ttlMs c = ?ttl" by auto
  let ?k = "key_of i"
  obtain out where out: "out1 = map PublishTradeIntent out" "basis_gate s1 = Some (foldl (\<lambda>c i. Mark c (key_of i) t1) c out)"
    by (rule basis_tick_offers [OF c(1), of by_profit setString p t1 rnd1]) (use assms(2) in auto)
  obtain i' where i': "i' \<in> set out" "key_of i' = ?k" using assms(3) out(1) by (auto simp: PublishTradeIntent_def)
  have hot: "IsOnCooldown (foldl (\<lambda>c i. Mark c (key_of i) t1) c out) ?k t2"
    unfolding i'(2) [symmetric] by (rule marks_make_hot [OF i'(1)]) (use c(2) early in simp)
  have between: "\<forall>t rnd. BasisTick False t rnd \<in> set ys \<longrightarrow> t2 - t < ?ttl"
    using assms(4) early by force
  obtain c2 where c2: "basis_gate s2 = Some c2" "cd_ttlMs c2 = ?ttl" "IsOnCooldown c2 ?k t2"
    using run_keeps_hot [OF between out(2) _ hot, where by_profit = by_profit and setString = setString and p = p and out = "[]"] c(2) assms(6) by auto
  obtain P out' where o: "snd (arb_service_step by_profit setString p s2 (BasisTick False t2 rnd2)) = map PublishTradeIntent out'"
    "offered t2 P (Some c2, []) (basis_gate (fst (arb_service_step by_profit setString p s2 (BasisTick False t2 rnd2))), out')"
    by (rule basis_tick_offers [OF c2(1), of by_profit setString p t2 rnd2]) (rule that, simp_all)
  obtain j' where j': "j' \<in> set out'" "key_of j' = ?k" using assms(7,8) o(1) by (auto simp: PublishTradeIntent_def)
  have "0 < ?ttl" using early assms(5) by simp
  then have "\<not> IsOnCooldown c2 (key_of j') t2" using o(2) j'(1) c2(2) by (auto simp: offered_def)
  then show False using c2(3) j'(2) by simp
qed

section \<open>A concrete service\<close>


definition sample_service :: ArbServicePolicy where
  "sample_service =
     \<lparr>sp_engine = sample_arb, sp_BasisEnabled = True, sp_BasisTrade = basis_config, sp_BasisWindowSize = 100,
      sp_MarketQuotesStream = ''market:quotes'',
      sp_Cascade = \<lparr>cc_Enabled = True, cc_OIDropPct = 5, cc_PriceMoveBps = 50, cc_WindowMs = 60000, cc_NotionalUSD = 1000,
        cc_MaxSlippageBps = 10, cc_IntentTTLMs = 500, cc_CooldownMs = 1000\<rparr>,
      sp_Correlation = \<lparr>cr_Enabled = False, cr_PrimarySymbol = '''', cr_SecondarySymbol = '''', cr_WindowSize = 100,
        cr_MinCorrelation = 0, cr_BreakThreshold = 0, cr_SpreadZScoreMin = 2, cr_NotionalUSD = 1000,
        cr_MaxSlippageBps = 10, cr_IntentTTLMs = 500, cr_CooldownMs = 1000\<rparr>,
      sp_DEXCEX = \<lparr>dc_Enabled = False, dc_MinEdgeBps = 10, dc_MaxNotionalUSD = 1000, dc_MaxSlippageBps = 10,
        dc_IntentTTLMs = 500, dc_CooldownMs = 1000, dc_TokenAddresses = [], dc_StableAddress = '''', dc_ChainID = 1\<rparr>,
      sp_tenantID = ''t''\<rparr>"

definition quiet_router :: DexRouter where
  "quiet_router =
     \<lparr>dr_cfg = \<lparr>dx_Enabled = False, dx_PreferredProvider = '''', dx_MaxSlippagePct = 1, dx_MEVProtect = False\<rparr>,
      dr_oneInchQuote = (\<lambda>_. Inl (Txt ''off'')), dr_paraswapQuote = (\<lambda>_. Inl (Txt ''off''))\<rparr>"

abbreviation sample_turn :: arb_input where
  "sample_turn \<equiv> Turn False ''RUNNING'' [(sample_update 5, no_rnd)]"

lemma sample_turn_publishes:
  "snd (arb_service_step sample_sort setString sample_service (start_service sample_service r) sample_turn) =
     [PublishTradeIntent (sample_intent 5)]"
  using sample_emits [OF sample_engine_cold, of 5]
  by (simp add: arb_service_step_def handle_update_def case_prod_beta Let_def start_service_def sample_service_def)

theorem cascade_and_dex_strategies_never_trade_witness:
  "\<exists>i. i \<in> set (snd (arb_service_run sample_sort (\<lambda>_. 0) sample_service (start_service sample_service quiet_router, [])
      [sample_turn, StrategyTick False 20000 20000 20000 (\<lambda>_. no_rnd)])) \<and>
    ti_Strategy i \<in> {''CROSS_VENUE_ARB'', ''BASIS_TRADE'', ''CORRELATION_BREAK''}"
proof -
  let ?xs = "[sample_turn, StrategyTick False 20000 20000 20000 (\<lambda>_. no_rnd)]"
  have i: "PublishTradeIntent (sample_intent 5) \<in>
      set (snd (arb_service_run sample_sort (\<lambda>_. 0) sample_service (start_service sample_service quiet_router, []) ?xs))"
    using sample_turn_publishes [of "\<lambda>_. 0" quiet_router] by (simp add: arb_service_run_def case_prod_beta)
  have "0 < cc_PriceMoveBps (sp_Cascade sample_service)" "\<forall>x\<in>set ?xs. clock_ok x"
    by (simp_all add: sample_service_def clock_ok_def)
  from cascade_and_dex_strategies_never_trade [OF sample_sort_ok this i] i show ?thesis by blast
qed

theorem the_kill_switch_stops_the_service_witness:
  "snd (arb_service_step sample_sort (\<lambda>_. 0) sample_service (start_service sample_service quiet_router) sample_turn) \<noteq> [] \<and>
    (\<exists>updates. sample_turn = Turn False ''RUNNING'' updates)"
proof -
  have i: "PublishTradeIntent (sample_intent 5) \<in>
      set (snd (arb_service_step sample_sort (\<lambda>_. 0) sample_service (start_service sample_service quiet_router) sample_turn))"
    using sample_turn_publishes [of "\<lambda>_. 0" quiet_router] by simp
  from the_kill_switch_stops_the_service [OF sample_sort_ok i] sample_turn_publishes show ?thesis by auto
qed

lemma rising_tick:
  assumes "sv_basis s = Some (foldl (\<lambda>bt q. BasisRecordQuote q bt) (NewBasisTracker 100) rising_basis, c)"
    "\<not> IsOnCooldown c ''basis:BTC-PERP:okx'' t"
  shows "\<exists>i. arb_service_step by_profit setString sample_service s (BasisTick False t rnd) =
      (s\<lparr>sv_basis := Some (foldl (\<lambda>bt q. BasisRecordQuote q bt) (NewBasisTracker 100) rising_basis,
          Mark c ''basis:BTC-PERP:okx'' t)\<rparr>, [i]) \<and> key_of i = ''basis:BTC-PERP:okx''"
proof -
  have "\<not> cooling (Some c) ''basis:BTC-PERP:okx'' t" using assms(2) by (simp add: cooling_def)
  then obtain i where "EvaluateBasisTrades basis_config ''t'' t rnd
      (foldl (\<lambda>bt q. BasisRecordQuote q bt) (NewBasisTracker 100) rising_basis) (Some c) =
      (map_option (\<lambda>c. Mark c (key_of i) t) (Some c), [i])" "key_of i = ''basis:BTC-PERP:okx''"
    by (rule rising_emits [of "Some c" t rnd])
  with assms(1) show ?thesis
    by (intro exI [of _ "PublishTradeIntent i"])
       (simp add: arb_service_step_def basis_tick_def sample_service_def PublishTradeIntent_def)
qed

theorem basis_trades_respect_the_cooldown_witness:
  "\<exists>s1 out1 i j. arb_service_step sample_sort (\<lambda>_. 0) sample_service
      (fst (arb_service_run sample_sort (\<lambda>_. 0) sample_service (start_service sample_service quiet_router, []) [MarketQuotes rising_basis]))
      (BasisTick False 5 no_rnd) = (s1, out1) \<and> i \<in> set out1 \<and>
    j \<in> set (snd (arb_service_step sample_sort (\<lambda>_. 0) sample_service
      (fst (arb_service_run sample_sort (\<lambda>_. 0) sample_service (s1, []) [BasisTick True 500 no_rnd])) (BasisTick False 1005 no_rnd))) \<and>
    bc_CooldownMs (sp_BasisTrade sample_service) \<le> 1005 - 5"
proof -
  let ?bt = "foldl (\<lambda>bt q. BasisRecordQuote q bt) (NewBasisTracker 100) rising_basis"
  let ?k = "''basis:BTC-PERP:okx''"
  let ?step = "arb_service_step sample_sort (\<lambda>_. 0) sample_service"
  let ?run = "arb_service_run sample_sort (\<lambda>_. 0) sample_service"
  define s where "s = fst (?run (start_service sample_service quiet_router, []) [MarketQuotes rising_basis])"
  let ?c = "NewCooldown 1000"
  have s: "sv_basis s = Some (?bt, ?c)"
    by (simp add: s_def arb_service_run_def arb_service_step_def start_service_def Let_def sample_service_def basis_config_def)
  have "\<not> IsOnCooldown ?c ?k 5" by (simp add: IsOnCooldown_def NewCooldown_def)
  from rising_tick [OF s this, of sample_sort "\<lambda>_. 0" no_rnd] obtain i where
    i: "?step s (BasisTick False 5 no_rnd) = (s\<lparr>sv_basis := Some (?bt, Mark ?c ?k 5)\<rparr>, [i])" "key_of i = ?k" by blast
  let ?s1 = "s\<lparr>sv_basis := Some (?bt, Mark ?c ?k 5)\<rparr>"
  have cold: "IsOnCooldown (Mark ?c ?k 5) ?k t \<longleftrightarrow> t < 1005" for t by (auto simp: IsOnCooldown_def Mark_def NewCooldown_def)
  have s2: "fst (?run (?s1, []) [BasisTick True 500 no_rnd]) = ?s1" by (simp add: arb_service_run_def arb_service_step_def)
  have "sv_basis ?s1 = Some (?bt, Mark ?c ?k 5)" "\<not> IsOnCooldown (Mark ?c ?k 5) ?k 1005" using cold by simp_all
  from rising_tick [OF this, of sample_sort "\<lambda>_. 0" no_rnd] obtain j where
    j: "j \<in> set (snd (?step ?s1 (BasisTick False 1005 no_rnd)))" "key_of j = ?k" by auto
  have "bc_CooldownMs (sp_BasisTrade sample_service) \<le> 1005 - 5"
    by (rule basis_trades_respect_the_cooldown [OF s_def i(1) _ _ _ s2 [symmetric] j(1), of i]) (simp_all add: i(2) j(2))
  then show ?thesis
    using i(1) j(1) unfolding s_def [symmetric] by (intro exI [of _ ?s1] exI [of _ "[i]"] exI [of _ i] exI [of _ j]) (simp add: s2)
qed

end
