(* ===== verification/Execution_Router.thy ===== *)
theory Execution_Router
  imports Live_Executor Risk_Daemon
begin

text \<open>
  cmd/execution-router/main.go: the service that hands approved intents to the paper or the live
  executor and publishes what they report, and internal/eventbus/execution.go, which stamps the
  schema version.  The executor is an interface of the code and a locale here.  One input is one
  turn of the loop or what the goroutine with the prices reads; whether the bus takes the k-th
  message of a turn is part of the input.
\<close>

section \<open>The service\<close>

datatype router_out = EventOut ExecutionEvent | FillOut SimulatedFill

record 's Router =
  ro_exec :: 's
  ro_filled :: int
  ro_expired :: int
  ro_errors :: int

definition start_router :: "'s \<Rightarrow> 's Router" where
  "start_router s = \<lparr>ro_exec = s, ro_filled = 0, ro_expired = 0, ro_errors = 0\<rparr>"

text \<open>Every trading mode but LIVE gets the paper executor.\<close>

definition paper_router :: "ExecConfig \<Rightarrow> 'w Runtime \<Rightarrow> 'w \<Rightarrow> 'w PaperExecutor Router" where
  "paper_router cfg rt w = start_router (SetPositionWriter (NewPaperExecutor cfg NewPriceCache rt w))"

definition live_router :: "ExecConfig \<Rightarrow> ('w, 'c) Registry \<Rightarrow> 'w Runtime \<Rightarrow> 'w \<Rightarrow> ('w, 'c) LiveExecutor Router" where
  "live_router cfg registry rt w = start_router (NewLiveExecutor cfg NewPriceCache registry rt w)"

datatype router_input =
    Prices "ConsensusUpdate list"
  | RouterTurn string bool "gotext + TradeIntent list" "nat \<Rightarrow> bool"

definition PublishEvent :: "ExecutionEvent \<Rightarrow> router_out" where
  "PublishEvent ev = EventOut (ev\<lparr>ee_SchemaVersion := 1\<rparr>)"

definition PublishFill :: "SimulatedFill \<Rightarrow> router_out" where
  "PublishFill fill = FillOut (fill\<lparr>sf_SchemaVersion := 1\<rparr>)"

text \<open>A message the bus does not take is counted and gone.\<close>

definition hand_over :: "(nat \<Rightarrow> bool) \<Rightarrow> 's Router \<times> router_out list \<Rightarrow> router_out \<Rightarrow> 's Router \<times> router_out list" where
  "hand_over taken ro x =
     (case ro of (r, out) \<Rightarrow> (if taken (length out) then r else r\<lparr>ro_errors := ro_errors r + 1\<rparr>, out @ [x]))"

definition route_intent ::
  "(TradeIntent \<Rightarrow> ('s, ExecutionEvent list \<times> SimulatedFill option) state) \<Rightarrow> (nat \<Rightarrow> bool) \<Rightarrow>
   's Router \<times> router_out list \<Rightarrow> TradeIntent \<Rightarrow> 's Router \<times> router_out list" where
  "route_intent execute taken ro intent =
     (case ro of (r, out) \<Rightarrow>
        (let ((events, fill), s) = run_state (execute intent) (ro_exec r); r = r\<lparr>ro_exec := s\<rparr>
         in case fill of
              None \<Rightarrow> (r, out)
            | Some f \<Rightarrow>
                (if sf_IntentExpired f then (r\<lparr>ro_expired := ro_expired r + 1\<rparr>, out)
                 else (let (r, out) = hand_over taken (foldl (hand_over taken) (r, out) (map PublishEvent events)) (PublishFill f)
                       in (r\<lparr>ro_filled := ro_filled r + 1\<rparr>, out)))))"

definition router_step ::
  "(TradeIntent \<Rightarrow> ('s, ExecutionEvent list \<times> SimulatedFill option) state) \<Rightarrow> ((PriceCache \<Rightarrow> PriceCache) \<Rightarrow> 's \<Rightarrow> 's) \<Rightarrow>
   's Router \<Rightarrow> router_input \<Rightarrow> 's Router \<times> router_out list" where
  "router_step execute update r x =
     (case x of
        Prices us \<Rightarrow> (r\<lparr>ro_exec := foldl (\<lambda>s u. update (PriceCache_Update u) s) (ro_exec r) us\<rparr>, [])
      | RouterTurn mode kill batch taken \<Rightarrow>
          (if mode = ''FLATTEN'' \<or> mode = ''HALTED'' then (r, [])
           else if kill then (r, [])
           else (case batch of
               Inl err \<Rightarrow> (r\<lparr>ro_errors := ro_errors r + 1\<rparr>, [])
             | Inr intents \<Rightarrow> foldl (route_intent execute taken) (r, []) intents)))"

definition router_run ::
  "(TradeIntent \<Rightarrow> ('s, ExecutionEvent list \<times> SimulatedFill option) state) \<Rightarrow> ((PriceCache \<Rightarrow> PriceCache) \<Rightarrow> 's \<Rightarrow> 's) \<Rightarrow>
   's Router \<times> router_out list \<Rightarrow> router_input list \<Rightarrow> 's Router \<times> router_out list" where
  "router_run execute update =
     foldl (\<lambda>(r, out) x. case router_step execute update r x of (r', new) \<Rightarrow> (r', out @ new))"

definition paper_prices :: "(PriceCache \<Rightarrow> PriceCache) \<Rightarrow> 'w PaperExecutor \<Rightarrow> 'w PaperExecutor" where
  "paper_prices f e = e\<lparr>px_priceCache := f (px_priceCache e)\<rparr>"

definition live_prices :: "(PriceCache \<Rightarrow> PriceCache) \<Rightarrow> ('w, 'c) LiveExecutor \<Rightarrow> ('w, 'c) LiveExecutor" where
  "live_prices f e = e\<lparr>lx_priceCache := f (lx_priceCache e)\<rparr>"

section \<open>Runs\<close>

text \<open>The intents read in turns that neither the mode nor the kill switch forbids.\<close>

definition allowed_intents :: "router_input list \<Rightarrow> TradeIntent set" where
  "allowed_intents xs =
     {i. \<exists>mode intents taken. RouterTurn mode False (Inr intents) taken \<in> set xs \<and> mode \<noteq> ''FLATTEN'' \<and> mode \<noteq> ''HALTED'' \<and>
         i \<in> set intents}"

lemma allowed_simps [simp]:
  "allowed_intents [] = {}"
  "allowed_intents (Prices us # xs) = allowed_intents xs"
  "allowed_intents (RouterTurn mode kill (Inl err) taken # xs) = allowed_intents xs"
  "allowed_intents (RouterTurn mode kill (Inr intents) taken # xs) =
     (if mode = ''FLATTEN'' \<or> mode = ''HALTED'' \<or> kill then {} else set intents) \<union> allowed_intents xs"
  by (auto simp: allowed_intents_def)

lemma hand_over_exec [simp]: "ro_exec (fst (hand_over taken ro x)) = ro_exec (fst ro)" "snd (hand_over taken ro x) = snd ro @ [x]"
  by (simp_all add: hand_over_def split: prod.split)

lemma hand_overs_exec [simp]:
  "ro_exec (fst (foldl (hand_over taken) ro xs)) = ro_exec (fst ro)" "snd (foldl (hand_over taken) ro xs) = snd ro @ xs"
  by (induction xs arbitrary: ro) simp_all

text \<open>What one intent does: the executor runs once, and its report is published if there is a fill.\<close>

lemma route_intent_exec [simp]: "ro_exec (fst (route_intent execute taken ro intent)) = exec (execute intent) (ro_exec (fst ro))"
  by (auto simp: route_intent_def case_prod_beta Let_def exec_def split: option.split)

lemma route_intent_out:
  "snd (route_intent execute taken ro intent) = snd ro @
     (case run_state (execute intent) (ro_exec (fst ro)) of ((events, fill), s) \<Rightarrow>
        (case fill of None \<Rightarrow> []
         | Some f \<Rightarrow> (if sf_IntentExpired f then [] else map PublishEvent events @ [PublishFill f])))"
  by (auto simp: route_intent_def case_prod_beta Let_def split: option.split)

text \<open>An invariant of the executor that its runs on allowed intents and new prices keep is kept by the service.\<close>

lemma route_intents_inv:
  assumes "\<And>i s. i \<in> set intents \<Longrightarrow> J s \<Longrightarrow> J (exec (execute i) s)"
  shows "J (ro_exec (fst ro)) \<Longrightarrow> J (ro_exec (fst (foldl (route_intent execute taken) ro intents)))"
  using assms by (induction intents arbitrary: ro) simp_all

lemma router_step_inv:
  assumes "\<And>i s. i \<in> allowed_intents [x] \<Longrightarrow> J s \<Longrightarrow> J (exec (execute i) s)" "\<And>f s. J s \<Longrightarrow> J (update f s)" "J (ro_exec r)"
  shows "J (ro_exec (fst (router_step execute update r x)))"
proof (cases x)
  case (Prices us)
  have "J s \<Longrightarrow> J (foldl (\<lambda>s u. update (PriceCache_Update u) s) s us)" for s
    by (induction us arbitrary: s) (simp_all add: assms(2))
  then show ?thesis using assms(3) Prices by (simp add: router_step_def)
next
  case (RouterTurn mode kill batch taken)
  then show ?thesis
    using assms(1,3) route_intents_inv [of _ J execute "(r, [])" taken] by (cases batch) (auto simp: router_step_def)
qed

lemma allowed_Cons: "allowed_intents (x # xs) = allowed_intents [x] \<union> allowed_intents xs"
  unfolding allowed_intents_def list.set by blast

lemma router_run_inv:
  assumes "\<And>i s. i \<in> allowed_intents xs \<Longrightarrow> J s \<Longrightarrow> J (exec (execute i) s)" "\<And>f s. J s \<Longrightarrow> J (update f s)" "J (ro_exec r)"
  shows "J (ro_exec (fst (router_run execute update (r, out) xs)))"
  using assms(1,3)
proof (induction xs arbitrary: r out)
  case Nil
  then show ?case by (simp add: router_run_def)
next
  case (Cons x xs)
  obtain r' new where x: "router_step execute update r x = (r', new)" by fastforce
  have "J (ro_exec r')"
    using router_step_inv [of x J execute update r] Cons.prems assms(2) x allowed_Cons [of x xs] by force
  then show ?case using Cons.IH [of r' "out @ new"] Cons.prems(1) x allowed_Cons [of x xs] by (simp add: router_run_def)
qed

section \<open>What the service publishes\<close>

definition published_for :: "(TradeIntent \<Rightarrow> ExecutionEvent \<Rightarrow> bool) \<Rightarrow> TradeIntent set \<Rightarrow> router_out \<Rightarrow> bool" where
  "published_for reports intents x \<longleftrightarrow>
     (\<exists>i\<in>intents. case x of
        EventOut ev \<Rightarrow> ee_SchemaVersion ev = 1 \<and> reports i ev
      | FillOut f \<Rightarrow> sf_SchemaVersion f = 1 \<and> sf_IntentID f = ti_IntentID i)"

lemma published_mono: "published_for reports is x \<Longrightarrow> is \<subseteq> is' \<Longrightarrow> published_for reports is' x"
  by (auto simp: published_for_def)

section \<open>The contract of an executor\<close>

text \<open>
  Whatever its state, an executor keeps its invariant, and every event that comes with a fill that
  did not expire reports on the intent it was given.
\<close>

locale executor =
  fixes execute :: "TradeIntent \<Rightarrow> ('s, ExecutionEvent list \<times> SimulatedFill option) state"
    and update :: "(PriceCache \<Rightarrow> PriceCache) \<Rightarrow> 's \<Rightarrow> 's"
    and inv :: "'s \<Rightarrow> bool"
    and reports :: "TradeIntent \<Rightarrow> ExecutionEvent \<Rightarrow> bool"
  assumes execute_reports: "yields inv (execute intent) (\<lambda>r. \<forall>f. snd r = Some f \<longrightarrow> \<not> sf_IntentExpired f \<longrightarrow>
      (\<forall>ev\<in>set (fst r). reports intent ev) \<and> sf_IntentID f = ti_IntentID intent)"
    and update_inv: "inv s \<Longrightarrow> inv (update f s)"
    and version_free: "reports intent (ev\<lparr>ee_SchemaVersion := n\<rparr>) = reports intent ev"
begin

lemma intents_report:
  "inv (ro_exec (fst ro)) \<Longrightarrow> inv (ro_exec (fst (foldl (route_intent execute taken) ro intents))) \<and>
     (\<forall>x\<in>set (snd (foldl (route_intent execute taken) ro intents)). x \<in> set (snd ro) \<or> published_for reports (set intents) x)"
proof (induction intents arbitrary: ro)
  case Nil
  then show ?case by simp
next
  case (Cons i intents)
  let ?ro = "route_intent execute taken ro i"
  obtain events fill s where e: "run_state (execute i) (ro_exec (fst ro)) = ((events, fill), s)" by (metis surj_pair)
  have w: "inv s \<and> (\<forall>f. fill = Some f \<longrightarrow> \<not> sf_IntentExpired f \<longrightarrow>
      (\<forall>ev\<in>set events. reports i ev) \<and> sf_IntentID f = ti_IntentID i)"
    using wp_run [OF yieldsD [OF execute_reports Cons.prems] e] by simp
  then have "inv (ro_exec (fst ?ro))" using e by (simp add: exec_def)
  moreover have "\<forall>x\<in>set (snd ?ro). x \<in> set (snd ro) \<or> published_for reports {i} x"
    using w e by (auto simp: route_intent_out published_for_def PublishEvent_def PublishFill_def version_free split: option.splits if_splits)
  ultimately show ?case using Cons.IH [of ?ro] by (force intro: published_mono)
qed

lemma run_reports:
  assumes "inv (ro_exec r)" "x \<in> set (snd (router_run execute update (r, []) xs))"
  shows "published_for reports (allowed_intents xs) x"
proof -
  have "inv (ro_exec (fst (router_run execute update (r, out) xs))) \<and>
      (\<forall>x\<in>set (snd (router_run execute update (r, out) xs)). x \<in> set out \<or> published_for reports (allowed_intents xs) x)"
    if "inv (ro_exec r)" for r out
    using that
  proof (induction xs arbitrary: r out)
    case Nil
    then show ?case by (simp add: router_run_def)
  next
    case (Cons y ys)
    obtain r' new where y: "router_step execute update r y = (r', new)" by fastforce
    have "inv (ro_exec r') \<and> (\<forall>x\<in>set new. published_for reports (allowed_intents [y]) x)"
    proof (cases y)
      case (Prices us)
      have "inv s \<Longrightarrow> inv (foldl (\<lambda>s u. update (PriceCache_Update u) s) s us)" for s
        by (induction us arbitrary: s) (simp_all add: update_inv)
      then show ?thesis using Cons.prems Prices y by (auto simp: router_step_def)
    next
      case (RouterTurn mode kill batch taken)
      have "inv (ro_exec (fst (foldl (route_intent execute taken) (r, []) intents))) \<and>
          (\<forall>x\<in>set (snd (foldl (route_intent execute taken) (r, []) intents)). published_for reports (set intents) x)" for intents
        using intents_report [of "(r, [])" taken intents] Cons.prems by simp
      note all = this
      show ?thesis
      proof (cases batch)
        case (Inr intents)
        then show ?thesis using Cons.prems y RouterTurn all [of intents] by (auto simp: router_step_def split: if_splits)
      qed (use Cons.prems y RouterTurn in \<open>auto simp: router_step_def split: if_splits\<close>)
    qed
    then show ?case
      using Cons.IH [of r' "out @ new"] y allowed_Cons [of y ys] by (force simp: router_run_def intro: published_mono)
  qed
  from this [OF assms(1), of "[]"] assms(2) show ?thesis by simp
qed

end

section \<open>The paper executor\<close>

definition reports_on :: "string set \<Rightarrow> ExecConfig \<Rightarrow> TradeIntent \<Rightarrow> ExecutionEvent \<Rightarrow> bool" where
  "reports_on types cfg intent ev \<longleftrightarrow> ee_EventType ev \<in> types \<and> ee_IntentID ev = ti_IntentID intent \<and>
     ee_Symbol ev = ti_Symbol intent \<and> ee_Strategy ev = ti_Strategy intent \<and> ee_TenantID ev = xc_TenantID cfg \<and>
     ee_Mode ev = xc_TradingMode cfg \<and> 0 \<le> ee_LegIndex ev \<and> ee_LegIndex ev < int (length (ti_Legs intent))"

lemma reports_version: "reports_on types cfg intent (ev\<lparr>ee_SchemaVersion := n\<rparr>) = reports_on types cfg intent ev"
  by (simp add: reports_on_def)

lemma pres_px [pres_intros]:
  "pres (\<lambda>e. px_cfg e = cfg) (query q)" "pres (\<lambda>e. px_cfg e = cfg) (tell x)" "pres (\<lambda>e. px_cfg e = cfg) (acquire now)"
  by (simp_all add: pres_def acquire_def tryAcquireOrderSlot_def Let_def wp_def case_prod_beta)

lemma pres_px_draws [pres_intros]: "pres (\<lambda>e. px_cfg e = cfg) (draw_terms leg)"
  unfolding draw_terms_def draw_def Let_def by (intro pres_intros)

lemma pres_px_position [pres_intros]: "pres (\<lambda>e. px_cfg e = cfg) (updatePosition key q p n)"
  unfolding updatePosition_def Let_def by (intro pres_intros pres_modify) simp

lemma yields_draw_fill: "yields (\<lambda>e. px_cfg e = cfg) (draw_fill leg) (\<lambda>f. snd f \<in> {''ORDER_FILLED'', ''LEG_PARTIAL''})"
proof -
  have "pres (\<lambda>e :: 'a PaperExecutor. px_cfg e = cfg) (draw_fill leg)"
    unfolding draw_fill_def draw_def by (intro pres_intros)
  then show ?thesis unfolding yields_def by (intro allI impI wp_conj draw_fill_type) (rule presD)
qed

definition paper_types :: "string set" where
  "paper_types = {''ORDER_FILLED'', ''LEG_PARTIAL''}"

lemma fill_event_reports:
  "snd f \<in> paper_types \<Longrightarrow> 0 \<le> i \<Longrightarrow> i < int (length (ti_Legs intent)) \<Longrightarrow>
     reports_on paper_types cfg intent (fill_event cfg intent now mid i leg t f)"
  by (simp add: reports_on_def fill_event_def Let_def)

lemma yields_paper_leg:
  assumes "0 \<le> i" "i < int (length (ti_Legs intent))"
  shows "yields (\<lambda>e. px_cfg e = cfg) (paper_leg intent now mid i leg acc)
    (\<lambda>acc'. \<exists>ev. pa_events acc' = pa_events acc @ [ev] \<and> reports_on paper_types cfg intent ev)"
  unfolding paper_leg_def Let_def
  by (intro yields_asks yields_any [OF pres_px_draws] yields_bind [OF yields_draw_fill] yields_any [OF pres_px_position] yields_return)
     (auto simp: paper_types_def [symmetric] intro!: fill_event_reports assms)

lemma yields_paper_legs:
  "0 \<le> i \<Longrightarrow> i + int (length legs) \<le> int (length (ti_Legs intent)) \<Longrightarrow> \<forall>ev\<in>set (pa_events acc). reports_on paper_types cfg intent ev \<Longrightarrow>
     yields (\<lambda>e. px_cfg e = cfg) (paper_legs intent now mid i legs acc) (\<lambda>acc'. \<forall>ev\<in>set (pa_events acc'). reports_on paper_types cfg intent ev)"
proof (induction legs arbitrary: i acc)
  case Nil
  then show ?case by (simp add: yields_return)
next
  case (Cons leg legs)
  show ?case
    unfolding paper_legs.simps
    by (rule yields_bind [OF yields_paper_leg]) (use Cons in auto)
qed

lemma yields_PaperExecute:
  "yields (\<lambda>e. px_cfg e = cfg) (PaperExecute intent)
     (\<lambda>r. \<forall>f. snd r = Some f \<longrightarrow> \<not> sf_IntentExpired f \<longrightarrow>
        (\<forall>ev\<in>set (fst r). reports_on paper_types cfg intent ev) \<and> sf_IntentID f = ti_IntentID intent)"
proof -
  let ?P = "\<lambda>r. \<forall>f. snd r = Some f \<longrightarrow> \<not> sf_IntentExpired f \<longrightarrow>
      (\<forall>ev\<in>set (fst r). reports_on paper_types cfg intent ev) \<and> sf_IntentID f = ti_IntentID intent"
  have s: "sf_IntentID (paper_summary c intent now mid acc) = ti_IntentID intent" for c now mid acc
    by (simp add: paper_summary_def expired_fill_of_def Let_def)
  have run: "yields (\<lambda>e. px_cfg e = cfg) (paper_run intent now mid) ?P" for now mid
    unfolding paper_run_def
    by (intro yields_asks yields_bind [OF yields_paper_legs] yields_return) (auto simp: s)
  show ?thesis
    unfolding PaperExecute_def Let_def
    by (intro yields_asks yields_any [OF pres_px(1)] yields_any [OF pres_px(3)] yields_if yields_option yields_return run)
       (auto simp: expired_fill_of_def)
qed

interpretation paper_exec: executor PaperExecute paper_prices "\<lambda>e :: 'w PaperExecutor. px_cfg e = cfg" "reports_on paper_types cfg"
  for cfg :: ExecConfig
  by unfold_locales (rule yields_PaperExecute, simp add: paper_prices_def, rule reports_version)

section \<open>The live executor\<close>

definition live_types :: "string set" where
  "live_types = {''ORDER_FILLED'', ''LEG_PARTIAL'', ''ORDER_REJECTED'', ''HEDGE_DRIFT'', ''HEDGE_FAILED''}"

lemma live_types_simps [simp]:
  "''ORDER_FILLED'' \<in> live_types" "''LEG_PARTIAL'' \<in> live_types" "''ORDER_REJECTED'' \<in> live_types"
  "''HEDGE_DRIFT'' \<in> live_types" "''HEDGE_FAILED'' \<in> live_types"
  by (simp_all add: live_types_def)














section \<open>Properties of the service\<close>


text \<open>The prices the executor has after some inputs, and the turn in which an intent was read.\<close>

definition cache_after :: "PriceCache \<Rightarrow> router_input list \<Rightarrow> PriceCache" where
  "cache_after = foldl (\<lambda>c x. case x of Prices us \<Rightarrow> foldl (\<lambda>c u. PriceCache_Update u c) c us | RouterTurn _ _ _ _ \<Rightarrow> c)"

definition read_after :: "router_input list \<Rightarrow> router_input list \<Rightarrow> TradeIntent \<Rightarrow> bool" where
  "read_after xs ys i \<longleftrightarrow> (\<exists>mode intents taken zs. xs = ys @ RouterTurn mode False (Inr intents) taken # zs \<and>
     mode \<noteq> ''FLATTEN'' \<and> mode \<noteq> ''HALTED'' \<and> i \<in> set intents)"

lemma read_after_allowed: "read_after xs ys i \<Longrightarrow> i \<in> allowed_intents xs"
  unfolding read_after_def allowed_intents_def
  by (elim exE conjE, intro CollectI exI conjI, rule in_set_conv_decomp [THEN iffD2]) auto

lemma read_after_more: "read_after xs ys i \<Longrightarrow> read_after (xs @ zs) ys i"
  by (auto simp: read_after_def)

interpretation live_cache: desk_invariant "\<lambda>e :: ('w, 'c) LiveExecutor. lx_priceCache e = c" for c :: PriceCache
  by unfold_locales simp_all

definition order_ok :: "('w, 'c) LiveExecutor \<Rightarrow> router_input list \<Rightarrow> live_out \<Rightarrow> bool" where
  "order_ok e xs x \<longleftrightarrow> (\<exists>ys i. read_after xs ys i \<and> \<not> exceeds_order_cap (lx_cfg e) i \<and>
     (\<exists>mid. PriceCache_Mid (cache_after (lx_priceCache e) ys) (ti_Symbol i) = Some mid \<and> mid \<noteq> 0 \<and>
        live_out_ok (venue_constraints (lx_registry e)) (ti_Symbol i) (set (ti_Legs i)) mid x))"

definition live_inv :: "('w, 'c) LiveExecutor \<Rightarrow> PriceCache \<Rightarrow> router_input list \<Rightarrow> ('w, 'c) LiveExecutor \<Rightarrow> bool" where
  "live_inv e c xs s \<longleftrightarrow> lx_cfg s = lx_cfg e \<and> lx_priceCache s = c \<and> known_clients (lx_registry e) s \<and>
     (\<forall>x\<in>set (trace s). order_ok e xs x)"

lemma execute_keeps_live_inv:
  assumes "live_inv e (cache_after (lx_priceCache e) ys) xs s" "read_after xs ys i"
  shows "live_inv e (cache_after (lx_priceCache e) ys) xs (exec (LiveExecute i) s)"
proof -
  have s: "lx_cfg s = lx_cfg e" "lx_priceCache s = cache_after (lx_priceCache e) ys" "known_clients (lx_registry e) s"
    using assms(1) by (simp_all add: live_inv_def)
  obtain new where new: "trace (exec (LiveExecute i) s) = trace s @ new" "\<forall>x\<in>set new. caps_passed s i \<and>
      (\<exists>mid. PriceCache_Mid (lx_priceCache s) (ti_Symbol i) = Some mid \<and> mid \<noteq> 0 \<and>
        live_out_ok (venue_constraints (lx_registry e)) (ti_Symbol i) (set (ti_Legs i)) mid x)"
    using LiveExecute_sends [OF s(3), of i] by (auto simp: wp_exec)
  have "\<forall>x\<in>set new. order_ok e xs x"
    using new(2) s(1,2) assms(2) unfolding order_ok_def caps_passed_def by metis
  then show ?thesis
    using assms(1) new(1) pres_exec [OF live_cfg.pres_LiveExecute s(1)] pres_exec [OF live_cache.pres_LiveExecute s(2)]
      pres_exec [OF live_clients.pres_LiveExecute s(3)]
    by (auto simp: live_inv_def)
qed

lemma live_inv_more: "live_inv e c xs s \<Longrightarrow> live_inv e c (xs @ zs) s"
  unfolding live_inv_def order_ok_def by (meson read_after_more)

lemma live_prices_inv:
  "live_inv e c xs s \<Longrightarrow>
     live_inv e (foldl (\<lambda>c u. PriceCache_Update u c) c us) xs (foldl (\<lambda>s u. live_prices (PriceCache_Update u) s) s us)"
proof (induction us arbitrary: c s)
  case (Cons u us)
  have "live_inv e (PriceCache_Update u c) xs (live_prices (PriceCache_Update u) s)"
    using Cons.prems by (simp add: live_inv_def live_prices_def known_clients_def)
  from Cons.IH [OF this] show ?case by simp
qed simp

lemma router_step_live_inv:
  assumes "live_inv e (cache_after (lx_priceCache e) xs) xs (ro_exec r)"
  shows "live_inv e (cache_after (lx_priceCache e) (xs @ [x])) (xs @ [x]) (ro_exec (fst (router_step LiveExecute live_prices r x)))"
proof (cases x)
  case (Prices us)
  from live_prices_inv [OF live_inv_more [OF assms, of "[x]"], of us] show ?thesis
    unfolding Prices by (simp add: router_step_def cache_after_def)
next
  case (RouterTurn mode kill batch taken)
  have c: "cache_after (lx_priceCache e) (xs @ [x]) = cache_after (lx_priceCache e) xs"
    using RouterTurn by (simp add: cache_after_def)
  have "live_inv e (cache_after (lx_priceCache e) xs) (xs @ [x]) (ro_exec (fst (foldl (route_intent LiveExecute taken) (r, []) intents)))"
    if "batch = Inr intents" "mode \<noteq> ''FLATTEN''" "mode \<noteq> ''HALTED''" "\<not> kill" for intents
  proof (rule route_intents_inv)
    fix i s
    assume "i \<in> set intents" "live_inv e (cache_after (lx_priceCache e) xs) (xs @ [x]) s"
    moreover have "read_after (xs @ [x]) xs i" using that calculation(1) RouterTurn by (auto simp: read_after_def)
    ultimately show "live_inv e (cache_after (lx_priceCache e) xs) (xs @ [x]) (exec (LiveExecute i) s)"
      by (intro execute_keeps_live_inv)
  qed (use live_inv_more [OF assms] in simp)
  then have "\<And>intents. batch = Inr intents \<Longrightarrow> \<not> (mode = ''FLATTEN'' \<or> mode = ''HALTED'') \<Longrightarrow> \<not> kill \<Longrightarrow>
      live_inv e (cache_after (lx_priceCache e) xs) (xs @ [x]) (ro_exec (fst (foldl (route_intent LiveExecute taken) (r, []) intents)))"
    by blast
  then show ?thesis
    using live_inv_more [OF assms, of "[x]"] c unfolding router_step_def RouterTurn by (auto split: sum.split)
qed

lemma router_run_live_inv:
  assumes "trace e = []"
  shows "live_inv e (cache_after (lx_priceCache e) xs) xs (ro_exec (fst (router_run LiveExecute live_prices (start_router e, []) xs)))"
proof (induction xs rule: rev_induct)
  case Nil
  show ?case using assms by (simp add: router_run_def start_router_def live_inv_def cache_after_def known_clients_def)
next
  case (snoc x xs)
  have "fst (router_run LiveExecute live_prices (start_router e, []) (xs @ [x])) =
      fst (router_step LiveExecute live_prices (fst (router_run LiveExecute live_prices (start_router e, []) xs)) x)"
    by (simp add: router_run_def case_prod_beta)
  then show ?case using router_step_live_inv [OF snoc, of x] by (simp only:)
qed

text \<open>
  C3.  An order of the live service is one of an intent that was read in a turn neither the mode nor the
  kill switch forbade and whose legs are within the cap of one order: it opens a leg of that intent,
  at a price between the consensus price the service had at that turn and the leg's slippage
  limit, rounded to the tick of constraints that the client of the venue can have answered with,
  or may only reduce a position.
\<close>

theorem live_orders_belong_to_allowed_intents:
  fixes e :: "('w, 'c) LiveExecutor"
  assumes "trace e = []"
    and "Placed v req a \<in> set (trace (ro_exec (fst (router_run LiveExecute live_prices (start_router e, []) xs))))"
  shows "\<exists>i\<in>allowed_intents xs. \<exists>ys mid. read_after xs ys i \<and> \<not> exceeds_order_cap (lx_cfg e) i \<and>
    PriceCache_Mid (cache_after (lx_priceCache e) ys) (ti_Symbol i) = Some mid \<and> mid \<noteq> 0 \<and>
    (closes_leg req \<or>
     (\<exists>leg\<in>set (ti_Legs i). opens_leg (venue_constraints (lx_registry e)) (ti_Symbol i) leg mid v req))"
proof -
  have "order_ok e xs (Placed v req a)"
    using router_run_live_inv [OF assms(1), of xs] assms(2) by (simp add: live_inv_def)
  then show ?thesis
    unfolding order_ok_def live_out_ok_def using read_after_allowed by fastforce
qed

text \<open>
  What the risk daemon can have seen when its execution events are among those of \<open>types\<close>.
\<close>

inductive svc_fed :: "RiskPolicy \<Rightarrow> string set \<Rightarrow> Service \<Rightarrow> bool" for p types where
  start: "svc_fed p types (main_init p)"
| tick: "svc_fed p types s \<Longrightarrow> svc_fed p types (fst (main_tick cmd kill now clk s))"
| flatten: "svc_fed p types s \<Longrightarrow> svc_fed p types (fst (main_flatten n opened now now' s))"
| status: "svc_fed p types s \<Longrightarrow> svc_fed p types (fst (main_status_update st venue ttl now now' clk s))"
| event: "svc_fed p types s \<Longrightarrow> evt \<in> types \<Longrightarrow> svc_fed p types (fst (main_exec_event evt now now' clk s))"

lemma svc_fed_reachable: "svc_fed p types s \<Longrightarrow> svc_reachable p s"
  by (induction rule: svc_fed.induct) (blast intro: svc_reachable.intros svc_step.intros)+

lemma svc_fed_no_errors:
  assumes "svc_fed p types s" "''ORDER_REJECTED'' \<notin> types" "''HEDGE_FAILED'' \<notin> types"
  shows "dm_errorEvents (sv_daemon s) = []"
  using assms(1)
proof (induction rule: svc_fed.induct)
  case start
  show ?case by (simp add: main_init_def NewDaemon_def)
next
  case (tick s cmd kill now clk)
  then show ?case
    by (auto simp: main_tick_def Tick_def SetMode_def Let_def case_prod_unfold split: option.split)
next
  case (flatten s n opened now now')
  then show ?case by (auto simp: main_flatten_def SetMode_def Let_def)
next
  case (status s st venue ttl now now' clk)
  then show ?case by (auto simp: main_status_update_def RecordBlacklist_def Let_def case_prod_unfold)
next
  case (event s evt now now' clk)
  then have "evt \<noteq> ''ORDER_REJECTED''" "evt \<noteq> ''HEDGE_FAILED''" using assms(2,3) by auto
  with event show ?case by (auto simp: main_exec_event_def RecordFill_def Let_def case_prod_unfold)
qed

definition event_types :: "router_out list \<Rightarrow> string set" where
  "event_types out = {ee_EventType ev | ev. EventOut ev \<in> set out}"

text \<open>
  C13.  In paper and shadow trading the risk daemon never sees an error: whatever the paper service was
  given, the daemon that receives its events has an error rate of 0 (and no drawdown), as the one
  rejection the executor makes comes without a fill and is not published.
\<close>

theorem paper_trading_reports_no_errors:
  fixes e :: "'w PaperExecutor"
  assumes "svc_fed p (event_types (snd (router_run PaperExecute paper_prices (start_router e, []) xs))) s"
  shows "errorRate (sv_daemon s) = 0 \<and> drawdown (sv_daemon s) = 0"
proof -
  let ?out = "snd (router_run PaperExecute paper_prices (start_router e, []) xs)"
  have c: "px_cfg (ro_exec (start_router e)) = px_cfg e" by (simp add: start_router_def)
  have "event_types ?out \<subseteq> paper_types"
    using paper_exec.run_reports [OF c, of _ xs] by (force simp: event_types_def published_for_def reports_on_def)
  then have "dm_errorEvents (sv_daemon s) = []"
    using svc_fed_no_errors [OF assms] by (auto simp: paper_types_def)
  moreover have "drawdown (sv_daemon s) = 0"
    using svc_blind [OF svc_fed_reachable [OF assms]] by (simp add: blind_def drawdown_def)
  ultimately show ?thesis by (simp add: errorRate_def)
qed

text \<open>An execution without a fill publishes nothing, so what the live executor rejects at its caps is not reported.\<close>

lemma cap_rejections_are_not_published:
  assumes "exceeds_order_cap (lx_cfg (ro_exec (fst ro))) i" "start_ms (ro_exec (fst ro)) \<le> ti_ExpiresMs i"
  shows "snd (route_intent LiveExecute taken ro i) = snd ro"
proof -
  have "wp (LiveExecute i) (\<lambda>r _. snd r = None) (ro_exec (fst ro))"
    unfolding LiveExecute_def using assms by (simp add: live_now_def case_prod_beta start_ms_def)
  then show ?thesis by (auto simp: route_intent_out wp_def split: prod.splits option.splits)
qed

section \<open>Concrete runs\<close>

definition one_turn :: "router_input list" where
  "one_turn = [RouterTurn ''RUNNING'' False (Inr [pair_intent 100]) (\<lambda>_. True)]"

lemma one_turn_allowed: "allowed_intents one_turn = {pair_intent 100}"
  by (simp add: one_turn_def)

abbreviation small_desks :: "(go_time, unit) LiveExecutor" where
  "small_desks \<equiv> two_desks 1 (desk filling None) (desk filling (Some ((of_size 0)\<lparr>vc_MinNotional := 200\<rparr>)))"

lemma pres_True: "pres (\<lambda>_. True) m"
  by (simp add: pres_def wp_top)

text \<open>An expired execution has no events.\<close>

lemma expired_without_events:
  "yields (\<lambda>_. True) (LiveExecute intent) (\<lambda>r. \<forall>f. snd r = Some f \<longrightarrow> sf_IntentExpired f \<longrightarrow> fst r = [])"
proof -
  have run: "yields (\<lambda>_. True) (live_run intent now mid) (\<lambda>r. \<forall>f. snd r = Some f \<longrightarrow> sf_IntentExpired f \<longrightarrow> fst r = [])" for now mid
    unfolding live_run_def
    by (intro yields_any [OF pres_True] yields_return) (simp add: live_summary_def expired_fill_of_def Let_def)
  show ?thesis
    unfolding LiveExecute_def
    by (intro yields_any [OF pres_True] yields_asks yields_if yields_option yields_return run) simp_all
qed

lemma small_desks_turn:
  obtains req ev fill where
    "trace (ro_exec (fst (router_run LiveExecute live_prices (start_router small_desks, []) one_turn))) = [Placed ''binance'' req (filling req)]"
    "snd (router_run LiveExecute live_prices (start_router small_desks, []) one_turn) = [PublishEvent ev, PublishFill fill]"
    "ee_EventType ev = ''ORDER_FILLED''" "\<not> or_ReduceOnly req"
proof -
  obtain req ev fill where r: "trace (exec (LiveExecute (pair_intent 100)) small_desks) = [Placed ''binance'' req (filling req)]"
    "fst (run_state (LiveExecute (pair_intent 100)) small_desks) = ([ev], Some fill)" "ee_EventType ev = ''ORDER_FILLED''" "\<not> or_ReduceOnly req"
    using a_small_second_leg_leaves_the_first_unhedged_run [of 100 1 200] by auto
  obtain e' where e': "run_state (LiveExecute (pair_intent 100)) small_desks = (([ev], Some fill), e')"
    using r(2) by (cases "run_state (LiveExecute (pair_intent 100)) small_desks") simp
  have "\<not> sf_IntentExpired fill"
    using wp_run [OF yieldsD [OF expired_without_events TrueI] e'] by auto
  moreover have "snd (route_intent LiveExecute (\<lambda>_. True) (start_router small_desks, []) (pair_intent 100)) =
      (if sf_IntentExpired fill then [] else [PublishEvent ev, PublishFill fill])"
    unfolding route_intent_out by (simp add: start_router_def e')
  moreover have "ro_exec (fst (route_intent LiveExecute (\<lambda>_. True) (start_router small_desks, []) (pair_intent 100))) =
      exec (LiveExecute (pair_intent 100)) small_desks"
    by (simp add: start_router_def)
  ultimately show thesis
    using r by (intro that [of req ev fill]) (simp_all add: router_run_def one_turn_def router_step_def case_prod_beta)
qed


lemma live_orders_belong_to_allowed_intents_witness:
  "\<exists>req. trace (ro_exec (fst (router_run LiveExecute live_prices (start_router small_desks, []) one_turn))) =
      [Placed ''binance'' req (filling req)] \<and> \<bar>or_Price req - 1\<bar> \<le> 10 / 10000"
proof (rule small_desks_turn)
  fix req
  assume t: "trace (ro_exec (fst (router_run LiveExecute live_prices (start_router small_desks, []) one_turn))) = [Placed ''binance'' req (filling req)]"
    and r: "\<not> or_ReduceOnly req"
  have i: "Placed ''binance'' req (filling req) \<in>
      set (trace (ro_exec (fst (router_run LiveExecute live_prices (start_router small_desks, []) one_turn))))"
    unfolding t by simp
  have "trace small_desks = []" by simp
  from live_orders_belong_to_allowed_intents [OF this i] obtain ys mid where y: "read_after one_turn ys (pair_intent 100)"
    "PriceCache_Mid (cache_after (lx_priceCache small_desks) ys) ''BTC-PERP'' = Some mid"
    "closes_leg req \<or> (\<exists>leg\<in>set (ti_Legs (pair_intent 100)).
       opens_leg (venue_constraints (lx_registry small_desks)) ''BTC-PERP'' leg mid ''binance'' req)"
    unfolding one_turn_allowed by auto
  have "ys = []" using y(1) by (auto simp: read_after_def one_turn_def Cons_eq_append_conv)
  then have mid: "mid = 1" using y(2) by (simp add: cache_after_def PriceCache_Mid_def)
  have "\<bar>or_Price req - 1\<bar> \<le> 10 / 10000"
    if "leg \<in> set (ti_Legs (pair_intent 100))"
      "opens_leg (venue_constraints (lx_registry small_desks)) ''BTC-PERP'' leg mid ''binance'' req" for leg
  proof -
    have s: "tl_MaxSlippageBps leg = 10" using that(1) by (auto simp: pair_leg_def)
    have "\<bar>or_Price req - mid\<bar> \<le> mid * tl_MaxSlippageBps leg / 10000 + 0 / 2"
      by (rule opens_leg_price [OF that(2)]) (simp_all add: mid s desk_clients no_constraints_def)
    then show ?thesis using mid s by simp
  qed
  then show ?thesis using t y(3) r by (auto simp: closes_leg_def)
qed

definition paper_desk :: "go_time PaperExecutor" where
  "paper_desk = NewPaperExecutor (paper_config 0) \<lparr>pc_mids = [''BTC-PERP'' \<mapsto> 100], pc_bands = Map.empty\<rparr> sleepy_runtime 0"

lemma paper_trading_reports_no_errors_witness:
  "''ORDER_FILLED'' \<in> event_types (snd (router_run PaperExecute paper_prices (start_router paper_desk, []) one_turn)) \<and>
    errorRate (sv_daemon (fst (main_exec_event ''ORDER_FILLED'' 1 1 (\<lambda>_. 0) (main_init sample_risk_policy)))) = 0"
proof -
  have "wp (PaperExecute (pair_intent 100)) (\<lambda>r _. \<exists>ev evs f. r = (ev # evs, Some f) \<and> ee_EventType ev = ''ORDER_FILLED'' \<and> \<not> sf_IntentExpired f) paper_desk"
    by (simp add: PaperExecute_def Let_def acquire_def paper_desk_def NewPaperExecutor_def paper_config_def PriceCache_Mid_def
        paper_run_def paper_leg_def draw_terms_def draw_fill_def draw_def venue_profile_def updatePosition_def UnixMilli_def
        paper_summary_def)
  then obtain ev evs f e' where r: "run_state (PaperExecute (pair_intent 100)) paper_desk = ((ev # evs, Some f), e')"
    "ee_EventType ev = ''ORDER_FILLED''" "\<not> sf_IntentExpired f"
    by (auto simp: wp_def split: prod.splits)
  have o: "snd (router_run PaperExecute paper_prices (start_router paper_desk, []) one_turn) =
      map PublishEvent (ev # evs) @ [PublishFill f]"
    by (simp add: router_run_def one_turn_def router_step_def case_prod_beta route_intent_out start_router_def r)
  have t: "''ORDER_FILLED'' \<in> event_types (snd (router_run PaperExecute paper_prices (start_router paper_desk, []) one_turn))"
    unfolding o event_types_def using r(2) by (auto simp: PublishEvent_def intro!: exI [of _ "ev\<lparr>ee_SchemaVersion := 1\<rparr>"])
  from paper_trading_reports_no_errors [OF svc_fed.event [OF svc_fed.start t]] t show ?thesis by blast
qed

end
