(* ===== verification/Smart_Router.thy ===== *)
theory Smart_Router
  imports Interfaces "HOL-Library.Sublist" "HOL-Library.AList" "HOL-Library.Multiset"
begin

text \<open>
  internal/smartrouter/: the router that chooses a venue, an order type and a sequence for the legs
  of a trade from the depth of the books and the history of fills (router.go), and the engine of
  passive orders (passive.go).  Every call of \<open>venueStats\<close> reads the clock; the readings are a
  function of the leg, the candidate and the call.  \<open>sort.Slice\<close> is any function that sorts.
\<close>

section \<open>Data\<close>

record VenueScore =
  vq_Venue :: string
  vq_FillProbability :: float64
  vq_SlippageBps :: float64
  vq_LatencyMs :: float64
  vq_ReliabilityPct :: float64
  vq_DepthUSD :: float64
  vq_Score :: float64

datatype ExecutionStrategy = StrategySimultaneous | StrategyHedgeFirst | StrategyAggrFirst | StrategyPassive

datatype RouteOrder = OrderMarket | OrderLimit | OrderIOC

record RoutedLeg =
  rl_Venue :: string
  rl_Action :: string
  rl_OrderType :: RouteOrder
  rl_SizeUSD :: float64
  rl_PriceLimit :: float64
  rl_Priority :: int
  rl_Scores :: VenueScore

record RoutingDecision =
  rd_Symbol :: string
  rd_Strategy :: ExecutionStrategy
  rd_Legs :: "RoutedLeg list"
  rd_EstPnLBps :: float64
  rd_Confidence :: float64
  rd_TsMs :: int64

record VenueStats =
  vt_Venue :: string
  vt_FillCount :: int
  vt_RejectCount :: int
  vt_AvgSlippageBps :: float64
  vt_AvgLatencyMs :: float64
  vt_ReliabilityPct :: float64
  vt_LastUpdateMs :: int64

record FillRecord =
  fr_Venue :: string
  fr_TsMs :: int64
  fr_SlippageBps :: float64
  fr_LatencyMs :: float64
  fr_Filled :: bool

record RouterConfig =
  rc_FillProbWeight :: float64
  rc_SlippageWeight :: float64
  rc_LatencyWeight :: float64
  rc_ReliabilityWeight :: float64
  rc_DepthWeight :: float64
  rc_DepthRefUSD :: float64
  rc_MaxSlippageBps :: float64
  rc_PassiveSpreadMinBps :: float64
  rc_HistoryWindowMs :: int64

definition DefaultRouterConfig :: RouterConfig where
  "DefaultRouterConfig =
     \<lparr>rc_FillProbWeight = 0.30, rc_SlippageWeight = 0.25, rc_LatencyWeight = 0.20, rc_ReliabilityWeight = 0.15,
      rc_DepthWeight = 0.10, rc_DepthRefUSD = 500000, rc_MaxSlippageBps = 15, rc_PassiveSpreadMinBps = 3,
      rc_HistoryWindowMs = 300000\<rparr>"

record SmartRouter =
  sm_fillHistory :: "string \<rightharpoonup> FillRecord list"
  sm_cfg :: RouterConfig
  sm_maxHistory :: nat

definition NewRouter :: "RouterConfig \<Rightarrow> SmartRouter" where
  "NewRouter cfg = \<lparr>sm_fillHistory = Map.empty, sm_cfg = cfg, sm_maxHistory = 1000\<rparr>"

record LegRequest =
  lq_Action :: string
  lq_SizeUSD :: float64
  lq_CandidateVenues :: "string list"
  lq_MaxSlippageBps :: float64

record VenueDepth =
  vd_Venue :: string
  vd_BidDepthUSD :: float64
  vd_AskDepthUSD :: float64
  vd_BestBid :: float64
  vd_BestAsk :: float64
  vd_SpreadBps :: float64
  vd_LatencyUs :: int64

section \<open>The history of fills\<close>

definition history_of :: "SmartRouter \<Rightarrow> string \<Rightarrow> FillRecord list" where
  "history_of r venue = (case sm_fillHistory r venue of None \<Rightarrow> [] | Some h \<Rightarrow> h)"

definition venueStats :: "SmartRouter \<Rightarrow> int64 \<Rightarrow> int64 \<Rightarrow> string \<Rightarrow> VenueStats" where
  "venueStats r now now' venue =
     (let recent = filter (\<lambda>f. \<not> fr_TsMs f < now - rc_HistoryWindowMs (sm_cfg r)) (history_of r venue);
          filled = filter fr_Filled recent;
          fills = length filled; rejects = length (filter (\<lambda>f. \<not> fr_Filled f) recent)
      in \<lparr>vt_Venue = venue, vt_FillCount = int fills, vt_RejectCount = int rejects,
          vt_AvgSlippageBps = (if 0 < fills then (\<Sum>f\<leftarrow>filled. fr_SlippageBps f) / real fills else 3),
          vt_AvgLatencyMs = (if 0 < fills then (\<Sum>f\<leftarrow>filled. fr_LatencyMs f) / real fills else 50),
          vt_ReliabilityPct = (if 0 < fills + rejects then real fills / real (fills + rejects) * 100 else 80),
          vt_LastUpdateMs = now'\<rparr>)"

definition trim_history :: "nat \<Rightarrow> int64 \<Rightarrow> FillRecord list \<Rightarrow> FillRecord list" where
  "trim_history n cutoff h =
     (let h = dropWhile (\<lambda>f. fr_TsMs f < cutoff) h in if n < length h then drop (length h - n) h else h)"

definition RecordRouteFill :: "int64 \<Rightarrow> FillRecord \<Rightarrow> SmartRouter \<Rightarrow> SmartRouter" where
  "RecordRouteFill now rec r =
     r\<lparr>sm_fillHistory := (sm_fillHistory r)(fr_Venue rec \<mapsto>
        trim_history (sm_maxHistory r) (now - rc_HistoryWindowMs (sm_cfg r)) (history_of r (fr_Venue rec) @ [rec]))\<rparr>"

section \<open>Scores\<close>

definition estimateFillProbability :: "SmartRouter \<Rightarrow> int64 \<Rightarrow> int64 \<Rightarrow> string \<Rightarrow> float64 \<Rightarrow> float64 \<Rightarrow> float64" where
  "estimateFillProbability r now now' venue sizeUSD depthUSD =
     (if depthUSD = 0 then 0
      else
        (let ratio = sizeUSD / depthUSD
         in if 1 < ratio then 0.1
            else
              (let h = vt_ReliabilityPct (venueStats r now now' venue) / 100;
                   histProb = (if h = 0 then 0.8 else h);
                   depthProb = max 0.1 (1 - ratio * ratio)
               in 0.5 * depthProb + 0.5 * histProb)))"

definition estimateSlippage :: "SmartRouter \<Rightarrow> int64 \<Rightarrow> int64 \<Rightarrow> string \<Rightarrow> float64 \<Rightarrow> float64 \<Rightarrow> float64 \<Rightarrow> float64" where
  "estimateSlippage r now now' venue sizeUSD depthUSD spreadBps =
     (if depthUSD = 0 then 100
      else
        (let base = spreadBps / 2; impact = sizeUSD / depthUSD * 20; stats = venueStats r now now' venue
         in if 5 < vt_FillCount stats then 0.4 * vt_AvgSlippageBps stats + 0.6 * (base + impact) else base + impact))"

definition scoreVenue :: "RouterConfig \<Rightarrow> float64 \<Rightarrow> float64 \<Rightarrow> float64 \<Rightarrow> float64 \<Rightarrow> float64 \<Rightarrow> float64" where
  "scoreVenue cfg fillProb slipBps latencyMs reliabilityPct depthUSD =
     rc_FillProbWeight cfg * fillProb + rc_SlippageWeight cfg * max 0 (1 - slipBps / rc_MaxSlippageBps cfg) +
     rc_LatencyWeight cfg * max 0 (1 - latencyMs / 500) + rc_ReliabilityWeight cfg * (reliabilityPct / 100) +
     rc_DepthWeight cfg * min 1 (depthUSD / rc_DepthRefUSD cfg)"

section \<open>The venue of a leg\<close>

definition relevant_depth :: "string \<Rightarrow> VenueDepth \<Rightarrow> float64" where
  "relevant_depth action d = (if action = ''BUY'' then vd_AskDepthUSD d else vd_BidDepthUSD d)"

definition candidate ::
  "SmartRouter \<Rightarrow> (nat \<Rightarrow> int64 \<times> int64) \<Rightarrow> LegRequest \<Rightarrow> string \<Rightarrow> VenueDepth \<Rightarrow> VenueScore" where
  "candidate r clk leg v d =
     (let depth = relevant_depth (lq_Action leg) d;
          fillProb = estimateFillProbability r (fst (clk 0)) (snd (clk 0)) v (lq_SizeUSD leg) depth;
          slipEst = estimateSlippage r (fst (clk 1)) (snd (clk 1)) v (lq_SizeUSD leg) depth (vd_SpreadBps d);
          stats = venueStats r (fst (clk 2)) (snd (clk 2)) v;
          latency = of_int (vd_LatencyUs d) / 1000
      in \<lparr>vq_Venue = v, vq_FillProbability = fillProb, vq_SlippageBps = slipEst, vq_LatencyMs = latency,
          vq_ReliabilityPct = vt_ReliabilityPct stats, vq_DepthUSD = depth,
          vq_Score = scoreVenue (sm_cfg r) fillProb slipEst latency (vt_ReliabilityPct stats) depth\<rparr>)"

definition candidates ::
  "SmartRouter \<Rightarrow> (nat \<Rightarrow> nat \<Rightarrow> int64 \<times> int64) \<Rightarrow> LegRequest \<Rightarrow> (string \<rightharpoonup> VenueDepth) \<Rightarrow> string set \<Rightarrow> VenueScore list" where
  "candidates r clk leg depths used =
     concat (map (\<lambda>(j, v). if v \<in> used then []
                     else (case depths v of None \<Rightarrow> [] | Some d \<Rightarrow> [candidate r (clk j) leg v d]))
       (enumerate 0 (lq_CandidateVenues leg)))"

definition zero_depth :: VenueDepth where
  "zero_depth = \<lparr>vd_Venue = '''', vd_BidDepthUSD = 0, vd_AskDepthUSD = 0, vd_BestBid = 0, vd_BestAsk = 0, vd_SpreadBps = 0, vd_LatencyUs = 0\<rparr>"

definition depth_at :: "(string \<rightharpoonup> VenueDepth) \<Rightarrow> string \<Rightarrow> VenueDepth" where
  "depth_at depths v = (case depths v of None \<Rightarrow> zero_depth | Some d \<Rightarrow> d)"

definition routed_leg :: "RouterConfig \<Rightarrow> LegRequest \<Rightarrow> VenueDepth \<Rightarrow> VenueScore \<Rightarrow> RoutedLeg" where
  "routed_leg cfg leg d best =
     \<lparr>rl_Venue = vq_Venue best, rl_Action = lq_Action leg,
      rl_OrderType = (if rc_PassiveSpreadMinBps cfg \<le> vd_SpreadBps d \<and> 0.8 < vq_FillProbability best then OrderLimit else OrderIOC),
      rl_SizeUSD = lq_SizeUSD leg,
      rl_PriceLimit = (if lq_Action leg = ''BUY'' then vd_BestAsk d * (1 + lq_MaxSlippageBps leg / 10000)
                       else vd_BestBid d * (1 - lq_MaxSlippageBps leg / 10000)),
      rl_Priority = 0, rl_Scores = best\<rparr>"

definition selectVenue ::
  "(VenueScore list \<Rightarrow> VenueScore list) \<Rightarrow> SmartRouter \<Rightarrow> (nat \<Rightarrow> nat \<Rightarrow> int64 \<times> int64) \<Rightarrow> LegRequest \<Rightarrow>
   (string \<rightharpoonup> VenueDepth) \<Rightarrow> string set \<Rightarrow> RoutedLeg option" where
  "selectVenue by_score r clk leg depths used =
     (let cs = candidates r clk leg depths used in
      if cs = [] then None
      else
        (let best = hd (by_score cs)
         in if lq_MaxSlippageBps leg < vq_SlippageBps best \<and> rc_MaxSlippageBps (sm_cfg r) < vq_SlippageBps best then None
            else Some (routed_leg (sm_cfg r) leg (depth_at depths (vq_Venue best)) best)))"

section \<open>The sequence of the legs\<close>

definition leg_depth :: "(string \<rightharpoonup> VenueDepth) \<Rightarrow> RoutedLeg \<Rightarrow> float64" where
  "leg_depth depths l = relevant_depth (rl_Action l) (depth_at depths (rl_Venue l))"

text \<open>The minimum starts at the largest float, which no depth is.\<close>

definition chooseStrategy :: "RoutedLeg list \<Rightarrow> (string \<rightharpoonup> VenueDepth) \<Rightarrow> ExecutionStrategy" where
  "chooseStrategy legs depths =
     (if length legs \<le> 1 then StrategySimultaneous
      else if \<forall>l\<in>set legs. rl_OrderType l = OrderLimit then StrategyPassive
      else
        (let ds = map (leg_depth depths) legs;
             minDepth = fold min (tl ds) (hd ds); maxDepth = fold max ds 0
         in if 0 < maxDepth \<and> minDepth / maxDepth < 0.5 then StrategyHedgeFirst else StrategySimultaneous))"

definition set_priority :: "RoutedLeg list \<Rightarrow> nat \<times> float64 \<times> nat \<Rightarrow> RoutedLeg list" where
  "set_priority legs p = (case p of (pri, _, i) \<Rightarrow> legs[i := (legs ! i)\<lparr>rl_Priority := int pri + 1\<rparr>])"

definition assignPriorities ::
  "((float64 \<times> nat) list \<Rightarrow> (float64 \<times> nat) list) \<Rightarrow> RoutedLeg list \<Rightarrow> ExecutionStrategy \<Rightarrow> (string \<rightharpoonup> VenueDepth) \<Rightarrow> RoutedLeg list" where
  "assignPriorities by_depth legs strategy depths =
     (case strategy of
        StrategyHedgeFirst \<Rightarrow>
          foldl set_priority legs (enumerate 0 (by_depth (map (\<lambda>(i, l). (leg_depth depths l, i)) (enumerate 0 legs))))
      | StrategyAggrFirst \<Rightarrow> map (\<lambda>l. l\<lparr>rl_Priority := (if rl_Action l = ''BUY'' then 1 else 2)\<rparr>) legs
      | _ \<Rightarrow> map (\<lambda>l. l\<lparr>rl_Priority := 1\<rparr>) legs)"

definition routeConfidence :: "RoutedLeg list \<Rightarrow> float64" where
  "routeConfidence legs =
     (if legs = [] then 0 else (\<Sum>l\<leftarrow>legs. vq_FillProbability (rl_Scores l)) / real (length legs))"

fun route_legs ::
  "(VenueScore list \<Rightarrow> VenueScore list) \<Rightarrow> SmartRouter \<Rightarrow> (nat \<Rightarrow> nat \<Rightarrow> nat \<Rightarrow> int64 \<times> int64) \<Rightarrow> (string \<rightharpoonup> VenueDepth) \<Rightarrow>
   nat \<Rightarrow> LegRequest list \<Rightarrow> string set \<Rightarrow> RoutedLeg list" where
  "route_legs by_score r clk depths i [] used = []"
| "route_legs by_score r clk depths i (leg # legs) used =
     (case selectVenue by_score r (clk i) leg depths used of
        None \<Rightarrow> route_legs by_score r clk depths (i + 1) legs used
      | Some best \<Rightarrow> best # route_legs by_score r clk depths (i + 1) legs (insert (rl_Venue best) used))"

definition Route ::
  "(VenueScore list \<Rightarrow> VenueScore list) \<Rightarrow> ((float64 \<times> nat) list \<Rightarrow> (float64 \<times> nat) list) \<Rightarrow> SmartRouter \<Rightarrow> int64 \<Rightarrow>
   (nat \<Rightarrow> nat \<Rightarrow> nat \<Rightarrow> int64 \<times> int64) \<Rightarrow> string \<Rightarrow> LegRequest list \<Rightarrow> (string \<rightharpoonup> VenueDepth) \<Rightarrow> RoutingDecision option" where
  "Route by_score by_depth r now clk symbol legs depths =
     (let routed = route_legs by_score r clk depths 0 legs {} in
      if routed = [] then None
      else
        (let strategy = chooseStrategy routed depths; ls = assignPriorities by_depth routed strategy depths
         in Some \<lparr>rd_Symbol = symbol, rd_Strategy = strategy, rd_Legs = ls,
              rd_EstPnLBps = - (\<Sum>l\<leftarrow>ls. vq_SlippageBps (rl_Scores l)), rd_Confidence = routeConfidence ls, rd_TsMs = now\<rparr>))"

section \<open>Passive orders\<close>

record PassiveOrder =
  po_OrderID :: string
  po_Venue :: string
  po_Symbol :: string
  po_Side :: string
  po_Price :: float64
  po_SizeUSD :: float64
  po_Status :: string
  po_PlacedMs :: int64
  po_FilledMs :: int64
  po_FilledPct :: float64

record PassiveOpportunity =
  pp_Symbol :: string
  pp_Venue :: string
  pp_Side :: string
  pp_Price :: float64
  pp_SpreadBps :: float64
  pp_EdgeBps :: float64
  pp_DepthUSD :: float64
  pp_FillProbPct :: float64
  pp_SizeUSD :: float64
  pp_Confidence :: float64

record PassiveConfig =
  pv_MinSpreadBps :: float64
  pv_MinEdgeBps :: float64
  pv_MaxOrderSizeUSD :: float64
  pv_MaxOutstandingUSD :: float64
  pv_FeeBpsMaker :: float64
  pv_StaleMs :: int64
  pv_MaxAdverseMoveBps :: float64

definition DefaultPassiveConfig :: PassiveConfig where
  "DefaultPassiveConfig =
     \<lparr>pv_MinSpreadBps = 3, pv_MinEdgeBps = 1, pv_MaxOrderSizeUSD = 10000, pv_MaxOutstandingUSD = 50000,
      pv_FeeBpsMaker = -0.5, pv_StaleMs = 5000, pv_MaxAdverseMoveBps = 5\<rparr>"

record PassiveEngine =
  ps_cfg :: PassiveConfig
  ps_activeOrders :: "(string \<times> PassiveOrder) list"
  ps_outstandingUSD :: float64

definition NewPassiveEngine :: "PassiveConfig \<Rightarrow> PassiveEngine" where
  "NewPassiveEngine cfg = \<lparr>ps_cfg = cfg, ps_activeOrders = [], ps_outstandingUSD = 0\<rparr>"

definition makeOpp :: "PassiveConfig \<Rightarrow> string \<Rightarrow> string \<Rightarrow> string \<Rightarrow> float64 \<Rightarrow> float64 \<Rightarrow> float64 \<Rightarrow> float64 \<Rightarrow> float64 \<Rightarrow> PassiveOpportunity" where
  "makeOpp cfg symbol venue side price spreadBps edgeBps depthUSD headroom =
     (let sizeUSD = min (min (pv_MaxOrderSizeUSD cfg) headroom) (depthUSD * 0.1);
          fillProb = max 0.1 (min 0.95 (1 - spreadBps / 20))
      in \<lparr>pp_Symbol = symbol, pp_Venue = venue, pp_Side = side, pp_Price = price, pp_SpreadBps = spreadBps, pp_EdgeBps = edgeBps,
          pp_DepthUSD = depthUSD, pp_FillProbPct = fillProb * 100, pp_SizeUSD = sizeUSD,
          pp_Confidence = fillProb * min 1 (depthUSD / 100000)\<rparr>)"

definition venue_opps :: "PassiveConfig \<Rightarrow> string \<Rightarrow> float64 \<Rightarrow> float64 \<Rightarrow> string \<times> VenueDepth \<Rightarrow> PassiveOpportunity list" where
  "venue_opps cfg symbol flowScore headroom vd =
     (case vd of (venue, d) \<Rightarrow>
        (let edgeBps = vd_SpreadBps d / 2 - pv_FeeBpsMaker cfg;
             buy = makeOpp cfg symbol venue ''BUY'' (vd_BestBid d) (vd_SpreadBps d) edgeBps (vd_BidDepthUSD d) headroom;
             sell = makeOpp cfg symbol venue ''SELL'' (vd_BestAsk d) (vd_SpreadBps d) edgeBps (vd_AskDepthUSD d) headroom
         in if vd_SpreadBps d < pv_MinSpreadBps cfg then []
            else if edgeBps < pv_MinEdgeBps cfg then []
            else if 0.3 < flowScore then [sell]
            else if flowScore < -0.3 then [buy]
            else [buy, sell]))"

definition FindOpportunities :: "PassiveEngine \<Rightarrow> string \<Rightarrow> (string \<times> VenueDepth) list \<Rightarrow> float64 \<Rightarrow> PassiveOpportunity list" where
  "FindOpportunities pe symbol depths flowScore =
     (let headroom = pv_MaxOutstandingUSD (ps_cfg pe) - ps_outstandingUSD pe
      in if headroom \<le> 0 then [] else concat (map (venue_opps (ps_cfg pe) symbol flowScore headroom) depths))"

definition RegisterOrder :: "PassiveOrder \<Rightarrow> PassiveEngine \<Rightarrow> PassiveEngine" where
  "RegisterOrder order pe =
     pe\<lparr>ps_activeOrders := AList.update (po_OrderID order) order (ps_activeOrders pe),
        ps_outstandingUSD := ps_outstandingUSD pe + po_SizeUSD order\<rparr>"

definition MarkFilled :: "string \<Rightarrow> PassiveEngine \<Rightarrow> PassiveEngine" where
  "MarkFilled orderID pe =
     (case map_of (ps_activeOrders pe) orderID of
        None \<Rightarrow> pe
      | Some o' \<Rightarrow> pe\<lparr>ps_outstandingUSD := ps_outstandingUSD pe - po_SizeUSD o', ps_activeOrders := AList.delete orderID (ps_activeOrders pe)\<rparr>)"

definition is_stale :: "PassiveConfig \<Rightarrow> int64 \<Rightarrow> string \<times> PassiveOrder \<Rightarrow> bool" where
  "is_stale cfg now io \<longleftrightarrow> pv_StaleMs cfg < now - po_PlacedMs (snd io)"

definition CancelStale :: "int64 \<Rightarrow> PassiveEngine \<Rightarrow> PassiveEngine \<times> string list" where
  "CancelStale now pe =
     (let gone = filter (is_stale (ps_cfg pe) now) (ps_activeOrders pe)
      in (pe\<lparr>ps_activeOrders := filter (\<lambda>io. \<not> is_stale (ps_cfg pe) now io) (ps_activeOrders pe),
             ps_outstandingUSD := foldl (\<lambda>x io. x - po_SizeUSD (snd io)) (ps_outstandingUSD pe) gone\<rparr>,
          map fst gone))"

definition ActiveOrders :: "PassiveEngine \<Rightarrow> PassiveOrder list" where
  "ActiveOrders pe = map snd (ps_activeOrders pe)"

definition OutstandingUSD :: "PassiveEngine \<Rightarrow> float64" where
  "OutstandingUSD pe = ps_outstandingUSD pe"

section \<open>The chosen venues\<close>

lemma candidate_venue [simp]: "vq_Venue (candidate r clk leg v d) = v"
  by (simp add: candidate_def Let_def)

lemma candidates_venues:
  "vq_Venue ` set (candidates r clk leg depths used) = set (lq_CandidateVenues leg) \<inter> dom depths - used"
proof -
  have one: "vq_Venue ` set (if v \<in> used then [] else (case depths v of None \<Rightarrow> [] | Some d \<Rightarrow> [candidate r c leg v d])) =
      {v} \<inter> dom depths - used" for v c
    by (cases "depths v") auto
  have "vq_Venue ` set (candidates r clk leg depths used) =
      (\<Union>jv\<in>set (enumerate 0 (lq_CandidateVenues leg)). {snd jv} \<inter> dom depths - used)"
    unfolding candidates_def set_concat set_map image_UN UN_simps(10) case_prod_beta by (simp only: one image_image)
  also have "\<dots> = snd ` set (enumerate 0 (lq_CandidateVenues leg)) \<inter> dom depths - used" by blast
  also have "snd ` set (enumerate 0 (lq_CandidateVenues leg)) = set (lq_CandidateVenues leg)"
    by (metis list.set_map map_snd_enumerate)
  finally show ?thesis .
qed

text \<open>
  A leg is routed for a request: it has its action and size, its venue is one of its candidates
  with a known book that no earlier leg uses, no other such candidate has a higher score, and its
  estimated slippage is within the limit of the request or the one of the router.
\<close>

definition routed_for ::
  "SmartRouter \<Rightarrow> (nat \<Rightarrow> nat \<Rightarrow> int64 \<times> int64) \<Rightarrow> (string \<rightharpoonup> VenueDepth) \<Rightarrow> string set \<Rightarrow> LegRequest \<Rightarrow> RoutedLeg \<Rightarrow> bool" where
  "routed_for r clk depths used leg l \<longleftrightarrow> rl_Action l = lq_Action leg \<and> rl_SizeUSD l = lq_SizeUSD leg \<and>
     rl_Venue l = vq_Venue (rl_Scores l) \<and> rl_Scores l \<in> set (candidates r clk leg depths used) \<and>
     (\<forall>c\<in>set (candidates r clk leg depths used). vq_Score c \<le> vq_Score (rl_Scores l)) \<and>
     vq_SlippageBps (rl_Scores l) \<le> max (lq_MaxSlippageBps leg) (rc_MaxSlippageBps (sm_cfg r))"

lemma selectVenue_routed:
  assumes "sorts_by (\<lambda>c. - vq_Score c) by_score" "selectVenue by_score r clk leg depths used = Some l"
  shows "routed_for r clk depths used leg l"
proof -
  have cs: "candidates r clk leg depths used \<noteq> []" using assms(2) by (auto simp: selectVenue_def Let_def split: if_splits)
  from sorts_by_hd [OF assms(1) cs] show ?thesis
    using assms(2) cs by (auto simp: selectVenue_def Let_def routed_for_def routed_leg_def split: if_splits)
qed

lemma routed_for_venue:
  "routed_for r clk depths used leg l \<Longrightarrow> rl_Venue l \<in> set (lq_CandidateVenues leg) \<and> rl_Venue l \<notin> used \<and> rl_Venue l \<in> dom depths"
  using candidates_venues [of r clk leg depths used] by (auto simp: routed_for_def)

section \<open>Routes\<close>

lemma route_legs_spec:
  assumes "sorts_by (\<lambda>c. - vq_Score c) by_score"
  shows "\<exists>reqs. subseq reqs legs \<and> length reqs = length (route_legs by_score r clk depths i legs used) \<and>
    (\<forall>k<length reqs. \<exists>j. routed_for r (clk j) depths
       (used \<union> set (map rl_Venue (take k (route_legs by_score r clk depths i legs used)))) (reqs ! k)
       (route_legs by_score r clk depths i legs used ! k))"
proof (induction legs arbitrary: i used)
  case Nil
  then show ?case by simp
next
  case (Cons leg legs)
  show ?case
  proof (cases "selectVenue by_score r (clk i) leg depths used")
    case None
    from Cons.IH [of "i + 1" used] obtain reqs where "subseq reqs legs" "length reqs = length (route_legs by_score r clk depths (i + 1) legs used)"
      "\<forall>k<length reqs. \<exists>j. routed_for r (clk j) depths (used \<union> set (map rl_Venue (take k (route_legs by_score r clk depths (i + 1) legs used))))
        (reqs ! k) (route_legs by_score r clk depths (i + 1) legs used ! k)" by blast
    then show ?thesis using None by (intro exI [of _ reqs]) auto
  next
    case (Some best)
    let ?u = "insert (rl_Venue best) used" and ?R = "route_legs by_score r clk depths (i + 1) legs (insert (rl_Venue best) used)"
    from Cons.IH [of "i + 1" ?u] obtain reqs where q: "subseq reqs legs" "length reqs = length ?R"
      "\<forall>k<length reqs. \<exists>j. routed_for r (clk j) depths (?u \<union> set (map rl_Venue (take k ?R))) (reqs ! k) (?R ! k)" by blast
    have first: "routed_for r (clk i) depths used leg best" by (rule selectVenue_routed [OF assms Some])
    have "\<exists>j. routed_for r (clk j) depths (used \<union> set (map rl_Venue (take k (best # ?R)))) ((leg # reqs) ! k) ((best # ?R) ! k)"
      if "k < length (leg # reqs)" for k
    proof (cases k)
      case 0
      then show ?thesis using first by auto
    next
      case (Suc m)
      then show ?thesis using q(3) that by simp
    qed
    then show ?thesis using q(1,2) Some by (intro exI [of _ "leg # reqs"]) auto
  qed
qed

lemma distinct_if_new: "(\<And>k. k < length xs \<Longrightarrow> xs ! k \<notin> set (take k xs)) \<Longrightarrow> distinct xs"
proof (induction xs rule: rev_induct)
  case (snoc x xs)
  have "xs ! k \<notin> set (take k xs)" if "k < length xs" for k
    using snoc.prems [of k] that by (simp add: nth_append)
  then have "distinct xs" by (rule snoc.IH)
  moreover have "x \<notin> set xs" using snoc.prems [of "length xs"] by simp
  ultimately show ?case by simp
qed simp

text \<open>Priorities change nothing else of a leg.\<close>

definition leg_core :: "RoutedLeg \<Rightarrow> RoutedLeg" where
  "leg_core l = l\<lparr>rl_Priority := 0\<rparr>"

lemma leg_core_simps [simp]:
  "leg_core (l\<lparr>rl_Priority := n\<rparr>) = leg_core l" "rl_Venue (leg_core l) = rl_Venue l" "rl_Action (leg_core l) = rl_Action l"
  "rl_SizeUSD (leg_core l) = rl_SizeUSD l" "rl_Scores (leg_core l) = rl_Scores l"
  by (simp_all add: leg_core_def)

lemma set_priority_core: "map leg_core (foldl set_priority legs ps) = map leg_core legs"
proof (induction ps arbitrary: legs)
  case (Cons p ps)
  have "map leg_core (set_priority legs p) = map leg_core legs"
    by (cases p; cases "snd (snd p) < length legs")
       (auto simp: set_priority_def map_update list_update_same_conv not_less list_update_beyond)
  then show ?case using Cons by simp
qed simp

lemma assign_core: "map leg_core (assignPriorities by_depth legs strategy depths) = map leg_core legs"
  by (cases strategy) (simp_all add: assignPriorities_def set_priority_core comp_def)

lemma routed_for_core: "routed_for r clk depths used leg (leg_core l) = routed_for r clk depths used leg l"
  by (simp add: routed_for_def)

text \<open>
  The legs of a decision stand for some of the requests in their order, each routed to the best
  scored candidate that no earlier leg uses, so no two legs share a venue.
\<close>

theorem routed_legs_use_the_best_free_venues:
  assumes "sorts_by (\<lambda>c. - vq_Score c) by_score" "Route by_score by_depth r now clk symbol legs depths = Some d"
  shows "distinct (map rl_Venue (rd_Legs d)) \<and> (\<exists>reqs. subseq reqs legs \<and> reqs \<noteq> [] \<and> length (rd_Legs d) = length reqs \<and>
    (\<forall>k<length reqs. \<exists>i. routed_for r (clk i) depths (set (map rl_Venue (take k (rd_Legs d)))) (reqs ! k) (rd_Legs d ! k)))"
proof -
  let ?R = "route_legs by_score r clk depths 0 legs {}"
  have d: "rd_Legs d = assignPriorities by_depth ?R (chooseStrategy ?R depths) depths" "?R \<noteq> []"
    using assms(2) by (auto simp: Route_def Let_def split: if_splits)
  have core: "map leg_core (rd_Legs d) = map leg_core ?R" unfolding d(1) by (rule assign_core)
  then have len: "length (rd_Legs d) = length ?R" by (metis length_map)
  have ven: "map rl_Venue (rd_Legs d) = map rl_Venue ?R" using arg_cong [OF core, of "map rl_Venue"] by (simp add: comp_def)
  obtain reqs where q: "subseq reqs legs" "length reqs = length ?R"
    "\<forall>k<length reqs. \<exists>i. routed_for r (clk i) depths (set (map rl_Venue (take k ?R))) (reqs ! k) (?R ! k)"
    using route_legs_spec [OF assms(1), of legs r clk depths 0 "{}"] by auto
  have nth: "leg_core (rd_Legs d ! k) = leg_core (?R ! k)" if "k < length ?R" for k
    using arg_cong [OF core, of "\<lambda>xs. xs ! k"] that len by simp
  have routed: "\<forall>k<length reqs. \<exists>i. routed_for r (clk i) depths (set (map rl_Venue (take k (rd_Legs d)))) (reqs ! k) (rd_Legs d ! k)"
    using q(2,3) nth routed_for_core ven by (metis take_map)
  have "distinct (map rl_Venue (rd_Legs d))"
  proof (rule distinct_if_new)
    fix k assume "k < length (map rl_Venue (rd_Legs d))"
    then show "map rl_Venue (rd_Legs d) ! k \<notin> set (take k (map rl_Venue (rd_Legs d)))"
      using routed q(2) len routed_for_venue by (metis length_map nth_map take_map)
  qed
  then show ?thesis using q(1,2) d(2) len routed by (intro conjI exI [of _ reqs]) auto
qed

section \<open>The sequence\<close>

lemma set_priority_other: "i \<notin> snd ` snd ` set ps \<Longrightarrow> foldl set_priority legs ps ! i = legs ! i"
  by (induction ps arbitrary: legs) (auto simp: set_priority_def split: prod.split)

lemma set_priority_length [simp]: "length (foldl set_priority legs ps) = length legs"
  by (induction ps arbitrary: legs) (auto simp: set_priority_def split: prod.split)

lemma set_priority_at:
  "distinct (map snd ps) \<Longrightarrow> snd ` set ps \<subseteq> {..<length legs} \<Longrightarrow> k < length ps \<Longrightarrow>
     rl_Priority (foldl set_priority legs (enumerate n ps) ! snd (ps ! k)) = int (n + k) + 1"
proof (induction ps arbitrary: legs n k)
  case Nil
  then show ?case by simp
next
  case (Cons p ps)
  let ?legs = "set_priority legs (n, p)"
  have len: "length ?legs = length legs" by (simp add: set_priority_def split: prod.split)
  show ?case
  proof (cases k)
    case 0
    have "snd p \<notin> snd ` snd ` set (enumerate (Suc n) ps)"
    proof -
      have "snd ` snd ` set (enumerate (Suc n) ps) = set (map snd ps)"
        by (metis list.set_map map_snd_enumerate)
      then show ?thesis using Cons.prems(1) by auto
    qed
    then have "foldl set_priority ?legs (enumerate (Suc n) ps) ! snd p = ?legs ! snd p" by (rule set_priority_other)
    moreover have "?legs ! snd p = (legs ! snd p)\<lparr>rl_Priority := int n + 1\<rparr>"
      using Cons.prems(2) by (simp add: set_priority_def case_prod_beta)
    ultimately show ?thesis using 0 by simp
  next
    case (Suc m)
    then show ?thesis using Cons.IH [of ?legs m "Suc n"] Cons.prems len by auto
  qed
qed

text \<open>
  When the books are uneven the legs get the priorities 1 to n, each once, and of two legs the one
  with the thinner book goes first.
\<close>

theorem hedge_first_orders_by_depth:
  assumes "sorts_by fst by_depth" "i < length legs" "j < length legs"
    and "ls = assignPriorities by_depth legs StrategyHedgeFirst depths"
  shows "rl_Priority (ls ! i) \<in> {1..int (length legs)} \<and>
    (rl_Priority (ls ! i) = rl_Priority (ls ! j) \<longrightarrow> i = j) \<and>
    (leg_depth depths (legs ! i) < leg_depth depths (legs ! j) \<longrightarrow> rl_Priority (ls ! i) < rl_Priority (ls ! j))"
proof -
  let ?di = "map (\<lambda>(i, l). (leg_depth depths l, i)) (enumerate 0 legs)"
  let ?ps = "by_depth ?di"
  have m: "mset ?ps = mset ?di" and s: "sorted (map fst ?ps)" using assms(1) by (auto simp: sorts_by_def)
  have snds: "map snd ?di = [0..<length legs]"
    by (simp add: comp_def case_prod_beta)
  have e: "mset (map snd ?ps) = mset [0..<length legs]"
    unfolding snds [symmetric] by (simp only: mset_map m)
  have d: "distinct (map snd ?ps)" using mset_eq_imp_distinct_iff [OF e] by simp
  have r: "snd ` set ?ps = {..<length legs}" using mset_eq_setD [OF e] by (simp add: lessThan_atLeast0)
  have len: "length ?ps = length legs" using mset_eq_length [OF e] by simp
  have entry: "fst p = leg_depth depths (legs ! snd p)" if "p \<in> set ?ps" for p
  proof -
    have "p \<in> set ?di" using that mset_eq_setD [OF m] by simp
    then show ?thesis by (auto simp: in_set_enumerate_eq)
  qed
  have at: "\<exists>k<length legs. snd (?ps ! k) = x \<and> rl_Priority (ls ! x) = int k + 1 \<and> fst (?ps ! k) = leg_depth depths (legs ! x)"
    if "x < length legs" for x
  proof -
    have "x \<in> snd ` set ?ps" using that r by simp
    then obtain k where k: "k < length ?ps" "snd (?ps ! k) = x" by (auto simp: in_set_conv_nth image_iff)
    have "rl_Priority (foldl set_priority legs (enumerate 0 ?ps) ! snd (?ps ! k)) = int (0 + k) + 1"
      by (rule set_priority_at [OF d _ k(1)]) (use r in simp)
    then show ?thesis using k len entry [of "?ps ! k"] assms(4) by (intro exI [of _ k]) (simp add: assignPriorities_def)
  qed
  obtain a b where ab: "a < length legs" "snd (?ps ! a) = i" "rl_Priority (ls ! i) = int a + 1" "fst (?ps ! a) = leg_depth depths (legs ! i)"
    "b < length legs" "snd (?ps ! b) = j" "rl_Priority (ls ! j) = int b + 1" "fst (?ps ! b) = leg_depth depths (legs ! j)"
    using at [OF assms(2)] at [OF assms(3)] by blast
  have "a < b" if "leg_depth depths (legs ! i) < leg_depth depths (legs ! j)"
  proof (rule ccontr)
    assume "\<not> a < b"
    then have "map fst ?ps ! b \<le> map fst ?ps ! a" using ab(1) len by (intro sorted_nth_mono [OF s]) simp_all
    then have "fst (?ps ! b) \<le> fst (?ps ! a)" using ab(1,5) len by simp
    then show False using that ab by simp
  qed
  then show ?thesis using ab by auto
qed

section \<open>Venues that reject\<close>

definition recent_records :: "SmartRouter \<Rightarrow> int64 \<Rightarrow> string \<Rightarrow> FillRecord list" where
  "recent_records r now v = filter (\<lambda>f. \<not> fr_TsMs f < now - rc_HistoryWindowMs (sm_cfg r)) (history_of r v)"

lemma reliability:
  "vt_ReliabilityPct (venueStats r now now' v) =
     (if recent_records r now v = [] then 80
      else real (length (filter fr_Filled (recent_records r now v))) / real (length (recent_records r now v)) * 100)"
  using sum_length_filter_compl [of fr_Filled "recent_records r now v"]
  by (auto simp: venueStats_def Let_def recent_records_def)

lemma fill_probability:
  assumes "0 < depthUSD" "sizeUSD \<le> depthUSD"
  shows "estimateFillProbability r now now' v sizeUSD depthUSD =
    0.5 * max 0.1 (1 - sizeUSD / depthUSD * (sizeUSD / depthUSD)) +
    0.5 * (let h = vt_ReliabilityPct (venueStats r now now' v) / 100 in if h = 0 then 0.8 else h)"
proof -
  have "\<not> 1 < sizeUSD / depthUSD" "depthUSD \<noteq> 0" using assms by (simp_all add: divide_le_eq)
  then show ?thesis by (simp add: estimateFillProbability_def Let_def)
qed

text \<open>
  A reliability of exactly 0 is read as an unknown one: a venue whose recent orders were all
  rejected is given the same probability of a fill as a venue without a history, more than any
  venue that filled some, but fewer than four in five.
\<close>

theorem a_rejecting_venue_counts_as_reliable:
  assumes "\<forall>f\<in>set (recent_records r now v). \<not> fr_Filled f" "0 < depthUSD" "sizeUSD \<le> depthUSD"
    and "filter fr_Filled (recent_records r' now v') \<noteq> []"
    and "5 * length (filter fr_Filled (recent_records r' now v')) < 4 * length (recent_records r' now v')"
  shows "estimateFillProbability r now now' v sizeUSD depthUSD =
      estimateFillProbability (NewRouter (sm_cfg r)) now now' v sizeUSD depthUSD \<and>
    estimateFillProbability r' now now' v' sizeUSD depthUSD < estimateFillProbability r now now' v sizeUSD depthUSD"
proof -
  have none: "filter fr_Filled (recent_records r now v) = []" using assms(1) by (simp add: filter_empty_conv)
  have new: "recent_records (NewRouter (sm_cfg r)) now v = []" by (simp add: recent_records_def history_of_def NewRouter_def)
  let ?f = "length (filter fr_Filled (recent_records r' now v'))" and ?n = "length (recent_records r' now v')"
  have n: "0 < ?f" "0 < ?n" "recent_records r' now v' \<noteq> []" using assms(4,5) by auto
  define p where "p = real ?f / real ?n"
  have p: "p \<noteq> 0" "p < 0.8" using n assms(5) by (simp_all add: p_def divide_less_eq)
  have "vt_ReliabilityPct (venueStats r' now now' v') = p * 100" using n(3) by (simp add: reliability p_def)
  moreover have "vt_ReliabilityPct (venueStats r now now' v) \<in> {0, 80}" using none by (simp add: reliability)
  moreover have "vt_ReliabilityPct (venueStats (NewRouter (sm_cfg r)) now now' v) = 80" using new by (simp add: reliability)
  ultimately show ?thesis using p by (auto simp: fill_probability [OF assms(2,3)] Let_def)
qed

section \<open>The exposure of passive orders\<close>

datatype passive_event = Registered PassiveOrder | Filled string | Tick int64

definition passive_step :: "PassiveEngine \<Rightarrow> passive_event \<Rightarrow> PassiveEngine" where
  "passive_step pe x =
     (case x of Registered order \<Rightarrow> RegisterOrder order pe | Filled i \<Rightarrow> MarkFilled i pe | Tick now \<Rightarrow> fst (CancelStale now pe))"

definition open_usd :: "PassiveEngine \<Rightarrow> float64" where
  "open_usd pe = (\<Sum>io\<leftarrow>ps_activeOrders pe. po_SizeUSD (snd io))"

definition exposure_ok :: "PassiveEngine \<Rightarrow> bool" where
  "exposure_ok pe \<longleftrightarrow> distinct (map fst (ps_activeOrders pe)) \<and> open_usd pe \<le> OutstandingUSD pe \<and>
     (\<forall>io\<in>set (ps_activeOrders pe). 0 \<le> po_SizeUSD (snd io))"

lemma open_usd_delete:
  "distinct (map fst al) \<Longrightarrow> map_of al i = Some x \<Longrightarrow>
     (\<Sum>io\<leftarrow>al. po_SizeUSD (snd io)) = po_SizeUSD x + (\<Sum>io\<leftarrow>AList.delete i al. po_SizeUSD (snd io))"
proof (induction al)
  case (Cons a al)
  have "AList.delete i al = al" if "i \<notin> fst ` set al" using that by (simp add: AList.delete_eq filter_id_conv) force
  then show ?case using Cons by (auto simp: AList.delete_eq split: if_splits)
qed simp

lemma update_new: "i \<notin> fst ` set al \<Longrightarrow> AList.update i x al = al @ [(i, x)]"
  by (induction al) auto

lemma open_usd_update:
  "distinct (map fst al) \<Longrightarrow> \<forall>io\<in>set al. 0 \<le> po_SizeUSD (snd io) \<Longrightarrow>
     (\<Sum>io\<leftarrow>AList.update i x al. po_SizeUSD (snd io)) \<le> po_SizeUSD x + (\<Sum>io\<leftarrow>al. po_SizeUSD (snd io))"
  by (induction al) auto

lemma foldl_minus: "foldl (\<lambda>x io. x - f io) (a :: real) xs = a - (\<Sum>io\<leftarrow>xs. f io)"
  by (induction xs arbitrary: a) simp_all

lemma sum_list_parts: "(\<Sum>x\<leftarrow>xs. f x) = (\<Sum>x\<leftarrow>filter P xs. f x) + (\<Sum>x\<leftarrow>filter (\<lambda>x. \<not> P x) xs. (f x :: real))"
  by (induction xs) simp_all

lemma exposure_stale:
  "OutstandingUSD (fst (CancelStale now pe)) - open_usd (fst (CancelStale now pe)) = OutstandingUSD pe - open_usd pe"
  using sum_list_parts [of "\<lambda>io. po_SizeUSD (snd io)" "ps_activeOrders pe" "is_stale (ps_cfg pe) now"]
  by (simp add: CancelStale_def Let_def OutstandingUSD_def open_usd_def foldl_minus)

lemma exposure_filled:
  "distinct (map fst (ps_activeOrders pe)) \<Longrightarrow>
     OutstandingUSD (MarkFilled i pe) - open_usd (MarkFilled i pe) = OutstandingUSD pe - open_usd pe"
  using open_usd_delete [of "ps_activeOrders pe" i]
  by (auto simp: MarkFilled_def OutstandingUSD_def open_usd_def split: option.split)

lemma exposure_ok_step:
  assumes "exposure_ok pe" "\<And>order. x = Registered order \<Longrightarrow> 0 \<le> po_SizeUSD order"
  shows "exposure_ok (passive_step pe x)"
proof (cases x)
  case (Registered order)
  then show ?thesis
    using assms open_usd_update [of "ps_activeOrders pe" "po_OrderID order" order]
    by (auto simp: exposure_ok_def passive_step_def RegisterOrder_def open_usd_def OutstandingUSD_def distinct_update
        dest!: alist_update_set)
next
  case (Filled i)
  then show ?thesis
    using assms exposure_filled [of pe i]
    by (auto simp: exposure_ok_def passive_step_def MarkFilled_def distinct_delete split: option.splits dest!: alist_delete_set)
next
  case (Tick now)
  then show ?thesis
    using assms exposure_stale [of now pe]
    by (auto simp: exposure_ok_def passive_step_def CancelStale_def Let_def distinct_map_filter)
qed

interpretation passive_orders: invariant_machine passive_step "\<lambda>x. \<forall>order. x = Registered order \<longrightarrow> 0 \<le> po_SizeUSD order" exposure_ok
  by unfold_locales (rule exposure_ok_step, auto)

definition registered_ids :: "passive_event list \<Rightarrow> string list" where
  "registered_ids xs = concat (map (\<lambda>x. case x of Registered order \<Rightarrow> [po_OrderID order] | _ \<Rightarrow> []) xs)"

lemma active_registered:
  "fst ` set (ps_activeOrders (foldl passive_step (NewPassiveEngine cfg) xs)) \<subseteq> set (registered_ids xs)"
proof (induction xs rule: rev_induct)
  case Nil
  then show ?case by (simp add: NewPassiveEngine_def registered_ids_def)
next
  case (snoc x xs)
  have "fst ` set (ps_activeOrders (passive_step pe x)) \<subseteq> fst ` set (ps_activeOrders pe) \<union> set (registered_ids [x])" for pe
    by (cases x) (auto simp: passive_step_def RegisterOrder_def MarkFilled_def CancelStale_def Let_def registered_ids_def
        split: option.split dest!: alist_update_set alist_delete_set)
  from this [of "foldl passive_step (NewPassiveEngine cfg) xs"] snoc
  have "fst ` set (ps_activeOrders (foldl passive_step (NewPassiveEngine cfg) (xs @ [x]))) \<subseteq> set (registered_ids xs) \<union> set (registered_ids [x])"
    by auto
  then show ?case by (simp add: registered_ids_def)
qed

text \<open>
  The exposure the engine counts is never below the sizes of its open orders, after any sequence
  of registrations of nonnegative size, fills and ticks, and it is exactly their sum as long as no
  order id is registered twice.
\<close>

theorem passive_exposure_is_never_understated:
  assumes "\<forall>order. Registered order \<in> set xs \<longrightarrow> 0 \<le> po_SizeUSD order" "pe = foldl passive_step (NewPassiveEngine cfg) xs"
  shows "open_usd pe \<le> OutstandingUSD pe \<and> (distinct (registered_ids xs) \<longrightarrow> OutstandingUSD pe = open_usd pe)"
proof -
  have start: "exposure_ok (NewPassiveEngine cfg)"
    by (simp add: exposure_ok_def NewPassiveEngine_def open_usd_def OutstandingUSD_def)
  have inv: "exposure_ok (foldl passive_step (NewPassiveEngine cfg) ys)" if "set ys \<subseteq> set xs" for ys
    by (rule passive_orders.run_inv [OF start]) (use assms(1) that in auto)
  have "distinct (registered_ids ys) \<longrightarrow> OutstandingUSD (foldl passive_step (NewPassiveEngine cfg) ys) = open_usd (foldl passive_step (NewPassiveEngine cfg) ys)"
    if "set ys \<subseteq> set xs" for ys
    using that
  proof (induction ys rule: rev_induct)
    case Nil
    then show ?case by (simp add: NewPassiveEngine_def open_usd_def OutstandingUSD_def)
  next
    case (snoc y ys)
    let ?pe = "foldl passive_step (NewPassiveEngine cfg) ys"
    have ok: "exposure_ok ?pe" using inv snoc.prems by simp
    show ?case
    proof
      assume d: "distinct (registered_ids (ys @ [y]))"
      have eq: "OutstandingUSD ?pe = open_usd ?pe" using snoc d by (simp add: registered_ids_def)
      show "OutstandingUSD (foldl passive_step (NewPassiveEngine cfg) (ys @ [y])) = open_usd (foldl passive_step (NewPassiveEngine cfg) (ys @ [y]))"
      proof (cases y)
        case (Registered order)
        then have "po_OrderID order \<notin> fst ` set (ps_activeOrders ?pe)"
          using d active_registered [of cfg ys] by (auto simp: registered_ids_def)
        then show ?thesis using Registered eq
          by (simp add: passive_step_def RegisterOrder_def open_usd_def OutstandingUSD_def update_new)
      next
        case (Filled i)
        then show ?thesis using eq exposure_filled [of ?pe i] ok by (simp add: passive_step_def exposure_ok_def)
      next
        case (Tick now)
        then show ?thesis using eq exposure_stale [of now ?pe] by (simp add: passive_step_def)
      qed
    qed
  qed
  then show ?thesis using inv [of xs] assms(2) by (auto simp: exposure_ok_def)
qed

text \<open>One scan offers the whole headroom to every opportunity, so taking two of them exceeds the cap.\<close>

lemma opportunities_exceed_the_headroom:
  assumes "h = pv_MaxOutstandingUSD (ps_cfg pe) - ps_outstandingUSD pe" "0 < h" "h \<le> pv_MaxOrderSizeUSD (ps_cfg pe)"
    and "pv_MinSpreadBps (ps_cfg pe) \<le> vd_SpreadBps d" "pv_MinEdgeBps (ps_cfg pe) \<le> vd_SpreadBps d / 2 - pv_FeeBpsMaker (ps_cfg pe)"
    and "10 * h \<le> vd_BidDepthUSD d" "10 * h \<le> vd_AskDepthUSD d" "\<bar>flow\<bar> \<le> 0.3"
  shows "ps_outstandingUSD pe + (\<Sum>p\<leftarrow>FindOpportunities pe symbol [(v, d)] flow. pp_SizeUSD p) = pv_MaxOutstandingUSD (ps_cfg pe) + h"
  using assms by (auto simp: FindOpportunities_def venue_opps_def makeOpp_def Let_def min_def abs_le_iff)

section \<open>Concrete books\<close>

definition flat_book :: "string \<Rightarrow> VenueDepth" where
  "flat_book v = \<lparr>vd_Venue = v, vd_BidDepthUSD = 100000, vd_AskDepthUSD = 100000, vd_BestBid = 100, vd_BestAsk = 101,
     vd_SpreadBps = 2, vd_LatencyUs = 1000\<rparr>"

definition request_for :: "string \<Rightarrow> string list \<Rightarrow> LegRequest" where
  "request_for action vs = \<lparr>lq_Action = action, lq_SizeUSD = 1000, lq_CandidateVenues = vs, lq_MaxSlippageBps = 10\<rparr>"

theorem routed_legs_use_the_best_free_venues_witness:
  "\<exists>d. Route (sort_key (\<lambda>c. - vq_Score c)) (sort_key fst) (NewRouter DefaultRouterConfig) 0 (\<lambda>_ _ _. (0, 0)) ''BTC-PERP''
      [request_for ''BUY'' [''okx'']] [''okx'' \<mapsto> flat_book ''okx''] = Some d \<and> distinct (map rl_Venue (rd_Legs d)) \<and> length (rd_Legs d) = 1"
proof -
  let ?r = "Route (sort_key (\<lambda>c. - vq_Score c)) (sort_key fst) (NewRouter DefaultRouterConfig) 0 (\<lambda>_ _ _. (0, 0)) ''BTC-PERP''
      [request_for ''BUY'' [''okx'']] [''okx'' \<mapsto> flat_book ''okx'']"
  have "?r \<noteq> None"
    by (simp add: Route_def Let_def selectVenue_def candidates_def candidate_def request_for_def estimateSlippage_def
        relevant_depth_def flat_book_def venueStats_def history_of_def NewRouter_def DefaultRouterConfig_def)
  then obtain d where d: "?r = Some d" by blast
  from routed_legs_use_the_best_free_venues [OF sorts_by_sort_key d] obtain reqs where
    r: "distinct (map rl_Venue (rd_Legs d))" "subseq reqs [request_for ''BUY'' [''okx'']]" "reqs \<noteq> []" "length (rd_Legs d) = length reqs"
    by (elim conjE exE) (rule that)
  have "length reqs \<le> 1" using list_emb_length [OF r(2)] by simp
  with r d show ?thesis by (cases reqs) auto
qed

definition leg_on :: "string \<Rightarrow> RoutedLeg" where
  "leg_on v = \<lparr>rl_Venue = v, rl_Action = ''BUY'', rl_OrderType = OrderIOC, rl_SizeUSD = 1, rl_PriceLimit = 1, rl_Priority = 0,
     rl_Scores = \<lparr>vq_Venue = v, vq_FillProbability = 1, vq_SlippageBps = 0, vq_LatencyMs = 1, vq_ReliabilityPct = 1, vq_DepthUSD = 1, vq_Score = 1\<rparr>\<rparr>"

theorem hedge_first_orders_by_depth_witness:
  "rl_Priority (assignPriorities (sort_key fst) [leg_on ''a'', leg_on ''b''] StrategyHedgeFirst [''a'' \<mapsto> flat_book ''a''] ! 1) <
   rl_Priority (assignPriorities (sort_key fst) [leg_on ''a'', leg_on ''b''] StrategyHedgeFirst [''a'' \<mapsto> flat_book ''a''] ! 0)"
  using hedge_first_orders_by_depth [OF sorts_by_sort_key, of 1 "[leg_on ''a'', leg_on ''b'']" 0, OF _ _ refl, of "[''a'' \<mapsto> flat_book ''a'']"]
  by (simp add: leg_depth_def depth_at_def leg_on_def relevant_depth_def flat_book_def zero_depth_def)

definition history :: "bool list \<Rightarrow> SmartRouter" where
  "history bs = (NewRouter DefaultRouterConfig)\<lparr>sm_fillHistory :=
     [''okx'' \<mapsto> map (\<lambda>b. \<lparr>fr_Venue = ''okx'', fr_TsMs = 0, fr_SlippageBps = 1, fr_LatencyMs = 1, fr_Filled = b\<rparr>) bs]\<rparr>"

theorem a_rejecting_venue_counts_as_reliable_witness:
  "estimateFillProbability (history [True, False]) 1 1 ''okx'' 1 2 < estimateFillProbability (history [False, False]) 1 1 ''okx'' 1 2"
  by (rule conjunct2 [OF a_rejecting_venue_counts_as_reliable])
     (simp_all add: recent_records_def history_of_def history_def NewRouter_def DefaultRouterConfig_def)

definition order_of :: "string \<Rightarrow> PassiveOrder" where
  "order_of i = \<lparr>po_OrderID = i, po_Venue = ''okx'', po_Symbol = ''s'', po_Side = ''BUY'', po_Price = 1, po_SizeUSD = 10,
     po_Status = ''OPEN'', po_PlacedMs = 0, po_FilledMs = 0, po_FilledPct = 0\<rparr>"

theorem passive_exposure_is_never_understated_witness:
  "OutstandingUSD (foldl passive_step (NewPassiveEngine DefaultPassiveConfig) [Registered (order_of ''a''), Registered (order_of ''b''), Filled ''a'']) =
   open_usd (foldl passive_step (NewPassiveEngine DefaultPassiveConfig) [Registered (order_of ''a''), Registered (order_of ''b''), Filled ''a''])"
  by (rule mp [OF conjunct2 [OF passive_exposure_is_never_understated [OF _ refl]]])
     (auto simp: order_of_def registered_ids_def)

end
