(* ===== verification/Inventory_Balancer.thy ===== *)
theory Inventory_Balancer
  imports Interfaces
begin

text \<open>
  internal/inventory/balancer.go: recommendations for moving capital between exchanges.  The loop
  that pairs venues above their target with venues below it may run forever, so it is a partial
  function: \<open>None\<close> means that the analysis does not return.
\<close>

section \<open>Data\<close>

record VenueBalance =
  vb_Venue :: string
  vb_EquityUSD :: float64
  vb_FreeMarginUSD :: float64
  vb_UsedMarginUSD :: float64
  vb_UnrealizedPnL :: float64
  vb_UtilizationPct :: float64
  vb_TsMs :: int64

record RebalanceAction =
  ra_FromVenue :: string
  ra_ToVenue :: string
  ra_AmountUSD :: float64
  ra_Reason :: string
  ra_Priority :: int
  ra_EstTimeSec :: int

record InventorySnapshot =
  is_Balances :: "VenueBalance list"
  is_TotalEquityUSD :: float64
  is_TargetAlloc :: "(string \<times> float64) list"
  is_ActualAlloc :: "string \<rightharpoonup> float64"
  is_Actions :: "RebalanceAction list"
  is_TsMs :: int64

record BalancerConfig =
  bc_TargetAllocPct :: "(string \<times> float64) list"
  bc_RebalanceThreshPct :: float64
  bc_MinTransferUSD :: float64
  bc_MaxTransferUSD :: float64
  bc_MaxUtilizationPct :: float64
  bc_MinFreePct :: float64
  bc_TransferTimeSec :: "string \<rightharpoonup> int"

definition DefaultBalancerConfig :: BalancerConfig where
  "DefaultBalancerConfig =
     \<lparr>bc_TargetAllocPct = [(''binance'', 40), (''okx'', 25), (''bybit'', 20), (''deribit'', 15)],
      bc_RebalanceThreshPct = 10, bc_MinTransferUSD = 100, bc_MaxTransferUSD = 50000, bc_MaxUtilizationPct = 85, bc_MinFreePct = 20,
      bc_TransferTimeSec = [''binance-okx'' \<mapsto> 600, ''binance-bybit'' \<mapsto> 600, ''binance-deribit'' \<mapsto> 900, ''okx-bybit'' \<mapsto> 600]\<rparr>"

section \<open>Recommendations\<close>

definition donor_step :: "BalancerConfig \<Rightarrow> string \<Rightarrow> string \<times> float64 \<Rightarrow> VenueBalance \<Rightarrow> string \<times> float64" where
  "donor_step cfg exclude best bal =
     (if vb_Venue bal = exclude then best
      else if snd best < vb_FreeMarginUSD bal \<and> vb_UtilizationPct bal < bc_MaxUtilizationPct cfg
      then (vb_Venue bal, vb_FreeMarginUSD bal) else best)"

definition findDonorVenue :: "BalancerConfig \<Rightarrow> VenueBalance list \<Rightarrow> string \<Rightarrow> string" where
  "findDonorVenue cfg balances exclude = fst (foldl (donor_step cfg exclude) ('''', 0) balances)"

definition transferTime :: "BalancerConfig \<Rightarrow> string \<Rightarrow> string \<Rightarrow> int" where
  "transferTime cfg a b =
     (case bc_TransferTimeSec cfg (a @ ''-'' @ b) of
        Some t \<Rightarrow> t
      | None \<Rightarrow> (case bc_TransferTimeSec cfg (b @ ''-'' @ a) of Some t \<Rightarrow> t | None \<Rightarrow> 900))"

definition clamp_transfer :: "BalancerConfig \<Rightarrow> float64 \<Rightarrow> float64" where
  "clamp_transfer cfg amount = max (bc_MinTransferUSD cfg) (min (bc_MaxTransferUSD cfg) amount)"

definition margin_action :: "BalancerConfig \<Rightarrow> VenueBalance list \<Rightarrow> VenueBalance \<Rightarrow> RebalanceAction list" where
  "margin_action cfg balances bal =
     (let best = findDonorVenue cfg balances (vb_Venue bal)
      in if bc_MaxUtilizationPct cfg < vb_UtilizationPct bal \<and> best \<noteq> ''''
         then [\<lparr>ra_FromVenue = best, ra_ToVenue = vb_Venue bal, ra_AmountUSD = clamp_transfer cfg (vb_UsedMarginUSD bal * 0.2),
                ra_Reason = ''MARGIN_CRITICAL'', ra_Priority = 1, ra_EstTimeSec = transferTime cfg best (vb_Venue bal)\<rparr>]
         else [])"

type_synonym deviation = "string \<times> float64"

definition deviations :: "BalancerConfig \<Rightarrow> (string \<rightharpoonup> float64) \<Rightarrow> deviation list" where
  "deviations cfg actual =
     map (\<lambda>(venue, target). (venue, (case actual venue of None \<Rightarrow> 0 | Some a \<Rightarrow> a) - target)) (bc_TargetAllocPct cfg)"

definition rebalance_action :: "BalancerConfig \<Rightarrow> float64 \<Rightarrow> deviation \<Rightarrow> deviation \<Rightarrow> float64 \<Rightarrow> RebalanceAction" where
  "rebalance_action cfg totalEquity src dst transferPct =
     \<lparr>ra_FromVenue = fst src, ra_ToVenue = fst dst, ra_AmountUSD = clamp_transfer cfg (transferPct / 100 * totalEquity),
      ra_Reason = ''REBALANCE'', ra_Priority = 3, ra_EstTimeSec = transferTime cfg (fst src) (fst dst)\<rparr>"

definition shift_dev :: "deviation \<Rightarrow> float64 \<Rightarrow> deviation" where
  "shift_dev d t = (fst d, snd d + t)"

partial_function (option) pair_up ::
  "BalancerConfig \<Rightarrow> float64 \<Rightarrow> deviation list \<Rightarrow> nat \<Rightarrow> nat \<Rightarrow> RebalanceAction list \<Rightarrow> RebalanceAction list option" where
  "pair_up cfg totalEquity devs i j actions =
     (if \<not> i < j then Some actions
      else if snd (devs ! i) < bc_RebalanceThreshPct cfg then Some actions
      else if snd (devs ! j) > - bc_RebalanceThreshPct cfg then Some actions
      else
        (let t = min (snd (devs ! i)) (- snd (devs ! j)) / 2;
             action = rebalance_action cfg totalEquity (devs ! i) (devs ! j) t;
             devs' = devs[i := shift_dev (devs ! i) (- t), j := shift_dev (devs ! j) t];
             i' = (if snd (devs' ! i) < bc_RebalanceThreshPct cfg then i + 1 else i);
             j' = (if snd (devs' ! j) > - bc_RebalanceThreshPct cfg then j - 1 else j)
         in pair_up cfg totalEquity devs' i' j' (actions @ [action])))"

definition actual_alloc :: "float64 \<Rightarrow> VenueBalance list \<Rightarrow> string \<rightharpoonup> float64" where
  "actual_alloc totalEquity balances =
     foldl (\<lambda>m bal. m(vb_Venue bal \<mapsto> vb_EquityUSD bal / totalEquity * 100)) Map.empty balances"

definition Analyse ::
  "(deviation list \<Rightarrow> deviation list) \<Rightarrow> BalancerConfig \<Rightarrow> int64 \<Rightarrow> VenueBalance list \<Rightarrow> InventorySnapshot option" where
  "Analyse by_diff cfg now balances =
     (let totalEquity = (\<Sum>bal\<leftarrow>balances. vb_EquityUSD bal) in
      if totalEquity = 0
      then Some \<lparr>is_Balances = balances, is_TotalEquityUSD = 0, is_TargetAlloc = [], is_ActualAlloc = Map.empty, is_Actions = [], is_TsMs = now\<rparr>
      else
        (let actual = actual_alloc totalEquity balances;
             urgent = concat (map (margin_action cfg balances) balances);
             devs = by_diff (deviations cfg actual)
         in case pair_up cfg totalEquity devs 0 (length devs - 1) urgent of
              None \<Rightarrow> None
            | Some actions \<Rightarrow>
                Some \<lparr>is_Balances = balances, is_TotalEquityUSD = totalEquity, is_TargetAlloc = bc_TargetAllocPct cfg,
                      is_ActualAlloc = actual, is_Actions = actions, is_TsMs = now\<rparr>))"

section \<open>Margin efficiency\<close>

record MarginReport =
  mr_TotalEquityUSD :: float64
  mr_UsedMarginUSD :: float64
  mr_FreeMarginUSD :: float64
  mr_UtilizationPct :: float64
  mr_IdleCapitalUSD :: float64
  mr_UnrealizedPnLUSD :: float64
  mr_VenueCount :: int

definition idle_of :: "BalancerConfig \<Rightarrow> VenueBalance \<Rightarrow> float64" where
  "idle_of cfg bal =
     (case map_of (bc_TargetAllocPct cfg) (vb_Venue bal) of
        None \<Rightarrow> 0
      | Some target \<Rightarrow>
          (let excess = vb_FreeMarginUSD bal - vb_EquityUSD bal * bc_MinFreePct cfg / 100
           in if target = 0 then 0 else if 0 < excess then excess else 0))"

definition MarginEfficiency :: "BalancerConfig \<Rightarrow> VenueBalance list \<Rightarrow> MarginReport" where
  "MarginEfficiency cfg balances =
     (let equity = (\<Sum>b\<leftarrow>balances. vb_EquityUSD b); used = (\<Sum>b\<leftarrow>balances. vb_UsedMarginUSD b)
      in \<lparr>mr_TotalEquityUSD = equity, mr_UsedMarginUSD = used, mr_FreeMarginUSD = (\<Sum>b\<leftarrow>balances. vb_FreeMarginUSD b),
          mr_UtilizationPct = (if 0 < equity then used / equity * 100 else 0),
          mr_IdleCapitalUSD = (\<Sum>b\<leftarrow>balances. idle_of cfg b),
          mr_UnrealizedPnLUSD = (\<Sum>b\<leftarrow>balances. vb_UnrealizedPnL b), mr_VenueCount = int (length balances)\<rparr>)"

section \<open>The pairing loop\<close>

abbreviation gap :: "deviation list \<Rightarrow> nat \<Rightarrow> nat \<Rightarrow> real" where
  "gap devs i j \<equiv> min (snd (devs ! i)) (- snd (devs ! j))"

abbreviation after_transfer :: "deviation list \<Rightarrow> nat \<Rightarrow> nat \<Rightarrow> deviation list" where
  "after_transfer devs i j \<equiv> devs[i := shift_dev (devs ! i) (- (gap devs i j / 2)), j := shift_dev (devs ! j) (gap devs i j / 2)]"

lemma shift_dev_simps [simp]: "fst (shift_dev d t) = fst d" "snd (shift_dev d t) = snd d + t"
  by (simp_all add: shift_dev_def)

lemma a_transfer_halves_the_gap:
  assumes "i < j" "j < length devs"
  shows "gap (after_transfer devs i j) i j = gap devs i j / 2"
  using assms by (simp add: min_def)

lemma pair_up_stops [simp]:
  "\<not> i < j \<Longrightarrow> pair_up cfg e devs i j acts = Some acts"
  "snd (devs ! i) < bc_RebalanceThreshPct cfg \<Longrightarrow> pair_up cfg e devs i j acts = Some acts"
  "snd (devs ! j) > - bc_RebalanceThreshPct cfg \<Longrightarrow> pair_up cfg e devs i j acts = Some acts"
  by (subst pair_up.simps, simp)+

lemma pair_up_turn:
  assumes "i < j" "\<not> snd (devs ! i) < bc_RebalanceThreshPct cfg" "\<not> snd (devs ! j) > - bc_RebalanceThreshPct cfg"
  shows "\<exists>i' j' acts'.
           pair_up cfg e devs i j acts = pair_up cfg e (after_transfer devs i j) i' j' acts' \<and> j' < Suc j \<and>
           (i' = i \<and> j' = j \<or> j' - i' < j - i)"
  using assms
  by (subst pair_up.simps) (auto simp: Let_def intro!: exI)

lemma pair_up_returns:
  assumes \<theta>: "0 < bc_RebalanceThreshPct cfg"
  shows "j < length devs \<Longrightarrow> \<exists>acts'. pair_up cfg e devs i j acts = Some acts'"
proof (induction "j - i" arbitrary: i j devs acts rule: less_induct)
  case less
  have "j < length devs \<Longrightarrow> gap devs i j < bc_RebalanceThreshPct cfg * 2 ^ n \<Longrightarrow> \<exists>acts'. pair_up cfg e devs i j acts = Some acts'" for n devs acts
  proof (induction n arbitrary: devs acts)
    case 0
    then show ?case by (auto simp: min_less_iff_disj)
  next
    case (Suc n)
    show ?case
    proof (cases "i < j \<and> \<not> snd (devs ! i) < bc_RebalanceThreshPct cfg \<and> \<not> snd (devs ! j) > - bc_RebalanceThreshPct cfg")
      case True
      then obtain i' j' acts' where turn: "pair_up cfg e devs i j acts = pair_up cfg e (after_transfer devs i j) i' j' acts'"
        and j': "j' < Suc j" and moves: "i' = i \<and> j' = j \<or> j' - i' < j - i"
        using pair_up_turn by metis
      have len: "j' < length (after_transfer devs i j)" using j' Suc.prems by simp
      from moves show ?thesis
      proof
        assume same: "i' = i \<and> j' = j"
        have g: "gap (after_transfer devs i j) i j < bc_RebalanceThreshPct cfg * 2 ^ n"
          using a_transfer_halves_the_gap [of i j devs] True Suc.prems by simp
        show ?thesis using Suc.IH [OF _ g] Suc.prems same turn by simp
      next
        assume "j' - i' < j - i"
        then show ?thesis using less.hyps [OF _ len] turn by metis
      qed
    qed auto
  qed
  moreover obtain n where "gap devs i j / bc_RebalanceThreshPct cfg < 2 ^ n"
    using real_arch_pow [of 2] by auto
  ultimately show ?case using \<theta> less.prems by (metis mult.commute pos_divide_less_eq)
qed

lemma a_zero_threshold_never_returns:
  assumes "bc_RebalanceThreshPct cfg = 0" "i < j" "j < length devs" "0 < snd (devs ! i)" "snd (devs ! j) < 0"
  shows "pair_up cfg e devs i j acts = None"
proof (rule ccontr)
  assume "pair_up cfg e devs i j acts \<noteq> None"
  then obtain res where "pair_up cfg e devs i j acts = Some res" by blast
  then have "\<not> (bc_RebalanceThreshPct cfg = 0 \<and> i < j \<and> j < length devs \<and> 0 < snd (devs ! i) \<and> snd (devs ! j) < 0)"
  proof (rule pair_up.raw_induct [rotated, where P = "\<lambda>cfg e devs i j acts res.
           \<not> (bc_RebalanceThreshPct cfg = 0 \<and> i < j \<and> j < length devs \<and> 0 < snd (devs ! i) \<and> snd (devs ! j) < 0)"],
      goal_cases)
    case (1 pair_up cfg e devs i j acts res)
    show ?case
    proof
      assume a: "bc_RebalanceThreshPct cfg = 0 \<and> i < j \<and> j < length devs \<and> 0 < snd (devs ! i) \<and> snd (devs ! j) < 0"
      have d: "0 < snd (devs ! i) - gap devs i j / 2" "snd (devs ! j) + gap devs i j / 2 < 0"
        using a by (auto simp: min_def)
      with a 1(2) have "\<exists>acts'. pair_up cfg e (after_transfer devs i j) i j acts' = Some res"
        by (auto simp: Let_def)
      then obtain acts' where "pair_up cfg e (after_transfer devs i j) i j acts' = Some res" ..
      from 1(1) [OF this] a d show False by simp
    qed
  qed
  with assms show False by blast
qed

definition moves_between :: "BalancerConfig \<Rightarrow> deviation list \<Rightarrow> RebalanceAction \<Rightarrow> bool" where
  "moves_between cfg devs a \<longleftrightarrow>
     (\<exists>p q. p < q \<and> q < length devs \<and> ra_FromVenue a = fst (devs ! p) \<and> ra_ToVenue a = fst (devs ! q) \<and>
            bc_RebalanceThreshPct cfg \<le> snd (devs ! p) \<and> snd (devs ! q) \<le> - bc_RebalanceThreshPct cfg) \<and>
     bc_MinTransferUSD cfg \<le> ra_AmountUSD a \<and> ra_AmountUSD a \<le> max (bc_MinTransferUSD cfg) (bc_MaxTransferUSD cfg)"

definition worked_from :: "deviation list \<Rightarrow> deviation list \<Rightarrow> nat \<Rightarrow> nat \<Rightarrow> bool" where
  "worked_from orig devs i j \<longleftrightarrow>
     length devs = length orig \<and> map fst devs = map fst orig \<and>
     (i < j \<longrightarrow> j < length orig \<and> snd (devs ! i) \<le> snd (orig ! i) \<and> snd (orig ! j) \<le> snd (devs ! j) \<and>
               (\<forall>p. i < p \<and> p < j \<longrightarrow> devs ! p = orig ! p))"

lemma worked_from_refl [simp]: "j < length orig \<Longrightarrow> worked_from orig orig i j"
  by (simp add: worked_from_def)

lemma worked_from_turn:
  assumes w: "worked_from orig devs i j" and ij: "i < j" and t: "0 \<le> gap devs i j"
    and i': "i' = i \<or> i' = i + 1" and j': "j' = j \<or> j' = j - 1"
  shows "worked_from orig (after_transfer devs i j) i' j'"
proof -
  have j: "j < length devs" "j < length orig" using w ij by (auto simp: worked_from_def)
  have "map fst (after_transfer devs i j) = (map fst devs)[i := map fst devs ! i, j := map fst devs ! j]"
    using ij j by (simp add: map_update)
  also have "\<dots> = map fst orig" using w by (simp add: worked_from_def)
  finally have f: "map fst (after_transfer devs i j) = map fst orig" .
  have le: "snd (devs ! i) \<le> snd (orig ! i)" "snd (orig ! j) \<le> snd (devs ! j)" and mid: "\<And>p. i < p \<Longrightarrow> p < j \<Longrightarrow> devs ! p = orig ! p"
    using w ij by (auto simp: worked_from_def)
  have "snd (after_transfer devs i j ! i) = snd (devs ! i) - gap devs i j / 2" using ij j by simp
  with le t have i_ok: "snd (after_transfer devs i j ! i) \<le> snd (orig ! i)" by linarith
  have "snd (after_transfer devs i j ! j) = snd (devs ! j) + gap devs i j / 2" using j by simp
  with le t have j_ok: "snd (orig ! j) \<le> snd (after_transfer devs i j ! j)" by linarith
  have mid': "after_transfer devs i j ! p = orig ! p" if "i < p" "p < j" for p using mid that by simp
  have ends: "i' = i \<or> i < i' \<and> i' < j" "j' = j \<or> i < j' \<and> j' < j" if "i' < j'" using that i' j' by auto
  have "snd (after_transfer devs i j ! i') \<le> snd (orig ! i')" "snd (orig ! j') \<le> snd (after_transfer devs i j ! j')" if "i' < j'"
    using ends [OF that] i_ok j_ok mid' by auto
  moreover have "after_transfer devs i j ! p = orig ! p" if "i' < p" "p < j'" for p
    using that i' j' by (intro mid') auto
  moreover have "j' < length orig" using j j' by auto
  ultimately show ?thesis
    unfolding worked_from_def using f by (simp add: map_equality_iff)
qed

lemma clamp_transfer_bounds:
  "bc_MinTransferUSD cfg \<le> clamp_transfer cfg x" "clamp_transfer cfg x \<le> max (bc_MinTransferUSD cfg) (bc_MaxTransferUSD cfg)"
  by (auto simp: clamp_transfer_def)

lemma pair_up_moves_between:
  assumes \<theta>: "0 < bc_RebalanceThreshPct cfg" and res: "pair_up cfg e devs i j acts = Some res"
    and w: "worked_from orig devs i j" and acts: "\<forall>a \<in> set acts. Q a \<or> moves_between cfg orig a"
  shows "\<forall>a \<in> set res. Q a \<or> moves_between cfg orig a"
proof -
  from res have "0 < bc_RebalanceThreshPct cfg \<longrightarrow> worked_from orig devs i j \<longrightarrow>
      (\<forall>a \<in> set acts. Q a \<or> moves_between cfg orig a) \<longrightarrow> (\<forall>a \<in> set res. Q a \<or> moves_between cfg orig a)"
  proof (rule pair_up.raw_induct [rotated, where P = "\<lambda>cfg e devs i j acts res. 0 < bc_RebalanceThreshPct cfg \<longrightarrow>
           worked_from orig devs i j \<longrightarrow> (\<forall>a \<in> set acts. Q a \<or> moves_between cfg orig a) \<longrightarrow>
           (\<forall>a \<in> set res. Q a \<or> moves_between cfg orig a)"], goal_cases)
    case (1 pair_up cfg e devs i j acts res)
    show ?case
    proof (intro impI)
      assume \<theta>: "0 < bc_RebalanceThreshPct cfg" and w: "worked_from orig devs i j" and acts: "\<forall>a \<in> set acts. Q a \<or> moves_between cfg orig a"
      show "\<forall>a \<in> set res. Q a \<or> moves_between cfg orig a"
      proof (cases "i < j \<and> bc_RebalanceThreshPct cfg \<le> snd (devs ! i) \<and> snd (devs ! j) \<le> - bc_RebalanceThreshPct cfg")
        case False
        with 1(2) acts show ?thesis by (auto split: if_splits)
      next
        case True
        let ?a = "rebalance_action cfg e (devs ! i) (devs ! j) (gap devs i j / 2)"
        have "map fst devs ! p = map fst orig ! p" for p using w by (simp add: worked_from_def)
        then have n: "fst (devs ! i) = fst (orig ! i)" "fst (devs ! j) = fst (orig ! j)"
          using True w by (metis less_trans nth_map worked_from_def)+
        have m: "moves_between cfg orig ?a"
          unfolding moves_between_def
        proof (intro conjI)
          show "\<exists>p q. p < q \<and> q < length orig \<and> ra_FromVenue ?a = fst (orig ! p) \<and> ra_ToVenue ?a = fst (orig ! q) \<and>
                   bc_RebalanceThreshPct cfg \<le> snd (orig ! p) \<and> snd (orig ! q) \<le> - bc_RebalanceThreshPct cfg"
            using True w n by (intro exI [of _ i] exI [of _ j]) (auto simp: rebalance_action_def worked_from_def)
        qed (simp_all add: rebalance_action_def clamp_transfer_bounds)
        have t: "0 \<le> gap devs i j" using True \<theta> by simp
        obtain i' j' where step: "pair_up cfg e (after_transfer devs i j) i' j' (acts @ [?a]) = Some res"
          and ij: "i' = i \<or> i' = i + 1" "j' = j \<or> j' = j - 1"
          using 1(2) True by (force simp: Let_def)
        from 1(1) [OF step] \<theta> worked_from_turn [OF w _ t ij] True acts m show ?thesis by simp
      qed
    qed
  qed
  with \<theta> w acts show ?thesis by blast
qed

lemma donor_found:
  assumes "findDonorVenue cfg bals ex \<noteq> ''''"
  shows "\<exists>b \<in> set bals. vb_Venue b = findDonorVenue cfg bals ex \<and> vb_Venue b \<noteq> ex \<and> 0 < vb_FreeMarginUSD b \<and> vb_UtilizationPct b < bc_MaxUtilizationPct cfg"
proof -
  have "0 \<le> snd (foldl (donor_step cfg ex) ('''', 0) bals) \<and>
        (fst (foldl (donor_step cfg ex) ('''', 0) bals) = '''' \<or>
         (\<exists>b \<in> set bals. vb_Venue b = fst (foldl (donor_step cfg ex) ('''', 0) bals) \<and> vb_Venue b \<noteq> ex \<and>
            0 < vb_FreeMarginUSD b \<and> vb_UtilizationPct b < bc_MaxUtilizationPct cfg))"
    by (induction bals rule: rev_induct) (auto simp: donor_step_def)
  with assms show ?thesis by (simp add: findDonorVenue_def)
qed

section \<open>The analysis\<close>

definition share :: "(string \<rightharpoonup> float64) \<Rightarrow> string \<Rightarrow> float64" where
  "share actual v = (case actual v of None \<Rightarrow> 0 | Some a \<Rightarrow> a)"

lemma set_deviations: "set (deviations cfg actual) = (\<lambda>(v, t). (v, share actual v - t)) ` set (bc_TargetAllocPct cfg)"
  by (simp add: deviations_def share_def)

lemma deviation_venues: "map fst (deviations cfg actual) = map fst (bc_TargetAllocPct cfg)"
  by (simp add: deviations_def case_prod_beta)

lemma Analyse_cases:
  assumes "Analyse by_diff cfg now balances = Some snap" "(\<Sum>bal\<leftarrow>balances. vb_EquityUSD bal) \<noteq> 0"
  obtains devs where "devs = by_diff (deviations cfg (is_ActualAlloc snap))"
    "pair_up cfg (is_TotalEquityUSD snap) devs 0 (length devs - 1) (concat (map (margin_action cfg balances) balances)) = Some (is_Actions snap)"
  using assms by (auto simp: Analyse_def Let_def split: option.splits)

lemma sorted_ends:
  fixes xs :: "deviation list"
  assumes "sorted (map (\<lambda>d. - snd d) xs)" "p < length xs"
  shows "snd (xs ! p) \<le> snd (xs ! 0) \<and> snd (xs ! (length xs - 1)) \<le> snd (xs ! p)"
proof -
  have "map (\<lambda>d. - snd d) xs ! 0 \<le> map (\<lambda>d. - snd d) xs ! p" "map (\<lambda>d. - snd d) xs ! p \<le> map (\<lambda>d. - snd d) xs ! (length xs - 1)"
    using assms sorted_nth_mono [OF assms(1), of 0 p] sorted_nth_mono [OF assms(1), of p "length xs - 1"] by simp_all
  moreover have "xs \<noteq> []" using assms(2) by auto
  ultimately show ?thesis using assms(2) by simp
qed

text \<open>C34.  With a positive threshold one index of the pairing loop advances in every round: the analysis returns.\<close>

theorem the_analysis_returns:
  assumes "0 < bc_RebalanceThreshPct cfg"
  shows "\<exists>snap. Analyse by_diff cfg now balances = Some snap"
proof -
  have "\<exists>acts'. pair_up cfg e devs 0 (length devs - 1) acts = Some acts'" for e devs acts
    by (cases "devs = []") (simp_all add: pair_up_returns [OF assms])
  then show ?thesis unfolding Analyse_def Let_def by (metis option.simps(5))
qed

theorem a_zero_threshold_hangs_the_analysis:
  assumes sort: "sorts_by (\<lambda>d. - snd d) by_diff" and zero: "bc_RebalanceThreshPct cfg = 0"
    and equity: "(\<Sum>bal\<leftarrow>balances. vb_EquityUSD bal) \<noteq> 0"
    and above: "(v, t) \<in> set (bc_TargetAllocPct cfg)" "t < share (actual_alloc (\<Sum>bal\<leftarrow>balances. vb_EquityUSD bal) balances) v"
    and below: "(w, u) \<in> set (bc_TargetAllocPct cfg)" "share (actual_alloc (\<Sum>bal\<leftarrow>balances. vb_EquityUSD bal) balances) w < u"
  shows "Analyse by_diff cfg now balances = None"
proof -
  let ?actual = "actual_alloc (\<Sum>bal\<leftarrow>balances. vb_EquityUSD bal) balances"
  let ?devs = "by_diff (deviations cfg ?actual)"
  have s: "sorted (map (\<lambda>d. - snd d) ?devs)" "set ?devs = set (deviations cfg ?actual)"
    using sort unfolding sorts_by_def by (auto dest: mset_eq_setD)
  have "(v, share ?actual v - t) \<in> set ?devs" "(w, share ?actual w - u) \<in> set ?devs"
    unfolding s(2) set_deviations using above(1) below(1) by force+
  then obtain p q where p: "p < length ?devs" "snd (?devs ! p) = share ?actual v - t"
    and q: "q < length ?devs" "snd (?devs ! q) = share ?actual w - u" by (metis in_set_conv_nth snd_conv)
  with sorted_ends [OF s(1)] have "snd (?devs ! p) \<le> snd (?devs ! 0)" "snd (?devs ! (length ?devs - 1)) \<le> snd (?devs ! q)" by blast+
  then have hd: "0 < snd (?devs ! 0)" and lst: "snd (?devs ! (length ?devs - 1)) < 0"
    using p(2) q(2) above(2) below(2) by auto
  then have "0 < length ?devs - 1" by (metis less_irrefl less_trans neq0_conv)
  with a_zero_threshold_never_returns [OF zero _ _ hd lst] equity show ?thesis
    by (simp add: Analyse_def Let_def)
qed

lemma margin_actions_are_transfers:
  assumes "a \<in> set (concat (map (margin_action cfg balances) balances))"
  shows "ra_FromVenue a \<noteq> ra_ToVenue a \<and> bc_MinTransferUSD cfg \<le> ra_AmountUSD a \<and>
         ra_AmountUSD a \<le> max (bc_MinTransferUSD cfg) (bc_MaxTransferUSD cfg)"
proof -
  from assms obtain bal where "a \<in> set (margin_action cfg balances bal)" by auto
  then show ?thesis
    using donor_found [of cfg balances "vb_Venue bal"] clamp_transfer_bounds [of cfg]
    by (auto simp: margin_action_def Let_def simp del: max.bounded_iff split: if_splits)
qed

text \<open>
  A transfer restores the targets when it leaves a venue that is above its target by at least
  the threshold for one that is below its target by at least the threshold.
\<close>

definition restores_targets :: "BalancerConfig \<Rightarrow> (string \<rightharpoonup> float64) \<Rightarrow> RebalanceAction \<Rightarrow> bool" where
  "restores_targets cfg actual a \<longleftrightarrow>
     (\<exists>t u. (ra_FromVenue a, t) \<in> set (bc_TargetAllocPct cfg) \<and> t + bc_RebalanceThreshPct cfg \<le> share actual (ra_FromVenue a) \<and>
            (ra_ToVenue a, u) \<in> set (bc_TargetAllocPct cfg) \<and> share actual (ra_ToVenue a) \<le> u - bc_RebalanceThreshPct cfg)"

lemma moves_between_transfers:
  assumes m: "moves_between cfg devs a" and devs: "mset devs = mset (deviations cfg actual)"
    and targets: "distinct (map fst (bc_TargetAllocPct cfg))"
  shows "ra_FromVenue a \<noteq> ra_ToVenue a \<and> bc_MinTransferUSD cfg \<le> ra_AmountUSD a \<and>
         ra_AmountUSD a \<le> max (bc_MinTransferUSD cfg) (bc_MaxTransferUSD cfg) \<and> restores_targets cfg actual a"
proof -
  have e: "set devs = set (deviations cfg actual)" using devs by (rule mset_eq_setD)
  have "mset (map fst devs) = mset (map fst (bc_TargetAllocPct cfg))"
    using devs by (metis deviation_venues mset_map)
  then have d: "distinct (map fst devs)" using targets by (metis mset_eq_imp_distinct_iff)
  from m obtain p q where pq: "p < q" "q < length devs" "ra_FromVenue a = fst (devs ! p)" "ra_ToVenue a = fst (devs ! q)"
    "bc_RebalanceThreshPct cfg \<le> snd (devs ! p)" "snd (devs ! q) \<le> - bc_RebalanceThreshPct cfg"
    by (auto simp: moves_between_def)
  have "map fst devs ! p \<noteq> map fst devs ! q" using d pq by (subst nth_eq_iff_index_eq) auto
  then have "ra_FromVenue a \<noteq> ra_ToVenue a" using pq by simp
  moreover have "devs ! p \<in> set (deviations cfg actual)" "devs ! q \<in> set (deviations cfg actual)"
    using pq unfolding e [symmetric] by auto
  then obtain t u where tu: "(fst (devs ! p), t) \<in> set (bc_TargetAllocPct cfg)" "snd (devs ! p) = share actual (fst (devs ! p)) - t"
    "(fst (devs ! q), u) \<in> set (bc_TargetAllocPct cfg)" "snd (devs ! q) = share actual (fst (devs ! q)) - u"
    by (auto simp: set_deviations)
  have "restores_targets cfg actual a"
    unfolding restores_targets_def pq(3,4) using pq(5,6) tu by (intro exI [of _ t] exI [of _ u]) auto
  ultimately show ?thesis using m by (auto simp: moves_between_def)
qed

text \<open>
  Every recommended transfer is between two venues and within the limits of size; a routine one goes
  from a venue that is above its target by the threshold to one that is as far below.
\<close>

theorem recommended_transfers_are_bounded_and_restore_the_targets:
  assumes sort: "sorts_by (\<lambda>d. - snd d) by_diff" and \<theta>: "0 < bc_RebalanceThreshPct cfg"
    and targets: "distinct (map fst (bc_TargetAllocPct cfg))"
    and res: "Analyse by_diff cfg now balances = Some snap" and a: "a \<in> set (is_Actions snap)"
  shows "ra_FromVenue a \<noteq> ra_ToVenue a \<and> bc_MinTransferUSD cfg \<le> ra_AmountUSD a \<and>
         ra_AmountUSD a \<le> max (bc_MinTransferUSD cfg) (bc_MaxTransferUSD cfg) \<and>
         (a \<notin> set (concat (map (margin_action cfg balances) balances)) \<longrightarrow> restores_targets cfg (is_ActualAlloc snap) a)"
proof (cases "(\<Sum>bal\<leftarrow>balances. vb_EquityUSD bal) = 0")
  case True
  with res a show ?thesis by (auto simp: Analyse_def)
next
  case False
  let ?urgent = "concat (map (margin_action cfg balances) balances)"
  from res False obtain devs where devs: "devs = by_diff (deviations cfg (is_ActualAlloc snap))"
    and run: "pair_up cfg (is_TotalEquityUSD snap) devs 0 (length devs - 1) ?urgent = Some (is_Actions snap)"
    by (rule Analyse_cases)
  have m: "mset devs = mset (deviations cfg (is_ActualAlloc snap))" using sort devs by (simp add: sorts_by_def)
  have w: "worked_from devs devs 0 (length devs - 1)" by (cases devs) (auto simp: worked_from_def)
  have "a \<in> set ?urgent \<or> moves_between cfg devs a"
    using pair_up_moves_between [OF \<theta> run w, of "\<lambda>a. a \<in> set ?urgent"] a by simp
  then show ?thesis
    using margin_actions_are_transfers moves_between_transfers [OF _ m targets] by blast
qed

definition lopsided_balance :: "string \<Rightarrow> float64 \<Rightarrow> VenueBalance" where
  "lopsided_balance v e = \<lparr>vb_Venue = v, vb_EquityUSD = e, vb_FreeMarginUSD = e, vb_UsedMarginUSD = 0,
     vb_UnrealizedPnL = 0, vb_UtilizationPct = 0, vb_TsMs = 0\<rparr>"

definition two_targets :: BalancerConfig where
  "two_targets = DefaultBalancerConfig\<lparr>bc_TargetAllocPct := [(''a'', 50), (''b'', 50)]\<rparr>"

lemmas balancer_eval = lopsided_balance_def two_targets_def DefaultBalancerConfig_def actual_alloc_def share_def

lemma the_analysis_returns_witness:
  "\<exists>snap. Analyse (sort_key (\<lambda>d. - snd d)) two_targets 0 [lopsided_balance ''a'' 80, lopsided_balance ''b'' 20] = Some snap"
  by (rule the_analysis_returns) (simp add: balancer_eval)

lemma a_zero_threshold_hangs_the_analysis_witness:
  "Analyse (sort_key (\<lambda>d. - snd d)) (two_targets\<lparr>bc_RebalanceThreshPct := 0\<rparr>) 0
     [lopsided_balance ''a'' 80, lopsided_balance ''b'' 20] = None"
proof (rule a_zero_threshold_hangs_the_analysis [OF sorts_by_sort_key])
  show "(''a'', 50) \<in> set (bc_TargetAllocPct (two_targets\<lparr>bc_RebalanceThreshPct := 0\<rparr>))"
    "(''b'', 50) \<in> set (bc_TargetAllocPct (two_targets\<lparr>bc_RebalanceThreshPct := 0\<rparr>))" by (simp_all add: balancer_eval)
qed (simp_all add: balancer_eval)

lemma recommended_transfers_are_bounded_and_restore_the_targets_witness:
  "\<exists>snap a. Analyse (sort_key (\<lambda>d. - snd d)) two_targets 0 [lopsided_balance ''a'' 60, lopsided_balance ''b'' 40] = Some snap \<and>
     is_Actions snap = [a] \<and> ra_FromVenue a \<noteq> ra_ToVenue a"
proof -
  let ?bals = "[lopsided_balance ''a'' 60, lopsided_balance ''b'' 40]"
  have "\<exists>snap. Analyse (sort_key (\<lambda>d. - snd d)) two_targets 0 ?bals = Some snap \<and>
      is_Actions snap = [rebalance_action two_targets 100 (''a'', 10) (''b'', -10) 5]"
    by (simp add: Analyse_def balancer_eval deviations_def margin_action_def pair_up.simps shift_dev_def Let_def)
  then obtain snap where s: "Analyse (sort_key (\<lambda>d. - snd d)) two_targets 0 ?bals = Some snap"
    and a: "is_Actions snap = [rebalance_action two_targets 100 (''a'', 10) (''b'', -10) 5]" by blast
  have "distinct (map fst (bc_TargetAllocPct two_targets))" "0 < bc_RebalanceThreshPct two_targets" by (simp_all add: balancer_eval)
  with recommended_transfers_are_bounded_and_restore_the_targets [OF sorts_by_sort_key _ _ s, of "rebalance_action two_targets 100 (''a'', 10) (''b'', -10) 5"]
    s a show ?thesis by simp
qed

end
