(* ===== verification/Leader_Detector.thy ===== *)
theory Leader_Detector
  imports Orderbook
begin

text \<open>
  internal/orderbook/leader.go: which venue moves first.  A significant move of a mid price becomes
  an event: it follows the latest correlated move of another venue inside the window, or it leads.
  The statistics and the fair-value weights are computed from the events of a symbol.
\<close>

section \<open>Data\<close>

record PriceMove =
  pm_Venue :: string
  pm_Symbol :: string
  pm_TsMs :: int64
  pm_OldMid :: float64
  pm_NewMid :: float64
  pm_ChangeBps :: float64

record LeaderStats =
  ls_Venue :: string
  ls_LeadCount :: int
  ls_FollowCount :: int
  ls_LeadPct :: float64
  ls_AvgLeadTimeMs :: float64
  ls_Reliability :: float64

record VenueLeaderWeight =
  lw_Venue :: string
  lw_Weight :: float64

text \<open>The map of followers is the list of its entries.\<close>

record moveEvent =
  me_symbol :: string
  me_tsMs :: int64
  me_leader :: string
  me_followers :: "(string \<times> int64) list"
  me_changeBps :: float64

record LeaderDetector =
  ld_lastMids :: "string \<Rightarrow> string \<Rightarrow> float64"
  ld_moves :: "string \<Rightarrow> PriceMove list"
  ld_events :: "string \<Rightarrow> moveEvent list"
  ld_minChangeBps :: float64
  ld_correlWindowMs :: int64
  ld_windowMs :: int64
  ld_maxEvents :: nat

definition NewLeaderDetector :: "float64 \<Rightarrow> int64 \<Rightarrow> int64 \<Rightarrow> LeaderDetector" where
  "NewLeaderDetector minChangeBps correlWindowMs windowMs =
     \<lparr>ld_lastMids = (\<lambda>_ _. 0), ld_moves = (\<lambda>_. []), ld_events = (\<lambda>_. []), ld_minChangeBps = minChangeBps,
      ld_correlWindowMs = correlWindowMs, ld_windowMs = windowMs, ld_maxEvents = 2000\<rparr>"

section \<open>Recording prices\<close>

definition same_dir :: "PriceMove \<Rightarrow> PriceMove \<Rightarrow> bool" where
  "same_dir m pm \<longleftrightarrow> (0 < pm_ChangeBps m) = (0 < pm_ChangeBps pm)"

text \<open>The loop over the earlier moves, newest first; it stops at the first one outside the window.\<close>

fun find_leader :: "int64 \<Rightarrow> PriceMove \<Rightarrow> PriceMove list \<Rightarrow> PriceMove option" where
  "find_leader w pm [] = None"
| "find_leader w pm (m # ms) =
     (if pm_TsMs pm - pm_TsMs m > w then None
      else if pm_Venue m = pm_Venue pm then find_leader w pm ms
      else if \<not> same_dir m pm then find_leader w pm ms
      else Some m)"

definition follow_event :: "PriceMove \<Rightarrow> PriceMove \<Rightarrow> moveEvent" where
  "follow_event pm m = \<lparr>me_symbol = pm_Symbol pm, me_tsMs = pm_TsMs m, me_leader = pm_Venue m,
     me_followers = [(pm_Venue pm, pm_TsMs pm)], me_changeBps = pm_ChangeBps m\<rparr>"

definition lead_event :: "PriceMove \<Rightarrow> moveEvent" where
  "lead_event pm = \<lparr>me_symbol = pm_Symbol pm, me_tsMs = pm_TsMs pm, me_leader = pm_Venue pm,
     me_followers = [], me_changeBps = pm_ChangeBps pm\<rparr>"

text \<open>The new move is the last one of its symbol when this runs.\<close>

definition correlateMove :: "PriceMove \<Rightarrow> LeaderDetector \<Rightarrow> LeaderDetector" where
  "correlateMove pm ld =
     (let event = (case find_leader (ld_correlWindowMs ld) pm (rev (butlast (ld_moves ld (pm_Symbol pm)))) of
                     Some m \<Rightarrow> follow_event pm m
                   | None \<Rightarrow> lead_event pm)
      in ld\<lparr>ld_events := (ld_events ld)(pm_Symbol pm := ld_events ld (pm_Symbol pm) @ [event])\<rparr>)"

definition trim_moves :: "int64 \<Rightarrow> PriceMove list \<Rightarrow> PriceMove list" where
  "trim_moves cutoff ms = dropWhile (\<lambda>m. pm_TsMs m < cutoff) ms"

definition trim_events :: "int64 \<Rightarrow> moveEvent list \<Rightarrow> moveEvent list" where
  "trim_events cutoff es = dropWhile (\<lambda>e. me_tsMs e < cutoff) es"

definition trimOlderThan :: "string \<Rightarrow> int64 \<Rightarrow> LeaderDetector \<Rightarrow> LeaderDetector" where
  "trimOlderThan symbol cutoff ld =
     ld\<lparr>ld_moves := (ld_moves ld)(symbol := trim_moves cutoff (ld_moves ld symbol)),
        ld_events := (ld_events ld)(symbol := keep_last (ld_maxEvents ld) (trim_events cutoff (ld_events ld symbol)))\<rparr>"

definition change_bps :: "float64 \<Rightarrow> float64 \<Rightarrow> float64" where
  "change_bps old mid = (mid - old) / old * 10000"

definition RecordPrice :: "int64 \<Rightarrow> string \<Rightarrow> string \<Rightarrow> float64 \<Rightarrow> int64 \<Rightarrow> LeaderDetector \<Rightarrow> PriceMove option \<times> LeaderDetector" where
  "RecordPrice now venue symbol mid ts ld =
     (let lastMid = ld_lastMids ld symbol venue;
          ld1 = ld\<lparr>ld_lastMids := (ld_lastMids ld)(symbol := (ld_lastMids ld symbol)(venue := mid))\<rparr>
      in if lastMid = 0 then (None, ld1)
         else
           (let changeBps = change_bps lastMid mid in
            if \<bar>changeBps\<bar> < ld_minChangeBps ld then (None, ld1)
            else
              (let pm = \<lparr>pm_Venue = venue, pm_Symbol = symbol, pm_TsMs = ts, pm_OldMid = lastMid, pm_NewMid = mid, pm_ChangeBps = changeBps\<rparr>;
                   ld2 = ld1\<lparr>ld_moves := (ld_moves ld1)(symbol := ld_moves ld1 symbol @ [pm])\<rparr>
               in (Some pm, trimOlderThan symbol (now - ld_windowMs ld) (correlateMove pm ld2)))))"

section \<open>Statistics\<close>

definition lead_count :: "moveEvent list \<Rightarrow> string \<Rightarrow> nat" where
  "lead_count es v = length (filter (\<lambda>e. me_leader e = v) es)"

definition follow_count :: "moveEvent list \<Rightarrow> string \<Rightarrow> nat" where
  "follow_count es v = length (filter (\<lambda>f. fst f = v) (concat (map me_followers es)))"

definition lead_times :: "moveEvent list \<Rightarrow> string \<Rightarrow> int64 list" where
  "lead_times es v = concat (map (\<lambda>e. map (\<lambda>f. snd f - me_tsMs e) (me_followers e)) (filter (\<lambda>e. me_leader e = v) es))"

definition mean_of :: "int64 list \<Rightarrow> float64" where
  "mean_of lts = (\<Sum>lt\<leftarrow>lts. real_of_int lt) / real (length lts)"

definition lead_reliability :: "nat \<Rightarrow> int64 list \<Rightarrow> float64" where
  "lead_reliability lc lts =
     (if length lts > 1 then
        (let mean = mean_of lts;
             variance = (\<Sum>lt\<leftarrow>lts. (real_of_int lt - mean)\<^sup>2) / real (length lts)
         in if 0 < mean then max 0 (1 - sqrt variance / mean) else 0)
      else if 0 < lc then 0.5 else 0)"

definition venue_stats :: "moveEvent list \<Rightarrow> string \<Rightarrow> LeaderStats" where
  "venue_stats es v =
     (let lc = lead_count es v; lts = lead_times es v
      in \<lparr>ls_Venue = v, ls_LeadCount = int lc, ls_FollowCount = int (follow_count es v),
          ls_LeadPct = real lc / real (length es) * 100,
          ls_AvgLeadTimeMs = (if lts \<noteq> [] then mean_of lts else 0),
          ls_Reliability = lead_reliability lc lts\<rparr>)"

text \<open>The keys of the two maps of counts, each once.\<close>

definition event_venues :: "moveEvent list \<Rightarrow> string list" where
  "event_venues es = remdups (map me_leader es @ map fst (concat (map me_followers es)))"

definition LeaderStatistics :: "(LeaderStats list \<Rightarrow> LeaderStats list) \<Rightarrow> LeaderDetector \<Rightarrow> string \<Rightarrow> LeaderStats list" where
  "LeaderStatistics by_pct ld symbol =
     (let es = ld_events ld symbol
      in if es = [] then [] else by_pct (map (venue_stats es) (event_venues es)))"

section \<open>Weights\<close>

definition leader_score :: "(string \<rightharpoonup> DepthInfo) \<Rightarrow> LeaderStats \<Rightarrow> float64" where
  "leader_score depths s =
     (let leaderScore = ls_LeadPct s / 100 * max 0.1 (ls_Reliability s);
          depthFactor = (case depths (ls_Venue s) of None \<Rightarrow> 1 | Some d \<Rightarrow> min 2 ((di_BidDepthUSD d + di_AskDepthUSD d) / 100000));
          latencyFactor = (case depths (ls_Venue s) of None \<Rightarrow> 1
                           | Some d \<Rightarrow> if 0 < di_LatencyUs d then 1 / (1 + real_of_int (di_LatencyUs d) / 1000000) else 1);
          score = leaderScore * depthFactor * latencyFactor
      in if score < 0.01 then 0.01 else score)"

definition DynamicWeights ::
  "(LeaderStats list \<Rightarrow> LeaderStats list) \<Rightarrow> (VenueLeaderWeight list \<Rightarrow> VenueLeaderWeight list) \<Rightarrow>
   LeaderDetector \<Rightarrow> string \<Rightarrow> (string \<rightharpoonup> DepthInfo) \<Rightarrow> VenueLeaderWeight list" where
  "DynamicWeights by_pct by_weight ld symbol depths =
     (let stats = LeaderStatistics by_pct ld symbol
      in if stats = [] then []
         else
           (let raw = map (\<lambda>s. (ls_Venue s, leader_score depths s)) stats;
                total = sum_list (map snd raw)
            in by_weight (map (\<lambda>(v, score). \<lparr>lw_Venue = v, lw_Weight = score / total\<rparr>) raw)))"

section \<open>What the events hold\<close>

lemma find_leader_spec:
  "find_leader w pm ms = Some m \<Longrightarrow> m \<in> set ms \<and> pm_Venue m \<noteq> pm_Venue pm \<and> same_dir m pm \<and> pm_TsMs pm - pm_TsMs m \<le> w"
  by (induction ms) (auto split: if_splits)

definition event_ok :: "LeaderDetector \<Rightarrow> string \<Rightarrow> moveEvent \<Rightarrow> bool" where
  "event_ok ld symbol e \<longleftrightarrow> me_symbol e = symbol \<and> ld_minChangeBps ld \<le> \<bar>me_changeBps e\<bar> \<and>
     (me_followers e = [] \<or> (\<exists>v ts. me_followers e = [(v, ts)] \<and> v \<noteq> me_leader e \<and> ts - me_tsMs e \<le> ld_correlWindowMs ld))"

definition detector_ok :: "LeaderDetector \<Rightarrow> bool" where
  "detector_ok ld \<longleftrightarrow>
     (\<forall>symbol. length (ld_events ld symbol) \<le> ld_maxEvents ld \<and>
        (\<forall>m\<in>set (ld_moves ld symbol). pm_Symbol m = symbol \<and> ld_minChangeBps ld \<le> \<bar>pm_ChangeBps m\<bar>) \<and>
        (\<forall>e\<in>set (ld_events ld symbol). event_ok ld symbol e))"

type_synonym price_input = "int64 \<times> string \<times> string \<times> float64 \<times> int64"

definition record_step :: "LeaderDetector \<Rightarrow> price_input \<Rightarrow> LeaderDetector" where
  "record_step ld x = (case x of (now, venue, symbol, mid, ts) \<Rightarrow> snd (RecordPrice now venue symbol mid ts ld))"

lemma NewLeaderDetector_ok: "detector_ok (NewLeaderDetector minChange w lookback)"
  by (simp add: detector_ok_def NewLeaderDetector_def)

lemma correlated_event_ok:
  assumes "\<forall>m\<in>set ms. pm_Symbol m = s \<and> ld_minChangeBps ld \<le> \<bar>pm_ChangeBps m\<bar>"
    and "pm_Symbol pm = s" "ld_minChangeBps ld \<le> \<bar>pm_ChangeBps pm\<bar>"
  shows "event_ok ld s (case find_leader (ld_correlWindowMs ld) pm (rev ms) of Some m \<Rightarrow> follow_event pm m | None \<Rightarrow> lead_event pm)"
proof (cases "find_leader (ld_correlWindowMs ld) pm (rev ms)")
  case None
  with assms show ?thesis by (simp add: event_ok_def lead_event_def)
next
  case (Some m)
  with find_leader_spec [OF Some] assms show ?thesis by (auto simp: event_ok_def follow_event_def)
qed

lemma event_ok_cong:
  "ld_minChangeBps ld' = ld_minChangeBps ld \<Longrightarrow> ld_correlWindowMs ld' = ld_correlWindowMs ld \<Longrightarrow> event_ok ld' = event_ok ld"
  by (intro ext) (simp add: event_ok_def)

lemma set_trim_moves: "set (trim_moves c ms) \<subseteq> set ms"
  by (auto simp: trim_moves_def dest: set_dropWhileD)

lemma set_trim_events: "set (trim_events c es) \<subseteq> set es"
  by (auto simp: trim_events_def dest: set_dropWhileD)

lemma record_step_ok:
  assumes ok: "detector_ok ld"
  shows "detector_ok (record_step ld x)"
proof -
  obtain now v s mid ts where x: "x = (now, v, s, mid, ts)" by (cases x)
  let ?c = "change_bps (ld_lastMids ld s v) mid"
  let ?pm = "\<lparr>pm_Venue = v, pm_Symbol = s, pm_TsMs = ts, pm_OldMid = ld_lastMids ld s v, pm_NewMid = mid, pm_ChangeBps = ?c\<rparr>"
  let ?e = "case find_leader (ld_correlWindowMs ld) ?pm (rev (ld_moves ld s)) of Some m \<Rightarrow> follow_event ?pm m | None \<Rightarrow> lead_event ?pm"
  let ?cut = "now - ld_windowMs ld"
  show ?thesis
  proof (cases "ld_lastMids ld s v = 0 \<or> \<bar>?c\<bar> < ld_minChangeBps ld")
    case True
    with ok x show ?thesis by (auto simp: record_step_def RecordPrice_def Let_def detector_ok_def event_ok_def)
  next
    case False
    then have step: "record_step ld x = ld\<lparr>ld_lastMids := (ld_lastMids ld)(s := (ld_lastMids ld s)(v := mid)),
        ld_moves := (ld_moves ld)(s := trim_moves ?cut (ld_moves ld s @ [?pm])),
        ld_events := (ld_events ld)(s := keep_last (ld_maxEvents ld) (trim_events ?cut (ld_events ld s @ [?e])))\<rparr>" (is "_ = ?ld'")
      using x by (simp add: record_step_def RecordPrice_def Let_def correlateMove_def trimOlderThan_def)
    have eq: "event_ok ?ld' = event_ok ld" by (rule event_ok_cong) simp_all
    have e: "event_ok ld s ?e" using ok False by (intro correlated_event_ok) (auto simp: detector_ok_def)
    have "set (trim_moves ?cut (ld_moves ld s @ [?pm])) \<subseteq> set (ld_moves ld s @ [?pm])"
      by (rule set_trim_moves)
    moreover have "set (keep_last (ld_maxEvents ld) (trim_events ?cut (ld_events ld s @ [?e]))) \<subseteq> set (ld_events ld s @ [?e])"
      using set_keep_last set_trim_events by (rule order_trans)
    ultimately show ?thesis
      unfolding step detector_ok_def eq using ok e False by (auto simp: detector_ok_def)
  qed
qed

interpretation leader: invariant_machine record_step "\<lambda>_. True" detector_ok
  by unfold_locales (rule record_step_ok)


section \<open>Statistics\<close>

lemma lead_count_sum:
  "distinct vs \<Longrightarrow> set (map me_leader es) \<subseteq> set vs \<Longrightarrow> (\<Sum>v\<leftarrow>vs. lead_count es v) = length es"
proof (induction es)
  case Nil
  show ?case by (induction vs) (simp_all add: lead_count_def)
next
  case (Cons e es)
  have one: "(\<Sum>v\<leftarrow>vs. if me_leader e = v then 1 else 0 :: nat) = 1"
    using Cons.prems by (simp add: sum_list_distinct_conv_sum_set)
  have "(\<Sum>v\<leftarrow>vs. lead_count (e # es) v) = (\<Sum>v\<leftarrow>vs. (if me_leader e = v then 1 else 0) + lead_count es v)"
    by (intro arg_cong [where f = sum_list] map_cong) (auto simp: lead_count_def)
  with Cons one show ?case by (simp add: sum_list_addf)
qed

lemma event_venues_distinct [simp]: "distinct (event_venues es)"
  by (simp add: event_venues_def)

lemma event_venues_leaders: "me_leader ` set es \<subseteq> set (event_venues es)"
  by (auto simp: event_venues_def)

lemma event_venues_empty: "event_venues es = [] \<longleftrightarrow> es = []"
  by (auto simp: event_venues_def)

lemma venue_stats_venue [simp]: "ls_Venue (venue_stats es v) = v"
  by (simp add: venue_stats_def Let_def)

lemma sum_list_scaled:
  fixes c :: real
  shows "(\<Sum>v\<leftarrow>vs. f v / c) = (\<Sum>v\<leftarrow>vs. f v) / c"
  by (induction vs) (simp_all add: add_divide_distrib)

lemma sum_list_of_nat: "(\<Sum>v\<leftarrow>vs. real (f v)) = real (\<Sum>v\<leftarrow>vs. f v)"
  by (induction vs) simp_all

theorem lead_percentages_add_up:
  assumes "sorts_by (\<lambda>s. - ls_LeadPct s) by_pct" "ld_events ld symbol \<noteq> []"
  shows "(\<Sum>s\<leftarrow>LeaderStatistics by_pct ld symbol. ls_LeadPct s) = 100"
proof -
  let ?es = "ld_events ld symbol"
  have "(\<Sum>s\<leftarrow>LeaderStatistics by_pct ld symbol. ls_LeadPct s) = (\<Sum>v\<leftarrow>event_venues ?es. real (lead_count ?es v) / real (length ?es) * 100)"
    using assms(2) by (simp add: LeaderStatistics_def sorts_by_sum [OF assms(1)] o_def venue_stats_def Let_def)
  also have "\<dots> = real (\<Sum>v\<leftarrow>event_venues ?es. lead_count ?es v) / real (length ?es) * 100"
    by (simp add: sum_list_mult_const sum_list_scaled sum_list_of_nat)
  also have "\<dots> = 100"
    using lead_count_sum [OF event_venues_distinct, of ?es ?es] event_venues_leaders [of ?es] assms(2) by simp
  finally show ?thesis .
qed

lemma leader_score_pos [simp]: "0.01 \<le> leader_score depths s" "0 < leader_score depths s"
  by (simp_all add: leader_score_def Let_def)

lemma LeaderStatistics_venues:
  assumes "sorts_by (\<lambda>s. - ls_LeadPct s) by_pct"
  shows "mset (map ls_Venue (LeaderStatistics by_pct ld symbol)) = mset (event_venues (ld_events ld symbol))"
proof (cases "ld_events ld symbol = []")
  case True
  then show ?thesis by (simp add: LeaderStatistics_def event_venues_def)
next
  case False
  then show ?thesis
    using sorts_by_mset [OF assms] by (simp add: LeaderStatistics_def Let_def multiset.map_comp o_def)
qed

theorem leader_weights_are_normalised:
  assumes pct: "sorts_by (\<lambda>s. - ls_LeadPct s) by_pct" and weight: "sorts_by (\<lambda>w. - lw_Weight w) by_weight"
    and events: "ld_events ld symbol \<noteq> []"
  shows "(\<Sum>w\<leftarrow>DynamicWeights by_pct by_weight ld symbol depths. lw_Weight w) = 1 \<and>
         (\<forall>w\<in>set (DynamicWeights by_pct by_weight ld symbol depths). 0 < lw_Weight w) \<and>
         sorted (map (\<lambda>w. - lw_Weight w) (DynamicWeights by_pct by_weight ld symbol depths)) \<and>
         mset (map lw_Venue (DynamicWeights by_pct by_weight ld symbol depths)) = mset (event_venues (ld_events ld symbol))"
proof -
  let ?stats = "LeaderStatistics by_pct ld symbol" and ?score = "leader_score depths"
  let ?total = "\<Sum>s\<leftarrow>?stats. ?score s"
  let ?ws = "map (\<lambda>s. \<lparr>lw_Venue = ls_Venue s, lw_Weight = ?score s / ?total\<rparr>) ?stats"
  have ne: "?stats \<noteq> []" using LeaderStatistics_venues [OF pct, of ld symbol] events by (auto simp: event_venues_empty)
  then have res: "DynamicWeights by_pct by_weight ld symbol depths = by_weight ?ws"
    by (simp add: DynamicWeights_def Let_def o_def)
  have total: "0 < ?total" using ne by (intro sum_list_map_pos) simp_all
  have "(\<Sum>w\<leftarrow>by_weight ?ws. lw_Weight w) = ?total / ?total"
    unfolding sorts_by_sum [OF weight] by (simp add: o_def sum_list_scaled)
  moreover have "\<forall>w\<in>set (by_weight ?ws). 0 < lw_Weight w" using total by (auto simp: sorts_by_set [OF weight])
  moreover have "mset (map lw_Venue (by_weight ?ws)) = mset (map ls_Venue ?stats)"
    using sorts_by_mset [OF weight, of ?ws] by (simp add: multiset.map_comp o_def)
  ultimately show ?thesis
    unfolding res using total sorts_by_sorted [OF weight] LeaderStatistics_venues [OF pct] by simp
qed

section \<open>Lead times\<close>

lemma mean_of_le:
  assumes "lts \<noteq> []" "\<forall>lt\<in>set lts. lt \<le> w"
  shows "mean_of lts \<le> real_of_int w"
proof -
  have "(\<Sum>lt\<leftarrow>lts. real_of_int lt) \<le> (\<Sum>lt\<leftarrow>lts. real_of_int w)"
    using assms(2) by (intro sum_list_mono) simp
  with assms(1) show ?thesis
    by (simp add: mean_of_def sum_list_triv divide_le_eq mult.commute)
qed

lemma lead_times_bound:
  assumes "\<forall>e\<in>set es. event_ok ld symbol e" "lt \<in> set (lead_times es v)"
  shows "lt \<le> ld_correlWindowMs ld"
  using assms by (fastforce simp: lead_times_def event_ok_def)

lemma record_step_settings:
  "ld_minChangeBps (record_step ld x) = ld_minChangeBps ld \<and> ld_correlWindowMs (record_step ld x) = ld_correlWindowMs ld \<and>
   ld_maxEvents (record_step ld x) = ld_maxEvents ld"
  by (cases x) (simp add: record_step_def RecordPrice_def Let_def correlateMove_def trimOlderThan_def)

lemma detector_run_settings:
  "ld_minChangeBps (foldl record_step ld xs) = ld_minChangeBps ld \<and> ld_correlWindowMs (foldl record_step ld xs) = ld_correlWindowMs ld \<and>
   ld_maxEvents (foldl record_step ld xs) = ld_maxEvents ld"
  by (rule leader.foldl_induct) (simp_all add: record_step_settings)

lemma avg_lead_time_bound:
  assumes "\<forall>e\<in>set es. event_ok ld symbol e" "0 \<le> ld_correlWindowMs ld"
  shows "ls_AvgLeadTimeMs (venue_stats es v) \<le> ld_correlWindowMs ld"
  using assms(2) mean_of_le [of "lead_times es v" "ld_correlWindowMs ld"] lead_times_bound [OF assms(1)]
  by (auto simp: venue_stats_def Let_def)

theorem followers_react_within_the_window:
  assumes "0 \<le> w"
  shows "length (ld_events (foldl record_step (NewLeaderDetector minChange w lookback) xs) symbol) \<le> 2000 \<and>
         (\<forall>e\<in>set (ld_events (foldl record_step (NewLeaderDetector minChange w lookback) xs) symbol).
            minChange \<le> \<bar>me_changeBps e\<bar> \<and> (\<forall>(v, ts)\<in>set (me_followers e). v \<noteq> me_leader e \<and> ts - me_tsMs e \<le> w)) \<and>
         ls_AvgLeadTimeMs (venue_stats (ld_events (foldl record_step (NewLeaderDetector minChange w lookback) xs) symbol) v) \<le> w"
proof -
  let ?ld = "foldl record_step (NewLeaderDetector minChange w lookback) xs"
  have ok: "detector_ok ?ld" by (rule leader.run_inv) (simp_all add: NewLeaderDetector_ok)
  have settings: "ld_minChangeBps ?ld = minChange" "ld_correlWindowMs ?ld = w" "ld_maxEvents ?ld = 2000"
    by (simp_all add: detector_run_settings) (simp_all add: NewLeaderDetector_def)
  have events: "\<forall>e\<in>set (ld_events ?ld symbol). event_ok ?ld symbol e" "length (ld_events ?ld symbol) \<le> 2000"
    using ok settings(3) by (auto simp: detector_ok_def)
  have "minChange \<le> \<bar>me_changeBps e\<bar> \<and> (\<forall>(v, ts)\<in>set (me_followers e). v \<noteq> me_leader e \<and> ts - me_tsMs e \<le> w)"
    if "e \<in> set (ld_events ?ld symbol)" for e
    using events(1) that settings by (force simp: event_ok_def)
  then show ?thesis using events avg_lead_time_bound [OF events(1)] settings assms by simp
qed

text \<open>
  A venue that moves alone leads every event it makes: nothing has to follow it.
\<close>

theorem a_venue_nobody_follows_leads_every_move:
  assumes "sorts_by (\<lambda>s. - ls_LeadPct s) by_pct" "es = ld_events ld symbol" "es \<noteq> []"
    and "\<forall>e\<in>set es. me_leader e = v \<and> me_followers e = []"
  shows "LeaderStatistics by_pct ld symbol =
     [\<lparr>ls_Venue = v, ls_LeadCount = int (length es), ls_FollowCount = 0, ls_LeadPct = 100, ls_AvgLeadTimeMs = 0, ls_Reliability = 1 / 2\<rparr>]"
proof -
  have f: "filter (\<lambda>e. me_leader e = v) es = es" "concat (map me_followers es) = []"
    using assms(4) by (auto simp: filter_id_conv)
  have t: "lead_times es v = []" using assms(4) by (auto simp: lead_times_def)
  have "set (event_venues es) = {v}" using assms(3,4) by (cases es) (auto simp: event_venues_def)
  then have ev: "event_venues es = [v]"
    by (metis distinct.simps(2) empty_set event_venues_distinct insert_not_empty list.set_intros(1) list.set_intros(2) neq_Nil_conv singleton_iff)
  have "length (by_pct [venue_stats es v]) = 1" "set (by_pct [venue_stats es v]) = {venue_stats es v}"
    by (simp_all add: sorts_by_length [OF assms(1)] sorts_by_set [OF assms(1)])
  then have one: "by_pct [venue_stats es v] = [venue_stats es v]" by (metis One_nat_def length_0_conv length_Suc_conv list.set_intros(1) singletonD)
  have "LeaderStatistics by_pct ld symbol = [venue_stats es v]"
    using assms(3) ev one by (simp add: LeaderStatistics_def Let_def flip: assms(2))
  with assms(3) f t show ?thesis
    by (simp add: venue_stats_def Let_def lead_count_def follow_count_def lead_reliability_def)
qed

lemma a_venue_nobody_follows_leads_every_move_witness:
  "LeaderStatistics (sort_key (\<lambda>s. - ls_LeadPct s)) ((NewLeaderDetector 2 500 60000)\<lparr>ld_events := (\<lambda>_. [lead_event \<lparr>pm_Venue = ''a'', pm_Symbol = ''BTC'', pm_TsMs = 1, pm_OldMid = 1, pm_NewMid = 2, pm_ChangeBps = 10000\<rparr>])\<rparr>) ''BTC'' =
     [\<lparr>ls_Venue = ''a'', ls_LeadCount = 1, ls_FollowCount = 0, ls_LeadPct = 100, ls_AvgLeadTimeMs = 0, ls_Reliability = 1 / 2\<rparr>]"
  using a_venue_nobody_follows_leads_every_move [OF sorts_by_sort_key refl, of "(NewLeaderDetector 2 500 60000)\<lparr>ld_events := (\<lambda>_. [lead_event \<lparr>pm_Venue = ''a'', pm_Symbol = ''BTC'', pm_TsMs = 1, pm_OldMid = 1, pm_NewMid = 2, pm_ChangeBps = 10000\<rparr>])\<rparr>" "''BTC''" "''a''"]
  by (simp add: lead_event_def)

section \<open>Concrete detectors\<close>

definition two_venue_run :: LeaderDetector where
  "two_venue_run = foldl record_step (NewLeaderDetector 2 500 60000)
     [(1000, ''a'', ''BTC'', 100, 1000), (1000, ''b'', ''BTC'', 100, 1000),
      (1100, ''a'', ''BTC'', 101, 1100), (1100, ''b'', ''BTC'', 101, 1050)]"

text \<open>The move of b is stamped before the one of a, which was recorded first: a leads by -50 ms.\<close>

lemma a_leader_may_be_later_than_its_follower:
  "ls_AvgLeadTimeMs (venue_stats (ld_events two_venue_run ''BTC'') ''a'') = - 50"
  by (simp add: two_venue_run_def record_step_def RecordPrice_def NewLeaderDetector_def change_bps_def Let_def correlateMove_def
      trimOlderThan_def trim_moves_def trim_events_def keep_last_def follow_event_def lead_event_def same_dir_def
      venue_stats_def lead_times_def mean_of_def)

lemma two_venue_run_events: "ld_events two_venue_run ''BTC'' \<noteq> []"
  by (simp add: two_venue_run_def record_step_def RecordPrice_def NewLeaderDetector_def change_bps_def Let_def correlateMove_def
      trimOlderThan_def trim_moves_def trim_events_def keep_last_def follow_event_def lead_event_def same_dir_def)

lemma lead_percentages_add_up_witness:
  "(\<Sum>s\<leftarrow>LeaderStatistics (sort_key (\<lambda>s. - ls_LeadPct s)) two_venue_run ''BTC''. ls_LeadPct s) = 100"
  by (rule lead_percentages_add_up [OF sorts_by_sort_key two_venue_run_events])

lemma leader_weights_are_normalised_witness:
  "(\<Sum>w\<leftarrow>DynamicWeights (sort_key (\<lambda>s. - ls_LeadPct s)) (sort_key (\<lambda>w. - lw_Weight w)) two_venue_run ''BTC'' Map.empty. lw_Weight w) = 1"
  using leader_weights_are_normalised [OF sorts_by_sort_key sorts_by_sort_key two_venue_run_events, of Map.empty] by blast

lemma followers_react_within_the_window_witness:
  "ls_AvgLeadTimeMs (venue_stats (ld_events two_venue_run ''BTC'') ''a'') \<le> 500"
  using followers_react_within_the_window [of 500 2 60000 "[(1000, ''a'', ''BTC'', 100, 1000), (1000, ''b'', ''BTC'', 100, 1000),
      (1100, ''a'', ''BTC'', 101, 1100), (1100, ''b'', ''BTC'', 101, 1050)]" "''BTC''" "''a''"]
  by (simp add: two_venue_run_def)

end
