(* ===== verification/Liquidity_Engine.thy ===== *)
theory Liquidity_Engine
  imports Arb_Strategies Ring_Buffers
begin

text \<open>
  internal/liquidity: anomalies of one venue's book turned into one-legged intents, and the loop of
  cmd/liquidity-engine.  A division by a zero buffer size and an index out of range, which Go turns into a panic, are \<open>None\<close>.
  The rolling state of a venue refines the list of its spreads.
\<close>

section \<open>Data\<close>

datatype SignalType =
  SignalSpreadBlowout | SignalThinBook | SignalMarkIndexDivergence | SignalOrderImbalance | SignalLiquidationCascade

record LiqSignal =
  sg_Type :: SignalType
  sg_Venue :: string
  sg_Symbol :: string
  sg_Value :: float64
  sg_Baseline :: float64
  sg_TsMs :: int64

record LiqPolicy =
  lp_SpreadBlowoutMult :: float64
  lp_SpreadBaselineSamples :: int
  lp_ThinBookThresholdUSD :: float64
  lp_MarkIndexDivergeBps :: float64
  lp_ImbalanceRatio :: float64
  lp_LiqCascadePriceBps :: float64
  lp_SpreadCaptureNotionalUSD :: float64
  lp_LiqContraNotionalUSD :: float64
  lp_CooldownMs :: int64
  lp_MinConsensusQuality :: string

definition DefaultLiqPolicy :: LiqPolicy where
  "DefaultLiqPolicy =
     \<lparr>lp_SpreadBlowoutMult = 3, lp_SpreadBaselineSamples = 50, lp_ThinBookThresholdUSD = 100000, lp_MarkIndexDivergeBps = 20,
      lp_ImbalanceRatio = 5, lp_LiqCascadePriceBps = 30, lp_SpreadCaptureNotionalUSD = 5000, lp_LiqContraNotionalUSD = 2500,
      lp_CooldownMs = 5000, lp_MinConsensusQuality = ''HIGH''\<rparr>"

record venueState =
  vt_spreadBuf :: "float64 list"
  vt_bufIdx :: nat
  vt_bufFull :: bool
  vt_prevMid :: float64
  vt_prevMidTsMs :: int64

record LiqEngine =
  le_policy :: LiqPolicy
  le_states :: "string \<rightharpoonup> venueState"
  le_lastEmit :: "string \<rightharpoonup> int64"

definition NewLiqEngine :: "LiqPolicy option \<Rightarrow> LiqEngine" where
  "NewLiqEngine p = \<lparr>le_policy = (case p of None \<Rightarrow> DefaultLiqPolicy | Some p \<Rightarrow> p), le_states = Map.empty, le_lastEmit = Map.empty\<rparr>"

section \<open>The rolling spread\<close>

definition spreadBaseline :: "venueState \<Rightarrow> float64" where
  "spreadBaseline vt =
     (let n = (if vt_bufFull vt then length (vt_spreadBuf vt) else vt_bufIdx vt)
      in if vt_spreadBuf vt = [] \<or> n = 0 then 0 else sum_list (take n (vt_spreadBuf vt)) / real n)"

definition pushSpread :: "float64 \<Rightarrow> int \<Rightarrow> venueState \<Rightarrow> venueState option" where
  "pushSpread spread cap vt =
     (let buf = vt_spreadBuf vt; i = vt_bufIdx vt mod nat \<bar>cap\<bar> in
      if int (length buf) < cap
      then Some (vt\<lparr>vt_spreadBuf := buf @ [spread], vt_bufIdx := length buf + 1, vt_bufFull := (int (length buf + 1) = cap)\<rparr>)
      else if cap = 0 \<or> length buf \<le> i then None
      else Some (vt\<lparr>vt_spreadBuf := buf[i := spread], vt_bufIdx := vt_bufIdx vt + 1, vt_bufFull := True\<rparr>))"

section \<open>Signals\<close>

definition liq_rank :: "string \<Rightarrow> int" where
  "liq_rank q = (if q = ''LOW'' then 1 else if q = ''MED'' then 2 else if q = ''HIGH'' then 3 else 0)"

definition liq_qualityOK :: "string \<Rightarrow> string \<Rightarrow> bool" where
  "liq_qualityOK have need \<longleftrightarrow> liq_rank need \<le> liq_rank have"

definition liq_signal :: "Quote \<Rightarrow> int64 \<Rightarrow> SignalType \<Rightarrow> float64 \<Rightarrow> float64 \<Rightarrow> LiqSignal" where
  "liq_signal q now t v b = \<lparr>sg_Type = t, sg_Venue = q_Venue q, sg_Symbol = q_Symbol q, sg_Value = v, sg_Baseline = b, sg_TsMs = now\<rparr>"

definition blowout_signals :: "LiqPolicy \<Rightarrow> Quote \<Rightarrow> int64 \<Rightarrow> float64 \<Rightarrow> float64 \<Rightarrow> LiqSignal list" where
  "blowout_signals p q now baseline spreadBps =
     (if 0 < baseline \<and> lp_SpreadBlowoutMult p * baseline < spreadBps
      then [liq_signal q now SignalSpreadBlowout spreadBps baseline] else [])"

definition thin_signals :: "LiqPolicy \<Rightarrow> Quote \<Rightarrow> int64 \<Rightarrow> float64 \<Rightarrow> LiqSignal list" where
  "thin_signals p q now depth =
     (if 0 < depth \<and> depth < lp_ThinBookThresholdUSD p
      then [liq_signal q now SignalThinBook depth (lp_ThinBookThresholdUSD p)] else [])"

definition divergence_signals :: "LiqPolicy \<Rightarrow> Quote \<Rightarrow> int64 \<Rightarrow> LiqSignal list" where
  "divergence_signals p q now =
     (let divBps = \<bar>q_Mark q - q_Index q\<bar> / q_Index q * 10000
      in if 0 < q_Mark q \<and> 0 < q_Index q \<and> lp_MarkIndexDivergeBps p < divBps
         then [liq_signal q now SignalMarkIndexDivergence divBps (lp_MarkIndexDivergeBps p)] else [])"

definition imbalance_signals :: "LiqPolicy \<Rightarrow> Quote \<Rightarrow> int64 \<Rightarrow> LiqSignal list" where
  "imbalance_signals p q now =
     (let ratio = q_BidDepth1Pct q / q_AskDepth1Pct q
      in if 0 < q_BidDepth1Pct q \<and> 0 < q_AskDepth1Pct q \<and> (lp_ImbalanceRatio p < ratio \<or> ratio < 1 / lp_ImbalanceRatio p)
         then [liq_signal q now SignalOrderImbalance ratio (lp_ImbalanceRatio p)] else [])"

definition liq_cascade_signals ::
  "LiqPolicy \<Rightarrow> Quote \<Rightarrow> int64 \<Rightarrow> venueState \<Rightarrow> float64 \<Rightarrow> float64 \<Rightarrow> float64 \<Rightarrow> LiqSignal list" where
  "liq_cascade_signals p q now vt mid baseline spreadBps =
     (let dtMs = now - vt_prevMidTsMs vt; moveBps = \<bar>mid - vt_prevMid vt\<bar> / vt_prevMid vt * 10000
      in if 0 < vt_prevMid vt \<and> 0 < vt_prevMidTsMs vt \<and> 0 < dtMs \<and> dtMs \<le> 60000 \<and> lp_LiqCascadePriceBps p < moveBps \<and>
            baseline * 1.5 < spreadBps \<and>
            (q_BidDepth1Pct q < lp_ThinBookThresholdUSD p \<or> q_AskDepth1Pct q < lp_ThinBookThresholdUSD p)
         then [liq_signal q now SignalLiquidationCascade moveBps (lp_LiqCascadePriceBps p)] else [])"

definition liq_strategy :: "LiqPolicy \<Rightarrow> LiqSignal list \<Rightarrow> string \<times> float64" where
  "liq_strategy p sigs =
     (if SignalLiquidationCascade \<in> sg_Type ` set sigs then (''LIQUIDATION_CONTRA'', lp_LiqContraNotionalUSD p)
      else if sigs \<noteq> [] then (''SPREAD_CAPTURE'', lp_SpreadCaptureNotionalUSD p)
      else ('''', lp_SpreadCaptureNotionalUSD p))"

definition liq_action :: "Quote \<Rightarrow> string" where
  "liq_action q = (if 0 < q_Mark q \<and> 0 < q_Index q \<and> q_Mark q < q_Index q then ''SELL'' else ''BUY'')"

definition liq_intent :: "Quote \<Rightarrow> string \<Rightarrow> int64 \<Rightarrow> float64 \<Rightarrow> string \<times> float64 \<Rightarrow> TradeIntent" where
  "liq_intent q key now spreadBps sn =
     \<lparr>ti_SchemaVersion = 0, ti_TenantID = q_TenantID q, ti_IntentID = ''liq-'' @ key @ ''-'' @ show_int now, ti_Strategy = fst sn,
      ti_Symbol = q_Symbol q, ti_TsMs = now, ti_ExpiresMs = now + 3000,
      ti_Legs = [\<lparr>tl_Venue = q_Venue q, tl_Action = liq_action q, tl_Type = '''', tl_Market = ''PERP'', tl_NotionalUSD = snd sn,
                  tl_MaxSlippageBps = spreadBps * 0.4, tl_PriceLimit = 0\<rparr>],
      ti_Expected = no_metrics\<lparr>em_EdgeBpsGross := spreadBps / 2, em_EdgeBpsNet := spreadBps / 2 - 5\<rparr>,
      ti_Constraints = \<lparr>ic_MinQuality = ''HIGH'', ic_RequireVenueOK = False, ic_MaxAgeMs = 0, ic_HedgePreference = '''',
                        ic_CooldownKey = '''', ic_ForcePaperMode = False\<rparr>,
      ti_Debug = no_debug\<rparr>"

section \<open>Evaluation\<close>

definition liq_key :: "Quote \<Rightarrow> string" where
  "liq_key q = q_Venue q @ '':'' @ q_Symbol q"

definition liq_mid :: "Quote \<Rightarrow> float64" where
  "liq_mid q = (q_BestBid q + q_BestAsk q) / 2"

definition liq_spread :: "Quote \<Rightarrow> float64" where
  "liq_spread q = (q_BestAsk q - q_BestBid q) / liq_mid q * 10000"

definition liq_venue_state :: "Quote \<Rightarrow> LiqEngine \<Rightarrow> venueState" where
  "liq_venue_state q e =
     (case le_states e (liq_key q) of
        Some vt \<Rightarrow> vt
      | None \<Rightarrow> \<lparr>vt_spreadBuf = [], vt_bufIdx = 0, vt_bufFull = False, vt_prevMid = liq_mid q, vt_prevMidTsMs = q_TsMs q\<rparr>)"

definition liq_signals :: "LiqPolicy \<Rightarrow> Quote \<Rightarrow> int64 \<Rightarrow> venueState \<Rightarrow> LiqSignal list" where
  "liq_signals p q now vt =
     (let baseline = spreadBaseline vt; spreadBps = liq_spread q
      in blowout_signals p q now baseline spreadBps @ thin_signals p q now (q_BidDepth1Pct q) @ thin_signals p q now (q_AskDepth1Pct q)
         @ divergence_signals p q now @ imbalance_signals p q now @ liq_cascade_signals p q now vt (liq_mid q) baseline spreadBps)"

text \<open>A new state is made with a capacity that must not be negative.\<close>

definition LiqEvaluate :: "int64 \<Rightarrow> Quote \<Rightarrow> string \<Rightarrow> LiqEngine \<Rightarrow> (LiqEngine \<times> TradeIntent list) option" where
  "LiqEvaluate now q quality e =
     (let p = le_policy e; key = liq_key q; vt = liq_venue_state q e; spreadBps = liq_spread q in
      if \<not> liq_qualityOK quality (lp_MinConsensusQuality p) then Some (e, [])
      else if q_BestBid q \<le> 0 \<or> q_BestAsk q \<le> 0 then Some (e, [])
      else if le_states e key = None \<and> lp_SpreadBaselineSamples p < 0 then None
      else
        (case pushSpread spreadBps (lp_SpreadBaselineSamples p) vt of
           None \<Rightarrow> None
         | Some vt1 \<Rightarrow>
             (let sigs = liq_signals p q now vt;
                  e1 = e\<lparr>le_states := (le_states e)(key \<mapsto> vt1\<lparr>vt_prevMid := liq_mid q, vt_prevMidTsMs := now\<rparr>)\<rparr>
              in if sigs = [] then Some (e1, [])
                 else if now - map_get 0 (le_lastEmit e) key < lp_CooldownMs p then Some (e1, [])
                 else Some (e1\<lparr>le_lastEmit := (le_lastEmit e1)(key \<mapsto> now)\<rparr>,
                            [liq_intent q key now spreadBps (liq_strategy p sigs)]))))"

section \<open>The service\<close>

text \<open>
  One message of a turn: the decoded quote (\<open>None\<close> when the message is not one), the quality stored
  for its symbol, the clock, and whether the publication succeeds.
\<close>

type_synonym liq_message = "Quote option \<times> string \<times> int64 \<times> bool"

definition liq_message_step :: "(LiqEngine \<times> TradeIntent list) option \<Rightarrow> liq_message \<Rightarrow> (LiqEngine \<times> TradeIntent list) option" where
  "liq_message_step s m =
     (case (s, m) of
        (None, _) \<Rightarrow> None
      | (Some (e, out), None, _) \<Rightarrow> Some (e, out)
      | (Some (e, out), Some q, quality, now, published) \<Rightarrow>
          map_option (\<lambda>(e, intents). (e, if published then out @ intents else out))
            (LiqEvaluate now q (if quality = '''' then ''LOW'' else quality) e))"

text \<open>One turn of the loop: the kill switch, the mode, and what was read (\<open>None\<close> is an error).\<close>

definition liq_turn :: "(LiqEngine \<times> TradeIntent list) option \<Rightarrow> bool \<times> string \<times> liq_message list option \<Rightarrow> (LiqEngine \<times> TradeIntent list) option" where
  "liq_turn s x =
     (case x of (kill, mode, msgs) \<Rightarrow>
        if kill \<or> mode \<noteq> ''RUNNING'' then s
        else (case msgs of None \<Rightarrow> s | Some ms \<Rightarrow> foldl liq_message_step s ms))"

section \<open>The baseline is the mean of the last spreads\<close>

text \<open>The state of a venue refines the list of all its spreads.\<close>

definition spreads_of :: "nat \<Rightarrow> venueState \<Rightarrow> float64 list \<Rightarrow> bool" where
  "spreads_of c vt h \<longleftrightarrow>
     vt_bufIdx vt = length h \<and> (vt_bufFull vt \<longleftrightarrow> c \<le> length h) \<and> mset (vt_spreadBuf vt) = mset (keep_last c h) \<and>
     (if length h < c then vt_spreadBuf vt = h else holds (vt_spreadBuf vt) (length h) c h)"

lemma keep_last_short: "length h \<le> c \<Longrightarrow> keep_last c h = h"
  by (simp add: keep_last_def)

lemma keep_last_long:
  assumes "c \<le> length h" "0 < c"
  shows "keep_last c h = h ! (length h - c) # drop (length h - c + 1) h"
    and "keep_last c (h @ [x]) = drop (length h - c + 1) h @ [x]"
  using assms by (auto simp: keep_last_def Cons_nth_drop_Suc Suc_diff_le)

lemma holds_short:
  assumes "length h = c"
  shows "holds h c c h"
proof -
  have "h ! ((c - 1 - i) mod c) = rev h ! i" if "i < c" for i
    using that assms by (simp add: rev_nth)
  with assms show ?thesis by (simp add: holds_def)
qed

lemma spreads_of_fresh: "0 < c \<Longrightarrow> spreads_of c \<lparr>vt_spreadBuf = [], vt_bufIdx = 0, vt_bufFull = False, vt_prevMid = m, vt_prevMidTsMs = t\<rparr> []"
  by (simp add: spreads_of_def keep_last_def)

lemma spreads_of_length: "spreads_of c vt h \<Longrightarrow> length (vt_spreadBuf vt) = min c (length h)"
  unfolding spreads_of_def by (metis keep_last_length size_mset)

lemma pushSpread_refines:
  assumes vt: "spreads_of c vt h" and c: "0 < c"
  shows "\<exists>vt'. pushSpread x (int c) vt = Some vt' \<and> spreads_of c vt' (h @ [x])"
proof (cases "length h < c")
  case True
  with vt have b: "vt_spreadBuf vt = h" "vt_bufIdx vt = length h" by (simp_all add: spreads_of_def)
  have "spreads_of c (vt\<lparr>vt_spreadBuf := h @ [x], vt_bufIdx := length h + 1, vt_bufFull := (length h + 1 = c)\<rparr>) (h @ [x])"
    using True holds_short [of "h @ [x]" c] by (cases "Suc (length h) = c") (auto simp: spreads_of_def keep_last_short)
  with True b show ?thesis by (auto simp: pushSpread_def Let_def simp flip: of_nat_Suc)
next
  case False
  let ?i = "length h mod c"
  from vt False have b: "holds (vt_spreadBuf vt) (length h) c h" "vt_bufIdx vt = length h" "length (vt_spreadBuf vt) = c"
    and m: "mset (vt_spreadBuf vt) = mset (keep_last c h)" by (auto simp: spreads_of_def holds_def)
  have i: "?i < c" using c by simp
  have "vt_spreadBuf vt ! ((length h - 1 - (c - 1)) mod c) = rev h ! (c - 1)"
    using holdsD [OF b(1), of "c - 1"] c False by simp
  moreover have "(length h - 1 - (c - 1)) mod c = ?i" using c False by (simp add: mod_if)
  ultimately have old: "vt_spreadBuf vt ! ?i = h ! (length h - c)" using c False by (simp add: rev_nth)
  have "mset ((vt_spreadBuf vt)[?i := x]) = mset (keep_last c (h @ [x]))"
    using i b(3) c False m keep_last_long [of c h] old by (simp add: mset_update)
  moreover have "holds ((vt_spreadBuf vt)[?i := x]) (length h + 1) c (h @ [x])" by (rule holds_push [OF b(1) c])
  ultimately have "spreads_of c (vt\<lparr>vt_spreadBuf := (vt_spreadBuf vt)[?i := x], vt_bufIdx := length h + 1, vt_bufFull := True\<rparr>) (h @ [x])"
    using False by (simp add: spreads_of_def)
  with False b i show ?thesis by (auto simp: pushSpread_def Let_def)
qed

theorem spread_baseline_is_the_mean_of_the_last_spreads:
  assumes "spreads_of c vt h" "h \<noteq> []" "0 < c"
  shows "spreadBaseline vt = sum_list (keep_last c h) / real (min c (length h))"
proof -
  have l: "length (vt_spreadBuf vt) = min c (length h)" by (rule spreads_of_length [OF assms(1)])
  have "(if vt_bufFull vt then length (vt_spreadBuf vt) else vt_bufIdx vt) = min c (length h)"
    using assms(1) l by (auto simp: spreads_of_def)
  moreover have "sum_list (vt_spreadBuf vt) = sum_list (keep_last c h)"
    using assms(1) by (metis spreads_of_def sum_mset_sum_list)
  ultimately show ?thesis using l assms(2,3) by (auto simp: spreadBaseline_def Let_def)
qed


section \<open>The cooldown\<close>

definition liq_hot :: "(string \<rightharpoonup> int64) \<Rightarrow> string \<Rightarrow> int64 \<Rightarrow> int64 \<Rightarrow> bool" where
  "liq_hot g k now ttl \<longleftrightarrow> now - map_get 0 g k < ttl"

definition liq_mark :: "(string \<rightharpoonup> int64) \<Rightarrow> string \<Rightarrow> int64 \<Rightarrow> string \<rightharpoonup> int64" where
  "liq_mark g k t = g(k \<mapsto> t)"

interpretation liq_cooldown: cooldown_gate liq_hot liq_mark
  by unfold_locales (auto simp: liq_hot_def liq_mark_def)

text \<open>What one evaluation does, when it returns.\<close>

lemma LiqEvaluate_cases:
  assumes "LiqEvaluate now q quality e = Some (e', out)"
  shows "le_policy e' = le_policy e \<and>
    (out = [] \<and> le_lastEmit e' = le_lastEmit e \<or>
     liq_qualityOK quality (lp_MinConsensusQuality (le_policy e)) \<and> 0 < q_BestBid q \<and> 0 < q_BestAsk q \<and>
     \<not> liq_hot (le_lastEmit e) (liq_key q) now (lp_CooldownMs (le_policy e)) \<and>
     le_lastEmit e' = liq_mark (le_lastEmit e) (liq_key q) now \<and>
     liq_signals (le_policy e) q now (liq_venue_state q e) \<noteq> [] \<and>
     out = [liq_intent q (liq_key q) now (liq_spread q) (liq_strategy (le_policy e) (liq_signals (le_policy e) q now (liq_venue_state q e)))])"
  using assms
  by (auto simp: LiqEvaluate_def Let_def liq_hot_def liq_mark_def split: if_splits option.splits)

section \<open>What the service publishes\<close>

definition liq_key_of :: "TradeIntent \<Rightarrow> string" where
  "liq_key_of i = tl_Venue (hd (ti_Legs i)) @ '':'' @ ti_Symbol i"

text \<open>One perpetual leg with the notional of its strategy, valid for three seconds, for a consensus of high quality.\<close>

definition liq_intent_ok :: "LiqPolicy \<Rightarrow> TradeIntent \<Rightarrow> bool" where
  "liq_intent_ok p i \<longleftrightarrow>
     (\<exists>leg. ti_Legs i = [leg] \<and> tl_Market leg = ''PERP'' \<and> tl_Action leg \<in> {''BUY'', ''SELL''} \<and>
        (ti_Strategy i, tl_NotionalUSD leg) \<in>
          {(''SPREAD_CAPTURE'', lp_SpreadCaptureNotionalUSD p), (''LIQUIDATION_CONTRA'', lp_LiqContraNotionalUSD p)}) \<and>
     ti_ExpiresMs i = ti_TsMs i + 3000 \<and> ic_MinQuality (ti_Constraints i) = ''HIGH''"

definition liq_apart :: "LiqPolicy \<Rightarrow> TradeIntent \<Rightarrow> TradeIntent \<Rightarrow> bool" where
  "liq_apart p i j \<longleftrightarrow> (liq_key_of i = liq_key_of j \<longrightarrow> ti_TsMs i + lp_CooldownMs p \<le> ti_TsMs j)"

definition liq_ok :: "LiqPolicy \<Rightarrow> (LiqEngine \<times> TradeIntent list) option \<Rightarrow> bool" where
  "liq_ok p s \<longleftrightarrow>
     (case s of None \<Rightarrow> True
      | Some (e, out) \<Rightarrow> le_policy e = p \<and> sorted_wrt (liq_apart p) out \<and>
          (\<forall>i\<in>set out. liq_intent_ok p i \<and> ti_TsMs i \<le> map_get 0 (le_lastEmit e) (liq_key_of i)))"

lemma liq_intent_is_ok:
  "sigs \<noteq> [] \<Longrightarrow> liq_intent_ok p (liq_intent q k now sp (liq_strategy p sigs))"
  by (auto simp: liq_intent_ok_def liq_intent_def liq_strategy_def liq_action_def)

lemma liq_key_of_intent [simp]: "liq_key_of (liq_intent q k now sp sn) = liq_key q" "ti_TsMs (liq_intent q k now sp sn) = now"
  by (simp_all add: liq_key_of_def liq_intent_def liq_key_def)

lemma liq_ok_evaluate:
  assumes ok: "liq_ok p (Some (e, out))" and c: "0 \<le> lp_CooldownMs p" and ev: "LiqEvaluate now q quality e = Some (e', new)"
  shows "liq_ok p (Some (e', if published then out @ new else out))"
  using LiqEvaluate_cases [OF ev]
proof (elim conjE disjE)
  assume "le_policy e' = le_policy e" "new = []" "le_lastEmit e' = le_lastEmit e"
  with ok show ?thesis by (simp add: liq_ok_def)
next
  let ?sigs = "liq_signals (le_policy e) q now (liq_venue_state q e)"
  assume le: "le_policy e' = le_policy e" and cold: "\<not> liq_hot (le_lastEmit e) (liq_key q) now (lp_CooldownMs (le_policy e))"
    and emit: "le_lastEmit e' = liq_mark (le_lastEmit e) (liq_key q) now" and sigs: "?sigs \<noteq> []"
    and new: "new = [liq_intent q (liq_key q) now (liq_spread q) (liq_strategy (le_policy e) ?sigs)]"
  have p: "le_policy e = p" using ok by (simp add: liq_ok_def)
  have last: "ti_TsMs i \<le> map_get 0 (le_lastEmit e) (liq_key_of i)" "liq_intent_ok p i" if "i \<in> set out" for i
    using ok that by (auto simp: liq_ok_def)
  have apart: "liq_apart p i (liq_intent q k now sp sn)" if "i \<in> set out" for i k sp sn
    using last [OF that] cold p by (auto simp: liq_apart_def liq_hot_def)
  have "ti_TsMs i \<le> map_get 0 (le_lastEmit e') (liq_key_of i)" if "i \<in> set out" for i
    using last [OF that] cold p c emit by (auto simp: liq_hot_def liq_mark_def)
  then show ?thesis
    using ok le p last apart sigs emit
    by (auto simp: liq_ok_def new sorted_wrt_append liq_mark_def intro: liq_intent_is_ok)
qed

lemma liq_message_ok: "0 \<le> lp_CooldownMs p \<Longrightarrow> liq_ok p s \<Longrightarrow> liq_ok p (liq_message_step s m)"
proof (cases s)
  case None
  then show ?thesis by (simp add: liq_message_step_def liq_ok_def split: prod.split)
next
  case (Some eo)
  assume c: "0 \<le> lp_CooldownMs p" and ok: "liq_ok p s"
  obtain e out where eo: "eo = (e, out)" by (cases eo)
  obtain qo quality now published where m: "m = (qo, quality, now, published)" by (cases m)
  show ?thesis
  proof (cases qo)
    case None
    with ok Some eo m show ?thesis by (simp add: liq_message_step_def)
  next
    case (Some q)
    let ?quality = "if quality = '''' then ''LOW'' else quality"
    show ?thesis
    proof (cases "LiqEvaluate now q ?quality e")
      case None
      with Some \<open>s = Some eo\<close> eo m show ?thesis by (simp add: liq_message_step_def liq_ok_def)
    next
      case (Some r)
      obtain e' new where "r = (e', new)" by (cases r)
      with Some \<open>qo = Some q\<close> \<open>s = Some eo\<close> eo m liq_ok_evaluate [OF _ c, of e out now q ?quality e' new published] ok
      show ?thesis by (simp add: liq_message_step_def)
    qed
  qed
qed

interpretation liq_messages: invariant_machine liq_message_step "\<lambda>_. 0 \<le> lp_CooldownMs p" "liq_ok p" for p
  by unfold_locales (rule liq_message_ok)

interpretation liq_turns: invariant_machine liq_turn "\<lambda>_. 0 \<le> lp_CooldownMs p" "liq_ok p" for p
proof unfold_locales
  fix s x assume ok: "liq_ok p s" and c: "0 \<le> lp_CooldownMs p"
  then have "liq_ok p (foldl liq_message_step s ms)" for ms by (intro liq_messages.run_inv) simp_all
  then show "liq_ok p (liq_turn s x)" using ok by (cases x) (auto simp: liq_turn_def split: option.split)
qed

theorem liquidity_intents_respect_the_cooldown:
  assumes "0 \<le> lp_CooldownMs p" "foldl liq_turn (Some (NewLiqEngine (Some p), [])) xs = Some (e, out)"
  shows "(\<forall>i\<in>set out. liq_intent_ok p i) \<and>
         (\<forall>a b. a < b \<and> b < length out \<and> tl_Venue (hd (ti_Legs (out ! a))) = tl_Venue (hd (ti_Legs (out ! b))) \<and>
                ti_Symbol (out ! a) = ti_Symbol (out ! b) \<longrightarrow> ti_TsMs (out ! a) + lp_CooldownMs p \<le> ti_TsMs (out ! b))"
proof -
  have "liq_ok p (Some (NewLiqEngine (Some p), []))" by (simp add: liq_ok_def NewLiqEngine_def)
  from liq_turns.run_inv [OF this, of xs] assms have ok: "liq_ok p (Some (e, out))" by simp
  have "ti_TsMs (out ! a) + lp_CooldownMs p \<le> ti_TsMs (out ! b)"
    if "a < b" "b < length out" "liq_key_of (out ! a) = liq_key_of (out ! b)" for a b
    using ok that sorted_wrt_nth_less [of "liq_apart p" out a b] by (auto simp: liq_ok_def liq_apart_def)
  then show ?thesis using ok by (auto simp: liq_ok_def liq_key_of_def)
qed

section \<open>Missing and surprising settings\<close>

text \<open>Without a number of samples the first quote that passes the gates stops the program.\<close>

theorem no_baseline_samples_stop_the_engine:
  assumes "lp_SpreadBaselineSamples p \<le> 0" "liq_qualityOK quality (lp_MinConsensusQuality p)" "0 < q_BestBid q" "0 < q_BestAsk q"
  shows "LiqEvaluate now q quality (NewLiqEngine (Some p)) = None"
proof (cases "lp_SpreadBaselineSamples p < 0")
  case True
  with assms show ?thesis by (simp add: LiqEvaluate_def Let_def NewLiqEngine_def)
next
  case False
  with assms have "lp_SpreadBaselineSamples p = 0" by simp
  with assms(2-) show ?thesis by (simp add: LiqEvaluate_def Let_def NewLiqEngine_def liq_venue_state_def pushSpread_def)
qed

lemma an_unknown_minimum_quality_admits_every_quality:
  "need \<notin> {''LOW'', ''MED'', ''HIGH''} \<Longrightarrow> liq_qualityOK have need"
  by (simp add: liq_qualityOK_def liq_rank_def)

text \<open>A mark below the index is sold, whatever the signal.\<close>

theorem a_mark_below_the_index_is_sold:
  assumes "0 < q_Mark q" "q_Mark q < q_Index q" "LiqEvaluate now q quality e = Some (e', out)" "i \<in> set out"
  shows "tl_Action (hd (ti_Legs i)) = ''SELL''"
  using LiqEvaluate_cases [OF assms(3)] assms(1,2,4) by (auto simp: liq_intent_def liq_action_def)

section \<open>A run of pushes\<close>

definition push_spreads :: "int \<Rightarrow> venueState option \<Rightarrow> float64 list \<Rightarrow> venueState option" where
  "push_spreads cap = foldl (\<lambda>s x. Option.bind s (pushSpread x cap))"

lemma push_spreads_refines:
  assumes "spreads_of c vt h" "0 < c"
  shows "\<exists>vt'. push_spreads (int c) (Some vt) xs = Some vt' \<and> spreads_of c vt' (h @ xs)"
  using assms(1)
proof (induction xs arbitrary: vt h)
  case Nil
  then show ?case by (simp add: push_spreads_def)
next
  case (Cons x xs)
  from pushSpread_refines [OF Cons.prems assms(2), of x] obtain vt1
    where vt1: "pushSpread x (int c) vt = Some vt1" "spreads_of c vt1 (h @ [x])" by blast
  with Cons.IH [OF vt1(2)] show ?case by (simp add: push_spreads_def)
qed

theorem the_baseline_is_the_mean_of_the_last_spreads:
  assumes "0 < c" "xs \<noteq> []"
  shows "\<exists>vt. push_spreads (int c) (Some \<lparr>vt_spreadBuf = [], vt_bufIdx = 0, vt_bufFull = False, vt_prevMid = m, vt_prevMidTsMs = t\<rparr>) xs = Some vt \<and>
     spreadBaseline vt = sum_list (keep_last c xs) / real (min c (length xs))"
  using push_spreads_refines [OF spreads_of_fresh [OF assms(1)] assms(1), of m t xs]
    spread_baseline_is_the_mean_of_the_last_spreads [OF _ assms(2,1)] by auto

section \<open>Concrete quotes\<close>

definition liq_quote :: "float64 \<Rightarrow> float64 \<Rightarrow> Quote" where
  "liq_quote bid ask =
     \<lparr>q_SchemaVersion = 1, q_TenantID = ''t'', q_Venue = ''okx'', q_Symbol = ''BTC-PERP'', q_TsMs = 0, q_BestBid = bid, q_BestAsk = ask,
      q_Mark = 99, q_Index = 100, q_BidDepth1Pct = 50000, q_AskDepth1Pct = 200000, q_Orderbook = None, q_FeeBpsTaker = 0,
      q_FundingRate = 0, q_FeedHealth = \<lparr>fh_WsConnected = True, fh_LastMsgTsMs = 0\<rparr>\<rparr>"

lemmas liq_eval = LiqEvaluate_def NewLiqEngine_def DefaultLiqPolicy_def liq_qualityOK_def liq_rank_def liq_quote_def liq_key_def
  liq_venue_state_def liq_mid_def liq_spread_def pushSpread_def liq_signals_def spreadBaseline_def blowout_signals_def thin_signals_def
  divergence_signals_def imbalance_signals_def liq_cascade_signals_def liq_signal_def liq_strategy_def Let_def

text \<open>A thin book alone is enough for an intent, with a spread of 2 bps and an expected net edge of -4 bps.\<close>

lemma an_intent_may_expect_a_loss:
  "\<exists>e out. LiqEvaluate 6000 (liq_quote 9999 10001) ''HIGH'' (NewLiqEngine None) = Some (e, out) \<and>
     map (\<lambda>i. (ti_Strategy i, em_EdgeBpsNet (ti_Expected i))) out = [(''SPREAD_CAPTURE'', - 4)]"
  by (simp add: liq_eval liq_intent_def)

lemma the_baseline_is_the_mean_of_the_last_spreads_witness:
  "\<exists>vt. push_spreads (int 2) (Some \<lparr>vt_spreadBuf = [], vt_bufIdx = 0, vt_bufFull = False, vt_prevMid = 1, vt_prevMidTsMs = 0\<rparr>) [1, 2, 4] = Some vt \<and>
     spreadBaseline vt = 3"
  using the_baseline_is_the_mean_of_the_last_spreads [of 2 "[1, 2, 4]" 1 0] by (simp add: keep_last_def)

lemma liquidity_intents_respect_the_cooldown_witness:
  "\<exists>e i. foldl liq_turn (Some (NewLiqEngine (Some DefaultLiqPolicy), []))
     [(False, ''RUNNING'', Some [(Some (liq_quote 9999 10001), ''HIGH'', 6000, True)])] = Some (e, [i]) \<and> liq_intent_ok DefaultLiqPolicy i"
proof -
  let ?xs = "[(False, ''RUNNING'', Some [(Some (liq_quote 9999 10001), ''HIGH'', 6000, True)])] :: (bool \<times> string \<times> liq_message list option) list"
  obtain e i where run: "foldl liq_turn (Some (NewLiqEngine (Some DefaultLiqPolicy), [])) ?xs = Some (e, [i])"
    by (simp add: liq_turn_def liq_message_step_def liq_eval)
  with liquidity_intents_respect_the_cooldown [OF _ run] show ?thesis by (simp add: DefaultLiqPolicy_def)
qed

lemma no_baseline_samples_stop_the_engine_witness:
  "LiqEvaluate 6000 (liq_quote 9999 10001) ''HIGH'' (NewLiqEngine (Some (DefaultLiqPolicy\<lparr>lp_SpreadBaselineSamples := 0\<rparr>))) = None"
  by (rule no_baseline_samples_stop_the_engine) (simp_all add: DefaultLiqPolicy_def liq_qualityOK_def liq_rank_def liq_quote_def)

lemma a_mark_below_the_index_is_sold_witness:
  "\<exists>e i. LiqEvaluate 6000 (liq_quote 9999 10001) ''HIGH'' (NewLiqEngine None) = Some (e, [i]) \<and> tl_Action (hd (ti_Legs i)) = ''SELL''"
proof -
  obtain e i where run: "LiqEvaluate 6000 (liq_quote 9999 10001) ''HIGH'' (NewLiqEngine None) = Some (e, [i])"
    by (simp add: liq_eval)
  with a_mark_below_the_index_is_sold [OF _ _ run, of i] show ?thesis by (simp add: liq_quote_def)
qed

end
