(* ===== verification/Yield_Router.thy ===== *)
theory Yield_Router
  imports Interfaces
begin

text \<open>
  internal/treasuryyield/router.go: idle capital spread over yield sources, and the service of
  cmd/treasury-yield-router.  The sources are a map the code ranges over, kept as an association
  list.  Risk scores are not negative, as their comment says: the square root of one is a number.
\<close>

section \<open>Data\<close>

record YieldSource =
  ys_ID :: string
  ys_Protocol :: string
  ys_ChainID :: int
  ys_Asset :: string
  ys_Type :: string
  ys_APYPct :: float64
  ys_TVLMillions :: float64
  ys_RiskScore :: float64
  ys_MinDepositUSD :: float64
  ys_MaxCapacityUSD :: float64
  ys_LockDays :: int
  ys_WithdrawTimeS :: int
  ys_LastUpdateMs :: int64

record Allocation =
  ya_SourceID :: string
  ya_Protocol :: string
  ya_Asset :: string
  ya_AmountUSD :: float64
  ya_AllocPct :: float64
  ya_ExpAPYPct :: float64
  ya_RiskScore :: float64
  ya_RiskAdjYield :: float64

record YieldConfig =
  yc_MaxRiskScore :: float64
  yc_MaxSingleAllocPct :: float64
  yc_MaxLockDays :: int
  yc_MinAPYPct :: float64
  yc_ReservesPct :: float64
  yc_RebalanceThreshPct :: float64
  yc_PreferredChains :: "int list"

record Portfolio =
  pf_TotalCapitalUSD :: float64
  pf_AllocatedUSD :: float64
  pf_ReservesUSD :: float64
  pf_WeightedAPY :: float64
  pf_WeightedRisk :: float64
  pf_Allocations :: "Allocation list"
  pf_YieldPerDayUSD :: float64
  pf_YieldPerYearUSD :: float64

record YieldAction =
  yr_Type :: string
  yr_SourceID :: string
  yr_AmountUSD :: float64
  yr_Reason :: string

record YieldRouter =
  yo_sources :: "(string \<times> YieldSource) list"
  yo_config :: YieldConfig
  yo_current :: "Allocation list"

definition NewYieldRouter :: "YieldConfig \<Rightarrow> YieldRouter" where
  "NewYieldRouter cfg =
     \<lparr>yo_sources = [],
      yo_config = cfg\<lparr>yc_MaxRiskScore := (if yc_MaxRiskScore cfg = 0 then 40 else yc_MaxRiskScore cfg),
                      yc_MaxSingleAllocPct := (if yc_MaxSingleAllocPct cfg = 0 then 30 else yc_MaxSingleAllocPct cfg),
                      yc_MaxLockDays := (if yc_MaxLockDays cfg = 0 then 7 else yc_MaxLockDays cfg),
                      yc_ReservesPct := (if yc_ReservesPct cfg = 0 then 20 else yc_ReservesPct cfg)\<rparr>,
      yo_current = []\<rparr>"

section \<open>Sources\<close>

definition UpdateSource :: "int64 \<Rightarrow> YieldSource \<Rightarrow> YieldRouter \<Rightarrow> YieldRouter" where
  "UpdateSource now src r = r\<lparr>yo_sources := AList.update (ys_ID src) (src\<lparr>ys_LastUpdateMs := now\<rparr>) (yo_sources r)\<rparr>"

definition RemoveSource :: "string \<Rightarrow> YieldRouter \<Rightarrow> YieldRouter" where
  "RemoveSource sid r = r\<lparr>yo_sources := AList.delete sid (yo_sources r)\<rparr>"

definition SetCurrentAllocations :: "Allocation list \<Rightarrow> YieldRouter \<Rightarrow> YieldRouter" where
  "SetCurrentAllocations allocs r = r\<lparr>yo_current := allocs\<rparr>"

definition SourceCount :: "YieldRouter \<Rightarrow> nat" where
  "SourceCount r = length (yo_sources r)"

section \<open>The best allocation\<close>

definition eligible_source :: "YieldConfig \<Rightarrow> YieldSource \<Rightarrow> bool" where
  "eligible_source cfg src \<longleftrightarrow>
     \<not> yc_MaxRiskScore cfg < ys_RiskScore src \<and> \<not> yc_MaxLockDays cfg < ys_LockDays src \<and>
     \<not> (0 < yc_MinAPYPct cfg \<and> ys_APYPct src < yc_MinAPYPct cfg)"

definition risk_adjusted :: "YieldSource \<Rightarrow> float64" where
  "risk_adjusted src = ys_APYPct src / sqrt (max 1 (ys_RiskScore src))"

definition source_size :: "float64 \<Rightarrow> float64 \<Rightarrow> YieldSource \<Rightarrow> float64" where
  "source_size remaining maxPerSource src =
     (let alloc = min remaining maxPerSource
      in if 0 < ys_MaxCapacityUSD src then min alloc (ys_MaxCapacityUSD src) else alloc)"

definition yield_allocation :: "float64 \<Rightarrow> YieldSource \<Rightarrow> float64 \<Rightarrow> Allocation" where
  "yield_allocation capitalUSD src alloc =
     \<lparr>ya_SourceID = ys_ID src, ya_Protocol = ys_Protocol src, ya_Asset = ys_Asset src, ya_AmountUSD = alloc,
      ya_AllocPct = alloc / capitalUSD * 100, ya_ExpAPYPct = ys_APYPct src, ya_RiskScore = ys_RiskScore src,
      ya_RiskAdjYield = ys_APYPct src / max 1 (sqrt (ys_RiskScore src))\<rparr>"

text \<open>The allocations and what remains.\<close>

fun allocate_sources :: "float64 \<Rightarrow> float64 \<Rightarrow> float64 \<Rightarrow> YieldSource list \<Rightarrow> Allocation list \<times> float64" where
  "allocate_sources capitalUSD maxPerSource remaining [] = ([], remaining)"
| "allocate_sources capitalUSD maxPerSource remaining (src # srcs) =
     (if remaining \<le> 0 then ([], remaining)
      else
        (let alloc = source_size remaining maxPerSource src in
         if 0 < ys_MinDepositUSD src \<and> alloc < ys_MinDepositUSD src
         then allocate_sources capitalUSD maxPerSource remaining srcs
         else
           (let (as, rest) = allocate_sources capitalUSD maxPerSource (remaining - alloc) srcs
            in (yield_allocation capitalUSD src alloc # as, rest))))"

definition weighted :: "(Allocation \<Rightarrow> float64) \<Rightarrow> Allocation list \<Rightarrow> float64" where
  "weighted f as =
     (let total = (\<Sum>a\<leftarrow>as. f a * ya_AmountUSD a); allocated = (\<Sum>a\<leftarrow>as. ya_AmountUSD a)
      in if 0 < allocated then total / allocated else total)"

definition Optimize :: "(YieldSource list \<Rightarrow> YieldSource list) \<Rightarrow> float64 \<Rightarrow> YieldRouter \<Rightarrow> Portfolio" where
  "Optimize by_yield capitalUSD r =
     (let cfg = yo_config r;
          reservesUSD = capitalUSD * yc_ReservesPct cfg / 100;
          deployable = capitalUSD - reservesUSD;
          eligible = by_yield (filter (eligible_source cfg) (map snd (yo_sources r)));
          (as, remaining) = allocate_sources capitalUSD (deployable * yc_MaxSingleAllocPct cfg / 100) deployable eligible;
          allocated = (\<Sum>a\<leftarrow>as. ya_AmountUSD a);
          apy = weighted ya_ExpAPYPct as;
          perYear = allocated * apy / 100
      in \<lparr>pf_TotalCapitalUSD = capitalUSD, pf_AllocatedUSD = allocated, pf_ReservesUSD = reservesUSD + remaining,
          pf_WeightedAPY = apy, pf_WeightedRisk = weighted ya_RiskScore as, pf_Allocations = as,
          pf_YieldPerDayUSD = perYear / 365, pf_YieldPerYearUSD = perYear\<rparr>)"

section \<open>Rebalancing\<close>

definition amounts_of :: "Allocation list \<Rightarrow> (string \<times> float64) list" where
  "amounts_of as = foldl (\<lambda>m a. AList.update (ya_SourceID a) (ya_AmountUSD a) m) [] as"

definition moves_from :: "string \<Rightarrow> string \<Rightarrow> float64 \<Rightarrow> (string \<rightharpoonup> float64) \<Rightarrow> (string \<times> float64) list \<Rightarrow> YieldAction list" where
  "moves_from kind reason threshUSD other entries =
     concat (map (\<lambda>(sid, amt).
       let diff = amt - map_get 0 other sid
       in if threshUSD < diff then [\<lparr>yr_Type = kind, yr_SourceID = sid, yr_AmountUSD = diff, yr_Reason = reason\<rparr>] else []) entries)"

definition Rebalance ::
  "(YieldSource list \<Rightarrow> YieldSource list) \<Rightarrow> ((string \<times> float64) list \<Rightarrow> (string \<times> float64) list) \<Rightarrow>
   ((string \<times> float64) list \<Rightarrow> (string \<times> float64) list) \<Rightarrow> float64 \<Rightarrow> YieldRouter \<Rightarrow> YieldAction list" where
  "Rebalance by_yield ord1 ord2 capitalUSD r =
     (let currentMap = amounts_of (yo_current r);
          optimalMap = amounts_of (pf_Allocations (Optimize by_yield capitalUSD r));
          threshUSD = capitalUSD * yc_RebalanceThreshPct (yo_config r) / 100
      in moves_from ''WITHDRAW'' ''over-allocated vs optimal'' threshUSD (map_of optimalMap) (ord1 currentMap)
         @ moves_from ''DEPOSIT'' ''under-allocated vs optimal'' threshUSD (map_of currentMap) (ord2 optimalMap))"

section \<open>The service\<close>

definition yield_service_config :: YieldConfig where
  "yield_service_config = \<lparr>yc_MaxRiskScore = 40, yc_MaxSingleAllocPct = 30, yc_MaxLockDays = 7, yc_MinAPYPct = 1,
     yc_ReservesPct = 20, yc_RebalanceThreshPct = 5, yc_PreferredChains = []\<rparr>"

text \<open>A tick of the loop leaves the router as it is and logs the number of sources.\<close>

definition yield_service_tick :: "YieldRouter \<times> nat list \<Rightarrow> YieldRouter \<times> nat list" where
  "yield_service_tick s = (fst s, snd s @ [SourceCount (fst s)])"

section \<open>What one pass allocates\<close>

definition source_cap :: "float64 \<Rightarrow> YieldSource \<Rightarrow> float64" where
  "source_cap maxPerSource src = (if 0 < ys_MaxCapacityUSD src then min maxPerSource (ys_MaxCapacityUSD src) else maxPerSource)"

lemma source_size_min: "source_size remaining maxPerSource src = min remaining (source_cap maxPerSource src)"
  by (auto simp: source_size_def source_cap_def Let_def)

definition allocated_from :: "float64 \<Rightarrow> float64 \<Rightarrow> YieldSource list \<Rightarrow> Allocation \<Rightarrow> bool" where
  "allocated_from capitalUSD maxPerSource srcs a \<longleftrightarrow>
     (\<exists>src\<in>set srcs. a = yield_allocation capitalUSD src (ya_AmountUSD a) \<and> 0 < ya_AmountUSD a \<and>
        ya_AmountUSD a \<le> source_cap maxPerSource src \<and> (0 < ys_MinDepositUSD src \<longrightarrow> ys_MinDepositUSD src \<le> ya_AmountUSD a))"

lemma source_cap_pos: "0 < m \<Longrightarrow> 0 < source_cap m src"
  by (simp add: source_cap_def)

lemma source_cap_le: "source_cap m src \<le> m" "0 < ys_MaxCapacityUSD src \<Longrightarrow> source_cap m src \<le> ys_MaxCapacityUSD src"
  by (simp_all add: source_cap_def)

lemma allocate_sources_budget:
  assumes "allocate_sources capitalUSD m remaining srcs = (as, rest)"
  shows "(\<Sum>a\<leftarrow>as. ya_AmountUSD a) + rest = remaining"
  using assms
proof (induction srcs arbitrary: remaining as rest)
  case (Cons src srcs)
  then show ?case by (fastforce simp: Let_def yield_allocation_def split: if_splits prod.splits)
qed simp

lemma allocate_sources_rest:
  assumes "allocate_sources capitalUSD m remaining srcs = (as, rest)" "0 \<le> remaining" "0 < m"
  shows "0 \<le> rest \<and> rest \<le> remaining"
  using assms(1,2)
proof (induction srcs arbitrary: remaining as rest)
  case (Cons src srcs)
  have "0 \<le> remaining - source_size remaining m src" "0 < remaining \<Longrightarrow> 0 < source_size remaining m src"
    using source_cap_pos [OF assms(3), of src] by (auto simp: source_size_min)
  with Cons show ?case by (fastforce simp: Let_def split: if_splits prod.splits)
qed simp

lemma allocate_sources_allocated:
  assumes "allocate_sources capitalUSD m remaining srcs = (as, rest)" "0 < m"
  shows "\<forall>a\<in>set as. allocated_from capitalUSD m srcs a"
  using assms(1)
proof (induction srcs arbitrary: remaining as rest)
  case (Cons src srcs)
  have w: "allocated_from capitalUSD m srcs a \<Longrightarrow> allocated_from capitalUSD m (src # srcs) a" for a
    by (auto simp: allocated_from_def)
  have "0 < remaining \<Longrightarrow> 0 < source_size remaining m src" "source_size remaining m src \<le> source_cap m src"
    using source_cap_pos [OF assms(2), of src] by (auto simp: source_size_min)
  then have new: "0 < remaining \<Longrightarrow> \<not> (0 < ys_MinDepositUSD src \<and> source_size remaining m src < ys_MinDepositUSD src) \<Longrightarrow>
      allocated_from capitalUSD m (src # srcs) (yield_allocation capitalUSD src (source_size remaining m src))"
    by (auto simp: allocated_from_def yield_allocation_def)
  from Cons show ?case using w new by (auto simp: Let_def split: if_splits prod.splits)
qed simp

lemma allocate_Cons:
  assumes "allocate_sources capitalUSD m remaining (src # srcs) = (as, rest)"
  obtains (stop) "remaining \<le> 0" "as = []" "rest = remaining"
  | (skip) "0 < remaining" "0 < ys_MinDepositUSD src" "source_size remaining m src < ys_MinDepositUSD src"
      "allocate_sources capitalUSD m remaining srcs = (as, rest)"
  | (take) as' where "0 < remaining" "as = yield_allocation capitalUSD src (source_size remaining m src) # as'"
      "allocate_sources capitalUSD m (remaining - source_size remaining m src) srcs = (as', rest)"
  using assms by (auto simp: Let_def not_le split: if_splits prod.splits)

lemma allocate_sources_ids:
  assumes "allocate_sources capitalUSD m remaining srcs = (as, rest)"
  shows "set (map ya_SourceID as) \<subseteq> set (map ys_ID srcs) \<and> (distinct (map ys_ID srcs) \<longrightarrow> distinct (map ya_SourceID as))"
  using assms
proof (induction srcs arbitrary: remaining as rest)
  case (Cons src srcs)
  from Cons.prems show ?case
  proof (cases rule: allocate_Cons)
    case (take as')
    with Cons.IH [OF take(3)] show ?thesis by (auto simp: yield_allocation_def)
  next
    case skip
    with Cons.IH [OF skip(4)] show ?thesis by auto
  qed auto
qed simp

text \<open>Capital remains only when every source is full, or asks for more than what it could still get.\<close>

lemma allocate_sources_maximal:
  assumes "allocate_sources capitalUSD m remaining srcs = (as, rest)" "0 < rest" "src \<in> set srcs" "0 < m"
  shows "yield_allocation capitalUSD src (source_cap m src) \<in> set as \<or> min rest (source_cap m src) < ys_MinDepositUSD src"
  using assms(1-3)
proof (induction srcs arbitrary: remaining as rest)
  case (Cons s srcs)
  let ?sz = "source_size remaining m s"
  have pos: "0 < remaining"
    using Cons.prems(1,2) by (auto split: if_splits)
  show ?case
  proof (cases "0 < ys_MinDepositUSD s \<and> ?sz < ys_MinDepositUSD s")
    case True
    with Cons.prems(1) pos have run: "allocate_sources capitalUSD m remaining srcs = (as, rest)" by (simp add: Let_def)
    have le: "rest \<le> remaining" using allocate_sources_rest [OF run _ assms(4)] pos by simp
    show ?thesis
    proof (cases "src = s")
      case same: True
      have "min rest (source_cap m s) \<le> ?sz" using le by (auto simp: source_size_min)
      with same True show ?thesis by simp
    next
      case False
      with Cons.prems(3) show ?thesis using Cons.IH [OF run Cons.prems(2)] by simp
    qed
  next
    case False
    with Cons.prems(1) pos obtain as' where run: "allocate_sources capitalUSD m (remaining - ?sz) srcs = (as', rest)"
      and as: "as = yield_allocation capitalUSD s ?sz # as'"
      by (auto simp: Let_def split: prod.splits)
    have nonneg: "0 \<le> remaining - ?sz" by (simp add: source_size_min)
    show ?thesis
    proof (cases "src = s")
      case same: True
      have "?sz < remaining" using allocate_sources_rest [OF run nonneg assms(4)] Cons.prems(2) by linarith
      then have "?sz = source_cap m s" by (simp add: source_size_min min_def split: if_splits)
      with same as show ?thesis by simp
    next
      case False
      with Cons.prems(3) as show ?thesis using Cons.IH [OF run Cons.prems(2)] by auto
    qed
  qed
qed simp

section \<open>The sources of the router\<close>

definition sources_wf :: "YieldRouter \<Rightarrow> bool" where
  "sources_wf r \<longleftrightarrow> distinct (map fst (yo_sources r)) \<and> (\<forall>(k, src)\<in>set (yo_sources r). ys_ID src = k)"

datatype yield_op = OpUpdate int64 YieldSource | OpRemove string | OpCurrent "Allocation list"

definition yield_step :: "YieldRouter \<Rightarrow> yield_op \<Rightarrow> YieldRouter" where
  "yield_step r op = (case op of OpUpdate now src \<Rightarrow> UpdateSource now src r | OpRemove sid \<Rightarrow> RemoveSource sid r
     | OpCurrent allocs \<Rightarrow> SetCurrentAllocations allocs r)"

interpretation yield_ops: invariant_machine yield_step "\<lambda>_. True" sources_wf
proof unfold_locales
  fix r op assume "sources_wf r"
  then show "sources_wf (yield_step r op)"
    by (cases op) (auto simp: yield_step_def sources_wf_def UpdateSource_def RemoveSource_def SetCurrentAllocations_def
        distinct_update distinct_delete dest!: alist_update_set alist_delete_set)
qed

lemma yield_step_config [simp]: "yo_config (yield_step r op) = yo_config r"
  by (cases op) (simp_all add: yield_step_def UpdateSource_def RemoveSource_def SetCurrentAllocations_def)

lemma NewYieldRouter_wf: "sources_wf (NewYieldRouter cfg)"
  by (simp add: sources_wf_def NewYieldRouter_def)

lemma sources_ids:
  assumes "sources_wf r"
  shows "distinct (map ys_ID (map snd (yo_sources r)))"
proof -
  have "map ys_ID (map snd (yo_sources r)) = map fst (yo_sources r)" using assms by (auto simp: sources_wf_def)
  with assms show ?thesis unfolding sources_wf_def by metis
qed

section \<open>The portfolio\<close>

definition deployable_usd :: "float64 \<Rightarrow> YieldRouter \<Rightarrow> float64" where
  "deployable_usd capitalUSD r = capitalUSD - capitalUSD * yc_ReservesPct (yo_config r) / 100"

definition max_per_source :: "float64 \<Rightarrow> YieldRouter \<Rightarrow> float64" where
  "max_per_source capitalUSD r = deployable_usd capitalUSD r * yc_MaxSingleAllocPct (yo_config r) / 100"

text \<open>An allocation is sound when it is for a tracked source within every limit.\<close>

definition sound_allocation :: "float64 \<Rightarrow> YieldRouter \<Rightarrow> Allocation \<Rightarrow> bool" where
  "sound_allocation capitalUSD r a \<longleftrightarrow>
     (\<exists>src\<in>set (map snd (yo_sources r)). ya_SourceID a = ys_ID src \<and> ys_RiskScore src \<le> yc_MaxRiskScore (yo_config r) \<and>
        ys_LockDays src \<le> yc_MaxLockDays (yo_config r) \<and> yc_MinAPYPct (yo_config r) \<le> max (ys_APYPct src) 0 \<and>
        0 < ya_AmountUSD a \<and> ya_AmountUSD a \<le> max_per_source capitalUSD r \<and>
        (0 < ys_MaxCapacityUSD src \<longrightarrow> ya_AmountUSD a \<le> ys_MaxCapacityUSD src) \<and>
        (0 < ys_MinDepositUSD src \<longrightarrow> ys_MinDepositUSD src \<le> ya_AmountUSD a))"

lemma Optimize_run:
  obtains eligible as rest where "eligible = by_yield (filter (eligible_source (yo_config r)) (map snd (yo_sources r)))"
    "allocate_sources capitalUSD (max_per_source capitalUSD r) (deployable_usd capitalUSD r) eligible = (as, rest)"
    "pf_Allocations (Optimize by_yield capitalUSD r) = as"
    "pf_ReservesUSD (Optimize by_yield capitalUSD r) = capitalUSD * yc_ReservesPct (yo_config r) / 100 + rest"
proof -
  let ?eligible = "by_yield (filter (eligible_source (yo_config r)) (map snd (yo_sources r)))"
  obtain as rest where run: "allocate_sources capitalUSD (max_per_source capitalUSD r) (deployable_usd capitalUSD r) ?eligible = (as, rest)"
    by fastforce
  note run' = run [unfolded max_per_source_def deployable_usd_def]
  show thesis
    by (rule that [OF refl run]) (simp_all only: Optimize_def Let_def run' prod.case Portfolio.select_convs)
qed

text \<open>
  C30.  A positive capital, with a reserve below 100 percent and a positive limit of a source, is divided
  whole by a portfolio, for sources after any run of updates: the reserve keeps at least its share, and
  every allocation goes to one eligible source, once, within the limit of a source.
\<close>

theorem allocations_stay_within_their_limits:
  assumes sort: "sorts_by (\<lambda>s. - risk_adjusted s) by_yield" and r: "r = foldl yield_step (NewYieldRouter cfg) ops"
    and pos: "0 < capitalUSD" "yc_ReservesPct (yo_config r) < 100" "0 < yc_MaxSingleAllocPct (yo_config r)"
  shows "(\<Sum>a\<leftarrow>pf_Allocations (Optimize by_yield capitalUSD r). ya_AmountUSD a) + pf_ReservesUSD (Optimize by_yield capitalUSD r) = capitalUSD \<and>
         capitalUSD * yc_ReservesPct (yo_config r) / 100 \<le> pf_ReservesUSD (Optimize by_yield capitalUSD r) \<and>
         (\<forall>a\<in>set (pf_Allocations (Optimize by_yield capitalUSD r)). sound_allocation capitalUSD r a) \<and>
         distinct (map ya_SourceID (pf_Allocations (Optimize by_yield capitalUSD r)))"
proof -
  let ?cfg = "yo_config r" and ?m = "max_per_source capitalUSD r"
  have wf: "sources_wf r" unfolding r by (rule yield_ops.run_inv) (simp_all add: NewYieldRouter_wf)
  have d: "0 < deployable_usd capitalUSD r" using pos(1,2) by (simp add: deployable_usd_def field_simps)
  then have m: "0 < ?m" using pos(3) by (simp add: max_per_source_def)
  obtain eligible as rest where el: "eligible = by_yield (filter (eligible_source ?cfg) (map snd (yo_sources r)))"
    and run: "allocate_sources capitalUSD ?m (deployable_usd capitalUSD r) eligible = (as, rest)"
    and out: "pf_Allocations (Optimize by_yield capitalUSD r) = as"
      "pf_ReservesUSD (Optimize by_yield capitalUSD r) = capitalUSD * yc_ReservesPct ?cfg / 100 + rest"
    by (rule Optimize_run)
  have "distinct (map ys_ID eligible)"
  proof -
    have "mset (map ys_ID eligible) = mset (map ys_ID (filter (eligible_source ?cfg) (map snd (yo_sources r))))"
      unfolding el mset_map sorts_by_mset [OF sort] ..
    moreover have "distinct (map ys_ID (filter (eligible_source ?cfg) (map snd (yo_sources r))))"
      by (rule distinct_map_filter [OF sources_ids [OF wf]])
    ultimately show ?thesis by (metis mset_eq_imp_distinct_iff)
  qed
  then have "distinct (map ya_SourceID as)" using allocate_sources_ids [OF run] by simp
  moreover have "sound_allocation capitalUSD r a" if a: "a \<in> set as" for a
  proof -
    from allocate_sources_allocated [OF run m] a obtain src where src: "src \<in> set eligible"
      "a = yield_allocation capitalUSD src (ya_AmountUSD a)" "0 < ya_AmountUSD a" "ya_AmountUSD a \<le> source_cap ?m src"
      "0 < ys_MinDepositUSD src \<longrightarrow> ys_MinDepositUSD src \<le> ya_AmountUSD a"
      unfolding allocated_from_def by blast
    have e: "src \<in> set (map snd (yo_sources r))" "eligible_source ?cfg src"
      using src(1) unfolding el sorts_by_set [OF sort] by auto
    have "ya_SourceID a = ys_ID src" using src(2) by (metis Allocation.select_convs(1) yield_allocation_def)
    with src e source_cap_le [where m = ?m and src = src] show ?thesis
      unfolding sound_allocation_def eligible_source_def by (intro bexI [of _ src]) auto
  qed
  moreover have "0 \<le> rest" using allocate_sources_rest [OF run _ m] d by simp
  ultimately show ?thesis
    using allocate_sources_budget [OF run] unfolding out by (auto simp: deployable_usd_def)
qed

text \<open>Nothing that could earn more is left idle.\<close>

theorem no_capital_is_left_that_a_source_could_take:
  assumes sort: "sorts_by (\<lambda>s. - risk_adjusted s) by_yield" and r: "r = foldl yield_step (NewYieldRouter cfg) ops"
    and pos: "0 < capitalUSD" "yc_ReservesPct (yo_config r) < 100" "0 < yc_MaxSingleAllocPct (yo_config r)"
    and idle: "capitalUSD * yc_ReservesPct (yo_config r) / 100 < pf_ReservesUSD (Optimize by_yield capitalUSD r)"
    and src: "(k, src) \<in> set (yo_sources r)" "eligible_source (yo_config r) src"
  shows "yield_allocation capitalUSD src (source_cap (max_per_source capitalUSD r) src) \<in> set (pf_Allocations (Optimize by_yield capitalUSD r)) \<or>
         pf_ReservesUSD (Optimize by_yield capitalUSD r) - capitalUSD * yc_ReservesPct (yo_config r) / 100 < ys_MinDepositUSD src \<or>
         source_cap (max_per_source capitalUSD r) src < ys_MinDepositUSD src"
proof -
  let ?cfg = "yo_config r" and ?m = "max_per_source capitalUSD r"
  have "0 < deployable_usd capitalUSD r" using pos(1,2) by (simp add: deployable_usd_def field_simps)
  then have m: "0 < ?m" using pos(3) by (simp add: max_per_source_def)
  obtain eligible as rest where el: "eligible = by_yield (filter (eligible_source ?cfg) (map snd (yo_sources r)))"
    and run: "allocate_sources capitalUSD ?m (deployable_usd capitalUSD r) eligible = (as, rest)"
    and out: "pf_Allocations (Optimize by_yield capitalUSD r) = as"
      "pf_ReservesUSD (Optimize by_yield capitalUSD r) = capitalUSD * yc_ReservesPct ?cfg / 100 + rest"
    by (rule Optimize_run)
  have "src \<in> set eligible" unfolding el sorts_by_set [OF sort] using src by force
  from allocate_sources_maximal [OF run _ this m] idle out show ?thesis by (auto simp: min_less_iff_disj)
qed

theorem portfolio_risk_is_within_the_limit:
  assumes sort: "sorts_by (\<lambda>s. - risk_adjusted s) by_yield" and r: "r = foldl yield_step (NewYieldRouter cfg) ops"
    and pos: "0 < capitalUSD" "yc_ReservesPct (yo_config r) < 100" "0 < yc_MaxSingleAllocPct (yo_config r)" "0 \<le> yc_MaxRiskScore (yo_config r)"
  shows "pf_WeightedRisk (Optimize by_yield capitalUSD r) \<le> yc_MaxRiskScore (yo_config r)"
proof -
  let ?m = "max_per_source capitalUSD r"
  have "0 < deployable_usd capitalUSD r" using pos(1,2) by (simp add: deployable_usd_def field_simps)
  then have m: "0 < ?m" using pos(3) by (simp add: max_per_source_def)
  obtain eligible as rest where el: "eligible = by_yield (filter (eligible_source (yo_config r)) (map snd (yo_sources r)))"
    and run: "allocate_sources capitalUSD ?m (deployable_usd capitalUSD r) eligible = (as, rest)"
    and out: "pf_Allocations (Optimize by_yield capitalUSD r) = as"
    by (rule Optimize_run)
  have a: "0 < ya_AmountUSD a \<and> ya_RiskScore a \<le> yc_MaxRiskScore (yo_config r)" if "a \<in> set as" for a
  proof -
    from allocate_sources_allocated [OF run m] that obtain src where src: "src \<in> set eligible"
      "a = yield_allocation capitalUSD src (ya_AmountUSD a)" "0 < ya_AmountUSD a" unfolding allocated_from_def by blast
    have "ya_RiskScore a = ys_RiskScore src" using src(2) by (metis Allocation.select_convs(7) yield_allocation_def)
    with src(1,3) show ?thesis unfolding el sorts_by_set [OF sort] by (auto simp: eligible_source_def)
  qed
  have w: "(\<Sum>a\<leftarrow>as. ya_RiskScore a * ya_AmountUSD a) \<le> yc_MaxRiskScore (yo_config r) * (\<Sum>a\<leftarrow>as. ya_AmountUSD a)"
    unfolding sum_list_const_mult [symmetric] using a by (intro sum_list_mono mult_right_mono) (auto intro: less_imp_le)
  have "pf_WeightedRisk (Optimize by_yield capitalUSD r) = weighted ya_RiskScore as"
    using out by (auto simp: Optimize_def Let_def split: prod.splits)
  moreover have "weighted ya_RiskScore as \<le> yc_MaxRiskScore (yo_config r)"
  proof (cases "0 < (\<Sum>a\<leftarrow>as. ya_AmountUSD a)")
    case True
    with w show ?thesis by (simp add: weighted_def Let_def divide_le_eq)
  next
    case False
    with a sum_list_map_pos [of as ya_AmountUSD] have "as = []" by blast
    with pos(4) show ?thesis by (simp add: weighted_def)
  qed
  ultimately show ?thesis by simp
qed

section \<open>What the actions of a rebalancing lead to\<close>

definition after_moves :: "YieldAction list \<Rightarrow> string \<Rightarrow> float64 \<Rightarrow> float64" where
  "after_moves acts sid x =
     x + (\<Sum>a\<leftarrow>filter (\<lambda>a. yr_SourceID a = sid \<and> yr_Type a = ''DEPOSIT'') acts. yr_AmountUSD a)
       - (\<Sum>a\<leftarrow>filter (\<lambda>a. yr_SourceID a = sid \<and> yr_Type a = ''WITHDRAW'') acts. yr_AmountUSD a)"

lemma moves_from_others: "sid \<notin> fst ` set es \<Longrightarrow> filter (\<lambda>a. yr_SourceID a = sid \<and> P a) (moves_from kind reason th other es) = []"
  by (force simp: moves_from_def filter_empty_conv Let_def split: if_splits)

lemma moves_from_types: "a \<in> set (moves_from kind reason th other es) \<Longrightarrow> yr_Type a = kind \<and> th < yr_AmountUSD a"
  by (auto simp: moves_from_def Let_def split: if_splits)

lemma moves_from_sum:
  assumes "distinct (map fst es)"
  shows "(\<Sum>a\<leftarrow>filter (\<lambda>a. yr_SourceID a = sid \<and> yr_Type a = k) (moves_from kind reason th other es). yr_AmountUSD a) =
     (case map_of es sid of None \<Rightarrow> 0
      | Some x \<Rightarrow> if k = kind \<and> th < x - map_get 0 other sid then x - map_get 0 other sid else 0)"
  using assms
proof (induction es)
  case Nil
  show ?case by (simp add: moves_from_def)
next
  case (Cons e es)
  obtain s x where e: "e = (s, x)" by (cases e)
  have split: "moves_from kind reason th other (e # es) = moves_from kind reason th other [e] @ moves_from kind reason th other es"
    by (simp add: moves_from_def)
  show ?case
  proof (cases "s = sid")
    case True
    then have "filter (\<lambda>a. yr_SourceID a = sid \<and> yr_Type a = k) (moves_from kind reason th other es) = []"
      using Cons.prems e by (intro moves_from_others) auto
    with True e show ?thesis unfolding split by (simp add: moves_from_def Let_def)
  next
    case False
    with e have "filter (\<lambda>a. yr_SourceID a = sid \<and> yr_Type a = k) (moves_from kind reason th other [e]) = []"
      by (intro moves_from_others) auto
    with False e Cons show ?thesis unfolding split by simp
  qed
qed

lemma amounts_of_distinct: "distinct (map fst (amounts_of as))"
  unfolding amounts_of_def by (induction as rule: rev_induct) (simp_all add: distinct_update)

lemma amounts_of_lookup:
  assumes "map_of (amounts_of as) sid = Some x"
  shows "\<exists>a\<in>set as. ya_SourceID a = sid \<and> ya_AmountUSD a = x"
  using assms unfolding amounts_of_def
  by (induction as rule: rev_induct) (auto simp: update_conv' split: if_splits)

lemma any_order_map_of:
  "any_order ord \<Longrightarrow> distinct (map fst es) \<Longrightarrow> map_of (ord es) = map_of es \<and> distinct (map fst (ord es))"
  by (metis any_order_mset map_of_mset_distinct mset_eq_imp_distinct_iff mset_map)

theorem rebalancing_leads_to_the_best_allocation:
  assumes ord: "any_order ord1" "any_order ord2" and th: "0 \<le> capitalUSD * yc_RebalanceThreshPct (yo_config r) / 100"
    and cur: "\<forall>a\<in>set (yo_current r). 0 \<le> ya_AmountUSD a"
    and opt: "\<forall>a\<in>set (pf_Allocations (Optimize by_yield capitalUSD r)). 0 \<le> ya_AmountUSD a"
  shows "\<bar>after_moves (Rebalance by_yield ord1 ord2 capitalUSD r) sid (map_get 0 (map_of (amounts_of (yo_current r))) sid)
          - map_get 0 (map_of (amounts_of (pf_Allocations (Optimize by_yield capitalUSD r)))) sid\<bar>
         \<le> capitalUSD * yc_RebalanceThreshPct (yo_config r) / 100"
proof -
  let ?cur = "amounts_of (yo_current r)" and ?opt = "amounts_of (pf_Allocations (Optimize by_yield capitalUSD r))"
  let ?th = "capitalUSD * yc_RebalanceThreshPct (yo_config r) / 100"
  have reb: "Rebalance by_yield ord1 ord2 capitalUSD r =
      moves_from ''WITHDRAW'' ''over-allocated vs optimal'' ?th (map_of ?opt) (ord1 ?cur)
      @ moves_from ''DEPOSIT'' ''under-allocated vs optimal'' ?th (map_of ?cur) (ord2 ?opt)"
    by (simp add: Rebalance_def Let_def)
  note o1 = any_order_map_of [OF ord(1) amounts_of_distinct, of "yo_current r"]
  note o2 = any_order_map_of [OF ord(2) amounts_of_distinct, of "pf_Allocations (Optimize by_yield capitalUSD r)"]
  have "0 \<le> map_get 0 (map_of ?cur) sid"
    using cur amounts_of_lookup [of "yo_current r" sid] by (cases "map_of ?cur sid") auto
  moreover have "0 \<le> map_get 0 (map_of ?opt) sid"
    using opt amounts_of_lookup [of "pf_Allocations (Optimize by_yield capitalUSD r)" sid] by (cases "map_of ?opt sid") auto
  ultimately show ?thesis
    unfolding after_moves_def reb using th o1 o2
    by (auto simp: moves_from_sum map_get_def abs_if split: option.splits)
qed

section \<open>The service\<close>

text \<open>The running service tracks no source: nothing in it calls an operation of the router.\<close>

theorem the_yield_service_never_tracks_a_source:
  "(yield_service_tick ^^ n) (NewYieldRouter yield_service_config, []) = (NewYieldRouter yield_service_config, replicate n 0)"
  by (induction n) (simp_all add: yield_service_tick_def SourceCount_def NewYieldRouter_def flip: replicate_append_same)

section \<open>Concrete sources\<close>

definition lending_source :: "string \<Rightarrow> float64 \<Rightarrow> YieldSource" where
  "lending_source sid apy = \<lparr>ys_ID = sid, ys_Protocol = ''aave'', ys_ChainID = 1, ys_Asset = ''USDC'', ys_Type = ''LENDING'', ys_APYPct = apy,
     ys_TVLMillions = 100, ys_RiskScore = 4, ys_MinDepositUSD = 100, ys_MaxCapacityUSD = 0, ys_LockDays = 0, ys_WithdrawTimeS = 0,
     ys_LastUpdateMs = 0\<rparr>"

definition sample_yield :: YieldRouter where
  "sample_yield = foldl yield_step (NewYieldRouter yield_service_config) [OpUpdate 1 (lending_source ''x'' 5)]"

lemma sample_yield_config: "yo_config sample_yield = yield_service_config"
  by (simp add: sample_yield_def NewYieldRouter_def yield_service_config_def)

lemma sample_yield_sources: "yo_sources sample_yield = [(''x'', (lending_source ''x'' 5)\<lparr>ys_LastUpdateMs := 1\<rparr>)]"
  by (simp add: sample_yield_def yield_step_def UpdateSource_def NewYieldRouter_def lending_source_def)

lemma allocations_stay_within_their_limits_witness:
  "(\<Sum>a\<leftarrow>pf_Allocations (Optimize (sort_key (\<lambda>s. - risk_adjusted s)) 1000 sample_yield). ya_AmountUSD a) +
     pf_ReservesUSD (Optimize (sort_key (\<lambda>s. - risk_adjusted s)) 1000 sample_yield) = 1000"
  using allocations_stay_within_their_limits [OF sorts_by_sort_key sample_yield_def, of 1000]
  by (simp add: sample_yield_config) (simp add: yield_service_config_def)

lemma portfolio_risk_is_within_the_limit_witness:
  "pf_WeightedRisk (Optimize (sort_key (\<lambda>s. - risk_adjusted s)) 1000 sample_yield) \<le> 40"
  using portfolio_risk_is_within_the_limit [OF sorts_by_sort_key sample_yield_def, of 1000]
  by (simp add: sample_yield_config) (simp add: yield_service_config_def)

lemma sample_portfolio:
  "pf_Allocations (Optimize (sort_key (\<lambda>s. - risk_adjusted s)) 1000 sample_yield) = [yield_allocation 1000 ((lending_source ''x'' 5)\<lparr>ys_LastUpdateMs := 1\<rparr>) 240] \<and>
   pf_ReservesUSD (Optimize (sort_key (\<lambda>s. - risk_adjusted s)) 1000 sample_yield) = 760"
  by (simp add: Optimize_def Let_def sample_yield_config sample_yield_sources)
    (simp add: yield_service_config_def eligible_source_def lending_source_def source_size_def Let_def yield_allocation_def)

lemma no_capital_is_left_that_a_source_could_take_witness:
  "yield_allocation 1000 ((lending_source ''x'' 5)\<lparr>ys_LastUpdateMs := 1\<rparr>) 240 \<in>
     set (pf_Allocations (Optimize (sort_key (\<lambda>s. - risk_adjusted s)) 1000 sample_yield))"
proof -
  let ?src = "(lending_source ''x'' 5)\<lparr>ys_LastUpdateMs := 1\<rparr>"
  have m: "source_cap (max_per_source 1000 sample_yield) ?src = 240"
    by (simp add: source_cap_def max_per_source_def deployable_usd_def sample_yield_config lending_source_def)
      (simp add: yield_service_config_def)
  have "eligible_source (yo_config sample_yield) ?src"
    by (simp add: eligible_source_def sample_yield_config) (simp add: yield_service_config_def lending_source_def)
  with no_capital_is_left_that_a_source_could_take [OF sorts_by_sort_key sample_yield_def, of 1000 "''x''" ?src]
  show ?thesis
    unfolding m by (simp add: sample_yield_config sample_portfolio sample_yield_sources) 
qed

lemma rebalancing_leads_to_the_best_allocation_witness:
  "\<bar>after_moves (Rebalance (sort_key (\<lambda>s. - risk_adjusted s)) (\<lambda>xs. xs) (\<lambda>xs. xs) 1000 sample_yield) ''x'' 0 - 240\<bar> \<le> 50"
  using rebalancing_leads_to_the_best_allocation [OF any_order_id any_order_id, of 1000 sample_yield "sort_key (\<lambda>s. - risk_adjusted s)" "''x''"]
  by (simp add: sample_yield_config sample_portfolio yield_allocation_def amounts_of_def lending_source_def)
    (simp add: sample_yield_def yield_step_def UpdateSource_def NewYieldRouter_def yield_service_config_def)

end
