(* ===== verification/Keeper.thy ===== *)
theory Keeper
  imports Interfaces
begin

text \<open>
  internal/keeper/engine.go: liquidations of under-collateralised loans, and the service of
  cmd/keeper-engine.  Positions are a map the code ranges over, kept as an association list.  Cutting
  the candidates to a negative number is a panic, \<open>None\<close>.  The account of gas uses the unsigned 64-bit
  limit as a number.
\<close>

section \<open>Data\<close>

record LoanPosition =
  lo_Protocol :: string
  lo_ChainID :: int
  lo_Account :: string
  lo_CollateralAsset :: string
  lo_CollateralUSD :: float64
  lo_DebtAsset :: string
  lo_DebtUSD :: float64
  lo_HealthFactor :: float64
  lo_LiqThreshold :: float64
  lo_LiqBonus :: float64
  lo_LastUpdateMs :: int64

record LiquidationCandidate =
  kc_Position :: LoanPosition
  kc_ProfitUSD :: float64
  kc_GasCostUSD :: float64
  kc_NetProfitUSD :: float64
  kc_RepayAmountUSD :: float64
  kc_ReceiveUSD :: float64
  kc_Score :: float64

record KeeperConfig =
  kp_MinProfitUSD :: float64
  kp_MaxPositionUSD :: float64
  kp_GasEstimateGwei :: float64
  kp_GasLimitLiq :: int
  kp_HealthFactorMax :: float64
  kp_MaxConcurrent :: int
  kp_CooldownMs :: int64
  kp_FlashLoanEnabled :: bool

record KeeperStats =
  kt_PositionsMonitored :: int
  kt_LiquidationsFound :: int
  kt_LiquidationsExec :: int
  kt_TotalProfitUSD :: float64
  kt_TotalGasCostUSD :: float64
  kt_AvgProfitUSD :: float64

record KeeperEngine =
  ke_positions :: "(string \<times> LoanPosition) list"
  ke_config :: KeeperConfig
  ke_cooldowns :: "string \<rightharpoonup> int64"
  ke_stats :: KeeperStats

definition NewKeeper :: "KeeperConfig \<Rightarrow> KeeperEngine" where
  "NewKeeper cfg =
     \<lparr>ke_positions = [],
      ke_config = cfg\<lparr>kp_HealthFactorMax := (if kp_HealthFactorMax cfg = 0 then 1 else kp_HealthFactorMax cfg),
                      kp_MinProfitUSD := (if kp_MinProfitUSD cfg = 0 then 10 else kp_MinProfitUSD cfg),
                      kp_MaxPositionUSD := (if kp_MaxPositionUSD cfg = 0 then 500000 else kp_MaxPositionUSD cfg),
                      kp_MaxConcurrent := (if kp_MaxConcurrent cfg = 0 then 3 else kp_MaxConcurrent cfg)\<rparr>,
      ke_cooldowns = Map.empty,
      ke_stats = \<lparr>kt_PositionsMonitored = 0, kt_LiquidationsFound = 0, kt_LiquidationsExec = 0, kt_TotalProfitUSD = 0,
                  kt_TotalGasCostUSD = 0, kt_AvgProfitUSD = 0\<rparr>\<rparr>"

section \<open>Positions\<close>

definition position_key :: "string \<Rightarrow> string \<Rightarrow> string" where
  "position_key protocol account = protocol @ '':'' @ account"

definition UpdatePosition :: "int64 \<Rightarrow> LoanPosition \<Rightarrow> KeeperEngine \<Rightarrow> KeeperEngine" where
  "UpdatePosition now p e =
     e\<lparr>ke_positions := AList.update (position_key (lo_Protocol p) (lo_Account p)) (p\<lparr>lo_LastUpdateMs := now\<rparr>) (ke_positions e)\<rparr>"

definition RemovePosition :: "string \<Rightarrow> string \<Rightarrow> KeeperEngine \<Rightarrow> KeeperEngine" where
  "RemovePosition protocol account e = e\<lparr>ke_positions := AList.delete (position_key protocol account) (ke_positions e)\<rparr>"

section \<open>Scanning\<close>

definition keeper_gas_cost :: "KeeperConfig \<Rightarrow> float64" where
  "keeper_gas_cost cfg =
     (let gasCost = real_of_int (kp_GasLimitLiq cfg) * kp_GasEstimateGwei cfg * (1 / 10 ^ 9) * 2000
      in if gasCost = 0 then 5 else gasCost)"

definition evaluateLiquidation :: "KeeperConfig \<Rightarrow> LoanPosition \<Rightarrow> LiquidationCandidate" where
  "evaluateLiquidation cfg pos =
     (let repay0 = lo_DebtUSD pos * 0.5;
          receive0 = repay0 * (1 + lo_LiqBonus pos);
          (receive, repay) = (if lo_CollateralUSD pos < receive0
                              then (lo_CollateralUSD pos, lo_CollateralUSD pos / (1 + lo_LiqBonus pos)) else (receive0, repay0));
          gross = receive - repay;
          gasCost = keeper_gas_cost cfg;
          net = gross - gasCost;
          urgency = max 0 (1 - lo_HealthFactor pos) * 10
      in \<lparr>kc_Position = pos, kc_ProfitUSD = gross, kc_GasCostUSD = gasCost, kc_NetProfitUSD = net, kc_RepayAmountUSD = repay,
          kc_ReceiveUSD = receive, kc_Score = net + urgency\<rparr>)"

definition on_cooldown :: "KeeperEngine \<Rightarrow> int64 \<Rightarrow> LoanPosition \<Rightarrow> bool" where
  "on_cooldown e now pos = (case ke_cooldowns e (lo_Account pos) of None \<Rightarrow> False | Some cd \<Rightarrow> now < cd)"

definition scan_position :: "KeeperEngine \<Rightarrow> int64 \<Rightarrow> LoanPosition \<Rightarrow> LiquidationCandidate list" where
  "scan_position e now pos =
     (if kp_HealthFactorMax (ke_config e) \<le> lo_HealthFactor pos then []
      else if on_cooldown e now pos then []
      else if kp_MaxPositionUSD (ke_config e) < lo_DebtUSD pos then []
      else (let c = evaluateLiquidation (ke_config e) pos
            in if kp_MinProfitUSD (ke_config e) \<le> kc_NetProfitUSD c then [c] else []))"

definition scan_all :: "KeeperEngine \<Rightarrow> int64 \<Rightarrow> LiquidationCandidate list" where
  "scan_all e now = concat (map (scan_position e now \<circ> snd) (ke_positions e))"

definition Scan :: "(LiquidationCandidate list \<Rightarrow> LiquidationCandidate list) \<Rightarrow> int64 \<Rightarrow> KeeperEngine \<Rightarrow> LiquidationCandidate list option" where
  "Scan by_score now e =
     (let cs = by_score (scan_all e now); n = kp_MaxConcurrent (ke_config e)
      in if n < int (length cs) then (if n < 0 then None else Some (take (nat n) cs)) else Some cs)"

section \<open>Statistics\<close>

definition RecordExecution :: "int64 \<Rightarrow> string \<Rightarrow> float64 \<Rightarrow> float64 \<Rightarrow> KeeperEngine \<Rightarrow> KeeperEngine" where
  "RecordExecution now account profitUSD gasCostUSD e =
     (let st = ke_stats e; n = kt_LiquidationsExec st + 1; total = kt_TotalProfitUSD st + profitUSD;
          st = st\<lparr>kt_LiquidationsExec := n, kt_TotalProfitUSD := total, kt_TotalGasCostUSD := kt_TotalGasCostUSD st + gasCostUSD,
                  kt_AvgProfitUSD := (if 0 < n then total / real_of_int n else kt_AvgProfitUSD st)\<rparr>;
          e1 = e\<lparr>ke_stats := st\<rparr>
      in if 0 < kp_CooldownMs (ke_config e)
         then e1\<lparr>ke_cooldowns := (ke_cooldowns e)(account \<mapsto> now + kp_CooldownMs (ke_config e))\<rparr> else e1)"

definition KeeperStatistics :: "KeeperEngine \<Rightarrow> KeeperStats \<times> KeeperEngine" where
  "KeeperStatistics e =
     (let st = (ke_stats e)\<lparr>kt_PositionsMonitored := int (length (ke_positions e)),
                  kt_LiquidationsFound := int (length (filter (\<lambda>p. lo_HealthFactor (snd p) < kp_HealthFactorMax (ke_config e)) (ke_positions e)))\<rparr>
      in (st, e\<lparr>ke_stats := st\<rparr>))"

section \<open>The service\<close>

definition keeper_service_config :: KeeperConfig where
  "keeper_service_config = \<lparr>kp_MinProfitUSD = 10, kp_MaxPositionUSD = 500000, kp_GasEstimateGwei = 30, kp_GasLimitLiq = 500000,
     kp_HealthFactorMax = 1, kp_MaxConcurrent = 3, kp_CooldownMs = 30000, kp_FlashLoanEnabled = True\<rparr>"

text \<open>A tick scans and logs the candidates; nothing is executed or recorded.\<close>

definition keeper_service_tick ::
  "(LiquidationCandidate list \<Rightarrow> LiquidationCandidate list) \<Rightarrow> KeeperEngine \<Rightarrow> int64 \<Rightarrow> LiquidationCandidate list option" where
  "keeper_service_tick by_score e now = Scan by_score now e"

section \<open>What is scanned\<close>

text \<open>A candidate repays at most half of the debt for at most the collateral, with the bonus on top.\<close>

definition sound_candidate :: "KeeperEngine \<Rightarrow> int64 \<Rightarrow> LiquidationCandidate \<Rightarrow> bool" where
  "sound_candidate e now c \<longleftrightarrow>
     (let pos = kc_Position c in
      pos \<in> snd ` set (ke_positions e) \<and> lo_HealthFactor pos < kp_HealthFactorMax (ke_config e) \<and> \<not> on_cooldown e now pos \<and>
      lo_DebtUSD pos \<le> kp_MaxPositionUSD (ke_config e) \<and> kp_MinProfitUSD (ke_config e) \<le> kc_NetProfitUSD c \<and>
      kc_RepayAmountUSD c \<le> lo_DebtUSD pos / 2 \<and> kc_ReceiveUSD c \<le> lo_CollateralUSD pos \<and>
      kc_ReceiveUSD c = kc_RepayAmountUSD c * (1 + lo_LiqBonus pos))"

lemma evaluateLiquidation_sound:
  assumes "0 \<le> lo_LiqBonus pos"
  shows "kc_Position (evaluateLiquidation cfg pos) = pos \<and> kc_RepayAmountUSD (evaluateLiquidation cfg pos) \<le> lo_DebtUSD pos / 2 \<and>
    kc_ReceiveUSD (evaluateLiquidation cfg pos) \<le> lo_CollateralUSD pos \<and>
    kc_ReceiveUSD (evaluateLiquidation cfg pos) = kc_RepayAmountUSD (evaluateLiquidation cfg pos) * (1 + lo_LiqBonus pos)"
proof (cases "lo_CollateralUSD pos < lo_DebtUSD pos * 0.5 * (1 + lo_LiqBonus pos)")
  case True
  have "lo_CollateralUSD pos / (1 + lo_LiqBonus pos) \<le> lo_DebtUSD pos / 2"
    using True assms by (simp add: divide_le_eq field_simps)
  with True assms show ?thesis by (simp add: evaluateLiquidation_def Let_def)
next
  case False
  then show ?thesis by (simp add: evaluateLiquidation_def Let_def)
qed

lemma scan_all_sound:
  assumes "\<forall>(k, pos)\<in>set (ke_positions e). 0 \<le> lo_LiqBonus pos" "c \<in> set (scan_all e now)"
  shows "sound_candidate e now c"
proof -
  from assms(2) obtain k pos where p: "(k, pos) \<in> set (ke_positions e)" "c \<in> set (scan_position e now pos)"
    by (auto simp: scan_all_def)
  with assms(1) have b: "0 \<le> lo_LiqBonus pos" by auto
  from p(2) have c: "c = evaluateLiquidation (ke_config e) pos" by (auto simp: scan_position_def Let_def split: if_splits)
  from p evaluateLiquidation_sound [OF b, of "ke_config e"] show ?thesis
    unfolding sound_candidate_def c by (force simp: scan_position_def Let_def split: if_splits)
qed

theorem scan_returns_the_best_sound_candidates:
  assumes sort: "sorts_by (\<lambda>c. - kc_Score c) by_score" and bonus: "\<forall>(k, pos)\<in>set (ke_positions e). 0 \<le> lo_LiqBonus pos"
    and res: "Scan by_score now e = Some cs"
  shows "int (length cs) \<le> max 0 (kp_MaxConcurrent (ke_config e)) \<and> (\<forall>c\<in>set cs. sound_candidate e now c) \<and>
         sorted (map (\<lambda>c. - kc_Score c) cs) \<and> mset cs \<subseteq># mset (scan_all e now) \<and>
         (\<forall>c\<in>#mset (scan_all e now) - mset cs. \<forall>c'\<in>set cs. kc_Score c \<le> kc_Score c')"
proof -
  let ?all = "by_score (scan_all e now)" and ?n = "nat (kp_MaxConcurrent (ke_config e))"
  have n: "cs = take ?n ?all" "int (length cs) \<le> max 0 (kp_MaxConcurrent (ke_config e))"
    using res by (auto simp: Scan_def Let_def split: if_splits)
  have s: "sorted (map (\<lambda>c. - kc_Score c) (take ?n ?all @ drop ?n ?all))" using sorts_by_sorted [OF sort] by simp
  have m: "mset (scan_all e now) = mset cs + mset (drop ?n ?all)"
    unfolding n(1) mset_append [symmetric] append_take_drop_id by (simp add: sorts_by_mset [OF sort])
  have "set cs \<subseteq> set (scan_all e now)" using m by (metis set_mset_mset set_mset_union sup_ge1)
  then have sound: "\<forall>c\<in>set cs. sound_candidate e now c" using scan_all_sound [OF bonus] by blast
  from s have "sorted (map (\<lambda>c. - kc_Score c) cs)" "\<forall>c\<in>set (drop ?n ?all). \<forall>c'\<in>set cs. kc_Score c \<le> kc_Score c'"
    unfolding map_append sorted_append n(1) by auto
  with n(2) sound m show ?thesis by simp
qed

section \<open>Cooldown and statistics\<close>

theorem an_executed_account_cools_down:
  assumes "0 < kp_CooldownMs (ke_config e)" "now < t + kp_CooldownMs (ke_config e)"
    and "Scan by_score now (RecordExecution t account profit gas e) = Some cs" "sorts_by (\<lambda>c. - kc_Score c) by_score"
  shows "\<forall>c\<in>set cs. lo_Account (kc_Position c) \<noteq> account"
proof -
  let ?e = "RecordExecution t account profit gas e"
  have "set cs \<subseteq> set (by_score (scan_all ?e now))" using assms(3) by (auto simp: Scan_def Let_def dest: in_set_takeD split: if_splits)
  then have "set cs \<subseteq> set (scan_all ?e now)" by (simp add: sorts_by_set [OF assms(4)])
  moreover have "\<not> on_cooldown ?e now (kc_Position c) " if "c \<in> set (scan_all ?e now)" for c
    using that by (auto simp: scan_all_def scan_position_def evaluateLiquidation_def Let_def split: if_splits)
  moreover have "on_cooldown ?e now pos" if "lo_Account pos = account" for pos
    using that assms(1,2) by (simp add: on_cooldown_def RecordExecution_def Let_def)
  ultimately show ?thesis by blast
qed

datatype keeper_op =
    KUpdate int64 LoanPosition | KRemove string string | KExecuted int64 string float64 float64 | KStats

definition keeper_step :: "KeeperEngine \<Rightarrow> keeper_op \<Rightarrow> KeeperEngine" where
  "keeper_step e op = (case op of KUpdate now p \<Rightarrow> UpdatePosition now p e | KRemove p a \<Rightarrow> RemovePosition p a e
     | KExecuted now a profit gas \<Rightarrow> RecordExecution now a profit gas e | KStats \<Rightarrow> snd (KeeperStatistics e))"

definition keeper_ok :: "KeeperEngine \<Rightarrow> bool" where
  "keeper_ok e \<longleftrightarrow>
     (let st = ke_stats e in
      0 \<le> kt_LiquidationsExec st \<and> (kt_LiquidationsExec st = 0 \<longrightarrow> kt_TotalProfitUSD st = 0) \<and>
      kt_AvgProfitUSD st * real_of_int (kt_LiquidationsExec st) = kt_TotalProfitUSD st) \<and>
     distinct (map fst (ke_positions e)) \<and> (\<forall>(k, p)\<in>set (ke_positions e). k = position_key (lo_Protocol p) (lo_Account p))"

interpretation keeper: invariant_machine keeper_step "\<lambda>_. True" keeper_ok
proof unfold_locales
  fix e op assume ok: "keeper_ok e"
  show "keeper_ok (keeper_step e op)"
  proof (cases op)
    case (KUpdate now p)
    with ok show ?thesis
      by (auto simp: keeper_step_def keeper_ok_def UpdatePosition_def Let_def distinct_update dest!: alist_update_set)
  next
    case (KRemove p a)
    with ok show ?thesis
      by (auto simp: keeper_step_def keeper_ok_def RemovePosition_def Let_def distinct_delete dest!: alist_delete_set)
  next
    case (KExecuted now a profit gas)
    with ok show ?thesis
      by (auto simp: keeper_step_def keeper_ok_def RecordExecution_def Let_def)
  next
    case KStats
    with ok show ?thesis by (simp add: keeper_step_def keeper_ok_def KeeperStatistics_def Let_def)
  qed
qed

lemma NewKeeper_ok: "keeper_ok (NewKeeper cfg)"
  by (simp add: keeper_ok_def NewKeeper_def Let_def)

theorem keeper_average_is_total_over_count:
  "kt_AvgProfitUSD (ke_stats (foldl keeper_step (NewKeeper cfg) ops)) * real_of_int (kt_LiquidationsExec (ke_stats (foldl keeper_step (NewKeeper cfg) ops))) =
     kt_TotalProfitUSD (ke_stats (foldl keeper_step (NewKeeper cfg) ops))"
proof -
  have "keeper_ok (foldl keeper_step (NewKeeper cfg) ops)" by (rule keeper.run_inv) (simp_all add: NewKeeper_ok)
  then show ?thesis by (simp add: keeper_ok_def Let_def)
qed

section \<open>What is missed\<close>

text \<open>The key has no chain: a position on one chain replaces the one of the same account on another.\<close>

theorem positions_on_two_chains_collide:
  assumes "lo_Protocol p = lo_Protocol p'" "lo_Account p = lo_Account p'"
  shows "ke_positions (UpdatePosition t' p' (UpdatePosition t p (NewKeeper cfg))) =
     [(position_key (lo_Protocol p') (lo_Account p'), p'\<lparr>lo_LastUpdateMs := t'\<rparr>)]"
  using assms by (simp add: UpdatePosition_def NewKeeper_def)

text \<open>The running service is given no position: whatever the time, it finds nothing.\<close>

theorem the_keeper_service_finds_nothing:
  assumes "sorts_by (\<lambda>c. - kc_Score c) by_score"
  shows "keeper_service_tick by_score (NewKeeper keeper_service_config) now = Some []"
  using sorts_by_length [OF assms, of "[]"]
  by (simp add: keeper_service_tick_def Scan_def scan_all_def NewKeeper_def keeper_service_config_def Let_def)

section \<open>Concrete positions\<close>

definition bad_loan :: "int \<Rightarrow> LoanPosition" where
  "bad_loan chain = \<lparr>lo_Protocol = ''aave'', lo_ChainID = chain, lo_Account = ''x'', lo_CollateralAsset = ''ETH'', lo_CollateralUSD = 2000,
     lo_DebtAsset = ''USDC'', lo_DebtUSD = 2000, lo_HealthFactor = 0.5, lo_LiqThreshold = 0.8, lo_LiqBonus = 0.1, lo_LastUpdateMs = 0\<rparr>"

definition sample_keeper :: KeeperEngine where
  "sample_keeper = UpdatePosition 1 (bad_loan 1) (NewKeeper (keeper_service_config\<lparr>kp_GasLimitLiq := 0\<rparr>))"

lemmas keeper_eval = sample_keeper_def UpdatePosition_def NewKeeper_def keeper_service_config_def bad_loan_def Scan_def scan_all_def
  scan_position_def on_cooldown_def evaluateLiquidation_def keeper_gas_cost_def RecordExecution_def Let_def

lemma sample_scan:
  "\<exists>c. Scan (sort_key (\<lambda>c. - kc_Score c)) 1 sample_keeper = Some [c] \<and> kc_NetProfitUSD c = 95"
  by (simp add: keeper_eval)

lemma scan_returns_the_best_sound_candidates_witness:
  "\<exists>c. Scan (sort_key (\<lambda>c. - kc_Score c)) 1 sample_keeper = Some [c] \<and> sound_candidate sample_keeper 1 c"
proof -
  from sample_scan obtain c where c: "Scan (sort_key (\<lambda>c. - kc_Score c)) 1 sample_keeper = Some [c]" by blast
  have "\<forall>(k, pos)\<in>set (ke_positions sample_keeper). 0 \<le> lo_LiqBonus pos" by (simp add: keeper_eval)
  from scan_returns_the_best_sound_candidates [OF sorts_by_sort_key this c] c show ?thesis by simp
qed

lemma an_executed_account_cools_down_witness:
  "\<exists>cs. Scan (sort_key (\<lambda>c. - kc_Score c)) 2 (RecordExecution 1 ''x'' 95 5 sample_keeper) = Some cs \<and>
     (\<forall>c\<in>set cs. lo_Account (kc_Position c) \<noteq> ''x'')"
proof -
  have run: "Scan (sort_key (\<lambda>c. - kc_Score c)) 2 (RecordExecution 1 ''x'' 95 5 sample_keeper) = Some []" by (simp add: keeper_eval)
  have "0 < kp_CooldownMs (ke_config sample_keeper)" "2 < 1 + kp_CooldownMs (ke_config sample_keeper)" by (simp_all add: keeper_eval)
  from an_executed_account_cools_down [OF this run sorts_by_sort_key] run show ?thesis by blast
qed

lemma positions_on_two_chains_collide_witness:
  "length (ke_positions (UpdatePosition 2 (bad_loan 10) (UpdatePosition 1 (bad_loan 1) (NewKeeper keeper_service_config)))) = 1"
  by (simp add: positions_on_two_chains_collide bad_loan_def)

lemma the_keeper_service_finds_nothing_witness:
  "keeper_service_tick (sort_key (\<lambda>c. - kc_Score c)) (NewKeeper keeper_service_config) 5 = Some []"
  by (rule the_keeper_service_finds_nothing [OF sorts_by_sort_key])

end
