(* ===== verification/Dex_Indexer.thy ===== *)
theory Dex_Indexer
  imports Interfaces
begin

text \<open>
  internal/dexindex/indexer.go: the states of the pools of decentralised exchanges, quotes from
  them, and the service of cmd/onchain-market-data.  The pools are a map the code ranges over, kept
  as an association list; the map from pairs to addresses is only looked up.  A swap whose rate is
  not a finite number gives no quote: the two divisors that may be zero are tested.
\<close>

section \<open>Data\<close>

datatype PoolType = UniswapV2 | UniswapV3 | CurveStable | BalancerPool | OtherPool string

record PoolState =
  po_PoolAddr :: string
  po_ChainID :: int
  po_Protocol :: PoolType
  po_Token0 :: string
  po_Token1 :: string
  po_Reserve0 :: float64
  po_Reserve1 :: float64
  po_FeeRate :: float64
  po_TVLUSD :: float64
  po_Volume24hUSD :: float64
  po_Price :: float64
  po_TickLower :: int
  po_TickUpper :: int
  po_Liquidity :: float64
  po_LastUpdateMs :: int64

record DEXQuote =
  dq_PoolAddr :: string
  dq_ChainID :: int
  dq_Protocol :: PoolType
  dq_TokenIn :: string
  dq_TokenOut :: string
  dq_AmountInUSD :: float64
  dq_AmountOutUSD :: float64
  dq_PriceImpact :: float64
  dq_EffectiveRate :: float64
  dq_GasCostUSD :: float64
  dq_NetOutUSD :: float64
  dq_ValidUntilMs :: int64

record RouteHop =
  rh_PoolAddr :: string
  rh_Protocol :: PoolType
  rh_TokenIn :: string
  rh_TokenOut :: string
  rh_AmountIn :: float64
  rh_AmountOut :: float64

record DexRoute =
  rt_Hops :: "RouteHop list"
  rt_TotalInUSD :: float64
  rt_TotalOutUSD :: float64
  rt_TotalGasUSD :: float64
  rt_NetOutUSD :: float64
  rt_PriceImpact :: float64

record Indexer =
  ix_pools :: "(string \<times> PoolState) list"
  ix_byPair :: "string \<Rightarrow> string list"
  ix_staleMs :: int64
  ix_gasPrices :: "int \<Rightarrow> float64"

definition NewIndexer :: "int64 \<Rightarrow> Indexer" where
  "NewIndexer staleMs = \<lparr>ix_pools = [], ix_byPair = (\<lambda>_. []), ix_staleMs = staleMs, ix_gasPrices = (\<lambda>_. 0)\<rparr>"

section \<open>Updates\<close>

definition pool_pair_key :: "string \<Rightarrow> string \<Rightarrow> string" where
  "pool_pair_key a b = a @ '':'' @ b"

definition addPairIndex :: "string \<Rightarrow> string \<Rightarrow> (string \<Rightarrow> string list) \<Rightarrow> string \<Rightarrow> string list" where
  "addPairIndex key addr m = (if addr \<in> set (m key) then m else m(key := m key @ [addr]))"

definition UpdatePool :: "int64 \<Rightarrow> PoolState \<Rightarrow> Indexer \<Rightarrow> Indexer" where
  "UpdatePool now p ix =
     ix\<lparr>ix_pools := AList.update (po_PoolAddr p) (p\<lparr>po_LastUpdateMs := now\<rparr>) (ix_pools ix),
        ix_byPair := addPairIndex (pool_pair_key (po_Token1 p) (po_Token0 p)) (po_PoolAddr p)
                       (addPairIndex (pool_pair_key (po_Token0 p) (po_Token1 p)) (po_PoolAddr p) (ix_byPair ix))\<rparr>"

definition SetGasPrice :: "int \<Rightarrow> float64 \<Rightarrow> Indexer \<Rightarrow> Indexer" where
  "SetGasPrice chain gwei ix = ix\<lparr>ix_gasPrices := (ix_gasPrices ix)(chain := gwei)\<rparr>"

section \<open>Quotes\<close>

definition swap_reserves :: "PoolState \<Rightarrow> string \<Rightarrow> float64 \<times> float64" where
  "swap_reserves p tokenIn = (if tokenIn = po_Token0 p then (po_Reserve0 p, po_Reserve1 p) else (po_Reserve1 p, po_Reserve0 p))"

definition swap_gas_usd :: "Indexer \<Rightarrow> PoolState \<Rightarrow> float64" where
  "swap_gas_usd ix p =
     (let gasUsed = (case po_Protocol p of UniswapV3 \<Rightarrow> 200000 | CurveStable \<Rightarrow> 300000 | _ \<Rightarrow> 150000);
          g = ix_gasPrices ix (po_ChainID p);
          gwei = (if g = 0 then 30 else g)
      in gasUsed * gwei * (1 / 10 ^ 9) * 2000)"

definition simulateSwap :: "Indexer \<Rightarrow> int64 \<Rightarrow> PoolState \<Rightarrow> string \<Rightarrow> string \<Rightarrow> float64 \<Rightarrow> DEXQuote option" where
  "simulateSwap ix now p tokenIn tokenOut amountIn =
     (if po_Reserve0 p \<le> 0 \<or> po_Reserve1 p \<le> 0 then None
      else
        (let (reserveIn, reserveOut) = swap_reserves p tokenIn;
             out = reserveOut * amountIn * (1 - po_FeeRate p) / (reserveIn + amountIn);
             gas = swap_gas_usd ix p
         in if amountIn = 0 \<or> reserveIn + amountIn = 0 then None
            else Some \<lparr>dq_PoolAddr = po_PoolAddr p, dq_ChainID = po_ChainID p, dq_Protocol = po_Protocol p, dq_TokenIn = tokenIn,
                       dq_TokenOut = tokenOut, dq_AmountInUSD = amountIn, dq_AmountOutUSD = out,
                       dq_PriceImpact = (1 - out / amountIn) * 10000, dq_EffectiveRate = out / amountIn, dq_GasCostUSD = gas,
                       dq_NetOutUSD = out - gas, dq_ValidUntilMs = now + 2000\<rparr>))"

text \<open>The clock is read once for the age of the pools and once for each quote.\<close>

definition pool_quote :: "Indexer \<Rightarrow> int64 \<Rightarrow> (string \<Rightarrow> int64) \<Rightarrow> string \<Rightarrow> string \<Rightarrow> float64 \<Rightarrow> string \<Rightarrow> DEXQuote list" where
  "pool_quote ix now clk tokenIn tokenOut amountIn addr =
     (case map_of (ix_pools ix) addr of
        None \<Rightarrow> []
      | Some p \<Rightarrow>
          (if now - po_LastUpdateMs p > ix_staleMs ix then []
           else (case simulateSwap ix (clk addr) p tokenIn tokenOut amountIn of None \<Rightarrow> [] | Some q \<Rightarrow> [q])))"

definition GetQuotes ::
  "(DEXQuote list \<Rightarrow> DEXQuote list) \<Rightarrow> Indexer \<Rightarrow> int64 \<Rightarrow> (string \<Rightarrow> int64) \<Rightarrow> string \<Rightarrow> string \<Rightarrow> float64 \<Rightarrow> DEXQuote list" where
  "GetQuotes by_net ix now clk tokenIn tokenOut amountIn =
     by_net (concat (map (pool_quote ix now clk tokenIn tokenOut amountIn) (ix_byPair ix (pool_pair_key tokenIn tokenOut))))"

definition BestRoute ::
  "(DEXQuote list \<Rightarrow> DEXQuote list) \<Rightarrow> Indexer \<Rightarrow> int64 \<Rightarrow> (string \<Rightarrow> int64) \<Rightarrow> string \<Rightarrow> string \<Rightarrow> float64 \<Rightarrow> DexRoute option" where
  "BestRoute by_net ix now clk tokenIn tokenOut amountIn =
     (case GetQuotes by_net ix now clk tokenIn tokenOut amountIn of
        [] \<Rightarrow> None
      | best # _ \<Rightarrow>
          Some \<lparr>rt_Hops = [\<lparr>rh_PoolAddr = dq_PoolAddr best, rh_Protocol = dq_Protocol best, rh_TokenIn = tokenIn, rh_TokenOut = tokenOut,
                            rh_AmountIn = amountIn, rh_AmountOut = dq_AmountOutUSD best\<rparr>],
                rt_TotalInUSD = amountIn, rt_TotalOutUSD = dq_AmountOutUSD best, rt_TotalGasUSD = dq_GasCostUSD best,
                rt_NetOutUSD = dq_NetOutUSD best, rt_PriceImpact = dq_PriceImpact best\<rparr>)"

definition PoolCount :: "Indexer \<Rightarrow> nat" where
  "PoolCount ix = length (ix_pools ix)"

text \<open>A negative number of pools is out of range.\<close>

definition TopPoolsByTVL :: "(PoolState list \<Rightarrow> PoolState list) \<Rightarrow> int \<Rightarrow> Indexer \<Rightarrow> PoolState list option" where
  "TopPoolsByTVL by_tvl n ix =
     (let pools = by_tvl (map snd (ix_pools ix))
      in if n < int (length pools) then (if n < 0 then None else Some (take (nat n) pools)) else Some pools)"

section \<open>The service\<close>

text \<open>A tick of the loop logs the number of pools.\<close>

definition indexer_service_tick :: "Indexer \<times> nat list \<Rightarrow> Indexer \<times> nat list" where
  "indexer_service_tick s = (fst s, snd s @ [PoolCount (fst s)])"

section \<open>The formula of a swap\<close>

text \<open>
  C39.  A simulated swap pays out a part of the reserve and never lowers the product of the reserves; without
  a fee it keeps the product.
\<close>

theorem swaps_keep_the_product_of_the_reserves:
  assumes swap: "simulateSwap ix now p tokenIn tokenOut amountIn = Some q" and amount: "0 < amountIn"
    and fee: "0 \<le> po_FeeRate p" "po_FeeRate p < 1" and res: "swap_reserves p tokenIn = (reserveIn, reserveOut)"
  shows "0 < dq_AmountOutUSD q \<and> dq_AmountOutUSD q < reserveOut \<and>
         reserveIn * reserveOut \<le> (reserveIn + amountIn) * (reserveOut - dq_AmountOutUSD q) \<and>
         (po_FeeRate p = 0 \<longrightarrow> reserveIn * reserveOut = (reserveIn + amountIn) * (reserveOut - dq_AmountOutUSD q))"
proof -
  let ?f = "1 - po_FeeRate p"
  have pos: "0 < reserveIn" "0 < reserveOut" using swap res by (auto simp: simulateSwap_def swap_reserves_def split: if_splits)
  have out: "dq_AmountOutUSD q = reserveOut * amountIn * ?f / (reserveIn + amountIn)"
    using swap res by (auto simp: simulateSwap_def Let_def split: if_splits)
  have f: "0 < ?f" "?f \<le> 1" using fee by simp_all
  have le: "reserveOut * amountIn * ?f \<le> reserveOut * amountIn" using f pos amount by (simp add: mult_left_le)
  have "(reserveIn + amountIn) * dq_AmountOutUSD q = reserveOut * amountIn * ?f" using out pos amount by simp
  then have prod: "(reserveIn + amountIn) * (reserveOut - dq_AmountOutUSD q) = reserveIn * reserveOut + (reserveOut * amountIn - reserveOut * amountIn * ?f)"
    by (simp add: right_diff_distrib distrib_right)
  have "0 < dq_AmountOutUSD q" unfolding out using f pos amount by simp
  moreover have "dq_AmountOutUSD q < reserveOut"
  proof -
    have "0 < (reserveIn + amountIn) * (reserveOut - dq_AmountOutUSD q)" unfolding prod using le pos by (simp add: add_pos_nonneg)
    then show ?thesis using pos amount by (simp add: zero_less_mult_iff)
  qed
  ultimately show ?thesis using prod le by simp
qed

text \<open>A larger swap gets more, at a worse rate.\<close>

theorem larger_swaps_get_worse_rates:
  assumes "simulateSwap ix now p tokenIn tokenOut a = Some q" "simulateSwap ix now' p tokenIn tokenOut b = Some q'"
    and "0 < a" "a < b" "0 \<le> po_FeeRate p" "po_FeeRate p < 1"
  shows "dq_AmountOutUSD q < dq_AmountOutUSD q' \<and> dq_EffectiveRate q' < dq_EffectiveRate q \<and> dq_PriceImpact q < dq_PriceImpact q'"
proof -
  obtain x y where res: "swap_reserves p tokenIn = (x, y)" by fastforce
  have pos: "0 < x" "0 < y" using assms(1) res by (auto simp: simulateSwap_def swap_reserves_def split: if_splits)
  let ?k = "y * (1 - po_FeeRate p)"
  have k: "0 < ?k" using pos assms(6) by simp
  have q: "dq_AmountOutUSD q = ?k * (a / (x + a))" "dq_EffectiveRate q = ?k / (x + a)" "dq_PriceImpact q = (1 - dq_EffectiveRate q) * 10000"
    using assms(1,3) res by (auto simp: simulateSwap_def Let_def split: if_splits)
  have q': "dq_AmountOutUSD q' = ?k * (b / (x + b))" "dq_EffectiveRate q' = ?k / (x + b)" "dq_PriceImpact q' = (1 - dq_EffectiveRate q') * 10000"
    using assms(2,3,4) res by (auto simp: simulateSwap_def Let_def split: if_splits)
  have "a / (x + a) < b / (x + b)" using pos assms(3,4) by (simp add: divide_less_eq less_divide_eq field_simps)
  then have "dq_AmountOutUSD q < dq_AmountOutUSD q'" unfolding q(1) q'(1) using k by (rule mult_strict_left_mono)
  moreover have "dq_EffectiveRate q' < dq_EffectiveRate q"
    unfolding q(2) q'(2) using k pos assms(3,4) by (intro divide_strict_left_mono) auto
  ultimately show ?thesis using q(3) q'(3) by simp
qed

section \<open>The index is complete\<close>

definition indexed :: "Indexer \<Rightarrow> PoolState \<Rightarrow> bool" where
  "indexed ix p \<longleftrightarrow> po_PoolAddr p \<in> set (ix_byPair ix (pool_pair_key (po_Token0 p) (po_Token1 p))) \<and>
     po_PoolAddr p \<in> set (ix_byPair ix (pool_pair_key (po_Token1 p) (po_Token0 p)))"

definition index_ok :: "Indexer \<Rightarrow> bool" where
  "index_ok ix \<longleftrightarrow> distinct (map fst (ix_pools ix)) \<and> (\<forall>key. distinct (ix_byPair ix key)) \<and>
     (\<forall>(addr, p)\<in>set (ix_pools ix). po_PoolAddr p = addr \<and> indexed ix p)"

datatype index_op = IxUpdate int64 PoolState | IxGas int float64

definition index_step :: "Indexer \<Rightarrow> index_op \<Rightarrow> Indexer" where
  "index_step ix op = (case op of IxUpdate now p \<Rightarrow> UpdatePool now p ix | IxGas c g \<Rightarrow> SetGasPrice c g ix)"

lemma addPairIndex_set: "set (addPairIndex key addr m k) = (if k = key then insert addr (set (m k)) else set (m k))"
  by (auto simp: addPairIndex_def)

lemma addPairIndex_distinct: "distinct (m k) \<Longrightarrow> distinct (addPairIndex key addr m k)"
  by (auto simp: addPairIndex_def)

interpretation index: invariant_machine index_step "\<lambda>_. True" index_ok
proof unfold_locales
  fix ix op assume ok: "index_ok ix"
  show "index_ok (index_step ix op)"
  proof (cases op)
    case (IxUpdate now p)
    with ok show ?thesis
      by (auto simp: index_step_def index_ok_def UpdatePool_def indexed_def addPairIndex_set addPairIndex_distinct distinct_update
          dest!: alist_update_set)
  next
    case (IxGas c g)
    with ok show ?thesis by (auto simp: index_step_def index_ok_def SetGasPrice_def indexed_def)
  qed
qed

lemma NewIndexer_ok: "index_ok (NewIndexer staleMs)"
  by (simp add: index_ok_def NewIndexer_def)

theorem the_best_route_is_the_best_of_all_fresh_pools:
  assumes sort: "sorts_by (\<lambda>q. - dq_NetOutUSD q) by_net" and ix: "ix = foldl index_step (NewIndexer staleMs) ops"
    and pool: "(addr, p) \<in> set (ix_pools ix)" "{po_Token0 p, po_Token1 p} = {tokenIn, tokenOut}"
    and fresh: "now - po_LastUpdateMs p \<le> ix_staleMs ix" and swap: "simulateSwap ix (clk addr) p tokenIn tokenOut amountIn = Some q"
  shows "\<exists>route. BestRoute by_net ix now clk tokenIn tokenOut amountIn = Some route \<and> dq_NetOutUSD q \<le> rt_NetOutUSD route"
proof -
  have ok: "index_ok ix" unfolding ix by (rule index.run_inv) (simp_all add: NewIndexer_ok)
  have addr: "addr \<in> set (ix_byPair ix (pool_pair_key tokenIn tokenOut))"
    using ok pool by (auto simp: index_ok_def indexed_def doubleton_eq_iff)
  let ?qs = "concat (map (pool_quote ix now clk tokenIn tokenOut amountIn) (ix_byPair ix (pool_pair_key tokenIn tokenOut)))"
  have "map_of (ix_pools ix) addr = Some p" using ok pool(1) by (simp add: index_ok_def)
  then have "pool_quote ix now clk tokenIn tokenOut amountIn addr = [q]" using fresh swap by (simp add: pool_quote_def)
  with addr have q: "q \<in> set ?qs" by (auto intro!: bexI [of _ addr])
  then have ne: "?qs \<noteq> []" using length_pos_if_in_set by fastforce
  from sorts_by_hd [OF sort ne] q have best: "dq_NetOutUSD q \<le> dq_NetOutUSD (hd (by_net ?qs))" by auto
  have "by_net ?qs \<noteq> []" using ne sorts_by_length [OF sort] by (metis length_0_conv)
  with best show ?thesis by (cases "by_net ?qs") (auto simp: BestRoute_def GetQuotes_def)
qed

section \<open>What the quotes miss\<close>

text \<open>
  Reserves are in tokens, amounts in dollars: a thousand dollars of a token worth two thousand each
  buy more than a hundred and eighty thousand dollars from a pool of a hundred of them.
\<close>

definition eth_pool :: PoolState where
  "eth_pool = \<lparr>po_PoolAddr = ''0x1'', po_ChainID = 1, po_Protocol = UniswapV2, po_Token0 = ''ETH'', po_Token1 = ''USDC'', po_Reserve0 = 100,
     po_Reserve1 = 200000, po_FeeRate = 0, po_TVLUSD = 400000, po_Volume24hUSD = 0, po_Price = 2000, po_TickLower = 0, po_TickUpper = 0,
     po_Liquidity = 0, po_LastUpdateMs = 0\<rparr>"

definition eth_index :: Indexer where
  "eth_index = foldl index_step (NewIndexer 30000) [IxUpdate 1 eth_pool]"

theorem dollars_are_mixed_with_tokens:
  "\<exists>route. BestRoute (sort_key (\<lambda>q. - dq_NetOutUSD q)) eth_index 1 (\<lambda>_. 1) ''ETH'' ''USDC'' 1000 = Some route \<and>
     181000 < rt_NetOutUSD route"
  by (simp add: BestRoute_def GetQuotes_def pool_quote_def eth_index_def index_step_def UpdatePool_def NewIndexer_def eth_pool_def
      addPairIndex_def pool_pair_key_def simulateSwap_def swap_reserves_def swap_gas_usd_def Let_def)

text \<open>The running service is given no pool.\<close>

theorem the_indexer_service_tracks_no_pool:
  "(indexer_service_tick ^^ n) (NewIndexer 30000, []) = (NewIndexer 30000, replicate n 0)"
  by (induction n) (simp_all add: indexer_service_tick_def PoolCount_def NewIndexer_def flip: replicate_append_same)

section \<open>Concrete swaps\<close>

lemma eth_swap:
  "\<exists>q. simulateSwap eth_index 1 (eth_pool\<lparr>po_LastUpdateMs := 1\<rparr>) ''USDC'' ''ETH'' a = Some q" if "0 < a"
  using that by (simp add: simulateSwap_def eth_pool_def swap_reserves_def Let_def)

lemma swaps_keep_the_product_of_the_reserves_witness:
  "\<exists>q. simulateSwap eth_index 1 (eth_pool\<lparr>po_LastUpdateMs := 1\<rparr>) ''USDC'' ''ETH'' 1000 = Some q \<and> dq_AmountOutUSD q < 100"
proof -
  from eth_swap [of 1000] obtain q where q: "simulateSwap eth_index 1 (eth_pool\<lparr>po_LastUpdateMs := 1\<rparr>) ''USDC'' ''ETH'' 1000 = Some q" by auto
  have "swap_reserves (eth_pool\<lparr>po_LastUpdateMs := 1\<rparr>) ''USDC'' = (200000, 100)" by (simp add: swap_reserves_def eth_pool_def)
  from swaps_keep_the_product_of_the_reserves [OF q _ _ _ this] q show ?thesis by (simp add: eth_pool_def)
qed

lemma larger_swaps_get_worse_rates_witness:
  "\<exists>q q'. simulateSwap eth_index 1 (eth_pool\<lparr>po_LastUpdateMs := 1\<rparr>) ''USDC'' ''ETH'' 1000 = Some q \<and>
     simulateSwap eth_index 1 (eth_pool\<lparr>po_LastUpdateMs := 1\<rparr>) ''USDC'' ''ETH'' 2000 = Some q' \<and> dq_EffectiveRate q' < dq_EffectiveRate q"
proof -
  from eth_swap [of 1000] eth_swap [of 2000] obtain q q'
    where q: "simulateSwap eth_index 1 (eth_pool\<lparr>po_LastUpdateMs := 1\<rparr>) ''USDC'' ''ETH'' 1000 = Some q"
      "simulateSwap eth_index 1 (eth_pool\<lparr>po_LastUpdateMs := 1\<rparr>) ''USDC'' ''ETH'' 2000 = Some q'" by auto
  from larger_swaps_get_worse_rates [OF q] q show ?thesis by (simp add: eth_pool_def)
qed

lemma the_best_route_is_the_best_of_all_fresh_pools_witness:
  "\<exists>route. BestRoute (sort_key (\<lambda>q. - dq_NetOutUSD q)) eth_index 1 (\<lambda>_. 1) ''USDC'' ''ETH'' 1000 = Some route"
proof -
  from eth_swap [of 1000] obtain q where q: "simulateSwap eth_index ((\<lambda>_. 1) ''0x1'') (eth_pool\<lparr>po_LastUpdateMs := 1\<rparr>) ''USDC'' ''ETH'' 1000 = Some q" by auto
  have pools: "ix_pools eth_index = [(''0x1'', eth_pool\<lparr>po_LastUpdateMs := 1\<rparr>)]" "ix_staleMs eth_index = 30000"
    by (simp_all add: eth_index_def index_step_def UpdatePool_def NewIndexer_def eth_pool_def)
  have "{po_Token0 (eth_pool\<lparr>po_LastUpdateMs := 1\<rparr>), po_Token1 (eth_pool\<lparr>po_LastUpdateMs := 1\<rparr>)} = {''USDC'', ''ETH''}"
    by (auto simp: eth_pool_def)
  from the_best_route_is_the_best_of_all_fresh_pools [OF sorts_by_sort_key eth_index_def _ this _ q, where now = 1]
  show ?thesis by (auto simp: pools)
qed

end
