(* ===== verification/Sliding_Windows.thy ===== *)
theory Sliding_Windows
  imports Interfaces
begin

text \<open>
  Several components keep, for each key, the records of a time window: a new record is appended,
  the old prefix is cut off, and of the rest at most a fixed number is kept.  The contract is a
  locale, interpreted on each of them: what is kept is the newest part of what was recorded.
\<close>

definition trim_window :: "('r \<Rightarrow> int) \<Rightarrow> int \<Rightarrow> nat \<Rightarrow> 'r list \<Rightarrow> 'r list" where
  "trim_window stamp cutoff cap rs = keep_last cap (dropWhile (\<lambda>r. stamp r < cutoff) rs)"

lemma keep_last_suffix: "\<exists>old. xs = old @ keep_last n xs"
  by (metis append_Nil append_take_drop_id keep_last_def)

lemma dropWhile_suffix: "\<exists>old. xs = old @ dropWhile P xs"
  by (metis takeWhile_dropWhile_id)

lemma trim_window_suffix: "\<exists>old. xs = old @ trim_window stamp c n xs"
proof -
  obtain a where "xs = a @ dropWhile (\<lambda>r. stamp r < c) xs" using dropWhile_suffix by blast
  moreover obtain b where "dropWhile (\<lambda>r. stamp r < c) xs = b @ trim_window stamp c n xs"
    unfolding trim_window_def using keep_last_suffix by blast
  ultimately have "xs = (a @ b) @ trim_window stamp c n xs" by simp
  then show ?thesis ..
qed

lemma trim_window_set: "set (trim_window stamp c n xs) \<subseteq> set xs"
  using trim_window_suffix [of xs stamp c n] by (metis Un_upper2 set_append)

lemma trim_window_length: "length (trim_window stamp c n xs) \<le> n"
  by (simp add: trim_window_def)

lemma trim_window_recent:
  assumes "sorted (map stamp xs)"
  shows "\<forall>r\<in>set (trim_window stamp c n xs). c \<le> stamp r"
  using assms set_keep_last [of n "filter (\<lambda>r. c \<le> stamp r) xs"]
  by (auto simp: trim_window_def dropWhile_sorted_filter)

text \<open>Records are pushed with a reading of the clock.\<close>

locale windowed_log =
  fixes entries :: "'s \<Rightarrow> 'k \<Rightarrow> 'r list" and push :: "'s \<Rightarrow> int \<times> 'r \<Rightarrow> 's"
    and key :: "'r \<Rightarrow> 'k" and stamp :: "'r \<Rightarrow> int" and window :: "'s \<Rightarrow> int" and cap :: "'s \<Rightarrow> nat"
  assumes entries_push: "entries (push s (now, r)) k =
      (if k = key r then trim_window stamp (now - window s) (cap s) (entries s k @ [r]) else entries s k)"
    and window_push: "window (push s x) = window s"
    and cap_push: "cap (push s x) = cap s"
begin

lemma run_settings: "window (foldl push s xs) = window s" "cap (foldl push s xs) = cap s"
  by (induction xs arbitrary: s) (simp_all add: window_push cap_push)

text \<open>What is kept of a key is the newest part of what was recorded for it.\<close>

lemma run_suffix:
  "\<exists>old. entries s k @ map snd (filter (\<lambda>x. key (snd x) = k) xs) = old @ entries (foldl push s xs) k"
proof (induction xs arbitrary: s)
  case Nil
  show ?case by simp
next
  case (Cons x xs)
  obtain now r where x: "x = (now, r)" by (cases x)
  from Cons.IH [of "push s x"] obtain old
    where old: "entries (push s x) k @ map snd (filter (\<lambda>x. key (snd x) = k) xs) = old @ entries (foldl push s (x # xs)) k" by auto
  show ?case
  proof (cases "key r = k")
    case True
    obtain pre where pre: "entries s k @ [r] = pre @ entries (push s x) k"
      using trim_window_suffix [of "entries s k @ [r]" stamp "now - window s" "cap s"] True x by (auto simp: entries_push)
    have "entries s k @ map snd (filter (\<lambda>x. key (snd x) = k) (x # xs)) =
        (entries s k @ [r]) @ map snd (filter (\<lambda>x. key (snd x) = k) xs)"
      using True x by simp
    also have "\<dots> = (pre @ old) @ entries (foldl push s (x # xs)) k"
      unfolding pre using old by simp
    finally show ?thesis ..
  next
    case False
    with old x show ?thesis by (auto simp: entries_push)
  qed
qed

lemma push_bounded: "length (entries s k) \<le> cap s \<Longrightarrow> length (entries (push s x) k) \<le> cap s"
  by (cases x) (simp add: entries_push trim_window_length)

lemma run_bounded: "length (entries s k) \<le> cap s \<Longrightarrow> length (entries (foldl push s xs) k) \<le> cap s"
proof (induction xs arbitrary: s)
  case (Cons x xs)
  then show ?case using Cons.IH [of "push s x"] push_bounded [of s k x] by (simp add: cap_push)
qed simp

text \<open>Records pushed in the order of their stamps are younger than the window when the last one is pushed.\<close>

lemma push_recent:
  assumes "sorted (map stamp (entries s (key r) @ [r]))"
  shows "\<forall>r'\<in>set (entries (push s (now, r)) (key r)). now - window s \<le> stamp r'"
  using trim_window_recent [OF assms, of "now - window s" "cap s"] by (simp add: entries_push)

end

end
