(* ===== verification/Pipeline_Latency.thy ===== *)
theory Pipeline_Latency
  imports Sliding_Windows Ring_Buffers
begin

text \<open>
  internal/pipeline/latency.go: latencies of the stages with their percentiles, tasks run under a
  limit of concurrency, and a ring buffer shared by a producer and a consumer.  The two concurrent
  parts are step relations: every goroutine is a program counter, every atomic access one step.
\<close>

section \<open>Latencies\<close>

type_synonym Stage = string

record LatencyRecord =
  lr_Stage :: Stage
  lr_DurationUs :: int64
  lr_TsMs :: int64

record StageLatency =
  sl_Stage :: Stage
  sl_P50Us :: int64
  sl_P95Us :: int64
  sl_P99Us :: int64
  sl_MaxUs :: int64
  sl_AvgUs :: int64
  sl_Count :: int

record LatencyReport =
  la_Stages :: "StageLatency list"
  la_TotalP50Us :: int64
  la_TotalP99Us :: int64
  la_TickToTradeUs :: int64
  la_TsMs :: int64

record LatencyTracker =
  lt_records :: "Stage \<Rightarrow> LatencyRecord list"
  lt_windowMs :: int64
  lt_maxRecords :: nat

definition NewLatencyTracker :: "int64 \<Rightarrow> LatencyTracker" where
  "NewLatencyTracker windowMs = \<lparr>lt_records = (\<lambda>_. []), lt_windowMs = windowMs, lt_maxRecords = 10000\<rparr>"

text \<open>The clock is read for the record and again for the cutoff.\<close>

definition push_latency :: "LatencyTracker \<Rightarrow> int64 \<times> LatencyRecord \<Rightarrow> LatencyTracker" where
  "push_latency lt x =
     (case x of (now, rec) \<Rightarrow>
        lt\<lparr>lt_records := (lt_records lt)(lr_Stage rec :=
             trim_window lr_TsMs (now - lt_windowMs lt) (lt_maxRecords lt) (lt_records lt (lr_Stage rec) @ [rec]))\<rparr>)"

definition RecordLatency :: "int64 \<Rightarrow> int64 \<Rightarrow> Stage \<Rightarrow> int64 \<Rightarrow> LatencyTracker \<Rightarrow> LatencyTracker" where
  "RecordLatency now1 now2 stage durationUs lt =
     push_latency lt (now2, \<lparr>lr_Stage = stage, lr_DurationUs = durationUs, lr_TsMs = now1\<rparr>)"

definition Measure :: "int64 \<Rightarrow> int64 \<Rightarrow> int64 \<Rightarrow> Stage \<Rightarrow> int64 \<Rightarrow> LatencyTracker \<Rightarrow> LatencyTracker" where
  "Measure nowNano now1 now2 stage startNano lt = RecordLatency now1 now2 stage (go_div (nowNano - startNano) 1000) lt"

text \<open>The insertion sort: \<open>shift_down s key p\<close> is the inner loop with the hole at index p.\<close>

fun shift_down :: "int64 list \<Rightarrow> int64 \<Rightarrow> nat \<Rightarrow> int64 list" where
  "shift_down s key 0 = s[0 := key]"
| "shift_down s key (Suc j) = (if key < s ! j then shift_down (s[Suc j := s ! j]) key j else s[Suc j := key])"

definition sortInt64 :: "int64 list \<Rightarrow> int64 list" where
  "sortInt64 s = foldl (\<lambda>s i. shift_down s (s ! i) i) s [1..<length s]"

definition computeStageLatency :: "Stage \<Rightarrow> int64 list \<Rightarrow> StageLatency" where
  "computeStageLatency stage durations =
     (let n = length durations; s = sortInt64 durations in
      if n = 0 then \<lparr>sl_Stage = stage, sl_P50Us = 0, sl_P95Us = 0, sl_P99Us = 0, sl_MaxUs = 0, sl_AvgUs = 0, sl_Count = 0\<rparr>
      else \<lparr>sl_Stage = stage, sl_P50Us = s ! (n * 50 div 100), sl_P95Us = s ! (n * 95 div 100),
            sl_P99Us = s ! (min (n - 1) (n * 99 div 100)), sl_MaxUs = s ! (n - 1),
            sl_AvgUs = go_div (sum_list s) (int n), sl_Count = int n\<rparr>)"

definition pipeline_stages :: "Stage list" where
  "pipeline_stages = [''market_data'', ''consensus'', ''arb_detection'', ''funding_detection'', ''allocation'', ''execution'',
     ''fair_value'', ''prediction'', ''routing'']"

definition stage_latency :: "LatencyTracker \<Rightarrow> int64 \<Rightarrow> Stage \<Rightarrow> StageLatency list" where
  "stage_latency lt cutoff stage =
     (let durations = map lr_DurationUs (filter (\<lambda>r. cutoff \<le> lr_TsMs r) (lt_records lt stage))
      in if durations = [] then [] else [computeStageLatency stage durations])"

definition Report :: "int64 \<Rightarrow> LatencyTracker \<Rightarrow> LatencyReport" where
  "Report now lt =
     (let sls = concat (map (stage_latency lt (now - lt_windowMs lt)) pipeline_stages);
          p50 = (\<Sum>sl\<leftarrow>sls. sl_P50Us sl); p99 = (\<Sum>sl\<leftarrow>sls. sl_P99Us sl)
      in \<lparr>la_Stages = sls, la_TotalP50Us = p50, la_TotalP99Us = p99, la_TickToTradeUs = p50, la_TsMs = now\<rparr>)"

section \<open>Sorting and percentiles\<close>

lemma shift_down_sort:
  "p < length s \<Longrightarrow> sorted (take p s) \<Longrightarrow> shift_down s key p = sort (take p s @ [key]) @ drop (Suc p) s"
proof (induction p arbitrary: s)
  case 0
  then show ?case by (cases s) simp_all
next
  case (Suc j)
  have t: "take (Suc j) s = take j s @ [s ! j]" using Suc.prems(1) by (simp add: take_Suc_conv_app_nth)
  have sj: "sorted (take j s)" "\<forall>x\<in>set (take j s). x \<le> s ! j"
    using Suc.prems(2) unfolding t by (simp_all add: sorted_append)
  show ?case
  proof (cases "key < s ! j")
    case True
    let ?s = "s[Suc j := s ! j]"
    have "sorted (sort (take j s @ [key]) @ [s ! j])" using sj(2) True by (auto simp: sorted_append)
    then have srt: "sort (take (Suc j) s @ [key]) = sort (take j s @ [key]) @ [s ! j]"
      unfolding t by (intro properties_for_sort) simp_all
    have "shift_down ?s key j = sort (take j ?s @ [key]) @ drop (Suc j) ?s"
      using Suc.prems(1) sj(1) by (intro Suc.IH) simp_all
    also have "drop (Suc j) ?s = s ! j # drop (Suc (Suc j)) s"
      using Suc.prems(1) by (simp add: drop_update_swap flip: Cons_nth_drop_Suc)
    finally show ?thesis using True srt by simp
  next
    case False
    then have "sorted (take (Suc j) s @ [key])" using Suc.prems(2) sj(2) unfolding t by (auto simp: sorted_append)
    then have "sort (take (Suc j) s @ [key]) = take (Suc j) s @ [key]" by (rule sorted_sort_id)
    with False Suc.prems(1) show ?thesis by (simp add: upd_conv_take_nth_drop)
  qed
qed

lemma sort_prefix_step:
  assumes "p < length s" "take p s = sort (take p s0)" "drop p s = drop p s0" "length s = length s0"
  shows "take (Suc p) (shift_down s (s ! p) p) = sort (take (Suc p) s0) \<and> drop (Suc p) (shift_down s (s ! p) p) = drop (Suc p) s0 \<and>
    length (shift_down s (s ! p) p) = length s0"
proof -
  have srt: "shift_down s (s ! p) p = sort (take p s @ [s ! p]) @ drop (Suc p) s"
    using assms(1,2) by (intro shift_down_sort) simp_all
  have "s ! p = s0 ! p" using assms by (metis hd_drop_conv_nth)
  then have "sort (take p s @ [s ! p]) = sort (take (Suc p) s0)"
    using assms by (intro sort_mset_cong) (simp add: take_Suc_conv_app_nth)
  moreover have "drop (Suc p) s = drop (Suc p) s0" using assms(3) by (metis drop_Suc drop_tl)
  ultimately show ?thesis using srt assms(1,4) by simp
qed

theorem insertion_sort_is_sort:
  "sortInt64 s = sort s"
proof -
  have "k \<le> length s \<Longrightarrow> take k (foldl (\<lambda>s i. shift_down s (s ! i) i) s [1..<k]) = sort (take k s) \<and>
      drop k (foldl (\<lambda>s i. shift_down s (s ! i) i) s [1..<k]) = drop k s \<and>
      length (foldl (\<lambda>s i. shift_down s (s ! i) i) s [1..<k]) = length s" for k
  proof (induction k)
    case (Suc k)
    show ?case
    proof (cases "k = 0")
      case True
      then show ?thesis using Suc.prems by (cases s) simp_all
    next
      case False
      with Suc sort_prefix_step [of k "foldl (\<lambda>s i. shift_down s (s ! i) i) s [1..<k]" s] show ?thesis by simp
    qed
  qed simp
  from this [of "length s"] have run: "take (length s) (sortInt64 s) = sort s" "length (sortInt64 s) = length s"
    by (simp_all add: sortInt64_def)
  then show ?thesis by (metis take_all order_refl)
qed

lemma sorted_above:
  fixes s :: "int list"
  assumes "sorted s" "k < length s"
  shows "length (filter (\<lambda>d. s ! k < d) s) \<le> length s - 1 - k"
proof -
  have "s = take (Suc k) s @ drop (Suc k) s" by simp
  then have "filter (\<lambda>d. s ! k < d) s = filter (\<lambda>d. s ! k < d) (take (Suc k) s) @ filter (\<lambda>d. s ! k < d) (drop (Suc k) s)"
    by (metis filter_append)
  moreover have "filter (\<lambda>d. s ! k < d) (take (Suc k) s) = []"
    using sorted_nth_mono [OF assms(1) _ assms(2)] by (auto simp: filter_empty_conv in_set_conv_nth not_less)
  ultimately have "length (filter (\<lambda>d. s ! k < d) s) = length (filter (\<lambda>d. s ! k < d) (drop (Suc k) s))" by simp
  also have "\<dots> \<le> length (drop (Suc k) s)" by (rule length_filter_le)
  finally show ?thesis by simp
qed

lemma filter_sort_length:
  fixes s :: "int list"
  shows "length (filter P (sort s)) = length (filter P s)"
  by (metis mset_filter mset_sort size_mset)

text \<open>The percentiles are ordered, and few durations are longer than them.\<close>

theorem percentiles_bound_the_durations:
  assumes "durations \<noteq> []"
  shows "sl_P50Us (computeStageLatency stage durations) \<le> sl_P95Us (computeStageLatency stage durations) \<and>
         sl_P95Us (computeStageLatency stage durations) \<le> sl_P99Us (computeStageLatency stage durations) \<and>
         sl_P99Us (computeStageLatency stage durations) \<le> sl_MaxUs (computeStageLatency stage durations) \<and>
         sl_MaxUs (computeStageLatency stage durations) = Max (set durations) \<and>
         2 * length (filter (\<lambda>d. sl_P50Us (computeStageLatency stage durations) < d) durations) \<le> length durations \<and>
         20 * length (filter (\<lambda>d. sl_P95Us (computeStageLatency stage durations) < d) durations) \<le> length durations \<and>
         100 * length (filter (\<lambda>d. sl_P99Us (computeStageLatency stage durations) < d) durations) \<le> length durations"
proof -
  let ?s = "sort durations" and ?n = "length durations"
  have n: "0 < ?n" using assms by simp
  have p99: "min (?n - 1) (?n * 99 div 100) = ?n * 99 div 100" using n by linarith
  have sl: "computeStageLatency stage durations = \<lparr>sl_Stage = stage, sl_P50Us = ?s ! (?n * 50 div 100), sl_P95Us = ?s ! (?n * 95 div 100),
      sl_P99Us = ?s ! (?n * 99 div 100), sl_MaxUs = ?s ! (?n - 1), sl_AvgUs = go_div (sum_list ?s) (int ?n), sl_Count = int ?n\<rparr>"
    using n p99 by (simp add: computeStageLatency_def insertion_sort_is_sort Let_def)
  have mono: "i \<le> j \<Longrightarrow> j < ?n \<Longrightarrow> ?s ! i \<le> ?s ! j" for i j by (rule sorted_nth_mono) simp_all
  have "?s ! (?n - 1) = Max (set durations)"
  proof (rule sym, rule Max_eqI)
    show "y \<le> ?s ! (?n - 1)" if "y \<in> set durations" for y
    proof -
      from that have "y \<in> set ?s" by simp
      then obtain i where "i < length ?s" "y = ?s ! i" unfolding in_set_conv_nth by blast
      with mono [of i "?n - 1"] n show ?thesis by simp
    qed
    show "?s ! (?n - 1) \<in> set durations" using n nth_mem [of "?n - 1" ?s] by simp
  qed simp
  moreover have ab: "length (filter (\<lambda>d. ?s ! k < d) durations) \<le> ?n - 1 - k" if "k < ?n" for k
    using sorted_above [of ?s k] that by (simp add: filter_sort_length)
  have "2 * length (filter (\<lambda>d. ?s ! (?n * 50 div 100) < d) durations) \<le> ?n"
    using ab [of "?n * 50 div 100"] n by linarith
  moreover have "20 * length (filter (\<lambda>d. ?s ! (?n * 95 div 100) < d) durations) \<le> ?n"
    using ab [of "?n * 95 div 100"] n by linarith
  moreover have "100 * length (filter (\<lambda>d. ?s ! (?n * 99 div 100) < d) durations) \<le> ?n"
    using ab [of "?n * 99 div 100"] n by linarith
  moreover have "?s ! (?n * 50 div 100) \<le> ?s ! (?n * 95 div 100)" "?s ! (?n * 95 div 100) \<le> ?s ! (?n * 99 div 100)"
      "?s ! (?n * 99 div 100) \<le> ?s ! (?n - 1)"
    using n by (intro mono; linarith)+
  ultimately show ?thesis unfolding sl by simp
qed

section \<open>The window of records\<close>

interpretation latency_log: windowed_log lt_records push_latency lr_Stage lr_TsMs lt_windowMs lt_maxRecords
  by unfold_locales (auto simp: push_latency_def split: prod.splits)

section \<open>The ring buffer\<close>

text \<open>
  Positions count all writes and reads.  The producer loads both positions, tests for space, writes
  the slot and then publishes the new head; the consumer loads both, tests, reads the slot and then
  publishes the new tail.  One access is one step; the program counters hold what was loaded.
  A capacity of zero is a buffer that is always full.  The positions are natural numbers; the code's are
  atomic 64-bit integers, which would wrap after 2 to the 63 writes.
\<close>

record 'a RingBuffer =
  rb_data :: "'a list"
  rb_size :: nat
  rb_head :: nat
  rb_tail :: nat

definition NewRingBuffer :: "'a \<Rightarrow> nat \<Rightarrow> 'a RingBuffer" where
  "NewRingBuffer zero capacity = \<lparr>rb_data = replicate capacity zero, rb_size = capacity, rb_head = 0, rb_tail = 0\<rparr>"

text \<open>A goroutine alone: the operations as functions.\<close>

definition RingPush :: "'a \<Rightarrow> 'a RingBuffer \<Rightarrow> bool \<times> 'a RingBuffer" where
  "RingPush item rb =
     (if rb_size rb + rb_tail rb \<le> rb_head rb then (False, rb)
      else (True, rb\<lparr>rb_data := (rb_data rb)[rb_head rb mod rb_size rb := item], rb_head := rb_head rb + 1\<rparr>))"

definition RingPop :: "'a RingBuffer \<Rightarrow> 'a option \<times> 'a RingBuffer" where
  "RingPop rb =
     (if rb_head rb \<le> rb_tail rb then (None, rb)
      else (Some (rb_data rb ! (rb_tail rb mod rb_size rb)), rb\<lparr>rb_tail := rb_tail rb + 1\<rparr>))"

definition RingLen :: "'a RingBuffer \<Rightarrow> int" where
  "RingLen rb = int (rb_head rb) - int (rb_tail rb)"

text \<open>Both at once.  The lists of the items written and read are ghosts.\<close>

datatype 'a producer = PIdle | PHead nat 'a | PBoth nat nat 'a | PWritten 'a
datatype 'a consumer = CIdle | CTail nat | CBoth nat nat | CRead 'a

record 'a shared =
  sr_rb :: "'a RingBuffer"
  sr_prod :: "'a producer"
  sr_cons :: "'a consumer"
  sr_pushed :: "'a list"
  sr_popped :: "'a list"

inductive ring_step :: "'a shared \<Rightarrow> 'a shared \<Rightarrow> bool" where
  push_begin: "sr_prod s = PIdle \<Longrightarrow> ring_step s (s\<lparr>sr_prod := PHead (rb_head (sr_rb s)) x\<rparr>)"
| push_load: "sr_prod s = PHead h x \<Longrightarrow> ring_step s (s\<lparr>sr_prod := PBoth h (rb_tail (sr_rb s)) x\<rparr>)"
| push_full: "sr_prod s = PBoth h t x \<Longrightarrow> rb_size (sr_rb s) + t \<le> h \<Longrightarrow> ring_step s (s\<lparr>sr_prod := PIdle\<rparr>)"
| push_write: "sr_prod s = PBoth h t x \<Longrightarrow> h < rb_size (sr_rb s) + t \<Longrightarrow>
    ring_step s (s\<lparr>sr_prod := PWritten x, sr_rb := (sr_rb s)\<lparr>rb_data := (rb_data (sr_rb s))[h mod rb_size (sr_rb s) := x]\<rparr>\<rparr>)"
| push_publish: "sr_prod s = PWritten x \<Longrightarrow>
    ring_step s (s\<lparr>sr_prod := PIdle, sr_rb := (sr_rb s)\<lparr>rb_head := rb_head (sr_rb s) + 1\<rparr>, sr_pushed := sr_pushed s @ [x]\<rparr>)"
| pop_begin: "sr_cons s = CIdle \<Longrightarrow> ring_step s (s\<lparr>sr_cons := CTail (rb_tail (sr_rb s))\<rparr>)"
| pop_load: "sr_cons s = CTail t \<Longrightarrow> ring_step s (s\<lparr>sr_cons := CBoth t (rb_head (sr_rb s))\<rparr>)"
| pop_empty: "sr_cons s = CBoth t h \<Longrightarrow> h \<le> t \<Longrightarrow> ring_step s (s\<lparr>sr_cons := CIdle\<rparr>)"
| pop_read: "sr_cons s = CBoth t h \<Longrightarrow> t < h \<Longrightarrow>
    ring_step s (s\<lparr>sr_cons := CRead (rb_data (sr_rb s) ! (t mod rb_size (sr_rb s)))\<rparr>)"
| pop_publish: "sr_cons s = CRead x \<Longrightarrow>
    ring_step s (s\<lparr>sr_cons := CIdle, sr_rb := (sr_rb s)\<lparr>rb_tail := rb_tail (sr_rb s) + 1\<rparr>, sr_popped := sr_popped s @ [x]\<rparr>)"

inductive_cases ring_stepE: "ring_step s s'"

definition ring_start :: "'a \<Rightarrow> nat \<Rightarrow> 'a shared" where
  "ring_start zero capacity =
     \<lparr>sr_rb = NewRingBuffer zero capacity, sr_prod = PIdle, sr_cons = CIdle, sr_pushed = [], sr_popped = []\<rparr>"

text \<open>What is in the slots, and what each goroutine knows.\<close>

definition slots_ok :: "'a shared \<Rightarrow> bool" where
  "slots_ok s \<longleftrightarrow>
     (let rb = sr_rb s in
      length (rb_data rb) = rb_size rb \<and> rb_head rb = length (sr_pushed s) \<and>
      rb_tail rb \<le> rb_head rb \<and> rb_head rb \<le> rb_tail rb + rb_size rb \<and>
      sr_popped s = take (rb_tail rb) (sr_pushed s) \<and>
      (\<forall>i. rb_tail rb \<le> i \<and> i < rb_head rb \<longrightarrow> rb_data rb ! (i mod rb_size rb) = sr_pushed s ! i))"

definition producer_ok :: "'a shared \<Rightarrow> bool" where
  "producer_ok s \<longleftrightarrow>
     (let rb = sr_rb s in
      case sr_prod s of
        PIdle \<Rightarrow> True
      | PHead h x \<Rightarrow> h = rb_head rb
      | PBoth h t x \<Rightarrow> h = rb_head rb \<and> t \<le> rb_tail rb
      | PWritten x \<Rightarrow> rb_head rb < rb_tail rb + rb_size rb \<and> rb_data rb ! (rb_head rb mod rb_size rb) = x)"

definition consumer_ok :: "'a shared \<Rightarrow> bool" where
  "consumer_ok s \<longleftrightarrow>
     (let rb = sr_rb s in
      case sr_cons s of
        CIdle \<Rightarrow> True
      | CTail t \<Rightarrow> t = rb_tail rb
      | CBoth t h \<Rightarrow> t = rb_tail rb \<and> h \<le> rb_head rb
      | CRead x \<Rightarrow> rb_tail rb < rb_head rb \<and> x = sr_pushed s ! rb_tail rb)"

lemma ring_start_ok: "slots_ok (ring_start z c)" "producer_ok (ring_start z c)" "consumer_ok (ring_start z c)"
  by (simp_all add: slots_ok_def producer_ok_def consumer_ok_def ring_start_def NewRingBuffer_def Let_def)

lemma slot_apart:
  fixes i h t n :: nat
  assumes "t \<le> i" "i < h" "h < t + n"
  shows "h mod n \<noteq> i mod n"
proof -
  have "(h - (h - i)) mod n \<noteq> h mod n" by (rule mod_apart) (use assms in linarith)+
  with assms(2) show ?thesis by simp
qed

lemmas ring_invs = slots_ok_def producer_ok_def consumer_ok_def Let_def

lemma push_write_ok:
  assumes p: "sr_prod s = PBoth h t x" "h < rb_size (sr_rb s) + t" and ok: "slots_ok s" "producer_ok s" "consumer_ok s"
  shows "slots_ok (s\<lparr>sr_prod := PWritten x, sr_rb := (sr_rb s)\<lparr>rb_data := (rb_data (sr_rb s))[h mod rb_size (sr_rb s) := x]\<rparr>\<rparr>) \<and>
    producer_ok (s\<lparr>sr_prod := PWritten x, sr_rb := (sr_rb s)\<lparr>rb_data := (rb_data (sr_rb s))[h mod rb_size (sr_rb s) := x]\<rparr>\<rparr>) \<and>
    consumer_ok (s\<lparr>sr_prod := PWritten x, sr_rb := (sr_rb s)\<lparr>rb_data := (rb_data (sr_rb s))[h mod rb_size (sr_rb s) := x]\<rparr>\<rparr>)"
proof -
  let ?rb = "sr_rb s"
  from p ok have h: "h = rb_head ?rb" "rb_head ?rb < rb_tail ?rb + rb_size ?rb" "length (rb_data ?rb) = rb_size ?rb" "rb_tail ?rb \<le> rb_head ?rb"
    by (simp_all add: ring_invs)
  then have n: "rb_head ?rb mod rb_size ?rb < rb_size ?rb" by simp
  have keep: "(rb_data ?rb)[rb_head ?rb mod rb_size ?rb := x] ! (i mod rb_size ?rb) = rb_data ?rb ! (i mod rb_size ?rb)"
    if "rb_tail ?rb \<le> i" "i < rb_head ?rb" for i
    using slot_apart [OF that h(2)] by simp
  show ?thesis using ok h n keep by (cases "sr_cons s") (simp_all add: ring_invs)
qed

lemma push_publish_ok:
  assumes p: "sr_prod s = PWritten x" and ok: "slots_ok s" "producer_ok s" "consumer_ok s"
  shows "slots_ok (s\<lparr>sr_prod := PIdle, sr_rb := (sr_rb s)\<lparr>rb_head := rb_head (sr_rb s) + 1\<rparr>, sr_pushed := sr_pushed s @ [x]\<rparr>) \<and>
    producer_ok (s\<lparr>sr_prod := PIdle, sr_rb := (sr_rb s)\<lparr>rb_head := rb_head (sr_rb s) + 1\<rparr>, sr_pushed := sr_pushed s @ [x]\<rparr>) \<and>
    consumer_ok (s\<lparr>sr_prod := PIdle, sr_rb := (sr_rb s)\<lparr>rb_head := rb_head (sr_rb s) + 1\<rparr>, sr_pushed := sr_pushed s @ [x]\<rparr>)"
proof -
  let ?rb = "sr_rb s"
  have slots: "rb_data ?rb ! (i mod rb_size ?rb) = (sr_pushed s @ [x]) ! i" if "rb_tail ?rb \<le> i" "i < Suc (rb_head ?rb)" for i
    using that p ok by (cases "i = rb_head ?rb") (simp_all add: ring_invs nth_append)
  show ?thesis using p ok slots by (cases "sr_cons s") (simp_all add: ring_invs nth_append)
qed

lemma pop_publish_ok:
  assumes c: "sr_cons s = CRead x" and ok: "slots_ok s" "producer_ok s" "consumer_ok s"
  shows "slots_ok (s\<lparr>sr_cons := CIdle, sr_rb := (sr_rb s)\<lparr>rb_tail := rb_tail (sr_rb s) + 1\<rparr>, sr_popped := sr_popped s @ [x]\<rparr>) \<and>
    producer_ok (s\<lparr>sr_cons := CIdle, sr_rb := (sr_rb s)\<lparr>rb_tail := rb_tail (sr_rb s) + 1\<rparr>, sr_popped := sr_popped s @ [x]\<rparr>) \<and>
    consumer_ok (s\<lparr>sr_cons := CIdle, sr_rb := (sr_rb s)\<lparr>rb_tail := rb_tail (sr_rb s) + 1\<rparr>, sr_popped := sr_popped s @ [x]\<rparr>)"
proof -
  have "sr_popped s @ [x] = take (Suc (rb_tail (sr_rb s))) (sr_pushed s)"
    using c ok by (simp add: ring_invs take_Suc_conv_app_nth)
  then show ?thesis using c ok by (cases "sr_prod s") (simp_all add: ring_invs)
qed

lemma ring_step_ok:
  assumes "ring_step s s'" "slots_ok s" "producer_ok s" "consumer_ok s"
  shows "slots_ok s' \<and> producer_ok s' \<and> consumer_ok s'"
  using assms(1)
proof (cases rule: ring_step.cases)
  case (push_write h t x)
  with push_write_ok [OF push_write(2,3) assms(2-4)] show ?thesis by simp
next
  case (push_publish x)
  with push_publish_ok [OF push_publish(2) assms(2-4)] show ?thesis by simp
next
  case (pop_publish x)
  with pop_publish_ok [OF pop_publish(2) assms(2-4)] show ?thesis by simp
next
  case (push_begin x)
  with assms(2-4) show ?thesis by (cases "sr_prod s"; cases "sr_cons s") (simp_all add: ring_invs)
next
  case (push_load h x)
  with assms(2-4) show ?thesis by (cases "sr_prod s"; cases "sr_cons s") (simp_all add: ring_invs)
next
  case (push_full h t x)
  with assms(2-4) show ?thesis by (cases "sr_prod s"; cases "sr_cons s") (simp_all add: ring_invs)
next
  case pop_begin
  with assms(2-4) show ?thesis by (cases "sr_prod s"; cases "sr_cons s") (simp_all add: ring_invs)
next
  case (pop_load t)
  with assms(2-4) show ?thesis by (cases "sr_prod s"; cases "sr_cons s") (simp_all add: ring_invs)
next
  case (pop_empty t h)
  with assms(2-4) show ?thesis by (cases "sr_prod s"; cases "sr_cons s") (simp_all add: ring_invs)
next
  case (pop_read t h)
  with assms(2-4) show ?thesis by (cases "sr_prod s"; cases "sr_cons s") (simp_all add: ring_invs)
qed

text \<open>C25.  However the two goroutines interleave, what is read is what was written, in order, without a loss or a repetition.\<close>

theorem the_ring_buffer_is_a_queue:
  assumes "ring_step\<^sup>*\<^sup>* (ring_start zero capacity) s"
  shows "sr_popped s = take (length (sr_popped s)) (sr_pushed s) \<and> length (sr_popped s) \<le> length (sr_pushed s) \<and>
         length (sr_pushed s) \<le> length (sr_popped s) + capacity \<and>
         0 \<le> RingLen (sr_rb s) \<and> RingLen (sr_rb s) \<le> int capacity"
proof -
  have "slots_ok s \<and> producer_ok s \<and> consumer_ok s \<and> rb_size (sr_rb s) = capacity"
    using assms
  proof (induction rule: rtranclp_induct)
    case base
    show ?case by (simp add: ring_start_ok) (simp add: ring_start_def NewRingBuffer_def)
  next
    case (step s s')
    then have "rb_size (sr_rb s') = rb_size (sr_rb s)" by (auto elim!: ring_stepE)
    with step ring_step_ok show ?case by metis
  qed
  then show ?thesis by (auto simp: slots_ok_def RingLen_def Let_def)
qed

text \<open>The operations of a goroutine alone are runs of these steps.\<close>

lemma RingPush_run:
  assumes "sr_prod s = PIdle"
  shows "ring_step\<^sup>*\<^sup>* s (s\<lparr>sr_rb := snd (RingPush x (sr_rb s)), sr_pushed := sr_pushed s @ (if fst (RingPush x (sr_rb s)) then [x] else [])\<rparr>)"
proof -
  let ?rb = "sr_rb s"
  let ?s1 = "s\<lparr>sr_prod := PHead (rb_head ?rb) x\<rparr>" and ?s2 = "s\<lparr>sr_prod := PBoth (rb_head ?rb) (rb_tail ?rb) x\<rparr>"
  have 1: "ring_step s ?s1" using assms by (rule push_begin)
  have 2: "ring_step ?s1 ?s2" using push_load [of ?s1 "rb_head ?rb" x] by simp
  show ?thesis
  proof (cases "rb_size ?rb + rb_tail ?rb \<le> rb_head ?rb")
    case True
    have 3: "ring_step ?s2 (s\<lparr>sr_prod := PIdle\<rparr>)" using push_full [of ?s2 "rb_head ?rb" "rb_tail ?rb" x] True by simp
    have "s\<lparr>sr_prod := PIdle\<rparr> = s\<lparr>sr_rb := snd (RingPush x ?rb), sr_pushed := sr_pushed s @ (if fst (RingPush x ?rb) then [x] else [])\<rparr>"
      using True assms by (simp add: RingPush_def)
    with 3 have 4: "ring_step ?s2 (s\<lparr>sr_rb := snd (RingPush x ?rb), sr_pushed := sr_pushed s @ (if fst (RingPush x ?rb) then [x] else [])\<rparr>)"
      by (simp only:)
    show ?thesis by (rule converse_rtranclp_into_rtranclp [OF 1 converse_rtranclp_into_rtranclp [OF 2 r_into_rtranclp [of ring_step, OF 4]]])
  next
    case False
    let ?s3 = "s\<lparr>sr_prod := PWritten x, sr_rb := ?rb\<lparr>rb_data := (rb_data ?rb)[rb_head ?rb mod rb_size ?rb := x]\<rparr>\<rparr>"
    have 3: "ring_step ?s2 ?s3" using push_write [of ?s2 "rb_head ?rb" "rb_tail ?rb" x] False by simp
    have 4: "ring_step ?s3 (s\<lparr>sr_rb := snd (RingPush x ?rb), sr_pushed := sr_pushed s @ (if fst (RingPush x ?rb) then [x] else [])\<rparr>)"
      using push_publish [of ?s3 x] False by (simp add: RingPush_def assms [symmetric])
    show ?thesis
      by (rule converse_rtranclp_into_rtranclp [OF 1 converse_rtranclp_into_rtranclp [OF 2 converse_rtranclp_into_rtranclp [OF 3 r_into_rtranclp [of ring_step, OF 4]]]])
  qed
qed

lemma RingPop_run:
  assumes "sr_cons s = CIdle"
  shows "ring_step\<^sup>*\<^sup>* s (s\<lparr>sr_rb := snd (RingPop (sr_rb s)), sr_popped := sr_popped s @ (case fst (RingPop (sr_rb s)) of None \<Rightarrow> [] | Some x \<Rightarrow> [x])\<rparr>)"
    (is "ring_step\<^sup>*\<^sup>* s ?s'")
proof -
  let ?rb = "sr_rb s"
  let ?s1 = "s\<lparr>sr_cons := CTail (rb_tail ?rb)\<rparr>" and ?s2 = "s\<lparr>sr_cons := CBoth (rb_tail ?rb) (rb_head ?rb)\<rparr>"
  have 1: "ring_step s ?s1" using assms by (rule pop_begin)
  have 2: "ring_step ?s1 ?s2" using pop_load [of ?s1 "rb_tail ?rb"] by simp
  show ?thesis
  proof (cases "rb_head ?rb \<le> rb_tail ?rb")
    case True
    have "ring_step ?s2 ?s'" using pop_empty [of ?s2 "rb_tail ?rb" "rb_head ?rb"] True by (simp add: RingPop_def assms [symmetric])
    then show ?thesis by (rule converse_rtranclp_into_rtranclp [OF 1 converse_rtranclp_into_rtranclp [OF 2 r_into_rtranclp [of ring_step]]])
  next
    case False
    let ?s3 = "s\<lparr>sr_cons := CRead (rb_data ?rb ! (rb_tail ?rb mod rb_size ?rb))\<rparr>"
    have 3: "ring_step ?s2 ?s3" using pop_read [of ?s2 "rb_tail ?rb" "rb_head ?rb"] False by simp
    have "ring_step ?s3 ?s'" using pop_publish [of ?s3] False by (simp add: RingPop_def assms [symmetric])
    then show ?thesis
      by (rule converse_rtranclp_into_rtranclp [OF 1 converse_rtranclp_into_rtranclp [OF 2 converse_rtranclp_into_rtranclp [OF 3 r_into_rtranclp [of ring_step]]]])
  qed
qed

section \<open>Tasks under a limit\<close>

text \<open>
  One goroutine per task: it takes a slot of the semaphore, runs its function, writes its result and
  gives the slot back.  A send on a channel needs a free place of its buffer, and nothing receives
  from the semaphore but a task that holds a slot.  The outcome of a task is that of its function.
\<close>

datatype task_state = Waiting | Running | Finished

record 'e ParallelExecutor =
  pe_max :: nat
  pe_tasks :: "task_state list"
  pe_results :: "'e option list"

definition RunAll :: "nat \<Rightarrow> nat \<Rightarrow> 'e ParallelExecutor" where
  "RunAll maxConcurrency n = \<lparr>pe_max = maxConcurrency, pe_tasks = replicate n Waiting, pe_results = replicate n None\<rparr>"

definition holding :: "'e ParallelExecutor \<Rightarrow> nat" where
  "holding pe = length (filter (\<lambda>t. t = Running) (pe_tasks pe))"

inductive task_step :: "(nat \<Rightarrow> 'e) \<Rightarrow> 'e ParallelExecutor \<Rightarrow> 'e ParallelExecutor \<Rightarrow> bool" for outcome where
  acquire: "i < length (pe_tasks pe) \<Longrightarrow> pe_tasks pe ! i = Waiting \<Longrightarrow> holding pe < pe_max pe \<Longrightarrow>
    task_step outcome pe (pe\<lparr>pe_tasks := (pe_tasks pe)[i := Running]\<rparr>)"
| finish: "i < length (pe_tasks pe) \<Longrightarrow> pe_tasks pe ! i = Running \<Longrightarrow>
    task_step outcome pe (pe\<lparr>pe_tasks := (pe_tasks pe)[i := Finished], pe_results := (pe_results pe)[i := Some (outcome i)]\<rparr>)"

inductive_cases task_stepE: "task_step outcome pe pe'"

definition wait_returns :: "'e ParallelExecutor \<Rightarrow> bool" where
  "wait_returns pe \<longleftrightarrow> (\<forall>t\<in>set (pe_tasks pe). t = Finished)"

definition tasks_ok :: "(nat \<Rightarrow> 'e) \<Rightarrow> nat \<Rightarrow> nat \<Rightarrow> 'e ParallelExecutor \<Rightarrow> bool" where
  "tasks_ok outcome m n pe \<longleftrightarrow>
     pe_max pe = m \<and> length (pe_tasks pe) = n \<and> length (pe_results pe) = n \<and> holding pe \<le> m \<and>
     (\<forall>i<n. pe_results pe ! i = (if pe_tasks pe ! i = Finished then Some (outcome i) else None))"

lemma count_update:
  assumes "i < length xs"
  shows "length (filter P (xs[i := y])) + (if P (xs ! i) then 1 else 0) = length (filter P xs) + (if P y then 1 else 0)"
proof -
  have xs: "xs = take i xs @ xs ! i # drop (Suc i) xs" using assms by (rule id_take_nth_drop)
  have "length (filter P xs) = length (filter P (take i xs)) + (if P (xs ! i) then 1 else 0) + length (filter P (drop (Suc i) xs))"
    by (subst xs) simp
  moreover have "length (filter P (xs[i := y])) = length (filter P (take i xs)) + (if P y then 1 else 0) + length (filter P (drop (Suc i) xs))"
    using assms by (simp add: upd_conv_take_nth_drop)
  ultimately show ?thesis by simp
qed

lemma task_step_ok: "task_step outcome pe pe' \<Longrightarrow> tasks_ok outcome m n pe \<Longrightarrow> tasks_ok outcome m n pe'"
proof (induction rule: task_step.induct)
  case (acquire i pe)
  then show ?case
    using count_update [of i "pe_tasks pe" "\<lambda>t. t = Running" Running] by (auto simp: tasks_ok_def holding_def nth_list_update)
next
  case (finish i pe)
  then show ?case
    using count_update [of i "pe_tasks pe" "\<lambda>t. t = Running" Finished] by (auto simp: tasks_ok_def holding_def nth_list_update)
qed

lemma RunAll_ok: "tasks_ok outcome m n (RunAll m n)"
  by (simp add: tasks_ok_def RunAll_def holding_def)

lemma tasks_run_ok: "(task_step outcome)\<^sup>*\<^sup>* (RunAll m n) pe \<Longrightarrow> tasks_ok outcome m n pe"
  by (induction rule: rtranclp_induct) (auto intro: RunAll_ok task_step_ok)

text \<open>Each task takes two steps.\<close>

definition steps_left :: "'e ParallelExecutor \<Rightarrow> nat" where
  "steps_left pe = (\<Sum>t\<leftarrow>pe_tasks pe. case t of Waiting \<Rightarrow> 2 | Running \<Rightarrow> 1 | Finished \<Rightarrow> 0)"

lemma sum_list_update_less:
  fixes f :: "'a \<Rightarrow> nat"
  shows "i < length xs \<Longrightarrow> f y < f (xs ! i) \<Longrightarrow> (\<Sum>x\<leftarrow>xs[i := y]. f x) < (\<Sum>x\<leftarrow>xs. f x)"
  by (induction xs arbitrary: i) (auto split: nat.split)

lemma task_step_decreases: "task_step outcome pe pe' \<Longrightarrow> steps_left pe' < steps_left pe"
  by (induction rule: task_step.induct) (auto simp: steps_left_def intro!: sum_list_update_less)

text \<open>
  With a positive limit no schedule is longer than two steps per task, a run that cannot go on has finished
  every task, each result is that of its task, and never more tasks run than the limit.
\<close>

lemma relpowp_steps: "(task_step outcome ^^ k) pe pe' \<Longrightarrow> k + steps_left pe' \<le> steps_left pe"
proof (induction k arbitrary: pe')
  case (Suc k)
  then obtain pe1 where "(task_step outcome ^^ k) pe pe1" "task_step outcome pe1 pe'" by auto
  with Suc.IH [of pe1] task_step_decreases [of outcome pe1 pe'] show ?case by simp
qed simp

lemma stuck_waits_for_slots:
  assumes "\<nexists>pe'. task_step outcome pe pe'" "i < length (pe_tasks pe)"
  shows "pe_tasks pe ! i = Finished \<or> pe_tasks pe ! i = Waiting \<and> pe_max pe \<le> holding pe"
proof (cases "pe_tasks pe ! i")
  case Waiting
  with assms acquire [of i pe outcome] have "\<not> holding pe < pe_max pe" by blast
  with Waiting show ?thesis by simp
next
  case Running
  with assms finish [of i pe outcome] show ?thesis by blast
qed simp

text \<open>
  C37.  In every run of the executor with a positive limit there are at most two steps for each task and
  never more running tasks than the limit; and when no step is left, all tasks have finished, their
  results are those of the tasks, and the waiting goroutine returns.
\<close>

theorem all_tasks_run_within_the_limit:
  assumes run: "(task_step outcome ^^ k) (RunAll m n) pe" and m: "0 < m"
  shows "k \<le> 2 * n \<and> holding pe \<le> m \<and>
         ((\<nexists>pe'. task_step outcome pe pe') \<longrightarrow> wait_returns pe \<and> pe_results pe = map (\<lambda>i. Some (outcome i)) [0..<n])"
proof -
  have ok: "tasks_ok outcome m n pe" using run by (intro tasks_run_ok relpowp_imp_rtranclp)
  have "steps_left (RunAll m n :: 'a ParallelExecutor) = 2 * n" by (simp add: steps_left_def RunAll_def sum_list_replicate)
  with relpowp_steps [OF run] have k: "k \<le> 2 * n" by simp
  have "wait_returns pe \<and> pe_results pe = map (\<lambda>i. Some (outcome i)) [0..<n]" if stuck: "\<nexists>pe'. task_step outcome pe pe'"
  proof -
    have no_running: "t \<noteq> Running" if "t \<in> set (pe_tasks pe)" for t
      using stuck_waits_for_slots [OF stuck] that unfolding in_set_conv_nth by (metis task_state.distinct(1,5))
    then have "filter (\<lambda>t. t = Running) (pe_tasks pe) = []" by (auto simp: filter_empty_conv)
    then have "holding pe = 0" by (simp add: holding_def)
    with stuck_waits_for_slots [OF stuck] ok m have fin: "pe_tasks pe ! i = Finished" if "i < n" for i
      using that by (force simp: tasks_ok_def)
    then have "wait_returns pe" using ok by (auto simp: wait_returns_def tasks_ok_def in_set_conv_nth)
    moreover have "pe_results pe = map (\<lambda>i. Some (outcome i)) [0..<n]"
      using ok fin by (intro nth_equalityI) (simp_all add: tasks_ok_def)
    ultimately show ?thesis ..
  qed
  with k ok show ?thesis by (auto simp: tasks_ok_def)
qed

text \<open>With a limit of zero the channel has no place and no receiver: the call never returns.\<close>

theorem a_limit_of_zero_blocks_forever:
  assumes "(task_step outcome)\<^sup>*\<^sup>* (RunAll 0 n) pe" "0 < n"
  shows "pe = RunAll 0 n \<and> \<not> wait_returns pe \<and> (\<nexists>pe'. task_step outcome pe pe')"
proof -
  have stuck: "\<nexists>pe'. task_step outcome (RunAll 0 n) pe'"
    by (auto elim!: task_stepE simp: RunAll_def)
  with assms(1) have "pe = RunAll 0 n" by (metis converse_rtranclpE)
  moreover have "\<not> wait_returns (RunAll 0 n :: 'a ParallelExecutor)" using assms(2) by (simp add: wait_returns_def RunAll_def)
  ultimately show ?thesis using stuck by simp
qed

section \<open>Concrete runs\<close>

lemma percentiles_bound_the_durations_witness:
  "sl_MaxUs (computeStageLatency ''routing'' [30, 10, 20]) = 30"
proof -
  have "sl_MaxUs (computeStageLatency ''routing'' [30, 10, 20]) = Max (set [30, 10, 20])"
    using percentiles_bound_the_durations [of "[30, 10, 20]" "''routing''"] by blast
  then show ?thesis by simp
qed

lemma the_ring_buffer_is_a_queue_witness:
  "\<exists>s. ring_step\<^sup>*\<^sup>* (ring_start (0 :: int) 1) s \<and> sr_pushed s = [7] \<and> length (sr_popped s) \<le> 1"
proof -
  let ?s = "(ring_start (0 :: int) 1)\<lparr>sr_rb := snd (RingPush 7 (NewRingBuffer 0 1)), sr_pushed := [7]\<rparr>"
  have "ring_step\<^sup>*\<^sup>* (ring_start 0 1) ?s"
    using RingPush_run [of "ring_start (0 :: int) 1" 7] by (simp add: ring_start_def RingPush_def NewRingBuffer_def)
  moreover from the_ring_buffer_is_a_queue [OF this] have "length (sr_popped ?s) \<le> length (sr_pushed ?s)" by blast
  ultimately show ?thesis by (intro exI [of _ ?s]) simp
qed

lemma one_task_run:
  "(task_step (\<lambda>i. i) ^^ 2) (RunAll 1 1) \<lparr>pe_max = 1, pe_tasks = [Finished], pe_results = [Some 0]\<rparr>"
proof -
  have "task_step (\<lambda>i. i) (RunAll 1 1) \<lparr>pe_max = 1, pe_tasks = [Running], pe_results = [None]\<rparr>"
    using acquire [of 0 "RunAll 1 1 :: nat ParallelExecutor" "\<lambda>i. i"] by (simp add: RunAll_def holding_def)
  moreover have "task_step (\<lambda>i. i) \<lparr>pe_max = 1, pe_tasks = [Running], pe_results = [None]\<rparr>
      \<lparr>pe_max = 1, pe_tasks = [Finished], pe_results = [Some 0]\<rparr>"
    using finish [of 0 "\<lparr>pe_max = 1, pe_tasks = [Running], pe_results = [None]\<rparr>" "\<lambda>i. i"] by simp
  ultimately show ?thesis by (auto simp: numeral_2_eq_2)
qed

lemma all_tasks_run_within_the_limit_witness:
  "holding (\<lparr>pe_max = 1, pe_tasks = [Finished], pe_results = [Some (0::nat)]\<rparr>) \<le> 1"
  using all_tasks_run_within_the_limit [OF one_task_run] by simp

lemma a_limit_of_zero_blocks_forever_witness:
  "\<not> wait_returns (RunAll 0 1 :: nat ParallelExecutor)"
  using a_limit_of_zero_blocks_forever [of "\<lambda>i. i" 1 "RunAll 0 1"] by simp

end
