(* ===== verification/Defi_Risk.thy ===== *)
theory Defi_Risk
  imports Sliding_Windows
begin

text \<open>
  internal/defirisk/models.go: impermanent loss, pegged assets, oracle feeds and protocol scores.
  The maps that are ranged over (peg targets, feeds, profiles) are association lists.  A ratio of a
  division by zero does not occur: prices, targets and references are positive where a theorem needs it.
\<close>

section \<open>Impermanent loss\<close>

record ILEstimate =
  il_Pool :: string
  il_Token0 :: string
  il_Token1 :: string
  il_EntryPrice :: float64
  il_CurrentPrice :: float64
  il_PriceRatio :: float64
  il_ILPct :: float64
  il_FeesEarnedPct :: float64
  il_NetPnLPct :: float64
  il_HoldValue :: float64
  il_LPValue :: float64
  il_PositionUSD :: float64

definition CalculateIL :: "float64 \<Rightarrow> float64 \<Rightarrow> float64 \<Rightarrow> float64 \<Rightarrow> ILEstimate" where
  "CalculateIL entryPrice currentPrice positionUSD feesEarnedPct =
     (let ratio = currentPrice / entryPrice; ilFactor = 2 * sqrt ratio / (1 + ratio) - 1; ilPct = ilFactor * 100
      in \<lparr>il_Pool = '''', il_Token0 = '''', il_Token1 = '''', il_EntryPrice = entryPrice, il_CurrentPrice = currentPrice,
          il_PriceRatio = ratio, il_ILPct = ilPct, il_FeesEarnedPct = feesEarnedPct, il_NetPnLPct = feesEarnedPct + ilPct,
          il_HoldValue = positionUSD * (1 + (ratio - 1) / 2), il_LPValue = positionUSD * (1 + ilFactor), il_PositionUSD = positionUSD\<rparr>)"

text \<open>The value of a position in a pool of constant product, of which half was put in each token.\<close>

definition pool_value :: "float64 \<Rightarrow> float64 \<Rightarrow> float64" where
  "pool_value positionUSD ratio = positionUSD * sqrt ratio"

lemma sqrt_le_mean:
  fixes r :: real
  assumes "0 \<le> r"
  shows "2 * sqrt r \<le> 1 + r"
proof -
  have "0 \<le> (sqrt r - 1)\<^sup>2" by simp
  also have "(sqrt r - 1)\<^sup>2 = r - 2 * sqrt r + 1" using assms by (simp add: power2_diff)
  finally show ?thesis by simp
qed

lemma sqrt_swap:
  fixes r :: real
  assumes "0 < r"
  shows "sqrt r * (1 + 1 / r) = sqrt (1 / r) * (1 + r)"
proof -
  have s: "0 < sqrt r" "r = sqrt r * sqrt r" using assms by simp_all
  have "sqrt (1 / r) = 1 / sqrt r" using real_sqrt_divide [of 1 r] by simp
  moreover have "x * (1 + 1 / (x * x)) = 1 / x * (1 + x * x)" if "0 < x" for x :: real
    using that by (simp add: field_simps)
  ultimately show ?thesis using s by metis
qed

theorem impermanent_loss_is_a_loss:
  assumes "0 < entry" "0 < current"
  shows "- 100 < il_ILPct (CalculateIL entry current p fees) \<and> il_ILPct (CalculateIL entry current p fees) \<le> 0 \<and>
         (il_ILPct (CalculateIL entry current p fees) = 0 \<longleftrightarrow> current = entry) \<and>
         il_ILPct (CalculateIL entry current p fees) = il_ILPct (CalculateIL current entry p fees)"
proof -
  let ?r = "current / entry"
  have r: "0 < ?r" using assms by simp
  have pct: "il_ILPct (CalculateIL e c p fees) = (2 * sqrt (c / e) / (1 + c / e) - 1) * 100" for e c
    by (simp add: CalculateIL_def Let_def)
  have "2 * sqrt ?r / (1 + ?r) \<le> 1" using sqrt_le_mean [of ?r] r by (simp add: divide_le_eq del: times_divide_eq_left)
  moreover have "0 < 2 * sqrt ?r / (1 + ?r)" using r by (intro divide_pos_pos) auto
  moreover have "2 * sqrt ?r / (1 + ?r) = 1 \<longleftrightarrow> current = entry"
  proof
    assume "2 * sqrt ?r / (1 + ?r) = 1"
    then have "2 * sqrt ?r = 1 + ?r" using r by (simp add: divide_eq_eq del: times_divide_eq_left split: if_splits)
    then have "(sqrt ?r - 1)\<^sup>2 = 0" using r by (simp add: power2_diff del: real_sqrt_divide)
    then have "sqrt ?r = 1" by simp
    then show "current = entry" using assms by simp
  qed (use assms in simp)
  moreover have "2 * sqrt ?r / (1 + ?r) = 2 * sqrt (entry / current) / (1 + entry / current)"
  proof -
    have "sqrt ?r * (1 + entry / current) = sqrt (entry / current) * (1 + ?r)"
    proof -
      have i: "entry / current = 1 / ?r" using assms by simp
      show ?thesis unfolding i by (rule sqrt_swap [OF r])
    qed
    moreover have "0 < 1 + ?r" "0 < 1 + entry / current" using assms by (simp_all add: add_pos_pos)
    ultimately show ?thesis by (simp add: frac_eq_eq del: real_sqrt_divide times_divide_eq_left times_divide_eq_right)
  qed
  moreover have "- 100 < (x - 1) * 100 \<longleftrightarrow> 0 < x" "(x - 1) * 100 \<le> 0 \<longleftrightarrow> x \<le> 1" "(x - 1) * 100 = 0 \<longleftrightarrow> x = 1" for x :: real by auto
  ultimately show ?thesis unfolding pct by metis
qed

text \<open>The loss is relative to holding, but it is taken from the initial value: after a rise the value of the position is understated.\<close>

theorem the_value_of_the_position_is_understated:
  assumes "0 < entry" "entry < current" "0 < p"
  shows "il_LPValue (CalculateIL entry current p fees) < p \<and> p < pool_value p (current / entry) \<and>
         il_HoldValue (CalculateIL entry current p fees) * (1 + il_ILPct (CalculateIL entry current p fees) / 100) = pool_value p (current / entry)"
proof -
  let ?r = "current / entry"
  have r: "1 < ?r" using assms(1,2) by simp
  then have "1 < sqrt ?r" by (simp del: real_sqrt_divide)
  then have "p < pool_value p ?r" using assms(3) by (simp add: pool_value_def del: real_sqrt_divide)
  moreover have il: "2 * sqrt ?r / (1 + ?r) < 1"
    using impermanent_loss_is_a_loss [of entry current p fees] assms by (auto simp: CalculateIL_def Let_def)
  moreover have "il_LPValue (CalculateIL entry current p fees) = p * (2 * sqrt ?r / (1 + ?r))"
    by (simp add: CalculateIL_def Let_def)
  moreover have "p * (2 * sqrt ?r / (1 + ?r)) < p * 1" using il assms(3) by (rule mult_strict_left_mono)
  moreover have "il_HoldValue (CalculateIL entry current p fees) * (1 + il_ILPct (CalculateIL entry current p fees) / 100) =
      p * ((1 + ?r) / 2) * (2 * sqrt ?r / (1 + ?r))"
  proof -
    have half: "1 + (x - 1) / 2 = (1 + x) / 2" and pct: "1 + (x - 1) * 100 / 100 = x" for x :: real by (simp_all add: field_simps)
    show ?thesis by (simp only: CalculateIL_def Let_def ILEstimate.select_convs half pct)
  qed
  moreover have "p * ((1 + ?r) / 2) * (2 * sqrt ?r / (1 + ?r)) = pool_value p ?r"
    using r by (simp add: pool_value_def del: real_sqrt_divide)
  ultimately show ?thesis by simp
qed

section \<open>Pegged assets\<close>

record priceObs =
  pb_price :: float64
  pb_tsMs :: int64

record DepegAlert =
  da_Asset :: string
  da_PegTarget :: float64
  da_CurrentPrice :: float64
  da_DeviationBps :: float64
  da_Duration :: int64
  da_Severity :: string
  da_TsMs :: int64

record DepegDetector =
  dp_prices :: "string \<Rightarrow> priceObs list"
  dp_threshBps :: float64
  dp_windowMs :: int64
  dp_maxSamples :: nat

definition NewDepegDetector :: "float64 \<Rightarrow> int64 \<Rightarrow> DepegDetector" where
  "NewDepegDetector threshBps windowMs = \<lparr>dp_prices = (\<lambda>_. []), dp_threshBps = threshBps, dp_windowMs = windowMs, dp_maxSamples = 10000\<rparr>"

definition DepegRecordPrice :: "string \<Rightarrow> float64 \<Rightarrow> int64 \<Rightarrow> DepegDetector \<Rightarrow> DepegDetector" where
  "DepegRecordPrice asset price ts d =
     d\<lparr>dp_prices := (dp_prices d)(asset := keep_last (dp_maxSamples d) (dp_prices d asset @ [\<lparr>pb_price = price, pb_tsMs = ts\<rparr>]))\<rparr>"

definition peg_dev :: "float64 \<Rightarrow> priceObs \<Rightarrow> float64" where
  "peg_dev target ob = \<bar>pb_price ob - target\<bar> / target * 10000"

text \<open>The loop from the last but one observation backwards.\<close>

fun depeg_start :: "int64 \<Rightarrow> float64 \<Rightarrow> float64 \<Rightarrow> int64 \<Rightarrow> priceObs list \<Rightarrow> int64" where
  "depeg_start cutoff thresh target start [] = start"
| "depeg_start cutoff thresh target start (ob # obs) =
     (if pb_tsMs ob < cutoff then start
      else if peg_dev target ob < thresh then start
      else depeg_start cutoff thresh target (pb_tsMs ob) obs)"

definition depeg_alert :: "DepegDetector \<Rightarrow> int64 \<Rightarrow> string \<times> float64 \<Rightarrow> DepegAlert list" where
  "depeg_alert d now peg =
     (case peg of (asset, target) \<Rightarrow>
        let obs = dp_prices d asset in
        if obs = [] then []
        else
          (let latest = last obs; dev = peg_dev target latest;
               start = depeg_start (now - dp_windowMs d) (dp_threshBps d) target (pb_tsMs latest) (rev (butlast obs));
               severity = (if dp_threshBps d * 3 \<le> dev \<or> pb_tsMs latest - start > 300000 then ''CRITICAL'' else ''WARNING'')
           in if dp_threshBps d \<le> dev
              then [\<lparr>da_Asset = asset, da_PegTarget = target, da_CurrentPrice = pb_price latest, da_DeviationBps = dev,
                     da_Duration = pb_tsMs latest - start, da_Severity = severity, da_TsMs = now\<rparr>]
              else []))"

definition DepegCheck :: "int64 \<Rightarrow> (string \<times> float64) list \<Rightarrow> DepegDetector \<Rightarrow> DepegAlert list" where
  "DepegCheck now pegTargets d = concat (map (depeg_alert d now) pegTargets)"

lemma depeg_start_run:
  "\<exists>run rest. obs = run @ rest \<and> depeg_start cutoff thresh target start obs = pb_tsMs (last (\<lparr>pb_price = 0, pb_tsMs = start\<rparr> # run)) \<and>
     (\<forall>ob\<in>set run. cutoff \<le> pb_tsMs ob \<and> thresh \<le> peg_dev target ob) \<and>
     (rest \<noteq> [] \<longrightarrow> pb_tsMs (hd rest) < cutoff \<or> peg_dev target (hd rest) < thresh)"
proof (induction obs arbitrary: start)
  case Nil
  show ?case by simp
next
  case (Cons ob obs)
  show ?case
  proof (cases "pb_tsMs ob < cutoff \<or> peg_dev target ob < thresh")
    case True
    then show ?thesis by (intro exI [of _ "[]"] exI [of _ "ob # obs"]) auto
  next
    case False
    from Cons.IH [of "pb_tsMs ob"] obtain run rest where IH: "obs = run @ rest"
      "depeg_start cutoff thresh target (pb_tsMs ob) obs = pb_tsMs (last (\<lparr>pb_price = 0, pb_tsMs = pb_tsMs ob\<rparr> # run))"
      "\<forall>ob\<in>set run. cutoff \<le> pb_tsMs ob \<and> thresh \<le> peg_dev target ob"
      "rest \<noteq> [] \<longrightarrow> pb_tsMs (hd rest) < cutoff \<or> peg_dev target (hd rest) < thresh" by blast
    with False show ?thesis by (intro exI [of _ "ob # run"] exI [of _ rest]) auto
  qed
qed

text \<open>
  An alert says how long the price has been off its peg: its duration is that of the longest final run
  of observations that are all off the peg and, but for the latest, inside the window.
\<close>

theorem depeg_alerts_measure_the_current_run:
  assumes "a \<in> set (DepegCheck now pegTargets d)"
  shows "\<exists>target before run latest. (da_Asset a, target) \<in> set pegTargets \<and> dp_prices d (da_Asset a) = before @ run @ [latest] \<and>
           (\<forall>ob\<in>set (run @ [latest]). dp_threshBps d \<le> peg_dev target ob) \<and> (\<forall>ob\<in>set run. now - dp_windowMs d \<le> pb_tsMs ob) \<and>
           (before \<noteq> [] \<longrightarrow> pb_tsMs (last before) < now - dp_windowMs d \<or> peg_dev target (last before) < dp_threshBps d) \<and>
           da_Duration a = pb_tsMs latest - pb_tsMs (hd (run @ [latest])) \<and>
           (da_Severity a = ''CRITICAL'' \<longleftrightarrow> dp_threshBps d * 3 \<le> peg_dev target latest \<or> 300000 < da_Duration a)"
proof -
  from assms obtain asset target where peg: "(asset, target) \<in> set pegTargets" "a \<in> set (depeg_alert d now (asset, target))"
    by (auto simp: DepegCheck_def)
  let ?obs = "dp_prices d asset"
  have ne: "?obs \<noteq> []" using peg(2) by (auto simp: depeg_alert_def)
  let ?start = "depeg_start (now - dp_windowMs d) (dp_threshBps d) target (pb_tsMs (last ?obs)) (rev (butlast ?obs))"
  have dev: "dp_threshBps d \<le> peg_dev target (last ?obs)" using peg(2) ne by (auto simp: depeg_alert_def Let_def split: if_splits)
  have a: "da_Asset a = asset" "da_Duration a = pb_tsMs (last ?obs) - ?start"
      "da_Severity a = ''CRITICAL'' \<longleftrightarrow> dp_threshBps d * 3 \<le> peg_dev target (last ?obs) \<or> 300000 < da_Duration a"
    using peg(2) ne by (auto simp: depeg_alert_def Let_def split: if_splits)
  obtain run rest where r: "rev (butlast ?obs) = run @ rest"
    "?start = pb_tsMs (last (\<lparr>pb_price = 0, pb_tsMs = pb_tsMs (last ?obs)\<rparr> # run))"
    "\<forall>ob\<in>set run. now - dp_windowMs d \<le> pb_tsMs ob \<and> dp_threshBps d \<le> peg_dev target ob"
    "rest \<noteq> [] \<longrightarrow> pb_tsMs (hd rest) < now - dp_windowMs d \<or> peg_dev target (hd rest) < dp_threshBps d"
    using depeg_start_run by metis
  have "butlast ?obs = rev rest @ rev run" using r(1) by (metis rev_append rev_rev_ident)
  then have "?obs = rev rest @ rev run @ [last ?obs]" using ne by (metis append.assoc append_butlast_last_id)
  moreover have "?start = pb_tsMs (hd (rev run @ [last ?obs]))"
    unfolding r(2) by (cases "run" rule: rev_cases) simp_all
  moreover have "rev rest \<noteq> [] \<longrightarrow> pb_tsMs (last (rev rest)) < now - dp_windowMs d \<or> peg_dev target (last (rev rest)) < dp_threshBps d"
    using r(4) by (simp add: last_rev)
  ultimately show ?thesis
    using peg(1) a dev r(3)
    by (intro exI [of _ target] exI [of _ "rev rest"] exI [of _ "rev run"] exI [of _ "last ?obs"]) auto
qed

section \<open>Oracle feeds\<close>

record oracleObs =
  ob_price :: float64
  ob_tsMs :: int64
  ob_source :: string

record OracleAlert =
  oa_FeedID :: string
  oa_Type :: string
  oa_Details :: string
  oa_Severity :: string
  oa_TsMs :: int64

record OracleChecker =
  oc_feeds :: "(string \<times> oracleObs list) list"
  oc_maxDevBps :: float64
  oc_maxStaleSec :: int64
  oc_maxSamples :: nat

definition NewOracleChecker :: "float64 \<Rightarrow> int64 \<Rightarrow> OracleChecker" where
  "NewOracleChecker maxDevBps maxStaleSec = \<lparr>oc_feeds = [], oc_maxDevBps = maxDevBps, oc_maxStaleSec = maxStaleSec, oc_maxSamples = 5000\<rparr>"

definition RecordOraclePrice :: "string \<Rightarrow> string \<Rightarrow> float64 \<Rightarrow> int64 \<Rightarrow> OracleChecker \<Rightarrow> OracleChecker" where
  "RecordOraclePrice feedID source price ts oc =
     (let old = (case map_of (oc_feeds oc) feedID of None \<Rightarrow> [] | Some obs \<Rightarrow> obs)
      in oc\<lparr>oc_feeds := AList.update feedID (keep_last (oc_maxSamples oc) (old @ [\<lparr>ob_price = price, ob_tsMs = ts, ob_source = source\<rparr>])) (oc_feeds oc)\<rparr>)"

definition oracle_alert :: "int64 \<Rightarrow> string \<Rightarrow> string \<Rightarrow> string \<Rightarrow> string \<Rightarrow> OracleAlert" where
  "oracle_alert now feedID kind details severity =
     \<lparr>oa_FeedID = feedID, oa_Type = kind, oa_Details = details, oa_Severity = severity, oa_TsMs = now\<rparr>"

text \<open>Whether the last ten prices are the same.\<close>

definition flatline :: "oracleObs list \<Rightarrow> bool" where
  "flatline obs \<longleftrightarrow> 10 \<le> length obs \<and> (\<forall>i\<in>{length obs - 10..<length obs}. ob_price (obs ! i) = ob_price (obs ! (length obs - 1)))"

definition feed_alerts :: "OracleChecker \<Rightarrow> int64 \<Rightarrow> (string \<rightharpoonup> float64) \<Rightarrow> string \<times> oracleObs list \<Rightarrow> OracleAlert list" where
  "feed_alerts oc now refPrices f =
     (case f of (feedID, obs) \<Rightarrow>
        if obs = [] then []
        else
          (let latest = last obs in
           (if oc_maxStaleSec oc < go_div (now - ob_tsMs latest) 1000
            then [oracle_alert now feedID ''STALE'' ''oracle feed stale'' ''WARNING''] else [])
           @ (case refPrices feedID of
                None \<Rightarrow> []
              | Some ref \<Rightarrow>
                  (if oc_maxDevBps oc < \<bar>ob_price latest - ref\<bar> / ref * 10000
                   then [oracle_alert now feedID ''DEVIATION'' ''oracle deviates from reference'' ''CRITICAL''] else []))
           @ (if flatline obs
              then [oracle_alert now feedID ''FLATLINE'' ''oracle price unchanged for 10+ observations'' ''WARNING''] else [])))"

definition ValidateOracles :: "int64 \<Rightarrow> (string \<rightharpoonup> float64) \<Rightarrow> OracleChecker \<Rightarrow> OracleAlert list" where
  "ValidateOracles now refPrices oc = concat (map (feed_alerts oc now refPrices) (oc_feeds oc))"

text \<open>A feed is reported flat exactly when it ends with ten equal prices.\<close>

lemma feed_alert_kinds:
  assumes "obs \<noteq> []"
  shows "(\<exists>a\<in>set (feed_alerts oc now refs (k, obs)). oa_Type a = t) \<longleftrightarrow>
      t = ''STALE'' \<and> oc_maxStaleSec oc < go_div (now - ob_tsMs (last obs)) 1000 \<or>
      t = ''DEVIATION'' \<and> (\<exists>ref. refs k = Some ref \<and> oc_maxDevBps oc < \<bar>ob_price (last obs) - ref\<bar> / ref * 10000) \<or>
      t = ''FLATLINE'' \<and> flatline obs"
  using assms by (cases "refs k") (auto simp: feed_alerts_def oracle_alert_def Let_def)

lemma flatline_iff: "flatline obs \<longleftrightarrow> (\<exists>before x tail. obs = before @ tail \<and> length tail = 10 \<and> (\<forall>ob\<in>set tail. ob_price ob = x))"
proof
  let ?n = "length obs - 10"
  assume f: "flatline obs"
  then have len: "10 \<le> length obs" and same: "ob_price (obs ! i) = ob_price (obs ! (length obs - 1))" if "i \<in> {?n..<length obs}" for i
    using that unfolding flatline_def by blast+
  have "\<forall>ob\<in>set (drop ?n obs). ob_price ob = ob_price (obs ! (length obs - 1))"
  proof
    fix ob assume "ob \<in> set (drop ?n obs)"
    then obtain m where "m < length (drop ?n obs)" "drop ?n obs ! m = ob" by (meson in_set_conv_nth)
    then have m: "?n + m \<in> {?n..<length obs}" "ob = obs ! (?n + m)" by auto
    show "ob_price ob = ob_price (obs ! (length obs - 1))" unfolding m(2) by (rule same [OF m(1)])
  qed
  moreover have "length (drop ?n obs) = 10" using f unfolding flatline_def by (simp only: length_drop) linarith
  moreover have "obs = take ?n obs @ drop ?n obs" by simp
  ultimately show "\<exists>before x tail. obs = before @ tail \<and> length tail = 10 \<and> (\<forall>ob\<in>set tail. ob_price ob = x)"
    by blast
next
  assume "\<exists>before x tail. obs = before @ tail \<and> length tail = 10 \<and> (\<forall>ob\<in>set tail. ob_price ob = x)"
  then obtain before x tail where o: "obs = before @ tail" "length tail = 10" "\<forall>ob\<in>set tail. ob_price ob = x" by blast
  have "ob_price (obs ! i) = x" if "length obs - 10 \<le> i" "i < length obs" for i
    using that o by (simp add: nth_append)
  moreover have "length obs = length before + 10" using o by simp
  ultimately show "flatline obs" unfolding flatline_def by simp
qed

definition feeds_ok :: "OracleChecker \<Rightarrow> bool" where
  "feeds_ok oc \<longleftrightarrow> distinct (map fst (oc_feeds oc)) \<and> (\<forall>(k, obs)\<in>set (oc_feeds oc). obs \<noteq> [] \<and> length obs \<le> oc_maxSamples oc) \<and> 0 < oc_maxSamples oc"

definition oracle_step :: "OracleChecker \<Rightarrow> string \<times> string \<times> float64 \<times> int64 \<Rightarrow> OracleChecker" where
  "oracle_step oc x = (case x of (feedID, source, price, ts) \<Rightarrow> RecordOraclePrice feedID source price ts oc)"

interpretation oracle_feeds: invariant_machine oracle_step "\<lambda>_. True" feeds_ok
proof unfold_locales
  fix oc and x :: "string \<times> string \<times> float64 \<times> int64" assume ok: "feeds_ok oc"
  obtain k src price ts where x: "x = (k, src, price, ts)" by (cases x)
  have "keep_last (oc_maxSamples oc) (old @ [ob]) \<noteq> []" for old and ob :: oracleObs
    using ok by (simp add: feeds_ok_def keep_last_def)
  with ok show "feeds_ok (oracle_step oc x)"
    by (auto simp: oracle_step_def x RecordOraclePrice_def feeds_ok_def Let_def distinct_update dest!: alist_update_set)
qed

text \<open>An alert of each kind is raised for a feed exactly when the feed has that fault.\<close>

theorem oracle_alerts_are_exact:
  assumes oc: "oc = foldl oracle_step (NewOracleChecker maxDev maxStale) xs" and feed: "(k, obs) \<in> set (oc_feeds oc)"
  shows "length obs \<le> 5000 \<and>
         (\<exists>a\<in>set (ValidateOracles now refs oc). oa_FeedID a = k \<and> oa_Type a = ''STALE'') =
           (oc_maxStaleSec oc < go_div (now - ob_tsMs (last obs)) 1000) \<and>
         (\<exists>a\<in>set (ValidateOracles now refs oc). oa_FeedID a = k \<and> oa_Type a = ''DEVIATION'') =
           (\<exists>ref. refs k = Some ref \<and> oc_maxDevBps oc < \<bar>ob_price (last obs) - ref\<bar> / ref * 10000) \<and>
         (\<exists>a\<in>set (ValidateOracles now refs oc). oa_FeedID a = k \<and> oa_Type a = ''FLATLINE'') =
           (\<exists>before x tail. obs = before @ tail \<and> length tail = 10 \<and> (\<forall>ob\<in>set tail. ob_price ob = x))"
proof -
  have ok: "feeds_ok oc" unfolding oc by (rule oracle_feeds.run_inv) (simp_all add: feeds_ok_def NewOracleChecker_def)
  have ne: "obs \<noteq> []" "length obs \<le> oc_maxSamples oc" using ok feed by (auto simp: feeds_ok_def)
  have cap: "oc_maxSamples oc = 5000"
  proof -
    have "oc_maxSamples (foldl oracle_step s xs) = oc_maxSamples s" for s
      by (induction xs arbitrary: s) (auto simp: oracle_step_def RecordOraclePrice_def Let_def split: prod.splits)
    then show ?thesis by (simp add: oc NewOracleChecker_def)
  qed
  have only: "a \<in> set (ValidateOracles now refs oc) \<and> oa_FeedID a = k \<longleftrightarrow> a \<in> set (feed_alerts oc now refs (k, obs))" for a
  proof
    assume a: "a \<in> set (ValidateOracles now refs oc) \<and> oa_FeedID a = k"
    then obtain k' obs' where f: "(k', obs') \<in> set (oc_feeds oc)" "a \<in> set (feed_alerts oc now refs (k', obs'))"
      by (auto simp: ValidateOracles_def)
    then have "oa_FeedID a = k'" by (auto simp: feed_alerts_def oracle_alert_def Let_def split: if_splits option.splits)
    with a f feed ok show "a \<in> set (feed_alerts oc now refs (k, obs))"
      by (metis eq_key_imp_eq_value feeds_ok_def)
  next
    assume a: "a \<in> set (feed_alerts oc now refs (k, obs))"
    then have "oa_FeedID a = k" by (auto simp: feed_alerts_def oracle_alert_def Let_def split: if_splits option.splits)
    with a feed show "a \<in> set (ValidateOracles now refs oc) \<and> oa_FeedID a = k" by (force simp: ValidateOracles_def)
  qed
  have kinds: "(\<exists>a\<in>set (ValidateOracles now refs oc). oa_FeedID a = k \<and> oa_Type a = t) \<longleftrightarrow> (\<exists>a\<in>set (feed_alerts oc now refs (k, obs)). oa_Type a = t)" for t
    using only by blast
  show ?thesis
    unfolding kinds flatline_iff [symmetric] feed_alert_kinds [OF ne(1)] using ne cap by simp
qed

section \<open>Protocol scores\<close>

record ProtocolProfile =
  pp_Protocol :: string
  pp_AuditCount :: int
  pp_TVLMillions :: float64
  pp_AgeMonths :: int
  pp_IncidentCount :: int
  pp_IsUpgradeable :: bool
  pp_HasTimelock :: bool
  pp_ChainCount :: int
  pp_RiskScore :: float64

definition computeScore :: "ProtocolProfile \<Rightarrow> float64" where
  "computeScore p =
     (let score = 50 - min (real_of_int (pp_AuditCount p) * 5) 20;
          score = (if pp_TVLMillions p > 1000 then score - 15 else if pp_TVLMillions p > 100 then score - 10
                   else if pp_TVLMillions p > 10 then score - 5 else score);
          score = (if pp_AgeMonths p > 24 then score - 10 else if pp_AgeMonths p > 12 then score - 5 else score);
          score = score + real_of_int (pp_IncidentCount p) * 10;
          score = (if pp_IsUpgradeable p \<and> \<not> pp_HasTimelock p then score + 15 else if pp_IsUpgradeable p then score + 5 else score)
      in max 0 (min 100 score))"

definition SetProfile :: "ProtocolProfile \<Rightarrow> (string \<times> ProtocolProfile) list \<Rightarrow> (string \<times> ProtocolProfile) list" where
  "SetProfile p profiles = AList.update (pp_Protocol p) (p\<lparr>pp_RiskScore := computeScore p\<rparr>) profiles"

definition ProtocolScore :: "string \<Rightarrow> (string \<times> ProtocolProfile) list \<Rightarrow> float64" where
  "ProtocolScore protocol profiles = (case map_of profiles protocol of Some p \<Rightarrow> pp_RiskScore p | None \<Rightarrow> 100)"

definition RankedProtocols :: "(ProtocolProfile list \<Rightarrow> ProtocolProfile list) \<Rightarrow> (string \<times> ProtocolProfile) list \<Rightarrow> ProtocolProfile list" where
  "RankedProtocols by_score profiles = by_score (map snd profiles)"

text \<open>More audits, more value, more age and fewer incidents never make a score worse.\<close>

definition safer_profile :: "ProtocolProfile \<Rightarrow> ProtocolProfile \<Rightarrow> bool" where
  "safer_profile p q \<longleftrightarrow>
     pp_AuditCount q \<le> pp_AuditCount p \<and> pp_TVLMillions q \<le> pp_TVLMillions p \<and> pp_AgeMonths q \<le> pp_AgeMonths p \<and>
     pp_IncidentCount p \<le> pp_IncidentCount q \<and> (pp_IsUpgradeable p \<longrightarrow> pp_IsUpgradeable q) \<and>
     (pp_IsUpgradeable p \<and> pp_HasTimelock q \<longrightarrow> pp_HasTimelock p)"

lemma clamp_range: "0 \<le> max 0 (min 100 x) \<and> max 0 (min 100 x) \<le> 100" for x :: real
  by simp

lemma computeScore_range: "0 \<le> computeScore p \<and> computeScore p \<le> 100"
  unfolding computeScore_def Let_def by (rule clamp_range)

lemma score_steps:
  "(if c then s - 15 else if d then s - 10 else if e then s - 5 else s) = s - (if c then 15 else if d then 10 else if e then 5 else 0)"
  "(if c then s - 10 else if d then s - 5 else s) = s - (if c then 10 else if d then 5 else 0)"
  "(if c then s + 15 else if d then s + 5 else s) = s + (if c then 15 else if d then 5 else 0)"
  for s :: real
  by simp_all

lemma clamp_mono: "x \<le> y \<Longrightarrow> max 0 (min 100 x) \<le> max 0 (min 100 y)" for x :: real
  by auto

lemma score_mono:
  fixes a :: real
  assumes "a' \<le> a" "t' \<le> t" "g' \<le> g" "i \<le> i'" "u \<le> u'"
  shows "max 0 (min 100 (50 - a - t - g + i + u)) \<le> max 0 (min 100 (50 - a' - t' - g' + i' + u'))"
  by (rule clamp_mono) (use assms in linarith)

lemma computeScore_mono:
  assumes "safer_profile p q"
  shows "computeScore p \<le> computeScore q"
  unfolding computeScore_def Let_def score_steps(1) unfolding score_steps(2,3)
  using assms unfolding safer_profile_def by (intro score_mono) (auto simp: min_le_iff_disj)

theorem safer_profiles_score_better:
  assumes "safer_profile p q" "map_of (foldl (\<lambda>m p. SetProfile p m) [] ps) a = Some p'" "p' = p\<lparr>pp_RiskScore := computeScore p\<rparr>"
    and "map_of (foldl (\<lambda>m p. SetProfile p m) [] ps) b = Some q'" "q' = q\<lparr>pp_RiskScore := computeScore q\<rparr>"
  shows "0 \<le> ProtocolScore a (foldl (\<lambda>m p. SetProfile p m) [] ps) \<and>
         ProtocolScore a (foldl (\<lambda>m p. SetProfile p m) [] ps) \<le> ProtocolScore b (foldl (\<lambda>m p. SetProfile p m) [] ps) \<and>
         ProtocolScore b (foldl (\<lambda>m p. SetProfile p m) [] ps) \<le> 100"
proof -
  note computeScore_mono [OF assms(1)]
  with assms(2-) computeScore_range [of p] computeScore_range [of q] show ?thesis by (simp add: ProtocolScore_def)
qed

section \<open>Concrete inputs\<close>

text \<open>A price that quadruples: four fifths of the value of holding is left, but the estimate says four fifths of the initial value.\<close>

lemma the_value_of_the_position_is_understated_witness:
  "il_LPValue (CalculateIL 100 400 1000 0) = 800 \<and> pool_value 1000 4 = 2000 \<and>
   il_LPValue (CalculateIL 100 400 1000 0) < pool_value 1000 (400 / 100)"
proof -
  have "sqrt 4 = (2 :: real)" using real_sqrt_abs [of 2] by simp
  then show ?thesis
    using the_value_of_the_position_is_understated [of 100 400 1000 0] by (simp add: CalculateIL_def pool_value_def Let_def)
qed

definition ex_depeg :: DepegDetector where
  "ex_depeg = foldl (\<lambda>d (p, ts). DepegRecordPrice ''USDT'' p ts d) (NewDepegDetector 50 600000)
     [(1, 0), (99 / 100, 10000), (98 / 100, 20000)]"

lemma depeg_alerts_measure_the_current_run_witness:
  "\<exists>a. DepegCheck 30000 [(''USDT'', 1), (''DAI'', 1)] ex_depeg = [a] \<and> da_Duration a = 10000 \<and> da_Severity a = ''CRITICAL'' \<and>
     (\<exists>target before run latest. dp_prices ex_depeg (da_Asset a) = before @ run @ [latest] \<and>
        da_Duration a = pb_tsMs latest - pb_tsMs (hd (run @ [latest])) \<and>
        (\<forall>ob\<in>set (run @ [latest]). dp_threshBps ex_depeg \<le> peg_dev target ob))"
proof -
  let ?a = "\<lparr>da_Asset = ''USDT'', da_PegTarget = 1, da_CurrentPrice = 98 / 100, da_DeviationBps = 200,
             da_Duration = 10000, da_Severity = ''CRITICAL'', da_TsMs = 30000\<rparr>"
  have "DepegCheck 30000 [(''USDT'', 1), (''DAI'', 1)] ex_depeg = [?a]"
    by (simp add: DepegCheck_def depeg_alert_def ex_depeg_def DepegRecordPrice_def NewDepegDetector_def keep_last_def peg_dev_def Let_def)
  moreover from this have "?a \<in> set (DepegCheck 30000 [(''USDT'', 1), (''DAI'', 1)] ex_depeg)" by simp
  from depeg_alerts_measure_the_current_run [OF this]
  have "\<exists>target before run latest. dp_prices ex_depeg (da_Asset ?a) = before @ run @ [latest] \<and>
      da_Duration ?a = pb_tsMs latest - pb_tsMs (hd (run @ [latest])) \<and>
      (\<forall>ob\<in>set (run @ [latest]). dp_threshBps ex_depeg \<le> peg_dev target ob)" by blast
  moreover have "da_Duration ?a = 10000" "da_Severity ?a = ''CRITICAL''" by simp_all
  ultimately show ?thesis by blast
qed

definition ex_oracle_events :: "(string \<times> string \<times> float64 \<times> int64) list" where
  "ex_oracle_events = map (\<lambda>i. (''ETH/USD'', ''chainlink'', 2000, i)) [1..10]"

lemma oracle_alerts_are_exact_witness:
  "\<exists>a\<in>set (ValidateOracles 5000 (\<lambda>_. None) (foldl oracle_step (NewOracleChecker 100 60) ex_oracle_events)).
     oa_FeedID a = ''ETH/USD'' \<and> oa_Type a = ''FLATLINE''"
proof -
  have "upto 1 10 = [1, 2, 3, 4, 5, 6, 7, 8, 9, 10 :: int]" by (simp add: upto_rec1)
  then have feed: "(''ETH/USD'', map (\<lambda>i. \<lparr>ob_price = 2000, ob_tsMs = i, ob_source = ''chainlink''\<rparr>) [1..10])
      \<in> set (oc_feeds (foldl oracle_step (NewOracleChecker 100 60) ex_oracle_events))"
    by (simp add: ex_oracle_events_def oracle_step_def RecordOraclePrice_def NewOracleChecker_def keep_last_def Let_def)
  have "\<exists>before x tail. map (\<lambda>i. \<lparr>ob_price = 2000, ob_tsMs = i, ob_source = ''chainlink''\<rparr>) [1..10] = before @ tail \<and>
      length tail = 10 \<and> (\<forall>ob\<in>set tail. ob_price ob = x)"
    by (rule exI [of _ "[]"], rule exI [of _ 2000]) auto
  then show ?thesis
    using oracle_alerts_are_exact [OF refl feed, of 5000 "\<lambda>_. None"] by blast
qed

end
