(* ===== verification/Bridges.thy ===== *)
theory Bridges
  imports Arb_Strategies Sliding_Windows
begin

text \<open>
  internal/l2, internal/transfer/bridgearb.go and internal/bridge/monitor.go: the choice of a
  layer-two network, the arbitrage between the networks, and the monitor of transfers over bridges.
  A set that is ranged over (symbols, transfers) is a list in the order of the range.
\<close>

section \<open>Networks\<close>

type_synonym Network = string

abbreviation NetworkArbitrum :: Network where "NetworkArbitrum \<equiv> ''arbitrum''"
abbreviation NetworkOptimism :: Network where "NetworkOptimism \<equiv> ''optimism''"
abbreviation NetworkBase :: Network where "NetworkBase \<equiv> ''base''"

definition ChainIDs :: "Network \<rightharpoonup> int" where
  "ChainIDs = [NetworkArbitrum \<mapsto> 42161, NetworkOptimism \<mapsto> 10, NetworkBase \<mapsto> 8453]"

record BridgeRequest =
  br_Network :: Network
  br_FromAddress :: string
  br_ToAddress :: string
  br_TokenSymbol :: string
  br_AmountWei :: string
  br_MaxGasWei :: string

record BridgeEstimate =
  be_Network :: Network
  be_L1GasCostWei :: string
  be_L2GasCostWei :: string
  be_TotalCostUSD :: float64
  be_EstSettlementMs :: int64

record L2Config =
  l2_Enabled :: bool
  l2_PreferNetwork :: Network
  l2_MaxGasGwei :: float64
  l2_MinSavingsUSD :: float64

definition networkParams :: "Network \<rightharpoonup> string \<times> string \<times> int64 \<times> float64" where
  "networkParams = [NetworkArbitrum \<mapsto> (''21000'', ''800000'', 10 * 60 * 1000, 0.30),
                    NetworkOptimism \<mapsto> (''21000'', ''1000000'', 30 * 60 * 1000, 0.45),
                    NetworkBase \<mapsto> (''21000'', ''700000'', 5 * 60 * 1000, 0.25)]"

definition L2Estimate :: "L2Config \<Rightarrow> BridgeRequest \<Rightarrow> gotext + BridgeEstimate" where
  "L2Estimate cfg req =
     (if \<not> l2_Enabled cfg then Inl (Txt ''l2 transfers disabled'')
      else case ChainIDs (br_Network req) of
          None \<Rightarrow> Inl (Sprintf ''unsupported network: %s'' [AStr (br_Network req)])
        | Some _ \<Rightarrow>
            (case networkParams (br_Network req) of
               None \<Rightarrow> Inl (Sprintf ''no params for network %s'' [AStr (br_Network req)])
             | Some (l1Gas, l2Gas, settlementMs, costUSD) \<Rightarrow>
                 Inr \<lparr>be_Network = br_Network req, be_L1GasCostWei = l1Gas, be_L2GasCostWei = l2Gas,
                      be_TotalCostUSD = costUSD, be_EstSettlementMs = settlementMs\<rparr>))"

definition l2_candidates :: "L2Config \<Rightarrow> Network list" where
  "l2_candidates cfg =
     (let candidates = [NetworkArbitrum, NetworkOptimism, NetworkBase] in
      if l2_PreferNetwork cfg \<noteq> ''''
      then l2_PreferNetwork cfg # filter (\<lambda>n. n \<noteq> l2_PreferNetwork cfg) candidates else candidates)"

definition consider_network ::
  "L2Config \<Rightarrow> BridgeRequest \<Rightarrow> (Network \<times> BridgeEstimate) option \<Rightarrow> Network \<Rightarrow> (Network \<times> BridgeEstimate) option" where
  "consider_network cfg req best net =
     (case L2Estimate cfg (req\<lparr>br_Network := net\<rparr>) of
        Inl _ \<Rightarrow> best
      | Inr est \<Rightarrow>
          (if l2_MinSavingsUSD cfg > 0 \<and> be_TotalCostUSD est > 1 - l2_MinSavingsUSD cfg then best
           else case best of
               None \<Rightarrow> Some (net, est)
             | Some (_, bestEst) \<Rightarrow> (if be_TotalCostUSD est < be_TotalCostUSD bestEst then Some (net, est) else best)))"

definition BestNetwork :: "L2Config \<Rightarrow> BridgeRequest \<Rightarrow> gotext + Network \<times> BridgeEstimate" where
  "BestNetwork cfg req =
     (if \<not> l2_Enabled cfg then Inl (Txt ''l2 transfers disabled'')
      else case foldl (consider_network cfg req) None (l2_candidates cfg) of
          None \<Rightarrow> Inl (Txt ''no viable L2 network found within policy constraints'')
        | Some best \<Rightarrow> Inr best)"

text \<open>
  The estimates are constants, and so is the answer: Base when the savings asked for leave room for
  its cost, an error otherwise.  The preferred network and the gas limit change nothing.
\<close>

definition base_estimate :: BridgeEstimate where
  "base_estimate = \<lparr>be_Network = NetworkBase, be_L1GasCostWei = ''21000'', be_L2GasCostWei = ''700000'',
     be_TotalCostUSD = 0.25, be_EstSettlementMs = 5 * 60 * 1000\<rparr>"

lemma L2Estimate_networks [simp]:
  "l2_Enabled cfg \<Longrightarrow> L2Estimate cfg (req\<lparr>br_Network := NetworkBase\<rparr>) = Inr base_estimate"
  "l2_Enabled cfg \<Longrightarrow> L2Estimate cfg (req\<lparr>br_Network := NetworkArbitrum\<rparr>) =
     Inr (base_estimate\<lparr>be_Network := NetworkArbitrum, be_L2GasCostWei := ''800000'', be_TotalCostUSD := 0.30, be_EstSettlementMs := 600000\<rparr>)"
  "l2_Enabled cfg \<Longrightarrow> L2Estimate cfg (req\<lparr>br_Network := NetworkOptimism\<rparr>) =
     Inr (base_estimate\<lparr>be_Network := NetworkOptimism, be_L2GasCostWei := ''1000000'', be_TotalCostUSD := 0.45, be_EstSettlementMs := 1800000\<rparr>)"
  by (simp_all add: L2Estimate_def ChainIDs_def networkParams_def base_estimate_def)

lemma L2Estimate_unknown [simp]:
  "net \<noteq> NetworkArbitrum \<Longrightarrow> net \<noteq> NetworkOptimism \<Longrightarrow> net \<noteq> NetworkBase \<Longrightarrow> \<exists>e. L2Estimate cfg (req\<lparr>br_Network := net\<rparr>) = Inl e"
  by (simp add: L2Estimate_def ChainIDs_def)

lemma known_network_cases:
  obtains "net = NetworkArbitrum" | "net = NetworkOptimism" | "net = NetworkBase"
    | "net \<noteq> NetworkArbitrum" "net \<noteq> NetworkOptimism" "net \<noteq> NetworkBase"
  by blast

theorem the_best_network_is_always_base:
  "BestNetwork cfg req =
     (if \<not> l2_Enabled cfg then Inl (Txt ''l2 transfers disabled'')
      else if l2_MinSavingsUSD cfg \<le> 3 / 4 then Inr (NetworkBase, base_estimate)
      else Inl (Txt ''no viable L2 network found within policy constraints''))"
proof (cases "l2_Enabled cfg")
  case True
  have skip: "consider_network cfg req best net = best"
    if "net \<noteq> NetworkArbitrum" "net \<noteq> NetworkOptimism" "net \<noteq> NetworkBase" for best net
    using L2Estimate_unknown [OF that, of cfg req] by (auto simp: consider_network_def)
  show ?thesis
  proof (cases "l2_PreferNetwork cfg" rule: known_network_cases)
    case 4
    then have "l2_candidates cfg = [NetworkArbitrum, NetworkOptimism, NetworkBase] \<or>
        l2_candidates cfg = [l2_PreferNetwork cfg, NetworkArbitrum, NetworkOptimism, NetworkBase]"
      by (auto simp: l2_candidates_def Let_def)
    then have "foldl (consider_network cfg req) None (l2_candidates cfg) =
        foldl (consider_network cfg req) None [NetworkArbitrum, NetworkOptimism, NetworkBase]"
      using skip [OF 4] by auto
    with True show ?thesis
      unfolding BestNetwork_def by (simp add: consider_network_def base_estimate_def)
  qed (use True in \<open>simp_all add: BestNetwork_def l2_candidates_def consider_network_def base_estimate_def\<close>)
qed (simp add: BestNetwork_def)

section \<open>Arbitrage between networks\<close>

record BridgeArbConfig =
  ba_Enabled :: bool
  ba_MinEdgeBps :: float64
  ba_MaxNotionalUSD :: float64
  ba_IntentTTLMs :: int64
  ba_CooldownMs :: int64

record chainPrice =
  cpx_mid :: float64
  cpx_tsMs :: int64

record BridgeArbTracker =
  bt_bridge :: "L2Config option"
  bt_prices :: "(string \<times> chainPrice) list"
  bt_cooldown :: "string \<rightharpoonup> int64"

definition NewBridgeArbTracker :: "L2Config option \<Rightarrow> BridgeArbTracker" where
  "NewBridgeArbTracker bridge = \<lparr>bt_bridge = bridge, bt_prices = [], bt_cooldown = Map.empty\<rparr>"

definition BridgeUpdatePrice :: "string \<Rightarrow> string \<Rightarrow> float64 \<Rightarrow> int64 \<Rightarrow> BridgeArbTracker \<Rightarrow> BridgeArbTracker" where
  "BridgeUpdatePrice network symbol mid ts bt =
     bt\<lparr>bt_prices := AList.update (network @ '':'' @ symbol) \<lparr>cpx_mid = mid, cpx_tsMs = ts\<rparr> (bt_prices bt)\<rparr>"

text \<open>What follows the first colon of a key, if there is one; every symbol once.\<close>

definition symbol_of_key :: "string \<Rightarrow> string list" where
  "symbol_of_key key = (case dropWhile (\<lambda>c. c \<noteq> CHR '':'') key of [] \<Rightarrow> [] | _ # symbol \<Rightarrow> [symbol])"

definition uniqueSymbols :: "BridgeArbTracker \<Rightarrow> string list" where
  "uniqueSymbols bt = remdups (concat (map (symbol_of_key \<circ> fst) (bt_prices bt)))"

definition l2_leg :: "BridgeArbConfig \<Rightarrow> string \<Rightarrow> Network \<Rightarrow> TradeLeg" where
  "l2_leg cfg action net =
     \<lparr>tl_Venue = ''l2:'' @ net, tl_Action = action, tl_Type = ''DEX_SWAP'', tl_Market = ''SPOT'',
      tl_NotionalUSD = ba_MaxNotionalUSD cfg, tl_MaxSlippageBps = 0, tl_PriceLimit = 0\<rparr>"

definition l2_intent ::
  "BridgeArbConfig \<Rightarrow> string \<Rightarrow> string \<Rightarrow> int64 \<Rightarrow> string \<Rightarrow> Network \<Rightarrow> Network \<Rightarrow> float64 \<Rightarrow> float64 \<Rightarrow> float64 \<Rightarrow> string \<Rightarrow> TradeIntent" where
  "l2_intent cfg tenantID uuid now symbol buyNet sellNet edge net cost key =
     (plain_intent tenantID uuid ''L2_BRIDGE_ARB'' symbol now (ba_IntentTTLMs cfg) [l2_leg cfg ''BUY'' buyNet, l2_leg cfg ''SELL'' sellNet] key)
       \<lparr>ti_Expected := (edge_metrics edge net (ba_MaxNotionalUSD cfg))\<lparr>em_FeesUSDEst := cost\<rparr>\<rparr>"

definition l2_cooldown_key :: "string \<Rightarrow> Network \<Rightarrow> Network \<Rightarrow> string" where
  "l2_cooldown_key symbol buyNet sellNet = ''l2:'' @ symbol @ '':'' @ buyNet @ '':'' @ sellNet"

text \<open>The direction to trade: the networks to buy and to sell on and the edge.\<close>

definition l2_direction :: "BridgeArbConfig \<Rightarrow> Network \<Rightarrow> Network \<Rightarrow> float64 \<Rightarrow> float64 \<Rightarrow> (Network \<times> Network \<times> float64) option" where
  "l2_direction cfg nA nB midA midB =
     (let edgeAtoB = (midB - midA) / midA * 10000; edgeBtoA = (midA - midB) / midB * 10000 in
      if edgeAtoB > edgeBtoA \<and> edgeAtoB > ba_MinEdgeBps cfg then Some (nA, nB, edgeAtoB)
      else if edgeBtoA > ba_MinEdgeBps cfg then Some (nB, nA, edgeBtoA)
      else None)"

text \<open>
  The cooldown of the tracker and the length it has in the configuration are a gate: \<open>offer\<close> drops an
  intent whose key is hot and marks the key of one it adds.  The cost of a positive estimate
  relative to a notional of zero is infinite: nothing is offered.
\<close>

definition offer_l2 ::
  "BridgeArbConfig \<Rightarrow> L2Config \<Rightarrow> string \<Rightarrow> int64 \<Rightarrow> (nat \<Rightarrow> 8 word list) \<Rightarrow> string \<Rightarrow> Network \<times> Network \<times> float64 \<Rightarrow> offers \<Rightarrow> offers" where
  "offer_l2 cfg bridge tenantID now rnd symbol dir st =
     (case dir of (buyNet, sellNet, edge) \<Rightarrow>
        (case L2Estimate bridge \<lparr>br_Network = buyNet, br_FromAddress = '''', br_ToAddress = '''', br_TokenSymbol = symbol,
                 br_AmountWei = ''1000000000000000000'', br_MaxGasWei = ''''\<rparr> of
            Inl _ \<Rightarrow> st
          | Inr est \<Rightarrow>
              (let net = edge - be_TotalCostUSD est / ba_MaxNotionalUSD cfg * 10000 in
               if ba_MaxNotionalUSD cfg = 0 \<or> net < ba_MinEdgeBps cfg then st
               else offer now (l2_intent cfg tenantID (newUUID (rnd (length (snd st)))) now symbol buyNet sellNet edge net
                      (be_TotalCostUSD est) (l2_cooldown_key symbol buyNet sellNet)) st)))"

definition consider_l2 ::
  "BridgeArbConfig \<Rightarrow> L2Config \<Rightarrow> string \<Rightarrow> int64 \<Rightarrow> (nat \<Rightarrow> 8 word list) \<Rightarrow> (string \<rightharpoonup> chainPrice) \<Rightarrow> string \<Rightarrow>
   offers \<Rightarrow> Network \<times> Network \<Rightarrow> offers" where
  "consider_l2 cfg bridge tenantID now rnd prices symbol st ns =
     (case ns of (nA, nB) \<Rightarrow>
        (case (prices (nA @ '':'' @ symbol), prices (nB @ '':'' @ symbol)) of
           (Some pA, Some pB) \<Rightarrow>
             (if now - cpx_tsMs pA > 30000 \<or> now - cpx_tsMs pB > 30000 then st
              else if cpx_mid pA \<le> 0 \<or> cpx_mid pB \<le> 0 then st
              else (case l2_direction cfg nA nB (cpx_mid pA) (cpx_mid pB) of
                      None \<Rightarrow> st
                    | Some dir \<Rightarrow> offer_l2 cfg bridge tenantID now rnd symbol dir st))
         | _ \<Rightarrow> st))"

definition l2_pairs :: "(Network \<times> Network) list" where
  "l2_pairs = [(NetworkArbitrum, NetworkOptimism), (NetworkArbitrum, NetworkBase), (NetworkOptimism, NetworkBase)]"

definition l2_gate :: "BridgeArbConfig \<Rightarrow> BridgeArbTracker \<Rightarrow> Cooldown" where
  "l2_gate cfg bt = \<lparr>cd_lastMs = bt_cooldown bt, cd_ttlMs = ba_CooldownMs cfg\<rparr>"

definition BridgeEvaluate ::
  "(string list \<Rightarrow> string list) \<Rightarrow> BridgeArbConfig \<Rightarrow> string \<Rightarrow> int64 \<Rightarrow> (nat \<Rightarrow> 8 word list) \<Rightarrow> BridgeArbTracker \<Rightarrow> BridgeArbTracker \<times> TradeIntent list" where
  "BridgeEvaluate order cfg tenantID now rnd bt =
     (case bt_bridge bt of
        None \<Rightarrow> (bt, [])
      | Some bridge \<Rightarrow>
          (if \<not> ba_Enabled cfg \<or> \<not> l2_Enabled bridge then (bt, [])
           else (let (gate, out) = foldl (\<lambda>st symbol. foldl (consider_l2 cfg bridge tenantID now rnd (map_of (bt_prices bt)) symbol) st l2_pairs)
                                     (Some (l2_gate cfg bt), []) (order (uniqueSymbols bt))
                 in (bt\<lparr>bt_cooldown := (case gate of Some c \<Rightarrow> cd_lastMs c | None \<Rightarrow> bt_cooldown bt)\<rparr>, out))))"

section \<open>What the arbitrage between networks offers\<close>

text \<open>Two legs on different networks, at fresh positive prices, with an edge that leaves the minimum after the cost of the bridge.\<close>

definition l2_ok :: "BridgeArbConfig \<Rightarrow> (string \<rightharpoonup> chainPrice) \<Rightarrow> int64 \<Rightarrow> TradeIntent \<Rightarrow> bool" where
  "l2_ok cfg prices now i \<longleftrightarrow>
     (\<exists>buyNet sellNet pBuy pSell.
        ti_Legs i = [l2_leg cfg ''BUY'' buyNet, l2_leg cfg ''SELL'' sellNet] \<and> {buyNet, sellNet} \<subseteq> {NetworkArbitrum, NetworkOptimism, NetworkBase} \<and>
        buyNet \<noteq> sellNet \<and>
        prices (buyNet @ '':'' @ ti_Symbol i) = Some pBuy \<and> prices (sellNet @ '':'' @ ti_Symbol i) = Some pSell \<and>
        now - cpx_tsMs pBuy \<le> 30000 \<and> now - cpx_tsMs pSell \<le> 30000 \<and> 0 < cpx_mid pBuy \<and> 0 < cpx_mid pSell \<and>
        em_EdgeBpsGross (ti_Expected i) = (cpx_mid pSell - cpx_mid pBuy) / cpx_mid pBuy * 10000 \<and>
        em_EdgeBpsNet (ti_Expected i) =
          em_EdgeBpsGross (ti_Expected i) - em_FeesUSDEst (ti_Expected i) / ba_MaxNotionalUSD cfg * 10000 \<and>
        0.25 \<le> em_FeesUSDEst (ti_Expected i) \<and> ba_MinEdgeBps cfg \<le> em_EdgeBpsNet (ti_Expected i))"

lemma L2Estimate_cost:
  assumes "L2Estimate cfg req = Inr est"
  shows "0.25 \<le> be_TotalCostUSD est \<and> br_Network req \<in> {NetworkArbitrum, NetworkOptimism, NetworkBase}"
  using assms by (auto simp: L2Estimate_def ChainIDs_def networkParams_def split: if_splits)

lemma l2_direction_SomeD:
  assumes "l2_direction cfg nA nB midA midB = Some (buyNet, sellNet, edge)"
  shows "(buyNet, sellNet, edge) = (nA, nB, (midB - midA) / midA * 10000) \<or> (buyNet, sellNet, edge) = (nB, nA, (midA - midB) / midB * 10000)"
  using assms by (auto simp: l2_direction_def Let_def split: if_splits)

lemma offered_l2:
  assumes "prices (buyNet @ '':'' @ symbol) = Some pBuy" "prices (sellNet @ '':'' @ symbol) = Some pSell"
    and "now - cpx_tsMs pBuy \<le> 30000" "now - cpx_tsMs pSell \<le> 30000" "0 < cpx_mid pBuy" "0 < cpx_mid pSell"
    and "edge = (cpx_mid pSell - cpx_mid pBuy) / cpx_mid pBuy * 10000"
    and "{buyNet, sellNet} \<subseteq> {NetworkArbitrum, NetworkOptimism, NetworkBase}" "buyNet \<noteq> sellNet"
  shows "offered now (l2_ok cfg prices now) st (offer_l2 cfg bridge tenantID now rnd symbol (buyNet, sellNet, edge) st)"
  unfolding offer_l2_def Let_def prod.case
proof (split sum.split, intro conjI allI impI)
  fix est
  assume "L2Estimate bridge \<lparr>br_Network = buyNet, br_FromAddress = '''', br_ToAddress = '''', br_TokenSymbol = symbol,
    br_AmountWei = ''1000000000000000000'', br_MaxGasWei = ''''\<rparr> = Inr est"
  then have "0.25 \<le> be_TotalCostUSD est" using L2Estimate_cost by blast
  with assms show "offered now (l2_ok cfg prices now) st
      (if ba_MaxNotionalUSD cfg = 0 \<or> edge - be_TotalCostUSD est / ba_MaxNotionalUSD cfg * 10000 < ba_MinEdgeBps cfg then st
       else offer now (l2_intent cfg tenantID (newUUID (rnd (length (snd st)))) now symbol buyNet sellNet edge
              (edge - be_TotalCostUSD est / ba_MaxNotionalUSD cfg * 10000) (be_TotalCostUSD est) (l2_cooldown_key symbol buyNet sellNet)) st)"
    by (intro offered_intros) (auto simp: l2_ok_def l2_intent_def edge_metrics_def no_metrics_def)
qed (rule offered_refl)

lemma offered_consider_l2:
  assumes "(nA, nB) \<in> set l2_pairs"
  shows "offered now (l2_ok cfg prices now) st (consider_l2 cfg bridge tenantID now rnd prices symbol st (nA, nB))"
proof (cases "prices (nA @ '':'' @ symbol)")
  case None
  then show ?thesis by (simp add: consider_l2_def offered_refl)
next
  case A: (Some pA)
  show ?thesis
  proof (cases "prices (nB @ '':'' @ symbol)")
    case None
    with A show ?thesis by (simp add: consider_l2_def offered_refl)
  next
    case B: (Some pB)
    have nets: "{nA, nB} \<subseteq> {NetworkArbitrum, NetworkOptimism, NetworkBase}" "nA \<noteq> nB" using assms by (auto simp: l2_pairs_def)
    show ?thesis
    proof (cases "(now - cpx_tsMs pA > 30000 \<or> now - cpx_tsMs pB > 30000) \<or> (cpx_mid pA \<le> 0 \<or> cpx_mid pB \<le> 0) \<or>
        l2_direction cfg nA nB (cpx_mid pA) (cpx_mid pB) = None")
      case True
      with A B have "consider_l2 cfg bridge tenantID now rnd prices symbol st (nA, nB) = st" by (auto simp: consider_l2_def)
      then show ?thesis by (simp add: offered_refl)
    next
      case False
      then obtain buyNet sellNet edge where d: "l2_direction cfg nA nB (cpx_mid pA) (cpx_mid pB) = Some (buyNet, sellNet, edge)" by auto
      with A B False have c: "consider_l2 cfg bridge tenantID now rnd prices symbol st (nA, nB) =
          offer_l2 cfg bridge tenantID now rnd symbol (buyNet, sellNet, edge) st" by (simp add: consider_l2_def)
      from l2_direction_SomeD [OF d] show ?thesis
      proof
        assume e: "(buyNet, sellNet, edge) = (nA, nB, (cpx_mid pB - cpx_mid pA) / cpx_mid pA * 10000)"
        show ?thesis unfolding c by (rule offered_l2 [of prices _ _ pA _ pB]) (use A B False nets e in auto)
      next
        assume e: "(buyNet, sellNet, edge) = (nB, nA, (cpx_mid pA - cpx_mid pB) / cpx_mid pB * 10000)"
        show ?thesis unfolding c by (rule offered_l2 [of prices _ _ pB _ pA]) (use A B False nets e in auto)
      qed
    qed
  qed
qed

lemma BridgeEvaluate_cases:
  "BridgeEvaluate order cfg tenantID now rnd bt = (bt, []) \<or>
   (\<exists>gate out. BridgeEvaluate order cfg tenantID now rnd bt = (bt\<lparr>bt_cooldown := cd_lastMs gate\<rparr>, out) \<and>
      offered now (l2_ok cfg (map_of (bt_prices bt)) now) (Some (l2_gate cfg bt), []) (Some gate, out))"
proof (cases "bt_bridge bt")
  case None
  then show ?thesis by (simp add: BridgeEvaluate_def)
next
  case (Some bridge)
  let ?loop = "foldl (\<lambda>st symbol. foldl (consider_l2 cfg bridge tenantID now rnd (map_of (bt_prices bt)) symbol) st l2_pairs)
      (Some (l2_gate cfg bt), []) (order (uniqueSymbols bt))"
  have off: "offered now (l2_ok cfg (map_of (bt_prices bt)) now) (Some (l2_gate cfg bt), []) ?loop"
  proof (rule offered_foldl)
    fix st symbol
    show "offered now (l2_ok cfg (map_of (bt_prices bt)) now) st (foldl (consider_l2 cfg bridge tenantID now rnd (map_of (bt_prices bt)) symbol) st l2_pairs)"
      by (rule offered_foldl) (auto intro: offered_consider_l2 split: prod.split)
  qed
  then obtain gate out where l: "?loop = (Some gate, out)"
    by (cases ?loop) (auto simp: offered_def)
  show ?thesis
    using Some off unfolding l by (cases "\<not> ba_Enabled cfg \<or> \<not> l2_Enabled bridge") (auto simp: BridgeEvaluate_def l)
qed

text \<open>
  Every intent of the arbitrage trades at fresh positive prices and still has the minimum edge after
  the cost of the bridge; and once it is offered, its key is offered again only when the cooldown has
  passed.
\<close>

theorem bridge_intents_pay_for_the_bridge:
  assumes "BridgeEvaluate order cfg tenantID now rnd bt = (bt', out)" "0 < ba_CooldownMs cfg"
    and "BridgeEvaluate order' cfg tenantID now' rnd' (foldl (\<lambda>bt (net, sy, mid, ts). BridgeUpdatePrice net sy mid ts bt) bt' ups) = (bt'', out')"
  shows "(\<forall>i\<in>set out. l2_ok cfg (map_of (bt_prices bt)) now i) \<and> distinct (map key_of out) \<and>
         (\<forall>i\<in>set out. \<forall>j\<in>set out'. key_of i = key_of j \<longrightarrow> ba_CooldownMs cfg \<le> now' - now)"
proof -
  have ups: "bt_cooldown (foldl (\<lambda>bt (net, sy, mid, ts). BridgeUpdatePrice net sy mid ts bt) b ups) = bt_cooldown b" for b
    by (induction ups arbitrary: b) (auto simp: BridgeUpdatePrice_def)
  have now: "out = [] \<or> (\<forall>i\<in>set out. l2_ok cfg (map_of (bt_prices bt)) now i) \<and> distinct (map key_of out) \<and>
      bt_cooldown bt' = cd_lastMs (foldl (\<lambda>c i. Mark c (key_of i) now) (l2_gate cfg bt) out)"
    using BridgeEvaluate_cases [of order cfg tenantID now rnd bt] assms(1,2)
    by (auto simp: offered_def l2_gate_def)
  let ?b = "foldl (\<lambda>bt (net, sy, mid, ts). BridgeUpdatePrice net sy mid ts bt) bt' ups"
  have later: "\<not> IsOnCooldown (l2_gate cfg ?b) (key_of j) now'" if "j \<in> set out'" for j
    using BridgeEvaluate_cases [of order' cfg tenantID now' rnd' ?b] assms(2,3) that
    by (auto simp: offered_def l2_gate_def)
  have "ba_CooldownMs cfg \<le> now' - now" if "i \<in> set out" "j \<in> set out'" "key_of i = key_of j" for i j
  proof -
    let ?c = "foldl (\<lambda>c i. Mark c (key_of i) now) (l2_gate cfg bt) out"
    have "out \<noteq> []" using that(1) by auto
    then have c: "cd_lastMs (l2_gate cfg ?b) = cd_lastMs ?c" using now by (simp add: l2_gate_def ups)
    have "cd_lastMs (foldl (\<lambda>c i. Mark c (key_of i) now) c xs) k = (if k \<in> key_of ` set xs then Some now else cd_lastMs c k)" for c xs k
      by (induction xs arbitrary: c) (auto simp: Mark_def)
    moreover have "key_of j \<in> key_of ` set out" using that by (metis image_eqI)
    ultimately have "cd_lastMs (l2_gate cfg ?b) (key_of j) = Some now" unfolding c by simp
    with later [OF that(2)] show ?thesis by (simp add: IsOnCooldown_def l2_gate_def)
  qed
  with now show ?thesis by auto
qed

text \<open>Every symbol with a price on some network is visited, once, and no other.\<close>

definition l2_updates :: "(string \<times> string \<times> float64 \<times> int64) list \<Rightarrow> BridgeArbTracker \<Rightarrow> BridgeArbTracker" where
  "l2_updates ups bt = foldl (\<lambda>bt (net, sy, mid, ts). BridgeUpdatePrice net sy mid ts bt) bt ups"

lemma symbol_of_key_update: "CHR '':'' \<notin> set net \<Longrightarrow> symbol_of_key (net @ '':'' @ sy) = [sy]"
proof -
  assume "CHR '':'' \<notin> set net"
  then have "dropWhile (\<lambda>c. c \<noteq> CHR '':'') (net @ '':'' @ sy) = '':'' @ sy" by (subst dropWhile_append2) auto
  then show ?thesis by (simp add: symbol_of_key_def)
qed

lemma l2_updates_keys:
  "set (map fst (bt_prices (l2_updates ups bt))) = set (map fst (bt_prices bt)) \<union> (\<lambda>u. fst u @ '':'' @ fst (snd u)) ` set ups"
proof (induction ups arbitrary: bt)
  case Nil
  show ?case by (simp add: l2_updates_def)
next
  case (Cons u ups)
  obtain net sy mid ts where u: "u = (net, sy, mid, ts)" by (cases u)
  have "l2_updates (u # ups) bt = l2_updates ups (BridgeUpdatePrice net sy mid ts bt)" by (simp add: l2_updates_def u)
  moreover have "set (map fst (bt_prices (BridgeUpdatePrice net sy mid ts bt))) = insert (net @ '':'' @ sy) (set (map fst (bt_prices bt)))"
    by (simp add: BridgeUpdatePrice_def AList.update_keys insert_absorb)
  ultimately show ?case using Cons.IH [of "BridgeUpdatePrice net sy mid ts bt"] by (simp add: u)
qed

lemma symbols_are_the_tracked_ones:
  assumes "\<forall>u\<in>set ups. CHR '':'' \<notin> set (fst u)"
  shows "distinct (uniqueSymbols (l2_updates ups (NewBridgeArbTracker bridge))) \<and>
         set (uniqueSymbols (l2_updates ups (NewBridgeArbTracker bridge))) = (\<lambda>u. fst (snd u)) ` set ups"
proof -
  let ?bt = "l2_updates ups (NewBridgeArbTracker bridge)"
  have "set (uniqueSymbols ?bt) = (\<Union>k\<in>set (map fst (bt_prices ?bt)). set (symbol_of_key k))"
    by (simp add: uniqueSymbols_def)
  also have "\<dots> = (\<Union>u\<in>set ups. set (symbol_of_key (fst u @ '':'' @ fst (snd u))))"
    unfolding l2_updates_keys by (simp add: NewBridgeArbTracker_def)
  also have "\<dots> = (\<Union>u\<in>set ups. {fst (snd u)})"
    using assms symbol_of_key_update by (intro SUP_cong [OF refl]) simp
  finally show ?thesis by (auto simp: uniqueSymbols_def)
qed

section \<open>Transfers over bridges\<close>

datatype BridgeType = Optimistic | ZKProof | Canonical | ThirdParty | OtherBridge string

abbreviation StatusPending :: string where "StatusPending \<equiv> ''PENDING''"
abbreviation StatusInChallenge :: string where "StatusInChallenge \<equiv> ''IN_CHALLENGE''"
abbreviation StatusProving :: string where "StatusProving \<equiv> ''PROVING''"
abbreviation StatusFinalized :: string where "StatusFinalized \<equiv> ''FINALIZED''"
abbreviation StatusFailed :: string where "StatusFailed \<equiv> ''FAILED''"
abbreviation StatusCancelled :: string where "StatusCancelled \<equiv> ''CANCELLED''"

record BridgeTransfer =
  bx_ID :: string
  bx_Bridge :: string
  bx_BridgeType :: BridgeType
  bx_SourceChain :: int
  bx_DestChain :: int
  bx_Token :: string
  bx_AmountUSD :: float64
  bx_Status :: string
  bx_InitiatedMs :: int64
  bx_ChallengeEndMs :: int64
  bx_EstFinalizeMs :: int64
  bx_FinalizedMs :: int64
  bx_SourceTxHash :: string
  bx_DestTxHash :: string

record BridgeConfig =
  bg_Name :: string
  bg_Type :: BridgeType
  bg_ChallengeMs :: int64
  bg_AvgFinalizeMs :: int64
  bg_MaxAmountUSD :: float64
  bg_FeeRateBps :: float64
  bg_SupportedChains :: "int list"

record BridgeMonitor =
  bm_transfers :: "(string \<times> BridgeTransfer) list"
  bm_configs :: "string \<rightharpoonup> BridgeConfig"

record MonitorStats =
  bs_ActiveTransfers :: int
  bs_InChallenge :: int
  bs_TotalVolUSD :: float64
  bs_AvgFinalizeMs :: int64
  bs_FailedTransfers :: int
  bs_PendingAmountUSD :: float64

record ChallengeAlert =
  ca_TransferID :: string
  ca_Bridge :: string
  ca_Type :: string
  ca_RemainingMs :: int64
  ca_AmountUSD :: float64
  ca_TsMs :: int64

definition NewMonitor :: BridgeMonitor where
  "NewMonitor = \<lparr>bm_transfers = [], bm_configs = Map.empty\<rparr>"

definition SetBridgeConfig :: "BridgeConfig \<Rightarrow> BridgeMonitor \<Rightarrow> BridgeMonitor" where
  "SetBridgeConfig cfg m = m\<lparr>bm_configs := (bm_configs m)(bg_Name cfg \<mapsto> cfg)\<rparr>"

definition fill_transfer :: "int64 \<Rightarrow> BridgeConfig option \<Rightarrow> BridgeTransfer \<Rightarrow> BridgeTransfer" where
  "fill_transfer now cfg t =
     (let t = (if bx_Status t = '''' then t\<lparr>bx_Status := StatusPending\<rparr> else t);
          t = (if bx_InitiatedMs t = 0 then t\<lparr>bx_InitiatedMs := now\<rparr> else t)
      in case cfg of
           None \<Rightarrow> t
         | Some c \<Rightarrow>
             (let t = (if bg_Type c = Optimistic \<and> bx_ChallengeEndMs t = 0
                       then t\<lparr>bx_ChallengeEndMs := bx_InitiatedMs t + bg_ChallengeMs c, bx_Status := StatusInChallenge\<rparr> else t)
              in if bx_EstFinalizeMs t = 0 then t\<lparr>bx_EstFinalizeMs := bx_InitiatedMs t + bg_AvgFinalizeMs c\<rparr> else t))"

definition TrackTransfer :: "int64 \<Rightarrow> BridgeTransfer \<Rightarrow> BridgeMonitor \<Rightarrow> BridgeMonitor" where
  "TrackTransfer now t m =
     m\<lparr>bm_transfers := AList.update (bx_ID t) (fill_transfer now (bm_configs m (bx_Bridge t)) t) (bm_transfers m)\<rparr>"

definition UpdateStatus :: "int64 \<Rightarrow> string \<Rightarrow> string \<Rightarrow> string \<Rightarrow> BridgeMonitor \<Rightarrow> BridgeMonitor" where
  "UpdateStatus now tid status destTxHash m =
     (case map_of (bm_transfers m) tid of
        None \<Rightarrow> m
      | Some t \<Rightarrow>
          (let t = t\<lparr>bx_Status := status\<rparr>;
               t = (if destTxHash \<noteq> '''' then t\<lparr>bx_DestTxHash := destTxHash\<rparr> else t);
               t = (if status = StatusFinalized then t\<lparr>bx_FinalizedMs := now\<rparr> else t)
           in m\<lparr>bm_transfers := AList.update tid t (bm_transfers m)\<rparr>))"

definition ActiveTransfers :: "(BridgeTransfer list \<Rightarrow> BridgeTransfer list) \<Rightarrow> BridgeMonitor \<Rightarrow> BridgeTransfer list" where
  "ActiveTransfers by_time m =
     by_time (filter (\<lambda>t. bx_Status t \<noteq> StatusFinalized \<and> bx_Status t \<noteq> StatusFailed \<and> bx_Status t \<noteq> StatusCancelled)
       (map snd (bm_transfers m)))"

definition challenge_alert :: "int64 \<Rightarrow> BridgeTransfer \<Rightarrow> ChallengeAlert list" where
  "challenge_alert now t =
     (if bx_Status t \<noteq> StatusInChallenge \<or> bx_ChallengeEndMs t = 0 then []
      else
        (let remaining = bx_ChallengeEndMs t - now;
             alert = \<lparr>ca_TransferID = bx_ID t, ca_Bridge = bx_Bridge t, ca_Type = ''WINDOW_EXPIRED'', ca_RemainingMs = 0,
                      ca_AmountUSD = bx_AmountUSD t, ca_TsMs = now\<rparr>
         in if remaining \<le> 0 then [alert]
            else if remaining < 3600000 then [alert\<lparr>ca_Type := ''WINDOW_CLOSING'', ca_RemainingMs := remaining\<rparr>]
            else []))"

definition CheckChallengeWindows :: "int64 \<Rightarrow> BridgeMonitor \<Rightarrow> ChallengeAlert list" where
  "CheckChallengeWindows now m = concat (map (challenge_alert now \<circ> snd) (bm_transfers m))"

definition count_transfer :: "MonitorStats \<times> int64 \<times> int \<Rightarrow> BridgeTransfer \<Rightarrow> MonitorStats \<times> int64 \<times> int" where
  "count_transfer acc t =
     (case acc of (st, totalFinalizeMs, finalizedCount) \<Rightarrow>
        let st = (if bx_Status t \<in> {StatusPending, StatusInChallenge, StatusProving}
                  then st\<lparr>bs_ActiveTransfers := bs_ActiveTransfers st + 1, bs_PendingAmountUSD := bs_PendingAmountUSD st + bx_AmountUSD t\<rparr>
                  else if bx_Status t = StatusFailed then st\<lparr>bs_FailedTransfers := bs_FailedTransfers st + 1\<rparr>
                  else st);
            st = (if bx_Status t = StatusInChallenge then st\<lparr>bs_InChallenge := bs_InChallenge st + 1\<rparr> else st);
            st = st\<lparr>bs_TotalVolUSD := bs_TotalVolUSD st + bx_AmountUSD t\<rparr>
        in if bx_FinalizedMs t > 0 then (st, totalFinalizeMs + (bx_FinalizedMs t - bx_InitiatedMs t), finalizedCount + 1)
           else (st, totalFinalizeMs, finalizedCount))"

definition BridgeStats :: "BridgeMonitor \<Rightarrow> MonitorStats" where
  "BridgeStats m =
     (let (st, totalFinalizeMs, finalizedCount) = foldl count_transfer
            (\<lparr>bs_ActiveTransfers = 0, bs_InChallenge = 0, bs_TotalVolUSD = 0, bs_AvgFinalizeMs = 0, bs_FailedTransfers = 0,
              bs_PendingAmountUSD = 0\<rparr>, 0, 0) (map snd (bm_transfers m))
      in if finalizedCount > 0 then st\<lparr>bs_AvgFinalizeMs := go_div totalFinalizeMs finalizedCount\<rparr> else st)"

definition PurgeFinalized :: "int64 \<Rightarrow> int64 \<Rightarrow> BridgeMonitor \<Rightarrow> int \<times> BridgeMonitor" where
  "PurgeFinalized now cutoffMs m =
     (let threshold = now - cutoffMs; gone = (\<lambda>t. bx_FinalizedMs t > 0 \<and> bx_FinalizedMs t < threshold)
      in (int (length (filter (gone \<circ> snd) (bm_transfers m))), m\<lparr>bm_transfers := filter (\<lambda>x. \<not> gone (snd x)) (bm_transfers m)\<rparr>))"

definition EstimateTransferTime :: "string \<Rightarrow> BridgeMonitor \<Rightarrow> int64" where
  "EstimateTransferTime bridge m = (case bm_configs m bridge of Some c \<Rightarrow> bg_AvgFinalizeMs c | None \<Rightarrow> 0)"

section \<open>What the monitor reports\<close>

abbreviation pending_status :: "string \<Rightarrow> bool" where
  "pending_status s \<equiv> s \<in> {StatusPending, StatusInChallenge, StatusProving}"

definition known_statuses :: "BridgeMonitor \<Rightarrow> bool" where
  "known_statuses m \<longleftrightarrow> (\<forall>t\<in>set (map snd (bm_transfers m)).
     pending_status (bx_Status t) \<or> bx_Status t \<in> {StatusFinalized, StatusFailed, StatusCancelled})"

lemma count_transfer_step:
  "count_transfer (st, tot, n) t =
     (\<lparr>bs_ActiveTransfers = bs_ActiveTransfers st + (if pending_status (bx_Status t) then 1 else 0),
       bs_InChallenge = bs_InChallenge st + (if bx_Status t = StatusInChallenge then 1 else 0),
       bs_TotalVolUSD = bs_TotalVolUSD st + bx_AmountUSD t,
       bs_AvgFinalizeMs = bs_AvgFinalizeMs st,
       bs_FailedTransfers = bs_FailedTransfers st + (if bx_Status t = StatusFailed then 1 else 0),
       bs_PendingAmountUSD = bs_PendingAmountUSD st + (if pending_status (bx_Status t) then bx_AmountUSD t else 0)\<rparr>,
      tot + (if 0 < bx_FinalizedMs t then bx_FinalizedMs t - bx_InitiatedMs t else 0),
      n + (if 0 < bx_FinalizedMs t then 1 else 0))"
  by (cases st) (auto simp: count_transfer_def Let_def)

lemma count_transfers:
  "foldl count_transfer (st, tot, n) ts =
     (\<lparr>bs_ActiveTransfers = bs_ActiveTransfers st + int (length (filter (\<lambda>t. pending_status (bx_Status t)) ts)),
       bs_InChallenge = bs_InChallenge st + int (length (filter (\<lambda>t. bx_Status t = StatusInChallenge) ts)),
       bs_TotalVolUSD = bs_TotalVolUSD st + sum_list (map bx_AmountUSD ts),
       bs_AvgFinalizeMs = bs_AvgFinalizeMs st,
       bs_FailedTransfers = bs_FailedTransfers st + int (length (filter (\<lambda>t. bx_Status t = StatusFailed) ts)),
       bs_PendingAmountUSD = bs_PendingAmountUSD st + sum_list (map bx_AmountUSD (filter (\<lambda>t. pending_status (bx_Status t)) ts))\<rparr>,
      tot + sum_list (map (\<lambda>t. bx_FinalizedMs t - bx_InitiatedMs t) (filter (\<lambda>t. 0 < bx_FinalizedMs t) ts)),
      n + int (length (filter (\<lambda>t. 0 < bx_FinalizedMs t) ts)))"
proof (induction ts arbitrary: st tot n)
  case Nil
  show ?case by simp
next
  case (Cons t ts)
  show ?case by (simp add: Cons.IH count_transfer_step)
qed

lemma BridgeStats_fields:
  "bs_ActiveTransfers (BridgeStats m) = int (length (filter (\<lambda>t. pending_status (bx_Status t)) (map snd (bm_transfers m))))"
  "bs_InChallenge (BridgeStats m) = int (length (filter (\<lambda>t. bx_Status t = StatusInChallenge) (map snd (bm_transfers m))))"
  "bs_TotalVolUSD (BridgeStats m) = sum_list (map bx_AmountUSD (map snd (bm_transfers m)))"
  "bs_PendingAmountUSD (BridgeStats m) = sum_list (map bx_AmountUSD (filter (\<lambda>t. pending_status (bx_Status t)) (map snd (bm_transfers m))))"
  by (simp_all add: BridgeStats_def count_transfers Let_def)

text \<open>The statistics agree with the list of active transfers.\<close>

theorem bridge_statistics_agree_with_the_active_transfers:
  assumes "known_statuses m" "sorts_by (\<lambda>t. - real_of_int (bx_InitiatedMs t)) by_time"
  shows "bs_ActiveTransfers (BridgeStats m) = int (length (ActiveTransfers by_time m)) \<and>
         bs_PendingAmountUSD (BridgeStats m) = sum_list (map bx_AmountUSD (ActiveTransfers by_time m)) \<and>
         bs_InChallenge (BridgeStats m) \<le> bs_ActiveTransfers (BridgeStats m) \<and>
         (\<forall>a\<in>set (CheckChallengeWindows now m). \<exists>t\<in>set (ActiveTransfers by_time m). bx_ID t = ca_TransferID a)"
proof -
  have act: "filter (\<lambda>t. bx_Status t \<noteq> StatusFinalized \<and> bx_Status t \<noteq> StatusFailed \<and> bx_Status t \<noteq> StatusCancelled) (map snd (bm_transfers m)) =
      filter (\<lambda>t. pending_status (bx_Status t)) (map snd (bm_transfers m))"
    using assms(1) by (intro filter_cong refl) (auto simp: known_statuses_def)
  have "length (filter (\<lambda>t. bx_Status t = StatusInChallenge) ts) \<le> length (filter (\<lambda>t. pending_status (bx_Status t)) ts)" for ts
    by (induction ts) auto
  moreover have "\<exists>t\<in>set (ActiveTransfers by_time m). bx_ID t = ca_TransferID a" if "a \<in> set (CheckChallengeWindows now m)" for a
  proof -
    from that obtain x where x: "x \<in> set (bm_transfers m)" "a \<in> set (challenge_alert now (snd x))" by (auto simp: CheckChallengeWindows_def)
    then have "bx_Status (snd x) = StatusInChallenge" "bx_ID (snd x) = ca_TransferID a"
      by (auto simp: challenge_alert_def Let_def split: if_splits)
    moreover have "set (ActiveTransfers by_time m) = set (filter (\<lambda>t. pending_status (bx_Status t)) (map snd (bm_transfers m)))"
      unfolding ActiveTransfers_def act by (rule sorts_by_set [OF assms(2)])
    ultimately show ?thesis using x(1) by auto
  qed
  ultimately show ?thesis
    unfolding BridgeStats_fields ActiveTransfers_def act
    by (simp only: sorts_by_length [OF assms(2)] sorts_by_sum [OF assms(2)] of_nat_le_iff simp_thms ball_simps) blast
qed

text \<open>A challenge is announced from one hour before its end, and as expired from its end on.\<close>

lemma challenge_windows_are_announced_in_time:
  assumes "bx_Status t = StatusInChallenge" "bx_ChallengeEndMs t \<noteq> 0"
  shows "challenge_alert now t = [] \<longleftrightarrow> now \<le> bx_ChallengeEndMs t - 3600000"
    and "a \<in> set (challenge_alert now t) \<Longrightarrow> ca_Type a = (if bx_ChallengeEndMs t \<le> now then ''WINDOW_EXPIRED'' else ''WINDOW_CLOSING'') \<and>
      ca_RemainingMs a = max 0 (bx_ChallengeEndMs t - now)"
  using assms by (auto simp: challenge_alert_def Let_def split: if_splits)

section \<open>What a purge removes\<close>

datatype bridge_event = BTrack int64 BridgeTransfer | BStatus int64 string string string | BConfig BridgeConfig | BPurge int64 int64

fun bridge_step :: "BridgeMonitor \<Rightarrow> bridge_event \<Rightarrow> BridgeMonitor" where
  "bridge_step m (BTrack now t) = TrackTransfer now t m"
| "bridge_step m (BStatus now tid status tx) = UpdateStatus now tid status tx m"
| "bridge_step m (BConfig c) = SetBridgeConfig c m"
| "bridge_step m (BPurge now cutoff) = snd (PurgeFinalized now cutoff m)"

definition finals_ok :: "BridgeMonitor \<Rightarrow> bool" where
  "finals_ok m \<longleftrightarrow> (\<forall>t\<in>set (map snd (bm_transfers m)). 0 < bx_FinalizedMs t \<longrightarrow> bx_Status t = StatusFinalized)"

text \<open>The discipline that is left to the callers: new transfers are not final, and a final one keeps its status.\<close>

fun bridge_adm :: "BridgeMonitor \<Rightarrow> bridge_event \<Rightarrow> bool" where
  "bridge_adm m (BTrack now t) = (bx_FinalizedMs t = 0)"
| "bridge_adm m (BStatus now tid status tx) =
     (status = StatusFinalized \<or> (\<forall>t. map_of (bm_transfers m) tid = Some t \<longrightarrow> bx_Status t \<noteq> StatusFinalized))"
| "bridge_adm m e = True"

inductive bridge_run :: "BridgeMonitor \<Rightarrow> bool" where
  start: "bridge_run NewMonitor"
| next_event: "bridge_run m \<Longrightarrow> bridge_adm m e \<Longrightarrow> bridge_run (bridge_step m e)"

lemma finals_ok_update:
  assumes "finals_ok m" "0 < bx_FinalizedMs t \<longrightarrow> bx_Status t = StatusFinalized"
  shows "finals_ok (m\<lparr>bm_transfers := AList.update tid t (bm_transfers m)\<rparr>)"
  using assms by (auto simp: finals_ok_def dest!: alist_update_set)

lemma bridge_run_finals: "bridge_run m \<Longrightarrow> finals_ok m"
proof (induction rule: bridge_run.induct)
  case start
  show ?case by (simp add: finals_ok_def NewMonitor_def)
next
  case (next_event m e)
  show ?case
  proof (cases e)
    case (BTrack now t)
    with next_event show ?thesis
      by (auto simp: TrackTransfer_def fill_transfer_def Let_def split: option.split intro!: finals_ok_update)
  next
    case (BStatus now tid status tx)
    show ?thesis
    proof (cases "map_of (bm_transfers m) tid")
      case None
      with BStatus next_event.IH show ?thesis by (simp add: UpdateStatus_def)
    next
      case (Some t)
      have "0 < bx_FinalizedMs t \<longrightarrow> bx_Status t = StatusFinalized"
        using next_event.IH map_of_SomeD [OF Some] by (force simp: finals_ok_def)
      with Some BStatus next_event show ?thesis
        by (auto simp: UpdateStatus_def Let_def intro!: finals_ok_update)
    qed
  next
    case (BConfig c)
    with next_event.IH show ?thesis by (simp add: SetBridgeConfig_def finals_ok_def)
  next
    case (BPurge now cutoff)
    with next_event.IH show ?thesis by (auto simp: PurgeFinalized_def Let_def finals_ok_def)
  qed
qed

text \<open>With that discipline a purge removes no active transfer, and the transfers in flight stay the same.\<close>

theorem a_purge_keeps_the_transfers_in_flight:
  assumes "bridge_run m"
  shows "ActiveTransfers by_time (snd (PurgeFinalized now cutoff m)) = ActiveTransfers by_time m \<and>
         int (length (bm_transfers m)) = int (length (bm_transfers (snd (PurgeFinalized now cutoff m)))) + fst (PurgeFinalized now cutoff m)"
proof -
  let ?gone = "\<lambda>t. bx_FinalizedMs t > 0 \<and> bx_FinalizedMs t < now - cutoff"
  let ?live = "\<lambda>t. bx_Status t \<noteq> StatusFinalized \<and> bx_Status t \<noteq> StatusFailed \<and> bx_Status t \<noteq> StatusCancelled"
  have "\<forall>t\<in>set (map snd (bm_transfers m)). ?gone t \<longrightarrow> \<not> ?live t"
    using bridge_run_finals [OF assms] by (auto simp: finals_ok_def)
  then have "filter ?live (map snd (filter (\<lambda>x. \<not> ?gone (snd x)) (bm_transfers m))) = filter ?live (map snd (bm_transfers m))"
    by (auto simp: filter_map comp_def intro!: arg_cong [of _ _ "map snd"] filter_cong)
  moreover have "int (length (bm_transfers m)) =
      int (length (filter (\<lambda>x. \<not> ?gone (snd x)) (bm_transfers m))) + int (length (filter (?gone \<circ> snd) (bm_transfers m)))"
    using sum_length_filter_compl [of "?gone \<circ> snd" "bm_transfers m"] by (simp add: comp_def)
  moreover have "bm_transfers (m\<lparr>bm_transfers := xs\<rparr>) = xs" for xs by simp
  ultimately show ?thesis
    by (simp only: ActiveTransfers_def PurgeFinalized_def Let_def fst_conv snd_conv simp_thms)
qed

text \<open>Nothing in the monitor enforces it: a transfer that is reopened is still purged, while it is pending.\<close>

definition ex_transfer :: BridgeTransfer where
  "ex_transfer = \<lparr>bx_ID = ''x'', bx_Bridge = ''across'', bx_BridgeType = ThirdParty, bx_SourceChain = 1, bx_DestChain = 10, bx_Token = ''USDC'',
     bx_AmountUSD = 1000, bx_Status = '''', bx_InitiatedMs = 10, bx_ChallengeEndMs = 0, bx_EstFinalizeMs = 0, bx_FinalizedMs = 0,
     bx_SourceTxHash = '''', bx_DestTxHash = ''''\<rparr>"

theorem a_reopened_transfer_is_purged:
  "\<exists>es. map bx_Status (ActiveTransfers (\<lambda>ts. ts) (foldl bridge_step NewMonitor es)) = [StatusPending] \<and>
        ActiveTransfers (\<lambda>ts. ts) (bridge_step (foldl bridge_step NewMonitor es) (BPurge 5000 1000)) = []"
proof -
  let ?es = "[BTrack 10 ex_transfer, BStatus 100 ''x'' StatusFinalized '''', BStatus 200 ''x'' StatusPending '''']"
  show ?thesis
    by (rule exI [of _ ?es])
       (simp add: TrackTransfer_def fill_transfer_def UpdateStatus_def PurgeFinalized_def ActiveTransfers_def NewMonitor_def ex_transfer_def Let_def)
qed

lemma a_purge_keeps_the_transfers_in_flight_witness:
  "let m = bridge_step NewMonitor (BTrack 10 ex_transfer) in
   length (ActiveTransfers (\<lambda>ts. ts) (snd (PurgeFinalized 5000 1000 m))) = 1"
proof -
  have "bridge_run (bridge_step NewMonitor (BTrack 10 ex_transfer))"
    by (rule next_event [OF start]) (simp add: ex_transfer_def)
  from a_purge_keeps_the_transfers_in_flight [OF this, of "\<lambda>ts. ts" 5000 1000]
  show ?thesis
    by (simp add: Let_def) (simp add: ActiveTransfers_def TrackTransfer_def fill_transfer_def NewMonitor_def ex_transfer_def Let_def)
qed

section \<open>Concrete arbitrage\<close>

definition ex_l2_config :: L2Config where
  "ex_l2_config = \<lparr>l2_Enabled = True, l2_PreferNetwork = NetworkArbitrum, l2_MaxGasGwei = 1, l2_MinSavingsUSD = 0\<rparr>"

definition ex_l2_arb :: BridgeArbConfig where
  "ex_l2_arb = \<lparr>ba_Enabled = True, ba_MinEdgeBps = 10, ba_MaxNotionalUSD = 1000, ba_IntentTTLMs = 3000, ba_CooldownMs = 5000\<rparr>"

definition ex_l2_tracker :: BridgeArbTracker where
  "ex_l2_tracker = l2_updates [(NetworkArbitrum, ''ETH'', 2000, 0), (NetworkBase, ''ETH'', 2010, 0)] (NewBridgeArbTracker (Some ex_l2_config))"

lemma ex_l2_net: "BridgeEvaluate (\<lambda>xs. xs) ex_l2_arb ''t'' 1000 (\<lambda>_. []) ex_l2_tracker =
   (ex_l2_tracker\<lparr>bt_cooldown := [l2_cooldown_key ''ETH'' NetworkArbitrum NetworkBase \<mapsto> 1000]\<rparr>,
    [l2_intent ex_l2_arb ''t'' (newUUID []) 1000 ''ETH'' NetworkArbitrum NetworkBase 50 47 (3 / 10) (l2_cooldown_key ''ETH'' NetworkArbitrum NetworkBase)])"
  by (simp add: BridgeEvaluate_def ex_l2_arb_def ex_l2_tracker_def ex_l2_config_def l2_updates_def NewBridgeArbTracker_def BridgeUpdatePrice_def
        uniqueSymbols_def symbol_of_key_def l2_pairs_def consider_l2_def l2_direction_def offer_l2_def L2Estimate_def ChainIDs_def
        networkParams_def offer_def cooling_def l2_gate_def IsOnCooldown_def Mark_def l2_intent_def Let_def)

lemma bridge_intents_pay_for_the_bridge_witness:
  "\<exists>bt' i. BridgeEvaluate (\<lambda>xs. xs) ex_l2_arb ''t'' 1000 (\<lambda>_. []) ex_l2_tracker = (bt', [i]) \<and>
     em_EdgeBpsNet (ti_Expected i) = 47 \<and> l2_ok ex_l2_arb (map_of (bt_prices ex_l2_tracker)) 1000 i"
proof -
  let ?bt = "ex_l2_tracker\<lparr>bt_cooldown := [l2_cooldown_key ''ETH'' NetworkArbitrum NetworkBase \<mapsto> 1000]\<rparr>"
  obtain b'' out' where later: "BridgeEvaluate (\<lambda>xs. xs) ex_l2_arb ''t'' 2000 (\<lambda>_. [])
      (foldl (\<lambda>bt (net, sy, mid, ts). BridgeUpdatePrice net sy mid ts bt) ?bt []) = (b'', out')"
    by (cases "BridgeEvaluate (\<lambda>xs. xs) ex_l2_arb ''t'' 2000 (\<lambda>_. []) ?bt") simp
  from bridge_intents_pay_for_the_bridge [OF ex_l2_net _ later] show ?thesis
    unfolding ex_l2_net by (simp add: l2_intent_def edge_metrics_def ex_l2_arb_def)
qed

lemma bridge_statistics_agree_with_the_active_transfers_witness:
  "let m = bridge_step NewMonitor (BTrack 10 ex_transfer) in
   bs_ActiveTransfers (BridgeStats m) = int (length (ActiveTransfers (sort_key (\<lambda>t. - real_of_int (bx_InitiatedMs t))) m)) \<and>
   bs_PendingAmountUSD (BridgeStats m) = 1000"
proof -
  let ?m = "bridge_step NewMonitor (BTrack 10 ex_transfer)"
  have "known_statuses ?m"
    by (simp add: known_statuses_def TrackTransfer_def fill_transfer_def NewMonitor_def ex_transfer_def)
  from bridge_statistics_agree_with_the_active_transfers [OF this sorts_by_sort_key]
  show ?thesis
    by (simp add: Let_def)
       (simp add: ActiveTransfers_def TrackTransfer_def fill_transfer_def NewMonitor_def ex_transfer_def)
qed

end
