(* ===== verification/Triangular.thy ===== *)
theory Triangular
  imports Interfaces
begin

text \<open>
  internal/triangular/engine.go: cycles of three pairs of one venue.  The model is about quotes with
  positive prices: the rate of a cycle through an ask of zero is infinite in Go.
\<close>

section \<open>Types\<close>

record Triangle =
  tr_Name :: string
  tr_PairAB :: string
  tr_PairBC :: string
  tr_PairCA :: string
  tr_Venue :: string

record PairQuote =
  pq_Symbol :: string
  pq_Venue :: string
  pq_Bid :: float64
  pq_Ask :: float64
  pq_BidQty :: float64
  pq_AskQty :: float64
  pq_TsMs :: int64

record TriStep =
  st_Pair :: string
  st_Action :: string
  st_Price :: float64
  st_Qty :: float64

record TriOpportunity =
  to_Triangle :: string
  to_Venue :: string
  to_Direction :: string
  to_GrossEdgeBps :: float64
  to_NetEdgeBps :: float64
  to_NotionalUSD :: float64
  to_Steps :: "TriStep list"
  to_TsMs :: int64

record TriConfig =
  tc_Triangles :: "Triangle list"
  tc_MinEdgeBps :: float64
  tc_MaxSlippageBps :: float64
  tc_FeeBpsTaker :: float64
  tc_MaxNotionalUSD :: float64
  tc_CooldownMs :: int64
  tc_StaleMs :: int64

record TriEngine =
  te_cfg :: TriConfig
  te_quotes :: "string \<rightharpoonup> PairQuote"
  te_lastEmit :: "string \<rightharpoonup> int64"

definition NewTriEngine :: "TriConfig \<Rightarrow> TriEngine" where
  "NewTriEngine cfg = \<lparr>te_cfg = cfg, te_quotes = Map.empty, te_lastEmit = Map.empty\<rparr>"

definition TriUpdateQuote :: "PairQuote \<Rightarrow> TriEngine \<Rightarrow> TriEngine" where
  "TriUpdateQuote q e = e\<lparr>te_quotes := (te_quotes e)(pq_Venue q @ '':'' @ pq_Symbol q \<mapsto> q)\<rparr>"

section \<open>The scan\<close>

definition triangleSize :: "PairQuote \<Rightarrow> PairQuote \<Rightarrow> PairQuote \<Rightarrow> bool \<Rightarrow> float64" where
  "triangleSize qAB qBC qCA fwd =
     (if fwd then min (pq_AskQty qAB) (min (pq_AskQty qBC) (pq_BidQty qCA))
      else min (pq_BidQty qAB) (min (pq_BidQty qBC) (pq_AskQty qCA)))"

definition fwd_rate :: "PairQuote \<Rightarrow> PairQuote \<Rightarrow> PairQuote \<Rightarrow> float64" where
  "fwd_rate qAB qBC qCA = (1 / pq_Ask qAB) * (1 / pq_Ask qBC) * pq_Bid qCA"

definition rev_rate :: "PairQuote \<Rightarrow> PairQuote \<Rightarrow> PairQuote \<Rightarrow> float64" where
  "rev_rate qAB qBC qCA = pq_Bid qAB * pq_Bid qBC * (1 / pq_Ask qCA)"

definition tri_opportunity ::
  "TriConfig \<Rightarrow> int64 \<Rightarrow> Triangle \<Rightarrow> PairQuote \<Rightarrow> PairQuote \<Rightarrow> PairQuote \<Rightarrow> bool \<Rightarrow> TriOpportunity" where
  "tri_opportunity cfg now tri qAB qBC qCA fwd =
     (let edge = ((if fwd then fwd_rate qAB qBC qCA else rev_rate qAB qBC qCA) - 1) * 10000;
          price = (if fwd then pq_Ask qAB else pq_Bid qAB);
          maxQty = triangleSize qAB qBC qCA fwd;
          notional = min (maxQty * price) (tc_MaxNotionalUSD cfg)
      in \<lparr>to_Triangle = tr_Name tri, to_Venue = tr_Venue tri, to_Direction = (if fwd then ''FORWARD'' else ''REVERSE''),
          to_GrossEdgeBps = edge, to_NetEdgeBps = edge - tc_FeeBpsTaker cfg * 3, to_NotionalUSD = notional,
          to_Steps =
            (if fwd then
               [\<lparr>st_Pair = tr_PairAB tri, st_Action = ''BUY'', st_Price = pq_Ask qAB, st_Qty = notional / pq_Ask qAB\<rparr>,
                \<lparr>st_Pair = tr_PairBC tri, st_Action = ''BUY'', st_Price = pq_Ask qBC, st_Qty = 0\<rparr>,
                \<lparr>st_Pair = tr_PairCA tri, st_Action = ''SELL'', st_Price = pq_Bid qCA, st_Qty = 0\<rparr>]
             else
               [\<lparr>st_Pair = tr_PairAB tri, st_Action = ''SELL'', st_Price = pq_Bid qAB, st_Qty = notional / pq_Bid qAB\<rparr>,
                \<lparr>st_Pair = tr_PairBC tri, st_Action = ''SELL'', st_Price = pq_Bid qBC, st_Qty = 0\<rparr>,
                \<lparr>st_Pair = tr_PairCA tri, st_Action = ''BUY'', st_Price = pq_Ask qCA, st_Qty = 0\<rparr>]),
          to_TsMs = now\<rparr>)"

type_synonym tri_state = "(string \<rightharpoonup> int64) \<times> TriOpportunity list"

definition emit_direction ::
  "TriConfig \<Rightarrow> int64 \<Rightarrow> Triangle \<Rightarrow> PairQuote \<Rightarrow> PairQuote \<Rightarrow> PairQuote \<Rightarrow> bool \<Rightarrow> tri_state \<Rightarrow> tri_state" where
  "emit_direction cfg now tri qAB qBC qCA fwd st =
     (let opp = tri_opportunity cfg now tri qAB qBC qCA fwd in
      if to_NetEdgeBps opp \<ge> tc_MinEdgeBps cfg then ((fst st)(tr_Name tri \<mapsto> now), snd st @ [opp]) else st)"

definition scan_triangle :: "TriConfig \<Rightarrow> (string \<rightharpoonup> PairQuote) \<Rightarrow> int64 \<Rightarrow> tri_state \<Rightarrow> Triangle \<Rightarrow> tri_state" where
  "scan_triangle cfg quotes now st tri =
     (if now - map_get 0 (fst st) (tr_Name tri) < tc_CooldownMs cfg then st
      else case (quotes (tr_Venue tri @ '':'' @ tr_PairAB tri), quotes (tr_Venue tri @ '':'' @ tr_PairBC tri),
                 quotes (tr_Venue tri @ '':'' @ tr_PairCA tri)) of
          (Some qAB, Some qBC, Some qCA) \<Rightarrow>
            (if now - pq_TsMs qAB > tc_StaleMs cfg \<or> now - pq_TsMs qBC > tc_StaleMs cfg \<or> now - pq_TsMs qCA > tc_StaleMs cfg then st
             else emit_direction cfg now tri qAB qBC qCA False (emit_direction cfg now tri qAB qBC qCA True st))
        | _ \<Rightarrow> st)"

definition TriScan :: "int64 \<Rightarrow> TriEngine \<Rightarrow> TriEngine \<times> TriOpportunity list" where
  "TriScan now e =
     (let (emitted, opps) = foldl (scan_triangle (te_cfg e) (te_quotes e) now) (te_lastEmit e, []) (tc_Triangles (te_cfg e))
      in (e\<lparr>te_lastEmit := emitted\<rparr>, opps))"

definition TriStats :: "TriEngine \<Rightarrow> string \<rightharpoonup> int64" where
  "TriStats e = te_lastEmit e"

definition ToIntentID :: "TriOpportunity \<Rightarrow> string" where
  "ToIntentID op = ''tri-'' @ to_Triangle op @ ''-'' @ to_Direction op @ ''-'' @ show_int (to_TsMs op)"

section \<open>What a cycle earns\<close>

text \<open>What is left of a start amount after three trades at the quoted prices, each paying the taker fee.\<close>

definition cycle_result :: "float64 \<Rightarrow> float64 \<Rightarrow> float64 \<Rightarrow> float64" where
  "cycle_result feeBps rate amount = amount * rate * (1 - feeBps / 10000) ^ 3"

lemma cube_ge:
  fixes f :: real
  assumes "0 \<le> f" "f \<le> 1"
  shows "1 - 3 * f \<le> (1 - f) ^ 3"
proof -
  have "(1 - f) ^ 3 = 1 - 3 * f + f\<^sup>2 * (3 - f)" by (simp add: power3_eq_cube power2_eq_square algebra_simps)
  moreover have "0 \<le> f\<^sup>2 * (3 - f)" using assms by simp
  ultimately show ?thesis by simp
qed

definition tri_rate :: "TriOpportunity \<Rightarrow> float64" where
  "tri_rate op = 1 + to_GrossEdgeBps op / 10000"

text \<open>A tradable cycle: positive quotes that are not crossed.\<close>

definition uncrossed :: "PairQuote \<Rightarrow> bool" where
  "uncrossed q \<longleftrightarrow> 0 < pq_Bid q \<and> pq_Bid q \<le> pq_Ask q"

text \<open>No cycle earns in both directions.\<close>

lemma rates_product:
  assumes "uncrossed a" "uncrossed b" "uncrossed c"
  shows "0 < fwd_rate a b c" "0 < rev_rate a b c" "fwd_rate a b c * rev_rate a b c \<le> 1"
proof -
  have pos: "0 < pq_Bid a" "0 < pq_Bid b" "0 < pq_Bid c" "0 < pq_Ask a" "0 < pq_Ask b" "0 < pq_Ask c"
    using assms by (auto simp: uncrossed_def)
  then show "0 < fwd_rate a b c" "0 < rev_rate a b c" by (simp_all add: fwd_rate_def rev_rate_def)
  have "fwd_rate a b c * rev_rate a b c = (pq_Bid a / pq_Ask a) * (pq_Bid b / pq_Ask b) * (pq_Bid c / pq_Ask c)"
    by (simp add: fwd_rate_def rev_rate_def)
  also have "\<dots> \<le> 1 * 1 * 1"
    using assms pos by (intro mult_mono) (auto simp: uncrossed_def)
  finally show "fwd_rate a b c * rev_rate a b c \<le> 1" by simp
qed

lemma one_direction:
  assumes "uncrossed a" "uncrossed b" "uncrossed c" "0 < tc_MinEdgeBps cfg + tc_FeeBpsTaker cfg * 3"
    and "tc_MinEdgeBps cfg \<le> to_NetEdgeBps (tri_opportunity cfg now tri a b c True)"
  shows "to_NetEdgeBps (tri_opportunity cfg now tri a b c False) < tc_MinEdgeBps cfg"
proof (rule ccontr)
  assume "\<not> to_NetEdgeBps (tri_opportunity cfg now tri a b c False) < tc_MinEdgeBps cfg"
  with assms(4,5) have "1 < fwd_rate a b c" "1 < rev_rate a b c" by (auto simp: tri_opportunity_def Let_def)
  then have "1 < fwd_rate a b c * rev_rate a b c" by (simp add: less_1_mult)
  with rates_product(3) [OF assms(1-3)] show False by simp
qed

section \<open>The cooldown of a triangle\<close>

definition tri_hot :: "(string \<rightharpoonup> int64) \<Rightarrow> string \<Rightarrow> int64 \<Rightarrow> int64 \<Rightarrow> bool" where
  "tri_hot m name now ttl \<longleftrightarrow> now - map_get 0 m name < ttl"

definition tri_mark :: "(string \<rightharpoonup> int64) \<Rightarrow> string \<Rightarrow> int64 \<Rightarrow> string \<rightharpoonup> int64" where
  "tri_mark m name now = m(name \<mapsto> now)"

interpretation tri_gate: cooldown_gate tri_hot tri_mark
  by unfold_locales (auto simp: tri_hot_def tri_mark_def)

definition quotes_ok :: "TriEngine \<Rightarrow> bool" where
  "quotes_ok e \<longleftrightarrow> (\<forall>k q. te_quotes e k = Some q \<longrightarrow> uncrossed q) \<and> 0 < tc_MinEdgeBps (te_cfg e) + tc_FeeBpsTaker (te_cfg e) * 3"

definition tri_ok :: "TriConfig \<Rightarrow> int64 \<Rightarrow> TriOpportunity \<Rightarrow> bool" where
  "tri_ok cfg now op \<longleftrightarrow> tc_MinEdgeBps cfg \<le> to_NetEdgeBps op \<and> to_NetEdgeBps op = to_GrossEdgeBps op - tc_FeeBpsTaker cfg * 3 \<and>
     to_NotionalUSD op \<le> tc_MaxNotionalUSD cfg \<and> to_TsMs op = now"

lemma tri_opportunity_ok:
  "tc_MinEdgeBps cfg \<le> to_NetEdgeBps (tri_opportunity cfg now tri a b c d) \<Longrightarrow>
     tri_ok cfg now (tri_opportunity cfg now tri a b c d) \<and> to_Triangle (tri_opportunity cfg now tri a b c d) = tr_Name tri"
  by (simp add: tri_ok_def tri_opportunity_def Let_def)

lemma scan_triangle_cases:
  assumes "\<forall>k q. quotes k = Some q \<longrightarrow> uncrossed q" "0 < tc_MinEdgeBps cfg + tc_FeeBpsTaker cfg * 3"
  shows "scan_triangle cfg quotes now st tri = st \<or>
    (\<exists>op. \<not> tri_hot (fst st) (tr_Name tri) now (tc_CooldownMs cfg) \<and> tri_ok cfg now op \<and> to_Triangle op = tr_Name tri \<and>
       scan_triangle cfg quotes now st tri = (tri_mark (fst st) (tr_Name tri) now, snd st @ [op]))"
proof (cases "tri_hot (fst st) (tr_Name tri) now (tc_CooldownMs cfg) \<or>
    quotes (tr_Venue tri @ '':'' @ tr_PairAB tri) = None \<or> quotes (tr_Venue tri @ '':'' @ tr_PairBC tri) = None \<or>
    quotes (tr_Venue tri @ '':'' @ tr_PairCA tri) = None")
  case True
  then show ?thesis by (auto simp: scan_triangle_def tri_hot_def split: option.splits)
next
  case False
  then obtain a b c where q: "quotes (tr_Venue tri @ '':'' @ tr_PairAB tri) = Some a"
    "quotes (tr_Venue tri @ '':'' @ tr_PairBC tri) = Some b" "quotes (tr_Venue tri @ '':'' @ tr_PairCA tri) = Some c" by auto
  then have u: "uncrossed a" "uncrossed b" "uncrossed c" using assms(1) by auto
  let ?op = "tri_opportunity cfg now tri a b c"
  have cool: "\<not> tri_hot (fst st) (tr_Name tri) now (tc_CooldownMs cfg)" using False by blast
  have s: "scan_triangle cfg quotes now st tri = st \<or>
      scan_triangle cfg quotes now st tri = emit_direction cfg now tri a b c False (emit_direction cfg now tri a b c True st)"
    using q by (simp add: scan_triangle_def)
  consider "tc_MinEdgeBps cfg \<le> to_NetEdgeBps (?op True)" "to_NetEdgeBps (?op False) < tc_MinEdgeBps cfg"
    | "to_NetEdgeBps (?op True) < tc_MinEdgeBps cfg" "tc_MinEdgeBps cfg \<le> to_NetEdgeBps (?op False)"
    | "to_NetEdgeBps (?op True) < tc_MinEdgeBps cfg" "to_NetEdgeBps (?op False) < tc_MinEdgeBps cfg"
    using one_direction [OF u assms(2)] by fastforce
  then show ?thesis
  proof cases
    case 1
    then have "emit_direction cfg now tri a b c False (emit_direction cfg now tri a b c True st) =
        (tri_mark (fst st) (tr_Name tri) now, snd st @ [?op True])" by (simp add: emit_direction_def Let_def tri_mark_def)
    with s cool tri_opportunity_ok [OF 1(1)] show ?thesis by metis
  next
    case 2
    then have "emit_direction cfg now tri a b c False (emit_direction cfg now tri a b c True st) =
        (tri_mark (fst st) (tr_Name tri) now, snd st @ [?op False])" by (simp add: emit_direction_def Let_def tri_mark_def)
    with s cool tri_opportunity_ok [OF 2(2)] show ?thesis by metis
  next
    case 3
    with s show ?thesis by (simp add: emit_direction_def Let_def)
  qed
qed

text \<open>
  A scan of uncrossed quotes gives at most one opportunity for each name of a triangle and none inside
  the cooldown, and each has the minimum edge after fees and at most the maximal notional.
\<close>

theorem a_scan_gives_each_triangle_one_opportunity:
  assumes "quotes_ok e" "TriScan now e = (e', opps)" "0 < tc_CooldownMs (te_cfg e)"
    and "TriScan now' (foldl (\<lambda>e q. TriUpdateQuote q e) e' qs) = (e'', opps')" "\<forall>q\<in>set qs. uncrossed q"
  shows "distinct (map to_Triangle opps) \<and> (\<forall>op\<in>set opps. tri_ok (te_cfg e) now op) \<and>
         (\<forall>op\<in>set opps. \<forall>op'\<in>set opps'. to_Triangle op = to_Triangle op' \<longrightarrow> tc_CooldownMs (te_cfg e) \<le> now' - now)"
proof -
  have scan: "\<exists>new. TriScan t x = (x\<lparr>te_lastEmit := foldl (\<lambda>g k. tri_mark g k t) (te_lastEmit x) (map to_Triangle new)\<rparr>, new) \<and>
      (\<forall>op\<in>set new. tri_ok (te_cfg x) t op) \<and> distinct (map to_Triangle new) \<and>
      (\<forall>op\<in>set new. \<not> tri_hot (te_lastEmit x) (to_Triangle op) t (tc_CooldownMs (te_cfg x)))"
    if "quotes_ok x" "0 < tc_CooldownMs (te_cfg x)" for x t
  proof -
    have "\<exists>new. foldl (scan_triangle (te_cfg x) (te_quotes x) t) (te_lastEmit x, []) (tc_Triangles (te_cfg x)) =
        (foldl (\<lambda>g k. tri_mark g k t) (te_lastEmit x) (map to_Triangle new), [] @ new) \<and> (\<forall>op\<in>set new. tri_ok (te_cfg x) t op) \<and>
        distinct (map to_Triangle new) \<and> (\<forall>op\<in>set new. \<not> tri_hot (te_lastEmit x) (to_Triangle op) t (tc_CooldownMs (te_cfg x)))"
    proof (rule tri_gate.gated_foldl)
      fix st tri
      show "scan_triangle (te_cfg x) (te_quotes x) t st tri = st \<or>
          (\<exists>op. \<not> tri_hot (fst st) (to_Triangle op) t (tc_CooldownMs (te_cfg x)) \<and> tri_ok (te_cfg x) t op \<and>
             scan_triangle (te_cfg x) (te_quotes x) t st tri = (tri_mark (fst st) (to_Triangle op) t, snd st @ [op]))"
        using scan_triangle_cases [of "te_quotes x" "te_cfg x" t st tri] that(1) unfolding quotes_ok_def by metis
    qed (rule that(2))
    then show ?thesis by (auto simp: TriScan_def)
  qed
  from scan [OF assms(1,3), of now] assms(2)
  have first: "te_cfg e' = te_cfg e" "te_quotes e' = te_quotes e" "te_lastEmit e' = foldl (\<lambda>g k. tri_mark g k now) (te_lastEmit e) (map to_Triangle opps)"
    "\<forall>op\<in>set opps. tri_ok (te_cfg e) now op" "distinct (map to_Triangle opps)" by auto
  let ?x = "foldl (\<lambda>e q. TriUpdateQuote q e) e' qs"
  have x: "te_cfg ?x = te_cfg e" "te_lastEmit ?x = te_lastEmit e'" "quotes_ok ?x"
  proof -
    have "te_cfg (foldl (\<lambda>e q. TriUpdateQuote q e) y qs) = te_cfg y \<and> te_lastEmit (foldl (\<lambda>e q. TriUpdateQuote q e) y qs) = te_lastEmit y \<and>
        quotes_ok (foldl (\<lambda>e q. TriUpdateQuote q e) y qs)" if "quotes_ok y" for y
      using that assms(5)
      by (induction qs rule: rev_induct) (auto simp: TriUpdateQuote_def quotes_ok_def)
    moreover have "quotes_ok e'" using assms(1) first(1,2) by (simp add: quotes_ok_def)
    ultimately show "te_cfg ?x = te_cfg e" "te_lastEmit ?x = te_lastEmit e'" "quotes_ok ?x" using first(1) by auto
  qed
  have "tc_CooldownMs (te_cfg e) \<le> now' - now" if "op \<in> set opps" "op' \<in> set opps'" "to_Triangle op = to_Triangle op'" for op op'
  proof -
    have "\<not> tri_hot (te_lastEmit e') (to_Triangle op') now' (tc_CooldownMs (te_cfg e))"
      using scan [OF x(3), of now'] assms(3,4) x(1,2) that(2) by auto
    moreover have "to_Triangle op' \<in> set (map to_Triangle opps)" using that by (metis image_eqI set_map)
    ultimately show ?thesis unfolding first(3) tri_gate.hot_mark_list by simp
  qed
  with first show ?thesis by blast
qed

text \<open>
  The net edge subtracts the fees instead of compounding them.  It is still honest up to the fees on
  the edge itself: the cycle earns at least that much.
\<close>

theorem the_net_edge_is_earned_up_to_the_fees_on_the_edge:
  assumes "0 \<le> tc_FeeBpsTaker cfg" "tc_FeeBpsTaker cfg \<le> 10000" "0 \<le> amount" "uncrossed a" "uncrossed b" "uncrossed c"
  shows "amount * (to_NetEdgeBps (tri_opportunity cfg now tri a b c d) / 10000
                   - 3 * (tc_FeeBpsTaker cfg / 10000) * (to_GrossEdgeBps (tri_opportunity cfg now tri a b c d) / 10000))
         \<le> cycle_result (tc_FeeBpsTaker cfg) (tri_rate (tri_opportunity cfg now tri a b c d)) amount - amount"
proof -
  let ?op = "tri_opportunity cfg now tri a b c d" and ?f = "tc_FeeBpsTaker cfg / 10000"
  let ?r = "tri_rate ?op"
  have r: "?r = (if d then fwd_rate a b c else rev_rate a b c)" by (simp add: tri_rate_def tri_opportunity_def Let_def field_simps)
  then have "0 \<le> ?r" using rates_product(1,2) [OF assms(4-6)] by (simp add: less_imp_le)
  moreover have "1 - 3 * ?f \<le> (1 - ?f) ^ 3" using assms(1,2) by (intro cube_ge) simp_all
  ultimately have "amount * ?r * (1 - 3 * ?f) \<le> amount * ?r * (1 - ?f) ^ 3"
    using assms(3) by (intro mult_left_mono) simp_all
  moreover have "amount * ?r * (1 - 3 * ?f) - amount = amount * (to_NetEdgeBps ?op / 10000 - 3 * ?f * (to_GrossEdgeBps ?op / 10000))"
  proof -
    have net: "to_NetEdgeBps ?op / 10000 = to_GrossEdgeBps ?op / 10000 - 3 * ?f"
      by (simp add: tri_opportunity_def Let_def diff_divide_distrib)
    show ?thesis unfolding net tri_rate_def by (simp only: algebra_simps)
  qed
  ultimately show ?thesis by (simp add: cycle_result_def)
qed

section \<open>Concrete quotes\<close>

definition ex_tri :: Triangle where
  "ex_tri = \<lparr>tr_Name = ''BTC_ETH_USDT'', tr_PairAB = ''BTC/USDT'', tr_PairBC = ''ETH/BTC'', tr_PairCA = ''ETH/USDT'', tr_Venue = ''okx''\<rparr>"

definition ex_tri_config :: TriConfig where
  "ex_tri_config = \<lparr>tc_Triangles = [ex_tri], tc_MinEdgeBps = 10, tc_MaxSlippageBps = 5, tc_FeeBpsTaker = 5, tc_MaxNotionalUSD = 50000,
     tc_CooldownMs = 1000, tc_StaleMs = 500\<rparr>"

definition pair_quote :: "string \<Rightarrow> float64 \<Rightarrow> float64 \<Rightarrow> float64 \<Rightarrow> PairQuote" where
  "pair_quote symbol bid ask qty = \<lparr>pq_Symbol = symbol, pq_Venue = ''okx'', pq_Bid = bid, pq_Ask = ask, pq_BidQty = qty, pq_AskQty = qty, pq_TsMs = 5000\<rparr>"

definition ex_tri_engine :: TriEngine where
  "ex_tri_engine = foldl (\<lambda>e q. TriUpdateQuote q e) (NewTriEngine ex_tri_config)
     [pair_quote ''BTC/USDT'' 39990 40000 1, pair_quote ''ETH/BTC'' 0.0499 0.05 1, pair_quote ''ETH/USDT'' 2010 2020 1]"

abbreviation ex_op :: TriOpportunity where
  "ex_op \<equiv> tri_opportunity ex_tri_config 5100 ex_tri (pair_quote ''BTC/USDT'' 39990 40000 1) (pair_quote ''ETH/BTC'' 0.0499 0.05 1)
     (pair_quote ''ETH/USDT'' 2010 2020 1) True"

lemma ex_tri_scan: "TriScan 5100 ex_tri_engine = (ex_tri_engine\<lparr>te_lastEmit := [''BTC_ETH_USDT'' \<mapsto> 5100]\<rparr>, [ex_op])"
  by (simp add: TriScan_def ex_tri_engine_def TriUpdateQuote_def NewTriEngine_def ex_tri_config_def ex_tri_def pair_quote_def scan_triangle_def
        emit_direction_def tri_opportunity_def fwd_rate_def rev_rate_def triangleSize_def map_get_def Let_def)

lemma ex_tri_quotes: "quotes_ok ex_tri_engine"
  by (auto simp: quotes_ok_def ex_tri_engine_def TriUpdateQuote_def NewTriEngine_def ex_tri_config_def pair_quote_def uncrossed_def split: if_splits)

lemma a_scan_gives_each_triangle_one_opportunity_witness:
  "tri_ok ex_tri_config 5100 ex_op \<and> to_NetEdgeBps ex_op = 35"
proof -
  obtain e'' opps' where later: "TriScan 5200 (foldl (\<lambda>e q. TriUpdateQuote q e) (ex_tri_engine\<lparr>te_lastEmit := [''BTC_ETH_USDT'' \<mapsto> 5100]\<rparr>) []) = (e'', opps')"
    by (metis surj_pair)
  have "te_cfg ex_tri_engine = ex_tri_config" by (simp add: ex_tri_engine_def TriUpdateQuote_def NewTriEngine_def)
  with a_scan_gives_each_triangle_one_opportunity [OF ex_tri_quotes ex_tri_scan _ later]
  have "tri_ok ex_tri_config 5100 ex_op" by (simp add: ex_tri_config_def)
  then show ?thesis by (simp add: tri_opportunity_def fwd_rate_def pair_quote_def ex_tri_config_def Let_def)
qed

lemma the_net_edge_is_earned_up_to_the_fees_on_the_edge_witness:
  "1000 * (to_NetEdgeBps ex_op / 10000 - 3 * (5 / 10000) * (to_GrossEdgeBps ex_op / 10000)) \<le> cycle_result 5 (tri_rate ex_op) 1000 - 1000"
  using the_net_edge_is_earned_up_to_the_fees_on_the_edge [of ex_tri_config 1000 "pair_quote ''BTC/USDT'' 39990 40000 1"
      "pair_quote ''ETH/BTC'' 0.0499 0.05 1" "pair_quote ''ETH/USDT'' 2010 2020 1" 5100 ex_tri True]
  by (simp add: uncrossed_def ex_tri_config_def pair_quote_def)

text \<open>
  The size is the smallest of three quantities, whatever their currencies: here one bitcoin for
  40000 dollars, though the pairs quote but one ether, worth 2010 dollars.
\<close>

theorem the_size_mixes_the_currencies_of_the_legs:
  "to_NotionalUSD ex_op = 40000 \<and>
   pq_BidQty (pair_quote ''ETH/USDT'' 2010 2020 1) * pq_Bid (pair_quote ''ETH/USDT'' 2010 2020 1) = 2010"
  by (simp add: tri_opportunity_def triangleSize_def pair_quote_def ex_tri_config_def Let_def)

end
