(* ===== verification/Regime_Detector.thy ===== *)
theory Regime_Detector
  imports Sliding_Windows Sample_Sums
begin

text \<open>
  internal/regime/detector.go: the market regime of a symbol from its observations and a baseline.
  Every helper reads the clock itself; the readings of one call are the record \<open>regime_clocks\<close>.
\<close>

section \<open>Types\<close>

datatype MarketRegime = RegimeCalm | RegimeTrending | RegimeVolatile | RegimeCascade | OtherRegime string

record RegimeState =
  rs_Regime :: MarketRegime
  rs_VolatilityBps :: float64
  rs_TrendStrength :: float64
  rs_SpreadWidening :: float64
  rs_LiquidationScore :: float64
  rs_Confidence :: float64
  rs_TsMs :: int64

record StrategyAdjustment =
  sa_Regime :: MarketRegime
  sa_SizingMultiplier :: float64
  sa_MinEdgeMultiplier :: float64
  sa_MaxPositionMult :: float64
  sa_PassiveEnabled :: bool
  sa_AggressivenessLvl :: int

record RegimeObs =
  ro_Symbol :: string
  ro_Mid :: float64
  ro_SpreadBps :: float64
  ro_Volume1m :: float64
  ro_OI :: float64
  ro_TsMs :: int64

record baseline =
  bl_avgVolBps :: float64
  bl_avgSpreadBps :: float64
  bl_avgVolume1m :: float64
  bl_sampleCount :: int
  bl_lastUpdateMs :: int64

record Detector =
  rd_observations :: "string \<Rightarrow> RegimeObs list"
  rd_baselines :: "string \<rightharpoonup> baseline"
  rd_windowMs :: int64
  rd_maxObs :: nat

definition NewDetector :: "int64 \<Rightarrow> Detector" where
  "NewDetector windowMs = \<lparr>rd_observations = (\<lambda>_. []), rd_baselines = Map.empty, rd_windowMs = windowMs, rd_maxObs = 5000\<rparr>"

section \<open>Recording\<close>

definition regime_trimOld :: "int64 \<Rightarrow> string \<Rightarrow> Detector \<Rightarrow> Detector" where
  "regime_trimOld now symbol d =
     d\<lparr>rd_observations := (rd_observations d)(symbol := trim_window ro_TsMs (now - rd_windowMs d) (rd_maxObs d) (rd_observations d symbol))\<rparr>"

text \<open>The absolute returns between neighbours with positive prices.\<close>

fun base_returns :: "float64 \<Rightarrow> RegimeObs list \<Rightarrow> float64 list" where
  "base_returns prevMid [] = []"
| "base_returns prevMid (ob # obs) =
     (if prevMid > 0 \<and> ro_Mid ob > 0 then [\<bar>(ro_Mid ob - prevMid) / prevMid * 10000\<bar>] else []) @ base_returns (ro_Mid ob) obs"

definition base_obs :: "RegimeObs list \<Rightarrow> RegimeObs list" where
  "base_obs obs = take (length obs * 80 div 100) obs"

definition zero_baseline :: baseline where
  "zero_baseline = \<lparr>bl_avgVolBps = 0, bl_avgSpreadBps = 0, bl_avgVolume1m = 0, bl_sampleCount = 0, bl_lastUpdateMs = 0\<rparr>"

definition updateBaseline :: "int64 \<Rightarrow> string \<Rightarrow> Detector \<Rightarrow> Detector" where
  "updateBaseline now symbol d =
     (let obs = rd_observations d symbol in
      if length obs < 50 then d
      else
        (let bl = (case rd_baselines d symbol of None \<Rightarrow> zero_baseline | Some bl \<Rightarrow> bl);
             baseObs = base_obs obs; rets = base_returns 0 baseObs; n = real (length baseObs);
             bl = (if n > 0 then bl\<lparr>bl_avgSpreadBps := sum_of ro_SpreadBps baseObs / n, bl_avgVolume1m := sum_of ro_Volume1m baseObs / n,
                                    bl_sampleCount := int (length baseObs), bl_lastUpdateMs := now\<rparr> else bl);
             bl = (if rets \<noteq> [] then bl\<lparr>bl_avgVolBps := sum_list rets / real (length rets)\<rparr> else bl)
         in d\<lparr>rd_baselines := (rd_baselines d)(symbol \<mapsto> bl)\<rparr>))"

definition RegimeRecord :: "int64 \<Rightarrow> int64 \<Rightarrow> RegimeObs \<Rightarrow> Detector \<Rightarrow> Detector" where
  "RegimeRecord nowTrim nowBase ob d =
     updateBaseline nowBase (ro_Symbol ob)
       (regime_trimOld nowTrim (ro_Symbol ob)
         (d\<lparr>rd_observations := (rd_observations d)(ro_Symbol ob := rd_observations d (ro_Symbol ob) @ [ob])\<rparr>))"

section \<open>Detection\<close>

fun recent_returns :: "int64 \<Rightarrow> float64 \<Rightarrow> RegimeObs list \<Rightarrow> float64 list" where
  "recent_returns cutoff prevMid [] = []"
| "recent_returns cutoff prevMid (ob # obs) =
     (if ro_TsMs ob < cutoff then recent_returns cutoff (ro_Mid ob) obs
      else (if prevMid > 0 \<and> ro_Mid ob > 0 then [(ro_Mid ob - prevMid) / prevMid * 10000] else [])
           @ recent_returns cutoff (ro_Mid ob) obs)"

definition recentVolatility :: "int64 \<Rightarrow> RegimeObs list \<Rightarrow> int64 \<Rightarrow> float64" where
  "recentVolatility now obs windowMs =
     (let rets = recent_returns (now - windowMs) 0 obs in
      if length rets < 2 then 0
      else
        (let n = real (length rets); mean = sum_of (\<lambda>r. r) rets / n;
             variance = sum_of (\<lambda>r. r * r) rets / n - mean * mean
         in sqrt (max 0 variance)))"

definition trend_points :: "int64 \<Rightarrow> RegimeObs list \<Rightarrow> (float64 \<times> float64) list" where
  "trend_points cutoff obs =
     map (\<lambda>ob. (real_of_int (ro_TsMs ob - cutoff), ro_Mid ob)) (filter (\<lambda>ob. \<not> (ro_TsMs ob < cutoff \<or> ro_Mid ob = 0)) obs)"

definition trendStrength :: "int64 \<Rightarrow> RegimeObs list \<Rightarrow> int64 \<Rightarrow> float64" where
  "trendStrength now obs windowMs =
     (let pts = trend_points (now - windowMs) obs; n = length pts in
      if n < 5 then 0
      else
        (let sumX = sum_of fst pts; sumY = sum_of snd pts; sumXY = sum_of (\<lambda>p. fst p * snd p) pts; sumXX = sum_of (\<lambda>p. fst p * fst p) pts;
             nf = real n; denom = nf * sumXX - sumX * sumX
         in if denom = 0 then 0
            else
              (let slope = (nf * sumXY - sumX * sumY) / denom; avgMid = sumY / nf in
               if avgMid = 0 then 0
               else
                 (let slopeBpsPerSec = slope / avgMid * 10000 * 1000 in max (- 1) (min 1 (slopeBpsPerSec / 10))))))"

definition recentAvg :: "int64 \<Rightarrow> RegimeObs list \<Rightarrow> int64 \<Rightarrow> (RegimeObs \<Rightarrow> float64) \<Rightarrow> float64" where
  "recentAvg now obs windowMs extract =
     (let recent = filter (\<lambda>ob. ro_TsMs ob \<ge> now - windowMs) obs in
      if length recent = 0 then 0 else sum_of extract recent / real (length recent))"

definition liquidationScore :: "int64 \<Rightarrow> RegimeObs list \<Rightarrow> float64 \<Rightarrow> float64 \<Rightarrow> baseline \<Rightarrow> float64" where
  "liquidationScore now obs vol spreadRatio bl =
     (let volFactor = (if bl_avgVolBps bl > 0 then min 1 (vol / bl_avgVolBps bl / 5) else 0);
          spreadFactor = min 1 ((spreadRatio - 1) / 3);
          spreadFactor = (if spreadFactor < 0 then 0 else spreadFactor);
          volumeFactor = (if bl_avgVolume1m bl > 0 then min 1 (recentAvg now obs 60000 ro_Volume1m / bl_avgVolume1m bl / 3) else 0)
      in volFactor * 0.4 + spreadFactor * 0.35 + volumeFactor * 0.25)"

definition classifyRegime :: "float64 \<Rightarrow> float64 \<Rightarrow> float64 \<Rightarrow> float64 \<Rightarrow> baseline \<Rightarrow> MarketRegime" where
  "classifyRegime vol trend spreadRatio liqScore bl =
     (if liqScore > 0.7 \<and> spreadRatio > 2 then RegimeCascade
      else
        (let volRatio = (if bl_avgVolBps bl > 0 then vol / bl_avgVolBps bl else 1) in
         if volRatio > 3 \<or> spreadRatio > 2.5 then RegimeVolatile
         else if \<bar>trend\<bar> > 0.6 \<and> volRatio > 1.5 then RegimeTrending
         else RegimeCalm))"

record regime_clocks =
  ck_now :: int64
  ck_vol :: int64
  ck_trend :: int64
  ck_spread :: int64
  ck_volume :: int64

definition DetectRegime :: "regime_clocks \<Rightarrow> string \<Rightarrow> Detector \<Rightarrow> RegimeState" where
  "DetectRegime ck symbol d =
     (let obs = rd_observations d symbol in
      case (if length obs < 10 then None else rd_baselines d symbol) of
        None \<Rightarrow> \<lparr>rs_Regime = RegimeCalm, rs_VolatilityBps = 0, rs_TrendStrength = 0, rs_SpreadWidening = 0, rs_LiquidationScore = 0,
                  rs_Confidence = 0.1, rs_TsMs = ck_now ck\<rparr>
      | Some bl \<Rightarrow>
          (let recentVol = recentVolatility (ck_vol ck) obs 60000;
               trend = trendStrength (ck_trend ck) obs 60000;
               recentSpread = recentAvg (ck_spread ck) obs 60000 ro_SpreadBps;
               spreadRatio = (if bl_avgSpreadBps bl > 0 then recentSpread / bl_avgSpreadBps bl else 1);
               liqScore = liquidationScore (ck_volume ck) obs recentVol spreadRatio bl
           in \<lparr>rs_Regime = classifyRegime recentVol trend spreadRatio liqScore bl, rs_VolatilityBps = recentVol, rs_TrendStrength = trend,
               rs_SpreadWidening = spreadRatio, rs_LiquidationScore = liqScore, rs_Confidence = min 1 (real (length obs) / 100),
               rs_TsMs = ck_now ck\<rparr>))"

definition adjustmentForRegime :: "MarketRegime \<Rightarrow> StrategyAdjustment" where
  "adjustmentForRegime r =
     (case r of
        RegimeCalm \<Rightarrow> \<lparr>sa_Regime = r, sa_SizingMultiplier = 1.2, sa_MinEdgeMultiplier = 0.8, sa_MaxPositionMult = 1.2,
                        sa_PassiveEnabled = True, sa_AggressivenessLvl = 4\<rparr>
      | RegimeTrending \<Rightarrow> \<lparr>sa_Regime = r, sa_SizingMultiplier = 1, sa_MinEdgeMultiplier = 1, sa_MaxPositionMult = 1,
                            sa_PassiveEnabled = True, sa_AggressivenessLvl = 3\<rparr>
      | RegimeVolatile \<Rightarrow> \<lparr>sa_Regime = r, sa_SizingMultiplier = 0.5, sa_MinEdgeMultiplier = 1.5, sa_MaxPositionMult = 0.5,
                            sa_PassiveEnabled = False, sa_AggressivenessLvl = 2\<rparr>
      | RegimeCascade \<Rightarrow> \<lparr>sa_Regime = r, sa_SizingMultiplier = 0.25, sa_MinEdgeMultiplier = 2, sa_MaxPositionMult = 0.3,
                           sa_PassiveEnabled = False, sa_AggressivenessLvl = 1\<rparr>
      | OtherRegime _ \<Rightarrow> \<lparr>sa_Regime = RegimeCalm, sa_SizingMultiplier = 1, sa_MinEdgeMultiplier = 1, sa_MaxPositionMult = 1,
                           sa_PassiveEnabled = True, sa_AggressivenessLvl = 3\<rparr>)"

definition Adjustment :: "regime_clocks \<Rightarrow> string \<Rightarrow> Detector \<Rightarrow> StrategyAdjustment" where
  "Adjustment ck symbol d = adjustmentForRegime (rs_Regime (DetectRegime ck symbol d))"

section \<open>What is kept\<close>

lemma updateBaseline_simps [simp]:
  "rd_observations (updateBaseline now symbol d) = rd_observations d"
  "rd_windowMs (updateBaseline now symbol d) = rd_windowMs d"
  "rd_maxObs (updateBaseline now symbol d) = rd_maxObs d"
  by (simp_all add: updateBaseline_def Let_def)

interpretation regime_log: windowed_log rd_observations "\<lambda>d x. RegimeRecord (fst x) nowBase (snd x) d" ro_Symbol ro_TsMs rd_windowMs rd_maxObs
  for nowBase :: int64
  by unfold_locales (auto simp: RegimeRecord_def regime_trimOld_def)

section \<open>The measures of a detection\<close>

text \<open>The volatility is the standard deviation of the returns: the guard under the root is never needed.\<close>

lemma recentVolatility_deviation:
  assumes "rets = recent_returns (now - windowMs) 0 obs" "2 \<le> length rets"
  shows "recentVolatility now obs windowMs = sqrt (sum_of (\<lambda>r. (r - list_mean (\<lambda>r. r) rets)\<^sup>2) rets / real (length rets))"
proof -
  have ne: "rets \<noteq> []" using assms(2) by auto
  have "0 \<le> sum_of (\<lambda>r. (r - list_mean (\<lambda>r. r) rets)\<^sup>2) rets / real (length rets)" by (simp add: sum_of_nonneg)
  then show ?thesis
    using assms(2) variance_centred [OF ne, of "\<lambda>r. r"] unfolding recentVolatility_def assms(1) [symmetric] Let_def
    by (simp add: list_mean_def)
qed

text \<open>Prices on a straight line have the slope of the line, relative to their mean.\<close>

lemma trend_of_a_line:
  assumes "pts = trend_points (now - windowMs) obs" "5 \<le> length pts" "\<And>p. p \<in> set pts \<Longrightarrow> snd p = a + b * fst p"
    and "list_mean snd pts \<noteq> 0" "real (length pts) * sum_of (\<lambda>p. fst p * fst p) pts - sum_of fst pts * sum_of fst pts \<noteq> 0"
  shows "trendStrength now obs windowMs = max (- 1) (min 1 (b / list_mean snd pts * 1000000))"
  using assms(2,4,5) regression_of_a_line [of pts snd a b fst, OF assms(3)]
  unfolding trendStrength_def assms(1) [symmetric] Let_def by (simp add: list_mean_def mult.commute mult.left_commute)

lemma recentAvg_nonneg: "(\<And>ob. ob \<in> set obs \<Longrightarrow> 0 \<le> f ob) \<Longrightarrow> 0 \<le> recentAvg now obs w f"
  by (auto simp: recentAvg_def Let_def intro!: divide_nonneg_nonneg sum_of_nonneg)

lemma unit_factor: "0 \<le> x \<Longrightarrow> 0 \<le> min 1 x \<and> min 1 x \<le> (1 :: real)"
  by simp

lemma liquidationScore_range:
  assumes "0 \<le> vol" "\<And>ob. ob \<in> set obs \<Longrightarrow> 0 \<le> ro_Volume1m ob"
  shows "0 \<le> liquidationScore now obs vol spreadRatio bl \<and> liquidationScore now obs vol spreadRatio bl \<le> 1"
proof -
  have weighted: "0 \<le> x * 0.4 + y * 0.35 + z * 0.25 \<and> x * 0.4 + y * 0.35 + z * 0.25 \<le> (1 :: real)"
    if "0 \<le> x \<and> x \<le> 1" "0 \<le> y \<and> y \<le> 1" "0 \<le> z \<and> z \<le> 1" for x y z using that by auto
  have "0 \<le> recentAvg now obs 60000 ro_Volume1m" by (rule recentAvg_nonneg) (rule assms(2))
  then show ?thesis
    unfolding liquidationScore_def Let_def using assms(1) by (intro weighted) (auto simp: min_def not_less intro: unit_factor)
qed

lemma recentVolatility_nonneg: "0 \<le> recentVolatility now obs w"
  by (simp add: recentVolatility_def Let_def)

lemma trendStrength_range: "- 1 \<le> trendStrength now obs w \<and> trendStrength now obs w \<le> 1"
  by (simp add: trendStrength_def Let_def)

text \<open>
  Whatever was recorded, the state that is reported is in its ranges, one of the four regimes, and
  backed by at least ten observations unless its confidence is the lowest.
\<close>

theorem regime_states_are_within_their_ranges:
  assumes "\<forall>(now, ob)\<in>set xs. 0 \<le> ro_Volume1m ob \<and> 0 \<le> ro_SpreadBps ob"
    and "d = foldl (\<lambda>d x. RegimeRecord (fst x) nowBase (snd x) d) (NewDetector w) xs"
  shows "0 \<le> rs_VolatilityBps (DetectRegime ck symbol d) \<and>
         - 1 \<le> rs_TrendStrength (DetectRegime ck symbol d) \<and> rs_TrendStrength (DetectRegime ck symbol d) \<le> 1 \<and>
         0 \<le> rs_LiquidationScore (DetectRegime ck symbol d) \<and> rs_LiquidationScore (DetectRegime ck symbol d) \<le> 1 \<and>
         0.1 \<le> rs_Confidence (DetectRegime ck symbol d) \<and> rs_Confidence (DetectRegime ck symbol d) \<le> 1 \<and>
         (rs_Confidence (DetectRegime ck symbol d) = 0.1 \<or> 10 \<le> length (rd_observations d symbol)) \<and>
         length (rd_observations d symbol) \<le> 5000 \<and>
         rs_Regime (DetectRegime ck symbol d) \<in> {RegimeCalm, RegimeTrending, RegimeVolatile, RegimeCascade}"
proof -
  obtain old where old: "map snd (filter (\<lambda>x. ro_Symbol (snd x) = symbol) xs) = old @ rd_observations d symbol"
    using regime_log.run_suffix [of "NewDetector w" symbol xs nowBase] assms(2) by (auto simp: NewDetector_def)
  have "set (rd_observations d symbol) \<subseteq> snd ` set xs"
  proof -
    have "set (rd_observations d symbol) \<subseteq> set (map snd (filter (\<lambda>x. ro_Symbol (snd x) = symbol) xs))" unfolding old by simp
    then show ?thesis by auto
  qed
  then have vol: "0 \<le> ro_Volume1m ob" if "ob \<in> set (rd_observations d symbol)" for ob using assms(1) that by force
  have "rd_maxObs (NewDetector w) = 5000" "rd_observations (NewDetector w) symbol = []" by (simp_all add: NewDetector_def)
  then have len: "length (rd_observations d symbol) \<le> 5000"
    using regime_log.run_bounded [of "NewDetector w" symbol nowBase xs] assms(2) by simp
  have reg: "classifyRegime v t s l bl \<in> {RegimeCalm, RegimeTrending, RegimeVolatile, RegimeCascade}" for v t s l bl
    by (simp add: classifyRegime_def Let_def)
  show ?thesis
  proof (cases "if length (rd_observations d symbol) < 10 then None else rd_baselines d symbol")
    case None
    then show ?thesis using len by (simp add: DetectRegime_def)
  next
    case (Some bl)
    then have "10 \<le> length (rd_observations d symbol)" by (auto split: if_splits)
    moreover from this have "0.1 \<le> real (length (rd_observations d symbol)) / 100" by simp
    ultimately show ?thesis
      using len reg recentVolatility_nonneg trendStrength_range liquidationScore_range [OF recentVolatility_nonneg vol] Some
      by (simp add: DetectRegime_def Let_def)
  qed
qed

section \<open>How strategies adapt\<close>

fun severity :: "MarketRegime \<Rightarrow> nat" where
  "severity RegimeCalm = 0"
| "severity RegimeTrending = 1"
| "severity RegimeVolatile = 2"
| "severity RegimeCascade = 3"
| "severity (OtherRegime _) = 1"

text \<open>A worse regime means smaller sizes, more edge, smaller positions, less passive and less aggressive trading.\<close>

theorem worse_regimes_are_traded_more_carefully:
  assumes "severity r < severity r'"
  shows "sa_SizingMultiplier (adjustmentForRegime r') < sa_SizingMultiplier (adjustmentForRegime r) \<and>
         sa_MinEdgeMultiplier (adjustmentForRegime r) < sa_MinEdgeMultiplier (adjustmentForRegime r') \<and>
         sa_MaxPositionMult (adjustmentForRegime r') < sa_MaxPositionMult (adjustmentForRegime r) \<and>
         (sa_PassiveEnabled (adjustmentForRegime r') \<longrightarrow> sa_PassiveEnabled (adjustmentForRegime r)) \<and>
         sa_AggressivenessLvl (adjustmentForRegime r') < sa_AggressivenessLvl (adjustmentForRegime r)"
  using assms by (cases r; cases r') (simp_all add: adjustmentForRegime_def)

text \<open>
  More volatility and a wider spread never calm the market: with the same trend and baseline the
  regime gets no better.
\<close>

theorem worse_measures_give_no_better_regime:
  assumes "vol \<le> vol'" "spreadRatio \<le> spreadRatio'" "liq \<le> liq'"
  shows "severity (classifyRegime vol trend spreadRatio liq bl) \<le> severity (classifyRegime vol' trend spreadRatio' liq' bl)"
proof -
  let ?v = "\<lambda>v. if bl_avgVolBps bl > 0 then v / bl_avgVolBps bl else 1"
  have mono: "?v vol \<le> ?v vol'" using assms(1) by (simp add: divide_right_mono)
  have c: "severity (classifyRegime v t s l bl) = (if l > 0.7 \<and> s > 2 then 3 else if ?v v > 3 \<or> s > 2.5 then 2 else if \<bar>t\<bar> > 0.6 \<and> ?v v > 1.5 then 1 else 0)" for v t s l
    by (simp add: classifyRegime_def Let_def)
  have ladder: "(if A then 3 else if B then 2 else if C then 1 else 0) \<le> (if A' then 3 else if B' then 2 else if C' then 1 else (0 :: nat))"
    if "A \<Longrightarrow> A'" "B \<Longrightarrow> B'" "C \<Longrightarrow> C'" for A B C A' B' C' using that by auto
  show ?thesis
    unfolding c using assms(2,3) mono by (intro ladder) linarith+
qed

text \<open>A symbol that was never observed is calm: it is traded with larger sizes and less edge than a trending one.\<close>

theorem an_unobserved_symbol_is_sized_up:
  "rs_Regime (DetectRegime ck symbol (NewDetector w)) = RegimeCalm \<and> sa_SizingMultiplier (Adjustment ck symbol (NewDetector w)) = 1.2 \<and>
   sa_MinEdgeMultiplier (Adjustment ck symbol (NewDetector w)) = 0.8 \<and> rs_Confidence (DetectRegime ck symbol (NewDetector w)) = 0.1"
  by (simp add: Adjustment_def DetectRegime_def NewDetector_def adjustmentForRegime_def)

section \<open>Concrete observations\<close>

lemma worse_regimes_are_traded_more_carefully_witness:
  "sa_SizingMultiplier (adjustmentForRegime RegimeCascade) < sa_SizingMultiplier (adjustmentForRegime RegimeCalm)"
  using worse_regimes_are_traded_more_carefully [of RegimeCalm RegimeCascade] by simp

lemma worse_measures_give_no_better_regime_witness:
  "severity (classifyRegime 2 0.9 1 0.1 (zero_baseline\<lparr>bl_avgVolBps := 1\<rparr>)) = 1 \<and>
   1 \<le> severity (classifyRegime 4 0.9 3 0.8 (zero_baseline\<lparr>bl_avgVolBps := 1\<rparr>))"
  using worse_measures_give_no_better_regime [of 2 4 1 3 "0.1" "0.8" "0.9" "zero_baseline\<lparr>bl_avgVolBps := 1\<rparr>"]
  by (simp add: classifyRegime_def)

definition ex_obs :: "int \<Rightarrow> int64 \<times> RegimeObs" where
  "ex_obs i = (i, \<lparr>ro_Symbol = ''BTC-PERP'', ro_Mid = 100, ro_SpreadBps = 1, ro_Volume1m = 5, ro_OI = 0, ro_TsMs = i\<rparr>)"

lemma regime_states_are_within_their_ranges_witness:
  "rs_TrendStrength (DetectRegime \<lparr>ck_now = 9, ck_vol = 9, ck_trend = 9, ck_spread = 9, ck_volume = 9\<rparr> ''BTC-PERP''
     (foldl (\<lambda>d x. RegimeRecord (fst x) 9 (snd x) d) (NewDetector 1000) (map ex_obs [1..60]))) \<le> 1"
proof -
  have "\<forall>(now, ob)\<in>set (map ex_obs [1..60]). 0 \<le> ro_Volume1m ob \<and> 0 \<le> ro_SpreadBps ob" by (auto simp: ex_obs_def)
  from regime_states_are_within_their_ranges [OF this refl] show ?thesis by blast
qed

end
