(* ===== verification/Fair_Value.thy ===== *)
theory Fair_Value
  imports Sample_Sums Interfaces
begin

text \<open>
  internal/fairvalue/engine.go: the fair value of a symbol from the quotes of its venues, weighted by
  leadership, depth, latency and reliability and smoothed over time.
\<close>

section \<open>Types\<close>

record VenueInput =
  vi_Venue :: string
  vi_Mid :: float64
  vi_BestBid :: float64
  vi_BestAsk :: float64
  vi_DepthUSD :: float64
  vi_LatencyUs :: int64
  vi_LeadPct :: float64
  vi_Reliability :: float64
  vi_TsMs :: int64

record VenueWeight =
  vw_Venue :: string
  vw_Weight :: float64
  vw_Mid :: float64

record FairValue =
  fv_Symbol :: string
  fv_Mid :: float64
  fv_BuyExec :: float64
  fv_SellExec :: float64
  fv_Confidence :: float64
  fv_VenueWeights :: "VenueWeight list"
  fv_TsMs :: int64

record FVConfig =
  fc_StaleMs :: int64
  fc_MinVenues :: int
  fc_DepthRefUSD :: float64
  fc_LatencyRefUs :: int64
  fc_LeadershipAlpha :: float64
  fc_DepthAlpha :: float64
  fc_LatencyAlpha :: float64
  fc_ReliabilityAlpha :: float64
  fc_EWADecay :: float64
  fc_BaseWeights :: "string \<rightharpoonup> float64"

definition FVDefaultConfig :: FVConfig where
  "FVDefaultConfig = \<lparr>fc_StaleMs = 2000, fc_MinVenues = 2, fc_DepthRefUSD = 500000, fc_LatencyRefUs = 100000,
     fc_LeadershipAlpha = 0.35, fc_DepthAlpha = 0.25, fc_LatencyAlpha = 0.20, fc_ReliabilityAlpha = 0.20, fc_EWADecay = 0.95,
     fc_BaseWeights = [''binance'' \<mapsto> 1, ''okx'' \<mapsto> 0.9, ''bybit'' \<mapsto> 0.85, ''deribit'' \<mapsto> 0.80]\<rparr>"

text \<open>A missing map of weights for a symbol and an empty one are not told apart.\<close>

record FVEngine =
  fe_cfg :: FVConfig
  fe_ewa :: "string \<Rightarrow> string \<rightharpoonup> float64"

definition NewFVEngine :: "FVConfig \<Rightarrow> FVEngine" where
  "NewFVEngine cfg = \<lparr>fe_cfg = cfg, fe_ewa = (\<lambda>_. Map.empty)\<rparr>"

section \<open>The computation\<close>

definition venueScore :: "FVConfig \<Rightarrow> VenueInput \<Rightarrow> float64" where
  "venueScore cfg inp =
     (let base = map_get 0 (fc_BaseWeights cfg) (vi_Venue inp);
          base = (if base = 0 then 0.1 else base);
          leaderFactor = vi_LeadPct inp / 100;
          leaderFactor = (if leaderFactor < 0.01 then 0.01 else leaderFactor);
          depthFactor = min 2 (vi_DepthUSD inp / fc_DepthRefUSD cfg);
          depthFactor = (if depthFactor < 0.01 then 0.01 else depthFactor);
          latencyFactor = (if vi_LatencyUs inp > 0
                           then min 2 (max 0.1 (real_of_int (fc_LatencyRefUs cfg) / real_of_int (vi_LatencyUs inp))) else 1);
          relFactor = max 0.1 (vi_Reliability inp)
      in max 0.001 (base * (fc_LeadershipAlpha cfg * leaderFactor + fc_DepthAlpha cfg * depthFactor +
                            fc_LatencyAlpha cfg * latencyFactor + fc_ReliabilityAlpha cfg * relFactor)))"

definition fv_confidence :: "VenueInput list \<Rightarrow> float64 \<Rightarrow> float64" where
  "fv_confidence inputs fvMid =
     (let n = length inputs in
      if n = 0 \<or> fvMid = 0 then 0
      else
        (let venueFactor = min 1 (real n / 4);
             sumDevSq = sum_of (\<lambda>inp. (vi_Mid inp - fvMid) / fvMid * 10000 * ((vi_Mid inp - fvMid) / fvMid * 10000)) inputs;
             rmsDev = sqrt (sumDevSq / real n);
             agreementFactor = max 0 (1 - rmsDev / 50);
             depthFactor = min 1 (sum_of vi_DepthUSD inputs / 1000000)
         in venueFactor * 0.4 + agreementFactor * 0.4 + depthFactor * 0.2))"

definition raw_scores :: "FVConfig \<Rightarrow> VenueInput list \<Rightarrow> (string \<times> float64) list" where
  "raw_scores cfg fresh = foldl (\<lambda>m inp. AList.update (vi_Venue inp) (venueScore cfg inp) m) [] fresh"

definition smooth :: "float64 \<Rightarrow> (string \<rightharpoonup> float64) \<Rightarrow> string \<times> float64 \<Rightarrow> string \<times> float64" where
  "smooth decay ewa vw = (case vw of (v, w) \<Rightarrow> (v, case ewa v of Some prev \<Rightarrow> decay * prev + (1 - decay) * w | None \<Rightarrow> w))"

definition ComputeFairValue :: "int64 \<Rightarrow> string \<Rightarrow> VenueInput list \<Rightarrow> FVEngine \<Rightarrow> FVEngine \<times> FairValue option" where
  "ComputeFairValue now symbol inputs e =
     (let cfg = fe_cfg e; fresh = filter (\<lambda>inp. now - vi_TsMs inp \<le> fc_StaleMs cfg) inputs in
      if int (length fresh) < fc_MinVenues cfg then (e, None)
      else
        (let rawScores = raw_scores cfg fresh; totalRaw = sum_of (venueScore cfg) fresh in
         if totalRaw = 0 then (e, None)
         else
           (let weights = map (\<lambda>(v, s). (v, s / totalRaw)) rawScores;
                weights = map (smooth (fc_EWADecay cfg) (fe_ewa e symbol)) weights;
                e' = e\<lparr>fe_ewa := (fe_ewa e)(symbol := fe_ewa e symbol ++ map_of weights)\<rparr>;
                totalW = sum_of snd weights;
                w = map_get 0 (map_of (map (\<lambda>(v, x). (v, x / totalW)) weights));
                fvMid = sum_of (\<lambda>inp. w (vi_Venue inp) * vi_Mid inp) fresh
            in (e', Some \<lparr>fv_Symbol = symbol, fv_Mid = fvMid,
                          fv_BuyExec = sum_of (\<lambda>inp. w (vi_Venue inp) * vi_BestAsk inp) fresh,
                          fv_SellExec = sum_of (\<lambda>inp. w (vi_Venue inp) * vi_BestBid inp) fresh,
                          fv_Confidence = fv_confidence fresh fvMid,
                          fv_VenueWeights = map (\<lambda>inp. \<lparr>vw_Venue = vi_Venue inp, vw_Weight = w (vi_Venue inp), vw_Mid = vi_Mid inp\<rparr>) fresh,
                          fv_TsMs = now\<rparr>))))"

section \<open>Weights\<close>

lemma venueScore_pos: "0 < venueScore cfg inp"
  unfolding venueScore_def Let_def by (rule less_max_iff_disj [THEN iffD2]) simp

lemma raw_scores_distinct:
  assumes "distinct (map vi_Venue fresh)"
  shows "raw_scores cfg fresh = map (\<lambda>inp. (vi_Venue inp, venueScore cfg inp)) fresh"
  using assms
proof (induction fresh rule: rev_induct)
  case Nil
  show ?case by (simp add: raw_scores_def)
next
  case (snoc inp fresh)
  have new: "vi_Venue inp \<notin> set (map fst ms) \<Longrightarrow> AList.update (vi_Venue inp) (venueScore cfg inp) ms = ms @ [(vi_Venue inp, venueScore cfg inp)]" for ms
    by (induction ms) auto
  from snoc have "raw_scores cfg fresh = map (\<lambda>inp. (vi_Venue inp, venueScore cfg inp)) fresh" by simp
  then show ?case using snoc.prems by (simp add: raw_scores_def new comp_def)
qed

text \<open>The smoothed weight of an input.\<close>

definition smoothed :: "FVEngine \<Rightarrow> string \<Rightarrow> VenueInput list \<Rightarrow> VenueInput \<Rightarrow> float64" where
  "smoothed e symbol fresh inp =
     snd (smooth (fc_EWADecay (fe_cfg e)) (fe_ewa e symbol) (vi_Venue inp, venueScore (fe_cfg e) inp / sum_of (venueScore (fe_cfg e)) fresh))"

text \<open>The configuration is sensible and the weights kept so far are in the unit interval.\<close>

definition weights_ok :: "FVEngine \<Rightarrow> bool" where
  "weights_ok e \<longleftrightarrow> 0 < fc_DepthRefUSD (fe_cfg e) \<and> 0 \<le> fc_EWADecay (fe_cfg e) \<and> fc_EWADecay (fe_cfg e) \<le> 1 \<and> (\<forall>symbol v w. fe_ewa e symbol v = Some w \<longrightarrow> 0 < w \<and> w \<le> 1)"

lemma convex_unit:
  fixes d :: real
  assumes "0 \<le> d" "d \<le> 1" "0 < p" "p \<le> 1" "0 < w" "w \<le> 1"
  shows "0 < d * p + (1 - d) * w \<and> d * p + (1 - d) * w \<le> 1"
proof
  have "0 \<le> (1 - d) * w" using assms by simp
  then show "0 < d * p + (1 - d) * w" using assms by (cases "d = 0") (auto intro: add_pos_nonneg)
  have "d * p \<le> d" "(1 - d) * w \<le> 1 - d" using assms mult_left_le [of p d] mult_left_le [of w "1 - d"] by simp_all
  then show "d * p + (1 - d) * w \<le> 1" by simp
qed

lemma share_unit:
  assumes "inp \<in> set fresh"
  shows "0 < venueScore cfg inp / sum_of (venueScore cfg) fresh \<and> venueScore cfg inp / sum_of (venueScore cfg) fresh \<le> 1"
proof -
  have "venueScore cfg inp \<le> sum_of (venueScore cfg) fresh"
    unfolding sum_of_def using assms venueScore_pos by (intro member_le_sum_list_real) (auto intro: less_imp_le)
  with venueScore_pos [of cfg inp] show ?thesis by (simp add: pos_divide_le_eq)
qed

lemma smooth_unit:
  assumes "weights_ok e" "0 < w" "w \<le> 1"
  shows "0 < snd (smooth (fc_EWADecay (fe_cfg e)) (fe_ewa e symbol) (v, w)) \<and> snd (smooth (fc_EWADecay (fe_cfg e)) (fe_ewa e symbol) (v, w)) \<le> 1"
proof (cases "fe_ewa e symbol v")
  case None
  with assms show ?thesis by (simp add: smooth_def)
next
  case (Some p)
  then have "0 < p" "p \<le> 1" using assms(1) by (auto simp: weights_ok_def)
  with Some assms convex_unit [of "fc_EWADecay (fe_cfg e)" p w] show ?thesis by (simp add: smooth_def weights_ok_def)
qed

lemma smoothed_unit: "weights_ok e \<Longrightarrow> inp \<in> set fresh \<Longrightarrow> 0 < smoothed e symbol fresh inp \<and> smoothed e symbol fresh inp \<le> 1"
  unfolding smoothed_def using smooth_unit share_unit by blast

text \<open>What a computation returns, for inputs of different venues.\<close>

definition final_weight :: "FVEngine \<Rightarrow> string \<Rightarrow> VenueInput list \<Rightarrow> VenueInput \<Rightarrow> float64" where
  "final_weight e symbol fresh inp = smoothed e symbol fresh inp / sum_of (smoothed e symbol fresh) fresh"

lemma ComputeFairValue_Some:
  assumes "ComputeFairValue now symbol inputs e = (e', Some fv)" "distinct (map vi_Venue inputs)"
  shows "\<exists>fresh. fresh = filter (\<lambda>inp. now - vi_TsMs inp \<le> fc_StaleMs (fe_cfg e)) inputs \<and> fresh \<noteq> [] \<and>
    fe_cfg e' = fe_cfg e \<and> fv_Mid fv = sum_of (\<lambda>inp. final_weight e symbol fresh inp * vi_Mid inp) fresh \<and>
    fv_BuyExec fv = sum_of (\<lambda>inp. final_weight e symbol fresh inp * vi_BestAsk inp) fresh \<and>
    fv_SellExec fv = sum_of (\<lambda>inp. final_weight e symbol fresh inp * vi_BestBid inp) fresh \<and>
    fv_Confidence fv = fv_confidence fresh (fv_Mid fv) \<and> map vw_Venue (fv_VenueWeights fv) = map vi_Venue fresh \<and>
    map vw_Weight (fv_VenueWeights fv) = map (final_weight e symbol fresh) fresh \<and>
    fe_ewa e' = (fe_ewa e)(symbol := fe_ewa e symbol ++ map_of (map (\<lambda>inp. (vi_Venue inp, smoothed e symbol fresh inp)) fresh))"
proof -
  let ?fresh = "filter (\<lambda>inp. now - vi_TsMs inp \<le> fc_StaleMs (fe_cfg e)) inputs"
  have d: "distinct (map vi_Venue ?fresh)" using assms(2) by (rule distinct_map_filter)
  let ?sm = "smoothed e symbol ?fresh"
  have tot: "sum_of (venueScore (fe_cfg e)) ?fresh \<noteq> 0" using assms(1) by (auto simp: ComputeFairValue_def Let_def split: if_splits)
  then have ne: "?fresh \<noteq> []" by auto
  have ws: "map (smooth (fc_EWADecay (fe_cfg e)) (fe_ewa e symbol)) (map (\<lambda>(v, s). (v, s / sum_of (venueScore (fe_cfg e)) ?fresh)) (raw_scores (fe_cfg e) ?fresh)) =
      map (\<lambda>inp. (vi_Venue inp, ?sm inp)) ?fresh"
    unfolding raw_scores_distinct [OF d] by (simp add: smoothed_def smooth_def split: option.split)
  have sw: "sum_of snd (map (\<lambda>inp. (vi_Venue inp, ?sm inp)) ?fresh) = sum_of ?sm ?fresh" by (simp add: sum_of_def comp_def)
  let ?w = "map_get 0 (map_of (map (\<lambda>(v, x). (v, x / sum_of ?sm ?fresh)) (map (\<lambda>inp. (vi_Venue inp, ?sm inp)) ?fresh)))"
  have w: "?w (vi_Venue inp) = final_weight e symbol ?fresh inp" if "inp \<in> set ?fresh" for inp
  proof -
    have "map_of (map (\<lambda>(v, x). (v, x / sum_of ?sm ?fresh)) (map (\<lambda>inp. (vi_Venue inp, ?sm inp)) ?fresh)) (vi_Venue inp) =
        Some (final_weight e symbol ?fresh inp)"
      by (rule map_of_is_SomeI) (use d that in \<open>auto simp: comp_def final_weight_def\<close>)
    then show ?thesis by simp
  qed
  have sums: "sum_of (\<lambda>inp. ?w (vi_Venue inp) * f inp) ?fresh = sum_of (\<lambda>inp. final_weight e symbol ?fresh inp * f inp) ?fresh" for f
    by (rule sum_of_cong) (simp only: w)
  have vws: "map (\<lambda>inp. ?w (vi_Venue inp)) ?fresh = map (final_weight e symbol ?fresh) ?fresh"
    by (rule map_cong [OF refl]) (rule w)
  have min: "\<not> int (length ?fresh) < fc_MinVenues (fe_cfg e)" using assms(1) by (auto simp: ComputeFairValue_def Let_def split: if_splits)
  show ?thesis
    using assms(1) min tot ne sums vws
    unfolding ComputeFairValue_def Let_def ws sw
    by (auto simp: comp_def)
qed

lemma final_weights:
  assumes "weights_ok e" "fresh \<noteq> []"
  shows "(\<forall>inp\<in>set fresh. 0 < final_weight e symbol fresh inp) \<and> sum_of (final_weight e symbol fresh) fresh = 1"
proof -
  have pos: "0 < smoothed e symbol fresh inp" if "inp \<in> set fresh" for inp using smoothed_unit [OF assms(1) that] by blast
  then have s: "0 < sum_of (smoothed e symbol fresh) fresh"
    unfolding sum_of_def using assms(2) by (intro sum_list_map_pos) auto
  have "sum_of (final_weight e symbol fresh) fresh = sum_of (\<lambda>inp. 1 / sum_of (smoothed e symbol fresh) fresh * smoothed e symbol fresh inp) fresh"
    by (rule sum_of_cong) (simp add: final_weight_def)
  also have "\<dots> = 1" using s by (simp only: sum_of_cmult) simp
  finally show ?thesis using pos s by (simp add: final_weight_def)
qed

lemma weighted_average:
  assumes "weights_ok e" "fresh \<noteq> []" "\<And>inp. inp \<in> set fresh \<Longrightarrow> f inp \<le> g inp"
  shows "sum_of (\<lambda>inp. final_weight e symbol fresh inp * f inp) fresh \<le> sum_of (\<lambda>inp. final_weight e symbol fresh inp * g inp) fresh"
  unfolding sum_of_def using final_weights [OF assms(1,2)] assms(3)
  by (intro sum_list_map_mono_real mult_left_mono) (auto intro: less_imp_le)

section \<open>The fair value\<close>

definition fresh_inputs :: "int64 \<Rightarrow> FVEngine \<Rightarrow> VenueInput list \<Rightarrow> VenueInput list" where
  "fresh_inputs now e inputs = filter (\<lambda>inp. now - vi_TsMs inp \<le> fc_StaleMs (fe_cfg e)) inputs"

text \<open>
  C31.  For an engine with a positive reference depth, a decay and kept weights in the unit interval,
  and inputs of different venues: the reported weights are those of the fresh inputs, in order, are
  positive and add up to one, and the smoothed weights that are kept stay in the unit interval.  If
  the fresh inputs, whatever the stale ones say, have their prices in [lo, hi] and in their own spread
  (bid, mid, ask in order), then so has the fair value: lo and hi bound it, the executable sell is not
  above it and the executable buy not below it.
\<close>

theorem the_fair_value_is_a_weighted_average:
  assumes "weights_ok e" "ComputeFairValue now symbol inputs e = (e', Some fv)" "distinct (map vi_Venue inputs)"
    and "\<forall>inp\<in>set (fresh_inputs now e inputs).
           vi_BestBid inp \<le> vi_Mid inp \<and> vi_Mid inp \<le> vi_BestAsk inp \<and> lo \<le> vi_Mid inp \<and> vi_Mid inp \<le> hi"
  shows "weights_ok e' \<and> map vw_Venue (fv_VenueWeights fv) = map vi_Venue (fresh_inputs now e inputs) \<and>
         (\<forall>w\<in>set (map vw_Weight (fv_VenueWeights fv)). 0 < w) \<and> sum_list (map vw_Weight (fv_VenueWeights fv)) = 1 \<and>
         lo \<le> fv_Mid fv \<and> fv_Mid fv \<le> hi \<and> fv_SellExec fv \<le> fv_Mid fv \<and> fv_Mid fv \<le> fv_BuyExec fv"
proof -
  obtain fresh where f: "fresh = filter (\<lambda>inp. now - vi_TsMs inp \<le> fc_StaleMs (fe_cfg e)) inputs" "fresh \<noteq> []" "fe_cfg e' = fe_cfg e"
    "fv_Mid fv = sum_of (\<lambda>inp. final_weight e symbol fresh inp * vi_Mid inp) fresh"
    "fv_BuyExec fv = sum_of (\<lambda>inp. final_weight e symbol fresh inp * vi_BestAsk inp) fresh"
    "fv_SellExec fv = sum_of (\<lambda>inp. final_weight e symbol fresh inp * vi_BestBid inp) fresh"
    "map vw_Weight (fv_VenueWeights fv) = map (final_weight e symbol fresh) fresh"
    "map vw_Venue (fv_VenueWeights fv) = map vi_Venue fresh"
    "fe_ewa e' = (fe_ewa e)(symbol := fe_ewa e symbol ++ map_of (map (\<lambda>inp. (vi_Venue inp, smoothed e symbol fresh inp)) fresh))"
    using ComputeFairValue_Some [OF assms(2,3)] by blast
  have q: "vi_BestBid inp \<le> vi_Mid inp \<and> vi_Mid inp \<le> vi_BestAsk inp \<and> lo \<le> vi_Mid inp \<and> vi_Mid inp \<le> hi" if "inp \<in> set fresh" for inp
    using assms(4) that unfolding fresh_inputs_def f(1) [symmetric] by blast
  note w = final_weights [OF assms(1) f(2), of symbol]
  have const: "sum_of (\<lambda>inp. final_weight e symbol fresh inp * c) fresh = c" for c
  proof -
    have "sum_of (\<lambda>inp. final_weight e symbol fresh inp * c) fresh = sum_of (\<lambda>inp. c * final_weight e symbol fresh inp) fresh"
      by (rule sum_of_cong) simp
    then show ?thesis using w by (simp add: sum_of_cmult)
  qed
  have "weights_ok e'"
    unfolding weights_ok_def f(3)
  proof (intro conjI allI impI)
    show "0 < fc_DepthRefUSD (fe_cfg e)" "0 \<le> fc_EWADecay (fe_cfg e)" "fc_EWADecay (fe_cfg e) \<le> 1" using assms(1) by (simp_all add: weights_ok_def)
    fix sy v x assume "fe_ewa e' sy v = Some x"
    then have "fe_ewa e sy v = Some x \<or> x \<in> smoothed e symbol fresh ` set fresh"
      unfolding f(9) by (auto simp: map_add_Some_iff split: if_splits dest!: map_of_SomeD)
    then show "0 < x" "x \<le> 1" using assms(1) smoothed_unit [OF assms(1)] by (auto simp: weights_ok_def)
  qed
  moreover have "sum_of (\<lambda>inp. final_weight e symbol fresh inp * lo) fresh \<le> fv_Mid fv" "fv_Mid fv \<le> sum_of (\<lambda>inp. final_weight e symbol fresh inp * hi) fresh"
    unfolding f(4) using q by (auto intro: weighted_average [OF assms(1) f(2)])
  then have "lo \<le> fv_Mid fv" "fv_Mid fv \<le> hi" by (simp_all only: const)
  moreover have "fv_SellExec fv \<le> fv_Mid fv" "fv_Mid fv \<le> fv_BuyExec fv"
    unfolding f(4-6) using q by (auto intro: weighted_average [OF assms(1) f(2)])
  ultimately show ?thesis unfolding f(7) using w f(1,8) by (simp add: sum_of_def fresh_inputs_def)
qed

lemma full_shares: "x \<le> 1 \<Longrightarrow> y \<le> 1 \<Longrightarrow> z \<le> 1 \<Longrightarrow> x * 0.4 + y * 0.4 + z * 0.2 = 1 \<Longrightarrow> x = 1 \<and> y = 1 \<and> z = (1 :: real)"
  by (intro conjI) linarith+

lemma weighted_shares:
  fixes x y z :: real
  assumes "0 \<le> x" "x \<le> 1" "0 \<le> y" "y \<le> 1" "0 \<le> z" "z \<le> 1"
  shows "0 \<le> x * 0.4 + y * 0.4 + z * 0.2 \<and> x * 0.4 + y * 0.4 + z * 0.2 \<le> 1"
  using assms by simp

text \<open>Confidence is a share, and it is full only with four venues, agreement and a million dollars of depth.\<close>

theorem confidence_is_a_share:
  assumes "\<forall>inp\<in>set inputs. 0 \<le> vi_DepthUSD inp"
  shows "0 \<le> fv_confidence inputs mid \<and> fv_confidence inputs mid \<le> 1 \<and>
         (fv_confidence inputs mid = 1 \<longrightarrow> 4 \<le> length inputs \<and> (\<forall>inp\<in>set inputs. vi_Mid inp = mid) \<and> 1000000 \<le> sum_of vi_DepthUSD inputs)"
proof (cases "inputs = [] \<or> mid = 0")
  case True
  then show ?thesis by (auto simp: fv_confidence_def)
next
  case False
  let ?dev = "\<lambda>inp. (vi_Mid inp - mid) / mid * 10000"
  let ?s = "sum_of (\<lambda>inp. ?dev inp * ?dev inp) inputs"
  let ?v = "min 1 (real (length inputs) / 4)" and ?a = "max 0 (1 - sqrt (?s / real (length inputs)) / 50)"
    and ?d = "min 1 (sum_of vi_DepthUSD inputs / 1000000)"
  have c: "fv_confidence inputs mid = ?v * 0.4 + ?a * 0.4 + ?d * 0.2" using False by (simp add: fv_confidence_def Let_def)
  have s: "0 \<le> ?s" by (simp add: sum_of_nonneg)
  have depth: "0 \<le> sum_of vi_DepthUSD inputs" using assms by (intro sum_of_nonneg) simp
  have v: "0 \<le> ?v" "?v \<le> 1" by simp_all
  have "0 \<le> sqrt (?s / real (length inputs))" using s by simp
  then have a: "0 \<le> ?a" "?a \<le> 1" by simp_all
  have d: "0 \<le> ?d" "?d \<le> 1" using depth by simp_all
  have "4 \<le> length inputs \<and> (\<forall>inp\<in>set inputs. vi_Mid inp = mid) \<and> 1000000 \<le> sum_of vi_DepthUSD inputs"
    if one: "?v * 0.4 + ?a * 0.4 + ?d * 0.2 = 1"
  proof -
    have e: "?v = 1" "?a = 1" "?d = 1" using full_shares [OF v(2) a(2) d(2) one] by blast+
    have "4 \<le> length inputs" using e(1) by (simp add: min_def split: if_splits)
    moreover have "?s = 0" using e(2) False by (auto simp: max_def split: if_splits)
    then have "\<forall>inp\<in>set inputs. ?dev inp * ?dev inp = 0"
      unfolding sum_of_def by (subst (asm) sum_list_map_zero_iff) auto
    then have "\<forall>inp\<in>set inputs. vi_Mid inp = mid" using False by auto
    moreover have "1000000 \<le> sum_of vi_DepthUSD inputs" using e(3) by (simp add: min_def split: if_splits)
    ultimately show ?thesis by blast
  qed
  with weighted_shares [OF v a d] show ?thesis unfolding c by blast
qed

text \<open>Enough fresh quotes give a fair value.\<close>

lemma enough_venues_give_a_fair_value:
  assumes "fresh = filter (\<lambda>inp. now - vi_TsMs inp \<le> fc_StaleMs (fe_cfg e)) inputs" "fresh \<noteq> []" "fc_MinVenues (fe_cfg e) \<le> int (length fresh)"
  shows "\<exists>e' fv. ComputeFairValue now symbol inputs e = (e', Some fv)"
proof -
  have "0 < sum_of (venueScore (fe_cfg e)) fresh"
    unfolding sum_of_def using assms(2) venueScore_pos by (intro sum_list_map_pos) auto
  with assms(3) show ?thesis unfolding ComputeFairValue_def Let_def assms(1) [symmetric] by simp
qed

text \<open>Two quotes of one venue share a weight but are both counted: the fair value doubles.\<close>

definition fv_input :: "string \<Rightarrow> float64 \<Rightarrow> VenueInput" where
  "fv_input venue mid = \<lparr>vi_Venue = venue, vi_Mid = mid, vi_BestBid = mid - 1, vi_BestAsk = mid + 1, vi_DepthUSD = 500000, vi_LatencyUs = 100000,
     vi_LeadPct = 50, vi_Reliability = 1, vi_TsMs = 1000\<rparr>"

theorem a_repeated_venue_doubles_the_fair_value:
  "map_option fv_Mid (snd (ComputeFairValue 1000 ''BTC'' [fv_input ''okx'' 100, fv_input ''okx'' 100] (NewFVEngine FVDefaultConfig))) = Some 200"
proof -
  have "venueScore FVDefaultConfig (fv_input ''okx'' 100) \<noteq> 0" using venueScore_pos by (metis less_irrefl)
  then show ?thesis
    by (simp add: ComputeFairValue_def NewFVEngine_def raw_scores_def smooth_def fv_input_def Let_def) (simp add: FVDefaultConfig_def)
qed

text \<open>A stale quote of 500 has no say.\<close>

lemma the_fair_value_is_a_weighted_average_witness:
  "\<exists>fv. snd (ComputeFairValue 1000 ''BTC'' [fv_input ''okx'' 100, (fv_input ''gate'' 500)\<lparr>vi_TsMs := - 2000\<rparr>, fv_input ''bybit'' 102]
      (NewFVEngine FVDefaultConfig)) = Some fv \<and> map vw_Venue (fv_VenueWeights fv) = [''okx'', ''bybit''] \<and>
     100 \<le> fv_Mid fv \<and> fv_Mid fv \<le> 102"
proof -
  let ?e = "NewFVEngine FVDefaultConfig"
  let ?in = "[fv_input ''okx'' 100, (fv_input ''gate'' 500)\<lparr>vi_TsMs := - 2000\<rparr>, fv_input ''bybit'' 102]"
  have w: "weights_ok ?e" by (simp add: weights_ok_def NewFVEngine_def FVDefaultConfig_def)
  have f: "fresh_inputs 1000 ?e ?in = [fv_input ''okx'' 100, fv_input ''bybit'' 102]"
    by (simp add: fresh_inputs_def fv_input_def NewFVEngine_def FVDefaultConfig_def)
  obtain e' fv where "ComputeFairValue 1000 ''BTC'' ?in ?e = (e', Some fv)"
    using enough_venues_give_a_fair_value [OF refl, of 1000 ?e ?in "''BTC''"]
    by (auto simp: fv_input_def NewFVEngine_def FVDefaultConfig_def)
  with the_fair_value_is_a_weighted_average [OF w this, of 100 102] show ?thesis unfolding f by (simp add: fv_input_def)
qed

lemma confidence_is_a_share_witness:
  "fv_confidence [fv_input ''okx'' 100, fv_input ''bybit'' 100] 100 \<le> 1"
  using confidence_is_a_share [of "[fv_input ''okx'' 100, fv_input ''bybit'' 100]" 100] by (simp add: fv_input_def)

end
