(* ===== verification/Maker_Rebates.thy ===== *)
theory Maker_Rebates
  imports Sliding_Windows Sample_Sums
begin

text \<open>
  internal/makerrebate/optimizer.go: fee tiers, rolling volumes and recommendations.  The schedules,
  which are ranged over, are an association list; the sort of the recommendations is a parameter.
\<close>

section \<open>Types\<close>

record FeeTier =
  ft_Tier :: string
  ft_RequiredVolume30d :: float64
  ft_TakerFeeBps :: float64
  ft_MakerFeeBps :: float64

record VenueFeeSchedule =
  vs_Venue :: string
  vs_Tiers :: "FeeTier list"
  vs_UpdateMs :: int64

record VenueVolume =
  vv_Venue :: string
  vv_Volume30dUSD :: float64
  vv_MakerPct :: float64
  vv_CurrentTier :: string
  vv_CurrentMaker :: float64
  vv_CurrentTaker :: float64
  vv_NextTier :: string
  vv_VolumeToNext :: float64

record RebateOpportunity =
  rb_Venue :: string
  rb_Type :: string
  rb_CurrentCostBps :: float64
  rb_OptimisedCostBps :: float64
  rb_SavingsPerDayUSD :: float64
  rb_Action :: gotext
  rb_Confidence :: float64

record FillSample =
  fs_Venue :: string
  fs_SizeUSD :: float64
  fs_IsMaker :: bool
  fs_FeeBps :: float64
  fs_TsMs :: int64

record Optimizer =
  mo_schedules :: "(string \<times> VenueFeeSchedule) list"
  mo_fills :: "string \<Rightarrow> FillSample list"
  mo_windowMs :: int64
  mo_maxFills :: nat

definition NewOptimizer :: "int64 \<Rightarrow> Optimizer" where
  "NewOptimizer windowMs = \<lparr>mo_schedules = [], mo_fills = (\<lambda>_. []), mo_windowMs = windowMs, mo_maxFills = 50000\<rparr>"

section \<open>Operations\<close>

definition SetSchedule :: "(FeeTier list \<Rightarrow> FeeTier list) \<Rightarrow> VenueFeeSchedule \<Rightarrow> Optimizer \<Rightarrow> Optimizer" where
  "SetSchedule by_volume schedule opt =
     opt\<lparr>mo_schedules := AList.update (vs_Venue schedule) (schedule\<lparr>vs_Tiers := by_volume (vs_Tiers schedule)\<rparr>) (mo_schedules opt)\<rparr>"

definition trimFills :: "int64 \<Rightarrow> string \<Rightarrow> Optimizer \<Rightarrow> Optimizer" where
  "trimFills now venue opt =
     opt\<lparr>mo_fills := (mo_fills opt)(venue := trim_window fs_TsMs (now - mo_windowMs opt) (mo_maxFills opt) (mo_fills opt venue))\<rparr>"

definition RebateRecordFill :: "int64 \<Rightarrow> FillSample \<Rightarrow> Optimizer \<Rightarrow> Optimizer" where
  "RebateRecordFill now f opt =
     trimFills now (fs_Venue f) (opt\<lparr>mo_fills := (mo_fills opt)(fs_Venue f := mo_fills opt (fs_Venue f) @ [f])\<rparr>)"

fun tier_walk :: "FeeTier \<Rightarrow> float64 \<Rightarrow> FeeTier list \<Rightarrow> FeeTier \<times> FeeTier option \<times> float64" where
  "tier_walk current volume [] = (current, None, 0)"
| "tier_walk current volume (t # ts) =
     (if volume \<ge> ft_RequiredVolume30d t then tier_walk t volume ts else (current, Some t, ft_RequiredVolume30d t - volume))"

definition findTier :: "VenueFeeSchedule \<Rightarrow> float64 \<Rightarrow> FeeTier \<times> FeeTier option \<times> float64" where
  "findTier sched volume =
     (case vs_Tiers sched of
        [] \<Rightarrow> (\<lparr>ft_Tier = '''', ft_RequiredVolume30d = 0, ft_TakerFeeBps = 0, ft_MakerFeeBps = 0\<rparr>, None, 0)
      | t # ts \<Rightarrow> tier_walk t volume (t # ts))"

definition fills_30d :: "int64 \<Rightarrow> Optimizer \<Rightarrow> string \<Rightarrow> FillSample list" where
  "fills_30d now opt venue = filter (\<lambda>f. fs_TsMs f \<ge> now - 30 * 24 * 3600 * 1000) (mo_fills opt venue)"

definition venue_volume :: "int64 \<Rightarrow> Optimizer \<Rightarrow> string \<times> VenueFeeSchedule \<Rightarrow> VenueVolume" where
  "venue_volume now opt vs =
     (case vs of (venue, sched) \<Rightarrow>
        let fills = fills_30d now opt venue; totalVol = sum_of fs_SizeUSD fills; makerVol = sum_of fs_SizeUSD (filter fs_IsMaker fills);
            makerPct = (if totalVol > 0 then makerVol / totalVol * 100 else 0);
            (currentTier, nextTier, volumeToNext) = findTier sched totalVol
        in \<lparr>vv_Venue = venue, vv_Volume30dUSD = totalVol, vv_MakerPct = makerPct, vv_CurrentTier = ft_Tier currentTier,
            vv_CurrentMaker = ft_MakerFeeBps currentTier, vv_CurrentTaker = ft_TakerFeeBps currentTier,
            vv_NextTier = (case nextTier of Some t \<Rightarrow> ft_Tier t | None \<Rightarrow> ''''), vv_VolumeToNext = volumeToNext\<rparr>)"

definition VolumeReport :: "int64 \<Rightarrow> Optimizer \<Rightarrow> VenueVolume list" where
  "VolumeReport now opt = map (venue_volume now opt) (mo_schedules opt)"

definition upgrade_opportunity :: "string \<Rightarrow> float64 \<Rightarrow> float64 \<Rightarrow> FeeTier option \<Rightarrow> float64 \<Rightarrow> RebateOpportunity list" where
  "upgrade_opportunity venue dailyVol currentAvgCost nextTier volumeToNext =
     (case nextTier of
        None \<Rightarrow> []
      | Some next_t \<Rightarrow>
          (let daysToQualify = volumeToNext / dailyVol; newCostBps = ft_TakerFeeBps next_t * 0.5 + ft_MakerFeeBps next_t * 0.5 in
           if volumeToNext > 0 \<and> daysToQualify \<le> 30
           then [\<lparr>rb_Venue = venue, rb_Type = ''UPGRADE_TIER'', rb_CurrentCostBps = currentAvgCost, rb_OptimisedCostBps = newCostBps,
                  rb_SavingsPerDayUSD = dailyVol * (currentAvgCost - newCostBps) / 10000,
                  rb_Action = Sprintf ''Increase volume by $%.0f to reach %s tier'' [AFlt volumeToNext, AStr (ft_Tier next_t)],
                  rb_Confidence = max 0.3 (1 - daysToQualify / 30)\<rparr>]
           else []))"

definition maker_opportunity :: "string \<Rightarrow> float64 \<Rightarrow> float64 \<Rightarrow> FeeTier \<Rightarrow> float64 \<Rightarrow> RebateOpportunity list" where
  "maker_opportunity venue dailyVol currentAvgCost currentTier makerPct =
     (let newCostBps = ft_TakerFeeBps currentTier * (1 - 0.7) + ft_MakerFeeBps currentTier * 0.7;
          savingsPerDay = dailyVol * (currentAvgCost - newCostBps) / 10000
      in if makerPct < 0.6 \<and> savingsPerDay > 0
         then [\<lparr>rb_Venue = venue, rb_Type = ''SHIFT_MAKER'', rb_CurrentCostBps = currentAvgCost, rb_OptimisedCostBps = newCostBps,
                rb_SavingsPerDayUSD = savingsPerDay, rb_Action = Txt ''Increase maker order ratio to 70%+ using passive limit orders'',
                rb_Confidence = 0.7\<rparr>]
         else [])"

text \<open>With fills but no volume the days to qualify are infinite and the average cost is no number: no recommendation follows.\<close>

definition venue_opportunities :: "int64 \<Rightarrow> Optimizer \<Rightarrow> string \<times> VenueFeeSchedule \<Rightarrow> RebateOpportunity list" where
  "venue_opportunities now opt vs =
     (case vs of (venue, sched) \<Rightarrow>
        let fills = fills_30d now opt venue; totalVol = sum_of fs_SizeUSD fills; makerVol = sum_of fs_SizeUSD (filter fs_IsMaker fills);
            totalFees = sum_of (\<lambda>f. fs_SizeUSD f * fs_FeeBps f / 10000) fills
        in if length fills = 0 \<or> totalVol = 0 then []
           else
             (let dailyVol = totalVol / 30; (currentTier, nextTier, volumeToNext) = findTier sched totalVol;
                  currentAvgCost = totalFees / totalVol * 10000;
                  makerPct = (if totalVol > 0 then makerVol / totalVol else 0)
              in upgrade_opportunity venue dailyVol currentAvgCost nextTier volumeToNext
                 @ maker_opportunity venue dailyVol currentAvgCost currentTier makerPct))"

definition OptimizeRebates :: "(RebateOpportunity list \<Rightarrow> RebateOpportunity list) \<Rightarrow> int64 \<Rightarrow> Optimizer \<Rightarrow> RebateOpportunity list" where
  "OptimizeRebates by_savings now opt = by_savings (concat (map (venue_opportunities now opt) (mo_schedules opt)))"

section \<open>Tiers\<close>

interpretation fill_log: windowed_log mo_fills "\<lambda>opt x. RebateRecordFill (fst x) (snd x) opt" fs_Venue fs_TsMs mo_windowMs mo_maxFills
  by unfold_locales (auto simp: RebateRecordFill_def trimFills_def)

text \<open>A walk over sorted tiers splits them where the volume ends.\<close>

lemma tier_walk_split:
  assumes "sorted (map ft_RequiredVolume30d ts)" "tier_walk c volume ts = (current, next_t, missing)"
  shows "\<exists>met unmet. ts = met @ unmet \<and> (\<forall>t\<in>set met. ft_RequiredVolume30d t \<le> volume) \<and> (\<forall>t\<in>set unmet. volume < ft_RequiredVolume30d t) \<and>
    current = last (c # met) \<and>
    (case unmet of [] \<Rightarrow> next_t = None \<and> missing = 0 | u # us \<Rightarrow> next_t = Some u \<and> missing = ft_RequiredVolume30d u - volume)"
  using assms
proof (induction ts arbitrary: c)
  case Nil
  then show ?case by simp
next
  case (Cons t ts)
  show ?case
  proof (cases "volume \<ge> ft_RequiredVolume30d t")
    case True
    then have "sorted (map ft_RequiredVolume30d ts)" "tier_walk t volume ts = (current, next_t, missing)" using Cons.prems by simp_all
    from Cons.IH [OF this] obtain met unmet where "ts = met @ unmet" "\<forall>t\<in>set met. ft_RequiredVolume30d t \<le> volume"
      "\<forall>t\<in>set unmet. volume < ft_RequiredVolume30d t" "current = last (t # met)"
      "case unmet of [] \<Rightarrow> next_t = None \<and> missing = 0 | u # us \<Rightarrow> next_t = Some u \<and> missing = ft_RequiredVolume30d u - volume"
      by blast
    with True show ?thesis by (intro exI [of _ "t # met"] exI [of _ unmet]) simp
  next
    case False
    with Cons.prems show ?thesis by (intro exI [of _ "[]"] exI [of _ "t # ts"]) auto
  qed
qed

definition schedules_ok :: "Optimizer \<Rightarrow> bool" where
  "schedules_ok opt \<longleftrightarrow> (\<forall>(v, s)\<in>set (mo_schedules opt). sorted (map ft_RequiredVolume30d (vs_Tiers s)))"

datatype rebate_event = RSchedule "FeeTier list \<Rightarrow> FeeTier list" VenueFeeSchedule | RFill int64 FillSample

fun rebate_step :: "Optimizer \<Rightarrow> rebate_event \<Rightarrow> Optimizer" where
  "rebate_step opt (RSchedule by_volume s) = SetSchedule by_volume s opt"
| "rebate_step opt (RFill now f) = RebateRecordFill now f opt"

fun rebate_adm :: "rebate_event \<Rightarrow> bool" where
  "rebate_adm (RSchedule by_volume s) = sorts_by ft_RequiredVolume30d by_volume"
| "rebate_adm (RFill now f) = (0 \<le> fs_SizeUSD f)"

definition rebates_ok :: "Optimizer \<Rightarrow> bool" where
  "rebates_ok opt \<longleftrightarrow> schedules_ok opt \<and> (\<forall>v. \<forall>f\<in>set (mo_fills opt v). 0 \<le> fs_SizeUSD f)"

interpretation rebates: invariant_machine rebate_step rebate_adm rebates_ok
proof unfold_locales
  fix opt e assume ok: "rebates_ok opt" and adm: "rebate_adm e"
  show "rebates_ok (rebate_step opt e)"
  proof (cases e)
    case (RSchedule by_volume s)
    have "sorted (map ft_RequiredVolume30d (by_volume (vs_Tiers s)))" using adm RSchedule by (auto intro: sorts_by_sorted)
    with ok RSchedule show ?thesis by (auto simp: rebates_ok_def schedules_ok_def SetSchedule_def dest!: alist_update_set)
  next
    case (RFill now f)
    have "0 \<le> fs_SizeUSD g" if "g \<in> set (trim_window fs_TsMs c n (mo_fills opt (fs_Venue f) @ [f]))" for g c n
    proof -
      have "g \<in> set (mo_fills opt (fs_Venue f) @ [f])" using that trim_window_set by (meson subsetD)
      then show ?thesis using ok adm RFill by (auto simp: rebates_ok_def)
    qed
    with ok RFill show ?thesis by (auto simp: rebates_ok_def schedules_ok_def RebateRecordFill_def trimFills_def)
  qed
qed

text \<open>
  Whatever the sort of the tiers, a volume report names the last tier whose requirement is met and the
  first that is not, with what is missing to it; only below every requirement the first tier is named.
\<close>

theorem volume_reports_name_the_tier_of_the_volume:
  assumes "\<forall>e\<in>set es. rebate_adm e" "opt = foldl rebate_step (NewOptimizer w) es" "(venue, sched) \<in> set (mo_schedules opt)" "vs_Tiers sched \<noteq> []"
    and "r = venue_volume now opt (venue, sched)"
  shows "\<exists>met unmet. vs_Tiers sched = met @ unmet \<and> (\<forall>t\<in>set met. ft_RequiredVolume30d t \<le> vv_Volume30dUSD r) \<and>
           (\<forall>t\<in>set unmet. vv_Volume30dUSD r < ft_RequiredVolume30d t) \<and>
           vv_CurrentTier r = ft_Tier (last (hd (vs_Tiers sched) # met)) \<and>
           (case unmet of [] \<Rightarrow> vv_NextTier r = '''' \<and> vv_VolumeToNext r = 0
            | u # us \<Rightarrow> vv_NextTier r = ft_Tier u \<and> 0 < vv_VolumeToNext r \<and> vv_Volume30dUSD r + vv_VolumeToNext r = ft_RequiredVolume30d u) \<and>
           0 \<le> vv_MakerPct r \<and> vv_MakerPct r \<le> 100"
proof -
  have "rebates_ok (NewOptimizer w)" by (simp add: rebates_ok_def schedules_ok_def NewOptimizer_def)
  then have ok: "rebates_ok opt" unfolding assms(2) using rebates.run_inv assms(1) by blast
  then have sorted: "sorted (map ft_RequiredVolume30d (vs_Tiers sched))" using assms(3) by (auto simp: rebates_ok_def schedules_ok_def)
  let ?fills = "fills_30d now opt venue"
  let ?vol = "sum_of fs_SizeUSD ?fills" and ?maker = "sum_of fs_SizeUSD (filter fs_IsMaker ?fills)"
  obtain t ts where t: "vs_Tiers sched = t # ts" using assms(4) by (cases "vs_Tiers sched") auto
  obtain current next_t missing where w: "tier_walk t ?vol (t # ts) = (current, next_t, missing)" by (cases "tier_walk t ?vol (t # ts)")
  have r: "vv_Volume30dUSD r = ?vol" "vv_CurrentTier r = ft_Tier current" "vv_NextTier r = (case next_t of Some t \<Rightarrow> ft_Tier t | None \<Rightarrow> '''')"
    "vv_VolumeToNext r = missing" "vv_MakerPct r = (if ?vol > 0 then ?maker / ?vol * 100 else 0)"
    using w unfolding assms(5) by (simp_all add: venue_volume_def findTier_def t Let_def)
  from tier_walk_split [OF sorted [unfolded t] w] obtain met unmet where m: "t # ts = met @ unmet"
    "\<forall>t\<in>set met. ft_RequiredVolume30d t \<le> ?vol" "\<forall>t\<in>set unmet. ?vol < ft_RequiredVolume30d t" "current = last (t # met)"
    "case unmet of [] \<Rightarrow> next_t = None \<and> missing = 0 | u # us \<Rightarrow> next_t = Some u \<and> missing = ft_RequiredVolume30d u - ?vol" by blast
  have sizes: "\<forall>f\<in>set ?fills. 0 \<le> fs_SizeUSD f" using ok by (auto simp: rebates_ok_def fills_30d_def)
  have "0 \<le> sum_of fs_SizeUSD (filter fs_IsMaker fs) \<and> sum_of fs_SizeUSD (filter fs_IsMaker fs) \<le> sum_of fs_SizeUSD fs"
    if "\<forall>f\<in>set fs. 0 \<le> fs_SizeUSD f" for fs using that by (induction fs) auto
  from this [OF sizes] have pct: "0 \<le> vv_MakerPct r \<and> vv_MakerPct r \<le> 100" unfolding r(5) by (simp add: pos_divide_le_eq)
  show ?thesis
    unfolding t r(1)
  proof (rule exI [of _ met], rule exI [of _ unmet], intro conjI)
    show "case unmet of [] \<Rightarrow> vv_NextTier r = '''' \<and> vv_VolumeToNext r = 0
       | u # us \<Rightarrow> vv_NextTier r = ft_Tier u \<and> 0 < vv_VolumeToNext r \<and> ?vol + vv_VolumeToNext r = ft_RequiredVolume30d u"
      using m(3,5) r(3,4) by (cases unmet) auto
    show "vv_CurrentTier r = ft_Tier (last (hd (t # ts) # met))" using m(4) r(2) by simp
  qed (use m(1-3) pct in simp_all)
qed

section \<open>Recommendations\<close>

text \<open>
  Recommendations come with the largest savings first; a shift to maker orders always saves money,
  and an upgrade of the tier is in reach within thirty days at the present volume.
\<close>

theorem recommendations_are_sorted_by_savings:
  assumes "sorts_by (\<lambda>op. - rb_SavingsPerDayUSD op) by_savings"
  shows "sorted_wrt (\<lambda>a b. rb_SavingsPerDayUSD b \<le> rb_SavingsPerDayUSD a) (OptimizeRebates by_savings now opt) \<and>
         (\<forall>op\<in>set (OptimizeRebates by_savings now opt). 0.3 \<le> rb_Confidence op \<and>
            (rb_Type op = ''SHIFT_MAKER'' \<longrightarrow> 0 < rb_SavingsPerDayUSD op) \<and> rb_Type op \<in> {''SHIFT_MAKER'', ''UPGRADE_TIER''})"
proof -
  have "sorted (map (\<lambda>op. - rb_SavingsPerDayUSD op) (OptimizeRebates by_savings now opt))"
    unfolding OptimizeRebates_def by (rule sorts_by_sorted [OF assms])
  then have "sorted_wrt (\<lambda>a b. rb_SavingsPerDayUSD b \<le> rb_SavingsPerDayUSD a) (OptimizeRebates by_savings now opt)"
    by (simp add: sorted_wrt_map)
  moreover have "0.3 \<le> rb_Confidence op \<and> (rb_Type op = ''SHIFT_MAKER'' \<longrightarrow> 0 < rb_SavingsPerDayUSD op) \<and> rb_Type op \<in> {''SHIFT_MAKER'', ''UPGRADE_TIER''}"
    if "op \<in> set (OptimizeRebates by_savings now opt)" for op
  proof -
    have "op \<in> set (concat (map (venue_opportunities now opt) (mo_schedules opt)))"
      using that unfolding OptimizeRebates_def sorts_by_set [OF assms] .
    then obtain vs where "op \<in> set (venue_opportunities now opt vs)" by auto
    then have "\<exists>v d c n m t p. op \<in> set (upgrade_opportunity v d c n m) \<or> op \<in> set (maker_opportunity v d c t p)"
      unfolding venue_opportunities_def Let_def case_prod_beta by (simp split: if_splits) blast+
    moreover have "3 \<le> max (3 / 10) x * 10" for x :: real by (simp add: max_def)
    ultimately show ?thesis
      by (auto simp: upgrade_opportunity_def maker_opportunity_def Let_def split: option.splits if_splits)
  qed
  ultimately show ?thesis by blast
qed

text \<open>An upgrade is recommended whether or not it saves anything: with cheap maker fills the next tier may cost more.\<close>

definition tier :: "string \<Rightarrow> float64 \<Rightarrow> float64 \<Rightarrow> float64 \<Rightarrow> FeeTier" where
  "tier name vol taker maker = \<lparr>ft_Tier = name, ft_RequiredVolume30d = vol, ft_TakerFeeBps = taker, ft_MakerFeeBps = maker\<rparr>"

definition ex_rebates :: "rebate_event list" where
  "ex_rebates =
     [RSchedule (sort_key ft_RequiredVolume30d) \<lparr>vs_Venue = ''okx'', vs_Tiers = [tier ''VIP1'' 2000000 4 1, tier ''VIP0'' 0 5 2], vs_UpdateMs = 0\<rparr>,
      RFill 1000 \<lparr>fs_Venue = ''okx'', fs_SizeUSD = 1500000, fs_IsMaker = True, fs_FeeBps = 2, fs_TsMs = 1000\<rparr>]"

lemma ex_rebates_state:
  "foldl rebate_step (NewOptimizer 5000) ex_rebates =
     \<lparr>mo_schedules = [(''okx'', \<lparr>vs_Venue = ''okx'', vs_Tiers = [tier ''VIP0'' 0 5 2, tier ''VIP1'' 2000000 4 1], vs_UpdateMs = 0\<rparr>)],
      mo_fills = (\<lambda>_. [])(''okx'' := [\<lparr>fs_Venue = ''okx'', fs_SizeUSD = 1500000, fs_IsMaker = True, fs_FeeBps = 2, fs_TsMs = 1000\<rparr>]),
      mo_windowMs = 5000, mo_maxFills = 50000\<rparr>"
  by (simp add: ex_rebates_def NewOptimizer_def SetSchedule_def RebateRecordFill_def trimFills_def trim_window_def keep_last_def tier_def)

theorem an_upgrade_may_cost_more:
  "\<exists>op\<in>set (OptimizeRebates (sort_key (\<lambda>op. - rb_SavingsPerDayUSD op)) 1000 (foldl rebate_step (NewOptimizer 5000) ex_rebates)).
     rb_Type op = ''UPGRADE_TIER'' \<and> rb_SavingsPerDayUSD op < 0"
  unfolding ex_rebates_state
  by (simp add: OptimizeRebates_def venue_opportunities_def fills_30d_def findTier_def tier_def upgrade_opportunity_def maker_opportunity_def Let_def)

lemma ex_rebates_adm: "\<forall>e\<in>set ex_rebates. rebate_adm e"
  by (simp add: ex_rebates_def sorts_by_sort_key)

lemma volume_reports_name_the_tier_of_the_volume_witness:
  "vv_CurrentTier (venue_volume 1000 (foldl rebate_step (NewOptimizer 5000) ex_rebates)
      (''okx'', \<lparr>vs_Venue = ''okx'', vs_Tiers = [tier ''VIP0'' 0 5 2, tier ''VIP1'' 2000000 4 1], vs_UpdateMs = 0\<rparr>)) = ''VIP0'' \<and>
   vv_MakerPct (venue_volume 1000 (foldl rebate_step (NewOptimizer 5000) ex_rebates)
      (''okx'', \<lparr>vs_Venue = ''okx'', vs_Tiers = [tier ''VIP0'' 0 5 2, tier ''VIP1'' 2000000 4 1], vs_UpdateMs = 0\<rparr>)) \<le> 100"
proof -
  let ?s = "\<lparr>vs_Venue = ''okx'', vs_Tiers = [tier ''VIP0'' 0 5 2, tier ''VIP1'' 2000000 4 1], vs_UpdateMs = 0\<rparr>"
  have "(''okx'', ?s) \<in> set (mo_schedules (foldl rebate_step (NewOptimizer 5000) ex_rebates))" by (simp add: ex_rebates_state)
  from volume_reports_name_the_tier_of_the_volume [OF ex_rebates_adm refl this _ refl, of 1000]
  have "vv_MakerPct (venue_volume 1000 (foldl rebate_step (NewOptimizer 5000) ex_rebates) (''okx'', ?s)) \<le> 100" by auto
  then show ?thesis by (simp add: ex_rebates_state) (simp add: venue_volume_def fills_30d_def findTier_def tier_def Let_def)
qed

lemma recommendations_are_sorted_by_savings_witness:
  "sorted_wrt (\<lambda>a b. rb_SavingsPerDayUSD b \<le> rb_SavingsPerDayUSD a)
     (OptimizeRebates (sort_key (\<lambda>op. - rb_SavingsPerDayUSD op)) 1000 (foldl rebate_step (NewOptimizer 5000) ex_rebates))"
  using recommendations_are_sorted_by_savings [OF sorts_by_sort_key] by blast

end
