(* ===== verification/Float_Rounding.thy ===== *)
theory Float_Rounding
  imports Prelude "HOL-Library.Log_Nat"
begin

text \<open>
  Rounded arithmetic of float64, for the code whose branches depend on it: the nearest number of 53
  significant bits, ties to even.  Exponents are not bounded, so there is no overflow and there are
  no subnormal numbers; NaN is None where it can arise.  Definitions take the rounding as an argument,
  so that they evaluate with none, and properties hold for each rounding with the laws below.
\<close>

section \<open>Roundings\<close>

definition rounding :: "(real \<Rightarrow> real) \<Rightarrow> bool" where
  "rounding fl \<longleftrightarrow> mono fl \<and> (\<forall>x. fl (- x) = - fl x) \<and> (\<forall>x. fl (fl x) = fl x)"

lemma roundingD:
  assumes "rounding fl"
  shows rounding_mono: "x \<le> y \<Longrightarrow> fl x \<le> fl y" and rounding_minus: "fl (- x) = - fl x"
    and rounding_fixed: "fl (fl x) = fl x"
  using assms by (auto simp: rounding_def dest: monoD)

lemma rounding_none [simp]: "rounding (\<lambda>x. x)"
  by (simp add: rounding_def mono_def)

text \<open>math.Sqrt, with NaN below zero.\<close>

definition go_sqrt :: "(real \<Rightarrow> real) \<Rightarrow> real \<Rightarrow> real option" where
  "go_sqrt fl x = (if x < 0 then None else Some (fl (sqrt x)))"

text \<open>A sum in the order of a loop, rounded after each addition.\<close>

definition fl_sum :: "(real \<Rightarrow> real) \<Rightarrow> ('a \<Rightarrow> real) \<Rightarrow> 'a list \<Rightarrow> real" where
  "fl_sum fl f xs = foldl (\<lambda>acc x. fl (acc + f x)) 0 xs"

lemma fl_sum_none: "fl_sum (\<lambda>x. x) f xs = sum_list (map f xs)"
proof -
  have "foldl (\<lambda>acc x. acc + f x) a xs = a + sum_list (map f xs)" for a
    by (induction xs arbitrary: a) simp_all
  then show ?thesis by (simp add: fl_sum_def)
qed

section \<open>The nearest number of 53 bits\<close>

definition half_even :: "real \<Rightarrow> int" where
  "half_even x =
     (let d = x - of_int \<lfloor>x\<rfloor> in
      if d < 1/2 then \<lfloor>x\<rfloor> else if 1/2 < d then \<lfloor>x\<rfloor> + 1 else if even \<lfloor>x\<rfloor> then \<lfloor>x\<rfloor> else \<lfloor>x\<rfloor> + 1)"

definition last_place :: "real \<Rightarrow> int" where
  "last_place x = \<lfloor>log 2 \<bar>x\<bar>\<rfloor> - 52"

definition binary64 :: "real \<Rightarrow> real" where
  "binary64 x = (if x = 0 then 0 else of_int (half_even (x / 2 powr of_int (last_place x))) * 2 powr of_int (last_place x))"

lemma half_even_bounds: "\<lfloor>x\<rfloor> \<le> half_even x" "half_even x \<le> \<lceil>x\<rceil>"
proof -
  show "\<lfloor>x\<rfloor> \<le> half_even x" by (simp add: half_even_def Let_def)
  have "x = of_int \<lfloor>x\<rfloor> \<or> \<lceil>x\<rceil> = \<lfloor>x\<rfloor> + 1" by (metis ceiling_altdef)
  then show "half_even x \<le> \<lceil>x\<rceil>"
    by (elim disjE) (auto simp: half_even_def Let_def)
qed

lemma half_even_int [simp]: "half_even (of_int m) = m"
  by (simp add: half_even_def)

lemma half_even_mono:
  assumes "x \<le> y"
  shows "half_even x \<le> half_even y"
proof (cases "\<lfloor>x\<rfloor> = \<lfloor>y\<rfloor>")
  case True
  then show ?thesis using assms by (simp add: half_even_def Let_def)
next
  case False
  with assms have "\<lfloor>x\<rfloor> < \<lfloor>y\<rfloor>" using floor_mono by (metis order_le_imp_less_or_eq)
  moreover have "\<lceil>x\<rceil> \<le> \<lfloor>x\<rfloor> + 1" by linarith
  ultimately show ?thesis using half_even_bounds [of x] half_even_bounds [of y] by linarith
qed

lemma half_even_minus: "half_even (- x) = - half_even x"
proof (cases "x = of_int \<lfloor>x\<rfloor>")
  case True
  then have "half_even x = \<lfloor>x\<rfloor>" "half_even (- x) = - \<lfloor>x\<rfloor>"
    by (metis half_even_int, metis half_even_int of_int_minus)
  then show ?thesis by simp
next
  case False
  then have f: "\<lfloor>- x\<rfloor> = - \<lfloor>x\<rfloor> - 1" by (simp add: floor_minus ceiling_altdef)
  show ?thesis unfolding half_even_def Let_def f by auto
qed

text \<open>A number of one binade, in units of its last place.\<close>

lemma last_place_bounds:
  assumes "x \<noteq> 0"
  shows "2 ^ 52 \<le> \<bar>x\<bar> / 2 powr of_int (last_place x)" "\<bar>x\<bar> / 2 powr of_int (last_place x) < 2 ^ 53"
proof -
  have b: "2 powr of_int \<lfloor>log 2 \<bar>x\<bar>\<rfloor> \<le> \<bar>x\<bar>" "\<bar>x\<bar> < 2 powr (of_int \<lfloor>log 2 \<bar>x\<bar>\<rfloor> + 1)"
    using assms floor_log_eq_powr_iff [of "\<bar>x\<bar>" 2 "\<lfloor>log 2 \<bar>x\<bar>\<rfloor>"] by (simp_all add: powr_add)
  have p: "2 powr of_int (last_place x) = (2::real) powr of_int \<lfloor>log 2 \<bar>x\<bar>\<rfloor> / 2 ^ 52"
    by (simp add: last_place_def powr_diff)
  have pos: "(0::real) < 2 powr of_int \<lfloor>log 2 \<bar>x\<bar>\<rfloor>" by simp
  show "2 ^ 52 \<le> \<bar>x\<bar> / 2 powr of_int (last_place x)" using b(1) pos unfolding p by (simp add: field_simps)
  show "\<bar>x\<bar> / 2 powr of_int (last_place x) < 2 ^ 53" using b(2) pos unfolding p powr_add by (simp add: field_simps)
qed

lemma last_place_unique:
  assumes "2 ^ 52 \<le> \<bar>x\<bar> / 2 powr of_int e" "\<bar>x\<bar> / 2 powr of_int e < 2 ^ 53"
  shows "last_place x = e"
proof -
  have x: "0 < \<bar>x\<bar>" using assms(1) by (cases "x = 0") simp_all
  have "2 powr of_int (e + 52) \<le> \<bar>x\<bar>" "\<bar>x\<bar> < 2 powr (of_int (e + 52) + 1)"
    using assms by (simp_all add: powr_add field_simps)
  then have "\<lfloor>log 2 \<bar>x\<bar>\<rfloor> = e + 52" using floor_log_eq_powr_iff [OF x, of 2 "e + 52"] by (simp add: powr_add)
  then show ?thesis by (simp add: last_place_def)
qed

lemma binary64_at:
  assumes "2 ^ 52 \<le> \<bar>x\<bar> / 2 powr of_int e" "\<bar>x\<bar> / 2 powr of_int e < 2 ^ 53"
  shows "binary64 x = of_int (half_even (x / 2 powr of_int e)) * 2 powr of_int e"
  using last_place_unique [OF assms] assms(1) by (cases "x = 0") (simp_all add: binary64_def)

lemma half_even_abs: "half_even \<bar>y\<bar> = \<bar>half_even y\<bar>"
proof -
  have "0 \<le> half_even z" if "0 \<le> z" for z
    using half_even_mono [OF that] half_even_int [of 0] by simp
  from this [of y] this [of "- y"] show ?thesis by (cases "0 \<le> y") (simp_all add: abs_if half_even_minus)
qed

lemma binary64_bounds:
  assumes "x \<noteq> 0"
  shows "2 ^ 52 \<le> \<bar>half_even (x / 2 powr of_int (last_place x))\<bar>" "\<bar>half_even (x / 2 powr of_int (last_place x))\<bar> \<le> 2 ^ 53"
proof -
  let ?y = "x / 2 powr of_int (last_place x)"
  have b: "2 ^ 52 \<le> \<bar>?y\<bar>" "\<bar>?y\<bar> \<le> 2 ^ 53" using last_place_bounds [OF assms] by (simp_all add: abs_divide)
  have "half_even (of_int (2 ^ 52)) \<le> half_even \<bar>?y\<bar>" "half_even \<bar>?y\<bar> \<le> half_even (of_int (2 ^ 53))"
    using b by (intro half_even_mono; simp)+
  then show "2 ^ 52 \<le> \<bar>half_even ?y\<bar>" "\<bar>half_even ?y\<bar> \<le> 2 ^ 53" unfolding half_even_abs half_even_int .
qed

lemma binary64_minus: "binary64 (- x) = - binary64 x"
  by (simp add: binary64_def last_place_def half_even_minus)

lemma binary64_sgn: "sgn (binary64 x) = sgn x"
proof (cases "x = 0")
  case False
  let ?h = "half_even (x / 2 powr of_int (last_place x))"
  have "?h \<noteq> 0" using binary64_bounds(1) [OF False] by auto
  moreover have "0 \<le> ?h" if "0 < x"
    using that half_even_mono [of "of_int 0" "x / 2 powr of_int (last_place x)"] unfolding half_even_int by simp
  moreover have "?h \<le> 0" if "x < 0"
    using that half_even_mono [of "x / 2 powr of_int (last_place x)" "of_int 0"] unfolding half_even_int by (simp add: divide_nonpos_pos)
  ultimately show ?thesis using False by (cases "0 < x") (auto simp: binary64_def sgn_if mult_less_0_iff zero_less_mult_iff)
qed (simp add: binary64_def)

text \<open>Exact on the numbers of 53 bits.\<close>

lemma binary64_exact:
  assumes "2 ^ 52 \<le> \<bar>m\<bar>" "\<bar>m\<bar> \<le> 2 ^ 53"
  shows "binary64 (of_int m * 2 powr of_int e) = of_int m * 2 powr of_int e"
proof (cases "\<bar>m\<bar> = 2 ^ 53")
  case False
  then have "\<bar>m\<bar> < 2 ^ 53" using assms(2) by simp
  then have "\<bar>real_of_int m\<bar> < 2 ^ 53" by (metis of_int_abs of_int_less_iff of_int_numeral of_int_power)
  moreover have "2 ^ 52 \<le> \<bar>real_of_int m\<bar>" using assms(1) by (metis of_int_abs of_int_le_iff of_int_numeral of_int_power)
  ultimately show ?thesis by (subst binary64_at [of _ e]) (simp_all add: abs_mult)
next
  case True
  then have m: "m = 2 * (sgn m * 2 ^ 52)" "\<bar>sgn m\<bar> = 1" using abs_sgn_eq_1 [of m] sgn_mult_abs [of m] by (auto simp: sgn_if)
  then have x: "of_int m * 2 powr of_int e = of_int (sgn m * 2 ^ 52) * (2 powr of_int (e + 1) :: real)"
    by (subst m(1)) (simp add: powr_add)
  have s: "\<bar>of_int (sgn m) :: real\<bar> = 1" using m(2) by (metis of_int_1 of_int_abs)
  have "of_int (sgn m * 2 ^ 52) * 2 powr of_int (e + 1) / 2 powr of_int (e + 1) = (of_int (sgn m * 2 ^ 52) :: real)" by simp
  then show ?thesis unfolding x
    by (subst binary64_at [of _ "e + 1"]) (use s in \<open>simp_all add: abs_mult abs_divide del: of_int_mult of_int_add\<close>)
qed

lemma rounding_binary64: "rounding binary64"
  unfolding rounding_def
proof (intro conjI allI)
  fix x
  show "binary64 (- x) = - binary64 x" by (rule binary64_minus)
  show "binary64 (binary64 x) = binary64 x"
    using binary64_exact [OF binary64_bounds] by (cases "x = 0") (simp_all add: binary64_def [of x], simp add: binary64_def)
next
  have pos: "binary64 x \<le> binary64 y" if xy: "0 < x" "x \<le> y" for x y
  proof (cases "last_place x = last_place y")
    case True
    then show ?thesis using xy by (simp add: binary64_def half_even_mono divide_right_mono)
  next
    case False
    have "last_place x \<le> last_place y" using xy by (simp add: last_place_def floor_mono)
    with False have l: "last_place x + 1 \<le> last_place y" by simp
    let ?hx = "half_even (x / 2 powr of_int (last_place x))" and ?hy = "half_even (y / 2 powr of_int (last_place y))"
    have h: "?hx \<le> 2 ^ 53" "2 ^ 52 \<le> ?hy"
      using binary64_bounds(2) [of x] binary64_bounds(1) [of y] binary64_sgn [of y] xy
      by (auto simp: binary64_def abs_le_iff sgn_if zero_less_mult_iff split: if_splits)
    have "binary64 x \<le> 2 ^ 53 * 2 powr of_int (last_place x)"
      using h(1) xy by (simp add: binary64_def)
    also have "\<dots> = 2 ^ 52 * 2 powr of_int (last_place x + 1)" by (simp add: powr_add)
    also have "\<dots> \<le> 2 ^ 52 * 2 powr of_int (last_place y)" using l by (simp del: of_int_add)
    also have "\<dots> \<le> binary64 y"
      using h(2) xy by (simp add: binary64_def)
    finally show ?thesis .
  qed
  show "mono binary64"
  proof (rule monoI)
    fix x y :: real assume xy: "x \<le> y"
    consider "0 < x" | "x \<le> 0" "0 \<le> y" | "y < 0" using xy by linarith
    then show "binary64 x \<le> binary64 y"
    proof cases
      case 1
      then show ?thesis using xy by (rule pos)
    next
      case 2
      then have "binary64 x \<le> 0" "0 \<le> binary64 y" using binary64_sgn [of x] binary64_sgn [of y] by (auto simp: sgn_if split: if_splits)
      then show ?thesis by linarith
    next
      case 3
      then have "binary64 (- y) \<le> binary64 (- x)" using xy by (intro pos) auto
      then show ?thesis by (simp add: binary64_minus)
    qed
  qed
qed

section \<open>Evaluation\<close>

text \<open>Fixed point numbers are rounded as integers.\<close>

definition round53 :: "int \<Rightarrow> int" where
  "round53 m =
     (let b = nat (bitlen m - 53); q = m div 2 ^ b; r = m mod 2 ^ b in
      if m < 2 ^ 53 then m
      else (if 2 * r < 2 ^ b then q else if 2 ^ b < 2 * r then q + 1 else if even q then q else q + 1) * 2 ^ b)"

lemma half_even_div:
  "half_even (of_int m / 2 ^ b) =
     (if 2 * (m mod 2 ^ b) < 2 ^ b then m div 2 ^ b else if 2 ^ b < 2 * (m mod 2 ^ b) then m div 2 ^ b + 1
      else if even (m div 2 ^ b) then m div 2 ^ b else m div 2 ^ b + 1)"
proof -
  have f: "\<lfloor>of_int m / 2 ^ b :: real\<rfloor> = m div 2 ^ b"
    by (metis floor_divide_of_int_eq of_int_numeral of_int_power)
  have "m = m div 2 ^ b * 2 ^ b + m mod 2 ^ b" by (simp only: div_mult_mod_eq)
  then have "real_of_int m = of_int (m div 2 ^ b) * 2 ^ b + of_int (m mod 2 ^ b)"
    by (metis of_int_add of_int_mult of_int_numeral of_int_power)
  then have d: "of_int m / 2 ^ b - of_int (m div 2 ^ b) = (of_int (m mod 2 ^ b) / 2 ^ b :: real)"
    by (simp add: field_simps)
  have c: "of_int (m mod 2 ^ b) / 2 ^ b < (1 / 2 :: real) \<longleftrightarrow> 2 * (m mod 2 ^ b) < 2 ^ b"
    "(1 / 2 :: real) < of_int (m mod 2 ^ b) / 2 ^ b \<longleftrightarrow> 2 ^ b < 2 * (m mod 2 ^ b)"
    by (simp_all add: field_simps) (metis (mono_tags) of_int_less_iff of_int_mult of_int_numeral of_int_power)+
  show ?thesis unfolding half_even_def Let_def f d c ..
qed

lemma binary64_fixed_point:
  assumes "0 < m"
  shows "binary64 (of_int m / 2 ^ k) = of_int (round53 m) / 2 ^ k"
proof -
  let ?x = "of_int m / 2 ^ k :: real" and ?e = "bitlen m - 53 - int k"
  have b: "2 ^ nat (bitlen m - 1) \<le> m" "m < 2 ^ nat (bitlen m)" using bitlen_bounds [OF assms] by blast+
  then have pos: "0 < bitlen m" using assms by (cases "0 < bitlen m") simp_all
  have e: "?x / 2 powr of_int ?e = of_int m / 2 powr of_int (bitlen m - 53)"
    by (simp add: powr_diff powr_realpow)
  have p: "2 powr of_int i = real_of_int (2 ^ nat i)" if "0 \<le> i" for i
    using powr_realpow [of 2 "nat i"] that by simp
  have "2 powr of_int (bitlen m - 1) \<le> real_of_int m" "real_of_int m < 2 powr of_int (bitlen m)"
    using b pos p [of "bitlen m - 1"] p [of "bitlen m"] by (simp_all only: of_int_le_iff of_int_less_iff)
  then have at: "2 ^ 52 \<le> \<bar>?x\<bar> / 2 powr of_int ?e" "\<bar>?x\<bar> / 2 powr of_int ?e < 2 ^ 53"
  proof -
    have a: "\<bar>?x\<bar> = ?x" using assms by simp
    have d: "2 powr of_int (bitlen m - 53) = 2 powr of_int (bitlen m) / (2 ^ 53 :: real)"
      "2 powr of_int (bitlen m - 1) = 2 powr of_int (bitlen m) / (2 :: real)"
      by (simp_all add: powr_diff)
    show "2 ^ 52 \<le> \<bar>?x\<bar> / 2 powr of_int ?e" "\<bar>?x\<bar> / 2 powr of_int ?e < 2 ^ 53"
      using \<open>2 powr of_int (bitlen m - 1) \<le> real_of_int m\<close> \<open>real_of_int m < 2 powr of_int (bitlen m)\<close>
      unfolding a e d by (simp_all add: field_simps)
  qed
  show ?thesis
  proof (cases "bitlen m \<le> 53")
    case True
    let ?n = "nat (53 - bitlen m)"
    have n: "of_int (bitlen m - 53) = - real ?n" using True by simp
    have "(2::int) ^ nat (bitlen m) \<le> 2 ^ 53" using True by (intro power_increasing) simp_all
    then have r: "round53 m = m" using b(2) by (simp add: round53_def)
    have y: "?x / 2 powr of_int ?e = of_int (m * 2 ^ ?n)"
      unfolding e n by (simp add: powr_minus powr_realpow field_simps)
    have u: "2 powr of_int ?e = 1 / (2 ^ ?n * 2 ^ k :: real)"
      unfolding of_int_diff [of _ "int k"] n by (simp add: powr_diff powr_minus powr_realpow field_simps)
    show ?thesis unfolding binary64_at [OF at] y half_even_int unfolding u r by simp
  next
    case False
    let ?n = "nat (bitlen m - 53)"
    have n: "of_int (bitlen m - 53) = real ?n" using False by simp
    have "(2::int) ^ 53 \<le> 2 ^ nat (bitlen m - 1)" using False by (intro power_increasing) simp_all
    then have "\<not> m < 2 ^ 53" using b(1) by simp
    then have r: "round53 m = half_even (of_int m / 2 ^ ?n) * 2 ^ ?n"
      unfolding half_even_div by (simp add: round53_def Let_def)
    have "?x / 2 powr of_int ?e = of_int m / 2 ^ ?n" unfolding e n by (simp add: powr_realpow)
    moreover have "2 powr of_int ?e = (2 ^ ?n / 2 ^ k :: real)"
      unfolding of_int_diff [of _ "int k"] n by (simp add: powr_diff powr_realpow)
    ultimately show ?thesis unfolding binary64_at [OF at] r by simp
  qed
qed

lemma round53_nonneg: "0 \<le> m \<Longrightarrow> 0 \<le> round53 m"
  by (auto simp: round53_def Let_def pos_imp_zdiv_nonneg_iff)

lemma binary64_int: "0 < m \<Longrightarrow> m < 2 ^ 53 \<Longrightarrow> binary64 (of_int m) = of_int m"
  using binary64_fixed_point [of m 0] by (simp add: round53_def)

lemma fl_sum_fixed_point:
  assumes "\<And>x. x \<in> set xs \<Longrightarrow> f x = of_int (g x) / 2 ^ k \<and> 0 < g x"
  shows "fl_sum binary64 f xs = of_int (foldl (\<lambda>acc x. round53 (acc + g x)) 0 xs) / 2 ^ k"
proof -
  have "foldl (\<lambda>acc x. binary64 (acc + f x)) (of_int a / 2 ^ k) xs = of_int (foldl (\<lambda>acc x. round53 (acc + g x)) a xs) / 2 ^ k"
    if "0 \<le> a" for a
    using that assms
  proof (induction xs arbitrary: a)
    case (Cons x xs)
    have "0 < a + g x" "f x = of_int (g x) / 2 ^ k" using Cons.prems by (simp_all add: add_nonneg_pos)
    then have "binary64 (of_int a / 2 ^ k + f x) = of_int (round53 (a + g x)) / 2 ^ k"
      using binary64_fixed_point [of "a + g x" k] by (simp add: add_divide_distrib)
    with Cons.IH [of "round53 (a + g x)"] Cons.prems \<open>0 < a + g x\<close> show ?case by (simp add: round53_nonneg)
  qed simp
  from this [of 0] show ?thesis by (simp add: fl_sum_def)
qed

end
