(* ===== verification/Parameter_Tuning.thy ===== *)
theory Parameter_Tuning
  imports Sliding_Windows Sample_Sums Float_Rounding
begin

text \<open>
  internal/optimizer/engine.go: tuning of parameters by the correlation of their values with results.
  The parameters, which are ranged over, are an association list.

  The estimate of the gradient divides by the root of a difference that is not negative for reals,
  but can be for rounded sums; the root is then NaN, which every guard after it lets pass.  So the
  arithmetic of the tuning is rounded here operation by operation, by a rounding \<open>fl\<close> that is an
  argument, and a current value may be None, which is NaN.  Products and sums are rounded apart, as
  on amd64, which does not fuse them.  (The averages of the report decide nothing and are exact.)
\<close>

section \<open>Types\<close>

record Parameter =
  pm_Name :: string
  pm_Current :: "float64 option"
  pm_Min :: float64
  pm_Max :: float64
  pm_StepSize :: float64

record PerformanceSample =
  ps_Params :: "string \<rightharpoonup> float64"
  ps_PnLUSD :: float64
  ps_Sharpe :: float64
  ps_FillRate :: float64
  ps_TsMs :: int64

record OptimisationResult =
  or_Adjustments :: "(string \<times> float64 option) list"
  or_PrevSharpe :: float64
  or_NewSharpe :: float64
  or_SamplesUsed :: int
  or_Confidence :: float64
  or_TsMs :: int64

record TuningEngine =
  tu_params :: "(string \<times> Parameter) list"
  tu_samples :: "PerformanceSample list"
  tu_windowMs :: int64
  tu_maxSamples :: nat
  tu_minSamples :: nat
  tu_stepDecay :: float64

definition NewTuningEngine :: "Parameter list \<Rightarrow> int64 \<Rightarrow> TuningEngine" where
  "NewTuningEngine params windowMs =
     \<lparr>tu_params = foldl (\<lambda>m p. AList.update (pm_Name p) p m) [] params, tu_samples = [], tu_windowMs = windowMs,
      tu_maxSamples = 5000, tu_minSamples = 20, tu_stepDecay = 0.999\<rparr>"

section \<open>Operations\<close>

definition tuning_trimOld :: "int64 \<Rightarrow> TuningEngine \<Rightarrow> TuningEngine" where
  "tuning_trimOld now e = e\<lparr>tu_samples := trim_window ps_TsMs (now - tu_windowMs e) (tu_maxSamples e) (tu_samples e)\<rparr>"

definition TuningRecord :: "int64 \<Rightarrow> PerformanceSample \<Rightarrow> TuningEngine \<Rightarrow> TuningEngine" where
  "TuningRecord now s e = tuning_trimOld now (e\<lparr>tu_samples := tu_samples e @ [s]\<rparr>)"

definition avgSharpe :: "PerformanceSample list \<Rightarrow> float64" where
  "avgSharpe samples = (if samples = [] then 0 else sum_of ps_Sharpe samples / real (length samples))"

text \<open>The values of the parameter with the results of the samples that have one.\<close>

definition gradient_points :: "string \<Rightarrow> PerformanceSample list \<Rightarrow> (float64 \<times> float64) list" where
  "gradient_points name samples =
     concat (map (\<lambda>s. case ps_Params s name of Some v \<Rightarrow> [(v, ps_PnLUSD s)] | None \<Rightarrow> []) samples)"

text \<open>The product under the root, rounded: the variances of the parameter and of the result, times n to the fourth.\<close>

definition fl_variances :: "(real \<Rightarrow> real) \<Rightarrow> (float64 \<times> float64) list \<Rightarrow> float64" where
  "fl_variances fl pts =
     (let n = real (length pts); sumX = fl_sum fl fst pts; sumY = fl_sum fl snd pts;
          sumXX = fl_sum fl (\<lambda>p. fl (fst p * fst p)) pts; sumYY = fl_sum fl (\<lambda>p. fl (snd p * snd p)) pts
      in fl (fl (fl (n * sumXX) - fl (sumX * sumX)) * fl (fl (n * sumYY) - fl (sumY * sumY))))"

definition fl_covariance :: "(real \<Rightarrow> real) \<Rightarrow> (float64 \<times> float64) list \<Rightarrow> float64" where
  "fl_covariance fl pts =
     (let n = real (length pts); sumX = fl_sum fl fst pts; sumY = fl_sum fl snd pts;
          sumXY = fl_sum fl (\<lambda>p. fl (fst p * snd p)) pts
      in fl (fl (n * sumXY) - fl (sumX * sumY)))"

definition estimateGradient :: "(real \<Rightarrow> real) \<Rightarrow> string \<Rightarrow> PerformanceSample list \<Rightarrow> float64 option" where
  "estimateGradient fl name samples =
     (let pts = gradient_points name samples in
      if length samples < 5 then Some 0
      else if length pts < 5 then Some 0
      else
        (case go_sqrt fl (fl_variances fl pts) of
           None \<Rightarrow> None
         | Some den \<Rightarrow> if den = 0 then Some 0 else Some (max (- 1) (min 1 (fl (fl_covariance fl pts / den))))))"

definition tune_value :: "(real \<Rightarrow> real) \<Rightarrow> PerformanceSample list \<Rightarrow> string \<Rightarrow> Parameter \<Rightarrow> float64 option" where
  "tune_value fl recent name p =
     (case (pm_Current p, estimateGradient fl name recent) of
        (Some current, Some grad) \<Rightarrow>
          Some (max (pm_Min p) (min (pm_Max p) (fl (current + fl (pm_StepSize p * grad)))))
      | _ \<Rightarrow> None)"

text \<open>A NaN differs from every number and from itself.\<close>

definition differs :: "float64 option \<Rightarrow> float64 option \<Rightarrow> bool" where
  "differs a b \<longleftrightarrow> a = None \<or> b = None \<or> a \<noteq> b"

definition tune_param :: "(real \<Rightarrow> real) \<Rightarrow> float64 \<Rightarrow> PerformanceSample list \<Rightarrow> string \<times> Parameter \<Rightarrow> string \<times> Parameter" where
  "tune_param fl stepDecay recent np =
     (case np of (name, p) \<Rightarrow>
        let newVal = tune_value fl recent name p in
        (name, if differs newVal (pm_Current p)
               then p\<lparr>pm_Current := newVal, pm_StepSize := fl (pm_StepSize p * stepDecay)\<rparr> else p))"

definition tune_adjustment :: "(real \<Rightarrow> real) \<Rightarrow> PerformanceSample list \<Rightarrow> string \<times> Parameter \<Rightarrow> (string \<times> float64 option) list" where
  "tune_adjustment fl recent np =
     (case np of (name, p) \<Rightarrow>
        let newVal = tune_value fl recent name p in if differs newVal (pm_Current p) then [(name, newVal)] else [])"

definition recent_samples :: "int64 \<Rightarrow> TuningEngine \<Rightarrow> PerformanceSample list" where
  "recent_samples now e = filter (\<lambda>s. ps_TsMs s \<ge> now - tu_windowMs e) (tu_samples e)"

definition Optimise :: "(real \<Rightarrow> real) \<Rightarrow> int64 \<Rightarrow> TuningEngine \<Rightarrow> TuningEngine \<times> OptimisationResult option" where
  "Optimise fl now e =
     (let recent = recent_samples now e in
      if length recent < tu_minSamples e then (e, None)
      else
        (let half = length recent div 2 in
         (e\<lparr>tu_params := map (tune_param fl (tu_stepDecay e) recent) (tu_params e)\<rparr>,
          Some \<lparr>or_Adjustments = concat (map (tune_adjustment fl recent) (tu_params e)), or_PrevSharpe = avgSharpe (take half recent),
                or_NewSharpe = avgSharpe (drop half recent), or_SamplesUsed = int (length recent),
                or_Confidence = min 1 (real (length recent) / 100), or_TsMs = now\<rparr>)))"

definition CurrentParams :: "TuningEngine \<Rightarrow> string \<rightharpoonup> float64 option" where
  "CurrentParams e = map_of (map (\<lambda>(name, p). (name, pm_Current p)) (tu_params e))"

interpretation sample_log: windowed_log "\<lambda>e _. tu_samples e" "\<lambda>e x. TuningRecord (fst x) (snd x) e" "\<lambda>_. ()" ps_TsMs tu_windowMs tu_maxSamples
  by unfold_locales (auto simp: TuningRecord_def tuning_trimOld_def)

section \<open>The gradient\<close>

text \<open>Without rounding the estimate is the correlation itself: it is never NaN, nor cut to the range from -1 to 1.\<close>

lemma estimateGradient_is_the_correlation:
  assumes "pts = gradient_points name samples" "5 \<le> length samples" "5 \<le> length pts"
    and "den = sqrt ((real (length pts) * sum_of (\<lambda>p. fst p * fst p) pts - sum_of fst pts * sum_of fst pts) *
                     (real (length pts) * sum_of (\<lambda>p. snd p * snd p) pts - sum_of snd pts * sum_of snd pts))"
  shows "estimateGradient (\<lambda>x. x) name samples =
    Some (if den = 0 then 0 else (real (length pts) * sum_of (\<lambda>p. fst p * snd p) pts - sum_of fst pts * sum_of snd pts) / den)"
proof -
  let ?num = "real (length pts) * sum_of (\<lambda>p. fst p * snd p) pts - sum_of fst pts * sum_of snd pts"
  let ?v = "(real (length pts) * sum_of (\<lambda>p. fst p * fst p) pts - sum_of fst pts * sum_of fst pts) *
            (real (length pts) * sum_of (\<lambda>p. snd p * snd p) pts - sum_of snd pts * sum_of snd pts)"
  have b: "\<bar>?num\<bar> \<le> den" using correlation_bound [of pts fst snd] assms(4) by simp
  have f: "fl_variances (\<lambda>x. x) pts = ?v" "fl_covariance (\<lambda>x. x) pts = ?num"
    by (simp_all add: fl_variances_def fl_covariance_def fl_sum_none sum_of_def Let_def)
  have "0 \<le> ?v" by (intro mult_nonneg_nonneg variance_sum_nonneg)
  then have "go_sqrt (\<lambda>x. x) (fl_variances (\<lambda>x. x) pts) = Some den" unfolding f assms(4) go_sqrt_def by simp
  then have "estimateGradient (\<lambda>x. x) name samples = Some (if den = 0 then 0 else max (- 1) (min 1 (?num / den)))"
    using assms(2,3) unfolding estimateGradient_def assms(1) [symmetric] f Let_def by simp
  moreover have "max (- 1) (min 1 (?num / den)) = ?num / den" if "den \<noteq> 0"
  proof -
    have "0 < den" using that b by linarith
    then have "- 1 \<le> ?num / den" "?num / den \<le> 1" using b by (auto simp: pos_le_divide_eq pos_divide_le_eq)
    then show ?thesis by simp
  qed
  ultimately show ?thesis by simp
qed

text \<open>Rounded, it is in that range unless it is NaN, which it is exactly below a negative product.\<close>

lemma estimateGradient_range: "estimateGradient fl name samples = Some g \<Longrightarrow> \<bar>g\<bar> \<le> 1"
  by (auto simp: estimateGradient_def Let_def abs_le_iff split: if_splits option.splits)

lemma gradient_points_length: "length (gradient_points name samples) \<le> length samples"
  unfolding gradient_points_def by (induction samples) (auto split: option.split)

lemma estimateGradient_NaN:
  "estimateGradient fl name samples = None \<longleftrightarrow>
     5 \<le> length (gradient_points name samples) \<and> fl_variances fl (gradient_points name samples) < 0"
  using gradient_points_length [of name samples]
  by (auto simp: estimateGradient_def Let_def go_sqrt_def)

text \<open>Without rounding, results that are linear in a parameter give the gradient of full strength, with the sign of the slope.\<close>

theorem linear_results_give_the_full_gradient:
  assumes "pts = gradient_points name samples" "5 \<le> length pts" "\<forall>p\<in>set pts. snd p = a + b * fst p" "b \<noteq> 0"
    and "\<exists>p\<in>set pts. \<exists>q\<in>set pts. fst p \<noteq> fst q"
  shows "estimateGradient (\<lambda>x. x) name samples = Some (sgn b)"
proof -
  let ?n = "real (length pts)"
  let ?vx = "?n * sum_of (\<lambda>p. fst p * fst p) pts - sum_of fst pts * sum_of fst pts"
  have ne: "pts \<noteq> []" using assms(2) by auto
  have len: "5 \<le> length samples" using gradient_points_length [of name samples] assms(1,2) by simp
  have "?vx \<noteq> 0"
  proof
    assume "?vx = 0"
    then have "sum_of (\<lambda>p. (fst p - list_mean fst pts) * (fst p - list_mean fst pts)) pts = 0"
      using covariance_centred [OF ne, of fst fst] ne by simp
    then have "\<forall>p\<in>set pts. (fst p - list_mean fst pts) * (fst p - list_mean fst pts) = 0"
      unfolding sum_of_def by (subst (asm) sum_list_map_zero_iff) simp_all
    with assms(5) show False by auto
  qed
  then have vx: "0 < ?vx" using variance_sum_nonneg [of pts fst] by linarith
  have num: "?n * sum_of (\<lambda>p. fst p * snd p) pts - sum_of fst pts * sum_of snd pts = b * ?vx"
    using regression_of_a_line [of pts snd a b fst] assms(3) by simp
  have "?n * sum_of (\<lambda>p. snd p * snd p) pts - sum_of snd pts * sum_of snd pts =
      ?n * sum_of (\<lambda>p. snd p * (a + b * fst p)) pts - sum_of snd pts * sum_of (\<lambda>p. a + b * fst p) pts"
    using assms(3) sum_of_cong [of pts snd "\<lambda>p. a + b * fst p"] sum_of_cong [of pts "\<lambda>p. snd p * snd p" "\<lambda>p. snd p * (a + b * fst p)"] by simp
  also have "\<dots> = b * (?n * sum_of (\<lambda>p. fst p * snd p) pts - sum_of fst pts * sum_of snd pts)"
  proof -
    have "sum_of (\<lambda>p. snd p * (a + b * fst p)) pts = a * sum_of snd pts + b * sum_of (\<lambda>p. fst p * snd p) pts"
      unfolding sum_of_cmult [symmetric] sum_of_add [symmetric] by (rule sum_of_cong) (simp add: algebra_simps)
    moreover have "sum_of (\<lambda>p. a + b * fst p) pts = ?n * a + b * sum_of fst pts" by (simp only: sum_of_add sum_of_cmult sum_of_const)
    ultimately show ?thesis by (simp add: algebra_simps)
  qed
  also have "\<dots> = b * (b * ?vx)" unfolding num ..
  finally have vy: "?n * sum_of (\<lambda>p. snd p * snd p) pts - sum_of snd pts * sum_of snd pts = b * (b * ?vx)" .
  have "sqrt (?vx * (b * (b * ?vx))) = \<bar>b\<bar> * ?vx"
    using vx real_sqrt_abs [of "b * ?vx"] by (simp add: power2_eq_square abs_mult mult_ac)
  then have "estimateGradient (\<lambda>x. x) name samples = Some (if \<bar>b\<bar> * ?vx = 0 then 0 else b * ?vx / (\<bar>b\<bar> * ?vx))"
    using estimateGradient_is_the_correlation [OF assms(1) len assms(2) refl] unfolding vy num by simp
  then show ?thesis using vx assms(4) by (simp add: sgn_if)
qed

section \<open>The parameters\<close>

datatype tuning_event = TRecord int64 PerformanceSample | TTune int64

fun tuning_step :: "(real \<Rightarrow> real) \<Rightarrow> TuningEngine \<Rightarrow> tuning_event \<Rightarrow> TuningEngine" where
  "tuning_step fl e (TRecord now s) = TuningRecord now s e"
| "tuning_step fl e (TTune now) = fst (Optimise fl now e)"

text \<open>A parameter in its range, if it is a number, with fields that the rounding leaves alone.\<close>

definition param_ok :: "(real \<Rightarrow> real) \<Rightarrow> Parameter \<Rightarrow> bool" where
  "param_ok fl p \<longleftrightarrow> (\<forall>x. pm_Current p = Some x \<longrightarrow> pm_Min p \<le> x \<and> x \<le> pm_Max p \<and> fl x = x) \<and>
     pm_Min p \<le> pm_Max p \<and> fl (pm_Min p) = pm_Min p \<and> fl (pm_Max p) = pm_Max p \<and>
     0 \<le> pm_StepSize p \<and> fl (pm_StepSize p) = pm_StepSize p"

definition tuning_ok :: "(real \<Rightarrow> real) \<Rightarrow> TuningEngine \<Rightarrow> bool" where
  "tuning_ok fl e \<longleftrightarrow> rounding fl \<and> (\<forall>np\<in>set (tu_params e). param_ok fl (snd np)) \<and> 0 \<le> tu_stepDecay e \<and> tu_stepDecay e \<le> 1"

text \<open>
  What one tuning may do to a parameter: move it, inside its range, by at most its step; or make it
  NaN, where it was NaN or the rounded product of the variances is negative.
\<close>

definition tuned :: "(real \<Rightarrow> real) \<Rightarrow> PerformanceSample list \<Rightarrow> string \<times> Parameter \<Rightarrow> string \<times> Parameter \<Rightarrow> bool" where
  "tuned fl recent np np' \<longleftrightarrow>
     fst np' = fst np \<and> pm_Min (snd np') = pm_Min (snd np) \<and> pm_Max (snd np') = pm_Max (snd np) \<and>
     (case (pm_Current (snd np), pm_Current (snd np')) of
        (Some x, Some y) \<Rightarrow> pm_Min (snd np) \<le> y \<and> y \<le> pm_Max (snd np) \<and>
          fl (x - pm_StepSize (snd np)) \<le> y \<and> y \<le> fl (x + pm_StepSize (snd np))
      | (Some x, None) \<Rightarrow> 5 \<le> length (gradient_points (fst np) recent) \<and> fl_variances fl (gradient_points (fst np) recent) < 0
      | (None, y) \<Rightarrow> y = None)"

lemma clamped_step:
  assumes "rounding fl" "param_ok fl p" "pm_Current p = Some x" "\<bar>g\<bar> \<le> 1"
    and y: "y = max (pm_Min p) (min (pm_Max p) (fl (x + fl (pm_StepSize p * g))))"
  shows "pm_Min p \<le> y \<and> y \<le> pm_Max p \<and> fl (x - pm_StepSize p) \<le> y \<and> y \<le> fl (x + pm_StepSize p) \<and> fl y = y"
proof -
  let ?d = "fl (pm_StepSize p * g)"
  have p: "pm_Min p \<le> x" "x \<le> pm_Max p" "fl x = x" "fl (pm_Min p) = pm_Min p" "fl (pm_Max p) = pm_Max p"
    "0 \<le> pm_StepSize p" "fl (pm_StepSize p) = pm_StepSize p"
    using assms(2,3) by (auto simp: param_ok_def)
  note mono = rounding_mono [OF assms(1)]
  have "\<bar>pm_StepSize p * g\<bar> \<le> pm_StepSize p" using p(6) assms(4) by (simp add: abs_mult mult_left_le)
  then have "fl (- pm_StepSize p) \<le> ?d" "?d \<le> fl (pm_StepSize p)" by (auto intro!: mono simp: abs_le_iff)
  then have d: "- pm_StepSize p \<le> ?d" "?d \<le> pm_StepSize p" using p(7) by (simp_all add: rounding_minus [OF assms(1)])
  then have "fl (x - pm_StepSize p) \<le> fl (x + ?d)" "fl (x + ?d) \<le> fl (x + pm_StepSize p)" by (auto intro: mono)
  moreover have "fl (x - pm_StepSize p) \<le> x" "x \<le> fl (x + pm_StepSize p)"
    using p(6) mono [of "x - pm_StepSize p" x] mono [of x "x + pm_StepSize p"] p(3) by simp_all
  moreover have "fl y = y" unfolding y using p(4,5) rounding_fixed [OF assms(1)] by (auto simp: max_def min_def)
  ultimately show ?thesis using p(1,2) unfolding y by (auto simp: max_def min_def)
qed

lemma tune_param_tuned:
  assumes "rounding fl" "param_ok fl (snd np)" "0 \<le> decay" "decay \<le> 1"
  shows "tuned fl recent np (tune_param fl decay recent np)" "param_ok fl (snd (tune_param fl decay recent np))"
proof -
  obtain name p where np: "np = (name, p)" by (cases np)
  have step: "0 \<le> fl (pm_StepSize p * decay)" "fl (fl (pm_StepSize p * decay)) = fl (pm_StepSize p * decay)"
    using assms np rounding_mono [OF assms(1), of 0 "pm_StepSize p * decay"] rounding_minus [OF assms(1), of 0]
      rounding_fixed [OF assms(1)] by (auto simp: param_ok_def)
  have ok: "param_ok fl p" using assms(2) np by simp
  consider "pm_Current p = None" | x where "pm_Current p = Some x" "estimateGradient fl name recent = None"
    | x g where "pm_Current p = Some x" "estimateGradient fl name recent = Some g" by fastforce
  then have "tuned fl recent np (tune_param fl decay recent np) \<and> param_ok fl (snd (tune_param fl decay recent np))"
  proof cases
    case 1
    then show ?thesis using ok step by (simp add: np tuned_def tune_param_def tune_value_def param_ok_def differs_def)
  next
    case 2
    note NaN = 2(2) [unfolded estimateGradient_NaN]
    from 2 have "tune_param fl decay recent np = (name, p\<lparr>pm_Current := None, pm_StepSize := fl (pm_StepSize p * decay)\<rparr>)"
      by (simp add: np tune_param_def tune_value_def differs_def)
    then show ?thesis using 2(1) NaN ok step by (simp add: np tuned_def param_ok_def)
  next
    case 3
    let ?y = "max (pm_Min p) (min (pm_Max p) (fl (x + fl (pm_StepSize p * g))))"
    note c = clamped_step [OF assms(1) ok 3(1) estimateGradient_range [OF 3(2)] refl]
    from 3 have "tune_param fl decay recent np =
        (name, if ?y \<noteq> x then p\<lparr>pm_Current := Some ?y, pm_StepSize := fl (pm_StepSize p * decay)\<rparr> else p)"
      by (simp add: np tune_param_def tune_value_def differs_def)
    then show ?thesis using 3(1) c ok step by (cases "?y = x") (simp_all add: np tuned_def param_ok_def del: max_min_distrib1 max_min_distrib2)
  qed
  then show "tuned fl recent np (tune_param fl decay recent np)" "param_ok fl (snd (tune_param fl decay recent np))" by blast+
qed

interpretation tuning: invariant_machine "tuning_step fl" "\<lambda>_. True" "tuning_ok fl"
proof unfold_locales
  fix e v assume ok: "tuning_ok fl e"
  show "tuning_ok fl (tuning_step fl e v)"
  proof (cases v)
    case (TRecord now s)
    with ok show ?thesis by (simp add: tuning_ok_def TuningRecord_def tuning_trimOld_def)
  next
    case (TTune now)
    with ok tune_param_tuned(2) show ?thesis by (auto simp: tuning_ok_def Optimise_def Let_def)
  qed
qed

lemma NewTuningEngine_ok:
  assumes "rounding fl" "\<forall>p\<in>set params. param_ok fl p"
  shows "tuning_ok fl (NewTuningEngine params w)"
proof -
  have "np \<in> set (foldl (\<lambda>m p. AList.update (pm_Name p) p m) m params) \<Longrightarrow> np \<in> set m \<or> snd np \<in> set params" for np m
  proof (induction params arbitrary: m)
    case (Cons p ps)
    then have "np \<in> set (AList.update (pm_Name p) p m) \<or> snd np \<in> set ps" by simp
    then show ?case using alist_update_set by fastforce
  qed simp
  from this [of _ "[]"] assms show ?thesis by (auto simp: tuning_ok_def NewTuningEngine_def)
qed

text \<open>The reported adjustments, from the parameters before and after.\<close>

lemma adjustments_zip:
  "concat (map (tune_adjustment fl recent) ps) = map (\<lambda>(np, np'). (fst np, pm_Current (snd np')))
     (filter (\<lambda>(np, np'). differs (pm_Current (snd np')) (pm_Current (snd np))) (zip ps (map (tune_param fl decay recent) ps)))"
proof (induction ps)
  case (Cons np ps)
  have "tune_adjustment fl recent np =
      (if differs (pm_Current (snd (tune_param fl decay recent np))) (pm_Current (snd np))
       then [(fst np, pm_Current (snd (tune_param fl decay recent np)))] else [])"
    by (auto simp: tune_adjustment_def tune_param_def Let_def case_prod_beta differs_def)
  with Cons.IH show ?case by simp
qed simp

text \<open>
  C32.  For every rounding that is monotone, odd and idempotent, and parameters that start in their
  ranges: whatever is recorded and tuned before, a tuning keeps the names and the ranges, and each
  parameter stays in its range and moves by at most its step; or it becomes NaN, which happens only
  when it was NaN or the rounded product of the two variances is negative.  The reported
  adjustments are the parameters that changed (a NaN always counts), with their new values.
\<close>

theorem tuned_parameters_stay_in_range_or_become_NaN:
  assumes "rounding fl" "\<forall>p\<in>set params. param_ok fl p" "e = foldl (tuning_step fl) (NewTuningEngine params w) vs"
    and "Optimise fl now e = (e', Some r)"
  shows "list_all2 (tuned fl (recent_samples now e)) (tu_params e) (tu_params e') \<and>
         or_Adjustments r = map (\<lambda>(np, np'). (fst np, pm_Current (snd np')))
           (filter (\<lambda>(np, np'). differs (pm_Current (snd np')) (pm_Current (snd np))) (zip (tu_params e) (tu_params e')))"
proof -
  have ok: "tuning_ok fl e" unfolding assms(3) by (rule tuning.run_inv [OF NewTuningEngine_ok [OF assms(1,2)]]) simp
  have e': "tu_params e' = map (tune_param fl (tu_stepDecay e) (recent_samples now e)) (tu_params e)"
    and r: "or_Adjustments r = concat (map (tune_adjustment fl (recent_samples now e)) (tu_params e))"
    using assms(4) by (auto simp: Optimise_def Let_def split: if_splits)
  have "list_all2 (tuned fl (recent_samples now e)) (tu_params e) (tu_params e')"
    unfolding e' list_all2_map2 using ok by (auto simp: tuning_ok_def intro!: list.rel_refl_strong tune_param_tuned(1))
  then show ?thesis unfolding r e' by (simp add: adjustments_zip)
qed

text \<open>The Sharpe ratios of the samples are averaged for the report, but they have no influence on the parameters.\<close>

theorem the_sharpe_ratio_has_no_influence:
  assumes "\<And>s. ps_Params (f s) = ps_Params s \<and> ps_PnLUSD (f s) = ps_PnLUSD s \<and> ps_TsMs (f s) = ps_TsMs s"
  shows "tu_params (fst (Optimise fl now (e\<lparr>tu_samples := map f (tu_samples e)\<rparr>))) = tu_params (fst (Optimise fl now e))"
proof -
  have pts: "gradient_points name (map f ss) = gradient_points name ss" for name ss
    unfolding gradient_points_def map_map comp_def using assms by (intro arg_cong [of _ _ concat] map_cong refl) (simp split: option.split)
  then have "estimateGradient fl name (map f ss) = estimateGradient fl name ss" for name ss by (simp add: estimateGradient_def)
  then have tune: "tune_param fl dc (map f ss) np = tune_param fl dc ss np" for dc ss np by (simp add: tune_param_def tune_value_def split: prod.split)
  have "recent_samples now (e\<lparr>tu_samples := map f (tu_samples e)\<rparr>) = map f (recent_samples now e)"
    using assms by (simp add: recent_samples_def filter_map comp_def)
  then show ?thesis by (simp add: Optimise_def Let_def tune)
qed

section \<open>Concrete samples\<close>

definition ex_sample :: "int \<Rightarrow> PerformanceSample" where
  "ex_sample i = \<lparr>ps_Params = [''edge'' \<mapsto> real_of_int i], ps_PnLUSD = 3 * real_of_int i, ps_Sharpe = 1, ps_FillRate = 1, ps_TsMs = i\<rparr>"

lemma linear_results_give_the_full_gradient_witness: "estimateGradient (\<lambda>x. x) ''edge'' (map ex_sample [1, 2, 3, 4, 5]) = Some 1"
proof -
  have p: "gradient_points ''edge'' (map ex_sample [1, 2, 3, 4, 5]) = [(1, 3), (2, 6), (3, 9), (4, 12), (5, 15)]"
    by (simp add: gradient_points_def ex_sample_def)
  have "\<exists>p\<in>set [(1, 3), (2, 6), (3, 9), (4, 12), (5, 15)]. \<exists>q\<in>set [(1, 3), (2, 6), (3, 9), (4, 12), (5, 15)]. fst p \<noteq> (fst q :: real)"
    by (intro bexI [of _ "(1, 3)"] bexI [of _ "(2, 6)"]) auto
  from linear_results_give_the_full_gradient [OF p [symmetric] _ _ _ this, of 0 3] show ?thesis by simp
qed

definition edge_params :: "Parameter list" where
  "edge_params = [\<lparr>pm_Name = ''edge'', pm_Current = Some 5, pm_Min = 1, pm_Max = 10, pm_StepSize = 1\<rparr>]"

lemma Optimise_returns: "tu_minSamples e \<le> length (recent_samples now e) \<Longrightarrow> \<exists>e' r. Optimise fl now e = (e', Some r)"
  by (simp add: Optimise_def Let_def)

lemma tuned_parameters_stay_in_range_or_become_NaN_witness:
  "let e = foldl (tuning_step binary64) (NewTuningEngine edge_params 1000) (map (\<lambda>i. TRecord 20 (ex_sample i)) [1..20]) in
   list_all2 (tuned binary64 (recent_samples 20 e)) (tu_params e) (tu_params (fst (Optimise binary64 20 e))) \<and>
   length (tu_params e) = 1 \<and> snd (Optimise binary64 20 e) \<noteq> None"
proof -
  let ?e = "foldl (tuning_step binary64) (NewTuningEngine edge_params 1000) (map (\<lambda>i. TRecord 20 (ex_sample i)) [1..20])"
  have l: "[1..20] = [1, 2, 3, 4, 5, 6, 7, 8, 9, 10, 11, 12, 13, 14, 15, 16, 17, 18, 19, 20 :: int]" by (simp add: upto_rec_numeral upto.simps)
  have e: "tu_samples ?e = map ex_sample [1..20]" "tu_windowMs ?e = 1000" "tu_minSamples ?e = 20" "length (tu_params ?e) = 1"
    unfolding l by (simp_all add: NewTuningEngine_def TuningRecord_def tuning_trimOld_def trim_window_def keep_last_def ex_sample_def edge_params_def)
  have "20 \<le> length (recent_samples 20 ?e)" unfolding recent_samples_def e by (simp add: ex_sample_def l)
  then obtain e' r where o: "Optimise binary64 20 ?e = (e', Some r)" using Optimise_returns [of ?e 20 binary64] unfolding e by blast
  have "binary64 1 = 1" "binary64 5 = 5" "binary64 10 = 10"
    using binary64_int [of 1] binary64_int [of 5] binary64_int [of 10] by simp_all
  then have p: "\<forall>p\<in>set edge_params. param_ok binary64 p" by (simp add: edge_params_def param_ok_def)
  show ?thesis
    using tuned_parameters_stay_in_range_or_become_NaN [OF rounding_binary64 p refl o] e(4) unfolding Let_def o fst_conv snd_conv by simp
qed

section \<open>A constant parameter\<close>

text \<open>
  Twenty-four samples of the parameter value 0.1 (as a float64) and results 1, 2, ..., 24: the
  rounded sums make the variance of the constant negative, by a last place.
\<close>

definition tenth :: int where
  "tenth = 3602879701896397"

definition constant_points :: "(float64 \<times> float64) list" where
  "constant_points = map (\<lambda>i. (of_int tenth / 2 ^ 55, of_int i)) [1..24]"

lemma binary64_tenth: "binary64 (1 / 10) = of_int tenth / 2 ^ 55"
proof -
  have "half_even (1 / 10 / 2 powr of_int (- 56)) = 2 * tenth"
    by (simp add: powr_minus powr_numeral half_even_def Let_def tenth_def)
  moreover have "(2::real) powr of_int (- 56) = 1 / 2 ^ 56" by (simp add: powr_minus powr_numeral)
  ultimately show ?thesis by (subst binary64_at [of _ "- 56"]) (simp_all add: tenth_def powr_minus powr_numeral)
qed

lemma constant_sums:
  "foldl (\<lambda>acc _. round53 (acc + tenth)) 0 [1..24] = 86469112845513552"
  "foldl (\<lambda>acc _. round53 (acc + round53 (tenth * tenth))) 0 [1..24] = 311537811512089862355396847468544"
  "foldl (\<lambda>acc i. round53 (acc + i)) 0 [1..24] = 300" "foldl (\<lambda>acc i. round53 (acc + i * i)) 0 [1..24] = 4900"
  "round53 (24 * 311537811512089862355396847468544) = 7476907476290156120068772035821568"
  "round53 (86469112845513552 * 86469112845513552) = 7476907476290157272990276642668544"
  by code_simp+

lemma fl_sum_map: "fl_sum fl f (map h xs) = fl_sum fl (\<lambda>x. f (h x)) xs"
  by (simp add: fl_sum_def foldl_map)

lemma constant_moments:
  "fl_sum binary64 fst constant_points = of_int 86469112845513552 / 2 ^ 55"
  "fl_sum binary64 (\<lambda>p. binary64 (fst p * fst p)) constant_points = of_int 311537811512089862355396847468544 / 2 ^ 110"
  "fl_sum binary64 snd constant_points = 300"
  "fl_sum binary64 (\<lambda>p. binary64 (snd p * snd p)) constant_points = 4900"
proof -
  have sq: "binary64 (of_int tenth / 2 ^ 55 * (of_int tenth / 2 ^ 55)) = of_int (round53 (tenth * tenth)) / 2 ^ 110"
    using binary64_fixed_point [of "tenth * tenth" 110] by (simp add: tenth_def)
  show "fl_sum binary64 fst constant_points = of_int 86469112845513552 / 2 ^ 55"
    unfolding constant_points_def fl_sum_map fst_conv
    by (subst fl_sum_fixed_point [where g = "\<lambda>_. tenth"]) (simp_all only: constant_sums, simp add: tenth_def)
  have "0 < round53 (tenth * tenth)" by code_simp
  then show "fl_sum binary64 (\<lambda>p. binary64 (fst p * fst p)) constant_points = of_int 311537811512089862355396847468544 / 2 ^ 110"
    unfolding constant_points_def fl_sum_map fst_conv sq
    by (subst fl_sum_fixed_point [where g = "\<lambda>_. round53 (tenth * tenth)"]) (simp_all only: constant_sums simp_thms)
  show "fl_sum binary64 snd constant_points = 300"
    unfolding constant_points_def fl_sum_map snd_conv
    by (subst fl_sum_fixed_point [where g = "\<lambda>i. i" and k = 0]) (simp_all add: constant_sums)
  have "binary64 (of_int i * of_int i) = of_int (i * i)" if "i \<in> set [1..24]" for i
  proof -
    have "i * i \<le> 24 * 24" using that by (intro mult_mono) auto
    then show ?thesis using binary64_int [of "i * i"] that by simp
  qed
  then show "fl_sum binary64 (\<lambda>p. binary64 (snd p * snd p)) constant_points = 4900"
    unfolding constant_points_def fl_sum_map snd_conv
    by (subst fl_sum_fixed_point [where g = "\<lambda>i. i * i" and k = 0]) (simp_all add: constant_sums)
qed

lemma constant_variances_negative: "fl_variances binary64 constant_points < 0"
proof -
  have n: "real (length constant_points) = 24" by (simp add: constant_points_def)
  have x: "binary64 (24 * (of_int 311537811512089862355396847468544 / 2 ^ 110)) = of_int 7476907476290156120068772035821568 / 2 ^ 110"
    "binary64 (of_int 86469112845513552 / 2 ^ 55 * (of_int 86469112845513552 / 2 ^ 55)) = of_int 7476907476290157272990276642668544 / 2 ^ 110"
    using binary64_fixed_point [of "24 * 311537811512089862355396847468544" 110]
      binary64_fixed_point [of "86469112845513552 * 86469112845513552" 110] unfolding constant_sums(5,6) by simp_all
  have y: "binary64 (24 * 4900) = 117600" "binary64 (300 * 300) = 90000" "binary64 (117600 - 90000) = 27600"
    using binary64_int [of 117600] binary64_int [of 90000] binary64_int [of 27600] by simp_all
  have neg: "binary64 z < 0" if "z < 0" for z using binary64_sgn [of z] that by (simp add: sgn_if split: if_splits)
  show ?thesis
    unfolding fl_variances_def Let_def n constant_moments x y by (intro neg mult_neg_pos) simp_all
qed

definition constant_sample :: "int \<Rightarrow> PerformanceSample" where
  "constant_sample i = \<lparr>ps_Params = [''edge'' \<mapsto> of_int tenth / 2 ^ 55], ps_PnLUSD = of_int i, ps_Sharpe = 1, ps_FillRate = 1, ps_TsMs = i\<rparr>"

text \<open>
  So a parameter that is only observed at 0.1 is NaN after the first tuning, whatever its range and
  step, and it is reported with that value.
\<close>

theorem a_constant_parameter_becomes_NaN:
  assumes "tu_samples e = map constant_sample [1..24]" "tu_windowMs e = 1000" "tu_minSamples e \<le> 24" "tu_params e = [(''edge'', p)]"
  shows "\<exists>e' r. Optimise binary64 24 e = (e', Some r) \<and> CurrentParams e' ''edge'' = Some None \<and> or_Adjustments r = [(''edge'', None)]"
proof -
  have r: "recent_samples 24 e = map constant_sample [1..24]"
    unfolding recent_samples_def assms(1,2) by (simp add: filter_map comp_def constant_sample_def cong: filter_cong)
  have "gradient_points ''edge'' (map constant_sample xs) = map (\<lambda>i. (of_int tenth / 2 ^ 55, of_int i)) xs" for xs
    by (induction xs) (simp_all add: gradient_points_def constant_sample_def)
  then have pts: "gradient_points ''edge'' (map constant_sample [1..24]) = constant_points" unfolding constant_points_def .
  have "length constant_points = 24" by (simp add: constant_points_def)
  then have "estimateGradient binary64 ''edge'' (map constant_sample [1..24]) = None"
    unfolding estimateGradient_NaN pts using constant_variances_negative by simp
  then have "tune_value binary64 (map constant_sample [1..24]) ''edge'' p = None" by (simp add: tune_value_def split: option.split)
  then show ?thesis using assms(3)
    by (simp add: Optimise_def r assms(4) tune_param_def tune_adjustment_def Let_def differs_def CurrentParams_def)
qed

lemma a_constant_parameter_becomes_NaN_witness:
  "CurrentParams (fst (Optimise binary64 24 ((NewTuningEngine edge_params 1000)\<lparr>tu_samples := map constant_sample [1..24]\<rparr>))) ''edge'' = Some None"
  using a_constant_parameter_becomes_NaN [of "(NewTuningEngine edge_params 1000)\<lparr>tu_samples := map constant_sample [1..24]\<rparr>"]
  by (fastforce simp: NewTuningEngine_def edge_params_def)

end
