(* ===== verification/Prediction.thy ===== *)
theory Prediction
  imports Sliding_Windows Sample_Sums "HOL-Library.Sublist"
begin

text \<open>
  internal/prediction/engine.go: signals from the latest state of a market and its recent history.  The
  maps of a venue's figures, which are ranged over, are association lists.  Spreads are positive.
\<close>

section \<open>Types\<close>

datatype SignalType = SignalLeaderMove | SignalSpreadWiden | SignalFlowImbal | SignalDepthDrain | SignalConvergence

record Signal =
  sg_Symbol :: string
  sg_Type :: SignalType
  sg_Direction :: string
  sg_Strength :: float64
  sg_Confidence :: float64
  sg_ExpectedEdgeBps :: float64
  sg_LeadVenue :: string
  sg_TargetVenues :: "string list"
  sg_DecayMs :: int64
  sg_TsMs :: int64

record PredictionInput =
  pi_Symbol :: string
  pi_VenueMids :: "(string \<times> float64) list"
  pi_VenueSpreads :: "(string \<times> float64) list"
  pi_VenueDepths :: "(string \<times> float64) list"
  pi_FlowScore :: float64
  pi_LeaderVenue :: string
  pi_LeaderMoveBps :: float64
  pi_VolatilityBps :: float64
  pi_TsMs :: int64

record PredictionEngine =
  pe_history :: "string \<Rightarrow> PredictionInput list"
  pe_signals :: "string \<Rightarrow> Signal list"
  pe_windowMs :: int64
  pe_maxHistory :: nat

definition NewPredictionEngine :: "int64 \<Rightarrow> PredictionEngine" where
  "NewPredictionEngine windowMs = \<lparr>pe_history = (\<lambda>_. []), pe_signals = (\<lambda>_. []), pe_windowMs = windowMs, pe_maxHistory = 2000\<rparr>"

section \<open>The detectors\<close>

definition signal_of :: "PredictionInput \<Rightarrow> SignalType \<Rightarrow> string \<Rightarrow> float64 \<Rightarrow> float64 \<Rightarrow> float64 \<Rightarrow> int64 \<Rightarrow> Signal" where
  "signal_of input kind direction strength confidence edge decay =
     \<lparr>sg_Symbol = pi_Symbol input, sg_Type = kind, sg_Direction = direction, sg_Strength = strength, sg_Confidence = confidence,
      sg_ExpectedEdgeBps = edge, sg_LeadVenue = '''', sg_TargetVenues = [], sg_DecayMs = decay, sg_TsMs = pi_TsMs input\<rparr>"

definition leader_gap :: "float64 \<Rightarrow> float64 \<Rightarrow> float64" where
  "leader_gap leaderMid mid = (leaderMid - mid) / mid * 10000"

definition leader_targets :: "PredictionInput \<Rightarrow> float64 \<Rightarrow> (string \<times> float64) list" where
  "leader_targets input leaderMid =
     filter (\<lambda>(venue, mid). \<not> (venue = pi_LeaderVenue input \<or> mid = 0) \<and> \<bar>leader_gap leaderMid mid\<bar> > 1.5) (pi_VenueMids input)"

definition detectLeaderMove :: "PredictionInput \<Rightarrow> Signal option" where
  "detectLeaderMove input =
     (if pi_LeaderVenue input = '''' \<or> \<bar>pi_LeaderMoveBps input\<bar> < 2 then None
      else
        (let leaderMid = map_get 0 (map_of (pi_VenueMids input)) (pi_LeaderVenue input) in
         if leaderMid = 0 then None
         else
           (let targets = leader_targets input leaderMid in
            if length targets = 0 then None
            else
              (let avgGap = sum_of (\<lambda>(venue, mid). \<bar>leader_gap leaderMid mid\<bar>) targets / real (length targets);
                   strength = min 1 (avgGap / 10);
                   direction = (if pi_LeaderMoveBps input < 0 then ''SELL'' else ''BUY'')
               in Some ((signal_of input SignalLeaderMove direction strength (min 0.9 (strength * 0.8)) (avgGap * 0.5) 2000)
                    \<lparr>sg_LeadVenue := pi_LeaderVenue input, sg_TargetVenues := map fst targets\<rparr>)))))"

definition old_spreads :: "int64 \<Rightarrow> PredictionInput list \<Rightarrow> float64 list" where
  "old_spreads cutoff history = concat (map (\<lambda>h. map snd (pi_VenueSpreads h)) (filter (\<lambda>h. pi_TsMs h < cutoff) history))"

definition current_spread :: "PredictionInput \<Rightarrow> float64" where
  "current_spread input =
     (let sum = sum_of snd (pi_VenueSpreads input) in
      if length (pi_VenueSpreads input) > 0 then sum / real (length (pi_VenueSpreads input)) else sum)"

definition detectSpreadWiden :: "PredictionInput list \<Rightarrow> PredictionInput \<Rightarrow> Signal option" where
  "detectSpreadWiden history input =
     (if length history < 10 then None
      else
        (let spreads = old_spreads (pi_TsMs input - 30000) history in
         if length spreads = 0 then None
         else
           (let baselineSpread = sum_of (\<lambda>x. x) spreads / real (length spreads);
                currentSpread = current_spread input;
                ratio = currentSpread / baselineSpread
            in if ratio < 1.5 then None
               else
                 (let strength = min 1 ((ratio - 1) / 3); edgeBps = (currentSpread - baselineSpread) / 2
                  in Some (signal_of input SignalSpreadWiden ''NEUTRAL'' strength (min 0.8 (strength * 0.7)) edgeBps 5000)))))"

definition detectFlowImbalance :: "PredictionInput \<Rightarrow> Signal option" where
  "detectFlowImbalance input =
     (if \<bar>pi_FlowScore input\<bar> < 0.4 then None
      else
        (let strength = \<bar>pi_FlowScore input\<bar>; direction = (if pi_FlowScore input < 0 then ''SELL'' else ''BUY'')
         in Some (signal_of input SignalFlowImbal direction strength (strength * 0.6) (strength * 5) 3000)))"

definition avg :: "float64 list \<Rightarrow> float64" where
  "avg vals = (if length vals = 0 then 0 else sum_of (\<lambda>x. x) vals / real (length vals))"

definition detectDepthDrain :: "PredictionInput list \<Rightarrow> PredictionInput \<Rightarrow> Signal option" where
  "detectDepthDrain history input =
     (if length history < 10 then None
      else
        (let cutoff = pi_TsMs input - 30000; total = (\<lambda>h. sum_of snd (pi_VenueDepths h));
             prevDepths = map total (filter (\<lambda>h. pi_TsMs h < cutoff) history);
             currDepths = map total (filter (\<lambda>h. \<not> pi_TsMs h < cutoff) history)
         in if length prevDepths = 0 \<or> length currDepths = 0 then None
            else
              (let avgPrev = avg prevDepths; avgCurr = avg currDepths in
               if avgPrev = 0 then None
               else
                 (let drainPct = (avgPrev - avgCurr) / avgPrev * 100 in
                  if drainPct < 30 then None
                  else
                    (let strength = min 1 (drainPct / 80)
                     in Some (signal_of input SignalDepthDrain ''NEUTRAL'' strength (min 0.7 (strength * 0.6)) (strength * 8) 5000))))))"

definition max_div_bps :: "float64 list \<Rightarrow> float64" where
  "max_div_bps mids = (mids ! (length mids - 1) - mids ! 0) / mids ! 0 * 10000"

definition detectConvergence :: "PredictionInput \<Rightarrow> Signal option" where
  "detectConvergence input =
     (if length (pi_VenueMids input) < 2 then None
      else
        (let mids = sort (filter (\<lambda>m. m > 0) (map snd (pi_VenueMids input))) in
         if length mids < 2 then None
         else
           (let maxDivBps = max_div_bps mids in
            if maxDivBps < 3 then None
            else
              (let medMid = mids ! (length mids div 2);
                   targets = map fst (filter (\<lambda>(v, m). \<bar>m - medMid\<bar> / medMid * 10000 > 2) (pi_VenueMids input));
                   strength = min 1 (maxDivBps / 15)
               in Some ((signal_of input SignalConvergence ''NEUTRAL'' strength (min 0.85 (strength * 0.8)) (maxDivBps * 0.4) 3000)
                    \<lparr>sg_TargetVenues := targets\<rparr>)))))"

section \<open>The engine\<close>

definition trimHistory :: "int64 \<Rightarrow> string \<Rightarrow> PredictionEngine \<Rightarrow> PredictionEngine" where
  "trimHistory now symbol e =
     e\<lparr>pe_history := (pe_history e)(symbol := trim_window pi_TsMs (now - pe_windowMs e) (pe_maxHistory e) (pe_history e symbol))\<rparr>"

definition record_input :: "int64 \<Rightarrow> PredictionInput \<Rightarrow> PredictionEngine \<Rightarrow> PredictionEngine" where
  "record_input now input e =
     trimHistory now (pi_Symbol input) (e\<lparr>pe_history := (pe_history e)(pi_Symbol input := pe_history e (pi_Symbol input) @ [input])\<rparr>)"

definition detected :: "PredictionInput list \<Rightarrow> PredictionInput \<Rightarrow> Signal list" where
  "detected history input =
     concat (map (case_option [] (\<lambda>s. [s]))
       [detectLeaderMove input, detectSpreadWiden history input, detectFlowImbalance input, detectDepthDrain history input,
        detectConvergence input])"

text \<open>No other call comes between the locked sections of a call.\<close>

definition Predict :: "int64 \<Rightarrow> PredictionInput \<Rightarrow> PredictionEngine \<Rightarrow> PredictionEngine \<times> Signal list" where
  "Predict now input e =
     (let e = record_input now input e; signals = detected (pe_history e (pi_Symbol input)) input
      in (e\<lparr>pe_signals := (pe_signals e)(pi_Symbol input := signals)\<rparr>, signals))"

definition ActiveSignals :: "int64 \<Rightarrow> string \<Rightarrow> PredictionEngine \<Rightarrow> Signal list" where
  "ActiveSignals now symbol e = filter (\<lambda>s. now - sg_TsMs s < sg_DecayMs s) (pe_signals e symbol)"

interpretation history_log: windowed_log pe_history "\<lambda>e x. fst (Predict (fst x) (snd x) e)" pi_Symbol pi_TsMs pe_windowMs pe_maxHistory
  by unfold_locales (auto simp: Predict_def record_input_def trimHistory_def Let_def)

section \<open>The signals\<close>

definition input_ok :: "PredictionInput \<Rightarrow> bool" where
  "input_ok i \<longleftrightarrow> \<bar>pi_FlowScore i\<bar> \<le> 1 \<and> (\<forall>v\<in>set (pi_VenueSpreads i). 0 < snd v) \<and> (\<forall>v\<in>set (pi_VenueDepths i). 0 \<le> snd v)"

definition signal_ok :: "Signal \<Rightarrow> bool" where
  "signal_ok s \<longleftrightarrow> 0 < sg_Strength s \<and> sg_Strength s \<le> 1 \<and> 0 < sg_Confidence s \<and> sg_Confidence s \<le> sg_Strength s \<and> sg_Confidence s \<le> 0.9 \<and>
     0 < sg_ExpectedEdgeBps s \<and> sg_DecayMs s \<in> {2000..5000}"

text \<open>A signal of a kind that carries the symbol and the time of its input.\<close>

definition signal_for :: "PredictionInput \<Rightarrow> SignalType \<Rightarrow> Signal \<Rightarrow> bool" where
  "signal_for input kind s \<longleftrightarrow> signal_ok s \<and> sg_Type s = kind \<and> sg_Symbol s = pi_Symbol input \<and> sg_TsMs s = pi_TsMs input"

lemma signal_forI:
  assumes "s = (signal_of input kind direction strength confidence edge decay)\<lparr>sg_LeadVenue := v, sg_TargetVenues := ts\<rparr>"
    and "0 < strength" "strength \<le> 1" "0 < confidence \<and> confidence \<le> strength \<and> confidence \<le> 0.9" "0 < edge" "2000 \<le> decay" "decay \<le> 5000"
  shows "signal_for input kind s"
  using assms by (simp add: signal_for_def signal_ok_def signal_of_def)

lemma confidence_bounds:
  fixes x :: real
  assumes "0 < x" "x \<le> 1" "0 < c" "c \<le> 1" "0 < m" "m \<le> 0.9"
  shows "0 < min m (x * c) \<and> min m (x * c) \<le> x \<and> min m (x * c) \<le> 0.9"
proof -
  have c: "x * c \<le> x" "0 < x * c" using assms by (simp_all add: mult_left_le)
  have "min m (x * c) \<le> x" using c(1) by (meson min.cobounded2 order_trans)
  moreover have "min m (x * c) \<le> 0.9" using assms(6) by (meson min.cobounded1 order_trans)
  ultimately show ?thesis using c(2) assms(5) by simp
qed

lemma leader_move_ok: "detectLeaderMove input = Some s \<Longrightarrow> signal_for input SignalLeaderMove s"
proof -
  assume s: "detectLeaderMove input = Some s"
  let ?lm = "map_get 0 (map_of (pi_VenueMids input)) (pi_LeaderVenue input)"
  let ?t = "leader_targets input ?lm"
  let ?a = "sum_of (\<lambda>(venue, mid). \<bar>leader_gap ?lm mid\<bar>) ?t / real (length ?t)"
  have ne: "?t \<noteq> []" using s by (auto simp: detectLeaderMove_def Let_def split: if_splits)
  have "0 < sum_of (\<lambda>(venue, mid). \<bar>leader_gap ?lm mid\<bar>) ?t"
    unfolding sum_of_def using ne by (intro sum_list_map_pos) (auto simp: leader_targets_def)
  then have a: "0 < ?a" using ne by simp
  then have strength: "0 < min 1 (?a / 10)" "min 1 (?a / 10) \<le> 1" by simp_all
  have "\<exists>dir. s = (signal_of input SignalLeaderMove dir (min 1 (?a / 10)) (min 0.9 (min 1 (?a / 10) * 0.8)) (?a * 0.5) 2000)
      \<lparr>sg_LeadVenue := pi_LeaderVenue input, sg_TargetVenues := map fst ?t\<rparr>"
    using s unfolding detectLeaderMove_def Let_def by (simp only: option.inject option.distinct split: if_splits) blast+
  then obtain dir where e: "s = (signal_of input SignalLeaderMove dir (min 1 (?a / 10)) (min 0.9 (min 1 (?a / 10) * 0.8)) (?a * 0.5) 2000)
      \<lparr>sg_LeadVenue := pi_LeaderVenue input, sg_TargetVenues := map fst ?t\<rparr>" by blast
  show ?thesis by (rule signal_forI [OF e strength confidence_bounds [OF strength]]) (use a in simp_all)
qed

lemma widen_strength: "1.5 \<le> (r :: real) \<Longrightarrow> 0 < min 1 ((r - 1) / 3) \<and> min 1 ((r - 1) / 3) \<le> 1"
  by simp

lemma spread_widen_ok:
  assumes "detectSpreadWiden history input = Some s" "\<forall>h\<in>set history. input_ok h"
  shows "signal_for input SignalSpreadWiden s"
proof -
  let ?sp = "old_spreads (pi_TsMs input - 30000) history" and ?c = "current_spread input"
  let ?b = "sum_of (\<lambda>x. x) ?sp / real (length ?sp)"
  have d: "length ?sp \<noteq> 0 \<and> \<not> ?c / ?b < 1.5 \<and>
      s = signal_of input SignalSpreadWiden ''NEUTRAL'' (min 1 ((?c / ?b - 1) / 3)) (min 0.8 (min 1 ((?c / ?b - 1) / 3) * 0.7)) ((?c - ?b) / 2) 5000"
    using assms(1) unfolding detectSpreadWiden_def Let_def
    by (simp only: option.inject option.distinct simp_thms split: if_splits)
  then have "0 < sum_of (\<lambda>x. x) ?sp"
    unfolding sum_of_def using assms(2) by (intro sum_list_map_pos) (auto simp: old_spreads_def input_ok_def)
  then have b: "0 < ?b" using d by simp
  have ratio: "1.5 \<le> ?c / ?b" using d by linarith
  then have "1.5 * ?b \<le> ?c" using b by (simp only: pos_le_divide_eq)
  then have edge: "0 < (?c - ?b) / 2" using b by simp
  have strength: "0 < min 1 ((?c / ?b - 1) / 3)" "min 1 ((?c / ?b - 1) / 3) \<le> 1" using widen_strength [OF ratio] by blast+
  have e: "s = (signal_of input SignalSpreadWiden ''NEUTRAL'' (min 1 ((?c / ?b - 1) / 3)) (min 0.8 (min 1 ((?c / ?b - 1) / 3) * 0.7)) ((?c - ?b) / 2) 5000)
      \<lparr>sg_LeadVenue := '''', sg_TargetVenues := []\<rparr>" using d by (simp add: signal_of_def)
  show ?thesis by (rule signal_forI [OF e strength confidence_bounds [OF strength] edge]) simp_all
qed

lemma flow_imbalance_ok:
  assumes "detectFlowImbalance input = Some s" "input_ok input"
  shows "signal_for input SignalFlowImbal s"
  using assms by (auto simp: detectFlowImbalance_def signal_of_def signal_for_def signal_ok_def input_ok_def Let_def split: if_splits)

lemma depth_drain_ok:
  assumes "detectDepthDrain history input = Some s"
  shows "signal_for input SignalDepthDrain s"
proof -
  obtain d where d: "30 \<le> d" "s = signal_of input SignalDepthDrain ''NEUTRAL'' (min 1 (d / 80)) (min 0.7 (min 1 (d / 80) * 0.6)) (min 1 (d / 80) * 8) 5000"
    using assms by (auto simp: detectDepthDrain_def Let_def not_less split: if_splits)
  have strength: "0 < min 1 (d / 80)" "min 1 (d / 80) \<le> 1" using d(1) by simp_all
  have e: "s = (signal_of input SignalDepthDrain ''NEUTRAL'' (min 1 (d / 80)) (min 0.7 (min 1 (d / 80) * 0.6)) (min 1 (d / 80) * 8) 5000)
      \<lparr>sg_LeadVenue := '''', sg_TargetVenues := []\<rparr>" using d(2) by (simp add: signal_of_def)
  show ?thesis by (rule signal_forI [OF e strength confidence_bounds [OF strength]]) (use d(1) in simp_all)
qed

lemma convergence_ok:
  assumes "detectConvergence input = Some s"
  shows "signal_for input SignalConvergence s"
proof -
  obtain d ts where d: "\<not> d < 3" "s = (signal_of input SignalConvergence ''NEUTRAL'' (min 1 (d / 15)) (min 0.85 (min 1 (d / 15) * 0.8)) (d * 0.4) 3000)
      \<lparr>sg_TargetVenues := ts\<rparr>"
    using assms unfolding detectConvergence_def Let_def by (simp only: option.inject option.distinct simp_thms split: if_splits) blast
  have strength: "0 < min 1 (d / 15)" "min 1 (d / 15) \<le> 1" using d(1) by simp_all
  have e: "s = (signal_of input SignalConvergence ''NEUTRAL'' (min 1 (d / 15)) (min 0.85 (min 1 (d / 15) * 0.8)) (d * 0.4) 3000)
      \<lparr>sg_LeadVenue := '''', sg_TargetVenues := ts\<rparr>" using d(2) by (simp add: signal_of_def)
  show ?thesis by (rule signal_forI [OF e strength confidence_bounds [OF strength]]) (use d(1) in simp_all)
qed

lemma detected_kinds:
  assumes "\<And>s. a = Some s \<Longrightarrow> f s = k1" "\<And>s. b = Some s \<Longrightarrow> f s = k2" "\<And>s. c = Some s \<Longrightarrow> f s = k3"
    and "\<And>s. d = Some s \<Longrightarrow> f s = k4" "\<And>s. e = Some s \<Longrightarrow> f s = k5"
  shows "subseq (map f (concat (map (case_option [] (\<lambda>s. [s])) [a, b, c, d, e]))) [k1, k2, k3, k4, k5]"
proof -
  have one: "subseq (map f (case_option [] (\<lambda>s. [s]) z)) [k]" if "\<And>s. z = Some s \<Longrightarrow> f s = k" for z k
    using that by (cases z) auto
  have "subseq (concat (map (\<lambda>z. map f (case_option [] (\<lambda>s. [s]) z)) [a, b, c, d, e])) ([k1] @ [k2] @ [k3] @ [k4] @ [k5])"
    by (simp only: list.map concat.simps append_Nil2) (intro list_emb_append_mono one; fact assms)
  then show ?thesis by (simp add: map_concat comp_def)
qed

text \<open>
  Every signal of a run has a strength and a smaller confidence within their ranges and expects an
  edge; there is at most one of each kind, in the order of the detectors; and after five seconds none is active.
\<close>

theorem signals_are_well_formed:
  assumes "\<forall>x\<in>set xs. input_ok (snd x)" "input_ok input" "e = foldl (\<lambda>e x. fst (Predict (fst x) (snd x) e)) (NewPredictionEngine w) xs"
    and "Predict now input e = (e', signals)"
  shows "(\<forall>s\<in>set signals. signal_ok s \<and> sg_Symbol s = pi_Symbol input \<and> sg_TsMs s = pi_TsMs input) \<and>
         subseq (map sg_Type signals) [SignalLeaderMove, SignalSpreadWiden, SignalFlowImbal, SignalDepthDrain, SignalConvergence] \<and>
         (pi_TsMs input + 5000 \<le> later \<longrightarrow> ActiveSignals later (pi_Symbol input) e' = [])"
proof -
  let ?h = "pe_history e' (pi_Symbol input)"
  have sig: "signals = detected ?h input" "pe_signals e' (pi_Symbol input) = signals" using assms(4) by (auto simp: Predict_def Let_def)
  have run: "e' = foldl (\<lambda>e x. fst (Predict (fst x) (snd x) e)) (NewPredictionEngine w) (xs @ [(now, input)])" using assms(3,4) by simp
  obtain old where "map snd (filter (\<lambda>x. pi_Symbol (snd x) = pi_Symbol input) (xs @ [(now, input)])) = old @ ?h"
    using history_log.run_suffix [of "NewPredictionEngine w" "pi_Symbol input" "xs @ [(now, input)]"] unfolding run [symmetric]
    by (auto simp: NewPredictionEngine_def)
  then have "set ?h \<subseteq> set (map snd (filter (\<lambda>x. pi_Symbol (snd x) = pi_Symbol input) (xs @ [(now, input)])))" by (metis Un_upper2 set_append)
  then have h: "\<forall>i\<in>set ?h. input_ok i" using assms(1,2) by (auto split: if_splits)
  have each: "(\<forall>s. detectLeaderMove input = Some s \<longrightarrow> signal_for input SignalLeaderMove s) \<and>
      (\<forall>s. detectSpreadWiden ?h input = Some s \<longrightarrow> signal_for input SignalSpreadWiden s) \<and>
      (\<forall>s. detectFlowImbalance input = Some s \<longrightarrow> signal_for input SignalFlowImbal s) \<and>
      (\<forall>s. detectDepthDrain ?h input = Some s \<longrightarrow> signal_for input SignalDepthDrain s) \<and>
      (\<forall>s. detectConvergence input = Some s \<longrightarrow> signal_for input SignalConvergence s)"
    using leader_move_ok spread_widen_ok [OF _ h] flow_imbalance_ok [OF _ assms(2)] depth_drain_ok convergence_ok by blast
  have for_one: "\<exists>kind. signal_for input kind s" if "s \<in> set signals" for s
  proof -
    have "detectLeaderMove input = Some s \<or> detectSpreadWiden ?h input = Some s \<or> detectFlowImbalance input = Some s \<or>
        detectDepthDrain ?h input = Some s \<or> detectConvergence input = Some s"
      using that unfolding sig(1) detected_def by (auto split: option.splits)
    with each show ?thesis by blast
  qed
  then have ok: "\<forall>s\<in>set signals. signal_ok s" and stamp: "\<And>s. s \<in> set signals \<Longrightarrow> sg_Symbol s = pi_Symbol input \<and> sg_TsMs s = pi_TsMs input"
    unfolding signal_for_def by blast+
  have "subseq (map sg_Type (detected ?h input)) [SignalLeaderMove, SignalSpreadWiden, SignalFlowImbal, SignalDepthDrain, SignalConvergence]"
    unfolding detected_def by (rule detected_kinds) (use each in \<open>auto simp: signal_for_def\<close>)
  then have "subseq (map sg_Type signals) [SignalLeaderMove, SignalSpreadWiden, SignalFlowImbal, SignalDepthDrain, SignalConvergence]"
    unfolding sig(1) .
  moreover have "ActiveSignals later (pi_Symbol input) e' = []" if "pi_TsMs input + 5000 \<le> later"
  proof -
    have "\<not> later - sg_TsMs s < sg_DecayMs s" if "s \<in> set signals" for s
      using ok stamp that \<open>pi_TsMs input + 5000 \<le> later\<close> by (auto simp: signal_ok_def)
    then show ?thesis unfolding ActiveSignals_def sig(2) by (simp add: filter_empty_conv)
  qed
  ultimately show ?thesis using ok stamp by blast
qed

section \<open>Concrete markets\<close>

definition market :: "string \<Rightarrow> (string \<times> float64) list \<Rightarrow> PredictionInput" where
  "market leader mids = \<lparr>pi_Symbol = ''BTC'', pi_VenueMids = mids, pi_VenueSpreads = [], pi_VenueDepths = [], pi_FlowScore = 0.5,
     pi_LeaderVenue = leader, pi_LeaderMoveBps = 3, pi_VolatilityBps = 0, pi_TsMs = 1000\<rparr>"

text \<open>A follower above its leader is a target of a signal to buy: the gap counts without its sign.\<close>

theorem a_buy_signal_may_target_dearer_venues:
  "map_option (\<lambda>s. (sg_Direction s, sg_TargetVenues s, 0 < sg_ExpectedEdgeBps s)) (detectLeaderMove (market ''okx'' [(''okx'', 100), (''bybit'', 101)])) =
     Some (''BUY'', [''bybit''], True)"
  by (simp add: detectLeaderMove_def leader_targets_def leader_gap_def market_def signal_of_def Let_def)

lemma signals_are_well_formed_witness:
  "\<forall>s\<in>set (snd (Predict 1000 (market ''okx'' [(''okx'', 100), (''bybit'', 101)]) (NewPredictionEngine 60000))). signal_ok s"
proof -
  let ?i = "market ''okx'' [(''okx'', 100), (''bybit'', 101)]"
  obtain e' signals where p: "Predict 1000 ?i (NewPredictionEngine 60000) = (e', signals)" by (cases "Predict 1000 ?i (NewPredictionEngine 60000)")
  have i: "input_ok ?i" by (simp add: input_ok_def market_def)
  have "NewPredictionEngine 60000 = foldl (\<lambda>e x. fst (Predict (fst x) (snd x) e)) (NewPredictionEngine 60000) []" by simp
  from signals_are_well_formed [OF _ i this p] p show ?thesis by auto
qed

end
