(* ===== verification/Spec2Isabelle.thy ===== *)
theory Spec2Isabelle
  imports Consensus_Engine Transfer_Policy Risk_Daemon Tax_Matching Arb_Engine Orderbook
    Execution_Graduation Auth_Roles Allocator Funding_Engine Treasury Paper_Executor Live_Executor Arb_Service Execution_Router Smart_Router Inventory_Balancer
    Leader_Detector Liquidity_Engine Yield_Router Keeper Dex_Indexer Pipeline_Latency Defi_Risk Bridges Triangular Regime_Detector Fair_Value Maker_Rebates Parameter_Tuning Prediction
begin

text \<open>
  A model of the core of the consensus engine, a Go system of services for arbitrage between
  crypto exchanges, and the theorems that make it correct.

  The program.  Every service under \<open>cmd/\<close> is a loop over Redis streams around one package of
  \<open>internal/\<close>.  Quotes reach the consensus engine, which values every venue's quote, runs a
  circuit breaker per venue and publishes a consensus price with the status of each venue.  The
  arbitrage engine turns consensus updates into trade intents; the capital allocator sizes and
  approves intents against caps; the execution router fills them on paper, in shadow or live.
  The risk daemon watches fills and venue statuses and sets the operating mode that the others
  obey; the transfer policy service decides on movements of funds; the ledger and the dashboard
  record and report, the tax report among them.  Messages between services are JSON on Redis; the
  model passes them as values.

  The theories, with the code each translates.
  \<^item> \<open>Prelude\<close>: Go's types and conversions, lists, sums and maps.  \<open>Interfaces\<close>: the contracts the
    components meet (machines and invariants, escalation, conservation, cooldown gates, rolling
    windows, keyed stores, sorts and orders of a range statement), as locales, each interpreted on
    the code's own operations.  \<open>Ring_Buffers\<close> and \<open>Sliding_Windows\<close>: the ring buffers and
    time windows several packages keep.  \<open>Sample_Sums\<close>: sums of samples, variance and
    correlation.  \<open>Float_Rounding\<close>: rounded arithmetic.  \<open>Effects\<close>: code that talks to the
    outside, with the calculus of invariants (\<open>pres\<close>), of weakest preconditions (\<open>wp\<close>) and of
    what a call appends to the trace (\<open>grows\<close>).
  \<^item> \<open>Consensus_Types\<close>, \<open>Consensus_Math\<close>, \<open>Consensus_Breaker\<close>, \<open>Consensus_Engine\<close>:
    \<open>internal/consensus/\<close> and \<open>internal/store/store.go\<close>, with the recompute step of
    \<open>cmd/consensus-engine/main.go\<close>.  Lemmas: prices of fills, median, trust and its
    normalisation; the edges and timers of the breaker; what one call of \<open>Compute\<close> publishes.
  \<^item> \<open>Arb_Engine\<close>: \<open>internal/arb/\<close> types, policy, cooldown and the cross-venue \<open>Engine.Process\<close>;
    \<open>Arb_Strategies\<close> and \<open>Arb_Correlation\<close>: the other strategies of the package;
    \<open>Arb_Service\<close>: the loop of \<open>cmd/arb-opportunity-engine/main.go\<close>.  Lemmas: the gates of an
    intent, its legs, its cooldown.  \<open>Triangular\<close>: \<open>internal/triangular/\<close>.
  \<^item> \<open>Allocator\<close>: \<open>internal/allocator/\<close> and its service.  Lemmas: gates, scaling and ledgers.
  \<^item> \<open>Funding_Signals\<close>, \<open>Funding_Engine\<close>: \<open>internal/funding/\<close> and its service: policy, regimes,
    volatility, entries, exits and positions.
  \<^item> \<open>Exchange_Types\<close>: \<open>internal/exchange/\<close> data, the interface of a client as a record of
    functions over the world, and the registry.  \<open>Treasury\<close>: \<open>internal/treasury/\<close> over it.
  \<^item> \<open>Execution_Graduation\<close>, \<open>Paper_Executor\<close>, \<open>Live_Executor\<close>: \<open>internal/execution/\<close>;
    \<open>Execution_Router\<close>: the loop of \<open>cmd/execution-router/main.go\<close> over either executor.  Lemmas:
    which orders are placed and within which price, unwinding, positions, published events.
    \<open>Smart_Router\<close>: \<open>internal/smartrouter/\<close>.
  \<^item> \<open>Risk_Daemon\<close>: \<open>internal/risk/\<close> and the select loop of \<open>cmd/risk-daemon/main.go\<close>, as a step
    relation \<open>svc_step\<close> with its reachable states.
  \<^item> \<open>Transfer_Policy\<close>: \<open>internal/transfer/\<close> policy, configuration and client, and the \<open>/check\<close>
    handler of \<open>cmd/transfer-policy/main.go\<close>.
  \<^item> \<open>Tax_Matching\<close>: \<open>internal/taxuk/\<close> matching and report totals.
  \<^item> \<open>Orderbook\<close>, \<open>Leader_Detector\<close>: \<open>internal/orderbook/\<close>; \<open>Liquidity_Engine\<close>:
    \<open>internal/liquidity/\<close> and its service; \<open>Fair_Value\<close>, \<open>Regime_Detector\<close>, \<open>Prediction\<close>,
    \<open>Maker_Rebates\<close>, \<open>Parameter_Tuning\<close>: the packages of those names under \<open>internal/\<close>
    (the last is \<open>internal/optimizer/\<close>).
  \<^item> \<open>Inventory_Balancer\<close>, \<open>Yield_Router\<close>, \<open>Keeper\<close>, \<open>Dex_Indexer\<close>, \<open>Defi_Risk\<close>, \<open>Bridges\<close>:
    \<open>internal/inventory/\<close>, \<open>internal/treasuryyield/\<close>, \<open>internal/keeper/\<close>, \<open>internal/dexindex/\<close>,
    \<open>internal/defirisk/\<close> and the bridge packages, with their services.
  \<^item> \<open>Pipeline_Latency\<close>: \<open>internal/pipeline/\<close>; its ring buffer and task executor are step
    relations over the program counters of the goroutines.  \<open>Auth_Roles\<close>: \<open>internal/auth/rbac.go\<close>.
  \<^item> This theory: properties across components, from quotes to intents and from quotes to the
    operating mode.

  Conventions.  A struct is a record whose fields carry a short prefix and the Go name; a
  function or method keeps its Go name (with a word of its package where two packages share it), a
  method takes its receiver as an argument and returns it updated.  A \<open>float64\<close> is the exact
  real: rounding, infinities and NaN are not modelled, sums are those of the reals whatever their
  order, bounds on them hold up to rounding, and a division by zero, which the code guards almost
  everywhere, gives 0 unless the definition treats it.  The exception is \<open>Parameter_Tuning\<close>, where
  rounding decides a branch and the arithmetic is rounded.  \<open>int64\<close> times and counts are
  unbounded integers.  A Go map that is ranged over is an association list in the order of that
  range, so a theorem about all lists of distinct keys holds for every iteration order; where a
  map is ranged over more than once the order is a parameter.  A map that is only looked up is a
  partial function.  Every clock reading is an argument.  Calls to the outside (an exchange client,
  Redis, the clock of an executor, random numbers) are functions from a world to an answer and a
  world, and what is sent is kept in a trace.  What is not code of the repository is a parameter:
  unstable sorts (any sorting function), random bytes, SHA-256, YAML and JSON decoding, files and
  environment variables, the HTTP transport, and the calendar of a time zone.  Mutexes make every
  exported method atomic; each is one step, and the service loops are single goroutines whose order
  of events is the order of a list.  A panic is \<open>None\<close>.  Logging is left out.  Loops are structural
  recursions over the lists they range over, so no fuel is used, but for the pairing loop of the
  inventory balancer, which may run forever: it is a partial function, and a theorem says when it
  returns.

  Not modelled, with the reason: the clients of the exchanges and the market data adapters, the
  event bus and the ledger (input and output, SQL), the dashboard (HTTP and pages), the wallet
  (cryptography and RPC) and the HTTP quotes of decentralised exchanges.
\<close>

section \<open>From consensus to the arbitrage engine\<close>

lemma paused_venues:
  "\<not> not_paused (ResolvedPolicy policy sy) now quotes \<Longrightarrow>
     cu_Venues (cr_Update (Compute policy now t sy quotes gs)) = []"
  by (simp add: Compute_def not_paused_def Let_def)

text \<open>What the consensus of one call says of a venue the arbitrage engine may trade on.\<close>

definition trusted_venue ::
  "Policy \<Rightarrow> int64 \<Rightarrow> string \<Rightarrow> Symbol \<Rightarrow> (Venue \<times> Quote) list \<Rightarrow> (Venue \<Rightarrow> VenueStatus) \<Rightarrow> ArbPolicy \<Rightarrow> Venue \<Rightarrow> bool" where
  "trusted_venue policy now t sy quotes gs ap v \<longleftrightarrow>
     (\<exists>q st. (v, q) \<in> set quotes \<and>
        map_of (cr_NewStatuses (Compute policy now t sy quotes gs)) v = Some st \<and>
        vs_State st \<noteq> StateBlacklisted \<and>
        (vs_State st = StateWarn \<longrightarrow> ar_AllowWarnVenues ap) \<and>
        (ar_IgnoreFlaggedVenues ap \<longrightarrow>
           DeviationBps (ComputeMid q) (median_mid (ResolvedPolicy policy sy) quotes)
             \<le> p_OutlierBpsWarn (ResolvedPolicy policy sy)))"

text \<open>Three quotes, one of a blacklisted venue, on which the engine emits an intent.\<close>

definition edge_policy :: Policy where
  "edge_policy = sample_policy\<lparr>p_OutlierBpsWarn := 300, p_OutlierBpsBlacklist := 600, p_CoreVenues := [''okx'', ''bybit'']\<rparr>"

definition edge_quotes :: "(Venue \<times> Quote) list" where
  "edge_quotes = [(''okx'', sample_quote ''okx'' 100), (''bybit'', sample_quote ''bybit'' 102), (''gate'', sample_quote ''gate'' 500)]"

definition edge_arb :: ArbPolicy where
  "edge_arb = sample_arb\<lparr>ar_IntentTTLMs := [''MED'' \<mapsto> 400],
     ar_MinEdgeBpsNet := [''MED'' \<mapsto> 6], ar_LatencyBufferBps := [''MED'' \<mapsto> 0]\<rparr>"

abbreviation edge_update :: ConsensusUpdate where
  "edge_update \<equiv> cr_Update (Compute edge_policy 1000 ''t'' ''BTC-PERP'' edge_quotes sample_status)"

lemma edge_median: "median_mid edge_policy edge_quotes = 102"
  by (simp add: median_mid_def eligible_of_def edge_quotes_def Median_def)

lemma edge_mad: "MAD (map vr_mid (eligible_of edge_policy edge_quotes)) = 2"
  by (simp add: eligible_of_def edge_quotes_def Median_def MAD_def)

lemma edge_resolved: "ResolvedPolicy edge_policy ''BTC-PERP'' = edge_policy"
  by (simp add: ResolvedPolicy_def edge_policy_def sample_policy_def)

lemma edge_not_paused: "not_paused edge_policy now qs"
  by (simp add: not_paused_def edge_policy_def sample_policy_def)


lemmas edge_defs = edge_quotes_def eligible_of_def venue_row_def venue_raw_def Let_def sample_quote_def UpdateVenueStatus_def
  sample_status_def fresh_status_def DeviationBps_def RobustZScore_def Consensus_Math.epsilon_def edge_policy_def
  sample_policy_def ComputeMid_def ComputeExecutableBuy_def ComputeExecutableSell_def SpreadBps_def ApplyFeesBuy_def
  ApplyFeesSell_def ComputeTrust_def base_trust_def map_get_def outlier_factor_def stale_factor_def spread_factor_def
  blacklist_def go_div_def

lemma edge_trust:
  "raw_trust edge_policy ''t'' ''BTC-PERP'' 1000 sample_status edge_quotes = [(''okx'', 1 / 20), (''bybit'', 1 / 20), (''gate'', 0)]"
  unfolding raw_trust_def row_of_def edge_median edge_mad by (simp add: edge_defs)

lemma edge_weight:
  "weight edge_policy ''t'' ''BTC-PERP'' 1000 sample_status edge_quotes =
     (\<lambda>v. if v = ''okx'' \<or> v = ''bybit'' then 1 / 2 else 0)"
  unfolding weight_def edge_trust by (auto simp: NormalizeTrust_def Consensus_Math.epsilon_def map_get_def)

definition edge_row :: "Venue \<Rightarrow> real \<Rightarrow> VenueMetrics" where
  "edge_row v px = \<lparr>vm_Venue = v, vm_Status = StateOK, vm_Trust = 1 / 2, vm_Mid = px, vm_BuyExec = px * 1.0005,
     vm_SellExec = px * 0.9995, vm_EffectiveBuy = px * 1.0005 * 1.0005, vm_EffectiveSell = px * 0.9995 * 0.9995,
     vm_DeviationBps = \<bar>px - 102\<bar> / 102 * 10000, vm_Flags = []\<rparr>"

lemma edge_metrics:
  "\<exists>g. metrics_of edge_policy ''t'' ''BTC-PERP'' 1000 sample_status edge_quotes = [edge_row ''okx'' 100, edge_row ''bybit'' 102, g] \<and>
       vm_Venue g = ''gate'' \<and> vm_Status g = StateBlacklisted"
  unfolding metrics_of_def row_of_def edge_median edge_mad edge_weight by (simp add: edge_defs edge_row_def)

lemma edge_update_simps:
  "cu_Symbol edge_update = ''BTC-PERP''" "cu_TsMs edge_update = 1000" "c_Mid (cu_Consensus edge_update) = 101"
  "\<exists>g. cu_Venues edge_update = [edge_row ''okx'' 100, edge_row ''bybit'' 102, g] \<and> vm_Venue g = ''gate'' \<and> vm_Status g = StateBlacklisted"
  "c_Quality (cu_Consensus edge_update) = ''MED''"
  using edge_metrics
  by (auto simp: Compute_unfold [OF edge_resolved [symmetric] edge_not_paused] consensus_prices_def Let_def edge_weight)
     (simp_all add: qualityScore_def core_eligible_def CoreVenueSet_def edge_policy_def sample_policy_def edge_row_def eligible_of_def edge_quotes_def Let_def)

lemma edge_filter: "filterVenues edge_arb edge_update = [edge_row ''okx'' 100, edge_row ''bybit'' 102]"
  using edge_update_simps(4)
  by (auto simp: filterVenues_def eligible_venue_def edge_arb_def sample_arb_def edge_row_def hasFlag_def)

lemma edge_gates: "gates_open edge_arb edge_update"
  unfolding gates_open_def edge_filter edge_update_simps
  by (simp add: edge_arb_def sample_arb_def qualityRank_def intentTTL_def map_get_def Arb_Engine.epsilon_def)

lemma edge_policy_values:
  "latencyBuffer edge_arb ''MED'' s = 0" "minEdge edge_arb ''MED'' s = 6"
  by (simp_all add: latencyBuffer_def minEdge_def override_at_def sample_arb_def edge_arb_def)

lemma edge_items:
  "work_items edge_arb ''BTC-PERP'' (map_get [] (ar_EnabledPairs edge_arb) ''BTC-PERP'') =
     [(1000, ''okx'', ''bybit''), (1000, ''bybit'', ''okx'')]"
  by (simp add: work_items_def sizeLadder_def override_at_def sample_arb_def edge_arb_def map_get_def)

definition edge_intent :: TradeIntent where
  "edge_intent = make_intent edge_arb edge_update (newUUID (no_rnd 0)) 1000 ''okx'' ''bybit''
     (edge_row ''okx'' 100) (edge_row ''bybit'' 102)"

lemma edge_candidates: "snd (candidates_of no_rnd (NewEngine edge_arb) edge_update) = [edge_intent]"
proof -
  have v: "venue_map edge_arb edge_update = map_of [(''bybit'', edge_row ''bybit'' 102), (''okx'', edge_row ''okx'' 100)]"
    unfolding venue_map_def edge_filter by (simp add: edge_row_def)
  have e: "6 \<le> grossEdge 0 101 (edge_row ''okx'' 100) (edge_row ''bybit'' 102)"
    "grossEdge 0 101 (edge_row ''bybit'' 102) (edge_row ''okx'' 100) < 6"
    by (simp_all add: grossEdge_def edge_row_def)
  show ?thesis
    unfolding candidates_of_def edge_update_simps
    using e by (simp add: NewEngine_def NewCooldown_def IsOnCooldownWithTTL_def edge_items v consider_pair_def
      edge_policy_values edge_update_simps edge_intent_def reject_def Let_def)
qed

lemma edge_emits: "snd (Process sample_sort no_rnd (NewEngine edge_arb) edge_update) = [edge_intent]"
proof -
  have "gates_open (en_policy (NewEngine edge_arb)) edge_update" using edge_gates by (simp add: NewEngine_def)
  then show ?thesis
    by (simp add: Process_open Let_def edge_candidates pickBest_def sample_sort_def first_disjoint_def)
qed

lemma edge_venues: "venues_of edge_intent = {''okx'', ''bybit''}"
  by (simp add: venues_of_def edge_intent_def make_intent_def Let_def)

text \<open>
  C1.  From quotes to orders: when the arbitrage engine processes the update that one consensus
  call publishes, every venue of every intent it emits is one of the quoted venues that this
  call left not blacklisted, not in WARN unless the arbitrage policy allows it, and, where that
  policy ignores flagged venues, quotes within the outlier threshold of the median.
\<close>

theorem arb_trades_only_venues_the_consensus_trusts:
  assumes "is_by_profit by_profit" "distinct (map fst quotes)"
  shows "\<Union> (venues_of ` set (snd (Process by_profit rnd e (cr_Update (Compute policy now t sy quotes gs)))))
    \<subseteq> {v. trusted_venue policy now t sy quotes gs (en_policy e) v}"
proof
  let ?u = "cr_Update (Compute policy now t sy quotes gs)"
  let ?p = "ResolvedPolicy policy sy"
  fix v
  assume "v \<in> \<Union> (venues_of ` set (snd (Process by_profit rnd e ?u)))"
  then obtain i where i: "i \<in> set (snd (Process by_profit rnd e ?u))" "v \<in> venues_of i" by blast
  obtain vm where vm: "vm \<in> set (cu_Venues ?u)" "vm_Venue vm = v" "eligible_venue (en_policy e) vm"
    by (rule intent_venue_eligible [OF assms(1) i])
  have np: "not_paused ?p now quotes" using vm(1) paused_venues by force
  obtain v' q where q: "(v', q) \<in> set quotes" "vm_Venue vm = v'"
    "vm_DeviationBps vm = DeviationBps (ComputeMid q) (median_mid ?p quotes)"
    "vm_Status vm = vs_State (row_status (row_of ?p t sy now gs quotes (venue_raw ?p (v', q))))"
    using metrics_mem [OF refl np vm(1)] by metis
  have "ar_IgnoreFlaggedVenues (en_policy e) \<Longrightarrow> vm_DeviationBps vm \<le> p_OutlierBpsWarn ?p"
    using metrics_unflagged [OF refl np vm(1)] vm(3) by (auto simp: eligible_venue_def hasFlag_def list_ex_iff)
  with q vm(2,3) NewStatuses_of [OF refl np assms(2), of v' q t gs]
  show "v \<in> {v. trusted_venue policy now t sy quotes gs (en_policy e) v}"
    by (auto simp: trusted_venue_def eligible_venue_def)
qed

theorem arb_trades_only_venues_the_consensus_trusts_witness:
  "snd (Process sample_sort no_rnd (NewEngine edge_arb) edge_update) = [edge_intent] \<and>
   venues_of edge_intent = {''okx'', ''bybit''} \<and>
   {''okx'', ''bybit''} \<subseteq>
     {v. trusted_venue edge_policy 1000 ''t'' ''BTC-PERP'' edge_quotes sample_status edge_arb v} \<and>
   \<not> trusted_venue edge_policy 1000 ''t'' ''BTC-PERP'' edge_quotes sample_status edge_arb ''gate''"
proof (intro conjI)
  have "distinct (map fst edge_quotes)" by (simp add: edge_quotes_def)
  from arb_trades_only_venues_the_consensus_trusts [OF sample_sort_ok this, of no_rnd "NewEngine edge_arb" edge_policy 1000
      "''t''" "''BTC-PERP''" sample_status]
  show "{''okx'', ''bybit''} \<subseteq>
     {v. trusted_venue edge_policy 1000 ''t'' ''BTC-PERP'' edge_quotes sample_status edge_arb v}"
    unfolding edge_emits by (simp add: edge_venues NewEngine_def)
  have banned: "vs_State (sample_status ''gate'') = StateBlacklisted" by (simp add: sample_status_def)
  have "map_of (cr_NewStatuses (Compute edge_policy 1000 ''t'' ''BTC-PERP'' edge_quotes sample_status)) ''gate'' =
      Some (row_status (row_of edge_policy ''t'' ''BTC-PERP'' 1000 sample_status edge_quotes
        (venue_raw edge_policy (''gate'', sample_quote ''gate'' 500))))"
    by (rule NewStatuses_of [OF edge_resolved [symmetric] edge_not_paused]) (simp_all add: edge_quotes_def)
  also have "row_status (row_of edge_policy ''t'' ''BTC-PERP'' 1000 sample_status edge_quotes
        (venue_raw edge_policy (''gate'', sample_quote ''gate'' 500))) = sample_status ''gate''"
    unfolding row_of_def row_status
    by (subst breaker_step_blacklisted) (simp_all add: sample_status_def fresh_status_def)
  finally show "\<not> trusted_venue edge_policy 1000 ''t'' ''BTC-PERP'' edge_quotes sample_status edge_arb ''gate''"
    using banned by (simp add: trusted_venue_def)
qed (rule edge_emits edge_venues)+

section \<open>From consensus to the risk daemon\<close>

text \<open>
  The daemon's loop over the status updates that one consensus call publishes; each comes with
  the two clock readings of its \<open>RecordBlacklist\<close>.
\<close>

definition feed_status :: "(string \<Rightarrow> int64) \<Rightarrow> Service \<Rightarrow> VenueStatusUpdate \<times> int64 \<times> int64 \<Rightarrow> Service" where
  "feed_status clk s x =
     (case x of (su, now, now') \<Rightarrow>
        fst (main_status_update (su_Status su) (su_Venue su) (su_TtlMs su) now now' clk s))"

lemma feed_status_blacklist:
  "dm_blacklisted (sv_daemon (feed_status clk s (su, now, now'))) =
     (if su_Status su = StateBlacklisted
      then AList.update (su_Venue su) (now + su_TtlMs su) (dm_blacklisted (sv_daemon s))
      else dm_blacklisted (sv_daemon s))"
  by (simp add: feed_status_def main_status_update_def RecordBlacklist_def Let_def case_prod_unfold)

lemma feed_status_policy [simp]:
  "dm_policy (sv_daemon (feed_status clk s x)) = dm_policy (sv_daemon s)"
  by (cases x) (simp add: feed_status_def main_status_update_def RecordBlacklist_def Let_def case_prod_unfold)

lemma feed_run_policy [simp]:
  "dm_policy (sv_daemon (foldl (feed_status clk) s xs)) = dm_policy (sv_daemon s)"
  by (induction xs arbitrary: s) simp_all

lemma feed_run_entry:
  assumes "distinct (map (\<lambda>x. su_Venue (fst x)) xs)" "(su, now, now') \<in> set xs" "su_Status su = StateBlacklisted"
  shows "map_of (dm_blacklisted (sv_daemon (foldl (feed_status clk) s xs))) (su_Venue su) = Some (now + su_TtlMs su)"
  using assms
proof (induction xs rule: rev_induct)
  case Nil
  then show ?case by simp
next
  case (snoc x xs)
  obtain su' n n' where x: "x = (su', n, n')" by (cases x)
  show ?case
  proof (cases "(su, now, now') = x")
    case True
    with snoc.prems(3) show ?thesis by (auto simp: x feed_status_blacklist update_conv')
  next
    case False
    with snoc.prems have "(su, now, now') \<in> set xs" "su_Venue su \<noteq> su_Venue su'"
      by (auto simp: x image_iff)
    with snoc show ?thesis by (simp add: x feed_status_blacklist update_conv')
  qed
qed

lemma blacklistCount_ge:
  assumes "finite V" "\<forall>v\<in>V. \<exists>e. map_of (dm_blacklisted d) v = Some e \<and> t < e"
  shows "int (card V) \<le> blacklistCount t d"
proof -
  let ?xs = "filter (\<lambda>e. t < snd e) (dm_blacklisted d)"
  have "V \<subseteq> fst ` set ?xs" using assms(2) by (force dest: map_of_SomeD)
  then have "card V \<le> card (fst ` set ?xs)" by (intro card_mono) simp_all
  also have "\<dots> \<le> length ?xs" by (metis card_length length_map set_map)
  finally show ?thesis by (simp add: blacklistCount_def)
qed

lemma evaluate_safe:
  assumes "rp_MinCoreVenuesForSafeMode (dm_policy d) \<le> blacklistCount now d"
  shows "ModeSafe \<le> CurrentMode (fst (evaluate now clk d))"
proof (cases "frozen (CurrentMode d)")
  case True
  then show ?thesis by (auto simp: evaluate_mode frozen_def less_eq_Mode_def)
next
  case False
  have "safe_due now (refresh now d)" using assms by (simp add: safe_due_def)
  with False show ?thesis by (simp add: evaluate_mode required_mode_def less_eq_Mode_def modeRank_raise)
qed

lemma feed_ignored: "su_Status (fst x) \<noteq> StateBlacklisted \<Longrightarrow> feed_status clk s x = s"
  by (cases x) (simp add: feed_status_def main_status_update_def)

lemma feed_run_ignored: "\<forall>x\<in>set xs. su_Status (fst x) \<noteq> StateBlacklisted \<Longrightarrow> foldl (feed_status clk) s xs = s"
  by (induction xs) (simp_all add: feed_ignored)

abbreviation blacklistings :: "(VenueStatusUpdate \<times> int64 \<times> int64) list \<Rightarrow> (VenueStatusUpdate \<times> int64 \<times> int64) list" where
  "blacklistings xs \<equiv> filter (\<lambda>x. su_Status (fst x) = StateBlacklisted) xs"

lemma feed_run_safe:
  assumes "distinct (map (\<lambda>x. su_Venue (fst x)) xs)"
    and "rp_MinCoreVenuesForSafeMode (dm_policy (sv_daemon s)) \<le> int (length (blacklistings xs))" "blacklistings xs \<noteq> []"
    and "\<forall>(su, now, now')\<in>set xs. \<forall>(su2, now2, now2')\<in>set xs. now' < now2 + su_TtlMs su2"
  shows "ModeSafe \<le> CurrentMode (sv_daemon (foldl (feed_status clk) s xs))"
proof -
  obtain su n n' ys zs where xs: "xs = ys @ (su, n, n') # zs" "su_Status su = StateBlacklisted"
      "\<forall>x\<in>set zs. su_Status (fst x) \<noteq> StateBlacklisted"
    using split_list_last_prop [of xs "\<lambda>x. su_Status (fst x) = StateBlacklisted"] assms(3)
    by (auto simp: filter_empty_conv)
  let ?xs = "ys @ [(su, n, n')]"
  let ?bl = "blacklistings ?xs"
  have bl: "blacklistings xs = ?bl" using xs(2,3) by (simp add: xs(1) filter_empty_conv)
  have run: "foldl (feed_status clk) s xs = foldl (feed_status clk) s ?xs"
    using feed_run_ignored [OF xs(3)] by (simp add: xs(1))
  let ?s = "foldl (feed_status clk) s ys"
  let ?d = "(sv_daemon ?s)\<lparr>dm_blacklisted := AList.update (su_Venue su) (n + su_TtlMs su) (dm_blacklisted (sv_daemon ?s))\<rparr>"
  have last: "sv_daemon (foldl (feed_status clk) s ?xs) = fst (evaluate n' clk ?d)"
    using xs(2) by (simp add: feed_status_def main_status_update_def RecordBlacklist_def Let_def case_prod_unfold)
  have dist: "distinct (map (\<lambda>x. su_Venue (fst x)) ?xs)" using assms(1) by (simp add: xs(1))
  let ?V = "(\<lambda>x. su_Venue (fst x)) ` set ?bl"
  have "\<exists>e. map_of (dm_blacklisted ?d) v = Some e \<and> n' < e" if v: "v \<in> ?V" for v
  proof -
    obtain x where "x \<in> set ?xs" "su_Status (fst x) = StateBlacklisted" "v = su_Venue (fst x)"
      using v unfolding set_filter by blast
    moreover obtain su2 m m' where "x = (su2, m, m')" by (cases x)
    ultimately have x: "(su2, m, m') \<in> set ?xs" "su_Status su2 = StateBlacklisted" "v = su_Venue su2"
      by simp_all
    have "dm_blacklisted ?d = dm_blacklisted (sv_daemon (foldl (feed_status clk) s ?xs))"
      using xs(2) by (simp add: feed_status_blacklist)
    moreover have "n' < m + su_TtlMs su2" using assms(4) x(1) by (fastforce simp: xs(1))
    ultimately show ?thesis using feed_run_entry [OF dist x(1,2), of clk s] x(3) by simp
  qed
  then have "int (card ?V) \<le> blacklistCount n' ?d" by (intro blacklistCount_ge) auto
  moreover have "card ?V = length ?bl"
  proof -
    have "distinct (map (\<lambda>x. su_Venue (fst x)) ?bl)" by (rule distinct_map_filter [OF dist])
    from distinct_card [OF this] show ?thesis unfolding set_map length_map .
  qed
  ultimately have "rp_MinCoreVenuesForSafeMode (dm_policy ?d) \<le> blacklistCount n' ?d"
    using assms(2) bl by simp
  then show ?thesis unfolding run last by (rule evaluate_safe)
qed

text \<open>The updates of one consensus call: distinct venues, and the policy's time to live.\<close>

lemma map_filter_venues:
  assumes "\<And>x y. f x = Some y \<Longrightarrow> g y = h x"
  shows "subseq (map g (List.map_filter f xs)) (map h xs)"
  using assms by (induction xs) (auto simp: List.map_filter_simps split: option.split)

lemma row_update_venue:
  "row_update (row_of p t sy now gs quotes r) = Some su \<Longrightarrow> su_Venue su = vr_venue r"
  by (auto simp: row_of_def venue_row_def Let_def case_prod_unfold split: if_splits)

lemma row_update_ttl:
  "row_update (row_of p t sy now gs quotes r) = Some su \<Longrightarrow> su_Status su = StateBlacklisted \<Longrightarrow>
     su_TtlMs su = p_BlacklistTtlMs p"
  by (auto simp: row_of_def venue_row_def Let_def case_prod_unfold split: if_splits)

lemma status_updates_venues:
  assumes "distinct (map fst quotes)"
  shows "distinct (map su_Venue (cr_StatusUpdates (Compute policy now t sy quotes gs)))"
proof (cases "not_paused (ResolvedPolicy policy sy) now quotes")
  case False
  then show ?thesis by (simp add: Compute_def not_paused_def Let_def)
next
  case True
  let ?p = "ResolvedPolicy policy sy"
  have "subseq (map su_Venue (cr_StatusUpdates (Compute policy now t sy quotes gs)))
      (map vr_venue (eligible_of ?p quotes))"
    unfolding Compute_unfold [OF refl True] ComputeResult.select_convs
    by (rule map_filter_venues) (rule row_update_venue)
  moreover have "distinct (map vr_venue (eligible_of ?p quotes))"
    using assms by (simp add: eligible_of_def comp_def)
  ultimately show ?thesis unfolding subseq_conv_nths by (auto simp: distinct_nthsI)
qed

lemma status_updates_ttl:
  assumes "su \<in> set (cr_StatusUpdates (Compute policy now t sy quotes gs))" "su_Status su = StateBlacklisted"
  shows "su_TtlMs su = p_BlacklistTtlMs policy"
proof (cases "not_paused (ResolvedPolicy policy sy) now quotes")
  case False
  then show ?thesis using assms by (simp add: Compute_def not_paused_def Let_def)
next
  case True
  then show ?thesis
    using assms row_update_ttl by (fastforce simp: Compute_unfold [OF refl True] List.map_filter_def)
qed

text \<open>
  The mode as the risk daemon writes it to Redis and the allocator reads it back.
\<close>

fun mode_string :: "Mode \<Rightarrow> string" where
  "mode_string ModeRunning = ''RUNNING''"
| "mode_string ModePaused = ''PAUSED''"
| "mode_string ModeSafe = ''SAFE''"
| "mode_string ModeFlatten = ''FLATTEN''"
| "mode_string ModeHalted = ''HALTED''"
| "mode_string (ModeOther s) = s"

lemma safe_mode_stops_allocator:
  "ModeSafe \<le> m \<Longrightarrow> snd (main_alloc um e (Round kill fills (mode_string m) intents)) = []"
  by (rule not_running_publishes_nothing) (cases m; simp add: less_eq_Mode_def)+

text \<open>
  C4.  From consensus to operating mode: when one consensus call blacklists at least as many
  venues as the risk policy tolerates, and the risk daemon receives the status updates of that
  call, in order and each within the blacklist's time to live of the others, then whatever its
  state was before, its mode is at least SAFE, and a round of the capital allocator that reads
  this mode publishes no intent, whatever it is given.
\<close>

theorem mass_blacklisting_forces_safe_mode:
  assumes "distinct (map fst quotes)" "map fst xs = cr_StatusUpdates (Compute policy now t sy quotes gs)"
    and "1 \<le> rp_MinCoreVenuesForSafeMode (dm_policy (sv_daemon s))"
    and "rp_MinCoreVenuesForSafeMode (dm_policy (sv_daemon s)) \<le> int (length (blacklistings xs))"
    and "\<forall>(su, n, n')\<in>set xs. \<forall>(su2, n2, n2')\<in>set xs. n' < n2 + p_BlacklistTtlMs policy"
  shows "ModeSafe \<le> CurrentMode (sv_daemon (foldl (feed_status clk) s xs)) \<and>
    snd (main_alloc um e (Round kill fills (mode_string (CurrentMode (sv_daemon (foldl (feed_status clk) s xs)))) intents)) = []"
proof -
  let ?bl = "blacklistings xs"
  have "distinct (map (\<lambda>x. su_Venue (fst x)) xs)"
    using status_updates_venues [OF assms(1), of policy now t sy gs] assms(2) [symmetric] by (simp add: comp_def)
  then have dist: "distinct (map (\<lambda>x. su_Venue (fst x)) ?bl)" by (rule distinct_map_filter)
  have ttl: "su_TtlMs su = p_BlacklistTtlMs policy" if "(su, n, n') \<in> set ?bl" for su n n'
  proof -
    have "su \<in> set (map fst xs)" "su_Status su = StateBlacklisted" using that by force+
    then show ?thesis unfolding assms(2) by (rule status_updates_ttl)
  qed
  have times: "\<forall>(su, n, n')\<in>set ?bl. \<forall>(su2, n2, n2')\<in>set ?bl. n' < n2 + su_TtlMs su2"
    using assms(5) ttl by fastforce
  have skip: "foldl (feed_status clk) s xs = foldl (feed_status clk) s ?bl"
    by (induction xs arbitrary: s) (simp_all add: feed_ignored)
  have "?bl \<noteq> []" using assms(3,4) by auto
  then have safe: "ModeSafe \<le> CurrentMode (sv_daemon (foldl (feed_status clk) s xs))"
    unfolding skip using assms(4) by (intro feed_run_safe [OF dist]) (use times in auto)
  then show ?thesis by (blast intro: safe_mode_stops_allocator)
qed

definition sample_breach :: "Venue \<Rightarrow> VenueStatus" where
  "sample_breach v = (if v = ''gate'' then fresh_status\<lparr>vs_HardOutlierSinceMs := 1000\<rparr> else fresh_status)"

lemma sample_breach_updates:
  "\<exists>su. cr_StatusUpdates (Compute sample_policy 3000 ''t'' ''BTC-PERP'' sample_quotes sample_breach) = [su] \<and>
     su_Status su = StateBlacklisted"
proof -
  have med: "median_mid sample_policy sample_quotes = 100.1"
    by (simp add: median_mid_def eligible_of_def sample_quotes_def Median_def)
  have calm: "snd (snd (UpdateVenueStatus 3000 (sample_breach v) (DeviationBps x 100.1) sample_policy)) = False"
    if "v \<noteq> ''gate''" "x \<in> {100, 100.1}" for v x
    using that by (auto simp: sample_breach_def fresh_status_def DeviationBps_def breaker_defs)
  have hot: "vs_State (fst (UpdateVenueStatus 3000 (sample_breach ''gate'') (DeviationBps 500 100.1) sample_policy)) = StateBlacklisted"
    "snd (snd (UpdateVenueStatus 3000 (sample_breach ''gate'') (DeviationBps 500 100.1) sample_policy)) = True"
    by (simp_all add: sample_breach_def fresh_status_def DeviationBps_def breaker_defs Consensus_Math.epsilon_def)
  have upd: "row_update (row_of sample_policy ''t'' ''BTC-PERP'' 3000 sample_breach sample_quotes r) =
      (let u = UpdateVenueStatus 3000 (sample_breach (vr_venue r)) (DeviationBps (vr_mid r) 100.1) sample_policy
       in if snd (snd u) then
            Some \<lparr>su_SchemaVersion = 0, su_TenantID = ''t'', su_Venue = vr_venue r, su_Symbol = ''BTC-PERP'',
              su_TsMs = 3000, su_Status = vs_State (fst u),
              su_TtlMs = (if vs_State (fst u) = StateBlacklisted then p_BlacklistTtlMs sample_policy else 0),
              su_Reason = vs_Reason (fst u)\<rparr>
          else None)" for r
    by (simp add: row_of_def venue_row_def med Let_def case_prod_unfold)
  have el: "eligible_of sample_policy sample_quotes = map (venue_raw sample_policy)
      [(''binance'', sample_quote ''binance'' 100), (''okx'', sample_quote ''okx'' 100.1),
       (''gate'', sample_quote ''gate'' 500)]"
    by (simp add: eligible_of_def sample_quotes_def)
  show ?thesis
    unfolding el Compute_unfold [where p = sample_policy and policy = sample_policy and sy = "''BTC-PERP''",
        OF sample_policy_simps(1) [symmetric] sample_facts(2)] ComputeResult.select_convs
    by (simp add: el List.map_filter_simps upd calm hot Let_def del: sample_policy_simps)
qed

theorem mass_blacklisting_forces_safe_mode_witness:
  "\<exists>su. cr_StatusUpdates (Compute sample_policy 3000 ''t'' ''BTC-PERP'' sample_quotes sample_breach) = [su] \<and>
     ModeSafe \<le> CurrentMode (sv_daemon (foldl (feed_status (\<lambda>s. 0))
       (main_init (sample_risk_policy\<lparr>rp_MinCoreVenuesForSafeMode := 1\<rparr>)) [(su, 5, 6)])) \<and>
     snd (main_alloc deep_market (main_setup (oi_policy 100)) (Round False []
       (mode_string (CurrentMode (sv_daemon (foldl (feed_status (\<lambda>s. 0))
         (main_init (sample_risk_policy\<lparr>rp_MinCoreVenuesForSafeMode := 1\<rparr>)) [(su, 5, 6)]))))
       [(one_leg_intent 100, ''HIGH'', 7)])) = []"
proof -
  obtain su where su: "cr_StatusUpdates (Compute sample_policy 3000 ''t'' ''BTC-PERP'' sample_quotes sample_breach) = [su]"
    "su_Status su = StateBlacklisted" using sample_breach_updates by blast
  have "ModeSafe \<le> CurrentMode (sv_daemon (foldl (feed_status (\<lambda>s. 0))
       (main_init (sample_risk_policy\<lparr>rp_MinCoreVenuesForSafeMode := 1\<rparr>)) [(su, 5, 6)])) \<and>
     snd (main_alloc deep_market (main_setup (oi_policy 100)) (Round False []
       (mode_string (CurrentMode (sv_daemon (foldl (feed_status (\<lambda>s. 0))
         (main_init (sample_risk_policy\<lparr>rp_MinCoreVenuesForSafeMode := 1\<rparr>)) [(su, 5, 6)]))))
       [(one_leg_intent 100, ''HIGH'', 7)])) = []"
    by (rule mass_blacklisting_forces_safe_mode [where quotes = sample_quotes and policy = sample_policy
          and now = 3000 and t = "''t''" and sy = "''BTC-PERP''" and gs = sample_breach])
       (simp_all add: su main_init_def NewDaemon_def)
  with su show ?thesis by blast
qed

section \<open>From the funding engine to the allocator\<close>

definition carry_policy :: "float64 \<Rightarrow> AllocPolicy" where
  "carry_policy c = oi_policy c\<lparr>alp_PerStrategyMaxUSD := [(''FUNDING_CARRY'', 2 * c)], alp_InitialCapitalUSD := 0,
     alp_BaselineOI := 0\<rparr>"

text \<open>
  The cap of a venue is checked leg by leg against what was deployed before the intent: a
  funding carry, whose two legs are on one venue, is approved with each leg of the size of the
  cap, and leaves twice the cap deployed on that venue, whatever the cap is.
\<close>

theorem carry_intents_exceed_the_venue_cap:
  assumes "0 < c" "i = buildCarryIntent e uuid t ''BTC-PERP'' ''okx'' d c y slip nowMs"
  shows "oc_Approved (snd (Evaluate now (NewAllocEngine (carry_policy c)) i ''RUNNING'' ''HIGH'')) \<and>
    map_get 0 (alp_PerVenueMaxUSD (carry_policy c)) ''okx'' = c \<and>
    venue_held (fst (Evaluate now (NewAllocEngine (carry_policy c)) i ''RUNNING'' ''HIGH'')) ''okx'' = 2 * c"
proof -
  let ?e = "NewAllocEngine (carry_policy c)"
  obtain l1 l2 where i: "ti_Legs i = [l1, l2]" "tl_Venue l1 = ''okx''" "tl_Venue l2 = ''okx''"
    "tl_NotionalUSD l1 = c" "tl_NotionalUSD l2 = c" "ti_Strategy i = ''FUNDING_CARRY''"
    using assms(2) by (simp add: buildCarryIntent_def fund_intent_def fund_leg_def)
  have n: "totalNotional i = 2 * c" by (simp add: totalNotional_def i)
  have h: "strat_held ?e s = 0" "venue_held ?e v = 0" "ale_initialCapital ?e = 0" "ale_policy ?e = carry_policy c"
    for s v by (simp_all add: strat_held_def venue_held_def NewAllocEngine_def carry_policy_def)
  have p: "alp_PerVenueMaxUSD (carry_policy c) = [''okx'' \<mapsto> c]" "base_cap (carry_policy c) ''FUNDING_CARRY'' = 2 * c"
    "alp_MaxSingleIntentPct (carry_policy c) = 0" "alp_MinQualityForFunding (carry_policy c) = ''MED''"
    "kelly_factor (carry_policy c) = 1" "alp_BaselineOI (carry_policy c) \<le> 0"
    by (simp_all add: carry_policy_def oi_policy_def base_cap_def kelly_factor_def)
  have cap: "strat_cap ?e ''FUNDING_CARRY'' = 2 * c"
    by (simp add: strat_cap_def h p) (simp add: NewAllocEngine_def)
  have oi: "oi_multiplier now ?e i = 1" by (rule oi_multiplier_off) (simp add: h p)
  have g: "venue_gate ?e (ti_Legs i) = None" unfolding venue_gate_None using assms(1) by (simp add: i p h)
  have sc: "cap_scale ?e (2 * c) i = 1" by (simp add: cap_scale_def i n p h venue_scale_def)
  have "approval_of now ?e i ''RUNNING'' ''HIGH'' 1"
    unfolding approval_of_def i(6) using assms(1) g sc
    by (simp add: cap h oi p minQualityForStrategy_def alloc_qualityRank_def)
  then have ev: "Evaluate now ?e i ''RUNNING'' ''HIGH'' = approve_scaled 1 i ?e"
    by (rule Evaluate_approves) (use assms(1) in \<open>simp_all add: i(6) p h cap sc oi\<close>)
  show ?thesis unfolding ev by (simp add: approve_scaled_venue i h p)
qed

theorem carry_intents_exceed_the_venue_cap_witness:
  "venue_held (fst (Evaluate 0 (NewAllocEngine (carry_policy 1000))
     (buildCarryIntent sample_fund_engine [] ''t'' ''BTC-PERP'' ''okx'' no_venue_data 1000 20 8 0) ''RUNNING'' ''HIGH''))
     ''okx'' = 2000"
  using carry_intents_exceed_the_venue_cap [of 1000, OF _ refl] by simp

end
